(* ===== verification/Prelude.thy ===== *)
theory Prelude
  imports Complex_Main "HOL-Library.AList" "HOL-Library.Sublist" "HOL-Library.Multiset"
    "HOL-Library.List_Lexorder" "HOL-Library.Char_ord"
begin

text \<open>
  Shared vocabulary of the development.  It fixes how the Python values the repository
  computes with are read in HOL: finite floats as \<open>real\<close> (rounding errors of binary
  floating point are not modelled; where a NaN or an infinity matters the type
  \<open>py_float\<close> of theory Py_Float is used), \<open>int\<close> for Python's unbounded integers,
  \<open>string\<close> with the lexicographic order for text, insertion ordered association lists
  for dictionaries, and lists of rows for database tables.  The generic lemmas on sorting,
  rounding, dictionaries and tables below carry the proofs of the component theories.
\<close>

named_theorems table_simps \<open>rewrites on database tables\<close>
named_theorems round_intros \<open>bounds that survive decimal rounding\<close>

section \<open>Errors\<close>

datatype py_error =
    ValueError string
  | KeyError
  | TypeError
  | AttributeError
  | IndexError
  | RuntimeError string
  | StorageError string
  | HTTPException nat string
  | PipelineCancelled

type_synonym 'a result = "py_error + 'a"

abbreviation ok :: "'a \<Rightarrow> 'a result" where "ok x \<equiv> Inr x"
abbreviation raise :: "py_error \<Rightarrow> 'a result" where "raise e \<equiv> Inl e"

fun bind_result :: "'a result \<Rightarrow> ('a \<Rightarrow> 'b result) \<Rightarrow> 'b result" where
  "bind_result (Inl e) f = Inl e"
| "bind_result (Inr x) f = f x"

lemma bind_result_Inr [simp]: "bind_result m f = Inr y \<longleftrightarrow> (\<exists>x. m = Inr x \<and> f x = Inr y)"
  by (cases m) auto

lemma snd_set_update: "snd ` set (AList.update k v al) \<subseteq> insert v (snd ` set al)"
  by (induction al) auto

section \<open>Rounding as Python's built-in round\<close>

text \<open>\<open>round(x)\<close> rounds to the nearest integer and a tie to the even one.\<close>

definition round_half_even :: "real \<Rightarrow> int" where
  "round_half_even x =
     (let f = \<lfloor>x\<rfloor>; d = x - of_int f
      in if d < 1 / 2 then f else if d > 1 / 2 then f + 1 else if even f then f else f + 1)"

definition py_round :: "nat \<Rightarrow> real \<Rightarrow> real" where
  "py_round n x = of_int (round_half_even (x * 10 ^ n)) / 10 ^ n"

lemma round_half_even_error: "\<bar>of_int (round_half_even x) - x\<bar> \<le> 1 / 2"
proof -
  have "of_int \<lfloor>x\<rfloor> \<le> x" "x < of_int \<lfloor>x\<rfloor> + 1" by linarith+
  then show ?thesis by (auto simp: round_half_even_def Let_def abs_le_iff)
qed

lemma round_half_even_of_int [simp]: "round_half_even (of_int k) = k"
  by (simp add: round_half_even_def)

lemma round_half_even_mono: assumes "x \<le> y" shows "round_half_even x \<le> round_half_even y"
proof (cases "\<lfloor>x\<rfloor> = \<lfloor>y\<rfloor>")
  case True
  with assms show ?thesis by (auto simp: round_half_even_def Let_def)
next
  case False
  with floor_mono [OF assms] have "\<lfloor>x\<rfloor> + 1 \<le> \<lfloor>y\<rfloor>" by simp
  then show ?thesis by (auto simp: round_half_even_def Let_def)
qed

lemma round_half_even_nonneg: "0 \<le> x \<Longrightarrow> 0 \<le> round_half_even x"
  using round_half_even_mono [of 0 x] round_half_even_of_int [of 0] by simp

lemma py_round_mono [round_intros]: "x \<le> y \<Longrightarrow> py_round n x \<le> py_round n y"
  by (simp add: py_round_def divide_right_mono round_half_even_mono mult_right_mono)

lemma py_round_of_int [simp]: "py_round n (of_int k) = of_int k"
proof -
  have "(of_int k :: real) * 10 ^ n = of_int (k * 10 ^ n)" by simp
  then show ?thesis by (simp only: py_round_def round_half_even_of_int) simp
qed

lemma py_round_0 [simp]: "py_round n 0 = 0"
  using py_round_of_int [of n 0] by simp

lemma py_round_numeral [simp]: "py_round n (numeral k) = numeral k"
  using py_round_of_int [of n "numeral k"] by simp

lemma py_round_nonneg [round_intros]: "0 \<le> x \<Longrightarrow> 0 \<le> py_round n x"
  using py_round_mono [of 0 x n] by simp

lemma py_round_le_of_int: "x \<le> of_int k \<Longrightarrow> py_round n x \<le> of_int k"
  using py_round_mono [of x "of_int k" n] by simp

lemma py_round_le_numeral [round_intros]: "x \<le> numeral k \<Longrightarrow> py_round n x \<le> numeral k"
  using py_round_mono [of x "numeral k" n] by simp

lemma py_round_error: "\<bar>py_round n x - x\<bar> \<le> 1 / (2 * 10 ^ n)"
proof -
  let ?r = "of_int (round_half_even (x * 10 ^ n)) :: real"
  have "py_round n x - x = (?r - x * 10 ^ n) / 10 ^ n"
    by (simp add: py_round_def diff_divide_distrib)
  then have "\<bar>py_round n x - x\<bar> = \<bar>?r - x * 10 ^ n\<bar> / 10 ^ n" by simp
  also have "\<dots> \<le> (1 / 2) / 10 ^ n"
    by (rule divide_right_mono [OF round_half_even_error]) simp
  finally show ?thesis by (simp add: field_simps)
qed

section \<open>Strings\<close>

text \<open>A character is a code point below 256; text beyond Latin-1 is outside the model.\<close>

definition char_lower :: "char \<Rightarrow> char" where
  "char_lower c =
     (let n = of_char c :: nat in
      if 65 \<le> n \<and> n \<le> 90 \<or> 192 \<le> n \<and> n \<le> 222 \<and> n \<noteq> 215 then char_of (n + 32) else c)"

definition str_lower :: "string \<Rightarrow> string" where
  "str_lower = map char_lower"

definition is_space :: "char \<Rightarrow> bool" where
  "is_space c \<longleftrightarrow> c \<in> {CHR '' '', CHR 0x09, CHR 0x0A, CHR 0x0B, CHR 0x0C, CHR 0x0D,
     CHR 0x1C, CHR 0x1D, CHR 0x1E, CHR 0x1F, CHR 0x85, CHR 0xA0}"

definition strip_while :: "(char \<Rightarrow> bool) \<Rightarrow> string \<Rightarrow> string" where
  "strip_while p s = rev (dropWhile p (rev (dropWhile p s)))"

definition str_strip :: "string \<Rightarrow> string" where
  "str_strip s = strip_while is_space s"

text \<open>\<open>sep.join\<close>.\<close>

fun join :: "string \<Rightarrow> string list \<Rightarrow> string" where
  "join sep [] = []"
| "join sep [x] = x"
| "join sep (x # y # ys) = x @ sep @ join sep (y # ys)"

text \<open>The separator of the display texts: a middle dot between blanks.\<close>

definition MIDDOT :: string where "MIDDOT = [CHR '' '', CHR 0xB7, CHR '' '']"

text \<open>\<open>needle in hay\<close>, \<open>s.startswith(p)\<close> and \<open>s.endswith(p)\<close>.\<close>

fun str_in :: "string \<Rightarrow> string \<Rightarrow> bool" where
  "str_in needle [] = (needle = [])"
| "str_in needle (c # cs) = (prefix needle (c # cs) \<or> str_in needle cs)"

lemma str_in_iff_sublist: "str_in needle hay \<longleftrightarrow> sublist needle hay"
  by (induction hay) (auto simp: sublist_Cons_right)

lemma str_in_trans: "str_in a b \<Longrightarrow> str_in b c \<Longrightarrow> str_in a c"
  by (metis str_in_iff_sublist sublist_order.order_trans)

text \<open>Decimal text of a natural number, and the \<open>:03d\<close> style of padding.\<close>

fun str_of_nat :: "nat \<Rightarrow> string" where
  "str_of_nat n = (if n < 10 then [char_of (48 + n)]
                   else str_of_nat (n div 10) @ [char_of (48 + n mod 10)])"

declare str_of_nat.simps [simp del]

definition nat_of_str :: "string \<Rightarrow> nat" where
  "nat_of_str s = fold (\<lambda>c v. v * 10 + (of_char c - 48)) s 0"

lemma nat_of_str_of_nat: "nat_of_str (str_of_nat n) = n"
proof (induction n rule: str_of_nat.induct)
  case (1 n)
  show ?case
  proof (cases "n < 10")
    case True
    then show ?thesis by (subst str_of_nat.simps) (simp add: nat_of_str_def)
  next
    case False
    have "n mod 10 < 10" by simp
    with 1 [OF False] False show ?thesis
      by (subst str_of_nat.simps) (simp add: nat_of_str_def)
  qed
qed

lemma str_of_nat_inj [simp]: "str_of_nat m = str_of_nat n \<longleftrightarrow> m = n"
  by (metis nat_of_str_of_nat)

lemma inj_str_of_nat: "inj str_of_nat"
  by (simp add: inj_def)

definition zero_pad :: "nat \<Rightarrow> string \<Rightarrow> string" where
  "zero_pad w s = replicate (w - length s) (CHR ''0'') @ s"

section \<open>Stable sorting\<close>

text \<open>
  \<open>sorted(xs, key=f)\<close> is the stable \<open>sort_key\<close> of the library; with
  \<open>reverse=True\<close> equal elements still keep their order, which \<open>sort_desc\<close> says.
\<close>

definition sort_desc :: "('a \<Rightarrow> 'k::linorder) \<Rightarrow> 'a list \<Rightarrow> 'a list" where
  "sort_desc f xs = rev (sort_key f (rev xs))"

lemma mset_sort_desc [simp]: "mset (sort_desc f xs) = mset xs"
  by (simp add: sort_desc_def)

lemma set_sort_desc [simp]: "set (sort_desc f xs) = set xs"
  by (simp add: sort_desc_def)

lemma length_sort_desc [simp]: "length (sort_desc f xs) = length xs"
  by (simp add: sort_desc_def)

lemma sorted_sort_desc: "sorted_wrt (\<lambda>a b. f b \<le> f a) (sort_desc f xs)"
  using sorted_sort_key [of f "rev xs"]
  by (simp add: sort_desc_def sorted_wrt_rev sorted_map)

lemma sort_desc_stable: "filter (\<lambda>y. f y = k) (sort_desc f xs) = filter (\<lambda>y. f y = k) xs"
proof -
  have "filter (\<lambda>y. f y = k) (sort_key f (rev xs)) = filter (\<lambda>y. f y = k) (rev xs)"
    by (rule sort_key_stable)
  then show ?thesis by (simp add: sort_desc_def rev_filter [symmetric])
qed

lemma sort_desc_Nil [simp]: "sort_desc f [] = []"
  by (simp add: sort_desc_def)

lemma sort_desc_eq_Nil [simp]: "sort_desc f xs = [] \<longleftrightarrow> xs = []"
  by (metis length_0_conv length_sort_desc)

text \<open>In a list in descending order of a key, what precedes has the larger key.\<close>

lemma desc_take_drop:
  assumes "sorted_wrt (\<lambda>a b. f b \<le> f a) xs" "a \<in> set (take n xs)" "b \<in> set (drop n xs)"
  shows "f b \<le> (f a :: 'k::linorder)"
proof -
  have "sorted_wrt (\<lambda>a b. f b \<le> f a) (take n xs @ drop n xs)" using assms(1) by simp
  then show ?thesis using assms(2,3) unfolding sorted_wrt_append by blast
qed

section \<open>Maxima, means and percentiles\<close>

definition list_max :: "real list \<Rightarrow> real" where
  "list_max xs = fold max (tl xs) (hd xs)"

lemma fold_max_ge: "a \<le> fold max xs (a::real)"
proof (induction xs arbitrary: a)
  case (Cons x xs)
  have "a \<le> max x a" by simp
  also have "\<dots> \<le> fold max xs (max x a)" by (rule Cons.IH)
  finally show ?case by simp
qed simp

lemma fold_max_in: "fold max xs (a::real) \<in> insert a (set xs)"
proof (induction xs arbitrary: a)
  case (Cons x xs)
  have "fold max xs (max x a) \<in> insert (max x a) (set xs)" by (rule Cons.IH)
  then show ?case by (cases "x \<le> a") (auto simp: max_absorb1 max_absorb2)
qed simp

lemma fold_max_upper: "x \<in> insert a (set xs) \<Longrightarrow> x \<le> fold max xs (a::real)"
proof (induction xs arbitrary: a)
  case (Cons y xs)
  show ?case
  proof (cases "x \<in> set xs")
    case True with Cons.IH show ?thesis by simp
  next
    case False
    with Cons.prems have "x \<le> max y a" by auto
    also have "\<dots> \<le> fold max xs (max y a)" by (rule fold_max_ge)
    finally show ?thesis by simp
  qed
qed simp

lemma list_max_in: "xs \<noteq> [] \<Longrightarrow> list_max xs \<in> set xs"
  by (cases xs) (use fold_max_in in \<open>auto simp: list_max_def\<close>)

lemma list_max_upper: "x \<in> set xs \<Longrightarrow> x \<le> list_max xs"
  by (cases xs) (auto simp: list_max_def intro: fold_max_upper)

definition mean :: "real list \<Rightarrow> real" where
  "mean xs = sum_list xs / of_nat (length xs)"

lemma sum_list_bounds:
  assumes "\<And>x. x \<in> set xs \<Longrightarrow> lo \<le> x" "\<And>x. x \<in> set xs \<Longrightarrow> x \<le> (hi::real)"
  shows "lo * of_nat (length xs) \<le> sum_list xs \<and> sum_list xs \<le> hi * of_nat (length xs)"
  using assms
proof (induction xs)
  case (Cons x xs)
  have "lo * of_nat (length xs) \<le> sum_list xs \<and> sum_list xs \<le> hi * of_nat (length xs)"
    by (rule Cons.IH) (simp_all add: Cons.prems)
  moreover have "lo \<le> x" "x \<le> hi" by (simp_all add: Cons.prems)
  ultimately show ?case by (simp add: algebra_simps)
qed simp

lemma mean_bounds:
  assumes "xs \<noteq> []" "\<And>x. x \<in> set xs \<Longrightarrow> lo \<le> x" "\<And>x. x \<in> set xs \<Longrightarrow> x \<le> hi"
  shows "lo \<le> mean xs \<and> mean xs \<le> hi"
  using sum_list_bounds [OF assms(2,3), of xs] assms(1)
  by (simp add: mean_def field_simps)

text \<open>
  \<open>numpy.percentile(xs, q)\<close> with the default linear interpolation: the position
  \<open>q/100 * (n-1)\<close> between the sorted values.
\<close>

definition percentile :: "real list \<Rightarrow> real \<Rightarrow> real" where
  "percentile xs q =
     (let s = sort xs; pos = q / 100 * (of_nat (length xs) - 1); lo = nat \<lfloor>pos\<rfloor>;
          hi = min (lo + 1) (length xs - 1); frac = pos - of_nat lo
      in s ! lo + (s ! hi - s ! lo) * frac)"

lemma percentile_bounds:
  assumes ne: "xs \<noteq> []" and q: "0 \<le> q" "q \<le> 100"
  shows "Min (set xs) \<le> percentile xs q \<and> percentile xs q \<le> Max (set xs)"
proof -
  define s pos lo hi where "s = sort xs" and "pos = q / 100 * (of_nat (length xs) - 1)"
    and "lo = nat \<lfloor>pos\<rfloor>" and "hi = min (lo + 1) (length xs - 1)"
  define frac where "frac = pos - of_nat lo"
  from ne have n: "1 \<le> length xs" by (cases xs) auto
  have pos: "0 \<le> pos" "pos \<le> of_nat (length xs) - 1"
    using q n mult_right_mono [of q 100 "real (length xs) - 1"] by (auto simp: pos_def)
  have lo: "lo < length xs" using pos n by (simp add: lo_def) linarith
  have hi: "hi < length xs" using n by (simp add: hi_def)
  have frac: "0 \<le> frac" "frac \<le> 1" using pos by (auto simp: frac_def lo_def) linarith+
  have in_set: "s ! i \<in> set xs" if "i < length xs" for i
    using that by (metis length_sort nth_mem s_def set_sort)
  have b: "Min (set xs) \<le> s ! lo" "s ! lo \<le> Max (set xs)" "Min (set xs) \<le> s ! hi" "s ! hi \<le> Max (set xs)"
    using in_set [OF lo] in_set [OF hi] by auto
  have eq: "percentile xs q = (1 - frac) * s ! lo + frac * s ! hi"
    by (simp add: percentile_def Let_def s_def pos_def lo_def hi_def frac_def algebra_simps)
  have "(1 - frac) * Min (set xs) + frac * Min (set xs) \<le> percentile xs q"
    unfolding eq using frac b by (intro add_mono mult_left_mono) auto
  moreover have "percentile xs q \<le> (1 - frac) * Max (set xs) + frac * Max (set xs)"
    unfolding eq using frac b by (intro add_mono mult_left_mono) auto
  ultimately show ?thesis by (simp add: algebra_simps)
qed

lemma percentile_nonneg:
  "xs \<noteq> [] \<Longrightarrow> 0 \<le> q \<Longrightarrow> q \<le> 100 \<Longrightarrow> (\<And>x. x \<in> set xs \<Longrightarrow> 0 \<le> x) \<Longrightarrow> 0 \<le> percentile xs q"
  using percentile_bounds [of xs q] Min_in [of "set xs"]
  by (meson List.finite_set order_trans set_empty)

text \<open>The two guarded uses: no value gives 0.\<close>

definition pct_or_0 :: "real list \<Rightarrow> real \<Rightarrow> real" where
  "pct_or_0 xs q = (if xs = [] then 0 else percentile xs q)"

definition mapM_result :: "('a \<Rightarrow> 'b result) \<Rightarrow> 'a list \<Rightarrow> 'b list result" where
  "mapM_result f xs = foldr (\<lambda>x r. bind_result (f x) (\<lambda>y. bind_result r (\<lambda>ys. ok (y # ys)))) xs (ok [])"

text \<open>A Python dictionary of lists filled by \<open>setdefault(k, []).append(v)\<close>.\<close>

definition append_at :: "'k \<Rightarrow> 'v \<Rightarrow> ('k \<times> 'v list) list \<Rightarrow> ('k \<times> 'v list) list" where
  "append_at k v d = AList.update k ((case map_of d k of None \<Rightarrow> [] | Some vs \<Rightarrow> vs) @ [v]) d"

definition group_pairs :: "('k \<times> 'v) list \<Rightarrow> ('k \<times> 'v list) list" where
  "group_pairs kvs = fold (\<lambda>(k, v). append_at k v) kvs []"

lemma map_of_append_at: "map_of (append_at k v d) = (map_of d)(k \<mapsto> (case map_of d k of None \<Rightarrow> [] | Some vs \<Rightarrow> vs) @ [v])"
  by (simp add: append_at_def update_conv')

lemma distinct_append_at: "distinct (map fst d) \<Longrightarrow> distinct (map fst (append_at k v d))"
  by (simp add: append_at_def distinct_update)

lemma map_of_group_pairs:
  "map_of (group_pairs kvs) k = (let vs = map snd (filter (\<lambda>kv. fst kv = k) kvs) in if vs = [] then None else Some vs)"
proof (induction kvs rule: rev_induct)
  case (snoc kv kvs)
  obtain k' v where kv: "kv = (k', v)" by force
  have "group_pairs (kvs @ [kv]) = append_at k' v (group_pairs kvs)" by (simp add: group_pairs_def kv)
  then show ?case using snoc by (auto simp: map_of_append_at kv Let_def split: if_splits)
qed (simp add: group_pairs_def)

lemma distinct_group_pairs: "distinct (map fst (group_pairs kvs))"
  by (induction kvs rule: rev_induct) (auto simp: group_pairs_def distinct_append_at split: prod.split)

lemma set_group_pairs: "(k, vs) \<in> set (group_pairs kvs) \<longleftrightarrow> vs \<noteq> [] \<and> vs = map snd (filter (\<lambda>kv. fst kv = k) kvs)"
  by (auto simp: map_of_eq_Some_iff [OF distinct_group_pairs, symmetric] map_of_group_pairs Let_def)

section \<open>Minima by a key\<close>

text \<open>Python's \<open>min\<close> and \<open>max\<close> with a key: the first element with the best key.\<close>

fun min_by :: "('a \<Rightarrow> 'k::linorder) \<Rightarrow> 'a list \<Rightarrow> 'a option" where
  "min_by f [] = None"
| "min_by f (x # xs) = Some (fold (\<lambda>y best. if f y < f best then y else best) xs x)"

lemma min_by_in: "min_by f xs = Some x \<Longrightarrow> x \<in> set xs \<and> (\<forall>y \<in> set xs. f x \<le> f y)"
proof (cases xs)
  case (Cons a as)
  have "fold (\<lambda>y best. if f y < f best then y else best) as a \<in> insert a (set as) \<and>
    (\<forall>y \<in> insert a (set as). f (fold (\<lambda>y best. if f y < f best then y else best) as a) \<le> f y)"
  proof (induction as arbitrary: a)
    case (Cons b as)
    from Cons.IH [of "if f b < f a then b else a"] show ?case by (auto split: if_splits)
  qed simp
  then show "min_by f xs = Some x \<Longrightarrow> ?thesis" using Cons by auto
qed simp

lemma min_by_None [simp]: "min_by f xs = None \<longleftrightarrow> xs = []"
  by (cases xs) auto

section \<open>Lists in groups\<close>

function chunks :: "nat \<Rightarrow> 'a list \<Rightarrow> 'a list list" where
  "chunks n xs = (if n = 0 \<or> xs = [] then [] else take n xs # chunks n (drop n xs))"
  by pat_completeness auto
termination by (relation "measure (length \<circ> snd)") auto

declare chunks.simps [simp del]

lemma concat_chunks: "0 < n \<Longrightarrow> concat (chunks n xs) = xs"
  by (induction n xs rule: chunks.induct) (subst chunks.simps, simp)

lemma chunks_nonempty: "c \<in> set (chunks n xs) \<Longrightarrow> c \<noteq> []"
  by (induction n xs rule: chunks.induct) (subst (asm) (2) chunks.simps, auto split: if_splits)

lemma length_chunks: "0 < n \<Longrightarrow> length (chunks n xs) * n < length xs + n"
proof (induction n xs rule: chunks.induct)
  case (1 n xs)
  show ?case
  proof (cases "xs = []")
    case False
    with 1 have "length (chunks n (drop n xs)) * n < length (drop n xs) + n" by simp
    moreover have "length (chunks n xs) = Suc (length (chunks n (drop n xs)))" using 1 False by (subst chunks.simps) simp
    ultimately show ?thesis using False by (cases "n \<le> length xs") (auto simp: chunks.simps)
  qed (use 1 in \<open>simp add: chunks.simps\<close>)
qed

lemma length_chunks_one [simp]: "length (chunks 1 xs) = length xs" "length (chunks (Suc 0) xs) = length xs"
  by (induction xs) (subst chunks.simps, simp)+

text \<open>A list cut into \<open>k\<close> groups by rounding the size of a group down has up to \<open>2 * k - 1\<close> of them.\<close>

lemma chunk_count:
  assumes "0 < k" shows "length (chunks (max 1 (length xs div min k (length xs))) xs) \<le> 2 * k - 1"
proof -
  define n s where "n = length xs" and "s = max 1 (n div min k n)"
  define c where "c = length (chunks s xs)"
  have s: "0 < s" by (simp add: s_def)
  have c: "c * s < n + s" using length_chunks [OF s, of xs] by (simp add: c_def n_def)
  have "c < 2 * k"
  proof (rule ccontr)
    assume "\<not> c < 2 * k"
    then have "2 * k * s \<le> c * s" by (intro mult_le_mono1) simp
    with c have n: "2 * k * s < n + s" by linarith
    have ks: "k \<le> k * s" "s \<le> k * s" using assms s by simp_all
    show False
    proof (cases "n \<le> k")
      case True
      with n ks show False by linarith
    next
      case False
      then have "s = n div k" using assms by (simp add: s_def div_greater_zero_iff Suc_le_eq)
      then have nk: "n < k * s + k" using dividend_less_times_div [OF assms, of n] by simp
      with n have "k * s < k + s" by linarith
      then have "s = 1 \<or> k = 1" using s assms by (cases s; cases k) (auto simp: algebra_simps)
      with n nk show False by auto
    qed
  qed
  then show ?thesis by (simp add: c_def s_def n_def)
qed

section \<open>Database tables as lists of rows\<close>

text \<open>
  \<open>session.get(Row, k)\<close> and \<open>select(Row).where(p).first()\<close> are \<open>find\<close>; assigning to a
  fetched row is \<open>upd_where\<close>; \<open>session.add\<close> of a new row appends; \<open>delete().where(p)\<close>
  filters.
\<close>

definition upd_where :: "('r \<Rightarrow> bool) \<Rightarrow> ('r \<Rightarrow> 'r) \<Rightarrow> 'r list \<Rightarrow> 'r list" where
  "upd_where p f t = map (\<lambda>r. if p r then f r else r) t"

definition del_where :: "('r \<Rightarrow> bool) \<Rightarrow> 'r list \<Rightarrow> 'r list" where
  "del_where p t = filter (\<lambda>r. \<not> p r) t"

text \<open>The first row only.\<close>

fun upd_first :: "('r \<Rightarrow> bool) \<Rightarrow> ('r \<Rightarrow> 'r) \<Rightarrow> 'r list \<Rightarrow> 'r list" where
  "upd_first p f [] = []"
| "upd_first p f (r # rs) = (if p r then f r # rs else r # upd_first p f rs)"

fun del_first :: "('r \<Rightarrow> bool) \<Rightarrow> 'r list \<Rightarrow> 'r list" where
  "del_first p [] = []"
| "del_first p (r # rs) = (if p r then rs else r # del_first p rs)"

lemma set_del_where [table_simps, simp]: "set (del_where p t) = {r \<in> set t. \<not> p r}"
  by (auto simp: del_where_def)

lemma set_upd_where [table_simps]: "set (upd_where p f t) = (\<lambda>r. if p r then f r else r) ` set t"
  by (auto simp: upd_where_def)

lemma map_upd_where [table_simps]: "(\<And>r. g (f r) = g r) \<Longrightarrow> map g (upd_where p f t) = map g t"
  by (auto simp: upd_where_def)

lemma length_upd_where [table_simps, simp]: "length (upd_where p f t) = length t"
  by (simp add: upd_where_def)

lemma upd_where_Nil [simp]: "upd_where p f [] = []"
  by (simp add: upd_where_def)

lemma find_upd_where [table_simps]:
  "(\<And>r. q (f r) = q r) \<Longrightarrow>
   find q (upd_where p f t) = map_option (\<lambda>r. if p r then f r else r) (find q t)"
  by (induction t) (auto simp: upd_where_def)

lemma find_append [table_simps]:
  "find q (xs @ ys) = (case find q xs of None \<Rightarrow> find q ys | Some r \<Rightarrow> Some r)"
  by (induction xs) auto

lemma find_del_where_same [table_simps]: "(\<And>r. q r \<Longrightarrow> p r) \<Longrightarrow> find q (del_where p t) = None"
  by (auto simp: find_None_iff)

lemma find_del_where_other [table_simps]: "(\<And>r. q r \<Longrightarrow> \<not> p r) \<Longrightarrow> find q (del_where p t) = find q t"
  by (induction t) (auto simp: del_where_def)

lemma filter_upd_where [table_simps]:
  "(\<And>r. p r \<Longrightarrow> \<not> q r \<and> \<not> q (f r)) \<Longrightarrow> filter q (upd_where p f t) = filter q t"
  by (induction t) (auto simp: upd_where_def)

lemma upd_where_ball: "(\<forall>r \<in> set (upd_where p f t). Q r) \<longleftrightarrow> (\<forall>r \<in> set t. Q (if p r then f r else r))"
  by (auto simp: upd_where_def)

lemma upd_where_bex: "(\<exists>r \<in> set (upd_where p f t). Q r) \<longleftrightarrow> (\<exists>r \<in> set t. Q (if p r then f r else r))"
  by (auto simp: upd_where_def)

lemma find_in_set: "find p xs = Some r \<Longrightarrow> r \<in> set xs \<and> p r"
  by (auto simp: find_Some_iff)

lemma find_key_unique:
  "distinct (map k t) \<Longrightarrow> r \<in> set t \<Longrightarrow> find (\<lambda>x. k x = k r) t = Some r"
  by (induction t) (auto simp: rev_image_eqI)

end
