(* ===== verification/Py_Float.thy ===== *)
theory Py_Float
  imports Prelude
begin

text \<open>
  IEEE special values.  A \<open>py_float\<close> is a finite number (read as a \<open>real\<close>), an infinity
  or NaN; arithmetic follows numpy's rules (no exception on division by zero), every
  comparison with NaN is false, and \<open>clip\<close> passes NaN through.  The theories on validation
  and on the guarantee ladder compute with these values, because the ladder's gate compares
  a fidelity that can be NaN.
\<close>

datatype py_float = Fin real | PInf | NInf | NaN

section \<open>Predicates and comparisons\<close>

fun pf_isnan :: "py_float \<Rightarrow> bool" where
  "pf_isnan NaN = True"
| "pf_isnan _ = False"

fun pf_isinf :: "py_float \<Rightarrow> bool" where
  "pf_isinf PInf = True"
| "pf_isinf NInf = True"
| "pf_isinf _ = False"

fun pf_le :: "py_float \<Rightarrow> py_float \<Rightarrow> bool" where
  "pf_le NaN _ = False"
| "pf_le _ NaN = False"
| "pf_le (Fin a) (Fin b) = (a \<le> b)"
| "pf_le NInf _ = True"
| "pf_le _ PInf = True"
| "pf_le _ _ = False"

fun pf_lt :: "py_float \<Rightarrow> py_float \<Rightarrow> bool" where
  "pf_lt (Fin a) (Fin b) = (a < b)"
| "pf_lt (Fin _) PInf = True"
| "pf_lt NInf (Fin _) = True"
| "pf_lt NInf PInf = True"
| "pf_lt _ _ = False"

abbreviation pf_ge :: "py_float \<Rightarrow> py_float \<Rightarrow> bool" where "pf_ge a b \<equiv> pf_le b a"

lemma pf_lt_NaN [simp]: "\<not> pf_lt NaN x" "\<not> pf_lt x NaN"
  by (cases x; simp)+

lemma pf_not_lt_imp_ge: "\<not> pf_isnan a \<Longrightarrow> \<not> pf_isnan b \<Longrightarrow> \<not> pf_lt a b \<Longrightarrow> pf_ge a b"
  by (cases a; cases b) auto

section \<open>Arithmetic\<close>

fun pf_neg :: "py_float \<Rightarrow> py_float" where
  "pf_neg (Fin a) = Fin (- a)"
| "pf_neg PInf = NInf"
| "pf_neg NInf = PInf"
| "pf_neg NaN = NaN"

fun pf_add :: "py_float \<Rightarrow> py_float \<Rightarrow> py_float" where
  "pf_add (Fin a) (Fin b) = Fin (a + b)"
| "pf_add NaN _ = NaN"
| "pf_add _ NaN = NaN"
| "pf_add PInf NInf = NaN"
| "pf_add NInf PInf = NaN"
| "pf_add PInf _ = PInf"
| "pf_add _ PInf = PInf"
| "pf_add NInf _ = NInf"
| "pf_add _ NInf = NInf"

definition pf_sub :: "py_float \<Rightarrow> py_float \<Rightarrow> py_float" where
  "pf_sub a b = pf_add a (pf_neg b)"

definition signed_inf :: "real \<Rightarrow> py_float" where
  "signed_inf s = (if s > 0 then PInf else if s < 0 then NInf else NaN)"

fun pf_sign :: "py_float \<Rightarrow> real" where
  "pf_sign (Fin a) = sgn a"
| "pf_sign PInf = 1"
| "pf_sign NInf = -1"
| "pf_sign NaN = 0"

fun pf_mul :: "py_float \<Rightarrow> py_float \<Rightarrow> py_float" where
  "pf_mul (Fin a) (Fin b) = Fin (a * b)"
| "pf_mul NaN _ = NaN"
| "pf_mul _ NaN = NaN"
| "pf_mul a b = signed_inf (pf_sign a * pf_sign b)"

fun pf_div :: "py_float \<Rightarrow> py_float \<Rightarrow> py_float" where
  "pf_div (Fin a) (Fin b) = (if b = 0 then signed_inf a else Fin (a / b))"
| "pf_div NaN _ = NaN"
| "pf_div _ NaN = NaN"
| "pf_div (Fin _) _ = Fin 0"
| "pf_div a (Fin b) = signed_inf (pf_sign a * (if b < 0 then -1 else 1))"
| "pf_div _ _ = NaN"

fun pf_sqrt :: "py_float \<Rightarrow> py_float" where
  "pf_sqrt (Fin a) = (if a < 0 then NaN else Fin (sqrt a))"
| "pf_sqrt PInf = PInf"
| "pf_sqrt _ = NaN"

fun pf_abs :: "py_float \<Rightarrow> py_float" where
  "pf_abs (Fin a) = Fin \<bar>a\<bar>"
| "pf_abs NInf = PInf"
| "pf_abs x = x"

definition pf_square :: "py_float \<Rightarrow> py_float" where
  "pf_square a = pf_mul a a"

lemma pf_add_NaN [simp]: "pf_add NaN x = NaN" "pf_add x NaN = NaN"
  by (cases x; simp)+

lemma pf_mul_NaN [simp]: "pf_mul NaN x = NaN" "pf_mul x NaN = NaN"
  by (cases x; simp)+

lemma pf_div_NaN [simp]: "pf_div NaN x = NaN" "pf_div x NaN = NaN"
  by (cases x; simp)+

lemma pf_sub_Fin [simp]: "pf_sub (Fin a) (Fin b) = Fin (a - b)"
  by (simp add: pf_sub_def)

lemma pf_sub_NaN [simp]: "pf_sub NaN x = NaN" "pf_sub x NaN = NaN"
  by (simp_all add: pf_sub_def)

lemma pf_square_Fin [simp]: "pf_square (Fin a) = Fin (a * a)"
  by (simp add: pf_square_def)

lemma pf_square_NaN [simp]: "pf_square NaN = NaN"
  by (simp add: pf_square_def)

section \<open>Reductions\<close>

definition pf_sum :: "py_float list \<Rightarrow> py_float" where
  "pf_sum xs = foldl pf_add (Fin 0) xs"

definition pf_mean :: "py_float list \<Rightarrow> py_float" where
  "pf_mean xs = pf_div (pf_sum xs) (Fin (of_nat (length xs)))"

text \<open>\<open>np.clip(x, lo, hi)\<close> with finite bounds.\<close>

fun pf_clip :: "real \<Rightarrow> real \<Rightarrow> py_float \<Rightarrow> py_float" where
  "pf_clip lo hi (Fin a) = Fin (min hi (max lo a))"
| "pf_clip lo hi PInf = Fin hi"
| "pf_clip lo hi NInf = Fin lo"
| "pf_clip lo hi NaN = NaN"

text \<open>Python's \<open>min(a, b)\<close> and \<open>max(a, b)\<close> keep the first unless the second wins.\<close>

definition py_min :: "py_float \<Rightarrow> py_float \<Rightarrow> py_float" where
  "py_min a b = (if pf_lt b a then b else a)"

definition py_max :: "py_float \<Rightarrow> py_float \<Rightarrow> py_float" where
  "py_max a b = (if pf_lt a b then b else a)"

text \<open>numpy's \<open>max\<close>, \<open>min\<close> and \<open>argmax\<close> let a NaN win.\<close>

definition np_max2 :: "py_float \<Rightarrow> py_float \<Rightarrow> py_float" where
  "np_max2 a b = (if pf_isnan a \<or> pf_isnan b then NaN else if pf_lt a b then b else a)"

definition np_min2 :: "py_float \<Rightarrow> py_float \<Rightarrow> py_float" where
  "np_min2 a b = (if pf_isnan a \<or> pf_isnan b then NaN else if pf_lt b a then b else a)"

definition np_ptp :: "py_float list \<Rightarrow> py_float result" where
  "np_ptp xs = (case xs of [] \<Rightarrow> raise (ValueError ''zero-size array'')
     | y # ys \<Rightarrow> ok (pf_sub (foldl np_max2 y ys) (foldl np_min2 y ys)))"

fun np_argmax_from :: "nat \<Rightarrow> nat \<Rightarrow> py_float \<Rightarrow> py_float list \<Rightarrow> nat" where
  "np_argmax_from i best bv [] = best"
| "np_argmax_from i best bv (x # xs) =
     (if pf_isnan bv then best
      else if pf_isnan x \<or> pf_lt bv x then np_argmax_from (Suc i) i x xs
      else np_argmax_from (Suc i) best bv xs)"

definition np_argmax :: "py_float list \<Rightarrow> nat result" where
  "np_argmax xs = (case xs of [] \<Rightarrow> raise (ValueError ''argmax of an empty sequence'')
     | y # ys \<Rightarrow> ok (np_argmax_from 1 0 y ys))"

text \<open>\<open>np.round(x).astype(int)\<close>: what is not finite becomes the smallest 64-bit integer.\<close>

fun pf_round_int :: "py_float \<Rightarrow> int" where
  "pf_round_int (Fin a) = round_half_even a"
| "pf_round_int _ = - (2 ^ 63)"

section \<open>Facts about reductions\<close>

lemma foldl_pf_add_NaN: "foldl pf_add NaN xs = NaN"
  by (induction xs) auto

lemma foldl_pf_add_has_NaN: "NaN \<in> set xs \<Longrightarrow> foldl pf_add a xs = NaN"
  by (induction xs arbitrary: a) (auto simp: foldl_pf_add_NaN)

lemma pf_sum_has_NaN: "NaN \<in> set xs \<Longrightarrow> pf_sum xs = NaN"
  by (simp add: pf_sum_def foldl_pf_add_has_NaN)

lemma pf_mean_has_NaN: "NaN \<in> set xs \<Longrightarrow> pf_mean xs = NaN"
  by (simp add: pf_mean_def pf_sum_has_NaN)

lemma foldl_pf_add_Fin: "foldl pf_add (Fin a) (map Fin rs) = Fin (a + sum_list rs)"
  by (induction rs arbitrary: a) (auto simp: algebra_simps)

lemma pf_mean_Fin: "rs \<noteq> [] \<Longrightarrow> pf_mean (map Fin rs) = Fin (mean rs)"
  by (simp add: pf_mean_def pf_sum_def foldl_pf_add_Fin mean_def)

text \<open>A score is in the unit interval or is NaN.\<close>

fun unit_or_nan :: "py_float \<Rightarrow> bool" where
  "unit_or_nan (Fin a) = (0 \<le> a \<and> a \<le> 1)"
| "unit_or_nan NaN = True"
| "unit_or_nan _ = False"

lemma unit_or_nan_clip [simp, intro]: "unit_or_nan (pf_clip 0 1 x)"
  by (cases x) auto

lemma unit_or_nan_one_minus: "unit_or_nan x \<Longrightarrow> unit_or_nan (pf_sub (Fin 1) x)"
  by (cases x) auto

lemma all_Fin_or_NaN:
  assumes "\<And>x. x \<in> set xs \<Longrightarrow> unit_or_nan x" "NaN \<notin> set xs"
  obtains rs where "xs = map Fin rs" "\<And>r. r \<in> set rs \<Longrightarrow> 0 \<le> r \<and> r \<le> 1"
proof -
  have "\<exists>rs. xs = map Fin rs \<and> (\<forall>r \<in> set rs. 0 \<le> r \<and> r \<le> 1)"
    using assms
  proof (induction xs)
    case (Cons x xs)
    then obtain rs where rs: "xs = map Fin rs" "\<forall>r \<in> set rs. 0 \<le> r \<and> r \<le> 1" by auto
    have ux: "unit_or_nan x" "x \<noteq> NaN" using Cons.prems(1) [of x] Cons.prems(2) by auto
    then obtain r where r: "x = Fin r" "0 \<le> r" "r \<le> 1" by (cases x) auto
    with rs show ?case by (intro exI [of _ "r # rs"]) auto
  qed simp
  with that show thesis by blast
qed

lemma unit_or_nan_mean:
  assumes "xs \<noteq> []" "\<And>x. x \<in> set xs \<Longrightarrow> unit_or_nan x"
  shows "unit_or_nan (pf_mean xs)"
proof (cases "NaN \<in> set xs")
  case True
  then show ?thesis by (simp add: pf_mean_has_NaN)
next
  case False
  from assms(2) False obtain rs where rs: "xs = map Fin rs" "\<And>r. r \<in> set rs \<Longrightarrow> 0 \<le> r \<and> r \<le> 1"
    by (rule all_Fin_or_NaN) blast+
  with assms(1) mean_bounds [of rs 0 1] show ?thesis by (simp add: pf_mean_Fin)
qed

end
