(* ===== verification/Topo_Order.thy ===== *)
theory Topo_Order
  imports Onnx_Analyzer
begin

text \<open>
  Correctness of \<open>topological_sort\<close>.  The loop invariant says that the in-degree table
  counts the predecessors that are not in the result yet, that exactly the names with no such
  predecessor are in the result or the queue, and that every listed name comes after all its
  predecessors.  \<open>build_adjacency\<close> establishes the well-formedness the sort relies on.
\<close>

definition edge :: "(string \<times> string list) list \<Rightarrow> string \<Rightarrow> string \<Rightarrow> bool" where
  "edge adj u v \<longleftrightarrow> (case map_of adj u of None \<Rightarrow> False | Some ss \<Rightarrow> v \<in> set ss)"

definition wf_adj :: "string list \<Rightarrow> (string \<times> string list) list \<Rightarrow> bool" where
  "wf_adj names adj \<longleftrightarrow> distinct (map fst adj) \<and> set (map fst adj) \<subseteq> set names \<and>
     (\<forall>(u, ss) \<in> set adj. distinct ss \<and> set ss \<subseteq> set names)"

definition open_preds :: "(string \<times> string list) list \<Rightarrow> string set \<Rightarrow> string \<Rightarrow> nat" where
  "open_preds adj R v = length (filter (\<lambda>(u, ss). u \<notin> R \<and> v \<in> set ss) adj)"

section \<open>Degrees\<close>

lemma map_of_dict_of_zero:
  "map_of (fold (\<lambda>(k, v) d. AList.update k v d) (map (\<lambda>n. (n, 0::int)) names) d) v
     = (if v \<in> set names then Some 0 else map_of d v)"
  by (induction names arbitrary: d) (auto simp: update_conv)

lemma map_of_bump_succs:
  "map_of (fold (\<lambda>succ deg. case map_of deg succ of None \<Rightarrow> deg
                            | Some d \<Rightarrow> AList.update succ (d + 1) deg) ss deg) v
     = map_option (\<lambda>d. d + int (count_list ss v)) (map_of deg v)"
proof (induction ss arbitrary: deg)
  case Nil
  then show ?case by (simp add: option.map_ident)
next
  case (Cons s ss)
  then show ?case by (cases "map_of deg s") (auto simp: update_conv option.map_comp comp_def)
qed

lemma map_of_bump_all:
  "map_of (fold (\<lambda>(node, successors) deg.
             fold (\<lambda>succ deg. case map_of deg succ of None \<Rightarrow> deg
                              | Some d \<Rightarrow> AList.update succ (d + 1) deg) successors deg) adj deg) v
     = map_option (\<lambda>d. d + int (sum_list (map (\<lambda>(u, ss). count_list ss v) adj))) (map_of deg v)"
  by (induction adj arbitrary: deg)
     (auto simp: map_of_bump_succs option.map_comp comp_def add.assoc option.map_ident)

lemma sum_count_open_preds:
  "(\<And>u ss. (u, ss) \<in> set adj \<Longrightarrow> distinct ss) \<Longrightarrow>
   sum_list (map (\<lambda>(u, ss). count_list ss v) adj) = open_preds adj {} v"
proof (induction adj)
  case (Cons p adj)
  obtain u ss where p: "p = (u, ss)" by (cases p)
  have "distinct ss" using Cons.prems p by auto
  then have "count_list ss v = (if v \<in> set ss then 1 else 0)"
    by (induction ss) auto
  with Cons p show ?case by (auto simp: open_preds_def)
qed (simp add: open_preds_def)

lemma initial_in_degree:
  assumes "wf_adj names adj"
  shows "map_of (initial_in_degree names adj) v
           = (if v \<in> set names then Some (int (open_preds adj {} v)) else None)"
proof -
  have "sum_list (map (\<lambda>(u, ss). count_list ss v) adj) = open_preds adj {} v"
    using assms by (intro sum_count_open_preds) (auto simp: wf_adj_def)
  then show ?thesis
    using map_of_dict_of_zero [of names "[]" v]
    by (simp add: initial_in_degree_def map_of_bump_all dict_of_def)
qed

lemma distinct_keys_initial: "distinct (map fst (initial_in_degree names adj))"
proof -
  have upd: "distinct (map fst (fold f xs d))" if "distinct (map fst d)"
    "\<And>x d. distinct (map fst d) \<Longrightarrow> distinct (map fst (f x d))" for f :: "'a \<Rightarrow> (string \<times> int) list \<Rightarrow> _" and xs d
    using that by (induction xs arbitrary: d) auto
  show ?thesis
    unfolding initial_in_degree_def dict_of_def
    by (intro upd) (auto intro!: upd distinct_update split: option.splits)
qed

section \<open>One iteration of the loop\<close>

lemma map_of_fold_relax:
  "map_of (fst (fold relax ss (deg, q))) v
     = map_option (\<lambda>d. d - int (count_list ss v)) (map_of deg v)"
proof (induction ss arbitrary: deg q)
  case Nil
  then show ?case by (simp add: option.map_ident)
next
  case (Cons s ss)
  then show ?case
    by (cases "map_of deg s") (auto simp: relax_def update_conv option.map_comp comp_def)
qed

lemma queue_fold_relax:
  "distinct ss \<Longrightarrow> snd (fold relax ss (deg, q)) = q @ filter (\<lambda>s. map_of deg s = Some 1) ss"
proof (induction ss arbitrary: deg q)
  case (Cons s ss)
  have same: "filter (\<lambda>x. map_of (AList.update s d deg) x = Some 1) ss
            = filter (\<lambda>x. map_of deg x = Some 1) ss" for d
    using Cons.prems by (intro filter_cong) (auto simp: update_conv)
  show ?case
    using Cons by (cases "map_of deg s") (auto simp: relax_def same)
qed simp

lemma open_preds_insert:
  assumes "distinct (map fst adj)" "node \<notin> R"
  shows "open_preds adj R v = open_preds adj (insert node R) v + (if edge adj node v then 1 else 0)"
  using assms
proof (induction adj)
  case (Cons p adj)
  obtain u ss where p: "p = (u, ss)" by (cases p)
  have fresh: "u \<notin> fst ` set adj" using Cons.prems p by auto
  have IH: "open_preds adj R v = open_preds adj (insert node R) v + (if edge adj node v then 1 else 0)"
    using Cons p by simp
  have "map_of adj u = None" using fresh by (simp add: map_of_eq_None_iff)
  then have "\<not> edge adj node v" if "u = node"
    using that by (simp add: edge_def)
  with IH show ?case using p Cons.prems(2) by (auto simp: open_preds_def edge_def)
qed (simp add: open_preds_def edge_def)

lemma open_preds_zero_iff:
  assumes "distinct (map fst adj)"
  shows "open_preds adj R v = 0 \<longleftrightarrow> (\<forall>u. edge adj u v \<longrightarrow> u \<in> R)"
  using assms
  by (auto simp: open_preds_def edge_def filter_empty_conv split: option.splits dest: map_of_SomeD)

definition topo_ordered :: "(string \<times> string list) list \<Rightarrow> string list \<Rightarrow> bool" where
  "topo_ordered adj S \<longleftrightarrow> (\<forall>xs v ys. S = xs @ v # ys \<longrightarrow> (\<forall>u. edge adj u v \<longrightarrow> u \<in> set xs))"

lemma topo_ordered_append:
  assumes S: "topo_ordered adj S" and N: "\<And>u v. v \<in> set N \<Longrightarrow> edge adj u v \<Longrightarrow> u \<in> set S"
  shows "topo_ordered adj (S @ N)"
  unfolding topo_ordered_def
proof (intro allI impI)
  fix xs v ys u assume eq: "S @ N = xs @ v # ys" and e: "edge adj u v"
  from eq consider (old) zs where "S = xs @ v # zs" | (new) zs where "xs = S @ zs" "N = zs @ v # ys"
    by (auto simp: append_eq_append_conv2 append_eq_Cons_conv Cons_eq_append_conv)
  then show "u \<in> set xs"
  proof cases
    case old then show ?thesis using S e unfolding topo_ordered_def by blast
  next
    case new then show ?thesis using N [of v u] e by auto
  qed
qed

section \<open>The loop invariant\<close>

definition kahn_inv ::
  "string list \<Rightarrow> (string \<times> string list) list \<Rightarrow> (string \<times> int) list \<Rightarrow> string list \<Rightarrow> string list \<Rightarrow> bool" where
  "kahn_inv names adj deg queue result \<longleftrightarrow>
     distinct (result @ queue) \<and> topo_ordered adj (result @ queue) \<and>
     set (result @ queue) = {v \<in> set names. open_preds adj (set result) v = 0} \<and>
     (\<forall>v. map_of deg v = (if v \<in> set names then Some (int (open_preds adj (set result) v)) else None))"

lemma kahn_inv_step:
  assumes wf: "wf_adj names adj" and inv: "kahn_inv names adj deg (node # queue) result"
    and ss: "ss = (case map_of adj node of None \<Rightarrow> [] | Some ss \<Rightarrow> ss)"
  shows "kahn_inv names adj (fst (fold relax ss (deg, queue))) (snd (fold relax ss (deg, queue)))
           (result @ [node])"
proof -
  let ?R = "set result" and ?R' = "insert node (set result)"
  let ?new = "filter (\<lambda>s. map_of deg s = Some 1) ss"
  have keys: "distinct (map fst adj)" using wf by (simp add: wf_adj_def)
  have node: "node \<notin> ?R" using inv by (simp add: kahn_inv_def)
  have dss: "distinct ss" and names: "set ss \<subseteq> set names"
    using wf ss by (auto simp: wf_adj_def split: option.splits dest: map_of_SomeD)
  have edge: "edge adj node v \<longleftrightarrow> v \<in> set ss" for v
    using ss by (auto simp: edge_def split: option.splits)
  have deg: "map_of deg v = (if v \<in> set names then Some (int (open_preds adj ?R v)) else None)" for v
    using inv by (simp add: kahn_inv_def)
  have old: "set (result @ node # queue) = {v \<in> set names. open_preds adj ?R v = 0}"
    using inv by (simp add: kahn_inv_def)
  have step: "open_preds adj ?R v = open_preds adj ?R' v + (if v \<in> set ss then 1 else 0)" for v
    using open_preds_insert [OF keys node] edge by simp
  have cnt: "count_list ss v = (if v \<in> set ss then 1 else 0)" for v
    using dss by (induction ss) auto
  have q: "snd (fold relax ss (deg, queue)) = queue @ ?new"
    using dss by (rule queue_fold_relax)
  have new: "set ?new = {v \<in> set ss. open_preds adj ?R v = 1}"
    using deg names by auto
  have "distinct ((result @ [node]) @ queue @ ?new)"
    using inv dss new old by (auto simp: kahn_inv_def)
  moreover have "topo_ordered adj ((result @ node # queue) @ ?new)"
  proof (rule topo_ordered_append)
    show "topo_ordered adj (result @ node # queue)" using inv by (simp add: kahn_inv_def)
    fix u v assume v: "v \<in> set ?new" and e: "edge adj u v"
    then have "v \<in> {v \<in> set ss. open_preds adj ?R v = 1}" using new by blast
    then have "v \<in> set ss" "open_preds adj ?R v = 1" by simp_all
    with step [of v] have "open_preds adj ?R' v = 0" by (simp only: if_True)
    with e have "u \<in> ?R'" using open_preds_zero_iff [OF keys, of ?R' v] by simp
    then show "u \<in> set (result @ node # queue)" by auto
  qed
  moreover have "set ((result @ [node]) @ queue @ ?new) = {v \<in> set names. open_preds adj ?R' v = 0}"
  proof (rule set_eqI)
    fix v
    have "v \<in> set ((result @ [node]) @ queue @ ?new)
        \<longleftrightarrow> v \<in> set (result @ node # queue) \<or> v \<in> set ?new" by auto
    also have "\<dots> \<longleftrightarrow> v \<in> set names \<and> open_preds adj ?R' v = 0"
      unfolding old new using step [of v] names by auto
    finally show "v \<in> set ((result @ [node]) @ queue @ ?new)
        \<longleftrightarrow> v \<in> {v \<in> set names. open_preds adj ?R' v = 0}" by simp
  qed
  moreover have "map_of (fst (fold relax ss (deg, queue))) v
      = (if v \<in> set names then Some (int (open_preds adj ?R' v)) else None)" for v
    using step [of v] by (simp add: map_of_fold_relax deg cnt)
  ultimately show ?thesis by (simp add: kahn_inv_def q)
qed

lemma kahn_loop_inv:
  assumes "wf_adj names adj" "kahn_inv names adj deg queue result"
  shows "\<exists>deg'. kahn_inv names adj deg' [] (kahn_loop adj deg queue result)"
  using assms
proof (induction adj deg queue result rule: kahn_loop.induct)
  case (1 adj deg result)
  then show ?case by auto
next
  case (2 adj deg node queue result)
  show ?case
    using "2.IH" [OF refl "2.prems"(1) kahn_inv_step [OF "2.prems"(1,2) refl]]
    by (simp add: Let_def)
qed

lemma kahn_inv_start:
  assumes "wf_adj names adj"
  shows "kahn_inv names adj (initial_in_degree names adj)
           (map fst (filter (\<lambda>(n, d). d = 0) (initial_in_degree names adj))) []"
proof -
  let ?deg = "initial_in_degree names adj"
  let ?q = "map fst (filter (\<lambda>(n, d). d = 0) ?deg)"
  have keys: "distinct (map fst adj)" using assms by (simp add: wf_adj_def)
  have d: "distinct (map fst ?deg)" by (rule distinct_keys_initial)
  have set_q: "set ?q = {v \<in> set names. open_preds adj {} v = 0}"
  proof (rule set_eqI)
    fix v
    have "v \<in> set ?q \<longleftrightarrow> map_of ?deg v = Some 0"
      using d by (force simp: image_iff)
    then show "v \<in> set ?q \<longleftrightarrow> v \<in> {v \<in> set names. open_preds adj {} v = 0}"
      by (simp add: initial_in_degree [OF assms])
  qed
  have "topo_ordered adj ([] @ ?q)"
  proof (rule topo_ordered_append)
    fix u v assume "v \<in> set ?q" "edge adj u v"
    then show "u \<in> set []" using set_q open_preds_zero_iff [OF keys, of "{}" v] by simp
  qed (simp add: topo_ordered_def)
  moreover have "distinct ?q" using d by (simp add: distinct_map_filter)
  ultimately show ?thesis using set_q by (simp add: kahn_inv_def initial_in_degree [OF assms])
qed

lemma topological_sort_inv:
  "wf_adj names adj \<Longrightarrow> \<exists>deg. kahn_inv names adj deg [] (topological_sort names adj)"
  unfolding topological_sort_def Let_def by (rule kahn_loop_inv [OF _ kahn_inv_start])

lemma topological_sort_sound:
  assumes "wf_adj names adj"
  shows "distinct (topological_sort names adj)" "set (topological_sort names adj) \<subseteq> set names"
    "topo_ordered adj (topological_sort names adj)"
  using topological_sort_inv [OF assms] by (auto simp: kahn_inv_def)

lemma topological_sort_complete:
  assumes wf: "wf_adj names adj" and ac: "acyclic {(u, v). edge adj u v}"
  shows "set (topological_sort names adj) = set names"
proof (rule ccontr)
  let ?S = "topological_sort names adj" and ?E = "{(u, v). edge adj u v}"
  assume "set ?S \<noteq> set names"
  then have ne: "set names - set ?S \<noteq> {}" using topological_sort_sound(2) [OF wf] by auto
  have keys: "distinct (map fst adj)" using wf by (simp add: wf_adj_def)
  have E: "?E \<subseteq> set names \<times> set names"
    using wf by (auto simp: wf_adj_def edge_def split: option.splits dest!: map_of_SomeD) force+
  then have "finite ?E" by (rule finite_subset) simp
  then have "wf ?E" using ac by (rule finite_acyclic_wf)
  then obtain v where v: "v \<in> set names - set ?S" "\<And>u. (u, v) \<in> ?E \<Longrightarrow> u \<notin> set names - set ?S"
    using ne wfE_min [of ?E _ "set names - set ?S"] by blast
  have "u \<in> set ?S" if "edge adj u v" for u
    using v(2) [of u] that E by auto
  then have "open_preds adj (set ?S) v = 0" using open_preds_zero_iff [OF keys] by blast
  with topological_sort_inv [OF wf] v(1) show False by (auto simp: kahn_inv_def)
qed

section \<open>The adjacency the analyzer builds is well formed\<close>

definition adj_ok :: "string set \<Rightarrow> (string \<times> string list) list \<Rightarrow> bool" where
  "adj_ok N adj \<longleftrightarrow> distinct (map fst adj) \<and> set (map fst adj) \<subseteq> N \<and>
     (\<forall>(u, ss) \<in> set adj. distinct ss \<and> set ss \<subseteq> N)"

lemma set_update_subset: "set (AList.update k v d) \<subseteq> insert (k, v) (set d)"
  by (induction d) auto

lemma adj_ok_update:
  assumes "adj_ok N adj" "u \<in> N" "distinct ss" "set ss \<subseteq> N"
  shows "adj_ok N (AList.update u ss adj)"
proof -
  have "fst ` set (AList.update u ss adj) \<subseteq> insert u (fst ` set adj)"
    using image_mono [OF set_update_subset, of fst u ss adj] by simp
  then show ?thesis
    using assms set_update_subset [of u ss adj] by (force simp: adj_ok_def distinct_update)
qed

lemma adj_ok_add_edge: "adj_ok N adj \<Longrightarrow> name \<in> N \<Longrightarrow> adj_ok N (add_edge producer name adj)"
  unfolding add_edge_def
  by (auto split: option.splits dest!: map_of_SomeD intro!: adj_ok_update) (auto simp: adj_ok_def)

lemma adj_ok_fold:
  "adj_ok N adj \<Longrightarrow> (\<And>x adj. x \<in> set xs \<Longrightarrow> adj_ok N adj \<Longrightarrow> adj_ok N (f x adj)) \<Longrightarrow> adj_ok N (fold f xs adj)"
  by (induction xs arbitrary: adj) auto

definition node_names :: "graph \<Rightarrow> string list" where
  "node_names g = map (\<lambda>(i, n). node_display_name i n) (enumerate 0 (g_nodes g))"

lemma build_adjacency_wf: "wf_adj (node_names g) (build_adjacency g)"
proof -
  let ?nodes = "enumerate 0 (g_nodes g)" and ?N = "set (node_names g)"
  have name: "node_display_name i n \<in> ?N" if "(i, n) \<in> set ?nodes" for i n
    using that by (force simp: node_names_def)
  have "adj_ok ?N (adjacency_start ?nodes)"
    unfolding adjacency_start_def
    by (rule adj_ok_fold) (auto simp: adj_ok_def [of _ "[]"] intro!: adj_ok_update name)
  then have "adj_ok ?N (build_adjacency g)"
    unfolding build_adjacency_def Let_def
    by (rule adj_ok_fold) (auto intro!: adj_ok_fold adj_ok_add_edge name split: option.splits)
  then show ?thesis by (simp add: wf_adj_def adj_ok_def)
qed

section \<open>The adjacency is read off the inputs of the nodes\<close>

text \<open>Node \<open>u\<close> feeds node \<open>v\<close> when an input of \<open>v\<close> is an output of \<open>u\<close> that no later node of the list writes
  again.  This is stated on the nodes of the graph alone.\<close>

definition display_name :: "graph \<Rightarrow> nat \<Rightarrow> string" where
  "display_name g i = node_display_name i (g_nodes g ! i)"

definition writes :: "graph \<Rightarrow> nat \<Rightarrow> string \<Rightarrow> bool" where
  "writes g i x \<longleftrightarrow> i < length (g_nodes g) \<and> x \<noteq> '''' \<and> x \<in> set (n_outputs (g_nodes g ! i))"

definition feeds :: "graph \<Rightarrow> string \<Rightarrow> string \<Rightarrow> bool" where
  "feeds g u v \<longleftrightarrow> (\<exists>i j x. u = display_name g i \<and> v = display_name g j \<and>
     writes g i x \<and> (\<forall>k > i. \<not> writes g k x) \<and> j < length (g_nodes g) \<and> x \<in> set (n_inputs (g_nodes g ! j)))"

lemma map_of_outputs:
  "map_of (fold (\<lambda>out d. if out = '''' then d else AList.update out u d) outs d) x
     = (if x \<noteq> '''' \<and> x \<in> set outs then Some u else map_of d x)"
  by (induction outs arbitrary: d) (auto simp: update_conv)

lemma map_of_output_to_node:
  "map_of (output_to_node nodes) x
     = map_option (\<lambda>(i, n). node_display_name i n)
         (List.find (\<lambda>(i, n). x \<noteq> '''' \<and> x \<in> set (n_outputs n)) (rev nodes))"
proof (induction nodes rule: rev_induct)
  case (snoc p nodes)
  then show ?case by (cases p) (simp add: output_to_node_def map_of_outputs)
qed (simp add: output_to_node_def)

lemma find_rev_enumerate:
  "List.find (\<lambda>(i, n). P n) (rev (enumerate 0 ns)) = Some (i, n) \<longleftrightarrow>
     i < length ns \<and> n = ns ! i \<and> P n \<and> (\<forall>k > i. k < length ns \<longrightarrow> \<not> P (ns ! k))"
proof (induction ns rule: rev_induct)
  case (snoc m ns)
  have step: "List.find (\<lambda>(i, n). P n) (rev (enumerate 0 (ns @ [m])))
      = (if P m then Some (length ns, m) else List.find (\<lambda>(i, n). P n) (rev (enumerate 0 ns)))"
    by (simp add: enumerate_append_eq)
  show ?case
  proof (cases "P m")
    case True
    then show ?thesis unfolding step by (auto simp: nth_append less_Suc_eq)
  next
    case False
    then show ?thesis unfolding step using snoc.IH by (auto simp: nth_append less_Suc_eq)
  qed
qed simp

lemma producer_iff:
  "map_of (output_to_node (enumerate 0 (g_nodes g))) x = Some u \<longleftrightarrow>
     (\<exists>i. u = display_name g i \<and> writes g i x \<and> (\<forall>k > i. \<not> writes g k x))"
  using find_rev_enumerate [of "\<lambda>n. x \<noteq> '''' \<and> x \<in> set (n_outputs n)" "g_nodes g"]
  by (auto simp: map_of_output_to_node display_name_def writes_def)

lemma edge_add_edge:
  "map_of adj p \<noteq> None \<Longrightarrow> edge (add_edge p v adj) a b \<longleftrightarrow> edge adj a b \<or> a = p \<and> b = v"
  by (auto simp: add_edge_def edge_def update_conv split: option.splits)

lemma keys_add_edge: "map_of (add_edge p v adj) a = None \<longleftrightarrow> map_of adj a = None"
  by (auto simp: add_edge_def update_conv split: option.splits)

lemma edges_of_inputs:
  assumes "\<And>x p. map_of prods x = Some p \<Longrightarrow> map_of adj p \<noteq> None"
  shows "edge (fold (\<lambda>inp adj. case map_of prods inp of None \<Rightarrow> adj | Some p \<Rightarrow> add_edge p v adj) inps adj) a b
      \<longleftrightarrow> edge adj a b \<or> b = v \<and> (\<exists>x \<in> set inps. map_of prods x = Some a)"
    and "map_of (fold (\<lambda>inp adj. case map_of prods inp of None \<Rightarrow> adj | Some p \<Rightarrow> add_edge p v adj) inps adj) a = None
      \<longleftrightarrow> map_of adj a = None"
  using assms
proof (induction inps arbitrary: adj)
  case (Cons x inps)
  {
    case 1
    with Cons.IH [of "case map_of prods x of None \<Rightarrow> adj | Some p \<Rightarrow> add_edge p v adj"] show ?case
      by (cases "map_of prods x") (auto simp: edge_add_edge keys_add_edge)
  next
    case 2
    with Cons.IH [of "case map_of prods x of None \<Rightarrow> adj | Some p \<Rightarrow> add_edge p v adj"] show ?case
      by (cases "map_of prods x") (auto simp: keys_add_edge)
  }
qed simp_all

lemma edges_of_nodes:
  assumes "\<And>x p. map_of prods x = Some p \<Longrightarrow> map_of adj p \<noteq> None"
  shows "edge (fold (\<lambda>(i, n). fold (\<lambda>inp adj. case map_of prods inp of None \<Rightarrow> adj
             | Some p \<Rightarrow> add_edge p (node_display_name i n) adj) (n_inputs n)) nodes adj) a b
      \<longleftrightarrow> edge adj a b \<or> (\<exists>(i, n) \<in> set nodes. b = node_display_name i n \<and> (\<exists>x \<in> set (n_inputs n). map_of prods x = Some a))"
  using assms
proof (induction nodes arbitrary: adj)
  case (Cons p nodes)
  obtain i n where p: "p = (i, n)" by (cases p)
  let ?adj = "fold (\<lambda>inp adj. case map_of prods inp of None \<Rightarrow> adj
      | Some p \<Rightarrow> add_edge p (node_display_name i n) adj) (n_inputs n) adj"
  have keys: "map_of ?adj c = None \<longleftrightarrow> map_of adj c = None"
    and edges: "edge ?adj a b \<longleftrightarrow> edge adj a b \<or> b = node_display_name i n \<and> (\<exists>x \<in> set (n_inputs n). map_of prods x = Some a)" for c
    by (rule edges_of_inputs [OF Cons.prems]; assumption)+
  have "map_of ?adj q \<noteq> None" if "map_of prods x = Some q" for x q using Cons.prems [OF that] keys by simp
  from Cons.IH [OF this] edges show ?case by (auto simp: p)
qed simp

lemma adjacency_start_keys:
  "map_of (adjacency_start nodes) a = (if a \<in> (\<lambda>(i, n). node_display_name i n) ` set nodes then Some [] else None)"
proof (induction nodes rule: rev_induct)
  case (snoc p nodes)
  then show ?case by (cases p) (auto simp: adjacency_start_def update_conv)
qed (simp add: adjacency_start_def)

lemma in_enumerate: "(i, n) \<in> set (enumerate 0 ns) \<longleftrightarrow> i < length ns \<and> n = ns ! i"
  by (auto simp: in_set_enumerate_eq)

lemma split_paired_Bex_in_enumerate: "(\<exists>(i, n) \<in> set (enumerate 0 ns). P i n) \<longleftrightarrow> (\<exists>i < length ns. P i (ns ! i))"
  by (auto simp: Bex_def in_enumerate)

lemma edge_iff_feeds: "edge (build_adjacency g) u v \<longleftrightarrow> feeds g u v"
proof -
  let ?nodes = "enumerate 0 (g_nodes g)"
  let ?prods = "output_to_node ?nodes"
  have keys: "map_of (adjacency_start ?nodes) p \<noteq> None" if "map_of ?prods x = Some p" for x p
    using that unfolding producer_iff
    by (auto simp: adjacency_start_keys display_name_def writes_def in_enumerate intro!: image_eqI [where x = "(i, n)" for i n])
  have "\<not> edge (adjacency_start ?nodes) u v" by (simp add: edge_def adjacency_start_keys)
  then have "edge (build_adjacency g) u v
      \<longleftrightarrow> (\<exists>(j, m) \<in> set ?nodes. v = node_display_name j m \<and> (\<exists>x \<in> set (n_inputs m). map_of ?prods x = Some u))"
    using edges_of_nodes [of ?prods "adjacency_start ?nodes" ?nodes u v] keys unfolding build_adjacency_def Let_def by simp
  also have "\<dots> \<longleftrightarrow> (\<exists>j < length (g_nodes g). v = display_name g j \<and> (\<exists>x \<in> set (n_inputs (g_nodes g ! j)). map_of ?prods x = Some u))"
    by (auto simp only: split_paired_Bex_in_enumerate display_name_def)
  also have "\<dots> \<longleftrightarrow> feeds g u v"
    unfolding feeds_def producer_iff by blast
  finally show ?thesis .
qed

section \<open>The analyzer\<close>

lemma analyze_nodes_names:
  "analyze_nodes inits shapes i ns = Inr ops \<Longrightarrow>
   map op_name ops = map (\<lambda>(i, n). node_display_name i n) (enumerate i ns)"
proof (induction ns arbitrary: i ops)
  case (Cons n ns)
  from Cons.prems obtain op ops' where
    op: "analyze_node inits shapes i n = Inr op" and
    ops: "analyze_nodes inits shapes (Suc i) ns = Inr ops'" "ops = op # ops'"
    by (cases "analyze_node inits shapes i n"; cases "analyze_nodes inits shapes (Suc i) ns") auto
  have "op_name op = node_display_name i n"
    using op by (cases "estimate_flops inits n (map (map_of shapes) (n_inputs n)) (map (map_of shapes) (n_outputs n))")
      (auto simp: analyze_node_def Let_def)
  with Cons.IH [OF ops(1)] ops(2) show ?case by simp
qed simp

lemma analyze_topo_order:
  assumes "analyze infer g = Inr gi"
  obtains g' where "gi_adjacency gi = build_adjacency g'"
    "gi_topo_order gi = topological_sort (node_names g') (build_adjacency g')"
    "g' = (case infer g of Some h \<Rightarrow> h | None \<Rightarrow> g)"
proof -
  let ?g = "case infer g of Some h \<Rightarrow> h | None \<Rightarrow> g"
  from assms obtain ops where
    "analyze_nodes (build_initializer_map ?g) (build_shape_map ?g) 0 (g_nodes ?g) = Inr ops"
    by (cases "analyze_nodes (build_initializer_map ?g) (build_shape_map ?g) 0 (g_nodes ?g)")
       (auto simp: analyze_def Let_def)
  with assms analyze_nodes_names [OF this] show thesis
    by (intro that [of ?g]) (auto simp: analyze_def Let_def node_names_def)
qed

section \<open>Properties\<close>

text \<open>C10: the analyzer's operator order is a topological order of the graph it analysed, read off the inputs and
  outputs of its nodes: no operator is listed twice; only names of the graph's nodes are listed, whether or not the graph has a
  cycle; a listed operator comes after every operator that feeds it through any of its inputs (an output that no later
  node writes again); and when no operator feeds itself through others every operator is listed.  The graph analysed
  is the one with inferred shapes when shape inference succeeds, and the hypothesis is that the analysis does not raise.\<close>

theorem analyze_topological:
  assumes "analyze infer g = Inr gi" "g' = (case infer g of Some h \<Rightarrow> h | None \<Rightarrow> g)"
  shows "distinct (gi_topo_order gi) \<and> set (gi_topo_order gi) \<subseteq> set (node_names g') \<and>
         (\<forall>before v after u. gi_topo_order gi = before @ v # after \<and> feeds g' u v \<longrightarrow> u \<in> set before) \<and>
         (acyclic {(u, v). feeds g' u v} \<longrightarrow> set (gi_topo_order gi) = set (node_names g'))"
  using assms(1)
proof (rule analyze_topo_order)
  fix h assume h: "gi_adjacency gi = build_adjacency h"
    "gi_topo_order gi = topological_sort (node_names h) (build_adjacency h)"
    "h = (case infer g of Some h \<Rightarrow> h | None \<Rightarrow> g)"
  note wf = build_adjacency_wf [of h]
  from topological_sort_sound [OF wf] topological_sort_complete [OF wf] h assms(2) show ?thesis
    by (simp add: topo_ordered_def edge_iff_feeds)
qed

text \<open>Two producers: \<open>add\<close> reads the outputs of both other nodes, the second of which stands after it in the file.\<close>

definition demo_graph :: graph where
  "demo_graph = \<lparr>g_nodes =
     [\<lparr>n_name = ''a'', n_op_type = ''Relu'', n_domain = '''', n_inputs = [''in''], n_outputs = [''x''], n_attrs = []\<rparr>,
      \<lparr>n_name = ''add'', n_op_type = ''Add'', n_domain = '''', n_inputs = [''x'', ''y''], n_outputs = [''out''], n_attrs = []\<rparr>,
      \<lparr>n_name = ''b'', n_op_type = ''Relu'', n_domain = '''', n_inputs = [''x''], n_outputs = [''y''], n_attrs = []\<rparr>],
     g_inits = [], g_inputs = [], g_outputs = [], g_value_info = [], g_opset_import = []\<rparr>"

lemma demo_graph_feeds: "feeds demo_graph u v \<longleftrightarrow> (u, v) \<in> {(''a'', ''add''), (''b'', ''add''), (''a'', ''b'')}"
  unfolding edge_iff_feeds [symmetric]
proof -
  have "build_adjacency demo_graph = [(''a'', [''add'', ''b'']), (''add'', []), (''b'', [''add''])]" by code_simp
  then show "edge (build_adjacency demo_graph) u v \<longleftrightarrow> (u, v) \<in> {(''a'', ''add''), (''b'', ''add''), (''a'', ''b'')}"
    by (auto simp: edge_def split: if_splits)
qed

theorem analyze_topological_witness:
  "\<exists>gi. analyze (\<lambda>_. None) demo_graph = Inr gi \<and> gi_topo_order gi = [''a'', ''b'', ''add''] \<and>
        feeds demo_graph ''b'' ''add'' \<and> feeds demo_graph ''a'' ''add'' \<and>
        set (gi_topo_order gi) = set (node_names demo_graph)"
proof -
  have "(case analyze (\<lambda>_. None) demo_graph of Inr gi \<Rightarrow> gi_topo_order gi = [''a'', ''b'', ''add''] | Inl _ \<Rightarrow> False)"
    by code_simp
  then obtain gi where gi: "analyze (\<lambda>_. None) demo_graph = Inr gi" "gi_topo_order gi = [''a'', ''b'', ''add'']"
    by (auto split: sum.splits)
  have "acyclic {(u, v). feeds demo_graph u v}" 
    unfolding demo_graph_feeds by (rule acyclic_subset [of "measure (\<lambda>s. if s = ''a'' then 0 else if s = ''b'' then 1 else 2)"])
      (auto intro: wf_acyclic)
  with analyze_topological [OF gi(1) refl] gi demo_graph_feeds show ?thesis by auto
qed

end
