(* ===== verification/Onnx_Runtime.thy ===== *)
theory Onnx_Runtime
  imports Onnx_Analyzer
begin

text \<open>
  The interface to onnxruntime, which is outside the repository: a record of three
  functions that every analysis of the engine takes as an argument.  \<open>ort_load\<close> says
  whether \<open>InferenceSession\<close> can be created, \<open>ort_outputs\<close> names its outputs, and
  \<open>ort_run\<close> runs it on a feed, \<open>None\<close> standing for an exception.  Output values keep the
  distinctions the code makes when it converts them to float arrays.
\<close>

record nd_array =
  nd_shape :: "nat list"
  nd_data :: "py_float list"
  nd_integer :: bool            \<comment> \<open>integer dtype: a discrete label output\<close>

datatype out_val =
    OArr nd_array
  | OStrings nat                \<comment> \<open>an array \<open>astype(float64)\<close> refuses\<close>
  | OList "py_float list"
  | ODicts "py_float list list" \<comment> \<open>ZipMap: one dictionary per row\<close>
  | ODict "py_float list"
  | OUnknown

type_synonym feed = "(string \<times> nd_array) list"

record ort =
  ort_load :: "graph \<Rightarrow> bool"
  ort_outputs :: "graph \<Rightarrow> string list"
  ort_run :: "graph \<Rightarrow> string list \<Rightarrow> feed \<Rightarrow> out_val list option"

definition float_array :: "nat list \<Rightarrow> py_float list \<Rightarrow> nd_array" where
  "float_array sh xs = \<lparr>nd_shape = sh, nd_data = xs, nd_integer = False\<rparr>"

text \<open>\<open>_to_float\<close> (validation) and \<open>_to_float_array\<close> (UOSA): \<open>None\<close> where the value has no
  float reading; rows of unequal width raise.\<close>

fun to_float :: "out_val \<Rightarrow> nd_array option result" where
  "to_float (OArr a) = ok (Some (a\<lparr>nd_integer := False\<rparr>))"
| "to_float (OStrings _) = ok None"
| "to_float (OList []) = ok None"
| "to_float (OList xs) = ok (Some (float_array [length xs] xs))"
| "to_float (ODicts []) = ok None"
| "to_float (ODicts (d # ds)) =
     (if list_all (\<lambda>e. length e = length d) ds
      then ok (Some (float_array [length (d # ds), length d] (concat (d # ds))))
      else raise (ValueError ''inhomogeneous shape''))"
| "to_float (ODict xs) = ok (Some (float_array [length xs] xs))"
| "to_float OUnknown = ok None"

text \<open>\<open>np.mean((a - b) ** 2)\<close> and \<open>np.mean(a ** 2) + 1e-12\<close>.\<close>

definition mean_sq_diff :: "nd_array \<Rightarrow> nd_array \<Rightarrow> py_float" where
  "mean_sq_diff a b = pf_mean (map2 (\<lambda>x y. pf_square (pf_sub x y)) (nd_data a) (nd_data b))"

definition mean_sq_plus :: "nd_array \<Rightarrow> py_float" where
  "mean_sq_plus a = pf_add (pf_mean (map pf_square (nd_data a))) (Fin (1 / 10 ^ 12))"

text \<open>Nonnegative or NaN: what sums of squares are.\<close>

fun nonneg_or_nan :: "py_float \<Rightarrow> bool" where
  "nonneg_or_nan (Fin a) = (0 \<le> a)"
| "nonneg_or_nan NInf = False"
| "nonneg_or_nan _ = True"

lemma nonneg_or_nan_add: "nonneg_or_nan a \<Longrightarrow> nonneg_or_nan b \<Longrightarrow> nonneg_or_nan (pf_add a b)"
  by (cases a; cases b) auto

lemma nonneg_or_nan_square: "nonneg_or_nan (pf_square a)"
  by (cases a) (auto simp: pf_square_def signed_inf_def)

lemma nonneg_or_nan_foldl:
  "nonneg_or_nan a \<Longrightarrow> (\<And>x. x \<in> set xs \<Longrightarrow> nonneg_or_nan x) \<Longrightarrow> nonneg_or_nan (foldl pf_add a xs)"
  by (induction xs arbitrary: a) (auto intro: nonneg_or_nan_add)

lemma nonneg_or_nan_div: "nonneg_or_nan a \<Longrightarrow> nonneg_or_nan b \<Longrightarrow> nonneg_or_nan (pf_div a b)"
  by (cases a; cases b) (auto simp: signed_inf_def)

lemma nonneg_or_nan_mean: "(\<And>x. x \<in> set xs \<Longrightarrow> nonneg_or_nan x) \<Longrightarrow> nonneg_or_nan (pf_mean xs)"
  unfolding pf_mean_def pf_sum_def by (intro nonneg_or_nan_div nonneg_or_nan_foldl) auto

lemma nonneg_mean_sq_diff: "nonneg_or_nan (mean_sq_diff a b)"
  unfolding mean_sq_diff_def by (rule nonneg_or_nan_mean) (auto simp: nonneg_or_nan_square)

lemma nonneg_mean_sq_plus: "nonneg_or_nan (mean_sq_plus a)"
  unfolding mean_sq_plus_def
  by (intro nonneg_or_nan_add nonneg_or_nan_mean) (auto simp: nonneg_or_nan_square)

lemma mean_sq_diff_NaN: "length (nd_data a) = length (nd_data b) \<Longrightarrow> NaN \<in> set (nd_data b) \<Longrightarrow>
   mean_sq_diff a b = NaN"
proof -
  assume l: "length (nd_data a) = length (nd_data b)" and "NaN \<in> set (nd_data b)"
  then obtain i where "i < length (nd_data b)" "nd_data b ! i = NaN" by (auto simp: in_set_conv_nth)
  with l have "(nd_data a ! i, NaN) \<in> set (zip (nd_data a) (nd_data b))" by (auto simp: set_zip)
  then show ?thesis
    unfolding mean_sq_diff_def by (intro pf_mean_has_NaN) force
qed

end
