(* ===== verification/Uosa.thy ===== *)
theory Uosa
  imports Onnx_Runtime "HOL-Library.Product_Lexorder"
begin

text \<open>
  Operator sensitivity analysis, \<open>astra/core/uosa.py\<close>.  The random generator of numpy is a
  parameter (a function that draws normal noise from a generator state), as are the
  sessions of onnxruntime.  The graph surgery, the loops over the calibration samples, the
  early returns and the ranking are the code's.  Sensitivities are \<open>py_float\<close>: they are
  sums of squares divided by sums of squares.
\<close>

section \<open>Profiles\<close>

record sensitivity_result =
  sr_operator :: string
  sr_op_type :: string
  sr_category :: operator_category
  sr_sensitivity :: py_float
  sr_rank :: int

definition is_highly_sensitive :: "sensitivity_result \<Rightarrow> bool" where
  "is_highly_sensitive r \<longleftrightarrow> pf_lt (Fin 0.1) (sr_sensitivity r)"

record sensitivity_profile =
  sp_results :: "sensitivity_result list"
  sp_calibration_size :: nat
  sp_perturbation_scale :: real

text \<open>The sort key of a sensitivity; it agrees with \<open>pf_lt\<close> on everything but NaN, whose
  position under Python's sort is not determined by the comparison.\<close>

fun pf_key :: "py_float \<Rightarrow> nat \<times> real" where
  "pf_key NaN = (0, 0)"
| "pf_key NInf = (1, 0)"
| "pf_key (Fin a) = (2, a)"
| "pf_key PInf = (3, 0)"

definition ranked :: "sensitivity_profile \<Rightarrow> sensitivity_result list" where
  "ranked sp = map (\<lambda>(i, r). r\<lparr>sr_rank := int i\<rparr>)
     (enumerate 0 (sort_desc (\<lambda>r. pf_key (sr_sensitivity r)) (sp_results sp)))"

definition get_sensitivity :: "sensitivity_profile \<Rightarrow> string \<Rightarrow> py_float option" where
  "get_sensitivity sp name = map_option sr_sensitivity (find (\<lambda>r. sr_operator r = name) (sp_results sp))"

definition n_protect :: "nat \<Rightarrow> real \<Rightarrow> nat" where
  "n_protect n top_p = nat (max 1 \<lfloor>of_nat n * top_p\<rfloor>)"

definition get_protection_set :: "sensitivity_profile \<Rightarrow> real \<Rightarrow> string set" where
  "get_protection_set sp top_p =
     (let rs = ranked sp in set (map sr_operator (take (n_protect (length rs) top_p) rs)))"

definition normalized_scores :: "sensitivity_profile \<Rightarrow> (string \<times> py_float) list" where
  "normalized_scores sp =
     (case sp_results sp of
        [] \<Rightarrow> []
      | r # rs \<Rightarrow>
          let max_s = foldl py_max (sr_sensitivity r) (map sr_sensitivity rs)
          in if max_s = Fin 0 then dict_of (map (\<lambda>r. (sr_operator r, Fin 0)) (sp_results sp))
             else dict_of (map (\<lambda>r. (sr_operator r, pf_div (sr_sensitivity r) max_s)) (sp_results sp)))"

section \<open>Perturbations\<close>

type_synonym 'r normal = "'r \<Rightarrow> py_float \<Rightarrow> nat \<Rightarrow> py_float list \<times> 'r"

definition abs_mean_plus :: "py_float list \<Rightarrow> py_float" where
  "abs_mean_plus xs = pf_add (pf_mean (map pf_abs xs)) (Fin (1 / 10 ^ 8))"

definition generate_noise ::
  "'r normal \<Rightarrow> real \<Rightarrow> 'r \<Rightarrow> py_float list \<Rightarrow> operator_category \<Rightarrow> (py_float list \<times> 'r) result" where
  "generate_noise normal scale rng xs cat =
     (if cat = TREE_ENSEMBLE
      then bind_result (np_ptp xs)
             (\<lambda>r. ok (normal rng (pf_mul (Fin scale) (pf_add r (Fin (1 / 10 ^ 8)))) (length xs)))
      else ok (normal rng (pf_mul (Fin scale) (abs_mean_plus xs)) (length xs)))"

section \<open>Graph surgery\<close>

definition noise_input_name :: "operator_info \<Rightarrow> string" where
  "noise_input_name op = ''__uosa_noise_'' @ op_name op"

definition renamed_output :: "operator_info \<Rightarrow> string" where
  "renamed_output op = ''__uosa_pre_perturb_'' @ op_name op"

text \<open>\<open>_create_perturbed_model\<close>: the operator's first output is produced under a new name, an
  \<open>Add\<close> node re-exposes the old name, and a graph input carries the noise.\<close>

definition create_perturbed_model :: "graph \<Rightarrow> operator_info \<Rightarrow> graph option" where
  "create_perturbed_model g op =
     (case op_outputs op of
        [] \<Rightarrow> None
      | target # _ \<Rightarrow>
          let nodes = map (\<lambda>n. n\<lparr>n_outputs := map (\<lambda>o'. if o' = target then renamed_output op else o') (n_outputs n)\<rparr>)
                        (g_nodes g);
              infos = (case find (\<lambda>vi. vi_name vi = target) (g_value_info g) of
                         None \<Rightarrow> g_value_info g
                       | Some vi \<Rightarrow> g_value_info g @ [vi\<lparr>vi_name := renamed_output op\<rparr>]);
              add = \<lparr>n_name = ''__uosa_add_'' @ op_name op, n_op_type = ''Add'', n_domain = '''',
                     n_inputs = [renamed_output op, noise_input_name op], n_outputs = [target], n_attrs = []\<rparr>;
              noise_shape = (case find (\<lambda>vi. vi_name vi = target) (infos @ g_outputs g) of
                 None \<Rightarrow> None
               | Some vi \<Rightarrow> map_option (map (\<lambda>d. case d of
                     DimValue v \<Rightarrow> if v > 0 then DimValue v else DimParam ''N''
                   | DimParam p \<Rightarrow> if p \<noteq> '''' then DimParam p else DimParam ''N'')) (vi_shape vi))
          in Some (g\<lparr>g_nodes := nodes @ [add], g_value_info := infos,
                     g_inputs := g_inputs g @ [\<lparr>vi_name = noise_input_name op, vi_shape = noise_shape\<rparr>]\<rparr>))"

text \<open>\<open>_get_intermediate_output\<close>: expose the operator's first output and run the graph.\<close>

definition expose_output :: "graph \<Rightarrow> string \<Rightarrow> graph" where
  "expose_output g target =
     (if target \<in> set (map vi_name (g_outputs g)) then g
      else g\<lparr>g_outputs := g_outputs g @
               [case find (\<lambda>vi. vi_name vi = target) (g_value_info g) of
                  Some vi \<Rightarrow> vi | None \<Rightarrow> \<lparr>vi_name = target, vi_shape = None\<rparr>]\<rparr>)"

definition get_intermediate_output :: "ort \<Rightarrow> graph \<Rightarrow> operator_info \<Rightarrow> feed \<Rightarrow> out_val option" where
  "get_intermediate_output ort g op sample =
     (case op_outputs op of
        [] \<Rightarrow> None
      | target # _ \<Rightarrow>
          if \<not> ort_load ort (expose_output g target) then None
          else (case ort_run ort (expose_output g target) [target] sample of
                  Some (v # _) \<Rightarrow> Some v | _ \<Rightarrow> None))"

section \<open>Deviation of the outputs\<close>

definition add_output_pair :: "out_val \<Rightarrow> out_val \<Rightarrow> py_float \<times> py_float \<Rightarrow> (py_float \<times> py_float) result" where
  "add_output_pair base_out pert_out acc =
     bind_result (to_float base_out) (\<lambda>b. bind_result (to_float pert_out) (\<lambda>p.
       case (b, p) of
         (Some b, Some p) \<Rightarrow>
           if nd_shape b \<noteq> nd_shape p then ok acc
           else ok (pf_add (fst acc) (mean_sq_diff b p), pf_add (snd acc) (mean_sq_plus b))
       | _ \<Rightarrow> ok acc))"

fun add_outputs :: "(out_val \<times> out_val) list \<Rightarrow> py_float \<times> py_float \<Rightarrow> (py_float \<times> py_float) result" where
  "add_outputs [] acc = ok acc"
| "add_outputs ((b, p) # rest) acc = bind_result (add_output_pair b p acc) (add_outputs rest)"

definition ratio_or_zero :: "py_float \<times> py_float \<Rightarrow> py_float" where
  "ratio_or_zero acc = (if snd acc = Fin 0 then Fin 0 else pf_div (fst acc) (snd acc))"

text \<open>The loop over the calibration samples for one perturbed graph; each sample comes with the
  baseline outputs recorded for it.\<close>

fun neural_samples ::
  "ort \<Rightarrow> 'r normal \<Rightarrow> real \<Rightarrow> graph \<Rightarrow> graph \<Rightarrow> operator_info \<Rightarrow> (feed \<times> out_val list) list \<Rightarrow> 'r
     \<Rightarrow> py_float \<times> py_float \<Rightarrow> ((py_float \<times> py_float) \<times> 'r) result" where
  "neural_samples ort normal scale g pg op [] rng acc = ok (acc, rng)"
| "neural_samples ort normal scale g pg op ((sample, base) # rest) rng acc =
     (case get_intermediate_output ort g op sample of
        Some (OArr mid) \<Rightarrow>
          bind_result (generate_noise normal scale rng (nd_data mid) (op_category op))
            (\<lambda>(noise, rng').
               case ort_run ort pg (ort_outputs ort pg)
                      (AList.update (noise_input_name op) (mid\<lparr>nd_data := noise\<rparr>) sample) of
                 None \<Rightarrow> neural_samples ort normal scale g pg op rest rng' acc
               | Some outs \<Rightarrow>
                   bind_result (add_outputs (zip base outs) acc)
                     (neural_samples ort normal scale g pg op rest rng'))
      | _ \<Rightarrow> neural_samples ort normal scale g pg op rest rng acc)"

definition compute_neural_operator_sensitivity ::
  "ort \<Rightarrow> 'r normal \<Rightarrow> real \<Rightarrow> graph \<Rightarrow> operator_info \<Rightarrow> (feed \<times> out_val list) list \<Rightarrow> 'r
     \<Rightarrow> (py_float \<times> 'r) result" where
  "compute_neural_operator_sensitivity ort normal scale g op samples rng =
     (case create_perturbed_model g op of
        None \<Rightarrow> ok (Fin 0, rng)
      | Some pg \<Rightarrow>
          if \<not> ort_load ort pg then ok (Fin 0, rng)
          else bind_result (neural_samples ort normal scale g pg op samples rng (Fin 0, Fin 0))
                 (\<lambda>(acc, rng'). ok (ratio_or_zero acc, rng')))"

section \<open>Attribute perturbation of classical operators\<close>

definition truthy_attr :: "attr_value \<Rightarrow> bool" where
  "truthy_attr v = (case v of AFloat f \<Rightarrow> f \<noteq> 0 | AInt i \<Rightarrow> i \<noteq> 0 | AString s \<Rightarrow> s \<noteq> ''''
     | AFloats xs \<Rightarrow> xs \<noteq> [] | AInts xs \<Rightarrow> xs \<noteq> [] | AStrings xs \<Rightarrow> xs \<noteq> [] | AOther \<Rightarrow> False)"

definition get_perturbable_attributes :: "operator_info \<Rightarrow> string list" where
  "get_perturbable_attributes op =
     (let present = filter (\<lambda>a. case map_of (op_attributes op) a of None \<Rightarrow> False | Some v \<Rightarrow> truthy_attr v)
      in case op_category op of
           TREE_ENSEMBLE \<Rightarrow> present [''class_weights'', ''target_weights'', ''leaf_weights'']
         | LINEAR_MODEL \<Rightarrow> present [''coefficients'']
         | SVM \<Rightarrow> present [''coefficients'']
         | _ \<Rightarrow> [])"

fun pf_real :: "py_float \<Rightarrow> real" where
  "pf_real (Fin a) = a"
| "pf_real _ = 0"

text \<open>The first attribute with the name and a float type is rewritten; \<open>None\<close>: none in this node.\<close>

fun perturb_attrs ::
  "'r normal \<Rightarrow> real \<Rightarrow> operator_category \<Rightarrow> string \<Rightarrow> (string \<times> attr_value) list \<Rightarrow> 'r
     \<Rightarrow> (((string \<times> attr_value) list \<times> 'r) option) result" where
  "perturb_attrs normal scale cat name [] rng = ok None"
| "perturb_attrs normal scale cat name ((k, v) # rest) rng =
     (let skip = bind_result (perturb_attrs normal scale cat name rest rng)
                   (\<lambda>res. ok (map_option (\<lambda>(as, rng'). ((k, v) # as, rng')) res))
      in if k \<noteq> name then skip
         else (case v of
             AFloats xs \<Rightarrow>
               bind_result (generate_noise normal scale rng (map Fin xs) cat)
                 (\<lambda>(noise, rng'). ok (Some ((k, AFloats (map2 (\<lambda>x n. x + pf_real n) xs noise)) # rest, rng')))
           | AFloat f \<Rightarrow>
               (let (noise, rng') = normal rng (Fin (scale * (\<bar>f\<bar> + 1 / 10 ^ 8))) 1
                in ok (Some ((k, AFloat (f + pf_real (noise ! 0))) # rest, rng')))
           | _ \<Rightarrow> skip))"

fun perturb_nodes ::
  "'r normal \<Rightarrow> real \<Rightarrow> operator_info \<Rightarrow> string \<Rightarrow> node_proto list \<Rightarrow> 'r
     \<Rightarrow> ((node_proto list \<times> 'r) option) result" where
  "perturb_nodes normal scale op name [] rng = ok None"
| "perturb_nodes normal scale op name (n # ns) rng =
     (let skip = bind_result (perturb_nodes normal scale op name ns rng)
                   (\<lambda>res. ok (map_option (\<lambda>(ns', rng'). (n # ns', rng')) res))
      in if (n_name n \<noteq> op_name op \<and> n_op_type n \<noteq> op_type op) \<or> (n_name n \<noteq> '''' \<and> n_name n \<noteq> op_name op)
         then skip
         else bind_result (perturb_attrs normal scale (op_category op) name (n_attrs n) rng)
                (\<lambda>res. case res of
                   Some (as, rng') \<Rightarrow> ok (Some (n\<lparr>n_attrs := as\<rparr> # ns, rng'))
                 | None \<Rightarrow> skip))"

fun ml_samples ::
  "ort \<Rightarrow> graph \<Rightarrow> (feed \<times> out_val list) list \<Rightarrow> py_float \<times> py_float \<Rightarrow> (py_float \<times> py_float) result" where
  "ml_samples ort pg [] acc = ok acc"
| "ml_samples ort pg ((sample, base) # rest) acc =
     (case ort_run ort pg (ort_outputs ort pg) sample of
        None \<Rightarrow> ml_samples ort pg rest acc
      | Some outs \<Rightarrow> bind_result (add_outputs (zip base outs) acc) (ml_samples ort pg rest))"

fun ml_attributes ::
  "ort \<Rightarrow> 'r normal \<Rightarrow> real \<Rightarrow> graph \<Rightarrow> operator_info \<Rightarrow> (feed \<times> out_val list) list \<Rightarrow> string list \<Rightarrow> 'r
     \<Rightarrow> py_float \<times> py_float \<Rightarrow> ((py_float \<times> py_float) \<times> 'r) result" where
  "ml_attributes ort normal scale g op samples [] rng acc = ok (acc, rng)"
| "ml_attributes ort normal scale g op samples (a # as) rng acc =
     bind_result (perturb_nodes normal scale op a (g_nodes g) rng)
       (\<lambda>res. case res of
          None \<Rightarrow> ml_attributes ort normal scale g op samples as rng acc
        | Some (ns, rng') \<Rightarrow>
            if \<not> ort_load ort (g\<lparr>g_nodes := ns\<rparr>) then ml_attributes ort normal scale g op samples as rng' acc
            else bind_result (ml_samples ort (g\<lparr>g_nodes := ns\<rparr>) samples acc)
                   (ml_attributes ort normal scale g op samples as rng'))"

definition compute_ml_operator_sensitivity ::
  "ort \<Rightarrow> 'r normal \<Rightarrow> real \<Rightarrow> graph \<Rightarrow> operator_info \<Rightarrow> (feed \<times> out_val list) list \<Rightarrow> 'r
     \<Rightarrow> (py_float \<times> 'r) result" where
  "compute_ml_operator_sensitivity ort normal scale g op samples rng =
     (case get_perturbable_attributes op of
        [] \<Rightarrow> ok (Fin 0, rng)
      | as \<Rightarrow> bind_result (ml_attributes ort normal scale g op samples as rng (Fin 0, Fin 0))
                (\<lambda>(acc, rng'). ok (ratio_or_zero acc, rng')))"

definition compute_operator_sensitivity ::
  "ort \<Rightarrow> 'r normal \<Rightarrow> real \<Rightarrow> graph \<Rightarrow> operator_info \<Rightarrow> (feed \<times> out_val list) list \<Rightarrow> 'r
     \<Rightarrow> (py_float \<times> 'r) result" where
  "compute_operator_sensitivity ort normal scale g op samples rng =
     (if is_ml_operator op then compute_ml_operator_sensitivity ort normal scale g op samples rng
      else compute_neural_operator_sensitivity ort normal scale g op samples rng)"

section \<open>The engine\<close>

text \<open>\<open>_run_baseline\<close> has no handler: a session or a run that fails raises.\<close>

fun run_baseline :: "ort \<Rightarrow> graph \<Rightarrow> feed list \<Rightarrow> (feed \<times> out_val list) list result" where
  "run_baseline ort g [] = ok []"
| "run_baseline ort g (s # ss) =
     (case ort_run ort g (ort_outputs ort g) s of
        None \<Rightarrow> raise (RuntimeError ''onnxruntime'')
      | Some outs \<Rightarrow> bind_result (run_baseline ort g ss) (\<lambda>r. ok ((s, outs) # r)))"

fun analyze_operators ::
  "ort \<Rightarrow> 'r normal \<Rightarrow> real \<Rightarrow> graph \<Rightarrow> (feed \<times> out_val list) list \<Rightarrow> operator_info list \<Rightarrow> 'r
     \<Rightarrow> sensitivity_result list result" where
  "analyze_operators ort normal scale g samples [] rng = ok []"
| "analyze_operators ort normal scale g samples (op # ops) rng =
     bind_result (compute_operator_sensitivity ort normal scale g op samples rng)
       (\<lambda>(s, rng'). bind_result (analyze_operators ort normal scale g samples ops rng')
          (\<lambda>rs. ok (\<lparr>sr_operator = op_name op, sr_op_type = op_type op, sr_category = op_category op,
                     sr_sensitivity = s, sr_rank = -1\<rparr> # rs)))"

definition uosa_analyze ::
  "ort \<Rightarrow> 'r normal \<Rightarrow> real \<Rightarrow> graph \<Rightarrow> graph_info \<Rightarrow> feed list \<Rightarrow> 'r \<Rightarrow> sensitivity_profile result" where
  "uosa_analyze ort normal scale g gi calibration rng =
     (let mk = (\<lambda>rs. \<lparr>sp_results = rs, sp_calibration_size = length calibration, sp_perturbation_scale = scale\<rparr>)
      in if compressible_operators gi = [] then ok (mk [])
         else if \<not> ort_load ort g then raise (RuntimeError ''onnxruntime'')
         else bind_result (run_baseline ort g calibration)
                (\<lambda>samples. bind_result (analyze_operators ort normal scale g samples (compressible_operators gi) rng)
                   (\<lambda>rs. ok (mk rs))))"

section \<open>Ranking and protection\<close>

lemma pf_key_le: "\<not> pf_isnan a \<Longrightarrow> \<not> pf_isnan b \<Longrightarrow> pf_key a \<le> pf_key b \<longleftrightarrow> pf_le a b"
  by (cases a; cases b) auto

lemma map_snd_enumerate_upd: "map sr_operator (map (\<lambda>(i, r). r\<lparr>sr_rank := int i\<rparr>) (enumerate n rs)) = map sr_operator rs"
  by (induction rs arbitrary: n) auto

lemma length_ranked [simp]: "length (ranked sp) = length (sp_results sp)"
  by (simp add: ranked_def)

lemma ranked_nth:
  assumes "i < length (sp_results sp)"
  shows "ranked sp ! i = (sort_desc (\<lambda>r. pf_key (sr_sensitivity r)) (sp_results sp) ! i)\<lparr>sr_rank := int i\<rparr>"
  using assms by (simp add: ranked_def nth_enumerate_eq)

lemma ranked_erase:
  "map (\<lambda>r. r\<lparr>sr_rank := k\<rparr>) (ranked sp)
     = map (\<lambda>r. r\<lparr>sr_rank := k\<rparr>) (sort_desc (\<lambda>r. pf_key (sr_sensitivity r)) (sp_results sp))"
  by (rule nth_equalityI) (auto simp: ranked_nth)

lemma ranked_desc: "sorted_wrt (\<lambda>a b. pf_key (sr_sensitivity b) \<le> pf_key (sr_sensitivity a)) (ranked sp)"
  using sorted_sort_desc [of "\<lambda>r. pf_key (sr_sensitivity r)" "sp_results sp"]
  by (auto simp: sorted_wrt_iff_nth_less ranked_nth)

lemma n_protect_pos: "1 \<le> n_protect n p"
  by (simp add: n_protect_def)

lemma n_protect_le:
  assumes "1 \<le> n" "p \<le> 1"
  shows "n_protect n p \<le> n"
proof -
  have "of_nat n * p \<le> of_nat n * 1" using assms(2) by (rule mult_left_mono) simp
  then have "\<lfloor>of_nat n * p\<rfloor> \<le> \<lfloor>of_nat n :: real\<rfloor>" by (intro floor_mono) simp
  then show ?thesis using assms(1) by (simp add: n_protect_def)
qed

lemma distinct_ranked_names:
  "distinct (map sr_operator (sp_results sp)) \<Longrightarrow> distinct (map sr_operator (ranked sp))"
  unfolding ranked_def map_snd_enumerate_upd
  by (metis mset_eq_imp_distinct_iff mset_map mset_sort_desc)

text \<open>the ranking is a permutation of the results in descending sensitivity whose \<open>rank\<close>
  fields are the positions.\<close>

theorem ranked_correct:
  "image_mset (\<lambda>r. r\<lparr>sr_rank := 0\<rparr>) (mset (ranked sp)) = image_mset (\<lambda>r. r\<lparr>sr_rank := 0\<rparr>) (mset (sp_results sp)) \<and>
   sorted_wrt (\<lambda>a b. pf_key (sr_sensitivity b) \<le> pf_key (sr_sensitivity a)) (ranked sp) \<and>
   map sr_rank (ranked sp) = map int [0..<length (sp_results sp)]"
proof (intro conjI ranked_desc)
  have "mset (map (\<lambda>r. r\<lparr>sr_rank := 0\<rparr>) (ranked sp)) = mset (map (\<lambda>r. r\<lparr>sr_rank := 0\<rparr>) (sp_results sp))"
    unfolding ranked_erase by simp
  then show "image_mset (\<lambda>r. r\<lparr>sr_rank := 0\<rparr>) (mset (ranked sp)) = image_mset (\<lambda>r. r\<lparr>sr_rank := 0\<rparr>) (mset (sp_results sp))"
    by simp
  show "map sr_rank (ranked sp) = map int [0..<length (sp_results sp)]"
    by (rule nth_equalityI) (auto simp: ranked_nth)
qed

text \<open>with distinct operator names and a share between 0 and 1, the protection set has
  exactly \<open>max 1 (floor (n * p))\<close> operators and no operator outside it is more sensitive than one
  inside it.\<close>

theorem protection_set_correct:
  assumes ne: "sp_results sp \<noteq> []" and dist: "distinct (map sr_operator (sp_results sp))"
    and p: "0 \<le> p" "p \<le> 1" and nan: "\<forall>r \<in> set (sp_results sp). \<not> pf_isnan (sr_sensitivity r)"
  shows "card (get_protection_set sp p) = n_protect (length (sp_results sp)) p \<and>
    (\<forall>a \<in> set (ranked sp). \<forall>b \<in> set (ranked sp).
       sr_operator a \<in> get_protection_set sp p \<longrightarrow> sr_operator b \<notin> get_protection_set sp p \<longrightarrow>
       pf_le (sr_sensitivity b) (sr_sensitivity a))"
proof
  let ?rs = "ranked sp" and ?k = "n_protect (length (sp_results sp)) p"
  have dr: "distinct (map sr_operator ?rs)" using dist by (rule distinct_ranked_names)
  have k: "?k \<le> length ?rs"
    using n_protect_le [of "length (sp_results sp)" p] ne p by (cases "sp_results sp") auto
  have set_eq: "get_protection_set sp p = set (take ?k (map sr_operator ?rs))"
    by (simp add: get_protection_set_def take_map Let_def)
  show "card (get_protection_set sp p) = ?k"
    unfolding set_eq using distinct_card [OF distinct_take [OF dr]] k by simp
  show "\<forall>a \<in> set ?rs. \<forall>b \<in> set ?rs. sr_operator a \<in> get_protection_set sp p \<longrightarrow>
     sr_operator b \<notin> get_protection_set sp p \<longrightarrow> pf_le (sr_sensitivity b) (sr_sensitivity a)"
  proof (intro ballI impI)
    fix a b assume a: "a \<in> set ?rs" "sr_operator a \<in> get_protection_set sp p"
      and b: "b \<in> set ?rs" "sr_operator b \<notin> get_protection_set sp p"
    have inj: "inj_on sr_operator (set ?rs)" using dr by (simp add: distinct_map)
    have ta: "a \<in> set (take ?k ?rs)"
      using a inj by (auto simp: set_eq take_map inj_on_def dest: in_set_takeD)
    have tb: "b \<in> set (drop ?k ?rs)"
      using b by (auto simp: set_eq take_map) (metis Un_iff append_take_drop_id imageI set_append)
    have "pf_key (sr_sensitivity b) \<le> pf_key (sr_sensitivity a)"
      by (rule desc_take_drop [OF ranked_desc ta tb])
    moreover have "\<not> pf_isnan (sr_sensitivity r)" if "r \<in> set ?rs" for r
      using that nan by (auto simp: ranked_def dest!: in_set_enumerate_eq [THEN iffD1])
        (metis length_sort_desc nth_mem set_sort_desc)
    ultimately show "pf_le (sr_sensitivity b) (sr_sensitivity a)"
      using a b pf_key_le by blast
  qed
qed

definition demo_profile :: sensitivity_profile where
  "demo_profile = \<lparr>sp_results =
     [\<lparr>sr_operator = ''a'', sr_op_type = ''Gemm'', sr_category = DENSE_COMPUTE, sr_sensitivity = Fin 0.1, sr_rank = -1\<rparr>,
      \<lparr>sr_operator = ''b'', sr_op_type = ''Gemm'', sr_category = DENSE_COMPUTE, sr_sensitivity = Fin 0.7, sr_rank = -1\<rparr>],
     sp_calibration_size = 1, sp_perturbation_scale = 0.01\<rparr>"

theorem protection_set_correct_witness: "card (get_protection_set demo_profile 0.3) = 1"
  using protection_set_correct [of demo_profile "0.3"]
  by (simp add: demo_profile_def n_protect_def)

end
