(* ===== verification/Validation.thy ===== *)
theory Validation
  imports Onnx_Runtime
begin

text \<open>
  Data-free validation, \<open>astra/core/validation.py\<close>: output fidelity (OFS), weight fidelity
  (WFS), structural integrity (SIS) and the quality score.  Sessions are those of theory
  Onnx_Runtime; the probes are an argument.  Fidelities are \<open>py_float\<close> because a candidate
  whose output contains NaN has a NaN fidelity, and the lemmas below say so.
\<close>

section \<open>Output fidelity\<close>

record ofs_state =
  os_orig :: "out_val list list"
  os_comp :: "out_val list list"
  os_div :: "(string \<times> py_float list) list"
  os_discrete :: "string list"

definition push_div :: "string \<Rightarrow> py_float \<Rightarrow> (string \<times> py_float list) list \<Rightarrow> (string \<times> py_float list) list" where
  "push_div name x d = AList.update name ((case map_of d name of None \<Rightarrow> [] | Some xs \<Rightarrow> xs) @ [x]) d"

fun is_discrete :: "out_val \<Rightarrow> bool" where
  "is_discrete (OArr a) = nd_integer a"
| "is_discrete _ = False"

definition divergence :: "nd_array option \<Rightarrow> nd_array option \<Rightarrow> py_float" where
  "divergence o_arr c_arr =
     (case (o_arr, c_arr) of
        (Some a, Some b) \<Rightarrow>
          if nd_shape a \<noteq> nd_shape b then Fin 1 else pf_div (mean_sq_diff a b) (mean_sq_plus a)
      | _ \<Rightarrow> Fin 1)"

fun ofs_outputs :: "string list \<Rightarrow> out_val list \<Rightarrow> out_val list \<Rightarrow> ofs_state \<Rightarrow> ofs_state result" where
  "ofs_outputs [] os cs st = ok st"
| "ofs_outputs (name # names) os [] st = ok st"
| "ofs_outputs (name # names) [] (c # cs) st = raise IndexError"
| "ofs_outputs (name # names) (ov # os) (c # cs) st =
     (if is_discrete ov then ofs_outputs names os cs (st\<lparr>os_discrete := List.insert name (os_discrete st)\<rparr>)
      else bind_result (to_float ov) (\<lambda>a. bind_result (to_float c) (\<lambda>b.
             ofs_outputs names os cs (st\<lparr>os_div := push_div name (divergence a b) (os_div st)\<rparr>))))"

fun ofs_probes ::
  "ort \<Rightarrow> graph \<Rightarrow> graph \<Rightarrow> feed list \<Rightarrow> ofs_state \<Rightarrow> ofs_state result" where
  "ofs_probes ort orig cmp [] st = ok st"
| "ofs_probes ort orig cmp (p # ps) st =
     (case (ort_run ort orig (ort_outputs ort orig) p, ort_run ort cmp (ort_outputs ort cmp) p) of
        (Some os, Some cs) \<Rightarrow>
          bind_result (ofs_outputs (ort_outputs ort orig) os cs
              (st\<lparr>os_orig := os_orig st @ [os], os_comp := os_comp st @ [cs]\<rparr>))
            (ofs_probes ort orig cmp ps)
      | _ \<Rightarrow> ofs_probes ort orig cmp ps st)"

fun ofs_per_output :: "string list \<Rightarrow> (string \<times> py_float list) list \<Rightarrow> (string \<times> py_float) list" where
  "ofs_per_output discrete [] = []"
| "ofs_per_output discrete ((name, divs) # rest) =
     (if divs = [] then
        (if name \<in> set discrete then ofs_per_output discrete rest
         else (name, Fin 0) # ofs_per_output discrete rest)
      else (name, pf_sub (Fin 1) (pf_clip 0 1 (pf_mean divs))) # ofs_per_output discrete rest)"

definition pf_eq :: "py_float \<Rightarrow> py_float \<Rightarrow> bool" where
  "pf_eq a b \<longleftrightarrow> a = b \<and> \<not> pf_isnan a"

definition same_array :: "nd_array option \<Rightarrow> nd_array option \<Rightarrow> bool" where
  "same_array a b = (case (a, b) of
      (Some a, Some b) \<Rightarrow> nd_shape a = nd_shape b \<and> list_all2 pf_eq (nd_data a) (nd_data b)
    | _ \<Rightarrow> False)"

text \<open>Label agreement over the discrete outputs, for a model with nothing else: (matches, total).\<close>

fun count_matches :: "string list \<Rightarrow> string list \<Rightarrow> out_val list \<Rightarrow> out_val list \<Rightarrow> nat \<times> nat \<Rightarrow> (nat \<times> nat) result" where
  "count_matches discrete (name # names) (ov # os) (c # cs) (m, t) =
     (if name \<in> set discrete
      then bind_result (to_float ov) (\<lambda>a. bind_result (to_float c) (\<lambda>b.
             count_matches discrete names os cs (m + (if same_array a b then 1 else 0), t + 1)))
      else count_matches discrete names os cs (m, t))"
| "count_matches discrete _ _ _ acc = ok acc"

fun label_agreement ::
  "string list \<Rightarrow> string list \<Rightarrow> (out_val list \<times> out_val list) list \<Rightarrow> nat \<times> nat \<Rightarrow> (nat \<times> nat) result" where
  "label_agreement discrete names [] acc = ok acc"
| "label_agreement discrete names ((os, cs) # rest) acc =
     bind_result (count_matches discrete names os cs acc) (label_agreement discrete names rest)"

definition ofs_scores :: "string list \<Rightarrow> ofs_state \<Rightarrow> (string \<times> py_float) list result" where
  "ofs_scores names st =
     (let per = ofs_per_output (os_discrete st) (os_div st)
      in if per = [] \<and> os_discrete st \<noteq> [] \<and> os_orig st \<noteq> []
         then bind_result (label_agreement (os_discrete st) names (zip (os_orig st) (os_comp st)) (0, 0))
                (\<lambda>(m, t). ok (map (\<lambda>name. (name, if t = 0 then Fin 0 else Fin (of_nat m / of_nat t))) (os_discrete st)))
         else ok per)"

definition compute_output_fidelity ::
  "ort \<Rightarrow> graph \<Rightarrow> graph \<Rightarrow> feed list
     \<Rightarrow> (py_float \<times> (string \<times> py_float) list \<times> out_val list list \<times> out_val list list) result" where
  "compute_output_fidelity ort orig cmp probes =
     (if \<not> ort_load ort orig \<or> \<not> ort_load ort cmp then ok (Fin 0, [], [], [])
      else bind_result (ofs_probes ort orig cmp probes
               \<lparr>os_orig = [], os_comp = [], os_div = dict_of (map (\<lambda>n. (n, [])) (ort_outputs ort orig)),
                os_discrete = []\<rparr>)
        (\<lambda>st. bind_result (ofs_scores (ort_outputs ort orig) st)
           (\<lambda>per. ok (if per = [] then Fin 0 else pf_mean (map snd per), per, os_orig st, os_comp st))))"

section \<open>Weight fidelity\<close>

type_synonym weight = "nat list \<times> real list"

definition row_wise :: "(real \<Rightarrow> real \<Rightarrow> real) \<Rightarrow> real list \<Rightarrow> weight \<Rightarrow> weight" where
  "row_wise f vals w =
     (fst w, map (\<lambda>(i, x). f x (vals ! (i div prod_list (tl (fst w))))) (enumerate 0 (snd w)))"

definition elem_wise :: "(real \<Rightarrow> real) \<Rightarrow> weight \<Rightarrow> weight" where
  "elem_wise f w = (fst w, map f (snd w))"

definition per_axis :: "weight \<Rightarrow> weight \<Rightarrow> bool" where
  "per_axis v w \<longleftrightarrow> length (fst v) = 1 \<and> fst w \<noteq> [] \<and> hd (fst w) = length (snd v)"

definition reconstruct_quantized_weight :: "(string \<times> weight) list \<Rightarrow> string \<Rightarrow> weight option" where
  "reconstruct_quantized_weight cmp name =
     (case map_of cmp (name @ ''_fp16'') of
        Some w \<Rightarrow> Some w
      | None \<Rightarrow>
          (case (map_of cmp (name @ ''_q''), map_of cmp (name @ ''_scale'')) of
             (Some q, Some scale) \<Rightarrow>
               let qf = (case map_of cmp (name @ ''_zp'') of
                     None \<Rightarrow> q
                   | Some zp \<Rightarrow> if length (snd zp) = 1 then elem_wise (\<lambda>x. x - hd (snd zp)) q
                                else if per_axis zp q then row_wise (-) (snd zp) q else q)
               in if length (snd scale) = 1 then Some (elem_wise (\<lambda>x. x * hd (snd scale)) qf)
                  else if per_axis scale qf then Some (row_wise (*) (snd scale) qf)
                  else None
           | _ \<Rightarrow> None))"

definition extract_float_attributes :: "graph \<Rightarrow> (string \<times> weight) list" where
  "extract_float_attributes g =
     concat (map (\<lambda>n. concat (map (\<lambda>(k, v).
        if k \<in> {''class_weights'', ''target_weights'', ''coefficients''}
        then (case v of AFloats xs \<Rightarrow>
                [((if n_name n \<noteq> '''' then n_name n else n_op_type n) @ ''__'' @ k, ([length xs], xs))]
              | _ \<Rightarrow> []) else []) (n_attrs n))) (g_nodes g))"

definition weight_map :: "graph \<Rightarrow> (string \<times> weight) list" where
  "weight_map g = dict_of (map (\<lambda>t. (t_name t, (t_shape t, t_data t))) (g_inits g) @ extract_float_attributes g)"

definition norm2 :: "real list \<Rightarrow> real" where
  "norm2 xs = sqrt (sum_list (map (\<lambda>x. x * x) xs))"

definition clip01 :: "real \<Rightarrow> real" where
  "clip01 x = min 1 (max 0 x)"

definition weight_score :: "weight \<Rightarrow> weight \<Rightarrow> real" where
  "weight_score w c =
     (if fst w \<noteq> fst c then 0
      else 1 - clip01 (norm2 (map2 (-) (snd w) (snd c)) / (norm2 (snd w) + 1 / 10 ^ 12)))"

fun wfs_weights ::
  "(string \<times> weight) list \<Rightarrow> (string \<times> weight) list \<Rightarrow> (string \<times> real) list \<Rightarrow> (string \<times> real) list" where
  "wfs_weights [] cmp per = per"
| "wfs_weights ((name, w) # rest) cmp per =
     (case map_of cmp name of
        Some c \<Rightarrow> wfs_weights rest cmp (AList.update name (weight_score w c) per)
      | None \<Rightarrow>
          (case reconstruct_quantized_weight cmp name of
             None \<Rightarrow> wfs_weights rest cmp (AList.update name 0 per)
           | Some c \<Rightarrow> wfs_weights rest (AList.update name c cmp) (AList.update name (weight_score w c) per)))"

definition compute_weight_fidelity :: "graph \<Rightarrow> graph \<Rightarrow> real \<times> (string \<times> real) list" where
  "compute_weight_fidelity orig cmp =
     (let per = wfs_weights (weight_map orig) (weight_map cmp) []
      in (if per = [] then 1 else mean (map snd per), per))"

section \<open>Structural integrity\<close>

definition finite_array :: "nd_array \<Rightarrow> bool" where
  "finite_array a \<longleftrightarrow> list_all (\<lambda>x. \<not> pf_isnan x \<and> \<not> pf_isinf x) (nd_data a)"

fun outputs_nan_free :: "out_val list \<Rightarrow> bool result" where
  "outputs_nan_free [] = ok True"
| "outputs_nan_free (v # vs) =
     bind_result (to_float v) (\<lambda>a. case a of
        Some arr \<Rightarrow> if finite_array arr then outputs_nan_free vs else ok False
      | None \<Rightarrow> outputs_nan_free vs)"

fun all_nan_free :: "out_val list list \<Rightarrow> bool result" where
  "all_nan_free [] = ok True"
| "all_nan_free (vs # rest) =
     bind_result (outputs_nan_free vs) (\<lambda>b. bind_result (all_nan_free rest) (\<lambda>b'. ok (b \<and> b')))"

fun shapes_preserved :: "(out_val \<times> out_val) list \<Rightarrow> bool result" where
  "shapes_preserved [] = ok True"
| "shapes_preserved ((ov, c) # rest) =
     bind_result (to_float ov) (\<lambda>a. bind_result (to_float c) (\<lambda>b. bind_result (shapes_preserved rest) (\<lambda>r.
       ok (r \<and> (case (a, b) of (Some a, Some b) \<Rightarrow> nd_shape a = nd_shape b | _ \<Rightarrow> True)))))"

definition ptp_list :: "out_val \<Rightarrow> py_float list result" where
  "ptp_list v = bind_result (to_float v) (\<lambda>a. case a of
     None \<Rightarrow> ok [] | Some arr \<Rightarrow> bind_result (np_ptp (nd_data arr)) (\<lambda>p. ok [p]))"

fun output_ranges :: "(out_val \<times> out_val) list \<Rightarrow> (py_float list \<times> py_float list) result" where
  "output_ranges [] = ok ([], [])"
| "output_ranges ((ov, c) # rest) =
     bind_result (ptp_list ov) (\<lambda>a. bind_result (ptp_list c) (\<lambda>b. bind_result (output_ranges rest) (\<lambda>r.
       ok (a @ fst r, b @ snd r))))"

definition range_ratio :: "py_float list \<times> py_float list \<Rightarrow> py_float" where
  "range_ratio r =
     (if fst r = [] \<or> snd r = [] then Fin 1
      else let o_mean = pf_add (pf_mean (fst r)) (Fin (1 / 10 ^ 12));
               c_mean = pf_add (pf_mean (snd r)) (Fin (1 / 10 ^ 12))
           in pf_div (py_min o_mean c_mean) (py_max o_mean c_mean))"

definition prediction_match :: "nd_array \<Rightarrow> nd_array \<Rightarrow> bool result" where
  "prediction_match a b =
     (if length (nd_shape a) \<ge> 2 \<and> last (nd_shape a) > 1
      then bind_result (np_argmax (nd_data a)) (\<lambda>i. bind_result (np_argmax (nd_data b)) (\<lambda>j. ok (i = j)))
      else ok (nd_shape a = nd_shape b \<and> map pf_round_int (nd_data a) = map pf_round_int (nd_data b)))"

fun prediction_counts :: "(out_val list \<times> out_val list) list \<Rightarrow> (nat \<times> nat) result" where
  "prediction_counts [] = ok (0, 0)"
| "prediction_counts ((ov # _, c # _) # rest) =
     bind_result (to_float ov) (\<lambda>a. bind_result (to_float c) (\<lambda>b.
       case (a, b) of
         (Some a, Some b) \<Rightarrow>
           if nd_shape a = [] then prediction_counts rest
           else bind_result (prediction_match a b) (\<lambda>m. bind_result (prediction_counts rest)
                  (\<lambda>(k, t). ok (k + (if m then 1 else 0), t + 1)))
       | _ \<Rightarrow> prediction_counts rest))"
| "prediction_counts (_ # rest) = raise IndexError"

record sis_detail =
  sd_executability :: bool
  sd_nan_free :: bool
  sd_shape_preserved :: bool
  sd_output_range_ratio :: py_float
  sd_prediction_consistency :: "real option"

definition score_of :: "bool \<Rightarrow> py_float" where
  "score_of b = (if b then Fin 1 else Fin 0)"

definition compute_structural_integrity ::
  "out_val list list \<Rightarrow> out_val list list \<Rightarrow> (py_float \<times> sis_detail) result" where
  "compute_structural_integrity orig_outputs comp_outputs =
     (let both = orig_outputs \<noteq> [] \<and> comp_outputs \<noteq> []
      in bind_result (all_nan_free comp_outputs) (\<lambda>nan_free.
         bind_result (if both then shapes_preserved (zip (hd orig_outputs) (hd comp_outputs)) else ok True) (\<lambda>shape_ok.
         bind_result (if both then bind_result (output_ranges (concat (map2 zip orig_outputs comp_outputs)))
                                     (\<lambda>r. ok (range_ratio r)) else ok (Fin 1)) (\<lambda>ratio.
         bind_result (if both then prediction_counts (zip orig_outputs comp_outputs) else ok (0, 0)) (\<lambda>(m, t).
           let pred = (if t > 0 then Some (of_nat m / of_nat t) else None);
               scores = [score_of (comp_outputs \<noteq> []), score_of nan_free, score_of shape_ok, ratio] @
                        (case pred of None \<Rightarrow> [] | Some p \<Rightarrow> [Fin p])
           in ok (pf_mean scores,
                  \<lparr>sd_executability = (comp_outputs \<noteq> []), sd_nan_free = nan_free,
                   sd_shape_preserved = shape_ok, sd_output_range_ratio = ratio,
                   sd_prediction_consistency = pred\<rparr>))))))"

section \<open>The quality score\<close>

record validation_result =
  vr_quality :: py_float
  vr_output_fidelity :: py_float
  vr_weight_fidelity :: real
  vr_structural_integrity :: py_float
  vr_risk_level :: string
  vr_ofs_detail :: "(string \<times> py_float) list"
  vr_wfs_detail :: "(string \<times> real) list"
  vr_sis_detail :: sis_detail
  vr_n_probes :: nat

definition is_safe :: "validation_result \<Rightarrow> bool" where
  "is_safe r = pf_ge (vr_quality r) (Fin 0.95)"

definition is_acceptable :: "validation_result \<Rightarrow> bool" where
  "is_acceptable r = pf_ge (vr_quality r) (Fin 0.85)"

definition risk_of :: "py_float \<Rightarrow> string" where
  "risk_of q = (if pf_ge q (Fin 0.95) then ''safe'' else if pf_ge q (Fin 0.85) then ''moderate''
                else if pf_ge q (Fin 0.70) then ''risky'' else ''failed'')"

definition validate :: "real \<times> real \<times> real \<Rightarrow> ort \<Rightarrow> graph \<Rightarrow> graph \<Rightarrow> feed list \<Rightarrow> validation_result result" where
  "validate weights ort orig cmp probes =
     (case weights of (w_ofs, w_wfs, w_sis) \<Rightarrow>
        bind_result (compute_output_fidelity ort orig cmp probes) (\<lambda>(ofs, ofs_detail, oo, co).
          let (wfs, wfs_detail) = compute_weight_fidelity orig cmp
          in bind_result (compute_structural_integrity oo co) (\<lambda>(sis, detail).
               let quality = pf_clip 0 1 (pf_add (pf_add (pf_mul (Fin w_ofs) ofs) (Fin (w_wfs * wfs)))
                                                 (pf_mul (Fin w_sis) sis))
               in ok \<lparr>vr_quality = quality, vr_output_fidelity = ofs, vr_weight_fidelity = wfs,
                      vr_structural_integrity = sis, vr_risk_level = risk_of quality,
                      vr_ofs_detail = ofs_detail, vr_wfs_detail = wfs_detail, vr_sis_detail = detail,
                      vr_n_probes = length probes\<rparr>)))"

definition default_weights :: "real \<times> real \<times> real" where
  "default_weights = (0.5, 0.3, 0.2)"

section \<open>Lemmas on the fidelity loops\<close>

lemma count_matches_le:
  "count_matches d names os cs acc = Inr acc' \<Longrightarrow> fst acc \<le> snd acc \<Longrightarrow> fst acc' \<le> snd acc'"
proof (induction d names os cs acc rule: count_matches.induct)
  case (1 d name names ov os c cs m t)
  show ?case
  proof (cases "name \<in> set d")
    case True
    with "1.prems" obtain a b where ab: "to_float ov = Inr a" "to_float c = Inr b"
      "count_matches d names os cs (m + (if same_array a b then 1 else 0), t + 1) = Inr acc'" by auto
    show ?thesis by (rule "1.IH"(1) [OF True ab(3)]) (use "1.prems" in auto)
  next
    case False with 1 show ?thesis by simp
  qed
qed auto

lemma label_agreement_le:
  "label_agreement d names prs acc = Inr acc' \<Longrightarrow> fst acc \<le> snd acc \<Longrightarrow> fst acc' \<le> snd acc'"
proof (induction d names prs acc rule: label_agreement.induct)
  case (2 d names os cs rest acc)
  from "2.prems"(1) obtain acc1 where a: "count_matches d names os cs acc = Inr acc1"
    "label_agreement d names rest acc1 = Inr acc'" by auto
  show ?case by (rule "2.IH" [OF a(2)]) (rule count_matches_le [OF a(1) "2.prems"(2)])
qed auto

lemma ofs_per_output_unit: "x \<in> snd ` set (ofs_per_output d dv) \<Longrightarrow> unit_or_nan x"
  by (induction d dv rule: ofs_per_output.induct) (auto intro: unit_or_nan_one_minus split: if_splits)

lemma ofs_scores_unit: "ofs_scores names st = Inr per \<Longrightarrow> x \<in> snd ` set per \<Longrightarrow> unit_or_nan x"
  using ofs_per_output_unit label_agreement_le [of _ _ _ "(0, 0)"]
  by (fastforce simp: ofs_scores_def Let_def divide_le_eq split: if_splits)

text \<open>A NaN once recorded for an output stays, and makes the score of that output NaN.\<close>

definition has_nan :: "string \<Rightarrow> ofs_state \<Rightarrow> bool" where
  "has_nan name st \<longleftrightarrow> (\<exists>xs. map_of (os_div st) name = Some xs \<and> NaN \<in> set xs)"

lemma has_nan_push: "has_nan name st \<Longrightarrow> has_nan name (st\<lparr>os_div := push_div n x (os_div st)\<rparr>)"
  by (auto simp: has_nan_def push_div_def update_conv')

lemma has_nan_push_new: "has_nan name (st\<lparr>os_div := push_div name NaN (os_div st)\<rparr>)"
  by (auto simp: has_nan_def push_div_def update_conv')

lemma has_nan_frame [simp]: "has_nan name (st\<lparr>os_discrete := x\<rparr>) = has_nan name st"
  "has_nan name (st\<lparr>os_orig := y, os_comp := z\<rparr>) = has_nan name st"
  by (simp_all add: has_nan_def)

lemma ofs_outputs_keeps_nan: "ofs_outputs names os cs st = Inr st' \<Longrightarrow> has_nan name st \<Longrightarrow> has_nan name st'"
  by (induction names os cs st rule: ofs_outputs.induct) (auto simp: has_nan_push split: if_splits)

lemma ofs_probes_keeps_nan: "ofs_probes ort orig cmp ps st = Inr st' \<Longrightarrow> has_nan name st \<Longrightarrow> has_nan name st'"
  by (induction ort orig cmp ps st rule: ofs_probes.induct)
    (auto dest: ofs_outputs_keeps_nan split: option.splits)

lemma divergence_nan:
  "nd_shape a = nd_shape b \<Longrightarrow> length (nd_data a) = length (nd_data b) \<Longrightarrow> NaN \<in> set (nd_data b) \<Longrightarrow>
   divergence (Some a) (Some b) = NaN"
  by (simp add: divergence_def mean_sq_diff_NaN)

lemma ofs_outputs_adds_nan:
  assumes "ofs_outputs names os cs st = Inr st'" "i < length names" "i < length os" "i < length cs"
    "os ! i = OArr a" "cs ! i = OArr b" "\<not> nd_integer a" "nd_shape a = nd_shape b"
    "length (nd_data a) = length (nd_data b)" "NaN \<in> set (nd_data b)"
  shows "has_nan (names ! i) st'"
  using assms
proof (induction names os cs st arbitrary: i rule: ofs_outputs.induct)
  case (4 name names ov os c cs st)
  show ?case
  proof (cases i)
    case 0
    have "divergence (Some (a\<lparr>nd_integer := False\<rparr>)) (Some (b\<lparr>nd_integer := False\<rparr>)) = NaN"
      by (rule divergence_nan) (use "4.prems" in auto)
    then show ?thesis using 0 "4.prems" by (auto intro: ofs_outputs_keeps_nan [OF _ has_nan_push_new])
  next
    case (Suc j)
    then show ?thesis using "4.prems" "4.IH"(1) [of j] "4.IH"(2) [of _ _ j]
      by (auto split: if_splits)
  qed
qed auto

lemma ofs_probes_adds_nan:
  assumes "ofs_probes ort orig cmp ps st = Inr st'" "p \<in> set ps"
    "ort_run ort orig (ort_outputs ort orig) p = Some os" "ort_run ort cmp (ort_outputs ort cmp) p = Some cs"
    "i < length (ort_outputs ort orig)" "i < length os" "i < length cs"
    "os ! i = OArr a" "cs ! i = OArr b" "\<not> nd_integer a" "nd_shape a = nd_shape b"
    "length (nd_data a) = length (nd_data b)" "NaN \<in> set (nd_data b)"
  shows "has_nan (ort_outputs ort orig ! i) st'"
  using assms(1,2)
proof (induction ps arbitrary: st)
  case (Cons q ps)
  show ?case
  proof (cases "p = q")
    case True
    with Cons.prems(1) assms(3,4) obtain st1 where st1:
      "ofs_outputs (ort_outputs ort orig) os cs (st\<lparr>os_orig := os_orig st @ [os], os_comp := os_comp st @ [cs]\<rparr>) = Inr st1"
      "ofs_probes ort orig cmp ps st1 = Inr st'" by auto
    show ?thesis
      by (rule ofs_probes_keeps_nan [OF st1(2) ofs_outputs_adds_nan [OF st1(1) assms(5-13)]])
  next
    case False
    with Cons.prems(2) have "p \<in> set ps" by simp
    moreover obtain st1 where "ofs_probes ort orig cmp ps st1 = Inr st'"
      using Cons.prems(1) by (auto split: option.splits)
    ultimately show ?thesis by (rule Cons.IH [rotated])
  qed
qed simp

lemma ofs_per_output_nan: "(name, divs) \<in> set dv \<Longrightarrow> NaN \<in> set divs \<Longrightarrow> (name, NaN) \<in> set (ofs_per_output d dv)"
  by (induction d dv rule: ofs_per_output.induct) (auto simp: pf_mean_has_NaN)

lemma output_fidelity_cases:
  assumes "compute_output_fidelity ort orig cmp probes = Inr (ofs, per, oo, co)"
  shows "(ofs = Fin 0 \<and> (\<not> ort_load ort orig \<or> \<not> ort_load ort cmp \<or> per = [])) \<or>
    (per \<noteq> [] \<and> ofs = pf_mean (map snd per))"
  using assms by (auto simp: compute_output_fidelity_def split: if_splits)

section \<open>Properties\<close>

text \<open>C37: The output fidelity of two models is a number between 0 and 1, or NaN: the
  divergences are clipped, the fallback of label agreement is a ratio of counts with the matches
  never above the total, and the mean of such values stays in the interval.\<close>

theorem output_fidelity_range:
  assumes "compute_output_fidelity ort orig cmp probes = Inr (ofs, per, oo, co)"
  shows "unit_or_nan ofs \<and> (\<forall>(name, x) \<in> set per. unit_or_nan x)"
proof -
  have per: "unit_or_nan x" if "x \<in> snd ` set per" for x
    using assms that by (auto simp: compute_output_fidelity_def dest: ofs_scores_unit split: if_splits)
  then show ?thesis
    using output_fidelity_cases [OF assms] unit_or_nan_mean [of "map snd per"] by fastforce
qed

text \<open>A candidate that answers a probe with NaN in a continuous output of the original's
  shape has the fidelity NaN: neither the clip nor the mean hides it.\<close>

theorem nan_output_nan_fidelity:
  assumes res: "compute_output_fidelity ort orig cmp probes = Inr (ofs, per, oo, co)"
    and load: "ort_load ort orig" "ort_load ort cmp" and p: "p \<in> set probes"
    and runs: "ort_run ort orig (ort_outputs ort orig) p = Some os"
      "ort_run ort cmp (ort_outputs ort cmp) p = Some cs"
    and i: "i < length (ort_outputs ort orig)" "i < length os" "i < length cs"
    and arr: "os ! i = OArr a" "cs ! i = OArr b" "\<not> nd_integer a" "nd_shape a = nd_shape b"
      "length (nd_data a) = length (nd_data b)" "NaN \<in> set (nd_data b)"
  shows "ofs = NaN"
proof -
  let ?names = "ort_outputs ort orig"
  from res load obtain st where st:
    "ofs_probes ort orig cmp probes
       \<lparr>os_orig = [], os_comp = [], os_div = dict_of (map (\<lambda>n. (n, [])) ?names), os_discrete = []\<rparr> = Inr st"
    "ofs_scores ?names st = Inr per" "ofs = (if per = [] then Fin 0 else pf_mean (map snd per))"
    by (auto simp: compute_output_fidelity_def)
  have "has_nan (?names ! i) st" by (rule ofs_probes_adds_nan [OF st(1) p runs i arr])
  then obtain xs where "(?names ! i, xs) \<in> set (os_div st)" "NaN \<in> set xs"
    by (auto simp: has_nan_def dest: map_of_SomeD)
  then have "(?names ! i, NaN) \<in> set (ofs_per_output (os_discrete st) (os_div st))"
    by (rule ofs_per_output_nan)
  then have "(?names ! i, NaN) \<in> set per"
    using st(2) by (auto simp: ofs_scores_def Let_def split: if_splits)
  then have "NaN \<in> set (map snd per)" "per \<noteq> []" by force+
  with st(3) show ?thesis by (simp add: pf_mean_has_NaN)
qed

lemma weight_score_unit: "0 \<le> weight_score w c \<and> weight_score w c \<le> 1"
  by (auto simp: weight_score_def clip01_def)

definition unit_values :: "(string \<times> real) list \<Rightarrow> bool" where
  "unit_values per \<longleftrightarrow> (\<forall>x \<in> snd ` set per. 0 \<le> x \<and> x \<le> 1)"

lemma unit_values_update: "unit_values per \<Longrightarrow> 0 \<le> v \<Longrightarrow> v \<le> 1 \<Longrightarrow> unit_values (AList.update k v per)"
  using snd_set_update [of k v per] by (fastforce simp: unit_values_def)

lemma wfs_weights_unit: "unit_values per \<Longrightarrow> unit_values (wfs_weights ws cmp per)"
  by (induction ws cmp per rule: wfs_weights.induct)
    (simp_all add: unit_values_update weight_score_unit split: option.splits)

text \<open>A report's scores and its verdict agree: the quality is between 0 and 1 or NaN, the
  weight fidelity is between 0 and 1, \<open>is_safe\<close> holds exactly for the risk level safe,
  \<open>is_acceptable\<close> exactly for safe and moderate, and a NaN quality is reported as failed.\<close>

theorem validate_risk_consistent:
  assumes "validate w ort orig cmp probes = Inr r"
  shows "unit_or_nan (vr_quality r) \<and> 0 \<le> vr_weight_fidelity r \<and> vr_weight_fidelity r \<le> 1 \<and>
    (is_safe r \<longleftrightarrow> vr_risk_level r = ''safe'') \<and>
    (is_acceptable r \<longleftrightarrow> vr_risk_level r \<in> {''safe'', ''moderate''}) \<and>
    (vr_quality r = NaN \<longrightarrow> vr_risk_level r = ''failed'')"
proof -
  have q: "unit_or_nan (vr_quality r)" "vr_risk_level r = risk_of (vr_quality r)"
    "vr_weight_fidelity r = fst (compute_weight_fidelity orig cmp)"
    using assms by (cases w; cases "compute_weight_fidelity orig cmp"; auto simp: validate_def Let_def)+
  have wfs: "0 \<le> fst (compute_weight_fidelity orig cmp) \<and> fst (compute_weight_fidelity orig cmp) \<le> 1"
    using mean_bounds [of "map snd (wfs_weights (weight_map orig) (weight_map cmp) [])" 0 1]
      wfs_weights_unit [of "[]" "weight_map orig" "weight_map cmp"]
    by (auto simp: compute_weight_fidelity_def Let_def unit_values_def)
  show ?thesis
    using q wfs by (cases "vr_quality r") (auto simp: is_safe_def is_acceptable_def risk_of_def)
qed

text \<open>A graph of one node, and a runtime on which the node named nan answers NaN.\<close>

definition tiny_graph :: "string \<Rightarrow> graph" where
  "tiny_graph nm = \<lparr>g_nodes = [\<lparr>n_name = nm, n_op_type = ''Relu'', n_domain = '''', n_inputs = [''x''],
      n_outputs = [''y''], n_attrs = []\<rparr>], g_inits = [], g_inputs = [], g_outputs = [], g_value_info = [], g_opset_import = []\<rparr>"

definition demo_ort :: ort where
  "demo_ort = \<lparr>ort_load = (\<lambda>g. True), ort_outputs = (\<lambda>g. [''y'']),
     ort_run = (\<lambda>g ns p. Some [OArr (float_array [1]
        [if map n_name (g_nodes g) = [''nan''] then NaN else Fin 1])])\<rparr>"

lemma demo_fidelity:
  "compute_output_fidelity demo_ort (tiny_graph ''a'') (tiny_graph ''nan'') [[]] =
     Inr (NaN, [(''y'', NaN)], [[OArr (float_array [1] [Fin 1])]], [[OArr (float_array [1] [NaN])]])"
  by (simp add: compute_output_fidelity_def demo_ort_def tiny_graph_def dict_of_def float_array_def
      push_div_def divergence_def mean_sq_diff_def mean_sq_plus_def pf_mean_def pf_sum_def ofs_scores_def)

theorem output_fidelity_range_witness: "unit_or_nan NaN"
  using output_fidelity_range [OF demo_fidelity] by simp

theorem nan_output_nan_fidelity_witness:
  "case compute_output_fidelity demo_ort (tiny_graph ''a'') (tiny_graph ''nan'') [[]] of
     Inr (ofs, _) \<Rightarrow> ofs = NaN | Inl _ \<Rightarrow> False"
proof -
  obtain ofs per oo co where e:
    "compute_output_fidelity demo_ort (tiny_graph ''a'') (tiny_graph ''nan'') [[]] = Inr (ofs, per, oo, co)"
    using demo_fidelity by blast
  have "ofs = NaN"
    by (rule nan_output_nan_fidelity [OF e, where p = "[]" and i = 0 and os = "[OArr (float_array [1] [Fin 1])]"
          and cs = "[OArr (float_array [1] [NaN])]" and a = "float_array [1] [Fin 1]" and b = "float_array [1] [NaN]"]) (simp_all add: demo_ort_def tiny_graph_def float_array_def)
  with e show ?thesis by simp
qed

lemma demo_wfs: "compute_weight_fidelity (tiny_graph nm) (tiny_graph nm') = (1, [])"
  by (simp add: compute_weight_fidelity_def weight_map_def tiny_graph_def extract_float_attributes_def dict_of_def)

lemma demo_validate:
  "case validate default_weights demo_ort (tiny_graph ''a'') (tiny_graph ''nan'') [[]] of
     Inr r \<Rightarrow> vr_quality r = NaN | Inl _ \<Rightarrow> False"
  by (simp add: validate_def demo_fidelity demo_wfs default_weights_def compute_structural_integrity_def
      float_array_def finite_array_def ptp_list_def np_ptp_def prediction_match_def Let_def)

theorem validate_risk_consistent_witness:
  "case validate default_weights demo_ort (tiny_graph ''a'') (tiny_graph ''nan'') [[]] of
     Inr r \<Rightarrow> vr_risk_level r = ''failed'' \<and> \<not> is_acceptable r | Inl _ \<Rightarrow> False"
  using demo_validate validate_risk_consistent
    [of default_weights demo_ort "tiny_graph ''a''" "tiny_graph ''nan''" "[[]]"]
  by (auto split: sum.splits)

end
