(* ===== verification/Compression_Actions.thy ===== *)
theory Compression_Actions
  imports Onnx_Analyzer
begin

text \<open>
  The action space of \<open>astra/core/compression_actions.py\<close>: precision levels, the
  templates per operator category, the space an operator gets from its protection and its
  share of the parameters, and the translation of a configuration into concrete actions.
\<close>

section \<open>Precision levels\<close>

datatype precision_level = FP32 | FP16 | INT8 | INT4

fun precision_value :: "precision_level \<Rightarrow> nat" where
  "precision_value FP32 = 0"
| "precision_value FP16 = 1"
| "precision_value INT8 = 2"
| "precision_value INT4 = 3"

fun precision_name :: "precision_level \<Rightarrow> string" where
  "precision_name FP32 = ''FP32''"
| "precision_name FP16 = ''FP16''"
| "precision_name INT8 = ''INT8''"
| "precision_name INT4 = ''INT4''"

text \<open>An \<open>IntEnum\<close> compares by value.\<close>

instantiation precision_level :: linorder
begin

definition less_eq_precision_level :: "precision_level \<Rightarrow> precision_level \<Rightarrow> bool" where
  "p \<le> q \<longleftrightarrow> precision_value p \<le> precision_value q"

definition less_precision_level :: "precision_level \<Rightarrow> precision_level \<Rightarrow> bool" where
  "p < q \<longleftrightarrow> precision_value p < precision_value q"

instance
proof
  fix p q :: precision_level
  assume "p \<le> q" "q \<le> p"
  then show "p = q" by (cases p; cases q) (auto simp: less_eq_precision_level_def)
qed (auto simp: less_eq_precision_level_def less_precision_level_def)

end

lemma precision_le_simps [simp]:
  "FP32 \<le> p" "p \<le> INT4" "FP32 < FP16" "FP32 < INT8" "FP32 < INT4" "FP16 \<le> FP16" "\<not> INT8 \<le> FP16"
  "\<not> INT4 \<le> FP16" "INT8 \<le> INT8" "\<not> FP16 \<le> FP32" "\<not> INT8 \<le> FP32" "FP16 \<le> INT8" "\<not> FP32 < FP32"
  "\<not> INT4 \<le> INT8" "FP32 \<le> p \<and> p \<le> INT4" "FP16 < INT8" "\<not> INT8 < FP16" "\<not> FP16 < FP16" "\<not> p < FP32"
  by (cases p; simp add: less_eq_precision_level_def less_precision_level_def)+

lemma precision_value_inj: "precision_value p = precision_value q \<Longrightarrow> p = q"
  by (cases p; cases q) auto

definition precision_of_value :: "nat \<Rightarrow> precision_level option" where
  "precision_of_value v = find (\<lambda>p. precision_value p = v) [FP32, FP16, INT8, INT4]"

lemma precision_of_value [simp]: "precision_of_value (precision_value p) = Some p"
  by (cases p) (auto simp: precision_of_value_def)

section \<open>Configurations and spaces\<close>

record compression_config =
  cc_precision :: precision_level
  cc_prune_ratio :: real
  cc_fuse :: bool
  cc_approx_rank :: "int option"

definition default_config :: compression_config where
  "default_config = \<lparr>cc_precision = FP32, cc_prune_ratio = 0, cc_fuse = False, cc_approx_rank = None\<rparr>"

definition is_no_compression :: "compression_config \<Rightarrow> bool" where
  "is_no_compression c \<longleftrightarrow>
     cc_precision c = FP32 \<and> cc_prune_ratio c = 0 \<and> \<not> cc_fuse c \<and> cc_approx_rank c = None"

record action_space =
  as_operator :: string
  as_category :: operator_category
  as_precisions :: "precision_level list"
  as_prune_range :: "real \<times> real"
  as_fuse :: bool
  as_rank_range :: "(int \<times> int) option"

definition NEURAL_COMPUTE_ACTIONS :: action_space where
  "NEURAL_COMPUTE_ACTIONS =
    \<lparr>as_operator = '''', as_category = DENSE_COMPUTE, as_precisions = [FP32, FP16, INT8],
     as_prune_range = (0, 0.9), as_fuse = True, as_rank_range = Some (1, 512)\<rparr>"

definition NORMALIZATION_ACTIONS :: action_space where
  "NORMALIZATION_ACTIONS =
    \<lparr>as_operator = '''', as_category = NORMALIZATION, as_precisions = [FP32, FP16],
     as_prune_range = (0, 0), as_fuse = True, as_rank_range = None\<rparr>"

definition ACTIVATION_ACTIONS :: action_space where
  "ACTIVATION_ACTIONS =
    \<lparr>as_operator = '''', as_category = ACTIVATION, as_precisions = [FP32],
     as_prune_range = (0, 0), as_fuse = True, as_rank_range = None\<rparr>"

definition EMBEDDING_ACTIONS :: action_space where
  "EMBEDDING_ACTIONS =
    \<lparr>as_operator = '''', as_category = EMBEDDING, as_precisions = [FP32, FP16, INT8],
     as_prune_range = (0, 0.5), as_fuse = False, as_rank_range = Some (1, 256)\<rparr>"

definition TREE_ENSEMBLE_ACTIONS :: action_space where
  "TREE_ENSEMBLE_ACTIONS =
    \<lparr>as_operator = '''', as_category = TREE_ENSEMBLE, as_precisions = [FP32, FP16],
     as_prune_range = (0, 0.9), as_fuse = True, as_rank_range = Some (1, 50)\<rparr>"

definition LINEAR_MODEL_ACTIONS :: action_space where
  "LINEAR_MODEL_ACTIONS =
    \<lparr>as_operator = '''', as_category = LINEAR_MODEL, as_precisions = [FP32, FP16, INT8],
     as_prune_range = (0, 0.8), as_fuse = False, as_rank_range = None\<rparr>"

definition SVM_ACTIONS :: action_space where
  "SVM_ACTIONS =
    \<lparr>as_operator = '''', as_category = SVM, as_precisions = [FP32, FP16],
     as_prune_range = (0, 0.8), as_fuse = False, as_rank_range = None\<rparr>"

fun category_action_template :: "operator_category \<Rightarrow> action_space option" where
  "category_action_template DENSE_COMPUTE = Some NEURAL_COMPUTE_ACTIONS"
| "category_action_template NORMALIZATION = Some NORMALIZATION_ACTIONS"
| "category_action_template ACTIVATION = Some ACTIVATION_ACTIONS"
| "category_action_template EMBEDDING = Some EMBEDDING_ACTIONS"
| "category_action_template TREE_ENSEMBLE = Some TREE_ENSEMBLE_ACTIONS"
| "category_action_template LINEAR_MODEL = Some LINEAR_MODEL_ACTIONS"
| "category_action_template SVM = Some SVM_ACTIONS"
| "category_action_template _ = None"

lemmas template_defs = NEURAL_COMPUTE_ACTIONS_def NORMALIZATION_ACTIONS_def ACTIVATION_ACTIONS_def
  EMBEDDING_ACTIONS_def TREE_ENSEMBLE_ACTIONS_def LINEAR_MODEL_ACTIONS_def SVM_ACTIONS_def

definition TINY_OP_BYTES_SHARE :: real where "TINY_OP_BYTES_SHARE = 0.005"

definition is_protected_op :: "real option \<Rightarrow> real \<Rightarrow> bool option \<Rightarrow> bool" where
  "is_protected_op sensitivity threshold is_protected =
     (case is_protected of
        Some b \<Rightarrow> b
      | None \<Rightarrow> (case sensitivity of None \<Rightarrow> False | Some s \<Rightarrow> s > threshold))"

definition is_tiny :: "operator_info \<Rightarrow> real option \<Rightarrow> bool" where
  "is_tiny op param_share \<longleftrightarrow>
     (case param_share of None \<Rightarrow> False
      | Some s \<Rightarrow> s < TINY_OP_BYTES_SHARE \<and> op_category op \<in> {DENSE_COMPUTE, EMBEDDING})"

definition max_precision :: "precision_level list \<Rightarrow> precision_level" where
  "max_precision ps = fold max (tl ps) (hd ps)"

definition get_action_space ::
  "operator_info \<Rightarrow> real option \<Rightarrow> real \<Rightarrow> bool option \<Rightarrow> real option \<Rightarrow> action_space" where
  "get_action_space op sensitivity threshold is_protected param_share =
     (case category_action_template (op_category op) of
        None \<Rightarrow> \<lparr>as_operator = op_name op, as_category = op_category op, as_precisions = [FP32],
                 as_prune_range = (0, 0), as_fuse = False, as_rank_range = None\<rparr>
      | Some t \<Rightarrow>
          let protected = is_protected_op sensitivity threshold is_protected;
              light = filter (\<lambda>p. p \<le> FP16) (as_precisions t);
              precisions = (if protected then (if light = [] then [FP32] else light) else as_precisions t);
              prune = (if protected then (fst (as_prune_range t), min (snd (as_prune_range t)) 0.3)
                       else as_prune_range t)
          in if is_tiny op param_share
             then \<lparr>as_operator = op_name op, as_category = op_category op,
                   as_precisions = (if protected then [FP32] else [max_precision precisions]),
                   as_prune_range = (0, 0), as_fuse = False, as_rank_range = None\<rparr>
             else \<lparr>as_operator = op_name op, as_category = op_category op,
                   as_precisions = precisions, as_prune_range = prune,
                   as_fuse = as_fuse t, as_rank_range = as_rank_range t\<rparr>)"

section \<open>Concrete actions\<close>

datatype action_param = PStr string | PReal real | PInt int

record concrete_action =
  ca_operator :: string
  ca_op_type :: string
  ca_category :: operator_category
  ca_action_type :: string
  ca_parameters :: "(string \<times> action_param) list"

definition mk_action :: "operator_info \<Rightarrow> string \<Rightarrow> (string \<times> action_param) list \<Rightarrow> concrete_action" where
  "mk_action op ty params =
     \<lparr>ca_operator = op_name op, ca_op_type = op_type op, ca_category = op_category op,
      ca_action_type = ty, ca_parameters = params\<rparr>"

definition when_act :: "bool \<Rightarrow> concrete_action \<Rightarrow> concrete_action list" where
  "when_act b a = (if b then [a] else [])"

definition rank_act ::
  "operator_info \<Rightarrow> compression_config \<Rightarrow> string \<Rightarrow> string \<Rightarrow> concrete_action list" where
  "rank_act op c ty param =
     (case cc_approx_rank c of None \<Rightarrow> [] | Some r \<Rightarrow> [mk_action op ty [(param, PInt r)]])"

abbreviation target_dtype :: "compression_config \<Rightarrow> (string \<times> action_param)" where
  "target_dtype c \<equiv> (''target_dtype'', PStr (precision_name (cc_precision c)))"

abbreviation ratio_param :: "compression_config \<Rightarrow> (string \<times> action_param)" where
  "ratio_param c \<equiv> (''ratio'', PReal (cc_prune_ratio c))"

definition translate_neural :: "operator_info \<Rightarrow> compression_config \<Rightarrow> concrete_action list" where
  "translate_neural op c =
     when_act (cc_precision c > FP32)
       (mk_action op ''quantization''
          [target_dtype c, (''method'', PStr (if cc_precision c \<ge> INT8 then ''static'' else ''cast''))]) @
     when_act (cc_prune_ratio c > 0) (mk_action op ''channel_pruning'' [ratio_param c]) @
     when_act (cc_fuse c) (mk_action op ''operator_fusion'' []) @
     rank_act op c ''low_rank_svd'' ''rank''"

definition translate_normalization :: "operator_info \<Rightarrow> compression_config \<Rightarrow> concrete_action list" where
  "translate_normalization op c =
     when_act (cc_fuse c) (mk_action op ''bn_fusion'' []) @
     when_act (cc_precision c > FP32) (mk_action op ''param_quantization'' [target_dtype c])"

definition translate_activation :: "operator_info \<Rightarrow> compression_config \<Rightarrow> concrete_action list" where
  "translate_activation op c = when_act (cc_fuse c) (mk_action op ''activation_fusion'' [])"

definition translate_embedding :: "operator_info \<Rightarrow> compression_config \<Rightarrow> concrete_action list" where
  "translate_embedding op c =
     when_act (cc_precision c > FP32) (mk_action op ''embedding_quantization'' [target_dtype c]) @
     when_act (cc_prune_ratio c > 0) (mk_action op ''vocabulary_pruning'' [ratio_param c]) @
     rank_act op c ''embedding_dimension_reduction'' ''rank''"

definition translate_tree :: "operator_info \<Rightarrow> compression_config \<Rightarrow> concrete_action list" where
  "translate_tree op c =
     when_act (cc_precision c > FP32) (mk_action op ''leaf_quantization'' [target_dtype c]) @
     when_act (cc_prune_ratio c > 0) (mk_action op ''tree_pruning'' [ratio_param c]) @
     when_act (cc_fuse c) (mk_action op ''leaf_merging'' []) @
     rank_act op c ''depth_limiting'' ''max_depth''"

definition translate_linear :: "operator_info \<Rightarrow> compression_config \<Rightarrow> concrete_action list" where
  "translate_linear op c =
     when_act (cc_precision c > FP32) (mk_action op ''coefficient_quantization'' [target_dtype c]) @
     when_act (cc_prune_ratio c > 0) (mk_action op ''feature_pruning'' [ratio_param c])"

definition translate_svm :: "operator_info \<Rightarrow> compression_config \<Rightarrow> concrete_action list" where
  "translate_svm op c =
     when_act (cc_precision c > FP32) (mk_action op ''sv_coefficient_quantization'' [target_dtype c]) @
     when_act (cc_prune_ratio c > 0) (mk_action op ''support_vector_pruning'' [ratio_param c])"

definition translate :: "operator_info \<Rightarrow> compression_config \<Rightarrow> concrete_action list" where
  "translate op c =
     (if is_no_compression c then []
      else case op_category op of
          DENSE_COMPUTE \<Rightarrow> translate_neural op c
        | NORMALIZATION \<Rightarrow> translate_normalization op c
        | ACTIVATION \<Rightarrow> translate_activation op c
        | EMBEDDING \<Rightarrow> translate_embedding op c
        | TREE_ENSEMBLE \<Rightarrow> translate_tree op c
        | LINEAR_MODEL \<Rightarrow> translate_linear op c
        | SVM \<Rightarrow> translate_svm op c
        | _ \<Rightarrow> [])"

lemmas translate_defs = translate_neural_def translate_normalization_def translate_activation_def
  translate_embedding_def translate_tree_def translate_linear_def translate_svm_def
  when_act_def rank_act_def mk_action_def

section \<open>Lemmas\<close>

lemma precision_cases_le: "p \<noteq> FP32 \<Longrightarrow> FP32 < p"
  by (cases p) auto

lemma precision_max_simps [simp]: "max FP16 FP32 = FP16" "max INT8 FP16 = INT8" "max INT8 FP32 = INT8"
  by (auto simp: max_def)

text \<open>What every space satisfies: it offers some precision, never INT4, in ascending order, and
  a prune range inside \<open>[0, 0.9]\<close>.\<close>

definition wf_space :: "action_space \<Rightarrow> bool" where
  "wf_space s \<longleftrightarrow> as_precisions s \<noteq> [] \<and> sorted (as_precisions s) \<and> distinct (as_precisions s) \<and>
     INT4 \<notin> set (as_precisions s) \<and> fst (as_prune_range s) = 0 \<and>
     0 \<le> snd (as_prune_range s) \<and> snd (as_prune_range s) \<le> 0.9"

lemma get_action_space_wf: "wf_space (get_action_space op s t p share)"
  by (cases "op_category op")
     (auto simp: get_action_space_def template_defs wf_space_def Let_def max_precision_def min_def)

definition config_in_space :: "compression_config \<Rightarrow> action_space \<Rightarrow> bool" where
  "config_in_space c s \<longleftrightarrow> cc_precision c \<in> set (as_precisions s) \<and>
     fst (as_prune_range s) \<le> cc_prune_ratio c \<and> cc_prune_ratio c \<le> snd (as_prune_range s) \<and>
     (cc_fuse c \<longrightarrow> as_fuse s) \<and> cc_approx_rank c = None"

text \<open>an operator protected by the sensitivity analysis is never offered an integer
  precision nor a prune ratio above 0.3, and is always offered at least one precision; an
  unprotected operator below the byte share threshold gets exactly one precision and no other
  search dimension.\<close>

theorem get_action_space_guards:
  "(p = Some True \<longrightarrow>
      set (as_precisions (get_action_space op s t p share)) \<subseteq> {FP32, FP16} \<and>
      snd (as_prune_range (get_action_space op s t p share)) \<le> 0.3) \<and>
   (is_tiny op share \<longrightarrow>
      length (as_precisions (get_action_space op s t p share)) = 1 \<and>
      as_prune_range (get_action_space op s t p share) = (0, 0) \<and>
      \<not> as_fuse (get_action_space op s t p share)) \<and>
   wf_space (get_action_space op s t p share)"
proof (intro conjI impI get_action_space_wf)
  assume p: "p = Some True"
  show "set (as_precisions (get_action_space op s t p share)) \<subseteq> {FP32, FP16}"
    using p by (cases "op_category op")
      (auto simp: get_action_space_def is_protected_op_def template_defs Let_def)
  show "snd (as_prune_range (get_action_space op s t p share)) \<le> 0.3"
    using p by (cases "op_category op")
      (auto simp: get_action_space_def is_protected_op_def template_defs Let_def min_def)
next
  assume tiny: "is_tiny op share"
  then have "op_category op = DENSE_COMPUTE \<or> op_category op = EMBEDDING"
    by (auto simp: is_tiny_def split: option.splits)
  with tiny show "length (as_precisions (get_action_space op s t p share)) = 1"
    "as_prune_range (get_action_space op s t p share) = (0, 0)"
    "\<not> as_fuse (get_action_space op s t p share)"
    by (auto simp: get_action_space_def template_defs Let_def)
qed

definition demo_op :: "operator_category \<Rightarrow> operator_info" where
  "demo_op c = \<lparr>op_name = ''fc'', op_type = ''Gemm'', op_domain = ''ai.onnx'', op_category = c,
     op_inputs = [], op_outputs = [], op_input_shapes = [], op_output_shapes = [],
     op_param_count = 10, op_flops = 0, op_attributes = [], op_is_compressible = True, op_topo_index = 0\<rparr>"

theorem get_action_space_guards_witness:
  "set (as_precisions (get_action_space (demo_op DENSE_COMPUTE) None 0.1 (Some True) (Some 0.5))) \<subseteq> {FP32, FP16} \<and>
   length (as_precisions (get_action_space (demo_op EMBEDDING) None 0.1 (Some False) (Some 0.001))) = 1"
proof -
  have "is_tiny (demo_op EMBEDDING) (Some 0.001)"
    by (simp add: is_tiny_def demo_op_def TINY_OP_BYTES_SHARE_def)
  then show ?thesis
    using get_action_space_guards [of "Some True" "demo_op DENSE_COMPUTE" None "0.1" "Some 0.5"]
      get_action_space_guards [of "Some False" "demo_op EMBEDDING" None "0.1" "Some 0.001"]
    by blast
qed

text \<open>no configuration of an operator's own space is silently lost by the translation: it
  yields an action exactly when it asks for some compression, and every action carries the
  operator's name, type and category.\<close>

theorem translate_faithful:
  assumes "config_in_space c (get_action_space op s t p share)"
  shows "(translate op c = [] \<longleftrightarrow> is_no_compression c) \<and>
    (\<forall>a \<in> set (translate op c). ca_operator a = op_name op \<and> ca_op_type a = op_type op \<and>
       ca_category a = op_category op)"
proof
  let ?sp = "get_action_space op s t p share"
  have rank: "cc_approx_rank c = None" using assms by (simp add: config_in_space_def)
  have prune: "0 \<le> cc_prune_ratio c"
    using assms get_action_space_wf [of op s t p share] by (simp add: config_in_space_def wf_space_def)
  have "translate op c \<noteq> []" if nc: "\<not> is_no_compression c"
  proof (cases "op_category op")
    case NORMALIZATION
    then have "cc_prune_ratio c = 0"
      using assms prune by (auto simp: config_in_space_def get_action_space_def template_defs Let_def split: if_splits)
    with NORMALIZATION nc rank precision_cases_le [of "cc_precision c"] show ?thesis
      by (auto simp: translate_def translate_defs is_no_compression_def)
  next
    case ACTIVATION
    then have "cc_prune_ratio c = 0" "cc_precision c = FP32"
      using assms prune by (auto simp: config_in_space_def get_action_space_def template_defs Let_def
          is_tiny_def split: if_splits option.splits)
    with ACTIVATION nc rank show ?thesis
      by (auto simp: translate_def translate_defs is_no_compression_def)
  next
    case DENSE_COMPUTE
    with nc rank prune precision_cases_le [of "cc_precision c"] show ?thesis
      by (auto simp: translate_def translate_defs is_no_compression_def)
  next
    case TREE_ENSEMBLE
    with nc rank prune precision_cases_le [of "cc_precision c"] show ?thesis
      by (auto simp: translate_def translate_defs is_no_compression_def)
  next
    case EMBEDDING
    then have "\<not> cc_fuse c"
      using assms by (auto simp: config_in_space_def get_action_space_def template_defs Let_def split: if_splits)
    with EMBEDDING nc rank prune precision_cases_le [of "cc_precision c"] show ?thesis
      by (auto simp: translate_def translate_defs is_no_compression_def)
  next
    case LINEAR_MODEL
    then have "\<not> cc_fuse c"
      using assms by (auto simp: config_in_space_def get_action_space_def template_defs Let_def split: if_splits)
    with LINEAR_MODEL nc rank prune precision_cases_le [of "cc_precision c"] show ?thesis
      by (auto simp: translate_def translate_defs is_no_compression_def)
  next
    case SVM
    then have "\<not> cc_fuse c"
      using assms by (auto simp: config_in_space_def get_action_space_def template_defs Let_def split: if_splits)
    with SVM nc rank prune precision_cases_le [of "cc_precision c"] show ?thesis
      by (auto simp: translate_def translate_defs is_no_compression_def)
  qed (use assms nc rank prune in \<open>auto simp: config_in_space_def get_action_space_def is_no_compression_def\<close>)
  then show "translate op c = [] \<longleftrightarrow> is_no_compression c" by (auto simp: translate_def)
  show "\<forall>a \<in> set (translate op c). ca_operator a = op_name op \<and> ca_op_type a = op_type op \<and>
       ca_category a = op_category op"
    by (auto simp: translate_def translate_defs split: operator_category.splits if_splits option.splits)
qed

theorem translate_faithful_witness:
  "translate (demo_op DENSE_COMPUTE) (default_config\<lparr>cc_precision := INT8\<rparr>) \<noteq> []"
proof -
  have "config_in_space (default_config\<lparr>cc_precision := INT8\<rparr>)
          (get_action_space (demo_op DENSE_COMPUTE) None 0.1 (Some False) None)"
    by (simp add: config_in_space_def get_action_space_def is_protected_op_def is_tiny_def demo_op_def
        template_defs default_config_def)
  from translate_faithful [OF this] show ?thesis
    by (simp add: is_no_compression_def default_config_def)
qed

end
