(* ===== verification/Onnx_Transformer.thy ===== *)
theory Onnx_Transformer
  imports Compression_Actions
begin

text \<open>
  The graph transformer of \<open>astra/graph/onnx_transformer.py\<close>: one definition per handler, the
  dispatch on the action type and the pass \<open>apply_actions\<close> over the actions in phase order.
  What the code takes from numpy and onnx without a closed form is a parameter: the cast to
  half precision, \<open>argsort\<close>, the singular value decomposition, the opset converter and the
  shape inference.  The lemmas show that the stored bytes stay within half a quantization step of the
  weight, that fresh names are fresh, that every name a consumer reads stays defined, and that
  the breadth-first search for node depths need not end.
\<close>

section \<open>What numpy and onnx provide\<close>

record numpy_ops =
  np_fp16 :: "real \<Rightarrow> real"                 \<comment> \<open>\<open>astype(float16).astype(float32)\<close>\<close>
  np_argsort :: "real list \<Rightarrow> nat list"
  np_svd :: "real list list \<Rightarrow> real list list \<times> real list \<times> real list list"

definition py_int :: "real \<Rightarrow> int" where
  "py_int x = (if x \<ge> 0 then \<lfloor>x\<rfloor> else - \<lfloor>- x\<rfloor>)"

definition py_take :: "int \<Rightarrow> 'a list \<Rightarrow> 'a list" where
  "py_take k xs = (if k \<ge> 0 then take (nat k) xs else take (length xs - nat (- k)) xs)"

definition py_last :: "nat \<Rightarrow> 'a list \<Rightarrow> 'a list" where
  "py_last k xs = drop (length xs - k) xs"

text \<open>The rows of a row-major array, and the elements of a list at some indices.\<close>

definition inner_size :: "nat list \<Rightarrow> nat" where
  "inner_size sh = prod_list (tl sh)"

definition rows_of :: "nat list \<Rightarrow> 'a list \<Rightarrow> 'a list list" where
  "rows_of sh xs = map (\<lambda>i. take (inner_size sh) (drop (i * inner_size sh) xs)) [0..<hd sh]"

definition gather :: "nat list \<Rightarrow> 'a list \<Rightarrow> 'a list" where
  "gather idx xs = map (\<lambda>i. xs ! i) idx"

definition abs_max :: "real list \<Rightarrow> real" where
  "abs_max xs = list_max (map abs xs)"

section \<open>Lookups and names\<close>

definition find_node :: "graph \<Rightarrow> string \<Rightarrow> node_proto option" where
  "find_node g name = find (\<lambda>n. n_name n = name) (g_nodes g)"

definition find_node_by_type :: "graph \<Rightarrow> string \<Rightarrow> string \<Rightarrow> node_proto option" where
  "find_node_by_type g name ty =
     (case find_node g name of Some n \<Rightarrow> Some n | None \<Rightarrow> find (\<lambda>n. n_op_type n = ty) (g_nodes g))"

definition find_initializer :: "graph \<Rightarrow> string \<Rightarrow> tensor_proto option" where
  "find_initializer g name = find (\<lambda>t. t_name t = name) (g_inits g)"

definition replace_initializer :: "string \<Rightarrow> tensor_proto \<Rightarrow> graph \<Rightarrow> graph" where
  "replace_initializer name t g = g\<lparr>g_inits := upd_first (\<lambda>i. t_name i = name) (\<lambda>_. t) (g_inits g)\<rparr>"

definition remove_initializer :: "string \<Rightarrow> graph \<Rightarrow> graph" where
  "remove_initializer name g =
     g\<lparr>g_inits := del_first (\<lambda>i. t_name i = name) (g_inits g),
       g_inputs := del_first (\<lambda>v. vi_name v = name) (g_inputs g)\<rparr>"

definition existing_names :: "graph \<Rightarrow> string list" where
  "existing_names g = map t_name (g_inits g) @ map n_name (g_nodes g)"

text \<open>The candidate, then the candidate with the suffixes 2, 3, ...: one more name than there are
  names in use is enough.\<close>

definition name_candidates :: "string \<Rightarrow> nat \<Rightarrow> string list" where
  "name_candidates c n = c # map (\<lambda>k. c @ ''_'' @ str_of_nat k) [2..<n + 2]"

definition unique_name :: "graph \<Rightarrow> string \<Rightarrow> string" where
  "unique_name g c =
     (case find (\<lambda>x. x \<notin> set (existing_names g)) (name_candidates c (length (existing_names g))) of
        Some x \<Rightarrow> x | None \<Rightarrow> c)"

definition model_opset :: "graph \<Rightarrow> int" where
  "model_opset g =
     (case find (\<lambda>(d, v). d \<in> {'''', ''ai.onnx''}) (g_opset_import g) of Some (d, v) \<Rightarrow> v | None \<Rightarrow> 0)"

definition get_node_attr :: "node_proto \<Rightarrow> string \<Rightarrow> attr_value option" where
  "get_node_attr n a = map_option snd (find (\<lambda>kv. fst kv = a) (n_attrs n))"

definition set_node_attr :: "string \<Rightarrow> attr_value \<Rightarrow> node_proto \<Rightarrow> node_proto" where
  "set_node_attr a v n = n\<lparr>n_attrs := upd_first (\<lambda>kv. fst kv = a) (\<lambda>_. (a, v)) (n_attrs n)\<rparr>"

text \<open>Assigning to a fetched node changes the first node the same lookup finds.\<close>

definition node_lookup :: "graph \<Rightarrow> string \<Rightarrow> string \<Rightarrow> node_proto \<Rightarrow> bool" where
  "node_lookup g name ty n \<longleftrightarrow>
     (if find_node g name = None then n_op_type n = ty else n_name n = name)"

definition upd_node :: "(node_proto \<Rightarrow> bool) \<Rightarrow> (node_proto \<Rightarrow> node_proto) \<Rightarrow> graph \<Rightarrow> graph" where
  "upd_node p f g = g\<lparr>g_nodes := upd_first p f (g_nodes g)\<rparr>"

definition param_str :: "concrete_action \<Rightarrow> string \<Rightarrow> string \<Rightarrow> string" where
  "param_str a k d = (case map_of (ca_parameters a) k of Some (PStr s) \<Rightarrow> s | _ \<Rightarrow> d)"

definition param_real :: "concrete_action \<Rightarrow> string \<Rightarrow> real \<Rightarrow> real" where
  "param_real a k d = (case map_of (ca_parameters a) k of Some (PReal x) \<Rightarrow> x | Some (PInt i) \<Rightarrow> of_int i | _ \<Rightarrow> d)"

definition param_int :: "concrete_action \<Rightarrow> string \<Rightarrow> int \<Rightarrow> int" where
  "param_int a k d = (case map_of (ca_parameters a) k of Some (PInt i) \<Rightarrow> i | _ \<Rightarrow> d)"

section \<open>Weight quantization with real bytes\<close>

definition MIN_QUANT_BYTES :: nat where "MIN_QUANT_BYTES = 1024"

definition from_array :: "string \<Rightarrow> nat \<Rightarrow> bool \<Rightarrow> nat list \<Rightarrow> real list \<Rightarrow> tensor_proto" where
  "from_array name itemsize is_float sh xs =
     \<lparr>t_name = name, t_float32 = is_float, t_shape = sh, t_data = xs, t_itemsize = itemsize,
      t_raw = Some (prod_list sh * itemsize)\<rparr>"

definition make_node ::
  "string \<Rightarrow> string list \<Rightarrow> string list \<Rightarrow> string \<Rightarrow> (string \<times> attr_value) list \<Rightarrow> node_proto" where
  "make_node ty ins outs name attrs =
     \<lparr>n_name = name, n_op_type = ty, n_domain = '''', n_inputs = ins, n_outputs = outs, n_attrs = attrs\<rparr>"

definition store_fp16 :: "numpy_ops \<Rightarrow> tensor_proto \<Rightarrow> graph \<Rightarrow> graph" where
  "store_fp16 np init g =
     (let fp16_name = unique_name g (t_name init @ ''_fp16'');
          cast = make_node ''Cast'' [fp16_name] [t_name init]
                   (unique_name g (t_name init @ ''_fp16_cast'')) [(''to'', AInt 1)];
          g1 = remove_initializer (t_name init) g
      in g1\<lparr>g_inits := g_inits g1 @ [from_array fp16_name 2 False (t_shape init) (map (np_fp16 np) (t_data init))],
            g_nodes := cast # g_nodes g1\<rparr>)"

definition quant_scale :: "real \<Rightarrow> real list \<Rightarrow> real" where
  "quant_scale qmax xs = abs_max xs / qmax + 1 / 10 ^ 12"

definition quant_value :: "real \<Rightarrow> real \<Rightarrow> real \<Rightarrow> real" where
  "quant_value qmax scale x = min qmax (max (- qmax) (of_int (round_half_even (x / scale))))"

definition per_channel :: "graph \<Rightarrow> node_proto \<Rightarrow> tensor_proto \<Rightarrow> bool" where
  "per_channel g consumer init \<longleftrightarrow>
     n_op_type consumer = ''Conv'' \<and> length (t_shape init) = 4 \<and> model_opset g \<ge> 13 \<and> hd (t_shape init) > 1"

definition quant_scales :: "real \<Rightarrow> bool \<Rightarrow> tensor_proto \<Rightarrow> real list" where
  "quant_scales qmax pc init =
     (if pc then map (quant_scale qmax) (rows_of (t_shape init) (t_data init)) else [quant_scale qmax (t_data init)])"

definition quant_data :: "real \<Rightarrow> bool \<Rightarrow> tensor_proto \<Rightarrow> real list" where
  "quant_data qmax pc init =
     (if pc then concat (map (\<lambda>row. map (quant_value qmax (quant_scale qmax row)) row)
                           (rows_of (t_shape init) (t_data init)))
      else map (quant_value qmax (quant_scale qmax (t_data init))) (t_data init))"

definition store_int8 ::
  "numpy_ops \<Rightarrow> bool \<Rightarrow> string \<Rightarrow> node_proto \<Rightarrow> tensor_proto \<Rightarrow> graph \<Rightarrow> graph" where
  "store_int8 np int8_unavailable target consumer init g =
     (if int8_unavailable \<or> model_opset g < 10 then store_fp16 np init g
      else
        let qmax = (if target = ''INT8'' then 127 else 7);
            pc = per_channel g consumer init;
            scales = quant_scales qmax pc init;
            sh = (if pc then [hd (t_shape init)] else []);
            q_name = unique_name g (t_name init @ ''_q'');
            scale_name = unique_name g (t_name init @ ''_scale'');
            zp_name = unique_name g (t_name init @ ''_zp'');
            dq = make_node ''DequantizeLinear'' [q_name, scale_name, zp_name] [t_name init]
                   (unique_name g (t_name init @ ''_dq'')) (if pc then [(''axis'', AInt 0)] else []);
            g1 = remove_initializer (t_name init) g
        in g1\<lparr>g_inits := g_inits g1 @
                [from_array q_name 1 False (t_shape init) (quant_data qmax pc init),
                 from_array scale_name 4 True sh scales,
                 from_array zp_name 1 False sh (map (\<lambda>_. 0) scales)],
              g_nodes := dq # g_nodes g1\<rparr>)"

text \<open>The pass keeps the names converted so far, and the graph.\<close>

type_synonym pass_state = "string list \<times> graph"

definition quantize_input ::
  "numpy_ops \<Rightarrow> bool \<Rightarrow> string \<Rightarrow> node_proto \<Rightarrow> string \<Rightarrow> pass_state \<Rightarrow> pass_state" where
  "quantize_input np int8_unavailable target node inp st =
     (let converted = fst st; g = snd st in
      if inp \<in> set converted then st
      else case find_initializer g inp of
          None \<Rightarrow> st
        | Some init \<Rightarrow>
            if \<not> t_float32 init then st
            else if nbytes init < MIN_QUANT_BYTES then st
            else if target \<in> {''INT8'', ''INT4''} \<and> length (t_shape init) < 2 then st
            else (List.insert inp converted,
                  if target = ''FP16'' then store_fp16 np init g
                  else store_int8 np int8_unavailable target node init g))"

definition apply_weight_quantization ::
  "numpy_ops \<Rightarrow> bool \<Rightarrow> concrete_action \<Rightarrow> pass_state \<Rightarrow> pass_state" where
  "apply_weight_quantization np int8_unavailable a st =
     (let target = param_str a ''target_dtype'' ''FP16'' in
      if target \<notin> {''FP16'', ''INT8'', ''INT4''} then st
      else case find_node (snd st) (ca_operator a) of
          None \<Rightarrow> st
        | Some node \<Rightarrow> fold (quantize_input np int8_unavailable target node) (n_inputs node) st)"

section \<open>Channel pruning, low rank and batch norm fusion\<close>

definition n_keep :: "nat \<Rightarrow> real \<Rightarrow> nat" where
  "n_keep n ratio = nat (max 1 (py_int (of_nat n * (1 - ratio))))"

definition keep_indices :: "numpy_ops \<Rightarrow> nat \<Rightarrow> real list \<Rightarrow> nat list" where
  "keep_indices np k importance = sort (py_last k (np_argsort np importance))"

definition abs_sum :: "real list \<Rightarrow> real" where
  "abs_sum xs = sum_list (map abs xs)"

definition column_sums :: "nat list \<Rightarrow> real list \<Rightarrow> real list" where
  "column_sums sh xs = map (\<lambda>j. abs_sum (map (\<lambda>row. row ! j) (rows_of sh xs))) [0..<last sh]"

definition with_array :: "tensor_proto \<Rightarrow> nat list \<Rightarrow> real list \<Rightarrow> tensor_proto" where
  "with_array t sh xs = from_array (t_name t) (t_itemsize t) (t_float32 t) sh xs"

definition prune_bias :: "nat \<Rightarrow> nat list \<Rightarrow> string \<Rightarrow> graph \<Rightarrow> graph result" where
  "prune_bias n_channels keep name g =
     (case find_initializer g name of
        None \<Rightarrow> ok g
      | Some b \<Rightarrow>
          if t_shape b = [] then raise TypeError
          else if hd (t_shape b) = n_channels
          then ok (replace_initializer (t_name b)
                     (with_array b (length keep # tl (t_shape b))
                        (concat (gather keep (rows_of (t_shape b) (t_data b))))) g)
          else ok g)"

definition apply_channel_pruning :: "numpy_ops \<Rightarrow> concrete_action \<Rightarrow> graph \<Rightarrow> graph result" where
  "apply_channel_pruning np a g =
     (let ratio = param_real a ''ratio'' 0 in
      if ratio \<le> 0 then ok g
      else case find_node g (ca_operator a) of
          None \<Rightarrow> ok g
        | Some node \<Rightarrow>
           (case n_inputs node of
              _ # w_name # ins \<Rightarrow>
               (case find_initializer g w_name of
                  None \<Rightarrow> ok g
                | Some w \<Rightarrow>
                    let sh = t_shape w; by_column = (n_op_type node = ''MatMul'' \<and> length sh = 2) in
                    if sh = [] then raise IndexError
                    else if \<not> by_column \<and> hd sh = 0 then raise (ValueError ''cannot reshape'')
                    else
                      let n_channels = (if by_column then sh ! 1 else hd sh);
                          importance = (if by_column then column_sums sh (t_data w)
                                        else map abs_sum (rows_of sh (t_data w)));
                          keep = keep_indices np (n_keep n_channels ratio) importance;
                          pruned = (if by_column
                              then with_array w [hd sh, length keep] (concat (map (gather keep) (rows_of sh (t_data w))))
                              else with_array w (length keep # tl sh) (concat (gather keep (rows_of sh (t_data w)))));
                          g1 = replace_initializer (t_name w) pruned g
                      in (case ins of [] \<Rightarrow> ok g1 | b_name # _ \<Rightarrow> prune_bias n_channels keep b_name g1))
            | _ \<Rightarrow> ok g))"

definition insert_after :: "('r \<Rightarrow> bool) \<Rightarrow> 'r \<Rightarrow> 'r list \<Rightarrow> 'r list" where
  "insert_after p x rs = (let before = takeWhile (\<lambda>r. \<not> p r) rs; rest = dropWhile (\<lambda>r. \<not> p r) rs
     in before @ take 1 rest @ [x] @ drop 1 rest)"

definition apply_low_rank_svd :: "numpy_ops \<Rightarrow> concrete_action \<Rightarrow> graph \<Rightarrow> graph result" where
  "apply_low_rank_svd np a g =
     (case find_node g (ca_operator a) of
        None \<Rightarrow> ok g
      | Some node \<Rightarrow>
         (case n_inputs node of
            _ # w_name # _ \<Rightarrow>
             (case find_initializer g w_name of
                None \<Rightarrow> ok g
              | Some w \<Rightarrow>
                 (case t_shape w of
                    [m, n] \<Rightarrow>
                      let rank = min (param_int a ''rank'' 8) (int (min m n));
                          (u, s, vt) = np_svd np (rows_of [m, n] (t_data w));
                          u_r = map (\<lambda>row. map2 (*) (py_take rank row) (py_take rank s)) u;
                          v_r = py_take rank vt;
                          v_name = t_name w @ ''_svd_v'';
                          g1 = replace_initializer (t_name w)
                                 (from_array (t_name w) 4 True [m, length (py_take rank s)] (concat u_r)) g;
                          g2 = g1\<lparr>g_inits := g_inits g1 @ [from_array v_name 4 True [length v_r, n] (concat v_r)]\<rparr>
                      in (case n_outputs node of
                            [] \<Rightarrow> raise IndexError
                          | original # outs \<Rightarrow>
                              let mid = original @ ''_svd_mid'';
                                  matmul2 = make_node ''MatMul'' [mid, v_name] [original] (ca_operator a @ ''_svd_v'') [];
                                  is_node = (\<lambda>x. n_name x = ca_operator a);
                                  g3 = upd_node is_node (\<lambda>x. x\<lparr>n_outputs := mid # outs\<rparr>) g2
                              in ok (g3\<lparr>g_nodes := insert_after is_node matmul2 (g_nodes g3)\<rparr>))
                  | _ \<Rightarrow> ok g))
          | _ \<Rightarrow> ok g))"

text \<open>numpy broadcasting of two vectors, and of a vector of row factors on an array.\<close>

definition bcast :: "(real \<Rightarrow> real \<Rightarrow> real) \<Rightarrow> real list \<Rightarrow> real list \<Rightarrow> real list result" where
  "bcast f xs ys =
     (if length xs = length ys then ok (map2 f xs ys)
      else if length xs = 1 then ok (map (f (hd xs)) ys)
      else if length ys = 1 then ok (map (\<lambda>x. f x (hd ys)) xs)
      else raise (ValueError ''operands could not be broadcast together''))"

definition scale_rows :: "nat list \<Rightarrow> real list \<Rightarrow> real list \<Rightarrow> (nat list \<times> real list) result" where
  "scale_rows sh xs scale =
     (let rows = rows_of sh xs in
      if length scale = hd sh then ok (sh, concat (map2 (\<lambda>s row. map ((*) s) row) scale rows))
      else if length scale = 1 then ok (sh, map ((*) (hd scale)) xs)
      else if hd sh = 1 then ok (length scale # tl sh, concat (map (\<lambda>s. map ((*) s) xs) scale))
      else raise (ValueError ''operands could not be broadcast together''))"

definition init_data :: "graph \<Rightarrow> string list \<Rightarrow> nat \<Rightarrow> real list result" where
  "init_data g ins i =
     (if length ins \<le> i then raise IndexError
      else case find_initializer g (ins ! i) of
          None \<Rightarrow> raise (RuntimeError ''AttributeError'')
        | Some t \<Rightarrow> ok (t_data t))"

definition bn_epsilon :: "node_proto \<Rightarrow> real" where
  "bn_epsilon n = fold (\<lambda>(k, v) e. if k = ''epsilon'' then (case v of AFloat x \<Rightarrow> x | _ \<Rightarrow> 0) else e)
                    (n_attrs n) (1 / 10 ^ 5)"

definition fuse_bias :: "node_proto \<Rightarrow> real list \<Rightarrow> real list \<Rightarrow> graph \<Rightarrow> (graph \<times> string list) result" where
  "fuse_bias prev scale fused_bias g =
     (if length (n_inputs prev) > 2
      then (case find_initializer g (n_inputs prev ! 2) of
              None \<Rightarrow> ok (g, n_inputs prev)
            | Some b \<Rightarrow> bind_result (bcast (*) (t_data b) scale) (\<lambda>x.
                        bind_result (bcast (+) x fused_bias) (\<lambda>nb.
                          ok (replace_initializer (t_name b) (from_array (t_name b) 4 True [length nb] nb) g,
                              n_inputs prev))))
      else let bias_name = n_name prev @ ''_fused_bias''
           in ok (g\<lparr>g_inits := g_inits g @ [from_array bias_name 4 True [length fused_bias] fused_bias]\<rparr>,
                  n_inputs prev @ [bias_name]))"

definition apply_bn_fusion :: "concrete_action \<Rightarrow> graph \<Rightarrow> graph result" where
  "apply_bn_fusion a g =
     (case find_node g (ca_operator a) of
        None \<Rightarrow> ok g
      | Some bn \<Rightarrow>
          if n_op_type bn \<noteq> ''BatchNormalization'' then ok g
          else (case n_inputs bn of
            [] \<Rightarrow> raise IndexError
          | bn_input # _ \<Rightarrow>
           (let is_prev = (\<lambda>n. bn_input \<in> set (n_outputs n)) in
            case find is_prev (g_nodes g) of
              None \<Rightarrow> ok g
            | Some prev \<Rightarrow>
                if n_op_type prev \<notin> {''Conv'', ''Gemm''} then ok g
                else (case n_inputs prev of
                  _ # w_name # _ \<Rightarrow>
                   (case find_initializer g w_name of
                      None \<Rightarrow> ok g
                    | Some w \<Rightarrow>
                      bind_result (init_data g (n_inputs bn) 1) (\<lambda>gamma.
                      bind_result (init_data g (n_inputs bn) 2) (\<lambda>beta.
                      bind_result (init_data g (n_inputs bn) 3) (\<lambda>mean.
                      bind_result (init_data g (n_inputs bn) 4) (\<lambda>var.
                      bind_result (bcast (/) gamma (map (\<lambda>v. sqrt (v + bn_epsilon bn)) var)) (\<lambda>scale.
                        if length (t_shape w) \<notin> {2, 4} then ok g
                        else
                      bind_result (scale_rows (t_shape w) (t_data w) scale) (\<lambda>(sh, fused).
                      bind_result (bcast (*) mean scale) (\<lambda>ms.
                      bind_result (bcast (-) beta ms) (\<lambda>fused_bias.
                      bind_result (fuse_bias prev scale fused_bias
                          (replace_initializer (t_name w) (from_array (t_name w) 4 True sh fused) g)) (\<lambda>(g1, ins).
                        case (n_outputs prev, n_outputs bn) of
                          (_ # outs, out # _) \<Rightarrow>
                            let g2 = upd_node is_prev (\<lambda>n. n\<lparr>n_inputs := ins, n_outputs := out # outs\<rparr>) g1
                            in ok (g2\<lparr>g_nodes := del_first (\<lambda>n. n_name n = ca_operator a) (g_nodes g2)\<rparr>)
                        | _ \<Rightarrow> raise IndexError))))))))))
                | _ \<Rightarrow> raise IndexError))))"

section \<open>Tree ensembles\<close>

definition ints_of :: "attr_value \<Rightarrow> int list" where
  "ints_of v = (case v of AInts xs \<Rightarrow> xs | _ \<Rightarrow> [])"

definition floats_of :: "attr_value \<Rightarrow> real list" where
  "floats_of v = (case v of AFloats xs \<Rightarrow> xs | _ \<Rightarrow> [])"

definition strings_of :: "attr_value \<Rightarrow> string list" where
  "strings_of v = (case v of AStrings xs \<Rightarrow> xs | _ \<Rightarrow> [])"

definition mask_list :: "bool list \<Rightarrow> 'a list \<Rightarrow> 'a list" where
  "mask_list msk xs = (if length xs = length msk then map fst (filter snd (zip xs msk)) else xs)"

fun filter_value :: "bool list \<Rightarrow> attr_value \<Rightarrow> attr_value" where
  "filter_value msk (AInts xs) = AInts (mask_list msk xs)"
| "filter_value msk (AFloats xs) = AFloats (mask_list msk xs)"
| "filter_value msk (AStrings xs) = AStrings (mask_list msk xs)"
| "filter_value msk v = v"

definition filter_attr :: "bool list \<Rightarrow> string \<Rightarrow> node_proto \<Rightarrow> node_proto" where
  "filter_attr msk a n =
     (case get_node_attr n a of None \<Rightarrow> n | Some v \<Rightarrow> set_node_attr a (filter_value msk v) n)"

definition node_level_attrs :: "string list" where
  "node_level_attrs =
     [''nodes_treeids'', ''nodes_nodeids'', ''nodes_featureids'', ''nodes_values'', ''nodes_hitrates'',
      ''nodes_modes'', ''nodes_truenodeids'', ''nodes_falsenodeids'', ''nodes_missing_value_tracks_true'']"

definition filter_group :: "int list \<Rightarrow> string \<Rightarrow> string list \<Rightarrow> node_proto \<Rightarrow> node_proto" where
  "filter_group keep ids_attr attrs n =
     (case get_node_attr n ids_attr of
        None \<Rightarrow> n
      | Some v \<Rightarrow> fold (filter_attr (map (\<lambda>t. t \<in> set keep) (ints_of v))) attrs n)"

definition prune_trees :: "int list \<Rightarrow> node_proto \<Rightarrow> node_proto" where
  "prune_trees keep n =
     filter_group keep ''class_treeids'' [''class_treeids'', ''class_nodeids'', ''class_ids'', ''class_weights'']
       (filter_group keep ''target_treeids'' [''target_treeids'', ''target_nodeids'', ''target_ids'', ''target_weights'']
         (filter_group keep ''nodes_treeids'' node_level_attrs n))"

definition apply_tree_pruning :: "concrete_action \<Rightarrow> graph \<Rightarrow> graph" where
  "apply_tree_pruning a g =
     (let ratio = param_real a ''ratio'' 0 in
      if ratio \<le> 0 then g
      else case find_node_by_type g (ca_operator a) (ca_op_type a) of
          None \<Rightarrow> g
        | Some node \<Rightarrow>
           (case get_node_attr node ''nodes_treeids'' of
              None \<Rightarrow> g
            | Some v \<Rightarrow>
                let unique_trees = sort (remdups (ints_of v)); n_trees = length unique_trees;
                    k = n_keep n_trees ratio
                in if k \<ge> n_trees then g
                   else upd_node (node_lookup g (ca_operator a) (ca_op_type a))
                          (prune_trees (take k unique_trees)) g))"

definition on_floats :: "(real list \<Rightarrow> real list) \<Rightarrow> string \<Rightarrow> node_proto \<Rightarrow> node_proto" where
  "on_floats f a n =
     (case get_node_attr n a of Some (AFloats xs) \<Rightarrow> set_node_attr a (AFloats (f xs)) n | _ \<Rightarrow> n)"

definition apply_leaf_quantization :: "numpy_ops \<Rightarrow> concrete_action \<Rightarrow> graph \<Rightarrow> graph" where
  "apply_leaf_quantization np a g =
     (case find_node_by_type g (ca_operator a) (ca_op_type a) of
        None \<Rightarrow> g
      | Some _ \<Rightarrow> upd_node (node_lookup g (ca_operator a) (ca_op_type a))
          (fold (on_floats (map (np_fp16 np))) [''target_weights'', ''leaf_weights'']) g)"

definition np_std :: "real list \<Rightarrow> real" where
  "np_std xs = sqrt (mean (map (\<lambda>x. (x - mean xs) ^ 2) xs))"

text \<open>The two nested loops: a group starts at the first index left and takes the following
  ones while their value stays within the threshold of the first.\<close>

function merge_groups :: "real list \<Rightarrow> real \<Rightarrow> nat list \<Rightarrow> real list \<Rightarrow> real list" where
  "merge_groups values thr [] merged = merged"
| "merge_groups values thr (i # idx) merged =
     (if idx = [] then merged
      else let close = (\<lambda>j. \<bar>values ! j - values ! i\<bar> < thr); grp = i # takeWhile close idx
           in merge_groups values thr (dropWhile close idx)
                (fold (\<lambda>j m. m[j := mean (gather grp values)]) grp merged))"
  by pat_completeness auto
termination
  by (relation "measure (\<lambda>(values, thr, idx, merged). length idx)") (auto simp: length_dropWhile_le le_imp_less_Suc)

definition merge_leaves :: "numpy_ops \<Rightarrow> real list \<Rightarrow> real list" where
  "merge_leaves np values =
     (if values = [] then values
      else merge_groups values (np_std values * 0.1 + 1 / 10 ^ 8) (np_argsort np values) values)"

definition apply_leaf_merging :: "numpy_ops \<Rightarrow> concrete_action \<Rightarrow> graph \<Rightarrow> graph" where
  "apply_leaf_merging np a g =
     (case find_node_by_type g (ca_operator a) (ca_op_type a) of
        None \<Rightarrow> g
      | Some _ \<Rightarrow> upd_node (node_lookup g (ca_operator a) (ca_op_type a))
          (fold (on_floats (merge_leaves np)) [''target_weights'', ''leaf_weights'']) g)"

text \<open>The breadth-first search of \<open>_compute_node_depths\<close>.  It keeps no set of visited nodes, so
  it may run forever; \<open>None\<close> is not returning.\<close>

definition children :: "(int \<times> nat) list \<Rightarrow> int list \<Rightarrow> int list \<Rightarrow> nat \<Rightarrow> nat list result" where
  "children node_to_idx true_ids false_ids i =
     (if i < length true_ids
      then (if i < length false_ids
            then ok (List.map_filter (map_of node_to_idx) [true_ids ! i, false_ids ! i])
            else raise IndexError)
      else ok [])"

partial_function (option) bfs_depths ::
  "(nat \<Rightarrow> nat list result) \<Rightarrow> (nat \<times> nat) list \<Rightarrow> nat list \<Rightarrow> nat list result option" where
  "bfs_depths kids queue depths =
     (case queue of
        [] \<Rightarrow> Some (ok depths)
      | (i, d) # rest \<Rightarrow>
          (case kids i of
             Inl e \<Rightarrow> Some (raise e)
           | Inr cs \<Rightarrow> bfs_depths kids (rest @ map (\<lambda>c. (c, d + 1)) cs) (depths[i := d])))"

definition tree_indices :: "int list \<Rightarrow> int \<Rightarrow> nat list" where
  "tree_indices tree_ids t = filter (\<lambda>i. tree_ids ! i = t) [0..<length tree_ids]"

definition index_map :: "int list \<Rightarrow> nat list \<Rightarrow> (int \<times> nat) list" where
  "index_map node_ids idx = fold (\<lambda>i. AList.update (node_ids ! i) i) idx []"

fun depths_of_trees ::
  "int list \<Rightarrow> int list \<Rightarrow> int list \<Rightarrow> int list \<Rightarrow> int list \<Rightarrow> nat list \<Rightarrow> nat list result option" where
  "depths_of_trees tree_ids node_ids true_ids false_ids [] depths = Some (ok depths)"
| "depths_of_trees tree_ids node_ids true_ids false_ids (t # ts) depths =
     (let idx = tree_indices tree_ids t in
      if list_ex (\<lambda>i. length node_ids \<le> i) idx then Some (raise IndexError)
      else case bfs_depths (children (index_map node_ids idx) true_ids false_ids) [(hd idx, 0)] depths of
          None \<Rightarrow> None
        | Some (Inl e) \<Rightarrow> Some (raise e)
        | Some (Inr ds) \<Rightarrow> depths_of_trees tree_ids node_ids true_ids false_ids ts ds)"

definition compute_node_depths :: "int list \<Rightarrow> int list \<Rightarrow> node_proto \<Rightarrow> nat list result option" where
  "compute_node_depths tree_ids node_ids node =
     (case (get_node_attr node ''nodes_truenodeids'', get_node_attr node ''nodes_falsenodeids'') of
        (Some tv, Some fv) \<Rightarrow>
          depths_of_trees tree_ids node_ids (ints_of tv) (ints_of fv) (remdups tree_ids)
            (replicate (length tree_ids) 0)
      | _ \<Rightarrow> Some (ok (replicate (length tree_ids) 0)))"

definition limit_modes :: "int \<Rightarrow> nat list \<Rightarrow> string list \<Rightarrow> string list result" where
  "limit_modes max_depth depths modes =
     (if length depths < length modes then raise IndexError
      else ok (map2 (\<lambda>d m. if int d \<ge> max_depth \<and> m \<noteq> ''LEAF'' then ''LEAF'' else m) depths modes))"

definition apply_depth_limiting :: "concrete_action \<Rightarrow> graph \<Rightarrow> graph result option" where
  "apply_depth_limiting a g =
     (case find_node_by_type g (ca_operator a) (ca_op_type a) of
        None \<Rightarrow> Some (ok g)
      | Some node \<Rightarrow>
         (case (get_node_attr node ''nodes_modes'', get_node_attr node ''nodes_treeids'',
                get_node_attr node ''nodes_nodeids'') of
            (Some mv, Some tv, Some nv) \<Rightarrow>
              (case compute_node_depths (ints_of tv) (ints_of nv) node of
                 None \<Rightarrow> None
               | Some ds \<Rightarrow> Some
                   (bind_result ds (\<lambda>ds.
                    bind_result (limit_modes (param_int a ''max_depth'' 5) ds (strings_of mv)) (\<lambda>modes.
                      ok (upd_node (node_lookup g (ca_operator a) (ca_op_type a))
                            (set_node_attr ''nodes_modes'' (case mv of AStrings _ \<Rightarrow> AStrings modes | _ \<Rightarrow> mv)) g)))))
          | _ \<Rightarrow> Some (ok g)))"

section \<open>Linear models and support vectors\<close>

definition quantize_coefficients :: "numpy_ops \<Rightarrow> string \<Rightarrow> real list \<Rightarrow> real list result" where
  "quantize_coefficients np target values =
     (if target = ''FP16'' then ok (map (np_fp16 np) values)
      else if target = ''INT8'' then
        (if values = [] then raise (ValueError ''zero-size array'')
         else let scale = quant_scale 127 values in ok (map (\<lambda>x. quant_value 127 scale x * scale) values))
      else ok values)"

definition on_coefficients ::
  "(real list \<Rightarrow> real list result) \<Rightarrow> concrete_action \<Rightarrow> graph \<Rightarrow> graph result" where
  "on_coefficients f a g =
     (case find_node_by_type g (ca_operator a) (ca_op_type a) of
        None \<Rightarrow> ok g
      | Some node \<Rightarrow>
         (case get_node_attr node ''coefficients'' of
            Some (AFloats xs) \<Rightarrow>
              bind_result (f xs) (\<lambda>ys. ok (upd_node (node_lookup g (ca_operator a) (ca_op_type a))
                (set_node_attr ''coefficients'' (AFloats ys)) g))
          | _ \<Rightarrow> ok g))"

definition apply_coefficient_quantization :: "numpy_ops \<Rightarrow> concrete_action \<Rightarrow> graph \<Rightarrow> graph result" where
  "apply_coefficient_quantization np a g =
     on_coefficients (quantize_coefficients np (param_str a ''target_dtype'' ''FP16'')) a g"

definition zero_small :: "real \<Rightarrow> real list \<Rightarrow> real list result" where
  "zero_small ratio values =
     (if ratio * 100 > 100 then raise (ValueError ''Percentiles must be in the range [0, 100]'')
      else if values = [] then ok []
      else let threshold = percentile (map abs values) (ratio * 100)
           in ok (map (\<lambda>x. if \<bar>x\<bar> < threshold then 0 else x) values))"

definition apply_feature_pruning :: "concrete_action \<Rightarrow> graph \<Rightarrow> graph result" where
  "apply_feature_pruning a g =
     (let ratio = param_real a ''ratio'' 0 in
      if ratio \<le> 0 then ok g else on_coefficients (zero_small ratio) a g)"

text \<open>The handler of support vectors does not look at the attribute's type; an attribute that
  holds no floats is left as it is.\<close>

definition apply_sv_pruning :: "concrete_action \<Rightarrow> graph \<Rightarrow> graph result" where
  "apply_sv_pruning a g =
     (let ratio = param_real a ''ratio'' 0 in
      if ratio \<le> 0 then ok g
      else case find_node_by_type g (ca_operator a) (ca_op_type a) of
          None \<Rightarrow> ok g
        | Some node \<Rightarrow>
           (case get_node_attr node ''coefficients'' of
              None \<Rightarrow> ok g
            | Some v \<Rightarrow>
                bind_result (zero_small ratio (floats_of v)) (\<lambda>ys.
                  ok (upd_node (node_lookup g (ca_operator a) (ca_op_type a))
                    (set_node_attr ''coefficients'' (case v of AFloats _ \<Rightarrow> AFloats ys | _ \<Rightarrow> v)) g))))"

section \<open>The pass\<close>

definition action_phase :: "string \<Rightarrow> nat" where
  "action_phase ty =
     (case map_of [(''bn_fusion'', 0), (''channel_pruning'', 1), (''tree_pruning'', 1), (''feature_pruning'', 1),
        (''support_vector_pruning'', 1), (''depth_limiting'', 1), (''low_rank_svd'', 2), (''leaf_merging'', 2),
        (''quantization'', 3), (''param_quantization'', 3), (''embedding_quantization'', 3),
        (''coefficient_quantization'', 3), (''leaf_quantization'', 3)] ty of
        Some p \<Rightarrow> p | None \<Rightarrow> 2)"

definition on_graph :: "graph result \<Rightarrow> pass_state \<Rightarrow> pass_state result option" where
  "on_graph r st = Some (bind_result r (\<lambda>g. ok (fst st, g)))"

definition apply_action ::
  "numpy_ops \<Rightarrow> bool \<Rightarrow> concrete_action \<Rightarrow> pass_state \<Rightarrow> pass_state result option" where
  "apply_action np int8_unavailable a st =
     (let ty = ca_action_type a; g = snd st in
      if ty \<in> {''quantization'', ''param_quantization'', ''embedding_quantization''}
        then Some (ok (apply_weight_quantization np int8_unavailable a st))
      else if ty = ''channel_pruning'' then on_graph (apply_channel_pruning np a g) st
      else if ty = ''low_rank_svd'' then on_graph (apply_low_rank_svd np a g) st
      else if ty = ''bn_fusion'' then on_graph (apply_bn_fusion a g) st
      else if ty = ''coefficient_quantization'' then on_graph (apply_coefficient_quantization np a g) st
      else if ty = ''leaf_quantization'' then on_graph (ok (apply_leaf_quantization np a g)) st
      else if ty = ''tree_pruning'' then on_graph (ok (apply_tree_pruning a g)) st
      else if ty = ''leaf_merging'' then on_graph (ok (apply_leaf_merging np a g)) st
      else if ty = ''depth_limiting'' then
        (case apply_depth_limiting a g of None \<Rightarrow> None | Some r \<Rightarrow> on_graph r st)
      else if ty = ''feature_pruning'' then on_graph (apply_feature_pruning a g) st
      else if ty = ''support_vector_pruning'' then on_graph (apply_sv_pruning a g) st
      else Some (ok st))"

fun run_actions ::
  "numpy_ops \<Rightarrow> bool \<Rightarrow> concrete_action list \<Rightarrow> pass_state \<Rightarrow> pass_state result option" where
  "run_actions np int8_unavailable [] st = Some (ok st)"
| "run_actions np int8_unavailable (a # as) st =
     (case apply_action np int8_unavailable a st of
        None \<Rightarrow> None
      | Some (Inl e) \<Rightarrow> Some (raise e)
      | Some (Inr st') \<Rightarrow> run_actions np int8_unavailable as st')"

record onnx_lib =
  ox_convert_version :: "graph \<Rightarrow> int \<Rightarrow> graph option"
  ox_infer_shapes :: "graph \<Rightarrow> graph option"

definition wants_int8 :: "concrete_action list \<Rightarrow> bool" where
  "wants_int8 as \<longleftrightarrow>
     list_ex (\<lambda>a. ca_action_type a \<in> {''quantization'', ''param_quantization'', ''embedding_quantization''} \<and>
                  param_str a ''target_dtype'' '''' \<in> {''INT8'', ''INT4''}) as"

definition ordered_actions :: "concrete_action list \<Rightarrow> concrete_action list" where
  "ordered_actions as = sort_key (\<lambda>a. action_phase (ca_action_type a)) as"

definition apply_actions :: "onnx_lib \<Rightarrow> numpy_ops \<Rightarrow> graph \<Rightarrow> concrete_action list \<Rightarrow> graph result option" where
  "apply_actions ox np g as =
     (let upgrade = wants_int8 as \<and> model_opset g < 10;
          (g0, int8_unavailable) =
            (if upgrade then (case ox_convert_version ox g 13 of Some h \<Rightarrow> (h, False) | None \<Rightarrow> (g, True))
             else (g, False))
      in case run_actions np int8_unavailable (ordered_actions as) ([], g0) of
           None \<Rightarrow> None
         | Some r \<Rightarrow> Some (bind_result r (\<lambda>(_, h).
             ok (case ox_infer_shapes ox h of Some h' \<Rightarrow> h' | None \<Rightarrow> h))))"

section \<open>Fresh names\<close>

lemma length_name_candidates [simp]: "length (name_candidates c n) = n + 1"
  by (simp add: name_candidates_def) arith

lemma distinct_name_candidates: "distinct (name_candidates c n)"
  by (auto simp: name_candidates_def distinct_map inj_on_def)

lemma unique_name_props:
  "unique_name g c \<notin> set (existing_names g)" "unique_name g c \<in> set (name_candidates c (length (existing_names g)))"
proof -
  let ?ns = "name_candidates c (length (existing_names g))"
  have "\<not> set ?ns \<subseteq> set (existing_names g)"
  proof
    assume "set ?ns \<subseteq> set (existing_names g)"
    then have "card (set ?ns) \<le> card (set (existing_names g))" by (rule card_mono [rotated]) simp
    then show False
      using distinct_card [OF distinct_name_candidates] card_length [of "existing_names g"]
      by (metis add_le_same_cancel1 le_trans length_name_candidates not_one_le_zero)
  qed
  then obtain x where "find (\<lambda>x. x \<notin> set (existing_names g)) ?ns = Some x"
    by (cases "find (\<lambda>x. x \<notin> set (existing_names g)) ?ns") (auto simp: find_None_iff)
  then show "unique_name g c \<notin> set (existing_names g)" "unique_name g c \<in> set ?ns"
    by (auto simp: unique_name_def dest: find_in_set)
qed

lemma fresh_init_name: "unique_name g c \<notin> t_name ` set (g_inits g)"
  using unique_name_props(1) [of g c] by (auto simp: existing_names_def)

lemma fresh_node_name: "unique_name g c \<notin> n_name ` set (g_nodes g)"
  using unique_name_props(1) [of g c] by (auto simp: existing_names_def)

text \<open>Names made from different stems differ, whatever suffix they got.\<close>

lemma unique_name_prefix: "prefix c (unique_name g c)"
  using unique_name_props(2) [of g c] by (auto simp: name_candidates_def)

lemma unique_names_differ:
  assumes "x \<noteq> y" shows "unique_name g (c @ ''_'' @ (x # xs)) \<noteq> unique_name h (c @ ''_'' @ (y # ys))"
proof
  assume eq: "unique_name g (c @ ''_'' @ (x # xs)) = unique_name h (c @ ''_'' @ (y # ys))"
  obtain s where s: "unique_name g (c @ ''_'' @ (x # xs)) = (c @ ''_'' @ (x # xs)) @ s"
    using unique_name_prefix unfolding prefix_def by blast
  obtain t where t: "unique_name h (c @ ''_'' @ (y # ys)) = (c @ ''_'' @ (y # ys)) @ t"
    using unique_name_prefix unfolding prefix_def by blast
  from eq assms show False unfolding s t by simp
qed

section \<open>Storage keeps every name defined\<close>

definition defined_names :: "graph \<Rightarrow> string set" where
  "defined_names g = t_name ` set (g_inits g) \<union> vi_name ` set (g_inputs g) \<union> (\<Union>n \<in> set (g_nodes g). set (n_outputs n))"

definition storage_ok :: "graph \<Rightarrow> graph \<Rightarrow> bool" where
  "storage_ok g h \<longleftrightarrow> suffix (g_nodes g) (g_nodes h) \<and> defined_names g \<subseteq> defined_names h \<and>
     (distinct (map t_name (g_inits g)) \<longrightarrow> distinct (map t_name (g_inits h)))"

lemma storage_ok_refl [simp]: "storage_ok g g"
  by (simp add: storage_ok_def)

lemma storage_ok_trans: "storage_ok g h \<Longrightarrow> storage_ok h k \<Longrightarrow> storage_ok g k"
  unfolding storage_ok_def by (meson suffix_order.order_trans subset_trans)

lemma set_del_first: "set (del_first p rs) \<subseteq> set rs"
  by (induction rs) auto

lemma del_first_keeps: "r \<in> set rs \<Longrightarrow> \<not> p r \<Longrightarrow> r \<in> set (del_first p rs)"
  by (induction rs) auto

lemma distinct_del_first: "distinct (map f rs) \<Longrightarrow> distinct (map f (del_first p rs))"
  by (induction rs) (use set_del_first in fastforce)+

lemma replace_stored:
  assumes "n_outputs node = [nm]" "distinct (map t_name new)" "t_name ` set new \<inter> t_name ` set (g_inits g) = {}"
  defines "g1 \<equiv> remove_initializer nm g"
  shows "storage_ok g (g1\<lparr>g_inits := g_inits g1 @ new, g_nodes := node # g_nodes g1\<rparr>)"
  unfolding storage_ok_def
proof (intro conjI impI)
  let ?h = "g1\<lparr>g_inits := g_inits g1 @ new, g_nodes := node # g_nodes g1\<rparr>"
  show "suffix (g_nodes g) (g_nodes ?h)" by (simp add: g1_def remove_initializer_def suffix_ConsI)
  show "defined_names g \<subseteq> defined_names ?h"
  proof
    fix x assume x: "x \<in> defined_names g"
    show "x \<in> defined_names ?h"
    proof (cases "x = nm")
      case True
      then show ?thesis using assms(1) by (simp add: defined_names_def)
    next
      case False
      then have i: "t \<in> set (g_inits g) \<Longrightarrow> t_name t = x \<Longrightarrow> t \<in> set (g_inits g1)"
        and v: "v \<in> set (g_inputs g) \<Longrightarrow> vi_name v = x \<Longrightarrow> v \<in> set (g_inputs g1)" for t v
        by (auto simp: g1_def remove_initializer_def intro: del_first_keeps)
      have "g_nodes g1 = g_nodes g" by (simp add: g1_def remove_initializer_def)
      with x i v show ?thesis by (auto simp: defined_names_def)
    qed
  qed
  assume "distinct (map t_name (g_inits g))"
  moreover have "t_name ` set (g_inits g1) \<subseteq> t_name ` set (g_inits g)"
    unfolding g1_def remove_initializer_def using set_del_first by fastforce
  ultimately show "distinct (map t_name (g_inits ?h))"
    using assms(2,3) by (auto simp: g1_def remove_initializer_def intro: distinct_del_first)
qed

lemma store_fp16_ok: "storage_ok g (store_fp16 np init g)"
  unfolding store_fp16_def Let_def
  by (rule replace_stored) (use fresh_init_name in \<open>auto simp: make_node_def from_array_def\<close>)

lemma store_int8_ok: "storage_ok g (store_int8 np un target consumer init g)"
proof (cases "un \<or> model_opset g < 10")
  case True
  then show ?thesis by (simp add: store_int8_def store_fp16_ok)
next
  case False
  have d: "unique_name g (t_name init @ ''_q'') \<noteq> unique_name g (t_name init @ ''_scale'')"
    "unique_name g (t_name init @ ''_q'') \<noteq> unique_name g (t_name init @ ''_zp'')"
    "unique_name g (t_name init @ ''_scale'') \<noteq> unique_name g (t_name init @ ''_zp'')"
    using unique_names_differ [of "CHR ''q''" "CHR ''s''" g "t_name init" "[]" g "''cale''"]
      unique_names_differ [of "CHR ''q''" "CHR ''z''" g "t_name init" "[]" g "''p''"]
      unique_names_differ [of "CHR ''s''" "CHR ''z''" g "t_name init" "''cale''" g "''p''"] by simp_all
  show ?thesis
    unfolding store_int8_def Let_def if_not_P [OF False]
    by (rule replace_stored) (use d fresh_init_name in \<open>auto simp: make_node_def from_array_def\<close>)
qed

lemma quantize_input_ok: "storage_ok (snd st) (snd (quantize_input np un target node inp st))"
  by (auto simp: quantize_input_def Let_def store_fp16_ok store_int8_ok split: option.splits)

lemma fold_quantize_input_ok: "storage_ok (snd st) (snd (fold (quantize_input np un target node) ins st))"
proof (induction ins arbitrary: st)
  case (Cons i ins)
  have "snd (fold (quantize_input np un target node) (i # ins) st)
      = snd (fold (quantize_input np un target node) ins (quantize_input np un target node i st))" by simp
  then show ?case using storage_ok_trans [OF quantize_input_ok Cons.IH] by metis
qed simp

text \<open>C9: Weight quantization is invisible to consumers: the graph's nodes all stay, with the
  inputs they had, behind the new Cast and DequantizeLinear nodes; every name an initializer, an
  input or a node defined is still defined; and distinct initializer names stay distinct.\<close>

theorem weight_quantization_keeps_names:
  "storage_ok (snd st) (snd (apply_weight_quantization np un a st))"
  by (auto simp: apply_weight_quantization_def Let_def fold_quantize_input_ok split: option.splits)

section \<open>The error of a quantized weight\<close>

lemma abs_max_upper: "x \<in> set xs \<Longrightarrow> \<bar>x\<bar> \<le> abs_max xs"
  by (simp add: abs_max_def list_max_upper)

lemma quant_scale_pos: "0 < qmax \<Longrightarrow> xs \<noteq> [] \<Longrightarrow> 0 < quant_scale qmax xs"
  using abs_max_upper [of "hd xs" xs]
  by (auto simp: quant_scale_def intro!: add_nonneg_pos divide_nonneg_pos)

lemma quant_value_range: "0 \<le> qmax \<Longrightarrow> \<bar>quant_value qmax s x\<bar> \<le> qmax"
  by (auto simp: quant_value_def)

text \<open>No weight of the tensor is clipped: the scale divides the largest one below \<open>qmax\<close>.\<close>

lemma quant_no_clip:
  assumes "x \<in> set xs" and q: "qmax = of_nat n" "0 < n"
  shows "quant_value qmax (quant_scale qmax xs) x = of_int (round_half_even (x / quant_scale qmax xs))"
proof -
  define s where "s = quant_scale qmax xs"
  have s: "0 < s" unfolding s_def by (rule quant_scale_pos) (use assms in auto)
  have "\<bar>x\<bar> \<le> qmax * s"
    using abs_max_upper [OF assms(1)] q by (simp add: s_def quant_scale_def distrib_left)
  then have "- qmax * s \<le> x" "x \<le> qmax * s" by linarith+
  then have b: "- qmax \<le> x / s" "x / s \<le> qmax"
    unfolding pos_le_divide_eq [OF s] pos_divide_le_eq [OF s] by auto
  have "round_half_even (of_int (- int n)) \<le> round_half_even (x / s)"
    "round_half_even (x / s) \<le> round_half_even (of_int (int n))"
    using b q by (auto intro!: round_half_even_mono)
  then have "- int n \<le> round_half_even (x / s)" "round_half_even (x / s) \<le> int n"
    unfolding round_half_even_of_int by auto
  then have "of_int (- int n) \<le> (of_int (round_half_even (x / s)) :: real)"
    "(of_int (round_half_even (x / s)) :: real) \<le> of_int (int n)"
    unfolding of_int_le_iff by auto
  with q show ?thesis by (simp add: quant_value_def s_def)
qed

lemma round_times_error:
  assumes "0 < s" shows "\<bar>of_int (round_half_even (x / s)) * s - x\<bar> \<le> s / 2"
proof -
  have "\<bar>of_int (round_half_even (x / s)) * s - x\<bar> = \<bar>of_int (round_half_even (x / s)) - x / s\<bar> * s"
    using assms by (simp add: abs_mult_pos left_diff_distrib)
  also have "\<dots> \<le> 1 / 2 * s" by (rule mult_right_mono) (use round_half_even_error assms in auto)
  finally show ?thesis by simp
qed

text \<open>The integer stored for a weight fits the int8 range of its target, and what
  DequantizeLinear gives back is within half of a quantization step of the weight.\<close>

theorem int8_storage_error:
  assumes "x \<in> set xs" "target \<in> {''INT8'', ''INT4''}"
  defines "qmax \<equiv> (if target = ''INT8'' then 127 else 7)"
  shows "\<bar>quant_value qmax (quant_scale qmax xs) x\<bar> \<le> qmax \<and>
    \<bar>quant_value qmax (quant_scale qmax xs) x * quant_scale qmax xs - x\<bar> \<le> quant_scale qmax xs / 2"
proof
  show "\<bar>quant_value qmax (quant_scale qmax xs) x\<bar> \<le> qmax"
    by (rule quant_value_range) (simp add: qmax_def)
  have q: "qmax = of_nat (if target = ''INT8'' then 127 else 7)" by (simp add: qmax_def)
  have eq: "quant_value qmax (quant_scale qmax xs) x = of_int (round_half_even (x / quant_scale qmax xs))"
    by (rule quant_no_clip [OF assms(1) q]) simp
  have "0 < quant_scale qmax xs" by (rule quant_scale_pos) (use assms(1) in \<open>auto simp: qmax_def\<close>)
  then show "\<bar>quant_value qmax (quant_scale qmax xs) x * quant_scale qmax xs - x\<bar> \<le> quant_scale qmax xs / 2"
    unfolding eq by (rule round_times_error)
qed

theorem int8_storage_error_witness:
  "\<bar>quant_value 127 (quant_scale 127 [1/2, -2]) (1/2) * quant_scale 127 [1/2, -2] - 1/2\<bar> \<le> quant_scale 127 [1/2, -2] / 2"
  using int8_storage_error [of "1/2" "[1/2, -2]" "''INT8''"] by simp

section \<open>Trees\<close>

lemma get_node_attr_set:
  "get_node_attr n a = Some v \<Longrightarrow> get_node_attr (set_node_attr a w n) b = (if a = b then Some w else get_node_attr n b)"
proof -
  have "find (\<lambda>kv. fst kv = a) kvs = Some p \<Longrightarrow>
    map_option snd (find (\<lambda>kv. fst kv = b) (upd_first (\<lambda>kv. fst kv = a) (\<lambda>_. (a, w)) kvs)) =
     (if a = b then Some w else map_option snd (find (\<lambda>kv. fst kv = b) kvs))" for p kvs
    by (induction kvs) auto
  then show "get_node_attr n a = Some v \<Longrightarrow> ?thesis"
    by (auto simp: get_node_attr_def set_node_attr_def)
qed

lemma get_filter_attr:
  "get_node_attr (filter_attr msk a n) b =
     (if a = b then map_option (filter_value msk) (get_node_attr n b) else get_node_attr n b)"
  by (cases "get_node_attr n a") (auto simp: filter_attr_def get_node_attr_set)

lemma get_fold_filter_attr:
  "distinct attrs \<Longrightarrow> get_node_attr (fold (filter_attr msk) attrs n) b =
     (if b \<in> set attrs then map_option (filter_value msk) (get_node_attr n b) else get_node_attr n b)"
  by (induction attrs arbitrary: n) (auto simp: get_filter_attr)

definition tree_mask :: "int list \<Rightarrow> int list \<Rightarrow> bool list" where
  "tree_mask keep ids = map (\<lambda>t. t \<in> set keep) ids"

lemma get_filter_group:
  "distinct attrs \<Longrightarrow> get_node_attr n ids_attr = Some v \<Longrightarrow>
   get_node_attr (filter_group keep ids_attr attrs n) b =
     (if b \<in> set attrs then map_option (filter_value (tree_mask keep (ints_of v))) (get_node_attr n b)
      else get_node_attr n b)"
  by (simp add: filter_group_def get_fold_filter_attr tree_mask_def)

lemma get_filter_group_other:
  "distinct attrs \<Longrightarrow> b \<notin> set attrs \<Longrightarrow> get_node_attr (filter_group keep ids_attr attrs n) b = get_node_attr n b"
  by (cases "get_node_attr n ids_attr") (auto simp: filter_group_def get_fold_filter_attr)

lemma prune_trees_node_level:
  assumes "get_node_attr n ''nodes_treeids'' = Some v" "b \<in> set node_level_attrs"
  shows "get_node_attr (prune_trees keep n) b =
    map_option (filter_value (tree_mask keep (ints_of v))) (get_node_attr n b)"
proof -
  have "get_node_attr (prune_trees keep n) b = get_node_attr (filter_group keep ''nodes_treeids'' node_level_attrs n) b"
    unfolding prune_trees_def using assms(2)
    by (auto simp: get_filter_group_other node_level_attrs_def)
  also have "\<dots> = map_option (filter_value (tree_mask keep (ints_of v))) (get_node_attr n b)"
    using assms by (subst get_filter_group) (auto simp: node_level_attrs_def)
  finally show ?thesis .
qed

lemma mask_list_tree_mask: "length xs = length ids \<Longrightarrow>
   mask_list (tree_mask keep ids) xs = map fst (filter (\<lambda>p. snd p \<in> set keep) (zip xs ids))"
  by (simp add: mask_list_def tree_mask_def zip_map2 filter_map o_def split_def)

lemma mask_list_self: "mask_list (tree_mask keep ids) ids = filter (\<lambda>t. t \<in> set keep) ids"
proof -
  have "map fst (filter (\<lambda>p. snd p \<in> set keep) (zip ids ids)) = filter (\<lambda>t. t \<in> set keep) ids"
    by (induction ids) auto
  then show ?thesis by (simp add: mask_list_tree_mask)
qed

lemma sorted_take_drop: "sorted xs \<Longrightarrow> a \<in> set (take k xs) \<Longrightarrow> b \<in> set (drop k xs) \<Longrightarrow> a \<le> (b::int)"
  by (metis append_take_drop_id sorted_append)

text \<open>Tree pruning keeps the node arrays aligned: after it every integer or float array that
  ran parallel to the tree ids holds exactly the entries of the kept trees, in their order.\<close>

theorem tree_pruning_aligned:
  assumes "get_node_attr n ''nodes_treeids'' = Some (AInts ids)" "b \<in> set node_level_attrs"
  shows "(\<forall>xs. get_node_attr n b = Some (AInts xs) \<and> length xs = length ids \<longrightarrow>
            get_node_attr (prune_trees keep n) b =
              Some (AInts (map fst (filter (\<lambda>p. snd p \<in> set keep) (zip xs ids))))) \<and>
         (\<forall>xs. get_node_attr n b = Some (AFloats xs) \<and> length xs = length ids \<longrightarrow>
            get_node_attr (prune_trees keep n) b =
              Some (AFloats (map fst (filter (\<lambda>p. snd p \<in> set keep) (zip xs ids))))) \<and>
         get_node_attr (prune_trees keep n) ''nodes_treeids'' = Some (AInts (filter (\<lambda>t. t \<in> set keep) ids))"
proof -
  have "''nodes_treeids'' \<in> set node_level_attrs" by (simp add: node_level_attrs_def)
  with prune_trees_node_level [OF assms(1)] assms show ?thesis
    by (simp add: ints_of_def mask_list_tree_mask mask_list_self)
qed

definition demo_tree :: node_proto where
  "demo_tree = make_node ''TreeEnsembleClassifier'' [''x''] [''y''] ''t''
     [(''nodes_treeids'', AInts [0, 0, 0, 1]), (''nodes_nodeids'', AInts [0, 1, 2, 0]),
      (''nodes_truenodeids'', AInts [1, 0, 0, 0]), (''nodes_falsenodeids'', AInts [2, 0, 0, 0]),
      (''nodes_modes'', AStrings [''BRANCH_LEQ'', ''LEAF'', ''LEAF'', ''LEAF''])]"

theorem tree_pruning_aligned_witness:
  "get_node_attr (prune_trees [1] demo_tree) ''nodes_nodeids'' = Some (AInts [0])"
  using tree_pruning_aligned [of demo_tree "[0, 0, 0, 1]" "''nodes_nodeids''" "[1]"]
  by (simp add: demo_tree_def make_node_def get_node_attr_def node_level_attrs_def)

text \<open>The trees that stay are the ones with the smallest ids; no measure of importance takes part.\<close>

lemma tree_pruning_keeps_first:
  assumes "k < length (sort (remdups ids))" "s \<in> set (take k (sort (remdups ids)))"
    "t \<in> set ids" "t \<notin> set (take k (sort (remdups ids)))"
  shows "s < (t :: int)"
proof -
  have "t \<in> set (sort (remdups ids))" using assms(3) by simp
  then have "t \<in> set (drop k (sort (remdups ids)))"
    using assms(4) by (metis Un_iff append_take_drop_id set_append)
  then have "s \<le> t" by (rule sorted_take_drop [OF sorted_sort assms(2)])
  with assms(2,4) show ?thesis by (cases "s = t") auto
qed

section \<open>When the search for node depths returns\<close>

lemma index_map_snoc [simp]: "index_map node_ids (idx @ [i]) = AList.update (node_ids ! i) i (index_map node_ids idx)"
  by (simp add: index_map_def)

lemma index_map_Nil [simp]: "index_map node_ids [] = []"
  by (simp add: index_map_def)

lemma index_map_Some: "map_of (index_map node_ids idx) k = Some i \<Longrightarrow> i \<in> set idx \<and> node_ids ! i = k"
  by (induction idx rule: rev_induct) (auto simp: update_conv' split: if_splits)

lemma index_map_dom: "i \<in> set idx \<Longrightarrow> map_of (index_map node_ids idx) (node_ids ! i) \<noteq> None"
  by (induction idx rule: rev_induct) (auto simp: update_conv')

lemma children_ok:
  assumes "length ts = length fs"
  obtains cs where "children m ts fs i = Inr cs" "length cs \<le> 2"
    "\<And>c. c \<in> set cs \<Longrightarrow> i < length ts \<and> (map_of m (ts ! i) = Some c \<or> map_of m (fs ! i) = Some c)"
    "\<And>c. i < length ts \<Longrightarrow> map_of m (ts ! i) = Some c \<Longrightarrow> c \<in> set cs"
proof (cases "i < length ts")
  case True
  let ?cs = "List.map_filter (map_of m) [ts ! i, fs ! i]"
  show thesis
    by (rule that [of ?cs]) (use assms True in \<open>auto simp: children_def List.map_filter_simps split: option.splits\<close>)
qed (use assms that [of "[]"] in \<open>simp add: children_def\<close>)

definition queue_weight :: "nat \<Rightarrow> (nat \<times> nat) list \<Rightarrow> nat" where
  "queue_weight n queue = sum_list (map (\<lambda>(i, d). 3 ^ (n - i)) queue)"

lemma queue_weight_children:
  assumes "length cs \<le> 2" "\<And>c. c \<in> set cs \<Longrightarrow> i < c \<and> c < n" "i < n"
  shows "queue_weight n (map (\<lambda>c. (c, d)) cs) < 3 ^ (n - i)"
proof -
  let ?k = "3 ^ (n - Suc i) :: nat"
  have le: "3 ^ (n - c) \<le> ?k" if "c \<in> set cs" for c
    using assms(2) [OF that] by (intro power_increasing) auto
  have "queue_weight n (map (\<lambda>c. (c, d)) cs) \<le> length cs * ?k"
    using le by (induction cs) (auto simp: queue_weight_def add_mono)
  also have "\<dots> \<le> 2 * ?k" using assms(1) by simp
  also have "\<dots> < 3 * ?k" by simp
  also have "\<dots> = 3 ^ (n - i)" using assms(3) by (metis Suc_diff_Suc power_Suc)
  finally show ?thesis .
qed

lemma bfs_depths_returns:
  assumes kids: "\<And>i. i \<in> I \<Longrightarrow> \<exists>cs. kids i = Inr cs \<and> length cs \<le> 2 \<and> (\<forall>c \<in> set cs. c \<in> I \<and> i < c)"
    and n: "\<And>i. i \<in> I \<Longrightarrow> i < n" and q: "fst ` set queue \<subseteq> I"
  shows "\<exists>ds. bfs_depths kids queue depths = Some (Inr ds) \<and> length ds = length depths"
  using q
proof (induction "queue_weight n queue" arbitrary: queue depths rule: less_induct)
  case less
  show ?case
  proof (cases queue)
    case Nil
    then show ?thesis by (simp add: bfs_depths.simps)
  next
    case (Cons p rest)
    obtain i d where p: "p = (i, d)" by force
    with less.prems Cons have i: "i \<in> I" by auto
    from kids [OF i] obtain cs where cs: "kids i = Inr cs" "length cs \<le> 2" "\<And>c. c \<in> set cs \<Longrightarrow> c \<in> I \<and> i < c"
      by blast
    let ?q = "rest @ map (\<lambda>c. (c, d + 1)) cs"
    have "queue_weight n (map (\<lambda>c. (c, d + 1)) cs) < 3 ^ (n - i)"
      by (rule queue_weight_children) (use cs n i in auto)
    then have "queue_weight n ?q < queue_weight n queue" using Cons p by (simp add: queue_weight_def)
    moreover have "fst ` set ?q \<subseteq> I" using less.prems Cons cs(3) by auto
    ultimately have "\<exists>ds. bfs_depths kids ?q (depths[i := d]) = Some (Inr ds) \<and> length ds = length (depths[i := d])"
      by (rule less.hyps)
    then show ?thesis using Cons p cs(1) by (simp add: bfs_depths.simps)
  qed
qed

lemma bfs_depths_diverges:
  assumes ret: "bfs_depths kids queue depths = Some r"
    and kids: "\<And>i. \<exists>cs. kids i = Inr cs \<and> (i \<in> S \<longrightarrow> set cs \<inter> S \<noteq> {})"
  shows "fst ` set queue \<inter> S = {}"
proof -
  have "(\<forall>i. \<exists>cs. kids i = Inr cs \<and> (i \<in> S \<longrightarrow> set cs \<inter> S \<noteq> {})) \<longrightarrow> fst ` set queue \<inter> S = {}"
    using ret
  proof (rule bfs_depths.raw_induct [rotated])
    fix f :: "(nat \<Rightarrow> nat list result) \<Rightarrow> (nat \<times> nat) list \<Rightarrow> nat list \<Rightarrow> nat list result option"
      and kids' :: "nat \<Rightarrow> nat list result" and queue' :: "(nat \<times> nat) list" and depths' r'
    assume IH: "\<And>k q d r. f k q d = Some r \<Longrightarrow>
        (\<forall>i. \<exists>cs. k i = Inr cs \<and> (i \<in> S \<longrightarrow> set cs \<inter> S \<noteq> {})) \<longrightarrow> fst ` set q \<inter> S = {}"
      and body: "(case queue' of [] \<Rightarrow> Some (ok depths') | (i, d) # rest \<Rightarrow>
          (case kids' i of Inl e \<Rightarrow> Some (raise e)
           | Inr cs \<Rightarrow> f kids' (rest @ map (\<lambda>c. (c, d + 1)) cs) (depths'[i := d]))) = Some r'"
    show "(\<forall>i. \<exists>cs. kids' i = Inr cs \<and> (i \<in> S \<longrightarrow> set cs \<inter> S \<noteq> {})) \<longrightarrow> fst ` set queue' \<inter> S = {}"
    proof
      assume k: "\<forall>i. \<exists>cs. kids' i = Inr cs \<and> (i \<in> S \<longrightarrow> set cs \<inter> S \<noteq> {})"
      show "fst ` set queue' \<inter> S = {}"
      proof (cases queue')
        case (Cons p rest)
        obtain i d where p: "p = (i, d)" by force
        from k obtain cs where cs: "kids' i = Inr cs" "i \<in> S \<longrightarrow> set cs \<inter> S \<noteq> {}" by blast
        with body Cons p have "f kids' (rest @ map (\<lambda>c. (c, d + 1)) cs) (depths'[i := d]) = Some r'" by simp
        from IH [OF this] k have "fst ` set (rest @ map (\<lambda>c. (c, d + 1)) cs) \<inter> S = {}" by blast
        then have "fst ` set rest \<inter> S = {}" "set cs \<inter> S = {}"
          by (auto simp: image_Un image_image)
        with cs Cons p show ?thesis by auto
      qed simp
    qed
  qed
  with kids show ?thesis by blast
qed

lemma bfs_depths_no_raise:
  assumes "bfs_depths kids queue depths = Some r" "\<And>i e. kids i \<noteq> Inl e"
  shows "r \<noteq> Inl e"
proof -
  have "(\<forall>i e. kids i \<noteq> Inl e) \<longrightarrow> r \<noteq> Inl e"
    using assms(1)
    by (rule bfs_depths.raw_induct [rotated]) (fastforce split: list.splits prod.splits sum.splits)
  with assms(2) show ?thesis by blast
qed

lemma tree_indices_set: "i \<in> set (tree_indices tree_ids t) \<longleftrightarrow> i < length tree_ids \<and> tree_ids ! i = t"
  by (auto simp: tree_indices_def)

lemma hd_tree_indices: "t \<in> set tree_ids \<Longrightarrow> hd (tree_indices tree_ids t) \<in> set (tree_indices tree_ids t)"
  by (rule hd_in_set) (auto simp: tree_indices_def filter_empty_conv in_set_conv_nth)

definition tree_node :: "int list \<Rightarrow> int list \<Rightarrow> int list \<Rightarrow> int list \<Rightarrow> node_proto \<Rightarrow> bool" where
  "tree_node tree_ids node_ids true_ids false_ids node \<longleftrightarrow>
     get_node_attr node ''nodes_truenodeids'' = Some (AInts true_ids) \<and>
     get_node_attr node ''nodes_falsenodeids'' = Some (AInts false_ids) \<and>
     length node_ids = length tree_ids \<and> length true_ids = length tree_ids \<and> length false_ids = length tree_ids"

lemma depths_of_trees_returns:
  assumes len: "length node_ids = length tree_ids" "length ts = length tree_ids" "length fs = length tree_ids"
    and fwd: "\<And>t i c. t \<in> set tree_ids \<Longrightarrow> i \<in> set (tree_indices tree_ids t) \<Longrightarrow>
       c \<in> set (tree_indices tree_ids t) \<Longrightarrow> node_ids ! c \<in> {ts ! i, fs ! i} \<Longrightarrow> i < c"
  shows "set sel \<subseteq> set tree_ids \<Longrightarrow>
    \<exists>ds'. depths_of_trees tree_ids node_ids ts fs sel ds = Some (Inr ds') \<and> length ds' = length ds"
proof (induction sel arbitrary: ds)
  case (Cons t sel)
  let ?idx = "tree_indices tree_ids t"
  let ?kids = "children (index_map node_ids ?idx) ts fs"
  have t: "t \<in> set tree_ids" using Cons.prems by simp
  have ex: "\<not> list_ex (\<lambda>i. length node_ids \<le> i) ?idx" using len by (auto simp: list_ex_iff tree_indices_set)
  have kids: "\<exists>cs. ?kids i = Inr cs \<and> length cs \<le> 2 \<and> (\<forall>c \<in> set cs. c \<in> set ?idx \<and> (i \<in> set ?idx \<longrightarrow> i < c))" for i
  proof -
    obtain cs where cs: "?kids i = Inr cs" "length cs \<le> 2"
      "\<And>c. c \<in> set cs \<Longrightarrow> i < length ts \<and>
         (map_of (index_map node_ids ?idx) (ts ! i) = Some c \<or> map_of (index_map node_ids ?idx) (fs ! i) = Some c)"
      by (rule children_ok [of ts fs "index_map node_ids ?idx" i]) (use len in auto)
    have "c \<in> set ?idx \<and> (i \<in> set ?idx \<longrightarrow> i < c)" if "c \<in> set cs" for c
      using cs(3) [OF that] index_map_Some [of node_ids ?idx _ c] fwd [OF t, of i c] by blast
    with cs show ?thesis by blast
  qed
  have "\<exists>ds1. bfs_depths ?kids [(hd ?idx, 0)] ds = Some (Inr ds1) \<and> length ds1 = length ds"
  proof (rule bfs_depths_returns [of "set ?idx" _ "length tree_ids"])
    show "\<exists>cs. ?kids i = Inr cs \<and> length cs \<le> 2 \<and> (\<forall>c \<in> set cs. c \<in> set ?idx \<and> i < c)" if "i \<in> set ?idx" for i
      using kids [of i] that by blast
  qed (use hd_tree_indices [OF t] in \<open>auto simp: tree_indices_set\<close>)
  then obtain ds1 where "bfs_depths ?kids [(hd ?idx, 0)] ds = Some (Inr ds1)" "length ds1 = length ds" by blast
  with Cons.IH [of ds1] Cons.prems ex show ?case by (auto simp: Let_def)
qed simp

lemma depths_of_trees_diverges:
  assumes len: "length node_ids = length tree_ids" "length ts = length tree_ids" "length fs = length tree_ids"
    and t: "t \<in> set sel" "t \<in> set tree_ids"
    and cyc: "\<And>i. i \<in> set (tree_indices tree_ids t) \<Longrightarrow> ts ! i \<in> (!) node_ids ` set (tree_indices tree_ids t)"
  shows "depths_of_trees tree_ids node_ids ts fs sel ds = None"
  using t(1)
proof (induction sel arbitrary: ds)
  case (Cons u sel)
  let ?idx = "\<lambda>u. tree_indices tree_ids u" and ?kids = "\<lambda>u. children (index_map node_ids (tree_indices tree_ids u)) ts fs"
  have ex: "\<not> list_ex (\<lambda>i. length node_ids \<le> i) (?idx u)" using len by (auto simp: list_ex_iff tree_indices_set)
  have nr: "?kids u i \<noteq> Inl e" for u i e 
    by (rule children_ok [of ts fs "index_map node_ids (tree_indices tree_ids u)" i]) (use len in auto)
  have nraise: "bfs_depths (?kids u) q d \<noteq> Some (Inl e)" for q d e
    using bfs_depths_no_raise [of "?kids u" q d "Inl e"] nr by blast
  show ?case
  proof (cases "u = t")
    case True
    have "bfs_depths (?kids t) [(hd (?idx t), 0)] ds \<noteq> Some r" for r
    proof
      assume "bfs_depths (?kids t) [(hd (?idx t), 0)] ds = Some r"
      then have "fst ` set [(hd (?idx t), 0::nat)] \<inter> set (?idx t) = {}"
      proof (rule bfs_depths_diverges)
        fix i
        obtain cs where cs: "?kids t i = Inr cs"
          "\<And>c. i < length ts \<Longrightarrow> map_of (index_map node_ids (?idx t)) (ts ! i) = Some c \<Longrightarrow> c \<in> set cs"
          by (rule children_ok [of ts fs "index_map node_ids (?idx t)" i]) (use len in auto)
        have "set cs \<inter> set (?idx t) \<noteq> {}" if i: "i \<in> set (?idx t)"
        proof -
          from cyc [OF i] obtain j where "j \<in> set (?idx t)" "ts ! i = node_ids ! j" by auto
          with index_map_dom [of j "?idx t" node_ids] obtain c where
            c: "map_of (index_map node_ids (?idx t)) (ts ! i) = Some c" by auto
          with cs(2) i len index_map_Some [OF c] show ?thesis by (auto simp: tree_indices_set)
        qed
        with cs(1) show "\<exists>cs. ?kids t i = Inr cs \<and> (i \<in> set (?idx t) \<longrightarrow> set cs \<inter> set (?idx t) \<noteq> {})" by blast
      qed
      with hd_tree_indices [OF t(2)] show False by simp
    qed
    then have "bfs_depths (?kids t) [(hd (?idx t), 0)] ds = None" by blast
    with ex True show ?thesis by (simp add: Let_def)
  next
    case False
    with Cons have "depths_of_trees tree_ids node_ids ts fs sel d = None" for d by simp
    with ex nraise show ?thesis by (auto simp: Let_def split: option.split sum.split)
  qed
qed simp

text \<open>The search for node depths returns, with one depth per node, when every tree lists a
  child after its parent (the search has no set of visited nodes, so some such order is needed).\<close>

theorem depth_search_returns:
  assumes "tree_node tree_ids node_ids ts fs node"
    and "\<forall>i < length tree_ids. \<forall>c < length tree_ids. tree_ids ! c = tree_ids ! i \<longrightarrow>
       node_ids ! c \<in> {ts ! i, fs ! i} \<longrightarrow> i < c"
  shows "\<exists>ds. compute_node_depths tree_ids node_ids node = Some (Inr ds) \<and> length ds = length tree_ids"
  using depths_of_trees_returns [of node_ids tree_ids ts fs "remdups tree_ids" "replicate (length tree_ids) 0"] assms
  by (simp add: tree_node_def compute_node_depths_def ints_of_def tree_indices_set)

text \<open>When every node of some tree names an existing node as its true child, the search does
  not return.  Exporters that write 0 as the child of a leaf, and 0 as the root's id, produce
  such trees, so depth limiting hangs on them.\<close>

theorem depth_search_diverges:
  assumes "tree_node tree_ids node_ids ts fs node" and "t \<in> set tree_ids"
    and "\<forall>i < length tree_ids. tree_ids ! i = t \<longrightarrow>
       (\<exists>j < length tree_ids. tree_ids ! j = t \<and> node_ids ! j = ts ! i)"
  shows "compute_node_depths tree_ids node_ids node = None"
proof -
  have "ts ! i \<in> (!) node_ids ` set (tree_indices tree_ids t)" if "i \<in> set (tree_indices tree_ids t)" for i
    using that assms(3) unfolding tree_indices_set by (metis image_eqI tree_indices_set)
  then show ?thesis
    using depths_of_trees_diverges [of node_ids tree_ids ts fs t "remdups tree_ids"] assms(1,2)
    by (simp add: tree_node_def compute_node_depths_def ints_of_def)
qed

definition tree_with :: "int list \<Rightarrow> int list \<Rightarrow> node_proto" where
  "tree_with ts fs = make_node ''TreeEnsembleRegressor'' [] [] ''t''
     [(''nodes_truenodeids'', AInts ts), (''nodes_falsenodeids'', AInts fs)]"

theorem depth_search_returns_witness:
  "\<exists>ds. compute_node_depths [0, 0, 0] [0, 1, 2] (tree_with [1, -1, -1] [2, -1, -1]) = Some (Inr ds) \<and> length ds = 3"
  using depth_search_returns [of "[0, 0, 0]" "[0, 1, 2]" "[1, -1, -1]" "[2, -1, -1]" "tree_with [1, -1, -1] [2, -1, -1]"]
  by (simp add: tree_node_def tree_with_def make_node_def get_node_attr_def numeral_3_eq_3 All_less_Suc)

theorem depth_search_diverges_witness:
  "compute_node_depths [0, 0, 0] [0, 1, 2] (tree_with [1, 0, 0] [2, 0, 0]) = None"
  by (rule depth_search_diverges [of _ _ "[1, 0, 0]" "[2, 0, 0]" _ 0])
    (simp_all add: tree_node_def tree_with_def make_node_def get_node_attr_def numeral_3_eq_3 All_less_Suc Ex_less_Suc)

section \<open>Stored bytes\<close>

definition plain_tensor :: "tensor_proto \<Rightarrow> bool" where
  "plain_tensor t \<longleftrightarrow> t_raw t \<in> {None, Some (nbytes t)} \<and> (t_float32 t \<longrightarrow> t_itemsize t = 4) \<and>
     (t_float32 t \<and> length (t_shape t) = 4 \<longrightarrow> 2 \<le> inner_size (t_shape t))"

definition plain_graph :: "graph \<Rightarrow> bool" where
  "plain_graph g \<longleftrightarrow> (\<forall>t \<in> set (g_inits g). plain_tensor t)"

lemma initializer_bytes_plain: "plain_graph g \<Longrightarrow> initializer_bytes g = sum_list (map nbytes (g_inits g))"
  unfolding initializer_bytes_def plain_graph_def
  by (rule arg_cong [of _ _ sum_list]) (auto simp: plain_tensor_def)

lemma sum_del_first:
  "find p rs = Some r \<Longrightarrow> sum_list (map f (del_first p rs)) + f r = (sum_list (map f rs) :: nat)"
  by (induction rs) (auto split: if_splits)

lemma replace_bytes:
  assumes "find_initializer g nm = Some t" "plain_graph g" "\<forall>s \<in> set new. plain_tensor s"
    "sum_list (map nbytes new) \<le> nbytes t"
    "g_inits h = g_inits (remove_initializer nm g) @ new"
  shows "plain_graph h \<and> initializer_bytes h \<le> initializer_bytes g"
proof
  have "set (g_inits h) \<subseteq> set (g_inits g) \<union> set new"
    unfolding assms(5) remove_initializer_def using set_del_first by fastforce
  with assms(2,3) show p: "plain_graph h" unfolding plain_graph_def by blast
  have "sum_list (map nbytes (del_first (\<lambda>i. t_name i = nm) (g_inits g))) + nbytes t = sum_list (map nbytes (g_inits g))"
    using assms(1) unfolding find_initializer_def by (rule sum_del_first)
  with p assms show "initializer_bytes h \<le> initializer_bytes g"
    by (simp add: initializer_bytes_plain remove_initializer_def)
qed

lemma nbytes_from_array [simp]: "nbytes (from_array nm k fl sh xs) = prod_list sh * k"
  by (simp add: nbytes_def tensor_size_def from_array_def)

lemma plain_from_array: "\<not> fl \<or> (k = 4 \<and> length sh \<noteq> 4) \<Longrightarrow> plain_tensor (from_array nm k fl sh xs)"
  by (auto simp: plain_tensor_def from_array_def nbytes_def tensor_size_def)

lemma find_initializer_name: "find_initializer g nm = Some t \<Longrightarrow> t_name t = nm \<and> t \<in> set (g_inits g)"
  by (auto simp: find_initializer_def dest: find_in_set)

lemma store_fp16_bytes:
  assumes "find_initializer g nm = Some t" "plain_graph g" "t_float32 t"
  shows "plain_graph (store_fp16 np t g) \<and> initializer_bytes (store_fp16 np t g) \<le> initializer_bytes g"
proof (rule replace_bytes [OF assms(1,2)])
  have "t_itemsize t = 4" using assms find_initializer_name unfolding plain_graph_def plain_tensor_def by blast
  then have "nbytes t = prod_list (t_shape t) * 4" by (simp add: nbytes_def tensor_size_def)
  then show "sum_list (map nbytes [from_array (unique_name g (t_name t @ ''_fp16'')) 2 False (t_shape t)
      (map (np_fp16 np) (t_data t))]) \<le> nbytes t"
    by simp
qed (use find_initializer_name [OF assms(1)] in \<open>auto simp: store_fp16_def Let_def plain_from_array\<close>)

lemma store_int8_bytes:
  assumes f: "find_initializer g nm = Some t" "plain_graph g" "t_float32 t" and n: "MIN_QUANT_BYTES \<le> nbytes t"
  shows "plain_graph (store_int8 np un target node t g) \<and>
    initializer_bytes (store_int8 np un target node t g) \<le> initializer_bytes g"
proof (cases "un \<or> model_opset g < 10")
  case True
  then show ?thesis using store_fp16_bytes [OF f] by (simp add: store_int8_def)
next
  case False
  let ?pc = "per_channel g node t" and ?q = "if target = ''INT8'' then 127 else (7::real)"
  let ?sh = "if ?pc then [hd (t_shape t)] else []"
  have pt: "plain_tensor t" "t_itemsize t = 4"
    using f find_initializer_name unfolding plain_graph_def plain_tensor_def by blast+
  have small: "prod_list (t_shape t) + 5 * prod_list ?sh \<le> nbytes t"
  proof (cases ?pc)
    case True
    then have l: "length (t_shape t) = 4" by (simp add: per_channel_def)
    then have "prod_list (t_shape t) = hd (t_shape t) * inner_size (t_shape t)"
      by (cases "t_shape t") (auto simp: inner_size_def)
    moreover have "hd (t_shape t) * 2 \<le> hd (t_shape t) * inner_size (t_shape t)"
      using pt(1) f(3) l by (simp add: plain_tensor_def)
    ultimately show ?thesis using True pt(2) by (auto simp: nbytes_def tensor_size_def)
  next
    case False
    then show ?thesis using n pt(2) by (simp add: nbytes_def tensor_size_def MIN_QUANT_BYTES_def)
  qed
  show ?thesis
  proof (rule replace_bytes [OF f(1,2)])
    let ?new = "[from_array (unique_name g (t_name t @ ''_q'')) 1 False (t_shape t) (quant_data ?q ?pc t),
      from_array (unique_name g (t_name t @ ''_scale'')) 4 True ?sh (quant_scales ?q ?pc t),
      from_array (unique_name g (t_name t @ ''_zp'')) 1 False ?sh (map (\<lambda>_. 0) (quant_scales ?q ?pc t))]"
    show "\<forall>s \<in> set ?new. plain_tensor s" by (auto intro: plain_from_array)
    show "sum_list (map nbytes ?new) \<le> nbytes t" using small by simp
    show "g_inits (store_int8 np un target node t g) = g_inits (remove_initializer nm g) @ ?new"
      unfolding store_int8_def if_not_P [OF False] Let_def using find_initializer_name [OF f(1)] by simp
  qed
qed

lemma quantize_input_bytes:
  assumes "plain_graph (snd st)"
  shows "plain_graph (snd (quantize_input np un target node inp st)) \<and>
    initializer_bytes (snd (quantize_input np un target node inp st)) \<le> initializer_bytes (snd st)"
  using assms store_fp16_bytes store_int8_bytes
  by (auto simp: quantize_input_def Let_def not_less split: option.splits)

lemma fold_quantize_input_bytes:
  "plain_graph (snd st) \<Longrightarrow> plain_graph (snd (fold (quantize_input np un target node) ins st)) \<and>
     initializer_bytes (snd (fold (quantize_input np un target node) ins st)) \<le> initializer_bytes (snd st)"
proof (induction ins arbitrary: st)
  case (Cons i ins)
  note q = quantize_input_bytes [OF Cons.prems, of np un target node i]
  from Cons.IH [OF conjunct1 [OF q]] q show ?case by force
qed simp

text \<open>Weight quantization never makes the initializers larger: on a graph whose float32
  tensors are stored plainly, and whose convolution kernels have at least two values per output
  channel, the bytes after the pass are at most the bytes before.\<close>

theorem weight_quantization_shrinks:
  assumes "plain_graph (snd st)"
  shows "initializer_bytes (snd (apply_weight_quantization np un a st)) \<le> initializer_bytes (snd st)"
  using assms fold_quantize_input_bytes
  by (auto simp: apply_weight_quantization_def Let_def split: option.splits)

definition demo_np :: numpy_ops where
  "demo_np = \<lparr>np_fp16 = (\<lambda>x. x), np_argsort = (\<lambda>xs. map snd (sort_key fst (zip xs [0..<length xs]))),
     np_svd = (\<lambda>m. (m, [], []))\<rparr>"

definition one_weight :: graph where
  "one_weight = \<lparr>g_nodes = [make_node ''Gemm'' [''x'', ''w''] [''y''] ''fc'' []],
     g_inits = [from_array ''w'' 4 True [300, 2] (replicate 600 1)],
     g_inputs = [], g_outputs = [], g_value_info = [], g_opset_import = [('''', 13)]\<rparr>"

theorem weight_quantization_shrinks_witness:
  "initializer_bytes (snd (apply_weight_quantization demo_np False
     (mk_action (demo_op DENSE_COMPUTE) ''quantization'' [(''target_dtype'', PStr ''INT8'')]) ([], one_weight))) \<le> 2400"
  by (rule order_trans [OF weight_quantization_shrinks])
    (simp_all add: one_weight_def plain_graph_def plain_tensor_def from_array_def nbytes_def tensor_size_def
      initializer_bytes_def)

section \<open>Actions without a handler\<close>

definition handled_types :: "string list" where
  "handled_types =
     [''quantization'', ''param_quantization'', ''embedding_quantization'', ''channel_pruning'', ''low_rank_svd'',
      ''bn_fusion'', ''coefficient_quantization'', ''leaf_quantization'', ''tree_pruning'', ''leaf_merging'',
      ''depth_limiting'', ''feature_pruning'', ''support_vector_pruning'']"

lemma apply_action_unhandled: "ca_action_type a \<notin> set handled_types \<Longrightarrow> apply_action np un a st = Some (ok st)"
  by (simp add: apply_action_def Let_def handled_types_def)

lemma run_actions_unhandled:
  "\<forall>a \<in> set as. ca_action_type a \<notin> set handled_types \<Longrightarrow> run_actions np un as st = Some (ok st)"
  by (induction as) (auto simp: apply_action_unhandled)

lemma set_ordered_actions [simp]: "set (ordered_actions as) = set as"
  by (simp add: ordered_actions_def)

text \<open>The precision of an SVM operator has no effect: the translator emits
  \<open>sv_coefficient_quantization\<close>, for which the transformer has no handler, so a configuration that
  only lowers the precision returns the model as it came, up to shape inference.\<close>

theorem svm_precision_is_ignored:
  assumes "op_category op = SVM" "cc_prune_ratio c \<le> 0"
  shows "apply_actions ox np g (translate op c) =
    Some (ok (case ox_infer_shapes ox g of Some h \<Rightarrow> h | None \<Rightarrow> g))"
proof -
  have h: "\<forall>a \<in> set (translate op c). ca_action_type a \<notin> set handled_types"
    using assms by (auto simp: translate_def translate_svm_def when_act_def mk_action_def handled_types_def)
  have "\<not> wants_int8 (translate op c)"
    using h by (auto simp: wants_int8_def list_ex_iff handled_types_def)
  then show ?thesis
    using run_actions_unhandled [of "ordered_actions (translate op c)" np False "([], g)"] h
    by (simp add: apply_actions_def)
qed

theorem svm_precision_is_ignored_witness:
  "translate (demo_op SVM) (default_config\<lparr>cc_precision := FP16\<rparr>) \<noteq> [] \<and>
   apply_actions \<lparr>ox_convert_version = \<lambda>g v. None, ox_infer_shapes = \<lambda>g. None\<rparr> demo_np one_weight
     (translate (demo_op SVM) (default_config\<lparr>cc_precision := FP16\<rparr>)) = Some (ok one_weight)"
proof
  show "translate (demo_op SVM) (default_config\<lparr>cc_precision := FP16\<rparr>) \<noteq> []"
    by (simp add: translate_def translate_svm_def default_config_def is_no_compression_def when_act_def demo_op_def)
  have "op_category (demo_op SVM) = SVM" "cc_prune_ratio (default_config\<lparr>cc_precision := FP16\<rparr>) \<le> 0"
    by (simp_all add: demo_op_def default_config_def)
  from svm_precision_is_ignored [OF this]
  show "apply_actions \<lparr>ox_convert_version = \<lambda>g v. None, ox_infer_shapes = \<lambda>g. None\<rparr> demo_np one_weight
     (translate (demo_op SVM) (default_config\<lparr>cc_precision := FP16\<rparr>)) = Some (ok one_weight)" by simp
qed

end
