(* ===== verification/Guarantee.thy ===== *)
theory Guarantee
  imports Onnx_Transformer Uosa Validation
begin

text \<open>
  The guarantee ladder of \<open>astra/core/guarantee.py\<close>: candidates are built rung by rung from
  the most aggressive one, gated on output fidelity and size, and the first that passes is
  returned, else the original.  The quantizers of onnxruntime, the isolated float16 process, the
  probe generator and the serialized size are the fields of \<open>env\<close>.  The lemmas show what a
  returned model satisfies, that the loop always returns, and that a NaN fidelity passes the gate.
\<close>

section \<open>Rungs and results\<close>

definition RUNG_INT8_UNIFORM :: string where "RUNG_INT8_UNIFORM = ''INT8_uniform''"
definition RUNG_INT8_UOSA :: string where "RUNG_INT8_UOSA = ''INT8_uosa_mixed''"
definition RUNG_W8 :: string where "RUNG_W8 = ''W8_weight_only''"
definition RUNG_FP16 :: string where "RUNG_FP16 = ''FP16''"
definition RUNG_ORIGINAL :: string where "RUNG_ORIGINAL = ''ORIGINAL''"

lemmas rung_defs = RUNG_INT8_UNIFORM_def RUNG_INT8_UOSA_def RUNG_W8_def RUNG_FP16_def RUNG_ORIGINAL_def

definition LADDERS :: "(string \<times> string list) list" where
  "LADDERS =
     [(''v1'', [RUNG_INT8_UNIFORM, RUNG_INT8_UOSA, RUNG_FP16, RUNG_ORIGINAL]),
      (''v2'', [RUNG_INT8_UNIFORM, RUNG_INT8_UOSA, RUNG_W8, RUNG_FP16, RUNG_ORIGINAL])]"

datatype ladder = Named string | Rungs "string list"

text \<open>The \<open>reason\<close> text of a report, by its cases.\<close>

datatype reason = BuildError py_error | NotApplicable | BelowTau py_float real | NoReduction real | Accepted | Fallback

record rung_report =
  rr_rung :: string
  rr_attempted :: bool
  rr_accepted :: bool
  rr_reason :: reason
  rr_fidelity :: "py_float option"
  rr_quality :: "py_float option"
  rr_size :: "nat option"
  rr_ratio :: "real option"

record guarantee_result =
  gr_model :: graph
  gr_rung :: string
  gr_fidelity :: py_float
  gr_ratio :: real
  gr_tau :: real
  gr_n_probes_gate :: nat
  gr_seed :: int
  gr_reports :: "rung_report list"

definition is_compressed :: "guarantee_result \<Rightarrow> bool" where
  "is_compressed r \<longleftrightarrow> gr_rung r \<noteq> RUNG_ORIGINAL"

section \<open>What the ladder calls\<close>

datatype child = TimedOut | Exited int "graph option"

record 'r env =
  ge_ort :: ort
  ge_np :: numpy_ops
  ge_ox :: onnx_lib
  ge_pre_process :: "graph \<Rightarrow> graph option"
  ge_quantize_dynamic :: "graph \<Rightarrow> string set \<Rightarrow> graph result"
  ge_fp16_child :: "graph \<Rightarrow> child"
  ge_generate :: "nat \<Rightarrow> int \<Rightarrow> graph \<Rightarrow> (string \<times> int list) list \<Rightarrow> feed list result"
  ge_byte_size :: "graph \<Rightarrow> nat"
  ge_normal :: "'r normal"
  ge_rng :: "int \<Rightarrow> 'r"

definition quantize_int8_real :: "'r env \<Rightarrow> graph \<Rightarrow> string set \<Rightarrow> graph result" where
  "quantize_int8_real e g exclude =
     ge_quantize_dynamic e (case ge_pre_process e g of Some h \<Rightarrow> h | None \<Rightarrow> g) exclude"

definition convert_fp16_real :: "'r env \<Rightarrow> graph \<Rightarrow> graph result" where
  "convert_fp16_real e g =
     (case ge_fp16_child e g of
        TimedOut \<Rightarrow> raise (RuntimeError ''FP16 conversion timed out in isolated subprocess'')
      | Exited code out \<Rightarrow>
          if code \<noteq> 0 then raise (RuntimeError ''FP16 conversion crashed in isolated subprocess'')
          else (case out of None \<Rightarrow> raise (RuntimeError ''FP16 conversion produced no output'')
                | Some h \<Rightarrow> ok h))"

definition STANDARD_CATEGORIES :: "operator_category list" where
  "STANDARD_CATEGORIES = [DENSE_COMPUTE, NORMALIZATION, EMBEDDING]"

definition ML_CATEGORIES :: "operator_category list" where
  "ML_CATEGORIES = [TREE_ENSEMBLE, LINEAR_MODEL, SVM]"

definition ml_native_actions :: "graph_info \<Rightarrow> string set \<Rightarrow> precision_level \<Rightarrow> concrete_action list" where
  "ml_native_actions gi protected p =
     concat (map (\<lambda>op. translate op (default_config\<lparr>cc_precision := p\<rparr>))
       (filter (\<lambda>op. op_category op \<in> set ML_CATEGORIES \<and> op_name op \<notin> protected) (compressible_operators gi)))"

definition quantize_ml_native ::
  "'r env \<Rightarrow> graph \<Rightarrow> graph_info \<Rightarrow> string set \<Rightarrow> precision_level \<Rightarrow> graph result option" where
  "quantize_ml_native e g gi protected p =
     (let actions = ml_native_actions gi protected p in
      if actions = [] then Some (ok g) else apply_actions (ge_ox e) (ge_np e) g actions)"

definition w8_actions :: "graph_info \<Rightarrow> concrete_action list" where
  "w8_actions gi =
     concat (map (\<lambda>op. translate op (default_config\<lparr>cc_precision := INT8\<rparr>))
       (filter (\<lambda>op. op_category op \<in> {DENSE_COMPUTE, EMBEDDING}) (compressible_operators gi)))"

text \<open>A candidate: \<open>None\<close> is not returning, \<open>Some (Inr None)\<close> a rung that does not apply.\<close>

definition applicable :: "graph result option \<Rightarrow> graph option result option" where
  "applicable r = map_option (\<lambda>x. bind_result x (\<lambda>g. ok (Some g))) r"

definition quantize_w8_weight_only :: "'r env \<Rightarrow> graph \<Rightarrow> graph_info \<Rightarrow> graph option result option" where
  "quantize_w8_weight_only e g gi =
     (if w8_actions gi = [] then Some (ok None)
      else applicable (apply_actions (ge_ox e) (ge_np e) g (w8_actions gi)))"

definition int8_candidate ::
  "'r env \<Rightarrow> graph \<Rightarrow> graph_info \<Rightarrow> bool \<Rightarrow> bool \<Rightarrow> string set \<Rightarrow> graph option result option" where
  "int8_candidate e g gi has_standard has_ml protected =
     (case (if has_standard then quantize_int8_real e g protected else ok g) of
        Inl err \<Rightarrow> Some (raise err)
      | Inr h \<Rightarrow> if has_ml then applicable (quantize_ml_native e h gi protected INT8) else Some (ok (Some h)))"

definition build_candidate ::
  "'r env \<Rightarrow> string \<Rightarrow> graph \<Rightarrow> graph_info \<Rightarrow> sensitivity_profile \<Rightarrow> real \<Rightarrow> graph option result option" where
  "build_candidate e rung g gi profile top_p =
     (let has_standard = list_ex (\<lambda>op. op_category op \<in> set STANDARD_CATEGORIES) (compressible_operators gi);
          has_ml = list_ex (\<lambda>op. op_category op \<in> set ML_CATEGORIES) (compressible_operators gi)
      in if \<not> has_standard \<and> \<not> has_ml then Some (ok None)
         else if rung = RUNG_INT8_UNIFORM then int8_candidate e g gi has_standard has_ml {}
         else if rung = RUNG_INT8_UOSA then
           (if sp_results profile = [] then Some (ok None)
            else int8_candidate e g gi has_standard has_ml (get_protection_set profile top_p))
         else if rung = RUNG_W8 then
           (if \<not> has_standard then Some (ok None) else quantize_w8_weight_only e g gi)
         else if rung = RUNG_FP16 then
           (if has_standard then applicable (Some (convert_fp16_real e g))
            else applicable (quantize_ml_native e g gi {} FP16))
         else Some (raise (ValueError ''unknown rung'')))"

section \<open>Gate\<close>

fun gate_draws :: "'r env \<Rightarrow> graph \<Rightarrow> (string \<times> int list) list \<Rightarrow> nat \<Rightarrow> int \<Rightarrow> nat list \<Rightarrow> feed list result" where
  "gate_draws e g spec n_probes seed [] = ok []"
| "gate_draws e g spec n_probes seed (i # is) =
     bind_result (ge_generate e n_probes (seed + 7919 * (int i + 1)) g spec) (\<lambda>ps.
     bind_result (gate_draws e g spec n_probes seed is) (\<lambda>rest. ok (ps @ rest)))"

definition build_gate_probes ::
  "'r env \<Rightarrow> graph \<Rightarrow> (string \<times> int list) list \<Rightarrow> nat \<Rightarrow> int \<Rightarrow> int \<Rightarrow> feed list result" where
  "build_gate_probes e g spec n_probes seed n_gate_draws =
     gate_draws e g spec n_probes seed [0..<nat (max 1 n_gate_draws)]"

definition gate_check :: "ort \<Rightarrow> graph \<Rightarrow> graph \<Rightarrow> feed list \<Rightarrow> py_float \<times> py_float" where
  "gate_check ort original candidate gate_probes =
     (case validate default_weights ort original candidate gate_probes of
        Inr vr \<Rightarrow> (vr_output_fidelity vr, vr_quality vr)
      | Inl _ \<Rightarrow> (Fin 0, Fin 0))"

section \<open>The ladder\<close>

definition size_ratio :: "nat \<Rightarrow> nat \<Rightarrow> real" where
  "size_ratio cand orig = (if orig > 0 then of_nat cand / of_nat orig else 1)"

definition gate_reason :: "py_float \<Rightarrow> real \<Rightarrow> nat \<Rightarrow> nat \<Rightarrow> reason" where
  "gate_reason ofs tau cand_size orig_size =
     (if pf_lt ofs (Fin tau) then BelowTau ofs tau
      else if cand_size \<ge> orig_size then NoReduction (size_ratio cand_size orig_size)
      else Accepted)"

text \<open>One rung: the report, and the candidate when it is accepted.\<close>

definition try_rung ::
  "'r env \<Rightarrow> graph \<Rightarrow> graph_info \<Rightarrow> sensitivity_profile \<Rightarrow> real \<Rightarrow> real \<Rightarrow> feed list \<Rightarrow> string
     \<Rightarrow> (rung_report \<times> (graph \<times> py_float \<times> real) option) option" where
  "try_rung e g gi profile top_p tau gate_probes rung =
     (let rep = \<lparr>rr_rung = rung, rr_attempted = True, rr_accepted = False, rr_reason = NotApplicable,
                 rr_fidelity = None, rr_quality = None, rr_size = None, rr_ratio = None\<rparr>
      in case build_candidate e rung g gi profile top_p of
          None \<Rightarrow> None
        | Some (Inl err) \<Rightarrow> Some (rep\<lparr>rr_reason := BuildError err\<rparr>, None)
        | Some (Inr None) \<Rightarrow> Some (rep\<lparr>rr_attempted := False\<rparr>, None)
        | Some (Inr (Some c)) \<Rightarrow>
            let (ofs, quality) = gate_check (ge_ort e) g c gate_probes;
                ratio = size_ratio (ge_byte_size e c) (ge_byte_size e g);
                why = gate_reason ofs tau (ge_byte_size e c) (ge_byte_size e g)
            in Some (rep\<lparr>rr_accepted := (why = Accepted), rr_reason := why, rr_fidelity := Some ofs,
                         rr_quality := Some quality, rr_size := Some (ge_byte_size e c), rr_ratio := Some ratio\<rparr>,
                     if why = Accepted then Some (c, ofs, ratio) else None))"

fun climb ::
  "'r env \<Rightarrow> graph \<Rightarrow> graph_info \<Rightarrow> sensitivity_profile \<Rightarrow> real \<Rightarrow> real \<Rightarrow> feed list \<Rightarrow> int
     \<Rightarrow> string list \<Rightarrow> rung_report list \<Rightarrow> guarantee_result option" where
  "climb e g gi profile top_p tau gate_probes seed [] reports =
     Some \<lparr>gr_model = g, gr_rung = RUNG_ORIGINAL, gr_fidelity = Fin 1, gr_ratio = 1, gr_tau = tau,
           gr_n_probes_gate = length gate_probes, gr_seed = seed,
           gr_reports = reports @ [\<lparr>rr_rung = RUNG_ORIGINAL, rr_attempted = True, rr_accepted = True,
             rr_reason = Fallback, rr_fidelity = Some (Fin 1), rr_quality = Some (Fin 1),
             rr_size = Some (ge_byte_size e g), rr_ratio = Some 1\<rparr>]\<rparr>"
| "climb e g gi profile top_p tau gate_probes seed (rung # rungs) reports =
     (case try_rung e g gi profile top_p tau gate_probes rung of
        None \<Rightarrow> None
      | Some (rep, Some (c, ofs, ratio)) \<Rightarrow>
          Some \<lparr>gr_model = c, gr_rung = rung, gr_fidelity = ofs, gr_ratio = ratio, gr_tau = tau,
                gr_n_probes_gate = length gate_probes, gr_seed = seed, gr_reports = reports @ [rep]\<rparr>
      | Some (rep, None) \<Rightarrow>
          climb e g gi profile top_p tau gate_probes seed rungs (reports @ [rep]))"

definition extract_input_spec :: "graph \<Rightarrow> (string \<times> int list) list" where
  "extract_input_spec g =
     dict_of (map (\<lambda>v. (vi_name v, map (\<lambda>d. case d of DimValue n \<Rightarrow> if n > 0 then n else 1 | DimParam _ \<Rightarrow> 1)
                                      (case vi_shape v of None \<Rightarrow> [] | Some ds \<Rightarrow> ds)))
       (filter (\<lambda>v. vi_name v \<notin> t_name ` set (g_inits g)) (g_inputs g)))"

definition ladder_rungs :: "ladder \<Rightarrow> string list result" where
  "ladder_rungs l =
     bind_result (case l of Rungs rs \<Rightarrow> ok rs
         | Named n \<Rightarrow> (case map_of LADDERS n of None \<Rightarrow> raise KeyError | Some rs \<Rightarrow> ok rs))
       (\<lambda>rs. if rs = [] then raise IndexError
             else ok (if last rs \<noteq> RUNG_ORIGINAL then rs @ [RUNG_ORIGINAL] else rs))"

definition default_profile ::
  "'r env \<Rightarrow> graph \<Rightarrow> graph_info \<Rightarrow> (string \<times> int list) list \<Rightarrow> nat \<Rightarrow> int \<Rightarrow> sensitivity_profile result" where
  "default_profile e g gi spec n_probes seed =
     bind_result (ge_generate e n_probes seed g spec)
       (\<lambda>probes. uosa_analyze (ge_ort e) (ge_normal e) 0.01 g gi probes (ge_rng e seed))"

definition guarantee_compress ::
  "'r env \<Rightarrow> graph \<Rightarrow> real \<Rightarrow> nat \<Rightarrow> int \<Rightarrow> real \<Rightarrow> int \<Rightarrow> graph_info option \<Rightarrow> sensitivity_profile option
     \<Rightarrow> ladder \<Rightarrow> feed list option \<Rightarrow> guarantee_result result option" where
  "guarantee_compress e g tau n_probes seed top_p n_gate_draws gi_opt profile_opt l probes_opt =
     (let spec = extract_input_spec g;
          setup =
            bind_result (case gi_opt of Some gi \<Rightarrow> ok gi | None \<Rightarrow> analyze (ox_infer_shapes (ge_ox e)) g) (\<lambda>gi.
            bind_result (ladder_rungs l) (\<lambda>rungs.
            bind_result (case profile_opt of Some p \<Rightarrow> ok p | None \<Rightarrow> default_profile e g gi spec n_probes seed) (\<lambda>profile.
            bind_result (case probes_opt of Some ps \<Rightarrow> ok ps
                         | None \<Rightarrow> build_gate_probes e g spec n_probes seed n_gate_draws) (\<lambda>probes.
              ok (gi, rungs, profile, probes)))))
      in case setup of
          Inl err \<Rightarrow> Some (raise err)
        | Inr (gi, rungs, profile, probes) \<Rightarrow>
            map_option Inr (climb e g gi profile top_p tau probes seed (butlast rungs) []))"

section \<open>The loop always returns\<close>

lemma apply_action_returns: "ca_action_type a \<noteq> ''depth_limiting'' \<Longrightarrow> apply_action np un a st \<noteq> None"
  by (simp add: apply_action_def Let_def on_graph_def)

lemma run_actions_returns:
  "\<forall>a \<in> set as. ca_action_type a \<noteq> ''depth_limiting'' \<Longrightarrow> run_actions np un as st \<noteq> None"
proof (induction as arbitrary: st)
  case (Cons a as)
  then show ?case using apply_action_returns [of a np un st]
    by (auto split: option.splits sum.splits)
qed simp

lemma apply_actions_returns:
  assumes "\<forall>a \<in> set as. ca_action_type a \<noteq> ''depth_limiting''"
  shows "apply_actions ox np g as \<noteq> None"
proof -
  have r: "(run_actions np un (ordered_actions as) st = None) = False" for un st
    using run_actions_returns [of "ordered_actions as"] assms by simp
  show ?thesis
    unfolding apply_actions_def Let_def by (auto simp: r split: prod.split option.split)
qed

lemma translate_precision_only:
  "a \<in> set (translate op (default_config\<lparr>cc_precision := p\<rparr>)) \<Longrightarrow> ca_action_type a \<noteq> ''depth_limiting''"
  by (auto simp: translate_def translate_neural_def translate_normalization_def translate_activation_def
      translate_embedding_def translate_tree_def translate_linear_def translate_svm_def
      default_config_def when_act_def rank_act_def mk_action_def split: operator_category.splits if_splits)

lemma applicable_returns [simp]: "applicable r = None \<longleftrightarrow> r = None"
  by (simp add: applicable_def)

lemma quantize_ml_native_returns [simp]: "(quantize_ml_native e g gi pr p = None) = False"
proof -
  have "apply_actions (ge_ox e) (ge_np e) g (ml_native_actions gi pr p) \<noteq> None"
    by (rule apply_actions_returns) (auto simp: ml_native_actions_def dest: translate_precision_only)
  then show ?thesis by (simp add: quantize_ml_native_def Let_def del: not_None_eq)
qed

lemma w8_returns [simp]: "(quantize_w8_weight_only e g gi = None) = False"
proof -
  have "apply_actions (ge_ox e) (ge_np e) g (w8_actions gi) \<noteq> None"
    by (rule apply_actions_returns) (auto simp: w8_actions_def dest: translate_precision_only)
  then show ?thesis by (simp add: quantize_w8_weight_only_def del: not_None_eq)
qed

lemma int8_candidate_returns [simp]: "(int8_candidate e g gi hs hm pr = None) = False"
  by (simp add: int8_candidate_def del: not_None_eq split: sum.split)

lemma build_candidate_returns [simp]: "(build_candidate e rung g gi profile top_p = None) = False"
  by (simp add: build_candidate_def Let_def del: not_None_eq)

lemma try_rung_returns [simp]: "(try_rung e g gi profile top_p tau probes rung = None) = False"
  by (auto simp: try_rung_def Let_def split: option.split sum.split prod.split)

lemma climb_returns [simp]: "(climb e g gi profile top_p tau probes seed rungs reports = None) = False"
  by (induction rungs arbitrary: reports) (auto split: option.split prod.split)

section \<open>What an accepted candidate satisfies\<close>

definition passes_gate :: "'r env \<Rightarrow> graph \<Rightarrow> feed list \<Rightarrow> real \<Rightarrow> graph \<Rightarrow> bool" where
  "passes_gate e g probes tau c \<longleftrightarrow>
     \<not> pf_lt (fst (gate_check (ge_ort e) g c probes)) (Fin tau) \<and> ge_byte_size e c < ge_byte_size e g"

definition builds :: "'r env \<Rightarrow> graph \<Rightarrow> graph_info \<Rightarrow> sensitivity_profile \<Rightarrow> real \<Rightarrow> string \<Rightarrow> graph \<Rightarrow> bool" where
  "builds e g gi profile top_p rung c \<longleftrightarrow> build_candidate e rung g gi profile top_p = Some (Inr (Some c))"

lemma gate_reason_Accepted: "gate_reason ofs tau c n = Accepted \<longleftrightarrow> \<not> pf_lt ofs (Fin tau) \<and> c < n"
  by (simp add: gate_reason_def)

lemma try_rung_accepts:
  "try_rung e g gi profile top_p tau probes rung = Some (rep, Some (c, ofs, ratio)) \<Longrightarrow>
   builds e g gi profile top_p rung c \<and> passes_gate e g probes tau c \<and>
   ofs = fst (gate_check (ge_ort e) g c probes) \<and> rr_accepted rep \<and> rr_rung rep = rung"
  by (auto simp: try_rung_def Let_def builds_def passes_gate_def gate_reason_Accepted
      split: option.splits sum.splits prod.splits if_splits)

lemma try_rung_rejects:
  "try_rung e g gi profile top_p tau probes rung = Some (rep, None) \<Longrightarrow>
   (\<forall>c. builds e g gi profile top_p rung c \<longrightarrow> \<not> passes_gate e g probes tau c) \<and> \<not> rr_accepted rep \<and> rr_rung rep = rung"
  by (auto simp: try_rung_def Let_def builds_def passes_gate_def gate_reason_Accepted
      split: option.splits sum.splits prod.splits if_splits)

definition all_rejected ::
  "'r env \<Rightarrow> graph \<Rightarrow> graph_info \<Rightarrow> sensitivity_profile \<Rightarrow> real \<Rightarrow> real \<Rightarrow> feed list \<Rightarrow> string list \<Rightarrow> bool" where
  "all_rejected e g gi profile top_p tau probes rungs \<longleftrightarrow>
     (\<forall>rung \<in> set rungs. \<forall>c. builds e g gi profile top_p rung c \<longrightarrow> \<not> passes_gate e g probes tau c)"

lemma climb_result:
  assumes "climb e g gi profile top_p tau probes seed rungs reports = Some r"
  shows "(gr_model r = g \<and> gr_rung r = RUNG_ORIGINAL \<and> gr_fidelity r = Fin 1 \<and>
      all_rejected e g gi profile top_p tau probes rungs) \<or>
    (\<exists>before after. rungs = before @ gr_rung r # after \<and> all_rejected e g gi profile top_p tau probes before \<and>
      builds e g gi profile top_p (gr_rung r) (gr_model r) \<and> passes_gate e g probes tau (gr_model r) \<and>
      gr_fidelity r = fst (gate_check (ge_ort e) g (gr_model r) probes))"
  using assms
proof (induction rungs arbitrary: reports)
  case Nil
  then show ?case by (auto simp: all_rejected_def)
next
  case (Cons rung rungs)
  from Cons.prems obtain rep acc where t: "try_rung e g gi profile top_p tau probes rung = Some (rep, acc)"
    by (auto split: option.splits prod.splits)
  show ?case
  proof (cases acc)
    case None
    note rej = try_rung_rejects [OF t [unfolded None]]
    from Cons.prems t None have "climb e g gi profile top_p tau probes seed rungs (reports @ [rep]) = Some r" by simp
    from Cons.IH [OF this] show ?thesis
    proof (elim disjE exE conjE)
      fix before after assume "rungs = before @ gr_rung r # after" "all_rejected e g gi profile top_p tau probes before"
        "builds e g gi profile top_p (gr_rung r) (gr_model r)" "passes_gate e g probes tau (gr_model r)"
        "gr_fidelity r = fst (gate_check (ge_ort e) g (gr_model r) probes)"
      with rej show ?thesis
        by (intro disjI2 exI [of _ "rung # before"] exI [of _ after]) (auto simp: all_rejected_def)
    qed (use rej in \<open>auto simp: all_rejected_def\<close>)
  next
    case (Some x)
    obtain c ofs ratio where x: "x = (c, ofs, ratio)" by (cases x)
    from try_rung_accepts [OF t [unfolded Some x]] Cons.prems t Some x show ?thesis
      by (intro disjI2 exI [of _ "[]"] exI [of _ rungs]) (auto simp: all_rejected_def)
  qed
qed

lemma original_builds_nothing: "\<not> builds e g gi profile top_p RUNG_ORIGINAL c"
  by (auto simp: builds_def build_candidate_def Let_def rung_defs)

lemma guarantee_compress_setup:
  assumes "guarantee_compress e g tau n seed top_p k gi_opt profile_opt l probes_opt = Some (Inr r)"
  obtains gi rungs profile probes where "ladder_rungs l = Inr rungs"
    "climb e g gi profile top_p tau probes seed (butlast rungs) [] = Some r"
  using assms by (auto simp: guarantee_compress_def Let_def split: sum.splits prod.splits)

section \<open>Properties\<close>

text \<open>C1: What the ladder returns is the original with fidelity 1, or a candidate built by the
  rung named in the result that is strictly smaller than the original and whose fidelity, the
  one reported, is not below tau; and no earlier rung of the ladder had such a candidate.\<close>

theorem guarantee_sound:
  assumes "guarantee_compress e g tau n seed top_p k gi_opt profile_opt l probes_opt = Some (Inr r)"
  shows "\<exists>gi profile probes rungs. ladder_rungs l = Inr rungs \<and>
    (if is_compressed r
     then \<exists>before after. butlast rungs = before @ gr_rung r # after \<and>
            all_rejected e g gi profile top_p tau probes before \<and>
            builds e g gi profile top_p (gr_rung r) (gr_model r) \<and>
            ge_byte_size e (gr_model r) < ge_byte_size e g \<and>
            gr_fidelity r = fst (gate_check (ge_ort e) g (gr_model r) probes) \<and> \<not> pf_lt (gr_fidelity r) (Fin tau)
     else gr_model r = g \<and> gr_fidelity r = Fin 1 \<and> all_rejected e g gi profile top_p tau probes (butlast rungs))"
proof -
  from assms obtain gi rungs profile probes where l: "ladder_rungs l = Inr rungs"
    and c: "climb e g gi profile top_p tau probes seed (butlast rungs) [] = Some r"
    by (rule guarantee_compress_setup)
  from climb_result [OF c] original_builds_nothing [of e g gi profile top_p "gr_model r"] l show ?thesis
    unfolding is_compressed_def passes_gate_def
    by (intro exI [of _ gi] exI [of _ profile] exI [of _ probes] exI [of _ rungs]) auto
qed

text \<open>C35: The ladder always returns: with the analysis, the profile and the probes at hand and a
  ladder that is not empty it yields a result, whatever error a rung raises.\<close>

theorem guarantee_returns:
  assumes "ladder_rungs l = Inr rungs"
  shows "\<exists>r. guarantee_compress e g tau n seed top_p k (Some gi) (Some profile) l (Some probes) = Some (Inr r)"
proof (cases "climb e g gi profile top_p tau probes seed (butlast rungs) []")
  case (Some r)
  with assms show ?thesis by (simp add: guarantee_compress_def Let_def)
qed simp

text \<open>C36: A candidate whose fidelity is NaN is accepted: the gate asks whether the fidelity is
  below tau, which is false for NaN, so a smaller candidate of the first rung is returned with a
  fidelity that does not reach the floor.\<close>

theorem nan_fidelity_is_accepted:
  assumes "ladder_rungs l = Inr (rung # rungs)" "rungs \<noteq> []" "builds e g gi profile top_p rung c"
    and "fst (gate_check (ge_ort e) g c probes) = NaN" "ge_byte_size e c < ge_byte_size e g"
  shows "\<exists>r. guarantee_compress e g tau n seed top_p k (Some gi) (Some profile) l (Some probes) = Some (Inr r) \<and>
    gr_model r = c \<and> \<not> pf_ge (gr_fidelity r) (Fin tau)"
proof -
  obtain q where "gate_check (ge_ort e) g c probes = (NaN, q)" using assms(4) by (cases "gate_check (ge_ort e) g c probes") auto
  with assms show ?thesis
    by (auto simp: guarantee_compress_def Let_def try_rung_def builds_def gate_reason_Accepted)
qed

text \<open>A runtime on which the float16 conversion of a model answers NaN.\<close>

definition demo_gi :: graph_info where
  "demo_gi = \<lparr>gi_operators = [demo_op DENSE_COMPUTE], gi_adjacency = [], gi_topo_order = [], gi_input_names = [],
     gi_output_names = [], gi_total_params = 0, gi_total_flops = 0\<rparr>"

definition demo_env :: "unit env" where
  "demo_env = \<lparr>ge_ort = demo_ort, ge_np = demo_np, ge_ox = \<lparr>ox_convert_version = \<lambda>g v. None, ox_infer_shapes = \<lambda>g. None\<rparr>,
     ge_pre_process = (\<lambda>g. None), ge_quantize_dynamic = (\<lambda>g ex. raise (RuntimeError ''quantize_dynamic'')),
     ge_fp16_child = (\<lambda>g. Exited 0 (Some (tiny_graph ''nan''))), ge_generate = (\<lambda>n s g sp. ok [[]]),
     ge_byte_size = (\<lambda>g. if map n_name (g_nodes g) = [''nan''] then 1 else 2),
     ge_normal = (\<lambda>r s n. (replicate n (Fin 0), r)), ge_rng = (\<lambda>s. ())\<rparr>"

definition demo_profile1 :: sensitivity_profile where
  "demo_profile1 = \<lparr>sp_results = [], sp_calibration_size = 1, sp_perturbation_scale = 0.01\<rparr>"

lemma demo_gate: "fst (gate_check demo_ort (tiny_graph ''a'') (tiny_graph ''nan'') [[]]) = NaN"
  by (simp add: gate_check_def validate_def demo_fidelity demo_wfs default_weights_def compute_structural_integrity_def
      float_array_def finite_array_def ptp_list_def np_ptp_def prediction_match_def Let_def)

lemma demo_builds: "builds demo_env (tiny_graph ''a'') demo_gi p top_p RUNG_FP16 (tiny_graph ''nan'')"
  by (simp add: builds_def build_candidate_def Let_def demo_gi_def compressible_operators_def demo_op_def
      STANDARD_CATEGORIES_def ML_CATEGORIES_def rung_defs applicable_def convert_fp16_real_def demo_env_def)

lemma demo_rungs: "ladder_rungs (Rungs [RUNG_FP16]) = Inr [RUNG_FP16, RUNG_ORIGINAL]"
  by (simp add: ladder_rungs_def rung_defs)

theorem nan_fidelity_is_accepted_witness:
  "\<exists>r. guarantee_compress demo_env (tiny_graph ''a'') 0.95 1 42 0.3 1 (Some demo_gi) (Some demo_profile1)
      (Rungs [RUNG_FP16]) (Some [[]]) = Some (Inr r) \<and>
    gr_model r = tiny_graph ''nan'' \<and> \<not> pf_ge (gr_fidelity r) (Fin 0.95)"
  by (rule nan_fidelity_is_accepted [OF demo_rungs _ demo_builds])
    (simp_all add: demo_env_def demo_gate, simp_all add: tiny_graph_def)

theorem guarantee_returns_witness:
  "\<exists>r. guarantee_compress demo_env (tiny_graph ''a'') 0.95 1 42 0.3 1 (Some demo_gi) (Some demo_profile1)
      (Named ''v2'') (Some [[]]) = Some (Inr r)"
  by (rule guarantee_returns [of _ "[RUNG_INT8_UNIFORM, RUNG_INT8_UOSA, RUNG_W8, RUNG_FP16, RUNG_ORIGINAL]"])
    (simp add: ladder_rungs_def LADDERS_def)

lemma demo_compress:
  "\<exists>r. guarantee_compress demo_env (tiny_graph ''a'') 0.95 1 42 0.3 1 (Some demo_gi) (Some demo_profile1)
      (Rungs [RUNG_ORIGINAL]) (Some [[]]) = Some (Inr r) \<and> gr_rung r = RUNG_ORIGINAL"
  by (simp add: guarantee_compress_def ladder_rungs_def)

theorem guarantee_sound_witness:
  "\<exists>r. guarantee_compress demo_env (tiny_graph ''a'') 0.95 1 42 0.3 1 (Some demo_gi) (Some demo_profile1)
      (Rungs [RUNG_ORIGINAL]) (Some [[]]) = Some (Inr r) \<and> gr_model r = tiny_graph ''a''"
proof -
  obtain r where r: "guarantee_compress demo_env (tiny_graph ''a'') 0.95 1 42 0.3 1 (Some demo_gi) (Some demo_profile1)
      (Rungs [RUNG_ORIGINAL]) (Some [[]]) = Some (Inr r)" "gr_rung r = RUNG_ORIGINAL"
    using demo_compress by blast
  from guarantee_sound [OF r(1)] r show ?thesis by (auto simp: is_compressed_def)
qed

end
