(* ===== verification/Pareto_Search.thy ===== *)
theory Pareto_Search
  imports Guarantee
begin

text \<open>
  The two-objective search of \<open>astra/search/pareto_search.py\<close>: the trial budget from the number
  of live dimensions, the objective of one trial, the loop over trials with the optional early
  stop, and the extraction of the frontier.  Optuna's sampler, its \<open>best_trials\<close> and its
  hypervolume routine, the evaluation function and the latency clock are parameters.
  Non-dominance is stated once, in the locale \<open>dominance\<close>, and instantiated for trial points and
  for losses.
\<close>

section \<open>Dominance\<close>

locale dominance =
  fixes dom :: "'a \<Rightarrow> 'a \<Rightarrow> bool"
  assumes irrefl: "\<not> dom p p"
    and trans: "dom p q \<Longrightarrow> dom q r \<Longrightarrow> dom p r"
begin

definition front :: "'a list \<Rightarrow> 'a list" where
  "front xs = filter (\<lambda>p. \<not> (\<exists>q \<in> set xs. dom q p)) xs"

lemma front_subset: "set (front xs) \<subseteq> set xs"
  by (auto simp: front_def)

lemma front_antichain: "p \<in> set (front xs) \<Longrightarrow> q \<in> set xs \<Longrightarrow> \<not> dom q p"
  by (auto simp: front_def)

lemma dominated_by_front: "x \<in> set xs \<Longrightarrow> x \<in> set (front xs) \<or> (\<exists>p \<in> set (front xs). dom p x)"
proof (induction "card {q \<in> set xs. dom q x}" arbitrary: x rule: less_induct)
  case less
  show ?case
  proof (cases "\<exists>q \<in> set xs. dom q x")
    case True
    then obtain q where q: "q \<in> set xs" "dom q x" by blast
    have "{r \<in> set xs. dom r q} \<subset> {r \<in> set xs. dom r x}"
      using q trans irrefl by blast
    then have "card {r \<in> set xs. dom r q} < card {r \<in> set xs. dom r x}"
      by (intro psubset_card_mono) auto
    from less.hyps [OF this q(1)] q(2) trans show ?thesis by blast
  next
    case False
    with less.prems show ?thesis by (auto simp: front_def)
  qed
qed

lemma front_not_empty: "xs \<noteq> [] \<Longrightarrow> front xs \<noteq> []"
  using dominated_by_front [of "hd xs" xs] by fastforce

end

section \<open>Points and results\<close>

record pareto_point =
  pp_trial_number :: nat
  pp_accuracy :: real
  pp_size :: nat
  pp_latency :: real
  pp_config :: "(string \<times> compression_config) list"
  pp_accuracy_retention :: real
  pp_size_ratio :: real
  pp_speedup :: real
  pp_weights_bytes :: nat
  pp_weights_ratio :: real

record pareto_result =
  pr_pareto_points :: "pareto_point list"
  pr_all_trials :: "pareto_point list"
  pr_original_accuracy :: real
  pr_original_size :: nat
  pr_original_latency :: real
  pr_n_trials :: int
  pr_effective_dim :: nat
  pr_complexity_bits :: real
  pr_n_trials_completed :: nat
  pr_stopped_early :: bool

definition n_pareto :: "pareto_result \<Rightarrow> nat" where
  "n_pareto r = length (pr_pareto_points r)"

definition best_accuracy :: "pareto_result \<Rightarrow> pareto_point option" where
  "best_accuracy r = min_by (\<lambda>p. - pp_accuracy p) (pr_pareto_points r)"

definition best_size :: "pareto_result \<Rightarrow> pareto_point option" where
  "best_size r = min_by pp_size (pr_pareto_points r)"

definition best_latency :: "pareto_result \<Rightarrow> pareto_point option" where
  "best_latency r = min_by pp_latency (pr_pareto_points r)"

definition point_dom :: "pareto_point \<Rightarrow> pareto_point \<Rightarrow> bool" where
  "point_dom q p \<longleftrightarrow> pp_accuracy q \<ge> pp_accuracy p \<and> pp_size q \<le> pp_size p \<and>
     (pp_accuracy q > pp_accuracy p \<or> pp_size q < pp_size p)"

definition compute_pareto_front :: "pareto_point list \<Rightarrow> pareto_point list" where
  "compute_pareto_front points = filter (\<lambda>p. \<not> list_ex (\<lambda>q. point_dom q p) points) points"

section \<open>Hypervolume of the losses\<close>

definition loss_dom :: "real \<times> real \<Rightarrow> real \<times> real \<Rightarrow> bool" where
  "loss_dom q p \<longleftrightarrow> fst q \<le> fst p \<and> snd q \<le> snd p \<and> (fst q < fst p \<or> snd q < snd p)"

definition pareto_filter_2d :: "(real \<times> real) list \<Rightarrow> (real \<times> real) list" where
  "pareto_filter_2d pts =
     (let keep = map snd (filter (\<lambda>(i, p). \<not> list_ex (\<lambda>(j, q). i \<noteq> j \<and> loss_dom q p) (enumerate 0 pts))
                            (enumerate 0 pts))
      in if keep \<noteq> [] then keep else take 1 pts)"

definition HV_REF :: "real \<times> real" where "HV_REF = (1.1, 1.1)"

fun hv_sweep :: "real \<times> real \<Rightarrow> (real \<times> real) list \<Rightarrow> real \<Rightarrow> real" where
  "hv_sweep ref [] y_min = 0"
| "hv_sweep ref (p # ps) y_min =
     (let y = min y_min (snd p); x_next = (case ps of [] \<Rightarrow> fst ref | q # _ \<Rightarrow> fst q); dx = x_next - fst p
      in (if dx > 0 then dx * (snd ref - y) else 0) + hv_sweep ref ps y)"

type_synonym hv_backend = "(real \<times> real) list \<Rightarrow> real \<times> real \<Rightarrow> real option"

definition dominated_hv_2d :: "hv_backend option \<Rightarrow> (real \<times> real) list \<Rightarrow> real" where
  "dominated_hv_2d backend losses =
     (let pts = pareto_filter_2d (map (\<lambda>(x, y). (min (fst HV_REF) (max 0 x), min (snd HV_REF) (max 0 y))) losses);
          sweep = hv_sweep HV_REF (sort_key fst pts) (snd HV_REF)
      in case backend of
          None \<Rightarrow> sweep
        | Some hv \<Rightarrow> (case hv pts HV_REF of Some v \<Rightarrow> v | None \<Rightarrow> sweep))"

section \<open>Configuration, dimensions and budget\<close>

record search_config =
  sc_n_trials :: int
  sc_allow_pruning :: bool
  sc_adaptive :: bool
  sc_trials_per_dim :: int
  sc_startup_trials :: int
  sc_min_trials :: int
  sc_max_trials :: int
  sc_early_stop :: bool
  sc_hv_patience :: nat
  sc_hv_epsilon :: real

definition FUSE_EFFECTIVE_CATEGORIES :: "operator_category list" where
  "FUSE_EFFECTIVE_CATEGORIES = [NORMALIZATION, TREE_ENSEMBLE]"

definition fuse_live :: "operator_info \<Rightarrow> action_space \<Rightarrow> bool" where
  "fuse_live op sp \<longleftrightarrow> as_fuse sp \<and> op_category op \<in> set FUSE_EFFECTIVE_CATEGORIES"

definition op_dims :: "bool \<Rightarrow> operator_info \<Rightarrow> action_space \<Rightarrow> nat \<times> real" where
  "op_dims allow_pruning op sp =
     (let n_prec = length (as_precisions sp); (lo, hi) = as_prune_range sp;
          prec = (if n_prec > 1 then (1, log 2 (of_nat n_prec)) else (0, 0));
          fuse = (if fuse_live op sp then (1, 1) else (0, 0));
          levels = round_half_even ((hi - lo) / 0.1) + 1;
          prune = (if allow_pruning \<and> hi > 0 then (1, log 2 (of_int (max 2 levels))) else (0, 0))
      in (fst prec + fst fuse + fst prune, snd prec + snd fuse + snd prune))"

fun effective_dimensionality ::
  "(operator_info \<Rightarrow> action_space) \<Rightarrow> operator_info list \<Rightarrow> bool \<Rightarrow> nat \<times> real" where
  "effective_dimensionality spaces [] allow_pruning = (0, 0)"
| "effective_dimensionality spaces (op # ops) allow_pruning =
     (let (d, b) = op_dims allow_pruning op (spaces op);
          (ds, bs) = effective_dimensionality spaces ops allow_pruning
      in (d + ds, b + bs))"

definition budget :: "search_config \<Rightarrow> nat \<Rightarrow> int" where
  "budget sc d =
     (if \<not> sc_adaptive sc then sc_n_trials sc
      else min (sc_max_trials sc) (max (sc_min_trials sc) (sc_trials_per_dim sc * int d + sc_startup_trials sc)))"

text \<open>The spaces per operator name: a later operator of the same name replaces an earlier one.\<close>

definition action_spaces :: "graph_info \<Rightarrow> sensitivity_profile \<Rightarrow> (string \<times> action_space) list" where
  "action_spaces gi sens =
     (let protected = get_protection_set sens 0.3;
          total = max 1 (sum_list (map op_param_count (gi_operators gi)))
      in dict_of (map (\<lambda>op. (op_name op,
           get_action_space op None 0.1 (Some (op_name op \<in> protected)) (Some (of_nat (op_param_count op) / of_nat total))))
         (compressible_operators gi)))"

definition space_of :: "(string \<times> action_space) list \<Rightarrow> operator_info \<Rightarrow> action_space" where
  "space_of spaces op =
     (case map_of spaces (op_name op) of Some s \<Rightarrow> s | None \<Rightarrow> get_action_space op None 0.1 None None)"

section \<open>One trial\<close>

text \<open>A trial answers the sampler's suggestions; the requests are also listed, in call order.\<close>

record trial =
  tr_number :: nat
  tr_precision :: "string \<Rightarrow> nat list \<Rightarrow> nat"
  tr_prune :: "string \<Rightarrow> real \<Rightarrow> real \<Rightarrow> real"
  tr_fuse :: "string \<Rightarrow> bool"

definition op_requests :: "bool \<Rightarrow> operator_info \<Rightarrow> action_space \<Rightarrow> string list" where
  "op_requests allow_pruning op sp =
     (if length (as_precisions sp) = 1 then [] else [op_name op @ ''_precision'']) @
     (if allow_pruning \<and> snd (as_prune_range sp) > 0 then [op_name op @ ''_prune''] else []) @
     (if fuse_live op sp then [op_name op @ ''_fuse''] else [])"

definition suggest_calls :: "(operator_info \<Rightarrow> action_space) \<Rightarrow> operator_info list \<Rightarrow> bool \<Rightarrow> string list" where
  "suggest_calls spaces ops allow_pruning = concat (map (\<lambda>op. op_requests allow_pruning op (spaces op)) ops)"

definition op_config :: "bool \<Rightarrow> trial \<Rightarrow> operator_info \<Rightarrow> action_space \<Rightarrow> compression_config result" where
  "op_config allow_pruning tr op sp =
     bind_result
       (if length (as_precisions sp) = 1 then ok (hd (as_precisions sp))
        else case precision_of_value (tr_precision tr (op_name op @ ''_precision'') (map precision_value (as_precisions sp))) of
            Some p \<Rightarrow> ok p | None \<Rightarrow> raise (ValueError ''not a valid PrecisionLevel''))
       (\<lambda>p. let (lo, hi) = as_prune_range sp
            in ok \<lparr>cc_precision = p,
               cc_prune_ratio = (if allow_pruning \<and> hi > 0 then tr_prune tr (op_name op @ ''_prune'') lo hi else 0),
               cc_fuse = (if fuse_live op sp then tr_fuse tr (op_name op @ ''_fuse'') else False),
               cc_approx_rank = None\<rparr>)"

fun trial_config ::
  "bool \<Rightarrow> trial \<Rightarrow> (operator_info \<Rightarrow> action_space) \<Rightarrow> operator_info list \<Rightarrow> (string \<times> compression_config) list
     \<Rightarrow> (string \<times> compression_config) list result" where
  "trial_config allow_pruning tr spaces [] acc = ok acc"
| "trial_config allow_pruning tr spaces (op # ops) acc =
     bind_result (op_config allow_pruning tr op (spaces op))
       (\<lambda>c. trial_config allow_pruning tr spaces ops (AList.update (op_name op) c acc))"

definition trial_actions :: "(string \<times> compression_config) list \<Rightarrow> operator_info list \<Rightarrow> concrete_action list" where
  "trial_actions config ops =
     concat (map (\<lambda>op. case map_of config (op_name op) of
        Some c \<Rightarrow> if is_no_compression c then [] else translate op c | None \<Rightarrow> []) ops)"

type_synonym history = "(nat \<times> real \<times> real) list"

record search_env =
  se_ort_latency :: "graph \<Rightarrow> real"                     \<comment> \<open>\<open>_measure_latency\<close>, wall clock\<close>
  se_eval :: "graph \<Rightarrow> real result"
  se_sampler :: "history \<Rightarrow> nat \<Rightarrow> trial"                 \<comment> \<open>TPE on the completed trials\<close>
  se_best_trials :: "history \<Rightarrow> nat list"
  se_hv :: "hv_backend option"
  se_np :: numpy_ops
  se_ox :: onnx_lib
  se_byte_size :: "graph \<Rightarrow> nat"

record baseline =
  bl_accuracy :: real
  bl_size :: nat
  bl_weights :: nat
  bl_latency :: real

text \<open>The objective: its two values, and the point it records, if any.  \<open>None\<close> is not returning.\<close>

definition objective ::
  "search_env \<Rightarrow> search_config \<Rightarrow> graph \<Rightarrow> operator_info list \<Rightarrow> (operator_info \<Rightarrow> action_space) \<Rightarrow> baseline \<Rightarrow> trial
     \<Rightarrow> ((real \<times> real) \<times> pareto_point option) result option" where
  "objective se sc g ops spaces bl tr =
     (case trial_config (sc_allow_pruning sc) tr spaces ops [] of
        Inl err \<Rightarrow> Some (raise err)
      | Inr config \<Rightarrow>
          (let actions = trial_actions config ops in
           if actions = [] then Some (ok ((bl_accuracy bl, of_nat (bl_size bl)), None))
           else case apply_actions (se_ox se) (se_np se) g actions of
               None \<Rightarrow> None
             | Some (Inl err) \<Rightarrow> Some (raise err)
             | Some (Inr compressed) \<Rightarrow>
                 (case se_eval se compressed of
                    Inl _ \<Rightarrow> Some (ok ((0, of_nat (bl_size bl)), None))
                  | Inr acc \<Rightarrow>
                     (let size = se_byte_size se compressed; weights = initializer_bytes compressed;
                          latency = se_ort_latency se compressed
                      in if bl_size bl = 0 then Some (raise (RuntimeError ''ZeroDivisionError''))
                         else Some (ok ((acc, of_nat size), Some
                           \<lparr>pp_trial_number = tr_number tr, pp_accuracy = acc, pp_size = size, pp_latency = latency,
                            pp_config = config,
                            pp_accuracy_retention = (if bl_accuracy bl > 0 then acc / bl_accuracy bl else 0),
                            pp_size_ratio = of_nat size / of_nat (bl_size bl),
                            pp_speedup = (if latency > 0 then bl_latency bl / latency else 1),
                            pp_weights_bytes = weights,
                            pp_weights_ratio = of_nat weights / of_nat (bl_weights bl)\<rparr>))))))"

section \<open>The loop over trials\<close>

definition losses_of :: "search_env \<Rightarrow> baseline \<Rightarrow> history \<Rightarrow> (real \<times> real) list" where
  "losses_of se bl hist =
     map (\<lambda>(n, a, s). (1 - (if bl_accuracy bl > 0 then a / bl_accuracy bl else 0),
                       if bl_size bl > 0 then s / of_nat (bl_size bl) else 0))
       (filter (\<lambda>(n, _). n \<in> set (se_best_trials se hist)) hist)"

text \<open>The callback after a trial: the new hypervolume history and whether to stop.\<close>

definition early_stop ::
  "search_env \<Rightarrow> search_config \<Rightarrow> baseline \<Rightarrow> int \<Rightarrow> nat \<Rightarrow> history \<Rightarrow> real list \<Rightarrow> real list \<times> bool" where
  "early_stop se sc bl floor_trials trial_number hist hvs =
     (if \<not> (sc_early_stop sc \<and> sc_adaptive sc) \<or> int trial_number + 1 < floor_trials then (hvs, False)
      else let losses = losses_of se bl hist in
        if losses = [] then (hvs, False)
        else let hv = dominated_hv_2d (se_hv se) losses; hvs' = hvs @ [hv] in
          if length hvs' > sc_hv_patience sc
          then let past = hvs' ! (length hvs' - sc_hv_patience sc - 1)
               in (hvs', past > 1 / 10 ^ 12 \<and> (hv - past) / past < sc_hv_epsilon sc)
          else (hvs', False))"

record study =
  st_history :: history
  st_points :: "pareto_point list"
  st_hvs :: "real list"
  st_stopped :: bool

fun optimize ::
  "search_env \<Rightarrow> search_config \<Rightarrow> graph \<Rightarrow> operator_info list \<Rightarrow> (operator_info \<Rightarrow> action_space) \<Rightarrow> baseline \<Rightarrow> int
     \<Rightarrow> nat \<Rightarrow> study \<Rightarrow> study result option" where
  "optimize se sc g ops spaces bl fl 0 st = Some (ok st)"
| "optimize se sc g ops spaces bl fl (Suc left) st =
     (if st_stopped st then Some (ok st)
      else let n = length (st_history st);
               tr = (se_sampler se (st_history st) n)\<lparr>tr_number := n\<rparr>
        in case objective se sc g ops spaces bl tr of
            None \<Rightarrow> None
          | Some (Inl err) \<Rightarrow> Some (raise err)
          | Some (Inr ((a, s), point)) \<Rightarrow>
              (let hist = st_history st @ [(n, a, s)];
                   (hvs, stop) = early_stop se sc bl fl n hist (st_hvs st)
               in optimize se sc g ops spaces bl fl left
                    \<lparr>st_history = hist,
                     st_points = st_points st @ (case point of None \<Rightarrow> [] | Some p \<Rightarrow> [p]),
                     st_hvs = hvs, st_stopped = stop\<rparr>))"

definition frontier_of :: "search_env \<Rightarrow> study \<Rightarrow> pareto_point list" where
  "frontier_of se st =
     (let mapped = List.map_filter (\<lambda>n. find (\<lambda>p. pp_trial_number p = n) (st_points st))
                     (se_best_trials se (st_history st))
      in if mapped = [] then compute_pareto_front (st_points st) else mapped)"

definition search :: "search_env \<Rightarrow> search_config \<Rightarrow> graph \<Rightarrow> graph_info \<Rightarrow> sensitivity_profile \<Rightarrow> pareto_result result option" where
  "search se sc g gi sens =
     (let ops = compressible_operators gi in
      if ops = [] then Some (raise (ValueError ''No compressible operators found''))
      else case se_eval se g of
          Inl err \<Rightarrow> Some (raise err)
        | Inr acc0 \<Rightarrow>
            (let bl = \<lparr>bl_accuracy = acc0, bl_size = se_byte_size se g, bl_weights = max 1 (initializer_bytes g),
                       bl_latency = se_ort_latency se g\<rparr>;
                 spaces = space_of (action_spaces gi sens);
                 (d, bits) = effective_dimensionality spaces ops (sc_allow_pruning sc);
                 n_trials = budget sc d;
                 fl = max (sc_startup_trials sc) (min (sc_min_trials sc) n_trials)
             in case optimize se sc g ops spaces bl fl (nat n_trials)
                       \<lparr>st_history = [], st_points = [], st_hvs = [], st_stopped = False\<rparr> of
                  None \<Rightarrow> None
                | Some (Inl err) \<Rightarrow> Some (raise err)
                | Some (Inr st) \<Rightarrow> Some (ok
                    \<lparr>pr_pareto_points = frontier_of se st, pr_all_trials = st_points st,
                     pr_original_accuracy = bl_accuracy bl, pr_original_size = bl_size bl,
                     pr_original_latency = bl_latency bl, pr_n_trials = n_trials, pr_effective_dim = d,
                     pr_complexity_bits = bits, pr_n_trials_completed = length (st_history st),
                     pr_stopped_early = st_stopped st\<rparr>)))"

section \<open>The frontier\<close>

interpretation points: dominance point_dom
  by unfold_locales (auto simp: point_dom_def)

interpretation losses: dominance loss_dom
  by unfold_locales (auto simp: loss_dom_def)

lemma compute_pareto_front_eq: "compute_pareto_front xs = points.front xs"
  by (simp add: compute_pareto_front_def points.front_def list_ex_iff Bex_def)

lemma pareto_filter_2d_eq: "pareto_filter_2d pts = losses.front pts"
proof -
  have ex: "list_ex (\<lambda>(j, q). i \<noteq> j \<and> loss_dom q p) (enumerate 0 pts) \<longleftrightarrow> (\<exists>q \<in> set pts. loss_dom q p)"
    if "(i, p) \<in> set (enumerate 0 pts)" for i p
  proof
    assume "list_ex (\<lambda>(j, q). i \<noteq> j \<and> loss_dom q p) (enumerate 0 pts)"
    then obtain j q where "(j, q) \<in> set (enumerate 0 pts)" "loss_dom q p" by (auto simp: list_ex_iff)
    moreover from this(1) have "q \<in> set pts" using nth_mem [of j pts] by (auto simp: in_set_enumerate_eq)
    ultimately show "\<exists>q \<in> set pts. loss_dom q p" by blast
  next
    assume "\<exists>q \<in> set pts. loss_dom q p"
    then obtain j where j: "j < length pts" "loss_dom (pts ! j) p" by (auto simp: in_set_conv_nth)
    moreover have "i \<noteq> j" using j that losses.irrefl [of "pts ! j"] by (auto simp: in_set_enumerate_eq)
    ultimately show "list_ex (\<lambda>(j, q). i \<noteq> j \<and> loss_dom q p) (enumerate 0 pts)"
      by (auto simp: list_ex_iff in_set_enumerate_eq intro!: bexI [of _ "(j, pts ! j)"])
  qed
  have fm: "map snd (filter (\<lambda>ip. P (snd ip)) (enumerate n xs)) = filter P xs" for P and n and xs :: "(real \<times> real) list"
    by (induction xs arbitrary: n) auto
  have "map snd (filter (\<lambda>(i, p). \<not> list_ex (\<lambda>(j, q). i \<noteq> j \<and> loss_dom q p) (enumerate 0 pts)) (enumerate 0 pts))
      = map snd (filter (\<lambda>ip. \<not> (\<exists>q \<in> set pts. loss_dom q (snd ip))) (enumerate 0 pts))"
    by (rule arg_cong [of _ _ "map snd"], rule filter_cong) (use ex in auto)
  also have "\<dots> = losses.front pts"
    using fm [of "\<lambda>p. \<forall>q \<in> set pts. \<not> loss_dom q p" 0 pts] by (simp add: losses.front_def)
  finally show ?thesis
    using losses.front_not_empty [of pts] by (cases pts) (auto simp: pareto_filter_2d_def Let_def losses.front_def)
qed

section \<open>The budget and the number of suggestions\<close>

lemma get_action_space_precisions_ne: "as_precisions (get_action_space op s t pr sh) \<noteq> []"
  by (cases "op_category op") (auto simp: get_action_space_def Let_def template_defs)

lemma map_of_dict_of_in: "map_of (dict_of kvs) k = Some v \<Longrightarrow> (k, v) \<in> set kvs"
proof -
  have "map_of (fold (\<lambda>(k, v) d. AList.update k v d) kvs d) k = Some v \<Longrightarrow> (k, v) \<in> set kvs \<or> map_of d k = Some v"
    for d :: "('k \<times> 'v) list" and kvs k v
  proof (induction kvs arbitrary: d)
    case (Cons kv kvs)
    obtain x y where kv: "kv = (x, y)" by force
    with Cons.prems have "map_of (fold (\<lambda>(k, v) d. AList.update k v d) kvs (AList.update x y d)) k = Some v" by simp
    from Cons.IH [OF this] kv show ?case by (auto simp: update_conv' split: if_splits)
  qed simp
  then show "map_of (dict_of kvs) k = Some v \<Longrightarrow> ?thesis" by (fastforce simp: dict_of_def)
qed

lemma space_of_precisions_ne: "as_precisions (space_of (action_spaces gi sens) op) \<noteq> []"
  by (auto simp: space_of_def action_spaces_def Let_def get_action_space_precisions_ne
      dest!: map_of_dict_of_in split: option.splits)

lemma op_dims_requests:
  "as_precisions sp \<noteq> [] \<Longrightarrow> fst (op_dims pruning op sp) = length (op_requests pruning op sp)"
  by (cases "length (as_precisions sp)")
    (auto simp: op_dims_def op_requests_def Let_def split: prod.splits)

lemma effective_dim_calls:
  "(\<And>op. as_precisions (spaces op) \<noteq> []) \<Longrightarrow>
   fst (effective_dimensionality spaces ops pruning) = length (suggest_calls spaces ops pruning)"
  by (induction ops) (auto simp: suggest_calls_def op_dims_requests [symmetric] split: prod.splits)

section \<open>The loop stays within the budget\<close>

lemma objective_point_number:
  "objective se sc g ops spaces bl tr = Some (Inr (v, Some p)) \<Longrightarrow> pp_trial_number p = tr_number tr"
  by (auto simp: objective_def Let_def split: sum.splits option.splits if_splits)

definition study_ok :: "study \<Rightarrow> bool" where
  "study_ok st \<longleftrightarrow> distinct (map pp_trial_number (st_points st)) \<and>
     (\<forall>p \<in> set (st_points st). pp_trial_number p < length (st_history st))"

lemma optimize_ok:
  assumes "optimize se sc g ops spaces bl fl left st = Some (Inr st')" "study_ok st"
  shows "study_ok st' \<and> length (st_history st') \<le> length (st_history st) + left"
  using assms
proof (induction left arbitrary: st)
  case (Suc left)
  show ?case
  proof (cases "st_stopped st")
    case True
    with Suc.prems show ?thesis by simp
  next
    case False
    define n where "n = length (st_history st)"
    define tr where "tr = (se_sampler se (st_history st) n)\<lparr>tr_number := n\<rparr>"
    from Suc.prems(1) False obtain a s point where o: "objective se sc g ops spaces bl tr = Some (Inr ((a, s), point))"
      by (auto simp: Let_def n_def tr_def split: option.splits sum.splits prod.splits)
    obtain hvs stop where e: "early_stop se sc bl fl n (st_history st @ [(n, a, s)]) (st_hvs st) = (hvs, stop)" by force
    define st1 where "st1 = \<lparr>st_history = st_history st @ [(n, a, s)],
      st_points = st_points st @ (case point of None \<Rightarrow> [] | Some p \<Rightarrow> [p]), st_hvs = hvs, st_stopped = stop\<rparr>"
    have "optimize se sc g ops spaces bl fl left st1 = Some (Inr st')"
      using Suc.prems(1) False o e by (simp add: Let_def n_def tr_def st1_def)
    moreover have "study_ok st1"
      using Suc.prems(2) o objective_point_number [of se sc g ops spaces bl tr "(a, s)"]
      by (cases point) (fastforce simp: study_ok_def st1_def tr_def n_def)+
    ultimately show ?thesis using Suc.IH [of st1] by (simp add: st1_def)
  qed
qed simp

lemma frontier_subset: "set (frontier_of se st) \<subseteq> set (st_points st)"
  by (auto simp: frontier_of_def Let_def compute_pareto_front_def List.map_filter_def dest: find_in_set)

section \<open>Every recorded point was measured\<close>

lemma optimize_points:
  assumes "\<And>tr v p. objective se sc g ops spaces bl tr = Some (Inr (v, Some p)) \<Longrightarrow> Q p"
  shows "optimize se sc g ops spaces bl fl left st = Some (Inr st') \<Longrightarrow> \<forall>p \<in> set (st_points st). Q p \<Longrightarrow>
    \<forall>p \<in> set (st_points st'). Q p"
proof (induction left arbitrary: st)
  case (Suc left)
  show ?case
  proof (cases "st_stopped st")
    case False
    from Suc.prems(1) False obtain tr a s point hvs stop where o: "objective se sc g ops spaces bl tr = Some (Inr ((a, s), point))"
      and rest: "optimize se sc g ops spaces bl fl left \<lparr>st_history = st_history st @ [(length (st_history st), a, s)],
        st_points = st_points st @ (case point of None \<Rightarrow> [] | Some p \<Rightarrow> [p]), st_hvs = hvs, st_stopped = stop\<rparr> = Some (Inr st')"
      by (auto simp: Let_def split: option.splits sum.splits prod.splits)
    from assms [of _ "(a, s)"] o Suc.prems(2) show ?thesis by (intro Suc.IH [OF rest]) (auto split: option.splits)
  qed (use Suc.prems in simp)
qed simp

text \<open>A point records what its trial measured: its configuration, and the size and accuracy of the model it gives.\<close>

definition measured :: "search_env \<Rightarrow> bool \<Rightarrow> graph \<Rightarrow> graph_info \<Rightarrow> sensitivity_profile \<Rightarrow> pareto_point \<Rightarrow> graph \<Rightarrow> bool" where
  "measured se pruning g gi sens p c \<longleftrightarrow>
     (\<exists>tr. trial_config pruning tr (space_of (action_spaces gi sens)) (compressible_operators gi) [] = ok (pp_config p)) \<and>
     trial_actions (pp_config p) (compressible_operators gi) \<noteq> [] \<and>
     apply_actions (se_ox se) (se_np se) g (trial_actions (pp_config p) (compressible_operators gi)) = Some (ok c) \<and>
     se_eval se c = ok (pp_accuracy p) \<and> pp_size p = se_byte_size se c"

lemma objective_measured:
  "objective se sc g (compressible_operators gi) (space_of (action_spaces gi sens)) bl tr = Some (Inr (v, Some p)) \<Longrightarrow>
    \<exists>c. measured se (sc_allow_pruning sc) g gi sens p c"
  by (auto simp: objective_def measured_def Let_def split: sum.splits option.splits if_splits)

lemma search_result:
  assumes "search se sc g gi sens = Some (Inr r)"
  shows "distinct (map pp_trial_number (pr_all_trials r)) \<and> set (pr_pareto_points r) \<subseteq> set (pr_all_trials r) \<and>
    int (pr_n_trials_completed r) \<le> max 0 (pr_n_trials r) \<and> (sc_adaptive sc \<longrightarrow> pr_n_trials r \<le> sc_max_trials sc) \<and>
    (\<forall>p \<in> set (pr_all_trials r). pp_trial_number p < pr_n_trials_completed r \<and> (\<exists>c. measured se (sc_allow_pruning sc) g gi sens p c))"
proof -
  let ?st = "\<lparr>st_history = [], st_points = [], st_hvs = [], st_stopped = False\<rparr>"
  obtain bl fl d st where
    o: "optimize se sc g (compressible_operators gi) (space_of (action_spaces gi sens)) bl fl (nat (budget sc d)) ?st = Some (Inr st)"
    and r: "pr_pareto_points r = frontier_of se st" "pr_all_trials r = st_points st" "pr_n_trials r = budget sc d"
      "pr_n_trials_completed r = length (st_history st)"
    using assms by (auto simp: search_def Let_def split: sum.splits option.splits prod.splits if_splits)
  have "\<forall>p \<in> set (st_points st). \<exists>c. measured se (sc_allow_pruning sc) g gi sens p c"
    by (rule optimize_points [OF _ o]) (auto intro: objective_measured)
  moreover have "study_ok ?st" by (simp add: study_ok_def)
  ultimately show ?thesis using optimize_ok [OF o] r frontier_subset [of se st] by (auto simp: study_ok_def budget_def)
qed

section \<open>Properties\<close>

text \<open>The effective dimensionality that sizes the trial budget is exactly the number of
  suggestions one evaluation of the objective asks the sampler for.\<close>

theorem effective_dim_is_suggest_calls:
  "fst (effective_dimensionality (space_of (action_spaces gi sens)) ops pruning)
     = length (suggest_calls (space_of (action_spaces gi sens)) ops pruning)"
  by (rule effective_dim_calls) (rule space_of_precisions_ne)

text \<open>C21: The Pareto front is right about accuracy and size, said on the two figures of the trials: a trial is on the front
  exactly when it was recorded and no recorded trial is at least as accurate and strictly smaller, or at least as small and
  strictly more accurate; every recorded trial has one on the front that is at least as accurate and at least as
  small; the trials of the front stand in the order they were recorded; and along the front a larger
  model is strictly more accurate.\<close>

theorem pareto_front_correct:
  "(\<forall>p. p \<in> set (compute_pareto_front xs) \<longleftrightarrow> p \<in> set xs \<and>
      \<not> (\<exists>q \<in> set xs. pp_accuracy q \<ge> pp_accuracy p \<and> pp_size q < pp_size p) \<and>
      \<not> (\<exists>q \<in> set xs. pp_accuracy q > pp_accuracy p \<and> pp_size q \<le> pp_size p)) \<and>
   (\<forall>x \<in> set xs. \<exists>p \<in> set (compute_pareto_front xs). pp_accuracy p \<ge> pp_accuracy x \<and> pp_size p \<le> pp_size x) \<and>
   subseq (compute_pareto_front xs) xs \<and>
   (\<forall>p \<in> set (compute_pareto_front xs). \<forall>q \<in> set (compute_pareto_front xs). pp_size p < pp_size q \<longleftrightarrow> pp_accuracy p < pp_accuracy q)"
proof (intro conjI)
  show front: "\<forall>p. p \<in> set (compute_pareto_front xs) \<longleftrightarrow> p \<in> set xs \<and>
      \<not> (\<exists>q \<in> set xs. pp_accuracy q \<ge> pp_accuracy p \<and> pp_size q < pp_size p) \<and>
      \<not> (\<exists>q \<in> set xs. pp_accuracy q > pp_accuracy p \<and> pp_size q \<le> pp_size p)"
    by (auto simp: compute_pareto_front_def point_dom_def list_ex_iff)
  show "\<forall>x \<in> set xs. \<exists>p \<in> set (compute_pareto_front xs). pp_accuracy p \<ge> pp_accuracy x \<and> pp_size p \<le> pp_size x"
    using points.dominated_by_front [of _ xs] unfolding compute_pareto_front_eq [symmetric] by (metis order_refl point_dom_def)
  show "subseq (compute_pareto_front xs) xs" by (simp add: compute_pareto_front_def subseq_filter_left)
  show "\<forall>p \<in> set (compute_pareto_front xs). \<forall>q \<in> set (compute_pareto_front xs). pp_size p < pp_size q \<longleftrightarrow> pp_accuracy p < pp_accuracy q"
    using front by (meson not_le)
qed

definition demo_point :: "nat \<Rightarrow> real \<Rightarrow> nat \<Rightarrow> pareto_point" where
  "demo_point i acc sz = \<lparr>pp_trial_number = i, pp_accuracy = acc, pp_size = sz, pp_latency = 1, pp_config = [],
     pp_accuracy_retention = 1, pp_size_ratio = 1, pp_speedup = 1, pp_weights_bytes = sz, pp_weights_ratio = 1\<rparr>"

theorem pareto_front_correct_witness:
  "let front = compute_pareto_front [demo_point 0 (1 / 2) 50, demo_point 1 (1 / 2) 100, demo_point 2 (3 / 4) 100, demo_point 3 (1 / 4) 80]
   in demo_point 0 (1 / 2) 50 \<in> set front \<and> demo_point 1 (1 / 2) 100 \<notin> set front \<and>
      demo_point 2 (3 / 4) 100 \<in> set front \<and> demo_point 3 (1 / 4) 80 \<notin> set front"
  unfolding Let_def pareto_front_correct [THEN conjunct1, rule_format] by (simp add: demo_point_def)

text \<open>A search stays within its budget: no more trials than \<open>n_trials\<close>, which the ceiling
  bounds when the budget is adaptive; every recorded point belongs to a different trial that ran;
  and every point of the frontier is a recorded one.\<close>

theorem search_within_budget:
  assumes "search se sc g gi sens = Some (Inr r)"
  shows "int (pr_n_trials_completed r) \<le> max 0 (pr_n_trials r) \<and>
    (sc_adaptive sc \<longrightarrow> pr_n_trials r \<le> sc_max_trials sc) \<and>
    distinct (map pp_trial_number (pr_all_trials r)) \<and>
    (\<forall>p \<in> set (pr_all_trials r). pp_trial_number p < pr_n_trials_completed r) \<and>
    set (pr_pareto_points r) \<subseteq> set (pr_all_trials r)"
  using search_result [OF assms] by auto

definition demo_search :: search_config where
  "demo_search = \<lparr>sc_n_trials = 3, sc_allow_pruning = False, sc_adaptive = True, sc_trials_per_dim = 10,
     sc_startup_trials = 10, sc_min_trials = 30, sc_max_trials = 1, sc_early_stop = False, sc_hv_patience = 20,
     sc_hv_epsilon = 1 / 1000\<rparr>"

definition demo_senv :: search_env where
  "demo_senv = \<lparr>se_ort_latency = (\<lambda>g. 0), se_eval = (\<lambda>g. ok 1),
     se_sampler = (\<lambda>h n. \<lparr>tr_number = n, tr_precision = (\<lambda>k ps. hd ps), tr_prune = (\<lambda>k lo hi. lo), tr_fuse = (\<lambda>k. False)\<rparr>),
     se_best_trials = (\<lambda>h. map fst h), se_hv = None, se_np = demo_np,
     se_ox = \<lparr>ox_convert_version = \<lambda>g v. None, ox_infer_shapes = \<lambda>g. None\<rparr>, se_byte_size = (\<lambda>g. 10)\<rparr>"

lemma demo_search_runs: "case search demo_senv demo_search one_weight demo_gi demo_profile1 of
    Some (Inr r) \<Rightarrow> pr_n_trials r = 1 | _ \<Rightarrow> False"
  by (simp add: search_def demo_senv_def demo_search_def demo_gi_def compressible_operators_def demo_op_def budget_def
      objective_def op_config_def space_of_def action_spaces_def dict_of_def get_action_space_def
      demo_profile1_def get_protection_set_def ranked_def n_protect_def is_protected_op_def is_tiny_def template_defs
      TINY_OP_BYTES_SHARE_def fuse_live_def FUSE_EFFECTIVE_CATEGORIES_def precision_of_value_def trial_actions_def
      is_no_compression_def early_stop_def Let_def split: prod.split)

theorem search_within_budget_witness:
  "case search demo_senv demo_search one_weight demo_gi demo_profile1 of
    Some (Inr r) \<Rightarrow> pr_n_trials_completed r \<le> 1 | _ \<Rightarrow> False"
  using demo_search_runs search_within_budget [of demo_senv demo_search one_weight demo_gi demo_profile1]
  by (auto split: option.splits sum.splits)

end
