(* ===== verification/Formats.thy ===== *)
theory Formats
  imports Prelude
begin

text \<open>
  File names and formats: the capability table of \<open>app/services/capabilities.py\<close>, the format and
  the display name of \<open>formats.py\<close>, the family hints of \<open>family.py\<close> and the upload checks of
  \<open>limits.py\<close>.
\<close>

section \<open>Capabilities\<close>

datatype tier = Full | Convertible | Weights_Only

record capability =
  cp_format :: string
  cp_extensions :: "string list"
  cp_tier :: tier
  cp_pareto :: bool
  cp_real_latency :: bool
  cp_certificate :: bool
  cp_task_validation :: bool
  cp_llm_caveat :: bool
  cp_note :: string

definition cap :: "string \<Rightarrow> string list \<Rightarrow> tier \<Rightarrow> bool \<Rightarrow> bool \<Rightarrow> string \<Rightarrow> capability" where
  "cap f exts t measured llm note =
     \<lparr>cp_format = f, cp_extensions = exts, cp_tier = t, cp_pareto = measured, cp_real_latency = measured,
      cp_certificate = measured, cp_task_validation = False, cp_llm_caveat = llm,
      cp_note = ''common.capability.note'' @ note\<rparr>"

definition FORMAT_CAPABILITIES :: "capability list" where
  "FORMAT_CAPABILITIES =
     [cap ''ONNX'' [''.onnx''] Full True True ''.full'',
      cap ''PyTorch'' [''.pt'', ''.pth'', ''.bin'', ''.ckpt''] Full True True ''.pytorch'',
      cap ''TensorFlow'' [''.pb'', ''.h5'', ''.keras''] Convertible True False ''.convertible'',
      cap ''TFLite'' [''.tflite''] Convertible True False ''.convertible'',
      cap ''CoreML'' [''.mlmodel''] Weights_Only False False ''.weightsOnly'',
      cap ''Scikit-learn'' [''.pkl'', ''.joblib''] Full True False ''.full'',
      cap ''SafeTensors'' [''.safetensors''] Weights_Only False True ''.weightsOnly'',
      cap ''GGUF'' [''.gguf''] Weights_Only False True ''.gguf'']"

definition matches :: "string \<Rightarrow> capability \<Rightarrow> bool" where
  "matches lower c \<longleftrightarrow> list_ex (\<lambda>ext. suffix ext lower) (cp_extensions c)"

definition capability_for_filename :: "string \<Rightarrow> capability option" where
  "capability_for_filename file_name = find (matches (str_lower file_name)) FORMAT_CAPABILITIES"

definition format_for_filename :: "string \<Rightarrow> string" where
  "format_for_filename f = (case capability_for_filename f of Some c \<Rightarrow> cp_format c | None \<Rightarrow> ''ONNX'')"

definition infer_format :: "string \<Rightarrow> string \<times> string \<times> string" where
  "infer_format f =
     (case capability_for_filename f of
        None \<Rightarrow> (''ONNX'', ''Imported Model'', ''Imported Model'')
      | Some c \<Rightarrow> (cp_format c, cp_format c @ '' Imported Model'', cp_format c @ '' Imported Model''))"

section \<open>Names\<close>

definition is_executable :: "string option \<Rightarrow> bool" where
  "is_executable k = (case k of None \<Rightarrow> False | Some s \<Rightarrow> s \<noteq> '''' \<and> suffix ''.onnx'' s)"

text \<open>\<open>s[:s.rfind(c)]\<close>, and what follows the last \<open>c\<close>.\<close>

definition before_last :: "char \<Rightarrow> string \<Rightarrow> string" where
  "before_last c s = rev (drop 1 (dropWhile (\<lambda>x. x \<noteq> c) (rev s)))"

definition after_last :: "char \<Rightarrow> string \<Rightarrow> string" where
  "after_last c s = rev (takeWhile (\<lambda>x. x \<noteq> c) (rev s))"

definition display_name :: "string \<Rightarrow> string" where
  "display_name f =
     (let base = (if CHR ''.'' \<in> set f then before_last (CHR ''.'') f else f)
      in if base = '''' then ''Uploaded model'' else base)"

text \<open>\<open>Path(name).name\<close> and \<open>Path(name).suffix\<close>.\<close>

definition path_name :: "string \<Rightarrow> string" where
  "path_name s = after_last (CHR ''/'') (rev (dropWhile (\<lambda>c. c = CHR ''/'') (rev s)))"

definition path_suffix :: "string \<Rightarrow> string" where
  "path_suffix s =
     (let n = path_name s; ext = after_last (CHR ''.'') n
      in if CHR ''.'' \<in> set n \<and> before_last (CHR ''.'') n \<noteq> '''' \<and> ext \<noteq> '''' then CHR ''.'' # ext else '''')"

definition infer_family :: "string \<Rightarrow> string option \<Rightarrow> string option \<Rightarrow> string" where
  "infer_family model_id type_full fmt =
     (if prefix ''m_ggee_han'' model_id then ''han''
      else if prefix ''m_naratmalsame'' model_id then ''lstm''
      else if prefix ''m_ptkorea_qwen'' model_id then ''diffusion-t''
      else let t = str_lower (case type_full of None \<Rightarrow> '''' | Some s \<Rightarrow> s) in
        if str_in ''attention'' t \<or> str_in ''graph'' t then ''han''
        else if str_in ''lstm'' t \<or> str_in ''recurrent'' t \<or> str_in ''gru'' t then ''lstm''
        else if str_in ''decomposition'' t \<or> str_in ''diffusion'' t \<or> str_in ''transformer'' t then ''diffusion-t''
        else if str_in ''tree'' t \<or> str_in ''boost'' t \<or> str_in ''forest'' t then ''tree''
        else if fmt = Some ''Scikit-learn'' then ''tree'' else ''cnn'')"

definition family_from_file_name :: "string \<Rightarrow> string \<Rightarrow> string" where
  "family_from_file_name file_name fmt =
     (let t = str_lower file_name in
      if str_in ''lstm'' t \<or> str_in ''gru'' t \<or> str_in ''rnn'' t then ''lstm''
      else if str_in ''attn'' t \<or> str_in ''attention'' t \<or> str_in ''han'' t \<or> str_in ''transformer'' t then ''han''
      else if str_in ''diffusion'' t \<or> str_in ''dit'' t then ''diffusion-t''
      else if str_in ''tree'' t \<or> str_in ''boost'' t \<or> str_in ''forest'' t \<or> fmt = ''Scikit-learn'' then ''tree''
      else ''cnn'')"

section \<open>Upload checks\<close>

definition validate_upload :: "string list \<Rightarrow> string option \<Rightarrow> unit result" where
  "validate_upload allowed name =
     (if str_lower (path_suffix (case name of None \<Rightarrow> '''' | Some n \<Rightarrow> n)) \<notin> set allowed
      then raise (HTTPException 400 ''unsupported_format'') else ok ())"

definition enforce_size :: "nat \<Rightarrow> nat \<Rightarrow> unit result" where
  "enforce_size max_mb num_bytes =
     (if num_bytes > max_mb * 1024 * 1024 then raise (HTTPException 413 ''file_too_large'') else ok ())"

definition validate_feedback_image :: "string list \<Rightarrow> string option \<Rightarrow> unit result" where
  "validate_feedback_image allowed name =
     (if str_lower (path_suffix (case name of None \<Rightarrow> '''' | Some n \<Rightarrow> n)) \<notin> set allowed
      then raise (HTTPException 400 ''unsupported_image'') else ok ())"

definition enforce_image_size :: "nat \<Rightarrow> nat \<Rightarrow> unit result" where
  "enforce_image_size max_mb num_bytes =
     (if num_bytes > max_mb * 1024 * 1024 then raise (HTTPException 413 ''image_too_large'') else ok ())"

section \<open>Properties\<close>

text \<open>The routing of a file name is unambiguous: two capabilities of the table that match the
  same name are the same, so the order of the table does not matter.\<close>

theorem capability_unambiguous:
  assumes "c \<in> set FORMAT_CAPABILITIES" "c' \<in> set FORMAT_CAPABILITIES" "matches f c" "matches f c'"
  shows "c = c'"
proof -
  have "\<forall>c \<in> set FORMAT_CAPABILITIES. \<forall>c' \<in> set FORMAT_CAPABILITIES.
      \<forall>e \<in> set (cp_extensions c). \<forall>e' \<in> set (cp_extensions c'). suffix e e' \<longrightarrow> c = c'"
    by code_simp
  moreover obtain e e' where "e \<in> set (cp_extensions c)" "suffix e f" "e' \<in> set (cp_extensions c')" "suffix e' f"
    using assms(3,4) by (auto simp: matches_def list_ex_iff)
  moreover have "suffix e e' \<or> suffix e' e"
    by (rule suffix_same_cases) fact+
  ultimately show ?thesis using assms(1,2) by metis
qed

theorem capability_unambiguous_witness:
  "\<exists>c. find (matches ''model.pth'') FORMAT_CAPABILITIES = Some c \<and>
       (\<forall>c' \<in> set FORMAT_CAPABILITIES. matches ''model.pth'' c' \<longrightarrow> c' = c)"
proof -
  have "find (matches ''model.pth'') FORMAT_CAPABILITIES \<noteq> None"
    by (simp add: FORMAT_CAPABILITIES_def cap_def matches_def suffix_to_prefix)
  then obtain c where c: "find (matches ''model.pth'') FORMAT_CAPABILITIES = Some c" by blast
  with find_in_set [OF c] capability_unambiguous show ?thesis by blast
qed

end
