(* ===== verification/Storage.thy ===== *)
theory Storage
  imports Formats
begin

text \<open>
  Object storage, \<open>app/services/storage.py\<close>: the operations of the protocol \<open>StorageBackend\<close> on
  the local file tree and on an S3 bucket, and the key layout.  A backend's state is the list of
  its objects.  The locale \<open>storage_backend\<close> is the protocol with the laws the callers rely on; both
  backends are instances, and the deletion of a model's artifacts is proved from the laws once.
\<close>

type_synonym store = "(string \<times> string) list"

definition store_get :: "store \<Rightarrow> string \<Rightarrow> string option" where
  "store_get s k = map_of s k"

definition store_put :: "string \<Rightarrow> string \<Rightarrow> store \<Rightarrow> store" where
  "store_put k content s = AList.update k content s"

lemma store_get_put: "store_get (store_put k c st) k' = (if k' = k then Some c else store_get st k')"
  by (simp add: store_get_def store_put_def update_conv)

definition read_bytes :: "store \<Rightarrow> string \<Rightarrow> string result" where
  "read_bytes s k = (case store_get s k of Some c \<Rightarrow> ok c | None \<Rightarrow> raise (StorageError ''object not found''))"

definition open_stream :: "store \<Rightarrow> string \<Rightarrow> (string \<times> nat) result" where
  "open_stream s k = bind_result (read_bytes s k) (\<lambda>c. ok (c, length c))"

definition store_exists :: "store \<Rightarrow> string \<Rightarrow> bool" where
  "store_exists s k \<longleftrightarrow> store_get s k \<noteq> None"

definition store_delete :: "string \<Rightarrow> store \<Rightarrow> store" where
  "store_delete k s = filter (\<lambda>(j, _). j \<noteq> k) s"

text \<open>On the file tree a prefix that is a directory loses its whole subtree; otherwise the files
  of its parent directory whose name continues the prefix are removed.\<close>

definition strip_slash :: "string \<Rightarrow> string" where
  "strip_slash p = rev (dropWhile (\<lambda>c. c = CHR ''/'') (rev p))"

definition is_dir :: "store \<Rightarrow> string \<Rightarrow> bool" where
  "is_dir s p \<longleftrightarrow> list_ex (\<lambda>(j, _). prefix (strip_slash p @ ''/'') j) s"

definition local_delete_prefix :: "string \<Rightarrow> store \<Rightarrow> store" where
  "local_delete_prefix p s =
     (if is_dir s p then filter (\<lambda>(j, _). \<not> prefix (strip_slash p @ ''/'') j) s
      else filter (\<lambda>(j, _). \<not> (prefix p j \<and> CHR ''/'' \<notin> set (drop (length p) j))) s)"

definition s3_delete_prefix :: "string \<Rightarrow> store \<Rightarrow> store" where
  "s3_delete_prefix p s = filter (\<lambda>(j, _). \<not> prefix p j) s"

section \<open>Key layout\<close>

definition artifact_key :: "string \<Rightarrow> string \<Rightarrow> string" where
  "artifact_key model_id sfx = ''artifacts/'' @ model_id @ ''/'' @ model_id @ ''_compressed'' @ sfx"

definition artifact_prefix :: "string \<Rightarrow> string" where
  "artifact_prefix model_id = ''artifacts/'' @ model_id @ ''/''"

definition ingested_key :: "string \<Rightarrow> string" where
  "ingested_key model_id = ''artifacts/'' @ model_id @ ''/'' @ model_id @ ''_ingested.onnx''"

definition trial_artifact_key :: "string \<Rightarrow> nat \<Rightarrow> string" where
  "trial_artifact_key model_id n =
     ''artifacts/'' @ model_id @ ''/pareto/'' @ model_id @ ''_trial'' @ zero_pad 3 (str_of_nat n) @ ''.onnx''"

definition source_key :: "string \<Rightarrow> string \<Rightarrow> string" where
  "source_key token file_name = ''uploads/'' @ token @ ''_'' @ path_name file_name"

definition feedback_attachment_key :: "string \<Rightarrow> string \<Rightarrow> string" where
  "feedback_attachment_key feedback_id file_name = ''feedback/'' @ feedback_id @ ''/'' @ path_name file_name"

text \<open>The keys of a model.\<close>

definition model_key :: "string \<Rightarrow> string \<Rightarrow> bool" where
  "model_key model_id k \<longleftrightarrow> (\<exists>sfx. k = artifact_key model_id sfx) \<or> k = ingested_key model_id \<or>
     (\<exists>n. k = trial_artifact_key model_id n)"

lemma segment_prefix:
  assumes "CHR ''/'' \<notin> set m" "CHR ''/'' \<notin> set m'" "prefix (m @ ''/'') (m' @ ''/'')"
  shows "m = m'"
proof -
  let ?P = "\<lambda>c. c \<noteq> CHR ''/''"
  obtain zs where zs: "m' @ ''/'' = m @ ''/'' @ zs" using assms(3) by (auto simp: prefix_def)
  have t: "takeWhile ?P (x @ CHR ''/'' # ys) = x" if "CHR ''/'' \<notin> set x" for x ys
  proof -
    have "\<And>c. c \<in> set x \<Longrightarrow> ?P c" using that by auto
    then show ?thesis by (simp add: takeWhile_append2)
  qed
  have "m' = takeWhile ?P (m' @ ''/'')" using t [OF assms(2), of "[]"] by simp
  also have "\<dots> = m" unfolding zs using t [OF assms(1), of zs] by simp
  finally show ?thesis by simp
qed

section \<open>The contract\<close>

locale storage_backend =
  fixes get :: "'s \<Rightarrow> string \<Rightarrow> string option"
    and put :: "string \<Rightarrow> string \<Rightarrow> 's \<Rightarrow> 's"
    and del :: "string \<Rightarrow> 's \<Rightarrow> 's"
    and del_prefix :: "string \<Rightarrow> 's \<Rightarrow> 's"
  assumes get_put: "get (put k c s) j = (if j = k then Some c else get s j)"
    and get_del: "get (del k s) j = (if j = k then None else get s j)"
    and get_del_prefix: "p \<noteq> '''' \<Longrightarrow> last p = CHR ''/'' \<Longrightarrow> \<not> suffix ''//'' p \<Longrightarrow>
      get (del_prefix p s) j = (if prefix p j then None else get s j)"
begin

lemma put_del: "get (del k (put k c s)) j = get (del k s) j"
  by (simp add: get_put get_del)

lemma last_put_wins: "get (put k c' (put k c s)) j = get (put k c' s) j"
  by (simp add: get_put)

lemma delete_artifacts:
  assumes "CHR ''/'' \<notin> set m" "CHR ''/'' \<notin> set m'" "m \<noteq> ''''"
  shows "(model_key m k \<longrightarrow> get (del_prefix (artifact_prefix m) s) k = None) \<and>
    (model_key m' k \<and> m' \<noteq> m \<longrightarrow> get (del_prefix (artifact_prefix m) s) k = get s k)"
proof -
  have p: "artifact_prefix m \<noteq> ''''" "last (artifact_prefix m) = CHR ''/''" "\<not> suffix ''//'' (artifact_prefix m)"
    using assms by (auto simp: artifact_prefix_def suffix_to_prefix Cons_prefix_Cons
        dest!: arg_cong [of _ _ set] split: list.splits simp: prefix_Cons)
      (cases m rule: rev_cases; auto)+
  have own: "prefix (artifact_prefix m) k" if "model_key m k" for m k
    using that by (auto simp: model_key_def artifact_key_def ingested_key_def trial_artifact_key_def artifact_prefix_def)
  have "\<not> prefix (artifact_prefix m) k" if k: "model_key m' k" "m' \<noteq> m"
  proof
    assume "prefix (artifact_prefix m) k"
    with own [OF k(1)] have "prefix (artifact_prefix m) (artifact_prefix m') \<or> prefix (artifact_prefix m') (artifact_prefix m)"
      by (meson prefix_same_cases)
    then have "prefix (m @ ''/'') (m' @ ''/'') \<or> prefix (m' @ ''/'') (m @ ''/'')"
      by (simp add: artifact_prefix_def)
    then have "m = m'" using segment_prefix assms(1,2) by metis
    with k(2) show False by simp
  qed
  with own p show ?thesis by (auto simp: get_del_prefix)
qed

end

lemma map_of_filter_key: "map_of (filter (\<lambda>(j, _). P j) s) k = (if P k then map_of s k else None)"
  by (induction s) auto

lemma strip_slash_dir: "p \<noteq> '''' \<Longrightarrow> last p = CHR ''/'' \<Longrightarrow> \<not> suffix ''//'' p \<Longrightarrow> strip_slash p @ ''/'' = p"
proof -
  assume p: "p \<noteq> ''''" "last p = CHR ''/''" "\<not> suffix ''//'' p"
  then obtain q where q: "p = q @ ''/''" by (metis append_butlast_last_id)
  with p(3) have "q = [] \<or> last q \<noteq> CHR ''/''"
    by (cases q rule: rev_cases) (auto simp: suffix_def)
  then show ?thesis by (cases q rule: rev_cases) (auto simp: strip_slash_def q)
qed

interpretation s3: storage_backend store_get store_put store_delete s3_delete_prefix
  by unfold_locales
    (auto simp: store_get_def store_put_def store_delete_def s3_delete_prefix_def update_conv' map_of_filter_key)

lemma local_delete_prefix_dir:
  assumes "p \<noteq> ''''" "last p = CHR ''/''" "\<not> suffix ''//'' p"
  shows "local_delete_prefix p s = s3_delete_prefix p s"
  using strip_slash_dir [OF assms]
  by (auto simp: local_delete_prefix_def s3_delete_prefix_def is_dir_def list_ex_iff intro!: filter_cong)

interpretation local: storage_backend store_get store_put store_delete local_delete_prefix
proof unfold_locales
  fix p s j assume "p \<noteq> ''''" "last p = CHR ''/''" "\<not> suffix ''//'' p"
  then show "store_get (local_delete_prefix p s) j = (if prefix p j then None else store_get s j)"
    using s3.get_del_prefix by (simp add: local_delete_prefix_dir)
qed (simp_all add: s3.get_put s3.get_del)

text \<open>Deleting a model's artifact prefix removes exactly its own objects: on both backends
  the compressed artifact, the ingested graph and every exported trial of the model are gone, and the
  objects of any other model stay, also when one id is a prefix of the other.\<close>

theorem delete_prefix_exact:
  assumes "CHR ''/'' \<notin> set m" "CHR ''/'' \<notin> set m'" "m \<noteq> ''''" "m' \<noteq> m"
  shows "(model_key m k \<longrightarrow> store_get (local_delete_prefix (artifact_prefix m) s) k = None \<and>
       store_get (s3_delete_prefix (artifact_prefix m) s) k = None) \<and>
    (model_key m' k \<longrightarrow> store_get (local_delete_prefix (artifact_prefix m) s) k = store_get s k \<and>
       store_get (s3_delete_prefix (artifact_prefix m) s) k = store_get s k)"
  using s3.delete_artifacts [OF assms(1,2,3)] local.delete_artifacts [OF assms(1,2,3)] assms(4) by blast

theorem delete_prefix_exact_witness:
  "store_get (local_delete_prefix (artifact_prefix ''m1'') [(ingested_key ''m10'', ''x'')]) (ingested_key ''m10'') = Some ''x''"
  using delete_prefix_exact [of "''m1''" "''m10''" "ingested_key ''m10''" "[(ingested_key ''m10'', ''x'')]"]
  by (simp add: model_key_def store_get_def)

end
