(* ===== verification/Py_Time.thy ===== *)
theory Py_Time
  imports Prelude
begin

text \<open>
  Instants as microseconds since 1970 in UTC, the text form of \<open>app/config.py:iso\<close>, and
  \<open>datetime.fromisoformat\<close> in the grammar of Python 3.10: a date, then optionally any separator,
  a time of day down to microseconds and an offset.  A parsed value is the local instant and the
  offset, \<open>None\<close> for a naive one.
\<close>

section \<open>The civil calendar\<close>

definition days_from_civil :: "int \<Rightarrow> int \<Rightarrow> int \<Rightarrow> int" where
  "days_from_civil y m d =
     (let y' = (if m \<le> 2 then y - 1 else y); era = y' div 400; yoe = y' mod 400;
          doy = (153 * (if m > 2 then m - 3 else m + 9) + 2) div 5 + d - 1;
          doe = yoe * 365 + yoe div 4 - yoe div 100 + doy
      in era * 146097 + doe - 719468)"

definition civil_from_days :: "int \<Rightarrow> int \<times> int \<times> int" where
  "civil_from_days z0 =
     (let z = z0 + 719468; era = z div 146097; doe = z mod 146097;
          yoe = (doe - doe div 1460 + doe div 36524 - doe div 146096) div 365;
          doy = doe - (365 * yoe + yoe div 4 - yoe div 100);
          mp = (5 * doy + 2) div 153;
          d = doy - (153 * mp + 2) div 5 + 1;
          m = (if mp < 10 then mp + 3 else mp - 9)
      in (yoe + era * 400 + (if m \<le> 2 then 1 else 0), m, d))"

definition leap_year :: "int \<Rightarrow> bool" where
  "leap_year y \<longleftrightarrow> y mod 4 = 0 \<and> (y mod 100 \<noteq> 0 \<or> y mod 400 = 0)"

definition days_in_month :: "int \<Rightarrow> int \<Rightarrow> int" where
  "days_in_month y m =
     (if m = 2 then (if leap_year y then 29 else 28) else if m \<in> {4, 6, 9, 11} then 30 else 31)"

type_synonym instant = int

definition SECOND :: int where "SECOND = 1000000"
definition MINUTE :: int where "MINUTE = 60 * SECOND"
definition DAY :: int where "DAY = 86400 * SECOND"

lemma time_units [simp]: "0 < SECOND" "0 < MINUTE" "0 < DAY"
  by (simp_all add: SECOND_def MINUTE_def DAY_def)

section \<open>iso\<close>

definition pad_int :: "nat \<Rightarrow> int \<Rightarrow> string" where
  "pad_int w n = zero_pad w (str_of_nat (nat n))"

definition iso :: "instant \<Rightarrow> string" where
  "iso t =
     (let (y, m, d) = civil_from_days (t div DAY); us = t mod DAY; s = us div SECOND
      in pad_int 4 y @ ''-'' @ pad_int 2 m @ ''-'' @ pad_int 2 d @ ''T'' @
         pad_int 2 (s div 3600) @ '':'' @ pad_int 2 (s div 60 mod 60) @ '':'' @ pad_int 2 (s mod 60) @ ''.'' @
         pad_int 3 (us mod SECOND div 1000) @ ''Z'')"

section \<open>fromisoformat\<close>

definition is_digit :: "char \<Rightarrow> bool" where
  "is_digit c \<longleftrightarrow> 48 \<le> (of_char c :: nat) \<and> (of_char c :: nat) \<le> 57"

definition take_num :: "nat \<Rightarrow> string \<Rightarrow> (int \<times> string) option" where
  "take_num k s =
     (if length s \<ge> k \<and> list_all is_digit (take k s) then Some (int (nat_of_str (take k s)), drop k s) else None)"

definition expect :: "char \<Rightarrow> string \<Rightarrow> string option" where
  "expect c s = (case s of [] \<Rightarrow> None | x # xs \<Rightarrow> if x = c then Some xs else None)"

definition parse_date :: "string \<Rightarrow> (int \<times> string) option" where
  "parse_date s =
     Option.bind (take_num 4 s) (\<lambda>(y, s1). Option.bind (expect (CHR ''-'') s1) (\<lambda>s2.
     Option.bind (take_num 2 s2) (\<lambda>(m, s3). Option.bind (expect (CHR ''-'') s3) (\<lambda>s4.
     Option.bind (take_num 2 s4) (\<lambda>(d, s5).
       if 1 \<le> y \<and> 1 \<le> m \<and> m \<le> 12 \<and> 1 \<le> d \<and> d \<le> days_in_month y m
       then Some (days_from_civil y m d, s5) else None)))))"

text \<open>The fraction has three or six digits.\<close>

definition parse_fraction :: "string \<Rightarrow> int option" where
  "parse_fraction s =
     (case s of
        [] \<Rightarrow> Some 0
      | c # f \<Rightarrow>
          if c \<noteq> CHR ''.'' then None
          else if length f = 3 then map_option (\<lambda>(n, _). n * 1000) (take_num 3 f)
          else if length f = 6 then map_option fst (take_num 6 f) else None)"

definition parse_clock :: "string \<Rightarrow> instant option" where
  "parse_clock s =
     Option.bind (take_num 2 s) (\<lambda>(h, s1). if h > 23 then None
       else if s1 = [] then Some (h * 3600 * SECOND)
       else Option.bind (expect (CHR '':'') s1) (\<lambda>s2. Option.bind (take_num 2 s2) (\<lambda>(mi, s3). if mi > 59 then None
         else if s3 = [] then Some ((h * 3600 + mi * 60) * SECOND)
         else Option.bind (expect (CHR '':'') s3) (\<lambda>s4. Option.bind (take_num 2 s4) (\<lambda>(sec, s5). if sec > 59 then None
           else map_option (\<lambda>us. (h * 3600 + mi * 60 + sec) * SECOND + us) (parse_fraction s5))))))"

definition parse_offset :: "string \<Rightarrow> instant option option" where
  "parse_offset s =
     (case s of
        [] \<Rightarrow> Some None
      | c # rest \<Rightarrow> map_option (\<lambda>t. Some (if c = CHR ''-'' then - t else t))
                     (if length rest \<notin> {5, 8, 15} then None else parse_clock rest))"

definition fromisoformat :: "string \<Rightarrow> (instant \<times> instant option) option" where
  "fromisoformat s =
     Option.bind (parse_date s) (\<lambda>(days, rest).
       case rest of
         [] \<Rightarrow> Some (days * DAY, None)
       | _ # t \<Rightarrow>
           let sign = (\<lambda>c. c \<noteq> CHR ''+'' \<and> c \<noteq> CHR ''-'')
           in Option.bind (parse_clock (takeWhile sign t)) (\<lambda>us.
              Option.bind (parse_offset (dropWhile sign t)) (\<lambda>off. Some (days * DAY + us, off))))"

text \<open>\<open>ts.replace("Z", "+00:00")\<close>, and the instant of a value, naive ones read as UTC.\<close>

definition replace_z :: "string \<Rightarrow> string" where
  "replace_z s = concat (map (\<lambda>c. if c = CHR ''Z'' then ''+00:00'' else [c]) s)"

definition as_utc :: "instant \<times> instant option \<Rightarrow> instant" where
  "as_utc p = (case snd p of None \<Rightarrow> fst p | Some off \<Rightarrow> fst p - off)"

text \<open>\<open>now - p\<close> for a \<open>now\<close> with a zone: Python refuses to mix aware and naive values.\<close>

definition since :: "instant \<Rightarrow> instant \<times> instant option \<Rightarrow> int result" where
  "since now p = (case snd p of None \<Rightarrow> raise TypeError | Some off \<Rightarrow> ok (now - (fst p - off)))"

text \<open>\<open>astimezone(utc)\<close> reads a naive value in the zone of the machine, a parameter.\<close>

definition to_utc :: "(instant \<Rightarrow> instant) \<Rightarrow> instant \<times> instant option \<Rightarrow> instant" where
  "to_utc zone p = (case snd p of None \<Rightarrow> zone (fst p) | Some off \<Rightarrow> fst p - off)"

definition parse_ts :: "string \<Rightarrow> (instant \<times> instant option) option" where
  "parse_ts s = fromisoformat (replace_z s)"

definition parse_z :: "string \<Rightarrow> instant option" where
  "parse_z s = map_option as_utc (fromisoformat (replace_z s))"

lemma parse_z_examples:
  "parse_z ''1970-01-02T00:00:01.500Z'' = Some (DAY + 1500000)"
  "parse_z ''1970-01-01T09:00:00+09:00'' = Some 0"
  "fromisoformat ''1970-01-01T00:00:00.000Z'' = None"
  "iso 1785542399123456 = ''2026-07-31T23:59:59.123Z''"
  by code_simp+

text \<open>From Python 3.11 on a final \<open>Z\<close> is an offset too.\<close>

definition fromisoformat_311 :: "string \<Rightarrow> (instant \<times> instant option) option" where
  "fromisoformat_311 s =
     (if s \<noteq> [] \<and> last s = CHR ''Z''
      then (case fromisoformat (butlast s) of Some (t, None) \<Rightarrow> Some (t, Some 0) | _ \<Rightarrow> None)
      else fromisoformat s)"

section \<open>A final Z\<close>

definition ends_z :: "string \<Rightarrow> bool" where
  "ends_z s \<longleftrightarrow> s \<noteq> [] \<and> last s = CHR ''Z''"

lemma not_digit_z: "\<not> is_digit (CHR ''Z'')"
  by (simp add: is_digit_def)

lemma take_num_ends_z: "take_num k s = Some (n, r) \<Longrightarrow> ends_z s \<Longrightarrow> ends_z r"
proof -
  assume t: "take_num k s = Some (n, r)" "ends_z s"
  then have r: "r = drop k s" "list_all is_digit (take k s)" by (auto simp: take_num_def split: if_splits)
  show "ends_z r"
  proof (cases "drop k s = []")
    case True
    then have "last s \<in> set (take k s)" using t(2) last_in_set [of s] by (simp add: ends_z_def)
    with r(2) have "is_digit (last s)" by (simp add: list_all_iff)
    with t(2) not_digit_z show ?thesis by (simp add: ends_z_def)
  next
    case False
    with t(2) r(1) show ?thesis by (auto simp: ends_z_def last_drop)
  qed
qed

lemma expect_ends_z: "expect c s = Some r \<Longrightarrow> ends_z s \<Longrightarrow> c \<noteq> CHR ''Z'' \<Longrightarrow> ends_z r"
  by (auto simp: expect_def ends_z_def split: list.splits if_splits)

lemma take_num_all: "take_num k s = Some (n, []) \<Longrightarrow> \<not> ends_z s"
  using take_num_ends_z [of k s n "[]"] by (auto simp: ends_z_def)

lemma parse_fraction_ends_z: "ends_z s \<Longrightarrow> parse_fraction s = None"
proof -
  assume z: "ends_z s"
  then obtain c f where s: "s = c # f" by (cases s) (auto simp: ends_z_def)
  have "\<not> list_all is_digit (take k f)" if "length f = k" "0 < k" for k
  proof
    assume "list_all is_digit (take k f)"
    moreover have "last f \<in> set f" using that by (cases f) auto
    moreover have "last f = CHR ''Z''" using z s that by (auto simp: ends_z_def)
    ultimately show False using not_digit_z that by (auto simp: list_all_iff)
  qed
  from this [of 3] this [of 6] show ?thesis using s z
    by (cases "f = []") (auto simp: parse_fraction_def take_num_def ends_z_def)
qed

lemma parse_clock_ends_z: "ends_z s \<Longrightarrow> parse_clock s = None"
proof (rule ccontr)
  assume z: "ends_z s" and "parse_clock s \<noteq> None"
  then obtain h s1 where s1: "take_num 2 s = Some (h, s1)" by (auto simp: parse_clock_def split: bind_splits)
  have z1: "ends_z s1" by (rule take_num_ends_z [OF s1 z])
  with \<open>parse_clock s \<noteq> None\<close> s1 obtain s2 mi s3 where s3: "expect (CHR '':'') s1 = Some s2" "take_num 2 s2 = Some (mi, s3)"
    by (auto simp: parse_clock_def ends_z_def split: bind_splits if_splits)
  have z3: "ends_z s3" by (rule take_num_ends_z [OF s3(2) expect_ends_z [OF s3(1) z1]]) simp
  with \<open>parse_clock s \<noteq> None\<close> s1 s3 z1 obtain s4 sec s5 us where
    s5: "expect (CHR '':'') s3 = Some s4" "take_num 2 s4 = Some (sec, s5)" "parse_fraction s5 = Some us"
    by (auto simp: parse_clock_def ends_z_def split: bind_splits if_splits)
  have "ends_z s5" by (rule take_num_ends_z [OF s5(2) expect_ends_z [OF s5(1) z3]]) simp
  with parse_fraction_ends_z s5(3) show False by simp
qed

lemma ends_z_suffix: "ends_z (x @ y) \<Longrightarrow> y \<noteq> [] \<Longrightarrow> ends_z y"
  by (auto simp: ends_z_def)

text \<open>The 3.10 parser takes no text that ends in Z, the form every stored timestamp has.\<close>

lemma fromisoformat_ends_z: "ends_z s \<Longrightarrow> fromisoformat s = None"
proof (rule ccontr)
  assume z: "ends_z s" and "fromisoformat s \<noteq> None"
  then obtain days rest where d: "parse_date s = Some (days, rest)" by (auto simp: fromisoformat_def split: bind_splits)
  have zr: "ends_z rest"
    using d z by (auto simp: parse_date_def split: bind_splits if_splits
        dest!: take_num_ends_z expect_ends_z)
  then obtain c t where r: "rest = c # t" by (cases rest) (auto simp: ends_z_def)
  let ?sign = "\<lambda>c. c \<noteq> CHR ''+'' \<and> c \<noteq> CHR ''-''"
  from \<open>fromisoformat s \<noteq> None\<close> d r obtain us off where
    u: "parse_clock (takeWhile ?sign t) = Some us" "parse_offset (dropWhile ?sign t) = Some off"
    by (auto simp: fromisoformat_def Let_def split: bind_splits)
  have "t \<noteq> []" using u(1) by (auto simp: parse_clock_def take_num_def)
  then have zt: "ends_z t" using zr r by (simp add: ends_z_def)
  show False
  proof (cases "dropWhile ?sign t")
    case Nil
    then have "takeWhile ?sign t = t" by (metis append.right_neutral takeWhile_dropWhile_id)
    with parse_clock_ends_z [OF zt] u(1) show False by simp
  next
    case (Cons x xs)
    have "ends_z (takeWhile ?sign t @ (x # xs))" using zt Cons takeWhile_dropWhile_id [of ?sign t] by simp
    then have "ends_z (x # xs)" by (rule ends_z_suffix) simp
    moreover have "\<not> ?sign x" using hd_dropWhile [of ?sign t] Cons by simp
    ultimately have "ends_z xs" by (cases xs) (auto simp: ends_z_def)
    with parse_clock_ends_z u(2) Cons show False by (auto simp: parse_offset_def split: if_splits)
  qed
qed

lemma iso_ends_z: "ends_z (iso t)"
  by (simp add: iso_def ends_z_def Let_def split: prod.splits)

end
