(* ===== verification/Db_Rows.thy ===== *)
theory Db_Rows
  imports Py_Time
begin

text \<open>
  The tables of \<open>app/dbmodels.py\<close> as records of rows, and the database as a record of row lists in
  insertion order.  A request handler runs against one database value; where it commits more
  than once, its theory splits it into one step per commit.
\<close>

record model_row =
  md_id :: string
  md_user :: string
  md_name :: string
  md_type_full :: string
  md_type_short :: string
  md_format :: string
  md_last_learned :: string
  md_last_optimized :: "string option"
  md_status :: string
  md_best_accuracy :: "real option"
  md_is_deployed :: bool
  md_description :: "string option"
  md_run :: "string option"              \<comment> \<open>\<open>analysis_run_id\<close>\<close>
  md_family :: string
  md_weights_only :: bool
  md_artifact_key :: "string option"
  md_source_key :: "string option"
  md_artifact_sha :: "string option"
  md_artifact_size :: "nat option"

record run_row =
  rn_id :: string
  rn_user :: string
  rn_model :: string
  rn_name :: string
  rn_status :: string
  rn_progress :: int
  rn_iter :: "int \<times> int"                \<comment> \<open>the text \<open>done / total\<close>\<close>
  rn_best_acc :: real
  rn_delta_acc :: real
  rn_created :: string

record ingestion_run_row =
  ir_id :: string
  ir_user :: string
  ir_model :: string
  ir_file :: string
  ir_started :: string
  ir_status :: string
  ir_progress :: int
  ir_error :: "string option"
  ir_finished :: "string option"

record log_row =
  lg_run :: string
  lg_seq :: nat
  lg_ts :: string
  lg_level :: string
  lg_message :: string

text \<open>The cached payloads the modelled code reads back: the benchmark, the trials of a search, the
  drift reference, and anything else as text.\<close>

record input_stat =
  is_mean :: real
  is_std :: real

record window_stat = input_stat +
  ws_min :: real
  ws_max :: real
  ws_nan_pct :: real

text \<open>JSON values; the numbers are finite.\<close>

datatype json = JNull | JBool bool | JNum real | JStr string | JList "json list" | JObj "(string \<times> json) list"

record drift_ref =
  df_class_dist :: "(string \<times> real) list"
  df_inputs :: "(string \<times> input_stat) list"
  df_windows :: nat

text \<open>What the readers look up of a trial and of the record of a served artifact.\<close>

record trial_cell =
  tc_number :: int
  tc_accuracy :: real
  tc_latency :: real
  tc_frontier :: bool

record artifact_record =
  am_source :: string
  am_rung :: "string option"
  am_trial :: "int option"
  am_accuracy :: "real option"
  am_ratio :: "real option"
  am_bytes :: "nat option"
  am_ofs :: "real option"

record stored_config =
  so_precision :: string
  so_prune :: real
  so_fuse :: bool

datatype payload =
    PBenchmark "real option" "real option" "real option"   \<comment> \<open>original p95, compressed p95, agreement\<close>
  | PPareto "trial_cell list" "real option" "real option" \<comment> \<open>trials, base accuracy, drop budget\<close>
  | PMeta artifact_record
  | PConfigs "(string \<times> (string \<times> stored_config) list) list" \<comment> \<open>configurations per trial number\<close>
  | PDriftRef drift_ref
  | PMalformed
  | PText string

record cache_row =
  rc_user :: string
  rc_model :: string
  rc_kind :: string
  rc_payload :: payload

record deployment_row =
  dp_id :: string
  dp_user :: string
  dp_model :: string
  dp_name :: string
  dp_description :: string
  dp_endpoint :: string
  dp_region :: string
  dp_qps :: real
  dp_p95 :: real
  dp_errors_pct :: real
  dp_accuracy_drift :: real
  dp_status :: string
  dp_created :: string
  dp_last_event :: "string option"

record event_row =
  ev_user :: string
  ev_model :: string
  ev_deployment :: string
  ev_ts :: string
  ev_latency :: real
  ev_success :: bool
  ev_error :: "string option"
  ev_batch_size :: nat
  ev_region :: string
  ev_source :: string
  ev_pre :: "real option"
  ev_post :: "real option"
  ev_client :: "string option"
  ev_input_sig :: "string option"

record snapshot_row =
  sn_user :: string
  sn_model :: string
  sn_deployment :: string
  sn_client :: string
  sn_ts :: string
  sn_cpu :: real
  sn_rss :: real
  sn_throughput :: real
  sn_dropped :: int
  sn_sdk_version :: string
  sn_runtime :: "(string \<times> json) list"
  sn_gpu_util :: "real option"
  sn_gpu_mem :: "real option"
  sn_gpu_temp :: "real option"

text \<open>A window's two JSON columns; \<open>None\<close> is a text that does not parse.\<close>

record window_row =
  wn_user :: string
  wn_model :: string
  wn_deployment :: string
  wn_client :: string
  wn_start :: string
  wn_end :: string
  wn_n :: nat
  wn_inputs :: "(string \<times> window_stat) list option"
  wn_output :: "(string \<times> json) list option"

record api_key_row =
  ak_id :: string
  ak_user :: string
  ak_deployment :: string
  ak_hash :: string
  ak_prefix :: string
  ak_created :: string
  ak_last_used :: "string option"
  ak_revoked :: bool

record rollup_row =
  ro_deployment :: string
  ro_bucket :: string
  ro_count :: nat
  ro_errors :: nat
  ro_sum_latency :: real
  ro_p50 :: real
  ro_p95 :: real
  ro_p99 :: real

record batch_row =
  ba_id :: string
  ba_deployment :: string
  ba_received :: string
  ba_events :: nat
  ba_snapshots :: nat
  ba_windows :: nat
  ba_dropped :: nat

record alert_row =
  al_id :: string
  al_user :: string
  al_model :: string
  al_level :: string
  al_title :: string
  al_at :: string

record activity_row =
  ac_id :: string
  ac_user :: string
  ac_kind :: string
  ac_timestamp :: string

record db =
  t_models :: "model_row list"
  t_runs :: "run_row list"
  t_ingestions :: "ingestion_run_row list"
  t_logs :: "log_row list"
  t_cache :: "cache_row list"
  t_deployments :: "deployment_row list"
  t_events :: "event_row list"
  t_snapshots :: "snapshot_row list"
  t_windows :: "window_row list"
  t_keys :: "api_key_row list"
  t_rollups :: "rollup_row list"
  t_batches :: "batch_row list"
  t_alerts :: "alert_row list"
  t_activities :: "activity_row list"

definition empty_db :: db where
  "empty_db = \<lparr>t_models = [], t_runs = [], t_ingestions = [], t_logs = [], t_cache = [], t_deployments = [],
     t_events = [], t_snapshots = [], t_windows = [], t_keys = [], t_rollups = [], t_batches = [],
     t_alerts = [], t_activities = []\<rparr>"

section \<open>Lookups and row updates\<close>

definition get_model_row :: "db \<Rightarrow> string \<Rightarrow> model_row option" where
  "get_model_row d k = find (\<lambda>m. md_id m = k) (t_models d)"

definition get_run :: "db \<Rightarrow> string \<Rightarrow> ingestion_run_row option" where
  "get_run d k = find (\<lambda>r. ir_id r = k) (t_ingestions d)"

definition get_deployment :: "db \<Rightarrow> string \<Rightarrow> deployment_row option" where
  "get_deployment d k = find (\<lambda>x. dp_id x = k) (t_deployments d)"

definition upd_model :: "string \<Rightarrow> (model_row \<Rightarrow> model_row) \<Rightarrow> db \<Rightarrow> db" where
  "upd_model k f d = d\<lparr>t_models := upd_where (\<lambda>m. md_id m = k) f (t_models d)\<rparr>"

definition upd_ingestion :: "string \<Rightarrow> (ingestion_run_row \<Rightarrow> ingestion_run_row) \<Rightarrow> db \<Rightarrow> db" where
  "upd_ingestion k f d = d\<lparr>t_ingestions := upd_where (\<lambda>r. ir_id r = k) f (t_ingestions d)\<rparr>"

definition upd_run :: "string \<Rightarrow> (run_row \<Rightarrow> run_row) \<Rightarrow> db \<Rightarrow> db" where
  "upd_run k f d = d\<lparr>t_runs := upd_where (\<lambda>r. rn_id r = k) f (t_runs d)\<rparr>"

definition upd_deployment :: "string \<Rightarrow> (deployment_row \<Rightarrow> deployment_row) \<Rightarrow> db \<Rightarrow> db" where
  "upd_deployment k f d = d\<lparr>t_deployments := upd_where (\<lambda>x. dp_id x = k) f (t_deployments d)\<rparr>"

definition add_activity :: "string \<Rightarrow> string \<Rightarrow> string \<Rightarrow> string \<Rightarrow> db \<Rightarrow> db" where
  "add_activity i u k ts d =
     d\<lparr>t_activities := t_activities d @ [\<lparr>ac_id = i, ac_user = u, ac_kind = k, ac_timestamp = ts\<rparr>]\<rparr>"

definition add_alert :: "string \<Rightarrow> string \<Rightarrow> string \<Rightarrow> string \<Rightarrow> string \<Rightarrow> string \<Rightarrow> db \<Rightarrow> db" where
  "add_alert i u m lv ti stamp d =
     d\<lparr>t_alerts := t_alerts d @ [\<lparr>al_id = i, al_user = u, al_model = m, al_level = lv, al_title = ti, al_at = stamp\<rparr>]\<rparr>"

lemmas row_update_defs = upd_model_def upd_ingestion_def upd_run_def upd_deployment_def add_activity_def add_alert_def

lemma upd_frames [simp]:
  "t_deployments (upd_model k f d) = t_deployments d" "t_keys (upd_model k f d) = t_keys d"
  "t_ingestions (upd_model k f d) = t_ingestions d" "t_models (upd_ingestion k g d) = t_models d"
  "t_deployments (upd_ingestion k g d) = t_deployments d" "t_keys (upd_ingestion k g d) = t_keys d"
  "t_models (upd_run k h d) = t_models d" "t_deployments (upd_run k h d) = t_deployments d"
  "t_keys (upd_run k h d) = t_keys d" "t_ingestions (upd_run k h d) = t_ingestions d"
  "t_models (upd_deployment k i d) = t_models d" "t_keys (upd_deployment k i d) = t_keys d"
  "t_models (add_activity a b c e d) = t_models d" "t_deployments (add_activity a b c e d) = t_deployments d"
  "t_keys (add_activity a b c e d) = t_keys d" "t_ingestions (add_activity a b c e d) = t_ingestions d"
  "t_models (add_alert a b c e m n d) = t_models d" "t_deployments (add_alert a b c e m n d) = t_deployments d"
  "t_keys (add_alert a b c e m n d) = t_keys d" "t_ingestions (add_alert a b c e m n d) = t_ingestions d"
  by (simp_all add: row_update_defs)

lemma t_models_upd_model: "t_models (upd_model k f d) = upd_where (\<lambda>m. md_id m = k) f (t_models d)"
  by (simp add: upd_model_def)

lemma get_model_row_upd:
  "(\<And>m. md_id (f m) = md_id m) \<Longrightarrow>
   get_model_row (upd_model k f d) j = map_option (\<lambda>m. if md_id m = k then f m else m) (get_model_row d j)"
  by (simp add: get_model_row_def upd_model_def find_upd_where)

lemma get_model_row_Some: "get_model_row d k = Some m \<Longrightarrow> m \<in> set (t_models d) \<and> md_id m = k"
  by (auto simp: get_model_row_def dest: find_in_set)

lemma get_deployment_Some: "get_deployment d k = Some x \<Longrightarrow> x \<in> set (t_deployments d) \<and> dp_id x = k"
  by (auto simp: get_deployment_def dest: find_in_set)

end
