(* ===== verification/Deployments.thy ===== *)
theory Deployments
  imports Db_Rows Formats
begin

text \<open>
  API keys (\<open>app/services/apikeys.py\<close>), the deployment handlers (\<open>app/routers/deployments.py\<close>) and
  the authentication of the device endpoints (\<open>_resolve\<close> in
  \<open>app/routers/client_telemetry.py\<close>).  The digest of a key, the random tokens and the clock are
  arguments.  A handler that commits more than once is given step by step as well as whole.
\<close>

section \<open>API keys\<close>

definition KEY_PREFIX :: string where "KEY_PREFIX = ''astra_sk_live_''"

text \<open>The ellipsis of the masked form, as UTF-8 bytes.\<close>

definition ELLIPSIS :: string where "ELLIPSIS = [CHR 0xE2, CHR 0x80, CHR 0xA6]"

definition display_key :: "string \<Rightarrow> string" where
  "display_key plaintext =
     KEY_PREFIX @ take 4 (drop (length KEY_PREFIX) plaintext) @ ELLIPSIS @ drop (length plaintext - 4) plaintext"

type_synonym digest = "string \<Rightarrow> string"

definition issue_key ::
  "digest \<Rightarrow> string \<Rightarrow> string \<Rightarrow> string \<Rightarrow> string \<Rightarrow> string \<Rightarrow> db \<Rightarrow> db \<times> api_key_row \<times> string" where
  "issue_key hash now key_token secret user dep_id d =
     (let plaintext = KEY_PREFIX @ secret;
          row = \<lparr>ak_id = ''key_'' @ key_token, ak_user = user, ak_deployment = dep_id, ak_hash = hash plaintext,
                 ak_prefix = display_key plaintext, ak_created = now, ak_last_used = None, ak_revoked = False\<rparr>
      in (d\<lparr>t_keys := t_keys d @ [row]\<rparr>, row, plaintext))"

definition revoke_deployment_keys :: "string \<Rightarrow> db \<Rightarrow> db" where
  "revoke_deployment_keys dep_id d =
     d\<lparr>t_keys := upd_where (\<lambda>k. ak_deployment k = dep_id) (\<lambda>k. k\<lparr>ak_revoked := True\<rparr>) (t_keys d)\<rparr>"

definition rotate_keys ::
  "digest \<Rightarrow> string \<Rightarrow> string \<Rightarrow> string \<Rightarrow> string \<Rightarrow> string \<Rightarrow> db \<Rightarrow> db \<times> api_key_row \<times> string" where
  "rotate_keys hash now key_token secret user dep_id d =
     issue_key hash now key_token secret user dep_id (revoke_deployment_keys dep_id d)"

definition resolve_key :: "digest \<Rightarrow> db \<Rightarrow> string option \<Rightarrow> api_key_row option" where
  "resolve_key hash d plaintext =
     (case plaintext of
        None \<Rightarrow> None
      | Some p \<Rightarrow> if p = '''' then None else find (\<lambda>k. ak_hash k = hash p \<and> \<not> ak_revoked k) (t_keys d))"

definition touch_key :: "instant \<Rightarrow> api_key_row \<Rightarrow> db \<Rightarrow> db" where
  "touch_key now key d =
     (let recent = (case ak_last_used key of
            Some ts \<Rightarrow> ts \<noteq> '''' \<and> (case fromisoformat (replace_z ts) of
                Some (t, Some off) \<Rightarrow> now - (t - off) < 30 * SECOND | _ \<Rightarrow> False)
          | None \<Rightarrow> False)
      in if recent then d
         else d\<lparr>t_keys := upd_where (\<lambda>k. ak_id k = ak_id key) (\<lambda>k. k\<lparr>ak_last_used := Some (iso now)\<rparr>) (t_keys d)\<rparr>)"

section \<open>Labels\<close>

definition MAX_NAME :: nat where "MAX_NAME = 80"
definition MAX_DESC :: nat where "MAX_DESC = 280"
definition SERVING_RUNTIME :: string where "SERVING_RUNTIME = ''ONNX Runtime (on-device)''"

definition is_lower_letter :: "char \<Rightarrow> bool" where
  "is_lower_letter c \<longleftrightarrow> 97 \<le> (of_char c :: nat) \<and> (of_char c :: nat) \<le> 122"

text \<open>The pattern of two letters, a word and a number joined by hyphens; the end anchor also
  matches before one final newline.\<close>

definition cloud_region :: "string \<Rightarrow> bool" where
  "cloud_region s0 =
     (let s = (if s0 \<noteq> '''' \<and> last s0 = CHR 0x0A then butlast s0 else s0) in
      case s of
        a # b # c # rest \<Rightarrow>
          is_lower_letter a \<and> is_lower_letter b \<and> c = CHR ''-'' \<and> takeWhile is_lower_letter rest \<noteq> [] \<and>
          (case dropWhile is_lower_letter rest of
             h # ds \<Rightarrow> h = CHR ''-'' \<and> ds \<noteq> [] \<and> list_all is_digit ds | [] \<Rightarrow> False)
      | _ \<Rightarrow> False)"

definition runtime_label :: "string \<Rightarrow> string" where
  "runtime_label stored = (if stored \<noteq> '''' \<and> \<not> cloud_region stored then stored else SERVING_RUNTIME)"

definition clean_name :: "string \<Rightarrow> string \<Rightarrow> string" where
  "clean_name name stored_region =
     (if stored_region \<noteq> '''' \<and> cloud_region stored_region
      then let sfx = MIDDOT @ stored_region in
        if suffix sfx name
        then (let short = take (length name - length sfx) name in if short = '''' then name else short)
        else name
      else name)"

definition key_prefix_of :: "db \<Rightarrow> string \<Rightarrow> string option" where
  "key_prefix_of d dep_id =
     (case sort_desc ak_created (filter (\<lambda>k. ak_deployment k = dep_id \<and> \<not> ak_revoked k) (t_keys d)) of
        [] \<Rightarrow> None | k # _ \<Rightarrow> Some (ak_prefix k))"

record deployment_item =
  di_id :: string
  di_name :: string
  di_description :: string
  di_region :: string
  di_status :: string
  di_key_prefix :: "string option"
  di_last_event :: "string option"

definition to_item :: "db \<Rightarrow> deployment_row \<Rightarrow> deployment_item" where
  "to_item d x =
     \<lparr>di_id = dp_id x, di_name = clean_name (if dp_name x \<noteq> '''' then dp_name x else dp_id x) (dp_region x),
      di_description = dp_description x, di_region = runtime_label (dp_region x), di_status = dp_status x,
      di_key_prefix = key_prefix_of d (dp_id x), di_last_event = dp_last_event x\<rparr>"

section \<open>Handlers\<close>

definition owned_model :: "db \<Rightarrow> string \<Rightarrow> string \<Rightarrow> model_row result" where
  "owned_model d k user =
     (case get_model_row d k of
        Some m \<Rightarrow> if md_user m = user then ok m else raise (HTTPException 404 ''model not found'')
      | None \<Rightarrow> raise (HTTPException 404 ''model not found''))"

definition owned_deployment :: "db \<Rightarrow> string \<Rightarrow> string \<Rightarrow> deployment_row result" where
  "owned_deployment d k user =
     (case get_deployment d k of
        Some x \<Rightarrow> if dp_user x = user then ok x else raise (HTTPException 404 ''deployment not found'')
      | None \<Rightarrow> raise (HTTPException 404 ''deployment not found''))"

definition list_deployments :: "db \<Rightarrow> string \<Rightarrow> string \<Rightarrow> deployment_item list result" where
  "list_deployments d model_id user =
     bind_result (owned_model d model_id user) (\<lambda>_.
       ok (map (to_item d) (sort_key dp_created (filter (\<lambda>x. dp_model x = model_id) (t_deployments d)))))"

record create_request =
  cr_region :: "string option"
  cr_name :: "string option"
  cr_status :: string

definition or_empty :: "string option \<Rightarrow> string \<Rightarrow> string" where
  "or_empty v dflt = (case v of Some s \<Rightarrow> if s = '''' then dflt else s | None \<Rightarrow> dflt)"

text \<open>The first commit of a creation: the row, the model's flags and the activity.\<close>

definition create_commit ::
  "string \<Rightarrow> string \<Rightarrow> string \<Rightarrow> string \<Rightarrow> string \<Rightarrow> create_request \<Rightarrow> db \<Rightarrow> (db \<times> string) result" where
  "create_commit base_url now token user model_id body d =
     bind_result (owned_model d model_id user) (\<lambda>m.
       if \<not> is_executable (md_artifact_key m) then raise (HTTPException 409 ''not_servable'')
       else let dep_id = ''dep_'' @ token;
                dep = \<lparr>dp_id = dep_id, dp_user = user, dp_model = model_id, dp_name = or_empty (cr_name body) (md_name m),
                       dp_description = '''', dp_endpoint = base_url @ ''/api/v1/artifacts/'' @ dep_id,
                       dp_region = str_strip (or_empty (cr_region body) SERVING_RUNTIME),
                       dp_qps = 0, dp_p95 = 0, dp_errors_pct = 0, dp_accuracy_drift = 0,
                       dp_status = cr_status body, dp_created = now, dp_last_event = None\<rparr>
            in ok (add_activity (''act_dep_'' @ dep_id) user ''deploy_promoted'' now
                     (upd_model model_id (\<lambda>m. m\<lparr>md_is_deployed := True, md_status := ''deployed''\<rparr>)
                       (d\<lparr>t_deployments := t_deployments d @ [dep]\<rparr>)), dep_id))"

definition create_deployment ::
  "digest \<Rightarrow> string \<Rightarrow> string \<Rightarrow> string \<Rightarrow> string \<Rightarrow> string \<Rightarrow> string \<Rightarrow> string \<Rightarrow> create_request \<Rightarrow> db
     \<Rightarrow> (db \<times> string \<times> string) result" where
  "create_deployment hash base_url now token key_token secret user model_id body d =
     bind_result (create_commit base_url now token user model_id body d) (\<lambda>(d1, dep_id).
       let (d2, _, plaintext) = issue_key hash now key_token secret user dep_id d1 in ok (d2, dep_id, plaintext))"

definition rotate_key ::
  "digest \<Rightarrow> string \<Rightarrow> string \<Rightarrow> string \<Rightarrow> string \<Rightarrow> string \<Rightarrow> db \<Rightarrow> (db \<times> string) result" where
  "rotate_key hash now key_token secret user dep_id d =
     bind_result (owned_deployment d dep_id user) (\<lambda>_.
       let (d1, _, plaintext) = rotate_keys hash now key_token secret user dep_id d in ok (d1, plaintext))"

definition set_deployment_status :: "string \<Rightarrow> string \<Rightarrow> string \<Rightarrow> db \<Rightarrow> db result" where
  "set_deployment_status st user dep_id d =
     bind_result (owned_deployment d dep_id user) (\<lambda>_. ok (upd_deployment dep_id (\<lambda>x. x\<lparr>dp_status := st\<rparr>) d))"

definition pause_deployment :: "string \<Rightarrow> string \<Rightarrow> db \<Rightarrow> db result" where
  "pause_deployment = set_deployment_status ''paused''"

definition resume_deployment :: "string \<Rightarrow> string \<Rightarrow> db \<Rightarrow> db result" where
  "resume_deployment = set_deployment_status ''live''"

definition update_deployment :: "string \<Rightarrow> string \<Rightarrow> string option \<Rightarrow> string option \<Rightarrow> db \<Rightarrow> db result" where
  "update_deployment user dep_id name description d =
     bind_result (owned_deployment d dep_id user) (\<lambda>_.
       let nm = (case name of None \<Rightarrow> '''' | Some n \<Rightarrow> take MAX_NAME (str_strip n))
       in ok (upd_deployment dep_id (\<lambda>x. x\<lparr>
            dp_name := (if nm \<noteq> '''' then nm else dp_name x),
            dp_description := (case description of None \<Rightarrow> dp_description x
                                | Some s \<Rightarrow> take MAX_DESC (str_strip s))\<rparr>) d))"

text \<open>Deleting: the row goes with the keys revoked; then the rows left are read; and when there was
  none the model's flags are written.\<close>

definition delete_rows :: "string \<Rightarrow> string \<Rightarrow> db \<Rightarrow> (db \<times> string) result" where
  "delete_rows user dep_id d =
     bind_result (owned_deployment d dep_id user) (\<lambda>x.
       let d1 = revoke_deployment_keys dep_id d
       in ok (d1\<lparr>t_deployments := del_where (\<lambda>y. dp_id y = dep_id) (t_deployments d1)\<rparr>, dp_model x))"

definition none_remaining :: "string \<Rightarrow> db \<Rightarrow> bool" where
  "none_remaining model_id d \<longleftrightarrow> \<not> list_ex (\<lambda>x. dp_model x = model_id) (t_deployments d)"

definition clear_deployed :: "string \<Rightarrow> db \<Rightarrow> db" where
  "clear_deployed model_id d =
     upd_model model_id (\<lambda>m. m\<lparr>md_is_deployed := False,
       md_status := (if md_status m = ''deployed'' then ''draft'' else md_status m)\<rparr>) d"

definition delete_deployment :: "string \<Rightarrow> string \<Rightarrow> db \<Rightarrow> db result" where
  "delete_deployment user dep_id d =
     bind_result (delete_rows user dep_id d) (\<lambda>(d1, model_id).
       ok (if none_remaining model_id d1 then clear_deployed model_id d1 else d1))"

section \<open>Device authentication\<close>

definition bearer :: "string option \<Rightarrow> string option" where
  "bearer authorization =
     (case authorization of
        None \<Rightarrow> None
      | Some a \<Rightarrow>
          if a = '''' then None
          else if CHR '' '' \<in> set a \<and> str_lower (takeWhile (\<lambda>c. c \<noteq> CHR '' '') a) = ''bearer''
               then Some (str_strip (drop 1 (dropWhile (\<lambda>c. c \<noteq> CHR '' '') a)))
               else Some (str_strip a))"

definition resolve ::
  "digest \<Rightarrow> string \<Rightarrow> string option \<Rightarrow> db \<Rightarrow> (api_key_row \<times> deployment_row \<times> model_row) result" where
  "resolve hash dep_id authorization d =
     (case resolve_key hash d (bearer authorization) of
        None \<Rightarrow> raise (HTTPException 401 ''invalid_api_key'')
      | Some key \<Rightarrow>
          (case get_deployment d dep_id of
             None \<Rightarrow> raise (HTTPException 404 ''deployment_not_found'')
           | Some dep \<Rightarrow>
               if ak_deployment key \<noteq> dep_id then raise (HTTPException 404 ''deployment_not_found'')
               else if dp_status dep = ''paused'' then raise (HTTPException 409 ''deployment_paused'')
               else (case get_model_row d (dp_model dep) of
                   None \<Rightarrow> raise (HTTPException 404 ''no_artifact'')
                 | Some m \<Rightarrow>
                     if or_empty (md_artifact_key m) '''' = '''' then raise (HTTPException 404 ''no_artifact'')
                     else ok (key, dep, m))))"

section \<open>What keys open\<close>

lemma resolve_key_Some:
  "resolve_key hash d (Some p) = Some k \<Longrightarrow> k \<in> set (t_keys d) \<and> ak_hash k = hash p \<and> \<not> ak_revoked k"
  by (auto simp: resolve_key_def split: if_splits dest: find_in_set)

lemma revoked_no_resolve:
  assumes "\<forall>k \<in> set (t_keys d). ak_hash k = hash p \<longrightarrow> ak_revoked k"
  shows "resolve_key hash d (Some p) = None"
  using assms by (auto simp: resolve_key_def find_None_iff)

text \<open>C22: What a device request may reach: it passes authentication only with a token whose
  digest is a key that is not revoked, and only for that key's own deployment, which exists,
  is not paused and has a model with an artifact.\<close>

theorem resolve_sound:
  assumes "resolve hash dep_id authorization d = Inr (key, dep, m)"
  shows "\<exists>p. bearer authorization = Some p \<and> key \<in> set (t_keys d) \<and> ak_hash key = hash p \<and> \<not> ak_revoked key \<and>
    ak_deployment key = dep_id \<and> dep \<in> set (t_deployments d) \<and> dp_id dep = dep_id \<and> dp_status dep \<noteq> ''paused'' \<and>
    m \<in> set (t_models d) \<and> md_id m = dp_model dep \<and> md_artifact_key m \<notin> {None, Some ''''}"
proof -
  obtain p where p: "bearer authorization = Some p" "resolve_key hash d (Some p) = Some key"
    using assms by (cases "bearer authorization") (auto simp: resolve_def resolve_key_def split: option.splits if_splits)
  from assms p resolve_key_Some [OF p(2)] show ?thesis
    by (auto simp: resolve_def or_empty_def split: option.splits if_splits dest!: get_deployment_Some get_model_row_Some)
qed

text \<open>C23: Rotation evicts: after a deployment's key is rotated, no token that opened it before
  resolves any more, and the token returned resolves to a key of this deployment, provided the digest
  has no collision between the tokens in use.\<close>

theorem rotate_evicts_old_keys:
  assumes rot: "rotate_key hash now key_token secret user dep_id d = Inr (d', plaintext)"
    and old: "resolve_key hash d (Some p) = Some k" "ak_deployment k = dep_id"
    and inj: "\<forall>k \<in> set (t_keys d). ak_hash k \<noteq> hash plaintext"
      "\<forall>k' \<in> set (t_keys d). ak_hash k' = ak_hash k \<longrightarrow> ak_deployment k' = dep_id"
  shows "resolve_key hash d' (Some p) = None \<and>
    (\<exists>k'. resolve_key hash d' (Some plaintext) = Some k' \<and> ak_deployment k' = dep_id)"
proof -
  let ?new = "\<lparr>ak_id = ''key_'' @ key_token, ak_user = user, ak_deployment = dep_id, ak_hash = hash plaintext,
    ak_prefix = display_key plaintext, ak_created = now, ak_last_used = None, ak_revoked = False\<rparr>"
  let ?old = "upd_where (\<lambda>k. ak_deployment k = dep_id) (\<lambda>k. k\<lparr>ak_revoked := True\<rparr>) (t_keys d)"
  from rot have pl: "plaintext = KEY_PREFIX @ secret" and d': "t_keys d' = ?old @ [?new]"
    by (auto simp: rotate_key_def rotate_keys_def issue_key_def revoke_deployment_keys_def Let_def)
  have hk: "k \<in> set (t_keys d)" "ak_hash k = hash p" using resolve_key_Some [OF old(1)] by auto
  have "resolve_key hash d' (Some p) = None"
  proof (rule revoked_no_resolve, intro ballI impI)
    fix x assume x: "x \<in> set (t_keys d')" "ak_hash x = hash p"
    have "x \<noteq> ?new" using x(2) hk inj(1) by auto
    with x(1) obtain y where y: "y \<in> set (t_keys d)" "x = (if ak_deployment y = dep_id then y\<lparr>ak_revoked := True\<rparr> else y)"
      by (auto simp: d' set_upd_where)
    with x(2) hk(2) have "ak_hash y = ak_hash k" by (simp split: if_splits)
    with inj(2) y(1) have "ak_deployment y = dep_id" by blast
    with y(2) show "ak_revoked x" by simp
  qed
  moreover have "find (\<lambda>k. ak_hash k = hash plaintext \<and> \<not> ak_revoked k) ?old = None"
    using inj(1) by (auto simp: find_None_iff set_upd_where)
  then have "resolve_key hash d' (Some plaintext) = Some ?new"
    by (simp add: resolve_key_def d' find_append pl KEY_PREFIX_def)
  ultimately show ?thesis by auto
qed

section \<open>A database with one deployment\<close>

definition demo_model :: model_row where
  "demo_model = \<lparr>md_id = ''m'', md_user = ''u'', md_name = ''net'', md_type_full = '''', md_type_short = '''',
     md_format = ''ONNX'', md_last_learned = ''t0'', md_last_optimized = None, md_status = ''draft'',
     md_best_accuracy = None, md_is_deployed = False, md_description = None, md_run = None, md_family = ''cnn'',
     md_weights_only = False, md_artifact_key = Some ''a.onnx'', md_source_key = None, md_artifact_sha = None,
     md_artifact_size = None\<rparr>"

definition model_db :: db where "model_db = empty_db\<lparr>t_models := [demo_model]\<rparr>"

definition demo_request :: create_request where
  "demo_request = \<lparr>cr_region = None, cr_name = None, cr_status = ''live''\<rparr>"

definition demo_dep :: deployment_row where
  "demo_dep = \<lparr>dp_id = ''dep_1'', dp_user = ''u'', dp_model = ''m'', dp_name = ''net'', dp_description = '''',
     dp_endpoint = ''/api/v1/artifacts/dep_1'', dp_region = SERVING_RUNTIME, dp_qps = 0, dp_p95 = 0, dp_errors_pct = 0,
     dp_accuracy_drift = 0, dp_status = ''live'', dp_created = ''t1'', dp_last_event = None\<rparr>"

definition demo_key :: api_key_row where
  "demo_key = \<lparr>ak_id = ''key_1'', ak_user = ''u'', ak_deployment = ''dep_1'', ak_hash = ''astra_sk_live_a'',
     ak_prefix = display_key ''astra_sk_live_a'', ak_created = ''t1'', ak_last_used = None, ak_revoked = False\<rparr>"

definition deployed_db :: db where
  "deployed_db = model_db\<lparr>t_models := [demo_model\<lparr>md_is_deployed := True, md_status := ''deployed''\<rparr>],
     t_deployments := [demo_dep], t_keys := [demo_key],
     t_activities := [\<lparr>ac_id = ''act_dep_dep_1'', ac_user = ''u'', ac_kind = ''deploy_promoted'', ac_timestamp = ''t1''\<rparr>]\<rparr>"

lemma create_demo:
  "create_deployment (\<lambda>s. s) '''' ''t1'' ''1'' ''1'' ''a'' ''u'' ''m'' demo_request model_db =
     Inr (deployed_db, ''dep_1'', ''astra_sk_live_a'')"
  by (simp add: create_deployment_def create_commit_def owned_model_def get_model_row_def model_db_def demo_model_def
      empty_db_def is_executable_def suffix_to_prefix demo_request_def or_empty_def str_strip_def strip_while_def is_space_def
      issue_key_def KEY_PREFIX_def row_update_defs upd_where_def deployed_db_def demo_dep_def demo_key_def
      SERVING_RUNTIME_def Let_def)

lemma lower_bearer: "str_lower ''Bearer'' = ''bearer''"
  by code_simp

lemma resolve_demo:
  "resolve (\<lambda>s. s) ''dep_1'' (Some ''Bearer astra_sk_live_a'') deployed_db =
     Inr (demo_key, demo_dep, demo_model\<lparr>md_is_deployed := True, md_status := ''deployed''\<rparr>)"
  by (simp add: resolve_def bearer_def lower_bearer str_strip_def strip_while_def is_space_def resolve_key_def
      deployed_db_def model_db_def demo_key_def get_deployment_def demo_dep_def get_model_row_def demo_model_def or_empty_def Let_def)

theorem resolve_sound_witness: "\<not> ak_revoked demo_key \<and> ak_deployment demo_key = ''dep_1''"
  using resolve_sound [OF resolve_demo] by simp

lemma rotate_demo: "rotate_key (\<lambda>s. s) ''t2'' ''2'' ''b'' ''u'' ''dep_1'' deployed_db =
  Inr (deployed_db\<lparr>t_keys := [demo_key\<lparr>ak_revoked := True\<rparr>, \<lparr>ak_id = ''key_2'', ak_user = ''u'',
    ak_deployment = ''dep_1'', ak_hash = ''astra_sk_live_b'', ak_prefix = display_key ''astra_sk_live_b'',
    ak_created = ''t2'', ak_last_used = None, ak_revoked = False\<rparr>]\<rparr>, ''astra_sk_live_b'')"
  by (simp add: rotate_key_def owned_deployment_def get_deployment_def deployed_db_def demo_dep_def rotate_keys_def
      revoke_deployment_keys_def issue_key_def upd_where_def demo_key_def KEY_PREFIX_def Let_def)

theorem rotate_evicts_old_keys_witness:
  "case rotate_key (\<lambda>s. s) ''t2'' ''2'' ''b'' ''u'' ''dep_1'' deployed_db of
     Inr (d', _) \<Rightarrow> resolve_key (\<lambda>s. s) d' (Some ''astra_sk_live_a'') = None | Inl _ \<Rightarrow> False"
proof -
  have "resolve_key (\<lambda>s. s) deployed_db (Some ''astra_sk_live_a'') = Some demo_key"
    by (simp add: resolve_key_def deployed_db_def demo_key_def)
  from rotate_evicts_old_keys [OF rotate_demo this] rotate_demo show ?thesis
    by (simp add: deployed_db_def demo_key_def)
qed

end
