(* ===== verification/Iso_Order.thy ===== *)
theory Iso_Order
  imports Py_Time "HOL-Library.Product_Lexorder"
begin

text \<open>
  The text order of \<open>iso\<close> stamps is the order of time.  The handlers compare timestamps as text
  (\<open>ts < cutoff\<close> in \<open>app/services/retention.py\<close>, \<open>max\<close> and \<open>>=\<close> in the monitor); this theory shows when
  that is a comparison of instants.
\<close>

section \<open>The calendar is monotone\<close>

text \<open>The year of the era and the day of the year, counted from March.\<close>

definition yoe_of :: "int \<Rightarrow> int" where
  "yoe_of doe = (doe - doe div 1460 + doe div 36524 - doe div 146096) div 365"

lemma div_bounds:
  fixes u n :: int assumes "0 < n" shows "n * (u div n) \<le> u" "u < n * (u div n) + n"
  using assms pos_mod_sign [of n u] pos_mod_bound [of n u] by (simp_all add: minus_mod_eq_mult_div [symmetric])

lemma div_gap: "x \<le> y \<Longrightarrow> 0 < n \<Longrightarrow> y div n - x div n \<le> y - x" for x y n :: int
proof -
  assume "x \<le> y" "0 < n"
  have "(x + int k) div n \<le> x div n + int k" for k
  proof (induction k)
    case (Suc k)
    have "(x + int (Suc k)) div n \<le> ((x + int k) + n) div n" using \<open>0 < n\<close> by (intro zdiv_mono1) auto
    also have "\<dots> = (x + int k) div n + 1" using \<open>0 < n\<close> by simp
    finally show ?case using Suc by simp
  qed simp
  from this [of "nat (y - x)"] \<open>x \<le> y\<close> show ?thesis by simp
qed

lemma yoe_mono: "0 \<le> x \<Longrightarrow> x \<le> y \<Longrightarrow> yoe_of x \<le> yoe_of y"
proof -
  assume "0 \<le> x" "x \<le> y"
  have a: "x - x div 1460 \<le> y - y div 1460" using div_gap [OF \<open>x \<le> y\<close>, of 1460] by simp
  have b: "u div 36524 - u div 146096 = u div 36524 - (u div 36524) div 4" for u :: int
    by (simp add: zdiv_zmult2_eq [symmetric])
  have c: "x div 36524 \<le> y div 36524" using \<open>x \<le> y\<close> by (simp add: zdiv_mono1)
  have d: "u - u div 4 \<le> v - v div 4" if "u \<le> v" for u v :: int using div_gap [OF that, of 4] by simp
  from a b [of x] b [of y] d [OF c]
  have "x - x div 1460 + x div 36524 - x div 146096 \<le> y - y div 1460 + y div 36524 - y div 146096" by linarith
  then show ?thesis unfolding yoe_of_def by (simp add: zdiv_mono1)
qed

lemma yoe_bounds: "0 \<le> doe \<Longrightarrow> doe \<le> 146096 \<Longrightarrow> 0 \<le> yoe_of doe \<and> yoe_of doe \<le> 399"
  using yoe_mono [of 0 doe] yoe_mono [of doe 146096] by (simp add: yoe_of_def)

lemma doy_bounds:
  assumes "0 \<le> doe" "doe \<le> 146096"
  shows "0 \<le> doe - (365 * yoe_of doe + yoe_of doe div 4 - yoe_of doe div 100) \<and>
    doe - (365 * yoe_of doe + yoe_of doe div 4 - yoe_of doe div 100) \<le> 365"
proof (cases "doe = 146096")
  case True then show ?thesis by (simp add: yoe_of_def)
next
  case False
  define c e where "c = doe div 36524" and "e = doe mod 36524"
  have doe: "doe = 36524 * c + e" and e: "0 \<le> e" "e < 36524" by (simp_all add: c_def e_def)
  have c: "0 \<le> c" "c \<le> 3" using assms False e doe by linarith+
  define g where "g = (24 * c + e) div 1460"
  have "doe div 1460 = (1460 * (25 * c) + (24 * c + e)) div 1460" using doe by (intro arg_cong2 [of _ _ _ _ "(div)"]) simp_all
  then have f: "doe div 1460 = 25 * c + g" by (simp add: g_def)
  have h: "doe div 146096 = 0" using assms False by simp
  have g: "1460 * g \<le> 24 * c + e" "24 * c + e < 1460 * g + 1460" "0 \<le> g"
  proof -
    show "1460 * g \<le> 24 * c + e" "24 * c + e < 1460 * g + 1460" unfolding g_def by (rule div_bounds, simp)+
    show "0 \<le> g" unfolding g_def using c e by (simp add: pos_imp_zdiv_nonneg_iff)
  qed
  define t where "t = (e - g) div 365"
  have t: "365 * t \<le> e - g" "e - g < 365 * t + 365" unfolding t_def by (rule div_bounds, simp)+
  have "doe - doe div 1460 + doe div 36524 - doe div 146096 = 365 * (100 * c) + (e - g)"
    using f h doe unfolding c_def [symmetric] by linarith
  then have "yoe_of doe = (365 * (100 * c) + (e - g)) div 365" unfolding yoe_of_def by (rule arg_cong)
  also have "\<dots> = 100 * c + t" unfolding t_def by (rule div_mult_self4) simp
  finally have y: "yoe_of doe = 100 * c + t" .
  define k where "k = t div 4"
  have k: "4 * k \<le> t" "t \<le> 4 * k + 3" using div_bounds [of 4 t] unfolding k_def [symmetric] by linarith+
  have tb: "0 \<le> t" "t \<le> 99" using t g c e by linarith+
  have "yoe_of doe div 4 = 25 * c + k" "yoe_of doe div 100 = c"
    unfolding y k_def using tb by simp_all
  then have d: "doe - (365 * yoe_of doe + yoe_of doe div 4 - yoe_of doe div 100) = (e - g - 365 * t) + (g - k)"
    using y doe by simp
  have "k \<le> g" using k t g c by linarith
  moreover have "g \<le> k + 1" using k t g c e tb by linarith
  ultimately show ?thesis unfolding d using t by linarith
qed

text \<open>The date as era, year, month and day from March, before the shift to January.\<close>

definition march_date :: "int \<Rightarrow> int \<times> int \<times> int" where
  "march_date z0 =
     (let z = z0 + 719468; era = z div 146097; doe = z mod 146097; yoe = yoe_of doe;
          doy = doe - (365 * yoe + yoe div 4 - yoe div 100); mp = (5 * doy + 2) div 153
      in (yoe + era * 400, mp, doy - (153 * mp + 2) div 5 + 1))"

definition to_january :: "int \<times> int \<times> int \<Rightarrow> int \<times> int \<times> int" where
  "to_january t = (case t of (y, mp, d) \<Rightarrow> (if mp < 10 then (y, mp + 3, d) else (y + 1, mp - 9, d)))"

lemma month_bounds:
  fixes doy :: int
  assumes "0 \<le> doy" "doy \<le> 365" "mp = (5 * doy + 2) div 153"
  shows "0 \<le> mp \<and> mp \<le> 11 \<and> 1 \<le> doy - (153 * mp + 2) div 5 + 1 \<and> doy - (153 * mp + 2) div 5 + 1 \<le> 31"
proof -
  have "153 * mp \<le> 5 * doy + 2" "5 * doy + 2 < 153 * mp + 153"
    unfolding assms(3) using div_bounds [of 153 "5 * doy + 2"] by simp_all
  moreover define q where "q = (153 * mp + 2) div 5"
  then have "5 * q \<le> 153 * mp + 2" "153 * mp + 2 < 5 * q + 5" using div_bounds [of 5 "153 * mp + 2"] by simp_all
  ultimately show ?thesis using assms(1,2) unfolding q_def [symmetric] by linarith
qed

lemma march_bounds:
  "march_date z = (y, mp, d) \<Longrightarrow> 0 \<le> mp \<and> mp \<le> 11 \<and> 1 \<le> d \<and> d \<le> 31"
proof -
  assume m: "march_date z = (y, mp, d)"
  have "0 \<le> (z + 719468) mod 146097" "(z + 719468) mod 146097 \<le> 146096"
    using pos_mod_bound [of 146097 "z + 719468"] by simp_all
  from doy_bounds [OF this] month_bounds [OF _ _ refl] m show ?thesis unfolding march_date_def Let_def by blast
qed

lemma civil_shift:
  "civil_from_days z = (case march_date z of (y, mp, d) \<Rightarrow>
     (y + (if (if mp < 10 then mp + 3 else mp - 9) \<le> 2 then 1 else 0), (if mp < 10 then mp + 3 else mp - 9), d))"
  by (simp only: civil_from_days_def march_date_def yoe_of_def Let_def prod.case)

lemma civil_march: "civil_from_days z = to_january (march_date z)"
proof (cases "march_date z")
  case (fields y mp d)
  with march_bounds [OF fields] show ?thesis unfolding civil_shift fields to_january_def by simp
qed

lemma march_mono: assumes "z < z'" shows "march_date z < march_date z'"
proof -
  define e e' where "e = (z + 719468) div 146097" and "e' = (z' + 719468) div 146097"
  define x x' where "x = (z + 719468) mod 146097" and "x' = (z' + 719468) mod 146097"
  have z: "z + 719468 = 146097 * e + x" "z' + 719468 = 146097 * e' + x'" by (simp_all add: e_def e'_def x_def x'_def)
  have x: "0 \<le> x" "x \<le> 146096" "0 \<le> x'" "x' \<le> 146096" unfolding x_def x'_def
    using pos_mod_bound [of 146097 "z + 719468"] pos_mod_bound [of 146097 "z' + 719468"] by simp_all
  define d d' where "d = x - (365 * yoe_of x + yoe_of x div 4 - yoe_of x div 100)"
    and "d' = x' - (365 * yoe_of x' + yoe_of x' div 4 - yoe_of x' div 100)"
  define m m' where "m = (5 * d + 2) div 153" and "m' = (5 * d' + 2) div 153"
  have M: "march_date z = (yoe_of x + e * 400, m, d - (153 * m + 2) div 5 + 1)"
    "march_date z' = (yoe_of x' + e' * 400, m', d' - (153 * m' + 2) div 5 + 1)"
    by (simp_all add: march_date_def Let_def e_def x_def d_def m_def e'_def x'_def d'_def m'_def)
  have ee: "e \<le> e'" using assms z x by linarith
  note yb = yoe_bounds [OF x(1,2)] yoe_bounds [OF x(3,4)]
  show ?thesis
  proof (cases "yoe_of x + e * 400 < yoe_of x' + e' * 400")
    case True then show ?thesis by (simp add: M)
  next
    case False
    with ee yb have e: "e = e'" by linarith
    with assms z have xx: "x < x'" by linarith
    with False e yoe_mono [of x x'] x(1) have y: "yoe_of x = yoe_of x'" by linarith
    with xx have dd: "d < d'" by (simp add: d_def d'_def)
    then have "m \<le> m'" unfolding m_def m'_def by (simp add: zdiv_mono1)
    with dd show ?thesis by (auto simp: M e y)
  qed
qed

lemma january_mono:
  assumes "march_date z < march_date z'" shows "civil_from_days z < civil_from_days z'"
proof -
  obtain y mp d y' mp' d' where m: "march_date z = (y, mp, d)" "march_date z' = (y', mp', d')" by (metis prod_cases3)
  from assms march_bounds [OF m(1)] march_bounds [OF m(2)] show ?thesis
    unfolding civil_march m to_january_def by (auto simp: less_le split: if_splits)
qed

lemma civil_mono: "z < z' \<Longrightarrow> civil_from_days z < civil_from_days z'"
  by (intro january_mono march_mono)

lemma civil_less_iff: "civil_from_days z < civil_from_days z' \<longleftrightarrow> z < z'"
  using civil_mono [of z z'] civil_mono [of z' z] by (cases z z' rule: linorder_cases) auto

lemma civil_bounds: "civil_from_days z = (y, m, d) \<Longrightarrow> 1 \<le> m \<and> m \<le> 12 \<and> 1 \<le> d \<and> d \<le> 31"
  using march_bounds [of z] by (cases "march_date z") (auto simp: civil_march to_january_def split: if_splits)

section \<open>Fixed-width decimals\<close>

fun digits :: "nat \<Rightarrow> nat \<Rightarrow> string" where
  "digits 0 n = []"
| "digits (Suc w) n = digits w (n div 10) @ [char_of (48 + n mod 10)]"

lemma length_digits [simp]: "length (digits w n) = w"
  by (induction w arbitrary: n) auto

lemma char_0: "char_of (48::nat) = CHR ''0''"
  by code_simp

lemma digits_0: "digits w 0 = replicate w (CHR ''0'')"
  by (induction w) (simp_all add: replicate_append_same char_0)

lemma zero_pad_snoc: "zero_pad (Suc w) (s @ [c]) = zero_pad w s @ [c]"
  by (simp add: zero_pad_def)

lemma zero_pad_digits: "0 < w \<Longrightarrow> n < 10 ^ w \<Longrightarrow> zero_pad w (str_of_nat n) = digits w n"
proof (induction w arbitrary: n)
  case (Suc w)
  show ?case
  proof (cases "n < 10")
    case True
    then show ?thesis by (subst str_of_nat.simps) (simp add: zero_pad_def digits_0)
  next
    case False
    with Suc.prems have w: "0 < w" by (cases w) auto
    have "n div 10 < 10 ^ w" using Suc.prems(2) by (simp add: less_mult_imp_div_less mult.commute)
    with False Suc.IH [OF w] show ?thesis
      by (subst str_of_nat.simps) (simp add: zero_pad_snoc)
  qed
qed simp

lemma append_less_iff:
  "length x = length y \<Longrightarrow> x @ u < y @ v \<longleftrightarrow> x < y \<or> x = y \<and> u < v" for x y u v :: "'a::linorder list"
  by (induction x y rule: list_induct2) auto

lemma digit_char: "d < 10 \<Longrightarrow> e < 10 \<Longrightarrow> (char_of (48 + d) :: char) < char_of (48 + e) \<longleftrightarrow> d < e"
  for d e :: nat
  by (simp add: less_char_def)

lemma digit_char_eq: "d < 10 \<Longrightarrow> e < 10 \<Longrightarrow> (char_of (48 + d) :: char) = char_of (48 + e) \<longleftrightarrow> d = e"
  for d e :: nat
  using digit_char [of d e] digit_char [of e d] by (auto simp: not_less_iff_gr_or_eq)

lemma digits_eq: "n < 10 ^ w \<Longrightarrow> m < 10 ^ w \<Longrightarrow> digits w n = digits w m \<longleftrightarrow> n = m"
proof (induction w arbitrary: n m)
  case (Suc w)
  have "n div 10 < 10 ^ w" "m div 10 < 10 ^ w" using Suc.prems by (simp_all add: less_mult_imp_div_less mult.commute)
  moreover have "n = m \<longleftrightarrow> n div 10 = m div 10 \<and> n mod 10 = m mod 10" by (metis div_mult_mod_eq)
  ultimately show ?case using Suc.IH by (simp add: digit_char_eq)
qed simp

lemma digits_less: "n < 10 ^ w \<Longrightarrow> m < 10 ^ w \<Longrightarrow> digits w n < digits w m \<longleftrightarrow> n < m"
proof (induction w arbitrary: n m)
  case (Suc w)
  have b: "n div 10 < 10 ^ w" "m div 10 < 10 ^ w" using Suc.prems by (simp_all add: less_mult_imp_div_less mult.commute)
  have "n < m \<longleftrightarrow> n div 10 < m div 10 \<or> n div 10 = m div 10 \<and> n mod 10 < m mod 10"
    using div_mult_mod_eq [of n 10] div_mult_mod_eq [of m 10] by linarith
  then show ?case using Suc.IH [OF b] digits_eq [OF b] by (simp add: append_less_iff digit_char)
qed simp

lemma pad_less:
  assumes "0 < w" "0 \<le> x" "x < 10 ^ w" "0 \<le> y" "y < 10 ^ w"
  shows "pad_int w x @ u < pad_int w y @ v \<longleftrightarrow> x < y \<or> x = y \<and> u < v"
proof -
  have b: "nat x < 10 ^ w" "nat y < 10 ^ w" using assms by (simp_all add: nat_less_iff)
  have "pad_int w x = digits w (nat x)" "pad_int w y = digits w (nat y)"
    using b assms(1) by (simp_all add: pad_int_def zero_pad_digits)
  with digits_less [OF b] digits_eq [OF b] assms show ?thesis
    by (auto simp: append_less_iff nat_less_eq_zless eq_nat_nat_iff)
qed

section \<open>Text order and time order\<close>

lemma radix_less:
  fixes q q' r r' n :: int
  assumes "0 \<le> r" "r < n" "0 \<le> r'" "r' < n"
  shows "q * n + r < q' * n + r' \<longleftrightarrow> q < q' \<or> q = q' \<and> r < r'"
proof -
  have "q * n + r < q' * n + r'" if "q < q'"
  proof -
    have "(q + 1) * n \<le> q' * n" using that assms by (intro mult_right_mono) auto
    with assms show ?thesis by (simp add: distrib_right)
  qed
  moreover have "q' * n + r' < q * n + r" if "q' < q"
  proof -
    have "(q' + 1) * n \<le> q * n" using that assms by (intro mult_right_mono) auto
    with assms show ?thesis by (simp add: distrib_right)
  qed
  ultimately show ?thesis by (cases q q' rule: linorder_cases) auto
qed

lemma div_less_iff:
  "0 < n \<Longrightarrow> x < y \<longleftrightarrow> x div n < y div n \<or> x div n = y div n \<and> x mod n < y mod n" for x y n :: int
  using radix_less [of "x mod n" n "y mod n" "x div n" "y div n"] by (simp add: pos_mod_bound)

lemma div_eq_iff: "x = y \<longleftrightarrow> x div n = y div n \<and> x mod n = y mod n" for x y n :: int
  by (metis div_mult_mod_eq)

text \<open>The instants of the years 1970 to 9999.\<close>

definition in_range :: "instant \<Rightarrow> bool" where
  "in_range t \<longleftrightarrow> 0 \<le> t \<and> t < 2932897 * DAY"

lemma in_range_year:
  assumes "in_range t" "civil_from_days (t div DAY) = (y, m, d)" shows "0 \<le> y \<and> y < 10000"
proof -
  have "civil_from_days 0 = (1970, 1, 1)" "civil_from_days 2932896 = (9999, 12, 31)" by code_simp+
  moreover have "0 \<le> t div DAY" "t div DAY \<le> 2932896"
    using assms(1) div_bounds [of DAY t] by (auto simp: in_range_def DAY_def SECOND_def pos_imp_zdiv_nonneg_iff)
  ultimately have "(1970, 1, 1) \<le> civil_from_days (t div DAY)" "civil_from_days (t div DAY) \<le> (9999, 12, 31)"
    by (metis civil_less_iff not_less)+
  with assms(2) show ?thesis by auto
qed

lemma triple_less:
  "(y, m, d) < (y', m', d') \<longleftrightarrow> y < y' \<or> y = y' \<and> (m < m' \<or> m = m' \<and> d < d')"
  for y m d y' m' d' :: int
  by (auto simp: le_less)

lemma iso_less:
  assumes a: "civil_from_days (a div DAY) = (y, m, d)" "in_range a"
    and b: "civil_from_days (b div DAY) = (y', m', d')" "in_range b"
    and us: "us = a mod DAY" "us' = b mod DAY"
  shows "iso a < iso b \<longleftrightarrow> (y, m, d) < (y', m', d') \<or> (y, m, d) = (y', m', d') \<and> us div 1000 < us' div 1000"
proof -
  define s s' where "s = us div SECOND" and "s' = us' div SECOND"
  define f f' where "f = us mod SECOND div 1000" and "f' = us' mod SECOND div 1000"
  define M M' where "M = s div 60" and "M' = s' div 60"
  have u: "0 \<le> us" "us < DAY" "0 \<le> us'" "us' < DAY" by (simp_all add: us pos_mod_bound)
  have sb: "0 \<le> s" "s < 86400" "0 \<le> s'" "s' < 86400"
    using u div_bounds [of SECOND us] div_bounds [of SECOND us'] unfolding s_def s'_def
    by (simp_all add: pos_imp_zdiv_nonneg_iff DAY_def SECOND_def)
  have Mb: "0 \<le> M" "M < 1440" "0 \<le> M'" "M' < 1440"
    using sb div_bounds [of 60 s] div_bounds [of 60 s'] unfolding M_def M'_def
    by (simp_all add: pos_imp_zdiv_nonneg_iff)
  have h: "s div 3600 = M div 60" "s' div 3600 = M' div 60" by (simp_all add: M_def M'_def zdiv_zmult2_eq [symmetric])
  have hb: "0 \<le> M div 60" "M div 60 < 24" "0 \<le> M' div 60" "M' div 60 < 24"
    using Mb div_bounds [of 60 M] div_bounds [of 60 M'] by (simp_all add: pos_imp_zdiv_nonneg_iff)
  have fb: "0 \<le> f" "f < 1000" "0 \<le> f'" "f' < 1000"
  proof -
    have *: "0 \<le> v mod SECOND div 1000 \<and> v mod SECOND div 1000 < 1000" for v
      using pos_mod_bound [of SECOND v] pos_mod_sign [of SECOND v] div_bounds [of 1000 "v mod SECOND"]
      by (simp add: pos_imp_zdiv_nonneg_iff SECOND_def)
    show "0 \<le> f" "f < 1000" "0 \<le> f'" "f' < 1000" using * [of us] * [of us'] by (simp_all add: f_def f'_def)
  qed
  have ms: "v div 1000 = v div SECOND * 1000 + v mod SECOND div 1000" for v
  proof -
    have "v = 1000 * (v div SECOND * 1000) + v mod SECOND" using div_mult_mod_eq [of v SECOND] by (simp add: SECOND_def)
    then have "v div 1000 = (1000 * (v div SECOND * 1000) + v mod SECOND) div 1000" by simp
    also have "\<dots> = v div SECOND * 1000 + v mod SECOND div 1000" by simp
    finally show ?thesis .
  qed
  have sf: "us div 1000 < us' div 1000 \<longleftrightarrow> s < s' \<or> s = s' \<and> f < f'"
    unfolding ms [of us] ms [of us'] s_def [symmetric] s'_def [symmetric] f_def [symmetric] f'_def [symmetric]
    by (rule radix_less [OF fb])
  have time: "us div 1000 < us' div 1000 \<longleftrightarrow>
      M div 60 < M' div 60 \<or> M div 60 = M' div 60 \<and> (M mod 60 < M' mod 60 \<or> M mod 60 = M' mod 60 \<and>
        (s mod 60 < s' mod 60 \<or> s mod 60 = s' mod 60 \<and> f < f'))"
    using sf div_less_iff [of 60 s s', OF zero_less_numeral] div_less_iff [of 60 M M', OF zero_less_numeral] div_eq_iff [of s s' 60] div_eq_iff [of M M' 60]
    unfolding M_def [symmetric] M'_def [symmetric] by blast
  show ?thesis
    unfolding time triple_less iso_def a(1) b(1) us [symmetric] Let_def prod.case s_def [symmetric] s'_def [symmetric] f_def [symmetric]
      f'_def [symmetric] h M_def [symmetric] M'_def [symmetric]
    using in_range_year [OF a(2,1)] in_range_year [OF b(2,1)] civil_bounds [OF a(1)] civil_bounds [OF b(1)] hb fb
    by (simp add: pad_less) blast
qed

lemma iso_order_iff:
  assumes "in_range a" "in_range b"
  shows "(iso a < iso b) = (a div 1000 < b div 1000)"
proof -
  obtain y m d where c: "civil_from_days (a div DAY) = (y, m, d)" by (metis prod_cases3)
  obtain y' m' d' where c': "civil_from_days (b div DAY) = (y', m', d')" by (metis prod_cases3)
  have lt: "(y, m, d) < (y', m', d') \<longleftrightarrow> a div DAY < b div DAY" using civil_less_iff [of "a div DAY" "b div DAY"] c c' by simp
  have eq: "(y, m, d) = (y', m', d') \<longleftrightarrow> a div DAY = b div DAY"
    using civil_less_iff [of "a div DAY" "b div DAY"] civil_less_iff [of "b div DAY" "a div DAY"] c c'
    by (metis less_irrefl linorder_neqE)
  have ms: "t div 1000 = t div DAY * 86400000 + t mod DAY div 1000" for t
  proof -
    have "t = 1000 * (t div DAY * 86400000) + t mod DAY" using div_mult_mod_eq [of t DAY] by (simp add: DAY_def SECOND_def)
    then have "t div 1000 = (1000 * (t div DAY * 86400000) + t mod DAY) div 1000" by simp
    also have "\<dots> = t div DAY * 86400000 + t mod DAY div 1000" by simp
    finally show ?thesis .
  qed
  have "0 \<le> t mod DAY div 1000" "t mod DAY div 1000 < 86400000" for t
    using pos_mod_bound [of DAY t] pos_mod_sign [of DAY t] div_bounds [of 1000 "t mod DAY"]
    by (simp_all add: pos_imp_zdiv_nonneg_iff DAY_def SECOND_def)
  then have "a div 1000 < b div 1000 \<longleftrightarrow> a div DAY < b div DAY \<or> a div DAY = b div DAY \<and> a mod DAY div 1000 < b mod DAY div 1000"
    unfolding ms [of a] ms [of b] by (intro radix_less)
  with lt eq show ?thesis
    unfolding iso_less [OF c assms(1) c' assms(2) refl refl] by blast
qed

text \<open>C17: The documented claim that a text comparison of stored stamps is a comparison of times:
  on the years 1970 to 9999, \<open>iso a < iso b\<close> says that a is before b, to the millisecond, and two
  stamps are the same text exactly when their instants agree to the millisecond.\<close>

theorem iso_order_is_time_order:
  assumes "in_range a" "in_range b"
  shows "(iso a < iso b) = (a div 1000 < b div 1000) \<and> (iso a = iso b) = (a div 1000 = b div 1000)"
  using iso_order_iff [OF assms] iso_order_iff [OF assms(2,1)] by auto

theorem iso_order_is_time_order_witness: "iso (59 * SECOND) < iso (60 * SECOND)"
  using iso_order_is_time_order [of "59 * SECOND" "60 * SECOND"] by (simp add: in_range_def DAY_def SECOND_def)

end
