(* ===== verification/Iso_Roundtrip.thy ===== *)
theory Iso_Roundtrip
  imports Iso_Order
begin

text \<open>
  The stamps the server writes are read back: the calendar of \<open>iso\<close> is inverted by the one of the
  parser, every date it prints is a valid one, and the digits are read as they were written.
\<close>

section \<open>The calendar is inverted\<close>

definition year_start :: "int \<Rightarrow> int" where
  "year_start y = 365 * y + y div 4 - y div 100"

lemma civil_fields:
  assumes "civil_from_days z = (y, m, d)"
  obtains era yoe doy mp where "z + 719468 = era * 146097 + (year_start yoe + doy)" "0 \<le> yoe" "yoe \<le> 399"
    "0 \<le> doy" "doy \<le> 365" "mp = (5 * doy + 2) div 153" "0 \<le> mp" "mp \<le> 11"
    "y = yoe + era * 400 + (if mp < 10 then 0 else 1)" "m = (if mp < 10 then mp + 3 else mp - 9)"
    "d = doy - (153 * mp + 2) div 5 + 1" "(z + 719468) mod 146097 = year_start yoe + doy"
    "yoe = yoe_of ((z + 719468) mod 146097)"
proof -
  define doe where "doe = (z + 719468) mod 146097"
  have b: "0 \<le> doe" "doe \<le> 146096" using pos_mod_bound [of 146097 "z + 719468"] by (simp_all add: doe_def)
  define doy where "doy = doe - year_start (yoe_of doe)"
  have db: "0 \<le> doy" "doy \<le> 365" using doy_bounds [OF b] by (simp_all add: doy_def year_start_def)
  define mp where "mp = (5 * doy + 2) div 153"
  have mb: "0 \<le> mp" "mp \<le> 11" using month_bounds [OF db mp_def] by auto
  have "march_date z = (yoe_of doe + (z + 719468) div 146097 * 400, mp, doy - (153 * mp + 2) div 5 + 1)"
    by (simp add: march_date_def Let_def doe_def doy_def mp_def year_start_def)
  with assms mb have "y = yoe_of doe + (z + 719468) div 146097 * 400 + (if mp < 10 then 0 else 1)"
    "m = (if mp < 10 then mp + 3 else mp - 9)" "d = doy - (153 * mp + 2) div 5 + 1"
    by (auto simp: civil_march to_january_def split: if_splits)
  moreover have "z + 719468 = (z + 719468) div 146097 * 146097 + (year_start (yoe_of doe) + doy)"
    by (simp add: doy_def doe_def)
  moreover have "(z + 719468) mod 146097 = year_start (yoe_of doe) + doy" by (simp add: doy_def doe_def)
  ultimately show thesis using that yoe_bounds [OF b] db mb mp_def doe_def by metis
qed

lemma days_from_civil_inverse: "civil_from_days z = (y, m, d) \<Longrightarrow> days_from_civil y m d = z"
proof (erule civil_fields)
  fix era yoe doy mp
  assume z: "z + 719468 = era * 146097 + (year_start yoe + doy)" and y: "0 \<le> yoe" "yoe \<le> 399" and mp: "0 \<le> mp" "mp \<le> 11"
    and f: "y = yoe + era * 400 + (if mp < 10 then 0 else 1)" "m = (if mp < 10 then mp + 3 else mp - 9)"
    "d = doy - (153 * mp + 2) div 5 + 1"
  have y': "(if m \<le> 2 then y - 1 else y) = yoe + era * 400" and mp': "(if m > 2 then m - 3 else m + 9) = mp"
    using f(1,2) mp by auto
  have "(yoe + era * 400) div 400 = era" "(yoe + era * 400) mod 400 = yoe" using y by auto
  then show "days_from_civil y m d = z"
    unfolding days_from_civil_def y' mp' Let_def using z f(3) by (simp add: year_start_def)
qed

lemma year_starts: "\<forall>y \<in> set (map int [0..<400]). yoe_of (year_start y) = y"
  by code_simp

lemma yoe_of_year_start: "0 \<le> y \<Longrightarrow> y \<le> 399 \<Longrightarrow> yoe_of (year_start y) = y"
proof -
  assume "0 \<le> y" "y \<le> 399"
  then have "y = int (nat y)" "nat y \<in> set [0..<400]" by auto
  then have "y \<in> set (map int [0..<400])" by (metis imageI set_map)
  with year_starts show ?thesis by blast
qed

text \<open>The day after the 28th of February, counted from March, exists in leap years only.\<close>

lemma long_years: "\<forall>y \<in> set (map int [0..<399]). 365 < year_start (y + 1) - year_start y \<longrightarrow> leap_year (y + 1)"
  by code_simp

lemma leap_shift: "leap_year (y + era * 400) = leap_year y"
proof -
  have "(y + era * 400) mod 4 = y mod 4" "(y + era * 400) mod 100 = y mod 100" "(y + era * 400) mod 400 = y mod 400"
    using mod_mult_self1 [of y "era * 100" 4] mod_mult_self1 [of y "era * 4" 100] by (simp_all add: mult.assoc)
  then show ?thesis by (simp add: leap_year_def)
qed

lemma day_365_leap:
  assumes "0 \<le> doe" "doe \<le> 146096" "yoe = yoe_of doe" "doe = year_start yoe + 365"
  shows "leap_year (yoe + 1)"
proof -
  have y: "0 \<le> yoe" "yoe \<le> 399" using yoe_bounds [OF assms(1,2)] assms(3) by auto
  show ?thesis
  proof (cases "yoe = 399")
    case True then show ?thesis by (simp add: leap_year_def)
  next
    case False
    with y have y': "0 \<le> yoe + 1" "yoe + 1 \<le> 399" by auto
    have "doe < year_start (yoe + 1)"
    proof (rule ccontr)
      assume "\<not> doe < year_start (yoe + 1)"
      moreover have "0 \<le> year_start (yoe + 1)" using y' div_bounds(1) [of 100 "yoe + 1"] unfolding year_start_def
        by (simp add: pos_imp_zdiv_nonneg_iff)
      ultimately have "yoe_of (year_start (yoe + 1)) \<le> yoe_of doe" by (intro yoe_mono) auto
      then show False using yoe_of_year_start [OF y'] assms(3) by simp
    qed
    then have "365 < year_start (yoe + 1) - year_start yoe" using assms(4) by linarith
    moreover have "yoe = int (nat yoe)" "nat yoe \<in> set [0..<399]" using y False by auto
    then have "yoe \<in> set (map int [0..<399])" by (metis imageI set_map)
    ultimately show ?thesis using long_years by blast
  qed
qed

text \<open>The months counted from March have their lengths, the last one 29 days when it has a day 365.\<close>

lemma month_lengths: "\<forall>doy \<in> set (map int [0..<366]).
    (let mp = (5 * doy + 2) div 153; m = (if mp < 10 then mp + 3 else mp - 9); d = doy - (153 * mp + 2) div 5 + 1
     in d \<le> (if m = 2 then (if doy = 365 then 29 else 28) else if m \<in> {4, 6, 9, 11} then 30 else 31)
        \<and> (doy = 365 \<longrightarrow> 10 \<le> mp))"
  by code_simp

lemma civil_valid:
  assumes "civil_from_days z = (y, m, d)"
  shows "1 \<le> m \<and> m \<le> 12 \<and> 1 \<le> d \<and> d \<le> days_in_month y m"
  using assms
proof (rule civil_fields)
  fix era yoe doy mp
  assume doy: "0 \<le> doy" "doy \<le> 365" and mp: "mp = (5 * doy + 2) div 153"
    and f: "y = yoe + era * 400 + (if mp < 10 then 0 else 1)" "m = (if mp < 10 then mp + 3 else mp - 9)"
    "d = doy - (153 * mp + 2) div 5 + 1" and doe: "(z + 719468) mod 146097 = year_start yoe + doy"
    and yoe: "yoe = yoe_of ((z + 719468) mod 146097)"
  have "doy = int (nat doy)" "nat doy \<in> set [0..<366]" using doy by auto
  then have "doy \<in> set (map int [0..<366])" by (metis imageI set_map)
  from bspec [OF month_lengths this] have l: "d \<le> (if m = 2 then (if doy = 365 then 29 else 28)
      else if m \<in> {4, 6, 9, 11} then 30 else 31)" "doy = 365 \<longrightarrow> 10 \<le> mp"
    unfolding Let_def mp f(2,3) by blast+
  have "leap_year y" if "doy = 365"
  proof -
    have r: "0 \<le> (z + 719468) mod 146097" "(z + 719468) mod 146097 \<le> 146096" using pos_mod_bound [of 146097 "z + 719468"] by simp_all
    have "leap_year (yoe + 1)" by (rule day_365_leap [OF r yoe]) (simp add: doe that)
    moreover have "y = (yoe + 1) + era * 400" using f(1) l(2) that by simp
    ultimately show ?thesis by (simp only: leap_shift)
  qed
  with l(1) have "d \<le> days_in_month y m" unfolding days_in_month_def by (cases "doy = 365") (auto split: if_splits)
  with civil_bounds [OF assms] show ?thesis by simp
qed

section \<open>Digits are read back\<close>

lemma is_digit_char: "n < 10 \<Longrightarrow> is_digit (char_of (48 + n))" for n :: nat
  by (simp add: is_digit_def)

lemma digits_are_digits: "list_all is_digit (digits w n)"
  by (induction w arbitrary: n) (simp_all add: is_digit_char)

lemma nat_of_digits: "n < 10 ^ w \<Longrightarrow> nat_of_str (digits w n) = n"
proof (induction w arbitrary: n)
  case (Suc w)
  have "n div 10 < 10 ^ w" using Suc.prems by (simp add: less_mult_imp_div_less mult.commute)
  from Suc.IH [OF this] show ?case by (simp add: nat_of_str_def)
qed (simp add: nat_of_str_def)

lemma pad_int_digits: "0 < w \<Longrightarrow> 0 \<le> x \<Longrightarrow> x < 10 ^ w \<Longrightarrow> pad_int w x = digits w (nat x)"
  by (simp add: pad_int_def zero_pad_digits nat_less_iff)

lemma read_pad: "0 < w \<Longrightarrow> 0 \<le> x \<Longrightarrow> x < 10 ^ w \<Longrightarrow> take_num w (pad_int w x @ r) = Some (x, r)"
  by (simp add: pad_int_digits take_num_def digits_are_digits nat_of_digits nat_less_iff)

lemma read_pad_end: "0 < w \<Longrightarrow> 0 \<le> x \<Longrightarrow> x < 10 ^ w \<Longrightarrow> take_num w (pad_int w x) = Some (x, [])"
  using read_pad [of w x "[]"] by simp

lemma pad_is_digits: "0 < w \<Longrightarrow> 0 \<le> x \<Longrightarrow> x < 10 ^ w \<Longrightarrow> list_all is_digit (pad_int w x)"
  by (simp add: pad_int_digits digits_are_digits)

lemma replace_z_append: "replace_z (x @ y) = replace_z x @ replace_z y"
  by (simp add: replace_z_def)

lemma replace_z_digits: "list_all is_digit x \<Longrightarrow> replace_z x = x"
  by (induction x) (auto simp: replace_z_def is_digit_def)

lemma replace_z_pad: "0 < w \<Longrightarrow> 0 \<le> x \<Longrightarrow> x < 10 ^ w \<Longrightarrow> replace_z (pad_int w x) = pad_int w x"
  by (simp add: replace_z_digits pad_is_digits)

abbreviation no_sign :: "char \<Rightarrow> bool" where
  "no_sign c \<equiv> c \<noteq> CHR ''+'' \<and> c \<noteq> CHR ''-''"

lemma digits_have_no_sign: "list_all is_digit x \<Longrightarrow> list_all no_sign x"
  by (induction x) (auto simp: is_digit_def)

lemma split_at_sign: "list_all no_sign x \<Longrightarrow>
    takeWhile no_sign (x @ CHR ''+'' # y) = x \<and> dropWhile no_sign (x @ CHR ''+'' # y) = CHR ''+'' # y"
  by (induction x) auto

lemma zero_offset: "parse_offset ''+00:00'' = Some (Some 0)"
  by code_simp

lemma year_1970: "in_range t \<Longrightarrow> civil_from_days (t div DAY) = (y, m, d) \<Longrightarrow> 1 \<le> y"
proof -
  assume t: "in_range t" and c: "civil_from_days (t div DAY) = (y, m, d)"
  have "civil_from_days 0 = (1970, 1, 1)" by code_simp
  moreover have "0 \<le> t div DAY" using t by (simp add: in_range_def pos_imp_zdiv_nonneg_iff)
  ultimately have "(1970, 1, 1) \<le> civil_from_days (t div DAY)" by (metis civil_less_iff not_less)
  with c show ?thesis by auto
qed

lemma length_pad: "0 < w \<Longrightarrow> 0 \<le> x \<Longrightarrow> x < 10 ^ w \<Longrightarrow> length (pad_int w x) = w"
  by (simp add: pad_int_digits)

section \<open>The clock and the date are read back\<close>

lemma clock_roundtrip:
  assumes "0 \<le> h" "h < 24" "0 \<le> mi" "mi < 60" "0 \<le> sec" "sec < 60" "0 \<le> ms" "ms < 1000"
  shows "parse_clock (pad_int 2 h @ '':'' @ pad_int 2 mi @ '':'' @ pad_int 2 sec @ ''.'' @ pad_int 3 ms) =
    Some ((h * 3600 + mi * 60 + sec) * SECOND + ms * 1000)"
  using assms by (simp add: parse_clock_def read_pad read_pad_end expect_def parse_fraction_def length_pad)

lemma date_roundtrip:
  assumes "in_range t" "civil_from_days (t div DAY) = (y, m, d)"
  shows "parse_date (pad_int 4 y @ ''-'' @ pad_int 2 m @ ''-'' @ pad_int 2 d @ r) = Some (t div DAY, r)"
proof -
  have "0 \<le> y" "y < 10000" using in_range_year [OF assms] by auto
  moreover note civil_bounds [OF assms(2)] civil_valid [OF assms(2)] year_1970 [OF assms] days_from_civil_inverse [OF assms(2)]
  ultimately show ?thesis by (simp add: parse_date_def read_pad expect_def)
qed
section \<open>The round trip\<close>

lemma clock_parts:
  fixes s :: int assumes "0 \<le> s" "s < 86400"
  shows "0 \<le> s div 3600 \<and> s div 3600 < 24 \<and> s div 3600 * 3600 + s div 60 mod 60 * 60 + s mod 60 = s"
proof -
  have h: "s div 3600 = s div 60 div 60" by (simp add: zdiv_zmult2_eq [symmetric])
  have "s div 60 div 60 * 3600 + s div 60 mod 60 * 60 + s mod 60 = s"
    using div_mult_mod_eq [of s 60] div_mult_mod_eq [of "s div 60" 60] by linarith
  moreover have "0 \<le> s div 3600" "s div 3600 < 24"
    using assms div_bounds [of 3600 s] by (simp_all add: pos_imp_zdiv_nonneg_iff)
  ultimately show ?thesis unfolding h by simp
qed

lemma millis:
  fixes us :: int assumes "0 \<le> us" "us < DAY"
  shows "0 \<le> us div SECOND \<and> us div SECOND < 86400 \<and> 0 \<le> us mod SECOND div 1000 \<and> us mod SECOND div 1000 < 1000
    \<and> us div SECOND * SECOND + us mod SECOND div 1000 * 1000 = us div 1000 * 1000"
proof -
  have s: "0 \<le> us div SECOND" "us div SECOND < 86400"
    using assms div_bounds [of SECOND us] by (simp_all add: pos_imp_zdiv_nonneg_iff DAY_def SECOND_def)
  have r: "0 \<le> us mod SECOND" "us mod SECOND < 1000 * 1000"
    using pos_mod_sign [of SECOND us] pos_mod_bound [of SECOND us] by (simp_all add: SECOND_def)
  then have m: "0 \<le> us mod SECOND div 1000" "us mod SECOND div 1000 < 1000"
    using div_bounds [of 1000 "us mod SECOND"] by (simp_all add: pos_imp_zdiv_nonneg_iff)
  have "us div 1000 = (1000 * (us div SECOND * 1000) + us mod SECOND) div 1000"
    using div_mult_mod_eq [of us SECOND] by (simp add: SECOND_def)
  also have "\<dots> = us div SECOND * 1000 + us mod SECOND div 1000" by simp
  finally have "us div 1000 * 1000 = us div SECOND * SECOND + us mod SECOND div 1000 * 1000"
    by (simp add: SECOND_def algebra_simps)
  with s m show ?thesis by simp
qed

lemma day_millis: "t div DAY * DAY + t mod DAY div 1000 * 1000 = t div 1000 * 1000"
proof -
  have "t div 1000 = (1000 * (t div DAY * 86400000) + t mod DAY) div 1000"
    using div_mult_mod_eq [of t DAY] by (simp add: DAY_def SECOND_def)
  also have "\<dots> = t div DAY * 86400000 + t mod DAY div 1000" by simp
  finally show ?thesis by (simp add: DAY_def SECOND_def algebra_simps)
qed

text \<open>The text of a stamp: a date and a clock that both parsers read back, with a Z behind.\<close>

lemma iso_shape:
  assumes "in_range t"
  obtains date clock us days where "iso t = date @ CHR ''T'' # clock @ ''Z''" "list_all no_sign clock" "parse_clock clock = Some us"
    "\<forall>rest. parse_date (date @ rest) = Some (days, rest)" "days * DAY + us = t div 1000 * 1000"
    "replace_z date = date" "replace_z clock = clock"
proof -
  obtain y m d where c: "civil_from_days (t div DAY) = (y, m, d)" by (metis prod_cases3)
  define us where "us = t mod DAY"
  have "0 \<le> us" "us < DAY" by (simp_all add: us_def pos_mod_bound)
  note b = millis [OF this]
  define s where "s = us div SECOND"
  define ms where "ms = us mod SECOND div 1000"
  define h mi sec where "h = s div 3600" and "mi = s div 60 mod 60" and "sec = s mod 60"
  have q: "0 \<le> h" "h < 24" "h * 3600 + mi * 60 + sec = s" "0 \<le> mi" "mi < 60" "0 \<le> sec" "sec < 60"
    using clock_parts [of s] b by (simp_all add: s_def [symmetric] h_def mi_def sec_def)
  have ms: "0 \<le> ms" "ms < 1000" using b by (simp_all add: ms_def)
  let ?clock = "pad_int 2 h @ '':'' @ pad_int 2 mi @ '':'' @ pad_int 2 sec @ ''.'' @ pad_int 3 ms"
  let ?date = "pad_int 4 y @ ''-'' @ pad_int 2 m @ ''-'' @ pad_int 2 d"
  have yb: "0 \<le> y" "y < 10000" using in_range_year [OF assms c] by auto
  note mb = civil_bounds [OF c]
  have seps: "replace_z ''-'' = ''-''" "replace_z '':'' = '':''" "replace_z ''.'' = ''.''" by (simp_all add: replace_z_def)
  show thesis
  proof (rule that [of ?date ?clock "s * SECOND + ms * 1000" "t div DAY"])
    show "iso t = ?date @ CHR ''T'' # ?clock @ ''Z''"
      by (simp add: iso_def c Let_def us_def [symmetric] s_def [symmetric] ms_def [symmetric] h_def mi_def sec_def)
    show "list_all no_sign ?clock" using q ms by (simp add: digits_have_no_sign pad_is_digits)
    show "parse_clock ?clock = Some (s * SECOND + ms * 1000)" using clock_roundtrip [OF q(1,2,4-7) ms] q(3) by simp
    show "\<forall>rest. parse_date (?date @ rest) = Some (t div DAY, rest)" using date_roundtrip [OF assms c] by simp
    show "t div DAY * DAY + (s * SECOND + ms * 1000) = t div 1000 * 1000"
      using b day_millis [of t] by (simp add: s_def ms_def us_def)
    show "replace_z ?date = ?date" "replace_z ?clock = ?clock"
      unfolding replace_z_append seps using yb mb q ms by (simp_all add: replace_z_pad)
  qed
qed

lemma parse_ts_iso:
  assumes "in_range t" shows "parse_ts (iso t) = Some (t div 1000 * 1000, Some 0)"
proof -
  obtain date clock us days where i: "iso t = date @ CHR ''T'' # clock @ ''Z''" "list_all no_sign clock" "parse_clock clock = Some us"
    "\<forall>rest. parse_date (date @ rest) = Some (days, rest)" "days * DAY + us = t div 1000 * 1000"
    "replace_z date = date" "replace_z clock = clock" by (rule iso_shape [OF assms])
  have "replace_z (CHR ''T'' # x) = CHR ''T'' # replace_z x" "replace_z ''Z'' = CHR ''+'' # ''00:00''" for x
    by (simp_all add: replace_z_def)
  then have "replace_z (iso t) = date @ CHR ''T'' # clock @ CHR ''+'' # ''00:00''"
    unfolding i(1) by (simp add: replace_z_append i(6,7))
  then show ?thesis
    unfolding i(5) [symmetric] parse_ts_def fromisoformat_def
    using i(3,4) split_at_sign [OF i(2), of "''00:00''"] zero_offset by simp
qed

text \<open>Python 3.11 and later read a stamp without the replacement.\<close>

lemma fromisoformat_311_iso:
  assumes "in_range t" shows "fromisoformat_311 (iso t) = Some (t div 1000 * 1000, Some 0)"
proof -
  obtain date clock us days where i: "iso t = date @ CHR ''T'' # clock @ ''Z''" "list_all no_sign clock" "parse_clock clock = Some us"
    "\<forall>rest. parse_date (date @ rest) = Some (days, rest)" "days * DAY + us = t div 1000 * 1000"
    "replace_z date = date" "replace_z clock = clock" by (rule iso_shape [OF assms])
  have ends: "butlast (iso t) = date @ CHR ''T'' # clock" "last (iso t) = CHR ''Z''" "iso t \<noteq> []"
    by (simp_all add: i(1) butlast_append)
  have parts: "takeWhile no_sign clock = clock" "dropWhile no_sign clock = []"
    using i(2) by (simp_all add: list_all_iff takeWhile_eq_all_conv dropWhile_eq_Nil_conv)
  have "fromisoformat (date @ CHR ''T'' # clock) = Some (days * DAY + us, None)"
    using i(3,4) by (simp add: fromisoformat_def parts parse_offset_def)
  then show ?thesis unfolding i(5) [symmetric] by (simp add: fromisoformat_311_def ends)
qed

lemma iso_of_millis: "in_range t \<Longrightarrow> iso (t div 1000 * 1000) = iso t"
proof -
  assume t: "in_range t"
  then have r: "in_range (t div 1000 * 1000)"
    using div_bounds [of 1000 t] by (auto simp: in_range_def pos_imp_zdiv_nonneg_iff)
  from iso_order_iff [OF t r] iso_order_iff [OF r t] show ?thesis by simp
qed

text \<open>C18: Every stamp the server writes is read back by its own parser, zone included, to the instant it was written
  at, cut to milliseconds; and writing the instant read gives the text it was read from. This is what makes the
  stored text timestamps of jobs, telemetry and retention usable as times.\<close>

theorem iso_roundtrip:
  assumes "in_range t"
  shows "parse_ts (iso t) = Some (t div 1000 * 1000, Some 0) \<and> parse_z (iso t) = Some (t div 1000 * 1000) \<and>
    map_option iso (parse_z (iso t)) = Some (iso t)"
  using parse_ts_iso [OF assms] iso_of_millis [OF assms] by (simp add: parse_z_def parse_ts_def as_utc_def)

theorem iso_roundtrip_witness: "parse_z (iso 1785542399123456) = Some 1785542399123000"
  using iso_roundtrip [of 1785542399123456] by (simp add: in_range_def DAY_def SECOND_def)
end
