(* ===== verification/Jobs.thy ===== *)
theory Jobs
  imports Deployments Storage Iso_Roundtrip
begin

text \<open>
  The compression job: its start (\<open>_start_ingestion\<close> in \<open>app/routers/models.py\<close>), the worker's body
  (\<open>app/services/jobs.py\<close>), cancellation (\<open>app/services/cancel.py\<close>) and the reaping of orphaned runs
  (\<open>app/repositories.py\<close>).  The engine, the weight loaders and the converters are parameters that
  return the progress events they emitted and an artifact record or an error.  The lemmas show
  that a job ends in a terminal state and numbers its log lines without gaps.
\<close>

section \<open>Cancellation\<close>

record cancel_state =
  ca_local :: "string list"
  ca_redis :: "string list option"          \<comment> \<open>\<open>None\<close>: Redis is not reachable\<close>

definition request_cancel :: "string \<Rightarrow> cancel_state \<Rightarrow> cancel_state" where
  "request_cancel r c = c\<lparr>ca_local := List.insert r (ca_local c), ca_redis := map_option (List.insert r) (ca_redis c)\<rparr>"

definition is_cancelled :: "string \<Rightarrow> cancel_state \<Rightarrow> bool" where
  "is_cancelled r c \<longleftrightarrow> r \<in> set (ca_local c) \<or> (case ca_redis c of None \<Rightarrow> False | Some rs \<Rightarrow> r \<in> set rs)"

definition clear_cancel :: "string \<Rightarrow> cancel_state \<Rightarrow> cancel_state" where
  "clear_cancel r c = c\<lparr>ca_local := removeAll r (ca_local c), ca_redis := map_option (removeAll r) (ca_redis c)\<rparr>"

definition should_cancel :: "instant option \<Rightarrow> string \<Rightarrow> instant \<Rightarrow> cancel_state \<Rightarrow> bool" where
  "should_cancel deadline r now c \<longleftrightarrow> (case deadline of Some t \<Rightarrow> now > t | None \<Rightarrow> False) \<or> is_cancelled r c"

section \<open>Start\<close>

record settings =
  st_fast :: bool
  st_pareto_trials :: int
  st_job_timeout :: int

definition total_trials :: "settings \<Rightarrow> int" where
  "total_trials s = (if st_fast s then 4 else st_pareto_trials s)"

record job =
  jb_run :: string
  jb_model :: string
  jb_user :: string
  jb_model_name :: string
  jb_file :: string
  jb_source :: "string option"
  jb_format :: string

definition start_ingestion ::
  "settings \<Rightarrow> string \<Rightarrow> string \<Rightarrow> string \<Rightarrow> string \<Rightarrow> string option \<Rightarrow> db \<Rightarrow> db \<times> job" where
  "start_ingestion s now token user file_name src d =
     (let run_id = ''ing_'' @ token; model_id = ''m_uploaded_'' @ token;
          (fmt, type_full, type_short) = infer_format file_name;
          model = \<lparr>md_id = model_id, md_user = user, md_name = display_name file_name, md_type_full = type_full,
            md_type_short = type_short, md_format = fmt, md_last_learned = now, md_last_optimized = None,
            md_status = ''analyzing'', md_best_accuracy = None, md_is_deployed = False,
            md_description = Some (''Uploaded '' @ file_name @ MIDDOT @ ''awaiting sensitivity analysis''),
            md_run = Some run_id, md_family = family_from_file_name file_name fmt, md_weights_only = False,
            md_artifact_key = None, md_source_key = src, md_artifact_sha = None, md_artifact_size = None\<rparr>;
          run = \<lparr>ir_id = run_id, ir_user = user, ir_model = model_id, ir_file = file_name, ir_started = now,
            ir_status = ''streaming'', ir_progress = 0, ir_error = None, ir_finished = None\<rparr>;
          dash = \<lparr>rn_id = ''run_'' @ run_id, rn_user = user, rn_model = model_id, rn_name = display_name file_name,
            rn_status = ''queued'', rn_progress = 0, rn_iter = (0, total_trials s), rn_best_acc = 0,
            rn_delta_acc = 0, rn_created = now\<rparr>
      in (add_activity (''act_start_'' @ token) user ''run_started'' now
            (add_activity (''act_up_'' @ token) user ''model_uploaded'' now
              (d\<lparr>t_models := t_models d @ [model], t_ingestions := t_ingestions d @ [run],
                 t_runs := t_runs d @ [dash]\<rparr>)),
          \<lparr>jb_run = run_id, jb_model = model_id, jb_user = user, jb_model_name = display_name file_name,
           jb_file = file_name, jb_source = src, jb_format = fmt\<rparr>))"

section \<open>Logs and progress\<close>

text \<open>The worker's state: the last sequence number and the database.\<close>

definition emit :: "string \<Rightarrow> job \<Rightarrow> string \<Rightarrow> string \<Rightarrow> nat \<times> db \<Rightarrow> nat \<times> db" where
  "emit now j level message = (\<lambda>(seq, d).
     (seq + 1, d\<lparr>t_logs := t_logs d @ [\<lparr>lg_run = jb_run j, lg_seq = seq + 1, lg_ts = now, lg_level = level,
                                        lg_message = message\<rparr>]\<rparr>))"

definition progress :: "settings \<Rightarrow> job \<Rightarrow> int \<Rightarrow> nat \<times> db \<Rightarrow> nat \<times> db" where
  "progress s j pct = (\<lambda>(seq, d).
     (seq, upd_run (''run_'' @ jb_run j) (\<lambda>r. r\<lparr>rn_progress := pct,
              rn_iter := (round_half_even (of_int (total_trials s * pct) / 100), total_trials s)\<rparr>)
            (upd_ingestion (jb_run j) (\<lambda>r. r\<lparr>ir_progress := pct\<rparr>) d)))"

datatype event = Emit string string | Progress int

fun run_event :: "settings \<Rightarrow> string \<Rightarrow> job \<Rightarrow> event \<Rightarrow> nat \<times> db \<Rightarrow> nat \<times> db" where
  "run_event s now j (Emit level message) w = emit now j level message w"
| "run_event s now j (Progress pct) w = progress s j pct w"

section \<open>What the engine returns\<close>

record artifacts =
  ar_file :: "(string \<times> string) option"       \<comment> \<open>suffix and content of the artifact file\<close>
  ar_ingested :: "string option"
  ar_architecture :: payload
  ar_trials :: "trial_cell list"
  ar_base_accuracy :: "real option"
  ar_drop_budget :: "real option"
  ar_benchmark :: "payload option"
  ar_trial_configs :: "payload option"
  ar_meta :: "payload option"
  ar_best_accuracy :: "real option"
  ar_risk_level :: string
  ar_max_sensitivity :: real

datatype route = R_Torch | R_SafeTensors | R_CoreML | R_Gguf | R_Keras | R_TFLite | R_FrozenPb | R_Engine

definition route_of :: "string \<Rightarrow> route" where
  "route_of path =
     (let ext = str_lower (path_suffix path) in
      if ext \<in> {''.pt'', ''.pth'', ''.bin'', ''.ckpt''} then R_Torch
      else if ext = ''.safetensors'' then R_SafeTensors
      else if ext = ''.mlmodel'' then R_CoreML
      else if ext = ''.gguf'' then R_Gguf
      else if ext \<in> {''.h5'', ''.keras''} then R_Keras
      else if ext = ''.tflite'' then R_TFLite
      else if ext = ''.pb'' then R_FrozenPb
      else R_Engine)"

datatype 'a conversion = Converted 'a | ConversionUnavailable string | ConversionFailed py_error

record 'b pipeline =
  pl_synthesize :: "string \<Rightarrow> (string \<times> string) result"      \<comment> \<open>path and note\<close>
  pl_load :: "route \<Rightarrow> string \<Rightarrow> 'b option result"               \<comment> \<open>weight loaders\<close>
  pl_convert :: "route \<Rightarrow> string \<Rightarrow> string conversion"            \<comment> \<open>converters to ONNX\<close>
  pl_weight_only :: "'b \<Rightarrow> string \<Rightarrow> event list \<times> artifacts result"
  pl_engine :: "string \<Rightarrow> string \<Rightarrow> event list \<times> artifacts result"
  pl_sha :: "string \<Rightarrow> string"
  pl_message :: "py_error \<Rightarrow> string"

section \<open>Success and failure\<close>

definition put_cached_result :: "string \<Rightarrow> string \<Rightarrow> payload \<Rightarrow> string \<Rightarrow> db \<Rightarrow> db" where
  "put_cached_result model_id kind pl user d =
     (let hit = (\<lambda>r. rc_model r = model_id \<and> rc_kind r = kind \<and> rc_user r = user) in
      if list_ex hit (t_cache d) then d\<lparr>t_cache := upd_where hit (\<lambda>r. r\<lparr>rc_payload := pl\<rparr>) (t_cache d)\<rparr>
      else d\<lparr>t_cache := t_cache d @ [\<lparr>rc_user = user, rc_model = model_id, rc_kind = kind, rc_payload = pl\<rparr>]\<rparr>)"

definition put_some :: "string \<Rightarrow> string \<Rightarrow> payload option \<Rightarrow> string \<Rightarrow> db \<Rightarrow> db" where
  "put_some model_id kind pl user d = (case pl of None \<Rightarrow> d | Some p \<Rightarrow> put_cached_result model_id kind p user d)"

definition cache_results :: "job \<Rightarrow> artifacts \<Rightarrow> bool \<Rightarrow> db \<Rightarrow> db" where
  "cache_results j a weights_only d =
     (let m = jb_model j; u = jb_user j;
          d1 = put_cached_result m ''architecture'' (ar_architecture a) u d
      in if weights_only then d1
         else put_some m ''artifact_meta'' (ar_meta a) u
                (put_some m ''pareto_configs'' (ar_trial_configs a) u
                  (put_some m ''benchmark'' (ar_benchmark a) u
                    (put_cached_result m ''pareto'' (PPareto (ar_trials a) (ar_base_accuracy a) (ar_drop_budget a)) u d1))))"

definition store_artifacts :: "job \<Rightarrow> artifacts \<Rightarrow> store \<Rightarrow> store" where
  "store_artifacts j a st =
     (let st1 = (case ar_file a of None \<Rightarrow> st | Some (sfx, c) \<Rightarrow> store_put (artifact_key (jb_model j) sfx) c st)
      in case ar_ingested a of None \<Rightarrow> st1 | Some c \<Rightarrow> store_put (ingested_key (jb_model j)) c st1)"

definition default_0 :: "real option \<Rightarrow> real" where
  "default_0 x = (case x of None \<Rightarrow> 0 | Some r \<Rightarrow> r)"

definition finish_dash :: "artifacts \<Rightarrow> bool \<Rightarrow> run_row \<Rightarrow> run_row" where
  "finish_dash a weights_only r =
     r\<lparr>rn_status := ''done'', rn_progress := 100, rn_iter := (snd (rn_iter r), snd (rn_iter r)),
       rn_best_acc := default_0 (ar_best_accuracy a),
       rn_delta_acc := (case (if weights_only then None else ar_base_accuracy a) of
          None \<Rightarrow> 0 | Some b \<Rightarrow> py_round 2 (default_0 (ar_best_accuracy a) - b))\<rparr>"

definition finish_model :: "(string \<Rightarrow> string) \<Rightarrow> string \<Rightarrow> artifacts \<Rightarrow> bool \<Rightarrow> model_row \<Rightarrow> model_row" where
  "finish_model sha now a weights_only m =
     (let m1 = (case ar_file a of None \<Rightarrow> m
             | Some (sfx, c) \<Rightarrow> m\<lparr>md_artifact_key := Some (artifact_key (md_id m) sfx), md_artifact_sha := Some (sha c),
                                   md_artifact_size := Some (length c)\<rparr>)
      in if md_status m \<in> {''analyzing'', ''optimizing''}
         then m1\<lparr>md_status := ''draft'', md_best_accuracy := ar_best_accuracy a, md_weights_only := weights_only,
                 md_last_optimized := Some now, md_run := None\<rparr>
         else m1)"

definition on_success :: "(string \<Rightarrow> string) \<Rightarrow> string \<Rightarrow> job \<Rightarrow> artifacts \<Rightarrow> bool \<Rightarrow> db \<Rightarrow> db" where
  "on_success sha now j a weights_only d =
     (let d1 = upd_model (jb_model j) (finish_model sha now a weights_only)
                 (upd_run (''run_'' @ jb_run j) (finish_dash a weights_only)
                   (upd_ingestion (jb_run j) (\<lambda>r. r\<lparr>ir_status := ''completed'', ir_progress := 100, ir_finished := Some now\<rparr>)
                     (cache_results j a weights_only d)));
          d2 = (if ar_risk_level a \<noteq> ''safe'' \<or> ar_max_sensitivity a > 0.7
                then add_alert (''al_risk_'' @ jb_run j) (jb_user j) (jb_model j) ''warning''
                       (''Compression risk - '' @ jb_model_name j) now d1 else d1)
      in add_activity (''act_done_'' @ jb_run j) (jb_user j) ''run_completed'' now d2)"

definition on_failure :: "string \<Rightarrow> job \<Rightarrow> string \<Rightarrow> db \<Rightarrow> db" where
  "on_failure now j err d =
     add_alert (''al_fail_'' @ jb_run j) (jb_user j) (jb_model j) ''danger'' (''Pipeline failed - '' @ jb_model_name j) now
       (upd_model (jb_model j) (\<lambda>m. if md_status m \<noteq> ''deployed'' then m\<lparr>md_status := ''failed'', md_run := None\<rparr> else m)
         (upd_run (''run_'' @ jb_run j) (\<lambda>r. r\<lparr>rn_status := ''failed''\<rparr>)
           (upd_ingestion (jb_run j) (\<lambda>r. r\<lparr>ir_status := ''failed'', ir_error := Some (take 500 err), ir_finished := Some now\<rparr>) d)))"

section \<open>The worker's body\<close>

definition pick_up :: "job \<Rightarrow> db \<Rightarrow> db" where
  "pick_up j d = upd_run (''run_'' @ jb_run j) (\<lambda>r. if rn_status r = ''queued'' then r\<lparr>rn_status := ''running''\<rparr> else r) d"

text \<open>Where the source comes from, with the lines logged on the way.\<close>

definition locate_source :: "'b pipeline \<Rightarrow> job \<Rightarrow> store \<Rightarrow> event list \<times> string result" where
  "locate_source pl j st =
     (case jb_source j of
        None \<Rightarrow>
          (let line = Emit ''INFO'' (''No artifact bytes supplied for '' @ jb_file j @
                 '' - synthesizing a real reference model for the declared format'')
           in case pl_synthesize pl (jb_file j) of
                Inl e \<Rightarrow> ([line], raise e)
              | Inr (path, note) \<Rightarrow> ([line, Emit ''INFO'' (''Synthesized: '' @ note)], ok path))
      | Some key \<Rightarrow>
          ([], bind_result (read_bytes st key) (\<lambda>_. ok (path_name key))))"

text \<open>The format dispatch: a weight bundle, or a path the engine takes.\<close>

definition dispatch :: "'b pipeline \<Rightarrow> string \<Rightarrow> event list \<times> ('b option \<times> string) result" where
  "dispatch pl path =
     (let load = (\<lambda>r. ([], bind_result (pl_load pl r path) (\<lambda>b. ok (b, path))));
          convert = (\<lambda>r. case pl_convert pl r path of
              Converted p \<Rightarrow> ([], ok (None, p))
            | ConversionUnavailable msg \<Rightarrow> ([], raise (RuntimeError msg))
            | ConversionFailed e \<Rightarrow> ([], raise e))
      in case route_of path of
          R_Torch \<Rightarrow> load R_Torch | R_SafeTensors \<Rightarrow> load R_SafeTensors
        | R_CoreML \<Rightarrow> load R_CoreML | R_Gguf \<Rightarrow> load R_Gguf
        | R_Keras \<Rightarrow>
            (case pl_convert pl R_Keras path of
               Converted p \<Rightarrow> ([], ok (None, p))
             | ConversionFailed e \<Rightarrow> ([], raise e)
             | ConversionUnavailable msg \<Rightarrow>
                 ([Emit ''WARN'' (''Full Keras to ONNX conversion unavailable: '' @ msg),
                   Emit ''INFO'' ''Falling back to honest weight-only analysis (h5py)''],
                  snd (load R_Keras)))
        | R_TFLite \<Rightarrow> convert R_TFLite | R_FrozenPb \<Rightarrow> convert R_FrozenPb
        | R_Engine \<Rightarrow> ([], ok (None, path)))"

definition run_job :: "'b pipeline \<Rightarrow> job \<Rightarrow> store \<Rightarrow> event list \<times> (artifacts \<times> bool) result" where
  "run_job pl j st =
     (case locate_source pl j st of
        (ev1, Inl e) \<Rightarrow> (ev1, raise e)
      | (ev1, Inr path) \<Rightarrow>
          (case dispatch pl path of
             (ev2, Inl e) \<Rightarrow> (ev1 @ ev2, raise e)
           | (ev2, Inr (bundle, path')) \<Rightarrow>
               (let (ev3, r) = (case bundle of Some b \<Rightarrow> pl_weight_only pl b path' | None \<Rightarrow> pl_engine pl path' (jb_format j))
                in (ev1 @ ev2 @ ev3, bind_result r (\<lambda>a. ok (a, bundle \<noteq> None))))))"

definition execute_pipeline ::
  "'b pipeline \<Rightarrow> settings \<Rightarrow> string \<Rightarrow> job \<Rightarrow> store \<times> db \<Rightarrow> store \<times> db" where
  "execute_pipeline pl s now j = (\<lambda>(st, d).
     (let (events, r) = run_job pl j st;
          (seq, d1) = fold (run_event s now j) events (0, pick_up j d)
      in case r of
          Inr (a, weights_only) \<Rightarrow> (store_artifacts j a st, on_success (pl_sha pl) now j a weights_only d1)
        | Inl e \<Rightarrow>
            (let (_, d2) = emit now j ''ERROR''
                   (if e = PipelineCancelled then ''Pipeline cancelled (timeout or explicit cancel)''
                    else ''Pipeline failed: '' @ pl_message pl e) (seq, d1)
             in (st, on_failure now j (pl_message pl e) d2))))"

text \<open>The states the body leaves behind it, one per upload and per commit, in the order it makes them: a worker that is killed,
  that hangs in the engine, or that raises before the \<open>try\<close> (the scratch directory, the storage client) leaves one of them.\<close>

definition store_steps :: "job \<Rightarrow> artifacts \<Rightarrow> store \<Rightarrow> store list" where
  "store_steps j a st =
     (let st1 = (case ar_file a of None \<Rightarrow> st | Some (sfx, c) \<Rightarrow> store_put (artifact_key (jb_model j) sfx) c st)
      in [st, st1, store_artifacts j a st])"

definition pipeline_commits ::
  "'b pipeline \<Rightarrow> settings \<Rightarrow> string \<Rightarrow> job \<Rightarrow> store \<times> db \<Rightarrow> (store \<times> db) list" where
  "pipeline_commits pl s now j = (\<lambda>(st, d).
     (let (events, r) = run_job pl j st;
          after = (\<lambda>k. fold (run_event s now j) (take k events) (0, pick_up j d));
          (seq, d1) = after (length events)
      in [(st, d)] @ map (\<lambda>k. (st, snd (after k))) [0..<length events + 1] @
         (case r of
            Inr (a, weights_only) \<Rightarrow> map (\<lambda>st'. (st', d1)) (store_steps j a st) @
              [(store_artifacts j a st, on_success (pl_sha pl) now j a weights_only d1)]
          | Inl e \<Rightarrow>
              (let (_, d2) = emit now j ''ERROR''
                     (if e = PipelineCancelled then ''Pipeline cancelled (timeout or explicit cancel)''
                      else ''Pipeline failed: '' @ pl_message pl e) (seq, d1)
               in [(st, d2), (st, on_failure now j (pl_message pl e) d2)]))))"

lemma first_commit: "(st, d) \<in> set (pipeline_commits pl s now j (st, d))"
proof -
  obtain events r where r: "run_job pl j st = (events, r)" by force
  obtain seq d1 where "fold (run_event s now j) events (0, pick_up j d) = (seq, d1)" by force
  with r show ?thesis by (simp add: pipeline_commits_def)
qed

lemma last_commit: "last (pipeline_commits pl s now j w) = execute_pipeline pl s now j w"
  by (auto simp: pipeline_commits_def execute_pipeline_def Let_def split: prod.splits sum.splits)

definition latest_log_seq :: "string \<Rightarrow> db \<Rightarrow> nat" where
  "latest_log_seq r d = fold max (map lg_seq (filter (\<lambda>l. lg_run l = r) (t_logs d))) 0"

section \<open>Reaping\<close>

text \<open>\<open>parse\<close> is the interpreter's \<open>fromisoformat\<close>, of 3.10 or of 3.11 and later: the
  project admits both, and here the trailing Z is not replaced before parsing.\<close>

definition run_expired ::
  "(string \<Rightarrow> (instant \<times> instant option) option) \<Rightarrow> instant \<Rightarrow> int \<Rightarrow> ingestion_run_row \<Rightarrow> bool" where
  "run_expired parse now max_age_sec r \<longleftrightarrow> ir_status r = ''streaming'' \<and>
     (case parse (ir_started r) of
        None \<Rightarrow> False
      | Some t \<Rightarrow> \<not> now - as_utc t < max_age_sec * SECOND)"

definition fail_run :: "instant \<Rightarrow> ingestion_run_row \<Rightarrow> ingestion_run_row" where
  "fail_run now x = x\<lparr>ir_status := ''failed'', ir_finished := Some (iso now),
     ir_error := Some (or_empty (ir_error x) ''orphaned - worker stopped before the run finished'')\<rparr>"

definition release_model :: "string \<Rightarrow> model_row \<Rightarrow> model_row" where
  "release_model run_id m =
     (if md_status m \<in> {''analyzing'', ''optimizing''} \<and> md_run m = Some run_id
      then m\<lparr>md_status := ''failed'', md_run := None\<rparr> else m)"

definition reap_run :: "instant \<Rightarrow> ingestion_run_row \<Rightarrow> db \<Rightarrow> db" where
  "reap_run now r d = upd_model (ir_model r) (release_model (ir_id r)) (upd_ingestion (ir_id r) (fail_run now) d)"

definition reconcile_orphaned_runs ::
  "(string \<Rightarrow> (instant \<times> instant option) option) \<Rightarrow> instant \<Rightarrow> int \<Rightarrow> db \<Rightarrow> db \<times> string list" where
  "reconcile_orphaned_runs parse now max_age_sec d =
     (let dead = filter (run_expired parse now max_age_sec) (t_ingestions d)
      in (fold (reap_run now) dead d, map ir_id dead))"

section \<open>Frames of the worker's steps\<close>

lemma run_event_frame [simp]:
  "t_models (snd (run_event s now j e w)) = t_models (snd w)"
  "t_deployments (snd (run_event s now j e w)) = t_deployments (snd w)"
  "t_keys (snd (run_event s now j e w)) = t_keys (snd w)"
  "map ir_id (t_ingestions (snd (run_event s now j e w))) = map ir_id (t_ingestions (snd w))"
  by (cases e; cases w; simp add: emit_def progress_def upd_ingestion_def upd_where_def upd_run_def)+

lemma fold_event_frame [simp]:
  "t_models (snd (fold (run_event s now j) es w)) = t_models (snd w)"
  "t_deployments (snd (fold (run_event s now j) es w)) = t_deployments (snd w)"
  "t_keys (snd (fold (run_event s now j) es w)) = t_keys (snd w)"
  by (induction es arbitrary: w) auto

lemma emit_frame [simp]:
  "t_models (snd (emit now j l m w)) = t_models (snd w)" "t_deployments (snd (emit now j l m w)) = t_deployments (snd w)"
  "t_keys (snd (emit now j l m w)) = t_keys (snd w)" "t_ingestions (snd (emit now j l m w)) = t_ingestions (snd w)"
  by (cases w; simp add: emit_def)+

lemma pick_up_frame [simp]:
  "t_models (pick_up j d) = t_models d" "t_deployments (pick_up j d) = t_deployments d" "t_keys (pick_up j d) = t_keys d"
  "t_ingestions (pick_up j d) = t_ingestions d" "t_logs (pick_up j d) = t_logs d"
  by (simp_all add: pick_up_def upd_run_def)

lemma put_cached_frame [simp]:
  "t_models (put_cached_result m k p u d) = t_models d" "t_deployments (put_cached_result m k p u d) = t_deployments d"
  "t_keys (put_cached_result m k p u d) = t_keys d" "t_ingestions (put_cached_result m k p u d) = t_ingestions d"
  "t_logs (put_cached_result m k p u d) = t_logs d"
  by (simp_all add: put_cached_result_def Let_def)

lemma put_some_frame [simp]:
  "t_models (put_some m k p u d) = t_models d" "t_deployments (put_some m k p u d) = t_deployments d"
  "t_keys (put_some m k p u d) = t_keys d" "t_ingestions (put_some m k p u d) = t_ingestions d"
  "t_logs (put_some m k p u d) = t_logs d"
  by (simp_all add: put_some_def split: option.splits)

lemma cache_results_frame [simp]:
  "t_models (cache_results j a w d) = t_models d" "t_deployments (cache_results j a w d) = t_deployments d"
  "t_keys (cache_results j a w d) = t_keys d" "t_ingestions (cache_results j a w d) = t_ingestions d"
  "t_logs (cache_results j a w d) = t_logs d"
  by (simp_all add: cache_results_def Let_def)

lemma on_success_tables:
  "t_models (on_success sha now j a w d) = upd_where (\<lambda>m. md_id m = jb_model j) (finish_model sha now a w) (t_models d)"
  "t_deployments (on_success sha now j a w d) = t_deployments d"
  "t_keys (on_success sha now j a w d) = t_keys d"
  "t_ingestions (on_success sha now j a w d) = upd_where (\<lambda>r. ir_id r = jb_run j)
     (\<lambda>r. r\<lparr>ir_status := ''completed'', ir_progress := 100, ir_finished := Some now\<rparr>) (t_ingestions d)"
  "t_logs (on_success sha now j a w d) = t_logs d"
  by (simp_all add: on_success_def Let_def t_models_upd_model) (simp_all add: row_update_defs)

lemma on_failure_tables:
  "t_models (on_failure now j err d) = upd_where (\<lambda>m. md_id m = jb_model j)
     (\<lambda>m. if md_status m \<noteq> ''deployed'' then m\<lparr>md_status := ''failed'', md_run := None\<rparr> else m) (t_models d)"
  "t_deployments (on_failure now j err d) = t_deployments d"
  "t_keys (on_failure now j err d) = t_keys d"
  "t_ingestions (on_failure now j err d) = upd_where (\<lambda>r. ir_id r = jb_run j)
     (\<lambda>r. r\<lparr>ir_status := ''failed'', ir_error := Some (take 500 err), ir_finished := Some now\<rparr>) (t_ingestions d)"
  "t_logs (on_failure now j err d) = t_logs d"
  by (simp_all add: on_failure_def row_update_defs)

text \<open>How a job ends, as far as the tables are concerned.\<close>

lemma execute_pipeline_ends:
  obtains (success) a w d1 where "snd (execute_pipeline pl s now j (st, d)) = on_success (pl_sha pl) now j a w d1"
      "t_models d1 = t_models d" "t_deployments d1 = t_deployments d" "t_keys d1 = t_keys d"
      "\<exists>es. d1 = snd (fold (run_event s now j) es (0, pick_up j d))"
  | (failure) err d1 where "snd (execute_pipeline pl s now j (st, d)) = on_failure now j err d1"
      "t_models d1 = t_models d" "t_deployments d1 = t_deployments d" "t_keys d1 = t_keys d"
      "\<exists>es. d1 = snd (fold (run_event s now j) es (0, pick_up j d))"
proof -
  obtain events r where r: "run_job pl j st = (events, r)" by force
  obtain seq d1 where f: "fold (run_event s now j) events (0, pick_up j d) = (seq, d1)" by force
  from fold_event_frame [of s now j events "(0, pick_up j d)"] f
  have fr: "t_models d1 = t_models d" "t_deployments d1 = t_deployments d" "t_keys d1 = t_keys d" by auto
  show thesis
  proof (cases r)
    case (Inr aw)
    obtain a w where "aw = (a, w)" by force
    with Inr r f fr show thesis by (intro success [of a w d1]) (auto simp: execute_pipeline_def intro: exI [of _ events])
  next
    case (Inl e)
    let ?msg = "if e = PipelineCancelled then ''Pipeline cancelled (timeout or explicit cancel)''
                 else ''Pipeline failed: '' @ pl_message pl e"
    obtain seq2 d2 where m: "emit now j ''ERROR'' ?msg (seq, d1) = (seq2, d2)" by force
    with f have es: "d2 = snd (fold (run_event s now j) (events @ [Emit ''ERROR'' ?msg]) (0, pick_up j d))" by simp
    moreover have "t_models d2 = t_models d" "t_deployments d2 = t_deployments d" "t_keys d2 = t_keys d"
      using emit_frame [of now j "''ERROR''" ?msg "(seq, d1)"] m fr by auto
    ultimately show thesis using Inl r f m
      by (intro failure [of "pl_message pl e" d2] exI [of _ "events @ [Emit ''ERROR'' ?msg]"] es)
        (auto simp: execute_pipeline_def)
  qed
qed

section \<open>A worker that does not return\<close>

text \<open>What the steps before the last one leave alone: all of a model, and of a run everything but the progress.\<close>

definition run_view :: "ingestion_run_row \<Rightarrow> ingestion_run_row" where
  "run_view r = r\<lparr>ir_progress := 0\<rparr>"

lemma run_view_eq: "run_view r = run_view r' \<Longrightarrow> ir_id r = ir_id r' \<and> ir_status r = ir_status r' \<and> ir_started r = ir_started r' \<and> ir_model r = ir_model r'"
  by (cases r; cases r') (simp add: run_view_def)

lemma run_event_view: "map run_view (t_ingestions (snd (run_event s now j e w))) = map run_view (t_ingestions (snd w))"
  by (cases e; cases w) (auto simp: emit_def progress_def upd_ingestion_def upd_run_def upd_where_def run_view_def)

lemma fold_event_view: "map run_view (t_ingestions (snd (fold (run_event s now j) es w))) = map run_view (t_ingestions (snd w))"
  by (induction es arbitrary: w) (simp_all add: run_event_view)

lemma commit_cases:
  assumes "(st', d') \<in> set (pipeline_commits pl s now j (st, d))"
  obtains (last) "(st', d') = execute_pipeline pl s now j (st, d)"
  | (open_run) "t_models d' = t_models d" "map run_view (t_ingestions d') = map run_view (t_ingestions d)"
      "t_deployments d' = t_deployments d" "t_keys d' = t_keys d"
proof -
  obtain events r where r: "run_job pl j st = (events, r)" by force
  let ?after = "\<lambda>k. fold (run_event s now j) (take k events) (0, pick_up j d)"
  have after: "t_models (snd (?after k)) = t_models d" "map run_view (t_ingestions (snd (?after k))) = map run_view (t_ingestions d)"
    "t_deployments (snd (?after k)) = t_deployments d" "t_keys (snd (?after k)) = t_keys d" for k
    by (simp_all add: fold_event_view)
  obtain seq d1 where d1: "fold (run_event s now j) events (0, pick_up j d) = (seq, d1)" by force
  then have f: "t_models d1 = t_models d" "map run_view (t_ingestions d1) = map run_view (t_ingestions d)"
    "t_deployments d1 = t_deployments d" "t_keys d1 = t_keys d"
    using after [of "length events"] by simp_all
  show thesis
  proof (cases r)
    case (Inr aw)
    with assms r d1 after f show thesis
      by (cases aw) (auto simp: pipeline_commits_def execute_pipeline_def intro: last open_run)
  next
    case (Inl e)
    define msg where "msg = (if e = PipelineCancelled then ''Pipeline cancelled (timeout or explicit cancel)''
                 else ''Pipeline failed: '' @ pl_message pl e)"
    obtain seq2 d2 where m: "emit now j ''ERROR'' msg (seq, d1) = (seq2, d2)" by force
    then have "t_models d2 = t_models d" "map run_view (t_ingestions d2) = map run_view (t_ingestions d)"
      "t_deployments d2 = t_deployments d" "t_keys d2 = t_keys d"
      using emit_frame [of now j "''ERROR''" msg "(seq, d1)"] f by simp_all
    with assms r d1 after f Inl m show thesis
      by (auto simp: pipeline_commits_def execute_pipeline_def msg_def [symmetric] intro: last open_run)
  qed
qed

section \<open>What the reaper leaves\<close>

lemma fail_run_idem [simp]: "fail_run now (fail_run now r) = fail_run now r"
  by (simp add: fail_run_def or_empty_def split: option.split)

lemma fail_run_id [simp]: "ir_id (fail_run now r) = ir_id r" "ir_status (fail_run now r) = ''failed''"
  by (simp_all add: fail_run_def)

lemma fold_reap_ingestions:
  "t_ingestions (fold (reap_run now) rs d) = map (\<lambda>r. if ir_id r \<in> ir_id ` set rs then fail_run now r else r) (t_ingestions d)"
  by (induction rs arbitrary: d) (auto simp: reap_run_def upd_model_def upd_ingestion_def upd_where_def o_def)

lemma fold_reap_deployments [simp]:
  "t_deployments (fold (reap_run now) rs d) = t_deployments d" "t_keys (fold (reap_run now) rs d) = t_keys d"
  by (induction rs arbitrary: d) (auto simp: reap_run_def)

lemma reap_models_keep:
  assumes "\<And>i m. P m \<Longrightarrow> P (release_model i m)" "\<forall>m \<in> set (t_models d). P m"
  shows "\<forall>m \<in> set (t_models (fold (reap_run now) dead d)). P m"
  using assms(2)
proof (induction dead arbitrary: d)
  case (Cons x dead)
  have "\<forall>m \<in> set (t_models (reap_run now x d)). P m" using Cons.prems assms(1) by (auto simp: reap_run_def upd_ingestion_def upd_model_def upd_where_def)
  then show ?case using Cons.IH by simp
qed simp

lemma reap_models_release:
  assumes "r \<in> set dead"
  shows "\<forall>m \<in> set (t_models (fold (reap_run now) dead d)). \<not> (md_id m = ir_model r \<and> md_status m \<in> {''analyzing'', ''optimizing''} \<and> md_run m = Some (ir_id r))"
  using assms
proof (induction dead arbitrary: d)
  case (Cons x dead)
  let ?P = "\<lambda>m. \<not> (md_id m = ir_model r \<and> md_status m \<in> {''analyzing'', ''optimizing''} \<and> md_run m = Some (ir_id r))"
  show ?case
  proof (cases "x = r")
    case True
    have "\<forall>m \<in> set (t_models (reap_run now x d)). ?P m"
      using True by (auto simp: reap_run_def upd_ingestion_def upd_model_def upd_where_def release_model_def split: if_splits)
    then have "\<forall>m \<in> set (t_models (fold (reap_run now) dead (reap_run now x d))). ?P m"
      by (intro reap_models_keep) (auto simp: release_model_def split: if_splits)
    then show ?thesis by simp
  next
    case False
    then show ?thesis using Cons.IH [of "reap_run now x d"] Cons.prems by simp
  qed
qed simp

text \<open>A run is expired for a 3.11 parser when it was stamped by the server at least the limit ago.\<close>

lemma expired_by_stamp:
  assumes "ir_status r = ''streaming''" "ir_started r = iso t" "in_range t" "t + age * SECOND \<le> later"
  shows "run_expired fromisoformat_311 later age r"
proof -
  have "t div 1000 * 1000 \<le> t" using div_mult_mod_eq [of t 1000] pos_mod_sign [of 1000 t] by linarith
  with assms show ?thesis by (simp add: run_expired_def fromisoformat_311_iso as_utc_def)
qed

section \<open>Properties\<close>

lemma execute_pipeline_terminal:
  "(\<forall>r \<in> set (t_ingestions (snd (execute_pipeline pl s now j (st, d)))).
      ir_id r = jb_run j \<longrightarrow> ir_status r \<in> {''completed'', ''failed''}) \<and>
   (\<forall>m \<in> set (t_models (snd (execute_pipeline pl s now j (st, d)))).
      md_id m = jb_model j \<longrightarrow> md_status m \<notin> {''analyzing'', ''optimizing''}) \<and>
   (\<forall>m \<in> set (t_models d). md_id m = jb_model j \<longrightarrow> md_status m = ''deployed'' \<longrightarrow>
      (\<exists>m' \<in> set (t_models (snd (execute_pipeline pl s now j (st, d)))). md_id m' = md_id m \<and> md_status m' = ''deployed'')) \<and>
   filter (\<lambda>m. md_id m \<noteq> jb_model j) (t_models (snd (execute_pipeline pl s now j (st, d))))
     = filter (\<lambda>m. md_id m \<noteq> jb_model j) (t_models d)"
proof (cases rule: execute_pipeline_ends [of pl s now j st d])
  case (success a w d1)
  have id: "md_id (finish_model sha now a w m) = md_id m" for sha m
    by (auto simp: finish_model_def Let_def split: option.split)
  have st: "md_status (finish_model sha now a w m) = (if md_status m \<in> {''analyzing'', ''optimizing''} then ''draft'' else md_status m)"
    for sha m by (auto simp: finish_model_def Let_def split: option.split)
  show ?thesis unfolding success(1) on_success_tables success(2) upd_where_ball upd_where_bex
    by (intro conjI) (fastforce simp: id st filter_upd_where split: if_splits)+
next
  case (failure err d1)
  show ?thesis unfolding failure(1) on_failure_tables failure(2) upd_where_ball upd_where_bex
    by (intro conjI) (auto simp: filter_upd_where split: if_splits)
qed

lemma reaped_after_commit:
  assumes "(st', d') \<in> set (pipeline_commits pl s now j (st, d))"
    and "\<exists>r \<in> set (t_ingestions d). ir_id r = jb_run j"
    and "\<forall>r \<in> set (t_ingestions d). ir_id r = jb_run j \<longrightarrow> ir_status r = ''streaming'' \<and> ir_model r = jb_model j \<and>
      (\<exists>t. ir_started r = iso t \<and> in_range t \<and> t + age * SECOND \<le> later)"
    and "\<forall>m \<in> set (t_models d). md_id m = jb_model j \<longrightarrow> md_status m \<in> {''analyzing'', ''optimizing''} \<longrightarrow> md_run m = Some (jb_run j)"
    and "d'' = fst (reconcile_orphaned_runs fromisoformat_311 later age d')"
  shows "(\<forall>r \<in> set (t_ingestions d''). ir_id r = jb_run j \<longrightarrow> ir_status r \<in> {''completed'', ''failed''}) \<and>
    (\<forall>m \<in> set (t_models d''). md_id m = jb_model j \<longrightarrow> md_status m \<notin> {''analyzing'', ''optimizing''})"
  using assms(1)
proof (cases rule: commit_cases)
  case last
  note t = execute_pipeline_terminal [of pl s now j st d, folded last, unfolded snd_conv]
  have "\<forall>m \<in> set (t_models d''). md_id m = jb_model j \<longrightarrow> md_status m \<notin> {''analyzing'', ''optimizing''}"
    unfolding assms(5) reconcile_orphaned_runs_def Let_def fst_conv
    by (intro reap_models_keep) (use t in \<open>auto simp: release_model_def split: if_splits\<close>)
  then show ?thesis using t by (auto simp: assms(5) reconcile_orphaned_runs_def Let_def fold_reap_ingestions)
next
  case open_run
  let ?dead = "filter (run_expired fromisoformat_311 later age) (t_ingestions d')"
  have d'': "d'' = fold (reap_run later) ?dead d'" by (simp add: assms(5) reconcile_orphaned_runs_def Let_def)
  have views: "run_view ` set (t_ingestions d') = run_view ` set (t_ingestions d)"
    using arg_cong [OF open_run(2), of set] by simp
  have dead: "r \<in> set ?dead \<and> ir_model r = jb_model j" if "r \<in> set (t_ingestions d')" "ir_id r = jb_run j" for r
  proof -
    have "run_view r \<in> run_view ` set (t_ingestions d)" using imageI [OF that(1), of run_view] unfolding views .
    then obtain x where x: "x \<in> set (t_ingestions d)" "run_view r = run_view x" by (rule imageE)
    note e = run_view_eq [OF x(2)]
    with x(1) that(2) assms(3) obtain t where "ir_status r = ''streaming''" "ir_model r = jb_model j" "ir_started r = iso t" "in_range t"
      "t + age * SECOND \<le> later" by metis
    with that(1) expired_by_stamp show ?thesis by simp
  qed
  have "\<forall>r \<in> set (t_ingestions d''). ir_id r = jb_run j \<longrightarrow> ir_status r = ''failed''"
    unfolding d'' fold_reap_ingestions using dead by auto
  moreover obtain x where x: "x \<in> set (t_ingestions d)" "ir_id x = jb_run j" using assms(2) by blast
  have "run_view x \<in> run_view ` set (t_ingestions d')" using imageI [OF x(1), of run_view] unfolding views .
  then obtain r0 where "run_view x = run_view r0" "r0 \<in> set (t_ingestions d')" by (rule imageE)
  with x(2) have "ir_id r0 = jb_run j" "r0 \<in> set (t_ingestions d')" by (auto dest: run_view_eq)
  with dead have "r0 \<in> set ?dead" "ir_model r0 = jb_model j" "ir_id r0 = jb_run j" by blast+
  with reap_models_release [of r0 ?dead later d'] have
    "\<forall>m \<in> set (t_models d''). \<not> (md_id m = jb_model j \<and> md_status m \<in> {''analyzing'', ''optimizing''} \<and> md_run m = Some (jb_run j))"
    by (simp add: d'')
  moreover have "\<forall>m \<in> set (t_models d''). md_id m = jb_model j \<longrightarrow> md_status m \<in> {''analyzing'', ''optimizing''} \<longrightarrow> md_run m = Some (jb_run j)"
    unfolding d'' by (intro reap_models_keep) (use assms(4) open_run(1) in \<open>auto simp: release_model_def split: if_splits\<close>)
  ultimately show ?thesis by blast
qed

text \<open>C12: Every job ends, by its worker or by the reaper.  When the worker's body returns, whatever result or error the engine, a loader or a
  converter gave it, the run is completed or failed, its model is no longer analyzing or optimizing, a deployed model has kept
  its status, and the models of other jobs are as they were.  When it does not return, because the process was killed at any
  point, hangs in the engine, or raised before its \<open>try\<close>, it leaves one of the states between its commits; then a pass of the reaper under Python 3.11
  or later, at or after the limit counted from the run's start, gives the run and the model a final status all the same.  The second
  part asks that the run row is there, is streaming, belongs to the model and has a stamp the server wrote, and that the model, while
  it is analyzing or optimizing, waits for this run, all of which the start of a job sets up; that nobody else writes these rows in between; and that storage
  and database do not themselves fail while the end is written.  Under Python 3.10 the reaper reads no stamp and such a run stays.\<close>

theorem pipeline_reaches_terminal_state:
  assumes "(st', d') \<in> set (pipeline_commits pl s now j (st, d))" "d1 = snd (execute_pipeline pl s now j (st, d))"
    and "\<exists>r \<in> set (t_ingestions d). ir_id r = jb_run j"
    and "\<forall>r \<in> set (t_ingestions d). ir_id r = jb_run j \<longrightarrow> ir_status r = ''streaming'' \<and> ir_model r = jb_model j \<and>
      (\<exists>t. ir_started r = iso t \<and> in_range t \<and> t + age * SECOND \<le> later)"
    and "\<forall>m \<in> set (t_models d). md_id m = jb_model j \<longrightarrow> md_status m \<in> {''analyzing'', ''optimizing''} \<longrightarrow> md_run m = Some (jb_run j)"
    and "d'' = fst (reconcile_orphaned_runs fromisoformat_311 later age d')"
  shows "(\<forall>r \<in> set (t_ingestions d1) \<union> set (t_ingestions d''). ir_id r = jb_run j \<longrightarrow> ir_status r \<in> {''completed'', ''failed''}) \<and>
    (\<forall>m \<in> set (t_models d1) \<union> set (t_models d''). md_id m = jb_model j \<longrightarrow> md_status m \<notin> {''analyzing'', ''optimizing''}) \<and>
    (\<forall>m \<in> set (t_models d). md_id m = jb_model j \<longrightarrow> md_status m = ''deployed'' \<longrightarrow>
      (\<exists>m' \<in> set (t_models d1). md_id m' = md_id m \<and> md_status m' = ''deployed'')) \<and>
    filter (\<lambda>m. md_id m \<noteq> jb_model j) (t_models d1) = filter (\<lambda>m. md_id m \<noteq> jb_model j) (t_models d)"
  using execute_pipeline_terminal [of pl s now j st d, folded assms(2)] reaped_after_commit [OF assms(1,3-6)] by blast

lemma run_event_logs:
  "\<exists>new. t_logs (snd (run_event s now j e w)) = t_logs (snd w) @ new \<and>
     map lg_seq new = [fst w + 1..<fst (run_event s now j e w) + 1] \<and> (\<forall>l \<in> set new. lg_run l = jb_run j)"
  by (cases e; cases w) (auto simp: emit_def progress_def upd_run_def upd_ingestion_def)

lemma fold_event_logs:
  "\<exists>new. t_logs (snd (fold (run_event s now j) es w)) = t_logs (snd w) @ new \<and>
     map lg_seq new = [fst w + 1..<fst w + 1 + length new] \<and> (\<forall>l \<in> set new. lg_run l = jb_run j) \<and>
     fst (fold (run_event s now j) es w) = fst w + length new"
proof (induction es arbitrary: w)
  case (Cons e es)
  define w1 where "w1 = run_event s now j e w"
  obtain n1 where n1: "t_logs (snd w1) = t_logs (snd w) @ n1" "map lg_seq n1 = [fst w + 1..<fst w1 + 1]"
    "\<forall>l \<in> set n1. lg_run l = jb_run j" using run_event_logs [of s now j e w] w1_def by blast
  have le: "fst w \<le> fst w1" by (cases e; cases w) (auto simp: w1_def emit_def progress_def)
  have l1: "length n1 = fst w1 - fst w" using arg_cong [OF n1(2), of length] by (simp only: length_map length_upt)
  obtain n2 where n2: "t_logs (snd (fold (run_event s now j) es w1)) = t_logs (snd w1) @ n2"
    "map lg_seq n2 = [fst w1 + 1..<fst w1 + 1 + length n2]" "\<forall>l \<in> set n2. lg_run l = jb_run j"
    "fst (fold (run_event s now j) es w1) = fst w1 + length n2" using Cons.IH [of w1] by blast
  have "map lg_seq (n1 @ n2) = [fst w + 1..<fst w + 1 + length (n1 @ n2)]"
  proof -
    have "map lg_seq (n1 @ n2) = [fst w + 1..<fst w1 + 1] @ [fst w1 + 1..<fst w1 + 1 + length n2]"
      using n1(2) n2(2) by (simp only: map_append)
    also have "\<dots> = [fst w + 1..<fst w1 + 1 + length n2]" using le by (intro upt_add_eq_append [symmetric]) simp
    also have "fst w1 + 1 + length n2 = fst w + 1 + length (n1 @ n2)" using le l1 by simp
    finally show ?thesis .
  qed
  with n1 n2 le l1 show ?case
    by (intro exI [of _ "n1 @ n2"]) (auto simp: w1_def)
qed simp

text \<open>The log of a job has no gap and no repetition: the lines the worker's body adds are
  numbered 1, 2, 3 and so on in the order they were written, all for this run, after the lines that
  were there, so a reader that asks for what follows the last number it saw misses nothing.\<close>

theorem pipeline_log_is_contiguous:
  "\<exists>new. t_logs (snd (execute_pipeline pl s now j (st, d))) = t_logs d @ new \<and>
     map lg_seq new = [1..<length new + 1] \<and> (\<forall>l \<in> set new. lg_run l = jb_run j)"
proof (cases rule: execute_pipeline_ends [of pl s now j st d])
  case (success a w d1)
  then obtain es where "d1 = snd (fold (run_event s now j) es (0, pick_up j d))" by blast
  with fold_event_logs [of s now j es "(0, pick_up j d)"] show ?thesis
    unfolding success(1) on_success_tables by auto
next
  case (failure err d1)
  then obtain es where "d1 = snd (fold (run_event s now j) es (0, pick_up j d))" by blast
  with fold_event_logs [of s now j es "(0, pick_up j d)"] show ?thesis
    unfolding failure(1) on_failure_tables by auto
qed

text \<open>The reaper fails exactly the streaming runs older than the limit, whatever parser it
  uses: it changes no other run, returns the ids it failed, and a second pass at the same time finds
  nothing to do.\<close>

theorem reaper_exact:
  assumes "distinct (map ir_id (t_ingestions d))"
  shows "t_ingestions (fst (reconcile_orphaned_runs parse now age d))
      = map (\<lambda>r. if run_expired parse now age r then fail_run now r else r) (t_ingestions d) \<and>
    snd (reconcile_orphaned_runs parse now age d) = map ir_id (filter (run_expired parse now age) (t_ingestions d)) \<and>
    reconcile_orphaned_runs parse now age (fst (reconcile_orphaned_runs parse now age d))
      = (fst (reconcile_orphaned_runs parse now age d), [])"
proof -
  let ?dead = "filter (run_expired parse now age) (t_ingestions d)"
  have iff: "ir_id r \<in> ir_id ` set ?dead \<longleftrightarrow> run_expired parse now age r" if "r \<in> set (t_ingestions d)" for r
    using that assms by (auto simp: distinct_map inj_on_def)
  have t: "t_ingestions (fst (reconcile_orphaned_runs parse now age d))
      = map (\<lambda>r. if run_expired parse now age r then fail_run now r else r) (t_ingestions d)"
    using iff by (simp add: reconcile_orphaned_runs_def Let_def fold_reap_ingestions)
  have "\<not> run_expired parse now age (fail_run now r)" for r by (simp add: run_expired_def)
  then have "filter (run_expired parse now age) (t_ingestions (fst (reconcile_orphaned_runs parse now age d))) = []"
    unfolding t by (auto simp: filter_empty_conv)
  with t show ?thesis by (simp add: reconcile_orphaned_runs_def Let_def)
qed

text \<open>Under Python 3.10, which the project admits, the reaper never fails a run: every
  \<open>started_at\<close> is an \<open>iso\<close> text and ends in Z, which that version's parser refuses, so the row is
  skipped as unparseable however old it is.\<close>

theorem reaper_is_inert_on_310:
  assumes "\<forall>r \<in> set (t_ingestions d). \<exists>t. ir_started r = iso t"
  shows "reconcile_orphaned_runs fromisoformat now age d = (d, [])"
proof -
  have "\<not> run_expired fromisoformat now age r" if "r \<in> set (t_ingestions d)" for r
    using that assms fromisoformat_ends_z iso_ends_z by (fastforce simp: run_expired_def)
  then have "filter (run_expired fromisoformat now age) (t_ingestions d) = []" by (auto simp: filter_empty_conv)
  then show ?thesis by (simp add: reconcile_orphaned_runs_def Let_def)
qed

definition demo_run :: ingestion_run_row where
  "demo_run = \<lparr>ir_id = ''r'', ir_user = ''u'', ir_model = ''m'', ir_file = ''f'', ir_started = iso 0,
     ir_status = ''streaming'', ir_progress = 0, ir_error = None, ir_finished = None\<rparr>"

lemma demo_expired: "run_expired fromisoformat_311 (10 * DAY) 1200 demo_run"
  by code_simp

theorem reaper_exact_witness:
  "t_ingestions (fst (reconcile_orphaned_runs fromisoformat_311 (10 * DAY) 1200 (empty_db\<lparr>t_ingestions := [demo_run]\<rparr>)))
     = [fail_run (10 * DAY) demo_run]"
  using reaper_exact [of "empty_db\<lparr>t_ingestions := [demo_run]\<rparr>" fromisoformat_311 "10 * DAY" 1200] demo_expired
  by simp

theorem reaper_is_inert_on_310_witness:
  "reconcile_orphaned_runs fromisoformat (10 * DAY) 1200 (empty_db\<lparr>t_ingestions := [demo_run]\<rparr>)
     = (empty_db\<lparr>t_ingestions := [demo_run]\<rparr>, [])"
  by (rule reaper_is_inert_on_310) (auto simp: demo_run_def)

definition demo_job :: job where
  "demo_job = \<lparr>jb_run = ''r'', jb_model = ''m'', jb_user = ''u'', jb_model_name = ''net'', jb_file = ''f.onnx'',
     jb_source = None, jb_format = ''ONNX''\<rparr>"

definition failing_pipeline :: "unit pipeline" where
  "failing_pipeline = \<lparr>pl_synthesize = (\<lambda>_. raise (RuntimeError ''no factory'')), pl_load = (\<lambda>_ _. ok None),
     pl_convert = (\<lambda>_ p. Converted p), pl_weight_only = (\<lambda>_ _. ([], raise PipelineCancelled)),
     pl_engine = (\<lambda>_ _. ([], raise PipelineCancelled)), pl_sha = (\<lambda>c. c), pl_message = (\<lambda>_. ''no factory'')\<rparr>"

definition queued_db :: db where
  "queued_db = empty_db\<lparr>t_models := [demo_model\<lparr>md_status := ''analyzing'', md_run := Some ''r''\<rparr>], t_ingestions := [demo_run]\<rparr>"

lemma demo_job_fails:
  "map ir_id (t_ingestions (snd (execute_pipeline failing_pipeline s now demo_job ([], queued_db)))) = [''r'']"
  by (simp add: execute_pipeline_def run_job_def locate_source_def failing_pipeline_def demo_job_def on_failure_tables
      queued_db_def pick_up_def emit_def demo_run_def empty_db_def upd_run_def upd_where_def)

text \<open>The worker dies right after it has taken the job: the reaper fails the run and frees the model.\<close>

theorem pipeline_reaches_terminal_state_witness:
  "\<exists>d'. (fst (([], queued_db) :: store \<times> db), d') \<in> set (pipeline_commits failing_pipeline \<lparr>st_fast = True, st_pareto_trials = 40, st_job_timeout = 600\<rparr>
       ''t'' demo_job ([], queued_db)) \<and>
     map ir_status (t_ingestions d') = [''streaming''] \<and>
     map ir_status (t_ingestions (fst (reconcile_orphaned_runs fromisoformat_311 (10 * DAY) 900 d'))) = [''failed'']"
proof -
  let ?s = "\<lparr>st_fast = True, st_pareto_trials = 40, st_job_timeout = 600\<rparr>"
  have c: "([], queued_db) \<in> set (pipeline_commits failing_pipeline ?s ''t'' demo_job ([], queued_db))"
    by (rule first_commit)
  let ?d'' = "fst (reconcile_orphaned_runs fromisoformat_311 (10 * DAY) 900 queued_db)"
  have stamped: "\<forall>r \<in> set (t_ingestions queued_db). ir_id r = jb_run demo_job \<longrightarrow> ir_status r = ''streaming'' \<and> ir_model r = jb_model demo_job \<and>
      (\<exists>t. ir_started r = iso t \<and> in_range t \<and> t + 900 * SECOND \<le> 10 * DAY)"
    by (auto simp: queued_db_def demo_run_def demo_job_def in_range_def DAY_def SECOND_def intro!: exI [of _ "0 :: int"])
  have there: "\<exists>r \<in> set (t_ingestions queued_db). ir_id r = jb_run demo_job" by (simp add: queued_db_def demo_run_def demo_job_def)
  have waits: "\<forall>m \<in> set (t_models queued_db). md_id m = jb_model demo_job \<longrightarrow> md_status m \<in> {''analyzing'', ''optimizing''} \<longrightarrow>
      md_run m = Some (jb_run demo_job)" by (simp add: queued_db_def demo_job_def)
  from pipeline_reaches_terminal_state [OF c refl there stamped waits refl]
  have "\<forall>r \<in> set (t_ingestions ?d''). ir_id r = jb_run demo_job \<longrightarrow> ir_status r \<in> {''completed'', ''failed''}" by blast
  moreover have "run_expired fromisoformat_311 (10 * DAY) 900 demo_run"
    by (rule expired_by_stamp [of _ 0]) (simp_all add: demo_run_def in_range_def DAY_def SECOND_def)
  then have "t_ingestions ?d'' = [fail_run (10 * DAY) demo_run]"
    by (simp add: reconcile_orphaned_runs_def Let_def queued_db_def reap_run_def upd_ingestion_def upd_model_def upd_where_def)
  ultimately have "map ir_status (t_ingestions ?d'') = [''failed'']" by simp
  with c show ?thesis by (intro exI [of _ queued_db]) (simp add: queued_db_def demo_run_def)
qed

end
