(* ===== verification/Registry.thy ===== *)
theory Registry
  imports Jobs "HOL-Library.Product_Lexorder"
begin

text \<open>
  The model registry: the handlers of \<open>app/routers/models.py\<close> and the queries of
  \<open>app/repositories.py\<close>: listing, renaming, deletion, the completion of an upload, the artifact
  download and the reconcilers.  The lifecycle that composes them is in \<open>Lifecycle\<close>.
\<close>

section \<open>Queries\<close>

definition SERVING_STATUSES :: "string list" where "SERVING_STATUSES = [''live'', ''canary'']"

definition model_is_serving :: "db \<Rightarrow> string \<Rightarrow> bool" where
  "model_is_serving d k \<longleftrightarrow> list_ex (\<lambda>x. dp_model x = k \<and> dp_status x \<in> set SERVING_STATUSES) (t_deployments d)"

record model_item =
  mi_row :: model_row
  mi_serving :: bool

definition SORT_KEYS :: "string list" where
  "SORT_KEYS = [''name'', ''typeFull'', ''typeShort'', ''format'', ''lastLearnedAt'', ''lastOptimizedAt'', ''status'',
     ''bestAccuracy'', ''isDeployed'', ''id'']"

text \<open>\<open>str(getattr(m, key))\<close>, \<open>None\<close> for a null; the text of a float is a parameter.\<close>

definition sort_value :: "(real \<Rightarrow> string) \<Rightarrow> string \<Rightarrow> model_item \<Rightarrow> string option" where
  "sort_value show key item =
     (let m = mi_row item in
      if key = ''name'' then Some (md_name m) else if key = ''typeFull'' then Some (md_type_full m)
      else if key = ''typeShort'' then Some (md_type_short m) else if key = ''format'' then Some (md_format m)
      else if key = ''lastLearnedAt'' then Some (md_last_learned m)
      else if key = ''lastOptimizedAt'' then md_last_optimized m else if key = ''status'' then Some (md_status m)
      else if key = ''bestAccuracy'' then map_option show (md_best_accuracy m)
      else if key = ''isDeployed'' then Some (if md_is_deployed m then ''True'' else ''False'')
      else Some (md_id m))"

definition null_key :: "(real \<Rightarrow> string) \<Rightarrow> string \<Rightarrow> bool \<Rightarrow> model_item \<Rightarrow> bool \<times> string" where
  "null_key show key reverse item =
     (case sort_value show key item of None \<Rightarrow> (\<not> reverse, '''') | Some v \<Rightarrow> (reverse, v))"

definition split_sort :: "string option \<Rightarrow> string \<times> string" where
  "split_sort order_by =
     (let s = or_empty order_by ''lastLearnedAt:desc''; key = takeWhile (\<lambda>c. c \<noteq> CHR '':'') s;
          dir = drop 1 (dropWhile (\<lambda>c. c \<noteq> CHR '':'') s)
      in if key \<in> set SORT_KEYS then (key, dir) else (''lastLearnedAt'', ''desc''))"

definition list_models ::
  "(real \<Rightarrow> string) \<Rightarrow> db \<Rightarrow> string option \<Rightarrow> bool \<Rightarrow> string option \<Rightarrow> string \<Rightarrow> model_item list" where
  "list_models show d q only_deployed order_by user =
     (let rows = filter (\<lambda>m. md_user m = user) (t_models d);
          serving = map dp_model (filter (\<lambda>x. dp_user x = user \<and> dp_status x \<in> set SERVING_STATUSES) (t_deployments d));
          items = map (\<lambda>m. \<lparr>mi_row = m, mi_serving = (md_id m \<in> set serving)\<rparr>) rows;
          needle = str_lower (or_empty q '''');
          named = (if needle \<noteq> '''' then filter (\<lambda>i. str_in needle (str_lower (md_name (mi_row i)))) items else items);
          shown = (if only_deployed then filter (\<lambda>i. md_is_deployed (mi_row i)) named else named);
          (key, dir) = split_sort order_by; reverse = (dir \<noteq> ''asc'')
      in if reverse then sort_desc (null_key show key reverse) shown else sort_key (null_key show key reverse) shown)"

definition get_cached_result :: "db \<Rightarrow> string \<Rightarrow> string \<Rightarrow> string \<Rightarrow> payload option" where
  "get_cached_result d model_id kind user =
     map_option rc_payload (find (\<lambda>r. rc_model r = model_id \<and> rc_kind r = kind \<and> rc_user r = user) (t_cache d))"

definition reconcile_deploy_status :: "db \<Rightarrow> db \<times> string list" where
  "reconcile_deploy_status d =
     (let stuck = (\<lambda>m. md_is_deployed m \<and> md_status m = ''draft'')
      in (d\<lparr>t_models := upd_where stuck (\<lambda>m. m\<lparr>md_status := ''deployed''\<rparr>) (t_models d)\<rparr>,
          map md_name (filter stuck (t_models d))))"

definition user_artifact_metas :: "db \<Rightarrow> string \<Rightarrow> (model_row \<times> payload) list" where
  "user_artifact_metas d user =
     List.map_filter (\<lambda>r. case get_model_row d (rc_model r) of
         None \<Rightarrow> None
       | Some m \<Rightarrow> if md_user m \<noteq> user then None
                   else map_option (Pair m) (get_cached_result d (rc_model r) ''artifact_meta'' user))
       (filter (\<lambda>r. rc_kind r = ''artifact_meta'' \<and> rc_user r = user) (t_cache d))"

section \<open>Handlers\<close>

text \<open>The completion handshake: a single guarded update first, then the fallbacks.\<close>

definition complete_model :: "payload option \<Rightarrow> model_row \<Rightarrow> model_row" where
  "complete_model cached m =
     m\<lparr>md_status := ''draft'',
       md_best_accuracy := (case cached of Some (PPareto (a # as) _ _) \<Rightarrow> Some (py_round 1 (list_max (map tc_accuracy (a # as))))
                            | _ \<Rightarrow> md_best_accuracy m),
       md_description := Some (strip_while (\<lambda>c. c \<in> set MIDDOT)
          (or_empty (md_description m) '''' @ MIDDOT @ ''sensitivity analysis complete'')),
       md_run := None, md_last_optimized := None\<rparr>"

definition ingestion_complete :: "string \<Rightarrow> string \<Rightarrow> db \<Rightarrow> db result" where
  "ingestion_complete user model_id d =
     bind_result (owned_model d model_id user) (\<lambda>m.
       if md_status m \<noteq> ''analyzing'' then ok d
       else let run = (case or_empty (md_run m) '''' of [] \<Rightarrow> None | r \<Rightarrow> get_run d r) in
         case map_option ir_status run of
           Some st \<Rightarrow>
             if st = ''streaming'' then ok (upd_model model_id (\<lambda>m. m\<lparr>md_status := ''optimizing''\<rparr>) d)
             else if st = ''failed'' then ok (upd_model model_id (\<lambda>m. m\<lparr>md_status := ''failed'', md_run := None\<rparr>) d)
             else ok (upd_model model_id (complete_model (get_cached_result d model_id ''pareto'' user)) d)
         | None \<Rightarrow> ok (upd_model model_id (complete_model (get_cached_result d model_id ''pareto'' user)) d))"

definition model_rename :: "string \<Rightarrow> string \<Rightarrow> string \<Rightarrow> db \<Rightarrow> db result" where
  "model_rename user model_id new_name d =
     bind_result (owned_model d model_id user) (\<lambda>m.
       let name = str_strip new_name in
       if length name < 1 \<or> 80 < length name then raise (HTTPException 400 ''name must be 1-80 characters'')
       else let d1 = upd_model model_id (\<lambda>m. m\<lparr>md_name := name\<rparr>) d
            in ok (d1\<lparr>t_runs := upd_where (\<lambda>r. rn_model r = model_id) (\<lambda>r. r\<lparr>rn_name := name\<rparr>) (t_runs d1)\<rparr>))"

text \<open>Deleting a model drops its rows in six tables and its objects.  Its API keys and its
  telemetry rows stay.\<close>

definition model_delete :: "string \<Rightarrow> string \<Rightarrow> cancel_state \<times> store \<times> db \<Rightarrow> (cancel_state \<times> store \<times> db) result" where
  "model_delete user model_id w =
     (case w of (c, st, d) \<Rightarrow>
        bind_result (owned_model d model_id user) (\<lambda>m.
          let c1 = (case or_empty (md_run m) '''' of [] \<Rightarrow> c | r \<Rightarrow> request_cancel r c);
              run_ids = map ir_id (filter (\<lambda>r. ir_model r = model_id) (t_ingestions d));
              d1 = d\<lparr>t_logs := del_where (\<lambda>l. lg_run l \<in> set run_ids) (t_logs d),
                     t_ingestions := del_where (\<lambda>r. ir_model r = model_id) (t_ingestions d),
                     t_runs := del_where (\<lambda>r. rn_model r = model_id) (t_runs d),
                     t_cache := del_where (\<lambda>r. rc_model r = model_id) (t_cache d),
                     t_alerts := del_where (\<lambda>r. al_model r = model_id) (t_alerts d),
                     t_deployments := del_where (\<lambda>x. dp_model x = model_id) (t_deployments d),
                     t_models := del_where (\<lambda>m. md_id m = model_id) (t_models d)\<rparr>;
              st1 = local_delete_prefix (artifact_prefix model_id) st;
              st2 = (case or_empty (md_source_key m) '''' of [] \<Rightarrow> st1 | k \<Rightarrow> store_delete k st1)
          in ok (c1, st2, d1)))"

definition model_artifact :: "string \<Rightarrow> string \<Rightarrow> store \<Rightarrow> db \<Rightarrow> (string \<times> nat) result" where
  "model_artifact user model_id st d =
     bind_result (owned_model d model_id user) (\<lambda>m.
       case or_empty (md_artifact_key m) '''' of
         [] \<Rightarrow> raise (HTTPException 404 ''no compressed artifact for this model'')
       | k \<Rightarrow> (case open_stream st k of
            Inl _ \<Rightarrow> raise (HTTPException 404 ''no compressed artifact for this model'')
          | Inr r \<Rightarrow> ok r))"

text \<open>The device side: the artifact's identity from the row, filled in once when it is missing.\<close>

definition artifact_meta :: "(string \<Rightarrow> string) \<Rightarrow> model_row \<Rightarrow> store \<Rightarrow> db \<Rightarrow> (db \<times> string \<times> nat \<times> string) result" where
  "artifact_meta sha m st d =
     (case or_empty (md_artifact_key m) '''' of
        [] \<Rightarrow> raise (HTTPException 404 ''no_artifact'')
      | key \<Rightarrow>
          (case (or_empty (md_artifact_sha m) '''', md_artifact_size m) of
             (h # hs, Some n) \<Rightarrow> ok (d, h # hs, n, key)
           | _ \<Rightarrow>
               (case read_bytes st key of
                  Inl _ \<Rightarrow> raise (HTTPException 404 ''no_artifact'')
                | Inr c \<Rightarrow> ok (upd_model (md_id m) (\<lambda>m. m\<lparr>md_artifact_sha := Some (sha c),
                               md_artifact_size := Some (length c)\<rparr>) d, sha c, length c, key))))"

datatype artifact_response = NotModified string | Content string nat string

definition artifact_download ::
  "digest \<Rightarrow> (string \<Rightarrow> string) \<Rightarrow> string \<Rightarrow> string option \<Rightarrow> string option \<Rightarrow> store \<Rightarrow> db
     \<Rightarrow> (db \<times> artifact_response) result" where
  "artifact_download hash sha dep_id authorization if_none_match st d =
     bind_result (resolve hash dep_id authorization d) (\<lambda>(_, _, m).
     bind_result (artifact_meta sha m st d) (\<lambda>(d1, h, size, key).
       let etag = [CHR 0x22] @ h @ [CHR 0x22] in
       if str_strip (or_empty if_none_match '''') = etag then ok (d1, NotModified etag)
       else (case open_stream st key of
           Inl _ \<Rightarrow> raise (HTTPException 404 ''no_artifact'')
         | Inr (c, n) \<Rightarrow> ok (d1, Content c (if n \<noteq> 0 then n else size) etag))))"

end
