(* ===== verification/Client_Telemetry.thy ===== *)
theory Client_Telemetry
  imports Registry
begin

text \<open>
  Ingestion of the batches a device ships: the request types of \<open>app/schemas/client_telemetry.py\<close>,
  \<open>app/services/client_telemetry.py\<close> and the batch endpoint of
  \<open>app/routers/client_telemetry.py\<close>.  The transaction is built against one database and committed
  against a later one, so that a concurrent commit of the same batch is a step of the model.
  The locale at the end states what a sender may rely on when it sends again.
\<close>

section \<open>Requests\<close>

record client_event =
  ce_ts :: string
  ce_latency :: real
  ce_pre :: "real option"
  ce_post :: "real option"
  ce_success :: bool
  ce_error :: "string option"
  ce_batch_size :: nat
  ce_region :: string
  ce_input_sig :: "string option"

record client_snapshot =
  cs_ts :: string
  cs_cpu :: real
  cs_rss :: real
  cs_throughput :: real
  cs_dropped :: int
  cs_sdk_version :: string
  cs_python :: string
  cs_ort :: string
  cs_os :: string
  cs_arch :: string
  cs_provider :: string
  cs_host :: string
  cs_cpu_model :: string
  cs_cpu_cores :: int
  cs_ram_total :: real
  cs_available_providers :: string
  cs_active_provider :: string
  cs_gpu_name :: string
  cs_gpu_count :: int
  cs_gpu_mem_total :: real
  cs_cuda :: string
  cs_driver :: string
  cs_gpu_util :: "real option"
  cs_gpu_mem_used :: "real option"
  cs_gpu_temp :: "real option"

record client_window =
  cw_start :: string
  cw_end :: string
  cw_n :: nat
  cw_inputs :: "(string \<times> window_stat) list"
  cw_output :: "(string \<times> json) list"

record batch =
  tb_client :: string
  tb_id :: "string option"
  tb_events :: "client_event list"
  tb_snapshots :: "client_snapshot list"
  tb_windows :: "client_window list"

text \<open>What the schema asks of a body before a handler sees it: a batch that fails is answered 422.\<close>

definition event_schema :: "client_event \<Rightarrow> bool" where
  "event_schema e \<longleftrightarrow> 0 \<le> ce_latency e \<and> (case ce_pre e of Some x \<Rightarrow> 0 \<le> x | None \<Rightarrow> True) \<and> (case ce_post e of Some x \<Rightarrow> 0 \<le> x | None \<Rightarrow> True) \<and>
     (case ce_error e of Some x \<Rightarrow> length x \<le> 64 | None \<Rightarrow> True) \<and> 1 \<le> ce_batch_size e \<and> length (ce_region e) \<le> 64 \<and>
     (case ce_input_sig e of Some x \<Rightarrow> length x \<le> 256 | None \<Rightarrow> True)"

definition batch_schema :: "batch \<Rightarrow> bool" where
  "batch_schema b \<longleftrightarrow> tb_client b \<noteq> '''' \<and> length (tb_client b) \<le> 64 \<and> (case tb_id b of Some x \<Rightarrow> length x \<le> 64 | None \<Rightarrow> True) \<and>
     length (tb_events b) \<le> 1000 \<and> length (tb_snapshots b) \<le> 500 \<and> length (tb_windows b) \<le> 500 \<and> list_all event_schema (tb_events b)"

record ack =
  ack_events :: nat
  ack_snapshots :: nat
  ack_windows :: nat
  ack_dropped :: nat

section \<open>Building the transaction\<close>

definition PAST_CLAMP :: int where "PAST_CLAMP = 30 * DAY"
definition FUTURE_CLAMP :: int where "FUTURE_CLAMP = 5 * MINUTE"

definition valid_ts :: "instant \<Rightarrow> string \<Rightarrow> bool" where
  "valid_ts now ts \<longleftrightarrow>
     (case parse_z ts of None \<Rightarrow> False | Some t \<Rightarrow> now - PAST_CLAMP \<le> t \<and> t \<le> now + FUTURE_CLAMP)"

definition batch_items :: "batch \<Rightarrow> nat" where
  "batch_items b = length (tb_events b) + length (tb_snapshots b) + length (tb_windows b)"

definition event_of :: "deployment_row \<Rightarrow> model_row \<Rightarrow> batch \<Rightarrow> client_event \<Rightarrow> event_row" where
  "event_of dep m b e =
     \<lparr>ev_user = md_user m, ev_model = md_id m, ev_deployment = dp_id dep, ev_ts = ce_ts e,
      ev_latency = py_round 3 (ce_latency e), ev_success = ce_success e, ev_error = ce_error e,
      ev_batch_size = ce_batch_size e, ev_region = (if ce_region e = '''' then ''local'' else ce_region e),
      ev_source = ''client'', ev_pre = map_option (py_round 3) (ce_pre e), ev_post = map_option (py_round 3) (ce_post e),
      ev_client = Some (tb_client b), ev_input_sig = ce_input_sig e\<rparr>"

definition runtime_json :: "client_snapshot \<Rightarrow> (string \<times> json) list" where
  "runtime_json s =
     [(''python'', JStr (take 32 (cs_python s))), (''ort'', JStr (take 32 (cs_ort s))), (''os'', JStr (take 32 (cs_os s))),
      (''arch'', JStr (take 32 (cs_arch s))), (''provider'', JStr (take 64 (cs_provider s))),
      (''host'', JStr (take 128 (cs_host s))), (''cpuModel'', JStr (take 96 (cs_cpu_model s))),
      (''cpuCores'', JNum (of_int (cs_cpu_cores s))), (''ramTotalMb'', JNum (py_round 1 (cs_ram_total s))),
      (''availableProviders'', JStr (take 256 (cs_available_providers s))),
      (''activeProvider'', JStr (take 64 (if cs_active_provider s = '''' then cs_provider s else cs_active_provider s))),
      (''gpuName'', JStr (take 96 (cs_gpu_name s))), (''gpuCount'', JNum (of_int (cs_gpu_count s))),
      (''gpuMemTotalMb'', JNum (py_round 1 (cs_gpu_mem_total s))), (''cudaVersion'', JStr (take 32 (cs_cuda s))),
      (''driverVersion'', JStr (take 32 (cs_driver s)))]"

definition snapshot_of :: "deployment_row \<Rightarrow> model_row \<Rightarrow> batch \<Rightarrow> client_snapshot \<Rightarrow> snapshot_row" where
  "snapshot_of dep m b s =
     \<lparr>sn_user = md_user m, sn_model = md_id m, sn_deployment = dp_id dep, sn_client = tb_client b, sn_ts = cs_ts s,
      sn_cpu = py_round 2 (cs_cpu s), sn_rss = py_round 2 (cs_rss s), sn_throughput = py_round 2 (cs_throughput s),
      sn_dropped = cs_dropped s, sn_sdk_version = take 32 (cs_sdk_version s), sn_runtime = runtime_json s,
      sn_gpu_util = map_option (py_round 2) (cs_gpu_util s), sn_gpu_mem = map_option (py_round 1) (cs_gpu_mem_used s),
      sn_gpu_temp = map_option (py_round 1) (cs_gpu_temp s)\<rparr>"

definition window_of :: "deployment_row \<Rightarrow> model_row \<Rightarrow> batch \<Rightarrow> client_window \<Rightarrow> window_row" where
  "window_of dep m b w =
     \<lparr>wn_user = md_user m, wn_model = md_id m, wn_deployment = dp_id dep, wn_client = tb_client b,
      wn_start = cw_start w, wn_end = cw_end w, wn_n = cw_n w, wn_inputs = Some (cw_inputs w), wn_output = Some (cw_output w)\<rparr>"

text \<open>The newest timestamp by text order: \<open>last_event_ts\<close>.\<close>

definition newest_ts :: "string list \<Rightarrow> string option" where
  "newest_ts ts = fold (\<lambda>t l. case l of None \<Rightarrow> Some t | Some x \<Rightarrow> Some (if t > x then t else x)) ts None"

record batch_tx =
  tx_events :: "event_row list"
  tx_snapshots :: "snapshot_row list"
  tx_windows :: "window_row list"
  tx_dropped :: nat
  tx_last :: "string option"               \<comment> \<open>the value to write to \<open>last_event_at\<close>\<close>

definition build_batch :: "instant \<Rightarrow> deployment_row \<Rightarrow> model_row \<Rightarrow> batch \<Rightarrow> batch_tx" where
  "build_batch now dep m b =
     (let es = filter (\<lambda>e. valid_ts now (ce_ts e)) (tb_events b);
          ss = filter (\<lambda>s. valid_ts now (cs_ts s)) (tb_snapshots b);
          ws = filter (\<lambda>w. valid_ts now (cw_start w)) (tb_windows b);
          last = newest_ts (map ce_ts es)
      in \<lparr>tx_events = map (event_of dep m b) es, tx_snapshots = map (snapshot_of dep m b) ss,
          tx_windows = map (window_of dep m b) ws,
          tx_dropped = (length (tb_events b) - length es) + (length (tb_snapshots b) - length ss)
                        + (length (tb_windows b) - length ws),
          tx_last = (case last of None \<Rightarrow> None
             | Some t \<Rightarrow> if t \<noteq> '''' \<and> (case dp_last_event dep of None \<Rightarrow> True | Some u \<Rightarrow> t > u) then Some t else None)\<rparr>)"

definition tx_ack :: "batch_tx \<Rightarrow> ack" where
  "tx_ack tx = \<lparr>ack_events = length (tx_events tx), ack_snapshots = length (tx_snapshots tx),
     ack_windows = length (tx_windows tx), ack_dropped = tx_dropped tx\<rparr>"

section \<open>Committing\<close>

definition prior_batch :: "string \<Rightarrow> db \<Rightarrow> ack option" where
  "prior_batch i d = map_option (\<lambda>r. \<lparr>ack_events = ba_events r, ack_snapshots = ba_snapshots r,
     ack_windows = ba_windows r, ack_dropped = ba_dropped r\<rparr>) (find (\<lambda>r. ba_id r = i) (t_batches d))"

definition write_batch :: "instant \<Rightarrow> string \<Rightarrow> batch \<Rightarrow> batch_tx \<Rightarrow> db \<Rightarrow> db" where
  "write_batch now dep_id b tx d =
     (let d1 = d\<lparr>t_events := t_events d @ tx_events tx, t_snapshots := t_snapshots d @ tx_snapshots tx,
                 t_windows := t_windows d @ tx_windows tx\<rparr>;
          d2 = (case tx_last tx of None \<Rightarrow> d1 | Some t \<Rightarrow> upd_deployment dep_id (\<lambda>x. x\<lparr>dp_last_event := Some t\<rparr>) d1)
      in case or_empty (tb_id b) '''' of
           [] \<Rightarrow> d2
         | i \<Rightarrow> d2\<lparr>t_batches := t_batches d2 @ [\<lparr>ba_id = i, ba_deployment = dep_id, ba_received = iso now,
                   ba_events = length (tx_events tx), ba_snapshots = length (tx_snapshots tx),
                   ba_windows = length (tx_windows tx), ba_dropped = tx_dropped tx\<rparr>]\<rparr>)"

text \<open>The commit: a batch id that is in the ledger by then violates its primary key, the
  transaction is rolled back and the ledger's counts are returned.\<close>

definition commit_batch :: "instant \<Rightarrow> string \<Rightarrow> batch \<Rightarrow> batch_tx \<Rightarrow> db \<Rightarrow> db \<times> ack" where
  "commit_batch now dep_id b tx d =
     (case or_empty (tb_id b) '''' of
        [] \<Rightarrow> (write_batch now dep_id b tx d, tx_ack tx)
      | i \<Rightarrow> (case prior_batch i d of
           Some a \<Rightarrow> (d, a)
         | None \<Rightarrow> (write_batch now dep_id b tx d, tx_ack tx)))"

definition ingest_batch ::
  "nat \<Rightarrow> instant \<Rightarrow> deployment_row \<Rightarrow> model_row \<Rightarrow> batch \<Rightarrow> db \<Rightarrow> (db \<times> ack) result" where
  "ingest_batch batch_max now dep m b d =
     (if batch_items b > batch_max then raise (ValueError ''batch exceeds the item limit'')
      else case or_empty (tb_id b) '''' of
          [] \<Rightarrow> ok (commit_batch now (dp_id dep) b (build_batch now dep m b) d)
        | i \<Rightarrow> (case prior_batch i d of
             Some a \<Rightarrow> ok (d, a)
           | None \<Rightarrow> ok (commit_batch now (dp_id dep) b (build_batch now dep m b) d)))"

definition telemetry_batch ::
  "digest \<Rightarrow> nat \<Rightarrow> instant \<Rightarrow> string \<Rightarrow> string option \<Rightarrow> batch \<Rightarrow> db \<Rightarrow> db \<times> ack result" where
  "telemetry_batch hash batch_max now dep_id authorization b d =
     (case resolve hash dep_id authorization d of
        Inl e \<Rightarrow> (d, raise e)
      | Inr (key, dep, m) \<Rightarrow>
          (let d1 = touch_key now key d in
           case ingest_batch batch_max now dep m b d1 of
             Inr (d2, a) \<Rightarrow> (d2, ok a)
           | Inl (ValueError msg) \<Rightarrow> (d1, raise (HTTPException 422 ''batch_too_large''))
           | Inl e \<Rightarrow> (d1, raise e)))"

definition source_counts :: "string \<Rightarrow> db \<Rightarrow> (string \<times> nat) list" where
  "source_counts model_id d =
     (let evs = filter (\<lambda>e. ev_model e = model_id) (t_events d); srcs = remdups (map ev_source evs)
      in fold (\<lambda>s counts. AList.update (if s = '''' then ''server'' else s)
                 (length (filter (\<lambda>e. ev_source e = s) evs)) counts)
              srcs [(''server'', 0), (''client'', 0)])"

section \<open>What a sender may rely on\<close>

text \<open>A sink with a ledger of the keys it has accepted.  \<open>keyed\<close> says that an item has a key.\<close>

locale ledger_sink =
  fixes submit :: "'x \<Rightarrow> 's \<Rightarrow> 's \<times> 'a option"
    and keyed :: "'x \<Rightarrow> bool"
    and key :: "'x \<Rightarrow> 'k"
    and ledger :: "'k \<Rightarrow> 's \<Rightarrow> 'a option"
  assumes known: "keyed x \<Longrightarrow> ledger (key x) s \<noteq> None \<Longrightarrow> fst (submit x s) = s"
    and accepted: "keyed x \<Longrightarrow> snd (submit x s) = Some a \<Longrightarrow> ledger (key x) (fst (submit x s)) = Some a"
    and rejected: "keyed x \<Longrightarrow> snd (submit x s) = None \<Longrightarrow> fst (submit x s) = s"
    and kept: "keyed x \<Longrightarrow> ledger k s = Some a \<Longrightarrow> ledger k (fst (submit x s)) = Some a"
begin

lemma kept_fold:
  "\<forall>x \<in> set xs. keyed x \<Longrightarrow> ledger k s \<noteq> None \<Longrightarrow> ledger k (fold (\<lambda>x s. fst (submit x s)) xs s) \<noteq> None"
proof (induction xs arbitrary: s)
  case (Cons x xs)
  then obtain a where "ledger k s = Some a" by auto
  with Cons.prems kept [of x k s a] have "ledger k (fst (submit x s)) \<noteq> None" by simp
  with Cons show ?case by simp
qed simp

text \<open>However often items are sent again, the outcome is that of sending some of them, in the
  same order, each key once.\<close>

lemma exactly_once:
  assumes "\<forall>x \<in> set xs. keyed x"
  shows "\<exists>ys. subseq ys xs \<and> distinct (map key ys) \<and>
    fold (\<lambda>x s. fst (submit x s)) ys s = fold (\<lambda>x s. fst (submit x s)) xs s \<and>
    (\<forall>y \<in> set ys. ledger (key y) s = None \<and> (\<exists>s'. snd (submit y s') \<noteq> None))"
  using assms
proof (induction xs arbitrary: s)
  case (Cons x xs)
  define s1 where "s1 = fst (submit x s)"
  have kx: "keyed x" and kxs: "\<forall>x \<in> set xs. keyed x" using Cons.prems by auto
  obtain ys where ys: "subseq ys xs" "distinct (map key ys)"
    "fold (\<lambda>x s. fst (submit x s)) ys s1 = fold (\<lambda>x s. fst (submit x s)) xs s1"
    "\<forall>y \<in> set ys. ledger (key y) s1 = None \<and> (\<exists>s'. snd (submit y s') \<noteq> None)"
    using Cons.IH [OF kxs, of s1] by blast
  show ?case
  proof (cases "s1 = s")
    case True
    with ys show ?thesis by (intro exI [of _ ys]) (auto simp: s1_def)
  next
    case False
    then have new: "ledger (key x) s = None" using known [OF kx, of s] unfolding s1_def by blast
    obtain a where a: "snd (submit x s) = Some a"
      using False rejected [OF kx, of s] unfolding s1_def by (cases "snd (submit x s)") auto
    then have old: "ledger (key x) s1 = Some a" using accepted [OF kx] by (simp add: s1_def)
    have "ledger (key y) s = None" if "y \<in> set ys" for y
      using that ys(4) kept [OF kx, of "key y" s] by (cases "ledger (key y) s") (auto simp: s1_def)
    moreover have "key x \<noteq> key y" if "y \<in> set ys" for y using that ys(4) old by auto
    moreover have "\<exists>s'. snd (submit x s') \<noteq> None" using a by (intro exI [of _ s]) simp
    ultimately show ?thesis using ys new
      by (intro exI [of _ "x # ys"]) (auto simp: s1_def)
  qed
qed auto

end

text \<open>The endpoint past authentication, as such a sink: an item is a batch and the time of its
  receipt, its key the batch id.\<close>

definition submit_batch :: "nat \<Rightarrow> string \<Rightarrow> instant \<times> batch \<Rightarrow> db \<Rightarrow> db \<times> ack option" where
  "submit_batch batch_max dep_id x d =
     (case get_deployment d dep_id of
        None \<Rightarrow> (d, None)
      | Some dep \<Rightarrow> (case get_model_row d (dp_model dep) of
          None \<Rightarrow> (d, None)
        | Some m \<Rightarrow> (case ingest_batch batch_max (fst x) dep m (snd x) d of
            Inl _ \<Rightarrow> (d, None)
          | Inr (d1, a) \<Rightarrow> (d1, Some a))))"

definition has_batch_id :: "instant \<times> batch \<Rightarrow> bool" where
  "has_batch_id x \<longleftrightarrow> or_empty (tb_id (snd x)) '''' \<noteq> ''''"

definition batch_id :: "instant \<times> batch \<Rightarrow> string" where
  "batch_id x = or_empty (tb_id (snd x)) ''''"

lemma ingest_keyed:
  "or_empty (tb_id b) '''' \<noteq> '''' \<Longrightarrow> ingest_batch batch_max now dep m b d =
     (if batch_items b > batch_max then raise (ValueError ''batch exceeds the item limit'')
      else case prior_batch (or_empty (tb_id b) '''') d of
          Some a \<Rightarrow> ok (d, a)
        | None \<Rightarrow> ok (write_batch now (dp_id dep) b (build_batch now dep m b) d, tx_ack (build_batch now dep m b)))"
  by (auto simp: ingest_batch_def commit_batch_def split: list.split option.split)

lemma write_batch_tables:
  "t_batches (write_batch now dep_id b tx d) = t_batches d @ (case or_empty (tb_id b) '''' of [] \<Rightarrow> [] | i \<Rightarrow>
     [\<lparr>ba_id = i, ba_deployment = dep_id, ba_received = iso now, ba_events = length (tx_events tx),
       ba_snapshots = length (tx_snapshots tx), ba_windows = length (tx_windows tx), ba_dropped = tx_dropped tx\<rparr>])"
  "t_events (write_batch now dep_id b tx d) = t_events d @ tx_events tx"
  "t_snapshots (write_batch now dep_id b tx d) = t_snapshots d @ tx_snapshots tx"
  "t_windows (write_batch now dep_id b tx d) = t_windows d @ tx_windows tx"
  "t_models (write_batch now dep_id b tx d) = t_models d" "t_keys (write_batch now dep_id b tx d) = t_keys d"
  "t_deployments (write_batch now dep_id b tx d) = (case tx_last tx of None \<Rightarrow> t_deployments d
     | Some t \<Rightarrow> upd_where (\<lambda>x. dp_id x = dep_id) (\<lambda>x. x\<lparr>dp_last_event := Some t\<rparr>) (t_deployments d))"
  by (auto simp: write_batch_def Let_def upd_deployment_def split: option.splits list.splits)

lemma prior_write:
  "or_empty (tb_id b) '''' \<noteq> '''' \<Longrightarrow> prior_batch k (write_batch now dep_id b tx d) =
     (case prior_batch k d of Some a \<Rightarrow> Some a
      | None \<Rightarrow> if k = or_empty (tb_id b) '''' then Some (tx_ack tx) else None)"
  by (auto simp: prior_batch_def write_batch_tables find_append tx_ack_def split: option.splits list.splits)

lemma submit_keyed:
  "has_batch_id x \<Longrightarrow> submit_batch batch_max dep_id x d = (d, None) \<or>
     (\<exists>a. prior_batch (batch_id x) d = Some a \<and> submit_batch batch_max dep_id x d = (d, Some a)) \<or>
     (\<exists>tx dep m. prior_batch (batch_id x) d = None \<and> get_deployment d dep_id = Some dep \<and> tx = build_batch (fst x) dep m (snd x) \<and>
        submit_batch batch_max dep_id x d = (write_batch (fst x) (dp_id dep) (snd x) tx d, Some (tx_ack tx)))"
  by (auto simp: submit_batch_def has_batch_id_def batch_id_def ingest_keyed split: option.splits sum.splits if_splits)

interpretation ledger: ledger_sink "submit_batch batch_max dep_id" has_batch_id batch_id prior_batch
  for batch_max dep_id
proof
  fix x d
  assume k: "has_batch_id x"
  note c = submit_keyed [OF k, of batch_max dep_id d]
  show "prior_batch (batch_id x) d \<noteq> None \<Longrightarrow> fst (submit_batch batch_max dep_id x d) = d"
    using c by auto
  show "snd (submit_batch batch_max dep_id x d) = None \<Longrightarrow> fst (submit_batch batch_max dep_id x d) = d"
    using c by auto
  show "snd (submit_batch batch_max dep_id x d) = Some a \<Longrightarrow>
      prior_batch (batch_id x) (fst (submit_batch batch_max dep_id x d)) = Some a" for a
    using c k by (auto simp: prior_write has_batch_id_def batch_id_def)
  show "prior_batch i d = Some a \<Longrightarrow> prior_batch i (fst (submit_batch batch_max dep_id x d)) = Some a" for i a
    using c k by (auto simp: prior_write has_batch_id_def)
qed

section \<open>Properties\<close>

text \<open>The event rows a batch received at a time contributes.\<close>

definition batch_events :: "deployment_row \<Rightarrow> model_row \<Rightarrow> instant \<times> batch \<Rightarrow> event_row list" where
  "batch_events dep m x = map (event_of dep m (snd x)) (filter (\<lambda>e. valid_ts (fst x) (ce_ts e)) (tb_events (snd x)))"

lemma batch_events_cong: "dp_id dep' = dp_id dep \<Longrightarrow> batch_events dep' m x = batch_events dep m x"
  by (simp add: batch_events_def event_of_def)

lemma build_events: "tx_events (build_batch now dep m b) = batch_events dep m (now, b)"
  by (simp add: build_batch_def batch_events_def Let_def)

lemma submit_target:
  assumes "has_batch_id x" "get_deployment d k = Some dep" "get_model_row d (dp_model dep) = Some m"
  shows "\<exists>dep'. get_deployment (fst (submit_batch batch_max k x d)) k = Some dep' \<and> dp_model dep' = dp_model dep \<and>
    get_model_row (fst (submit_batch batch_max k x d)) (dp_model dep) = Some m"
proof -
  have "get_deployment (write_batch now k b tx d) k = Some (case tx_last tx of None \<Rightarrow> dep | Some t \<Rightarrow> dep\<lparr>dp_last_event := Some t\<rparr>)"
    for now b tx using assms(2) get_deployment_Some [OF assms(2)]
    by (auto simp: get_deployment_def write_batch_tables find_upd_where split: option.split)
  moreover have "get_model_row (write_batch now k b tx d) = get_model_row d" for now b tx
    by (simp add: get_model_row_def write_batch_tables fun_eq_iff)
  ultimately show ?thesis
    using submit_keyed [OF assms(1), of batch_max k d] assms get_deployment_Some [OF assms(2)]
    by (auto split: option.splits)
qed

lemma submit_fresh:
  assumes "has_batch_id x" "get_deployment d k = Some dep" "get_model_row d (dp_model dep) = Some m"
    "prior_batch (batch_id x) d = None" "batch_items (snd x) \<le> batch_max"
  shows "t_events (fst (submit_batch batch_max k x d)) = t_events d @ batch_events dep m x"
    "prior_batch i (fst (submit_batch batch_max k x d)) \<noteq> None \<longleftrightarrow> prior_batch i d \<noteq> None \<or> i = batch_id x"
  using assms get_deployment_Some [OF assms(2)]
  by (auto simp: submit_batch_def ingest_keyed has_batch_id_def batch_id_def write_batch_tables build_events prior_write
      split: option.splits)

lemma submit_too_big:
  "has_batch_id x \<Longrightarrow> snd (submit_batch batch_max k x d) \<noteq> None \<Longrightarrow> batch_items (snd x) \<le> batch_max"
  by (auto simp: submit_batch_def ingest_keyed has_batch_id_def split: option.splits sum.splits if_splits)

lemma deliver_fresh:
  assumes "\<forall>y \<in> set ys. has_batch_id y \<and> prior_batch (batch_id y) d = None \<and> batch_items (snd y) \<le> batch_max"
    "distinct (map batch_id ys)" "get_deployment d k = Some dep" "get_model_row d (dp_model dep) = Some m"
  shows "t_events (fold (\<lambda>x d. fst (submit_batch batch_max k x d)) ys d) = t_events d @ concat (map (batch_events dep m) ys) \<and>
    (\<forall>i. prior_batch i (fold (\<lambda>x d. fst (submit_batch batch_max k x d)) ys d) \<noteq> None \<longleftrightarrow>
       prior_batch i d \<noteq> None \<or> i \<in> batch_id ` set ys)"
  using assms
proof (induction ys arbitrary: d dep)
  case (Cons y ys)
  let ?d1 = "fst (submit_batch batch_max k y d)"
  have y: "has_batch_id y" "prior_batch (batch_id y) d = None" "batch_items (snd y) \<le> batch_max" using Cons.prems by auto
  note f = submit_fresh [OF y(1) Cons.prems(3,4) y(2,3)]
  obtain dep' where dep': "get_deployment ?d1 k = Some dep'" "dp_model dep' = dp_model dep"
    "get_model_row ?d1 (dp_model dep) = Some m"
    using submit_target [OF y(1) Cons.prems(3,4)] by blast
  have ids: "dp_id dep' = dp_id dep" using dep'(1) Cons.prems(3) by (auto dest: get_deployment_Some)
  have "prior_batch (batch_id z) ?d1 = None" if "z \<in> set ys" for z
  proof -
    have "batch_id z \<noteq> batch_id y" using that Cons.prems(2) by (auto simp: image_iff dest: sym)
    then show ?thesis using f(2) [of "batch_id z"] that Cons.prems(1) by auto
  qed
  with Cons.prems have *: "\<forall>z \<in> set ys. has_batch_id z \<and> prior_batch (batch_id z) ?d1 = None \<and> batch_items (snd z) \<le> batch_max"
    by simp
  have "batch_events dep' m = batch_events dep m" using batch_events_cong [OF ids] by blast
  with Cons.IH [OF * _ dep'(1)] Cons.prems(2) dep' f show ?case by auto
qed simp

lemma delivered_is_known:
  assumes "\<forall>x \<in> set xs. has_batch_id x" "get_deployment d dep_id = Some dep" "get_model_row d (dp_model dep) = Some m"
    and "d' = fold (\<lambda>x d. fst (submit_batch batch_max dep_id x d)) xs d"
  shows "\<forall>x \<in> set xs. batch_items (snd x) \<le> batch_max \<longrightarrow> prior_batch (batch_id x) d' \<noteq> None"
  using assms
proof (induction xs arbitrary: d dep)
  case (Cons x xs)
  let ?d1 = "fst (submit_batch batch_max dep_id x d)"
  have x: "has_batch_id x" and xs: "\<forall>x \<in> set xs. has_batch_id x" using Cons.prems(1) by auto
  obtain dep' where dep': "get_deployment ?d1 dep_id = Some dep'" "dp_model dep' = dp_model dep"
    "get_model_row ?d1 (dp_model dep) = Some m" using submit_target [OF x Cons.prems(2,3)] by blast
  have "prior_batch (batch_id x) ?d1 \<noteq> None" if "batch_items (snd x) \<le> batch_max"
    using ledger.known [OF x, of d batch_max dep_id] submit_fresh(2) [OF x Cons.prems(2,3) _ that, of "batch_id x"]
    by (cases "prior_batch (batch_id x) d") auto
  with ledger.kept_fold [OF xs, of "batch_id x" ?d1 batch_max dep_id] Cons.IH [OF xs dep'(1)] dep' Cons.prems(4)
  show ?case by auto
qed simp

lemma deliveries_taken:
  assumes "\<forall>x \<in> set xs. has_batch_id x" "get_deployment d dep_id = Some dep" "get_model_row d (dp_model dep) = Some m"
    and "d' = fold (\<lambda>x d. fst (submit_batch batch_max dep_id x d)) xs d"
  obtains ys where "subseq ys xs" "distinct (map batch_id ys)" "\<forall>y \<in> set ys. prior_batch (batch_id y) d = None"
    "t_events d' = t_events d @ concat (map (batch_events dep m) ys)"
    "\<forall>i. prior_batch i d' \<noteq> None \<longleftrightarrow> prior_batch i d \<noteq> None \<or> i \<in> batch_id ` set ys"
proof -
  obtain ys where ys: "subseq ys xs" "distinct (map batch_id ys)"
    "fold (\<lambda>x d. fst (submit_batch batch_max dep_id x d)) ys d = d'"
    "\<forall>y \<in> set ys. prior_batch (batch_id y) d = None \<and> (\<exists>s'. snd (submit_batch batch_max dep_id y s') \<noteq> None)"
    using ledger.exactly_once [OF assms(1), of batch_max dep_id d] unfolding assms(4) by blast
  have "set ys \<subseteq> set xs" using ys(1) by (auto dest: list_emb_set)
  with assms(1) ys(4) have "\<forall>y \<in> set ys. has_batch_id y \<and> prior_batch (batch_id y) d = None \<and> batch_items (snd y) \<le> batch_max"
    using submit_too_big by blast
  from deliver_fresh [OF this ys(2) assms(2,3)] ys that [of ys] show thesis by auto
qed

text \<open>C3: Exactly once, both ways: however often and in whatever order batches of a deployment
  arrive, the request rows that end up in the database are those of some of the deliveries in their
  order, each batch id once and none that was in the ledger before; and every delivered batch within the
  size limit is in the ledger at the end.  Nothing is counted twice and nothing is lost.\<close>

theorem redelivery_is_exactly_once:
  assumes "\<forall>x \<in> set xs. has_batch_id x" "get_deployment d dep_id = Some dep" "get_model_row d (dp_model dep) = Some m"
    and "d' = fold (\<lambda>x d. fst (submit_batch batch_max dep_id x d)) xs d"
  shows "(\<exists>ys. subseq ys xs \<and> distinct (map batch_id ys) \<and> (\<forall>y \<in> set ys. prior_batch (batch_id y) d = None) \<and>
      t_events d' = t_events d @ concat (map (batch_events dep m) ys)) \<and>
    (\<forall>x \<in> set xs. batch_items (snd x) \<le> batch_max \<longrightarrow> prior_batch (batch_id x) d' \<noteq> None)"
proof
  show "\<exists>ys. subseq ys xs \<and> distinct (map batch_id ys) \<and> (\<forall>y \<in> set ys. prior_batch (batch_id y) d = None) \<and>
      t_events d' = t_events d @ concat (map (batch_events dep m) ys)" by (rule deliveries_taken [OF assms]) blast
  show "\<forall>x \<in> set xs. batch_items (snd x) \<le> batch_max \<longrightarrow> prior_batch (batch_id x) d' \<noteq> None"
    by (rule delivered_is_known [OF assms])
qed

lemma ingest_first_time:
  assumes "ingest_batch batch_max now dep m b d = Inr (d', a)"
    "or_empty (tb_id b) '''' = '''' \<or> prior_batch (or_empty (tb_id b) '''') d = None"
  shows "d' = write_batch now (dp_id dep) b (build_batch now dep m b) d" "a = tx_ack (build_batch now dep m b)"
    "batch_items b \<le> batch_max"
  using assms by (auto simp: ingest_batch_def commit_batch_def split: if_splits list.splits)

lemma valid_ts_window:
  "valid_ts now ts \<longleftrightarrow> (\<exists>t. parse_z ts = Some t \<and> now - 30 * DAY \<le> t \<and> t \<le> now + 5 * MINUTE)"
  by (simp add: valid_ts_def PAST_CLAMP_def FUTURE_CLAMP_def split: option.split)

text \<open>C33: A batch accepted for the first time (it has no id, or its id is not in the ledger) is accounted for item by
  item.  The request rows added are one for every event of the batch whose timestamp parses and lies between thirty days ago and
  five minutes ahead, in the order of the batch; each carries the deployment the key opened, its
  model and the model's owner, whatever the batch says, and the event's own time, outcome, error, size and rounded
  latency.  Snapshots and windows are added by the same rule.  What is acknowledged is what was added, accepted and
  dropped add up to what was sent, and a batch with an id is in the ledger with these counts.  No model, key or
  deployment changes but for the deployment's last event.\<close>

theorem ingest_accounts:
  assumes "ingest_batch batch_max now dep m b d = Inr (d', a)"
    "or_empty (tb_id b) '''' = '''' \<or> prior_batch (or_empty (tb_id b) '''') d = None"
    and "timely = (\<lambda>ts. \<exists>t. parse_z ts = Some t \<and> now - 30 * DAY \<le> t \<and> t \<le> now + 5 * MINUTE)"
  shows "(\<exists>new. t_events d' = t_events d @ new \<and> length new = ack_events a \<and>
      list_all2 (\<lambda>e r. ev_deployment r = dp_id dep \<and> ev_model r = md_id m \<and> ev_user r = md_user m \<and> ev_source r = ''client'' \<and>
          ev_ts r = ce_ts e \<and> ev_success r = ce_success e \<and> ev_error r = ce_error e \<and> ev_batch_size r = ce_batch_size e \<and>
          ev_latency r = py_round 3 (ce_latency e) \<and> ev_client r = Some (tb_client b))
        (filter (\<lambda>e. timely (ce_ts e)) (tb_events b)) new) \<and>
    (\<exists>snaps. t_snapshots d' = t_snapshots d @ snaps \<and> length snaps = ack_snapshots a \<and>
      list_all2 (\<lambda>s r. sn_deployment r = dp_id dep \<and> sn_model r = md_id m \<and> sn_user r = md_user m \<and>
          sn_client r = tb_client b \<and> sn_ts r = cs_ts s)
        (filter (\<lambda>s. timely (cs_ts s)) (tb_snapshots b)) snaps) \<and>
    (\<exists>wins. t_windows d' = t_windows d @ wins \<and> length wins = ack_windows a \<and>
      list_all2 (\<lambda>w r. wn_deployment r = dp_id dep \<and> wn_model r = md_id m \<and> wn_user r = md_user m \<and>
          wn_client r = tb_client b \<and> wn_start r = cw_start w \<and> wn_end r = cw_end w \<and> wn_n r = cw_n w)
        (filter (\<lambda>w. timely (cw_start w)) (tb_windows b)) wins) \<and>
    ack_events a + ack_snapshots a + ack_windows a + ack_dropped a = batch_items b \<and> batch_items b \<le> batch_max \<and>
    (or_empty (tb_id b) '''' \<noteq> '''' \<longrightarrow> prior_batch (or_empty (tb_id b) '''') d' = Some a) \<and>
    t_models d' = t_models d \<and> t_keys d' = t_keys d \<and>
    map (\<lambda>x. x\<lparr>dp_last_event := None\<rparr>) (t_deployments d') = map (\<lambda>x. x\<lparr>dp_last_event := None\<rparr>) (t_deployments d)"
proof -
  note i = ingest_first_time [OF assms(1,2)]
  have timely: "timely ts \<longleftrightarrow> valid_ts now ts" for ts by (simp add: assms(3) valid_ts_window)
  have "ack_events a + ack_snapshots a + ack_windows a + ack_dropped a = batch_items b"
    unfolding i(2) tx_ack_def build_batch_def batch_items_def Let_def
    by (simp, insert length_filter_le [of "\<lambda>e. valid_ts now (ce_ts e)" "tb_events b"]
      length_filter_le [of "\<lambda>s. valid_ts now (cs_ts s)" "tb_snapshots b"]
      length_filter_le [of "\<lambda>w. valid_ts now (cw_start w)" "tb_windows b"], linarith)
  moreover have "map (\<lambda>x. x\<lparr>dp_last_event := None\<rparr>) (t_deployments d') = map (\<lambda>x. x\<lparr>dp_last_event := None\<rparr>) (t_deployments d)"
    unfolding i(1) write_batch_tables by (auto simp: upd_where_def split: option.split)
  moreover have "or_empty (tb_id b) '''' \<noteq> '''' \<Longrightarrow> prior_batch (or_empty (tb_id b) '''') d' = Some a"
    using assms(2) unfolding i(1,2) by (simp add: prior_write)
  ultimately show ?thesis using i(3) unfolding i(1,2) write_batch_tables timely
    by (auto simp: tx_ack_def build_batch_def Let_def event_of_def snapshot_of_def window_of_def list_all2_map2 list_all2_same)
qed

definition demo_event :: client_event where
  "demo_event = \<lparr>ce_ts = ''1970-01-02T00:00:00.000Z'', ce_latency = 1, ce_pre = None, ce_post = None, ce_success = True,
     ce_error = None, ce_batch_size = 1, ce_region = ''local'', ce_input_sig = None\<rparr>"

definition demo_batch :: batch where
  "demo_batch = \<lparr>tb_client = ''sdk'', tb_id = Some ''b1'', tb_events = [demo_event, demo_event\<lparr>ce_ts := ''noon''\<rparr>],
     tb_snapshots = [], tb_windows = []\<rparr>"

lemma demo_valid: "valid_ts DAY ''1970-01-02T00:00:00.000Z''" "\<not> valid_ts DAY ''noon''"
  by code_simp+

lemma demo_batch_events [simp]: "batch_events demo_dep demo_model (DAY, demo_batch) = [event_of demo_dep demo_model demo_batch demo_event]"
  by (simp add: batch_events_def demo_batch_def demo_event_def demo_valid)

lemma demo_ingest:
  "ingest_batch 600 DAY demo_dep demo_model demo_batch deployed_db =
     Inr (write_batch DAY ''dep_1'' demo_batch (build_batch DAY demo_dep demo_model demo_batch) deployed_db,
          \<lparr>ack_events = 1, ack_snapshots = 0, ack_windows = 0, ack_dropped = 1\<rparr>)"
proof -
  have "dp_id demo_dep = ''dep_1''" by (simp add: demo_dep_def)
  moreover have "tx_ack (build_batch DAY demo_dep demo_model demo_batch) =
      \<lparr>ack_events = 1, ack_snapshots = 0, ack_windows = 0, ack_dropped = 1\<rparr>"
    by (simp add: tx_ack_def build_batch_def Let_def demo_batch_def demo_event_def demo_valid)
  ultimately show ?thesis
    by (simp add: ingest_keyed demo_batch_def or_empty_def batch_items_def prior_batch_def deployed_db_def model_db_def
        empty_db_def)
qed

theorem ingest_accounts_witness:
  "\<exists>r. t_events (write_batch DAY ''dep_1'' demo_batch (build_batch DAY demo_dep demo_model demo_batch) deployed_db) = [r] \<and>
     ev_deployment r = ''dep_1'' \<and> ev_ts r = ''1970-01-02T00:00:00.000Z'' \<and> ev_latency r = py_round 3 1"
proof -
  define timely where "timely = (\<lambda>ts. \<exists>t. parse_z ts = Some t \<and> DAY - 30 * DAY \<le> t \<and> t \<le> DAY + 5 * MINUTE)"
  have "prior_batch (or_empty (tb_id demo_batch) '''') deployed_db = None"
    by (simp add: prior_batch_def deployed_db_def model_db_def empty_db_def)
  note t = ingest_accounts [OF demo_ingest disjI2 [OF this] timely_def, THEN conjunct1]
  have "timely ts = valid_ts DAY ts" for ts by (simp add: timely_def valid_ts_window)
  then have "filter (\<lambda>e. timely (ce_ts e)) (tb_events demo_batch) = [demo_event]"
    using demo_valid by (simp add: demo_batch_def demo_event_def)
  with t show ?thesis
    by (auto simp: list_all2_Cons1 deployed_db_def model_db_def empty_db_def demo_event_def demo_dep_def)
qed

theorem redelivery_is_exactly_once_witness:
  "\<exists>ys. subseq ys [(DAY, demo_batch), (DAY, demo_batch)] \<and> distinct (map batch_id ys) \<and>
     t_events (fold (\<lambda>x d. fst (submit_batch 600 ''dep_1'' x d)) [(DAY, demo_batch), (DAY, demo_batch)] deployed_db)
       = concat (map (batch_events demo_dep (demo_model\<lparr>md_is_deployed := True, md_status := ''deployed''\<rparr>)) ys)"
proof -
  have "\<forall>x \<in> set [(DAY, demo_batch), (DAY, demo_batch)]. has_batch_id x"
    by (simp add: has_batch_id_def demo_batch_def or_empty_def)
  moreover have "get_deployment deployed_db ''dep_1'' = Some demo_dep"
    by (simp add: get_deployment_def deployed_db_def demo_dep_def)
  moreover have "get_model_row deployed_db (dp_model demo_dep)
      = Some (demo_model\<lparr>md_is_deployed := True, md_status := ''deployed''\<rparr>)"
    by (simp add: get_model_row_def deployed_db_def demo_dep_def demo_model_def)
  moreover have "t_events deployed_db = []" by (simp add: deployed_db_def model_db_def empty_db_def)
  ultimately show ?thesis
    using redelivery_is_exactly_once [of "[(DAY, demo_batch), (DAY, demo_batch)]" deployed_db "''dep_1''" demo_dep _ _ 600, OF _ _ _ refl]
    by fastforce
qed

end
