(* ===== verification/Lifecycle.thy ===== *)
theory Lifecycle
  imports Client_Telemetry
begin

text \<open>
  The lifecycle of models, deployments and keys: a step relation over every operation that writes
  them, the requests of a user (upload, rename, completion, deployment handlers, deletion) and the
  background work (the worker's body, the reaper, the reconciler, device requests).  The lemmas show
  the invariant the deploy badge rests on along every history of atomic operations, the isolation of
  tenants, and the interleaving of a deletion's two commits with a creation that breaks the badge.
\<close>

section \<open>The step relation\<close>

definition fresh_deployment :: "string \<Rightarrow> db \<Rightarrow> bool" where
  "fresh_deployment i d \<longleftrightarrow>
     (\<forall>x \<in> set (t_deployments d). dp_id x \<noteq> i) \<and> (\<forall>k \<in> set (t_keys d). ak_deployment k \<noteq> i)"

text \<open>The label is the user whose request it is, \<open>None\<close> for the background and the devices.
  The random tokens are fresh, as the code relies on.  A worker's step ends at any of its commits, the last one included.\<close>

inductive lifecycle_step :: "digest \<Rightarrow> 'b pipeline \<Rightarrow> string option \<Rightarrow> db \<Rightarrow> db \<Rightarrow> bool" for hash pl where
  upload: "get_model_row d (''m_uploaded_'' @ token) = None \<Longrightarrow>
    lifecycle_step hash pl (Some user) d (fst (start_ingestion s now token user file_name src d))"
| complete: "ingestion_complete user model_id d = Inr d' \<Longrightarrow> lifecycle_step hash pl (Some user) d d'"
| rename: "model_rename user model_id name d = Inr d' \<Longrightarrow> lifecycle_step hash pl (Some user) d d'"
| delete_model: "model_delete user model_id (c, st, d) = Inr (c', st', d') \<Longrightarrow> lifecycle_step hash pl (Some user) d d'"
| create: "create_deployment hash base_url now token key_token secret user model_id body d = Inr (d', i, p) \<Longrightarrow>
    fresh_deployment (''dep_'' @ token) d \<Longrightarrow> lifecycle_step hash pl (Some user) d d'"
| rotate: "rotate_key hash now key_token secret user dep_id d = Inr (d', p) \<Longrightarrow> lifecycle_step hash pl (Some user) d d'"
| pause: "pause_deployment user dep_id d = Inr d' \<Longrightarrow> lifecycle_step hash pl (Some user) d d'"
| resume: "resume_deployment user dep_id d = Inr d' \<Longrightarrow> lifecycle_step hash pl (Some user) d d'"
| update: "update_deployment user dep_id name description d = Inr d' \<Longrightarrow> lifecycle_step hash pl (Some user) d d'"
| delete: "delete_deployment user dep_id d = Inr d' \<Longrightarrow> lifecycle_step hash pl (Some user) d d'"
| work: "(st', d') \<in> set (pipeline_commits pl s now j (st, d)) \<Longrightarrow> lifecycle_step hash pl None d d'"
| reap: "lifecycle_step hash pl None d (fst (reconcile_orphaned_runs parse tm age d))"
| heal: "lifecycle_step hash pl None d (fst (reconcile_deploy_status d))"
| report: "lifecycle_step hash pl None d (fst (telemetry_batch hash batch_max tm dep_id auth b d))"
| pull: "artifact_download hash (pl_sha pl) dep_id auth etag st d = Inr (d', r) \<Longrightarrow> lifecycle_step hash pl None d d'"

definition history :: "digest \<Rightarrow> 'b pipeline \<Rightarrow> db \<Rightarrow> db \<Rightarrow> bool" where
  "history hash pl = (\<lambda>d d'. \<exists>a. lifecycle_step hash pl a d d')\<^sup>*\<^sup>*"

section \<open>The invariant\<close>

definition lifecycle_inv :: "db \<Rightarrow> bool" where
  "lifecycle_inv d \<longleftrightarrow>
     distinct (map md_id (t_models d)) \<and> distinct (map dp_id (t_deployments d)) \<and>
     (\<forall>x \<in> set (t_deployments d). \<exists>m \<in> set (t_models d). md_id m = dp_model x \<and> md_user m = dp_user x) \<and>
     (\<forall>m \<in> set (t_models d). (md_status m = ''deployed'' \<longleftrightarrow> md_is_deployed m) \<and>
        (md_is_deployed m \<longleftrightarrow> (\<exists>x \<in> set (t_deployments d). dp_model x = md_id m))) \<and>
     (\<forall>k \<in> set (t_keys d). \<forall>x \<in> set (t_deployments d). ak_deployment k = dp_id x \<longrightarrow> ak_user k = dp_user x)"

text \<open>What the invariant sees of a row.  A step that keeps the view keeps the invariant.\<close>

definition model_view :: "model_row \<Rightarrow> string \<times> string \<times> bool \<times> bool" where
  "model_view m = (md_id m, md_user m, md_status m = ''deployed'', md_is_deployed m)"

definition deployment_view :: "deployment_row \<Rightarrow> string \<times> string \<times> string" where
  "deployment_view x = (dp_id x, dp_user x, dp_model x)"

definition key_view :: "api_key_row \<Rightarrow> string \<times> string" where
  "key_view k = (ak_user k, ak_deployment k)"

definition lifecycle_view ::
  "db \<Rightarrow> (string \<times> string \<times> bool \<times> bool) list \<times> (string \<times> string \<times> string) list \<times> (string \<times> string) list" where
  "lifecycle_view d = (map model_view (t_models d), map deployment_view (t_deployments d), map key_view (t_keys d))"

definition view_inv ::
  "(string \<times> string \<times> bool \<times> bool) list \<times> (string \<times> string \<times> string) list \<times> (string \<times> string) list \<Rightarrow> bool" where
  "view_inv v = (case v of (ms, xs, ks) \<Rightarrow>
     distinct (map fst ms) \<and> distinct (map fst xs) \<and>
     (\<forall>(i, u, k) \<in> set xs. \<exists>(j, w, s, b) \<in> set ms. j = k \<and> w = u) \<and>
     (\<forall>(j, w, s, b) \<in> set ms. s = b \<and> b = (\<exists>(i, u, k) \<in> set xs. k = j)) \<and>
     (\<forall>(w, e) \<in> set ks. \<forall>(i, u, k) \<in> set xs. e = i \<longrightarrow> w = u))"

lemma lifecycle_inv_view: "lifecycle_inv d \<longleftrightarrow> view_inv (lifecycle_view d)"
proof -
  have "fst \<circ> model_view = md_id" "fst \<circ> deployment_view = dp_id"
    by (simp_all add: fun_eq_iff model_view_def deployment_view_def)
  then show ?thesis
    unfolding lifecycle_inv_def view_inv_def lifecycle_view_def split
    by (simp add: model_view_def deployment_view_def key_view_def)
qed

lemma lifecycle_inv_cong: "lifecycle_view d' = lifecycle_view d \<Longrightarrow> lifecycle_inv d' = lifecycle_inv d"
  by (simp add: lifecycle_inv_view)

lemma map_upd_where_keep: "(\<And>r. r \<in> set t \<Longrightarrow> p r \<Longrightarrow> g (f r) = g r) \<Longrightarrow> map g (upd_where p f t) = map g t"
  by (auto simp: upd_where_def)

section \<open>Operations that keep the view\<close>

lemma lifecycle_view_eqI:
  assumes "t_models d' = upd_where p f (t_models d)" "\<And>m. m \<in> set (t_models d) \<Longrightarrow> p m \<Longrightarrow> model_view (f m) = model_view m"
    "t_deployments d' = upd_where q g (t_deployments d)" "\<And>x. deployment_view (g x) = deployment_view x"
    "t_keys d' = upd_where r h (t_keys d)" "\<And>k. key_view (h k) = key_view k"
  shows "lifecycle_view d' = lifecycle_view d"
  by (simp add: lifecycle_view_def assms map_upd_where_keep)

lemma upd_where_none: "upd_where (\<lambda>_. False) f t = t"
  by (simp add: upd_where_def)

lemmas view_keepI = lifecycle_view_eqI [where q = "\<lambda>_. False" and g = id and r = "\<lambda>_. False" and h = id,
    unfolded upd_where_none id_apply]

lemma owned_modelD: "owned_model d k u = Inr m \<Longrightarrow> m \<in> set (t_models d) \<and> md_id m = k \<and> md_user m = u"
  by (auto simp: owned_model_def split: option.splits if_splits dest: get_model_row_Some)

lemma owned_deploymentD:
  "owned_deployment d k u = Inr x \<Longrightarrow> x \<in> set (t_deployments d) \<and> dp_id x = k \<and> dp_user x = u"
  by (auto simp: owned_deployment_def split: option.splits if_splits dest: get_deployment_Some)

lemma inv_model_unique:
  "lifecycle_inv d \<Longrightarrow> m \<in> set (t_models d) \<Longrightarrow> m' \<in> set (t_models d) \<Longrightarrow> md_id m = md_id m' \<Longrightarrow> m = m'"
  by (auto simp: lifecycle_inv_def distinct_map inj_on_def)

lemma inv_deployment_unique:
  "lifecycle_inv d \<Longrightarrow> x \<in> set (t_deployments d) \<Longrightarrow> x' \<in> set (t_deployments d) \<Longrightarrow> dp_id x = dp_id x' \<Longrightarrow> x = x'"
  by (auto simp: lifecycle_inv_def distinct_map inj_on_def)

text \<open>The completion handshake changes one model, which was analyzing, to another status.\<close>

lemma complete_effect:
  assumes "ingestion_complete u k d = Inr d'"
  obtains "d' = d"
  | m f where "owned_model d k u = Inr m" "md_status m = ''analyzing''" "d' = upd_model k f d"
      "\<And>m. model_view (f m) = (md_id m, md_user m, False, md_is_deployed m)"
proof -
  obtain m where m: "owned_model d k u = Inr m" using assms by (auto simp: ingestion_complete_def bind_result_Inr)
  have v: "model_view (complete_model c m) = (md_id m, md_user m, False, md_is_deployed m)" for c m
    by (simp add: model_view_def complete_model_def)
  show thesis
  proof (cases "md_status m = ''analyzing''")
    case False with assms m that(1) show thesis by (auto simp: ingestion_complete_def)
  next
    case True
    let ?st = "map_option ir_status (case or_empty (md_run m) '''' of [] \<Rightarrow> None | r \<Rightarrow> get_run d r)"
    from assms m True have "Inr d' =
      (case ?st of
        Some st \<Rightarrow>
          if st = ''streaming'' then ok (upd_model k (\<lambda>m. m\<lparr>md_status := ''optimizing''\<rparr>) d)
          else if st = ''failed'' then ok (upd_model k (\<lambda>m. m\<lparr>md_status := ''failed'', md_run := None\<rparr>) d)
          else ok (upd_model k (complete_model (get_cached_result d k ''pareto'' u)) d)
      | None \<Rightarrow> ok (upd_model k (complete_model (get_cached_result d k ''pareto'' u)) d))"
      by (simp add: ingestion_complete_def Let_def)
    then show thesis using m True v
      by (auto split: option.splits if_splits intro!: that(2) simp: model_view_def)
  qed
qed

lemma model_update_view:
  assumes "lifecycle_inv d" "m \<in> set (t_models d)" "md_status m \<noteq> ''deployed''"
    "\<And>m. model_view (f m) = (md_id m, md_user m, False, md_is_deployed m)"
  shows "lifecycle_view (upd_model (md_id m) f d) = lifecycle_view d"
proof (rule view_keepI)
  show "model_view (f m') = model_view m'" if "m' \<in> set (t_models d)" "md_id m' = md_id m" for m'
    using inv_model_unique [OF assms(1) that(1) assms(2) that(2)] assms(3,4) by (simp add: model_view_def)
qed (simp_all add: upd_model_def)

lemma complete_view:
  "lifecycle_inv d \<Longrightarrow> ingestion_complete u k d = Inr d' \<Longrightarrow> lifecycle_view d' = lifecycle_view d"
  by (erule complete_effect) (use model_update_view in \<open>auto dest!: owned_modelD\<close>)

lemma rename_view: "model_rename u k name d = Inr d' \<Longrightarrow> lifecycle_view d' = lifecycle_view d"
  by (auto simp: model_rename_def bind_result_Inr Let_def upd_model_def model_view_def lifecycle_view_def
      map_upd_where split: if_splits)

lemma status_view: "set_deployment_status st u k d = Inr d' \<Longrightarrow> lifecycle_view d' = lifecycle_view d"
  by (auto simp: set_deployment_status_def bind_result_Inr upd_deployment_def deployment_view_def
      lifecycle_view_def map_upd_where)

lemma update_view: "update_deployment u k name desc d = Inr d' \<Longrightarrow> lifecycle_view d' = lifecycle_view d"
  by (auto simp: update_deployment_def bind_result_Inr Let_def upd_deployment_def deployment_view_def
      lifecycle_view_def map_upd_where)

lemma touch_key_view [simp]: "lifecycle_view (touch_key tm k d) = lifecycle_view d"
  by (auto simp: touch_key_def Let_def key_view_def lifecycle_view_def map_upd_where)

lemma write_batch_view [simp]: "lifecycle_view (write_batch tm i b tx d) = lifecycle_view d"
  by (auto simp: lifecycle_view_def write_batch_tables deployment_view_def map_upd_where split: option.split)

lemma report_view: "lifecycle_view (fst (telemetry_batch hash mx tm i auth b d)) = lifecycle_view d"
proof -
  have "lifecycle_view (fst (commit_batch tm i b tx d)) = lifecycle_view d" for tx i d
    by (simp add: commit_batch_def split: list.split option.split)
  moreover have "\<And>y. ingest_batch mx tm x m b d = Inr y \<Longrightarrow> (\<exists>tx. fst y = fst (commit_batch tm (dp_id x) b tx d)) \<or> fst y = d"
    for x m d
    by (auto simp: ingest_batch_def split: if_splits list.splits option.splits dest!: arg_cong [of _ _ fst])
  ultimately have i: "\<And>y. ingest_batch mx tm x m b d = Inr y \<Longrightarrow> lifecycle_view (fst y) = lifecycle_view d" for x m d
    by metis
  show ?thesis
    by (auto simp: telemetry_batch_def Let_def split: sum.split prod.split py_error.split dest!: i)
qed

lemma pull_view:
  "artifact_download hash sha i auth etag st d = Inr (d', r) \<Longrightarrow> lifecycle_view d' = lifecycle_view d"
proof -
  assume a: "artifact_download hash sha i auth etag st d = Inr (d', r)"
  obtain k x m where "artifact_meta sha m st d = Inr (d', k, x)"
    using a by (auto simp: artifact_download_def bind_result_Inr Let_def split: if_splits sum.splits)
  then show ?thesis
    by (auto simp: artifact_meta_def upd_model_def model_view_def lifecycle_view_def map_upd_where
        split: list.splits option.splits sum.splits)
qed

lemma work_view:
  assumes "(st', d') \<in> set (pipeline_commits pl s now j (st, d))"
  shows "lifecycle_view d' = lifecycle_view d"
  using assms
proof (cases rule: commit_cases)
  case last
  then have d': "d' = snd (execute_pipeline pl s now j (st, d))" by (metis snd_conv)
  show ?thesis
  proof (cases rule: execute_pipeline_ends [of pl s now j st d])
    case (success a w d1)
    have "model_view (finish_model (pl_sha pl) now a w m) = model_view m" for m
      by (auto simp: model_view_def finish_model_def Let_def split: option.split)
    then show ?thesis by (simp add: d' success lifecycle_view_def on_success_tables map_upd_where)
  next
    case (failure err d1)
    show ?thesis
      by (simp add: d' failure lifecycle_view_def on_failure_tables map_upd_where model_view_def)
  qed
next
  case open_run
  then show ?thesis by (simp add: lifecycle_view_def)
qed

lemma reap_run_view: "lifecycle_view (reap_run tm r d) = lifecycle_view d"
  by (auto simp: reap_run_def upd_model_def upd_ingestion_def model_view_def release_model_def lifecycle_view_def
      intro!: map_upd_where)

lemma reap_view: "lifecycle_view (fst (reconcile_orphaned_runs parse tm age d)) = lifecycle_view d"
proof -
  have "lifecycle_view (fold (reap_run tm) rs d) = lifecycle_view d" for rs
    by (induction rs arbitrary: d) (simp_all add: reap_run_view)
  then show ?thesis by (simp add: reconcile_orphaned_runs_def Let_def)
qed

text \<open>Under the invariant the reconciler finds no stuck badge.\<close>

lemma heal_nothing: "lifecycle_inv d \<Longrightarrow> reconcile_deploy_status d = (d, [])"
proof -
  assume i: "lifecycle_inv d"
  have "upd_where (\<lambda>m. md_is_deployed m \<and> md_status m = ''draft'') f (t_models d) = t_models d" for f
    unfolding upd_where_def by (rule map_idI) (use i in \<open>auto simp: lifecycle_inv_def\<close>)
  moreover have "filter (\<lambda>m. md_is_deployed m \<and> md_status m = ''draft'') (t_models d) = []"
    using i by (auto simp: lifecycle_inv_def filter_empty_conv)
  ultimately show ?thesis by (simp add: reconcile_deploy_status_def)
qed

section \<open>Operations that change it\<close>

lemma upload_inv:
  assumes "lifecycle_inv d" "get_model_row d (''m_uploaded_'' @ token) = None"
  shows "lifecycle_inv (fst (start_ingestion s now token u f src d))"
proof -
  let ?i = "''m_uploaded_'' @ token"
  have new: "\<forall>m \<in> set (t_models d). md_id m \<noteq> ?i" using assms(2) by (auto simp: get_model_row_def find_None_iff)
  then have "\<forall>x \<in> set (t_deployments d). dp_model x \<noteq> ?i" using assms(1) unfolding lifecycle_inv_def by metis
  with new assms(1) show ?thesis
    by (auto simp: start_ingestion_def Let_def lifecycle_inv_def add_activity_def split: prod.split)
qed

lemma key_added_inv:
  assumes "lifecycle_inv d" "t_models d' = t_models d" "t_deployments d' = t_deployments d"
    "key_view ` set (t_keys d') \<subseteq> insert (u, i) (key_view ` set (t_keys d))"
    "\<forall>x \<in> set (t_deployments d). dp_id x = i \<longrightarrow> dp_user x = u"
  shows "lifecycle_inv d'"
proof -
  have "ak_user k = dp_user x" if "k \<in> set (t_keys d')" "x \<in> set (t_deployments d)" "ak_deployment k = dp_id x" for k x
  proof -
    from assms(4) that(1) consider "key_view k = (u, i)" | k' where "k' \<in> set (t_keys d)" "key_view k = key_view k'"
      by blast
    then show ?thesis using that assms(1,5) by cases (auto simp: key_view_def lifecycle_inv_def)
  qed
  then show ?thesis using assms(1-3) by (simp add: lifecycle_inv_def)
qed

lemma rotate_keys_views:
  "t_models (fst (rotate_keys hash now kt secret u i d)) = t_models d"
  "t_deployments (fst (rotate_keys hash now kt secret u i d)) = t_deployments d"
  "key_view ` set (t_keys (fst (rotate_keys hash now kt secret u i d))) = insert (u, i) (key_view ` set (t_keys d))"
proof -
  have "key_view ` set (upd_where (\<lambda>k. ak_deployment k = i) (\<lambda>k. k\<lparr>ak_revoked := True\<rparr>) t) = key_view ` set t" for t
    unfolding set_map [symmetric] by (rule arg_cong [of _ _ set], rule map_upd_where) (simp add: key_view_def)
  then show "key_view ` set (t_keys (fst (rotate_keys hash now kt secret u i d))) = insert (u, i) (key_view ` set (t_keys d))"
    by (simp add: rotate_keys_def issue_key_def revoke_deployment_keys_def Let_def key_view_def)
qed (simp_all add: rotate_keys_def issue_key_def revoke_deployment_keys_def Let_def)

lemma rotate_inv:
  assumes "lifecycle_inv d" "rotate_key hash now kt secret u i d = Inr (d', p)"
  shows "lifecycle_inv d'"
proof -
  obtain x where x: "owned_deployment d i u = Inr x" and d': "d' = fst (rotate_keys hash now kt secret u i d)"
    using assms(2) by (auto simp: rotate_key_def bind_result_Inr split: prod.splits)
  have "dp_user y = u" if "y \<in> set (t_deployments d)" "dp_id y = i" for y
    using inv_deployment_unique [OF assms(1) that(1)] owned_deploymentD [OF x] that by metis
  then show ?thesis
    unfolding d' by (intro key_added_inv [OF assms(1), where u = u and i = i]) (simp_all add: rotate_keys_views)
qed

lemma create_commitD:
  assumes "create_commit base now token u k body d = Inr (d', i)"
  obtains m x where "owned_model d k u = Inr m" "i = ''dep_'' @ token" "dp_id x = i" "dp_user x = u" "dp_model x = k"
    "t_deployments d' = t_deployments d @ [x]" "t_keys d' = t_keys d"
    "t_models d' = upd_where (\<lambda>m. md_id m = k) (\<lambda>m. m\<lparr>md_is_deployed := True, md_status := ''deployed''\<rparr>) (t_models d)"
proof -
  obtain m where m: "owned_model d k u = Inr m" "is_executable (md_artifact_key m)"
    using assms by (auto simp: create_commit_def bind_result_Inr split: if_splits)
  let ?x = "\<lparr>dp_id = ''dep_'' @ token, dp_user = u, dp_model = k, dp_name = or_empty (cr_name body) (md_name m),
     dp_description = '''', dp_endpoint = base @ ''/api/v1/artifacts/'' @ ''dep_'' @ token,
     dp_region = str_strip (or_empty (cr_region body) SERVING_RUNTIME), dp_qps = 0, dp_p95 = 0, dp_errors_pct = 0,
     dp_accuracy_drift = 0, dp_status = cr_status body, dp_created = now, dp_last_event = None\<rparr>"
  from assms m show thesis
    by (intro that [of m ?x]) (auto simp: create_commit_def Let_def upd_model_def add_activity_def)
qed

lemma create_commit_inv:
  assumes "lifecycle_inv d" "create_commit base now token u k body d = Inr (d', i)" "fresh_deployment i d"
  shows "lifecycle_inv d' \<and> (\<forall>x \<in> set (t_deployments d'). dp_id x = i \<longrightarrow> dp_user x = u)"
proof -
  obtain m x where c: "owned_model d k u = Inr m" "dp_id x = i" "dp_user x = u" "dp_model x = k"
    "t_deployments d' = t_deployments d @ [x]" "t_keys d' = t_keys d"
    "t_models d' = upd_where (\<lambda>m. md_id m = k) (\<lambda>m. m\<lparr>md_is_deployed := True, md_status := ''deployed''\<rparr>) (t_models d)"
    using assms(2) by (rule create_commitD) blast
  note f = assms(3) [unfolded fresh_deployment_def]
  have ids: "map md_id (t_models d') = map md_id (t_models d)" unfolding c(7) by (rule map_upd_where) simp
  have ex: "\<exists>m \<in> set (t_models d'). md_id m = j \<and> md_user m = w" if "m \<in> set (t_models d)" "md_id m = j" "md_user m = w" for m j w
    using that unfolding c(7) upd_where_bex by auto
  have "\<forall>y \<in> set (t_deployments d'). \<exists>m \<in> set (t_models d'). md_id m = dp_model y \<and> md_user m = dp_user y"
    using assms(1) c(3,4) owned_modelD [OF c(1)] ex by (auto simp: c(5) lifecycle_inv_def)
  moreover have "\<forall>m \<in> set (t_models d'). (md_status m = ''deployed'' \<longleftrightarrow> md_is_deployed m) \<and>
      (md_is_deployed m \<longleftrightarrow> (\<exists>y \<in> set (t_deployments d'). dp_model y = md_id m))"
    using assms(1) c(4) unfolding c(7) upd_where_ball by (auto simp: c(5) lifecycle_inv_def)
  ultimately show ?thesis
    using assms(1) f c(2,3) ids by (auto simp: lifecycle_inv_def c(5,6))
qed

lemma create_inv:
  assumes "lifecycle_inv d" "create_deployment hash base now token kt secret u k body d = Inr (d', i, p)"
    "fresh_deployment (''dep_'' @ token) d"
  shows "lifecycle_inv d'"
proof -
  obtain d1 j where c: "create_commit base now token u k body d = Inr (d1, j)" and d': "d' = fst (issue_key hash now kt secret u j d1)"
    using assms(2) by (auto simp: create_deployment_def bind_result_Inr case_prod_beta)
  have "j = ''dep_'' @ token" using c by (rule create_commitD) simp
  with create_commit_inv [OF assms(1) c] assms(3)
  have i: "lifecycle_inv d1" "\<forall>x \<in> set (t_deployments d1). dp_id x = j \<longrightarrow> dp_user x = u" by simp_all
  show ?thesis
    by (rule key_added_inv [OF i(1) _ _ _ i(2)]) (auto simp: d' issue_key_def Let_def key_view_def)
qed

lemma delete_model_inv:
  assumes "lifecycle_inv d" "model_delete u k (c, st, d) = Inr (c', st', d')"
  shows "lifecycle_inv d'"
proof -
  have t: "t_models d' = del_where (\<lambda>m. md_id m = k) (t_models d)" "t_keys d' = t_keys d"
    "t_deployments d' = del_where (\<lambda>x. dp_model x = k) (t_deployments d)"
    using assms(2) by (auto simp: model_delete_def bind_result_Inr Let_def)
  have dist: "distinct (map f xs) \<Longrightarrow> distinct (map f (del_where p xs))" for f :: "'x \<Rightarrow> 'y" and p xs
    by (auto simp: del_where_def distinct_map intro: inj_on_subset)
  show ?thesis unfolding lifecycle_inv_def t
    using assms(1) unfolding lifecycle_inv_def by (intro conjI ballI; simp add: dist; metis)
qed

lemma delete_deploymentD:
  assumes "delete_deployment u i d = Inr d'"
  obtains x d1 where "owned_deployment d i u = Inr x" "t_models d1 = t_models d"
    "t_keys d1 = upd_where (\<lambda>k. ak_deployment k = i) (\<lambda>k. k\<lparr>ak_revoked := True\<rparr>) (t_keys d)"
    "t_deployments d1 = del_where (\<lambda>y. dp_id y = i) (t_deployments d)"
    "d' = (if none_remaining (dp_model x) d1 then clear_deployed (dp_model x) d1 else d1)"
proof -
  from assms obtain x where "owned_deployment d i u = Inr x"
    by (auto simp: delete_deployment_def delete_rows_def bind_result_Inr)
  with assms show thesis
    by (intro that [of x "(revoke_deployment_keys i d)
        \<lparr>t_deployments := del_where (\<lambda>y. dp_id y = i) (t_deployments (revoke_deployment_keys i d))\<rparr>"])
      (auto simp: delete_deployment_def delete_rows_def Let_def revoke_deployment_keys_def)
qed

lemma delete_inv:
  assumes i: "lifecycle_inv d" and d: "delete_deployment u i d = Inr d'"
  shows "lifecycle_inv d'"
proof -
  obtain x d1 where x: "owned_deployment d i u = Inr x" and t: "t_models d1 = t_models d"
    "t_keys d1 = upd_where (\<lambda>k. ak_deployment k = i) (\<lambda>k. k\<lparr>ak_revoked := True\<rparr>) (t_keys d)"
    "t_deployments d1 = del_where (\<lambda>y. dp_id y = i) (t_deployments d)"
    and d': "d' = (if none_remaining (dp_model x) d1 then clear_deployed (dp_model x) d1 else d1)"
    using d by (rule delete_deploymentD)
  have xd: "x \<in> set (t_deployments d)" "dp_id x = i" using owned_deploymentD [OF x] by auto
  have only: "y = x" if "y \<in> set (t_deployments d)" "dp_id y = i" for y
    using inv_deployment_unique [OF i that(1) xd(1)] that(2) xd(2) by simp
  let ?none = "none_remaining (dp_model x) d1"
  let ?f = "\<lambda>m. if ?none \<and> md_id m = dp_model x
     then m\<lparr>md_is_deployed := False, md_status := (if md_status m = ''deployed'' then ''draft'' else md_status m)\<rparr> else m"
  have m: "t_models d' = map ?f (t_models d)"
    by (auto simp: d' t clear_deployed_def upd_model_def upd_where_def)
  have rest: "t_keys d' = t_keys d1" "t_deployments d' = t_deployments d1" by (simp_all add: d' clear_deployed_def)
  have ids: "map md_id (t_models d') = map md_id (t_models d)" by (simp add: m)
  have dist: "distinct (map dp_id (t_deployments d'))"
    using i by (auto simp: rest t lifecycle_inv_def del_where_def distinct_map intro: inj_on_subset)
  have serve: "\<forall>y \<in> set (t_deployments d'). \<exists>m \<in> set (t_models d'). md_id m = dp_model y \<and> md_user m = dp_user y"
  proof
    fix y assume "y \<in> set (t_deployments d')"
    then have "y \<in> set (t_deployments d)" by (simp add: rest t)
    then obtain m0 where "m0 \<in> set (t_models d)" "md_id m0 = dp_model y" "md_user m0 = dp_user y"
      using i unfolding lifecycle_inv_def by blast
    then show "\<exists>m \<in> set (t_models d'). md_id m = dp_model y \<and> md_user m = dp_user y"
      by (intro bexI [of _ "?f m0"]) (auto simp: m)
  qed
  have none: "?none \<longleftrightarrow> \<not> (\<exists>y \<in> set (t_deployments d'). dp_model y = dp_model x)"
    by (auto simp: none_remaining_def rest list_ex_iff)
  have still: "(\<exists>y \<in> set (t_deployments d'). dp_model y = k) \<longleftrightarrow> (\<exists>y \<in> set (t_deployments d). dp_model y = k)" if "k \<noteq> dp_model x" for k
    using only that by (auto simp: rest t)
  have badge: "\<forall>m \<in> set (t_models d'). (md_status m = ''deployed'' \<longleftrightarrow> md_is_deployed m) \<and>
      (md_is_deployed m \<longleftrightarrow> (\<exists>y \<in> set (t_deployments d'). dp_model y = md_id m))"
  proof
    fix m assume "m \<in> set (t_models d')"
    then obtain m0 where m0: "m0 \<in> set (t_models d)" "m = ?f m0" by (auto simp: m)
    have b: "(md_status m0 = ''deployed'' \<longleftrightarrow> md_is_deployed m0) \<and>
        (md_is_deployed m0 \<longleftrightarrow> (\<exists>y \<in> set (t_deployments d). dp_model y = md_id m0))"
      using i m0(1) unfolding lifecycle_inv_def by blast
    show "(md_status m = ''deployed'' \<longleftrightarrow> md_is_deployed m) \<and>
      (md_is_deployed m \<longleftrightarrow> (\<exists>y \<in> set (t_deployments d'). dp_model y = md_id m))"
    proof (cases "md_id m0 = dp_model x")
      case True with b m0(2) none xd(1) show ?thesis by auto
    next
      case False with b m0(2) still [OF False] show ?thesis by auto
    qed
  qed
  have "\<forall>k \<in> set (t_keys d'). \<forall>y \<in> set (t_deployments d'). ak_deployment k = dp_id y \<longrightarrow> ak_user k = dp_user y"
    using i unfolding rest t upd_where_ball by (auto simp: lifecycle_inv_def)
  with serve badge dist ids i show ?thesis unfolding lifecycle_inv_def by simp
qed

lemma step_inv: "lifecycle_step hash pl a d d' \<Longrightarrow> lifecycle_inv d \<Longrightarrow> lifecycle_inv d'"
proof (induction rule: lifecycle_step.induct)
  case (heal d) then show ?case by (simp add: heal_nothing)
next
  case (work st' d') then show ?case using lifecycle_inv_cong [OF work_view] by blast
qed (auto intro: upload_inv delete_model_inv create_inv rotate_inv delete_inv
    simp: pause_deployment_def resume_deployment_def lifecycle_inv_cong [OF complete_view]
    lifecycle_inv_cong [OF rename_view] lifecycle_inv_cong [OF status_view] lifecycle_inv_cong [OF update_view]
    lifecycle_inv_cong [OF reap_view] lifecycle_inv_cong [OF report_view]
    lifecycle_inv_cong [OF pull_view])

lemma history_inv: "history hash pl d d' \<Longrightarrow> lifecycle_inv d \<Longrightarrow> lifecycle_inv d'"
  unfolding history_def by (induction rule: rtranclp_induct) (auto intro: step_inv)

lemma empty_inv: "lifecycle_inv empty_db"
  by (simp add: lifecycle_inv_def empty_db_def)

section \<open>Tenants\<close>

definition tenant :: "string \<Rightarrow> db \<Rightarrow> model_row list \<times> deployment_row list \<times> api_key_row list" where
  "tenant v d = (filter (\<lambda>m. md_user m = v) (t_models d), filter (\<lambda>x. dp_user x = v) (t_deployments d),
     filter (\<lambda>k. ak_user k = v) (t_keys d))"

lemma filter_upd_where_other:
  "(\<And>r. r \<in> set t \<Longrightarrow> p r \<Longrightarrow> \<not> q r \<and> \<not> q (f r)) \<Longrightarrow> filter q (upd_where p f t) = filter q t"
  by (induction t) (auto simp: upd_where_def)

lemma filter_del_where_other:
  "(\<And>r. r \<in> set t \<Longrightarrow> p r \<Longrightarrow> \<not> q r) \<Longrightarrow> filter q (del_where p t) = filter q t"
  by (induction t) (auto simp: del_where_def)

lemma tenant_upd_model:
  assumes "lifecycle_inv d" "owned_model d k u = Inr m" "v \<noteq> u" "\<And>m. md_user (f m) = md_user m"
  shows "tenant v (upd_model k f d) = tenant v d"
proof -
  have "md_user m' = u" if "m' \<in> set (t_models d)" "md_id m' = k" for m'
    using inv_model_unique [OF assms(1) that(1)] owned_modelD [OF assms(2)] that by metis
  then show ?thesis using assms(3,4)
    by (simp add: tenant_def upd_model_def) (rule filter_upd_where_other, auto)
qed

lemma tenant_upd_deployment:
  assumes "lifecycle_inv d" "owned_deployment d i u = Inr x" "v \<noteq> u" "\<And>x. dp_user (f x) = dp_user x"
  shows "tenant v (upd_deployment i f d) = tenant v d"
proof -
  have "dp_user y = u" if "y \<in> set (t_deployments d)" "dp_id y = i" for y
    using inv_deployment_unique [OF assms(1) that(1)] owned_deploymentD [OF assms(2)] that by metis
  then show ?thesis using assms(3,4)
    by (simp add: tenant_def upd_deployment_def) (rule filter_upd_where_other, auto)
qed

lemma tenant_revoke:
  assumes "lifecycle_inv d" "owned_deployment d i u = Inr x" "v \<noteq> u"
  shows "filter (\<lambda>k. ak_user k = v) (upd_where (\<lambda>k. ak_deployment k = i) (\<lambda>k. k\<lparr>ak_revoked := True\<rparr>) (t_keys d))
    = filter (\<lambda>k. ak_user k = v) (t_keys d)"
proof (rule filter_upd_where_other)
  fix k assume "k \<in> set (t_keys d)" "ak_deployment k = i"
  then show "\<not> ak_user k = v \<and> \<not> ak_user (k\<lparr>ak_revoked := True\<rparr>) = v"
    using assms owned_deploymentD [OF assms(2)] by (auto simp: lifecycle_inv_def)
qed

lemma tenant_create:
  assumes "lifecycle_inv d" "create_deployment hash base now token kt secret u k body d = Inr (d', i, p)" "v \<noteq> u"
  shows "tenant v d' = tenant v d"
proof -
  obtain d1 j where c: "create_commit base now token u k body d = Inr (d1, j)" and d': "d' = fst (issue_key hash now kt secret u j d1)"
    using assms(2) by (auto simp: create_deployment_def bind_result_Inr case_prod_beta)
  obtain m x where x: "owned_model d k u = Inr m" "dp_user x = u" "t_deployments d1 = t_deployments d @ [x]"
    "t_keys d1 = t_keys d" and m: "t_models d1 = t_models (upd_model k (\<lambda>m. m\<lparr>md_is_deployed := True, md_status := ''deployed''\<rparr>) d)"
    using c by (rule create_commitD) (simp add: upd_model_def)
  have "tenant v (upd_model k (\<lambda>m. m\<lparr>md_is_deployed := True, md_status := ''deployed''\<rparr>) d) = tenant v d"
    by (rule tenant_upd_model [OF assms(1) x(1) assms(3)]) simp
  with x(2-4) m assms(3) show ?thesis by (simp add: tenant_def d' issue_key_def Let_def)
qed

lemma tenant_delete:
  assumes "lifecycle_inv d" "delete_deployment u i d = Inr d'" "v \<noteq> u"
  shows "tenant v d' = tenant v d"
proof -
  obtain x d1 where x: "owned_deployment d i u = Inr x" and t: "t_models d1 = t_models d"
    "t_keys d1 = upd_where (\<lambda>k. ak_deployment k = i) (\<lambda>k. k\<lparr>ak_revoked := True\<rparr>) (t_keys d)"
    "t_deployments d1 = del_where (\<lambda>y. dp_id y = i) (t_deployments d)"
    and d': "d' = (if none_remaining (dp_model x) d1 then clear_deployed (dp_model x) d1 else d1)"
    using assms(2) by (rule delete_deploymentD)
  obtain m where m: "m \<in> set (t_models d)" "md_id m = dp_model x" "md_user m = u"
    using assms(1) owned_deploymentD [OF x] unfolding lifecycle_inv_def by metis
  have o: "md_user m' \<noteq> v" if "m' \<in> set (t_models d)" "md_id m' = dp_model x" for m'
    using inv_model_unique [OF assms(1) that(1) m(1)] that(2) m(2,3) assms(3) by simp
  have "filter (\<lambda>x. dp_user x = v) (t_deployments d1) = filter (\<lambda>x. dp_user x = v) (t_deployments d)"
    unfolding t using inv_deployment_unique [OF assms(1)] owned_deploymentD [OF x] assms(3)
    by (intro filter_del_where_other) metis
  moreover have "filter (\<lambda>m. md_user m = v) (t_models (clear_deployed (dp_model x) d1)) = filter (\<lambda>m. md_user m = v) (t_models d1)"
    unfolding clear_deployed_def t_models_upd_model t by (rule filter_upd_where_other) (use o in auto)
  moreover have "t_keys (clear_deployed (dp_model x) d1) = t_keys d1" "t_deployments (clear_deployed (dp_model x) d1) = t_deployments d1"
    by (simp_all add: clear_deployed_def)
  ultimately show ?thesis using tenant_revoke [OF assms(1) x assms(3)] by (simp add: tenant_def d' t)
qed

lemma tenant_delete_model:
  assumes "lifecycle_inv d" "model_delete u k (c, st, d) = Inr (c', st', d')" "v \<noteq> u"
  shows "tenant v d' = tenant v d"
proof -
  obtain m where m: "owned_model d k u = Inr m" using assms(2) by (auto simp: model_delete_def bind_result_Inr)
  have t: "t_models d' = del_where (\<lambda>m. md_id m = k) (t_models d)" "t_keys d' = t_keys d"
    "t_deployments d' = del_where (\<lambda>x. dp_model x = k) (t_deployments d)"
    using assms(2) by (auto simp: model_delete_def bind_result_Inr Let_def)
  have own: "md_user m' = u" if "m' \<in> set (t_models d)" "md_id m' = k" for m'
    using inv_model_unique [OF assms(1) that(1)] owned_modelD [OF m] that by metis
  then have "dp_user x = u" if "x \<in> set (t_deployments d)" "dp_model x = k" for x
    using assms(1) that unfolding lifecycle_inv_def by metis
  with own show ?thesis using assms(3) unfolding tenant_def t by (auto intro!: filter_del_where_other)
qed

lemma tenant_complete:
  assumes "lifecycle_inv d" "ingestion_complete u k d = Inr d'" "v \<noteq> u"
  shows "tenant v d' = tenant v d"
  using assms(2)
proof (rule complete_effect)
  fix m f assume c: "owned_model d k u = Inr m" "d' = upd_model k f d"
    and f: "\<And>m. model_view (f m) = (md_id m, md_user m, False, md_is_deployed m)"
  have "md_user (f m) = md_user m" for m using f [of m] by (simp add: model_view_def)
  then show ?thesis unfolding c(2) by (rule tenant_upd_model [OF assms(1) c(1) assms(3)])
qed simp

lemma tenant_rename:
  assumes "lifecycle_inv d" "model_rename u k name d = Inr d'" "v \<noteq> u"
  shows "tenant v d' = tenant v d"
proof -
  obtain m where m: "owned_model d k u = Inr m" using assms(2) by (auto simp: model_rename_def bind_result_Inr)
  have "tenant v d' = tenant v (upd_model k (\<lambda>m. m\<lparr>md_name := str_strip name\<rparr>) d)"
    using assms(2) by (auto simp: model_rename_def bind_result_Inr Let_def tenant_def split: if_splits)
  then show ?thesis using tenant_upd_model [OF assms(1) m assms(3)] by simp
qed

lemma tenant_rotate:
  assumes "lifecycle_inv d" "rotate_key hash now kt secret u i d = Inr (d', p)" "v \<noteq> u"
  shows "tenant v d' = tenant v d"
proof -
  obtain x where x: "owned_deployment d i u = Inr x" and d': "d' = fst (rotate_keys hash now kt secret u i d)"
    using assms(2) by (auto simp: rotate_key_def bind_result_Inr split: prod.splits)
  show ?thesis using tenant_revoke [OF assms(1) x assms(3)] assms(3)
    by (simp add: tenant_def d' rotate_keys_def issue_key_def revoke_deployment_keys_def Let_def)
qed

lemma tenant_status:
  "lifecycle_inv d \<Longrightarrow> set_deployment_status st u i d = Inr d' \<Longrightarrow> v \<noteq> u \<Longrightarrow> tenant v d' = tenant v d"
  by (auto simp: set_deployment_status_def bind_result_Inr intro: tenant_upd_deployment)

lemma tenant_update:
  "lifecycle_inv d \<Longrightarrow> update_deployment u i name desc d = Inr d' \<Longrightarrow> v \<noteq> u \<Longrightarrow> tenant v d' = tenant v d"
  by (auto simp: update_deployment_def bind_result_Inr Let_def intro: tenant_upd_deployment)

lemma tenant_upload: "v \<noteq> u \<Longrightarrow> tenant v (fst (start_ingestion s now token u f src d)) = tenant v d"
  by (simp add: tenant_def start_ingestion_def Let_def add_activity_def split: prod.split)

lemmas tenant_frames = tenant_upload tenant_complete tenant_rename tenant_delete_model tenant_create tenant_rotate
  tenant_status tenant_update tenant_delete

inductive_cases request_stepE: "lifecycle_step hash pl (Some u) d d'"

lemma step_tenant:
  "lifecycle_step hash pl (Some u) d d' \<Longrightarrow> lifecycle_inv d \<Longrightarrow> v \<noteq> u \<Longrightarrow> tenant v d' = tenant v d"
  by (erule request_stepE) (auto simp: pause_deployment_def resume_deployment_def intro: tenant_frames)

section \<open>Properties\<close>

text \<open>C15: The deploy badge is truthful along every history: whatever sequence of uploads, worker
  runs, handshakes, deployments, rotations, deletions, reapings and device requests, model and
  deployment ids are unique, every deployment has a model of the same user, a model reads deployed
  exactly when it has a deployment, a deployment's keys belong to its owner, and the reconciler that
  repairs the badge finds nothing to repair.\<close>

theorem badge_tracks_deployments:
  assumes "history hash pl empty_db d"
  shows "lifecycle_inv d \<and> reconcile_deploy_status d = (d, []) \<and>
    (\<forall>m \<in> set (t_models d). model_is_serving d (md_id m) \<longrightarrow> md_status m = ''deployed'')"
proof -
  have i: "lifecycle_inv d" using history_inv [OF assms empty_inv] .
  have "md_status m = ''deployed''" if "m \<in> set (t_models d)" "model_is_serving d (md_id m)" for m
    using i that unfolding lifecycle_inv_def model_is_serving_def list_ex_iff by blast
  with i show ?thesis by (simp add: heal_nothing)
qed

text \<open>C24: Tenants are isolated: no request of one user changes a model, a deployment or an API key of
  another, in any state the system can be in; that a deletion of a model or a deployment reaches only
  the user's own rows rests on the invariant of the history.\<close>

theorem tenants_are_isolated:
  assumes "history hash pl empty_db d" "lifecycle_step hash pl (Some u) d d'" "v \<noteq> u"
  shows "tenant v d' = tenant v d"
  using step_tenant [OF assms(2) history_inv [OF assms(1) empty_inv] assms(3)] .

text \<open>Deleting is two commits, and a creation between them is lost: when a new deployment of the
  model is committed after the deletion found none remaining and before it clears the flags, the model
  ends as a draft that is not deployed while its deployment serves, and the reconciler does not repair it.\<close>

theorem delete_race:
  assumes "lifecycle_inv d" "delete_rows u i d = Inr (d1, k)" "none_remaining k d1"
    "create_commit base now token u k body d1 = Inr (d2, j)"
  shows "(\<exists>x \<in> set (t_deployments (clear_deployed k d2)). dp_id x = j \<and> dp_model x = k \<and> dp_status x = cr_status body) \<and>
    (\<exists>m \<in> set (t_models (clear_deployed k d2)). md_id m = k \<and> \<not> md_is_deployed m \<and> md_status m = ''draft'') \<and>
    \<not> lifecycle_inv (fst (reconcile_deploy_status (clear_deployed k d2)))"
proof -
  have x: "\<exists>x \<in> set (t_deployments d2). dp_id x = j \<and> dp_model x = k \<and> dp_status x = cr_status body"
    using assms(4) by (auto simp: create_commit_def bind_result_Inr Let_def split: if_splits)
  obtain m where m: "m \<in> set (t_models d1)" "md_id m = k" using assms(4)
    by (auto simp: create_commit_def bind_result_Inr dest: owned_modelD)
  have t: "t_models d2 = upd_where (\<lambda>m. md_id m = k) (\<lambda>m. m\<lparr>md_is_deployed := True, md_status := ''deployed''\<rparr>) (t_models d1)"
    using assms(4) by (rule create_commitD) simp
  have m': "\<exists>m \<in> set (t_models (clear_deployed k d2)). md_id m = k \<and> \<not> md_is_deployed m \<and> md_status m = ''draft''"
    using m unfolding clear_deployed_def t_models_upd_model t upd_where_bex by (intro bexI [of _ m]) auto
  then obtain m2 where m2: "m2 \<in> set (t_models (clear_deployed k d2))" "md_id m2 = k" "\<not> md_is_deployed m2" by blast
  then have "m2 \<in> set (t_models (fst (reconcile_deploy_status (clear_deployed k d2))))"
    by (auto simp: reconcile_deploy_status_def Let_def set_upd_where image_iff intro!: bexI [of _ m2])
  moreover have "t_deployments (fst (reconcile_deploy_status (clear_deployed k d2))) = t_deployments d2"
    by (simp add: reconcile_deploy_status_def clear_deployed_def Let_def)
  ultimately have "\<not> lifecycle_inv (fst (reconcile_deploy_status (clear_deployed k d2)))"
    using x m2 unfolding lifecycle_inv_def by metis
  with x m' show ?thesis by (simp add: clear_deployed_def)
qed

section \<open>Concrete histories\<close>

definition demo_settings :: settings where
  "demo_settings = \<lparr>st_fast = True, st_pareto_trials = 40, st_job_timeout = 600\<rparr>"

definition upload_of :: "string \<Rightarrow> string \<Rightarrow> db \<Rightarrow> db" where
  "upload_of token u d = fst (start_ingestion demo_settings ''t'' token u ''net.onnx'' None d)"

lemma upload_models:
  "map md_id (t_models (upload_of token u d)) = map md_id (t_models d) @ [''m_uploaded_'' @ token]"
  "t_deployments (upload_of token u d) = t_deployments d"
  by (simp_all add: upload_of_def start_ingestion_def Let_def add_activity_def split: prod.split)

lemma upload_step:
  "(''m_uploaded_'' @ token) \<notin> set (map md_id (t_models d)) \<Longrightarrow>
   lifecycle_step hash pl (Some u) d (upload_of token u d)"
  unfolding upload_of_def by (rule upload) (force simp: get_model_row_def find_None_iff)

lemma demo_history: "history (\<lambda>s. s) failing_pipeline empty_db (upload_of ''1'' ''u'' empty_db)"
  unfolding history_def
  by (rule r_into_rtranclp, rule exI, rule upload_step) (simp add: empty_db_def)

theorem badge_tracks_deployments_witness:
  "lifecycle_inv (upload_of ''1'' ''u'' empty_db) \<and> t_models (upload_of ''1'' ''u'' empty_db) \<noteq> []"
  using badge_tracks_deployments [OF demo_history] upload_models(1) [of "''1''" "''u''" empty_db] by auto

theorem tenants_are_isolated_witness:
  "tenant ''u'' (upload_of ''2'' ''w'' (upload_of ''1'' ''u'' empty_db)) = tenant ''u'' (upload_of ''1'' ''u'' empty_db)"
  by (rule tenants_are_isolated [OF demo_history upload_step]) (simp_all add: upload_models empty_db_def)

theorem delete_race_witness:
  "\<exists>d2 j. create_commit '''' ''t2'' ''2'' ''u'' ''m'' demo_request
       (deployed_db\<lparr>t_deployments := [], t_keys := [demo_key\<lparr>ak_revoked := True\<rparr>]\<rparr>) = Inr (d2, j) \<and>
     \<not> lifecycle_inv (fst (reconcile_deploy_status (clear_deployed ''m'' d2)))"
proof -
  let ?d1 = "deployed_db\<lparr>t_deployments := [], t_keys := [demo_key\<lparr>ak_revoked := True\<rparr>]\<rparr>"
  have i: "lifecycle_inv deployed_db"
    by (simp add: lifecycle_inv_def deployed_db_def model_db_def demo_model_def demo_dep_def demo_key_def)
  have r: "delete_rows ''u'' ''dep_1'' deployed_db = Inr (?d1, ''m'')"
    by (simp add: delete_rows_def owned_deployment_def get_deployment_def deployed_db_def demo_dep_def demo_key_def
        revoke_deployment_keys_def upd_where_def del_where_def Let_def)
  have n: "none_remaining ''m'' ?d1" by (simp add: none_remaining_def)
  have "\<exists>d2 j. create_commit '''' ''t2'' ''2'' ''u'' ''m'' demo_request ?d1 = Inr (d2, j)"
    by (simp add: create_commit_def owned_model_def get_model_row_def deployed_db_def demo_model_def
        is_executable_def suffix_to_prefix Let_def)
  then obtain d2 j where c: "create_commit '''' ''t2'' ''2'' ''u'' ''m'' demo_request ?d1 = Inr (d2, j)" by blast
  from delete_race [OF i r n c] c show ?thesis by blast
qed

end
