(* ===== verification/Retention.thy ===== *)
theory Retention
  imports Client_Telemetry Iso_Order
begin

text \<open>
  The retention purge (\<open>app/services/retention.py\<close>): rows whose stamp is before a cutoff, by text
  comparison, are deleted from six tables.  The lemmas show when that is a comparison of times,
  that the ledger of batch ids outlives the batches it protects against, and what stamps with an
  offset do to the comparison.
\<close>

record retention_settings =
  rt_enabled :: bool
  rt_telemetry_days :: int
  rt_batch_days :: int
  rt_activity_days :: int

definition default_retention :: retention_settings where
  "default_retention = \<lparr>rt_enabled = True, rt_telemetry_days = 90, rt_batch_days = 35, rt_activity_days = 180\<rparr>"

text \<open>The second component counts the rows deleted per table; it is empty when retention is off.
  The rollback after a database error leaves the database as it was and has no branch here.\<close>

definition purge_expired :: "retention_settings \<Rightarrow> instant \<Rightarrow> db \<Rightarrow> db \<times> (string \<times> nat) list" where
  "purge_expired s now d =
     (if \<not> rt_enabled s then (d, [])
      else let tel_cut = iso (now - rt_telemetry_days s * DAY);
               pb_cut = iso (now - rt_batch_days s * DAY);
               act_cut = iso (now - rt_activity_days s * DAY);
               d1 = d\<lparr>t_events := del_where (\<lambda>e. ev_ts e < tel_cut) (t_events d),
                      t_snapshots := del_where (\<lambda>x. sn_ts x < tel_cut) (t_snapshots d),
                      t_windows := del_where (\<lambda>w. wn_start w < tel_cut) (t_windows d),
                      t_batches := del_where (\<lambda>b. ba_received b < pb_cut) (t_batches d),
                      t_alerts := del_where (\<lambda>a. al_at a < act_cut) (t_alerts d),
                      t_activities := del_where (\<lambda>a. ac_timestamp a < act_cut) (t_activities d)\<rparr>
           in (d1, [(''inference_events'', length (t_events d) - length (t_events d1)),
                    (''telemetry_snapshots'', length (t_snapshots d) - length (t_snapshots d1)),
                    (''telemetry_window_stats'', length (t_windows d) - length (t_windows d1)),
                    (''processed_batches'', length (t_batches d) - length (t_batches d1)),
                    (''alerts'', length (t_alerts d) - length (t_alerts d1)),
                    (''activity_events'', length (t_activities d) - length (t_activities d1))]))"

lemma del_where_stamps:
  assumes "\<forall>r \<in> set rows. \<exists>t. stamp r = iso t \<and> in_range t" "in_range cutoff"
  shows "del_where (\<lambda>r. stamp r < iso cutoff) rows = filter (\<lambda>r. \<exists>t. stamp r = iso t \<and> in_range t \<and> cutoff div 1000 \<le> t div 1000) rows"
  unfolding del_where_def
proof (rule filter_cong [OF refl])
  fix r assume "r \<in> set rows"
  with assms(1) obtain t where t: "stamp r = iso t" "in_range t" by blast
  have "cutoff div 1000 \<le> t' div 1000 \<longleftrightarrow> \<not> iso t' < iso cutoff" if "in_range t'" for t'
    using iso_order_iff [OF that assms(2)] by auto
  with t show "(\<not> stamp r < iso cutoff) = (\<exists>t. stamp r = iso t \<and> in_range t \<and> cutoff div 1000 \<le> t div 1000)"
    by auto
qed

text \<open>With stamps the server wrote, the purge deletes exactly the rows older than the horizon:
  when every event's stamp is an \<open>iso\<close> text, an event survives if and only if its time is not before
  the cutoff, and the rows of models, deployments and keys are untouched.\<close>

theorem purge_is_chronological:
  assumes "rt_enabled s" "in_range (now - rt_telemetry_days s * DAY)"
    "\<forall>e \<in> set (t_events d). \<exists>t. ev_ts e = iso t \<and> in_range t"
  shows "t_events (fst (purge_expired s now d))
      = filter (\<lambda>e. \<exists>t. ev_ts e = iso t \<and> in_range t \<and> (now - rt_telemetry_days s * DAY) div 1000 \<le> t div 1000) (t_events d) \<and>
    t_models (fst (purge_expired s now d)) = t_models d \<and> t_deployments (fst (purge_expired s now d)) = t_deployments d \<and>
    t_keys (fst (purge_expired s now d)) = t_keys d"
  using assms del_where_stamps [of "t_events d" ev_ts "now - rt_telemetry_days s * DAY"]
  by (simp add: purge_expired_def Let_def)

text \<open>C16: Forgetting a batch id is safe: once the purge has dropped a batch from the ledger, no item
  that was accepted when the batch was first received is accepted when the batch is sent again, as long
  as the ledger is kept more than thirty days longer than a few minutes; the default is thirty-five.\<close>

theorem ledger_outlives_clamp:
  assumes "rt_enabled s" "31 \<le> rt_batch_days s" "row \<in> set (t_batches d)" "ba_received row = iso r"
    "row \<notin> set (t_batches (fst (purge_expired s p d)))"
    and "in_range r" "in_range (p - rt_batch_days s * DAY)" "p \<le> now" "valid_ts r ts"
  shows "\<not> valid_ts now ts"
proof -
  have "iso r < iso (p - rt_batch_days s * DAY)"
    using assms(1,3-5) by (auto simp: purge_expired_def Let_def)
  then have "r div 1000 < (p - rt_batch_days s * DAY) div 1000"
    using iso_order_iff [OF assms(6,7)] by simp
  then have lt: "r < p - rt_batch_days s * DAY" using zdiv_mono1 [of "p - rt_batch_days s * DAY" r 1000] by linarith
  have days: "31 * DAY \<le> rt_batch_days s * DAY" using assms(2) by (intro mult_right_mono) (simp_all add: less_imp_le)
  obtain t where t: "parse_z ts = Some t" "t \<le> r + FUTURE_CLAMP" using assms(9) by (auto simp: valid_ts_def split: option.splits)
  have "t < now - PAST_CLAMP"
    using t(2) lt days assms(8) by (simp add: PAST_CLAMP_def FUTURE_CLAMP_def DAY_def MINUTE_def SECOND_def)
  with t(1) show ?thesis by (simp add: valid_ts_def)
qed

text \<open>A stamp with an offset is accepted and stored as the device sent it.\<close>

definition offset_ts :: string where "offset_ts = ''1970-05-01T00:00:00-12:00''"

text \<open>Text order is not time order for such a stamp: a request recorded at 12:00 UTC as 00:00 with
  the offset -12:00 is accepted, and ninety days later it is deleted six hours before its horizon,
  because the text of its local time is compared with the UTC text of the cutoff.\<close>

theorem offset_stamp_is_purged_early:
  "valid_ts (121 * DAY) offset_ts \<and> parse_z offset_ts = Some (120 * DAY + 12 * 60 * MINUTE) \<and>
   (120 * DAY + 6 * 60 * MINUTE + rt_telemetry_days default_retention * DAY) - rt_telemetry_days default_retention * DAY
     < 120 * DAY + 12 * 60 * MINUTE \<and>
   t_events (fst (purge_expired default_retention (120 * DAY + 6 * 60 * MINUTE + rt_telemetry_days default_retention * DAY)
     (empty_db\<lparr>t_events := [e\<lparr>ev_ts := offset_ts\<rparr>]\<rparr>))) = []"
proof -
  have p: "parse_z offset_ts = Some (120 * DAY + 12 * 60 * MINUTE)" by code_simp
  have v: "valid_ts (121 * DAY) offset_ts" by code_simp
  have c: "offset_ts < iso (120 * DAY + 6 * 60 * MINUTE)" by code_simp
  have n: "120 * DAY + 6 * 60 * MINUTE + rt_telemetry_days default_retention * DAY - rt_telemetry_days default_retention * DAY
      = 120 * DAY + 6 * 60 * MINUTE" by simp
  have en: "rt_enabled default_retention" by (simp add: default_retention_def)
  have "t_events (fst (purge_expired default_retention (120 * DAY + 6 * 60 * MINUTE + rt_telemetry_days default_retention * DAY)
     (empty_db\<lparr>t_events := [e\<lparr>ev_ts := offset_ts\<rparr>]\<rparr>))) = []"
    using c en unfolding purge_expired_def Let_def n by (simp add: del_where_def)
  with p v show ?thesis unfolding n by (simp add: MINUTE_def SECOND_def)
qed

definition stamped_db :: db where
  "stamped_db = empty_db\<lparr>t_events := [\<lparr>ev_user = ''u'', ev_model = ''m'', ev_deployment = ''dep_1'', ev_ts = iso DAY,
       ev_latency = 1, ev_success = True, ev_error = None, ev_batch_size = 1, ev_region = ''local'', ev_source = ''client'',
       ev_pre = None, ev_post = None, ev_client = None, ev_input_sig = None\<rparr>],
     t_batches := [\<lparr>ba_id = ''b1'', ba_deployment = ''dep_1'', ba_received = iso DAY, ba_events = 1, ba_snapshots = 0,
       ba_windows = 0, ba_dropped = 0\<rparr>]\<rparr>"

theorem purge_is_chronological_witness:
  "t_models (fst (purge_expired default_retention (100 * DAY) stamped_db)) = t_models stamped_db"
proof -
  have "\<forall>e \<in> set (t_events stamped_db). \<exists>t. ev_ts e = iso t \<and> in_range t"
    by (auto simp: stamped_db_def in_range_def DAY_def SECOND_def intro: exI [of _ "86400000000"])
  then show ?thesis
    using purge_is_chronological [of default_retention "100 * DAY" stamped_db]
    by (simp add: default_retention_def in_range_def less_imp_le)
qed

lemma stamped_cut: "iso DAY < iso (65 * DAY)"
  by (simp add: iso_order_iff in_range_def DAY_def SECOND_def)

theorem ledger_outlives_clamp_witness: "\<not> valid_ts (100 * DAY) ''1970-01-02T00:00:00.000Z''"
proof (rule ledger_outlives_clamp [of default_retention "hd (t_batches stamped_db)" stamped_db DAY "100 * DAY"])
  show "hd (t_batches stamped_db) \<notin> set (t_batches (fst (purge_expired default_retention (100 * DAY) stamped_db)))"
    using stamped_cut by (simp add: purge_expired_def Let_def default_retention_def stamped_db_def)
  show "valid_ts DAY ''1970-01-02T00:00:00.000Z''" by (rule demo_valid)
qed (simp_all add: default_retention_def stamped_db_def in_range_def DAY_def SECOND_def)

end
