(* ===== verification/Drift_Monitor.thy ===== *)
theory Drift_Monitor
  imports Lifecycle Iso_Roundtrip
begin

text \<open>
  The drift monitor, \<open>app/services/drift_monitor.py\<close>: live metrics and per-minute rollups from the
  events of a rolling window, the drift reference pinned in the result cache, the population stability
  index and the input shift, and the alerts with their cooldown.  A pass is a fold over the
  deployments that may raise; nothing is committed then.  The lemmas show what a rollup holds, that
  the reference stays pinned, the cooldown, and which accepted batches stop the whole pass.
\<close>

section \<open>Parameters\<close>

record monitor_settings =
  ms_window_min :: int
  ms_p95_pct :: real
  ms_error_pct :: real
  ms_psi :: real
  ms_input_z :: real

text \<open>The environment of a pass: its time, the machine's zone, the reading of a number from a text
  and the random tokens of its alerts.\<close>

record monitor_env =
  me_now :: instant
  me_zone :: "instant \<Rightarrow> instant"
  me_float :: "string \<Rightarrow> real option"
  me_token :: "nat \<Rightarrow> string"

definition ALERT_COOLDOWN :: int where "ALERT_COOLDOWN = 15 * MINUTE"
definition REF_WINDOWS :: nat where "REF_WINDOWS = 5"
definition WINDOW_FRESH :: int where "WINDOW_FRESH = 30 * MINUTE"

section \<open>Live metrics\<close>

definition baseline_p95 :: "string \<Rightarrow> db \<Rightarrow> real option" where
  "baseline_p95 model_id d =
     (case find (\<lambda>r. rc_model r = model_id \<and> rc_kind r = ''benchmark'') (t_cache d) of
        Some r \<Rightarrow> (case rc_payload r of PBenchmark _ p95 _ \<Rightarrow> p95 | _ \<Rightarrow> None)
      | None \<Rightarrow> None)"

definition benchmark_divergence :: "string \<Rightarrow> db \<Rightarrow> real" where
  "benchmark_divergence model_id d =
     (case find (\<lambda>r. rc_model r = model_id \<and> rc_kind r = ''benchmark'') (t_cache d) of
        Some r \<Rightarrow> (case rc_payload r of PBenchmark _ _ (Some a) \<Rightarrow> py_round 2 (100 - a) | _ \<Rightarrow> 0)
      | None \<Rightarrow> 0)"

definition window_events :: "string \<Rightarrow> instant \<Rightarrow> instant \<Rightarrow> db \<Rightarrow> event_row list" where
  "window_events dep_id start until d =
     filter (\<lambda>e. ev_deployment e = dep_id \<and> iso start \<le> ev_ts e \<and> ev_ts e < iso until) (t_events d)"

definition good_latencies :: "event_row list \<Rightarrow> real list" where
  "good_latencies evs = map ev_latency (filter ev_success evs)"

definition error_count :: "event_row list \<Rightarrow> nat" where
  "error_count evs = length (filter (\<lambda>e. \<not> ev_success e) evs)"

definition max_ts :: "event_row list \<Rightarrow> string option" where
  "max_ts evs = newest_ts (map ev_ts evs)"

definition rolling_p95 :: "event_row list \<Rightarrow> real" where
  "rolling_p95 evs = py_round 3 (pct_or_0 (good_latencies evs) 95)"

definition error_pct :: "event_row list \<Rightarrow> real" where
  "error_pct evs = (if evs = [] then 0 else py_round 3 (100 * of_nat (error_count evs) / of_nat (length evs)))"

definition update_live_metrics :: "monitor_settings \<Rightarrow> event_row list \<Rightarrow> deployment_row \<Rightarrow> db \<Rightarrow> db" where
  "update_live_metrics s evs dep d =
     (let win_sec = real_of_int (ms_window_min s * 60) in
      upd_deployment (dp_id dep) (\<lambda>x. x\<lparr>
        dp_qps := (if win_sec > 0 then py_round 3 (of_nat (length evs) / win_sec) else 0),
        dp_p95 := rolling_p95 evs,
        dp_errors_pct := error_pct evs,
        dp_accuracy_drift := (if evs \<noteq> [] then benchmark_divergence (dp_model dep) d else 0),
        dp_last_event := (case max_ts evs of
            Some t \<Rightarrow> if t \<noteq> '''' then Some t else dp_last_event x | None \<Rightarrow> dp_last_event x)\<rparr>) d)"

section \<open>Rollups\<close>

definition bucket_key :: "(instant \<Rightarrow> instant) \<Rightarrow> event_row \<Rightarrow> string option" where
  "bucket_key zone e =
     map_option (\<lambda>(t, off). iso (to_utc zone (t - t mod MINUTE, off))) (parse_ts (ev_ts e))"

definition rollup_of :: "string \<Rightarrow> string \<Rightarrow> event_row list \<Rightarrow> rollup_row" where
  "rollup_of dep_id bucket evs =
     \<lparr>ro_deployment = dep_id, ro_bucket = bucket, ro_count = length evs, ro_errors = error_count evs,
      ro_sum_latency = py_round 3 (sum_list (good_latencies evs)), ro_p50 = py_round 3 (pct_or_0 (good_latencies evs) 50),
      ro_p95 = py_round 3 (pct_or_0 (good_latencies evs) 95), ro_p99 = py_round 3 (pct_or_0 (good_latencies evs) 99)\<rparr>"

definition put_rollup :: "string \<Rightarrow> string \<times> event_row list \<Rightarrow> rollup_row list \<Rightarrow> rollup_row list" where
  "put_rollup dep_id b rows =
     (let hit = (\<lambda>r. ro_deployment r = dep_id \<and> ro_bucket r = fst b); new = rollup_of dep_id (fst b) (snd b)
      in if list_ex hit rows then upd_first hit (\<lambda>_. new) rows else rows @ [new])"

definition keyed_events :: "(instant \<Rightarrow> instant) \<Rightarrow> event_row list \<Rightarrow> (string \<times> event_row) list" where
  "keyed_events zone evs = List.map_filter (\<lambda>e. map_option (\<lambda>k. (k, e)) (bucket_key zone e)) evs"

definition upsert_rollups :: "(instant \<Rightarrow> instant) \<Rightarrow> event_row list \<Rightarrow> string \<Rightarrow> db \<Rightarrow> db" where
  "upsert_rollups zone evs dep_id d =
     d\<lparr>t_rollups := fold (put_rollup dep_id) (group_pairs (keyed_events zone evs)) (t_rollups d)\<rparr>"

section \<open>Alerts\<close>

definition recent_alert :: "instant \<Rightarrow> string \<Rightarrow> string \<Rightarrow> db \<Rightarrow> bool" where
  "recent_alert now model_id title d \<longleftrightarrow>
     list_ex (\<lambda>a. al_model a = model_id \<and> al_title a = title \<and> iso (now - ALERT_COOLDOWN) \<le> al_at a) (t_alerts d)"

text \<open>The state of a pass: the database and the number of alerts raised so far.\<close>

definition raise_alert :: "monitor_env \<Rightarrow> deployment_row \<Rightarrow> string \<Rightarrow> string \<Rightarrow> db \<times> nat \<Rightarrow> db \<times> nat" where
  "raise_alert env dep level title = (\<lambda>(d, n).
     if recent_alert (me_now env) (dp_model dep) title d then (d, n)
     else let token = me_token env (length (t_alerts d)) in
       (add_activity (''act_al_'' @ token) (dp_user dep) ''accuracy_drift'' (iso (me_now env))
          (add_alert (''al_'' @ token) (dp_user dep) (dp_model dep) level title (iso (me_now env)) d), n + 1))"

section \<open>Distribution drift\<close>

definition share :: "(string \<times> real) list \<Rightarrow> string \<Rightarrow> real" where
  "share d k = max (case map_of d k of Some x \<Rightarrow> x | None \<Rightarrow> 0) (1 / 10 ^ 4)"

definition psi_term :: "real \<Rightarrow> real \<Rightarrow> real" where
  "psi_term p q = (q - p) * ln (q / p)"

definition psi :: "(string \<times> real) list \<Rightarrow> (string \<times> real) list \<Rightarrow> real" where
  "psi reference current =
     sum_list (map (\<lambda>k. psi_term (share reference k) (share current k))
       (remdups (map fst reference @ map fst current)))"

text \<open>\<open>float(v)\<close> of a JSON value, and \<open>(out.get(k) or {}).items()\<close>.\<close>

definition float_of :: "(string \<Rightarrow> real option) \<Rightarrow> json \<Rightarrow> real result" where
  "float_of num j =
     (case j of
        JNum x \<Rightarrow> ok x | JBool b \<Rightarrow> ok (if b then 1 else 0)
      | JStr s \<Rightarrow> (case num s of Some x \<Rightarrow> ok x | None \<Rightarrow> raise (ValueError ''could not convert string to float''))
      | _ \<Rightarrow> raise TypeError)"

fun falsy :: "json \<Rightarrow> bool" where
  "falsy JNull = True" | "falsy (JBool b) = (\<not> b)" | "falsy (JNum x) = (x = 0)" | "falsy (JStr s) = (s = '''')"
| "falsy (JList js) = (js = [])" | "falsy (JObj kvs) = (kvs = [])"

definition items_of :: "string \<Rightarrow> (string \<times> json) list \<Rightarrow> (string \<times> json) list result" where
  "items_of k obj =
     (case map_of obj k of
        None \<Rightarrow> ok []
      | Some j \<Rightarrow> if falsy j then ok [] else (case j of JObj kvs \<Rightarrow> ok kvs | _ \<Rightarrow> raise AttributeError))"

definition class_dist :: "(string \<Rightarrow> real option) \<Rightarrow> (string \<times> json) list \<Rightarrow> (string \<times> real) list result" where
  "class_dist num out =
     bind_result (items_of ''classDist'' out)
       (mapM_result (\<lambda>(k, j). bind_result (float_of num j) (\<lambda>x. ok (k, x))))"

text \<open>The reference over the earliest windows; those whose columns do not parse are skipped.\<close>

definition reference_windows :: "window_row list \<Rightarrow> ((string \<times> json) list \<times> (string \<times> window_stat) list) list" where
  "reference_windows ws =
     List.map_filter (\<lambda>w. case (wn_output w, wn_inputs w) of (Some out, Some ins) \<Rightarrow> Some (out, ins) | _ \<Rightarrow> None) ws"

definition drift_reference_of :: "(string \<Rightarrow> real option) \<Rightarrow> window_row list \<Rightarrow> drift_ref result" where
  "drift_reference_of num ref_windows =
     bind_result (mapM_result (\<lambda>(out, _). class_dist num out) (reference_windows ref_windows)) (\<lambda>dists.
       let inputs = group_pairs (concat (map snd (reference_windows ref_windows)))
       in ok \<lparr>df_class_dist = map (\<lambda>(k, v). (k, sum_list v / of_nat (max 1 (length ref_windows)))) (group_pairs (concat dists)),
              df_inputs = map (\<lambda>(k, v). (k, \<lparr>is_mean = mean (map is_mean v), is_std = mean (map is_std v)\<rparr>)) inputs,
              df_windows = length ref_windows\<rparr>)"

definition ref_kind :: "string \<Rightarrow> string" where "ref_kind dep_id = ''drift_ref_'' @ dep_id"

definition cached_reference :: "deployment_row \<Rightarrow> db \<Rightarrow> payload option" where
  "cached_reference dep d =
     map_option rc_payload (find (\<lambda>r. rc_model r = dp_model dep \<and> rc_kind r = ref_kind (dp_id dep)) (t_cache d))"

definition drift_reference ::
  "(string \<Rightarrow> real option) \<Rightarrow> deployment_row \<Rightarrow> window_row list \<Rightarrow> db \<Rightarrow> (db \<times> drift_ref option) result" where
  "drift_reference num dep windows d =
     (case cached_reference dep d of
        Some p \<Rightarrow> ok (d, case p of PDriftRef r \<Rightarrow> Some r | _ \<Rightarrow> None)
      | None \<Rightarrow>
          if length windows < REF_WINDOWS then ok (d, None)
          else bind_result (drift_reference_of num (take REF_WINDOWS windows)) (\<lambda>r.
            ok (d\<lparr>t_cache := t_cache d @ [\<lparr>rc_user = dp_user dep, rc_model = dp_model dep,
                     rc_kind = ref_kind (dp_id dep), rc_payload = PDriftRef r\<rparr>]\<rparr>, Some r)))"

definition prediction_check ::
  "monitor_settings \<Rightarrow> monitor_env \<Rightarrow> deployment_row \<Rightarrow> drift_ref \<Rightarrow> (string \<times> real) list \<Rightarrow> db \<times> nat \<Rightarrow> db \<times> nat" where
  "prediction_check s env dep r current st =
     (if current \<noteq> [] \<and> df_class_dist r \<noteq> [] then
        let v = psi (df_class_dist r) current in
        if v > ms_psi s then raise_alert env dep (if v > 2 * ms_psi s then ''danger'' else ''warning'') ''prediction drift'' st
        else st
      else st)"

definition shifted :: "monitor_settings \<Rightarrow> drift_ref \<Rightarrow> string \<times> window_stat \<Rightarrow> bool" where
  "shifted s r = (\<lambda>(name, stat). case map_of (df_inputs r) name of
      None \<Rightarrow> False
    | Some ref_stat \<Rightarrow> \<bar>is_mean stat - is_mean ref_stat\<bar> / max (is_std ref_stat) (1 / 10 ^ 6) > ms_input_z s)"

definition client_drift_checks ::
  "monitor_settings \<Rightarrow> monitor_env \<Rightarrow> deployment_row \<Rightarrow> db \<times> nat \<Rightarrow> (db \<times> nat) result" where
  "client_drift_checks s env dep st =
     (let d = fst st; windows = sort_key wn_start (filter (\<lambda>w. wn_deployment w = dp_id dep) (t_windows d)) in
      if length windows \<le> REF_WINDOWS then ok st
      else bind_result (drift_reference (me_float env) dep windows d) (\<lambda>(d1, ref).
        case ref of
          None \<Rightarrow> ok (d1, snd st)
        | Some r \<Rightarrow>
            let latest = last windows in
            (case parse_ts (wn_start latest) of
               None \<Rightarrow> ok (d1, snd st)
             | Some started \<Rightarrow> bind_result (since (me_now env) started) (\<lambda>age.
                 if age > WINDOW_FRESH then ok (d1, snd st)
                 else (case (wn_output latest, wn_inputs latest) of
                     (Some out, Some ins) \<Rightarrow>
                       bind_result (class_dist (me_float env) out) (\<lambda>current.
                         let st2 = prediction_check s env dep r current (d1, snd st)
                         in ok (if list_ex (shifted s r) ins
                                then raise_alert env dep ''warning'' ''input distribution shift'' st2 else st2))
                   | _ \<Rightarrow> ok (d1, snd st))))))"

section \<open>A pass\<close>

definition p95_check ::
  "monitor_settings \<Rightarrow> monitor_env \<Rightarrow> deployment_row \<Rightarrow> event_row list \<Rightarrow> db \<times> nat \<Rightarrow> db \<times> nat" where
  "p95_check s env dep evs st =
     (case baseline_p95 (dp_model dep) (fst st) of
        Some base \<Rightarrow> if base > 0 \<and> rolling_p95 evs > base * (1 + ms_p95_pct s / 100)
                     then raise_alert env dep ''warning'' ''p95 latency spike'' st else st
      | None \<Rightarrow> st)"

definition error_check ::
  "monitor_settings \<Rightarrow> monitor_env \<Rightarrow> deployment_row \<Rightarrow> event_row list \<Rightarrow> db \<times> nat \<Rightarrow> db \<times> nat" where
  "error_check s env dep evs st =
     (if error_pct evs > ms_error_pct s then raise_alert env dep ''danger'' ''5xx error spike'' st else st)"

definition monitor_deployment ::
  "monitor_settings \<Rightarrow> monitor_env \<Rightarrow> deployment_row \<Rightarrow> db \<times> nat \<Rightarrow> (db \<times> nat) result" where
  "monitor_deployment s env dep st =
     (let d = fst st; evs = window_events (dp_id dep) (me_now env - ms_window_min s * MINUTE) (me_now env) d;
          d1 = upsert_rollups (me_zone env) evs (dp_id dep) (update_live_metrics s evs dep d)
      in if dp_status dep = ''paused'' then ok (d1, snd st)
         else bind_result (client_drift_checks s env dep (d1, snd st)) (\<lambda>st2.
           ok (if evs = [] then st2 else error_check s env dep evs (p95_check s env dep evs st2))))"

fun monitor_all ::
  "monitor_settings \<Rightarrow> monitor_env \<Rightarrow> deployment_row list \<Rightarrow> db \<times> nat \<Rightarrow> (db \<times> nat) result" where
  "monitor_all s env [] st = ok st"
| "monitor_all s env (dep # deps) st = bind_result (monitor_deployment s env dep st) (monitor_all s env deps)"

text \<open>The commit is at the end: a pass that raises leaves the database as it was.\<close>

definition drift_monitor_pass :: "monitor_settings \<Rightarrow> monitor_env \<Rightarrow> db \<Rightarrow> db \<times> (nat \<times> nat) result" where
  "drift_monitor_pass s env d =
     (case monitor_all s env (t_deployments d) (d, 0) of
        Inl e \<Rightarrow> (d, raise e)
      | Inr (d', n) \<Rightarrow> (d', ok (length (t_deployments d), n)))"

section \<open>The stability index\<close>

lemma psi_term_nonneg: "0 < p \<Longrightarrow> 0 < q \<Longrightarrow> 0 \<le> psi_term p q \<and> (psi_term p q = 0 \<longleftrightarrow> p = q)"
proof -
  assume p: "0 < p" "0 < q"
  consider "p < q" | "p = q" | "q < p" by linarith
  then show ?thesis
  proof cases
    case 1 with p show ?thesis by (auto simp: psi_term_def ln_div intro: mult_nonneg_nonneg)
  next
    case 3
    with p have "ln (q / p) < 0" by (simp add: ln_div)
    with 3 have "0 < psi_term p q" unfolding psi_term_def by (intro mult_neg_neg) auto
    with 3 show ?thesis by simp
  qed (use p in \<open>simp add: psi_term_def\<close>)
qed

lemma share_pos: "0 < share d k"
  by (simp add: share_def less_max_iff_disj)

lemma psi_term_sym: "0 < p \<Longrightarrow> 0 < q \<Longrightarrow> psi_term p q = psi_term q p"
  by (simp add: psi_term_def ln_div algebra_simps)

lemma psi_sum: "psi r c = (\<Sum>k \<in> fst ` set r \<union> fst ` set c. psi_term (share r k) (share c k))"
  by (simp add: psi_def sum_list_distinct_conv_sum_set)

lemma share_outside: "k \<notin> fst ` set d \<Longrightarrow> share d k = 1 / 10 ^ 4"
  by (simp add: share_def map_of_eq_None_iff [symmetric])

text \<open>The population stability index is a distance between distributions: never negative,
  symmetric, and zero exactly when the two give every class the same share after the floor of 0.0001.\<close>

theorem psi_is_a_divergence:
  "0 \<le> psi r c \<and> psi r c = psi c r \<and> (psi r c = 0 \<longleftrightarrow> share r = share c)"
proof -
  let ?K = "fst ` set r \<union> fst ` set c"
  have pos: "0 \<le> psi_term (share r k) (share c k)" and zero: "psi_term (share r k) (share c k) = 0 \<longleftrightarrow> share r k = share c k" for k
    using psi_term_nonneg [OF share_pos share_pos] by blast+
  have "psi r c = 0 \<longleftrightarrow> (\<forall>k \<in> ?K. share r k = share c k)"
    unfolding psi_sum using pos zero by (subst sum_nonneg_eq_0_iff) auto
  also have "\<dots> \<longleftrightarrow> share r = share c"
  proof
    assume a: "\<forall>k \<in> ?K. share r k = share c k"
    have "share r k = share c k" for k
      by (cases "k \<in> ?K") (use a share_outside [of k r] share_outside [of k c] in auto)
    then show "share r = share c" by auto
  qed simp
  finally show ?thesis
    using pos by (simp add: psi_sum sum_nonneg psi_term_sym [OF share_pos share_pos, of r] Un_commute)
qed

section \<open>Rollups\<close>

definition rollup_key :: "rollup_row \<Rightarrow> string \<times> string" where
  "rollup_key r = (ro_deployment r, ro_bucket r)"

definition find_rollup :: "string \<Rightarrow> string \<Rightarrow> rollup_row list \<Rightarrow> rollup_row option" where
  "find_rollup dep_id b rows = find (\<lambda>r. ro_deployment r = dep_id \<and> ro_bucket r = b) rows"

definition minute_events :: "(instant \<Rightarrow> instant) \<Rightarrow> string \<Rightarrow> event_row list \<Rightarrow> event_row list" where
  "minute_events zone b evs = filter (\<lambda>e. bucket_key zone e = Some b) evs"

lemma find_upd_first_same: "p x \<Longrightarrow> list_ex p rs \<Longrightarrow> find p (upd_first p (\<lambda>_. x) rs) = Some x"
  by (induction rs) auto

lemma find_upd_first_other:
  "\<not> q x \<Longrightarrow> (\<And>r. p r \<Longrightarrow> \<not> q r) \<Longrightarrow> find q (upd_first p (\<lambda>_. x) rs) = find q rs"
  by (induction rs) auto

lemma find_put_rollup:
  "find_rollup i k (put_rollup dep_id b rows) =
     (if i = dep_id \<and> k = fst b then Some (rollup_of dep_id (fst b) (snd b)) else find_rollup i k rows)"
proof -
  let ?new = "rollup_of dep_id (fst b) (snd b)"
  let ?hit = "\<lambda>r. ro_deployment r = dep_id \<and> ro_bucket r = fst b"
  have new: "ro_deployment ?new = dep_id" "ro_bucket ?new = fst b" by (simp_all add: rollup_of_def)
  have none: "find ?hit rows = None" if "\<not> list_ex ?hit rows" using that by (auto simp: find_None_iff list_ex_iff)
  show ?thesis
  proof (cases "i = dep_id \<and> k = fst b")
    case True
    then show ?thesis using new none find_upd_first_same [of ?hit ?new rows]
      by (auto simp: find_rollup_def put_rollup_def Let_def find_append)
  next
    case False
    have "find (\<lambda>r. ro_deployment r = i \<and> ro_bucket r = k) (upd_first ?hit (\<lambda>_. ?new) rows)
        = find (\<lambda>r. ro_deployment r = i \<and> ro_bucket r = k) rows"
      by (rule find_upd_first_other) (use False new in auto)
    with False new show ?thesis
      by (auto simp: find_rollup_def put_rollup_def Let_def find_append split: option.split)
  qed
qed

lemma put_rollup_distinct:
  "distinct (map rollup_key rows) \<Longrightarrow> distinct (map rollup_key (put_rollup dep_id b rows))"
proof -
  assume d: "distinct (map rollup_key rows)"
  let ?hit = "\<lambda>r. ro_deployment r = dep_id \<and> ro_bucket r = fst b"
  have "map rollup_key (upd_first ?hit (\<lambda>_. rollup_of dep_id (fst b) (snd b)) rows) = map rollup_key rows"
    by (induction rows) (auto simp: rollup_key_def rollup_of_def)
  moreover have "(dep_id, fst b) \<notin> rollup_key ` set rows" if "\<not> list_ex ?hit rows"
    using that by (auto simp: list_ex_iff rollup_key_def)
  ultimately show ?thesis using d by (auto simp: put_rollup_def Let_def rollup_of_def rollup_key_def)
qed

lemma find_fold_put_rollup:
  "distinct (map fst bs) \<Longrightarrow> find_rollup i k (fold (put_rollup dep_id) bs rows) =
     (if i = dep_id then (case map_of bs k of Some evs \<Rightarrow> Some (rollup_of dep_id k evs) | None \<Rightarrow> find_rollup i k rows)
      else find_rollup i k rows)"
proof (induction bs arbitrary: rows)
  case (Cons b bs)
  obtain k' evs' where b: "b = (k', evs')" by force
  have "map_of bs k' = None" using Cons.prems by (simp add: b map_of_eq_None_iff)
  moreover have "distinct (map fst bs)" using Cons.prems by simp
  ultimately show ?case by (auto simp: Cons.IH find_put_rollup b split: option.split)
qed simp

lemma keyed_minute:
  "map snd (filter (\<lambda>kv. fst kv = b) (keyed_events zone evs)) = minute_events zone b evs"
  by (induction evs) (auto simp: keyed_events_def minute_events_def map_filter_simps split: option.split)

lemma find_upsert_rollups:
  "find_rollup i b (t_rollups (upsert_rollups zone evs dep_id d)) =
     (if i = dep_id \<and> minute_events zone b evs \<noteq> [] then Some (rollup_of dep_id b (minute_events zone b evs))
      else find_rollup i b (t_rollups d))"
  by (simp add: upsert_rollups_def find_fold_put_rollup distinct_group_pairs map_of_group_pairs keyed_minute Let_def)

lemma upsert_rollups_distinct:
  "distinct (map rollup_key (t_rollups d)) \<Longrightarrow> distinct (map rollup_key (t_rollups (upsert_rollups zone evs dep_id d)))"
proof -
  have "distinct (map rollup_key rows) \<Longrightarrow> distinct (map rollup_key (fold (put_rollup dep_id) bs rows))" for bs rows
    by (induction bs arbitrary: rows) (auto intro: put_rollup_distinct)
  then show "distinct (map rollup_key (t_rollups d)) \<Longrightarrow> ?thesis" by (simp add: upsert_rollups_def)
qed

text \<open>What a rollup holds after the monitor has seen a window's events: for every minute with an
  event of the window, exactly the aggregate of those events of the minute; every other rollup is as it
  was; no two rows share a deployment and a minute; and seeing the same events again changes no row.\<close>

theorem rollups_hold_the_window:
  assumes "distinct (map rollup_key (t_rollups d))"
  shows "(\<forall>b. minute_events zone b evs \<noteq> [] \<longrightarrow>
      find_rollup dep_id b (t_rollups (upsert_rollups zone evs dep_id d)) = Some (rollup_of dep_id b (minute_events zone b evs))) \<and>
    (\<forall>i b. i \<noteq> dep_id \<or> minute_events zone b evs = [] \<longrightarrow>
      find_rollup i b (t_rollups (upsert_rollups zone evs dep_id d)) = find_rollup i b (t_rollups d)) \<and>
    distinct (map rollup_key (t_rollups (upsert_rollups zone evs dep_id d))) \<and>
    (\<forall>i b. find_rollup i b (t_rollups (upsert_rollups zone evs dep_id (upsert_rollups zone evs dep_id d)))
      = find_rollup i b (t_rollups (upsert_rollups zone evs dep_id d)))"
  using upsert_rollups_distinct [OF assms] by (simp add: find_upsert_rollups)

text \<open>A rollup loses requests: when the window of a pass starts inside a minute the deployment had
  requests in before and after that start, the pass overwrites the minute's rollup with the later
  requests only, so the stored count falls below the number of requests of that minute in the database.\<close>

theorem rollup_forgets_the_first_minute:
  assumes "start = me_now env - ms_window_min s * MINUTE"
    and e: "e \<in> set (t_events d)" "ev_deployment e = dep_id" "bucket_key (me_zone env) e = Some b" "ev_ts e < iso start"
    and e': "e' \<in> set (window_events dep_id start (me_now env) d)" "bucket_key (me_zone env) e' = Some b"
  shows "\<exists>r. find_rollup dep_id b (t_rollups (upsert_rollups (me_zone env) (window_events dep_id start (me_now env) d) dep_id d)) = Some r \<and>
    ro_count r < length (filter (\<lambda>x. ev_deployment x = dep_id \<and> bucket_key (me_zone env) x = Some b) (t_events d))"
proof -
  let ?in = "\<lambda>x. ev_deployment x = dep_id \<and> bucket_key (me_zone env) x = Some b"
  let ?w = "\<lambda>x. iso start \<le> ev_ts x \<and> ev_ts x < iso (me_now env)"
  have m: "minute_events (me_zone env) b (window_events dep_id start (me_now env) d) = filter ?w (filter ?in (t_events d))"
    by (auto simp: minute_events_def window_events_def intro: filter_cong)
  have ne: "minute_events (me_zone env) b (window_events dep_id start (me_now env) d) \<noteq> []"
    using e' by (auto simp: minute_events_def filter_empty_conv)
  have "\<not> ?w e" "e \<in> set (filter ?in (t_events d))" using e by auto
  then have "length (filter ?w (filter ?in (t_events d))) < length (filter ?in (t_events d))"
    by (rule length_filter_less [rotated])
  with ne show ?thesis by (simp add: find_upsert_rollups m rollup_of_def)
qed

section \<open>Alerts and their cooldown\<close>

lemma raise_alert_frame [simp]:
  "t_cache (fst (raise_alert env dep lv ti st)) = t_cache (fst st)"
  "t_windows (fst (raise_alert env dep lv ti st)) = t_windows (fst st)"
  "t_events (fst (raise_alert env dep lv ti st)) = t_events (fst st)"
  "t_rollups (fst (raise_alert env dep lv ti st)) = t_rollups (fst st)"
  by (cases st; simp add: raise_alert_def Let_def add_alert_def add_activity_def)+

text \<open>C26: One incident is one alert: the monitor adds an alert only when every alert of the same model
  and title that it wrote before is at least the cooldown of fifteen minutes older, to the millisecond;
  otherwise it changes nothing.\<close>

theorem alert_cooldown:
  assumes "raise_alert env dep level title (d, n) = (d', n')"
    "in_range (me_now env - ALERT_COOLDOWN)"
  shows "(d' = d \<and> n' = n) \<or>
    (n' = n + 1 \<and> (\<exists>a. t_alerts d' = t_alerts d @ [a] \<and> al_at a = iso (me_now env) \<and> al_title a = title \<and>
        al_model a = dp_model dep \<and> al_user a = dp_user dep) \<and>
     (\<forall>a \<in> set (t_alerts d). \<forall>t. al_model a = dp_model dep \<and> al_title a = title \<and> al_at a = iso t \<and> in_range t
        \<longrightarrow> t div 1000 < (me_now env - ALERT_COOLDOWN) div 1000))"
proof (cases "recent_alert (me_now env) (dp_model dep) title d")
  case True then show ?thesis using assms(1) by (simp add: raise_alert_def)
next
  case False
  have "t div 1000 < (me_now env - ALERT_COOLDOWN) div 1000"
    if "a \<in> set (t_alerts d)" "al_model a = dp_model dep" "al_title a = title" "al_at a = iso t" "in_range t" for a t
  proof -
    have "al_at a < iso (me_now env - ALERT_COOLDOWN)" using False that by (force simp: recent_alert_def list_ex_iff)
    then show ?thesis unfolding that(4) using iso_order_iff [OF that(5) assms(2)] by simp
  qed
  moreover from False assms(1) have "n' = n + 1" "\<exists>a. t_alerts d' = t_alerts d @ [a] \<and> al_at a = iso (me_now env) \<and>
      al_title a = title \<and> al_model a = dp_model dep \<and> al_user a = dp_user dep"
    by (auto simp: raise_alert_def Let_def add_alert_def add_activity_def)
  ultimately show ?thesis by blast
qed

section \<open>What a pass keeps\<close>

definition reference_kept :: "db \<Rightarrow> db \<Rightarrow> bool" where
  "reference_kept d d' \<longleftrightarrow> t_windows d' = t_windows d \<and> t_events d' = t_events d \<and>
     (\<exists>new. t_cache d' = t_cache d @ new \<and>
        (\<forall>r \<in> set new. \<exists>x. rc_kind r = ref_kind (dp_id x) \<and> rc_model r = dp_model x \<and> cached_reference x d = None))"

lemma cached_reference_append:
  "t_cache d' = t_cache d @ new \<Longrightarrow> cached_reference x d' = (case cached_reference x d of
     Some p \<Rightarrow> Some p | None \<Rightarrow> map_option rc_payload (find (\<lambda>r. rc_model r = dp_model x \<and> rc_kind r = ref_kind (dp_id x)) new))"
  by (simp add: cached_reference_def find_append split: option.split)

lemma reference_kept_Some: "reference_kept d d' \<Longrightarrow> cached_reference x d = Some p \<Longrightarrow> cached_reference x d' = Some p"
  by (auto simp: reference_kept_def cached_reference_append)

lemma reference_kept_None: "reference_kept d d' \<Longrightarrow> cached_reference x d' = None \<Longrightarrow> cached_reference x d = None"
  by (auto simp: reference_kept_def cached_reference_append split: option.splits)

lemma reference_kept_refl: "t_windows d' = t_windows d \<Longrightarrow> t_events d' = t_events d \<Longrightarrow> t_cache d' = t_cache d \<Longrightarrow> reference_kept d d'"
  by (simp add: reference_kept_def)

lemma reference_kept_trans: "reference_kept d d' \<Longrightarrow> reference_kept d' d'' \<Longrightarrow> reference_kept d d''"
proof -
  assume a: "reference_kept d d'" "reference_kept d' d''"
  obtain n1 n2 where n: "t_cache d' = t_cache d @ n1" "t_cache d'' = t_cache d' @ n2"
    and r1: "\<forall>r \<in> set n1. \<exists>x. rc_kind r = ref_kind (dp_id x) \<and> rc_model r = dp_model x \<and> cached_reference x d = None"
    and r2: "\<forall>r \<in> set n2. \<exists>x. rc_kind r = ref_kind (dp_id x) \<and> rc_model r = dp_model x \<and> cached_reference x d' = None"
    using a unfolding reference_kept_def by blast
  have "\<forall>r \<in> set (n1 @ n2). \<exists>x. rc_kind r = ref_kind (dp_id x) \<and> rc_model r = dp_model x \<and> cached_reference x d = None"
    using r1 r2 reference_kept_None [OF a(1)] by (metis UnE set_append)
  then show "reference_kept d d''" using a n by (auto simp: reference_kept_def intro!: exI [of _ "n1 @ n2"])
qed

lemma check_frames [simp]:
  "t_cache (fst (prediction_check s env dep r cur st)) = t_cache (fst st)"
  "t_windows (fst (prediction_check s env dep r cur st)) = t_windows (fst st)"
  "t_events (fst (prediction_check s env dep r cur st)) = t_events (fst st)"
  "t_cache (fst (p95_check s env dep evs st)) = t_cache (fst st)"
  "t_windows (fst (p95_check s env dep evs st)) = t_windows (fst st)"
  "t_events (fst (p95_check s env dep evs st)) = t_events (fst st)"
  "t_cache (fst (error_check s env dep evs st)) = t_cache (fst st)"
  "t_windows (fst (error_check s env dep evs st)) = t_windows (fst st)"
  "t_events (fst (error_check s env dep evs st)) = t_events (fst st)"
  by (simp_all add: prediction_check_def p95_check_def error_check_def Let_def split: option.split)

lemma drift_reference_kept: "drift_reference num dep ws d = Inr (d', r) \<Longrightarrow> reference_kept d d'"
  by (auto simp: drift_reference_def reference_kept_def split: option.splits if_splits
      intro!: exI [of _ dep])

lemma client_drift_checks_kept:
  assumes "client_drift_checks s env dep st = Inr st'"
  shows "reference_kept (fst st) (fst st')"
proof -
  let ?ws = "sort_key wn_start (filter (\<lambda>w. wn_deployment w = dp_id dep) (t_windows (fst st)))"
  show ?thesis
  proof (cases "length ?ws \<le> REF_WINDOWS")
    case True then show ?thesis using assms by (simp add: client_drift_checks_def Let_def reference_kept_refl)
  next
    case False
    then obtain d1 r where r: "drift_reference (me_float env) dep ?ws (fst st) = Inr (d1, r)"
      using assms by (auto simp: client_drift_checks_def Let_def)
    have "t_cache (fst st') = t_cache d1 \<and> t_windows (fst st') = t_windows d1 \<and> t_events (fst st') = t_events d1"
      using assms False r
      by (auto simp: client_drift_checks_def Let_def split: option.splits if_splits)
    then have "reference_kept d1 (fst st')" by (simp add: reference_kept_refl)
    with drift_reference_kept [OF r] show ?thesis by (rule reference_kept_trans)
  qed
qed

lemma monitor_deployment_kept:
  assumes "monitor_deployment s env dep st = Inr st'"
  shows "reference_kept (fst st) (fst st')"
proof -
  define evs where "evs = window_events (dp_id dep) (me_now env - ms_window_min s * MINUTE) (me_now env) (fst st)"
  define d1 where "d1 = upsert_rollups (me_zone env) evs (dp_id dep) (update_live_metrics s evs dep (fst st))"
  have d1: "reference_kept (fst st) d1"
    by (simp add: d1_def upsert_rollups_def update_live_metrics_def Let_def upd_deployment_def reference_kept_refl)
  note a = assms [unfolded monitor_deployment_def Let_def, folded evs_def, folded d1_def]
  show ?thesis
  proof (cases "dp_status dep = ''paused''")
    case True with a d1 show ?thesis by auto
  next
    case False
    with a obtain st2 where st2: "client_drift_checks s env dep (d1, snd st) = Inr st2"
      and st': "st' = (if evs = [] then st2 else error_check s env dep evs (p95_check s env dep evs st2))" by auto
    have "reference_kept (fst st2) (fst st')" by (simp add: st' reference_kept_refl)
    with reference_kept_trans [OF d1] client_drift_checks_kept [OF st2] show ?thesis
      using reference_kept_trans by fastforce
  qed
qed

lemma monitor_all_kept: "monitor_all s env deps st = Inr st' \<Longrightarrow> reference_kept (fst st) (fst st')"
proof (induction deps arbitrary: st)
  case (Cons dep deps)
  then show ?case by (auto intro: reference_kept_trans monitor_deployment_kept)
qed (simp add: reference_kept_refl)

text \<open>The drift reference is pinned: a pass, and so any number of passes, keeps every cached row
  as it was and adds only references of deployments that had none, so a reference once taken from the
  earliest windows never slides with the traffic; a pass also adds or changes no event and no window.\<close>

theorem reference_stays_pinned:
  "t_windows (fst (drift_monitor_pass s env d)) = t_windows d \<and> t_events (fst (drift_monitor_pass s env d)) = t_events d \<and>
   (\<exists>new. t_cache (fst (drift_monitor_pass s env d)) = t_cache d @ new \<and>
      (\<forall>r \<in> set new. \<exists>x. rc_kind r = ref_kind (dp_id x) \<and> rc_model r = dp_model x \<and> cached_reference x d = None)) \<and>
   (\<forall>x p. cached_reference x d = Some p \<longrightarrow> cached_reference x (fst (drift_monitor_pass s env d)) = Some p)"
proof -
  have "reference_kept d (fst (drift_monitor_pass s env d))"
    using monitor_all_kept [of s env "t_deployments d" "(d, 0)"]
    by (auto simp: drift_monitor_pass_def reference_kept_refl split: sum.split)
  then show ?thesis using reference_kept_Some unfolding reference_kept_def by metis
qed

section \<open>Batches that stop a pass\<close>

lemma monitor_all_raises:
  assumes "dep \<in> set deps" "\<And>st'. reference_kept (fst st) (fst st') \<Longrightarrow> \<exists>e. monitor_deployment s env dep st' = Inl e"
  shows "\<exists>e. monitor_all s env deps st = Inl e"
  using assms
proof (induction deps arbitrary: st)
  case (Cons x deps)
  show ?case
  proof (cases "monitor_deployment s env x st")
    case (Inr st1)
    then have "reference_kept (fst st) (fst st1)" by (rule monitor_deployment_kept)
    moreover from this have "x \<noteq> dep" using Cons.prems(2) [of st] Inr by (auto simp: reference_kept_refl)
    ultimately have "\<exists>e. monitor_all s env deps st1 = Inl e"
      using Cons.prems by (intro Cons.IH) (auto intro: reference_kept_trans)
    with Inr show ?thesis by simp
  qed simp
qed simp

lemma raising_deployment:
  assumes "dp_status dep \<noteq> ''paused''" "cached_reference dep d = Some (PDriftRef r)" "reference_kept d (fst st)"
    and ws: "ws = sort_key wn_start (filter (\<lambda>w. wn_deployment w = dp_id dep) (t_windows d))" "REF_WINDOWS < length ws"
    and p: "parse_ts (wn_start (last ws)) = Some t" "since (me_now env) t = Inl e"
  shows "\<exists>e. monitor_deployment s env dep st = Inl e"
proof -
  define evs where "evs = window_events (dp_id dep) (me_now env - ms_window_min s * MINUTE) (me_now env) (fst st)"
  define d1 where "d1 = upsert_rollups (me_zone env) evs (dp_id dep) (update_live_metrics s evs dep (fst st))"
  have c: "t_cache d1 = t_cache (fst st)" "t_windows d1 = t_windows (fst st)"
    by (simp_all add: d1_def upsert_rollups_def update_live_metrics_def Let_def upd_deployment_def)
  have "cached_reference dep d1 = Some (PDriftRef r)" using reference_kept_Some [OF assms(3,2)] c by (simp add: cached_reference_def)
  moreover have "t_windows d1 = t_windows d" using assms(3) c by (simp add: reference_kept_def)
  moreover have "\<not> length (filter (\<lambda>w. wn_deployment w = dp_id dep) (t_windows d)) \<le> REF_WINDOWS"
    using ws by simp
  ultimately have "client_drift_checks s env dep (d1, snd st) = Inl e"
    using p by (simp add: client_drift_checks_def Let_def drift_reference_def ws(1) [symmetric])
  with assms(1) show ?thesis
    by (simp add: monitor_deployment_def Let_def evs_def [symmetric] d1_def [symmetric])
qed

text \<open>One accepted window stops the monitor for everybody: the intake accepts a window whose start
  has no zone, reading it as UTC; once it is the latest window of a deployment with a pinned reference
  that is not paused, every pass raises when it subtracts the naive value, whatever the other deployments
  are, and commits nothing for any of them.\<close>

theorem naive_window_stops_the_monitor:
  assumes "dep \<in> set (t_deployments d)" "dp_status dep \<noteq> ''paused''" "cached_reference dep d = Some (PDriftRef r)"
    and "ws = sort_key wn_start (filter (\<lambda>w. wn_deployment w = dp_id dep) (t_windows d))" "REF_WINDOWS < length ws"
    and "parse_ts (wn_start (last ws)) = Some (t, None)"
  shows "(\<exists>e. drift_monitor_pass s env d = (d, Inl e)) \<and>
    (\<forall>received. received - PAST_CLAMP \<le> t \<and> t \<le> received + FUTURE_CLAMP \<longrightarrow> valid_ts received (wn_start (last ws)))"
proof -
  have "\<exists>e. monitor_all s env (t_deployments d) (d, 0) = Inl e"
    using assms by (intro monitor_all_raises [of dep] raising_deployment [where e = TypeError]) (auto simp: since_def)
  moreover have "parse_z (wn_start (last ws)) = Some t" using assms(6) by (simp add: parse_z_def parse_ts_def as_utc_def)
  ultimately show ?thesis by (auto simp: drift_monitor_pass_def valid_ts_def)
qed

section \<open>A deployment with traffic\<close>

definition demo_monitor :: monitor_settings where
  "demo_monitor = \<lparr>ms_window_min = 10, ms_p95_pct = 10, ms_error_pct = 1, ms_psi = 0.2, ms_input_z = 3\<rparr>"

definition demo_monitor_env :: "instant \<Rightarrow> monitor_env" where
  "demo_monitor_env now = \<lparr>me_now = now, me_zone = (\<lambda>t. t), me_float = (\<lambda>_. None), me_token = str_of_nat\<rparr>"

definition request_at :: "string \<Rightarrow> event_row" where
  "request_at ts = \<lparr>ev_user = ''u'', ev_model = ''m'', ev_deployment = ''dep_1'', ev_ts = ts, ev_latency = 12,
     ev_success = True, ev_error = None, ev_batch_size = 1, ev_region = ''local'', ev_source = ''client'',
     ev_pre = None, ev_post = None, ev_client = Some ''c'', ev_input_sig = None\<rparr>"

definition window_at :: "string \<Rightarrow> window_row" where
  "window_at ts = \<lparr>wn_user = ''u'', wn_model = ''m'', wn_deployment = ''dep_1'', wn_client = ''c'', wn_start = ts,
     wn_end = ts, wn_n = 1, wn_inputs = Some [], wn_output = Some []\<rparr>"

definition traffic_db :: db where
  "traffic_db = deployed_db\<lparr>t_events := map request_at [iso (DAY + 10 * SECOND), iso (DAY + 50 * SECOND)],
     t_windows := map window_at (replicate 5 ''1970-01-02T00:00:00.000Z'' @ [''1970-01-02T00:09:00'']),
     t_cache := [\<lparr>rc_user = ''u'', rc_model = ''m'', rc_kind = ref_kind ''dep_1'',
       rc_payload = PDriftRef \<lparr>df_class_dist = [], df_inputs = [], df_windows = 5\<rparr>\<rparr>]\<rparr>"

lemma demo_range: "0 \<le> t \<Longrightarrow> t < 10 * DAY \<Longrightarrow> in_range t"
  by (simp add: in_range_def DAY_def SECOND_def)

lemma demo_bucket: "0 \<le> t \<Longrightarrow> t < MINUTE \<Longrightarrow> t mod 1000 = 0 \<Longrightarrow> bucket_key (\<lambda>t. t) (request_at (iso (DAY + t))) = Some (iso DAY)"
proof -
  assume t: "0 \<le> t" "t < MINUTE" "t mod 1000 = 0"
  have r: "in_range (DAY + t)" using t by (intro demo_range) (simp_all add: DAY_def MINUTE_def SECOND_def)
  have "(DAY + t) mod MINUTE = (t + 1440 * MINUTE) mod MINUTE" by (simp add: DAY_def MINUTE_def SECOND_def add.commute)
  then have m: "(DAY + t) mod MINUTE = t" using t by simp
  have "DAY mod 1000 = 0" by (simp add: DAY_def SECOND_def)
  with t(3) have "(DAY + t) mod 1000 = 0" by (meson dvd_add dvd_imp_mod_0 mod_0_imp_dvd)
  then have "(DAY + t) div 1000 * 1000 = DAY + t" by (simp add: minus_mod_eq_div_mult [symmetric])
  with parse_ts_iso [OF r] show ?thesis by (simp add: bucket_key_def request_at_def to_utc_def m)
qed

lemma demo_order: "0 \<le> a \<Longrightarrow> a < 10 * DAY \<Longrightarrow> 0 \<le> b \<Longrightarrow> b < 10 * DAY \<Longrightarrow> (iso a < iso b) = (a div 1000 < b div 1000)"
  by (simp add: iso_order_iff demo_range)

lemma traffic_requests: "length (t_events traffic_db) = 2"
  by (simp add: traffic_db_def)

theorem rollup_forgets_the_first_minute_witness:
  "\<exists>r. find_rollup ''dep_1'' (iso DAY)
      (t_rollups (upsert_rollups (\<lambda>t. t) (window_events ''dep_1'' (DAY + 30 * SECOND) (DAY + 10 * MINUTE + 30 * SECOND) traffic_db)
        ''dep_1'' traffic_db)) = Some r \<and> ro_count r < 2"
proof -
  let ?env = "demo_monitor_env (DAY + 10 * MINUTE + 30 * SECOND)"
  have b: "bucket_key (\<lambda>t. t) (request_at (iso (DAY + 10 * SECOND))) = Some (iso DAY)"
    "bucket_key (\<lambda>t. t) (request_at (iso (DAY + 50 * SECOND))) = Some (iso DAY)"
    by (rule demo_bucket; simp add: MINUTE_def SECOND_def)+
  have o: "iso (DAY + 10 * SECOND) < iso (DAY + 30 * SECOND)" "\<not> iso (DAY + 50 * SECOND) < iso (DAY + 30 * SECOND)"
    "iso (DAY + 50 * SECOND) < iso (DAY + 10 * MINUTE + 30 * SECOND)"
    by (subst demo_order; simp add: DAY_def MINUTE_def SECOND_def)+
  have l: "filter (\<lambda>x. ev_deployment x = ''dep_1'' \<and> bucket_key (me_zone ?env) x = Some (iso DAY)) (t_events traffic_db)
      = t_events traffic_db"
    using b by (simp add: traffic_db_def demo_monitor_env_def request_at_def [where ts = "iso (DAY + 10 * SECOND)"]
        request_at_def [where ts = "iso (DAY + 50 * SECOND)"])
  have "\<exists>r. find_rollup ''dep_1'' (iso DAY) (t_rollups (upsert_rollups (me_zone ?env)
      (window_events ''dep_1'' (DAY + 30 * SECOND) (me_now ?env) traffic_db) ''dep_1'' traffic_db)) = Some r \<and>
    ro_count r < length (filter (\<lambda>x. ev_deployment x = ''dep_1'' \<and> bucket_key (me_zone ?env) x = Some (iso DAY)) (t_events traffic_db))"
  proof (rule rollup_forgets_the_first_minute [of _ _ demo_monitor "request_at (iso (DAY + 10 * SECOND))" _ _ _
        "request_at (iso (DAY + 50 * SECOND))"])
    show "DAY + 30 * SECOND = me_now ?env - ms_window_min demo_monitor * MINUTE"
      by (simp add: demo_monitor_env_def demo_monitor_def)
    show "request_at (iso (DAY + 10 * SECOND)) \<in> set (t_events traffic_db)" by (simp add: traffic_db_def)
    show "ev_deployment (request_at (iso (DAY + 10 * SECOND))) = ''dep_1''" by (simp add: request_at_def)
    show "bucket_key (me_zone ?env) (request_at (iso (DAY + 10 * SECOND))) = Some (iso DAY)"
      "bucket_key (me_zone ?env) (request_at (iso (DAY + 50 * SECOND))) = Some (iso DAY)"
      using b by (simp_all add: demo_monitor_env_def)
    show "ev_ts (request_at (iso (DAY + 10 * SECOND))) < iso (DAY + 30 * SECOND)" using o(1) by (simp add: request_at_def)
    show "request_at (iso (DAY + 50 * SECOND)) \<in> set (window_events ''dep_1'' (DAY + 30 * SECOND) (me_now ?env) traffic_db)"
      using o(2,3) by (simp add: window_events_def traffic_db_def request_at_def demo_monitor_env_def not_less)
  qed
  then show ?thesis unfolding l by (simp add: demo_monitor_env_def traffic_requests)
qed

theorem rollups_hold_the_window_witness:
  "distinct (map rollup_key (t_rollups (upsert_rollups (\<lambda>t. t) (t_events traffic_db) ''dep_1'' traffic_db)))"
  using rollups_hold_the_window [of traffic_db] by (simp add: traffic_db_def deployed_db_def model_db_def empty_db_def)

theorem alert_cooldown_witness:
  "\<exists>a. t_alerts (fst (raise_alert (demo_monitor_env DAY) demo_dep ''warning'' ''drift'' (empty_db, 0))) = [a] \<and> al_at a = iso DAY"
proof -
  have n: "\<not> recent_alert (me_now (demo_monitor_env DAY)) (dp_model demo_dep) ''drift'' empty_db"
    by (simp add: recent_alert_def empty_db_def)
  then have "snd (raise_alert (demo_monitor_env DAY) demo_dep ''warning'' ''drift'' (empty_db, 0)) = 1"
    by (simp add: raise_alert_def Let_def)
  moreover have "in_range (me_now (demo_monitor_env DAY) - ALERT_COOLDOWN)"
    by (simp add: in_range_def demo_monitor_env_def ALERT_COOLDOWN_def DAY_def MINUTE_def SECOND_def)
  ultimately show ?thesis
    using alert_cooldown [of "demo_monitor_env DAY" demo_dep "''warning''" "''drift''" empty_db 0
        "fst (raise_alert (demo_monitor_env DAY) demo_dep ''warning'' ''drift'' (empty_db, 0))" 1]
    by (auto simp: empty_db_def demo_monitor_env_def surjective_pairing [symmetric] prod_eq_iff)
qed

lemma traffic_reference:
  "cached_reference demo_dep traffic_db = Some (PDriftRef \<lparr>df_class_dist = [], df_inputs = [], df_windows = 5\<rparr>)"
  by (simp add: cached_reference_def traffic_db_def demo_dep_def)

theorem reference_stays_pinned_witness:
  "cached_reference demo_dep (fst (drift_monitor_pass demo_monitor (demo_monitor_env DAY) traffic_db))
     = Some (PDriftRef \<lparr>df_class_dist = [], df_inputs = [], df_windows = 5\<rparr>)"
  using reference_stays_pinned [of demo_monitor "demo_monitor_env DAY" traffic_db] traffic_reference by blast

lemma naive_stamp: "parse_ts ''1970-01-02T00:09:00'' = Some (DAY + 9 * MINUTE, None)"
  by code_simp

lemma latest_window:
  "wn_start (last (sort_key wn_start (map window_at (replicate 5 ''1970-01-02T00:00:00.000Z'' @ [''1970-01-02T00:09:00'']))))
    = ''1970-01-02T00:09:00''"
  by code_simp

theorem naive_window_stops_the_monitor_witness:
  "(\<exists>e. drift_monitor_pass demo_monitor (demo_monitor_env (DAY + 10 * MINUTE)) traffic_db = (traffic_db, Inl e)) \<and>
   valid_ts (DAY + 10 * MINUTE) ''1970-01-02T00:09:00''"
proof -
  let ?all = "map window_at (replicate 5 ''1970-01-02T00:00:00.000Z'' @ [''1970-01-02T00:09:00''])"
  have f: "filter (\<lambda>w. wn_deployment w = dp_id demo_dep) (t_windows traffic_db) = ?all"
    by (simp add: traffic_db_def window_at_def demo_dep_def numeral_eq_Suc)
  have w: "sort_key wn_start ?all = sort_key wn_start (filter (\<lambda>w. wn_deployment w = dp_id demo_dep) (t_windows traffic_db))"
    by (simp only: f)
  have len: "REF_WINDOWS < length (sort_key wn_start ?all)" by (simp add: REF_WINDOWS_def)
  have p: "parse_ts (wn_start (last (sort_key wn_start ?all))) = Some (DAY + 9 * MINUTE, None)"
    by (simp only: latest_window naive_stamp)
  have m: "demo_dep \<in> set (t_deployments traffic_db)" "dp_status demo_dep \<noteq> ''paused''"
    by (simp_all add: traffic_db_def deployed_db_def demo_dep_def)
  from naive_window_stops_the_monitor [OF m traffic_reference w len p, of demo_monitor "demo_monitor_env (DAY + 10 * MINUTE)"]
  show ?thesis unfolding latest_window by (simp add: PAST_CLAMP_def FUTURE_CLAMP_def DAY_def MINUTE_def SECOND_def)
qed

end
