(* ===== verification/Telemetry_Agg.thy ===== *)
theory Telemetry_Agg
  imports Registry Client_Telemetry Iso_Roundtrip
begin

text \<open>
  The aggregation behind the dashboard, \<open>app/services/telemetry_agg.py\<close>, and the handlers of
  \<open>app/routers/telemetry.py\<close> that call it: the events of a window, their buckets, the down-sampled
  rollups of the long ranges and the key figures.  The lemmas show that the buckets count every
  request of the window once, and which accepted stamps make the aggregation raise.
\<close>

section \<open>Ranges\<close>

definition HOUR :: int where "HOUR = 60 * MINUTE"

text \<open>A range key gives the window's duration and its number of buckets.\<close>

definition RANGE :: "(string \<times> int \<times> nat) list" where
  "RANGE = [(''1h'', HOUR, 60), (''6h'', 6 * HOUR, 72), (''24h'', 24 * HOUR, 48), (''7d'', 7 * DAY, 84), (''30d'', 30 * DAY, 60)]"

definition range_window :: "string \<Rightarrow> int \<times> nat" where
  "range_window range_str = (case map_of RANGE range_str of Some w \<Rightarrow> w | None \<Rightarrow> (24 * HOUR, 48))"

definition bucket_bounds :: "instant \<Rightarrow> string \<Rightarrow> instant \<times> int \<times> nat" where
  "bucket_bounds now range_str = (case range_window range_str of (window, n) \<Rightarrow> (now - window, window div int n, n))"

definition use_rollups :: "string \<Rightarrow> bool" where
  "use_rollups range_str \<longleftrightarrow> range_str \<in> {''7d'', ''30d''}"

section \<open>Events\<close>

definition MAX_EVENTS :: nat where "MAX_EVENTS = 200000"

definition has_any_events :: "db \<Rightarrow> string \<Rightarrow> bool" where
  "has_any_events d model_id \<longleftrightarrow> list_ex (\<lambda>e. ev_model e = model_id) (t_events d)"

text \<open>A reading is the parsed stamp, the latency and the success of an event.\<close>

type_synonym reading = "(instant \<times> instant option) \<times> real \<times> bool"

definition naive :: "reading \<Rightarrow> bool" where
  "naive r \<longleftrightarrow> snd (fst r) = None"

text \<open>A sort compares neighbours of its result, so values of both kinds together raise.\<close>

definition sort_readings :: "reading list \<Rightarrow> reading list result" where
  "sort_readings rs =
     (if list_ex naive rs \<and> list_ex (\<lambda>r. \<not> naive r) rs then raise TypeError else ok (sort_key (\<lambda>r. as_utc (fst r)) rs))"

definition window_rows :: "db \<Rightarrow> string \<Rightarrow> instant \<Rightarrow> instant \<Rightarrow> event_row list" where
  "window_rows d model_id start until =
     filter (\<lambda>e. ev_model e = model_id \<and> iso start \<le> ev_ts e \<and> ev_ts e < iso until) (t_events d)"

definition reading_of :: "event_row \<Rightarrow> reading option" where
  "reading_of e = map_option (\<lambda>p. (p, ev_latency e, ev_success e)) (parse_ts (ev_ts e))"

definition fetch_events :: "db \<Rightarrow> string \<Rightarrow> instant \<Rightarrow> instant \<Rightarrow> reading list result" where
  "fetch_events d model_id start until =
     sort_readings (List.map_filter reading_of
       (take MAX_EVENTS (sort_desc ev_ts (window_rows d model_id start until))))"

definition good_readings :: "reading list \<Rightarrow> real list" where
  "good_readings rs = map (\<lambda>r. fst (snd r)) (filter (\<lambda>r. snd (snd r)) rs)"

section \<open>Key figures\<close>

record kpi_figures =
  kp_rpm :: real
  kp_rpm_delta :: real
  kp_p95 :: real
  kp_p95_delta :: real
  kp_err :: real
  kp_err_delta :: real
  kp_drift :: real

definition delta_pct :: "real \<Rightarrow> real \<Rightarrow> real" where
  "delta_pct prev cur = (if prev \<le> 0 then 0 else py_round 1 ((cur - prev) / prev * 100))"

definition rpm :: "int \<Rightarrow> reading list \<Rightarrow> real" where
  "rpm window rs = (let win_min = real_of_int window / real_of_int MINUTE in
     if win_min > 0 then of_nat (length rs) / win_min else 0)"

definition err_rate :: "reading list \<Rightarrow> real" where
  "err_rate rs = (if rs = [] then 0 else 100 * of_nat (length (filter (\<lambda>r. \<not> snd (snd r)) rs)) / of_nat (length rs))"

definition divergence :: "payload option \<Rightarrow> real result" where
  "divergence bench =
     (case bench of
        None \<Rightarrow> ok 0
      | Some (PBenchmark _ _ (Some a)) \<Rightarrow> ok (py_round 2 (100 - a))
      | Some _ \<Rightarrow> raise KeyError)"

definition kpi_of :: "int \<Rightarrow> reading list \<Rightarrow> reading list \<Rightarrow> real \<Rightarrow> kpi_figures" where
  "kpi_of window cur prev drift =
     (let p95 = (\<lambda>rs. pct_or_0 (good_readings rs) 95) in
      \<lparr>kp_rpm = py_round 1 (rpm window cur), kp_rpm_delta = delta_pct (rpm window prev) (rpm window cur),
       kp_p95 = py_round 3 (p95 cur), kp_p95_delta = delta_pct (p95 prev) (p95 cur),
       kp_err = py_round 3 (err_rate cur), kp_err_delta = delta_pct (err_rate prev) (err_rate cur), kp_drift = drift\<rparr>)"

definition kpi_live :: "instant \<Rightarrow> db \<Rightarrow> string \<Rightarrow> payload option \<Rightarrow> string \<Rightarrow> kpi_figures result" where
  "kpi_live now d model_id bench range_str =
     (let window = fst (range_window range_str) in
      bind_result (fetch_events d model_id (now - window) now) (\<lambda>cur.
      bind_result (fetch_events d model_id (now - 2 * window) (now - window)) (\<lambda>prev.
      bind_result (divergence bench) (\<lambda>drift. ok (kpi_of window cur prev drift)))))"

definition kpi_empty :: kpi_figures where
  "kpi_empty = \<lparr>kp_rpm = 0, kp_rpm_delta = 0, kp_p95 = 0, kp_p95_delta = 0, kp_err = 0, kp_err_delta = 0, kp_drift = 0\<rparr>"

section \<open>Buckets\<close>

text \<open>\<open>int((dt - start).total_seconds() / size_sec)\<close> cuts towards zero; the subtraction refuses a naive
  \<open>dt\<close>.  The bucket sizes are whole seconds, so the quotient of the two floats is cut as the exact one is.\<close>

definition trunc_div :: "int \<Rightarrow> int \<Rightarrow> int" where
  "trunc_div x y = (if 0 \<le> x then x div y else - (- x div y))"

definition bucket_index :: "instant \<Rightarrow> int \<Rightarrow> instant \<times> instant option \<Rightarrow> int result" where
  "bucket_index start size_us p =
     bind_result (since start p) (\<lambda>ago. ok (if size_us > 0 then trunc_div (- ago) size_us else 0))"

type_synonym bucket = "instant \<times> real list \<times> nat"

definition count_in :: "reading \<Rightarrow> bucket \<Rightarrow> bucket" where
  "count_in r b = (case b of (b0, lats, cnt) \<Rightarrow>
     (b0, if snd (snd r) then lats @ [fst (snd r)] else lats, cnt + 1))"

fun fill_buckets :: "instant \<Rightarrow> int \<Rightarrow> reading list \<Rightarrow> bucket list \<Rightarrow> bucket list result" where
  "fill_buckets start size_us [] bs = ok bs"
| "fill_buckets start size_us (r # rs) bs =
     bind_result (bucket_index start size_us (fst r)) (\<lambda>i.
       fill_buckets start size_us rs
         (if 0 \<le> i \<and> i < int (length bs) then bs[nat i := count_in r (bs ! nat i)] else bs))"

definition bucket_raw :: "instant \<Rightarrow> db \<Rightarrow> string \<Rightarrow> string \<Rightarrow> bucket list result" where
  "bucket_raw now d model_id range_str =
     (case bucket_bounds now range_str of (start, size_us, n) \<Rightarrow>
        bind_result (fetch_events d model_id start (start + size_us * int n)) (\<lambda>events.
          fill_buckets start size_us events (map (\<lambda>i. (start + size_us * int i, [], 0)) [0..<n])))"

section \<open>Rollups of the long ranges\<close>

record rollup_sum =
  rs_count :: nat
  rs_errors :: nat
  rs_w50 :: real
  rs_w95 :: real
  rs_w99 :: real

definition deployment_ids :: "db \<Rightarrow> string \<Rightarrow> string list" where
  "deployment_ids d model_id = map dp_id (filter (\<lambda>x. dp_model x = model_id) (t_deployments d))"

definition add_rollup :: "rollup_row \<Rightarrow> rollup_sum \<Rightarrow> rollup_sum" where
  "add_rollup r a =
     \<lparr>rs_count = rs_count a + ro_count r, rs_errors = rs_errors a + ro_errors r,
      rs_w50 = rs_w50 a + ro_p50 r * of_nat (ro_count r), rs_w95 = rs_w95 a + ro_p95 r * of_nat (ro_count r),
      rs_w99 = rs_w99 a + ro_p99 r * of_nat (ro_count r)\<rparr>"

fun sum_rollups :: "instant \<Rightarrow> int \<Rightarrow> rollup_row list \<Rightarrow> rollup_sum list \<Rightarrow> rollup_sum list result" where
  "sum_rollups start size_us [] agg = ok agg"
| "sum_rollups start size_us (r # rs) agg =
     (case parse_ts (ro_bucket r) of
        None \<Rightarrow> sum_rollups start size_us rs agg
      | Some p \<Rightarrow> bind_result (bucket_index start size_us p) (\<lambda>i.
          sum_rollups start size_us rs
            (if 0 \<le> i \<and> i < int (length agg) then agg[nat i := add_rollup r (agg ! nat i)] else agg)))"

text \<open>A row is the bucket's start, its weighted percentiles and its count.\<close>

definition rollup_point :: "instant \<Rightarrow> int \<Rightarrow> rollup_sum list \<Rightarrow> nat \<Rightarrow> instant \<times> (real \<times> real \<times> real) \<times> nat" where
  "rollup_point start size_us agg i =
     (let a = agg ! i; c = (if rs_count a = 0 then 1 else of_nat (rs_count a))
      in (start + size_us * int i, (rs_w50 a / c, rs_w95 a / c, rs_w99 a / c), rs_count a))"

definition rollup_rows :: "db \<Rightarrow> string \<Rightarrow> instant \<Rightarrow> instant \<Rightarrow> rollup_row list" where
  "rollup_rows d model_id start until =
     filter (\<lambda>r. ro_deployment r \<in> set (deployment_ids d model_id) \<and> iso start \<le> ro_bucket r \<and> ro_bucket r < iso until)
       (t_rollups d)"

definition bucket_rollups ::
  "instant \<Rightarrow> db \<Rightarrow> string \<Rightarrow> string \<Rightarrow> (instant \<times> (real \<times> real \<times> real) \<times> nat) list option result" where
  "bucket_rollups now d model_id range_str =
     (if deployment_ids d model_id = [] then ok None
      else case bucket_bounds now range_str of (start, size_us, n) \<Rightarrow>
        (let rows = rollup_rows d model_id start (start + size_us * int n) in
         if rows = [] then ok None
         else bind_result (sum_rollups start size_us rows
                (replicate n \<lparr>rs_count = 0, rs_errors = 0, rs_w50 = 0, rs_w95 = 0, rs_w99 = 0\<rparr>)) (\<lambda>agg.
              ok (Some (map (rollup_point start size_us agg) [0..<length agg])))))"

section \<open>Series and percentiles\<close>

record point =
  pt_t :: string
  pt_requests :: real
  pt_p95 :: real

definition per_minute :: "int \<Rightarrow> nat \<Rightarrow> real" where
  "per_minute size_us cnt = (let size_min = real_of_int size_us / real_of_int MINUTE in
     if size_min > 0 then py_round 1 (of_nat cnt / size_min) else 0)"

definition try_rollups :: "instant \<Rightarrow> db \<Rightarrow> string \<Rightarrow> string \<Rightarrow> (instant \<times> (real \<times> real \<times> real) \<times> nat) list option result" where
  "try_rollups now d model_id range_str =
     (if use_rollups range_str then bucket_rollups now d model_id range_str else ok None)"

definition series_live :: "instant \<Rightarrow> db \<Rightarrow> string \<Rightarrow> string \<Rightarrow> point list result" where
  "series_live now d model_id range_str =
     (let size_us = fst (snd (bucket_bounds now range_str)) in
      bind_result (try_rollups now d model_id range_str) (\<lambda>roll. case roll of
          Some rows \<Rightarrow> ok (map (\<lambda>(b0, (_, p95, _), cnt).
            \<lparr>pt_t = iso b0, pt_requests = per_minute size_us cnt, pt_p95 = py_round 3 p95\<rparr>) rows)
        | None \<Rightarrow> bind_result (bucket_raw now d model_id range_str) (\<lambda>bs.
            ok (map (\<lambda>(b0, lats, cnt).
              \<lparr>pt_t = iso b0, pt_requests = per_minute size_us cnt, pt_p95 = py_round 3 (pct_or_0 lats 95)\<rparr>) bs))))"

record percentile_table =
  pc_p50 :: "real list"
  pc_p95 :: "real list"
  pc_p99 :: "real list"
  pc_values :: "real \<times> real \<times> real"

definition percentiles_live :: "instant \<Rightarrow> db \<Rightarrow> string \<Rightarrow> string \<Rightarrow> percentile_table result" where
  "percentiles_live now d model_id range_str =
     bind_result (fetch_events d model_id (now - fst (range_window range_str)) now) (\<lambda>rs.
       let overall = good_readings rs; at_q = (\<lambda>q lats. py_round 3 (pct_or_0 lats q));
           values = (at_q 50 overall, at_q 95 overall, at_q 99 overall)
       in bind_result (try_rollups now d model_id range_str) (\<lambda>roll. case roll of
            Some rows \<Rightarrow> ok \<lparr>pc_p50 = map (\<lambda>(_, (p, _, _), _). py_round 3 p) rows,
                            pc_p95 = map (\<lambda>(_, (_, p, _), _). py_round 3 p) rows,
                            pc_p99 = map (\<lambda>(_, (_, _, p), _). py_round 3 p) rows, pc_values = values\<rparr>
          | None \<Rightarrow> bind_result (bucket_raw now d model_id range_str) (\<lambda>bs.
              ok \<lparr>pc_p50 = map (\<lambda>(_, lats, _). at_q 50 lats) bs, pc_p95 = map (\<lambda>(_, lats, _). at_q 95 lats) bs,
                  pc_p99 = map (\<lambda>(_, lats, _). at_q 99 lats) bs, pc_values = values\<rparr>)))"

definition percentiles_empty :: percentile_table where
  "percentiles_empty = \<lparr>pc_p50 = [], pc_p95 = [], pc_p99 = [], pc_values = (0, 0, 0)\<rparr>"

section \<open>The handlers\<close>

definition range_key :: "string \<Rightarrow> string" where
  "range_key v = (if v \<in> {''1h'', ''6h'', ''24h'', ''7d'', ''30d''} then v else ''24h'')"

definition telemetry_kpi :: "instant \<Rightarrow> db \<Rightarrow> string \<Rightarrow> string \<Rightarrow> string \<Rightarrow> kpi_figures result" where
  "telemetry_kpi now d model_id user range_str =
     bind_result (owned_model d model_id user) (\<lambda>m.
       if has_any_events d model_id
       then kpi_live now d model_id (get_cached_result d model_id ''benchmark'' (md_user m)) (range_key range_str)
       else ok kpi_empty)"

definition telemetry_series :: "instant \<Rightarrow> db \<Rightarrow> string \<Rightarrow> string \<Rightarrow> string \<Rightarrow> point list result" where
  "telemetry_series now d model_id user range_str =
     bind_result (owned_model d model_id user) (\<lambda>_.
       if has_any_events d model_id then series_live now d model_id (range_key range_str) else ok [])"

definition telemetry_percentiles :: "instant \<Rightarrow> db \<Rightarrow> string \<Rightarrow> string \<Rightarrow> string \<Rightarrow> percentile_table result" where
  "telemetry_percentiles now d model_id user range_str =
     bind_result (owned_model d model_id user) (\<lambda>_.
       if has_any_events d model_id then percentiles_live now d model_id (range_key range_str) else ok percentiles_empty)"

section \<open>Bounds of a range\<close>

lemma range_exact:
  assumes "range_window range_str = (window, n)"
  shows "0 < n \<and> window = window div int n * int n \<and> MINUTE \<le> window div int n \<and> 0 < window"
proof -
  have "(window, n) \<in> {(HOUR, 60), (6 * HOUR, 72), (24 * HOUR, 48), (7 * DAY, 84), (30 * DAY, 60)}"
    using assms by (auto simp: range_window_def RANGE_def split: if_splits)
  then show ?thesis by (elim insertE emptyE) (simp_all add: HOUR_def DAY_def MINUTE_def SECOND_def)
qed

lemma bucket_bounds_of:
  assumes "bucket_bounds now range_str = (start, size_us, n)"
  shows "start + size_us * int n = now" "MINUTE \<le> size_us" "0 < n" "start = now - fst (range_window range_str)"
  using assms range_exact [of range_str] by (auto simp: bucket_bounds_def mult.commute split: prod.splits)

section \<open>Filling the buckets\<close>

lemma bucket_index_aware: "snd p = Some off \<Longrightarrow> 0 < size_us \<Longrightarrow> bucket_index start size_us p = ok (trunc_div (as_utc p - start) size_us)"
  by (simp add: bucket_index_def since_def as_utc_def)

lemma bucket_index_naive: "snd p = None \<Longrightarrow> bucket_index start size_us p = raise TypeError"
  by (simp add: bucket_index_def since_def)

lemma trunc_div_bucket:
  assumes "0 < s" "- s < x"
  shows "trunc_div x s = int i \<longleftrightarrow> (i = 0 \<or> s * int i \<le> x) \<and> x < s * (int i + 1)" "0 \<le> trunc_div x s"
proof -
  have neg: "trunc_div x s = 0" if "x < 0" using that assms by (simp add: trunc_div_def)
  show "0 \<le> trunc_div x s"
    by (cases "0 \<le> x") (use neg assms in \<open>simp_all add: trunc_div_def pos_imp_zdiv_nonneg_iff\<close>)
  show "trunc_div x s = int i \<longleftrightarrow> (i = 0 \<or> s * int i \<le> x) \<and> x < s * (int i + 1)"
  proof (cases "0 \<le> x")
    case True
    have "x div s = int i \<longleftrightarrow> s * int i \<le> x \<and> x < s * int i + s"
    proof
      assume "x div s = int i" then show "s * int i \<le> x \<and> x < s * int i + s" using div_bounds [OF assms(1), of x] by simp
    next
      assume "s * int i \<le> x \<and> x < s * int i + s" then show "x div s = int i"
        by (intro int_div_pos_eq [of _ _ _ "x - s * int i"]) auto
    qed
    with True show ?thesis by (auto simp: trunc_div_def distrib_left)
  next
    case False
    have n: "0 \<le> s * int i" using assms(1) by simp
    have "x < s * int i + s" using False assms(1) n by linarith
    then have "x < s * (int i + 1)" by (simp add: distrib_left)
    moreover have "\<not> s * int i \<le> x" using False n by simp
    ultimately show ?thesis using neg False by auto
  qed
qed

text \<open>The loop puts every reading into the bucket of its index.\<close>

lemma fill_buckets_length: "fill_buckets start s rs bs = ok bs' \<Longrightarrow> length bs' = length bs"
proof (induction rs arbitrary: bs)
  case (Cons r rs)
  then show ?case by (cases "bucket_index start s (fst r)") (auto split: if_splits)
qed simp

lemma fill_buckets_counts:
  assumes "\<And>r. r \<in> set rs \<Longrightarrow> \<exists>i. bucket_index start s (fst r) = ok i \<and> 0 \<le> i \<and> i < int (length bs)"
  shows "\<exists>bs'. fill_buckets start s rs bs = ok bs' \<and> length bs' = length bs \<and>
    (\<forall>k < length bs. fst (bs' ! k) = fst (bs ! k) \<and>
       snd (snd (bs' ! k)) = snd (snd (bs ! k)) + length (filter (\<lambda>r. bucket_index start s (fst r) = ok (int k)) rs))"
  using assms
proof (induction rs arbitrary: bs)
  case (Cons r rs)
  obtain i where i: "bucket_index start s (fst r) = ok i" "0 \<le> i" "i < int (length bs)" using Cons.prems [of r] by auto
  define b1 where "b1 = bs[nat i := count_in r (bs ! nat i)]"
  have b1: "length b1 = length bs" by (simp add: b1_def)
  from Cons.IH [of b1] Cons.prems b1 obtain bs' where bs': "fill_buckets start s rs b1 = ok bs'" "length bs' = length b1"
    "\<And>k. k < length b1 \<Longrightarrow> fst (bs' ! k) = fst (b1 ! k) \<and>
       snd (snd (bs' ! k)) = snd (snd (b1 ! k)) + length (filter (\<lambda>r. bucket_index start s (fst r) = ok (int k)) rs)"
    by auto
  have "fst (b1 ! k) = fst (bs ! k)" "snd (snd (b1 ! k)) = snd (snd (bs ! k)) + (if int k = i then 1 else 0)"
    if "k < length bs" for k
    using that i(2,3) by (auto simp: b1_def nth_list_update count_in_def split: prod.splits)
  then show ?case using bs' b1 i by (auto simp: b1_def)
qed simp

section \<open>The events of a window\<close>

text \<open>Stamps as the server and the reporter write them.\<close>

definition stamped :: "event_row \<Rightarrow> bool" where
  "stamped e \<longleftrightarrow> (\<exists>t. in_range t \<and> ev_ts e = iso t)"

lemma stamped_reading: "stamped e \<Longrightarrow> \<exists>t. parse_z (ev_ts e) = Some t \<and> reading_of e = Some ((t, Some 0), ev_latency e, ev_success e)"
  by (auto simp: stamped_def reading_of_def parse_ts_iso parse_z_def as_utc_def simp flip: parse_ts_def)

lemma map_filter_readings:
  "\<forall>e \<in> set es. stamped e \<Longrightarrow> List.map_filter reading_of es = map (the \<circ> reading_of) es"
  by (induction es) (auto simp: List.map_filter_def dest: stamped_reading)

lemma fetch_stamped:
  assumes "\<forall>e \<in> set (window_rows d m start until). stamped e" "length (window_rows d m start until) \<le> MAX_EVENTS"
  shows "\<exists>rs. fetch_events d m start until = ok rs \<and> mset rs = image_mset (the \<circ> reading_of) (mset (window_rows d m start until))"
proof -
  let ?rows = "window_rows d m start until"
  have t: "take MAX_EVENTS (sort_desc ev_ts ?rows) = sort_desc ev_ts ?rows"
    using assms(2) by (simp add: sort_desc_def)
  have m: "List.map_filter reading_of (sort_desc ev_ts ?rows) = map (the \<circ> reading_of) (sort_desc ev_ts ?rows)"
    using assms(1) by (intro map_filter_readings) (simp add: set_sort_desc)
  have "\<not> naive ((the \<circ> reading_of) e)" if "e \<in> set ?rows" for e
    using assms(1) stamped_reading [of e] that by (auto simp: naive_def)
  then have "\<not> list_ex naive (map (the \<circ> reading_of) (sort_desc ev_ts ?rows))"
    by (auto simp: list_ex_iff set_sort_desc)
  then show ?thesis by (simp add: fetch_events_def t m sort_readings_def mset_sort_desc)
qed

text \<open>Requests of a stamped window lie at most a millisecond before its start.\<close>

lemma window_row_time:
  assumes "e \<in> set (window_rows d m start until)" "stamped e" "in_range start" "in_range until" "parse_z (ev_ts e) = Some t"
  shows "start - 1000 < t \<and> t < until"
proof -
  obtain u where u: "in_range u" "ev_ts e = iso u" using assms(2) by (auto simp: stamped_def)
  have t: "t = u div 1000 * 1000" using assms(5) u parse_ts_iso [OF u(1)] by (simp add: parse_z_def as_utc_def parse_ts_def)
  have "\<not> iso u < iso start" "iso u < iso until" using assms(1) u by (auto simp: window_rows_def)
  then have "start div 1000 \<le> u div 1000" "u div 1000 < until div 1000"
    using iso_order_iff [OF u(1) assms(3)] iso_order_iff [OF u(1) assms(4)] by auto
  moreover have "start < 1000 * (start div 1000) + 1000" "1000 * (until div 1000) \<le> until"
    using div_bounds [of 1000 start] div_bounds [of 1000 until] by auto
  ultimately show ?thesis unfolding t by linarith
qed

section \<open>Every request is counted once\<close>

definition in_bucket :: "instant \<Rightarrow> int \<Rightarrow> nat \<Rightarrow> event_row \<Rightarrow> bool" where
  "in_bucket start size_us i e \<longleftrightarrow>
     (case parse_z (ev_ts e) of
        Some t \<Rightarrow> (i = 0 \<or> start + size_us * int i \<le> t) \<and> t < start + size_us * (int i + 1)
      | None \<Rightarrow> False)"

lemma length_filter_mset: "mset xs = image_mset f (mset ys) \<Longrightarrow> length (filter P xs) = length (filter (P \<circ> f) ys)"
proof -
  assume m: "mset xs = image_mset f (mset ys)"
  have "length (filter P xs) = size (filter_mset P (image_mset f (mset ys)))"
    unfolding m [symmetric] by (simp flip: mset_filter)
  also have "\<dots> = size (filter_mset (P \<circ> f) (mset ys))" by (simp add: filter_mset_image_mset comp_def)
  finally show ?thesis by (simp flip: mset_filter)
qed

lemma sum_list_counts:
  "(\<And>y. y \<in> set ys \<Longrightarrow> \<exists>!i. i < n \<and> P i y) \<Longrightarrow> sum_list (map (\<lambda>i. length (filter (P i) ys)) [0..<n]) = length ys"
proof (induction ys)
  case (Cons y ys)
  then obtain j where j: "j < n" "P j y" "\<And>i. i < n \<Longrightarrow> P i y \<Longrightarrow> i = j" by (metis list.set_intros(1))
  have "length (filter (P i) (y # ys)) = (if i = j then 1 else 0) + length (filter (P i) ys)" if "i < n" for i
    using j(2) j(3) [OF that] by (cases "P i y") auto
  then have "map (\<lambda>i. length (filter (P i) (y # ys))) [0..<n] = map (\<lambda>i. (if i = j then 1 else 0) + length (filter (P i) ys)) [0..<n]"
    by (intro map_cong) (auto simp del: filter.simps)
  then have "sum_list (map (\<lambda>i. length (filter (P i) (y # ys))) [0..<n]) =
      sum_list (map (\<lambda>i. (if i = j then 1 else 0) + length (filter (P i) ys)) [0..<n])" by (rule arg_cong)
  also have "\<dots> = sum_list (map (\<lambda>i. if i = j then 1 else 0) [0..<n]) + sum_list (map (\<lambda>i. length (filter (P i) ys)) [0..<n])"
    by (rule sum_list_addf)
  also have "sum_list (map (\<lambda>i. if i = j then 1 else 0) [0..<n]) = (1::nat)"
    using j(1) by (simp add: sum_list_distinct_conv_sum_set)
  finally show ?case using Cons by simp
qed simp

lemma stamped_index:
  assumes "e \<in> set (window_rows d m start (start + s * int n))" "stamped e" "in_range start" "in_range (start + s * int n)"
    and s: "MINUTE \<le> s" "0 < n"
  shows "bucket_index start s (fst (the (reading_of e))) = ok (int i) \<longleftrightarrow> in_bucket start s i e"
    "\<exists>i < n. bucket_index start s (fst (the (reading_of e))) = ok (int i)"
proof -
  obtain t where t: "parse_z (ev_ts e) = Some t" "reading_of e = Some ((t, Some 0), ev_latency e, ev_success e)"
    using stamped_reading [OF assms(2)] by blast
  have b: "start - 1000 < t" "t < start + s * int n" using window_row_time [OF assms(1-4) t(1)] by auto
  have s0: "0 < s" "1000 \<le> s" using s(1) by (simp_all add: MINUTE_def SECOND_def)
  have idx: "bucket_index start s (fst (the (reading_of e))) = ok (trunc_div (t - start) s)"
    using t(2) s0 bucket_index_aware [of "(t, Some 0)" 0 s start] by (simp add: as_utc_def)
  note td = trunc_div_bucket [of s "t - start"]
  have x: "- s < t - start" using b s0 by linarith
  have eq: "trunc_div (t - start) s = int i \<longleftrightarrow> in_bucket start s i e" for i
    using td(1) [OF s0(1) x, of i] unfolding in_bucket_def t(1) option.case by (metis add.commute diff_less_eq le_diff_eq)
  show "bucket_index start s (fst (the (reading_of e))) = ok (int i) \<longleftrightarrow> in_bucket start s i e" by (simp add: idx eq)
  obtain i where i: "trunc_div (t - start) s = int i" using td(2) [OF s0(1) x] nonneg_int_cases by metis
  have "i < n"
  proof (cases "i = 0")
    case False
    with i have "s * int i \<le> t - start" using td(1) [OF s0(1) x, of i] by simp
    with b(2) have "s * int i < s * int n" by linarith
    with s0(1) show ?thesis by simp
  qed (use s(2) in simp)
  with i idx show "\<exists>i < n. bucket_index start s (fst (the (reading_of e))) = ok (int i)" by auto
qed

lemma buckets_of_rows:
  assumes "bucket_bounds now range_str = (start, size_us, n)" "rows = window_rows d m start now"
    "\<forall>e \<in> set rows. stamped e" "length rows \<le> MAX_EVENTS" "in_range start" "in_range now"
  shows "\<exists>bs. bucket_raw now d m range_str = ok bs \<and> length bs = n \<and>
    (\<forall>i < n. fst (bs ! i) = start + size_us * int i \<and> snd (snd (bs ! i)) = length (filter (in_bucket start size_us i) rows)) \<and>
    sum_list (map (\<lambda>b. snd (snd b)) bs) = length rows"
proof -
  note b = bucket_bounds_of [OF assms(1)]
  have rows: "rows = window_rows d m start (start + size_us * int n)" using b(1) assms(2) by simp
  obtain rs where rs: "fetch_events d m start (start + size_us * int n) = ok rs" "mset rs = image_mset (the \<circ> reading_of) (mset rows)"
    using fetch_stamped [of d m start "start + size_us * int n"] assms(3,4) rows by metis
  define bs0 where "bs0 = map (\<lambda>i. (start + size_us * int i, [] :: real list, 0 :: nat)) [0..<n]"
  have idx: "bucket_index start size_us (fst (the (reading_of e))) = ok (int i) \<longleftrightarrow> in_bucket start size_us i e"
    "\<exists>i < n. bucket_index start size_us (fst (the (reading_of e))) = ok (int i)" if "e \<in> set rows" for e i
    using stamped_index [of e d m start size_us n] that assms(3,5,6) b rows by auto
  have "\<exists>i. bucket_index start size_us (fst r) = ok i \<and> 0 \<le> i \<and> i < int (length bs0)" if "r \<in> set rs" for r
  proof -
    have "r \<in># mset rs" using that by simp
    then obtain e where "e \<in> set rows" "r = the (reading_of e)" unfolding rs(2) by auto
    with idx(2) [of e] show ?thesis by (auto simp: bs0_def)
  qed
  from fill_buckets_counts [OF this] obtain bs where bs: "fill_buckets start size_us rs bs0 = ok bs" "length bs = n"
    "\<And>i. i < n \<Longrightarrow> fst (bs ! i) = start + size_us * int i \<and>
       snd (snd (bs ! i)) = length (filter (\<lambda>r. bucket_index start size_us (fst r) = ok (int i)) rs)"
    by (auto simp: bs0_def)
  have cnt: "snd (snd (bs ! i)) = length (filter (in_bucket start size_us i) rows)" if "i < n" for i
  proof -
    have "length (filter (\<lambda>r. bucket_index start size_us (fst r) = ok (int i)) rs)
        = length (filter (\<lambda>e. bucket_index start size_us (fst (the (reading_of e))) = ok (int i)) rows)"
      using length_filter_mset [OF rs(2)] by (simp add: comp_def)
    also have "\<dots> = length (filter (in_bucket start size_us i) rows)"
      using idx(1) by (intro arg_cong [of _ _ length] filter_cong) auto
    finally show ?thesis using bs(3) that by simp
  qed
  have "\<exists>!i. i < n \<and> in_bucket start size_us i e" if "e \<in> set rows" for e
    using idx [OF that] by (metis Inr_inject of_nat_eq_iff)
  then have "sum_list (map (\<lambda>i. length (filter (in_bucket start size_us i) rows)) [0..<n]) = length rows"
    by (rule sum_list_counts)
  moreover have "map (\<lambda>b. snd (snd b)) bs = map (\<lambda>i. length (filter (in_bucket start size_us i) rows)) [0..<n]"
    using cnt bs(2) by (intro nth_equalityI) simp_all
  ultimately show ?thesis
    using bs cnt rs(1) assms(1) by (auto simp: bucket_raw_def bs0_def)
qed

text \<open>C28: The charts lose and invent no request: when the stamps of a window are as the server writes
  them and the window is within the cap, bucketing succeeds with the range's number of buckets, the
  starts of which are evenly spaced; each bucket counts exactly the requests of its interval, the first
  one also those of the millisecond the text cutoff rounds down to; and the counts add up to the number
  of requests in the window.\<close>

theorem buckets_count_every_request:
  assumes "bucket_bounds now range_str = (start, size_us, n)" "rows = window_rows d m start now"
    "\<forall>e \<in> set rows. stamped e" "length rows \<le> MAX_EVENTS" "in_range start" "in_range now"
  shows "\<exists>bs. bucket_raw now d m range_str = ok bs \<and> length bs = n \<and>
    (\<forall>i < n. fst (bs ! i) = start + size_us * int i \<and> snd (snd (bs ! i)) = length (filter (in_bucket start size_us i) rows)) \<and>
    sum_list (map (\<lambda>b. snd (snd b)) bs) = length rows"
  by (rule buckets_of_rows [OF assms])

definition busy_db :: db where
  "busy_db = deployed_db\<lparr>t_events := map (\<lambda>t. \<lparr>ev_user = ''u'', ev_model = ''m'', ev_deployment = ''dep_1'', ev_ts = iso t,
     ev_latency = 12, ev_success = True, ev_error = None, ev_batch_size = 1, ev_region = ''local'', ev_source = ''client'',
     ev_pre = None, ev_post = None, ev_client = Some ''c'', ev_input_sig = None\<rparr>) [DAY, DAY + 30 * MINUTE]\<rparr>"

theorem buckets_count_every_request_witness:
  "\<exists>bs. bucket_raw (DAY + 30 * MINUTE) busy_db ''m'' ''1h'' = ok bs \<and> length bs = 60 \<and> sum_list (map (\<lambda>b. snd (snd b)) bs) = 1"
proof -
  define rows where "rows = window_rows busy_db ''m'' (DAY - 30 * MINUTE) (DAY + 30 * MINUTE)"
  have r: "in_range (DAY - 30 * MINUTE)" "in_range (DAY + 30 * MINUTE)" "in_range DAY"
    by (simp_all add: in_range_def DAY_def MINUTE_def SECOND_def)
  have o: "\<not> iso DAY < iso (DAY - 30 * MINUTE)" "iso DAY < iso (DAY + 30 * MINUTE)"
    using iso_order_iff [OF r(3,1)] iso_order_iff [OF r(3,2)] by (simp_all add: DAY_def MINUTE_def SECOND_def)
  have b: "bucket_bounds (DAY + 30 * MINUTE) ''1h'' = (DAY - 30 * MINUTE, MINUTE, 60)"
    by (simp add: bucket_bounds_def range_window_def RANGE_def HOUR_def)
  have l: "length rows = 1" "\<forall>e \<in> set rows. stamped e"
    using o r(3) by (auto simp: rows_def window_rows_def busy_db_def stamped_def not_less)
  then have "length rows \<le> MAX_EVENTS" by (simp add: MAX_EVENTS_def)
  from buckets_count_every_request [OF b rows_def l(2) this r(1,2)] l(1) show ?thesis by auto
qed

section \<open>Stamps that stop the charts\<close>

lemma fill_naive: "rs \<noteq> [] \<Longrightarrow> \<forall>r \<in> set rs. naive r \<Longrightarrow> fill_buckets start s rs bs = raise TypeError"
  by (cases rs) (auto simp: naive_def bucket_index_naive)

lemma map_filter_mem: "x \<in> set xs \<Longrightarrow> f x = Some y \<Longrightarrow> y \<in> set (List.map_filter f xs)"
  by (force simp: List.map_filter_def)

lemma fetch_naive:
  assumes "e \<in> set (window_rows d m start until)" "length (window_rows d m start until) \<le> MAX_EVENTS" "parse_ts (ev_ts e) = Some (t, None)"
  shows "fetch_events d m start until = raise TypeError \<or>
    (\<exists>rs. fetch_events d m start until = ok rs \<and> rs \<noteq> [] \<and> (\<forall>r \<in> set rs. naive r))"
proof -
  define out where "out = List.map_filter reading_of (take MAX_EVENTS (sort_desc ev_ts (window_rows d m start until)))"
  have "e \<in> set (take MAX_EVENTS (sort_desc ev_ts (window_rows d m start until)))"
    using assms(1,2) by (simp add: sort_desc_def)
  moreover have "reading_of e = Some ((t, None), ev_latency e, ev_success e)" using assms(3) by (simp add: reading_of_def)
  ultimately have "((t, None), ev_latency e, ev_success e) \<in> set out" unfolding out_def by (rule map_filter_mem)
  moreover have "naive ((t, None), ev_latency e, ev_success e)" by (simp add: naive_def)
  ultimately have "list_ex naive out" "out \<noteq> []" by (auto simp: list_ex_iff)
  moreover from \<open>out \<noteq> []\<close> have "sort_key (\<lambda>r. as_utc (fst r)) out \<noteq> []" using length_sort [of _ out] by (metis length_0_conv)
  ultimately show ?thesis
    unfolding fetch_events_def out_def [symmetric] sort_readings_def by (cases "list_ex (\<lambda>r. \<not> naive r) out") (auto simp: list_ex_iff)
qed

lemma bucket_raw_naive:
  assumes "e \<in> set (window_rows d m (now - fst (range_window range_str)) now)"
    "length (window_rows d m (now - fst (range_window range_str)) now) \<le> MAX_EVENTS" "parse_ts (ev_ts e) = Some (t, None)"
  shows "bucket_raw now d m range_str = raise TypeError"
proof -
  obtain start s n where b: "bucket_bounds now range_str = (start, s, n)" by (metis prod_cases3)
  note bb = bucket_bounds_of [OF b]
  have "fetch_events d m start (start + s * int n) = raise TypeError \<or>
    (\<exists>rs. fetch_events d m start (start + s * int n) = ok rs \<and> rs \<noteq> [] \<and> (\<forall>r \<in> set rs. naive r))"
    using fetch_naive [of e d m start now t] assms bb by simp
  then show ?thesis by (auto simp: bucket_raw_def b fill_naive)
qed

text \<open>One accepted request blanks a model's charts: the intake takes a request whose stamp has no
  zone, reading it as UTC; while it is in the window of one of the short ranges, the series and the
  percentile handlers raise a TypeError for the owner, whatever the other requests are.\<close>

theorem naive_stamp_breaks_the_charts:
  assumes "owned_model d m u = ok mdl" "range_str \<in> {''1h'', ''6h'', ''24h''}"
    "e \<in> set (window_rows d m (now - fst (range_window range_str)) now)"
    "length (window_rows d m (now - fst (range_window range_str)) now) \<le> MAX_EVENTS" "parse_ts (ev_ts e) = Some (t, None)"
  shows "telemetry_series now d m u range_str = raise TypeError \<and> telemetry_percentiles now d m u range_str = raise TypeError \<and>
    (\<forall>received. received - PAST_CLAMP \<le> t \<and> t \<le> received + FUTURE_CLAMP \<longrightarrow> valid_ts received (ev_ts e))"
proof -
  have h: "has_any_events d m" using assms(3) by (auto simp: has_any_events_def window_rows_def list_ex_iff)
  have r: "range_key range_str = range_str" "\<not> use_rollups range_str" using assms(2) by (auto simp: range_key_def use_rollups_def)
  note raw = bucket_raw_naive [OF assms(3-5)]
  have "series_live now d m range_str = raise TypeError"
    by (simp add: series_live_def Let_def try_rollups_def r(2) raw)
  moreover have "percentiles_live now d m range_str = raise TypeError"
    using fetch_naive [OF assms(3-5)] by (auto simp: percentiles_live_def Let_def try_rollups_def r(2) raw)
  moreover have "parse_z (ev_ts e) = Some t" using assms(5) by (simp add: parse_z_def parse_ts_def as_utc_def)
  ultimately show ?thesis by (simp add: telemetry_series_def telemetry_percentiles_def assms(1) h r(1) valid_ts_def)
qed

definition naive_request :: event_row where
  "naive_request = \<lparr>ev_user = ''u'', ev_model = ''m'', ev_deployment = ''dep_1'', ev_ts = ''1970-01-02T00:09:00'',
     ev_latency = 12, ev_success = True, ev_error = None, ev_batch_size = 1, ev_region = ''local'', ev_source = ''client'',
     ev_pre = None, ev_post = None, ev_client = Some ''c'', ev_input_sig = None\<rparr>"

lemma naive_request_in_window:
  "window_rows (deployed_db\<lparr>t_events := [naive_request]\<rparr>) ''m'' (DAY - 45 * MINUTE) (DAY + 15 * MINUTE) = [naive_request]"
  by code_simp

theorem naive_stamp_breaks_the_charts_witness:
  "telemetry_series (DAY + 15 * MINUTE) (deployed_db\<lparr>t_events := [naive_request]\<rparr>) ''m'' ''u'' ''1h'' = raise TypeError"
proof -
  let ?d = "deployed_db\<lparr>t_events := [naive_request]\<rparr>"
  have w: "window_rows ?d ''m'' (DAY + 15 * MINUTE - fst (range_window ''1h'')) (DAY + 15 * MINUTE) = [naive_request]"
    using naive_request_in_window by (simp add: range_window_def RANGE_def HOUR_def)
  have p: "parse_ts (ev_ts naive_request) = Some (DAY + 9 * MINUTE, None)" unfolding naive_request_def by code_simp
  obtain mdl where "owned_model ?d ''m'' ''u'' = ok mdl"
    by (auto simp: owned_model_def get_model_row_def deployed_db_def model_db_def demo_model_def empty_db_def split: option.splits)
  from naive_stamp_breaks_the_charts [OF this _ _ _ p, of "''1h''"] w show ?thesis by (simp add: MAX_EVENTS_def)
qed

end
