(* ===== verification/Hardware_Cost.thy ===== *)
theory Hardware_Cost
  imports Telemetry_Agg
begin

text \<open>
  The hardware and the cost lens, \<open>app/services/hardware.py\<close> and \<open>app/services/cost.py\<close>: the
  classification of a host, the latencies grouped by the hardware that served them, the resource
  series, and the dollar figures derived from them.  The lemmas show that every request is attributed
  to one group, that no dollar figure is made up without traffic, and two slips of the rate table.
\<close>

section \<open>Rates\<close>

definition GPU_HOURLY :: "(string \<times> real) list" where
  "GPU_HOURLY = [(''a100'', 3.67), (''a10g'', 1.006), (''l4'', 0.70), (''l40'', 1.95), (''v100'', 3.06),
     (''t4'', 0.526), (''h100'', 12.29)]"

definition CPU_X86_HOURLY :: real where "CPU_X86_HOURLY = 0.085"
definition CPU_ARM_HOURLY :: real where "CPU_ARM_HOURLY = 0.068"
definition ONDEVICE_HOURLY :: real where "ONDEVICE_HOURLY = 0"

definition gpu_hourly :: "string \<Rightarrow> real" where
  "gpu_hourly gpu_name =
     (case find (\<lambda>(needle, _). str_in needle (str_lower gpu_name)) GPU_HOURLY of Some (_, rate) \<Rightarrow> rate | None \<Rightarrow> 1)"

section \<open>Classification of a host\<close>

definition GPU_PROVIDERS :: "string list" where
  "GPU_PROVIDERS = [''cuda'', ''tensorrt'', ''rocm'', ''migraphx'']"

definition NPU_PROVIDERS :: "(string \<times> string) list" where
  "NPU_PROVIDERS = [(''qnn'', ''Qualcomm NPU''), (''vitisai'', ''AMD Ryzen AI NPU''), (''cann'', ''Huawei Ascend NPU''),
     (''rknpu'', ''Rockchip NPU''), (''nnapi'', ''Android NNAPI''), (''openvino'', ''Intel NPU'')]"

record device =
  dv_class :: string
  dv_accelerator :: string
  dv_hourly :: real

text \<open>The runtime column is the one \<open>runtime_json\<close> writes: texts and numbers; a missing key reads as empty.\<close>

definition rt_text :: "string \<Rightarrow> (string \<times> json) list \<Rightarrow> string" where
  "rt_text k rt = (case map_of rt k of Some (JStr s) \<Rightarrow> s | _ \<Rightarrow> '''')"

definition rt_truthy :: "string \<Rightarrow> (string \<times> json) list \<Rightarrow> bool" where
  "rt_truthy k rt = (case map_of rt k of Some (JNum x) \<Rightarrow> x \<noteq> 0 | Some (JStr s) \<Rightarrow> s \<noteq> '''' | _ \<Rightarrow> False)"

definition py_or :: "string \<Rightarrow> string \<Rightarrow> string" where
  "py_or a b = (if a \<noteq> '''' then a else b)"

definition classify :: "(string \<times> json) list \<Rightarrow> device" where
  "classify rt =
     (let gpu_name = str_strip (rt_text ''gpuName'' rt);
          plow = str_lower (str_strip (py_or (rt_text ''activeProvider'' rt) (rt_text ''provider'' rt)));
          arch = str_lower (rt_text ''arch'' rt);
          on_gpu = list_ex (\<lambda>p. str_in p plow) GPU_PROVIDERS;
          dml = str_in ''dml'' plow \<or> str_in ''directml'' plow;
          is_arm = prefix ''arm'' arch \<or> prefix ''aarch'' arch
      in if gpu_name \<noteq> '''' \<and> (on_gpu \<or> rt_truthy ''gpuCount'' rt)
         then \<lparr>dv_class = gpu_name, dv_accelerator = ''gpu'', dv_hourly = gpu_hourly gpu_name\<rparr>
         else if str_in ''coreml'' plow
         then \<lparr>dv_class = py_or (rt_text ''cpuModel'' rt) ''Apple Silicon'' @ MIDDOT @ ''CoreML'', dv_accelerator = ''coreml'',
               dv_hourly = ONDEVICE_HOURLY\<rparr>
         else case find (\<lambda>(needle, _). str_in needle plow) NPU_PROVIDERS of
           Some (_, label) \<Rightarrow> \<lparr>dv_class = label, dv_accelerator = ''npu'', dv_hourly = ONDEVICE_HOURLY\<rparr>
         | None \<Rightarrow>
             if on_gpu \<or> dml
             then \<lparr>dv_class = (if dml then ''DirectML GPU'' else ''GPU''), dv_accelerator = ''gpu'', dv_hourly = 1\<rparr>
             else \<lparr>dv_class = py_or (rt_text ''cpuModel'' rt) (if is_arm then ''ARM64 CPU'' else ''x86-64 CPU''),
                   dv_accelerator = ''cpu'', dv_hourly = (if is_arm then CPU_ARM_HOURLY else CPU_X86_HOURLY)\<rparr>)"

definition est_cost_per_million :: "real \<Rightarrow> real \<Rightarrow> real" where
  "est_cost_per_million mean_latency_ms hourly_usd =
     (if mean_latency_ms \<le> 0 \<or> hourly_usd \<le> 0 then 0 else py_round 4 (hourly_usd * mean_latency_ms / 3.6))"

section \<open>The hardware of a client\<close>

definition latest_snapshot :: "db \<Rightarrow> string \<Rightarrow> string \<Rightarrow> snapshot_row option" where
  "latest_snapshot d model_id cid =
     (let rows = filter (\<lambda>r. sn_model r = model_id \<and> sn_client r = cid) (t_snapshots d)
      in case newest_ts (map sn_ts rows) of None \<Rightarrow> None | Some ts \<Rightarrow> find (\<lambda>r. sn_ts r = ts) rows)"

section \<open>Groups\<close>

record hw_group =
  hg_device :: device
  hg_provider :: string
  hg_gpu_name :: string
  hg_clients :: "string list"
  hg_lat :: "real list"
  hg_errors :: nat
  hg_samples :: nat

definition group_key :: "device \<Rightarrow> string" where
  "group_key v = dv_accelerator v @ '':'' @ dv_class v"

text \<open>An event's hardware, the provider and the GPU name shown for it.\<close>

definition attribute_event :: "db \<Rightarrow> string \<Rightarrow> event_row \<Rightarrow> device \<times> string \<times> string" where
  "attribute_event d model_id e =
     (case (if ev_source e = ''client'' then latest_snapshot d model_id (or_empty (ev_client e) '''') else None) of
        Some r \<Rightarrow> (classify (sn_runtime r), py_or (rt_text ''activeProvider'' (sn_runtime r)) (rt_text ''provider'' (sn_runtime r)),
                    rt_text ''gpuName'' (sn_runtime r))
      | None \<Rightarrow> (\<lparr>dv_class = ''On-device'' @ MIDDOT @ ''CPU'', dv_accelerator = ''cpu'', dv_hourly = CPU_X86_HOURLY\<rparr>,
                   ''CPUExecutionProvider'', ''''))"

definition new_group :: "device \<times> string \<times> string \<Rightarrow> hw_group" where
  "new_group a = (case a of (v, provider, gpu_name) \<Rightarrow>
     \<lparr>hg_device = v, hg_provider = provider, hg_gpu_name = gpu_name, hg_clients = [], hg_lat = [], hg_errors = 0, hg_samples = 0\<rparr>)"

definition add_sample :: "event_row \<Rightarrow> hw_group \<Rightarrow> hw_group" where
  "add_sample e g =
     (let cid = or_empty (ev_client e) '''';
          g1 = g\<lparr>hg_samples := hg_samples g + 1, hg_clients := (if cid = '''' then hg_clients g else List.insert cid (hg_clients g))\<rparr>
      in if ev_success e then g1\<lparr>hg_lat := hg_lat g @ [ev_latency e]\<rparr> else g1\<lparr>hg_errors := hg_errors g + 1\<rparr>)"

definition group_event :: "db \<Rightarrow> string \<Rightarrow> event_row \<Rightarrow> (string \<times> hw_group) list \<Rightarrow> (string \<times> hw_group) list" where
  "group_event d model_id e groups =
     (let a = attribute_event d model_id e; k = group_key (fst a);
          g = (case map_of groups k of Some g \<Rightarrow> g | None \<Rightarrow> new_group a)
      in AList.update k (add_sample e g) groups)"

definition hardware_groups :: "db \<Rightarrow> string \<Rightarrow> event_row list \<Rightarrow> (string \<times> hw_group) list" where
  "hardware_groups d model_id events = fold (group_event d model_id) events []"

record hw_row =
  hr_key :: string
  hr_device :: device
  hr_provider :: string
  hr_gpu_name :: string
  hr_host_count :: nat
  hr_samples :: nat
  hr_req_per_min :: real
  hr_p50 :: real
  hr_p95 :: real
  hr_inference_ms :: real
  hr_throughput :: real
  hr_error_rate :: real
  hr_avg_cpu :: "real option"
  hr_avg_gpu :: "real option"
  hr_avg_gpu_mem :: "real option"
  hr_cost :: real

definition avg1 :: "real list \<Rightarrow> real option" where
  "avg1 xs = (if xs = [] then None else Some (py_round 1 (sum_list xs / of_nat (length xs))))"

definition hw_row_of :: "db \<Rightarrow> string \<Rightarrow> int \<Rightarrow> string \<times> hw_group \<Rightarrow> hw_row" where
  "hw_row_of d model_id window kg =
     (case kg of (k, g) \<Rightarrow>
       let win_min = max (1 / 10 ^ 6) (real_of_int window / real_of_int MINUTE);
           lat = hg_lat g;
           mean_lat = (if lat = [] then 0 else py_round 3 (sum_list lat / of_nat (length lat)));
           snaps = List.map_filter (latest_snapshot d model_id) (hg_clients g)
       in \<lparr>hr_key = k, hr_device = hg_device g, hr_provider = hg_provider g, hr_gpu_name = hg_gpu_name g,
           hr_host_count = max 1 (length (hg_clients g)), hr_samples = hg_samples g,
           hr_req_per_min = py_round 1 (of_nat (hg_samples g) / win_min),
           hr_p50 = py_round 3 (pct_or_0 lat 50), hr_p95 = py_round 3 (pct_or_0 lat 95), hr_inference_ms = mean_lat,
           hr_throughput = (if mean_lat > 0 then py_round 1 (1000 / mean_lat) else 0),
           hr_error_rate = (if hg_samples g = 0 then 0 else py_round 3 (100 * of_nat (hg_errors g) / of_nat (hg_samples g))),
           hr_avg_cpu = avg1 (map sn_cpu snaps), hr_avg_gpu = avg1 (List.map_filter sn_gpu_util snaps),
           hr_avg_gpu_mem = avg1 (List.map_filter sn_gpu_mem snaps),
           hr_cost = est_cost_per_million mean_lat (dv_hourly (hg_device g))\<rparr>)"

definition speed_key :: "hw_row \<Rightarrow> real" where
  "speed_key r = (if hr_p95 r > 0 then hr_p95 r else 10 ^ 12)"

definition hardware_breakdown :: "instant \<Rightarrow> db \<Rightarrow> string \<Rightarrow> string \<Rightarrow> hw_row list" where
  "hardware_breakdown now d model_id range_str =
     (let window = fst (range_window range_str); start = fst (bucket_bounds now range_str);
          events = window_rows d model_id start (start + window)
      in sort_key speed_key (map (hw_row_of d model_id window) (hardware_groups d model_id events)))"

section \<open>Resources over time\<close>

record res_bucket =
  rb_cpu :: "real list"
  rb_mem :: "real list"
  rb_gpu :: "real list"
  rb_gmem :: "real list"

definition opt_list :: "'a option \<Rightarrow> 'a list" where
  "opt_list x = (case x of None \<Rightarrow> [] | Some v \<Rightarrow> [v])"

definition add_snapshot :: "snapshot_row \<Rightarrow> res_bucket \<Rightarrow> res_bucket" where
  "add_snapshot r b =
     \<lparr>rb_cpu = rb_cpu b @ [sn_cpu r], rb_mem = rb_mem b @ [sn_rss r], rb_gpu = rb_gpu b @ opt_list (sn_gpu_util r),
      rb_gmem = rb_gmem b @ opt_list (sn_gpu_mem r)\<rparr>"

fun fill_resources :: "instant \<Rightarrow> int \<Rightarrow> snapshot_row list \<Rightarrow> bool \<times> res_bucket list \<Rightarrow> (bool \<times> res_bucket list) result" where
  "fill_resources start size_us [] st = ok st"
| "fill_resources start size_us (r # rs) (has_gpu, bs) =
     (case parse_ts (sn_ts r) of
        None \<Rightarrow> fill_resources start size_us rs (has_gpu, bs)
      | Some p \<Rightarrow> bind_result (bucket_index start size_us p) (\<lambda>i.
          fill_resources start size_us rs
            (if 0 \<le> i \<and> i < int (length bs)
             then (has_gpu \<or> sn_gpu_util r \<noteq> None, bs[nat i := add_snapshot r (bs ! nat i)]) else (has_gpu, bs))))"

record res_point =
  rp_t :: string
  rp_cpu_pct :: real
  rp_mem_mb :: real
  rp_gpu_pct :: "real option"
  rp_gpu_mem :: "real option"

definition res_point_of :: "instant \<Rightarrow> int \<Rightarrow> nat \<times> res_bucket \<Rightarrow> res_point option" where
  "res_point_of start size_us ib =
     (case ib of (i, b) \<Rightarrow>
       if rb_cpu b = [] \<and> rb_mem b = [] \<and> rb_gpu b = [] then None
       else Some \<lparr>rp_t = iso (start + size_us * int i), rp_cpu_pct = (case avg1 (rb_cpu b) of Some x \<Rightarrow> x | None \<Rightarrow> 0),
                  rp_mem_mb = (case avg1 (rb_mem b) of Some x \<Rightarrow> x | None \<Rightarrow> 0), rp_gpu_pct = avg1 (rb_gpu b),
                  rp_gpu_mem = avg1 (rb_gmem b)\<rparr>)"

definition resource_series :: "instant \<Rightarrow> db \<Rightarrow> string \<Rightarrow> string \<Rightarrow> (res_point list \<times> bool) result" where
  "resource_series now d model_id range_str =
     (case bucket_bounds now range_str of (start, size_us, n) \<Rightarrow>
       let rows = filter (\<lambda>r. sn_model r = model_id \<and> iso start \<le> sn_ts r \<and> sn_ts r < iso (start + size_us * int n)) (t_snapshots d)
       in if rows = [] then ok ([], False)
          else bind_result (fill_resources start size_us rows (False, replicate n \<lparr>rb_cpu = [], rb_mem = [], rb_gpu = [], rb_gmem = []\<rparr>))
            (\<lambda>(has_gpu, bs). ok (List.map_filter (res_point_of start size_us) (enumerate 0 bs), has_gpu)))"

section \<open>Cost\<close>

definition SEC_PER_MONTH :: real where "SEC_PER_MONTH = 2592000"
definition PER_M :: real where "PER_M = 1000000"

definition latency_ratio :: "payload option \<Rightarrow> real option" where
  "latency_ratio bench =
     (case bench of
        Some (PBenchmark (Some oc) (Some cc) _) \<Rightarrow> if oc \<le> 0 \<or> cc \<le> 0 then None else Some (py_round 4 (oc / cc))
      | _ \<Rightarrow> None)"

definition monthly_cost :: "real \<Rightarrow> real \<Rightarrow> real" where
  "monthly_cost per_1m qps = (if per_1m \<le> 0 \<or> qps \<le> 0 then 0 else py_round 2 (per_1m * qps * SEC_PER_MONTH / PER_M))"

definition savings_pct :: "real option \<Rightarrow> real option" where
  "savings_pct ratio =
     (case ratio of None \<Rightarrow> None | Some r \<Rightarrow> if r \<le> 0 then None else Some (py_round 1 (100 * (1 - 1 / r))))"

definition measured_qps :: "db \<Rightarrow> string \<Rightarrow> hw_row list \<Rightarrow> real" where
  "measured_qps d model_id groups =
     (let qps = sum_list (map dp_qps (filter (\<lambda>x. dp_model x = model_id \<and> dp_status x \<noteq> ''paused'') (t_deployments d)))
      in py_round 3 (if qps \<le> 0 then sum_list (map hr_req_per_min groups) / 60 else qps))"

definition representative :: "hw_row list \<Rightarrow> hw_row option" where
  "representative groups =
     (case filter (\<lambda>g. dv_accelerator (hr_device g) \<noteq> ''hosted'' \<and> hr_cost g > 0) groups of
        g # _ \<Rightarrow> Some g
      | [] \<Rightarrow> (case groups of g # _ \<Rightarrow> Some g | [] \<Rightarrow> None))"

record hw_cost =
  hc_row :: hw_row
  hc_original :: "real option"
  hc_savings :: "real option"

record cost_summary =
  cs_source :: string
  cs_compressed :: real
  cs_original :: "real option"
  cs_savings :: "real option"
  cs_savings_pct :: "real option"
  cs_ratio :: "real option"
  cs_qps :: real
  cs_monthly :: "(real option \<times> real option \<times> real option)"
  cs_projected :: bool
  cs_projection :: "(real option \<times> real option \<times> real option)"
  cs_per_hardware :: "hw_cost list"

definition empty_cost_summary :: cost_summary where
  "empty_cost_summary = \<lparr>cs_source = ''none'', cs_compressed = 0, cs_original = None, cs_savings = None, cs_savings_pct = None,
     cs_ratio = None, cs_qps = 0, cs_monthly = (None, None, None), cs_projected = False, cs_projection = (None, None, None),
     cs_per_hardware = []\<rparr>"

text \<open>\<open>ratio and cp > 0\<close>: a ratio that rounds to zero counts as absent.\<close>

definition original_cost :: "real option \<Rightarrow> real \<Rightarrow> real option" where
  "original_cost ratio cp =
     (case ratio of Some r \<Rightarrow> if r \<noteq> 0 \<and> cp > 0 then Some (py_round 4 (cp * r)) else None | None \<Rightarrow> None)"

text \<open>The three monthly figures at a rate: compressed, original and savings.\<close>

definition monthly_figures :: "real option \<Rightarrow> real option \<Rightarrow> real \<Rightarrow> real option \<times> real option \<times> real option" where
  "monthly_figures compressed original qps =
     (case compressed of
        None \<Rightarrow> (None, None, None)
      | Some cp \<Rightarrow>
          if qps > 0
          then let mc = monthly_cost cp qps; mo = map_option (\<lambda>op. monthly_cost op qps) original
               in (Some mc, mo, map_option (\<lambda>x. py_round 2 (x - mc)) mo)
          else (None, None, None))"

definition hw_cost_of :: "real option \<Rightarrow> hw_row \<Rightarrow> hw_cost" where
  "hw_cost_of ratio g =
     (let op = original_cost ratio (hr_cost g)
      in \<lparr>hc_row = g, hc_original = op, hc_savings = map_option (\<lambda>x. py_round 4 (x - hr_cost g)) op\<rparr>)"

definition model_cost_summary :: "instant \<Rightarrow> db \<Rightarrow> model_row \<Rightarrow> string \<Rightarrow> real option \<Rightarrow> cost_summary result" where
  "model_cost_summary now d m range_str project_qps =
     (if \<not> has_any_events d (md_id m)
      then (if md_weights_only m then raise (HTTPException 404 ''weights_only_checkpoint'') else ok empty_cost_summary)
      else
        let ratio = latency_ratio (get_cached_result d (md_id m) ''benchmark'' (md_user m));
            groups = hardware_breakdown now d (md_id m) range_str;
            compressed = map_option hr_cost (representative groups);
            original = Option.bind compressed (original_cost ratio);
            qps = measured_qps d (md_id m) groups;
            project = (case project_qps of Some q \<Rightarrow> q > 0 \<and> compressed \<noteq> None | None \<Rightarrow> False)
        in ok \<lparr>cs_source = ''live'', cs_compressed = (case compressed of Some x \<Rightarrow> x | None \<Rightarrow> 0), cs_original = original,
               cs_savings = (case (original, compressed) of (Some op, Some cp) \<Rightarrow> Some (py_round 4 (op - cp)) | _ \<Rightarrow> None),
               cs_savings_pct = savings_pct ratio, cs_ratio = ratio, cs_qps = qps,
               cs_monthly = monthly_figures compressed original qps, cs_projected = project,
               cs_projection = (if project then monthly_figures compressed original (the project_qps) else (None, None, None)),
               cs_per_hardware = map (hw_cost_of ratio) groups\<rparr>)"

section \<open>The workspace\<close>

record workspace_cost =
  wc_live :: bool
  wc_compressed :: "real option"
  wc_original :: "real option"
  wc_savings :: "real option"
  wc_avg_pct :: "real option"
  wc_models :: nat
  wc_live_models :: nat

text \<open>The running sums: the percentages, the two monthly costs and the number of live models.\<close>

definition add_model_cost :: "instant \<Rightarrow> db \<Rightarrow> string \<Rightarrow> model_row \<Rightarrow> real list \<times> real \<times> real \<times> nat \<Rightarrow> real list \<times> real \<times> real \<times> nat" where
  "add_model_cost now d user m = (\<lambda>(pcts, mc, mo, live).
     case latency_ratio (get_cached_result d (md_id m) ''benchmark'' user) of
       None \<Rightarrow> (pcts, mc, mo, live)
     | Some ratio \<Rightarrow>
         if \<not> has_any_events d (md_id m) then (pcts, mc, mo, live)
         else
           let pcts1 = pcts @ opt_list (savings_pct (Some ratio)); groups = hardware_breakdown now d (md_id m) ''24h''
           in (case representative groups of
                 None \<Rightarrow> (pcts1, mc, mo, live)
               | Some rep \<Rightarrow>
                   let cp = hr_cost rep; qps = measured_qps d (md_id m) groups;
                       c = monthly_cost cp qps; x = monthly_cost (cp * ratio) qps
                   in if cp \<le> 0 \<or> qps \<le> 0 \<or> \<not> (c > 0 \<or> x > 0) then (pcts1, mc, mo, live)
                      else (pcts1, mc + c, mo + x, live + 1)))"

definition workspace_cost_savings :: "instant \<Rightarrow> db \<Rightarrow> string \<Rightarrow> workspace_cost" where
  "workspace_cost_savings now d user =
     (let metas = user_artifact_metas d user;
          (pcts, mc, mo, live) = fold (add_model_cost now d user) (map fst metas) ([], 0, 0, 0);
          has = live > 0; figure = (\<lambda>x. if has then Some (py_round 2 x) else None)
      in \<lparr>wc_live = has, wc_compressed = figure mc, wc_original = figure mo, wc_savings = figure (mo - mc),
          wc_avg_pct = avg1 pcts, wc_models = length metas, wc_live_models = live\<rparr>)"

section \<open>The handlers\<close>

definition telemetry_hardware :: "instant \<Rightarrow> db \<Rightarrow> string \<Rightarrow> string \<Rightarrow> string \<Rightarrow> hw_row list result" where
  "telemetry_hardware now d model_id user range_str =
     bind_result (owned_model d model_id user) (\<lambda>_. ok (hardware_breakdown now d model_id (range_key range_str)))"

definition telemetry_resources :: "instant \<Rightarrow> db \<Rightarrow> string \<Rightarrow> string \<Rightarrow> string \<Rightarrow> (res_point list \<times> bool) result" where
  "telemetry_resources now d model_id user range_str =
     bind_result (owned_model d model_id user) (\<lambda>_. resource_series now d model_id (range_key range_str))"

definition telemetry_cost :: "instant \<Rightarrow> db \<Rightarrow> string \<Rightarrow> string \<Rightarrow> string \<Rightarrow> real option \<Rightarrow> cost_summary result" where
  "telemetry_cost now d model_id user range_str project_qps =
     bind_result (owned_model d model_id user) (\<lambda>m. model_cost_summary now d m (range_key range_str) project_qps)"

section \<open>Every request has one hardware\<close>

definition key_of :: "db \<Rightarrow> string \<Rightarrow> event_row \<Rightarrow> string" where
  "key_of d m e = group_key (fst (attribute_event d m e))"

lemma hardware_groups_snoc: "hardware_groups d m (es @ [e]) = group_event d m e (hardware_groups d m es)"
  by (simp add: hardware_groups_def)

lemma distinct_hardware_groups: "distinct (map fst (hardware_groups d m es))"
  by (induction es rule: rev_induct) (simp_all add: hardware_groups_snoc group_event_def Let_def distinct_update hardware_groups_def [of _ _ "[]"])

lemma samples_add [simp]: "hg_samples (add_sample e g) = hg_samples g + 1"
  by (simp add: add_sample_def Let_def)

lemma hardware_groups_samples:
  "map_option hg_samples (map_of (hardware_groups d m es) k) =
     (let n = length (filter (\<lambda>e. key_of d m e = k) es) in if n = 0 then None else Some n)"
proof (induction es rule: rev_induct)
  case Nil show ?case by (simp add: hardware_groups_def)
next
  case (snoc e es)
  show ?case
  proof (cases "key_of d m e = k")
    case False with snoc show ?thesis
      by (simp add: hardware_groups_snoc group_event_def Let_def update_conv' key_of_def)
  next
    case True
    have k: "group_key (fst (attribute_event d m e)) = k" using True by (simp add: key_of_def)
    have g: "map_of (hardware_groups d m (es @ [e])) k = Some (add_sample e (case map_of (hardware_groups d m es) k of
        Some g \<Rightarrow> g | None \<Rightarrow> new_group (attribute_event d m e)))"
      by (simp add: hardware_groups_snoc group_event_def Let_def update_conv' k)
    show ?thesis using snoc True unfolding g
      by (cases "map_of (hardware_groups d m es) k") (auto simp: Let_def new_group_def filter_empty_conv split: if_splits prod.splits)
  qed
qed

lemma sum_by_key:
  "distinct ks \<Longrightarrow> \<forall>e \<in> set es. f e \<in> set ks \<Longrightarrow> sum_list (map (\<lambda>k. length (filter (\<lambda>e. f e = k) es)) ks) = length es"
proof (induction es)
  case (Cons e es)
  have "sum_list (map (\<lambda>k. length (filter (\<lambda>e. f e = k) (e # es))) ks) =
      sum_list (map (\<lambda>k. (if k = f e then 1 else 0) + length (filter (\<lambda>e. f e = k) es)) ks)"
    by (intro arg_cong [of _ _ sum_list] map_cong) auto
  also have "\<dots> = sum_list (map (\<lambda>k. if k = f e then 1 else 0) ks) + sum_list (map (\<lambda>k. length (filter (\<lambda>e. f e = k) es)) ks)"
    by (rule sum_list_addf)
  also have "sum_list (map (\<lambda>k. if k = f e then 1 else 0) ks) = (1::nat)"
    using Cons.prems by (simp add: sum_list_distinct_conv_sum_set)
  finally show ?case using Cons by simp
qed simp

lemma sum_list_sort_key: "sum_list (map f (sort_key g xs)) = sum_list (map f xs)" for f :: "'a \<Rightarrow> 'b::comm_monoid_add"
  by (metis mset_map mset_sort sum_mset_sum_list)

lemma hardware_group_mem:
  assumes "(k, g) \<in> set (hardware_groups d m es)"
  shows "hg_samples g = length (filter (\<lambda>e. key_of d m e = k) es)" "filter (\<lambda>e. key_of d m e = k) es \<noteq> []"
proof -
  have "map_of (hardware_groups d m es) k = Some g" using assms distinct_hardware_groups by (rule map_of_is_SomeI [rotated])
  then show "hg_samples g = length (filter (\<lambda>e. key_of d m e = k) es)" "filter (\<lambda>e. key_of d m e = k) es \<noteq> []"
    using hardware_groups_samples [of d m es k] by (auto simp: Let_def split: if_splits)
qed

lemma hardware_keys: "e \<in> set es \<Longrightarrow> key_of d m e \<in> set (map fst (hardware_groups d m es))"
proof -
  assume "e \<in> set es"
  then have "filter (\<lambda>x. key_of d m x = key_of d m e) es \<noteq> []" by (auto simp: filter_empty_conv)
  then have "map_of (hardware_groups d m es) (key_of d m e) \<noteq> None"
    using hardware_groups_samples [of d m es "key_of d m e"] by (auto simp: Let_def split: if_splits)
  then show ?thesis by (simp add: map_of_eq_None_iff)
qed

lemma hw_row_fields [simp]:
  "hr_key (hw_row_of d m w (k, g)) = k" "hr_samples (hw_row_of d m w (k, g)) = hg_samples g"
  by (simp_all add: hw_row_of_def Let_def)

text \<open>The hardware table accounts for every request of the window once: its rows have different
  keys, each row's samples are the requests attributed to that key, and they add up to the requests of
  the window; the rows are in order of speed.\<close>

theorem hardware_breakdown_accounts:
  "let start = fst (bucket_bounds now range_str); rows = hardware_breakdown now d m range_str;
       events = window_rows d m start (start + fst (range_window range_str))
   in distinct (map hr_key rows) \<and> sum_list (map hr_samples rows) = length events \<and> sorted (map speed_key rows) \<and>
      map hr_samples rows = map (\<lambda>r. length (filter (\<lambda>e. key_of d m e = hr_key r) events)) rows"
proof -
  define w where "w = fst (range_window range_str)"
  define es where "es = window_rows d m (fst (bucket_bounds now range_str)) (fst (bucket_bounds now range_str) + w)"
  define gs where "gs = hardware_groups d m es"
  have r: "hardware_breakdown now d m range_str = sort_key speed_key (map (hw_row_of d m w) gs)" (is "?rows = _")
    by (simp add: hardware_breakdown_def Let_def gs_def es_def w_def)
  have "hr_key (hw_row_of d m w x) = fst x" for x by (cases x) simp
  then have keys: "map hr_key (map (hw_row_of d m w) gs) = map fst gs" by simp
  have "mset (map hr_key ?rows) = mset (map fst gs)"
    unfolding r keys [symmetric] by (simp only: mset_map mset_sort)
  then have d: "distinct (map hr_key ?rows)" using distinct_hardware_groups gs_def by (metis mset_eq_imp_distinct_iff)
  have s: "hr_samples x = length (filter (\<lambda>e. key_of d m e = hr_key x) es)" if "x \<in> set (map (hw_row_of d m w) gs)" for x
    using that hardware_group_mem(1) [of _ _ d m es] by (auto simp: gs_def)
  then have a: "map hr_samples ?rows = map (\<lambda>r. length (filter (\<lambda>e. key_of d m e = hr_key r) es)) ?rows"
    by (intro map_cong) (auto simp: r)
  have "sum_list (map hr_samples ?rows) = sum_list (map hr_samples (map (hw_row_of d m w) gs))"
    unfolding r by (rule sum_list_sort_key)
  also have "map hr_samples (map (hw_row_of d m w) gs) = map (\<lambda>k. length (filter (\<lambda>e. key_of d m e = k) es)) (map fst gs)"
    using s by (auto simp: gs_def)
  also have "sum_list \<dots> = length es"
    using hardware_keys [of _ es d m] distinct_hardware_groups [of d m es] unfolding gs_def by (intro sum_by_key) auto
  finally show ?thesis using d a by (simp add: Let_def w_def [symmetric] es_def [symmetric] r)
qed

section \<open>The rate table\<close>

lemma str_in_l4: "str_in ''l40'' s \<Longrightarrow> str_in ''l4'' s"
  by (induction s) (auto simp: prefix_def)

text \<open>The L40 rate is never used: whatever the name, the lookup finds the L4 entry first, because
  every name that contains l40 contains l4.\<close>

theorem l40_rate_is_dead:
  "gpu_hourly name \<noteq> 1.95 \<and> map_of GPU_HOURLY ''l40'' = Some 1.95 \<and> gpu_hourly ''NVIDIA L40S'' = 0.70"
proof -
  have "gpu_hourly name \<noteq> 1.95"
    using str_in_l4 [of "str_lower name"] by (auto simp: gpu_hourly_def GPU_HOURLY_def split: if_splits)
  moreover have "str_lower ''NVIDIA L40S'' = ''nvidia l40s''" by code_simp
  ultimately show ?thesis by (simp add: gpu_hourly_def GPU_HOURLY_def)
qed

section \<open>The dollar figures\<close>

lemma py_round_again: "py_round n (py_round n x) = py_round n x"
  by (simp add: py_round_def [of n x]) (simp add: py_round_def)

lemma est_cost_again: "py_round 4 (est_cost_per_million l h) = est_cost_per_million l h"
  by (simp add: est_cost_per_million_def py_round_again)

lemma hr_cost_again: "g \<in> set (hardware_breakdown now d m range_str) \<Longrightarrow> py_round 4 (hr_cost g) = hr_cost g"
  by (auto simp: hardware_breakdown_def Let_def hw_row_of_def est_cost_again split: prod.splits)

lemma representative_in: "representative gs = Some g \<Longrightarrow> g \<in> set gs"
  by (auto simp: representative_def split: list.splits dest: filter_eq_ConsD)

lemma original_cost_ge:
  assumes "original_cost (Some r) cp = Some op" "1 \<le> r" "py_round 4 cp = cp"
  shows "cp \<le> op"
proof -
  have "0 < cp" "op = py_round 4 (cp * r)" using assms(1) by (auto simp: original_cost_def split: if_splits)
  moreover from this have "cp \<le> cp * r" using assms(2) by (simp add: mult_le_cancel_left1)
  ultimately show ?thesis using py_round_mono [of cp "cp * r" 4] assms(3) by simp
qed

lemma monthly_cost_mono: "a \<le> b \<Longrightarrow> monthly_cost a q \<le> monthly_cost b q"
  by (auto simp: monthly_cost_def SEC_PER_MONTH_def PER_M_def intro!: py_round_mono py_round_nonneg mult_right_mono divide_right_mono)

lemma savings_pct_nonneg: "savings_pct (Some r) = Some x \<Longrightarrow> 1 \<le> r \<Longrightarrow> 0 \<le> x"
  by (auto simp: savings_pct_def divide_le_eq intro!: py_round_nonneg)

text \<open>The cost lens makes up no figure: it is live exactly when the model has served requests and the
  empty summary otherwise; a monthly figure needs a measured rate; without a benchmarked ratio there is
  no original cost and no saving; and where the compressed model is not slower than the original, no
  saving, in percent, per million or per month, is negative in spite of the rounding.\<close>

theorem cost_figures_honest:
  assumes "model_cost_summary now d m range_str project_qps = ok s"
  shows "(if has_any_events d (md_id m) then cs_source s = ''live'' else s = empty_cost_summary) \<and>
    (cs_monthly s \<noteq> (None, None, None) \<longrightarrow> 0 < cs_qps s) \<and>
    (cs_ratio s = None \<longrightarrow> cs_original s = None \<and> cs_savings s = None \<and> cs_savings_pct s = None \<and> snd (snd (cs_monthly s)) = None) \<and>
    (\<forall>r. cs_ratio s = Some r \<and> 1 \<le> r \<longrightarrow> (\<forall>x. Some x \<in> {cs_savings s, cs_savings_pct s, snd (snd (cs_monthly s))} \<longrightarrow> 0 \<le> x))"
proof (cases "has_any_events d (md_id m)")
  case False
  then show ?thesis using assms by (auto simp: model_cost_summary_def empty_cost_summary_def split: if_splits)
next
  case True
  define ratio where "ratio = latency_ratio (get_cached_result d (md_id m) ''benchmark'' (md_user m))"
  define groups where "groups = hardware_breakdown now d (md_id m) range_str"
  define cp where "cp = map_option hr_cost (representative groups)"
  define op where "op = Option.bind cp (original_cost ratio)"
  define qps where "qps = measured_qps d (md_id m) groups"
  have s: "cs_source s = ''live'' \<and> cs_ratio s = ratio \<and> cs_original s = op \<and> cs_qps s = qps \<and> cs_savings_pct s = savings_pct ratio \<and>
    cs_savings s = (case (op, cp) of (Some x, Some y) \<Rightarrow> Some (py_round 4 (x - y)) | _ \<Rightarrow> None) \<and> cs_monthly s = monthly_figures cp op qps"
    using assms True by (auto simp: model_cost_summary_def Let_def ratio_def groups_def cp_def op_def qps_def)
  have round: "py_round 4 y = y" if "cp = Some y" for y
    using that hr_cost_again representative_in unfolding cp_def groups_def by blast
  have none: "op = None" if "ratio = None" using that by (cases cp) (simp_all add: op_def original_cost_def)
  have ge: "y \<le> x" if "ratio = Some r" "1 \<le> r" "op = Some x" "cp = Some y" for r x y
    using that round original_cost_ge by (simp add: op_def)
  have sav: "0 \<le> x" if "1 \<le> r" "ratio = Some r" "cs_savings s = Some x" for r x
    using that s ge by (auto split: option.splits intro!: py_round_nonneg)
  have mon: "0 \<le> x" if "1 \<le> r" "ratio = Some r" "snd (snd (cs_monthly s)) = Some x" for r x
    using that s ge by (auto simp: monthly_figures_def Let_def split: option.splits if_splits intro!: py_round_nonneg monthly_cost_mono)
  have "0 < cs_qps s" if "cs_monthly s \<noteq> (None, None, None)" using that s by (auto simp: monthly_figures_def split: option.splits if_splits)
  moreover have "cs_savings s = None \<and> cs_savings_pct s = None \<and> snd (snd (cs_monthly s)) = None" if "ratio = None"
    using s none [OF that] that by (auto simp: savings_pct_def monthly_figures_def Let_def split: option.splits)
  ultimately show ?thesis using True s none sav mon savings_pct_nonneg by auto
qed

definition priced_db :: db where
  "priced_db = busy_db\<lparr>t_cache := [\<lparr>rc_user = ''u'', rc_model = ''m'', rc_kind = ''benchmark'',
     rc_payload = PBenchmark (Some 20) (Some 10) (Some 99)\<rparr>]\<rparr>"

theorem cost_figures_honest_witness:
  "\<exists>s. model_cost_summary DAY priced_db demo_model ''24h'' None = ok s \<and> cs_source s = ''live'' \<and> cs_ratio s = Some 2 \<and>
    (\<forall>x. cs_savings s = Some x \<longrightarrow> 0 \<le> x)"
proof -
  have h: "has_any_events priced_db (md_id demo_model)"
    by (simp add: has_any_events_def priced_db_def busy_db_def demo_model_def)
  have r: "latency_ratio (get_cached_result priced_db (md_id demo_model) ''benchmark'' (md_user demo_model)) = Some 2"
    by (simp add: latency_ratio_def get_cached_result_def priced_db_def demo_model_def)
  obtain s where s: "model_cost_summary DAY priced_db demo_model ''24h'' None = ok s" "cs_ratio s = Some 2"
    using h r by (auto simp: model_cost_summary_def Let_def)
  show ?thesis using cost_figures_honest [OF s(1)] s h by auto
qed

end
