(* ===== verification/Telemetry_Views.thy ===== *)
theory Telemetry_Views
  imports Drift_Monitor Hardware_Cost
begin

text \<open>
  The remaining read handlers of \<open>app/routers/telemetry.py\<close> and the fleet lens \<open>app/services/fleet.py\<close>:
  availability, deployments, alerts, clients, the latency split and the output statistics.  The output
  column is free-form JSON, so its reader may raise.  The lemmas show that every client is listed once
  with its newest snapshot, and how the latency split cuts the events into points.
\<close>

section \<open>Availability\<close>

record meta_view =
  mv_source :: string
  mv_available :: bool
  mv_reason :: "string option"
  mv_deployments :: nat
  mv_live :: nat
  mv_sources :: "(string \<times> nat) list"
  mv_last_snapshot :: "string option"

definition model_deployments :: "db \<Rightarrow> string \<Rightarrow> deployment_row list" where
  "model_deployments d model_id = filter (\<lambda>x. dp_model x = model_id) (t_deployments d)"

definition live_count :: "deployment_row list \<Rightarrow> nat" where
  "live_count deps = length (filter (\<lambda>x. dp_status x \<noteq> ''paused'') deps)"

definition telemetry_meta :: "db \<Rightarrow> string \<Rightarrow> string \<Rightarrow> meta_view result" where
  "telemetry_meta d model_id user =
     bind_result (owned_model d model_id user) (\<lambda>m.
       let live = has_any_events d model_id; deps = model_deployments d model_id; available = live \<or> deps \<noteq> []
       in ok \<lparr>mv_source = (if live then ''live'' else ''none''), mv_available = available,
              mv_reason = (if available then None
                           else Some (if md_weights_only m then ''weights_only_checkpoint'' else ''not_deployed'')),
              mv_deployments = length deps, mv_live = live_count deps, mv_sources = source_counts model_id d,
              mv_last_snapshot = newest_ts (map sn_ts (filter (\<lambda>r. sn_model r = model_id) (t_snapshots d)))\<rparr>)"

section \<open>Deployments and alerts\<close>

record deployment_view =
  dv_id :: string
  dv_region :: string
  dv_qps :: real
  dv_p95 :: real
  dv_errors :: real
  dv_status :: string

definition telemetry_deployments :: "db \<Rightarrow> string \<Rightarrow> string \<Rightarrow> deployment_view list result" where
  "telemetry_deployments d model_id user =
     bind_result (owned_model d model_id user) (\<lambda>_.
       ok (map (\<lambda>x. \<lparr>dv_id = dp_id x, dv_region = runtime_label (dp_region x), dv_qps = dp_qps x, dv_p95 = dp_p95 x,
                     dv_errors = dp_errors_pct x, dv_status = dp_status x\<rparr>) (model_deployments d model_id)))"

definition telemetry_alerts :: "db \<Rightarrow> string \<Rightarrow> string \<Rightarrow> alert_row list result" where
  "telemetry_alerts d model_id user =
     bind_result (owned_model d model_id user) (\<lambda>_.
       ok (sort_desc al_at (filter (\<lambda>a. al_model a = model_id) (t_alerts d))))"

section \<open>Clients\<close>

text \<open>The first row of each client, in the order of the rows.\<close>

definition keep_first :: "snapshot_row \<Rightarrow> (string \<times> snapshot_row) list \<Rightarrow> (string \<times> snapshot_row) list" where
  "keep_first r latest = (if map_of latest (sn_client r) = None then latest @ [(sn_client r, r)] else latest)"

definition latest_per_client :: "snapshot_row list \<Rightarrow> snapshot_row list" where
  "latest_per_client rows = map snd (fold keep_first rows [])"

record client_view =
  cv_client :: string
  cv_texts :: "(string \<times> string) list"
  cv_numbers :: "(string \<times> real) list"
  cv_last_seen :: string
  cv_rpm :: real
  cv_cpu :: real
  cv_mem :: real
  cv_dropped :: int
  cv_gpu :: "real option \<times> real option \<times> real option"

definition rt_number :: "string \<Rightarrow> (string \<times> json) list \<Rightarrow> real" where
  "rt_number k rt = (case map_of rt k of Some (JNum x) \<Rightarrow> x | _ \<Rightarrow> 0)"

definition client_view_of :: "snapshot_row \<Rightarrow> client_view" where
  "client_view_of r =
     (let rt = sn_runtime r in
      \<lparr>cv_client = sn_client r,
       cv_texts = (''sdkVersion'', sn_sdk_version r) # (''ortVersion'', rt_text ''ort'' rt) #
         (''activeProvider'', if map_of rt ''activeProvider'' = None then rt_text ''provider'' rt else rt_text ''activeProvider'' rt) #
         map (\<lambda>k. (k, rt_text k rt)) [''host'', ''os'', ''arch'', ''provider'', ''cpuModel'', ''gpuName'', ''cudaVersion'', ''driverVersion''],
       cv_numbers = map (\<lambda>k. (k, rt_number k rt)) [''cpuCores'', ''ramTotalMb'', ''gpuMemTotalMb''],
       cv_last_seen = sn_ts r, cv_rpm = sn_throughput r, cv_cpu = sn_cpu r, cv_mem = sn_rss r, cv_dropped = sn_dropped r,
       cv_gpu = (sn_gpu_util r, sn_gpu_mem r, sn_gpu_temp r)\<rparr>)"

definition CLIENT_ROWS :: nat where "CLIENT_ROWS = 500"

definition clients_of :: "db \<Rightarrow> string \<Rightarrow> client_view list" where
  "clients_of d model_id =
     sort_desc cv_last_seen (map client_view_of (latest_per_client
       (take CLIENT_ROWS (sort_desc sn_ts (filter (\<lambda>r. sn_model r = model_id) (t_snapshots d))))))"

definition telemetry_clients :: "db \<Rightarrow> string \<Rightarrow> string \<Rightarrow> client_view list result" where
  "telemetry_clients d model_id user = bind_result (owned_model d model_id user) (\<lambda>_. ok (clients_of d model_id))"

section \<open>The latency split\<close>

definition range_start :: "instant \<Rightarrow> string \<Rightarrow> string" where
  "range_start now key =
     (let hours = (case map_of [(''1h'', 1), (''6h'', 6), (''24h'', 24), (''7d'', 168), (''30d'', 720)] key of Some h \<Rightarrow> h | None \<Rightarrow> 24)
      in iso (now - hours * HOUR))"

record split_point =
  sp_t :: string
  sp_pre :: real
  sp_inference :: real
  sp_post :: real

definition split_point_of :: "event_row list \<Rightarrow> split_point" where
  "split_point_of chunk =
     (let m = of_nat (length chunk); or0 = (\<lambda>x. case x of Some v \<Rightarrow> v | None \<Rightarrow> 0) in
      \<lparr>sp_t = ev_ts (hd chunk), sp_pre = py_round 3 (sum_list (map (or0 \<circ> ev_pre) chunk) / m),
       sp_inference = py_round 3 (sum_list (map ev_latency chunk) / m), sp_post = py_round 3 (sum_list (map (or0 \<circ> ev_post) chunk) / m)\<rparr>)"

definition chunk_size :: "nat \<Rightarrow> nat" where
  "chunk_size n = max 1 (n div min 48 n)"

definition telemetry_breakdown :: "instant \<Rightarrow> db \<Rightarrow> string \<Rightarrow> string \<Rightarrow> string \<Rightarrow> split_point list result" where
  "telemetry_breakdown now d model_id user range_str =
     bind_result (owned_model d model_id user) (\<lambda>_.
       let start = range_start now (range_key range_str);
           events = sort_key ev_ts (filter (\<lambda>e. ev_model e = model_id \<and> ev_source e = ''client'' \<and> start \<le> ev_ts e \<and> ev_pre e \<noteq> None) (t_events d))
       in ok (if events = [] then [] else map split_point_of (chunks (chunk_size (length events)) events)))"

section \<open>Output statistics\<close>

text \<open>The accumulators: the histogram, the weighted confidence and entropy, the class weights, the total.\<close>

record out_acc =
  oa_hist :: "real list"
  oa_conf :: real
  oa_ent :: real
  oa_class :: "(string \<times> real) list"
  oa_total :: real

definition json_items :: "json \<Rightarrow> json list result" where
  "json_items j =
     (case j of JList js \<Rightarrow> ok js | JStr s \<Rightarrow> ok (map (\<lambda>c. JStr [c]) s) | JObj kvs \<Rightarrow> ok (map (\<lambda>(k, _). JStr k) kvs)
      | _ \<Rightarrow> raise TypeError)"

definition add_hist :: "(string \<Rightarrow> real option) \<Rightarrow> (string \<times> json) list \<Rightarrow> real list \<Rightarrow> real list result" where
  "add_hist num out acc =
     (case map_of out ''hist'' of
        None \<Rightarrow> ok acc
      | Some j \<Rightarrow>
          if falsy j then ok acc
          else bind_result (json_items j) (\<lambda>hist.
            let acc0 = (if acc = [] then replicate (length hist) 0 else acc)
            in if length hist \<noteq> length acc0 then ok acc0
               else bind_result (mapM_result (float_of num) hist) (\<lambda>hs. ok (map2 (+) acc0 hs))))"

definition add_weighted :: "(string \<Rightarrow> real option) \<Rightarrow> string \<Rightarrow> (string \<times> json) list \<Rightarrow> real \<Rightarrow> real \<Rightarrow> real result" where
  "add_weighted num k out n acc =
     (case map_of out k of
        None \<Rightarrow> ok acc
      | Some j \<Rightarrow> if j = JNull then ok acc else bind_result (float_of num j) (\<lambda>x. ok (acc + x * n)))"

definition add_class :: "real \<Rightarrow> string \<times> real \<Rightarrow> (string \<times> real) list \<Rightarrow> (string \<times> real) list" where
  "add_class n kx acc = AList.update (fst kx) ((case map_of acc (fst kx) of Some v \<Rightarrow> v | None \<Rightarrow> 0) + snd kx * n) acc"

definition add_window :: "(string \<Rightarrow> real option) \<Rightarrow> window_row \<Rightarrow> out_acc \<Rightarrow> out_acc result" where
  "add_window num w a =
     (case wn_output w of
        None \<Rightarrow> ok a
      | Some out \<Rightarrow>
          let n = of_nat (max 1 (wn_n w)) in
          bind_result (add_hist num out (oa_hist a)) (\<lambda>hist.
          bind_result (add_weighted num ''top1ConfMean'' out n (oa_conf a)) (\<lambda>conf.
          bind_result (add_weighted num ''entropyMean'' out n (oa_ent a)) (\<lambda>ent.
          bind_result (class_dist num out) (\<lambda>dist.
            ok \<lparr>oa_hist = hist, oa_conf = conf, oa_ent = ent, oa_class = fold (add_class n) dist (oa_class a),
                oa_total = oa_total a + n\<rparr>)))))"

fun add_windows :: "(string \<Rightarrow> real option) \<Rightarrow> window_row list \<Rightarrow> out_acc \<Rightarrow> out_acc result" where
  "add_windows num [] a = ok a"
| "add_windows num (w # ws) a = bind_result (add_window num w a) (add_windows num ws)"

text \<open>A bin is its position, which the label prints with two decimals, and its count.\<close>

record output_view =
  ov_bins :: "(real \<times> real) list"
  ov_conf :: "real option"
  ov_ent :: "real option"
  ov_class :: "(string \<times> real) list"
  ov_windows :: nat

definition output_view_of :: "nat \<Rightarrow> out_acc \<Rightarrow> output_view" where
  "output_view_of n a =
     (let mean4 = (\<lambda>x. if oa_total a \<noteq> 0 \<and> x \<noteq> 0 then Some (py_round 4 (x / oa_total a)) else None) in
      \<lparr>ov_bins = map (\<lambda>(i, v). (of_nat i / of_nat (max 1 (length (oa_hist a))), py_round 1 v)) (enumerate 0 (oa_hist a)),
       ov_conf = mean4 (oa_conf a), ov_ent = mean4 (oa_ent a),
       ov_class = (if oa_total a = 0 then []
                   else map (\<lambda>(c, v). (c, py_round 4 (v / oa_total a))) (take 10 (sort_key (\<lambda>(_, v). - v) (oa_class a)))),
       ov_windows = n\<rparr>)"

definition telemetry_output_stats ::
  "(string \<Rightarrow> real option) \<Rightarrow> instant \<Rightarrow> db \<Rightarrow> string \<Rightarrow> string \<Rightarrow> string \<Rightarrow> output_view result" where
  "telemetry_output_stats num now d model_id user range_str =
     bind_result (owned_model d model_id user) (\<lambda>_.
       let start = range_start now (range_key range_str);
           wins = sort_key wn_start (filter (\<lambda>w. wn_model w = model_id \<and> start \<le> wn_start w) (t_windows d))
       in if wins = [] then ok \<lparr>ov_bins = [], ov_conf = None, ov_ent = None, ov_class = [], ov_windows = 0\<rparr>
          else bind_result (add_windows num wins \<lparr>oa_hist = [], oa_conf = 0, oa_ent = 0, oa_class = [], oa_total = 0\<rparr>)
                 (\<lambda>a. ok (output_view_of (length wins) a)))"

section \<open>The stream's snapshot and the fleet\<close>

record stream_view =
  st_source :: string
  st_deployments :: nat
  st_live :: nat
  st_open_alerts :: nat
  st_at :: string

definition stream_snapshot :: "instant \<Rightarrow> db \<Rightarrow> string \<Rightarrow> stream_view" where
  "stream_snapshot now d model_id =
     \<lparr>st_source = (if has_any_events d model_id then ''live'' else ''none''),
      st_deployments = length (model_deployments d model_id), st_live = live_count (model_deployments d model_id),
      st_open_alerts = length (filter (\<lambda>a. al_model a = model_id) (t_alerts d)), st_at = iso now\<rparr>"

text \<open>The event stream: a tick reads the model and then the counts, and the stream ends at the first tick at which the model is not the user's any more.
  \<open>ticks\<close> are the times and tables of the ticks until the client leaves; between them the handler sleeps.\<close>

definition stream_pause :: "int \<Rightarrow> int" where
  "stream_pause interval = max 4 interval"

definition stream_tick :: "string \<Rightarrow> string \<Rightarrow> instant \<times> db \<Rightarrow> stream_view option" where
  "stream_tick user model_id t = (case owned_model (snd t) model_id user of Inl _ \<Rightarrow> None | Inr _ \<Rightarrow> Some (stream_snapshot (fst t) (snd t) model_id))"

fun live_source :: "string \<Rightarrow> string \<Rightarrow> (instant \<times> db) list \<Rightarrow> stream_view list" where
  "live_source user model_id [] = []"
| "live_source user model_id (t # ticks) =
     (case stream_tick user model_id t of None \<Rightarrow> [] | Some s \<Rightarrow> s # live_source user model_id ticks)"

definition live_stream :: "string \<Rightarrow> string \<Rightarrow> db \<Rightarrow> (instant \<times> db) list \<Rightarrow> stream_view list result" where
  "live_stream user model_id d ticks = bind_result (owned_model d model_id user) (\<lambda>_. ok (live_source user model_id ticks))"

lemma live_source_stops: "live_source user model_id ticks = map (the \<circ> stream_tick user model_id) (takeWhile (\<lambda>t. stream_tick user model_id t \<noteq> None) ticks)"
  by (induction ticks) (auto split: option.split)

definition model_tolerance :: "db \<Rightarrow> string \<Rightarrow> string \<Rightarrow> real option" where
  "model_tolerance d model_id user =
     (case get_cached_result d model_id ''pareto'' user of Some (PPareto _ _ budget) \<Rightarrow> budget | _ \<Rightarrow> None)"

record fleet_health =
  fh_status :: string
  fh_live :: nat
  fh_total :: nat
  fh_drifting :: nat
  fh_open :: nat
  fh_danger :: nat
  fh_warning :: nat

definition drifting :: "db \<Rightarrow> string \<Rightarrow> deployment_row \<Rightarrow> bool" where
  "drifting d user x \<longleftrightarrow>
     (case model_tolerance d (dp_model x) user of Some tol \<Rightarrow> dp_accuracy_drift x > tol | None \<Rightarrow> False)"

definition workspace_fleet_health :: "db \<Rightarrow> string \<Rightarrow> fleet_health" where
  "workspace_fleet_health d user =
     (let deployments = filter (\<lambda>x. dp_user x = user) (t_deployments d);
          alerts = filter (\<lambda>a. al_user a = user) (t_alerts d);
          live = filter (\<lambda>x. dp_status x \<noteq> ''paused'') deployments;
          n_drift = length (filter (drifting d user) live);
          danger = length (filter (\<lambda>a. al_level a = ''danger'') alerts);
          warning = length (filter (\<lambda>a. al_level a = ''warning'') alerts)
      in \<lparr>fh_status = (if danger > 0 \<or> n_drift > 0 then ''danger'' else if warning > 0 then ''warning''
                       else if length live > 0 then ''healthy'' else ''idle''),
          fh_live = length live, fh_total = length deployments, fh_drifting = n_drift, fh_open = length alerts,
          fh_danger = danger, fh_warning = warning\<rparr>)"

section \<open>One row per client\<close>

lemma map_of_keep_first:
  "map_of (fold keep_first rows acc) c = (case map_of acc c of Some r \<Rightarrow> Some r | None \<Rightarrow> find (\<lambda>r. sn_client r = c) rows)"
  by (induction rows arbitrary: acc) (auto simp: keep_first_def map_of_append map_add_def split: option.split)

lemma keep_first_inv:
  "distinct (map fst acc) \<Longrightarrow> \<forall>(c, r) \<in> set acc. sn_client r = c \<Longrightarrow>
   distinct (map fst (fold keep_first rows acc)) \<and> (\<forall>(c, r) \<in> set (fold keep_first rows acc). sn_client r = c)"
proof (induction rows arbitrary: acc)
  case (Cons r rows)
  have "distinct (map fst (keep_first r acc))" using Cons.prems(1) by (simp add: keep_first_def map_of_eq_None_iff)
  moreover have "\<forall>(c, r) \<in> set (keep_first r acc). sn_client r = c" using Cons.prems(2) by (auto simp: keep_first_def)
  ultimately show ?case using Cons.IH by simp
qed simp

lemma latest_per_client_distinct: "distinct (map sn_client (latest_per_client rows))"
proof -
  note k = keep_first_inv [of "[]" rows]
  have "map sn_client (latest_per_client rows) = map fst (fold keep_first rows [])"
    using k by (auto simp: latest_per_client_def)
  with k show ?thesis by simp
qed

lemma latest_per_client_mem:
  "r \<in> set (latest_per_client rows) \<longleftrightarrow> find (\<lambda>x. sn_client x = sn_client r) rows = Some r"
proof -
  note k = keep_first_inv [of "[]" rows]
  have "r \<in> set (latest_per_client rows) \<longleftrightarrow> (sn_client r, r) \<in> set (fold keep_first rows [])"
    using k by (force simp: latest_per_client_def)
  also have "\<dots> \<longleftrightarrow> map_of (fold keep_first rows []) (sn_client r) = Some r" using k by (simp add: map_of_eq_Some_iff)
  finally show ?thesis by (simp add: map_of_keep_first)
qed

lemma find_first_max:
  "sorted_wrt (\<lambda>a b. f b \<le> f a) xs \<Longrightarrow> find p (take k xs) = Some r \<Longrightarrow> x \<in> set xs \<Longrightarrow> p x \<Longrightarrow> f x \<le> f r" for f :: "'a \<Rightarrow> 'k::linorder"
proof (induction xs arbitrary: k)
  case (Cons y ys)
  from Cons.prems(2) obtain j where k: "k = Suc j" by (cases k) auto
  show ?case
  proof (cases "p y")
    case True then show ?thesis using Cons.prems k by auto
  next
    case False then show ?thesis using Cons.prems Cons.IH [of j] k by auto
  qed
qed simp

text \<open>The client panel lists each client at most once, the one seen last first, with its newest
  snapshot of the model; and it lists every client as long as the model has no more snapshots than the cap.\<close>

theorem clients_listed_once:
  "distinct (map cv_client (clients_of d m)) \<and> sorted_wrt (\<lambda>a b. cv_last_seen b \<le> cv_last_seen a) (clients_of d m) \<and>
   (\<forall>c \<in> set (clients_of d m). \<forall>r \<in> set (t_snapshots d). sn_model r = m \<and> sn_client r = cv_client c \<longrightarrow> sn_ts r \<le> cv_last_seen c) \<and>
   (length (filter (\<lambda>r. sn_model r = m) (t_snapshots d)) \<le> CLIENT_ROWS \<longrightarrow>
     cv_client ` set (clients_of d m) = sn_client ` set (filter (\<lambda>r. sn_model r = m) (t_snapshots d)))"
proof -
  define rows where "rows = sort_desc sn_ts (filter (\<lambda>r. sn_model r = m) (t_snapshots d))"
  define top where "top = take CLIENT_ROWS rows"
  have c: "clients_of d m = sort_desc cv_last_seen (map client_view_of (latest_per_client top))"
    by (simp add: clients_of_def rows_def top_def)
  have v: "cv_client (client_view_of r) = sn_client r" "cv_last_seen (client_view_of r) = sn_ts r" for r
    by (simp_all add: client_view_of_def Let_def)
  have "mset (map cv_client (clients_of d m)) = mset (map sn_client (latest_per_client top))"
    by (simp add: c comp_def v image_mset.compositionality)
  then have "distinct (map cv_client (clients_of d m))" using latest_per_client_distinct by (metis mset_eq_imp_distinct_iff)
  moreover have "sorted_wrt (\<lambda>a b. cv_last_seen b \<le> cv_last_seen a) (clients_of d m)" unfolding c by (rule sorted_sort_desc)
  moreover have "sn_ts r \<le> cv_last_seen x"
    if "x \<in> set (clients_of d m)" "r \<in> set (t_snapshots d)" "sn_model r = m" "sn_client r = cv_client x" for x r
  proof -
    note x = that(1)
    obtain y where y: "x = client_view_of y" "y \<in> set (latest_per_client top)" using x unfolding c set_sort_desc set_map by blast
    then have f: "find (\<lambda>z. sn_client z = sn_client y) (take CLIENT_ROWS rows) = Some y"
      by (simp add: latest_per_client_mem top_def)
    have "sorted_wrt (\<lambda>a b. sn_ts b \<le> sn_ts a) rows" unfolding rows_def by (rule sorted_sort_desc)
    from find_first_max [OF this f, of r] that show ?thesis by (simp add: y(1) v rows_def)
  qed
  moreover have "cv_client ` set (clients_of d m) = sn_client ` set rows" if "length rows \<le> CLIENT_ROWS"
  proof -
    have t: "top = rows" using that by (simp add: top_def)
    have "\<exists>x \<in> set (latest_per_client rows). sn_client x = sn_client r" if "r \<in> set rows" for r
    proof -
      have "find (\<lambda>z. sn_client z = sn_client r) rows \<noteq> None" using that by (auto simp: find_None_iff)
      then obtain x where x: "find (\<lambda>z. sn_client z = sn_client r) rows = Some x" by blast
      then have "sn_client x = sn_client r" by (auto simp: find_Some_iff)
      with x show ?thesis by (intro bexI [of _ x]) (simp_all add: latest_per_client_mem)
    qed
    moreover have "x \<in> set rows" if "x \<in> set (latest_per_client rows)" for x
      using that by (auto simp: latest_per_client_mem find_Some_iff)
    ultimately show ?thesis unfolding c t by (auto simp: v image_image) (metis imageI)+
  qed
  ultimately show ?thesis by (simp add: rows_def)
qed

section \<open>The points of the latency split\<close>

text \<open>The latency split loses no request: its points are the averages of consecutive, nonempty groups
  that put together are the window's client events in order of their stamps.  There are at most 95 of
  them; the limit of 48 the code computes is not kept, 95 events give 95 points.\<close>

theorem split_covers_every_event:
  assumes "telemetry_breakdown now d m u range_str = ok ps"
    and "events = sort_key ev_ts (filter (\<lambda>e. ev_model e = m \<and> ev_source e = ''client'' \<and>
           range_start now (range_key range_str) \<le> ev_ts e \<and> ev_pre e \<noteq> None) (t_events d))"
  shows "(\<exists>css. ps = map split_point_of css \<and> concat css = events \<and> [] \<notin> set css) \<and> length ps \<le> 95 \<and>
    (length events = 95 \<longrightarrow> length ps = 95)"
proof (cases "events = []")
  case True
  then have "ps = []" using assms by (cases "owned_model d m u") (auto simp: telemetry_breakdown_def Let_def)
  with True show ?thesis by (intro conjI exI [of _ "[]"]) auto
next
  case False
  define css where "css = chunks (chunk_size (length events)) events"
  have ps: "ps = map split_point_of css"
    using assms False by (cases "owned_model d m u") (auto simp: telemetry_breakdown_def Let_def css_def)
  have s: "0 < chunk_size (length events)" by (simp add: chunk_size_def)
  have "concat css = events" "[] \<notin> set css"
    using concat_chunks [OF s] chunks_nonempty [of "[]"] by (auto simp: css_def)
  moreover have "length css \<le> 95" using chunk_count [of 48 events] by (simp add: css_def chunk_size_def)
  moreover have "length css = 95" if "length events = 95"
  proof -
    have one: "chunk_size 95 = 1" by (simp add: chunk_size_def)
    show ?thesis using that one by (simp add: css_def)
  qed
  ultimately show ?thesis unfolding ps by auto
qed

definition split_db :: db where
  "split_db = deployed_db\<lparr>t_events := map (\<lambda>e. e\<lparr>ev_pre := Some 1\<rparr>) (t_events busy_db)\<rparr>"

theorem split_covers_every_event_witness:
  "\<exists>ps. telemetry_breakdown DAY split_db ''m'' ''u'' ''24h'' = ok ps \<and> length ps \<le> 95"
proof -
  obtain mdl where "owned_model split_db ''m'' ''u'' = ok mdl"
    by (auto simp: owned_model_def get_model_row_def split_db_def deployed_db_def model_db_def demo_model_def empty_db_def
        split: option.splits)
  then obtain ps where "telemetry_breakdown DAY split_db ''m'' ''u'' ''24h'' = ok ps"
    by (auto simp: telemetry_breakdown_def Let_def)
  from split_covers_every_event [OF this refl] this show ?thesis by blast
qed

definition demo_snapshot :: "string \<Rightarrow> string \<Rightarrow> snapshot_row" where
  "demo_snapshot c ts = \<lparr>sn_user = ''u'', sn_model = ''m'', sn_deployment = ''dep_1'', sn_client = c, sn_ts = ts, sn_cpu = 1,
     sn_rss = 1, sn_throughput = 1, sn_dropped = 0, sn_sdk_version = '''', sn_runtime = [], sn_gpu_util = None,
     sn_gpu_mem = None, sn_gpu_temp = None\<rparr>"

theorem clients_listed_once_witness:
  "cv_client ` set (clients_of (empty_db\<lparr>t_snapshots := [demo_snapshot ''a'' ''1'', demo_snapshot ''b'' ''2'', demo_snapshot ''a'' ''3'']\<rparr>) ''m'')
     = {''a'', ''b''}"
proof -
  let ?d = "empty_db\<lparr>t_snapshots := [demo_snapshot ''a'' ''1'', demo_snapshot ''b'' ''2'', demo_snapshot ''a'' ''3'']\<rparr>"
  have "length (filter (\<lambda>r. sn_model r = ''m'') (t_snapshots ?d)) \<le> CLIENT_ROWS" by (simp add: demo_snapshot_def CLIENT_ROWS_def)
  with clients_listed_once [of ?d "''m''"] show ?thesis by (auto simp: demo_snapshot_def)
qed

end
