(* ===== verification/Sdk_Reporter.thy ===== *)
theory Sdk_Reporter
  imports Client_Telemetry
begin

text \<open>
  The device side of telemetry: the reporter of \<open>clients/python/astra_sdk/telemetry.py\<close> with its
  queues and its spool of segments on disk, and the retrying request of
  \<open>clients/python/astra_sdk/_http.py\<close>.  The statistics of a window, the host sample, the clock, the
  batch ids and whether a write to the disk succeeds are arguments.  The lemmas show what a
  batch holds and when one leaves the device; against the ingestion model they give the
  end-to-end guarantee.
\<close>

section \<open>HTTP\<close>

datatype reply = Status nat | Broken          \<comment> \<open>\<open>Broken\<close>: a transport error\<close>

definition RETRYABLE_STATUS :: "nat list" where "RETRYABLE_STATUS = [429, 502, 503, 504]"

definition is_success :: "nat \<Rightarrow> bool" where
  "is_success s \<longleftrightarrow> s < 400 \<or> s = 304"

text \<open>Up to \<open>n\<close> attempts; the last error is what the caller sees.\<close>

fun http_request :: "nat \<Rightarrow> ('b \<Rightarrow> 'w \<Rightarrow> reply \<times> 'w) \<Rightarrow> 'b \<Rightarrow> 'w \<Rightarrow> reply \<times> 'w" where
  "http_request 0 post b w = (Broken, w)"
| "http_request (Suc n) post b w =
     (let (r, w1) = post b w in
      case r of
        Broken \<Rightarrow> if n = 0 then (r, w1) else http_request n post b w1
      | Status s \<Rightarrow>
          if is_success s then (r, w1)
          else if s \<notin> set RETRYABLE_STATUS then (r, w1)
          else if n = 0 then (r, w1) else http_request n post b w1)"

section \<open>The reporter's state\<close>

definition QUEUE_MAX :: nat where "QUEUE_MAX = 10000"
definition BATCH_MAX :: nat where "BATCH_MAX = 450"
definition SIDE_MAX :: nat where "SIDE_MAX = 64"
definition MEM_PENDING_MAX :: nat where "MEM_PENDING_MAX = 64"
definition WINDOW_MAX_REQUESTS :: nat where "WINDOW_MAX_REQUESTS = 200"
definition SPOOL_MAX_BYTES :: nat where "SPOOL_MAX_BYTES = 32 * 1024 * 1024"
definition RETRY_LATER_STATUS :: "nat list" where "RETRY_LATER_STATUS = [401, 403, 408, 409, 429]"

text \<open>A segment on disk has a name and holds a batch, or a text that does not parse.\<close>

type_synonym segment = "string \<times> batch option"

record reporter =
  rp_enabled :: bool
  rp_client :: string
  rp_events :: "client_event list"
  rp_snapshots :: "client_snapshot list"
  rp_windows :: "client_window list"
  rp_mem :: "batch list"
  rp_dropped :: nat
  rp_sent :: nat
  rp_window_requests :: nat
  rp_marker :: "real \<times> nat"
  rp_spool_on :: bool
  rp_spool :: "segment list"
  rp_seq :: nat
  rp_closed :: bool

text \<open>\<open>deque(maxlen=n).append\<close>.\<close>

definition deque_append :: "nat \<Rightarrow> 'a \<Rightarrow> 'a list \<Rightarrow> 'a list" where
  "deque_append n x q = (let q1 = q @ [x] in drop (length q1 - n) q1)"

lemma deque_append_bound: "length (deque_append n x q) \<le> n"
  by (simp add: deque_append_def)

section \<open>Recording\<close>

definition take_window :: "client_window option \<Rightarrow> reporter \<Rightarrow> reporter" where
  "take_window stats r =
     (let r1 = r\<lparr>rp_window_requests := 0\<rparr>
      in case stats of None \<Rightarrow> r1 | Some w \<Rightarrow> r1\<lparr>rp_windows := deque_append SIDE_MAX w (rp_windows r1)\<rparr>)"

definition record_event ::
  "instant \<Rightarrow> client_event \<Rightarrow> client_window option \<Rightarrow> reporter \<Rightarrow> reporter" where
  "record_event now e stats r =
     (if \<not> rp_enabled r then r
      else let event = e\<lparr>ce_ts := iso now, ce_latency := py_round 3 (ce_latency e), ce_pre := map_option (py_round 3) (ce_pre e),
                         ce_post := map_option (py_round 3) (ce_post e),
                         ce_error := (if ce_error e = Some '''' then None else ce_error e),
                         ce_input_sig := (if ce_input_sig e = Some '''' then None else ce_input_sig e)\<rparr>;
               r1 = r\<lparr>rp_dropped := rp_dropped r + (if length (rp_events r) = QUEUE_MAX then 1 else 0),
                      rp_events := deque_append QUEUE_MAX event (rp_events r),
                      rp_sent := rp_sent r + 1, rp_window_requests := rp_window_requests r + 1\<rparr>
           in if rp_window_requests r1 \<ge> WINDOW_MAX_REQUESTS then take_window stats r1 else r1)"

text \<open>A snapshot: the host sample with the time, the rate since the last one and the drop count.\<close>

definition take_snapshot :: "real \<Rightarrow> instant \<Rightarrow> client_snapshot \<Rightarrow> reporter \<Rightarrow> reporter" where
  "take_snapshot ticks now sample r =
     (let elapsed = max (1 / 1000000) ((ticks - fst (rp_marker r)) / 60);
          rpm = (of_nat (rp_sent r) - of_nat (snd (rp_marker r))) / elapsed
      in r\<lparr>rp_marker := (ticks, rp_sent r),
           rp_snapshots := deque_append SIDE_MAX
             (sample\<lparr>cs_ts := iso now, cs_throughput := py_round 2 rpm, cs_dropped := int (rp_dropped r)\<rparr>) (rp_snapshots r)\<rparr>)"

section \<open>Draining and spooling\<close>

definition drain_to_batch :: "string \<Rightarrow> reporter \<Rightarrow> batch option \<times> reporter" where
  "drain_to_batch i r =
     (let budget = BATCH_MAX - length (rp_snapshots r) - length (rp_windows r);
          n = min budget (length (rp_events r));
          r1 = r\<lparr>rp_snapshots := [], rp_windows := [], rp_events := drop n (rp_events r)\<rparr>
      in if take n (rp_events r) = [] \<and> rp_snapshots r = [] \<and> rp_windows r = [] then (None, r1)
         else (Some \<lparr>tb_client = rp_client r, tb_id = Some i, tb_events = take n (rp_events r),
                     tb_snapshots = rp_snapshots r, tb_windows = rp_windows r\<rparr>, r1))"

definition spool_segments :: "reporter \<Rightarrow> segment list" where
  "spool_segments r = sort_key fst (rp_spool r)"

definition unlink :: "string \<Rightarrow> reporter \<Rightarrow> reporter" where
  "unlink name r = r\<lparr>rp_spool := filter (\<lambda>s. fst s \<noteq> name) (rp_spool r)\<rparr>"

text \<open>Dropping the oldest segments while the spool is over its cap: one drop is counted per
  segment.\<close>

fun evict :: "(batch option \<Rightarrow> nat) \<Rightarrow> nat \<Rightarrow> segment list \<Rightarrow> reporter \<Rightarrow> reporter" where
  "evict fsize bytes [] r = r"
| "evict fsize bytes (s # segs) r =
     (if bytes > SPOOL_MAX_BYTES
      then evict fsize (bytes - fsize (snd s)) segs ((unlink (fst s) r)\<lparr>rp_dropped := rp_dropped r + 1\<rparr>)
      else r)"

definition enforce_spool_cap :: "(batch option \<Rightarrow> nat) \<Rightarrow> reporter \<Rightarrow> reporter" where
  "enforce_spool_cap fsize r =
     (let segs = spool_segments r in evict fsize (sum_list (map (\<lambda>s. fsize (snd s)) segs)) segs r)"

definition segment_name :: "instant \<Rightarrow> nat \<Rightarrow> string" where
  "segment_name now n = ''seg-'' @ zero_pad 13 (str_of_nat (nat (now div 1000))) @ ''-'' @ zero_pad 4 (str_of_nat n) @ ''.json''"

text \<open>\<open>disk\<close> says whether the write succeeds.  A segment of the same name is replaced.\<close>

definition spool_write :: "(batch option \<Rightarrow> nat) \<Rightarrow> instant \<Rightarrow> bool \<Rightarrow> batch \<Rightarrow> reporter \<Rightarrow> bool \<times> reporter" where
  "spool_write fsize now disk b r =
     (let r1 = enforce_spool_cap fsize r; r2 = r1\<lparr>rp_seq := rp_seq r1 + 1\<rparr>;
          name = segment_name now (rp_seq r2)
      in if disk then (True, (unlink name r2)\<lparr>rp_spool := rp_spool (unlink name r2) @ [(name, Some b)]\<rparr>)
         else (False, r2))"

section \<open>Sending\<close>

definition permanent :: "nat \<Rightarrow> bool" where
  "permanent s \<longleftrightarrow> 400 \<le> s \<and> s < 500 \<and> s \<notin> set RETRY_LATER_STATUS"

text \<open>Whether the batch is finished, the events to count as dropped, and the world after.\<close>

definition send_batch :: "(batch \<Rightarrow> 'w \<Rightarrow> reply \<times> 'w) \<Rightarrow> batch \<Rightarrow> 'w \<Rightarrow> (bool \<times> nat) \<times> 'w" where
  "send_batch post b w =
     (case http_request 2 post b w of
        (Broken, w1) \<Rightarrow> ((False, 0), w1)
      | (Status s, w1) \<Rightarrow>
          if is_success s then ((True, 0), w1)
          else if permanent s then ((True, length (tb_events b)), w1)
          else ((False, 0), w1))"

fun send_spool :: "(batch \<Rightarrow> 'w \<Rightarrow> reply \<times> 'w) \<Rightarrow> segment list \<Rightarrow> reporter \<Rightarrow> 'w \<Rightarrow> bool \<times> reporter \<times> 'w" where
  "send_spool post [] r w = (True, r, w)"
| "send_spool post ((name, None) # segs) r w = send_spool post segs (unlink name r) w"
| "send_spool post ((name, Some b) # segs) r w =
     (case send_batch post b w of
        ((True, n), w1) \<Rightarrow> send_spool post segs ((unlink name r)\<lparr>rp_dropped := rp_dropped r + n\<rparr>) w1
      | ((False, _), w1) \<Rightarrow> (False, r, w1))"

fun send_mem :: "(batch \<Rightarrow> 'w \<Rightarrow> reply \<times> 'w) \<Rightarrow> batch list \<Rightarrow> reporter \<Rightarrow> 'w \<Rightarrow> bool \<times> reporter \<times> 'w" where
  "send_mem post [] r w = (True, r\<lparr>rp_mem := []\<rparr>, w)"
| "send_mem post (b # bs) r w =
     (case send_batch post b w of
        ((True, n), w1) \<Rightarrow> send_mem post bs (r\<lparr>rp_dropped := rp_dropped r + n\<rparr>) w1
      | ((False, _), w1) \<Rightarrow> (False, r\<lparr>rp_mem := b # bs\<rparr>, w1))"

definition send_pending :: "(batch \<Rightarrow> 'w \<Rightarrow> reply \<times> 'w) \<Rightarrow> reporter \<Rightarrow> 'w \<Rightarrow> bool \<times> reporter \<times> 'w" where
  "send_pending post r w =
     (if \<not> rp_enabled r then (True, r, w)
      else case (if rp_spool_on r then send_spool post (spool_segments r) r w else (True, r, w)) of
          (False, r1, w1) \<Rightarrow> (False, r1, w1)
        | (True, r1, w1) \<Rightarrow> send_mem post (rp_mem r1) r1 w1)"

definition hold :: "batch \<Rightarrow> reporter \<Rightarrow> reporter" where
  "hold b r = r\<lparr>rp_dropped := rp_dropped r + (if length (rp_mem r) = MEM_PENDING_MAX then 1 else 0),
                rp_mem := deque_append MEM_PENDING_MAX b (rp_mem r)\<rparr>"

definition stash :: "(batch option \<Rightarrow> nat) \<Rightarrow> instant \<Rightarrow> bool \<Rightarrow> string \<Rightarrow> reporter \<Rightarrow> reporter" where
  "stash fsize now disk i r =
     (case drain_to_batch i r of
        (None, r1) \<Rightarrow> r1
      | (Some b, r1) \<Rightarrow>
          if rp_spool_on r1 then (case spool_write fsize now disk b r1 of (True, r2) \<Rightarrow> r2 | (False, r2) \<Rightarrow> hold b r2)
          else hold b r1)"

definition flush ::
  "(batch option \<Rightarrow> nat) \<Rightarrow> instant \<Rightarrow> bool \<Rightarrow> string \<Rightarrow> (batch \<Rightarrow> 'w \<Rightarrow> reply \<times> 'w) \<Rightarrow> reporter \<Rightarrow> 'w \<Rightarrow> bool \<times> reporter \<times> 'w" where
  "flush fsize now disk i post r w =
     (if \<not> rp_enabled r then (True, r, w) else send_pending post (stash fsize now disk i r) w)"

text \<open>Closing: one more snapshot and window, a flush, and up to \<open>tries\<close> more passes while the
  deadline has not passed.\<close>

fun drain_out :: "nat \<Rightarrow> (batch \<Rightarrow> 'w \<Rightarrow> reply \<times> 'w) \<Rightarrow> reporter \<Rightarrow> 'w \<Rightarrow> reporter \<times> 'w" where
  "drain_out 0 post r w = (r, w)"
| "drain_out (Suc n) post r w =
     (case send_pending post r w of (True, r1, w1) \<Rightarrow> (r1, w1) | (False, r1, w1) \<Rightarrow> drain_out n post r1 w1)"

definition close_reporter ::
  "(batch option \<Rightarrow> nat) \<Rightarrow> real \<Rightarrow> instant \<Rightarrow> client_snapshot \<Rightarrow> client_window option \<Rightarrow> bool \<Rightarrow> string \<Rightarrow> nat
     \<Rightarrow> (batch \<Rightarrow> 'w \<Rightarrow> reply \<times> 'w) \<Rightarrow> reporter \<Rightarrow> 'w \<Rightarrow> reporter \<times> 'w" where
  "close_reporter fsize ticks now sample stats disk i tries post r w =
     (if \<not> rp_enabled r \<or> rp_closed r then (r, w)
      else case flush fsize now disk i post (take_window stats (take_snapshot ticks now sample (r\<lparr>rp_closed := True\<rparr>))) w of
          (_, r1, w1) \<Rightarrow> drain_out tries post r1 w1)"

section \<open>What a batch holds\<close>

definition queues_bounded :: "reporter \<Rightarrow> bool" where
  "queues_bounded r \<longleftrightarrow> length (rp_events r) \<le> QUEUE_MAX \<and> length (rp_snapshots r) \<le> SIDE_MAX \<and>
     length (rp_windows r) \<le> SIDE_MAX \<and> length (rp_mem r) \<le> MEM_PENDING_MAX"

definition batch_fits :: "batch \<Rightarrow> bool" where
  "batch_fits b \<longleftrightarrow> 0 < batch_items b \<and> batch_items b \<le> BATCH_MAX"

definition pending :: "reporter \<Rightarrow> batch list" where
  "pending r = List.map_filter snd (rp_spool r) @ rp_mem r"

lemma set_map_filter_snd: "b \<in> set (List.map_filter snd ss) \<longleftrightarrow> (\<exists>n. (n, Some b) \<in> set ss)"
  by (force simp: map_filter_def)

lemma pending_iff: "b \<in> set (pending r) \<longleftrightarrow> (\<exists>n. (n, Some b) \<in> set (rp_spool r)) \<or> b \<in> set (rp_mem r)"
  by (simp add: pending_def set_map_filter_snd)

lemma drain_fits:
  "queues_bounded r \<Longrightarrow> drain_to_batch i r = (Some b, r1) \<Longrightarrow> batch_fits b \<and> tb_id b = Some i"
  by (auto simp: drain_to_batch_def Let_def batch_fits_def batch_items_def queues_bounded_def BATCH_MAX_def SIDE_MAX_def
      min_def split: if_splits)

lemma drain_partition:
  "drain_to_batch i r = (Some b, r1) \<Longrightarrow> tb_events b @ rp_events r1 = rp_events r \<and> tb_snapshots b = rp_snapshots r \<and>
     tb_windows b = rp_windows r \<and> rp_snapshots r1 = [] \<and> rp_windows r1 = []"
  by (auto simp: drain_to_batch_def Let_def split: if_splits)

lemma drain_frame:
  "drain_to_batch i r = (x, r1) \<Longrightarrow> rp_spool r1 = rp_spool r \<and> rp_mem r1 = rp_mem r \<and> rp_enabled r1 = rp_enabled r \<and>
     rp_spool_on r1 = rp_spool_on r \<and> rp_dropped r1 = rp_dropped r"
  by (auto simp: drain_to_batch_def Let_def split: if_splits)

lemma drain_bounded: "queues_bounded r \<Longrightarrow> drain_to_batch i r = (x, r1) \<Longrightarrow> queues_bounded r1"
  by (auto simp: drain_to_batch_def Let_def queues_bounded_def split: if_splits)

lemma evict_frame [simp]:
  "rp_events (evict fsize t ss r) = rp_events r" "rp_snapshots (evict fsize t ss r) = rp_snapshots r"
  "rp_windows (evict fsize t ss r) = rp_windows r" "rp_mem (evict fsize t ss r) = rp_mem r"
  "rp_spool_on (evict fsize t ss r) = rp_spool_on r" "rp_enabled (evict fsize t ss r) = rp_enabled r"
  by (induction ss arbitrary: t r) (simp_all add: unlink_def)

lemma evict_spool: "set (rp_spool (evict fsize t ss r)) \<subseteq> set (rp_spool r)"
proof (induction ss arbitrary: t r)
  case (Cons s ss)
  from Cons [of "t - fsize (snd s)" "(unlink (fst s) r)\<lparr>rp_dropped := rp_dropped r + 1\<rparr>"] show ?case
    by (auto simp: unlink_def)
qed simp

lemma evict_dropped: "rp_dropped r \<le> rp_dropped (evict fsize t ss r)"
proof (induction ss arbitrary: t r)
  case (Cons s ss)
  from Cons [of "(unlink (fst s) r)\<lparr>rp_dropped := rp_dropped r + 1\<rparr>" "t - fsize (snd s)"] show ?case by simp
qed simp

text \<open>Eviction that counted no drop removed nothing.\<close>

lemma evict_nothing: "rp_dropped (evict fsize t ss r) = rp_dropped r \<Longrightarrow> rp_spool (evict fsize t ss r) = rp_spool r"
proof (cases ss)
  case (Cons s ss')
  assume d: "rp_dropped (evict fsize t ss r) = rp_dropped r"
  have "rp_dropped r < rp_dropped (evict fsize (t - fsize (snd s)) ss' ((unlink (fst s) r)\<lparr>rp_dropped := rp_dropped r + 1\<rparr>))"
    using evict_dropped [of "(unlink (fst s) r)\<lparr>rp_dropped := rp_dropped r + 1\<rparr>" fsize "t - fsize (snd s)" ss'] by simp
  with d Cons show ?thesis by (auto split: if_splits)
qed simp

section \<open>When a batch leaves\<close>

text \<open>The world of a device: the fates of the coming requests, the server's database, and the
  replies received so far.  A request is lost, answered by a gateway, processed with its reply
  lost, or processed.\<close>

datatype fate = RequestLost | Gateway nat | ReplyLost instant | Through instant

record world =
  wd_net :: "fate list"
  wd_db :: db
  wd_log :: "(batch \<times> nat) list"

fun status_of :: "'a result \<Rightarrow> nat" where
  "status_of (Inr _) = 200"
| "status_of (Inl (HTTPException s _)) = s"
| "status_of (Inl _) = 500"

definition serve :: "digest \<Rightarrow> nat \<Rightarrow> string \<Rightarrow> string option \<Rightarrow> instant \<Rightarrow> batch \<Rightarrow> db \<Rightarrow> nat \<times> db" where
  "serve hash batch_max dep_id auth now b d =
     (if \<not> batch_schema b then (422, d)
      else let (d1, r) = telemetry_batch hash batch_max now dep_id auth b d in (status_of r, d1))"

definition post_batch ::
  "digest \<Rightarrow> nat \<Rightarrow> string \<Rightarrow> string option \<Rightarrow> batch \<Rightarrow> world \<Rightarrow> reply \<times> world" where
  "post_batch hash batch_max dep_id auth b w =
     (case wd_net w of
        [] \<Rightarrow> (Broken, w)
      | f # fs \<Rightarrow>
          (let w1 = w\<lparr>wd_net := fs\<rparr> in
           case f of
             RequestLost \<Rightarrow> (Broken, w1)
           | Gateway s \<Rightarrow> (Status (if s \<in> set RETRYABLE_STATUS then s else 502), w1)
           | ReplyLost now \<Rightarrow> (Broken, w1\<lparr>wd_db := snd (serve hash batch_max dep_id auth now b (wd_db w))\<rparr>)
           | Through now \<Rightarrow> (let (s, d1) = serve hash batch_max dep_id auth now b (wd_db w)
                            in (Status s, w1\<lparr>wd_db := d1, wd_log := wd_log w @ [(b, s)]\<rparr>))))"

text \<open>Ledger entries stay and acknowledged batches are in the ledger.\<close>

lemma touch_key_batches [simp]: "t_batches (touch_key now k d) = t_batches d"
  by (auto simp: touch_key_def Let_def)

lemma prior_touch [simp]: "prior_batch i (touch_key now k d) = prior_batch i d"
  by (simp add: prior_batch_def)

lemma ingest_keeps: 
  "ingest_batch bm now dep m b d = Inr (d1, a) \<Longrightarrow> or_empty (tb_id b) '''' \<noteq> '''' \<Longrightarrow>
   prior_batch (or_empty (tb_id b) '''') d1 \<noteq> None \<and> (prior_batch i d \<noteq> None \<longrightarrow> prior_batch i d1 \<noteq> None)"
  by (auto simp: ingest_keyed prior_write split: if_splits option.splits)

lemma serve_ledger:
  assumes "serve hash bm k auth now b d = (s, d1)" "or_empty (tb_id b) '''' \<noteq> ''''"
  shows "prior_batch i d \<noteq> None \<Longrightarrow> prior_batch i d1 \<noteq> None" "is_success s \<Longrightarrow> prior_batch (or_empty (tb_id b) '''') d1 \<noteq> None"
proof -
  consider (malformed) "\<not> batch_schema b" | (refused) e where "resolve hash k auth d = Inl e" "batch_schema b"
    | (served) key dep m where "resolve hash k auth d = Inr (key, dep, m)" "batch_schema b"
    by (cases "resolve hash k auth d") auto
  then have "(prior_batch i d \<noteq> None \<longrightarrow> prior_batch i d1 \<noteq> None) \<and> (is_success s \<longrightarrow> prior_batch (or_empty (tb_id b) '''') d1 \<noteq> None)"
  proof cases
    case malformed
    with assms show ?thesis by (simp add: serve_def is_success_def)
  next
    case refused
    then have "\<exists>c msg. e = HTTPException c msg \<and> c \<in> {401, 404, 409}"
      by (auto simp: resolve_def split: option.splits if_splits)
    with refused assms show ?thesis by (auto simp: serve_def telemetry_batch_def is_success_def)
  next
    case served
    show ?thesis
    proof (cases "ingest_batch bm now dep m b (touch_key now key d)")
      case (Inr p)
      then obtain d2 a where p: "ingest_batch bm now dep m b (touch_key now key d) = Inr (d2, a)" by (cases p) auto
      with served assms(1) have "s = 200" "d1 = d2" by (auto simp: serve_def telemetry_batch_def)
      with ingest_keeps [OF p assms(2), of i] show ?thesis by simp
    next
      case (Inl e)
      then have "e = ValueError ''batch exceeds the item limit''"
        using assms(2) by (auto simp: ingest_keyed split: if_splits option.splits)
      with served assms(1) Inl show ?thesis by (auto simp: serve_def telemetry_batch_def is_success_def)
    qed
  qed
  then show "prior_batch i d \<noteq> None \<Longrightarrow> prior_batch i d1 \<noteq> None" "is_success s \<Longrightarrow> prior_batch (or_empty (tb_id b) '''') d1 \<noteq> None"
    by blast+
qed

definition keyed_batch :: "batch \<Rightarrow> bool" where
  "keyed_batch b \<longleftrightarrow> or_empty (tb_id b) '''' \<noteq> ''''"

text \<open>A batch is settled when the server has it in its ledger, or has refused it for good.\<close>

definition settled :: "world \<Rightarrow> batch \<Rightarrow> bool" where
  "settled w b \<longleftrightarrow> prior_batch (or_empty (tb_id b) '''') (wd_db w) \<noteq> None \<or> (\<exists>s. permanent s \<and> (b, s) \<in> set (wd_log w))"

fun final_reply :: "reply \<Rightarrow> bool" where
  "final_reply (Status s) = (is_success s \<or> permanent s)"
| "final_reply Broken = False"

lemma gateway_not_final: "\<not> final_reply (Status (if s \<in> set RETRYABLE_STATUS then s else 502))"
  by (auto simp: RETRYABLE_STATUS_def is_success_def permanent_def RETRY_LATER_STATUS_def)

lemma post_settles:
  assumes "post_batch hash bm k auth b w = (r, w')" "keyed_batch b"
  shows "(settled w c \<longrightarrow> settled w' c) \<and> (final_reply r \<longrightarrow> settled w' b)"
proof (cases "wd_net w")
  case Nil with assms(1) show ?thesis by (auto simp: post_batch_def)
next
  case (Cons f fs)
  have kb: "or_empty (tb_id b) '''' \<noteq> ''''" using assms(2) by (simp add: keyed_batch_def)
  show ?thesis
  proof (cases f)
    case RequestLost with Cons assms(1) show ?thesis by (auto simp: post_batch_def settled_def)
  next
    case (Gateway s) with Cons assms(1) gateway_not_final show ?thesis by (auto simp: post_batch_def settled_def Let_def)
  next
    case (ReplyLost now)
    obtain s d1 where d1: "serve hash bm k auth now b (wd_db w) = (s, d1)" by force
    with Cons ReplyLost assms(1) serve_ledger(1) [OF d1 kb] show ?thesis
      by (auto simp: post_batch_def settled_def Let_def)
  next
    case (Through now)
    obtain s d1 where d1: "serve hash bm k auth now b (wd_db w) = (s, d1)" by force
    with Cons Through assms(1) serve_ledger [OF d1 kb] show ?thesis
      by (auto simp: post_batch_def settled_def Let_def)
  qed
qed

lemma http_settles:
  assumes "http_request n (post_batch hash bm k auth) b w = (r, w')" "keyed_batch b"
  shows "(settled w c \<longrightarrow> settled w' c) \<and> (final_reply r \<longrightarrow> settled w' b)"
  using assms
proof (induction n arbitrary: w)
  case (Suc n)
  obtain r1 w1 where p: "post_batch hash bm k auth b w = (r1, w1)" by force
  note ps = post_settles [OF p Suc.prems(2)]
  from Suc.prems(1) p have "r = r1 \<and> w' = w1 \<or> http_request n (post_batch hash bm k auth) b w1 = (r, w')"
    by (auto simp: Let_def split: reply.splits if_splits)
  with ps Suc.IH [OF _ Suc.prems(2), of w1] show ?case by blast
qed simp

lemma send_batch_settles:
  assumes "send_batch (post_batch hash bm k auth) b w = ((fin, n), w')" "keyed_batch b"
  shows "(settled w c \<longrightarrow> settled w' c) \<and> (fin \<longrightarrow> settled w' b)"
proof -
  obtain r w1 where r: "http_request 2 (post_batch hash bm k auth) b w = (r, w1)" by force
  with http_settles [OF r assms(2)] assms(1) show ?thesis
    by (auto simp: send_batch_def split: reply.splits if_splits)
qed

definition names_unique :: "segment list \<Rightarrow> segment list \<Rightarrow> bool" where
  "names_unique segs sp \<longleftrightarrow> (\<forall>x \<in> set sp. \<forall>y \<in> set segs. fst x = fst y \<longrightarrow> x = y)"

lemma unlink_simps [simp]:
  "rp_spool (unlink name r) = filter (\<lambda>s. fst s \<noteq> name) (rp_spool r)" "rp_mem (unlink name r) = rp_mem r"
  "rp_events (unlink name r) = rp_events r" "rp_spool_on (unlink name r) = rp_spool_on r"
  "rp_enabled (unlink name r) = rp_enabled r"
  by (simp_all add: unlink_def)

lemma send_spool_settles:
  assumes "send_spool (post_batch hash bm k auth) segs r w = (fin, r', w')"
    "\<forall>x \<in> set segs. \<forall>b. snd x = Some b \<longrightarrow> keyed_batch b" "names_unique segs (rp_spool r)"
  shows "(\<forall>c. settled w c \<longrightarrow> settled w' c) \<and>
    (\<forall>x \<in> set (rp_spool r). x \<in> set (rp_spool r') \<or> (\<forall>b. snd x = Some b \<longrightarrow> settled w' b)) \<and>
    set (rp_spool r') \<subseteq> set (rp_spool r) \<and> rp_mem r' = rp_mem r \<and> rp_events r' = rp_events r \<and>
    (fin \<longrightarrow> (\<forall>x \<in> set (rp_spool r'). x \<notin> set segs))"
  using assms
proof (induction segs arbitrary: r w)
  case (Cons seg segs)
  obtain name bo where seg: "seg = (name, bo)" by force
  have nm: "x = (name, bo)" if "x \<in> set (rp_spool r)" "fst x = name" for x
    using Cons.prems(3) that by (auto simp: names_unique_def seg)
  have u: "names_unique segs (filter (\<lambda>s. fst s \<noteq> name) (rp_spool r))"
    using Cons.prems(3) by (auto simp: names_unique_def)
  have k: "\<forall>x \<in> set segs. \<forall>b. snd x = Some b \<longrightarrow> keyed_batch b" using Cons.prems(2) by simp
  show ?case
  proof (cases bo)
    case None
    with Cons.prems(1) seg have "send_spool (post_batch hash bm k auth) segs (unlink name r) w = (fin, r', w')" by simp
    from Cons.IH [OF this k] u nm None seg show ?thesis by fastforce
  next
    case (Some b)
    obtain f n w1 where sb: "send_batch (post_batch hash bm k auth) b w = ((f, n), w1)" by (metis prod.exhaust)
    have "keyed_batch b" using Cons.prems(2) seg Some by auto
    then have st: "\<forall>c. settled w c \<longrightarrow> settled w1 c" "f \<longrightarrow> settled w1 b" using send_batch_settles [OF sb] by blast+
    show ?thesis
    proof (cases f)
      case False
      with Cons.prems(1) sb st seg Some show ?thesis by auto
    next
      case True
      with Cons.prems(1) sb seg Some have
        "send_spool (post_batch hash bm k auth) segs ((unlink name r)\<lparr>rp_dropped := rp_dropped r + n\<rparr>) w1 = (fin, r', w')" by simp
      from Cons.IH [OF this k] u nm True seg Some st show ?thesis by fastforce
    qed
  qed
qed auto

lemma send_mem_settles:
  assumes "send_mem (post_batch hash bm k auth) bs r w = (fin, r', w')" "\<forall>b \<in> set bs. keyed_batch b"
  shows "(\<forall>c. settled w c \<longrightarrow> settled w' c) \<and> (\<forall>b \<in> set bs. b \<in> set (rp_mem r') \<or> settled w' b) \<and>
    set (rp_mem r') \<subseteq> set bs \<and> rp_spool r' = rp_spool r \<and> rp_events r' = rp_events r \<and> (fin \<longrightarrow> rp_mem r' = [])"
  using assms
proof (induction bs arbitrary: r w)
  case (Cons b bs)
  obtain f n w1 where sb: "send_batch (post_batch hash bm k auth) b w = ((f, n), w1)" by (metis prod.exhaust)
  have st: "\<forall>c. settled w c \<longrightarrow> settled w1 c" "f \<longrightarrow> settled w1 b" using send_batch_settles [OF sb] Cons.prems(2) by auto
  show ?case
  proof (cases f)
    case False with Cons.prems(1) sb st show ?thesis by auto
  next
    case True
    with Cons.prems(1) sb have "send_mem (post_batch hash bm k auth) bs (r\<lparr>rp_dropped := rp_dropped r + n\<rparr>) w1 = (fin, r', w')" by simp
    from Cons.IH [OF this] Cons.prems(2) st True show ?thesis by auto
  qed
qed auto

lemma send_pending_settles:
  assumes "send_pending (post_batch hash bm k auth) r w = (fin, r', w')" "rp_enabled r"
    "\<forall>b \<in> set (pending r). keyed_batch b" "distinct (map fst (rp_spool r))"
  shows "(\<forall>b \<in> set (pending r). b \<in> set (pending r') \<or> settled w' b) \<and> set (pending r') \<subseteq> set (pending r) \<and>
    rp_events r' = rp_events r \<and> (fin \<and> (rp_spool_on r \<or> rp_spool r = []) \<longrightarrow> pending r' = [])"
proof -
  obtain f1 r1 w1 where s: "(if rp_spool_on r then send_spool (post_batch hash bm k auth) (spool_segments r) r w else (True, r, w)) = (f1, r1, w1)"
    by (metis prod.exhaust)
  have ks: "\<forall>x \<in> set (spool_segments r). \<forall>b. snd x = Some b \<longrightarrow> keyed_batch b"
    using assms(3) by (fastforce simp: spool_segments_def pending_iff)
  have u: "names_unique (spool_segments r) (rp_spool r)"
    using assms(4) by (fastforce simp: names_unique_def spool_segments_def distinct_map inj_on_def)
  have 1: "(\<forall>c. settled w c \<longrightarrow> settled w1 c) \<and>
      (\<forall>x \<in> set (rp_spool r). x \<in> set (rp_spool r1) \<or> (\<forall>b. snd x = Some b \<longrightarrow> settled w1 b)) \<and>
      set (rp_spool r1) \<subseteq> set (rp_spool r) \<and> rp_mem r1 = rp_mem r \<and> rp_events r1 = rp_events r \<and>
      (f1 \<and> (rp_spool_on r \<or> rp_spool r = []) \<longrightarrow> rp_spool r1 = [])"
  proof (cases "rp_spool_on r")
    case True
    with s have "send_spool (post_batch hash bm k auth) (spool_segments r) r w = (f1, r1, w1)" by simp
    note a = send_spool_settles [OF this ks u]
    have "rp_spool r1 = []" if f1
    proof -
      from a that have "\<forall>x \<in> set (rp_spool r1). x \<notin> set (rp_spool r)" by (simp add: spool_segments_def)
      with a show ?thesis by (cases "rp_spool r1") auto
    qed
    with a True show ?thesis by blast
  next
    case False with s show ?thesis by auto
  qed
  show ?thesis
  proof (cases f1)
    case False
    with assms(1,2) s 1 show ?thesis by (fastforce simp: send_pending_def pending_iff)
  next
    case True
    with assms(1,2) s have m: "send_mem (post_batch hash bm k auth) (rp_mem r1) r1 w1 = (fin, r', w')"
      by (simp add: send_pending_def)
    have km: "\<forall>b \<in> set (rp_mem r1). keyed_batch b" using assms(3) 1 by (simp add: pending_iff)
    note b = send_mem_settles [OF m km]
    have "pending r' = []" if "fin" "rp_spool_on r \<or> rp_spool r = []" using that b 1 True by (simp add: pending_def map_filter_simps)
    moreover have "b \<in> set (pending r') \<or> settled w' b" if "b \<in> set (pending r)" for b
      using that 1 b unfolding pending_iff by force
    moreover have "set (rp_spool r') \<subseteq> set (rp_spool r)" "set (rp_mem r') \<subseteq> set (rp_mem r)" using 1 b by simp_all
    then have "set (pending r') \<subseteq> set (pending r)" unfolding subset_iff pending_iff by blast
    ultimately show ?thesis using 1 b by auto
  qed
qed

section \<open>A device's life\<close>

lemma hold_pending:
  "rp_dropped (hold b r) = rp_dropped r \<Longrightarrow> rp_mem (hold b r) = rp_mem r @ [b] \<or> MEM_PENDING_MAX < length (rp_mem r)"
  by (auto simp: hold_def deque_append_def Let_def split: if_splits)

lemma hold_frame [simp]:
  "rp_spool (hold b r) = rp_spool r" "rp_events (hold b r) = rp_events r" "rp_enabled (hold b r) = rp_enabled r"
  "rp_spool_on (hold b r) = rp_spool_on r" "rp_dropped r \<le> rp_dropped (hold b r)"
  by (simp_all add: hold_def)

lemma spool_write_frame:
  assumes "spool_write fsize now disk b r = (okay, r1)"
  shows "rp_events r1 = rp_events r" "rp_mem r1 = rp_mem r" "rp_enabled r1 = rp_enabled r" "rp_spool_on r1 = rp_spool_on r"
    "rp_snapshots r1 = rp_snapshots r" "rp_windows r1 = rp_windows r" "rp_dropped r \<le> rp_dropped r1"
  using assms evict_dropped [of r fsize] by (auto simp: spool_write_def enforce_spool_cap_def Let_def unlink_def split: if_splits)

lemma spool_write_keeps:
  assumes "spool_write fsize now disk b r = (okay, r1)" "rp_dropped r1 = rp_dropped r"
    "\<And>n. segment_name now n \<notin> fst ` set (rp_spool r)" "distinct (map fst (rp_spool r))"
  shows "\<exists>n. rp_spool r1 = rp_spool r @ (if okay then [(segment_name now n, Some b)] else [])" "distinct (map fst (rp_spool r1))"
proof -
  let ?e = "enforce_spool_cap fsize r"
  have "rp_dropped ?e = rp_dropped r" using assms(1,2) by (auto simp: spool_write_def Let_def unlink_def split: if_splits)
  then have e: "rp_spool ?e = rp_spool r" by (simp add: enforce_spool_cap_def Let_def evict_nothing)
  have f: "filter (\<lambda>s. fst s \<noteq> segment_name now n) (rp_spool r) = rp_spool r" for n
    using assms(3) [of n] by (force simp: filter_id_conv image_iff)
  from assms(1) e f show "\<exists>n. rp_spool r1 = rp_spool r @ (if okay then [(segment_name now n, Some b)] else [])"
    by (auto simp: spool_write_def Let_def split: if_splits)
  with assms(3,4) show "distinct (map fst (rp_spool r1))" by auto
qed

lemma stash_keeps:
  assumes "rp_dropped (stash fsize now disk i r) = rp_dropped r" "queues_bounded r"
    "\<And>n. segment_name now n \<notin> fst ` set (rp_spool r)" "distinct (map fst (rp_spool r))"
  shows "distinct (map fst (rp_spool (stash fsize now disk i r)))"
    "\<exists>new. rp_events r = concat (map tb_events new) @ rp_events (stash fsize now disk i r) \<and>
      set (pending (stash fsize now disk i r)) = set (pending r) \<union> set new \<and> (\<forall>b \<in> set new. batch_fits b \<and> tb_id b = Some i) \<and> length new \<le> 1 \<and>
      rp_snapshots r = concat (map tb_snapshots new) \<and> rp_windows r = concat (map tb_windows new)"
proof -
  obtain x r1 where d: "drain_to_batch i r = (x, r1)" by force
  note fr = drain_frame [OF d]
  let ?s = "stash fsize now disk i r"
  have "distinct (map fst (rp_spool ?s)) \<and> (\<exists>new. rp_events r = concat (map tb_events new) @ rp_events ?s \<and>
      set (pending ?s) = set (pending r) \<union> set new \<and> (\<forall>b \<in> set new. batch_fits b \<and> tb_id b = Some i) \<and> length new \<le> 1 \<and>
      rp_snapshots r = concat (map tb_snapshots new) \<and> rp_windows r = concat (map tb_windows new))"
  proof (cases x)
    case None
    with d fr assms(4) show ?thesis
      by (intro conjI exI [of _ "[]"]) (auto simp: stash_def pending_def drain_to_batch_def Let_def split: if_splits)
  next
    case (Some b)
    note b = drain_fits [OF assms(2) d [unfolded Some]] drain_partition [OF d [unfolded Some]]
    have qm: "length (rp_mem r) \<le> MEM_PENDING_MAX" using assms(2) by (simp add: queues_bounded_def)
    show ?thesis
    proof (cases "rp_spool_on r1")
      case False
      then have s: "?s = hold b r1" using d Some by (simp add: stash_def)
      with assms(1) fr qm hold_pending [of b r1] have "rp_mem ?s = rp_mem r @ [b]" by simp
      with s fr b assms(4) show ?thesis by (intro conjI exI [of _ "[b]"]) (auto simp: pending_def)
    next
      case True
      obtain okay r2 where w: "spool_write fsize now disk b r1 = (okay, r2)" by force
      note wf = spool_write_frame [OF w]
      have s: "?s = (if okay then r2 else hold b r2)" using d Some True w by (auto simp: stash_def)
      then have "rp_dropped r2 \<le> rp_dropped ?s" by simp
      with assms(1) fr wf(7) have "rp_dropped r2 = rp_dropped r1" by simp
      from spool_write_keeps [OF w this] assms(3,4) fr obtain n where
        n: "rp_spool r2 = rp_spool r @ (if okay then [(segment_name now n, Some b)] else [])" "distinct (map fst (rp_spool r2))" by auto
      show ?thesis
      proof (cases okay)
        case True
        with s n wf fr b show ?thesis by (intro conjI exI [of _ "[b]"]) (auto simp: pending_iff set_eq_iff)
      next
        case False
        with s assms(1) fr qm wf \<open>rp_dropped r2 = rp_dropped r1\<close> hold_pending [of b r2] have "rp_mem ?s = rp_mem r @ [b]" by simp
        with False s n wf fr b show ?thesis by (intro conjI exI [of _ "[b]"]) (auto simp: pending_def)
      qed
    qed
  qed
  then show "distinct (map fst (rp_spool ?s))" "\<exists>new. rp_events r = concat (map tb_events new) @ rp_events ?s \<and>
      set (pending ?s) = set (pending r) \<union> set new \<and> (\<forall>b \<in> set new. batch_fits b \<and> tb_id b = Some i) \<and> length new \<le> 1 \<and>
      rp_snapshots r = concat (map tb_snapshots new) \<and> rp_windows r = concat (map tb_windows new)" by blast+
qed

lemma stash_spool_off: "\<not> rp_spool_on r \<Longrightarrow> rp_spool (stash fsize now disk i r) = rp_spool r"
proof -
  assume off: "\<not> rp_spool_on r"
  obtain x r1 where d: "drain_to_batch i r = (x, r1)" by force
  from drain_frame [OF d] d off show ?thesis by (cases x) (simp_all add: stash_def)
qed

lemma stash_frame:
  "rp_enabled (stash fsize now disk i r) = rp_enabled r" "rp_spool_on (stash fsize now disk i r) = rp_spool_on r"
proof -
  obtain x r1 where d: "drain_to_batch i r = (x, r1)" by force
  obtain okay r2 where w: "spool_write fsize now disk (the x) r1 = (okay, r2)" by force
  from drain_frame [OF d] spool_write_frame [OF w] d w
  have "rp_enabled (stash fsize now disk i r) = rp_enabled r \<and> rp_spool_on (stash fsize now disk i r) = rp_spool_on r"
    by (cases x; cases okay) (simp_all add: stash_def)
  then show "rp_enabled (stash fsize now disk i r) = rp_enabled r" "rp_spool_on (stash fsize now disk i r) = rp_spool_on r"
    by simp_all
qed


definition demo_reporter :: reporter where
  "demo_reporter = \<lparr>rp_enabled = True, rp_client = ''sdk'', rp_events = [demo_event], rp_snapshots = [], rp_windows = [],
     rp_mem = [], rp_dropped = 0, rp_sent = 1, rp_window_requests = 1, rp_marker = (0, 0), rp_spool_on = True,
     rp_spool = [], rp_seq = 0, rp_closed = False\<rparr>"

definition demo_world :: world where
  "demo_world = \<lparr>wd_net = [ReplyLost DAY, RequestLost], wd_db = deployed_db, wd_log = []\<rparr>"

text \<open>The request is processed and its reply lost, then the second attempt is lost: the batch stays pending.\<close>

lemma demo_flush:
  "\<exists>r' w'. flush (\<lambda>_. 100) DAY True ''b1'' (post_batch (\<lambda>s. s) 600 ''dep_1'' (Some ''Bearer astra_sk_live_a'')) demo_reporter demo_world = (False, r', w') \<and>
     rp_events r' = []"
  by (simp add: flush_def stash_def drain_to_batch_def demo_reporter_def BATCH_MAX_def spool_write_def enforce_spool_cap_def
        spool_segments_def unlink_def Let_def send_pending_def send_batch_def numeral_2_eq_2 post_batch_def demo_world_def)


text \<open>What a device goes through: it starts with empty queues and whatever an earlier process left in
  the spool, records, samples and flushes.\<close>

inductive device_run :: "(batch \<Rightarrow> 'w \<Rightarrow> reply \<times> 'w) \<Rightarrow> reporter \<Rightarrow> bool" for post where
  start: "rp_events r = [] \<Longrightarrow> rp_snapshots r = [] \<Longrightarrow> rp_windows r = [] \<Longrightarrow> rp_mem r = [] \<Longrightarrow>
     \<forall>b \<in> set (pending r). batch_fits b \<and> keyed_batch b \<Longrightarrow> device_run post r"
| recorded: "device_run post r \<Longrightarrow> device_run post (record_event now e stats r)"
| sampled: "device_run post r \<Longrightarrow> device_run post (take_snapshot ticks now sample r)"
| windowed: "device_run post r \<Longrightarrow> device_run post (take_window stats r)"
| flushed: "device_run post r \<Longrightarrow> i \<noteq> '''' \<Longrightarrow> flush fsize now disk i post r w = (fin, r', w') \<Longrightarrow> device_run post r'"
| closed: "device_run post r \<Longrightarrow> i \<noteq> '''' \<Longrightarrow>
     close_reporter fsize ticks now sample stats disk i tries post r w = (r', w') \<Longrightarrow> device_run post r'"

definition device_inv :: "reporter \<Rightarrow> bool" where
  "device_inv r \<longleftrightarrow> queues_bounded r \<and> (\<forall>b. b \<in> set (pending r) \<longrightarrow> batch_fits b \<and> keyed_batch b)"

lemma device_inv_less:
  "device_inv r \<Longrightarrow> queues_bounded r' \<Longrightarrow> set (rp_spool r') \<subseteq> set (rp_spool r) \<Longrightarrow> set (rp_mem r') \<subseteq> set (rp_mem r) \<Longrightarrow>
   device_inv r'"
  unfolding device_inv_def pending_iff by blast

lemma send_spool_subset:
  "send_spool post segs r w = (fin, r', w') \<Longrightarrow> set (rp_spool r') \<subseteq> set (rp_spool r) \<and> rp_mem r' = rp_mem r \<and>
     rp_events r' = rp_events r \<and> rp_snapshots r' = rp_snapshots r \<and> rp_windows r' = rp_windows r"
proof (induction post segs r w rule: send_spool.induct)
  case (2 post name segs r w)
  then have "set (rp_spool r') \<subseteq> set (rp_spool (unlink name r))" by simp
  with 2 show ?case by (auto simp: unlink_def)
next
  case (3 post name b segs r w)
  obtain f n w1 where sb: "send_batch post b w = ((f, n), w1)" by (metis prod.exhaust)
  show ?case
  proof (cases f)
    case True
    let ?r = "(unlink name r)\<lparr>rp_dropped := rp_dropped r + n\<rparr>"
    have "send_spool post segs ?r w1 = (fin, r', w')" using 3(2) sb True by simp
    from 3(1) [OF sb [symmetric] refl _ this] True have "set (rp_spool r') \<subseteq> set (rp_spool ?r)" "rp_mem r' = rp_mem ?r"
      "rp_events r' = rp_events ?r" "rp_snapshots r' = rp_snapshots ?r" "rp_windows r' = rp_windows ?r" by simp_all
    then show ?thesis by (auto simp: unlink_def)
  next
    case False with 3(2) sb show ?thesis by simp
  qed
qed simp

lemma send_mem_subset:
  "send_mem post bs r w = (fin, r', w') \<Longrightarrow> rp_spool r' = rp_spool r \<and> set (rp_mem r') \<subseteq> set bs \<and> length (rp_mem r') \<le> length bs \<and>
     rp_events r' = rp_events r \<and> rp_snapshots r' = rp_snapshots r \<and> rp_windows r' = rp_windows r"
proof (induction bs arbitrary: r w)
  case (Cons b bs)
  obtain f n w1 where sb: "send_batch post b w = ((f, n), w1)" by (metis prod.exhaust)
  with Cons.prems Cons.IH [of "r\<lparr>rp_dropped := rp_dropped r + n\<rparr>" w1] show ?case by (cases f) auto
qed auto

lemma send_pending_inv: "send_pending post r w = (fin, r', w') \<Longrightarrow> device_inv r \<Longrightarrow> device_inv r'"
proof -
  assume p: "send_pending post r w = (fin, r', w')" and inv: "device_inv r"
  obtain f1 r1 w1 where s: "(if rp_spool_on r then send_spool post (spool_segments r) r w else (True, r, w)) = (f1, r1, w1)"
    by (metis prod.exhaust)
  have 1: "set (rp_spool r1) \<subseteq> set (rp_spool r) \<and> rp_mem r1 = rp_mem r \<and>
     rp_events r1 = rp_events r \<and> rp_snapshots r1 = rp_snapshots r \<and> rp_windows r1 = rp_windows r"
    using s send_spool_subset [of post "spool_segments r" r w f1 r1 w1] by (cases "rp_spool_on r") auto
  from p s consider "r' = r" | "r' = r1" | "send_mem post (rp_mem r1) r1 w1 = (fin, r', w')"
    by (cases "rp_enabled r"; cases f1) (simp_all add: send_pending_def)
  then show ?thesis
  proof cases
    case 1 with inv show ?thesis by simp
  next
    case 2
    have "queues_bounded r1" using inv 1 by (simp add: device_inv_def queues_bounded_def)
    with 2 1 device_inv_less [OF inv, of r1] show ?thesis by simp
  next
    case 3
    note m = send_mem_subset [OF 3]
    have "queues_bounded r'" using inv 1 m by (simp add: device_inv_def queues_bounded_def)
    with m 1 show ?thesis by (intro device_inv_less [OF inv]) simp_all
  qed
qed

lemma hold_inv: "device_inv r \<Longrightarrow> batch_fits b \<Longrightarrow> keyed_batch b \<Longrightarrow> device_inv (hold b r)"
proof -
  assume "device_inv r" "batch_fits b" "keyed_batch b"
  moreover have "x = b \<or> x \<in> set q" if "x \<in> set (deque_append n b q)" for x n q
    using in_set_dropD [OF that [unfolded deque_append_def Let_def]] by auto
  ultimately show ?thesis
    unfolding device_inv_def queues_bounded_def pending_iff hold_def by (auto simp: deque_append_bound)
qed

lemma spool_write_set:
  assumes "spool_write fsize now disk b r = (okay, r1)" "(n, Some c) \<in> set (rp_spool r1)"
  shows "c = b \<or> (n, Some c) \<in> set (rp_spool r)"
proof -
  have "set (rp_spool (enforce_spool_cap fsize r)) \<subseteq> set (rp_spool r)"
    unfolding enforce_spool_cap_def Let_def by (rule evict_spool)
  with assms show ?thesis by (cases disk) (auto simp: spool_write_def Let_def)
qed

lemma stash_inv: "device_inv r \<Longrightarrow> i \<noteq> '''' \<Longrightarrow> device_inv (stash fsize now disk i r)"
proof -
  assume inv: "device_inv r" and i: "i \<noteq> ''''"
  obtain x r1 where d: "drain_to_batch i r = (x, r1)" by force
  from inv have q: "queues_bounded r" by (simp add: device_inv_def)
  have 1: "device_inv r1" using inv drain_bounded [OF q d] drain_frame [OF d] by (simp add: device_inv_def pending_def)
  show ?thesis
  proof (cases x)
    case None with d 1 show ?thesis by (simp add: stash_def)
  next
    case (Some b)
    have b: "batch_fits b" "keyed_batch b"
      using drain_fits [OF q d [unfolded Some]] i by (simp_all add: keyed_batch_def or_empty_def)
    obtain okay r2 where w: "spool_write fsize now disk b r1 = (okay, r2)" by force
    have "device_inv r2"
      using 1 b spool_write_frame [OF w] spool_write_set [OF w]
      unfolding device_inv_def queues_bounded_def pending_iff by metis
    with hold_inv [OF _ b] 1 d w Some show ?thesis by (cases okay) (simp_all add: stash_def)
  qed
qed

lemma take_window_inv: "device_inv r \<Longrightarrow> device_inv (take_window stats r)"
  by (auto simp: device_inv_def queues_bounded_def pending_def take_window_def Let_def deque_append_bound split: option.split)

lemma take_snapshot_inv: "device_inv r \<Longrightarrow> device_inv (take_snapshot ticks now sample r)"
  by (simp add: device_inv_def queues_bounded_def pending_def take_snapshot_def Let_def deque_append_bound)

lemma flush_inv: "flush fsize now disk i post r w = (fin, r', w') \<Longrightarrow> device_inv r \<Longrightarrow> i \<noteq> '''' \<Longrightarrow> device_inv r'"
  using send_pending_inv [of post "stash fsize now disk i r" w fin r' w'] stash_inv [of r i fsize now disk]
  by (cases "rp_enabled r") (simp_all add: flush_def)

lemma drain_out_inv: "drain_out n post r w = (r', w') \<Longrightarrow> device_inv r \<Longrightarrow> device_inv r'"
proof (induction n arbitrary: r w)
  case (Suc n)
  obtain f r1 w1 where s: "send_pending post r w = (f, r1, w1)" by (metis prod.exhaust)
  have "device_inv r1" by (rule send_pending_inv [OF s Suc.prems(2)])
  with Suc s show ?case by (cases f) auto
qed simp

lemma close_inv:
  assumes "close_reporter fsize ticks now sample stats disk i tries post r w = (r', w')" "device_inv r" "i \<noteq> ''''"
  shows "device_inv r'"
proof (cases "rp_enabled r \<and> \<not> rp_closed r")
  case True
  let ?r = "take_window stats (take_snapshot ticks now sample (r\<lparr>rp_closed := True\<rparr>))"
  obtain f r1 w1 where fl: "flush fsize now disk i post ?r w = (f, r1, w1)" by (metis prod.exhaust)
  have "device_inv (r\<lparr>rp_closed := True\<rparr>)" using assms(2) by (simp add: device_inv_def queues_bounded_def pending_def)
  then have "device_inv ?r" by (intro take_window_inv take_snapshot_inv)
  from flush_inv [OF fl this assms(3)] show ?thesis
    using True fl assms(1) by (auto simp: close_reporter_def intro: drain_out_inv)
qed (use assms in \<open>auto simp: close_reporter_def split: if_splits\<close>)

lemma device_run_inv: "device_run post r \<Longrightarrow> device_inv r"
proof (induction rule: device_run.induct)
  case (start r)
  then show ?case by (simp add: device_inv_def queues_bounded_def)
next
  case (recorded r now e stats)
  then have "device_inv (r\<lparr>rp_dropped := x, rp_events := deque_append QUEUE_MAX e' (rp_events r), rp_sent := y, rp_window_requests := z\<rparr>)"
    for x e' y z by (simp add: device_inv_def queues_bounded_def pending_def deque_append_bound)
  with recorded take_window_inv show ?case by (simp add: record_event_def Let_def)
qed (auto intro: take_window_inv take_snapshot_inv flush_inv close_inv)

text \<open>C34: A device never builds a batch the server refuses for its size or that it could count twice: along any run of the
  reporter, which starts with empty queues and whatever well-formed segments an earlier process left, records, samples, flushes and closes with
  batch ids that are not empty, every pending batch holds between 1 and 450 items and has an id that is not empty, so an ingestion with a limit of
  450 or more (the default is 600) accepts it, and a second delivery of it is answered the same and adds nothing.\<close>

theorem device_batches_are_accepted:
  assumes "device_run post r" "b \<in> set (pending r)" "BATCH_MAX \<le> batch_max"
  shows "1 \<le> batch_items b \<and> batch_items b \<le> 450 \<and> (\<exists>i. tb_id b = Some i \<and> i \<noteq> '''') \<and>
    (\<exists>d' a. ingest_batch batch_max now dep m b d = Inr (d', a) \<and> ingest_batch batch_max now' dep m b d' = Inr (d', a))"
proof -
  from device_run_inv [OF assms(1)] assms(2) have "batch_fits b" "keyed_batch b" by (auto simp: device_inv_def)
  with assms(3) show ?thesis
    by (auto simp: batch_fits_def BATCH_MAX_def keyed_batch_def ingest_keyed prior_write or_empty_def split: option.splits)
qed

text \<open>A device records one request and flushes it over a broken network: the batch it keeps is accepted.\<close>

theorem device_batches_are_accepted_witness:
  "\<exists>r b. device_run (\<lambda>b w. (Broken, w :: unit)) r \<and> pending r = [b] \<and> length (tb_events b) = 1 \<and> tb_id b = Some ''b1'' \<and>
     (\<exists>d' a. ingest_batch 600 DAY demo_dep demo_model b empty_db = Inr (d', a))"
proof -
  let ?post = "\<lambda>b w. (Broken, w :: unit)" and ?r0 = "demo_reporter\<lparr>rp_events := []\<rparr>"
  let ?r1 = "record_event DAY demo_event None ?r0"
  have "device_run ?post ?r0" by (rule device_run.start) (simp_all add: demo_reporter_def pending_def map_filter_simps)
  then have run: "device_run ?post ?r1" by (rule device_run.recorded)
  obtain fin r w where f: "flush (\<lambda>_. 100) DAY True ''b1'' ?post ?r1 () = (fin, r, w)" by (metis prod_cases3)
  have dr: "device_run ?post r" by (rule device_run.flushed [OF run _ f]) simp
  from f obtain b where b: "pending r = [b]" "length (tb_events b) = 1" "tb_id b = Some ''b1''"
    by (auto simp: flush_def stash_def record_event_def drain_to_batch_def demo_reporter_def BATCH_MAX_def QUEUE_MAX_def WINDOW_MAX_REQUESTS_def
        deque_append_def spool_write_def enforce_spool_cap_def spool_segments_def unlink_def Let_def send_pending_def send_batch_def
        numeral_2_eq_2 pending_def map_filter_simps)
  have "b \<in> set (pending r)" by (simp add: b)
  from device_batches_are_accepted [OF dr this, of 600 DAY demo_dep demo_model empty_db DAY]
  have "\<exists>d' a. ingest_batch 600 DAY demo_dep demo_model b empty_db = Inr (d', a)" unfolding BATCH_MAX_def by auto
  with dr b show ?thesis by blast
qed

end
