(* ===== verification/Sdk_Stats.thy ===== *)
theory Sdk_Stats
  imports Sdk_Reporter Py_Float
begin

text \<open>
  The statistics window of the reporter, \<open>clients/python/astra_sdk/stats.py\<close>: a bounded reservoir of
  requests, and its reduction to per-input moments and, for classifier-shaped outputs, the class
  distribution, the confidence histogram and the mean entropy.  An array is its shape and its values;
  values that are no numbers raise.  numpy's histogram and the random index are parameters.
\<close>

section \<open>The window\<close>

record ndarray =
  nd_shape :: "nat list"
  nd_values :: "py_float list option"

type_synonym sample = "(string \<times> ndarray) list"

record stats_window =
  sw_start :: instant
  sw_n :: nat
  sw_seen :: nat
  sw_inputs :: "sample list"
  sw_outputs :: "ndarray option list"

definition RESERVOIR :: nat where "RESERVOIR = 32"
definition HIST_BINS :: nat where "HIST_BINS = 16"
definition MAX_CLASSES :: nat where "MAX_CLASSES = 10000"
definition TOP_CLASSES :: nat where "TOP_CLASSES = 10"

definition fresh_window :: "instant \<Rightarrow> stats_window" where
  "fresh_window now = \<lparr>sw_start = now, sw_n = 0, sw_seen = 0, sw_inputs = [], sw_outputs = []\<rparr>"

definition store_sample :: "sample option \<Rightarrow> ndarray option \<Rightarrow> nat option \<Rightarrow> stats_window \<Rightarrow> stats_window" where
  "store_sample inputs output replace_at w =
     (let item_in = (case inputs of None \<Rightarrow> [] | Some s \<Rightarrow> s) in
      case replace_at of
        None \<Rightarrow> w\<lparr>sw_inputs := sw_inputs w @ [item_in], sw_outputs := sw_outputs w @ [output]\<rparr>
      | Some j \<Rightarrow> w\<lparr>sw_inputs := (sw_inputs w)[j := item_in], sw_outputs := (sw_outputs w)[j := output]\<rparr>)"

text \<open>\<open>random_index\<close> is \<open>random.randint(0, seen - 1)\<close>, drawn when the reservoir is full.\<close>

definition observe :: "(nat \<Rightarrow> nat) \<Rightarrow> sample option \<Rightarrow> ndarray option \<Rightarrow> stats_window \<Rightarrow> stats_window" where
  "observe random_index inputs output w =
     (let w1 = w\<lparr>sw_n := sw_n w + 1, sw_seen := sw_seen w + 1\<rparr> in
      if length (sw_inputs w1) < RESERVOIR then store_sample inputs output None w1
      else let j = random_index (sw_seen w1) in
        if j < RESERVOIR then store_sample inputs output (Some j) w1 else w1)"

section \<open>Input statistics\<close>

definition finite_values :: "py_float list \<Rightarrow> real list" where
  "finite_values xs = List.map_filter (\<lambda>x. case x of Fin r \<Rightarrow> Some r | _ \<Rightarrow> None) xs"

definition values_of :: "ndarray \<Rightarrow> py_float list result" where
  "values_of a = (case nd_values a of Some xs \<Rightarrow> ok xs | None \<Rightarrow> raise (ValueError ''could not convert string to float''))"

definition std :: "real list \<Rightarrow> real" where
  "std xs = sqrt (mean (map (\<lambda>x. (x - mean xs) ^ 2) xs))"

definition list_min :: "real list \<Rightarrow> real" where
  "list_min xs = fold min (tl xs) (hd xs)"

definition input_stat_of :: "py_float list \<Rightarrow> window_stat" where
  "input_stat_of flat =
     (let finite = finite_values flat; fs = (if finite = [] then [0] else finite) in
      \<lparr>is_mean = py_round 6 (mean fs), is_std = py_round 6 (std fs), ws_min = py_round 6 (list_min fs),
       ws_max = py_round 6 (list_max fs),
       ws_nan_pct = py_round 3 (100 * (1 - of_nat (length finite) / of_nat (max 1 (length flat))))\<rparr>)"

definition input_stats :: "sample list \<Rightarrow> (string \<times> window_stat) list result" where
  "input_stats samples =
     mapM_result (\<lambda>name.
       bind_result (mapM_result values_of (List.map_filter (\<lambda>s. map_of s name) samples)) (\<lambda>arrays.
         ok (name, input_stat_of (concat (map (take 4096) arrays)))))
       (remdups (map fst (concat samples)))"

section \<open>Output statistics\<close>

text \<open>
  The top class, its confidence and the entropy of a softmax row.  A NaN, a positive infinity or a row
  of negative infinities makes the confidence NaN, and its conversion to a bin raises.
\<close>

definition row_probs :: "py_float list \<Rightarrow> real list option" where
  "row_probs row =
     (if NaN \<in> set row \<or> PInf \<in> set row \<or> finite_values row = [] then None
      else let m = list_max (finite_values row); es = map (\<lambda>x. case x of Fin r \<Rightarrow> exp (r - m) | _ \<Rightarrow> 0) row
           in Some (map (\<lambda>e. e / max (1 / 10 ^ 12) (sum_list es)) es))"

fun argmax :: "real list \<Rightarrow> nat" where
  "argmax [] = 0"
| "argmax [x] = 0"
| "argmax (x # y # xs) = (let j = argmax (y # xs) in if x \<ge> (y # xs) ! j then 0 else Suc j)"

record class_acc =
  ca_counts :: "(string \<times> nat) list"
  ca_hist :: "nat list"
  ca_conf :: real
  ca_ent :: real
  ca_rows :: nat

definition bin_of :: "real \<Rightarrow> nat" where
  "bin_of conf = min (HIST_BINS - 1) (nat \<lfloor>conf * of_nat HIST_BINS\<rfloor>)"

definition add_row :: "py_float list \<Rightarrow> class_acc \<Rightarrow> class_acc result" where
  "add_row row a =
     (case row_probs row of
        None \<Rightarrow> raise (ValueError ''cannot convert float NaN to integer'')
      | Some probs \<Rightarrow>
          let top = argmax probs; conf = probs ! top; k = str_of_nat top; b = bin_of conf in
          ok \<lparr>ca_counts = AList.update k ((case map_of (ca_counts a) k of Some n \<Rightarrow> n | None \<Rightarrow> 0) + 1) (ca_counts a),
              ca_hist = (ca_hist a)[b := ca_hist a ! b + 1], ca_conf = ca_conf a + conf,
              ca_ent = ca_ent a + - sum_list (map (\<lambda>p. p * ln (p + 1 / 10 ^ 12)) probs), ca_rows = ca_rows a + 1\<rparr>)"

fun add_rows :: "py_float list list \<Rightarrow> class_acc \<Rightarrow> class_acc result" where
  "add_rows [] a = ok a"
| "add_rows (r # rs) a = bind_result (add_row r a) (add_rows rs)"

text \<open>The rows of a two-dimensional array, in row-major order.\<close>

fun split_rows :: "nat \<Rightarrow> nat \<Rightarrow> py_float list \<Rightarrow> py_float list list" where
  "split_rows 0 c xs = []"
| "split_rows (Suc n) c xs = take c xs # split_rows n c (drop c xs)"

fun add_outputs :: "nat \<Rightarrow> ndarray list \<Rightarrow> class_acc \<Rightarrow> class_acc result" where
  "add_outputs c [] a = ok a"
| "add_outputs c (x # xs) a =
     bind_result (values_of x) (\<lambda>vs.
       case nd_shape x of
         [n, c'] \<Rightarrow> if c' \<noteq> c then add_outputs c xs a
                    else bind_result (add_rows (split_rows n c vs) a) (add_outputs c xs)
       | _ \<Rightarrow> add_outputs c xs a)"

definition class_output :: "class_acc \<Rightarrow> (string \<times> json) list" where
  "class_output a =
     (if ca_rows a = 0 then []
      else let n = of_nat (ca_rows a) in
        [(''classDist'', JObj (map (\<lambda>(k, v). (k, JNum (py_round 4 (of_nat v / n)))) (take TOP_CLASSES (sort_key (\<lambda>(_, v). - int v) (ca_counts a))))),
         (''hist'', JList (map (\<lambda>c. JNum (of_nat c)) (ca_hist a))),
         (''top1ConfMean'', JNum (py_round 4 (ca_conf a / n))), (''entropyMean'', JNum (py_round 4 (ca_ent a / n)))])"

definition classifier_width :: "ndarray \<Rightarrow> nat option" where
  "classifier_width a = (case nd_shape a of [_, c] \<Rightarrow> if 1 < c \<and> c \<le> MAX_CLASSES then Some c else None | _ \<Rightarrow> None)"

definition fresh_acc :: class_acc where
  "fresh_acc = \<lparr>ca_counts = [], ca_hist = replicate HIST_BINS 0, ca_conf = 0, ca_ent = 0, ca_rows = 0\<rparr>"

definition output_stats :: "(real list \<Rightarrow> nat list) \<Rightarrow> ndarray list \<Rightarrow> (string \<times> json) list result" where
  "output_stats histogram outs =
     (case outs of
        [] \<Rightarrow> ok []
      | first # _ \<Rightarrow>
          (case classifier_width first of
             Some c \<Rightarrow> bind_result (add_outputs c outs fresh_acc) (\<lambda>a. ok (class_output a))
           | None \<Rightarrow> bind_result (values_of first) (\<lambda>vs.
               let finite = finite_values (take 4096 vs)
               in ok (if finite = [] then [] else [(''hist'', JList (map (\<lambda>c. JNum (of_nat c)) (histogram finite)))]))))"

section \<open>The end of a window\<close>

definition build_window :: "(real list \<Rightarrow> nat list) \<Rightarrow> instant \<Rightarrow> stats_window \<Rightarrow> client_window result" where
  "build_window histogram now w =
     bind_result (input_stats (sw_inputs w)) (\<lambda>inputs.
     bind_result (output_stats histogram (List.map_filter id (sw_outputs w))) (\<lambda>output.
       ok \<lparr>cw_start = iso (sw_start w), cw_end = iso now, cw_n = sw_n w, cw_inputs = inputs, cw_output = output\<rparr>))"

definition flush_window :: "(real list \<Rightarrow> nat list) \<Rightarrow> instant \<Rightarrow> stats_window \<Rightarrow> client_window option \<times> stats_window" where
  "flush_window histogram now w =
     (if sw_n w = 0 then (None, w)
      else (case build_window histogram now w of Inr c \<Rightarrow> Some c | Inl _ \<Rightarrow> None, fresh_window now))"

section \<open>The reservoir\<close>

text \<open>A window after some requests: the reservoir holds them all up to its size and then 32 of them.\<close>

fun observe_all :: "(nat \<Rightarrow> nat) \<Rightarrow> (sample option \<times> ndarray option) list \<Rightarrow> stats_window \<Rightarrow> stats_window" where
  "observe_all rnd [] w = w"
| "observe_all rnd ((i, o') # reqs) w = observe_all rnd reqs (observe rnd i o' w)"

definition stored_of :: "(sample option \<times> ndarray option) \<Rightarrow> sample \<times> ndarray option" where
  "stored_of r = ((case fst r of None \<Rightarrow> [] | Some s \<Rightarrow> s), snd r)"

definition reservoir_ok :: "(sample option \<times> ndarray option) list \<Rightarrow> stats_window \<Rightarrow> bool" where
  "reservoir_ok reqs w \<longleftrightarrow> sw_n w = length reqs \<and> length (sw_inputs w) = length (sw_outputs w) \<and>
     length (sw_inputs w) = min (length reqs) RESERVOIR \<and> set (zip (sw_inputs w) (sw_outputs w)) \<subseteq> stored_of ` set reqs"

lemma set_zip_update: "set (zip (xs[j := x]) (ys[j := y])) \<subseteq> insert (x, y) (set (zip xs ys))"
  using set_update_subset_insert [of "zip xs ys" j "(x, y)"] by (simp add: update_zip)

lemma observe_ok: "reservoir_ok reqs w \<Longrightarrow> reservoir_ok (reqs @ [r]) (observe rnd (fst r) (snd r) w)"
  using set_zip_update [of "sw_inputs w" "rnd (Suc (sw_seen w))" "fst (stored_of r)" "sw_outputs w" "snd r"]
  by (auto simp: reservoir_ok_def observe_def store_sample_def Let_def stored_of_def)

lemma observe_all_ok: "reservoir_ok pre w \<Longrightarrow> reservoir_ok (pre @ reqs) (observe_all rnd reqs w)"
proof (induction reqs arbitrary: pre w)
  case (Cons r reqs)
  from observe_ok [OF Cons.prems, of r rnd] have "reservoir_ok (pre @ [r]) (observe rnd (fst r) (snd r) w)" .
  from Cons.IH [OF this] show ?case by (cases r) simp
qed simp

text \<open>The statistics use bounded memory and only real requests: after any number of requests, for any
  random draws, the window counts them all and keeps as many samples as there were requests, 32 at most,
  each pair of input and output coming from one and the same request.\<close>

theorem reservoir_is_bounded:
  "sw_n (observe_all rnd reqs (fresh_window now)) = length reqs \<and>
   length (sw_inputs (observe_all rnd reqs (fresh_window now))) = min (length reqs) RESERVOIR \<and>
   length (sw_outputs (observe_all rnd reqs (fresh_window now))) = min (length reqs) RESERVOIR \<and>
   set (zip (sw_inputs (observe_all rnd reqs (fresh_window now))) (sw_outputs (observe_all rnd reqs (fresh_window now))))
     \<subseteq> stored_of ` set reqs"
proof -
  have "reservoir_ok [] (fresh_window now)" by (simp add: reservoir_ok_def fresh_window_def)
  from observe_all_ok [OF this, of reqs rnd] show ?thesis by (simp add: reservoir_ok_def)
qed

section \<open>The class statistics\<close>

definition acc_ok :: "class_acc \<Rightarrow> bool" where
  "acc_ok a \<longleftrightarrow> length (ca_hist a) = HIST_BINS \<and> sum_list (ca_hist a) = ca_rows a \<and>
     distinct (map fst (ca_counts a)) \<and> sum_list (map snd (ca_counts a)) = ca_rows a"

lemma sum_list_bump: "i < length xs \<Longrightarrow> sum_list (xs[i := xs ! i + 1]) = sum_list xs + (1::nat)"
  by (simp add: sum_list_update elem_le_sum_list)

lemma sum_update_count:
  "distinct (map fst al) \<Longrightarrow>
   sum_list (map snd (AList.update k ((case map_of al k of Some n \<Rightarrow> n | None \<Rightarrow> 0) + 1) al)) = sum_list (map snd al) + (1::nat)"
  by (induction al) (auto split: option.splits)

lemma bin_of_less: "bin_of c < HIST_BINS"
  by (simp add: bin_of_def HIST_BINS_def)

lemma add_row_ok:
  assumes "add_row r a = ok a'" "acc_ok a" shows "acc_ok a' \<and> ca_rows a' = Suc (ca_rows a)"
proof -
  obtain probs where "row_probs r = Some probs" using assms(1) by (auto simp: add_row_def split: option.splits)
  then obtain k b where a': "ca_counts a' = AList.update k ((case map_of (ca_counts a) k of Some n \<Rightarrow> n | None \<Rightarrow> 0) + 1) (ca_counts a)"
    "ca_hist a' = (ca_hist a)[b := ca_hist a ! b + 1]" "ca_rows a' = ca_rows a + 1" "b < HIST_BINS"
    using assms(1) bin_of_less by (auto simp: add_row_def Let_def simp del: One_nat_def)
  have ok: "length (ca_hist a) = HIST_BINS" "sum_list (ca_hist a) = ca_rows a" "distinct (map fst (ca_counts a))"
    "sum_list (map snd (ca_counts a)) = ca_rows a" using assms(2) by (simp_all add: acc_ok_def)
  show ?thesis
    unfolding acc_ok_def a'(1-3) sum_update_count [OF ok(3)]
    using ok a'(4) sum_list_bump [of b "ca_hist a"] by (simp add: distinct_update)
qed

lemma add_rows_ok: "add_rows rs a = ok a' \<Longrightarrow> acc_ok a \<Longrightarrow> acc_ok a' \<and> ca_rows a' = ca_rows a + length rs"
proof (induction rs arbitrary: a)
  case (Cons r rs)
  then obtain a1 where "add_row r a = ok a1" "add_rows rs a1 = ok a'" by (cases "add_row r a") auto
  with add_row_ok Cons show ?case by fastforce
qed simp

lemma length_split_rows [simp]: "length (split_rows n c xs) = n"
  by (induction n arbitrary: xs) auto

definition matching_rows :: "nat \<Rightarrow> ndarray \<Rightarrow> nat" where
  "matching_rows c x = (case nd_shape x of [n, c'] \<Rightarrow> if c' = c then n else 0 | _ \<Rightarrow> 0)"

lemma add_outputs_ok:
  "add_outputs c xs a = ok a' \<Longrightarrow> acc_ok a \<Longrightarrow> acc_ok a' \<and> ca_rows a' = ca_rows a + sum_list (map (matching_rows c) xs)"
proof (induction xs arbitrary: a)
  case (Cons x xs)
  obtain vs where vs: "values_of x = ok vs" using Cons.prems(1) by (cases "values_of x") auto
  show ?case
  proof (cases "\<exists>n. nd_shape x = [n, c]")
    case True
    then obtain n where n: "nd_shape x = [n, c]" by blast
    then obtain a1 where a1: "add_rows (split_rows n c vs) a = ok a1" "add_outputs c xs a1 = ok a'"
      using Cons.prems(1) vs by (cases "add_rows (split_rows n c vs) a") auto
    have "acc_ok a1 \<and> ca_rows a1 = ca_rows a + n" using add_rows_ok [OF a1(1) Cons.prems(2)] by simp
    with Cons.IH [OF a1(2)] show ?thesis by (simp add: matching_rows_def n)
  next
    case False
    then have "add_outputs c xs a = ok a'" "matching_rows c x = 0"
      using Cons.prems(1) vs by (auto simp: matching_rows_def split: list.splits if_splits)
    with Cons.IH Cons.prems(2) show ?thesis by simp
  qed
qed simp

text \<open>The class statistics of a window are consistent: the histogram has its 16 bins and the counts of
  both the histogram and the class distribution add up to the rows of the outputs that have the width of
  the first one.\<close>

theorem class_statistics_add_up:
  assumes "add_outputs c outs fresh_acc = ok a"
  shows "length (ca_hist a) = HIST_BINS \<and> sum_list (ca_hist a) = sum_list (map (matching_rows c) outs) \<and>
    sum_list (map snd (ca_counts a)) = sum_list (map (matching_rows c) outs) \<and> distinct (map fst (ca_counts a))"
proof -
  have "acc_ok fresh_acc" by (simp add: acc_ok_def fresh_acc_def)
  from add_outputs_ok [OF assms this] show ?thesis by (simp add: acc_ok_def fresh_acc_def)
qed

definition demo_scores :: ndarray where
  "demo_scores = \<lparr>nd_shape = [1, 2], nd_values = Some [Fin 0, Fin 1]\<rparr>"

theorem class_statistics_add_up_witness:
  "\<exists>a. add_outputs 2 [demo_scores, demo_scores] fresh_acc = ok a \<and> sum_list (ca_hist a) = 2"
proof -
  have p: "row_probs [Fin 0, Fin 1] \<noteq> None" by (simp add: row_probs_def finite_values_def List.map_filter_def Let_def)
  have r: "\<exists>b. add_row [Fin 0, Fin 1] a = ok b" for a using p by (auto simp: add_row_def Let_def)
  obtain a1 where a1: "add_row [Fin 0, Fin 1] fresh_acc = ok a1" using r by blast
  obtain a where a: "add_row [Fin 0, Fin 1] a1 = ok a" using r by blast
  have d: "values_of demo_scores = ok [Fin 0, Fin 1]" "nd_shape demo_scores = [1, 2]" by (simp_all add: demo_scores_def values_of_def)
  have "split_rows 1 2 [Fin 0, Fin 1] = [[Fin 0, Fin 1]]" by (simp add: numeral_eq_Suc)
  then have out: "add_outputs 2 [demo_scores, demo_scores] fresh_acc = ok a" using a1 a by (simp add: d)
  have "sum_list (ca_hist a) = 2" using class_statistics_add_up [OF out] by (simp add: matching_rows_def d)
  with out show ?thesis by blast
qed

section \<open>A NaN in an output\<close>

lemma add_rows_raises: "r \<in> set rs \<Longrightarrow> row_probs r = None \<Longrightarrow> \<exists>e. add_rows rs a = Inl e"
proof (induction rs arbitrary: a)
  case (Cons x rs)
  show ?case
  proof (cases "x = r")
    case True then show ?thesis using Cons.prems by (simp add: add_row_def)
  next
    case False then show ?thesis using Cons by (cases "add_row x a") auto
  qed
qed simp

lemma add_outputs_raises:
  assumes "x \<in> set xs" "nd_shape x = [n, c]" "nd_values x = Some vs" "r \<in> set (split_rows n c vs)" "row_probs r = None"
  shows "\<exists>e. add_outputs c xs a = Inl e"
  using assms(1)
proof (induction xs arbitrary: a)
  case (Cons y ys)
  show ?case
  proof (cases "x = y")
    case True
    then show ?thesis using add_rows_raises [OF assms(4,5), of a] assms(2,3) by (auto simp: values_of_def)
  next
    case False
    then have "\<exists>e. add_outputs c ys b = Inl e" for b using Cons by simp
    moreover have "bind_result z (add_outputs c ys) = Inl e \<or> (\<exists>b. z = ok b)" if "z = Inl e" for z e using that by simp
    ultimately show ?thesis
      by (cases "values_of y"; cases "\<exists>n. nd_shape y = [n, c]")
        (auto split: list.splits, metis bind_result.simps sumE)
  qed
qed simp

text \<open>One bad output loses a whole window: when the first output looks like a classifier's and any sampled
  output of the same width has a row with a NaN, flushing gives nothing, so the request count, the input
  statistics and the other outputs of that window are lost with it.\<close>

theorem nan_output_loses_the_window:
  assumes "0 < sw_n w" "List.map_filter id (sw_outputs w) = first # rest" "classifier_width first = Some c"
    "x \<in> set (first # rest)" "nd_shape x = [n, c]" "nd_values x = Some vs" "r \<in> set (split_rows n c vs)" "NaN \<in> set r"
  shows "flush_window histogram now w = (None, fresh_window now)"
proof -
  have "row_probs r = None" using assms(8) by (simp add: row_probs_def)
  from add_outputs_raises [OF assms(4-7) this] obtain e where "add_outputs c (first # rest) fresh_acc = Inl e" by blast
  then have "output_stats histogram (first # rest) = Inl e" using assms(3) by (simp add: output_stats_def)
  then have "\<exists>e. build_window histogram now w = Inl e"
    using assms(2) by (cases "input_stats (sw_inputs w)") (auto simp: build_window_def)
  then show ?thesis using assms(1) by (auto simp: flush_window_def)
qed

theorem nan_output_loses_the_window_witness:
  "flush_window (\<lambda>_. []) 0 \<lparr>sw_start = 0, sw_n = 2, sw_seen = 2, sw_inputs = [[], []],
     sw_outputs = [Some demo_scores, Some \<lparr>nd_shape = [1, 2], nd_values = Some [Fin 0, NaN]\<rparr>]\<rparr> = (None, fresh_window 0)"
  using nan_output_loses_the_window [of "\<lparr>sw_start = 0, sw_n = 2, sw_seen = 2, sw_inputs = [[], []],
     sw_outputs = [Some demo_scores, Some \<lparr>nd_shape = [1, 2], nd_values = Some [Fin 0, NaN]\<rparr>]\<rparr>" demo_scores
     "[\<lparr>nd_shape = [1, 2], nd_values = Some [Fin 0, NaN]\<rparr>]" 2 "\<lparr>nd_shape = [1, 2], nd_values = Some [Fin 0, NaN]\<rparr>" 1
     "[Fin 0, NaN]" "[Fin 0, NaN]" "\<lambda>_. []" 0]
  by (simp add: List.map_filter_def classifier_width_def demo_scores_def MAX_CLASSES_def)

end
