(* ===== verification/Model_Detector.thy ===== *)
theory Model_Detector
  imports Topo_Order
begin

text \<open>
  The architecture detector, \<open>astra/graph/model_detector.py\<close>: the classification of a graph by its
  operators and the pattern of its compute operators.  The formula texts and the printed summary are
  left out; the pattern is the list of names the text joins with arrows.
\<close>

datatype architecture = MLP | CNN | RNN | TRANSFORMER | TREE_ARCH | LINEAR_ARCH | SVM_ARCH | HYBRID | UNKNOWN

text \<open>\<open>op_types[i:i+5]\<close> from every position with two more behind it.\<close>

definition window5 :: "nat \<Rightarrow> string list \<Rightarrow> string list" where
  "window5 i op_types = take 5 (drop i op_types)"

definition detect_attention_pattern :: "string list \<Rightarrow> bool" where
  "detect_attention_pattern op_types \<longleftrightarrow>
     list_ex (\<lambda>i. op_types ! i = ''MatMul'' \<and> ''Softmax'' \<in> set (window5 i op_types) \<and>
                  2 \<le> length (filter (\<lambda>t. t = ''MatMul'') (window5 i op_types)))
       [0..<length op_types - 2]"

definition classify_architecture :: "graph_info \<Rightarrow> architecture \<times> real" where
  "classify_architecture info =
     (let op_types = map op_type (gi_operators info); categories = map op_category (gi_operators info);
          has = (\<lambda>ts. list_ex (\<lambda>t. t \<in> set ts) op_types);
          has_conv = has [''Conv'', ''ConvTranspose''];
          has_matmul = has [''MatMul'', ''Gemm''];
          has_rnn = has [''LSTM'', ''GRU'', ''RNN''];
          neural_ops = length (filter (\<lambda>c. c \<in> {DENSE_COMPUTE, NORMALIZATION, ACTIVATION}) categories);
          ml_ops = length (filter (\<lambda>c. c \<in> {TREE_ENSEMBLE, LINEAR_MODEL, operator_category.SVM}) categories)
      in if ml_ops > 0 \<and> neural_ops > 0 then (HYBRID, 0.8)
         else if TREE_ENSEMBLE \<in> set categories then (TREE_ARCH, 0.95)
         else if operator_category.SVM \<in> set categories then (SVM_ARCH, 0.95)
         else if LINEAR_MODEL \<in> set categories then (LINEAR_ARCH, 0.95)
         else if has_rnn then (RNN, 0.9)
         else if detect_attention_pattern op_types then (TRANSFORMER, 0.85)
         else if has_conv then (CNN, 0.9)
         else if has_matmul \<and> \<not> has_conv then (MLP, 0.85)
         else (UNKNOWN, 0.3))"

definition PLAIN_OPS :: "string list" where
  "PLAIN_OPS = [''Add'', ''Sub'', ''Cast'', ''Reshape'', ''Flatten'', ''Squeeze'', ''Unsqueeze'']"

definition describe_pattern :: "graph_info \<Rightarrow> string list" where
  "describe_pattern info =
     map op_type (filter (\<lambda>op. op_category op \<notin> {DATA_MOVEMENT, PREPROCESSING, OTHER} \<and> op_type op \<notin> set PLAIN_OPS) (gi_operators info))"

text \<open>A tree operator's parameter text names its trees and nodes.\<close>

definition tree_summary :: "operator_info \<Rightarrow> (nat \<times> nat) option" where
  "tree_summary op =
     (if op_category op = TREE_ENSEMBLE
      then map_option (\<lambda>v. case v of AInts ids \<Rightarrow> (length (remdups ids), length ids) | _ \<Rightarrow> (0, 0)) (map_of (op_attributes op) ''nodes_treeids'')
      else None)"

record model_report =
  mr_architecture :: architecture
  mr_confidence :: real
  mr_layer_count :: nat
  mr_total_params :: nat
  mr_total_flops :: int
  mr_pattern :: "string list"

definition detect :: "(graph \<Rightarrow> graph option) \<Rightarrow> graph \<Rightarrow> model_report result" where
  "detect infer_shapes g =
     bind_result (analyze infer_shapes g) (\<lambda>info.
       let arch = classify_architecture info in
       ok \<lparr>mr_architecture = fst arch, mr_confidence = snd arch, mr_layer_count = length (gi_operators info),
           mr_total_params = gi_total_params info, mr_total_flops = gi_total_flops info, mr_pattern = describe_pattern info\<rparr>)"

section \<open>The attention pattern\<close>

text \<open>Attention is found: a MatMul, a Softmax and a MatMul in this order, with at most two operators in
  between in all, make the pattern match wherever they stand in the graph.\<close>

theorem attention_is_found:
  assumes "op_types = xs @ ''MatMul'' # bs @ ''Softmax'' # cs @ ''MatMul'' # ys" "length bs + length cs \<le> 2"
  shows "detect_attention_pattern op_types"
proof -
  let ?i = "length xs"
  have w: "window5 ?i op_types = ''MatMul'' # bs @ ''Softmax'' # cs @ ''MatMul'' # take (2 - (length bs + length cs)) ys"
    using assms(2) by (simp add: assms(1) window5_def take_Cons' Suc_diff_le)
  have "op_types ! ?i = ''MatMul''" "?i < length op_types - 2" using assms(1) by simp_all
  moreover have "2 \<le> length (filter (\<lambda>t. t = ''MatMul'') (window5 ?i op_types))" "''Softmax'' \<in> set (window5 ?i op_types)"
    unfolding w by simp_all
  ultimately show ?thesis unfolding detect_attention_pattern_def list_ex_iff by (intro bexI [of _ ?i]) simp_all
qed

theorem attention_is_found_witness:
  "detect_attention_pattern [''Add'', ''MatMul'', ''Div'', ''Softmax'', ''MatMul'', ''Add'']"
  using attention_is_found [of _ "[''Add'']" "[''Div'']" "[]" "[''Add'']", OF refl] by simp

text \<open>The converse fails: the order inside the window is not looked at, so a perceptron whose last layer
  is followed by a Softmax counts as a Transformer.\<close>

lemma attention_ignores_order:
  "detect_attention_pattern [''MatMul'', ''Add'', ''MatMul'', ''Add'', ''Softmax'']"
  by code_simp

end
