(* ===== verification/Architecture_Map.thy ===== *)
theory Architecture_Map
  imports Onnx_Analyzer
begin

text \<open>
  The architecture view: operator kinds and attention blocks (\<open>app/services/mappers/op_kind.py\<close>), the
  bridging of dropped operators and the node list (\<open>mappers/architecture_mapper.py\<close>) and the layout
  (\<open>mappers/layout.py\<close>).  The lemmas show that the layout puts no two nodes in one place, that depths
  are longest paths, and that a drawn edge stands for a path through dropped operators.
\<close>

section \<open>Kinds\<close>

definition DIRECT :: "(string \<times> string) list" where
  "DIRECT =
     [(''Conv'', ''conv''), (''ConvInteger'', ''conv''), (''ConvTranspose'', ''upsample''), (''Resize'', ''upsample''),
      (''Upsample'', ''upsample''), (''BatchNormalization'', ''bn''), (''InstanceNormalization'', ''bn''),
      (''LayerNormalization'', ''norm''), (''GroupNormalization'', ''norm''), (''Relu'', ''relu''), (''LeakyRelu'', ''relu''),
      (''Sigmoid'', ''relu''), (''Tanh'', ''relu''), (''Gelu'', ''relu''), (''Selu'', ''relu''), (''Elu'', ''relu''), (''Clip'', ''relu''),
      (''Softmax'', ''softmax''), (''LogSoftmax'', ''softmax''), (''AveragePool'', ''pool''), (''MaxPool'', ''pool''),
      (''GlobalAveragePool'', ''pool''), (''GlobalMaxPool'', ''pool''), (''MatMul'', ''dense''), (''MatMulInteger'', ''dense''),
      (''Gemm'', ''dense''), (''Gather'', ''embed''), (''GatherElements'', ''embed''), (''LSTM'', ''lstm''), (''GRU'', ''lstm''),
      (''RNN'', ''lstm''), (''Loop'', ''lstm''), (''Scan'', ''lstm''), (''TreeEnsembleClassifier'', ''dense''),
      (''TreeEnsembleRegressor'', ''dense''), (''TreeEnsemble'', ''dense''), (''LinearClassifier'', ''dense''),
      (''LinearRegressor'', ''dense''), (''SVMClassifier'', ''dense''), (''SVMRegressor'', ''dense'')]"

definition ATTN_NAME_TOKENS :: "string list" where
  "ATTN_NAME_TOKENS = [''attn'', ''attention'', ''query'', ''/q/'', ''/k/'', ''/v/'', ''qkv'']"

definition ATTN_WINDOW :: nat where "ATTN_WINDOW = 5"

definition kind_for :: "string \<Rightarrow> string \<Rightarrow> bool \<Rightarrow> string option" where
  "kind_for nm ty in_attention_window =
     (case map_of DIRECT ty of
        None \<Rightarrow> None
      | Some kind \<Rightarrow>
          if kind = ''dense'' \<and> (in_attention_window \<or> list_ex (\<lambda>tok. str_in tok (str_lower nm)) ATTN_NAME_TOKENS)
          then Some ''attn'' else Some kind)"

fun index_of :: "'a \<Rightarrow> 'a list \<Rightarrow> nat" where
  "index_of x [] = 0"
| "index_of x (y # ys) = (if x = y then 0 else Suc (index_of x ys))"

text \<open>The MatMuls of the window up to its first Softmax, and the one right behind it.\<close>

definition attention_at :: "(string \<times> string) list \<Rightarrow> nat \<Rightarrow> string list" where
  "attention_at ordered_ops i =
     (let types = map snd ordered_ops; window = take ATTN_WINDOW (drop i types) in
      if types ! i = ''MatMul'' \<and> ''Softmax'' \<in> set window \<and> 2 \<le> length (filter (\<lambda>t. t = ''MatMul'') window)
      then let soft = i + index_of ''Softmax'' window
           in map (\<lambda>j. fst (ordered_ops ! j))
                (filter (\<lambda>j. types ! j = ''MatMul'' \<and> (j \<le> soft \<or> j = soft + 1)) [i..<min (i + ATTN_WINDOW) (length types)])
      else [])"

definition find_attention_ops :: "(string \<times> string) list \<Rightarrow> string list" where
  "find_attention_ops ordered_ops = concat (map (attention_at ordered_ops) [0..<length ordered_ops])"

section \<open>Layout\<close>

definition COL_GAP :: real where "COL_GAP = 3.4"
definition GRID_THRESHOLD :: nat where "GRID_THRESHOLD = 4"

record node_pos =
  np_depth :: nat
  np_col :: real
  np_zcol :: "real option"

definition preds_of :: "string list \<Rightarrow> (string \<times> string) list \<Rightarrow> string \<Rightarrow> string list" where
  "preds_of node_ids edges n = map fst (filter (\<lambda>e. fst e \<in> set node_ids \<and> snd e = n) edges)"

text \<open>The maximum over no values raises: the predecessors of a node must come before it.\<close>

fun depth_loop :: "string list \<Rightarrow> (string \<times> string) list \<Rightarrow> string list \<Rightarrow> (string \<times> nat) list \<Rightarrow> (string \<times> nat) list result" where
  "depth_loop node_ids edges [] depth = ok depth"
| "depth_loop node_ids edges (n # ns) depth =
     (let ps = preds_of node_ids edges n; known = List.map_filter (map_of depth) ps in
      if ps = [] then depth_loop node_ids edges ns (AList.update n 0 depth)
      else if known = [] then raise (ValueError ''max() arg is an empty sequence'')
      else depth_loop node_ids edges ns (AList.update n (1 + Max (set known)) depth))"

definition offset_of :: "nat \<Rightarrow> nat \<Rightarrow> real" where
  "offset_of i k = py_round 3 ((of_nat i - (of_nat k - 1) / 2) * COL_GAP)"

definition place :: "nat \<Rightarrow> nat \<Rightarrow> nat \<Rightarrow> node_pos" where
  "place d k i =
     (if k = 1 then \<lparr>np_depth = d, np_col = 0, np_zcol = None\<rparr>
      else if k \<le> GRID_THRESHOLD then \<lparr>np_depth = d, np_col = offset_of i k, np_zcol = None\<rparr>
      else let cols = nat \<lceil>sqrt (of_nat k)\<rceil>; rows = nat \<lceil>of_nat k / (of_nat cols :: real)\<rceil>
           in \<lparr>np_depth = d, np_col = offset_of (i mod cols) cols, np_zcol = Some (offset_of (i div cols) rows)\<rparr>)"

definition place_level :: "(string \<times> nat) list \<Rightarrow> nat \<times> string list \<Rightarrow> (string \<times> node_pos) list" where
  "place_level order_index level =
     (case level of (d, members) \<Rightarrow>
       let ms = sort_key (\<lambda>n. case map_of order_index n of Some i \<Rightarrow> i | None \<Rightarrow> 0) members
       in map (\<lambda>(i, n). (n, place d (length ms) i)) (enumerate 0 ms))"

definition levels_of :: "string list \<Rightarrow> (string \<times> nat) list \<Rightarrow> (nat \<times> string list) list" where
  "levels_of node_ids depth = group_pairs (map (\<lambda>n. (the (map_of depth n), n)) node_ids)"

definition compute_layout :: "string list \<Rightarrow> (string \<times> string) list \<Rightarrow> (string \<times> nat) list \<Rightarrow> (string \<times> node_pos) list result" where
  "compute_layout node_ids edges order_index =
     bind_result (depth_loop node_ids edges node_ids []) (\<lambda>depth.
       ok (concat (map (place_level order_index) (levels_of node_ids depth))))"

section \<open>Bridging dropped operators\<close>

text \<open>The successors among the kept nodes, through dropped ones.  \<open>memo\<close> is shared by all the calls.\<close>

type_synonym succ_memo = "string \<Rightarrow> string list option"

definition succs_of :: "(string \<times> string list) list \<Rightarrow> string \<Rightarrow> string list" where
  "succs_of adj name = (case map_of adj name of Some ss \<Rightarrow> ss | None \<Rightarrow> [])"

text \<open>A call goes to a node not seen yet and marks the present one as seen.\<close>

definition ks_measure :: "(string \<times> string list) list \<Rightarrow> string set \<Rightarrow> string \<Rightarrow> nat" where
  "ks_measure adj seen name = 2 * card (fst ` set adj - seen) + (if name \<in> seen then 1 else 0)"

lemma ks_measure_less:
  assumes "succ \<in> set (succs_of adj name)" "succ \<notin> seen"
  shows "ks_measure adj (insert name seen) succ < ks_measure adj seen name"
proof -
  have n: "name \<in> fst ` set adj"
    using assms(1) by (cases "map_of adj name") (auto simp: succs_of_def dest!: map_of_SomeD intro: rev_image_eqI)
  show ?thesis
  proof (cases "name \<in> seen")
    case True then show ?thesis using assms(2) by (auto simp: ks_measure_def insert_absorb)
  next
    case False
    have "fst ` set adj - insert name seen \<subset> fst ` set adj - seen" using n False by auto
    then have "card (fst ` set adj - insert name seen) < card (fst ` set adj - seen)" by (intro psubset_card_mono) auto
    then show ?thesis using False by (simp add: ks_measure_def)
  qed
qed

function kept_successors ::
  "(string \<times> string list) list \<Rightarrow> string set \<Rightarrow> string set \<Rightarrow> string \<Rightarrow> succ_memo \<Rightarrow> string list \<times> succ_memo" where
  "kept_successors adj kept seen name memo =
     (case memo name of
        Some out \<Rightarrow> (out, memo)
      | None \<Rightarrow>
          let r = fold (\<lambda>succ st.
                    if succ \<in> seen then st
                    else if succ \<in> kept then (List.insert succ (fst st), snd st)
                    else (let q = kept_successors adj kept (insert name seen) succ (snd st)
                          in (List.union (fst q) (fst st), snd q)))
                  (succs_of adj name) ([], memo)
          in (fst r, (snd r)(name \<mapsto> fst r)))"
  by pat_completeness auto

termination
  by (relation "measure (\<lambda>(adj, kept, seen, name, memo). ks_measure adj seen name)") (auto simp: ks_measure_less)

declare kept_successors.simps [simp del]

definition add_edges ::
  "(string \<times> string list) list \<Rightarrow> string set \<Rightarrow> string list \<Rightarrow> string \<Rightarrow> (string \<times> string) list \<times> succ_memo
     \<Rightarrow> (string \<times> string) list \<times> succ_memo" where
  "add_edges adj kept topo name st =
     (if name \<notin> kept then st
      else let q = kept_successors adj kept {} name (snd st);
               new = map (Pair name) (sort_key (\<lambda>s. index_of s topo) (fst q))
           in (fst st @ filter (\<lambda>e. e \<notin> set (fst st)) new, snd q))"

definition edge_pairs :: "(string \<times> string list) list \<Rightarrow> string set \<Rightarrow> string list \<Rightarrow> (string \<times> string) list" where
  "edge_pairs adj kept topo = fst (fold (add_edges adj kept topo) topo ([], Map.empty))"

section \<open>The architecture\<close>

definition ARCH_DISPLAY :: "(string \<times> string) list" where
  "ARCH_DISPLAY = [(''MLP'', ''Multi-Layer Perceptron''), (''CNN'', ''Convolutional Neural Networks''),
     (''RNN'', ''Recurrent Neural Network''), (''Transformer'', ''Transformer''), (''TreeEnsemble'', ''Gradient Boosted Trees''),
     (''LinearModel'', ''Linear Model''), (''SVM'', ''Support Vector Machine''), (''Hybrid'', ''Hybrid Network''),
     (''Unknown'', ''Neural Network'')]"

text \<open>The layers, without the texts that describe them.\<close>

record layer_node =
  ln_id :: string
  ln_kind :: string
  ln_op_type :: "string option"
  ln_category :: "operator_category option"
  ln_depth :: nat
  ln_col :: real
  ln_zcol :: "real option"
  ln_sensitivity :: real
  ln_params :: nat
  ln_latency :: real
  ln_recommend :: string
  ln_width :: "real option"
  ln_in_shape :: "int list option"
  ln_out_shape :: "int list option"
  ln_flops :: int
  ln_units :: "int option"
  ln_from_pareto :: bool

record layer_graph =
  lg_type :: string
  lg_nodes :: "layer_node list"
  lg_edges :: "(string \<times> string) list"

definition units_for :: "operator_info \<Rightarrow> string \<Rightarrow> int option" where
  "units_for op kind =
     (case op_output_shapes op of
        Some sh # _ \<Rightarrow>
          (let shape = filter (\<lambda>d. d > 0) sh in
           if shape = [] then None
           else if kind \<in> {''conv'', ''bn'', ''pool'', ''upsample''} \<and> length shape > 1 then Some (shape ! 1)
           else Some (last shape))
      | _ \<Rightarrow> None)"

definition width_for :: "int option \<Rightarrow> real option" where
  "width_for units = map_option (\<lambda>u. of_int (max 3 (min 22 (round_half_even (sqrt (of_int u)))))) units"

definition concrete_shape :: "int list option list \<Rightarrow> int list option" where
  "concrete_shape shapes =
     (case shapes of Some sh # _ \<Rightarrow> if sh = [] \<or> \<not> list_all (\<lambda>d. d > 0) sh then None else Some sh | _ \<Rightarrow> None)"

definition end_node :: "string \<Rightarrow> nat \<Rightarrow> layer_node" where
  "end_node nm d = \<lparr>ln_id = nm, ln_kind = nm, ln_op_type = None, ln_category = None, ln_depth = d, ln_col = 0, ln_zcol = None, ln_sensitivity = 0.05, ln_params = 0,
     ln_latency = 0, ln_recommend = ''FP32'', ln_width = None, ln_in_shape = None, ln_out_shape = None, ln_flops = 0,
     ln_units = None, ln_from_pareto = False\<rparr>"

record arch_request =
  aq_sensitivity :: "(string \<times> real) list"
  aq_latency :: real
  aq_recommend :: "operator_info \<Rightarrow> real \<Rightarrow> string"
  aq_precisions :: "(string \<times> string) list"

definition layer_of :: "arch_request \<Rightarrow> int \<Rightarrow> string \<Rightarrow> string \<Rightarrow> operator_info \<Rightarrow> node_pos \<Rightarrow> layer_node" where
  "layer_of q flops_total nm kind op p =
     (let sens = py_round 4 (min 1 (max 0 (case map_of (aq_sensitivity q) nm of Some s \<Rightarrow> s | None \<Rightarrow> 0)));
          share = of_int (max 0 (op_flops op)) / of_int flops_total;
          lat0 = py_round 4 (aq_latency q * share);
          lat = (if lat0 = 0 \<and> kind \<in> {''pool'', ''relu'', ''softmax'', ''norm'', ''bn''} then py_round 4 (aq_latency q * 0.002) else lat0);
          units = units_for op kind
      in \<lparr>ln_id = nm, ln_kind = kind, ln_op_type = Some (op_type op),
          ln_category = Some (op_category op), ln_depth = np_depth p + 1, ln_col = np_col p, ln_zcol = np_zcol p, ln_sensitivity = sens,
          ln_params = op_param_count op, ln_latency = lat,
          ln_recommend = (case map_of (aq_precisions q) nm of
              Some r \<Rightarrow> if r \<in> {''INT8'', ''FP16'', ''FP32''} then r else ''FP16''
            | None \<Rightarrow> aq_recommend q op sens),
          ln_width = width_for units, ln_in_shape = concrete_shape (op_input_shapes op), ln_out_shape = concrete_shape (op_output_shapes op),
          ln_flops = max 0 (op_flops op), ln_units = units, ln_from_pareto = (map_of (aq_precisions q) nm \<noteq> None)\<rparr>)"

text \<open>The kept nodes with their kinds; a graph without any keeps everything as dense.\<close>

definition ops_of :: "graph_info \<Rightarrow> string \<Rightarrow> operator_info option" where
  "ops_of gi nm = find (\<lambda>op. op_name op = nm) (rev (gi_operators gi))"

definition topo_of :: "graph_info \<Rightarrow> string list" where
  "topo_of gi = filter (\<lambda>n. ops_of gi n \<noteq> None) (gi_topo_order gi)"

definition kept_kinds :: "graph_info \<Rightarrow> (string \<times> string) list" where
  "kept_kinds gi =
     (let topo = topo_of gi; ty = (\<lambda>n. op_type (the (ops_of gi n)));
          attn = find_attention_ops (map (\<lambda>n. (n, ty n)) topo);
          kept = List.map_filter (\<lambda>n. map_option (Pair n) (kind_for n (ty n) (n \<in> set attn))) topo
      in if kept = [] then map (\<lambda>n. (n, ''dense'')) topo else kept)"

definition map_architecture :: "arch_request \<Rightarrow> string \<Rightarrow> graph_info \<Rightarrow> layer_graph result" where
  "map_architecture q architecture_name gi =
     (let topo = topo_of gi; kinds = kept_kinds gi; kept = fst ` set kinds;
          pairs = edge_pairs (gi_adjacency gi) kept topo;
          order = filter (\<lambda>n. n \<in> kept) topo;
          sources = filter (\<lambda>n. n \<notin> snd ` set pairs) order; sinks = filter (\<lambda>n. n \<notin> fst ` set pairs) order;
          flops = sum_list (map (\<lambda>n. max 0 (op_flops (the (ops_of gi n)))) order); total = (if flops = 0 then 1 else flops)
      in bind_result (compute_layout order pairs (map (\<lambda>(i, n). (n, i)) (enumerate 0 order))) (\<lambda>pos.
           let layers = map (\<lambda>n. layer_of q total n (the (map_of kinds n)) (the (ops_of gi n)) (the (map_of pos n))) order;
               nodes = end_node ''input'' 0 # layers
           in ok \<lparr>lg_type = (case map_of ARCH_DISPLAY architecture_name of Some t \<Rightarrow> t | None \<Rightarrow> architecture_name),
                  lg_nodes = nodes @ [end_node ''output'' (Max (set (map ln_depth nodes)) + 1)],
                  lg_edges = map (Pair ''input'') sources @ pairs @ map (\<lambda>n. (n, ''output'')) sinks\<rparr>))"

section \<open>No two nodes in one place\<close>

lemma py_round_exact: "x * 10 ^ n = of_int z \<Longrightarrow> py_round n x = x"
  by (simp add: py_round_def) (metis nonzero_mult_div_cancel_right power_not_zero zero_neq_numeral)

lemma offset_of_eq: "offset_of i k = (2 * of_nat i - of_nat k + 1) * 1.7"
proof -
  have "((of_nat i - (of_nat k - 1) / 2) * COL_GAP) * 10 ^ 3 = (of_int ((2 * int i - int k + 1) * 1700) :: real)"
    by (simp add: COL_GAP_def field_simps)
  from py_round_exact [OF this] show ?thesis by (simp add: offset_of_def COL_GAP_def field_simps)
qed

lemma offset_of_inj: "offset_of i k = offset_of j k \<longleftrightarrow> i = j"
  by (simp add: offset_of_eq)

lemma place_inj: "i < k \<Longrightarrow> j < k \<Longrightarrow> place d k i = place d k j \<Longrightarrow> i = j"
  by (auto simp: place_def Let_def offset_of_inj split: if_splits) (metis div_mult_mod_eq)

lemma place_depth [simp]: "np_depth (place d k i) = d"
  by (simp add: place_def Let_def)

lemma map_snd_place_level:
  "map snd (place_level oi (d, ms)) = map (place d (length ms)) [0..<length ms]"
  by (intro nth_equalityI) (simp_all add: place_level_def Let_def nth_enumerate_eq case_prod_beta')

lemma mset_fst_place_level: "mset (map fst (place_level oi (d, ms))) = mset ms"
proof -
  have "map fst (place_level oi (d, ms)) = sort_key (\<lambda>n. case map_of oi n of Some i \<Rightarrow> i | None \<Rightarrow> 0) ms"
    by (intro nth_equalityI) (simp_all add: place_level_def Let_def nth_enumerate_eq case_prod_beta')
  then show ?thesis by simp
qed

lemma mset_append_at:
  "distinct (map fst d) \<Longrightarrow> mset (concat (map snd (append_at k v d))) = add_mset v (mset (concat (map snd d)))"
  by (induction d) (auto simp: append_at_def split: option.splits)

lemma mset_group_pairs: "mset (concat (map snd (group_pairs kvs))) = mset (map snd kvs)"
proof (induction kvs rule: rev_induct)
  case (snoc x kvs)
  have "group_pairs (kvs @ [x]) = append_at (fst x) (snd x) (group_pairs kvs)" by (simp add: group_pairs_def case_prod_beta')
  with snoc show ?case by (simp add: mset_append_at distinct_group_pairs)
qed (simp add: group_pairs_def)

text \<open>No two layers are drawn in one place: whatever the graph, when the layout returns, every node has
  exactly one position and the positions are pairwise different, the rounding of the offsets included.\<close>

theorem layout_places_apart:
  assumes "compute_layout node_ids edges order_index = ok placed"
  shows "distinct (map snd placed) \<and> mset (map fst placed) = mset node_ids"
proof -
  obtain depth where p: "placed = concat (map (place_level order_index) (levels_of node_ids depth))"
    using assms by (auto simp: compute_layout_def bind_result_Inr)
  have lv: "distinct (map fst (levels_of node_ids depth))" by (simp add: levels_of_def distinct_group_pairs)
  have deep: "np_depth p = d" if "p \<in> set (map snd (place_level order_index (d, ms)))" for p d ms
    using that unfolding map_snd_place_level by auto
  have in_level: "np_depth p \<in> fst ` set ls" if "p \<in> set (map snd (concat (map (place_level order_index) ls)))" for p ls
  proof -
    note m = that
    obtain d ms where "(d, ms) \<in> set ls" "p \<in> set (map snd (place_level order_index (d, ms)))"
      using m by (fastforce simp: set_concat)
    with deep show ?thesis by (metis fst_conv image_eqI)
  qed
  have "distinct (map snd (concat (map (place_level order_index) ls)))" if "distinct (map fst ls)" for ls
    using that
  proof (induction ls)
    case (Cons l ls)
    obtain d ms where l: "l = (d, ms)" by (cases l)
    have "distinct (map snd (place_level order_index (d, ms)))"
      unfolding map_snd_place_level by (auto simp: distinct_map inj_on_def dest: place_inj)
    moreover have "set (map snd (place_level order_index (d, ms))) \<inter> set (map snd (concat (map (place_level order_index) ls))) = {}"
    proof (rule ccontr)
      assume "\<not> ?thesis"
      then obtain p where "p \<in> set (map snd (place_level order_index (d, ms)))" "p \<in> set (map snd (concat (map (place_level order_index) ls)))"
        by blast
      with deep in_level have "d \<in> fst ` set ls" by blast
      with Cons.prems l show False by simp
    qed
    ultimately show ?case using Cons unfolding l list.map concat.simps map_append distinct_append by (simp only: distinct.simps simp_thms)
  qed simp
  with lv have "distinct (map snd placed)" unfolding p by blast
  moreover have "mset (map fst (concat (map (place_level order_index) ls))) = mset (concat (map snd ls))" for ls
    by (induction ls) (auto simp: mset_fst_place_level simp flip: mset_map)
  then have "mset (map fst placed) = mset node_ids" by (simp add: p levels_of_def mset_group_pairs comp_def)
  ultimately show ?thesis by blast
qed

section \<open>Depths are longest paths\<close>

text \<open>The predecessors of a node stand before it.\<close>

definition topological :: "string list \<Rightarrow> (string \<times> string) list \<Rightarrow> bool" where
  "topological node_ids edges \<longleftrightarrow>
     (\<forall>i < length node_ids. set (preds_of node_ids edges (node_ids ! i)) \<subseteq> set (take i node_ids))"

definition depth_eq :: "string list \<Rightarrow> (string \<times> string) list \<Rightarrow> (string \<Rightarrow> nat) \<Rightarrow> string \<Rightarrow> bool" where
  "depth_eq node_ids edges D n \<longleftrightarrow>
     D n = (if preds_of node_ids edges n = [] then 0 else 1 + Max (D ` set (preds_of node_ids edges n)))"

lemma depth_eq_cong: "(\<And>m. m = n \<or> m \<in> set (preds_of ns es n) \<Longrightarrow> D m = D' m) \<Longrightarrow> depth_eq ns es D n = depth_eq ns es D' n"
  unfolding depth_eq_def by (metis (no_types, lifting) image_cong)

lemma known_all: "set ps \<subseteq> fst ` set acc \<Longrightarrow> List.map_filter (map_of acc) ps = map (\<lambda>m. the (map_of acc m)) ps"
proof (induction ps)
  case (Cons a ps)
  then have "map_of acc a \<noteq> None" by (simp add: map_of_eq_None_iff)
  then obtain v where "map_of acc a = Some v" by blast
  with Cons show ?case by (simp add: List.map_filter_simps)
qed (simp add: List.map_filter_simps)

lemma depth_loop_spec:
  assumes "distinct node_ids" "topological node_ids edges" "node_ids = xs @ ns" "fst ` set acc = set xs"
    "\<forall>n \<in> set xs. depth_eq node_ids edges (\<lambda>m. the (map_of acc m)) n"
  shows "\<exists>depth. depth_loop node_ids edges ns acc = ok depth \<and> fst ` set depth = set node_ids \<and>
    (\<forall>n \<in> set node_ids. depth_eq node_ids edges (\<lambda>m. the (map_of depth m)) n)"
  using assms(3-5)
proof (induction ns arbitrary: xs acc)
  case Nil then show ?case by auto
next
  case (Cons n ns)
  define ps where "ps = preds_of node_ids edges n"
  have t: "set (preds_of node_ids edges (node_ids ! i)) \<subseteq> set (take i node_ids)" if "i < length node_ids" for i
    using assms(2) that by (simp add: topological_def)
  have ps: "set ps \<subseteq> set xs" using t [of "length xs"] Cons.prems(1) by (simp add: ps_def)
  have n: "n \<notin> set xs" using assms(1) Cons.prems(1) by auto
  have px: "set (preds_of node_ids edges x) \<subseteq> set xs" if "x \<in> set xs" for x
  proof -
    obtain i where i: "i < length xs" "x = xs ! i" using \<open>x \<in> set xs\<close> by (auto simp: in_set_conv_nth)
    then have "set (preds_of node_ids edges x) \<subseteq> set (take i xs)" using t [of i] Cons.prems(1) by (simp add: nth_append)
    then show ?thesis using set_take_subset [of i xs] by blast
  qed
  have known: "List.map_filter (map_of acc) ps = map (\<lambda>m. the (map_of acc m)) ps"
    using ps Cons.prems(2) by (intro known_all) simp
  define v where "v = (if ps = [] then 0 else 1 + Max (set (List.map_filter (map_of acc) ps)))"
  have step: "depth_loop node_ids edges (n # ns) acc = depth_loop node_ids edges ns (AList.update n v acc)"
    using known by (auto simp: Let_def ps_def [symmetric] v_def)
  have val: "map_of (AList.update n v acc) m = (if m = n then Some v else map_of acc m)" for m by (simp add: update_conv')
  have "fst ` set (AList.update n v acc) = set (xs @ [n])"
    using Cons.prems(2) by (metis (mono_tags) dom_map_of_conv_image_fst dom_update insert_is_Un set_append list.simps(15) list.set(1) sup_commute update_conv')
  moreover have "depth_eq node_ids edges (\<lambda>m. the (map_of (AList.update n v acc) m)) x" if "x \<in> set (xs @ [n])" for x
  proof (cases "x = n")
    case True
    have e: "the (map_of (AList.update n v acc) n) = v" by (simp add: val)
    have img: "(\<lambda>m. the (map_of (AList.update n v acc) m)) ` set ps = (\<lambda>m. the (map_of acc m)) ` set ps"
      using ps n by (intro image_cong) (auto simp: val)
    show ?thesis unfolding True depth_eq_def ps_def [symmetric] e img by (simp add: v_def known)
  next
    case False
    with that have x: "x \<in> set xs" by simp
    have "depth_eq node_ids edges (\<lambda>m. the (map_of (AList.update n v acc) m)) x = depth_eq node_ids edges (\<lambda>m. the (map_of acc m)) x"
      using px [OF x] n x by (intro depth_eq_cong) (auto simp: val)
    with Cons.prems(3) x show ?thesis by blast
  qed
  ultimately show ?case unfolding step using Cons.prems(1) by (intro Cons.IH [of "xs @ [n]"]) simp_all
qed

lemma level_depth:
  assumes "(n, p) \<in> set (concat (map (place_level oi) (levels_of node_ids depth)))"
  shows "np_depth p = the (map_of depth n)"
proof -
  obtain d ms where l: "(d, ms) \<in> set (levels_of node_ids depth)" "(n, p) \<in> set (place_level oi (d, ms))" using assms by auto
  have "p \<in> set (map snd (place_level oi (d, ms)))" using l(2) by force
  then have "np_depth p = d" unfolding map_snd_place_level by auto
  moreover have "n \<in># mset (map fst (place_level oi (d, ms)))" using l(2) by force
  then have "n \<in> set ms" unfolding mset_fst_place_level by simp
  then have "the (map_of depth n) = d" using l(1) by (auto simp: levels_of_def set_group_pairs)
  ultimately show ?thesis by simp
qed

text \<open>The depth of a layer is the length of the longest path to it: for nodes in topological order the
  layout returns, sources are at depth zero and every other node is one below the deepest of its
  predecessors, so every edge points downwards.\<close>

theorem layout_depth_is_longest_path:
  assumes "distinct node_ids" "topological node_ids edges"
  shows "\<exists>placed D. compute_layout node_ids edges order_index = ok placed \<and> (\<forall>(n, p) \<in> set placed. np_depth p = D n) \<and>
    (\<forall>n \<in> set node_ids. depth_eq node_ids edges D n) \<and>
    (\<forall>(f, t) \<in> set edges. f \<in> set node_ids \<and> t \<in> set node_ids \<longrightarrow> D f < D t)"
proof -
  obtain depth where d: "depth_loop node_ids edges node_ids [] = ok depth"
    "\<forall>n \<in> set node_ids. depth_eq node_ids edges (\<lambda>m. the (map_of depth m)) n"
    using depth_loop_spec [OF assms, of "[]" node_ids "[]"] by auto
  define D where "D = (\<lambda>m. the (map_of depth m))"
  have "D f < D t" if "(f, t) \<in> set edges" "f \<in> set node_ids" "t \<in> set node_ids" for f t
  proof -
    have f: "f \<in> set (preds_of node_ids edges t)" using that(1,2) by (force simp: preds_of_def)
    then have "D f \<le> Max (D ` set (preds_of node_ids edges t))" by (intro Max_ge) auto
    moreover have "depth_eq node_ids edges D t" using d(2) that(3) by (simp add: D_def)
    then have "D t = 1 + Max (D ` set (preds_of node_ids edges t))" using f by (auto simp: depth_eq_def)
    ultimately show ?thesis by linarith
  qed
  moreover have "\<forall>(n, p) \<in> set (concat (map (place_level order_index) (levels_of node_ids depth))). np_depth p = D n"
    using level_depth by (fastforce simp: D_def)
  moreover have "compute_layout node_ids edges order_index = ok (concat (map (place_level order_index) (levels_of node_ids depth)))"
    by (simp add: compute_layout_def d(1))
  moreover have "\<forall>n \<in> set node_ids. depth_eq node_ids edges D n" using d(2) by (simp add: D_def)
  ultimately show ?thesis by blast
qed

section \<open>A drawn edge is a path through dropped operators\<close>

inductive bridge :: "(string \<times> string list) list \<Rightarrow> string set \<Rightarrow> string \<Rightarrow> string \<Rightarrow> bool" for adj kept where
  direct: "t \<in> set (succs_of adj n) \<Longrightarrow> t \<in> kept \<Longrightarrow> bridge adj kept n t"
| through: "m \<in> set (succs_of adj n) \<Longrightarrow> m \<notin> kept \<Longrightarrow> bridge adj kept m t \<Longrightarrow> bridge adj kept n t"

inductive_simps bridge_iff: "bridge adj kept n t"

definition flow :: "(string \<times> string list) list \<Rightarrow> (string \<times> string) set" where
  "flow adj = {(n, m). m \<in> set (succs_of adj n)}"

definition memo_exact :: "(string \<times> string list) list \<Rightarrow> string set \<Rightarrow> succ_memo \<Rightarrow> bool" where
  "memo_exact adj kept memo \<longleftrightarrow> (\<forall>n out. memo n = Some out \<longrightarrow> set out = {t. bridge adj kept n t})"

lemma memo_exact_empty [simp]: "memo_exact adj kept Map.empty"
  by (simp add: memo_exact_def)

lemma kept_successors_exact:
  assumes "acyclic (flow adj)" "memo_exact adj kept memo" "\<And>s. s \<in> seen \<Longrightarrow> (s, name) \<in> (flow adj)\<^sup>+"
  shows "set (fst (kept_successors adj kept seen name memo)) = {t. bridge adj kept name t} \<and>
    memo_exact adj kept (snd (kept_successors adj kept seen name memo))"
  using assms
proof (induction adj kept seen name memo rule: kept_successors.induct)
  case (1 adj kept seen name memo)
  show ?case
  proof (cases "memo name")
    case (Some out)
    then show ?thesis using "1.prems"(2) by (simp add: kept_successors.simps memo_exact_def)
  next
    case None
    define step where "step = (\<lambda>succ (st :: string list \<times> succ_memo). if succ \<in> seen then st
        else if succ \<in> kept then (List.insert succ (fst st), snd st)
        else (let q = kept_successors adj kept (insert name seen) succ (snd st) in (List.union (fst q) (fst st), snd q)))"
    have k: "kept_successors adj kept seen name memo =
        (let r = fold step (succs_of adj name) ([], memo) in (fst r, (snd r)(name \<mapsto> fst r)))"
      by (subst kept_successors.simps) (simp add: None step_def)
    have edge: "(name, m) \<in> flow adj" if "m \<in> set (succs_of adj name)" for m using that by (simp add: flow_def)
    have not_seen: "m \<notin> seen" if "m \<in> set (succs_of adj name)" for m
    proof
      assume "m \<in> seen"
      then have "(m, name) \<in> (flow adj)\<^sup>+" by (rule "1.prems"(3))
      then have "(m, m) \<in> (flow adj)\<^sup>+" using edge [OF that] by (rule trancl_into_trancl)
      with "1.prems"(1) show False by (simp add: acyclic_def)
    qed
    have rec: "set (fst (kept_successors adj kept (insert name seen) m mm)) = {t. bridge adj kept m t} \<and>
        memo_exact adj kept (snd (kept_successors adj kept (insert name seen) m mm))"
      if m: "m \<in> set (succs_of adj name)" "m \<notin> kept" "memo_exact adj kept mm" for m mm
    proof -
      have "(s, m) \<in> (flow adj)\<^sup>+" if "s \<in> insert name seen" for s
        using that "1.prems"(3) edge [OF m(1)] by (auto intro: trancl_into_trancl)
      then show ?thesis using "1.IH" [OF None m(1) not_seen [OF m(1)] m(2), of "([], mm)"] "1.prems"(1) m(3) by simp
    qed
    have "set (fst (fold step zs ([], memo))) = {t. \<exists>m \<in> set zs. if m \<in> kept then t = m else bridge adj kept m t} \<and>
        memo_exact adj kept (snd (fold step zs ([], memo)))" if "set zs \<subseteq> set (succs_of adj name)" for zs
      using that
    proof (induction zs rule: rev_induct)
      case Nil then show ?case using "1.prems"(2) by simp
    next
      case (snoc m zs)
      then have ih: "set (fst (fold step zs ([], memo))) = {t. \<exists>m \<in> set zs. if m \<in> kept then t = m else bridge adj kept m t}"
        "memo_exact adj kept (snd (fold step zs ([], memo)))" and m: "m \<in> set (succs_of adj name)" by auto
      show ?case
        using ih rec [OF m _ ih(2)] not_seen [OF m] by (auto simp: step_def Let_def)
    qed
    from this [OF subset_refl] have r: "set (fst (fold step (succs_of adj name) ([], memo))) = {t. bridge adj kept name t}"
      "memo_exact adj kept (snd (fold step (succs_of adj name) ([], memo)))"
      by (auto simp: bridge_iff [of adj kept name] split: if_splits)
    then show ?thesis unfolding k by (auto simp: Let_def memo_exact_def)
  qed
qed

lemma fold_add_edges:
  assumes "acyclic (flow adj)" "memo_exact adj kept (snd st)"
  shows "set (fst (fold (add_edges adj kept topo) ns st)) = set (fst st) \<union> {(n, t). n \<in> set ns \<and> n \<in> kept \<and> bridge adj kept n t} \<and>
    memo_exact adj kept (snd (fold (add_edges adj kept topo) ns st))"
  using assms(2)
proof (induction ns arbitrary: st)
  case (Cons n ns)
  have "set (fst (add_edges adj kept topo n st)) = set (fst st) \<union> {(m, t). m = n \<and> n \<in> kept \<and> bridge adj kept n t}"
    "memo_exact adj kept (snd (add_edges adj kept topo n st))"
    using kept_successors_exact [OF assms(1) Cons.prems, of "{}" n] Cons.prems by (auto simp: add_edges_def Let_def)
  from Cons.IH [OF this(2)] this(1) show ?case by auto
qed simp

text \<open>The drawn graph keeps the connections of the real one: for an acyclic graph there is an edge between two
  layers exactly when both are kept and the second is reached from the first through dropped operators
  only; the memo table shared by the searches changes nothing.\<close>

theorem drawn_edges_are_paths:
  assumes "acyclic (flow adj)"
  shows "set (edge_pairs adj kept topo) = {(n, t). n \<in> set topo \<and> n \<in> kept \<and> bridge adj kept n t}"
  using fold_add_edges [OF assms, of kept "([], Map.empty)" topo topo] by (simp add: edge_pairs_def)

section \<open>Examples\<close>

text \<open>A diamond: one source, two branches, one sink; and a graph in which the operator between two layers
  is dropped.\<close>

abbreviation diamond_nodes :: "string list" where "diamond_nodes \<equiv> [''a'', ''b'', ''c'', ''d'']"

abbreviation diamond :: "(string \<times> string) list" where
  "diamond \<equiv> [(''a'', ''b''), (''a'', ''c''), (''b'', ''d''), (''c'', ''d'')]"

abbreviation skip_graph :: "(string \<times> string list) list" where
  "skip_graph \<equiv> [(''a'', [''x'']), (''x'', [''b'']), (''b'', [])]"

lemma diamond_depths:
  "depth_loop diamond_nodes diamond diamond_nodes [] = ok [(''a'', 0), (''b'', 1), (''c'', 1), (''d'', 2)]"
  by (simp add: preds_of_def List.map_filter_simps Let_def)

theorem layout_places_apart_witness:
  "\<exists>placed. compute_layout diamond_nodes diamond [] = ok placed \<and> distinct (map snd placed) \<and> mset (map fst placed) = mset diamond_nodes"
proof -
  obtain placed where p: "compute_layout diamond_nodes diamond [] = ok placed"
    using diamond_depths by (simp add: compute_layout_def del: depth_loop.simps)
  with layout_places_apart [OF p] show ?thesis by blast
qed

theorem layout_depth_is_longest_path_witness:
  "\<exists>D :: string \<Rightarrow> nat. D ''a'' = 0 \<and> D ''d'' = 1 + Max {D ''b'', D ''c''} \<and> D ''b'' < D ''d'' \<and> (\<exists>placed. compute_layout diamond_nodes diamond [] = ok placed)"
proof -
  have dist: "distinct diamond_nodes" by simp
  have topo: "topological diamond_nodes diamond" by (auto simp: topological_def preds_of_def less_Suc_eq numeral_eq_Suc)
  from layout_depth_is_longest_path [OF dist topo, of "[]"]
  obtain placed D where r: "compute_layout diamond_nodes diamond [] = ok placed"
    "\<forall>n \<in> set diamond_nodes. depth_eq diamond_nodes diamond D n"
    "\<forall>(f, t) \<in> set diamond. f \<in> set diamond_nodes \<and> t \<in> set diamond_nodes \<longrightarrow> D f < D t" by blast
  from r(2) have "D ''a'' = 0" "D ''d'' = 1 + Max {D ''b'', D ''c''}" by (simp_all add: depth_eq_def preds_of_def)
  moreover from r(3) have "D ''b'' < D ''d''" by simp
  ultimately show ?thesis using r(1) by blast
qed

lemma skip_flow: "flow skip_graph = {(''a'', ''x''), (''x'', ''b'')}"
  by (auto simp: flow_def succs_of_def split: if_splits)

lemma skip_acyclic: "acyclic (flow skip_graph)"
  unfolding skip_flow by (auto simp: acyclic_insert acyclic_def [of "{}"] elim: converse_rtranclE)

theorem drawn_edges_are_paths_witness:
  "(''a'', ''b'') \<in> set (edge_pairs skip_graph {''a'', ''b''} [''a'', ''x'', ''b''])"
proof -
  have "bridge skip_graph {''a'', ''b''} ''x'' ''b''" by (rule bridge.direct) (simp_all add: succs_of_def)
  then have "bridge skip_graph {''a'', ''b''} ''a'' ''b''" by (rule bridge.through [rotated 2]) (simp_all add: succs_of_def)
  then show ?thesis by (simp add: drawn_edges_are_paths [OF skip_acyclic])
qed

end
