(* ===== verification/Weight_Loaders.thy ===== *)
theory Weight_Loaders
  imports Db_Rows
begin

text \<open>
  What the weight loaders make of a parsed container, \<open>app/engine/weight_loaders.py\<close>: the tensors and, where the
  container stores them, the layers and their connections.  Parsing the container itself is third-party code;
  its result is the argument.  The lemmas show which connections a Keras configuration gives and that a CoreML
  or GGUF container yields vectors only.
\<close>

section \<open>Bundles\<close>

record wtensor =
  wt_shape :: "nat list"
  wt_data :: "real list"
  wt_float32 :: bool

definition wt_size :: "wtensor \<Rightarrow> nat" where "wt_size t = prod_list (wt_shape t)"
definition wt_ndim :: "wtensor \<Rightarrow> nat" where "wt_ndim t = length (wt_shape t)"

definition vector :: "real list \<Rightarrow> wtensor" where
  "vector xs = \<lparr>wt_shape = [length xs], wt_data = xs, wt_float32 = True\<rparr>"

record layer_spec =
  ls_name :: string
  ls_kind :: string
  ls_params :: nat
  ls_inputs :: "string list"
  ls_keys :: "string list"

record weight_bundle =
  wb_tensors :: "(string \<times> wtensor) list"
  wb_framework :: string
  wb_layers :: "layer_spec list option"
  wb_quantized :: bool

definition size_of_keys :: "(string \<times> wtensor) list \<Rightarrow> string list \<Rightarrow> nat" where
  "size_of_keys tensors keys = sum_list (map (\<lambda>k. case map_of tensors k of Some t \<Rightarrow> wt_size t | None \<Rightarrow> 0) keys)"

text \<open>\<open>s.split(c)[0]\<close> and \<open>s.rsplit(c, 1)[-1]\<close>.\<close>

definition first_seg :: "char \<Rightarrow> string \<Rightarrow> string" where "first_seg c s = takeWhile (\<lambda>x. x \<noteq> c) s"
definition last_seg :: "char \<Rightarrow> string \<Rightarrow> string" where "last_seg c s = rev (takeWhile (\<lambda>x. x \<noteq> c) (rev s))"

section \<open>Tensor stores\<close>

datatype torch_obj = TTensor wtensor | TDict "(string \<times> torch_obj) list" | TOther

definition load_torch_state_dict :: "torch_obj option \<Rightarrow> weight_bundle option" where
  "load_torch_state_dict loaded =
     (case loaded of
        Some (TDict kvs) \<Rightarrow>
          (let obj = (case map_of kvs ''state_dict'' of Some (TDict inner) \<Rightarrow> inner | _ \<Rightarrow> kvs)
           in if obj \<noteq> [] \<and> list_all (\<lambda>(_, v). case v of TTensor _ \<Rightarrow> True | _ \<Rightarrow> False) obj
              then Some \<lparr>wb_tensors = List.map_filter (\<lambda>(k, v). case v of TTensor t \<Rightarrow> Some (k, t) | _ \<Rightarrow> None) obj,
                         wb_framework = ''PyTorch state_dict (weights-only)'', wb_layers = None, wb_quantized = False\<rparr>
              else None)
      | _ \<Rightarrow> None)"

definition load_safetensors :: "(string \<times> wtensor) list \<Rightarrow> weight_bundle" where
  "load_safetensors tensors =
     \<lparr>wb_tensors = tensors, wb_framework = ''SafeTensors (weights-only)'', wb_layers = None, wb_quantized = False\<rparr>"

section \<open>Keras configurations\<close>

definition KERAS_KIND :: "(string \<times> string) list" where
  "KERAS_KIND =
     [(''conv1d'', ''conv''), (''conv2d'', ''conv''), (''conv3d'', ''conv''), (''separableconv1d'', ''conv''),
      (''separableconv2d'', ''conv''), (''depthwiseconv2d'', ''conv''), (''conv2dtranspose'', ''upsample''),
      (''dense'', ''dense''), (''embedding'', ''embed''), (''batchnormalization'', ''bn''),
      (''layernormalization'', ''norm''), (''groupnormalization'', ''norm''), (''lstm'', ''lstm''), (''gru'', ''lstm''),
      (''simplernn'', ''lstm''), (''bidirectional'', ''lstm''), (''multiheadattention'', ''attn''), (''attention'', ''attn''),
      (''maxpooling1d'', ''pool''), (''maxpooling2d'', ''pool''), (''maxpooling3d'', ''pool''), (''averagepooling1d'', ''pool''),
      (''averagepooling2d'', ''pool''), (''globalaveragepooling1d'', ''pool''), (''globalaveragepooling2d'', ''pool''),
      (''globalmaxpooling1d'', ''pool''), (''globalmaxpooling2d'', ''pool''), (''activation'', ''relu''), (''relu'', ''relu''),
      (''leakyrelu'', ''relu''), (''prelu'', ''relu''), (''softmax'', ''softmax''), (''upsampling1d'', ''upsample''),
      (''upsampling2d'', ''upsample''), (''inputlayer'', ''input''), (''dropout'', ''norm''), (''flatten'', ''pool'')]"

fun truthy :: "json \<Rightarrow> bool" where
  "truthy JNull = False"
| "truthy (JBool b) = b"
| "truthy (JNum x) = (x \<noteq> 0)"
| "truthy (JStr s) = (s \<noteq> [])"
| "truthy (JList xs) = (xs \<noteq> [])"
| "truthy (JObj kvs) = (kvs \<noteq> [])"

text \<open>\<open>d.get(k)\<close>, which only an object has, and \<open>a or b\<close>.\<close>

fun jget :: "json \<Rightarrow> string \<Rightarrow> json option result" where
  "jget (JObj kvs) k = ok (map_of (rev kvs) k)"
| "jget _ k = raise AttributeError"

definition jor :: "json option \<Rightarrow> json option \<Rightarrow> json option" where
  "jor a b = (case a of Some v \<Rightarrow> if truthy v then Some v else b | None \<Rightarrow> b)"

text \<open>\<open>json.dumps\<close>; \<open>num\<close> writes a number.\<close>

definition hex_digit :: "nat \<Rightarrow> char" where
  "hex_digit n = char_of (if n < 10 then 48 + n else 87 + n)"

definition json_char :: "char \<Rightarrow> string" where
  "json_char c =
     (let n = of_char c :: nat in
      if n = 34 then [CHR 0x5C, CHR 0x22] else if n = 92 then [CHR 0x5C, CHR 0x5C]
      else if n = 10 then [CHR 0x5C, CHR ''n''] else if n = 13 then [CHR 0x5C, CHR ''r''] else if n = 9 then [CHR 0x5C, CHR ''t'']
      else if n = 12 then [CHR 0x5C, CHR ''f''] else if n = 8 then [CHR 0x5C, CHR ''b'']
      else if n < 32 \<or> n > 126 then [CHR 0x5C, CHR ''u'', CHR ''0'', CHR ''0'', hex_digit (n div 16), hex_digit (n mod 16)]
      else [c])"

definition json_str :: "string \<Rightarrow> string" where
  "json_str s = [CHR 0x22] @ concat (map json_char s) @ [CHR 0x22]"

fun dumps :: "(real \<Rightarrow> string) \<Rightarrow> json \<Rightarrow> string" where
  "dumps num JNull = ''null''"
| "dumps num (JBool b) = (if b then ''true'' else ''false'')"
| "dumps num (JNum x) = num x"
| "dumps num (JStr s) = json_str s"
| "dumps num (JList xs) = ''['' @ join '', '' (map (dumps num) xs) @ '']''"
| "dumps num (JObj kvs) = ''{'' @ join '', '' (map (\<lambda>kv. json_str (fst kv) @ '': '' @ dumps num (snd kv)) kvs) @ ''}''"

definition HISTORY :: string where
  "HISTORY = [CHR 0x22] @ ''keras_history'' @ [CHR 0x22] @ '': ['' @ [CHR 0x22]"

text \<open>The names after each mark: the text up to the next quote, with which the next mark begins as well.\<close>

function history_names :: "string \<Rightarrow> string list" where
  "history_names s =
     (if s = [] then []
      else if prefix HISTORY s
        then first_seg (CHR 0x22) (drop (length HISTORY) s) # history_names (drop (length HISTORY) s)
        else history_names (tl s))"
  by pat_completeness auto
termination by (relation "measure length") (auto simp: HISTORY_def)

declare history_names.simps [simp del]

fun inbound_of :: "(real \<Rightarrow> string) \<Rightarrow> json \<Rightarrow> string list" where
  "inbound_of num (JList ibs) =
     List.map_filter (\<lambda>ib. case ib of JList (JStr s # _) \<Rightarrow> Some s | _ \<Rightarrow> None) ibs"
| "inbound_of num (JObj kvs) = history_names (dumps num (JObj kvs))"
| "inbound_of num _ = []"

fun iterate :: "json \<Rightarrow> json list result" where
  "iterate (JList xs) = ok xs"
| "iterate (JObj kvs) = ok (map (\<lambda>(k, _). JStr k) kvs)"
| "iterate (JStr s) = ok (map (\<lambda>c. JStr [c]) s)"
| "iterate _ = raise TypeError"

definition kind_of_class :: "json option \<Rightarrow> string" where
  "kind_of_class v =
     (case v of Some (JStr s) \<Rightarrow> (case map_of KERAS_KIND (str_lower s) of Some k \<Rightarrow> k | None \<Rightarrow> ''dense'') | _ \<Rightarrow> ''dense'')"

definition keys_of_layer :: "(string \<times> wtensor) list \<Rightarrow> string \<Rightarrow> string list" where
  "keys_of_layer tensors nm =
     filter (\<lambda>k. first_seg (CHR ''/'') k = nm \<or> prefix (nm @ ''/'') k) (map fst tensors)"

text \<open>The inbound names, or else the layer listed before.\<close>

definition layer_inputs :: "(real \<Rightarrow> string) \<Rightarrow> string option \<Rightarrow> json list \<Rightarrow> string list" where
  "layer_inputs num prev_name nodes =
     (case concat (map (inbound_of num) nodes) of
        [] \<Rightarrow> (case prev_name of Some p \<Rightarrow> [p] | None \<Rightarrow> [])
      | direct \<Rightarrow> direct)"

text \<open>One entry of the layer list.  A name that is no text cannot be compared with the keys.\<close>

definition keras_layer ::
  "(real \<Rightarrow> string) \<Rightarrow> (string \<times> wtensor) list \<Rightarrow> nat \<Rightarrow> string option \<Rightarrow> json \<Rightarrow> layer_spec result" where
  "keras_layer num tensors n prev_name entry =
     bind_result (jget entry ''class_name'') (\<lambda>cls.
     bind_result (jget entry ''config'') (\<lambda>config.
     let lcfg = (case jor config None of Some c \<Rightarrow> c | None \<Rightarrow> JObj []) in
     bind_result (jget lcfg ''name'') (\<lambda>own.
     bind_result (jget entry ''name'') (\<lambda>outer.
     bind_result (jget entry ''inbound_nodes'') (\<lambda>inbound.
     bind_result (case jor inbound None of None \<Rightarrow> ok [] | Some v \<Rightarrow> iterate v) (\<lambda>nodes.
       case jor (jor own outer) (Some (JStr (''layer_'' @ str_of_nat n))) of
         Some (JStr nm) \<Rightarrow>
           (let keys = keys_of_layer tensors nm
            in ok \<lparr>ls_name = nm, ls_kind = kind_of_class cls, ls_params = size_of_keys tensors keys,
                   ls_inputs = layer_inputs num prev_name nodes, ls_keys = keys\<rparr>)
       | _ \<Rightarrow> raise TypeError))))))"

fun keras_layers ::
  "(real \<Rightarrow> string) \<Rightarrow> (string \<times> wtensor) list \<Rightarrow> string option \<Rightarrow> layer_spec list \<Rightarrow> json list \<Rightarrow> layer_spec list result" where
  "keras_layers num tensors prev_name specs [] = ok specs"
| "keras_layers num tensors prev_name specs (entry # entries) =
     bind_result (keras_layer num tensors (length specs) prev_name entry)
       (\<lambda>s. keras_layers num tensors (Some (ls_name s)) (specs @ [s]) entries)"

definition layers_from_keras_config :: "(real \<Rightarrow> string) \<Rightarrow> json \<Rightarrow> (string \<times> wtensor) list \<Rightarrow> layer_spec list result" where
  "layers_from_keras_config num config tensors =
     bind_result (jget config ''config'') (\<lambda>inner.
     bind_result (jget (case inner of Some c \<Rightarrow> c | None \<Rightarrow> config) ''layers'') (\<lambda>raw.
     bind_result (case raw of None \<Rightarrow> ok [] | Some v \<Rightarrow> iterate v) (keras_layers num tensors None [])))"


section \<open>Keras files\<close>

record h5_dataset =
  hd_name :: string
  hd_kind :: char
  hd_tensor :: wtensor

record h5_file =
  hf_model_weights :: "h5_dataset list option"
  hf_root :: "h5_dataset list"
  hf_config :: "string option"

definition h5_weight_tensors :: "h5_file \<Rightarrow> (string \<times> wtensor) list" where
  "h5_weight_tensors f =
     map (\<lambda>x. (hd_name x, hd_tensor x))
       (filter (\<lambda>x. hd_kind x \<in> {CHR ''f'', CHR ''i'', CHR ''u''})
         (case hf_model_weights f of Some xs \<Rightarrow> xs | None \<Rightarrow> hf_root f))"

text \<open>\<open>loads\<close> is the JSON parser; a configuration that cannot be read or used leaves the flat inventory.\<close>

definition load_keras_h5 :: "(string \<Rightarrow> json result) \<Rightarrow> (real \<Rightarrow> string) \<Rightarrow> h5_file \<Rightarrow> weight_bundle" where
  "load_keras_h5 loads num f =
     (let tensors = h5_weight_tensors f
      in \<lparr>wb_tensors = tensors, wb_framework = ''Keras HDF5 (weights-only analysis)'',
          wb_layers = (case hf_config f of
             None \<Rightarrow> None
           | Some raw \<Rightarrow> (case bind_result (loads raw) (\<lambda>c. layers_from_keras_config num c tensors) of Inr l \<Rightarrow> Some l | Inl _ \<Rightarrow> None)),
          wb_quantized = False\<rparr>)"

section \<open>CoreML specifications\<close>

record coreml_layer =
  cl_name :: string
  cl_type :: "string option"
  cl_input :: "string list"
  cl_output :: "string list"
  cl_weights :: "real list"              \<comment> \<open>empty when the layer has none\<close>
  cl_bias :: "real list"

definition COREML_KIND :: "(string \<times> string) list" where
  "COREML_KIND =
     [(''convolution'', ''conv''), (''innerProduct'', ''dense''), (''batchnorm'', ''bn''), (''activation'', ''relu''),
      (''pooling'', ''pool''), (''softmax'', ''softmax''), (''embedding'', ''embed''), (''simpleRecurrent'', ''lstm''),
      (''uniDirectionalLSTM'', ''lstm''), (''biDirectionalLSTM'', ''lstm''), (''gru'', ''lstm''), (''upsample'', ''upsample''),
      (''loadConstant'', ''norm''), (''scale'', ''norm''), (''add'', ''norm''), (''multiply'', ''norm''), (''reshape'', ''pool''),
      (''flatten'', ''pool''), (''padding'', ''pool''), (''concat'', ''pool'')]"

definition coreml_arrays :: "coreml_layer \<Rightarrow> (string \<times> wtensor) list" where
  "coreml_arrays l =
     (if cl_weights l = [] then [] else [(cl_name l @ ''/weights'', vector (cl_weights l))]) @
     (if cl_bias l = [] then [] else [(cl_name l @ ''/bias'', vector (cl_bias l))])"

definition update_all :: "('k \<times> 'v) list \<Rightarrow> ('k \<times> 'v) list \<Rightarrow> ('k \<times> 'v) list" where
  "update_all kvs m = fold (\<lambda>(k, v). AList.update k v) kvs m"

fun coreml_layers ::
  "coreml_layer list \<Rightarrow> (string \<times> wtensor) list \<Rightarrow> (string \<times> string) list \<Rightarrow> layer_spec list
     \<Rightarrow> (string \<times> wtensor) list \<times> layer_spec list" where
  "coreml_layers [] tensors produced specs = (tensors, specs)"
| "coreml_layers (l # ls) tensors produced specs =
     (let arrays = coreml_arrays l;
          tensors' = update_all arrays tensors;
          keys = map fst arrays;
          inputs = List.map_filter (map_of produced) (cl_input l)
      in coreml_layers ls tensors' (update_all (map (\<lambda>out. (out, cl_name l)) (cl_output l)) produced)
           (specs @ [\<lparr>ls_name = cl_name l,
              ls_kind = (case map_of COREML_KIND (case cl_type l of Some ty \<Rightarrow> ty | None \<Rightarrow> ''unknown'') of Some k \<Rightarrow> k | None \<Rightarrow> ''dense''),
              ls_params = size_of_keys tensors' keys, ls_inputs = inputs, ls_keys = keys\<rparr>]))"

definition load_coreml :: "string option \<Rightarrow> coreml_layer list \<Rightarrow> weight_bundle result" where
  "load_coreml which ls =
     (case which of
        Some w \<Rightarrow>
          if w \<in> {''neuralNetwork'', ''neuralNetworkClassifier'', ''neuralNetworkRegressor''}
          then (case coreml_layers ls [] [] [] of (tensors, specs) \<Rightarrow>
            ok \<lparr>wb_tensors = tensors, wb_framework = ''CoreML '' @ w @ '' (weights-only analysis)'', wb_layers = Some specs,
                wb_quantized = False\<rparr>)
          else raise (RuntimeError ''WeightLoadError'')
      | None \<Rightarrow> raise (RuntimeError ''WeightLoadError''))"

section \<open>GGUF inventories\<close>

record gguf_tensor =
  gt_name :: string
  gt_type :: string
  gt_shape :: "nat list"
  gt_data :: "real list"

definition FLOAT_TYPES :: "string list" where "FLOAT_TYPES = [''F32'', ''F16'', ''BF16'']"

definition gguf_kind :: "string \<Rightarrow> string" where
  "gguf_kind nm =
     (let n = str_lower nm in
      if str_in ''embd'' n \<or> str_in ''embed'' n \<or> str_in ''token'' n then ''embed''
      else if str_in ''attn'' n \<or> str_in ''attention'' n then ''attn''
      else if str_in ''ffn'' n \<or> str_in ''mlp'' n then ''ffn''
      else if str_in ''norm'' n then ''norm''
      else ''dense'')"

definition gguf_spec :: "gguf_tensor \<Rightarrow> layer_spec" where
  "gguf_spec t =
     (let float = gt_type t \<in> set FLOAT_TYPES
      in \<lparr>ls_name = (if float then gt_name t else gt_name t @ '' ['' @ gt_type t @ '']''), ls_kind = gguf_kind (gt_name t),
          ls_params = prod_list (gt_shape t), ls_inputs = [], ls_keys = (if float then [gt_name t] else [])\<rparr>)"

fun chain :: "string option \<Rightarrow> layer_spec list \<Rightarrow> layer_spec list" where
  "chain prev_name [] = []"
| "chain prev_name (s # ss) =
     (case prev_name of None \<Rightarrow> s | Some p \<Rightarrow> s\<lparr>ls_inputs := [p]\<rparr>) # chain (Some (ls_name s)) ss"

definition load_gguf :: "gguf_tensor list \<Rightarrow> weight_bundle" where
  "load_gguf ts =
     \<lparr>wb_tensors = update_all (map (\<lambda>t. (gt_name t, vector (gt_data t))) (filter (\<lambda>t. gt_type t \<in> set FLOAT_TYPES) ts)) [],
      wb_framework = ''GGUF (weights-only analysis)'', wb_layers = Some (chain None (map gguf_spec ts)),
      wb_quantized = list_ex (\<lambda>t. gt_type t \<notin> set FLOAT_TYPES) ts\<rparr>"

section \<open>What the containers give\<close>

lemma keras_layer_inputs: "keras_layer num tensors n (Some p) entry = ok s \<Longrightarrow> ls_inputs s \<noteq> []"
proof -
  have ne: "layer_inputs num (Some p) nodes \<noteq> []" for nodes by (simp add: layer_inputs_def split: list.split)
  assume "keras_layer num tensors n (Some p) entry = ok s"
  then show ?thesis
    by (simp only: keras_layer_def Let_def bind_result_Inr) (auto simp: ne split: option.splits json.splits)
qed

lemma keras_layers_shape:
  "keras_layers num tensors prev_name specs entries = ok res \<Longrightarrow>
    \<exists>new. res = specs @ new \<and> length new = length entries \<and> (\<forall>s \<in> set (if prev_name = None then tl new else new). ls_inputs s \<noteq> [])"
proof (induction entries arbitrary: prev_name specs)
  case (Cons e es)
  from Cons.prems obtain s where s: "keras_layer num tensors (length specs) prev_name e = ok s"
    and rest: "keras_layers num tensors (Some (ls_name s)) (specs @ [s]) es = ok res" by auto
  from Cons.IH [OF rest] obtain new where new: "res = specs @ s # new" "length new = length es" "\<forall>s \<in> set new. ls_inputs s \<noteq> []" by auto
  moreover have "ls_inputs s \<noteq> []" if "prev_name \<noteq> None" using that s keras_layer_inputs by (cases prev_name) auto
  ultimately show ?case by (intro exI [of _ "s # new"]) auto
qed simp

text \<open>A Keras configuration never yields a second source: every layer after the first has an upstream layer, so a
  further input layer of a model with several inputs, which has no inbound node, is drawn as fed by the layer
  that happens to be listed before it.\<close>

theorem keras_has_one_source:
  assumes "layers_from_keras_config num config tensors = ok specs" "0 < i" "i < length specs"
  shows "ls_inputs (specs ! i) \<noteq> []"
proof -
  obtain raw where "bind_result (case raw of None \<Rightarrow> ok [] | Some v \<Rightarrow> iterate v) (keras_layers num tensors None []) = ok specs"
    using assms(1) by (auto simp only: layers_from_keras_config_def bind_result_Inr)
  then have "\<exists>entries. keras_layers num tensors None [] entries = ok specs"
    by (cases raw) (auto intro: exI [of _ "[]"])
  then obtain entries where "keras_layers num tensors None [] entries = ok specs" by blast
  from keras_layers_shape [OF this] have "\<forall>s \<in> set (tl specs). ls_inputs s \<noteq> []" by auto
  moreover have "specs ! i \<in> set (tl specs)" using assms(2,3) by (cases specs) (auto simp: nth_Cons')
  ultimately show ?thesis by blast
qed

lemma snd_update_all: "snd ` set (update_all kvs m) \<subseteq> snd ` set m \<union> snd ` set kvs"
proof (induction kvs arbitrary: m)
  case (Cons kv kvs)
  have "update_all (kv # kvs) m = update_all kvs (AList.update (fst kv) (snd kv) m)" by (simp add: update_all_def case_prod_beta')
  with Cons.IH [of "AList.update (fst kv) (snd kv) m"] snd_set_update [of "fst kv" "snd kv" m] show ?case by auto
qed (simp add: update_all_def)

definition vectors_only :: "(string \<times> wtensor) list \<Rightarrow> bool" where
  "vectors_only tensors \<longleftrightarrow> (\<forall>t \<in> snd ` set tensors. wt_ndim t = 1)"

lemma update_all_vectors: "vectors_only m \<Longrightarrow> vectors_only kvs \<Longrightarrow> vectors_only (update_all kvs m)"
  using snd_update_all [of kvs m] unfolding vectors_only_def by (meson UnE subsetD)

lemma coreml_layers_vectors: "vectors_only tensors \<Longrightarrow> vectors_only (fst (coreml_layers ls tensors produced specs))"
proof (induction ls arbitrary: tensors produced specs)
  case (Cons l ls)
  have "vectors_only (coreml_arrays l)" by (auto simp: vectors_only_def coreml_arrays_def wt_ndim_def vector_def)
  with Cons.prems have "vectors_only (update_all (coreml_arrays l) tensors)"
    by (rule update_all_vectors)
  from Cons.IH [OF this] show ?case by (simp add: Let_def)
qed simp

lemma load_coreml_vectors: "load_coreml which ls = ok b \<Longrightarrow> vectors_only (wb_tensors b) \<and> \<not> wb_quantized b"
  using coreml_layers_vectors [of "[]" ls "[]" "[]"]
  by (auto simp: load_coreml_def vectors_only_def split: option.splits prod.splits if_splits)

lemma load_gguf_vectors: "vectors_only (wb_tensors (load_gguf ts))"
  unfolding load_gguf_def weight_bundle.simps
  by (rule update_all_vectors) (auto simp: vectors_only_def wt_ndim_def vector_def)

section \<open>Example\<close>

definition two_inputs :: json where
  "two_inputs =
     (let layer = \<lambda>cls nm ib. JObj [(''class_name'', JStr cls), (''config'', JObj [(''name'', JStr nm)]), (''inbound_nodes'', JList ib)]
      in JObj [(''config'', JObj [(''layers'', JList
           [layer ''InputLayer'' ''a'' [], layer ''InputLayer'' ''b'' [],
            layer ''Add'' ''c'' [JList [JList [JStr ''a''], JList [JStr ''b'']]]])])])"

lemma two_inputs_layers:
  "\<exists>s1 s2 s3. layers_from_keras_config num two_inputs [] = ok [s1, s2, s3] \<and> ls_inputs s2 = [''a''] \<and> ls_inputs s3 = [''a'', ''b'']"
  by (simp add: layers_from_keras_config_def two_inputs_def keras_layer_def layer_inputs_def jor_def Let_def List.map_filter_def)

theorem keras_has_one_source_witness:
  "\<exists>specs. layers_from_keras_config num two_inputs [] = ok specs \<and> ls_inputs (specs ! 1) \<noteq> []"
proof -
  obtain s1 s2 s3 where s: "layers_from_keras_config num two_inputs [] = ok [s1, s2, s3]" using two_inputs_layers by blast
  from keras_has_one_source [OF s, of 1] s show ?thesis by (intro exI [of _ "[s1, s2, s3]"]) simp
qed

end
