(* ===== verification/Weight_Only.thy ===== *)
theory Weight_Only
  imports Weight_Loaders
begin

text \<open>
  The pipeline for checkpoints that cannot be executed, \<open>app/engine/statedict_pipeline.py\<close>: the layers of a flat
  tensor store, their quantization noise, the drawing of the layers and the INT8 artifact.  Weights are reals, so neither
  infinite nor NaN; the float32 arithmetic of the artifact rounds with the parameter \<open>fl\<close>, that of the noise figures is exact, and
  the log lines are left out.  The lemmas show that the drawing has no dangling edge and no loose layer, that depth grows along every
  edge, that the artifact restores each weight within half a step and the rounding, and that a checkpoint saved from
  \<open>nn.DataParallel\<close> is not measured at all.
\<close>

section \<open>Layers of a flat store\<close>

definition PARAM_SUFFIXES :: "string list" where
  "PARAM_SUFFIXES =
     [''weight'', ''bias'', ''running_mean'', ''running_var'', ''num_batches_tracked'', ''weight_ih_l0'', ''weight_hh_l0'',
      ''bias_ih_l0'', ''bias_hh_l0'', ''gamma'', ''beta'', ''moving_mean'', ''moving_variance'', ''kernel'']"

definition MODULE :: string where "MODULE = ''module.''"

definition strip_prefix :: "string \<Rightarrow> string" where
  "strip_prefix key = (if prefix MODULE key then drop (length MODULE) key else key)"

definition layer_path :: "string \<Rightarrow> string" where
  "layer_path key =
     (if CHR ''/'' \<in> set key then first_seg (CHR ''/'') key
      else if CHR ''.'' \<notin> set key then key
      else let leaf = last_seg (CHR ''.'') key; path = take (length key - length leaf - 1) key
           in if first_seg (CHR '':'') leaf \<in> set PARAM_SUFFIXES then path else key)"

definition leaf_name :: "string \<Rightarrow> string" where
  "leaf_name k = str_lower (first_seg (CHR '':'') (last_seg (CHR ''/'') (last_seg (CHR ''.'') k)))"

definition note_tensor :: "string \<times> wtensor \<Rightarrow> wtensor option \<times> bool \<Rightarrow> wtensor option \<times> bool" where
  "note_tensor = (\<lambda>(k, v) (weight, running).
     let leaf = leaf_name k;
         asked = (leaf \<in> {''weight'', ''kernel''} \<or> suffix ''_w'' leaf \<or> weight = None);
         higher = (case weight of None \<Rightarrow> True | Some w \<Rightarrow> wt_ndim v > wt_ndim w)
     in (if asked \<and> higher then Some v else weight, running \<or> str_in ''running_mean'' leaf \<or> str_in ''moving_mean'' leaf))"

definition classify :: "string \<Rightarrow> (string \<times> wtensor) list \<Rightarrow> string" where
  "classify path tensors =
     (let nm = str_lower path; (weight, running) = fold note_tensor tensors (None, False);
          by_name = (if list_ex (\<lambda>(k, _). str_in ''weight_ih'' k) tensors then ''lstm''
                     else if str_in ''attn'' nm \<or> str_in ''attention'' nm then ''attn''
                     else if str_in ''lstm'' nm \<or> str_in ''gru'' nm then ''lstm'' else ''dense'')
      in if running \<or> str_in ''batchnorm'' nm \<or> suffix ''bn'' nm then ''bn''
         else case weight of
             None \<Rightarrow> by_name
           | Some w \<Rightarrow>
               if wt_ndim w = 4 \<or> wt_ndim w = 3 then ''conv''
               else if wt_ndim w = 2 then (if str_in ''embed'' nm then ''embed'' else ''dense'')
               else if wt_ndim w = 1 then ''norm'' else by_name)"

definition group_tensors :: "(string \<times> wtensor) list \<Rightarrow> (string \<times> (string \<times> wtensor) list) list" where
  "group_tensors tensors =
     fold (\<lambda>(key, t) layers.
        let clean = strip_prefix key; path = layer_path clean;
            group = (case map_of layers path of Some g \<Rightarrow> g | None \<Rightarrow> [])
        in AList.update path (AList.update clean t group) layers) tensors []"

definition bundle_from_flat_tensors :: "(string \<times> wtensor) list \<Rightarrow> layer_spec list" where
  "bundle_from_flat_tensors tensors =
     chain None (map (\<lambda>(path, group).
       \<lparr>ls_name = path, ls_kind = classify path group, ls_params = sum_list (map (wt_size \<circ> snd) group), ls_inputs = [],
        ls_keys = map fst group\<rparr>) (group_tensors tensors))"

section \<open>Quantization noise\<close>

definition int8_scale :: "real list \<Rightarrow> real" where
  "int8_scale data = list_max (map abs data) / 127 + 1 / 10 ^ 12"

definition int8_code :: "real \<Rightarrow> real \<Rightarrow> int" where
  "int8_code scale a = max (- 127) (min 127 (round_half_even (a / scale)))"

definition sqnr_db_int8 :: "real list \<Rightarrow> real" where
  "sqnr_db_int8 data =
     (let scale = int8_scale data; n = of_nat (length data);
          signal = sum_list (map (\<lambda>a. a\<^sup>2) data) / n;
          noise = sum_list (map (\<lambda>a. (a - of_int (int8_code scale a) * scale)\<^sup>2) data) / n
      in if noise \<le> 0 then 80 else 10 * log 10 (signal / noise + 1 / 10 ^ 30))"

definition recommend :: "real \<Rightarrow> string" where
  "recommend sqnr_db = (if sqnr_db \<ge> 40 then ''INT8'' else if sqnr_db \<ge> 20 then ''FP16'' else ''FP32'')"

text \<open>The largest matrix of a layer, or else its largest vector.\<close>

definition layer_weight :: "(string \<times> wtensor) list \<Rightarrow> layer_spec \<Rightarrow> wtensor option" where
  "layer_weight tensors s =
     (let ts = filter (\<lambda>t. wt_size t > 0) (List.map_filter (map_of tensors) (ls_keys s)); largest = min_by (\<lambda>t. - int (wt_size t))
      in case largest (filter (\<lambda>t. wt_ndim t \<ge> 2) ts) of Some t \<Rightarrow> Some t | None \<Rightarrow> largest ts)"

definition sqnr_by_layer :: "(string \<times> wtensor) list \<Rightarrow> layer_spec list \<Rightarrow> (string \<times> real) list" where
  "sqnr_by_layer tensors specs =
     fold (\<lambda>s m. case layer_weight tensors s of None \<Rightarrow> m | Some w \<Rightarrow> AList.update (ls_name s) (sqnr_db_int8 (wt_data w)) m) specs []"

section \<open>Depths\<close>

text \<open>\<open>by_name\<close>: the last layer of a name.\<close>

definition spec_named :: "layer_spec list \<Rightarrow> string \<Rightarrow> layer_spec option" where
  "spec_named specs nm = find (\<lambda>s. ls_name s = nm) (rev specs)"

definition parents_of :: "layer_spec list \<Rightarrow> string \<Rightarrow> string list" where
  "parents_of specs nm = (case spec_named specs nm of None \<Rightarrow> [] | Some s \<Rightarrow> filter (\<lambda>p. p \<in> ls_name ` set specs) (ls_inputs s))"

lemma spec_named_None [simp]: "spec_named specs nm = None \<longleftrightarrow> nm \<notin> ls_name ` set specs"
  by (auto simp: spec_named_def find_None_iff)

text \<open>The two mutually recursive parts: one name, and the maximum over the parents.  \<open>seen\<close> grows within the names.\<close>

function resolve :: "layer_spec list \<Rightarrow> string list \<Rightarrow> string \<Rightarrow> (string \<times> nat) list \<Rightarrow> nat \<times> (string \<times> nat) list"
  and resolve_all :: "layer_spec list \<Rightarrow> string list \<Rightarrow> string list \<Rightarrow> (string \<times> nat) list \<Rightarrow> nat \<times> (string \<times> nat) list" where
  "resolve specs seen nm depth =
     (case map_of depth nm of
        Some d \<Rightarrow> (d, depth)
      | None \<Rightarrow>
          if spec_named specs nm = None \<or> nm \<in> set seen then (0, depth)
          else let (m, depth1) = resolve_all specs (nm # seen) (parents_of specs nm) depth
               in (1 + m, AList.update nm (1 + m) depth1))"
| "resolve_all specs seen [] depth = (0, depth)"
| "resolve_all specs seen (p # ps) depth =
     (let (d, depth1) = resolve specs seen p depth; (m, depth2) = resolve_all specs seen ps depth1 in (max d m, depth2))"
  by pat_completeness auto
termination
proof (relation "inv_image (less_than <*lex*> less_than)
    (\<lambda>x. case x of Inl (specs, seen, nm, depth) \<Rightarrow> (card (ls_name ` set specs - set seen), 0)
                | Inr (specs, seen, ps, depth) \<Rightarrow> (card (ls_name ` set specs - set seen), Suc (length ps)))", goal_cases)
  case (2 specs seen nm depth)
  then have "nm \<in> ls_name ` set specs - set seen" by auto
  then have "card (ls_name ` set specs - set (nm # seen)) < card (ls_name ` set specs - set seen)"
    by (intro psubset_card_mono) auto
  then show ?case by simp
qed auto

declare resolve.simps [simp del]

definition topo_depths :: "layer_spec list \<Rightarrow> (string \<times> nat) list" where
  "topo_depths specs = fold (\<lambda>s depth. snd (resolve specs [] (ls_name s) depth)) specs []"

section \<open>The drawing\<close>

record weight_node =
  wn_id :: string
  wn_name :: string
  wn_kind :: string
  wn_depth :: real
  wn_col :: real
  wn_sensitivity :: real
  wn_params :: real
  wn_recommend :: string

definition node_id :: "nat \<Rightarrow> string" where "node_id i = ''l'' @ str_of_nat i"

definition end_node :: "string \<Rightarrow> string \<Rightarrow> real \<Rightarrow> weight_node" where
  "end_node i nm depth =
     \<lparr>wn_id = i, wn_name = nm, wn_kind = nm, wn_depth = depth, wn_col = 0, wn_sensitivity = 0, wn_params = 0, wn_recommend = ''FP32''\<rparr>"

definition sensitivity_of :: "real list \<Rightarrow> real option \<Rightarrow> real \<times> string" where
  "sensitivity_of measured sqnr =
     (case sqnr of
        None \<Rightarrow> (0, ''FP32'')
      | Some v \<Rightarrow>
          (let lo = (if measured = [] then 0 else Min (set measured)); hi = (if measured = [] then 1 else Max (set measured));
               span = (if hi - lo = 0 then 1 else hi - lo)
           in (py_round 4 ((hi - v) / span), recommend v)))"

definition layer_node :: "(string \<times> real) list \<Rightarrow> (string \<times> nat) list \<Rightarrow> nat \<Rightarrow> layer_spec \<Rightarrow> weight_node" where
  "layer_node sqnr depths i s =
     (case sensitivity_of (map snd sqnr) (map_of sqnr (ls_name s)) of (sens, rec) \<Rightarrow>
        \<lparr>wn_id = node_id i, wn_name = ls_name s, wn_kind = ls_kind s,
         wn_depth = of_nat (case map_of depths (ls_name s) of Some d \<Rightarrow> d | None \<Rightarrow> i + 1), wn_col = 0, wn_sensitivity = sens,
         wn_params = of_nat (ls_params s), wn_recommend = rec\<rparr>)"

text \<open>The columns of the nodes of one depth, in order around the middle.\<close>

definition spread :: "weight_node list \<Rightarrow> weight_node list" where
  "spread nodes =
     map (\<lambda>(i, n). let k = length (filter (\<lambda>x. wn_depth x = wn_depth n) nodes);
                       j = length (filter (\<lambda>x. wn_depth x = wn_depth n) (take i nodes))
                   in n\<lparr>wn_col := py_round 2 ((of_nat j - (of_nat k - 1) / 2) * 1.2)\<rparr>) (enumerate 0 nodes)"

definition name_to_id :: "layer_spec list \<Rightarrow> (string \<times> string) list" where
  "name_to_id specs = fold (\<lambda>(i, s). AList.update (ls_name s) (node_id i)) (enumerate 0 specs) []"

definition id_of :: "layer_spec list \<Rightarrow> string \<Rightarrow> string" where
  "id_of specs nm = (case map_of (name_to_id specs) nm of Some i \<Rightarrow> i | None \<Rightarrow> '''')"

text \<open>Edges of a topology: inner ones, the input to every root, inserted in front, and every layer nobody consumes to the output.\<close>

definition known_inputs :: "layer_spec list \<Rightarrow> layer_spec \<Rightarrow> string list" where
  "known_inputs specs s = filter (\<lambda>p. p \<in> ls_name ` set specs) (ls_inputs s)"

definition inner_edges :: "layer_spec list \<Rightarrow> (string \<times> string) list" where
  "inner_edges specs = concat (map (\<lambda>s. map (\<lambda>p. (id_of specs p, id_of specs (ls_name s))) (known_inputs specs s)) specs)"

definition topology_edges :: "layer_spec list \<Rightarrow> (string \<times> string) list" where
  "topology_edges specs =
     (let consumed = set (concat (map (known_inputs specs) specs));
          roots = map ls_name (filter (\<lambda>s. known_inputs specs s = []) specs)
      in rev (map (\<lambda>r. (''in'', id_of specs r)) roots) @ inner_edges specs @
         map (\<lambda>s. (id_of specs (ls_name s), ''out'')) (filter (\<lambda>s. ls_name s \<notin> consumed) specs))"

definition order_edges :: "weight_node list \<Rightarrow> (string \<times> string) list" where
  "order_edges nodes = zip (map wn_id nodes) (tl (map wn_id nodes))"

section \<open>The artifact\<close>

datatype stored = Codes "nat list" "int list" | Scale real | Kept wtensor

definition quantizable :: "wtensor \<Rightarrow> bool" where
  "quantizable t \<longleftrightarrow> wt_float32 t \<and> wt_ndim t \<ge> 2 \<and> wt_size t > 0"

definition SCALE_SUFFIX :: string where "SCALE_SUFFIX = ''.__scale__''"

text \<open>A float32 array divided by a Python float is divided in float32, by the rounded scale, and the scale is stored as float32.\<close>

definition stored_code :: "(real \<Rightarrow> real) \<Rightarrow> real \<Rightarrow> real \<Rightarrow> int" where
  "stored_code fl scale a = max (- 127) (min 127 (round_half_even (fl (a / fl scale))))"

definition quantize_step :: "(real \<Rightarrow> real) \<Rightarrow> string \<times> wtensor \<Rightarrow> (string \<times> stored) list \<Rightarrow> (string \<times> stored) list" where
  "quantize_step fl = (\<lambda>(key, t) q.
     if quantizable t
     then let scale = int8_scale (wt_data t)
          in AList.update (key @ SCALE_SUFFIX) (Scale (fl scale)) (AList.update key (Codes (wt_shape t) (map (stored_code fl scale) (wt_data t))) q)
     else AList.update key (Kept t) q)"

definition quantize :: "(real \<Rightarrow> real) \<Rightarrow> (string \<times> wtensor) list \<Rightarrow> (string \<times> stored) list" where
  "quantize fl tensors = fold (quantize_step fl) tensors []"

section \<open>The pipeline\<close>

record weight_artifacts =
  wa_type :: string
  wa_nodes :: "weight_node list"
  wa_edges :: "(string \<times> string) list"
  wa_risk :: string
  wa_artifact :: "(string \<times> stored) list option"
  wa_max_sensitivity :: real

definition specs_of :: "weight_bundle \<Rightarrow> layer_spec list \<times> bool" where
  "specs_of b =
     (case wb_layers b of
        Some specs \<Rightarrow> (specs, list_ex (\<lambda>s. ls_inputs s \<noteq> []) specs)
      | None \<Rightarrow> (bundle_from_flat_tensors (wb_tensors b), False))"

definition depths_of :: "layer_spec list \<Rightarrow> bool \<Rightarrow> (string \<times> nat) list" where
  "depths_of specs topology =
     (if topology then topo_depths specs else fold (\<lambda>(i, s). AList.update (ls_name s) (i + 1)) (enumerate 0 specs) [])"

definition weight_nodes :: "weight_bundle \<Rightarrow> weight_node list" where
  "weight_nodes b =
     (case specs_of b of (specs, topology) \<Rightarrow>
        let nodes = map (\<lambda>(i, s). layer_node (sqnr_by_layer (wb_tensors b) specs) (depths_of specs topology) i s) (enumerate 0 specs)
        in if topology then spread nodes else nodes)"

definition drawn_nodes :: "weight_node list \<Rightarrow> weight_node list" where
  "drawn_nodes nodes =
     [end_node ''in'' ''input'' 0] @ nodes @ [end_node ''out'' ''output'' (list_max (0 # map wn_depth nodes) + 1)]"

definition run_weight_only :: "(real \<Rightarrow> real) \<Rightarrow> (nat \<Rightarrow> bool) \<Rightarrow> weight_bundle \<Rightarrow> weight_artifacts result" where
  "run_weight_only fl cancelled b =
     (if cancelled 0 \<or> cancelled 1 \<or> cancelled 2 then raise PipelineCancelled
      else let (specs, topology) = specs_of b;
               measured = map snd (sqnr_by_layer (wb_tensors b) specs);
               nodes = weight_nodes b; arch = drawn_nodes nodes
           in ok \<lparr>wa_type = wb_framework b, wa_nodes = arch,
                  wa_edges = (if topology then topology_edges specs else order_edges arch),
                  wa_risk = (if measured \<noteq> [] \<and> Min (set measured) < 20 then ''review'' else ''safe''),
                  wa_artifact = (if wb_quantized b \<or> wb_tensors b = [] then None else Some (quantize fl (wb_tensors b))),
                  wa_max_sensitivity = (case map wn_sensitivity nodes of [] \<Rightarrow> 0 | s # ss \<Rightarrow> list_max (s # ss))\<rparr>)"

section \<open>Depth grows along the edges\<close>

definition settled :: "layer_spec list \<Rightarrow> (string \<times> nat) list \<Rightarrow> bool" where
  "settled specs depth \<longleftrightarrow>
     (\<forall>n d. map_of depth n = Some d \<longrightarrow> (\<forall>p \<in> set (parents_of specs n). \<exists>dp. map_of depth p = Some dp \<and> dp < d))"

lemma parents_known: "p \<in> set (parents_of specs nm) \<Longrightarrow> p \<in> ls_name ` set specs"
  by (auto simp: parents_of_def split: option.splits)

lemma resolve_settles:
  fixes rank :: "string \<Rightarrow> nat"
  shows "settled specs depth \<Longrightarrow> (\<And>n p. p \<in> set (parents_of specs n) \<Longrightarrow> rank p < rank n) \<Longrightarrow>
      nm \<in> ls_name ` set specs \<Longrightarrow> \<forall>x \<in> set seen. rank nm < rank x \<Longrightarrow>
      settled specs (snd (resolve specs seen nm depth)) \<and> map_of depth \<subseteq>\<^sub>m map_of (snd (resolve specs seen nm depth)) \<and>
      map_of (snd (resolve specs seen nm depth)) nm = Some (fst (resolve specs seen nm depth)) \<and>
      (\<forall>x \<in> set seen. map_of (snd (resolve specs seen nm depth)) x = map_of depth x)"
    and "settled specs depth \<Longrightarrow> (\<And>n p. p \<in> set (parents_of specs n) \<Longrightarrow> rank p < rank n) \<Longrightarrow>
      \<forall>p \<in> set ps. p \<in> ls_name ` set specs \<and> (\<forall>x \<in> set seen. rank p < rank x) \<Longrightarrow>
      settled specs (snd (resolve_all specs seen ps depth)) \<and> map_of depth \<subseteq>\<^sub>m map_of (snd (resolve_all specs seen ps depth)) \<and>
      (\<forall>p \<in> set ps. \<exists>d \<le> fst (resolve_all specs seen ps depth). map_of (snd (resolve_all specs seen ps depth)) p = Some d) \<and>
      (\<forall>x \<in> set seen. map_of (snd (resolve_all specs seen ps depth)) x = map_of depth x)"
proof (induction specs seen nm depth and specs seen ps depth rule: resolve_resolve_all.induct)
  case (1 specs seen nm depth)
  show ?case
  proof (cases "map_of depth nm")
    case (Some d)
    with 1 show ?thesis by (simp add: resolve.simps)
  next
    case None
    have named: "spec_named specs nm \<noteq> None" using "1.prems"(3) by simp
    have unseen: "nm \<notin> set seen" using "1.prems"(4) by auto
    obtain m depth1 where r: "resolve_all specs (nm # seen) (parents_of specs nm) depth = (m, depth1)" by force
    have "\<forall>p \<in> set (parents_of specs nm). p \<in> ls_name ` set specs \<and> (\<forall>x \<in> set (nm # seen). rank p < rank x)"
    proof (intro ballI conjI)
      fix p x assume p: "p \<in> set (parents_of specs nm)" and "x \<in> set (nm # seen)"
      then show "rank p < rank x" using "1.prems"(2) [OF p] "1.prems"(4) by fastforce
    qed (rule parents_known)
    from "1.IH" [OF None _ "1.prems"(1,2) this] named unseen r
    have IH: "settled specs depth1" "map_of depth \<subseteq>\<^sub>m map_of depth1" "\<forall>p \<in> set (parents_of specs nm). \<exists>d \<le> m. map_of depth1 p = Some d"
      "\<forall>x \<in> set (nm # seen). map_of depth1 x = map_of depth x" by auto
    have new: "map_of depth1 nm = None" using IH(4) None by simp
    have "settled specs (AList.update nm (1 + m) depth1)"
      unfolding settled_def
    proof (intro allI impI ballI)
      fix n d p assume n: "map_of (AList.update nm (1 + m) depth1) n = Some d" and p: "p \<in> set (parents_of specs n)"
      have "p \<noteq> n" using "1.prems"(2) [OF p] by auto
      obtain dp where "map_of depth1 p = Some dp" "dp < d"
        using n p IH(1,3) by (cases "n = nm") (fastforce simp: update_conv' settled_def)+
      moreover from this new have "p \<noteq> nm" by auto
      ultimately show "\<exists>dp. map_of (AList.update nm (1 + m) depth1) p = Some dp \<and> dp < d" by (simp add: update_conv')
    qed
    moreover have "map_of depth \<subseteq>\<^sub>m map_of (AList.update nm (1 + m) depth1)"
      using IH(2) None by (auto simp: map_le_def update_conv' dom_def)
    moreover have "resolve specs seen nm depth = (1 + m, AList.update nm (1 + m) depth1)"
      using None named unseen r by (simp add: resolve.simps)
    ultimately show ?thesis using IH(4) unseen by (auto simp: update_conv' fun_upd_def)
  qed
next
  case (3 specs seen p ps depth)
  obtain d depth1 where r: "resolve specs seen p depth = (d, depth1)" by force
  obtain m depth2 where ra: "resolve_all specs seen ps depth1 = (m, depth2)" by force
  have a: "settled specs depth1" "map_of depth \<subseteq>\<^sub>m map_of depth1" "map_of depth1 p = Some d" "\<forall>x \<in> set seen. map_of depth1 x = map_of depth x"
    using "3.IH"(1) [OF "3.prems"(1,2)] "3.prems"(3) r by auto
  have b: "settled specs depth2" "map_of depth1 \<subseteq>\<^sub>m map_of depth2" "\<forall>p \<in> set ps. \<exists>d \<le> m. map_of depth2 p = Some d"
      "\<forall>x \<in> set seen. map_of depth2 x = map_of depth1 x"
    using "3.IH"(2) [OF r [symmetric] refl] a(1) "3.prems"(2,3) ra by auto
  have "map_of depth2 p = Some d" using a(3) b(2) by (metis domI map_le_def)
  moreover have "map_of depth \<subseteq>\<^sub>m map_of depth2" using a(2) b(2) by (rule map_le_trans)
  moreover have "resolve_all specs seen (p # ps) depth = (max d m, depth2)" by (subst resolve_all.simps) (simp add: r ra)
  ultimately show ?case using a(4) b(1,3,4) by (fastforce intro: max.coboundedI2)
qed (simp add: resolve.simps)

text \<open>On layers whose connections have no cycle every layer gets a depth, and the depth grows strictly along
  every connection.\<close>

theorem depth_grows_along_edges:
  fixes rank :: "string \<Rightarrow> nat"
  assumes "distinct (map ls_name specs)" "\<And>s p. s \<in> set specs \<Longrightarrow> p \<in> set (known_inputs specs s) \<Longrightarrow> rank p < rank (ls_name s)"
    and "s \<in> set specs"
  shows "\<exists>d. map_of (topo_depths specs) (ls_name s) = Some d \<and>
    (\<forall>p \<in> set (known_inputs specs s). \<exists>dp. map_of (topo_depths specs) p = Some dp \<and> dp < d)"
proof -
  have named: "spec_named specs (ls_name x) = Some x" if "x \<in> set specs" for x
    using find_key_unique [of ls_name "rev specs" x] assms(1) that by (simp add: spec_named_def rev_map [symmetric])
  have parents: "parents_of specs (ls_name x) = known_inputs specs x" if "x \<in> set specs" for x
    by (simp add: parents_of_def known_inputs_def named [OF that])
  have rk: "rank p < rank n" if p: "p \<in> set (parents_of specs n)" for n p
  proof -
    have "n \<in> ls_name ` set specs" using p by (metis empty_iff list.set(1) option.simps(4) parents_of_def spec_named_None)
    then obtain x where "x \<in> set specs" "n = ls_name x" by auto
    then show ?thesis using assms(2) p parents by simp
  qed
  have "settled specs (fold (\<lambda>s depth. snd (resolve specs [] (ls_name s) depth)) xs depth) \<and>
      map_of depth \<subseteq>\<^sub>m map_of (fold (\<lambda>s depth. snd (resolve specs [] (ls_name s) depth)) xs depth) \<and>
      (\<forall>x \<in> set xs. map_of (fold (\<lambda>s depth. snd (resolve specs [] (ls_name s) depth)) xs depth) (ls_name x) \<noteq> None)"
    if "settled specs depth" "set xs \<subseteq> set specs" for xs depth
    using that
  proof (induction xs arbitrary: depth)
    case (Cons x xs)
    have r: "settled specs (snd (resolve specs [] (ls_name x) depth))" "map_of depth \<subseteq>\<^sub>m map_of (snd (resolve specs [] (ls_name x) depth))"
        "map_of (snd (resolve specs [] (ls_name x) depth)) (ls_name x) \<noteq> None"
      using resolve_settles(1) [of specs depth rank "ls_name x" "[]", OF Cons.prems(1) rk] Cons.prems(2) by auto
    from Cons.IH [OF r(1)] Cons.prems(2) r(2,3) show ?case by (auto intro: map_le_trans simp: map_le_def dom_def)
  qed simp
  from this [of "[]" specs] have all: "settled specs (topo_depths specs)" "\<forall>x \<in> set specs. map_of (topo_depths specs) (ls_name x) \<noteq> None"
    by (auto simp: topo_depths_def settled_def)
  then obtain d where "map_of (topo_depths specs) (ls_name s) = Some d" using assms(3) by auto
  with all(1) show ?thesis using parents [OF assms(3)] by (auto simp: settled_def)
qed

section \<open>The artifact restores the weights\<close>

lemma int8_scale_pos: "data \<noteq> [] \<Longrightarrow> 0 < int8_scale data"
proof -
  assume "data \<noteq> []"
  then have "list_max (map abs data) \<in> set (map abs data)" by (intro list_max_in) simp
  then show ?thesis by (auto simp: int8_scale_def intro: add_nonneg_pos)
qed

text \<open>What is asked of the rounding: within the range of float32 an error of at most the 2nd power of -23, twice the unit roundoff, which leaves room for
  the double the scale is computed in, and of the smallest normal number below it.\<close>

definition rounds_well :: "(real \<Rightarrow> real) \<Rightarrow> bool" where
  "rounds_well fl \<longleftrightarrow> (\<forall>x. \<bar>x\<bar> \<le> 2 ^ 127 \<longrightarrow> \<bar>fl x - x\<bar> \<le> \<bar>x\<bar> / 2 ^ 23 + 1 / 2 ^ 126)"

lemma rounded_scale:
  assumes "rounds_well fl" "data \<noteq> []" "\<forall>a \<in> set data. \<bar>a\<bar> < 2 ^ 128"
  shows "\<bar>fl (int8_scale data) - int8_scale data\<bar> \<le> int8_scale data / 2 ^ 22"
proof -
  define s where "s = int8_scale data"
  have m: "list_max (map abs data) \<in> abs ` set data" using list_max_in [of "map abs data"] assms(2) by simp
  then have "0 \<le> list_max (map abs data)" "list_max (map abs data) < 2 ^ 128" using assms(3) by auto
  then have "1 / 10 ^ 12 \<le> s" "s \<le> 2 ^ 128 / 127 + 1 / 10 ^ 12" by (simp_all add: s_def int8_scale_def divide_right_mono)
  then have "\<bar>s\<bar> \<le> 2 ^ 127" "1 / 2 ^ 126 \<le> s / 2 ^ 23" "0 < s" by simp_all
  moreover have "\<bar>fl s - s\<bar> \<le> \<bar>s\<bar> / 2 ^ 23 + 1 / 2 ^ 126" using assms(1) \<open>\<bar>s\<bar> \<le> 2 ^ 127\<close> by (simp add: rounds_well_def)
  ultimately show ?thesis by (simp add: s_def [symmetric])
qed

lemma int8_error:
  assumes "rounds_well fl" "a \<in> set data" "\<forall>a \<in> set data. \<bar>a\<bar> < 2 ^ 128"
  shows "\<bar>of_int (stored_code fl (int8_scale data) a) * fl (int8_scale data) - a\<bar> \<le> fl (int8_scale data) * (1 / 2 + 1 / 2 ^ 16) \<and>
    - 127 \<le> stored_code fl (int8_scale data) a \<and> stored_code fl (int8_scale data) a \<le> 127"
proof -
  define s where "s = int8_scale data"
  define s' where "s' = fl s"
  define q where "q = a / s'"
  have s: "0 < s" using int8_scale_pos [of data] assms(2) by (cases data) (auto simp: s_def)
  have "\<bar>s' - s\<bar> \<le> s / 2 ^ 22" using rounded_scale [OF assms(1) _ assms(3)] assms(2) by (cases data) (auto simp: s_def s'_def)
  then have "s - s / 2 ^ 22 \<le> s'" by linarith
  then have lo: "s * (1 - 1 / 2 ^ 22) \<le> s'" by (simp add: algebra_simps)
  then have s': "0 < s'" using s by (simp add: less_le_trans)
  have "\<bar>a\<bar> \<le> list_max (map abs data)" using assms(2) by (intro list_max_upper) simp
  then have "\<bar>a\<bar> \<le> 127 * s" by (simp add: s_def int8_scale_def)
  also have "\<dots> \<le> 127.001 * s'" using lo s by simp
  finally have q: "\<bar>q\<bar> \<le> 127.001" using s' by (simp add: q_def abs_divide pos_divide_le_eq)
  then have "\<bar>q\<bar> \<le> 2 ^ 127" by simp
  then have "\<bar>fl q - q\<bar> \<le> \<bar>q\<bar> / 2 ^ 23 + 1 / 2 ^ 126" using assms(1) unfolding rounds_well_def by blast
  with q have f: "\<bar>fl q - q\<bar> \<le> 1 / 2 ^ 16" by simp
  have e: "\<bar>of_int (round_half_even (fl q)) - fl q\<bar> \<le> 1 / 2" using round_half_even_error [of "fl q"] by (simp add: abs_minus_commute)
  have "\<bar>fl q - q\<bar> < 1 / 4" "\<bar>q\<bar> \<le> 127 + 1 / 4" using f q by simp_all
  with e have "of_int (round_half_even (fl q)) < (128 :: real)" "- 128 < (of_int (round_half_even (fl q)) :: real)" by linarith+
  then have r: "- 127 \<le> round_half_even (fl q)" "round_half_even (fl q) \<le> 127" by linarith+
  then have c: "stored_code fl s a = round_half_even (fl q)" by (simp add: stored_code_def q_def s'_def)
  have "\<bar>of_int (round_half_even (fl q)) - q\<bar> \<le> 1 / 2 + 1 / 2 ^ 16" using e f
    abs_triangle_ineq [of "of_int (round_half_even (fl q)) - fl q" "fl q - q"] by simp
  then have "s' * \<bar>of_int (round_half_even (fl q)) - q\<bar> \<le> s' * (1 / 2 + 1 / 2 ^ 16)" using s' by (intro mult_left_mono) simp_all
  moreover have "s' * \<bar>of_int (round_half_even (fl q)) - q\<bar> = \<bar>s' * (of_int (round_half_even (fl q)) - q)\<bar>" using s' by (simp add: abs_mult)
  moreover have "s' * (of_int (round_half_even (fl q)) - q) = of_int (round_half_even (fl q)) * s' - a"
    using s' by (simp add: q_def algebra_simps)
  ultimately show ?thesis using r by (simp only: s_def [symmetric] s'_def [symmetric] c)
qed

definition no_clash :: "(string \<times> wtensor) list \<Rightarrow> bool" where
  "no_clash tensors \<longleftrightarrow> distinct (map fst tensors) \<and> (\<forall>k \<in> fst ` set tensors. \<forall>k' \<in> fst ` set tensors. k' \<noteq> k @ SCALE_SUFFIX)"

definition stored_as :: "(real \<Rightarrow> real) \<Rightarrow> string \<times> wtensor \<Rightarrow> (string \<times> stored) list \<Rightarrow> bool" where
  "stored_as fl kt q \<longleftrightarrow>
     (let t = snd kt; scale = int8_scale (wt_data t) in
      if quantizable t
      then map_of q (fst kt) = Some (Codes (wt_shape t) (map (stored_code fl scale) (wt_data t))) \<and>
           map_of q (fst kt @ SCALE_SUFFIX) = Some (Scale (fl scale))
      else map_of q (fst kt) = Some (Kept t))"

lemma quantize_step_other:
  "k \<noteq> fst kt \<Longrightarrow> k \<noteq> fst kt @ SCALE_SUFFIX \<Longrightarrow> map_of (quantize_step fl kt q) k = map_of q k"
  by (cases kt) (auto simp: quantize_step_def Let_def update_conv')

lemma quantize_step_own: "stored_as fl kt (quantize_step fl kt q)"
  by (cases kt) (auto simp: quantize_step_def stored_as_def Let_def update_conv' SCALE_SUFFIX_def)

lemma quantize_keeps:
  assumes "stored_as fl kt q" "fst kt \<noteq> fst kt'" "fst kt \<noteq> fst kt' @ SCALE_SUFFIX" "fst kt' \<noteq> fst kt @ SCALE_SUFFIX"
  shows "stored_as fl kt (quantize_step fl kt' q)"
  using assms by (auto simp: stored_as_def Let_def quantize_step_other)

lemma quantize_stores: "no_clash tensors \<Longrightarrow> kt \<in> set tensors \<Longrightarrow> stored_as fl kt (quantize fl tensors)"
proof -
  have "stored_as fl kt (fold (quantize_step fl) xs q)" if "no_clash (kt # xs)" "stored_as fl kt q" for xs q
    using that
  proof (induction xs arbitrary: q)
    case (Cons x xs)
    then have "stored_as fl kt (quantize_step fl x q)" by (intro quantize_keeps) (auto simp: no_clash_def)
    with Cons show ?case by (auto simp: no_clash_def)
  qed simp
  moreover assume "no_clash tensors" "kt \<in> set tensors"
  ultimately show ?thesis
  proof -
    assume keep: "\<And>xs q. no_clash (kt # xs) \<Longrightarrow> stored_as fl kt q \<Longrightarrow> stored_as fl kt (fold (quantize_step fl) xs q)"
      and nc: "no_clash tensors" and "kt \<in> set tensors"
    then obtain ys zs where t: "tensors = ys @ kt # zs" by (meson split_list)
    have "no_clash (kt # zs)" using nc by (auto simp: t no_clash_def)
    from keep [OF this quantize_step_own] show ?thesis by (simp add: quantize_def t)
  qed
qed

text \<open>C38: The weight-only artifact restores the weights: every float32 array of two or more dimensions is stored as codes between -127 and 127 with a scale that
  restore each weight within half a step and the 65536th part of one, and every other tensor is stored as it was.  The keys of the tensors are
  different, as those of a dict are, and none is another one with \<open>.__scale__\<close> at its end, under which the scale of that one would replace it;
  the weights are finite; and the float32 arithmetic has an error of at most the 8388608th part of the result, or of the smallest normal number.\<close>

theorem weight_artifact_restores:
  assumes "run_weight_only fl c b = ok w" "wa_artifact w = Some q" "(k, t) \<in> set (wb_tensors b)"
    and "distinct (map fst (wb_tensors b))" "\<forall>k \<in> fst ` set (wb_tensors b). \<forall>k' \<in> fst ` set (wb_tensors b). k' \<noteq> k @ SCALE_SUFFIX"
    and "\<And>x. \<bar>x\<bar> \<le> 2 ^ 127 \<Longrightarrow> \<bar>fl x - x\<bar> \<le> \<bar>x\<bar> / 2 ^ 23 + 1 / 2 ^ 126" "\<forall>x \<in> set (wt_data t). \<bar>x\<bar> < 2 ^ 128"
  shows "if quantizable t
    then \<exists>codes scale. map_of q k = Some (Codes (wt_shape t) codes) \<and> map_of q (k @ SCALE_SUFFIX) = Some (Scale scale) \<and>
      length codes = length (wt_data t) \<and>
      (\<forall>i < length codes. \<bar>of_int (codes ! i) * scale - wt_data t ! i\<bar> \<le> scale * (1 / 2 + 1 / 2 ^ 16) \<and> - 127 \<le> codes ! i \<and> codes ! i \<le> 127)
    else map_of q k = Some (Kept t)"
proof -
  have "q = quantize fl (wb_tensors b)" using assms(1,2) by (auto simp: run_weight_only_def Let_def split: prod.splits if_splits)
  moreover have "no_clash (wb_tensors b)" using assms(4,5) by (simp add: no_clash_def)
  ultimately have "stored_as fl (k, t) q" using quantize_stores assms(3) by blast
  moreover have "rounds_well fl" using assms(6) by (simp add: rounds_well_def)
  ultimately show ?thesis using int8_error [OF _ nth_mem assms(7)]
    by (auto simp: stored_as_def Let_def intro!: exI [of _ "map (stored_code fl (int8_scale (wt_data t))) (wt_data t)"] exI [of _ "fl (int8_scale (wt_data t))"])
qed

text \<open>The case left out: the scale of the first tensor replaces the second.\<close>

lemma clashing_key_is_lost:
  assumes "quantizable t" "k' = k @ SCALE_SUFFIX"
  shows "map_of (quantize fl [(k', t'), (k, t)]) k' = Some (Scale (fl (int8_scale (wt_data t))))"
  using assms by (simp add: quantize_def quantize_step_def Let_def update_conv')

lemma set_update_values:
  "v \<in> set (AList.update k x m) \<Longrightarrow> v = (k, x) \<or> v \<in> set m"
  by (induction m) (auto split: if_splits)

text \<open>The artifact of a CoreML model is not compressed: its weights are read as vectors, only matrices are
  quantized, so every tensor is stored as it came.\<close>

theorem coreml_is_not_compressed:
  assumes "load_coreml which ls = ok b" "run_weight_only fl c b = ok w" "wa_artifact w = Some q"
  shows "\<forall>v \<in> snd ` set q. \<exists>t. v = Kept t"
proof -
  have q: "q = quantize fl (wb_tensors b)" using assms(2,3) by (auto simp: run_weight_only_def Let_def split: prod.splits if_splits)
  have "\<forall>v \<in> snd ` set (fold (quantize_step fl) tensors s). \<exists>t. v = Kept t"
    if "vectors_only tensors" "\<forall>v \<in> snd ` set s. \<exists>t. v = Kept t" for tensors s
    using that
  proof (induction tensors arbitrary: s)
    case (Cons kt tensors)
    obtain k t where kt: "kt = (k, t)" by force
    have "\<not> quantizable t" using Cons.prems(1) by (auto simp: kt vectors_only_def quantizable_def)
    then have "\<forall>v \<in> snd ` set (quantize_step fl kt s). \<exists>t. v = Kept t"
      using Cons.prems(2) by (fastforce simp: kt quantize_step_def dest!: set_update_values)
    with Cons show ?case by (simp add: vectors_only_def)
  qed simp
  from this [of "wb_tensors b" "[]"] load_coreml_vectors [OF assms(1)] show ?thesis by (simp add: q quantize_def)
qed

section \<open>Checkpoints of a wrapped module\<close>

lemma group_keys:
  assumes "(path, grp) \<in> set (group_tensors tensors)" "k \<in> fst ` set grp"
  shows "k \<in> strip_prefix ` fst ` set tensors"
proof -
  define step where "step = (\<lambda>(key, t :: wtensor) layers.
        let clean = strip_prefix key; path = layer_path clean;
            grp = (case map_of layers path of Some g \<Rightarrow> g | None \<Rightarrow> [])
        in AList.update path (AList.update clean t grp) layers)"
  have "\<forall>(path, grp) \<in> set (fold step xs layers). fst ` set grp \<subseteq> A \<union> strip_prefix ` fst ` set xs"
    if "\<forall>(path, grp) \<in> set layers. fst ` set grp \<subseteq> A" for xs layers A
    using that
  proof (induction xs arbitrary: layers A)
    case (Cons x xs)
    obtain key t where x: "x = (key, t)" by force
    define clean where "clean = strip_prefix key"
    define grp where "grp = (case map_of layers (layer_path clean) of Some g \<Rightarrow> g | None \<Rightarrow> [])"
    have "fst ` set grp \<subseteq> A"
    proof (cases "map_of layers (layer_path clean)")
      case (Some g)
      then have "(layer_path clean, g) \<in> set layers" by (rule map_of_SomeD)
      with Cons.prems have "fst ` set g \<subseteq> A" by blast
      then show ?thesis by (simp add: grp_def Some)
    qed (simp add: grp_def)
    then have "\<forall>(path, grp) \<in> set (step x layers). fst ` set grp \<subseteq> insert clean A"
      using Cons.prems by (fastforce simp: step_def x Let_def clean_def [symmetric] grp_def [symmetric] dom_update dest!: set_update_values)
    from Cons.IH [OF this] show ?case by (simp add: x clean_def)
  qed auto
  from this [of "[]" "{}" tensors] have "\<forall>(path, grp) \<in> set (group_tensors tensors). fst ` set grp \<subseteq> strip_prefix ` fst ` set tensors"
    by (simp add: group_tensors_def step_def)
  then have "fst ` set grp \<subseteq> strip_prefix ` fst ` set tensors" using assms(1) by blast
  with assms(2) show ?thesis by blast
qed

lemma chain_keys: "map ls_keys (chain p ss) = map ls_keys ss"
  by (induction ss arbitrary: p) (auto split: option.splits)

text \<open>A checkpoint saved from \<open>nn.DataParallel\<close> is not measured: the layers list their tensors without the prefix,
  under which the store has none of them, so no noise is computed, every layer is recommended FP32 with
  sensitivity 0 and the model is reported as safe.\<close>

theorem data_parallel_is_not_measured:
  assumes "run_weight_only fl c b = ok w" "wb_layers b = None"
    and "\<forall>k \<in> fst ` set (wb_tensors b). prefix MODULE k \<and> \<not> prefix MODULE (strip_prefix k)"
  shows "wa_risk w = ''safe'' \<and> wa_max_sensitivity w = 0 \<and> (\<forall>n \<in> set (wa_nodes w). wn_sensitivity n = 0 \<and> wn_recommend n = ''FP32'')"
proof -
  define specs where "specs = bundle_from_flat_tensors (wb_tensors b)"
  have none: "map_of (wb_tensors b) k = None" if s: "s \<in> set specs" and k: "k \<in> set (ls_keys s)" for s k
  proof -
    have "ls_keys s \<in> set (map ls_keys specs)" using s by simp
    then obtain path grp where "(path, grp) \<in> set (group_tensors (wb_tensors b))" "k \<in> fst ` set grp"
      using k by (auto simp: specs_def bundle_from_flat_tensors_def chain_keys)
    from group_keys [OF this] assms(3) have "\<not> prefix MODULE k" by auto
    with assms(3) show ?thesis by (auto simp: map_of_eq_None_iff)
  qed
  have "layer_weight (wb_tensors b) s = None" if "s \<in> set specs" for s
  proof -
    have "List.map_filter (map_of (wb_tensors b)) (ls_keys s) = []" using none [OF that] by (auto simp: List.map_filter_def)
    then show ?thesis by (simp add: layer_weight_def Let_def)
  qed
  then have "fold (\<lambda>s m. case layer_weight (wb_tensors b) s of None \<Rightarrow> m | Some x \<Rightarrow> AList.update (ls_name s) (sqnr_db_int8 (wt_data x)) m) xs m = m"
    if "set xs \<subseteq> set specs" for xs m using that by (induction xs arbitrary: m) auto
  then have q: "sqnr_by_layer (wb_tensors b) specs = []" by (simp add: sqnr_by_layer_def)
  have so: "specs_of b = (specs, False)" using assms(2) by (simp add: specs_of_def specs_def)
  have n: "wn_sensitivity n = 0 \<and> wn_recommend n = ''FP32''" if "n \<in> set (weight_nodes b)" for n
    using that by (auto simp: weight_nodes_def so q layer_node_def sensitivity_of_def)
  have zero: "list_max (s # ss) = 0" if "\<forall>x \<in> set (s # ss). x = 0" for s ss using that list_max_in [of "s # ss"] by auto
  have "wa_max_sensitivity w = 0"
    using assms(1) n zero by (auto simp: run_weight_only_def so Let_def split: if_splits list.split)
  moreover have "wa_risk w = ''safe''" "wa_nodes w = drawn_nodes (weight_nodes b)"
    using assms(1) by (auto simp: run_weight_only_def so q Let_def split: if_splits)
  ultimately show ?thesis using n by (auto simp: drawn_nodes_def end_node_def)
qed

section \<open>The drawing is connected\<close>

lemma node_id_inj [simp]: "node_id i = node_id j \<longleftrightarrow> i = j"
  by (simp add: node_id_def)

lemma name_to_id_nth:
  assumes "distinct (map ls_name specs)" "i < length specs"
  shows "map_of (name_to_id specs) (ls_name (specs ! i)) = Some (node_id i)"
proof -
  have other: "map_of (fold (\<lambda>(i, s). AList.update (ls_name s) (node_id i)) (enumerate k xs) m) nm = map_of m nm"
    if "nm \<notin> ls_name ` set xs" for k xs m nm
    using that by (induction xs arbitrary: k m) (auto simp: update_conv')
  have "map_of (fold (\<lambda>(i, s). AList.update (ls_name s) (node_id i)) (enumerate k xs) m) (ls_name (xs ! i)) = Some (node_id (k + i))"
    if "distinct (map ls_name xs)" "i < length xs" for k xs m
    using that
  proof (induction xs arbitrary: k m i)
    case (Cons x xs)
    then show ?case by (cases i) (auto simp: other update_conv')
  qed simp
  from this [OF assms, of 0 "[]"] show ?thesis by (simp add: name_to_id_def)
qed

lemma id_of_nth: "distinct (map ls_name specs) \<Longrightarrow> i < length specs \<Longrightarrow> id_of specs (ls_name (specs ! i)) = node_id i"
  by (simp add: id_of_def name_to_id_nth)

lemma id_of_known:
  assumes "distinct (map ls_name specs)" "p \<in> ls_name ` set specs"
  shows "\<exists>j < length specs. p = ls_name (specs ! j) \<and> id_of specs p = node_id j"
proof -
  from assms(2) obtain j where "j < length specs" "p = ls_name (specs ! j)" by (auto simp: in_set_conv_nth)
  then show ?thesis using id_of_nth [OF assms(1)] by auto
qed

definition connected :: "string list \<Rightarrow> (string \<times> string) list \<Rightarrow> bool" where
  "connected ids es \<longleftrightarrow>
     fst ` set es \<subseteq> insert ''in'' (set ids) \<and> snd ` set es \<subseteq> insert ''out'' (set ids) \<and> set ids \<subseteq> fst ` set es \<inter> snd ` set es"

lemma topology_connected:
  assumes d: "distinct (map ls_name specs)"
  shows "connected (map node_id [0..<length specs]) (topology_edges specs)"
proof -
  have known: "p \<in> ls_name ` set specs" if "p \<in> set (known_inputs specs s)" for p s using that by (auto simp: known_inputs_def)
  have id: "id_of specs p \<in> node_id ` {..<length specs}" if "p \<in> ls_name ` set specs" for p using id_of_known [OF d that] by auto
  have inner: "id_of specs p \<in> node_id ` {..<length specs}" if "s \<in> set specs" "p \<in> set (known_inputs specs s)" for s p using id known that by blast
  have own: "id_of specs (ls_name s) \<in> node_id ` {..<length specs}" if "s \<in> set specs" for s using id that by blast
  have ends: "fst ` set (topology_edges specs) \<subseteq> insert ''in'' (node_id ` {..<length specs})"
    "snd ` set (topology_edges specs) \<subseteq> insert ''out'' (node_id ` {..<length specs})"
    using inner own by (auto simp: topology_edges_def Let_def inner_edges_def)
  have "node_id i \<in> fst ` set (topology_edges specs)" "node_id i \<in> snd ` set (topology_edges specs)" if i: "i < length specs" for i
  proof -
    let ?s = "specs ! i"
    have s: "?s \<in> set specs" using i by simp
    have i_id: "id_of specs (ls_name ?s) = node_id i" by (rule id_of_nth [OF d i])
    show "node_id i \<in> fst ` set (topology_edges specs)"
    proof (cases "\<exists>c \<in> set specs. ls_name ?s \<in> set (known_inputs specs c)")
      case True
      then obtain c where "c \<in> set specs" "ls_name ?s \<in> set (known_inputs specs c)" by blast
      then have "(node_id i, id_of specs (ls_name c)) \<in> set (topology_edges specs)"
        using i_id by (force simp: topology_edges_def Let_def inner_edges_def)
      then show ?thesis by force
    next
      case False
      then have "(node_id i, ''out'') \<in> set (topology_edges specs)"
        using s i_id by (force simp: topology_edges_def Let_def)
      then show ?thesis by force
    qed
    show "node_id i \<in> snd ` set (topology_edges specs)"
    proof (cases "known_inputs specs ?s")
      case Nil
      then have "(''in'', node_id i) \<in> set (topology_edges specs)"
        using s i_id by (force simp: topology_edges_def Let_def)
      then show ?thesis by force
    next
      case (Cons p ps)
      then have "(id_of specs p, node_id i) \<in> set (topology_edges specs)"
        using s i_id by (force simp: topology_edges_def Let_def inner_edges_def)
      then show ?thesis by force
    qed
  qed
  then have "node_id ` {..<length specs} \<subseteq> fst ` set (topology_edges specs) \<inter> snd ` set (topology_edges specs)" by blast
  moreover have "set (map node_id [0..<length specs]) = node_id ` {..<length specs}" by (simp add: lessThan_atLeast0)
  ultimately show ?thesis using ends by (simp only: connected_def simp_thms)
qed

lemma path_connected: "connected ids (zip (''in'' # ids @ [''out'']) (ids @ [''out'']))"
proof -
  have f: "map fst (zip (a # xs @ [b]) (xs @ [b])) = a # xs" for a b :: string and xs
    by (simp add: map_fst_zip_take)
  have s: "map snd (zip (a # xs @ [b]) (xs @ [b])) = xs @ [b]" for a b :: string and xs
    by (simp add: map_snd_zip_take)
  have "fst ` set (zip (''in'' # ids @ [''out'']) (ids @ [''out''])) = insert ''in'' (set ids)"
    "snd ` set (zip (''in'' # ids @ [''out'']) (ids @ [''out''])) = insert ''out'' (set ids)"
    by (simp_all only: set_map [symmetric] f s) auto
  then show ?thesis by (auto simp: connected_def)
qed

lemma weight_nodes_ids: "map wn_id (weight_nodes b) = map node_id [0..<length (fst (specs_of b))]"
proof -
  have "wn_id (layer_node q dp i s) = node_id i" for q dp i s by (simp add: layer_node_def split: prod.split)
  then have "map wn_id (map (\<lambda>(i, s). layer_node q dp i s) (enumerate 0 specs)) = map node_id [0..<length specs]" for q dp specs
    by (intro nth_equalityI) (simp_all add: nth_enumerate_eq)
  moreover have "map wn_id (spread nodes) = map wn_id nodes" for nodes
    by (intro nth_equalityI) (simp_all add: spread_def nth_enumerate_eq Let_def)
  ultimately show ?thesis by (simp add: weight_nodes_def Let_def split: prod.split)
qed

text \<open>C11: The drawing has no dangling edge and no loose layer: when the layers have different names every edge joins two
  drawn nodes, and every layer has an edge that comes in and one that goes out, for a container's own topology and
  for the chain of a flat store alike.\<close>

theorem weight_graph_is_connected:
  assumes "run_weight_only fl c b = ok w" "distinct (map ls_name (fst (specs_of b)))"
  shows "\<exists>ids. map wn_id (wa_nodes w) = ''in'' # ids @ [''out''] \<and> length ids = length (fst (specs_of b)) \<and>
    fst ` set (wa_edges w) \<subseteq> insert ''in'' (set ids) \<and> snd ` set (wa_edges w) \<subseteq> insert ''out'' (set ids) \<and>
    set ids \<subseteq> fst ` set (wa_edges w) \<inter> snd ` set (wa_edges w)"
proof -
  obtain specs topology where so: "specs_of b = (specs, topology)" by force
  let ?ids = "map node_id [0..<length specs]"
  have nodes: "wa_nodes w = drawn_nodes (weight_nodes b)"
    and edges: "wa_edges w = (if topology then topology_edges specs else order_edges (drawn_nodes (weight_nodes b)))"
    using assms(1) by (auto simp: run_weight_only_def so Let_def split: if_splits)
  have ids: "map wn_id (drawn_nodes (weight_nodes b)) = ''in'' # ?ids @ [''out'']"
    by (simp add: drawn_nodes_def end_node_def weight_nodes_ids so)
  have "connected ?ids (wa_edges w)"
  proof (cases topology)
    case True
    then show ?thesis using topology_connected assms(2) by (simp add: edges so)
  next
    case False
    then show ?thesis using path_connected [of ?ids] by (simp only: edges order_edges_def ids if_False list.sel)
  qed
  then show ?thesis using nodes ids by (intro exI [of _ ?ids]) (simp add: connected_def so)
qed

section \<open>Sensitivities\<close>

text \<open>Every sensitivity is between 0 and 1, and a layer that is quantized with less noise is never shown as more
  sensitive.\<close>

theorem weight_sensitivity_ordered:
  assumes "x \<in> set measured" "y \<in> set measured"
  shows "0 \<le> fst (sensitivity_of measured (Some x)) \<and> fst (sensitivity_of measured (Some x)) \<le> 1 \<and>
    (x \<le> y \<longrightarrow> fst (sensitivity_of measured (Some y)) \<le> fst (sensitivity_of measured (Some x)))"
proof -
  define lo hi where "lo = Min (set measured)" and "hi = Max (set measured)"
  define span where "span = (if hi - lo = 0 then 1 else hi - lo)"
  have ne: "measured \<noteq> []" using assms(1) by auto
  have b: "lo \<le> z \<and> z \<le> hi" if "z \<in> set measured" for z using that ne by (simp add: lo_def hi_def)
  have "lo \<le> hi" using b [OF assms(1)] by linarith
  then have pos: "0 < span" by (auto simp: span_def)
  have s: "fst (sensitivity_of measured (Some z)) = py_round 4 ((hi - z) / span)" for z
    using ne by (simp add: sensitivity_of_def Let_def lo_def hi_def span_def)
  have "0 \<le> (hi - x) / span" using b [OF assms(1)] pos by simp
  moreover have "(hi - x) / span \<le> 1" using b [OF assms(1)] pos by (auto simp: span_def field_simps)
  moreover have "(hi - y) / span \<le> (hi - x) / span" if "x \<le> y" using that pos by (simp add: divide_right_mono)
  ultimately show ?thesis unfolding s using py_round_mono [of "(hi - y) / span" "(hi - x) / span" 4]
    by (auto intro!: py_round_nonneg py_round_le_numeral [of _ Num.One, simplified])
qed

section \<open>Examples\<close>

definition matrix22 :: wtensor where
  "matrix22 = \<lparr>wt_shape = [2, 2], wt_data = [1, -2, 3, -4], wt_float32 = True\<rparr>"

definition fork :: "layer_spec list" where
  "fork = (let l = \<lambda>nm ins. \<lparr>ls_name = nm, ls_kind = ''dense'', ls_params = 4, ls_inputs = ins, ls_keys = [nm]\<rparr>
           in [l ''a'' [], l ''b'' [''a''], l ''c'' [''a'', ''b'']])"

definition fork_bundle :: weight_bundle where
  "fork_bundle = \<lparr>wb_tensors = [(''a'', matrix22)], wb_framework = ''f'', wb_layers = Some fork, wb_quantized = False\<rparr>"

definition wrapped_bundle :: weight_bundle where
  "wrapped_bundle = load_safetensors [(''module.fc.weight'', matrix22)]"

lemma never_cancelled: "\<exists>w. run_weight_only fl (\<lambda>_. False) b = ok w"
  by (simp add: run_weight_only_def Let_def split: prod.split)

theorem depth_grows_along_edges_witness:
  "\<exists>d da. map_of (topo_depths fork) ''c'' = Some d \<and> map_of (topo_depths fork) ''a'' = Some da \<and> da < d"
proof -
  define rank :: "string \<Rightarrow> nat" where "rank = (\<lambda>n. if n = ''a'' then 0 else if n = ''b'' then 1 else 2)"
  let ?c = "\<lparr>ls_name = ''c'', ls_kind = ''dense'', ls_params = 4, ls_inputs = [''a'', ''b''], ls_keys = [''c'']\<rparr>"
  have "rank p < rank (ls_name s)" if "s \<in> set fork" "p \<in> set (known_inputs fork s)" for s p
    using that by (auto simp: fork_def Let_def known_inputs_def rank_def)
  moreover have "distinct (map ls_name fork)" "?c \<in> set fork" by (simp_all add: fork_def Let_def)
  ultimately have "\<exists>d. map_of (topo_depths fork) (ls_name ?c) = Some d \<and>
    (\<forall>p \<in> set (known_inputs fork ?c). \<exists>dp. map_of (topo_depths fork) p = Some dp \<and> dp < d)"
    by (intro depth_grows_along_edges [where rank = rank])
  moreover have "''a'' \<in> set (known_inputs fork ?c)" by (simp add: known_inputs_def fork_def Let_def)
  ultimately show ?thesis by fastforce
qed

text \<open>A rounding to 150 binary places, for the witness.\<close>

definition fixed_point :: "real \<Rightarrow> real" where
  "fixed_point x = of_int \<lfloor>x * 2 ^ 150\<rfloor> / 2 ^ 150"

lemma fixed_point_error: "\<bar>fixed_point x - x\<bar> \<le> \<bar>x\<bar> / 2 ^ 23 + 1 / 2 ^ 126"
proof -
  have "\<bar>of_int \<lfloor>x * 2 ^ 150\<rfloor> - x * 2 ^ 150\<bar> \<le> 1" by linarith
  then have "\<bar>of_int \<lfloor>x * 2 ^ 150\<rfloor> - x * 2 ^ 150\<bar> / 2 ^ 150 \<le> 1 / 2 ^ 150" by (intro divide_right_mono) simp_all
  moreover have "\<bar>of_int \<lfloor>x * 2 ^ 150\<rfloor> - x * 2 ^ 150\<bar> / 2 ^ 150 = \<bar>fixed_point x - x\<bar>"
    by (simp add: fixed_point_def abs_divide [symmetric] diff_divide_distrib del: abs_divide)
  ultimately have "\<bar>fixed_point x - x\<bar> \<le> 1 / 2 ^ 150" by linarith
  moreover have "(1 :: real) / 2 ^ 150 \<le> 1 / 2 ^ 126" "0 \<le> \<bar>x\<bar> / 2 ^ 23" by simp_all
  ultimately show ?thesis by linarith
qed

theorem weight_artifact_restores_witness:
  "\<exists>w q codes scale. run_weight_only fixed_point (\<lambda>_. False) fork_bundle = ok w \<and> wa_artifact w = Some q \<and>
     map_of q ''a'' = Some (Codes [2, 2] codes) \<and> map_of q ''a.__scale__'' = Some (Scale scale) \<and> length codes = 4 \<and>
     \<bar>of_int (codes ! 3) * scale - wt_data matrix22 ! 3\<bar> \<le> scale * (1 / 2 + 1 / 2 ^ 16)"
proof -
  obtain w where w: "run_weight_only fixed_point (\<lambda>_. False) fork_bundle = ok w" using never_cancelled by blast
  then obtain q where q: "wa_artifact w = Some q"
    by (auto simp: run_weight_only_def fork_bundle_def Let_def split: prod.splits)
  have h: "(''a'', matrix22) \<in> set (wb_tensors fork_bundle)" "distinct (map fst (wb_tensors fork_bundle))"
    "\<forall>k \<in> fst ` set (wb_tensors fork_bundle). \<forall>k' \<in> fst ` set (wb_tensors fork_bundle). k' \<noteq> k @ SCALE_SUFFIX"
    by (simp_all add: fork_bundle_def SCALE_SUFFIX_def)
  have b: "\<forall>x \<in> set (wt_data matrix22). \<bar>x\<bar> < 2 ^ 128" and m: "quantizable matrix22" "wt_shape matrix22 = [2, 2]" "length (wt_data matrix22) = 4"
    by (simp_all add: quantizable_def matrix22_def wt_ndim_def wt_size_def)
  obtain codes scale where "map_of q ''a'' = Some (Codes [2, 2] codes)" "map_of q (''a'' @ SCALE_SUFFIX) = Some (Scale scale)" "length codes = 4"
    "\<forall>i < length codes. \<bar>of_int (codes ! i) * scale - wt_data matrix22 ! i\<bar> \<le> scale * (1 / 2 + 1 / 2 ^ 16) \<and> - 127 \<le> codes ! i \<and> codes ! i \<le> 127"
    using weight_artifact_restores [OF w q h fixed_point_error b] unfolding if_P [OF m(1)] m(2,3) by blast
  with w q show ?thesis by (intro exI conjI) (auto simp: SCALE_SUFFIX_def)
qed

theorem coreml_is_not_compressed_witness:
  "\<exists>b w q. load_coreml (Some ''neuralNetwork'')
       [\<lparr>cl_name = ''fc'', cl_type = Some ''innerProduct'', cl_input = [''x''], cl_output = [''y''], cl_weights = [1, 2, 3, 4], cl_bias = []\<rparr>] = ok b \<and>
     run_weight_only id (\<lambda>_. False) b = ok w \<and> wa_artifact w = Some q \<and> q \<noteq> [] \<and> (\<forall>v \<in> snd ` set q. \<exists>t. v = Kept t)"
proof -
  let ?l = "\<lparr>cl_name = ''fc'', cl_type = Some ''innerProduct'', cl_input = [''x''], cl_output = [''y''], cl_weights = [1, 2, 3, 4], cl_bias = []\<rparr>"
  obtain b where b: "load_coreml (Some ''neuralNetwork'') [?l] = ok b" by (simp add: load_coreml_def Let_def split: prod.split)
  then have t: "wb_tensors b = [(''fc/weights'', vector [1, 2, 3, 4])]" "\<not> wb_quantized b"
    by (auto simp: load_coreml_def coreml_arrays_def update_all_def Let_def)
  obtain w where w: "run_weight_only id (\<lambda>_. False) b = ok w" using never_cancelled by blast
  then have q: "wa_artifact w = Some (quantize id (wb_tensors b))"
    using t by (auto simp: run_weight_only_def Let_def split: prod.splits)
  have "quantize id (wb_tensors b) \<noteq> []" by (simp add: t quantize_def quantize_step_def quantizable_def vector_def wt_ndim_def)
  with coreml_is_not_compressed [OF b w q] b w q show ?thesis by blast
qed

theorem data_parallel_is_not_measured_witness:
  "\<exists>w. run_weight_only id (\<lambda>_. False) wrapped_bundle = ok w \<and> wa_risk w = ''safe'' \<and> wa_max_sensitivity w = 0"
proof -
  obtain w where w: "run_weight_only id (\<lambda>_. False) wrapped_bundle = ok w" using never_cancelled by blast
  from data_parallel_is_not_measured [OF w] w show ?thesis
    by (auto simp: wrapped_bundle_def load_safetensors_def MODULE_def strip_prefix_def)
qed

theorem weight_graph_is_connected_witness:
  "\<exists>w ids. run_weight_only id (\<lambda>_. False) fork_bundle = ok w \<and> length ids = 3 \<and> set ids \<subseteq> fst ` set (wa_edges w) \<inter> snd ` set (wa_edges w)"
proof -
  obtain w where w: "run_weight_only id (\<lambda>_. False) fork_bundle = ok w" using never_cancelled by blast
  have "fst (specs_of fork_bundle) = fork" by (simp add: specs_of_def fork_bundle_def)
  moreover have "distinct (map ls_name fork)" "length fork = 3" by (simp_all add: fork_def Let_def)
  ultimately show ?thesis using weight_graph_is_connected [OF w] w by auto
qed

theorem weight_sensitivity_ordered_witness: "fst (sensitivity_of [10, 50] (Some 50)) \<le> fst (sensitivity_of [10, 50] (Some 10))"
  using weight_sensitivity_ordered [of 10 "[10, 50]" 50] by simp

end
