(* ===== verification/Pareto_View.thy ===== *)
theory Pareto_View
  imports Pareto_Search Py_Time
begin

text \<open>
  The Pareto experiment as the interface shows it: \<open>app/services/mappers/pareto_mapper.py\<close>, the scene of
  \<open>app/services/viz/pareto_scene.py\<close> with its rounding \<open>app/services/detrand.py\<close>.  The lemmas show the
  range of a score, what the frontier mark means, and that the scene places every trial inside its box and
  dims exactly the trials outside the constraints that hold no title.
\<close>

section \<open>Numbers as text\<close>

definition js_round :: "nat \<Rightarrow> real \<Rightarrow> real" where
  "js_round digits x = of_int \<lfloor>x * 10 ^ digits + 1 / 2\<rfloor> / 10 ^ digits"

text \<open>\<open>f"{x:.df}"\<close> of a number that has no more than \<open>d\<close> decimals.\<close>

definition fixed :: "nat \<Rightarrow> real \<Rightarrow> string" where
  "fixed d x =
     (let z = round_half_even (x * 10 ^ d); a = nat \<bar>z\<bar>
      in (if z < 0 then ''-'' else '''') @ str_of_nat (a div 10 ^ d) @
         (if d = 0 then '''' else ''.'' @ zero_pad d (str_of_nat (a mod 10 ^ d))))"

definition fmt_unit :: "string \<Rightarrow> real \<Rightarrow> string" where
  "fmt_unit unit v =
     (let d = (if v \<ge> 100 then 0 else if v \<ge> 10 then 1 else 2) in fixed d (js_round d v) @ '' '' @ unit)"

definition fmt_ms :: "real \<Rightarrow> string" where "fmt_ms = fmt_unit ''ms''"
definition fmt_mb :: "real \<Rightarrow> string" where "fmt_mb = fmt_unit ''MB''"
definition fmt_acc :: "real \<Rightarrow> string" where "fmt_acc v = fixed 1 (js_round 1 v) @ ''%''"

section \<open>The experiment\<close>

record trial_view =
  tv_id :: string
  tv_name :: string
  tv_accuracy :: real
  tv_latency :: real
  tv_size :: real
  tv_score :: real
  tv_quant :: string
  tv_frontier :: bool
  tv_number :: int

record pareto_budget =
  pb_latency :: real
  pb_drop :: real
  pb_size :: real

record pareto_experiment =
  ex_model :: string
  ex_name :: string
  ex_id :: string
  ex_status :: string
  ex_iter_current :: nat
  ex_iter_total :: int
  ex_budget :: pareto_budget
  ex_base_accuracy :: real
  ex_trials :: "trial_view list"
  ex_served :: "int option"

text \<open>\<open>Counter.most_common(1)\<close>: the first value with the highest count.\<close>

definition most_common :: "'a list \<Rightarrow> 'a option" where
  "most_common xs = min_by (\<lambda>x. - int (length (filter (\<lambda>y. y = x) xs))) (rev (remdups (rev xs)))"

definition derive_quant_label :: "(string \<times> compression_config) list \<Rightarrow> string" where
  "derive_quant_label config =
     (let names = map (\<lambda>(_, c). precision_name (cc_precision c)) config;
          avg_prune = sum_list (map (\<lambda>(_, c). cc_prune_ratio c) config) / of_nat (length config)
      in case most_common names of
          None \<Rightarrow> ''FP32 (baseline)''
        | Some dominant \<Rightarrow>
            if set names = {''FP32''} then ''FP32 (baseline)''
            else dominant @ (if length (remdups names) > 1 then ''-mix'' else '''') @
                 (if avg_prune > 0.01 then '' r'' @ fixed 1 (py_round 1 avg_prune) else '''') @
                 (if list_ex (\<lambda>(_, c). cc_fuse c) config then '' +fuse'' else ''''))"

definition clamp :: "real \<Rightarrow> real \<Rightarrow> real \<Rightarrow> real" where
  "clamp x lo hi = max lo (min hi x)"

definition trial_score :: "real \<Rightarrow> real \<Rightarrow> real \<Rightarrow> real \<Rightarrow> real" where
  "trial_score accuracy base_accuracy ratio speedup =
     (let acc_term = clamp (if base_accuracy > 0 then accuracy / base_accuracy else 0) 0 1;
          size_term = clamp (1 - ratio) 0 1;
          speed_term = clamp (1 - 1 / max speedup (1 / 10 ^ 6)) 0 1
      in py_round 1 (100 * (0.5 * acc_term + 0.3 * size_term + 0.2 * speed_term)))"

definition short_name :: "string \<Rightarrow> string" where
  "short_name nm = take 24 (map (\<lambda>c. if c = CHR '' '' then CHR ''-'' else c) (str_lower nm))"

text \<open>The separator is the middle dot, code 183.\<close>

definition trial_name :: "string \<Rightarrow> nat \<Rightarrow> string" where
  "trial_name nm n = short_name nm @ '' '' @ [char_of (183 :: nat)] @ '' #'' @ zero_pad 3 (str_of_nat (n + 1))"

definition view_trial :: "string \<Rightarrow> real \<Rightarrow> nat set \<Rightarrow> pareto_point \<Rightarrow> trial_view" where
  "view_trial nm base_acc frontier_nums p =
     \<lparr>tv_id = ''t_'' @ str_of_nat (pp_trial_number p), tv_name = trial_name nm (pp_trial_number p),
      tv_accuracy = py_round 2 (pp_accuracy p * 100), tv_latency = py_round 3 (pp_latency p),
      tv_size = py_round 3 (of_nat (pp_size p) / 10 ^ 6),
      tv_score = trial_score (pp_accuracy p) base_acc (pp_size_ratio p) (pp_speedup p),
      tv_quant = derive_quant_label (pp_config p), tv_frontier = (pp_trial_number p \<in> frontier_nums),
      tv_number = int (pp_trial_number p)\<rparr>"

definition map_pareto :: "string \<Rightarrow> string \<Rightarrow> string \<Rightarrow> pareto_result \<Rightarrow> string \<Rightarrow> nat option \<Rightarrow> pareto_experiment" where
  "map_pareto model_id nm experiment_id pr status served =
     (let base_acc = (if pr_original_accuracy pr = 0 then 1 / 10 ^ 9 else pr_original_accuracy pr);
          frontier_nums = set (map pp_trial_number (pr_pareto_points pr))
      in \<lparr>ex_model = model_id, ex_name = nm, ex_id = experiment_id, ex_status = status,
          ex_iter_current = length (pr_all_trials pr), ex_iter_total = pr_n_trials pr,
          ex_budget = \<lparr>pb_latency = py_round 2 (max (pr_original_latency pr) 0.5), pb_drop = 5,
                       pb_size = py_round 3 (max (of_nat (pr_original_size pr) / 10 ^ 6) 0.01)\<rparr>,
          ex_base_accuracy = py_round 2 (base_acc * 100),
          ex_trials = map (view_trial nm base_acc frontier_nums) (pr_all_trials pr), ex_served = map_option int served\<rparr>)"

definition baseline_experiment :: "string \<Rightarrow> string \<Rightarrow> string \<Rightarrow> real \<Rightarrow> real \<Rightarrow> real \<Rightarrow> pareto_experiment" where
  "baseline_experiment model_id nm experiment_id size_mb latency quality =
     \<lparr>ex_model = model_id, ex_name = nm, ex_id = experiment_id, ex_status = ''completed'', ex_iter_current = 1, ex_iter_total = 1,
      ex_budget = \<lparr>pb_latency = py_round 2 (max latency 0.5), pb_drop = 5, pb_size = py_round 3 (max size_mb 0.01)\<rparr>,
      ex_base_accuracy = py_round 2 (quality * 100),
      ex_trials = [\<lparr>tv_id = ''t_0'', tv_name = trial_name nm 0, tv_accuracy = py_round 2 (quality * 100),
        tv_latency = py_round 3 latency, tv_size = py_round 3 size_mb, tv_score = 50, tv_quant = ''FP32 (baseline)'',
        tv_frontier = True, tv_number = 0\<rparr>],
      ex_served = Some 0\<rparr>"

section \<open>The scene\<close>

definition AXIS :: real where "AXIS = 4"
definition DIVISIONS :: nat where "DIVISIONS = 4"
definition PAD_FRAC :: real where "PAD_FRAC = 0.06"

datatype title = Best | BestAccuracy | SmallestSize | LowestLatency

definition compute_highlights :: "trial_view list \<Rightarrow> (string \<times> title) list" where
  "compute_highlights trials =
     fold (\<lambda>(category, pick) by_id. case pick of None \<Rightarrow> by_id | Some t \<Rightarrow> AList.update (tv_id t) category by_id)
       [(LowestLatency, min_by tv_latency trials), (SmallestSize, min_by tv_size trials),
        (BestAccuracy, min_by (\<lambda>t. - tv_accuracy t) trials), (Best, min_by (\<lambda>t. - tv_score t) trials)] []"

definition pad :: "real list \<Rightarrow> real \<times> real" where
  "pad xs =
     (if xs = [] then (0, 1)
      else let lo = Min (set xs); hi = Max (set xs); margin = (hi - lo) * PAD_FRAC in (lo - margin, hi + margin))"

definition map_range :: "real \<Rightarrow> real \<times> real \<Rightarrow> real \<Rightarrow> real \<Rightarrow> real" where
  "map_range v domain out_min out_max =
     (let t = (if snd domain - fst domain = 0 then 0.5 else (v - fst domain) / (snd domain - fst domain))
      in out_min + (out_max - out_min) * t)"

record tick =
  tk_position :: real
  tk_value :: real
  tk_label :: string

definition axis_ticks :: "real \<times> real \<Rightarrow> (real \<Rightarrow> string) \<Rightarrow> tick list" where
  "axis_ticks domain fmt =
     map (\<lambda>i. let v = fst domain + (snd domain - fst domain) * of_nat i / of_nat DIVISIONS
              in \<lparr>tk_position = of_nat i * AXIS / of_nat DIVISIONS, tk_value = v, tk_label = fmt v\<rparr>) [0..<DIVISIONS + 1]"

definition title_color :: "title \<Rightarrow> string" where
  "title_color c = (case c of Best \<Rightarrow> ''#FFC857'' | BestAccuracy \<Rightarrow> ''#40BF6B'' | SmallestSize \<Rightarrow> ''#5EEAD4'' | LowestLatency \<Rightarrow> ''#F29926'')"

record scene_point =
  pt_trial :: trial_view
  pt_position :: "real \<times> real \<times> real"
  pt_world :: "real \<times> real \<times> real"
  pt_color :: string
  pt_scale :: real
  pt_title :: "title option"
  pt_dimmed :: bool
  pt_drop :: real
  pt_texts :: "string \<times> string \<times> string \<times> string"     \<comment> \<open>accuracy, latency, size, score\<close>

record pareto_scene =
  ps_constraints :: pareto_budget
  ps_domains :: "(real \<times> real) \<times> (real \<times> real) \<times> (real \<times> real)"
  ps_ticks :: "tick list \<times> tick list \<times> tick list"
  ps_points :: "scene_point list"
  ps_counts :: "nat \<times> nat"

definition in_budget :: "pareto_budget \<Rightarrow> real \<Rightarrow> trial_view \<Rightarrow> bool" where
  "in_budget c base_acc t \<longleftrightarrow> tv_latency t \<le> pb_latency c \<and> base_acc - tv_accuracy t \<le> pb_drop c \<and> tv_size t \<le> pb_size c"

definition scene_point_of ::
  "pareto_budget \<Rightarrow> real \<Rightarrow> (string \<times> title) list \<Rightarrow> (real \<times> real) \<times> (real \<times> real) \<times> (real \<times> real) \<Rightarrow> trial_view \<Rightarrow> scene_point" where
  "scene_point_of c base_acc highlights doms t =
     (case doms of (lat, acc, siz) \<Rightarrow>
       let h = map_of highlights (tv_id t);
           x = map_range (tv_latency t) lat 0 AXIS; y = map_range (tv_accuracy t) acc 0 AXIS; z = map_range (tv_size t) siz 0 AXIS
       in \<lparr>pt_trial = t, pt_position = (x, y, z), pt_world = (x - AXIS / 2, y, z - AXIS / 2),
           pt_color = (case h of Some k \<Rightarrow> title_color k | None \<Rightarrow> if tv_frontier t then ''#E1FF6B'' else ''#ADB4F3''),
           pt_scale = (if h \<noteq> None then 1.8 else if tv_frontier t then 1.4 else 1), pt_title = h,
           pt_dimmed = (h = None \<and> \<not> in_budget c base_acc t), pt_drop = base_acc - tv_accuracy t,
           pt_texts = (fixed 2 (js_round 2 (tv_accuracy t)) @ ''%'', fmt_ms (tv_latency t), fmt_mb (tv_size t),
                       fixed 1 (js_round 1 (tv_score t)))\<rparr>)"

definition or_default :: "'a option \<Rightarrow> 'a \<Rightarrow> 'a" where
  "or_default x d = (case x of None \<Rightarrow> d | Some y \<Rightarrow> y)"

definition build_pareto_scene :: "pareto_experiment \<Rightarrow> real option \<Rightarrow> real option \<Rightarrow> real option \<Rightarrow> pareto_scene" where
  "build_pareto_scene ex max_latency max_accuracy_drop max_size =
     (let trials = ex_trials ex; b = ex_budget ex;
          c = \<lparr>pb_latency = or_default max_latency (pb_latency b), pb_drop = or_default max_accuracy_drop (pb_drop b),
               pb_size = or_default max_size (pb_size b)\<rparr>;
          lat = pad (map tv_latency trials); acc = pad (map tv_accuracy trials); siz = pad (map tv_size trials)
      in \<lparr>ps_constraints = c, ps_domains = (lat, acc, siz),
          ps_ticks = (axis_ticks lat fmt_ms, axis_ticks acc fmt_acc, axis_ticks siz fmt_mb),
          ps_points = map (scene_point_of c (ex_base_accuracy ex) (compute_highlights trials) (lat, acc, siz)) trials,
          ps_counts = (length trials, length (filter tv_frontier trials))\<rparr>)"

section \<open>Scores\<close>

lemma clamp_range: "lo \<le> hi \<Longrightarrow> lo \<le> clamp x lo hi \<and> clamp x lo hi \<le> hi"
  by (auto simp: clamp_def)

lemma trial_score_bounds: "0 \<le> trial_score acc base ratio speedup" "trial_score acc base ratio speedup \<le> 100"
  using clamp_range [of 0 1 "if base > 0 then acc / base else 0"] clamp_range [of 0 1 "1 - ratio"]
    clamp_range [of 0 1 "1 - 1 / max speedup (1 / 10 ^ 6)"]
  unfolding trial_score_def Let_def by (auto intro!: py_round_nonneg py_round_le_numeral simp del: py_round_numeral)

text \<open>A score is between 0 and 100, whatever was measured, and a trial that loses no accuracy, saves size and is faster
  is never scored below one that is worse in all three.\<close>

theorem trial_score_range:
  "0 \<le> trial_score acc base ratio speedup \<and> trial_score acc base ratio speedup \<le> 100 \<and>
   (acc \<le> acc' \<and> ratio' \<le> ratio \<and> speedup \<le> speedup' \<longrightarrow>
      trial_score acc base ratio speedup \<le> trial_score acc' base ratio' speedup')"
proof -
  define t where "t = (\<lambda>a r s :: real. 100 * (0.5 * clamp (if base > 0 then a / base else 0) 0 1 + 0.3 * clamp (1 - r) 0 1
      + 0.2 * clamp (1 - 1 / max s (1 / 10 ^ 6)) 0 1))"
  have score: "trial_score a base r s = py_round 1 (t a r s)" for a r s
    by (simp add: trial_score_def t_def Let_def)
  have mono: "clamp x 0 1 \<le> clamp y 0 1" if "x \<le> y" for x y :: real using that by (auto simp: clamp_def)
  have "t acc ratio speedup \<le> t acc' ratio' speedup'" if le: "acc \<le> acc'" "ratio' \<le> ratio" "speedup \<le> speedup'"
  proof -
    have "(if base > 0 then acc / base else 0) \<le> (if base > 0 then acc' / base else 0)"
      using le(1) by (simp add: divide_right_mono)
    moreover have "1 / max speedup' (1 / 10 ^ 6) \<le> 1 / max speedup (1 / 10 ^ 6)"
      using le(3) by (intro divide_left_mono mult_pos_pos) (auto simp: less_max_iff_disj)
    ultimately have "clamp (if base > 0 then acc / base else 0) 0 1 \<le> clamp (if base > 0 then acc' / base else 0) 0 1"
      "clamp (1 - ratio) 0 1 \<le> clamp (1 - ratio') 0 1"
      "clamp (1 - 1 / max speedup (1 / 10 ^ 6)) 0 1 \<le> clamp (1 - 1 / max speedup' (1 / 10 ^ 6)) 0 1"
      using le(2) by (simp_all only: mono diff_left_mono)
    then show ?thesis unfolding t_def by (intro mult_left_mono add_mono) simp_all
  qed
  then show ?thesis unfolding score
    using trial_score_bounds [of acc base ratio speedup] py_round_mono unfolding score by blast
qed

section \<open>The scene\<close>

lemma pad_bounds:
  assumes "x \<in> set xs"
  shows "fst (pad xs) \<le> x \<and> x \<le> snd (pad xs)"
proof -
  have m: "Min (set xs) \<le> x" "x \<le> Max (set xs)" using assms by simp_all
  then have "0 \<le> (Max (set xs) - Min (set xs)) * PAD_FRAC" by (simp add: PAD_FRAC_def)
  moreover have "xs \<noteq> []" using assms by auto
  ultimately show ?thesis using m by (simp add: pad_def Let_def)
qed

lemma pad_spread: "x \<in> set xs \<Longrightarrow> y \<in> set xs \<Longrightarrow> x < y \<Longrightarrow> fst (pad xs) < snd (pad xs)"
  using pad_bounds [of x xs] pad_bounds [of y xs] by linarith

lemma map_range_le_iff:
  assumes "x \<in> set xs" "y \<in> set xs"
  shows "map_range x (pad xs) 0 AXIS \<le> map_range y (pad xs) 0 AXIS \<longleftrightarrow> x \<le> y"
proof (cases "snd (pad xs) - fst (pad xs) = 0")
  case True
  then have "x = y" using pad_spread [OF assms] pad_spread [OF assms(2,1)] by (cases x y rule: linorder_cases) auto
  then show ?thesis by simp
next
  case False
  then have "0 < snd (pad xs) - fst (pad xs)" using pad_bounds [OF assms(1)] by linarith
  then show ?thesis using False by (simp add: map_range_def Let_def AXIS_def divide_right_mono divide_le_cancel)
qed

lemma map_range_in:
  assumes "fst d \<le> v" "v \<le> snd d"
  shows "0 \<le> map_range v d 0 AXIS \<and> map_range v d 0 AXIS \<le> AXIS"
proof (cases "snd d - fst d = 0")
  case False
  with assms have "0 < snd d - fst d" by linarith
  define q where "q = (v - fst d) / (snd d - fst d)"
  have "0 \<le> q" "q \<le> 1" using \<open>0 < snd d - fst d\<close> assms by (simp_all add: q_def field_simps)
  moreover have "map_range v d 0 AXIS = 4 * q" using False by (simp only: map_range_def AXIS_def Let_def q_def if_False) simp
  ultimately show ?thesis by (simp add: AXIS_def)
qed (simp add: map_range_def AXIS_def)

lemma scene_points:
  "ps_points (build_pareto_scene ex ml md ms) =
     map (scene_point_of (ps_constraints (build_pareto_scene ex ml md ms)) (ex_base_accuracy ex) (compute_highlights (ex_trials ex))
       (pad (map tv_latency (ex_trials ex)), pad (map tv_accuracy (ex_trials ex)), pad (map tv_size (ex_trials ex)))) (ex_trials ex)"
  by (simp add: build_pareto_scene_def Let_def)

lemma title_of:
  assumes "distinct (map tv_id trials)" "t \<in> set trials"
  shows "map_of (compute_highlights trials) (tv_id t) =
    (if min_by (\<lambda>t. - tv_score t) trials = Some t then Some Best
     else if min_by (\<lambda>t. - tv_accuracy t) trials = Some t then Some BestAccuracy
     else if min_by tv_size trials = Some t then Some SmallestSize
     else if min_by tv_latency trials = Some t then Some LowestLatency else None)"
proof -
  have "inj_on tv_id (set trials)" using assms(1) by (simp add: distinct_map)
  then have same: "tv_id t = tv_id u \<longleftrightarrow> u = t" if "u \<in> set trials" for u
    using assms(2) that inj_on_eq_iff by metis
  have ne: "trials \<noteq> []" using assms(2) by auto
  then obtain b a z l where m: "min_by (\<lambda>t. - tv_score t) trials = Some b" "min_by (\<lambda>t. - tv_accuracy t) trials = Some a"
    "min_by tv_size trials = Some z" "min_by tv_latency trials = Some l"
    by (metis min_by_None not_None_eq)
  note on = m [THEN min_by_in, THEN conjunct1, THEN same]
  show ?thesis unfolding m by (simp add: compute_highlights_def m update_conv' on)
qed

lemma titles_are_won:
  assumes "distinct (map tv_id trials)" "t \<in> set trials" "u \<in> set trials"
  shows "map_of (compute_highlights trials) (tv_id t) = Some Best \<Longrightarrow> tv_score u \<le> tv_score t"
    and "map_of (compute_highlights trials) (tv_id t) = Some BestAccuracy \<Longrightarrow> tv_accuracy u \<le> tv_accuracy t"
    and "map_of (compute_highlights trials) (tv_id t) = Some SmallestSize \<Longrightarrow> tv_size t \<le> tv_size u"
    and "map_of (compute_highlights trials) (tv_id t) = Some LowestLatency \<Longrightarrow> tv_latency t \<le> tv_latency u"
  unfolding title_of [OF assms(1,2)] using assms(3) by (auto dest!: min_by_in split: if_splits)

lemma titles_are_given:
  assumes "distinct (map tv_id trials)" "trials \<noteq> []"
  obtains b a z l where "{b, a, z, l} \<subseteq> set trials" "map_of (compute_highlights trials) (tv_id b) = Some Best"
    "\<forall>u \<in> set trials. tv_accuracy u \<le> tv_accuracy a" "map_of (compute_highlights trials) (tv_id a) \<in> {Some Best, Some BestAccuracy}"
    "\<forall>u \<in> set trials. tv_size z \<le> tv_size u" "map_of (compute_highlights trials) (tv_id z) \<in> {Some Best, Some BestAccuracy, Some SmallestSize}"
    "\<forall>u \<in> set trials. tv_latency l \<le> tv_latency u" "map_of (compute_highlights trials) (tv_id l) \<noteq> None"
proof -
  obtain b a z l where m: "min_by (\<lambda>t. - tv_score t) trials = Some b" "min_by (\<lambda>t. - tv_accuracy t) trials = Some a"
    "min_by tv_size trials = Some z" "min_by tv_latency trials = Some l"
    using assms(2) by (metis min_by_None not_None_eq)
  note i = m [THEN min_by_in]
  note t = title_of [OF assms(1), of b] title_of [OF assms(1), of a] title_of [OF assms(1), of z] title_of [OF assms(1), of l]
  show thesis by (rule that [of b a z l]) (use i t m in auto)
qed

lemma scene_pointsD:
  assumes "p \<in> set (ps_points (build_pareto_scene ex ml md ms))"
  shows "pt_trial p \<in> set (ex_trials ex)"
    "p = scene_point_of (ps_constraints (build_pareto_scene ex ml md ms))
      (ex_base_accuracy ex) (compute_highlights (ex_trials ex))
      (pad (map tv_latency (ex_trials ex)), pad (map tv_accuracy (ex_trials ex)), pad (map tv_size (ex_trials ex))) (pt_trial p)"
  using assms unfolding scene_points by (auto simp: scene_point_of_def Let_def)

lemma scene_position:
  assumes "p \<in> set (ps_points (build_pareto_scene ex ml md ms))"
  shows "pt_position p = (map_range (tv_latency (pt_trial p)) (pad (map tv_latency (ex_trials ex))) 0 AXIS,
    map_range (tv_accuracy (pt_trial p)) (pad (map tv_accuracy (ex_trials ex))) 0 AXIS,
    map_range (tv_size (pt_trial p)) (pad (map tv_size (ex_trials ex))) 0 AXIS)"
  "pt_title p = map_of (compute_highlights (ex_trials ex)) (tv_id (pt_trial p))"
  by (subst scene_pointsD(2) [OF assms], simp add: scene_point_of_def Let_def)+

text \<open>The position of a point lies in the box of the axes and orders the trials by latency, accuracy and size.\<close>

lemma scene_axes:
  assumes "p \<in> set (ps_points (build_pareto_scene ex ml md ms))" "q \<in> set (ps_points (build_pareto_scene ex ml md ms))"
    and "pt_position p = (x, y, z)" "pt_position q = (x', y', z')"
  shows "x \<in> {0..AXIS} \<and> y \<in> {0..AXIS} \<and> z \<in> {0..AXIS} \<and>
    (x \<le> x' \<longleftrightarrow> tv_latency (pt_trial p) \<le> tv_latency (pt_trial q)) \<and>
    (y \<le> y' \<longleftrightarrow> tv_accuracy (pt_trial p) \<le> tv_accuracy (pt_trial q)) \<and>
    (z \<le> z' \<longleftrightarrow> tv_size (pt_trial p) \<le> tv_size (pt_trial q))"
proof -
  have i: "f (pt_trial p) \<in> set (map f (ex_trials ex))" "f (pt_trial q) \<in> set (map f (ex_trials ex))" for f :: "trial_view \<Rightarrow> real"
    using scene_pointsD(1) [OF assms(1)] scene_pointsD(1) [OF assms(2)] by simp_all
  have eq: "x = map_range (tv_latency (pt_trial p)) (pad (map tv_latency (ex_trials ex))) 0 AXIS"
    "y = map_range (tv_accuracy (pt_trial p)) (pad (map tv_accuracy (ex_trials ex))) 0 AXIS"
    "z = map_range (tv_size (pt_trial p)) (pad (map tv_size (ex_trials ex))) 0 AXIS"
    "x' = map_range (tv_latency (pt_trial q)) (pad (map tv_latency (ex_trials ex))) 0 AXIS"
    "y' = map_range (tv_accuracy (pt_trial q)) (pad (map tv_accuracy (ex_trials ex))) 0 AXIS"
    "z' = map_range (tv_size (pt_trial q)) (pad (map tv_size (ex_trials ex))) 0 AXIS"
    using scene_position(1) [OF assms(1)] scene_position(1) [OF assms(2)] assms(3,4) by simp_all
  have in_box: "map_range v (pad xs) 0 AXIS \<in> {0..AXIS}" if "v \<in> set xs" for v xs
    using map_range_in [of "pad xs" v] pad_bounds [OF that] by simp
  show ?thesis unfolding eq using in_box i map_range_le_iff [OF i] by blast
qed

lemma scene_dimmed:
  assumes "p \<in> set (ps_points (build_pareto_scene ex ml md ms))"
  shows "pt_dimmed p \<longleftrightarrow> pt_title p = None \<and>
      (tv_latency (pt_trial p) > (case ml of Some v \<Rightarrow> v | None \<Rightarrow> pb_latency (ex_budget ex)) \<or>
       tv_size (pt_trial p) > (case ms of Some v \<Rightarrow> v | None \<Rightarrow> pb_size (ex_budget ex)) \<or>
       ex_base_accuracy ex - tv_accuracy (pt_trial p) > (case md of Some v \<Rightarrow> v | None \<Rightarrow> pb_drop (ex_budget ex)))"
proof -
  have "pt_dimmed p \<longleftrightarrow> pt_title p = None \<and>
      \<not> in_budget (ps_constraints (build_pareto_scene ex ml md ms)) (ex_base_accuracy ex) (pt_trial p)"
    by (subst (1 2) scene_pointsD(2) [OF assms]) (simp add: scene_point_of_def Let_def)
  then show ?thesis by (auto simp: in_budget_def build_pareto_scene_def or_default_def Let_def split: option.split)
qed

lemma scene_trials: "map pt_trial (ps_points (build_pareto_scene ex ml md ms)) = ex_trials ex"
  by (simp add: scene_points scene_point_of_def Let_def comp_def)

lemma scene_point_of_trial: "t \<in> set (ex_trials ex) \<Longrightarrow> \<exists>p \<in> set (ps_points (build_pareto_scene ex ml md ms)). pt_trial p = t"
  unfolding scene_trials [of ex ml md ms, symmetric] by force

lemma scene_titles_given:
  assumes "distinct (map tv_id (ex_trials ex))" "ex_trials ex \<noteq> []" "pts = ps_points (build_pareto_scene ex ml md ms)"
  shows "\<exists>b \<in> set pts. pt_title b = Some Best"
    and "\<exists>a \<in> set pts. (\<forall>t \<in> set (ex_trials ex). tv_accuracy t \<le> tv_accuracy (pt_trial a)) \<and> pt_title a \<in> {Some Best, Some BestAccuracy}"
    and "\<exists>z \<in> set pts. (\<forall>t \<in> set (ex_trials ex). tv_size (pt_trial z) \<le> tv_size t) \<and>
           pt_title z \<in> {Some Best, Some BestAccuracy, Some SmallestSize}"
    and "\<exists>l \<in> set pts. (\<forall>t \<in> set (ex_trials ex). tv_latency (pt_trial l) \<le> tv_latency t) \<and> pt_title l \<noteq> None"
proof -
  obtain b a z l where t: "{b, a, z, l} \<subseteq> set (ex_trials ex)" and won: "map_of (compute_highlights (ex_trials ex)) (tv_id b) = Some Best"
    "\<forall>u \<in> set (ex_trials ex). tv_accuracy u \<le> tv_accuracy a" "map_of (compute_highlights (ex_trials ex)) (tv_id a) \<in> {Some Best, Some BestAccuracy}"
    "\<forall>u \<in> set (ex_trials ex). tv_size z \<le> tv_size u" "map_of (compute_highlights (ex_trials ex)) (tv_id z) \<in> {Some Best, Some BestAccuracy, Some SmallestSize}"
    "\<forall>u \<in> set (ex_trials ex). tv_latency l \<le> tv_latency u" "map_of (compute_highlights (ex_trials ex)) (tv_id l) \<noteq> None"
    by (rule titles_are_given [OF assms(1,2)])
  have p: "\<exists>p \<in> set pts. pt_trial p = u \<and> pt_title p = map_of (compute_highlights (ex_trials ex)) (tv_id u)"
    if "u \<in> {b, a, z, l}" for u
  proof -
    have "u \<in> set (ex_trials ex)" using t that by auto
    from scene_point_of_trial [OF this] show ?thesis using scene_position(2) unfolding assms(3) by fast
  qed
  obtain pb pa pz pl where "pb \<in> set pts" "pt_title pb = Some Best"
    "pa \<in> set pts" "pt_trial pa = a" "pt_title pa \<in> {Some Best, Some BestAccuracy}"
    "pz \<in> set pts" "pt_trial pz = z" "pt_title pz \<in> {Some Best, Some BestAccuracy, Some SmallestSize}"
    "pl \<in> set pts" "pt_trial pl = l" "pt_title pl \<noteq> None"
    using p [of b] p [of a] p [of z] p [of l] won(1,3,5,7) by (simp only: insert_iff simp_thms) metis
  with won(2,4,6) show "\<exists>b \<in> set pts. pt_title b = Some Best"
    "\<exists>a \<in> set pts. (\<forall>t \<in> set (ex_trials ex). tv_accuracy t \<le> tv_accuracy (pt_trial a)) \<and> pt_title a \<in> {Some Best, Some BestAccuracy}"
    "\<exists>z \<in> set pts. (\<forall>t \<in> set (ex_trials ex). tv_size (pt_trial z) \<le> tv_size t) \<and>
           pt_title z \<in> {Some Best, Some BestAccuracy, Some SmallestSize}"
    "\<exists>l \<in> set pts. (\<forall>t \<in> set (ex_trials ex). tv_latency (pt_trial l) \<le> tv_latency t) \<and> pt_title l \<noteq> None"
    by blast+
qed

text \<open>C40: The scene is faithful to the experiment.  It shows every trial once and in order, each inside the box of the
  axes; of two trials the one further along the first axis is the slower, along the second the more accurate, along the
  third the larger one.  A trial is dimmed exactly when it holds no title and its latency or its size is over the limit
  or it loses more accuracy than allowed, the limits being the ones asked for and otherwise the experiment's budget.
  When the trials have different ids, a trial titled best, most accurate, smallest or fastest is that among all trials, and when there
  are trials the one with the highest score is titled best, a most accurate one best or most accurate, a
  smallest one one of these or smallest, and a fastest one holds a title.\<close>

theorem pareto_scene_faithful:
  assumes "pts = ps_points (build_pareto_scene ex ml md ms)"
  shows "map pt_trial pts = ex_trials ex \<and>
   (\<forall>p \<in> set pts. \<forall>q \<in> set pts. \<forall>x y z x' y' z'. pt_position p = (x, y, z) \<and> pt_position q = (x', y', z') \<longrightarrow>
      x \<in> {0..AXIS} \<and> y \<in> {0..AXIS} \<and> z \<in> {0..AXIS} \<and>
      (x \<le> x' \<longleftrightarrow> tv_latency (pt_trial p) \<le> tv_latency (pt_trial q)) \<and>
      (y \<le> y' \<longleftrightarrow> tv_accuracy (pt_trial p) \<le> tv_accuracy (pt_trial q)) \<and>
      (z \<le> z' \<longleftrightarrow> tv_size (pt_trial p) \<le> tv_size (pt_trial q))) \<and>
   (\<forall>p \<in> set pts. pt_dimmed p \<longleftrightarrow> pt_title p = None \<and>
      (tv_latency (pt_trial p) > (case ml of Some v \<Rightarrow> v | None \<Rightarrow> pb_latency (ex_budget ex)) \<or>
       tv_size (pt_trial p) > (case ms of Some v \<Rightarrow> v | None \<Rightarrow> pb_size (ex_budget ex)) \<or>
       ex_base_accuracy ex - tv_accuracy (pt_trial p) > (case md of Some v \<Rightarrow> v | None \<Rightarrow> pb_drop (ex_budget ex)))) \<and>
   (distinct (map tv_id (ex_trials ex)) \<longrightarrow>
      (\<forall>p \<in> set pts. \<forall>t \<in> set (ex_trials ex).
         (pt_title p = Some Best \<longrightarrow> tv_score t \<le> tv_score (pt_trial p)) \<and>
         (pt_title p = Some BestAccuracy \<longrightarrow> tv_accuracy t \<le> tv_accuracy (pt_trial p)) \<and>
         (pt_title p = Some SmallestSize \<longrightarrow> tv_size (pt_trial p) \<le> tv_size t) \<and>
         (pt_title p = Some LowestLatency \<longrightarrow> tv_latency (pt_trial p) \<le> tv_latency t)) \<and>
      (ex_trials ex \<noteq> [] \<longrightarrow>
         (\<exists>b \<in> set pts. pt_title b = Some Best) \<and>
         (\<exists>a \<in> set pts. (\<forall>t \<in> set (ex_trials ex). tv_accuracy t \<le> tv_accuracy (pt_trial a)) \<and>
            pt_title a \<in> {Some Best, Some BestAccuracy}) \<and>
         (\<exists>z \<in> set pts. (\<forall>t \<in> set (ex_trials ex). tv_size (pt_trial z) \<le> tv_size t) \<and>
            pt_title z \<in> {Some Best, Some BestAccuracy, Some SmallestSize}) \<and>
         (\<exists>l \<in> set pts. (\<forall>t \<in> set (ex_trials ex). tv_latency (pt_trial l) \<le> tv_latency t) \<and> pt_title l \<noteq> None)))"
proof (intro conjI, goal_cases)
  case 1 show ?case unfolding assms by (rule scene_trials)
next
  case 2 show ?case unfolding assms using scene_axes by blast
next
  case 3 show ?case unfolding assms using scene_dimmed by blast
next
  case 4
  have won: "distinct (map tv_id (ex_trials ex)) \<Longrightarrow> p \<in> set pts \<Longrightarrow> t \<in> set (ex_trials ex) \<Longrightarrow>
         (pt_title p = Some Best \<longrightarrow> tv_score t \<le> tv_score (pt_trial p)) \<and>
         (pt_title p = Some BestAccuracy \<longrightarrow> tv_accuracy t \<le> tv_accuracy (pt_trial p)) \<and>
         (pt_title p = Some SmallestSize \<longrightarrow> tv_size (pt_trial p) \<le> tv_size t) \<and>
         (pt_title p = Some LowestLatency \<longrightarrow> tv_latency (pt_trial p) \<le> tv_latency t)" for p t
    using titles_are_won [of "ex_trials ex" "pt_trial p" t] scene_position(2) [of p ex ml md ms] scene_pointsD(1) [of p ex ml md ms]
    unfolding assms by simp
  show ?case using won scene_titles_given [OF _ _ assms] by blast
qed

text \<open>The experiment mirrors the search: one row per recorded trial in order, marked as on the frontier exactly
  when the search returned its number among the Pareto points, with a score in range.\<close>

theorem pareto_mapping_mirrors_search:
  "map tv_number (ex_trials (map_pareto m nm i pr st served)) = map (int \<circ> pp_trial_number) (pr_all_trials pr) \<and>
   (\<forall>t \<in> set (ex_trials (map_pareto m nm i pr st served)).
      (tv_frontier t \<longleftrightarrow> tv_number t \<in> int ` pp_trial_number ` set (pr_pareto_points pr)) \<and> 0 \<le> tv_score t \<and> tv_score t \<le> 100)"
proof (intro conjI ballI)
  fix t assume "t \<in> set (ex_trials (map_pareto m nm i pr st served))"
  then obtain p base where t: "t = view_trial nm base (set (map pp_trial_number (pr_pareto_points pr))) p"
    by (auto simp: map_pareto_def Let_def)
  show "tv_frontier t \<longleftrightarrow> tv_number t \<in> int ` pp_trial_number ` set (pr_pareto_points pr)"
    by (auto simp: t view_trial_def)
  show "0 \<le> tv_score t" "tv_score t \<le> 100" by (simp_all add: t view_trial_def trial_score_bounds)
qed (simp add: map_pareto_def Let_def view_trial_def)

section \<open>Examples\<close>

text \<open>Four trials: the best one, a smaller and a faster one, and one that is over the limits.\<close>

definition demo_trial :: "string \<Rightarrow> real \<Rightarrow> real \<Rightarrow> real \<Rightarrow> trial_view" where
  "demo_trial i a l z = \<lparr>tv_id = i, tv_name = ''net'', tv_accuracy = a, tv_latency = l, tv_size = z, tv_score = a,
     tv_quant = ''INT8'', tv_frontier = False, tv_number = 0\<rparr>"

definition four_trials :: pareto_experiment where
  "four_trials = \<lparr>ex_model = ''m'', ex_name = ''net'', ex_id = ''exp_r'', ex_status = ''completed'', ex_iter_current = 4, ex_iter_total = 4,
     ex_budget = \<lparr>pb_latency = 2, pb_drop = 5, pb_size = 9\<rparr>, ex_base_accuracy = 92,
     ex_trials = [demo_trial ''t_0'' 90 2 8, demo_trial ''t_1'' 89 2 4, demo_trial ''t_2'' 89 1 9, demo_trial ''t_3'' 80 3 8],
     ex_served = None\<rparr>"

theorem pareto_scene_faithful_witness:
  "\<exists>p0 p1 p2 p3. ps_points (build_pareto_scene four_trials None (Some 20) None) = [p0, p1, p2, p3] \<and>
     pt_title p0 = Some Best \<and> \<not> pt_dimmed p1 \<and> \<not> pt_dimmed p2 \<and> pt_dimmed p3 \<and>
     fst (pt_position p2) < fst (pt_position p0)"
proof -
  obtain pts where pts: "pts = ps_points (build_pareto_scene four_trials None (Some 20) None)" by blast
  note f = pareto_scene_faithful [OF pts]
  have "map pt_trial pts = [demo_trial ''t_0'' 90 2 8, demo_trial ''t_1'' 89 2 4, demo_trial ''t_2'' 89 1 9, demo_trial ''t_3'' 80 3 8]"
    using f by (simp add: four_trials_def)
  then obtain p0 p1 p2 p3 where p: "pts = [p0, p1, p2, p3]" "pt_trial p0 = demo_trial ''t_0'' 90 2 8"
    "pt_trial p1 = demo_trial ''t_1'' 89 2 4" "pt_trial p2 = demo_trial ''t_2'' 89 1 9" "pt_trial p3 = demo_trial ''t_3'' 80 3 8"
    by (auto simp: map_eq_Cons_conv)
  have id: "distinct (map tv_id (ex_trials four_trials))" "ex_trials four_trials \<noteq> []"
    by (simp_all add: four_trials_def demo_trial_def)
  note won = f [THEN conjunct2, THEN conjunct2, THEN conjunct2, rule_format, OF id(1)]
  have "pt_title p3 \<noteq> Some k" for k
    using won [THEN conjunct1] by (cases k) (simp_all add: p four_trials_def demo_trial_def)
  moreover have "pt_title p1 \<noteq> Some Best" "pt_title p2 \<noteq> Some Best"
    using won [THEN conjunct1] by (simp_all add: p four_trials_def demo_trial_def)
  moreover have "pt_title p1 \<noteq> None" "pt_title p2 \<noteq> None" "\<exists>b \<in> set pts. pt_title b = Some Best"
    using won [THEN conjunct2] id(2) by (auto simp: p four_trials_def demo_trial_def)
  ultimately have t: "pt_title p3 = None" "pt_title p1 \<noteq> None" "pt_title p2 \<noteq> None" "pt_title p0 = Some Best"
    by (auto simp: p(1))
  have "pt_dimmed p3 \<and> \<not> pt_dimmed p1 \<and> \<not> pt_dimmed p2"
    using f [THEN conjunct2, THEN conjunct2, THEN conjunct1] t(1-3) by (simp add: p four_trials_def demo_trial_def)
  moreover obtain x y z x' y' z' where at: "pt_position p0 = (x, y, z)" "pt_position p2 = (x', y', z')"
    by (metis prod_cases3)
  have "p0 \<in> set pts" "p2 \<in> set pts" by (simp_all add: p(1))
  from f [THEN conjunct2, THEN conjunct1, rule_format, OF this conjI [OF at]] have "\<not> x \<le> x'"
    by (simp add: p(2,4) demo_trial_def)
  ultimately show ?thesis using t(4) p(1) at unfolding pts by auto
qed

theorem trial_score_range_witness: "trial_score 0.8 1 0.5 1 \<le> trial_score 0.9 1 0.4 2"
  using trial_score_range [of "0.8" 1 "0.5" 1 "0.9" "0.4" 2] by simp

theorem pareto_mapping_mirrors_search_witness:
  "map tv_number (ex_trials (map_pareto ''m'' ''net'' ''e''
     \<lparr>pr_pareto_points = [demo_point 0 1 50], pr_all_trials = [demo_point 0 1 50, demo_point 1 (1 / 2) 100], pr_original_accuracy = 1,
      pr_original_size = 100, pr_original_latency = 1, pr_n_trials = 2, pr_effective_dim = 1, pr_complexity_bits = 1,
      pr_n_trials_completed = 2, pr_stopped_early = False\<rparr> ''completed'' None)) = [0, 1]"
  by (simp add: pareto_mapping_mirrors_search [THEN conjunct1] demo_point_def)

end
