(* ===== verification/Calibration.thy ===== *)
theory Calibration
  imports Onnx_Runtime Model_Detector
begin

text \<open>
  The generator of calibration probes, \<open>astra/core/calibration_generator.py\<close>.  numpy's generator is a
  state with two draws, standard normal and uniform numbers; the rounding of the draws to float32 is left
  out.  The lemmas show how many probes there are, what they feed and that the returned ones are clean.
\<close>

section \<open>The first weight\<close>

type_synonym weight = "nat list \<times> real list"      \<comment> \<open>shape and row-major values\<close>

definition weight_of :: "graph \<Rightarrow> string \<Rightarrow> weight option" where
  "weight_of g nm = map_option (\<lambda>t. (t_shape t, t_data t)) (find (\<lambda>t. t_name t = nm) (rev (g_inits g)))"

text \<open>An input of the node that flows: a model input or an output of some node.\<close>

definition flows_in :: "graph \<Rightarrow> node_proto \<Rightarrow> bool" where
  "flows_in g nd \<longleftrightarrow>
     list_ex (\<lambda>i. i \<in> set (filter (\<lambda>x. weight_of g x = None) (map vi_name (g_inputs g))) \<or>
                  list_ex (\<lambda>n. i \<in> set (n_outputs n)) (g_nodes g)) (n_inputs nd)"

definition matrix_weight :: "graph \<Rightarrow> node_proto \<Rightarrow> weight option" where
  "matrix_weight g nd =
     (if n_op_type nd \<in> {''MatMul'', ''Gemm'', ''Conv'', ''Linear''} \<and> flows_in g nd
      then (case List.map_filter (weight_of g) (n_inputs nd) of w # _ \<Rightarrow> Some w | [] \<Rightarrow> None) else None)"

definition n_classes_attr :: "(string \<times> attr_value) list \<Rightarrow> nat option" where
  "n_classes_attr attrs =
     fold (\<lambda>(nm, v) n.
        if nm = ''classlabels_int64s'' then Some (case v of AInts xs \<Rightarrow> length xs | _ \<Rightarrow> 0)
        else if nm = ''classlabels_strings'' then Some (case v of AStrings xs \<Rightarrow> length xs | _ \<Rightarrow> 0)
        else n) attrs None"

definition linear_weight :: "node_proto \<Rightarrow> weight result option" where
  "linear_weight nd =
     (if n_op_type nd \<in> {''LinearClassifier'', ''LinearRegressor''}
      then (case List.map_filter (\<lambda>(nm, v). if nm = ''coefficients'' then (case v of AFloats (x # xs) \<Rightarrow> Some (x # xs) | _ \<Rightarrow> None) else None)
                   (n_attrs nd) of
          [] \<Rightarrow> None
        | vals # _ \<Rightarrow> Some
            (case n_classes_attr (n_attrs nd) of
               Some (Suc k) \<Rightarrow>
                 (let rows = Suc k; cols = length vals div rows in
                  if rows * cols = length vals then ok ([rows, cols], vals) else raise (ValueError ''cannot reshape array''))
             | _ \<Rightarrow> ok ([1, length vals], vals)))
      else None)"

fun find_first_weight :: "graph \<Rightarrow> node_proto list \<Rightarrow> weight option result" where
  "find_first_weight g [] = ok None"
| "find_first_weight g (nd # nds) =
     (case matrix_weight g nd of
        Some w \<Rightarrow> ok (Some w)
      | None \<Rightarrow> (case linear_weight nd of Some r \<Rightarrow> bind_result r (\<lambda>w. ok (Some w)) | None \<Rightarrow> find_first_weight g nds))"

section \<open>Input scales\<close>

definition np_std :: "real list \<Rightarrow> py_float" where
  "np_std xs =
     (if xs = [] then NaN
      else let m = sum_list xs / of_nat (length xs)
           in Fin (sqrt (sum_list (map (\<lambda>x. (x - m)\<^sup>2) xs) / of_nat (length xs))))"

definition input_scale :: "real list \<Rightarrow> py_float" where
  "input_scale xs = pf_clip 0.01 1000 (pf_div (Fin 1) (pf_add (np_std xs) (Fin (1 / 10 ^ 8))))"

text \<open>The groups of values whose spread is measured, one per feature.\<close>

definition feature_groups :: "weight \<Rightarrow> real list list option" where
  "feature_groups w =
     (let val = (\<lambda>k. snd w ! k) in
      case (if length (fst w) = 1 then 1 # fst w else fst w) of
        [r, c] \<Rightarrow> Some (if r > c then map (\<lambda>i. map (\<lambda>j. val (i * c + j)) [0..<c]) [0..<r]
                       else map (\<lambda>j. map (\<lambda>i. val (i * c + j)) [0..<r]) [0..<c])
      | [co, ci, h, k] \<Rightarrow>
          Some (map (\<lambda>j. concat (map (\<lambda>a. map (\<lambda>l. val ((a * ci + j) * (h * k) + l)) [0..<h * k]) [0..<co])) [0..<ci])
      | _ \<Rightarrow> None)"

definition estimate_input_scales :: "weight option \<Rightarrow> py_float list option" where
  "estimate_input_scales w =
     (case w of None \<Rightarrow> None | Some x \<Rightarrow> map_option (map input_scale) (feature_groups x))"

section \<open>Probes\<close>

record 'r draws =
  dr_normal :: "nat \<Rightarrow> 'r \<Rightarrow> py_float list \<times> 'r"
  dr_uniform :: "real \<Rightarrow> real \<Rightarrow> nat \<Rightarrow> 'r \<Rightarrow> py_float list \<times> 'r"

text \<open>\<open>k\<close> draws in a row, each turned into a probe.\<close>

fun repeat_draw :: "nat \<Rightarrow> ('r \<Rightarrow> py_float list \<times> 'r) \<Rightarrow> 'r \<Rightarrow> py_float list list \<times> 'r" where
  "repeat_draw 0 f r = ([], r)"
| "repeat_draw (Suc k) f r = (let (x, r1) = f r; (xs, r2) = repeat_draw k f r1 in (x # xs, r2))"

definition scaled :: "py_float list \<Rightarrow> py_float list \<Rightarrow> py_float list" where
  "scaled scale x = map2 pf_mul x scale"

definition on_draw :: "('a \<Rightarrow> 'b) \<Rightarrow> ('r \<Rightarrow> 'a \<times> 'r) \<Rightarrow> 'r \<Rightarrow> 'b \<times> 'r" where
  "on_draw h f r = (let (x, r1) = f r in (h x, r1))"

definition tabular_scale :: "nat \<Rightarrow> py_float list option \<Rightarrow> py_float list" where
  "tabular_scale n_elems scales =
     (case scales of Some raw \<Rightarrow> if length raw = n_elems then raw else replicate n_elems (Fin 1) | None \<Rightarrow> replicate n_elems (Fin 1))"

definition generate_tabular_probes :: "'r draws \<Rightarrow> nat \<Rightarrow> nat list \<Rightarrow> py_float list option \<Rightarrow> 'r \<Rightarrow> py_float list list \<times> 'r" where
  "generate_tabular_probes dr n batch_shape scales r =
     (let n_elems = prod_list batch_shape; scale = tabular_scale n_elems scales;
          (normals, r1) = repeat_draw (n div 2) (on_draw (scaled scale) (dr_normal dr n_elems)) r;
          (uniforms, r2) = repeat_draw (n div 4) (on_draw (scaled scale) (dr_uniform dr (- 3) 3 n_elems)) r1;
          n_edge = n - (length normals + length uniforms);
          (edges, r3) = repeat_draw (n_edge - 2)
             (on_draw (\<lambda>x. map (\<lambda>y. pf_mul y (Fin 0.3)) (scaled scale x)) (dr_normal dr n_elems)) r2
      in (take n (normals @ uniforms @ [replicate n_elems (Fin 0), replicate n_elems (Fin 0.5)] @ edges), r3))"

definition generate_image_probes :: "'r draws \<Rightarrow> nat \<Rightarrow> nat list \<Rightarrow> 'r \<Rightarrow> py_float list list \<times> 'r" where
  "generate_image_probes dr n batch_shape r =
     (let n_elems = prod_list batch_shape;
          (normals, r1) = repeat_draw (n div 2) (dr_normal dr n_elems) r;
          (uniforms, r2) = repeat_draw (n div 4) (dr_uniform dr 0 1 n_elems) r1;
          remaining = n - (length normals + length uniforms + 2);
          (rest, r3) = repeat_draw remaining (on_draw (map (\<lambda>y. pf_mul y (Fin 0.5))) (dr_normal dr n_elems)) r2
      in (take n (normals @ uniforms @ [replicate n_elems (Fin 0), replicate n_elems (Fin 1)] @ rest), r3))"

text \<open>A probe is kept when the model runs on it and no array output has a NaN or an infinity;
  \<open>np.isnan\<close> raises on an array of strings, which counts as a failed run.\<close>

fun array_is_clean :: "out_val \<Rightarrow> bool" where
  "array_is_clean (OArr a) = list_all (\<lambda>x. \<not> pf_isnan x \<and> \<not> pf_isinf x) (nd_data a)"
| "array_is_clean (OStrings _) = False"
| "array_is_clean _ = True"

definition clean_probe :: "ort \<Rightarrow> graph \<Rightarrow> feed \<Rightarrow> bool" where
  "clean_probe ort g p =
     (case ort_run ort g (ort_outputs ort g) p of None \<Rightarrow> False | Some outs \<Rightarrow> list_all array_is_clean outs)"

definition validate_probes :: "ort \<Rightarrow> graph \<Rightarrow> feed list \<Rightarrow> feed list" where
  "validate_probes ort g probes =
     (if \<not> ort_load ort g then probes
      else let valid = filter (clean_probe ort g) probes in if valid \<noteq> [] then valid else take 1 probes)"

record calibration_info =
  ci_probes :: "feed list"
  ci_strategy :: string
  ci_scales :: "py_float list option"
  ci_n :: nat

definition batch_shape_of :: "int list \<Rightarrow> nat list" where
  "batch_shape_of ds = map (\<lambda>d. if d \<le> 0 then 1 else nat d) ds"

definition generate ::
  "ort \<Rightarrow> 'r draws \<Rightarrow> 'r \<Rightarrow> nat \<Rightarrow> graph \<Rightarrow> (string \<times> int list) list \<Rightarrow> architecture option \<Rightarrow> calibration_info result" where
  "generate ort dr rng n g spec arch =
     bind_result (find_first_weight g (g_nodes g)) (\<lambda>w.
       let scales = estimate_input_scales w in
       case spec of
         [] \<Rightarrow> raise (RuntimeError ''StopIteration'')
       | (input_name, dims) # _ \<Rightarrow>
           (let shape = batch_shape_of dims; is_image = (arch = Some CNN \<or> length shape = 4);
                data = fst (if is_image then generate_image_probes dr n shape rng
                            else generate_tabular_probes dr n shape scales rng);
                probes = validate_probes ort g (map (\<lambda>x. [(input_name, float_array shape x)]) data)
            in ok \<lparr>ci_probes = probes, ci_strategy = (if is_image then ''image'' else ''tabular''),
                   ci_scales = scales, ci_n = length probes\<rparr>))"

section \<open>How many probes, and what they feed\<close>

definition draws_sized :: "'r draws \<Rightarrow> bool" where
  "draws_sized dr \<longleftrightarrow>
     (\<forall>n r. length (fst (dr_normal dr n r)) = n) \<and> (\<forall>a b n r. length (fst (dr_uniform dr a b n r)) = n)"

lemma length_repeat_draw [simp]: "length (fst (repeat_draw k f r)) = k"
  by (induction k arbitrary: r) (simp_all add: Let_def case_prod_beta')

lemma repeat_draw_lengths:
  "(\<And>r. length (fst (f r)) = l) \<Longrightarrow> \<forall>x \<in> set (fst (repeat_draw k f r)). length x = l"
  by (induction k arbitrary: r) (auto simp: Let_def case_prod_beta')

text \<open>Some draws, two constants and the rest make at least \<open>n\<close>.\<close>

lemma probe_mix:
  assumes "length a = i" "length b = j" "length c = 2" "length e = n - (i + j + 2)" and "\<forall>x \<in> set (a @ b @ c @ e). length x = l"
  shows "length (take n (a @ b @ c @ e)) = n \<and> (\<forall>x \<in> set (take n (a @ b @ c @ e)). length x = l)"
proof -
  have "n \<le> length (a @ b @ c @ e)" using assms(1-4) by simp
  then show ?thesis using assms(5) by (auto dest: in_set_takeD)
qed

lemma fst_on_draw [simp]: "fst (on_draw h f r) = h (fst (f r))"
  by (simp add: on_draw_def case_prod_beta' Let_def)

lemma length_tabular_scale [simp]: "length (tabular_scale n_elems scales) = n_elems"
  by (simp add: tabular_scale_def split: option.split)

lemma length_scaled [simp]: "length (scaled scale x) = min (length x) (length scale)"
  by (simp add: scaled_def)

lemma tabular_probes:
  assumes "draws_sized dr"
  shows "length (fst (generate_tabular_probes dr n shape scales r)) = n \<and>
    (\<forall>x \<in> set (fst (generate_tabular_probes dr n shape scales r)). length x = prod_list shape)"
proof -
  have d: "length (fst (dr_normal dr k q)) = k" "length (fst (dr_uniform dr u v k q)) = k" for u v k q
    using assms by (simp_all add: draws_sized_def)
  obtain r1 r2 where eq: "fst (generate_tabular_probes dr n shape scales r) = take n
      (fst (repeat_draw (n div 2) (on_draw (scaled (tabular_scale (prod_list shape) scales)) (dr_normal dr (prod_list shape))) r) @
       fst (repeat_draw (n div 4) (on_draw (scaled (tabular_scale (prod_list shape) scales)) (dr_uniform dr (- 3) 3 (prod_list shape))) r1) @
       [replicate (prod_list shape) (Fin 0), replicate (prod_list shape) (Fin 0.5)] @
       fst (repeat_draw (n - (n div 2 + n div 4) - 2)
         (on_draw (\<lambda>x. map (\<lambda>y. pf_mul y (Fin 0.3)) (scaled (tabular_scale (prod_list shape) scales) x)) (dr_normal dr (prod_list shape))) r2))"
    by (simp add: generate_tabular_probes_def Let_def case_prod_beta')
  show ?thesis unfolding eq
  proof (rule probe_mix [OF length_repeat_draw length_repeat_draw])
    show "length [replicate (prod_list shape) (Fin 0), x] = 2" for x :: "py_float list" by simp
    show "length (fst (repeat_draw (n - (n div 2 + n div 4) - 2) f q)) = n - (n div 2 + n div 4 + 2)" for f q
      by (simp only: length_repeat_draw diff_diff_left)
  qed (simp only: set_append ball_Un, intro conjI repeat_draw_lengths, simp_all add: d)
qed

lemma image_probes:
  assumes "draws_sized dr"
  shows "length (fst (generate_image_probes dr n shape r)) = n \<and>
    (\<forall>x \<in> set (fst (generate_image_probes dr n shape r)). length x = prod_list shape)"
proof -
  have d: "length (fst (dr_normal dr k q)) = k" "length (fst (dr_uniform dr u v k q)) = k" for u v k q
    using assms by (simp_all add: draws_sized_def)
  obtain r1 r2 where eq: "fst (generate_image_probes dr n shape r) = take n
      (fst (repeat_draw (n div 2) (dr_normal dr (prod_list shape)) r) @
       fst (repeat_draw (n div 4) (dr_uniform dr 0 1 (prod_list shape)) r1) @
       [replicate (prod_list shape) (Fin 0), replicate (prod_list shape) (Fin 1)] @
       fst (repeat_draw (n - (n div 2 + n div 4 + 2)) (on_draw (map (\<lambda>y. pf_mul y (Fin 0.5))) (dr_normal dr (prod_list shape))) r2))"
    by (simp add: generate_image_probes_def Let_def case_prod_beta')
  show ?thesis unfolding eq
  proof (rule probe_mix [OF length_repeat_draw length_repeat_draw])
    show "length [replicate (prod_list shape) (Fin 0), x] = 2" for x :: "py_float list" by simp
    show "length (fst (repeat_draw (n - (n div 2 + n div 4 + 2)) f q)) = n - (n div 2 + n div 4 + 2)" for f q
      by (rule length_repeat_draw)
  qed (simp only: set_append ball_Un, intro conjI repeat_draw_lengths, simp_all add: d)
qed

text \<open>The inputs the generator draws for the model, before they are tried on it.\<close>

definition drawn_probes :: "'r draws \<Rightarrow> 'r \<Rightarrow> nat \<Rightarrow> string \<Rightarrow> nat list \<Rightarrow> calibration_info \<Rightarrow> feed list" where
  "drawn_probes dr rng n nm shape info =
     map (\<lambda>x. [(nm, float_array shape x)])
       (fst (if ci_strategy info = ''image'' then generate_image_probes dr n shape rng
             else generate_tabular_probes dr n shape (ci_scales info) rng))"

lemma generate_cases:
  assumes "generate ort dr rng n g spec arch = ok info"
  obtains nm dims rest where "spec = (nm, dims) # rest"
    "ci_strategy info = (if arch = Some CNN \<or> length dims = 4 then ''image'' else ''tabular'')"
    "ci_probes info = validate_probes ort g (drawn_probes dr rng n nm (batch_shape_of dims) info)"
    "ci_n info = length (ci_probes info)"
proof (cases spec)
  case Nil with assms show ?thesis by (auto simp: generate_def Let_def)
next
  case (Cons e rest)
  obtain nm dims where e: "e = (nm, dims)" by force
  from assms show ?thesis
    by (intro that [of nm dims rest]) (auto simp: generate_def Cons e Let_def drawn_probes_def batch_shape_of_def)
qed

definition feeds_input :: "string \<Rightarrow> nat list \<Rightarrow> feed \<Rightarrow> bool" where
  "feeds_input nm shape p \<longleftrightarrow>
     (\<exists>a. p = [(nm, a)] \<and> nd_shape a = shape \<and> length (nd_data a) = prod_list shape \<and> \<not> nd_integer a)"

lemma validate_probes_subset: "set (validate_probes ort g ps) \<subseteq> set ps"
  by (auto simp: validate_probes_def Let_def dest: in_set_takeD)

lemma validate_probes_length: "length (validate_probes ort g ps) \<le> length ps"
  by (auto simp: validate_probes_def Let_def)

lemma validate_probes_some: "ps \<noteq> [] \<Longrightarrow> validate_probes ort g ps \<noteq> []"
  by (auto simp: validate_probes_def Let_def)

lemma drawn_probes:
  assumes "draws_sized dr"
  shows "length (drawn_probes dr rng n nm shape info) = n \<and>
    (\<forall>p \<in> set (drawn_probes dr rng n nm shape info). feeds_input nm shape p)"
  using image_probes [OF assms, of n shape rng] tabular_probes [OF assms, of n shape "ci_scales info" rng]
  by (auto simp: drawn_probes_def feeds_input_def float_array_def)

text \<open>C19: Calibration keeps the clean probes and never runs dry.  When at least one probe is asked for (\<open>n > 0\<close>) and the random
  generator returns arrays of the size asked (\<open>draws_sized\<close>), the generator draws \<open>n\<close> probes, in the image style exactly
  for a CNN or an input of four dimensions, each feeding the model's first input with a full array of its shape.  On a model that loads it returns
  exactly the drawn probes that run without an error, a NaN or an infinity, in the order drawn, when there is one, and
  only otherwise the first drawn one; on a model that does not load it returns them all.\<close>

theorem calibration_probes:
  assumes "generate ort dr rng n g ((nm, dims) # spec) arch = ok info" "draws_sized dr" "0 < n"
    and "drawn = drawn_probes dr rng n nm (batch_shape_of dims) info"
  shows "ci_strategy info = (if arch = Some CNN \<or> length dims = 4 then ''image'' else ''tabular'') \<and>
    length drawn = n \<and> (\<forall>p \<in> set drawn. feeds_input nm (batch_shape_of dims) p) \<and>
    1 \<le> length (ci_probes info) \<and> length (ci_probes info) \<le> n \<and> ci_n info = length (ci_probes info) \<and>
    (ort_load ort g \<and> (\<exists>p \<in> set drawn. clean_probe ort g p) \<longrightarrow> ci_probes info = filter (clean_probe ort g) drawn) \<and>
    (ort_load ort g \<and> \<not> (\<exists>p \<in> set drawn. clean_probe ort g p) \<longrightarrow> ci_probes info = [hd drawn]) \<and>
    (\<not> ort_load ort g \<longrightarrow> ci_probes info = drawn)"
proof -
  have info: "ci_strategy info = (if arch = Some CNN \<or> length dims = 4 then ''image'' else ''tabular'')"
    "ci_probes info = validate_probes ort g drawn" "ci_n info = length (ci_probes info)"
    using assms(1) unfolding assms(4) by (rule generate_cases; simp)+
  have drawn: "length drawn = n" "\<forall>p \<in> set drawn. feeds_input nm (batch_shape_of dims) p"
    using drawn_probes [OF assms(2), of rng n nm "batch_shape_of dims" info] by (simp_all add: assms(4))
  then have "drawn \<noteq> []" using assms(3) by auto
  then show ?thesis
    using info drawn validate_probes_length [of ort g drawn] validate_probes_some [of drawn ort g]
    by (cases drawn) (auto simp: validate_probes_def Let_def filter_empty_conv Suc_le_eq)
qed

text \<open>A model with a string output keeps a single probe: whether an array of strings has a NaN cannot be asked,
  the question raises, and every probe is discarded as if the model had failed on it.  The sensitivity analysis
  and the gate of such a classifier then rest on one input.\<close>

theorem string_labels_leave_one_probe:
  assumes "ort_load ort g" "\<And>p. \<exists>outs k. ort_run ort g (ort_outputs ort g) p = Some outs \<and> OStrings k \<in> set outs"
    and "generate ort dr rng n g spec arch = ok info"
  shows "length (ci_probes info) \<le> 1"
proof -
  have "\<not> clean_probe ort g p" for p using assms(2) [of p] by (force simp: clean_probe_def list_all_iff)
  then have "length (validate_probes ort g ps) \<le> 1" for ps using assms(1) by (simp add: validate_probes_def Let_def)
  moreover from assms(3) obtain ps where "ci_probes info = validate_probes ort g ps" by (rule generate_cases) blast
  ultimately show ?thesis by simp
qed

section \<open>Examples\<close>

definition zero_draws :: "unit draws" where
  "zero_draws = \<lparr>dr_normal = (\<lambda>n r. (replicate n (Fin 0), r)), dr_uniform = (\<lambda>a b n r. (replicate n (Fin a), r))\<rparr>"

definition label_ort :: "bool \<Rightarrow> ort" where
  "label_ort strings = \<lparr>ort_load = (\<lambda>_. True), ort_outputs = (\<lambda>_. [''label'']),
     ort_run = (\<lambda>g outs p. Some [if strings then OStrings 1 else OArr (float_array [1] [Fin 1])])\<rparr>"

definition empty_graph :: graph where
  "empty_graph = \<lparr>g_nodes = [], g_inits = [], g_inputs = [], g_outputs = [], g_value_info = [], g_opset_import = []\<rparr>"

lemma zero_draws_sized: "draws_sized zero_draws"
  by (simp add: draws_sized_def zero_draws_def)

lemma demo_generates: "\<exists>info. generate (label_ort s) zero_draws () n empty_graph [(''x'', [-1, 2])] None = ok info"
  by (simp add: generate_def empty_graph_def Let_def)

lemma repeat_draw_two: "repeat_draw 2 f r = (let (x, r1) = f r; (y, r2) = f r1 in ([x, y], r2))"
  "repeat_draw 1 f r = (let (x, r1) = f r in ([x], r1))"
  by (simp_all add: numeral_2_eq_2 Let_def case_prod_beta')

lemma replicate_two: "replicate 2 x = [x, x]"
  by (simp add: numeral_2_eq_2)

text \<open>A model whose output is a NaN on the zero vector: three of four drawn probes are dropped.\<close>

definition nan_at_zero :: ort where
  "nan_at_zero = \<lparr>ort_load = (\<lambda>_. True), ort_outputs = (\<lambda>_. [''y'']),
     ort_run = (\<lambda>g outs p. Some [OArr (float_array [1] [if list_all (\<lambda>(_, a). nd_data a = [Fin 0, Fin 0]) p then NaN else Fin 1])])\<rparr>"

lemma nan_at_zero_clean: "clean_probe nan_at_zero g p \<longleftrightarrow> \<not> list_all (\<lambda>(_, a). nd_data a = [Fin 0, Fin 0]) p"
  by (simp add: clean_probe_def nan_at_zero_def float_array_def)

theorem calibration_probes_witness:
  "\<exists>info. generate nan_at_zero zero_draws () 4 empty_graph [(''x'', [-1, 2])] None = ok info \<and>
     ci_probes info = [[(''x'', float_array [1, 2] [Fin (- 3), Fin (- 3)])]]"
proof -
  obtain info where i: "generate nan_at_zero zero_draws () 4 empty_graph [(''x'', [-1, 2])] None = ok info"
    by (simp add: generate_def empty_graph_def Let_def)
  note c = calibration_probes [OF i zero_draws_sized _ refl]
  have scales: "ci_scales info = None"
    using i by (auto simp: generate_def empty_graph_def estimate_input_scales_def Let_def)
  have str: "ci_strategy info = ''tabular''" using c by simp
  have drawn: "drawn_probes zero_draws () 4 ''x'' (batch_shape_of [-1, 2]) info =
      map (\<lambda>x. [(''x'', float_array [1, 2] [Fin x, Fin x])]) [0, 0, - 3, 0]"
    by (simp add: drawn_probes_def str scales batch_shape_of_def generate_tabular_probes_def zero_draws_def
        tabular_scale_def scaled_def on_draw_def repeat_draw_two replicate_two)
  have clean: "filter (clean_probe nan_at_zero empty_graph) (map (\<lambda>x. [(''x'', float_array [1, 2] [Fin x, Fin x])]) [0, 0, - 3, 0]) =
      [[(''x'', float_array [1, 2] [Fin (- 3), Fin (- 3)])]]"
    by (simp add: nan_at_zero_clean float_array_def)
  then have "\<exists>p \<in> set (drawn_probes zero_draws () 4 ''x'' (batch_shape_of [-1, 2]) info). clean_probe nan_at_zero empty_graph p"
    unfolding drawn by (simp add: nan_at_zero_clean float_array_def)
  with c i show ?thesis unfolding drawn clean by (auto simp: nan_at_zero_def)
qed

theorem string_labels_leave_one_probe_witness:
  "\<exists>info. generate (label_ort True) zero_draws () 8 empty_graph [(''x'', [-1, 2])] None = ok info \<and> length (ci_probes info) \<le> 1"
proof -
  obtain info where i: "generate (label_ort True) zero_draws () 8 empty_graph [(''x'', [-1, 2])] None = ok info"
    using demo_generates by blast
  from string_labels_leave_one_probe [OF _ _ i] i show ?thesis by (auto simp: label_ort_def)
qed

end
