(* ===== verification/Engine_Adapter.thy ===== *)
theory Engine_Adapter
  imports Pareto_View Calibration Architecture_Map
begin

text \<open>
  The pipeline of one job, \<open>app/engine/adapter.py\<close>, past the ingestion of the file: analysis, calibration,
  sensitivity, search, guarantee ladder, choice of the served artifact, validation, benchmark and the payloads
  shown to the user; with the surrogate of \<open>app/services/surrogate.py\<close> and the reconstruction of a trial's
  model (\<open>astra/sdk.py\<close>).  The log lines, the progress numbers and the phase timings are left out.  The value
  \<open>None\<close> is not returning, as in the transformer.  A score that is NaN, which Optuna rejects, reads as 0.
\<close>

section \<open>Steps that may fail or not return\<close>

type_synonym 'a run = "'a result option"

definition then_do :: "'a run \<Rightarrow> ('a \<Rightarrow> 'b run) \<Rightarrow> 'b run" where
  "then_do m f = (case m of None \<Rightarrow> None | Some (Inl e) \<Rightarrow> Some (raise e) | Some (Inr x) \<Rightarrow> f x)"

lemma then_do_ok [simp]: "then_do m f = Some (Inr y) \<longleftrightarrow> (\<exists>x. m = Some (Inr x) \<and> f x = Some (Inr y))"
  by (auto simp: then_do_def split: option.split sum.split)

lemma then_do_Inr [simp]: "then_do (Some (Inr x)) f = f x"
  by (simp add: then_do_def)

section \<open>Settings and environment\<close>

record pipeline_config =
  pc_n_trials :: int
  pc_n_probes :: nat
  pc_seed :: int
  pc_max_ops :: nat
  pc_samples :: nat
  pc_guarantee :: bool
  pc_tau :: real
  pc_adaptive :: bool
  pc_trials_per_dim :: int
  pc_startup_trials :: int
  pc_min_trials :: int
  pc_early_stop :: bool
  pc_hv_patience :: nat
  pc_hv_epsilon :: real

type_synonym sample = "string \<times> real"                  \<comment> \<open>time and milliseconds of one inference\<close>

text \<open>\<open>en_cancelled\<close> says whether the job is cancelled at the \<open>k\<close>-th check between phases, \<open>en_cancelled_in\<close>
  whether it is while a candidate is evaluated.  \<open>en_regressor\<close> fits the gradient-boosted regressor.\<close>

record 'r engine =
  en_env :: "'r env"
  en_draws :: "'r draws"
  en_latency :: "graph \<Rightarrow> real"
  en_sampler :: "history \<Rightarrow> nat \<Rightarrow> trial"
  en_best_trials :: "history \<Rightarrow> nat list"
  en_hv :: "hv_backend option"
  en_regressor :: "(real list \<times> real) list \<Rightarrow> real list \<Rightarrow> real"
  en_bench :: "graph \<Rightarrow> nat \<Rightarrow> feed \<Rightarrow> sample list option"
  en_measure :: "graph \<Rightarrow> feed option \<Rightarrow> real"
  en_cancelled :: "nat \<Rightarrow> bool"
  en_cancelled_in :: "graph \<Rightarrow> bool"

definition check_cancel :: "'r engine \<Rightarrow> nat \<Rightarrow> unit run" where
  "check_cancel en k = Some (if en_cancelled en k then raise PipelineCancelled else ok ())"

definition probes_of :: "'r engine \<Rightarrow> architecture option \<Rightarrow> nat \<Rightarrow> int \<Rightarrow> graph \<Rightarrow> (string \<times> int list) list \<Rightarrow> feed list result" where
  "probes_of en arch n seed g spec =
     bind_result (generate (ge_ort (en_env en)) (en_draws en) (ge_rng (en_env en) seed) n g spec arch) (\<lambda>i. ok (ci_probes i))"

text \<open>The environment of the ladder: its probe generator is the repository's own.\<close>

definition env_for :: "'r engine \<Rightarrow> architecture option \<Rightarrow> 'r env" where
  "env_for en arch = (en_env en)\<lparr>ge_generate := probes_of en arch\<rparr>"

section \<open>Analysis\<close>

definition cap_compressible :: "nat \<Rightarrow> graph_info \<Rightarrow> graph_info" where
  "cap_compressible cap gi =
     (let ops = gi_operators gi;
          ranked = sort_desc (\<lambda>i. (op_flops (ops ! i), op_param_count (ops ! i))) (filter (\<lambda>i. op_is_compressible (ops ! i)) [0..<length ops])
      in if length ranked \<le> cap then gi
         else gi\<lparr>gi_operators := map (\<lambda>(i, op). if i \<in> set (drop cap ranked) then op\<lparr>op_is_compressible := False\<rparr> else op)
                                  (enumerate 0 ops)\<rparr>)"

definition static_spec :: "(string \<times> int list) list \<Rightarrow> (string \<times> int list) list" where
  "static_spec = map (\<lambda>(n, s). (n, map (\<lambda>d. if d \<le> 0 then 1 else d) s))"

section \<open>Search\<close>

fun score_value :: "py_float \<Rightarrow> real" where
  "score_value (Fin q) = q"
| "score_value _ = 0"

definition dfcv_eval :: "'r engine \<Rightarrow> graph \<Rightarrow> (string \<times> int list) list \<Rightarrow> nat \<Rightarrow> int \<Rightarrow> graph \<Rightarrow> real result" where
  "dfcv_eval en g spec n seed c =
     (if en_cancelled_in en c then raise PipelineCancelled
      else ok (case bind_result (probes_of en None n seed g spec) (validate default_weights (ge_ort (en_env en)) g c) of
                 Inr vr \<Rightarrow> score_value (vr_quality vr) | Inl _ \<Rightarrow> 0))"

definition search_env_for :: "'r engine \<Rightarrow> pipeline_config \<Rightarrow> graph \<Rightarrow> (string \<times> int list) list \<Rightarrow> feed list \<Rightarrow> search_env" where
  "search_env_for en pc g spec probes =
     \<lparr>se_ort_latency = en_latency en, se_eval = dfcv_eval en g spec (min 16 (max 2 (length probes))) (pc_seed pc),
      se_sampler = en_sampler en, se_best_trials = en_best_trials en, se_hv = en_hv en, se_np = ge_np (en_env en),
      se_ox = ge_ox (en_env en), se_byte_size = ge_byte_size (en_env en)\<rparr>"

definition search_config_for :: "pipeline_config \<Rightarrow> search_config" where
  "search_config_for pc =
     \<lparr>sc_n_trials = pc_n_trials pc, sc_allow_pruning = False, sc_adaptive = pc_adaptive pc,
      sc_trials_per_dim = pc_trials_per_dim pc, sc_startup_trials = pc_startup_trials pc, sc_min_trials = pc_min_trials pc,
      sc_max_trials = pc_n_trials pc, sc_early_stop = pc_early_stop pc, sc_hv_patience = pc_hv_patience pc,
      sc_hv_epsilon = pc_hv_epsilon pc\<rparr>"

definition search_phase ::
  "'r engine \<Rightarrow> pipeline_config \<Rightarrow> graph \<Rightarrow> graph_info \<Rightarrow> sensitivity_profile \<Rightarrow> (string \<times> int list) list \<Rightarrow> feed list \<Rightarrow> pareto_result option run" where
  "search_phase en pc g gi profile spec probes =
     (if compressible_operators gi = [] then Some (ok None)
      else case search (search_env_for en pc g spec probes) (search_config_for pc) g gi profile of
          None \<Rightarrow> None
        | Some (Inl (ValueError _)) \<Rightarrow> Some (ok None)
        | Some (Inl e) \<Rightarrow> Some (raise e)
        | Some (Inr r) \<Rightarrow> Some (ok (Some r)))"

section \<open>Surrogate\<close>

definition featurize :: "string list \<Rightarrow> (string \<times> compression_config) list \<Rightarrow> real list" where
  "featurize op_order config =
     concat (map (\<lambda>op. case map_of config op of
         None \<Rightarrow> [0, 0, 0]
       | Some c \<Rightarrow> [of_nat (precision_value (cc_precision c)), cc_prune_ratio c, if cc_fuse c then 1 else 0]) op_order)"

text \<open>The latency model, which exists when at least four trials have a configuration.\<close>

definition fit_latency ::
  "((real list \<times> real) list \<Rightarrow> real list \<Rightarrow> real) \<Rightarrow> string list \<Rightarrow> pareto_point list \<Rightarrow> ((string \<times> compression_config) list \<Rightarrow> real) option" where
  "fit_latency regressor op_order points =
     (let ps = filter (\<lambda>p. pp_config p \<noteq> []) points in
      if length ps < 4 then None
      else Some (\<lambda>config. regressor (map (\<lambda>p. (featurize op_order (pp_config p), pp_latency p)) ps) (featurize op_order config)))"

definition latency_floor :: "pareto_point list \<Rightarrow> real" where
  "latency_floor points =
     (let positive = filter (\<lambda>l. l > 0) (map pp_latency points) in if positive = [] then 0.05 else Min (set positive) * 0.5)"

definition repair_latency ::
  "((string \<times> compression_config) list \<Rightarrow> real) \<Rightarrow> real \<Rightarrow> real \<Rightarrow> pareto_point \<Rightarrow> pareto_point" where
  "repair_latency predict fl original p =
     (if pp_latency p > 0 then p
      else let l = max fl (predict (pp_config p))
           in p\<lparr>pp_latency := l, pp_speedup := (if original > 0 then original / l else pp_speedup p)\<rparr>)"

text \<open>The points of the frontier are objects of the list of all trials, so they are repaired with them.\<close>

definition backfill :: "'r engine \<Rightarrow> graph_info \<Rightarrow> pareto_result \<Rightarrow> pareto_result" where
  "backfill en gi r =
     (case fit_latency (en_regressor en) (map op_name (compressible_operators gi)) (pr_all_trials r) of
        None \<Rightarrow> r
      | Some predict \<Rightarrow>
          (let fix1 = repair_latency predict (latency_floor (pr_all_trials r)) (pr_original_latency r)
           in r\<lparr>pr_all_trials := map fix1 (pr_all_trials r), pr_pareto_points := map fix1 (pr_pareto_points r)\<rparr>))"

section \<open>The served artifact\<close>

definition reconstruct_actions :: "graph_info \<Rightarrow> (string \<times> compression_config) list \<Rightarrow> concrete_action list" where
  "reconstruct_actions gi config =
     concat (map (\<lambda>(nm, c).
        case find (\<lambda>op. op_name op = nm) (rev (compressible_operators gi)) of
          None \<Rightarrow> []
        | Some op \<Rightarrow> (let c' = c\<lparr>cc_approx_rank := None\<rparr> in if is_no_compression c' then [] else translate op c')) config)"

definition apply_or_keep :: "'r env \<Rightarrow> graph \<Rightarrow> concrete_action list \<Rightarrow> graph run" where
  "apply_or_keep e g actions = (if actions = [] then Some (ok g) else apply_actions (ge_ox e) (ge_np e) g actions)"

definition reconstruct_model :: "'r env \<Rightarrow> graph \<Rightarrow> graph_info \<Rightarrow> (string \<times> compression_config) list \<Rightarrow> graph run" where
  "reconstruct_model e g gi config = apply_or_keep e g (reconstruct_actions gi config)"

definition choose_point :: "pareto_result \<Rightarrow> pareto_point option" where
  "choose_point r =
     (case sort_key (\<lambda>p. - pp_accuracy p) (pr_pareto_points r) of
        [] \<Rightarrow> None
      | c # cs \<Rightarrow> Some (case find (\<lambda>p. pp_accuracy p \<ge> pr_original_accuracy r * 0.95) (c # cs) of Some x \<Rightarrow> x | None \<Rightarrow> c))"

record served =
  sv_model :: "graph option"
  sv_chosen :: "pareto_point option"
  sv_rung :: "string option"
  sv_ofs :: "py_float option"

definition PARETO_CERTIFIED :: string where "PARETO_CERTIFIED = ''PARETO_CERTIFIED''"

definition select_candidate ::
  "'r env \<Rightarrow> real \<Rightarrow> graph \<Rightarrow> feed list option \<Rightarrow> guarantee_result option \<Rightarrow> pareto_point option \<Rightarrow> graph option \<Rightarrow> served" where
  "select_candidate e tau g gate_probes ladder chosen compressed =
     (case ladder of
        None \<Rightarrow> \<lparr>sv_model = compressed, sv_chosen = chosen, sv_rung = None, sv_ofs = None\<rparr>
      | Some l \<Rightarrow>
          (let by_ladder = \<lparr>sv_model = Some (gr_model l), sv_chosen = None, sv_rung = Some (gr_rung l), sv_ofs = Some (gr_fidelity l)\<rparr>
           in case (compressed, gate_probes) of
               (Some c, Some ps) \<Rightarrow>
                 (let ofs = fst (gate_check (ge_ort e) g c ps) in
                  if pf_ge ofs (Fin tau) \<and> ge_byte_size e c < ge_byte_size e (gr_model l)
                  then \<lparr>sv_model = Some c, sv_chosen = chosen, sv_rung = Some PARETO_CERTIFIED, sv_ofs = Some ofs\<rparr>
                  else by_ladder)
             | _ \<Rightarrow> by_ladder))"

definition run_ladder ::
  "'r engine \<Rightarrow> pipeline_config \<Rightarrow> graph \<Rightarrow> graph_info \<Rightarrow> sensitivity_profile \<Rightarrow> architecture \<Rightarrow> feed list option \<Rightarrow> guarantee_result option run" where
  "run_ladder en pc g gi profile arch gate_probes =
     (case gate_probes of
        None \<Rightarrow> Some (ok None)
      | Some ps \<Rightarrow>
          (case guarantee_compress (env_for en (Some arch)) g (pc_tau pc) (pc_n_probes pc) (pc_seed pc) 0.3 3 (Some gi) (Some profile)
                  (Named ''v2'') (Some ps) of
             None \<Rightarrow> None
           | Some (Inl _) \<Rightarrow> Some (ok None)
           | Some (Inr r) \<Rightarrow> Some (ok (Some r))))"

definition gate_probes_for ::
  "'r engine \<Rightarrow> pipeline_config \<Rightarrow> graph \<Rightarrow> graph_info \<Rightarrow> (string \<times> int list) list \<Rightarrow> architecture \<Rightarrow> feed list option run" where
  "gate_probes_for en pc g gi spec arch =
     (if pc_guarantee pc \<and> compressible_operators gi \<noteq> []
      then Some (bind_result (build_gate_probes (env_for en (Some arch)) g spec (pc_n_probes pc) (pc_seed pc) 3) (\<lambda>ps. ok (Some ps)))
      else Some (ok None))"

definition optimizer_phase ::
  "'r engine \<Rightarrow> pipeline_config \<Rightarrow> graph \<Rightarrow> graph_info \<Rightarrow> sensitivity_profile \<Rightarrow> (string \<times> int list) list \<Rightarrow> architecture
     \<Rightarrow> pareto_result option \<Rightarrow> served run" where
  "optimizer_phase en pc g gi profile spec arch pareto =
     then_do (gate_probes_for en pc g gi spec arch) (\<lambda>gate_probes.
     then_do (run_ladder en pc g gi profile arch gate_probes) (\<lambda>ladder.
     then_do (check_cancel en 4) (\<lambda>_.
       let chosen = (case pareto of None \<Rightarrow> None | Some r \<Rightarrow> choose_point r) in
       then_do (case chosen of None \<Rightarrow> Some (ok None)
                | Some c \<Rightarrow> then_do (reconstruct_model (en_env en) g gi (pp_config c)) (\<lambda>m. Some (ok (Some m)))) (\<lambda>compressed.
         Some (ok (select_candidate (en_env en) (pc_tau pc) g gate_probes ladder chosen compressed))))))"

definition rung_precision :: "string \<Rightarrow> string" where
  "rung_precision rung =
     (if rung \<in> {RUNG_INT8_UNIFORM, RUNG_INT8_UOSA, RUNG_W8} then ''INT8'' else if rung = RUNG_FP16 then ''FP16'' else ''FP32'')"

text \<open>A sensitivity as the comparisons of the code read it: NaN is above no threshold.\<close>

fun sens_value :: "py_float \<Rightarrow> real" where
  "sens_value (Fin s) = s"
| "sens_value PInf = 1"
| "sens_value _ = 0"

definition sens_of :: "sensitivity_profile \<Rightarrow> string \<Rightarrow> real" where
  "sens_of profile nm = (case map_of (normalized_scores profile) nm of Some s \<Rightarrow> sens_value s | None \<Rightarrow> 0)"

definition fallback_precision :: "sensitivity_profile \<Rightarrow> operator_info \<Rightarrow> precision_level" where
  "fallback_precision profile op = last (as_precisions (get_action_space op (Some (sens_of profile (op_name op))) 0.3 None None))"

definition fallback_actions :: "sensitivity_profile \<Rightarrow> operator_info list \<Rightarrow> concrete_action list" where
  "fallback_actions profile ops =
     concat (map (\<lambda>op. let c = default_config\<lparr>cc_precision := fallback_precision profile op\<rparr>
                       in if is_no_compression c then [] else translate op c) ops)"

definition selected_precisions :: "graph_info \<Rightarrow> sensitivity_profile \<Rightarrow> served \<Rightarrow> (string \<times> string) list" where
  "selected_precisions gi profile sv =
     (let ops = compressible_operators gi;
          by_choice = (case (sv_chosen sv, sv_rung sv) of
              (Some c, _) \<Rightarrow> map (\<lambda>(n, cc). (n, precision_name (cc_precision cc))) (pp_config c)
            | (None, Some rung) \<Rightarrow>
                (if rung = RUNG_ORIGINAL then []
                 else let protected = (if sp_results profile = [] then {} else get_protection_set profile 0.3)
                      in dict_of (map (\<lambda>op. (op_name op, if rung = RUNG_INT8_UOSA \<and> op_name op \<in> protected then ''FP32''
                                                        else rung_precision rung)) ops))
            | (None, None) \<Rightarrow> [])
      in if sv_model sv \<noteq> None then by_choice
         else fold (\<lambda>op. AList.update (op_name op) (case fallback_precision profile op of INT4 \<Rightarrow> ''FP16'' | p \<Rightarrow> precision_name p)) ops by_choice)"

definition serve_model :: "'r env \<Rightarrow> graph \<Rightarrow> graph_info \<Rightarrow> sensitivity_profile \<Rightarrow> served \<Rightarrow> graph run" where
  "serve_model e g gi profile sv =
     (case sv_model sv of
        Some m \<Rightarrow> Some (ok m)
      | None \<Rightarrow> apply_or_keep e g (fallback_actions profile (compressible_operators gi)))"

fun pf_round :: "nat \<Rightarrow> py_float \<Rightarrow> py_float" where
  "pf_round d (Fin x) = Fin (py_round d x)"
| "pf_round d y = y"

datatype artifact_meta =
    FromPareto nat "string option" real real nat              \<comment> \<open>trial, rung, accuracy, size ratio, bytes\<close>
  | FromLadder string "py_float option" nat
  | FromFallback nat

definition artifact_meta_of :: "served \<Rightarrow> nat \<Rightarrow> artifact_meta" where
  "artifact_meta_of sv bytes =
     (case (sv_chosen sv, sv_rung sv) of
        (Some c, rung) \<Rightarrow> FromPareto (pp_trial_number c) rung (py_round 2 (pp_accuracy c * 100)) (py_round 4 (pp_size_ratio c)) bytes
      | (None, Some rung) \<Rightarrow> FromLadder rung (map_option (pf_round 4) (sv_ofs sv)) bytes
      | (None, None) \<Rightarrow> FromFallback bytes)"

section \<open>Benchmark\<close>

record summary =
  su_p50 :: real
  su_p95 :: real
  su_p99 :: real
  su_throughput :: real

record bench_bucket =
  bb_t :: string
  bb_requests :: real
  bb_p95 :: real
  bb_p50 :: real
  bb_p99 :: real

record benchmark =
  bm_count :: nat
  bm_original :: summary
  bm_compressed :: summary
  bm_agreement :: py_float
  bm_buckets :: "bench_bucket list"

definition summarize :: "sample list \<Rightarrow> summary" where
  "summarize samples =
     (let lats = map snd samples; mean_ms = sum_list lats / of_nat (length lats)
      in \<lparr>su_p50 = py_round 3 (percentile lats 50), su_p95 = py_round 3 (percentile lats 95), su_p99 = py_round 3 (percentile lats 99),
          su_throughput = (if mean_ms > 0 then py_round 1 (60000 / mean_ms) else 0)\<rparr>)"

definition bench_bucket_of :: "sample list \<Rightarrow> bench_bucket" where
  "bench_bucket_of chunk =
     (let lats = map snd chunk; window_min = sum_list lats / 60000
      in \<lparr>bb_t = fst (hd chunk), bb_requests = (if window_min > 0 then py_round 1 (of_nat (length chunk) / window_min) else 0),
          bb_p95 = py_round 3 (percentile lats 95), bb_p50 = py_round 3 (percentile lats 50), bb_p99 = py_round 3 (percentile lats 99)\<rparr>)"

definition bench_chunks :: "sample list \<Rightarrow> sample list list" where
  "bench_chunks samples = (let n_buckets = min 24 (length samples); size = max 1 (length samples div n_buckets) in chunks size samples)"

definition build_benchmark_payload :: "sample list option \<Rightarrow> sample list option \<Rightarrow> py_float \<Rightarrow> benchmark option" where
  "build_benchmark_payload bench_original bench_compressed agreement =
     (case (bench_original, bench_compressed) of
        (Some (o1 # os), Some (c1 # cs)) \<Rightarrow>
          Some \<lparr>bm_count = length (c1 # cs), bm_original = summarize (o1 # os), bm_compressed = summarize (c1 # cs),
                bm_agreement = agreement, bm_buckets = map bench_bucket_of (bench_chunks (c1 # cs))\<rparr>
      | _ \<Rightarrow> None)"

section \<open>The pipeline\<close>

record pipeline_artifacts =
  pa_architecture :: layer_graph
  pa_pareto :: pareto_experiment
  pa_benchmark :: "benchmark option"
  pa_best_accuracy :: real
  pa_quality :: py_float
  pa_risk :: string
  pa_artifact :: graph
  pa_ingested :: graph
  pa_max_sensitivity :: py_float
  pa_trial_configs :: "(string \<times> (string \<times> compression_config) list) list option"
  pa_rung :: "string option"
  pa_ofs :: "py_float option"
  pa_meta :: artifact_meta

fun architecture_value :: "architecture \<Rightarrow> string" where
  "architecture_value MLP = ''MLP''"
| "architecture_value CNN = ''CNN''"
| "architecture_value RNN = ''RNN''"
| "architecture_value TRANSFORMER = ''Transformer''"
| "architecture_value TREE_ARCH = ''TreeEnsemble''"
| "architecture_value LINEAR_ARCH = ''LinearModel''"
| "architecture_value SVM_ARCH = ''SVM''"
| "architecture_value HYBRID = ''Hybrid''"
| "architecture_value UNKNOWN = ''Unknown''"

definition recommend_for :: "operator_info \<Rightarrow> real \<Rightarrow> string" where
  "recommend_for op sens =
     (let allowed = filter (\<lambda>p. p \<in> {FP32, FP16, INT8}) (as_precisions (get_action_space op (Some sens) 0.3 None None))
      in if allowed = [] then ''FP32'' else precision_name (max_precision allowed))"

definition max_sensitivity :: "(string \<times> py_float) list \<Rightarrow> py_float" where
  "max_sensitivity scores = (case map snd scores of [] \<Rightarrow> Fin 0 | s # ss \<Rightarrow> foldl py_max s ss)"

definition experiment_of ::
  "string \<Rightarrow> string \<Rightarrow> string \<Rightarrow> pareto_result option \<Rightarrow> served \<Rightarrow> real \<Rightarrow> real \<Rightarrow> real \<Rightarrow> pareto_experiment" where
  "experiment_of model_id nm run_id pareto sv size_mb latency quality =
     (case pareto of
        Some r \<Rightarrow> if pr_all_trials r \<noteq> []
                  then map_pareto model_id nm (''exp_'' @ run_id) r ''completed'' (map_option pp_trial_number (sv_chosen sv))
                  else baseline_experiment model_id nm (''exp_'' @ run_id) size_mb latency quality
      | None \<Rightarrow> baseline_experiment model_id nm (''exp_'' @ run_id) size_mb latency quality)"

text \<open>The last part of the pipeline, once the served model is fixed.\<close>

definition finish_pipeline ::
  "'r engine \<Rightarrow> pipeline_config \<Rightarrow> string \<Rightarrow> string \<Rightarrow> string \<Rightarrow> graph \<Rightarrow> graph_info \<Rightarrow> sensitivity_profile \<Rightarrow> (string \<times> int list) list
     \<Rightarrow> architecture \<Rightarrow> feed option \<Rightarrow> pareto_result option \<Rightarrow> served \<Rightarrow> graph \<Rightarrow> pipeline_artifacts run" where
  "finish_pipeline en pc model_id nm run_id g gi profile spec arch probe pareto sv compressed =
     then_do (Some (bind_result (probes_of en (Some arch) (pc_n_probes pc) (pc_seed pc) g spec)
                      (validate default_weights (ge_ort (en_env en)) g compressed))) (\<lambda>vr.
     then_do (check_cancel en 5) (\<lambda>_.
       let bench_original = (case probe of None \<Rightarrow> None | Some p \<Rightarrow> en_bench en g (pc_samples pc) p) in
     then_do (check_cancel en 6) (\<lambda>_.
       let bench_compressed = (case probe of None \<Rightarrow> None | Some p \<Rightarrow> en_bench en compressed (pc_samples pc) p);
           agreement = pf_round 2 (pf_mul (vr_output_fidelity vr) (Fin 100));
           latency0 = (case pareto of None \<Rightarrow> 0 | Some r \<Rightarrow> pr_original_latency r);
           latency = (if latency0 \<le> 0 then en_measure en g probe else latency0);
           ex = experiment_of model_id nm run_id pareto sv (of_nat (ge_byte_size (en_env en) g) / 10 ^ 6) latency (score_value (vr_quality vr));
           best = Max (set (map tv_accuracy (ex_trials ex)))
       in then_do (Some (map_architecture
             \<lparr>aq_sensitivity = map (\<lambda>(n, s). (n, sens_value s)) (normalized_scores profile), aq_latency = latency,
              aq_recommend = recommend_for, aq_precisions = selected_precisions gi profile sv\<rparr> (architecture_value arch) gi)) (\<lambda>layers.
          Some (ok \<lparr>pa_architecture = layers, pa_pareto = ex,
             pa_benchmark = build_benchmark_payload bench_original bench_compressed agreement,
             pa_best_accuracy = py_round 1 best, pa_quality = vr_quality vr, pa_risk = vr_risk_level vr,
             pa_artifact = compressed, pa_ingested = g, pa_max_sensitivity = max_sensitivity (normalized_scores profile),
             pa_trial_configs = (case pareto of None \<Rightarrow> None | Some r \<Rightarrow>
                if pr_all_trials r = [] then None
                else Some (map (\<lambda>p. (str_of_nat (pp_trial_number p), pp_config p)) (pr_all_trials r))),
             pa_rung = sv_rung sv, pa_ofs = sv_ofs sv,
             pa_meta = artifact_meta_of sv (ge_byte_size (en_env en) compressed)\<rparr>)))))"

definition run_pipeline ::
  "'r engine \<Rightarrow> pipeline_config \<Rightarrow> string \<Rightarrow> string \<Rightarrow> string \<Rightarrow> graph \<Rightarrow> (string \<times> int list) list \<Rightarrow> pipeline_artifacts run" where
  "run_pipeline en pc model_id nm run_id g ingested_spec =
     then_do (check_cancel en 0) (\<lambda>_.
     then_do (Some (analyze (ox_infer_shapes (ge_ox (en_env en))) g)) (\<lambda>info.
     then_do (Some (detect (ox_infer_shapes (ge_ox (en_env en))) g)) (\<lambda>report.
       let gi = cap_compressible (pc_max_ops pc) info; spec = static_spec ingested_spec; arch = mr_architecture report in
     then_do (Some (probes_of en (Some arch) (pc_n_probes pc) (pc_seed pc) g spec)) (\<lambda>probes.
     then_do (check_cancel en 1) (\<lambda>_.
     then_do (Some (uosa_analyze (ge_ort (en_env en)) (ge_normal (en_env en)) 0.01 g gi probes (ge_rng (en_env en) 42))) (\<lambda>profile.
     then_do (check_cancel en 2) (\<lambda>_.
     then_do (search_phase en pc g gi profile spec probes) (\<lambda>found.
     then_do (check_cancel en 3) (\<lambda>_.
       let pareto = map_option (backfill en gi) found in
     then_do (optimizer_phase en pc g gi profile spec arch pareto) (\<lambda>sv.
     then_do (serve_model (en_env en) g gi profile sv) (\<lambda>compressed.
       finish_pipeline en pc model_id nm run_id g gi profile spec arch (case probes of [] \<Rightarrow> None | p # _ \<Rightarrow> Some p) pareto sv compressed)))))))))))"

section \<open>What is served\<close>

lemma run_ladder_result:
  assumes "run_ladder en pc g gi profile arch (Some ps) = Some (Inr l)"
  shows "\<exists>r. l = Some r \<and> (gr_model r = g \<and> gr_rung r = RUNG_ORIGINAL \<and> gr_fidelity r = Fin 1 \<or>
    passes_gate (en_env en) g ps (pc_tau pc) (gr_model r) \<and> gr_fidelity r = fst (gate_check (ge_ort (en_env en)) g (gr_model r) ps))"
proof -
  let ?e = "env_for en (Some arch)"
  have rungs: "ladder_rungs (Named ''v2'') = Inr [RUNG_INT8_UNIFORM, RUNG_INT8_UOSA, RUNG_W8, RUNG_FP16, RUNG_ORIGINAL]"
    by (simp add: ladder_rungs_def LADDERS_def)
  obtain r where r: "climb ?e g gi profile 0.3 (pc_tau pc) ps (pc_seed pc) [RUNG_INT8_UNIFORM, RUNG_INT8_UOSA, RUNG_W8, RUNG_FP16] [] = Some r"
    using climb_returns by (metis not_None_eq)
  then have "l = Some r" using assms rungs by (simp add: run_ladder_def guarantee_compress_def)
  moreover have "passes_gate ?e = passes_gate (en_env en)" "ge_ort ?e = ge_ort (en_env en)"
    by (simp_all add: fun_eq_iff passes_gate_def env_for_def)
  ultimately show ?thesis using climb_result [OF r] by auto
qed

lemma select_certified:
  assumes "gr_model l = g \<and> gr_rung l = RUNG_ORIGINAL \<and> gr_fidelity l = Fin 1 \<or>
      passes_gate e g ps tau (gr_model l) \<and> gr_fidelity l = fst (gate_check (ge_ort e) g (gr_model l) ps)"
  shows "\<exists>m. sv_model (select_candidate e tau g (Some ps) (Some l) chosen compressed) = Some m \<and>
    (m = g \<and> sv_rung (select_candidate e tau g (Some ps) (Some l) chosen compressed) = Some RUNG_ORIGINAL \<or>
     passes_gate e g ps tau m \<and>
     sv_ofs (select_candidate e tau g (Some ps) (Some l) chosen compressed) = Some (fst (gate_check (ge_ort e) g m ps)))"
proof -
  have ge: "\<not> pf_lt a b" if "pf_ge a b" for a b using that by (cases a; cases b) auto
  show ?thesis using assms ge
    by (auto simp: select_candidate_def Let_def passes_gate_def split: option.split)
qed

lemma phase_certified:
  assumes "optimizer_phase en pc g gi profile spec arch pareto = Some (Inr sv)"
    and "pc_guarantee pc" "compressible_operators gi \<noteq> []"
  shows "\<exists>ps m. build_gate_probes (env_for en (Some arch)) g spec (pc_n_probes pc) (pc_seed pc) 3 = ok ps \<and>
    serve_model (en_env en) g gi profile sv = Some (ok m) \<and>
    (m = g \<and> sv_rung sv = Some RUNG_ORIGINAL \<or>
     ge_byte_size (en_env en) m < ge_byte_size (en_env en) g \<and>
     \<not> pf_lt (fst (gate_check (ge_ort (en_env en)) g m ps)) (Fin (pc_tau pc)) \<and>
     sv_ofs sv = Some (fst (gate_check (ge_ort (en_env en)) g m ps)))"
proof -
  from assms(1) obtain gp l compressed where gp: "gate_probes_for en pc g gi spec arch = Some (Inr gp)"
    and l: "run_ladder en pc g gi profile arch gp = Some (Inr l)"
    and sv: "sv = select_candidate (en_env en) (pc_tau pc) g gp l (case pareto of None \<Rightarrow> None | Some r \<Rightarrow> choose_point r) compressed"
    by (auto simp: optimizer_phase_def Let_def)
  from gp assms(2,3) obtain ps where ps: "build_gate_probes (env_for en (Some arch)) g spec (pc_n_probes pc) (pc_seed pc) 3 = ok ps" "gp = Some ps"
    by (auto simp: gate_probes_for_def)
  from run_ladder_result [OF l [unfolded ps(2)]] obtain r where r: "l = Some r" "gr_model r = g \<and> gr_rung r = RUNG_ORIGINAL \<and> gr_fidelity r = Fin 1 \<or>
      passes_gate (en_env en) g ps (pc_tau pc) (gr_model r) \<and> gr_fidelity r = fst (gate_check (ge_ort (en_env en)) g (gr_model r) ps)" by blast
  from select_certified [OF r(2), of "case pareto of None \<Rightarrow> None | Some r \<Rightarrow> choose_point r" compressed] ps r(1) sv
  show ?thesis by (auto simp: passes_gate_def serve_model_def)
qed

text \<open>C2: In guarantee mode a job that completes serves the original model, or a model that is strictly smaller and whose
  fidelity on the gate probes, the one recorded with the artifact, is not below tau: a Pareto candidate, a rung of
  the ladder and the fallback pass alike, whatever the search, the quantizers and the runtime return.\<close>

theorem pipeline_serves_only_certified:
  assumes "run_pipeline en pc model_id nm run_id g spec = Some (Inr pa)" "pc_guarantee pc"
  shows "pa_artifact pa = g \<or>
    (\<exists>arch ps. build_gate_probes (env_for en (Some arch)) g (static_spec spec) (pc_n_probes pc) (pc_seed pc) 3 = ok ps \<and>
       ge_byte_size (en_env en) (pa_artifact pa) < ge_byte_size (en_env en) g \<and>
       \<not> pf_lt (fst (gate_check (ge_ort (en_env en)) g (pa_artifact pa) ps)) (Fin (pc_tau pc)) \<and>
       pa_ofs pa = Some (fst (gate_check (ge_ort (en_env en)) g (pa_artifact pa) ps)))"
proof -
  from assms(1) obtain gi profile arch pareto found probes probe sv compressed where
    o: "optimizer_phase en pc g gi profile (static_spec spec) arch pareto = Some (Inr sv)"
    and s: "serve_model (en_env en) g gi profile sv = Some (Inr compressed)"
    and f: "finish_pipeline en pc model_id nm run_id g gi profile (static_spec spec) arch probe pareto sv compressed = Some (Inr pa)"
    and sp: "search_phase en pc g gi profile (static_spec spec) probes = Some (Inr found)" "pareto = map_option (backfill en gi) found"
    by (auto simp: run_pipeline_def Let_def)
  then have none: "compressible_operators gi = [] \<longrightarrow> pareto = None" by (auto simp: search_phase_def)
  from f have pa: "pa_artifact pa = compressed" "pa_ofs pa = sv_ofs sv" by (auto simp: finish_pipeline_def Let_def)
  show ?thesis
  proof (cases "compressible_operators gi = []")
    case True
    with o none have "sv_model sv = None"
      by (auto simp: optimizer_phase_def gate_probes_for_def run_ladder_def select_candidate_def Let_def)
    with s True have "compressed = g" by (simp add: serve_model_def fallback_actions_def apply_or_keep_def)
    with pa show ?thesis by simp
  next
    case False
    from phase_certified [OF o assms(2) False] s pa show ?thesis by auto
  qed
qed

text \<open>The choice among the Pareto points: the tolerance of five percent never decides, since the points are sorted by
  accuracy and the first that meets it, or else the first of all, is the most accurate one.\<close>

lemma chosen_point_most_accurate:
  assumes "choose_point r = Some c"
  shows "c \<in> set (pr_pareto_points r) \<and> (\<forall>p \<in> set (pr_pareto_points r). pp_accuracy p \<le> pp_accuracy c) \<and>
    c = hd (sort_key (\<lambda>p. - pp_accuracy p) (pr_pareto_points r))"
proof -
  obtain a as where s: "sort_key (\<lambda>p. - pp_accuracy p) (pr_pareto_points r) = a # as"
    using assms by (auto simp: choose_point_def split: list.splits)
  have sorted: "sorted (map (\<lambda>p. - pp_accuracy p) (a # as))" unfolding s [symmetric] by simp
  then have top: "\<forall>p \<in> set (a # as). pp_accuracy p \<le> pp_accuracy a" by auto
  have "c = a"
  proof (cases "pp_accuracy a \<ge> pr_original_accuracy r * 0.95")
    case True then show ?thesis using assms by (simp add: choose_point_def s)
  next
    case False
    then have "find (\<lambda>p. pp_accuracy p \<ge> pr_original_accuracy r * 0.95) (a # as) = None"
      using top by (force simp: find_None_iff)
    then show ?thesis using assms by (simp add: choose_point_def s)
  qed
  moreover have "set (a # as) = set (pr_pareto_points r)" unfolding s [symmetric] by simp
  ultimately show ?thesis using top s by auto
qed

section \<open>A trial is reconstructed as it was measured\<close>

lemma op_config_rank: "op_config pruning tr op sp = ok c \<Longrightarrow> cc_approx_rank c = None"
  by (auto simp: op_config_def Let_def case_prod_beta')

lemma trial_config_shape:
  assumes "trial_config pruning tr spaces ops acc = ok config" "distinct (map op_name ops)" "fst ` set acc \<inter> op_name ` set ops = {}"
  shows "\<exists>cs. length cs = length ops \<and> config = acc @ zip (map op_name ops) cs \<and> (\<forall>c \<in> set cs. cc_approx_rank c = None)"
  using assms
proof (induction ops arbitrary: acc)
  case (Cons op ops)
  then obtain c where c: "op_config pruning tr op (spaces op) = ok c"
    and rest: "trial_config pruning tr spaces ops (AList.update (op_name op) c acc) = ok config" by auto
  have "op_name op \<notin> fst ` set acc" using Cons.prems(3) by auto
  then have upd: "AList.update (op_name op) c acc = acc @ [(op_name op, c)]" by (induction acc) auto
  have "fst ` set (AList.update (op_name op) c acc) \<inter> op_name ` set ops = {}" using Cons.prems(2,3) by (auto simp: upd)
  from Cons.IH [OF rest _ this] Cons.prems(2) obtain cs where cs: "length cs = length ops"
    "config = acc @ [(op_name op, c)] @ zip (map op_name ops) cs" "\<forall>c \<in> set cs. cc_approx_rank c = None" by (auto simp: upd)
  then show ?case using op_config_rank [OF c] by (intro exI [of _ "c # cs"]) simp
qed simp

lemma find_rev_distinct:
  "distinct (map f xs) \<Longrightarrow> x \<in> set xs \<Longrightarrow> find (\<lambda>y. f y = f x) (rev xs) = Some x"
proof -
  assume d: "distinct (map f xs)" and x: "x \<in> set xs"
  obtain y where y: "find (\<lambda>y. f y = f x) (rev xs) = Some y" using x by (cases "find (\<lambda>y. f y = f x) (rev xs)") (auto simp: find_None_iff)
  then have "y \<in> set xs" "f y = f x" by (auto dest: find_in_set)
  with d x have "y = x" by (auto simp: distinct_map dest: inj_onD)
  with y show ?thesis by simp
qed

text \<open>For operators with different names, rebuilding a trial's configuration applies the very actions the trial
  applied.\<close>

lemma reconstruct_trial:
  assumes "distinct (map op_name (compressible_operators gi))"
    and "trial_config pruning tr spaces (compressible_operators gi) [] = ok config"
  shows "reconstruct_model e g gi config = apply_or_keep e g (trial_actions config (compressible_operators gi))"
proof -
  define ops where "ops = compressible_operators gi"
  obtain cs where cs: "length cs = length ops" "config = zip (map op_name ops) cs" "\<forall>c \<in> set cs. cc_approx_rank c = None"
    using trial_config_shape [OF assms(2)] assms(1) by (auto simp: ops_def)
  have d: "distinct (map op_name ops)" using assms(1) by (simp add: ops_def)
  have op: "find (\<lambda>op. op_name op = op_name (ops ! i)) (rev ops) = Some (ops ! i)" if "i < length ops" for i
    using find_rev_distinct [OF d] that by simp
  have conf: "map_of config (op_name (ops ! i)) = Some (cs ! i)" if "i < length ops" for i
    using map_of_zip_nth [of "map op_name ops" cs i] cs d that by simp
  have keep: "c\<lparr>cc_approx_rank := None\<rparr> = c" if "c \<in> set cs" for c using cs(3) that by (cases c) auto
  have "map (\<lambda>(nm, c). case find (\<lambda>op. op_name op = nm) (rev ops) of None \<Rightarrow> []
          | Some op \<Rightarrow> (let c' = c\<lparr>cc_approx_rank := None\<rparr> in if is_no_compression c' then [] else translate op c')) config
      = map (\<lambda>op. case map_of config (op_name op) of Some c \<Rightarrow> if is_no_compression c then [] else translate op c | None \<Rightarrow> []) ops"
    using cs(1) by (intro nth_equalityI) (simp_all add: cs(2) op conf [unfolded cs(2)] keep Let_def)
  then show ?thesis by (simp add: reconstruct_model_def reconstruct_actions_def trial_actions_def ops_def [symmetric])
qed

section \<open>The cap on the operators\<close>

lemma filter_enumerate:
  "filter P (map (\<lambda>(i, x). f i x) (enumerate 0 xs)) = map (\<lambda>i. f i (xs ! i)) (filter (\<lambda>i. P (f i (xs ! i))) [0..<length xs])"
proof -
  have "map (\<lambda>(i, x). f i x) (enumerate 0 xs) = map (\<lambda>i. f i (xs ! i)) [0..<length xs]"
    by (intro nth_equalityI) (simp_all add: nth_enumerate_eq)
  then show ?thesis by (simp add: filter_map comp_def)
qed

lemma length_filter_inter: "distinct xs \<Longrightarrow> length (filter (\<lambda>i. i \<notin> A) xs) = length xs - card (set xs \<inter> A)"
proof -
  assume "distinct xs"
  then have "length (filter (\<lambda>i. i \<notin> A) xs) = card (set xs - A)"
    by (simp add: distinct_card [symmetric] set_diff_eq)
  then show ?thesis using \<open>distinct xs\<close> by (simp add: card_Diff_subset_Int distinct_card)
qed

lemma cap_keeps_operators:
  "map (\<lambda>op. op\<lparr>op_is_compressible := False\<rparr>) (gi_operators (cap_compressible cap gi))
     = map (\<lambda>op. op\<lparr>op_is_compressible := False\<rparr>) (gi_operators gi)"
proof -
  have "map (\<lambda>op. op\<lparr>op_is_compressible := False\<rparr>)
      (map (\<lambda>(i, op). if i \<in> low then op\<lparr>op_is_compressible := False\<rparr> else op) (enumerate 0 ops))
    = map (\<lambda>op. op\<lparr>op_is_compressible := False\<rparr>) ops" for low and ops :: "operator_info list"
    by (intro nth_equalityI) (simp_all add: nth_enumerate_eq)
  then show ?thesis by (simp add: cap_compressible_def Let_def)
qed

text \<open>The search never sees more operators than the cap allows: the cap leaves exactly as many compressible
  operators as there are, or as it says, and changes no operator in any other way.\<close>

theorem cap_bounds_the_search:
  "length (compressible_operators (cap_compressible cap gi)) = min cap (length (compressible_operators gi)) \<and>
   map (\<lambda>op. op\<lparr>op_is_compressible := False\<rparr>) (gi_operators (cap_compressible cap gi))
     = map (\<lambda>op. op\<lparr>op_is_compressible := False\<rparr>) (gi_operators gi)"
proof -
  define ops where "ops = gi_operators gi"
  define comp where "comp = filter (\<lambda>i. op_is_compressible (ops ! i)) [0..<length ops]"
  define ranked where "ranked = sort_desc (\<lambda>i. (op_flops (ops ! i), op_param_count (ops ! i))) comp"
  have "map (\<lambda>(i, x). x) (enumerate 0 ops) = ops" by (intro nth_equalityI) (simp_all add: nth_enumerate_eq)
  then have len: "length (compressible_operators gi) = length comp"
    using arg_cong [OF filter_enumerate [of op_is_compressible "\<lambda>_ x. x" ops], of length]
    by (simp add: compressible_operators_def comp_def ops_def [symmetric])
  have rc: "length ranked = length comp" "set ranked = set comp" "distinct ranked"
    by (simp_all add: ranked_def) (metis comp_def distinct_filter distinct_upt mset_eq_imp_distinct_iff mset_sort_desc)
  show ?thesis
  proof (cases "length ranked \<le> cap")
    case True
    then have "cap_compressible cap gi = gi" by (simp add: cap_compressible_def Let_def ranked_def comp_def ops_def)
    with True rc(1) len show ?thesis by (simp add: cap_keeps_operators)
  next
    case False
    define low where "low = set (drop cap ranked)"
    let ?mark = "\<lambda>i op. if i \<in> low then op\<lparr>op_is_compressible := False\<rparr> else op"
    have c: "gi_operators (cap_compressible cap gi) = map (\<lambda>(i, op). ?mark i op) (enumerate 0 ops)"
      using False by (simp add: cap_compressible_def Let_def ranked_def comp_def ops_def low_def)
    have sub: "low \<subseteq> set comp" using rc(2) by (auto simp: low_def dest: in_set_dropD)
    have "compressible_operators (cap_compressible cap gi) = map (\<lambda>i. ?mark i (ops ! i)) (filter (\<lambda>i. op_is_compressible (?mark i (ops ! i))) [0..<length ops])"
      unfolding compressible_operators_def c by (rule filter_enumerate)
    also have "filter (\<lambda>i. op_is_compressible (?mark i (ops ! i))) [0..<length ops] = filter (\<lambda>i. i \<notin> low) comp"
      by (auto simp: comp_def intro: filter_cong)
    finally have "length (compressible_operators (cap_compressible cap gi)) = length comp - card low"
      using length_filter_inter [of comp low] sub by (simp add: comp_def Int_absorb1)
    moreover have "card low = length ranked - cap" using rc(3) by (simp add: low_def distinct_card)
    moreover have "map (\<lambda>op. op\<lparr>op_is_compressible := False\<rparr>) (gi_operators (cap_compressible cap gi)) = map (\<lambda>op. op\<lparr>op_is_compressible := False\<rparr>) ops"
      unfolding c by (intro nth_equalityI) (simp_all add: nth_enumerate_eq)
    ultimately show ?thesis using False rc(1) len by (simp add: cap_keeps_operators)
  qed
qed


section \<open>A served trial can be reproduced\<close>

lemma backfill_points:
  "map (\<lambda>p. (pp_trial_number p, pp_config p, pp_accuracy p, pp_size p, pp_size_ratio p)) (pr_all_trials (backfill en gi r))
     = map (\<lambda>p. (pp_trial_number p, pp_config p, pp_accuracy p, pp_size p, pp_size_ratio p)) (pr_all_trials r)"
  "set (pr_pareto_points r) \<subseteq> set (pr_all_trials r) \<Longrightarrow>
     set (pr_pareto_points (backfill en gi r)) \<subseteq> set (pr_all_trials (backfill en gi r))"
  by (auto simp: backfill_def repair_latency_def Let_def split: option.split)

lemma optimizer_choice:
  assumes "optimizer_phase en pc g gi profile spec arch pareto = Some (Inr sv)" "sv_chosen sv = Some c"
  shows "\<exists>r m. pareto = Some r \<and> choose_point r = Some c \<and> sv_model sv = Some m \<and>
    reconstruct_model (en_env en) g gi (pp_config c) = Some (Inr m)"
  using assms
  by (auto simp: optimizer_phase_def select_candidate_def Let_def split: option.splits if_splits)

lemma cap_names: "distinct (map op_name (gi_operators info)) \<Longrightarrow> distinct (map op_name (compressible_operators (cap_compressible cap info)))"
proof -
  assume d: "distinct (map op_name (gi_operators info))"
  have "map op_name (gi_operators (cap_compressible cap info)) = map op_name (map (\<lambda>op. op\<lparr>op_is_compressible := False\<rparr>) (gi_operators (cap_compressible cap info)))"
    by (simp add: comp_def)
  also have "\<dots> = map op_name (gi_operators info)"
      unfolding cap_keeps_operators by (simp add: comp_def)
  finally have "distinct (map op_name (gi_operators (cap_compressible cap info)))" using d by simp
  then show ?thesis by (auto simp: compressible_operators_def distinct_map intro: inj_on_subset)
qed

lemma map_of_numbers:
  "distinct (map pp_trial_number ps) \<Longrightarrow> c \<in> set ps \<Longrightarrow>
    map_of (map (\<lambda>p. (str_of_nat (pp_trial_number p), pp_config p)) ps) (str_of_nat (pp_trial_number c)) = Some (pp_config c)"
  by (induction ps) (auto simp: image_iff)

lemma chosen_was_measured:
  assumes "search_phase en pc g gi profile spec probes = Some (Inr (Some r0))" "choose_point (backfill en gi r0) = Some c"
    and "distinct (map op_name (compressible_operators gi))" "reconstruct_model (en_env en) g gi (pp_config c) = Some (Inr m)"
  shows "pp_size c = ge_byte_size (en_env en) m \<and>
    dfcv_eval en g spec (min 16 (max 2 (length probes))) (pc_seed pc) m = ok (pp_accuracy c) \<and>
    distinct (map pp_trial_number (pr_all_trials (backfill en gi r0))) \<and> c \<in> set (pr_all_trials (backfill en gi r0)) \<and>
    fst ` set (pp_config c) = op_name ` set (compressible_operators gi)"
proof -
  let ?se = "search_env_for en pc g spec probes" and ?r = "backfill en gi r0"
  from assms(1) have "search ?se (search_config_for pc) g gi profile = Some (Inr r0)"
    by (auto simp: search_phase_def split: if_splits option.splits sum.splits py_error.splits)
  note s = search_result [OF this]
  have c: "c \<in> set (pr_all_trials ?r)"
    using chosen_point_most_accurate [OF assms(2)] s backfill_points(2) by blast
  let ?key = "\<lambda>p. (pp_trial_number p, pp_config p, pp_accuracy p, pp_size p, pp_size_ratio p)"
  have "?key c \<in> set (map ?key (pr_all_trials ?r))" using c by simp
  then have "?key c \<in> set (map ?key (pr_all_trials r0))" unfolding backfill_points(1) .
  then obtain p where p: "p \<in> set (pr_all_trials r0)" "pp_config c = pp_config p" "pp_accuracy c = pp_accuracy p" "pp_size c = pp_size p" by auto
  with s obtain m' where m': "measured ?se (sc_allow_pruning (search_config_for pc)) g gi profile p m'" by blast
  then obtain tr where "trial_config False tr (space_of (action_spaces gi profile)) (compressible_operators gi) [] = ok (pp_config p)"
    by (auto simp: measured_def search_config_for_def)
  note tr = this
  from trial_config_shape [OF tr] assms(3) obtain cs where "length cs = length (compressible_operators gi)"
    "pp_config p = zip (map op_name (compressible_operators gi)) cs" by auto
  then have "map fst (pp_config p) = map op_name (compressible_operators gi)" by simp
  from arg_cong [OF this, of set] have names: "fst ` set (pp_config c) = op_name ` set (compressible_operators gi)" by (simp add: p(2))
  from reconstruct_trial [OF assms(3) tr, of "en_env en" g] m' assms(4) p(2) have "m' = m"
    by (simp add: measured_def apply_or_keep_def search_env_for_def)
  moreover have "distinct (map pp_trial_number (pr_all_trials ?r))"
    using s arg_cong [OF backfill_points(1) [of en gi r0], of "map fst"] by (simp add: comp_def)
  ultimately show ?thesis using m' p c names by (auto simp: measured_def search_env_for_def)
qed

lemma served_trial:
  assumes "run_pipeline en pc model_id nm run_id g spec = Some (Inr pa)" "pa_meta pa = FromPareto n rung acc ratio bytes"
    and "analyze (ox_infer_shapes (ge_ox (en_env en))) g = ok info" "distinct (map op_name (gi_operators info))"
  shows "bytes = ge_byte_size (en_env en) (pa_artifact pa) \<and>
    (\<exists>configs config. pa_trial_configs pa = Some configs \<and> map_of configs (str_of_nat n) = Some config \<and>
       fst ` set config = op_name ` set (compressible_operators (cap_compressible (pc_max_ops pc) info)) \<and>
       reconstruct_model (en_env en) g (cap_compressible (pc_max_ops pc) info) config = Some (ok (pa_artifact pa))) \<and>
    (\<exists>k a. dfcv_eval en g (static_spec spec) k (pc_seed pc) (pa_artifact pa) = ok a \<and> acc = py_round 2 (a * 100)) \<and>
    ex_served (pa_pareto pa) = Some (int n)"
proof -
  define gi where "gi = cap_compressible (pc_max_ops pc) info"
  from assms(1,3) obtain profile arch pareto found probes probe sv compressed where
    o: "optimizer_phase en pc g gi profile (static_spec spec) arch pareto = Some (Inr sv)"
    and s: "serve_model (en_env en) g gi profile sv = Some (Inr compressed)"
    and f: "finish_pipeline en pc model_id nm run_id g gi profile (static_spec spec) arch probe pareto sv compressed = Some (Inr pa)"
    and sp: "search_phase en pc g gi profile (static_spec spec) probes = Some (Inr found)" "pareto = map_option (backfill en gi) found"
    by (auto simp: run_pipeline_def Let_def gi_def)
  have pa: "pa_artifact pa = compressed" "artifact_meta_of sv (ge_byte_size (en_env en) compressed) = FromPareto n rung acc ratio bytes"
    using f assms(2) by (auto simp: finish_pipeline_def Let_def)
  then obtain c where c: "sv_chosen sv = Some c" "n = pp_trial_number c" "bytes = ge_byte_size (en_env en) compressed"
      "acc = py_round 2 (pp_accuracy c * 100)"
    by (auto simp: artifact_meta_of_def split: option.splits)
  from optimizer_choice [OF o c(1)] obtain r m where r: "pareto = Some r" "choose_point r = Some c" "sv_model sv = Some m"
    "reconstruct_model (en_env en) g gi (pp_config c) = Some (Inr m)" by blast
  then have m: "m = compressed" using s by (simp add: serve_model_def)
  from r(1) sp(2) obtain r0 where r0: "found = Some r0" "r = backfill en gi r0" by auto
  note cm = chosen_was_measured [OF sp(1) [unfolded r0(1)] r(2) [unfolded r0(2)] _ r(4), unfolded m]
  have d: "distinct (map op_name (compressible_operators gi))" unfolding gi_def by (rule cap_names [OF assms(4)])
  from cm [OF d] have all: "c \<in> set (pr_all_trials r)" "distinct (map pp_trial_number (pr_all_trials r))" by (auto simp: r0(2))
  then have "pr_all_trials r \<noteq> []" by auto
  with f r(1) c(1,2) have "pa_trial_configs pa = Some (map (\<lambda>p. (str_of_nat (pp_trial_number p), pp_config p)) (pr_all_trials r))"
      "ex_served (pa_pareto pa) = Some (int n)"
    by (auto simp: finish_pipeline_def Let_def experiment_of_def map_pareto_def)
  with map_of_numbers [OF all(2,1)] cm [OF d] r(4) m pa(1) c show ?thesis by (auto simp: gi_def)
qed

text \<open>C5: A served Pareto trial can be reproduced: when the operators have different names, the record of a
  served trial names its number, the stored configuration of that number rebuilds exactly the served artifact, the
  recorded bytes are the artifact's, and the recorded accuracy is what the evaluator gives for that artifact.\<close>

theorem served_trial_is_reproducible:
  assumes "run_pipeline en pc model_id nm run_id g spec = Some (Inr pa)" "pa_meta pa = FromPareto n rung acc ratio bytes"
    and "analyze (ox_infer_shapes (ge_ox (en_env en))) g = ok info" "distinct (map op_name (gi_operators info))"
  shows "bytes = ge_byte_size (en_env en) (pa_artifact pa) \<and>
    (\<exists>configs config. pa_trial_configs pa = Some configs \<and> map_of configs (str_of_nat n) = Some config \<and>
       reconstruct_model (en_env en) g (cap_compressible (pc_max_ops pc) info) config = Some (ok (pa_artifact pa))) \<and>
    (\<exists>k a. dfcv_eval en g (static_spec spec) k (pc_seed pc) (pa_artifact pa) = ok a \<and> acc = py_round 2 (a * 100)) \<and>
    ex_served (pa_pareto pa) = Some (int n)"
  using served_trial [OF assms] by blast

section \<open>Cancellation and benchmark\<close>

text \<open>A cancellation noticed while a trial is evaluated is raised inside the objective, whose handler takes it
  for a failed evaluation: the trial gets accuracy 0 and the search goes on.\<close>

lemma cancelled_trial_is_swallowed:
  assumes "trial_config (sc_allow_pruning sc) tr spaces ops [] = ok config" "trial_actions config ops \<noteq> []"
    and "apply_actions (ge_ox (en_env en)) (ge_np (en_env en)) g (trial_actions config ops) = Some (ok c)" "en_cancelled_in en c"
  shows "objective (search_env_for en pc g spec probes) sc g ops spaces bl tr = Some (ok ((0, of_nat (bl_size bl)), None))"
  using assms by (simp add: objective_def search_env_for_def dfcv_eval_def)

text \<open>The buckets of the benchmark hold every sample in order; there are up to 47 of them, not 24.\<close>

lemma bench_chunks_cover:
  "samples \<noteq> [] \<Longrightarrow> concat (bench_chunks samples) = samples"
  "c \<in> set (bench_chunks samples) \<Longrightarrow> c \<noteq> []"
  "length (bench_chunks samples) \<le> 47"
  "length samples = 47 \<Longrightarrow> length (bench_chunks samples) = 47"
  using chunk_count [of 24 samples] by (auto simp: bench_chunks_def Let_def concat_chunks dest: chunks_nonempty)

section \<open>A complete run\<close>

text \<open>A one-operator model run through the whole pipeline: the settings, the environment and each phase evaluated.\<close>

definition demo_engine :: "unit engine" where
  "demo_engine = \<lparr>en_env = demo_env, en_draws = zero_draws, en_latency = (\<lambda>_. 1),
     en_sampler = (\<lambda>h n. \<lparr>tr_number = n, tr_precision = (\<lambda>k ps. hd ps), tr_prune = (\<lambda>k lo hi. lo), tr_fuse = (\<lambda>k. False)\<rparr>),
     en_best_trials = (\<lambda>h. []), en_hv = None, en_regressor = (\<lambda>_ _. 1), en_bench = (\<lambda>g n p. None), en_measure = (\<lambda>g p. 1),
     en_cancelled = (\<lambda>_. False), en_cancelled_in = (\<lambda>_. False)\<rparr>"
definition demo_pc :: pipeline_config where
  "demo_pc = \<lparr>pc_n_trials = 0, pc_n_probes = 1, pc_seed = 42, pc_max_ops = 24, pc_samples = 1, pc_guarantee = True, pc_tau = 0.95,
     pc_adaptive = False, pc_trials_per_dim = 10, pc_startup_trials = 10, pc_min_trials = 30, pc_early_stop = False,
     pc_hv_patience = 20, pc_hv_epsilon = 1 / 1000\<rparr>"

definition relu_info :: graph_info where
  "relu_info = \<lparr>gi_operators = [\<lparr>op_name = ''a'', op_type = ''Relu'', op_domain = ''ai.onnx'', op_category = ACTIVATION,
      op_inputs = [''x''], op_outputs = [''y''], op_input_shapes = [None], op_output_shapes = [None], op_param_count = 0,
      op_flops = 0, op_attributes = [], op_is_compressible = True, op_topo_index = 0\<rparr>],
     gi_adjacency = [(''a'', [])], gi_topo_order = [''a''], gi_input_names = [], gi_output_names = [], gi_total_params = 0,
     gi_total_flops = 0\<rparr>"

lemma relu_analyze: "analyze (\<lambda>g. None) (tiny_graph ''a'') = ok relu_info"
  by code_simp

definition relu_profile :: sensitivity_profile where
  "relu_profile = \<lparr>sp_results = [\<lparr>sr_operator = ''a'', sr_op_type = ''Relu'', sr_category = ACTIVATION, sr_sensitivity = Fin 0, sr_rank = - 1\<rparr>],
     sp_calibration_size = 1, sp_perturbation_scale = 1 / 100\<rparr>"

lemma relu_uosa: "uosa_analyze demo_ort (ge_normal demo_env) 0.01 (tiny_graph ''a'') relu_info [[(''x'', float_array [1] [Fin 0])]] () = ok relu_profile"
  by code_simp

lemma relu_probes: "probes_of demo_engine arch 1 seed (tiny_graph ''a'') [(''x'', [1])] = ok [[(''x'', float_array [1] [Fin 0])]]"
  by (simp add: probes_of_def generate_def demo_engine_def demo_env_def zero_draws_def generate_tabular_probes_def generate_image_probes_def
     tiny_graph_def matrix_weight_def linear_weight_def batch_shape_of_def tabular_scale_def estimate_input_scales_def validate_probes_def
     clean_probe_def demo_ort_def float_array_def on_draw_def Let_def)

lemma relu_detect: "\<exists>rep. detect (\<lambda>g. None) (tiny_graph ''a'') = ok rep"
  by (simp add: detect_def relu_analyze Let_def)
lemma relu_cap: "cap_compressible 24 relu_info = relu_info"
  by (simp add: cap_compressible_def relu_info_def sort_desc_def)

abbreviation relu :: graph where "relu \<equiv> tiny_graph ''a''"
abbreviation relu_spec :: "(string \<times> int list) list" where "relu_spec \<equiv> [(''x'', [1 :: int])]"
abbreviation relu_probe :: feed where "relu_probe \<equiv> [(''x'', float_array [1] [Fin 0])]"

lemma relu_compressible: "compressible_operators relu_info \<noteq> []"
  by (simp add: relu_info_def compressible_operators_def)

lemma relu_search:
  "\<exists>r. search_phase demo_engine demo_pc relu relu_info relu_profile relu_spec probes = Some (Inr (Some r)) \<and>
     pr_pareto_points r = [] \<and> pr_all_trials r = []"
proof -
  obtain acc where "dfcv_eval demo_engine relu relu_spec (min 16 (max 2 (length probes))) 42 relu = ok acc"
    by (simp add: dfcv_eval_def demo_engine_def)
  then show ?thesis using relu_compressible
    by (simp add: search_phase_def search_def search_env_for_def search_config_for_def demo_pc_def budget_def Let_def
        frontier_of_def compute_pareto_front_def demo_engine_def List.map_filter_def split: prod.split)
qed

lemma relu_gate: "\<exists>ps. gate_probes_for demo_engine demo_pc relu relu_info relu_spec arch = Some (Inr (Some ps))"
  using relu_compressible
  by (simp add: gate_probes_for_def build_gate_probes_def env_for_def demo_pc_def relu_probes [unfolded One_nat_def] upt_rec)

lemma relu_ladder:
  "\<exists>l. run_ladder demo_engine demo_pc relu relu_info relu_profile arch (Some ps) = Some (Inr (Some l)) \<and> gr_model l = relu \<and> gr_rung l = RUNG_ORIGINAL"
proof -
  have "build_candidate e rung relu relu_info relu_profile p = Some (ok None)" for e :: "unit env" and rung p
    by (simp add: build_candidate_def relu_info_def compressible_operators_def STANDARD_CATEGORIES_def ML_CATEGORIES_def)
  then show ?thesis
    by (simp add: run_ladder_def guarantee_compress_def ladder_rungs_def LADDERS_def try_rung_def rung_defs Let_def)
qed

lemma demo_live: "\<not> en_cancelled demo_engine k"
  by (simp add: demo_engine_def)

lemma relu_optimizer:
  assumes "pr_pareto_points r = []" "pr_all_trials r = []"
  shows "\<exists>sv. optimizer_phase demo_engine demo_pc relu relu_info relu_profile relu_spec arch (Some (backfill demo_engine relu_info r)) = Some (Inr sv) \<and>
    sv_model sv = Some relu \<and> sv_chosen sv = None"
proof -
  obtain ps where ps: "gate_probes_for demo_engine demo_pc relu relu_info relu_spec arch = Some (Inr (Some ps))" using relu_gate by blast
  obtain l where l: "run_ladder demo_engine demo_pc relu relu_info relu_profile arch (Some ps) = Some (Inr (Some l))" "gr_model l = relu"
    using relu_ladder by blast
  have b: "backfill demo_engine relu_info r = r" using assms by (simp add: backfill_def fit_latency_def)
  show ?thesis
    using l(2) by (simp add: optimizer_phase_def ps l(1) b choose_point_def assms check_cancel_def select_candidate_def demo_live)
qed

lemma relu_validates: "\<exists>vr. validate default_weights demo_ort relu relu [relu_probe] = ok vr"
  by (simp add: validate_def compute_output_fidelity_def demo_ort_def tiny_graph_def dict_of_def push_div_def divergence_def
      demo_wfs [unfolded tiny_graph_def] default_weights_def compute_structural_integrity_def Let_def
      float_array_def finite_array_def ptp_list_def np_ptp_def prediction_match_def
      mean_sq_diff_def mean_sq_plus_def pf_mean_def pf_sum_def ofs_scores_def)

lemma relu_edges: "edge_pairs (gi_adjacency relu_info) {''a''} [''a''] = []"
  by (simp add: edge_pairs_def add_edges_def kept_successors.simps succs_of_def relu_info_def)

lemma relu_kept: "ops_of relu_info ''a'' = Some (hd (gi_operators relu_info))" "topo_of relu_info = [''a'']" "kept_kinds relu_info = [(''a'', ''relu'')]"
  by (code_simp)+

lemma relu_layers: "\<exists>lg. map_architecture q nm relu_info = ok lg"
  by (simp add: map_architecture_def relu_kept relu_edges compute_layout_def Let_def preds_of_def)

lemmas relu_env = demo_env_def demo_engine_def

lemma relu_world:
  "ox_infer_shapes (ge_ox demo_env) = (\<lambda>g. None)" "ge_ort demo_env = demo_ort" "ge_rng demo_env 42 = ()" "en_env demo_engine = demo_env"
  "pc_max_ops demo_pc = 24" "pc_n_probes demo_pc = 1" "pc_seed demo_pc = 42" "pc_guarantee demo_pc" "static_spec relu_spec = relu_spec"
  by (simp_all add: relu_env demo_pc_def static_spec_def)

lemma relu_finish:
  "\<exists>pa. finish_pipeline demo_engine demo_pc m nm i relu relu_info relu_profile relu_spec arch probe pareto sv relu = Some (Inr pa)"
proof -
  obtain vr where vr: "validate default_weights demo_ort relu relu [relu_probe] = ok vr" using relu_validates by blast
  show ?thesis unfolding finish_pipeline_def Let_def relu_world relu_probes bind_result.simps vr check_cancel_def
    using relu_layers by (auto simp: demo_live)
qed

theorem pipeline_serves_only_certified_witness:
  "\<exists>pa. run_pipeline demo_engine demo_pc ''m'' ''net'' ''r'' relu relu_spec = Some (Inr pa) \<and>
     (pa_artifact pa = relu \<or> ge_byte_size demo_env (pa_artifact pa) < ge_byte_size demo_env relu)"
proof -
  obtain rep where d: "detect (\<lambda>g. None) relu = ok rep" using relu_detect by blast
  obtain r where r: "search_phase demo_engine demo_pc relu relu_info relu_profile relu_spec [relu_probe] = Some (Inr (Some r))"
    "pr_pareto_points r = []" "pr_all_trials r = []" using relu_search by blast
  obtain sv where sv: "optimizer_phase demo_engine demo_pc relu relu_info relu_profile relu_spec (mr_architecture rep)
      (Some (backfill demo_engine relu_info r)) = Some (Inr sv)" "sv_model sv = Some relu"
    using relu_optimizer [OF r(2,3)] by blast
  have serve: "serve_model demo_env relu relu_info relu_profile sv = Some (ok relu)" by (simp add: serve_model_def sv(2))
  have "run_pipeline demo_engine demo_pc ''m'' ''net'' ''r'' relu relu_spec =
      finish_pipeline demo_engine demo_pc ''m'' ''net'' ''r'' relu relu_info relu_profile relu_spec (mr_architecture rep)
        (Some relu_probe) (Some (backfill demo_engine relu_info r)) sv relu"
    by (simp add: run_pipeline_def serve check_cancel_def demo_live relu_world relu_analyze d relu_probes [simplified] relu_cap
        relu_uosa [simplified] r(1) [simplified] sv(1) Let_def del: then_do_ok)
  then obtain pa where pa: "run_pipeline demo_engine demo_pc ''m'' ''net'' ''r'' relu relu_spec = Some (Inr pa)"
    using relu_finish by metis
  from pipeline_serves_only_certified [OF pa relu_world(8)] pa show ?thesis by (auto simp: relu_world)
qed

section \<open>A run that serves a trial\<close>

definition svm_graph :: graph where
  "svm_graph = \<lparr>g_nodes = [\<lparr>n_name = ''a'', n_op_type = ''SVMClassifier'', n_domain = ''ai.onnx.ml'', n_inputs = [''x''],
      n_outputs = [''y''], n_attrs = []\<rparr>], g_inits = [], g_inputs = [], g_outputs = [], g_value_info = [], g_opset_import = []\<rparr>"

definition svm_engine :: "unit engine" where
  "svm_engine = demo_engine\<lparr>en_sampler := (\<lambda>h n. \<lparr>tr_number = n, tr_precision = (\<lambda>k ps. last ps), tr_prune = (\<lambda>k lo hi. lo), tr_fuse = (\<lambda>k. False)\<rparr>)\<rparr>"

definition svm_pc :: pipeline_config where
  "svm_pc = demo_pc\<lparr>pc_n_trials := 1, pc_guarantee := False\<rparr>"

definition svm_op :: operator_info where
  "svm_op = \<lparr>op_name = ''a'', op_type = ''SVMClassifier'', op_domain = ''ai.onnx.ml'', op_category = SVM,
      op_inputs = [''x''], op_outputs = [''y''], op_input_shapes = [None], op_output_shapes = [None], op_param_count = 0,
      op_flops = 0, op_attributes = [], op_is_compressible = True, op_topo_index = 0\<rparr>"

definition svm_info :: graph_info where
  "svm_info = relu_info\<lparr>gi_operators := [svm_op]\<rparr>"

lemmas svm_defs = svm_info_def svm_op_def relu_info_def

lemma svm_analyze: "analyze (\<lambda>g. None) svm_graph = ok svm_info"
  by code_simp

definition svm_profile :: sensitivity_profile where
  "svm_profile = \<lparr>sp_results = [\<lparr>sr_operator = ''a'', sr_op_type = ''SVMClassifier'', sr_category = SVM, sr_sensitivity = Fin 0, sr_rank = - 1\<rparr>],
     sp_calibration_size = 1, sp_perturbation_scale = 1 / 100\<rparr>"

lemma svm_uosa: "uosa_analyze demo_ort (ge_normal demo_env) 0.01 svm_graph svm_info [relu_probe] () = ok svm_profile"
  by code_simp

lemma svm_probes: "probes_of svm_engine arch 1 seed svm_graph relu_spec = ok [relu_probe]"
  by (simp add: probes_of_def generate_def svm_engine_def demo_engine_def demo_env_def zero_draws_def generate_tabular_probes_def generate_image_probes_def
     svm_graph_def matrix_weight_def linear_weight_def batch_shape_of_def tabular_scale_def estimate_input_scales_def validate_probes_def
     clean_probe_def demo_ort_def float_array_def on_draw_def Let_def)

lemma svm_detect: "\<exists>rep. detect (\<lambda>g. None) svm_graph = ok rep"
  by (simp add: detect_def svm_analyze Let_def)

lemma svm_cap: "cap_compressible 24 svm_info = svm_info"
  by (simp add: cap_compressible_def svm_defs sort_desc_def)

lemma svm_compressible: "compressible_operators svm_info = [svm_op]"
  by (simp add: svm_defs compressible_operators_def)

lemma svm_live: "\<not> en_cancelled svm_engine k" "en_cancelled_in svm_engine c = False"
  by (simp_all add: svm_engine_def demo_engine_def)

definition svm_config :: "(string \<times> compression_config) list" where
  "svm_config = [(''a'', \<lparr>cc_precision = FP16, cc_prune_ratio = 0, cc_fuse = False, cc_approx_rank = None\<rparr>)]"

lemma svm_space: "as_precisions (space_of (action_spaces svm_info svm_profile) svm_op) = [FP32, FP16]"
    "snd (as_prune_range (space_of (action_spaces svm_info svm_profile) svm_op)) = 0.3"
    "fuse_live svm_op (space_of (action_spaces svm_info svm_profile) svm_op) = False"
  by code_simp+

lemma svm_actions:
  "trial_actions svm_config [svm_op] = translate svm_op (default_config\<lparr>cc_precision := FP16\<rparr>)"
  "trial_actions svm_config [svm_op] \<noteq> []" "reconstruct_actions svm_info svm_config = trial_actions svm_config [svm_op]"
  by code_simp+

lemma svm_apply: "apply_actions (ge_ox demo_env) (ge_np demo_env) svm_graph (trial_actions svm_config [svm_op]) = Some (ok svm_graph)"
  unfolding svm_actions(1) by (subst svm_precision_is_ignored) (simp_all add: svm_op_def default_config_def demo_env_def)

lemma svm_reconstruct: "reconstruct_model demo_env svm_graph svm_info svm_config = Some (ok svm_graph)"
  by (simp only: reconstruct_model_def apply_or_keep_def svm_actions(2,3) svm_apply if_False)

lemma svm_validates: "\<exists>vr. validate default_weights demo_ort svm_graph svm_graph [relu_probe] = ok vr"
  by (simp add: validate_def compute_output_fidelity_def demo_ort_def svm_graph_def dict_of_def push_div_def divergence_def
      compute_weight_fidelity_def weight_map_def extract_float_attributes_def default_weights_def compute_structural_integrity_def Let_def
      float_array_def finite_array_def ptp_list_def np_ptp_def prediction_match_def
      mean_sq_diff_def mean_sq_plus_def pf_mean_def pf_sum_def ofs_scores_def)

lemma svm_config_of: "trial_config False ((en_sampler svm_engine h n)\<lparr>tr_number := 0\<rparr>) (space_of (action_spaces svm_info svm_profile)) [svm_op] [] = ok svm_config"
  by (simp add: op_config_def svm_space svm_engine_def precision_of_value_def svm_config_def svm_op_def [symmetric] Let_def split: prod.split)
     (simp add: svm_op_def)

lemma svm_search:
  "\<exists>r. search_phase svm_engine svm_pc svm_graph svm_info svm_profile relu_spec probes = Some (Inr (Some r)) \<and>
     map pp_config (pr_pareto_points r) = [svm_config] \<and> pr_pareto_points r = pr_all_trials r"
proof -
  define se where "se = search_env_for svm_engine svm_pc svm_graph relu_spec probes"
  obtain acc where a: "se_eval se svm_graph = ok acc"
    by (simp add: se_def search_env_for_def dfcv_eval_def svm_live)
  have se: "se_best_trials se = (\<lambda>h. [])" "se_byte_size se svm_graph = 2" "se_ox se = ge_ox demo_env" "se_np se = ge_np demo_env"
      "se_sampler se = en_sampler svm_engine"
    by (simp_all add: se_def search_env_for_def svm_engine_def demo_engine_def demo_env_def svm_graph_def)
  have sc: "sc_allow_pruning (search_config_for svm_pc) = False" "budget (search_config_for svm_pc) d = 1" for d
    by (simp_all add: search_config_for_def svm_pc_def demo_pc_def budget_def)
  have "\<exists>r. search se (search_config_for svm_pc) svm_graph svm_info svm_profile = Some (Inr r) \<and>
     map pp_config (pr_pareto_points r) = [svm_config] \<and> pr_pareto_points r = pr_all_trials r"
    by (simp add: search_def svm_compressible a sc objective_def svm_config_of svm_actions(2) svm_apply se Let_def
        frontier_of_def compute_pareto_front_def List.map_filter_def point_dom_def split: prod.split del: trial_config.simps effective_dimensionality.simps)
  then obtain r where "search se (search_config_for svm_pc) svm_graph svm_info svm_profile = Some (Inr r)"
     "map pp_config (pr_pareto_points r) = [svm_config]" "pr_pareto_points r = pr_all_trials r" by (elim exE conjE)
  moreover from this(1) have "search_phase svm_engine svm_pc svm_graph svm_info svm_profile relu_spec probes = Some (Inr (Some r))"
    by (simp add: search_phase_def svm_compressible se_def)
  ultimately show ?thesis by (intro exI [of _ r] conjI)
qed

lemma svm_backfill: "pr_all_trials r = [p] \<Longrightarrow> backfill en gi r = r"
  by (simp add: backfill_def fit_latency_def)

lemma svm_optimizer:
  assumes "map pp_config (pr_pareto_points r) = [svm_config]"
  shows "\<exists>sv c. optimizer_phase svm_engine svm_pc svm_graph svm_info svm_profile relu_spec arch (Some r) = Some (Inr sv) \<and>
    sv_model sv = Some svm_graph \<and> sv_chosen sv = Some c \<and> sv_rung sv = None \<and> pr_pareto_points r = [c]"
proof -
  obtain c where c: "pr_pareto_points r = [c]" "pp_config c = svm_config" using assms by auto
  have "en_env svm_engine = demo_env" "pc_guarantee svm_pc = False" by (simp_all add: svm_engine_def demo_engine_def svm_pc_def)
  then show ?thesis using c
    by (simp add: optimizer_phase_def gate_probes_for_def run_ladder_def check_cancel_def svm_live choose_point_def
        svm_reconstruct select_candidate_def then_do_def)
qed

lemma svm_kept: "ops_of svm_info ''a'' = Some svm_op" "topo_of svm_info = [''a'']" "kept_kinds svm_info = [(''a'', ''dense'')]"
  by (code_simp)+

lemma svm_edges: "edge_pairs (gi_adjacency svm_info) {''a''} [''a''] = []"
  by (simp add: edge_pairs_def add_edges_def kept_successors.simps succs_of_def svm_defs)

lemma svm_layers: "\<exists>lg. map_architecture q nm svm_info = ok lg"
  by (simp add: map_architecture_def svm_kept svm_edges compute_layout_def Let_def preds_of_def)

lemma svm_world:
  "ox_infer_shapes (ge_ox demo_env) = (\<lambda>g. None)" "ge_ort demo_env = demo_ort" "ge_rng demo_env 42 = ()" "en_env svm_engine = demo_env"
  "pc_max_ops svm_pc = 24" "pc_n_probes svm_pc = 1" "pc_seed svm_pc = 42" "static_spec relu_spec = relu_spec"
  by (simp_all add: relu_env svm_engine_def svm_pc_def demo_pc_def static_spec_def)

lemma finish_meta:
  "finish_pipeline en pc m nm i g gi profile spec arch probe pareto sv c = Some (Inr pa) \<Longrightarrow>
    pa_meta pa = artifact_meta_of sv (ge_byte_size (en_env en) c)"
  by (auto simp: finish_pipeline_def Let_def)

lemma svm_finish:
  "\<exists>pa. finish_pipeline svm_engine svm_pc m nm i svm_graph svm_info svm_profile relu_spec arch probe pareto sv svm_graph = Some (Inr pa)"
proof -
  obtain vr where vr: "validate default_weights demo_ort svm_graph svm_graph [relu_probe] = ok vr" using svm_validates by blast
  show ?thesis unfolding finish_pipeline_def Let_def svm_world svm_probes bind_result.simps vr check_cancel_def
    using svm_layers by (auto simp: svm_live)
qed

lemma svm_run:
  "\<exists>pa n rung acc ratio bytes. run_pipeline svm_engine svm_pc ''m'' ''net'' ''r'' svm_graph relu_spec = Some (Inr pa) \<and>
     pa_meta pa = FromPareto n rung acc ratio bytes"
proof -
  obtain rep where d: "detect (\<lambda>g. None) svm_graph = ok rep" using svm_detect by blast
  obtain r where r: "search_phase svm_engine svm_pc svm_graph svm_info svm_profile relu_spec [relu_probe] = Some (Inr (Some r))"
    "map pp_config (pr_pareto_points r) = [svm_config]" "pr_pareto_points r = pr_all_trials r" using svm_search [of "[relu_probe]"] by (elim exE conjE)
  then have b: "backfill svm_engine svm_info r = r" by (auto intro: svm_backfill)
  obtain sv c where sv: "optimizer_phase svm_engine svm_pc svm_graph svm_info svm_profile relu_spec (mr_architecture rep) (Some r) = Some (Inr sv)"
    "sv_model sv = Some svm_graph" "sv_chosen sv = Some c"
    using svm_optimizer [OF r(2)] by blast
  have serve: "serve_model demo_env svm_graph svm_info svm_profile sv = Some (ok svm_graph)" by (simp add: serve_model_def sv(2))
  have "run_pipeline svm_engine svm_pc ''m'' ''net'' ''r'' svm_graph relu_spec =
      finish_pipeline svm_engine svm_pc ''m'' ''net'' ''r'' svm_graph svm_info svm_profile relu_spec (mr_architecture rep)
        (Some relu_probe) (Some r) sv svm_graph"
    by (simp add: run_pipeline_def serve check_cancel_def svm_live svm_world svm_analyze d svm_probes [simplified] svm_cap
        svm_uosa [simplified] r(1) [simplified] b sv(1) Let_def del: then_do_ok)
  then obtain pa where pa: "run_pipeline svm_engine svm_pc ''m'' ''net'' ''r'' svm_graph relu_spec = Some (Inr pa)"
    "pa_meta pa = artifact_meta_of sv (ge_byte_size demo_env svm_graph)"
    using svm_finish finish_meta svm_world(4) by metis
  from pa(2) sv(3) obtain n rung acc ratio bytes where "pa_meta pa = FromPareto n rung acc ratio bytes" by (simp add: artifact_meta_of_def)
  then show ?thesis using pa(1) by blast
qed

lemma svm_names: "distinct (map op_name (gi_operators svm_info))"
  by (simp add: svm_defs)

theorem served_trial_is_reproducible_witness:
  "\<exists>pa n configs config. run_pipeline svm_engine svm_pc ''m'' ''net'' ''r'' svm_graph relu_spec = Some (Inr pa) \<and>
     pa_trial_configs pa = Some configs \<and> map_of configs (str_of_nat n) = Some config \<and>
     reconstruct_model demo_env svm_graph svm_info config = Some (ok (pa_artifact pa))"
proof -
  obtain pa n rung acc ratio bytes where pa: "run_pipeline svm_engine svm_pc ''m'' ''net'' ''r'' svm_graph relu_spec = Some (Inr pa)"
    "pa_meta pa = FromPareto n rung acc ratio bytes" using svm_run by blast
  show ?thesis using served_trial_is_reproducible [OF pa] svm_analyze pa(1) svm_names by (fastforce simp: svm_world svm_cap)
qed
end
