(* ===== verification/Trial_Export.thy ===== *)
theory Trial_Export
  imports Engine_Adapter Registry
begin

text \<open>
  The download of single trials, \<open>app/services/trial_export.py\<close> and \<open>app/routers/pareto.py\<close>, and what a job hands from the
  pipeline to the worker (\<open>app/services/jobs.py\<close>).  A graph is stored as the text \<open>save\<close> makes of it and read with \<open>load\<close>; the
  per-model lock around the first export is left out, trial numbers are natural.  The last theorem joins the
  pipeline, the worker, the database, the object store and the export: the exported served trial is the served file.
\<close>

section \<open>Configurations in the database\<close>

definition stored_of :: "compression_config \<Rightarrow> stored_config" where
  "stored_of c = \<lparr>so_precision = precision_name (cc_precision c), so_prune = cc_prune_ratio c, so_fuse = cc_fuse c\<rparr>"

definition precision_named :: "string \<Rightarrow> precision_level option" where
  "precision_named nm = find (\<lambda>p. precision_name p = nm) [FP32, FP16, INT8, INT4]"

definition config_of_stored :: "stored_config \<Rightarrow> compression_config result" where
  "config_of_stored s =
     (case precision_named (so_precision s) of
        None \<Rightarrow> raise KeyError
      | Some p \<Rightarrow> ok \<lparr>cc_precision = p, cc_prune_ratio = so_prune s, cc_fuse = so_fuse s, cc_approx_rank = None\<rparr>)"

fun decode_config :: "(string \<times> stored_config) list \<Rightarrow> (string \<times> compression_config) list result" where
  "decode_config [] = ok []"
| "decode_config ((nm, s) # rest) =
     bind_result (config_of_stored s) (\<lambda>c. bind_result (decode_config rest) (\<lambda>cs. ok ((nm, c) # cs)))"

lemma config_of_stored_of: "config_of_stored (stored_of c) = ok (c\<lparr>cc_approx_rank := None\<rparr>)"
  by (cases c; cases "cc_precision c") (simp_all add: config_of_stored_def stored_of_def precision_named_def)

lemma decode_encode:
  "decode_config (map (\<lambda>(nm, c). (nm, stored_of c)) config) = ok (map (\<lambda>(nm, c). (nm, c\<lparr>cc_approx_rank := None\<rparr>)) config)"
  by (induction config) (auto simp: config_of_stored_of)

lemma reconstruct_ignores_rank:
  "reconstruct_actions gi (map (\<lambda>(nm, c). (nm, c\<lparr>cc_approx_rank := None\<rparr>)) config) = reconstruct_actions gi config"
  unfolding reconstruct_actions_def map_map comp_def
  by (rule arg_cong [of _ _ concat], rule map_cong) (auto simp: Let_def split: option.split prod.split)

section \<open>From the pipeline to the worker\<close>

definition trial_cell_of :: "trial_view \<Rightarrow> trial_cell" where
  "trial_cell_of t = \<lparr>tc_number = tv_number t, tc_accuracy = tv_accuracy t, tc_latency = tv_latency t, tc_frontier = tv_frontier t\<rparr>"

fun finite_value :: "py_float \<Rightarrow> real option" where
  "finite_value (Fin x) = Some x"
| "finite_value _ = None"

definition record_of :: "artifact_meta \<Rightarrow> artifact_record" where
  "record_of m =
     (case m of
        FromPareto n rung acc ratio bytes \<Rightarrow>
          \<lparr>am_source = ''pareto'', am_rung = rung, am_trial = Some (int n), am_accuracy = Some acc, am_ratio = Some ratio,
           am_bytes = Some bytes, am_ofs = None\<rparr>
      | FromLadder rung ofs bytes \<Rightarrow>
          \<lparr>am_source = ''ladder'', am_rung = Some rung, am_trial = None, am_accuracy = None, am_ratio = None,
           am_bytes = Some bytes, am_ofs = Option.bind ofs finite_value\<rparr>
      | FromFallback bytes \<Rightarrow>
          \<lparr>am_source = ''fallback'', am_rung = None, am_trial = None, am_accuracy = None, am_ratio = None, am_bytes = Some bytes,
           am_ofs = None\<rparr>)"

definition artifacts_of :: "(graph \<Rightarrow> string) \<Rightarrow> (layer_graph \<Rightarrow> string) \<Rightarrow> pipeline_artifacts \<Rightarrow> artifacts" where
  "artifacts_of save render pa =
     \<lparr>ar_file = Some (''.onnx'', save (pa_artifact pa)), ar_ingested = Some (save (pa_ingested pa)),
      ar_architecture = PText (render (pa_architecture pa)), ar_trials = map trial_cell_of (ex_trials (pa_pareto pa)),
      ar_base_accuracy = Some (ex_base_accuracy (pa_pareto pa)), ar_drop_budget = Some (pb_drop (ex_budget (pa_pareto pa))),
      ar_benchmark = map_option (\<lambda>b. PBenchmark (Some (su_p95 (bm_original b))) (Some (su_p95 (bm_compressed b)))
                                       (finite_value (bm_agreement b))) (pa_benchmark pa),
      ar_trial_configs = map_option (\<lambda>cs. PConfigs (map (\<lambda>(n, config). (n, map (\<lambda>(nm, c). (nm, stored_of c)) config)) cs))
                           (pa_trial_configs pa),
      ar_meta = Some (PMeta (record_of (pa_meta pa))), ar_best_accuracy = Some (pa_best_accuracy pa),
      ar_risk_level = pa_risk pa, ar_max_sensitivity = sens_value (pa_max_sensitivity pa)\<rparr>"

section \<open>Export\<close>

definition stored_trial_config :: "db \<Rightarrow> string \<Rightarrow> string \<Rightarrow> nat \<Rightarrow> (string \<times> stored_config) list result" where
  "stored_trial_config d model_id user n =
     (case get_cached_result d model_id ''pareto_configs'' user of
        Some (PConfigs (t # ts)) \<Rightarrow>
          (case map_of (t # ts) (str_of_nat n) of
             None \<Rightarrow> raise (HTTPException 404 ''trial_not_found'')
           | Some config \<Rightarrow> ok config)
      | _ \<Rightarrow> raise (HTTPException 409 ''trial_export_unavailable''))"

record export_env =
  xe_load :: "string \<Rightarrow> graph result"
  xe_save :: "graph \<Rightarrow> string"
  xe_sha :: "string \<Rightarrow> string"
  xe_max_mb :: nat

record export =
  xp_trial :: nat
  xp_file :: string
  xp_bytes :: nat
  xp_sha :: string
  xp_path :: string

definition materialize ::
  "'r env \<Rightarrow> export_env \<Rightarrow> string \<Rightarrow> string \<Rightarrow> (string \<times> stored_config) list \<Rightarrow> store \<Rightarrow> store run" where
  "materialize e x src_key dst_key stored st =
     then_do (Some (read_bytes st src_key)) (\<lambda>raw.
       if length raw > xe_max_mb x * 10 ^ 6 then Some (raise (HTTPException 413 ''model_too_large''))
       else then_do (Some (xe_load x raw)) (\<lambda>g.
            then_do (Some (analyze (ox_infer_shapes (ge_ox e)) g)) (\<lambda>info.
            then_do (Some (decode_config stored)) (\<lambda>config.
            then_do (reconstruct_model e g info config) (\<lambda>compressed.
              Some (ok (store_put dst_key (xe_save x compressed) st)))))))"

definition export_trial :: "'r env \<Rightarrow> export_env \<Rightarrow> string \<Rightarrow> string \<Rightarrow> nat \<Rightarrow> db \<Rightarrow> store \<Rightarrow> (store \<times> export) run" where
  "export_trial e x model_id user n d st =
     (let key = trial_artifact_key model_id n; src_key = ingested_key model_id in
      then_do (Some (stored_trial_config d model_id user n)) (\<lambda>config.
      then_do (if store_exists st key then Some (ok st)
               else if \<not> store_exists st src_key then Some (raise (HTTPException 409 ''trial_export_unavailable''))
               else materialize e x src_key key config st) (\<lambda>st'.
      then_do (Some (read_bytes st' key)) (\<lambda>content.
        Some (ok (st', \<lparr>xp_trial = n, xp_file = path_name key, xp_bytes = length content, xp_sha = xe_sha x content,
                        xp_path = ''/api/models/'' @ model_id @ ''/pareto/trials/'' @ str_of_nat n @ ''/artifact''\<rparr>))))))"

definition stream_trial_artifact :: "db \<Rightarrow> store \<Rightarrow> string \<Rightarrow> string \<Rightarrow> nat \<Rightarrow> (string \<times> nat \<times> string) result" where
  "stream_trial_artifact d st model_id user n =
     bind_result (stored_trial_config d model_id user n) (\<lambda>_.
       case open_stream st (trial_artifact_key model_id n) of
         Inr (content, len) \<Rightarrow> ok (content, len, path_name (trial_artifact_key model_id n))
       | Inl _ \<Rightarrow> raise (HTTPException 404 ''trial_artifact_missing''))"

section \<open>Handlers\<close>

definition get_pareto_payload :: "db \<Rightarrow> string \<Rightarrow> string \<Rightarrow> payload result" where
  "get_pareto_payload d model_id user =
     bind_result (owned_model d model_id user) (\<lambda>m.
       case get_cached_result d model_id ''pareto'' user of
         Some p \<Rightarrow> ok p
       | None \<Rightarrow> raise (HTTPException 404 (if md_weights_only m then ''weights_only_checkpoint'' else ''not_analyzed'')))"

definition get_architecture_payload :: "db \<Rightarrow> string \<Rightarrow> string \<Rightarrow> payload result" where
  "get_architecture_payload d model_id user =
     bind_result (owned_model d model_id user) (\<lambda>_.
       case get_cached_result d model_id ''architecture'' user of
         Some p \<Rightarrow> ok p | None \<Rightarrow> raise (HTTPException 404 ''not_analyzed''))"

definition trial_export :: "'r env \<Rightarrow> export_env \<Rightarrow> string \<Rightarrow> nat \<Rightarrow> string \<Rightarrow> db \<Rightarrow> store \<Rightarrow> (store \<times> export) run" where
  "trial_export e x model_id n user d st =
     then_do (Some (owned_model d model_id user)) (\<lambda>_. export_trial e x model_id user n d st)"

definition trial_artifact :: "string \<Rightarrow> nat \<Rightarrow> string \<Rightarrow> db \<Rightarrow> store \<Rightarrow> (string \<times> nat \<times> string) result" where
  "trial_artifact model_id n user d st = bind_result (owned_model d model_id user) (\<lambda>_. stream_trial_artifact d st model_id user n)"

section \<open>What the worker leaves behind\<close>

lemma find_updated:
  "(\<And>r. P (f r) = P r) \<Longrightarrow> find P (upd_where P f t) = map_option f (find P t)"
  "(\<And>r. P r \<Longrightarrow> \<not> Q r) \<Longrightarrow> (\<And>r. P r \<Longrightarrow> \<not> Q (f r)) \<Longrightarrow> find Q (upd_where P f t) = find Q t"
  by (induction t) (auto simp: upd_where_def)

lemma get_put_cached:
  "get_cached_result (put_cached_result m k p u d) m' k' u' =
     (if m' = m \<and> k' = k \<and> u' = u then Some p else get_cached_result d m' k' u')"
proof -
  define hit :: "cache_row \<Rightarrow> bool" where "hit = (\<lambda>r. rc_model r = m \<and> rc_kind r = k \<and> rc_user r = u)"
  define ask :: "cache_row \<Rightarrow> bool" where "ask = (\<lambda>r. rc_model r = m' \<and> rc_kind r = k' \<and> rc_user r = u')"
  have get: "get_cached_result x m' k' u' = map_option rc_payload (find ask (t_cache x))" for x by (simp add: get_cached_result_def ask_def)
  show ?thesis
  proof (cases "m' = m \<and> k' = k \<and> u' = u")
    case True
    then have "ask = hit" by (auto simp: ask_def hit_def)
    moreover have "find hit (t_cache d) \<noteq> None \<longleftrightarrow> list_ex hit (t_cache d)" by (auto simp: find_None_iff list_ex_iff)
    moreover have "find hit (upd_where hit (\<lambda>r. r\<lparr>rc_payload := p\<rparr>) (t_cache d)) = map_option (\<lambda>r. r\<lparr>rc_payload := p\<rparr>) (find hit (t_cache d))"
      by (rule find_updated(1)) (simp add: hit_def)
    ultimately show ?thesis using True unfolding get
      by (auto simp: put_cached_result_def Let_def hit_def [symmetric] find_append option.map_comp split: option.splits)
        (auto simp: hit_def)
  next
    case False
    then have "find ask (upd_where hit (\<lambda>r. r\<lparr>rc_payload := p\<rparr>) (t_cache d)) = find ask (t_cache d)"
      by (intro find_updated(2)) (auto simp: hit_def ask_def)
    then show ?thesis using False unfolding get
      by (auto simp: put_cached_result_def Let_def hit_def [symmetric] find_append split: option.split) (auto simp: ask_def)
  qed
qed

lemma on_success_cache: "get_cached_result (on_success sha now j a w d) = get_cached_result (cache_results j a w d)"
  by (simp add: fun_eq_iff get_cached_result_def on_success_def Let_def add_activity_def add_alert_def upd_model_def upd_run_def upd_ingestion_def)

lemma cached_configs:
  assumes "ar_trial_configs a = Some p"
  shows "get_cached_result (on_success sha now j a False d) (jb_model j) ''pareto_configs'' (jb_user j) = Some p"
  using assms by (cases "ar_meta a") (simp_all add: on_success_cache cache_results_def Let_def put_some_def get_put_cached)

lemma zero_pad_length: "w \<le> length (zero_pad w s)"
  by (simp add: zero_pad_def)

lemma key_layout:
  "artifact_key m ''.onnx'' \<noteq> ingested_key m" "trial_artifact_key m n \<noteq> ingested_key m" "trial_artifact_key m n \<noteq> artifact_key m ''.onnx''"
proof -
  show "artifact_key m ''.onnx'' \<noteq> ingested_key m" by (simp add: artifact_key_def ingested_key_def)
  have "length (trial_artifact_key m n) > length (artifact_key m ''.onnx'')" "length (trial_artifact_key m n) > length (ingested_key m)"
    using zero_pad_length [of 3 "str_of_nat n"] by (simp_all add: trial_artifact_key_def artifact_key_def ingested_key_def)
  then show "trial_artifact_key m n \<noteq> ingested_key m" "trial_artifact_key m n \<noteq> artifact_key m ''.onnx''" by auto
qed

lemma cap_subset:
  assumes "op \<in> set (compressible_operators (cap_compressible k info))"
  shows "op \<in> set (compressible_operators info)"
proof -
  have "op \<in> set (gi_operators info)" if "op \<in> set (gi_operators (cap_compressible k info))" "op_is_compressible op"
    using that by (auto simp: cap_compressible_def Let_def enumerate_eq_zip set_zip split: if_splits)
  then show ?thesis using assms by (auto simp: compressible_operators_def)
qed

lemma find_by_name:
  assumes "distinct (map op_name ops)" "op \<in> set ops" "op_name op = nm"
  shows "find (\<lambda>op. op_name op = nm) (rev ops) = Some op"
proof -
  have "find (\<lambda>op. op_name op = nm) (rev ops) \<noteq> None" using assms(2,3) by (auto simp: find_None_iff)
  then obtain o' where o: "find (\<lambda>op. op_name op = nm) (rev ops) = Some o'" by blast
  then have "op_name o' = nm" "o' \<in> set ops" using find_in_set [of _ "rev ops"] by fastforce+
  then show ?thesis using o assms by (metis distinct_map inj_on_eq_iff)
qed

lemma reconstruct_uncapped:
  assumes "distinct (map op_name (gi_operators info))"
    and "fst ` set config \<subseteq> op_name ` set (compressible_operators (cap_compressible k info))"
  shows "reconstruct_actions info config = reconstruct_actions (cap_compressible k info) config"
  unfolding reconstruct_actions_def
proof (rule arg_cong [of _ _ concat], rule map_cong [OF refl])
  fix x assume "x \<in> set config"
  obtain nm c where x: "x = (nm, c)" by force
  have "nm \<in> fst ` set config" using imageI [OF \<open>x \<in> set config\<close>, of fst] x by simp
  then obtain op where op: "op \<in> set (compressible_operators (cap_compressible k info))" "op_name op = nm"
    using subsetD [OF assms(2)] by (metis (no_types, lifting) imageE)
  have d: "distinct (map op_name (compressible_operators info))"
    using assms(1) by (simp add: compressible_operators_def distinct_map_filter)
  have "find (\<lambda>op. op_name op = nm) (rev (compressible_operators info)) = Some op"
    by (rule find_by_name [OF d cap_subset [OF op(1)] op(2)])
  moreover have "find (\<lambda>op. op_name op = nm) (rev (compressible_operators (cap_compressible k info))) = Some op"
    by (rule find_by_name [OF cap_names [OF assms(1)] op])
  ultimately show "(case x of (nm, c) \<Rightarrow> case find (\<lambda>op. op_name op = nm) (rev (compressible_operators info)) of None \<Rightarrow> []
      | Some op \<Rightarrow> let c' = c\<lparr>cc_approx_rank := None\<rparr> in if is_no_compression c' then [] else translate op c')
    = (case x of (nm, c) \<Rightarrow> case find (\<lambda>op. op_name op = nm) (rev (compressible_operators (cap_compressible k info))) of None \<Rightarrow> []
      | Some op \<Rightarrow> let c' = c\<lparr>cc_approx_rank := None\<rparr> in if is_no_compression c' then [] else translate op c')"
    by (simp add: x)
qed

lemma run_pipeline_ingested:
  assumes "run_pipeline en pc model_id nm run_id g spec = Some (Inr pa)"
  shows "pa_ingested pa = g"
  using assms by (auto simp: run_pipeline_def finish_pipeline_def Let_def)

lemma stored_files:
  assumes "a = artifacts_of save render pa"
  shows "store_get (store_artifacts j a st) (ingested_key (jb_model j)) = Some (save (pa_ingested pa))"
    "store_get (store_artifacts j a st) (artifact_key (jb_model j) ''.onnx'') = Some (save (pa_artifact pa))"
    "store_get (store_artifacts j a st) (trial_artifact_key (jb_model j) n) = store_get st (trial_artifact_key (jb_model j) n)"
  by (simp_all add: assms artifacts_of_def store_artifacts_def store_get_put key_layout key_layout [symmetric])

lemma stored_config_of_trial:
  assumes "pa_trial_configs pa = Some configs" "map_of configs (str_of_nat n) = Some config"
  shows "stored_trial_config (on_success sha now j (artifacts_of save render pa) False d) (jb_model j) (jb_user j) n
    = ok (map (\<lambda>(nm, c). (nm, stored_of c)) config)"
proof -
  let ?cs = "map (\<lambda>(n, config). (n, map (\<lambda>(nm, c). (nm, stored_of c)) config)) configs"
  obtain t ts where t: "?cs = t # ts" using assms(2) by (cases configs) auto
  have "map_of ?cs (str_of_nat n) = Some (map (\<lambda>(nm, c). (nm, stored_of c)) config)"
    using assms(2) by (simp add: map_of_map)
  moreover have "get_cached_result (on_success sha now j (artifacts_of save render pa) False d) (jb_model j) ''pareto_configs'' (jb_user j)
      = Some (PConfigs ?cs)"
    by (rule cached_configs) (simp add: artifacts_of_def assms(1))
  ultimately show ?thesis by (simp add: stored_trial_config_def t)
qed

lemma materialize_served:
  assumes "store_get st src = Some (xe_save x g)" "length (xe_save x g) \<le> xe_max_mb x * 10 ^ 6" "xe_load x (xe_save x g) = ok g"
    and "analyze (ox_infer_shapes (ge_ox e)) g = ok info" "distinct (map op_name (gi_operators info))"
    and "fst ` set config \<subseteq> op_name ` set (compressible_operators (cap_compressible k info))"
    and "reconstruct_model e g (cap_compressible k info) config = Some (ok m)"
  shows "materialize e x src dst (map (\<lambda>(nm, c). (nm, stored_of c)) config) st = Some (ok (store_put dst (xe_save x m) st))"
  using assms
  by (simp add: materialize_def read_bytes_def decode_encode reconstruct_model_def reconstruct_ignores_rank
      reconstruct_uncapped [OF assms(5,6)])

text \<open>C6: The first export of the trial the pipeline serves gives the served file: after a run whose record names Pareto trial \<open>n\<close>,
  with the results written to the database and the files to the store, the export rebuilds the trial from the
  stored configurations and the ingested graph, and the bytes it stores and hashes are those of the served artifact.
  The hypotheses: the graph can be analysed and its operators have different names; its text reads back and stays under the export limit; and
  the store holds no export of trial \<open>n\<close> of this model yet, since one that is there is returned as it is, whatever it was made from.\<close>

theorem exported_trial_is_the_served_file:
  assumes "run_pipeline en pc (jb_model j) nm run_id g spec = Some (Inr pa)" "pa_meta pa = FromPareto n rung acc ratio bytes"
    and "analyze (ox_infer_shapes (ge_ox (en_env en))) g = ok info" "distinct (map op_name (gi_operators info))"
    and "xe_load x (xe_save x g) = ok g" "length (xe_save x g) \<le> xe_max_mb x * 10 ^ 6"
    and "store_get st (trial_artifact_key (jb_model j) n) = None"
  shows "\<exists>st' xp. export_trial (en_env en) x (jb_model j) (jb_user j) n
        (on_success (xe_sha x) now j (artifacts_of (xe_save x) render pa) False d)
        (store_artifacts j (artifacts_of (xe_save x) render pa) st) = Some (ok (st', xp)) \<and>
      store_get st' (trial_artifact_key (jb_model j) n) = Some (xe_save x (pa_artifact pa)) \<and>
      store_get st' (artifact_key (jb_model j) ''.onnx'') = Some (xe_save x (pa_artifact pa)) \<and>
      xp_sha xp = xe_sha x (xe_save x (pa_artifact pa)) \<and> xp_bytes xp = length (xe_save x (pa_artifact pa))"
proof -
  from served_trial [OF assms(1-4)] obtain configs config where c: "pa_trial_configs pa = Some configs"
    "map_of configs (str_of_nat n) = Some config" "fst ` set config = op_name ` set (compressible_operators (cap_compressible (pc_max_ops pc) info))"
    "reconstruct_model (en_env en) g (cap_compressible (pc_max_ops pc) info) config = Some (ok (pa_artifact pa))" by blast
  let ?st = "store_artifacts j (artifacts_of (xe_save x) render pa) st"
  have "store_get ?st (ingested_key (jb_model j)) = Some (xe_save x g)"
    using stored_files(1) [OF refl] run_pipeline_ingested [OF assms(1)] by metis
  moreover from this assms(3,4,5,6) c(3,4)
  have "materialize (en_env en) x (ingested_key (jb_model j)) (trial_artifact_key (jb_model j) n) (map (\<lambda>(nm, c). (nm, stored_of c)) config) ?st
    = Some (ok (store_put (trial_artifact_key (jb_model j) n) (xe_save x (pa_artifact pa)) ?st))"
    by (intro materialize_served [where k = "pc_max_ops pc"]) auto
  ultimately show ?thesis using assms(7)
    by (simp add: export_trial_def Let_def stored_config_of_trial [OF c(1,2)] store_exists_def stored_files [OF refl] store_get_put key_layout
        key_layout [symmetric] read_bytes_def)
qed

definition svm_job :: job where
  "svm_job = \<lparr>jb_run = ''r'', jb_model = ''m'', jb_user = ''u'', jb_model_name = ''net'', jb_file = ''net.onnx'', jb_source = None,
     jb_format = ''onnx''\<rparr>"

definition svm_files :: export_env where
  "svm_files = \<lparr>xe_load = (\<lambda>s. if s = ''svm'' then ok svm_graph else raise (ValueError ''not a model'')),
     xe_save = (\<lambda>g. if g = svm_graph then ''svm'' else ''other''), xe_sha = rev, xe_max_mb = 1\<rparr>"

theorem exported_trial_is_the_served_file_witness:
  "\<exists>pa n st' xp. pa_ingested pa = svm_graph \<and>
     export_trial demo_env svm_files ''m'' ''u'' n (on_success rev ''now'' svm_job (artifacts_of (xe_save svm_files) (\<lambda>_. '''') pa) False empty_db)
       (store_artifacts svm_job (artifacts_of (xe_save svm_files) (\<lambda>_. '''') pa) []) = Some (ok (st', xp)) \<and>
     store_get st' (trial_artifact_key ''m'' n) = Some (xe_save svm_files (pa_artifact pa))"
proof -
  obtain pa n rung acc ratio bytes where pa: "run_pipeline svm_engine svm_pc (jb_model svm_job) ''net'' ''r'' svm_graph relu_spec = Some (Inr pa)"
    "pa_meta pa = FromPareto n rung acc ratio bytes" using svm_run by (auto simp: svm_job_def)
  have "analyze (ox_infer_shapes (ge_ox (en_env svm_engine))) svm_graph = ok svm_info" using svm_analyze svm_world by simp
  note e = exported_trial_is_the_served_file [OF pa this svm_names, of svm_files "[]" "''now''" "\<lambda>_. ''''" empty_db]
  have "xe_load svm_files (xe_save svm_files svm_graph) = ok svm_graph"
    "length (xe_save svm_files svm_graph) \<le> xe_max_mb svm_files * 10 ^ 6" "xe_sha svm_files = rev" by (simp_all add: svm_files_def)
  with e show ?thesis using run_pipeline_ingested [OF pa(1)]
    by (fastforce simp: svm_world svm_job_def store_get_def)
qed

section \<open>Repeating an export\<close>

text \<open>An export can be repeated and downloaded: a second request answers the same and the download gives the announced bytes.\<close>

lemma export_is_stable:
  assumes "export_trial e x m u n d st = Some (ok (st', xp))"
  shows "export_trial e x m u n d st' = Some (ok (st', xp))"
    "\<exists>content. stream_trial_artifact d st' m u n = ok (content, xp_bytes xp, xp_file xp) \<and> xp_sha xp = xe_sha x content"
proof -
  from assms obtain config where c: "stored_trial_config d m u n = ok config" by (auto simp: export_trial_def Let_def)
  from assms obtain content where s: "store_get st' (trial_artifact_key m n) = Some content"
    and xp: "xp = \<lparr>xp_trial = n, xp_file = path_name (trial_artifact_key m n), xp_bytes = length content, xp_sha = xe_sha x content,
                        xp_path = ''/api/models/'' @ m @ ''/pareto/trials/'' @ str_of_nat n @ ''/artifact''\<rparr>"
    by (auto simp: export_trial_def Let_def read_bytes_def split: option.splits)
  show "export_trial e x m u n d st' = Some (ok (st', xp))"
    by (simp add: export_trial_def Let_def c s store_exists_def read_bytes_def xp)
  show "\<exists>content. stream_trial_artifact d st' m u n = ok (content, xp_bytes xp, xp_file xp) \<and> xp_sha xp = xe_sha x content"
    by (simp add: stream_trial_artifact_def c open_stream_def read_bytes_def s xp)
qed

end
