(* ===== verification/Dashboard.thy ===== *)
theory Dashboard
  imports Trial_Export Hardware_Cost Telemetry_Views
begin

text \<open>
  The dashboard of a workspace, \<open>app/routers/dashboard.py\<close>: the daily sparks, the counts of a window against the one
  before, the bytes saved, the map of the served picks, the coverage by the guarantee and the best models.  Texts are
  left out of the rows where the database model has none.
\<close>

section \<open>Sparks\<close>

record spark =
  sp_t :: string
  sp_value :: real

definition date_text :: "int \<Rightarrow> string" where
  "date_text day = (let (y, m, d) = civil_from_days day in pad_int 4 y @ ''-'' @ pad_int 2 m @ ''-'' @ pad_int 2 d)"

definition stamps :: "string list \<Rightarrow> (instant \<times> instant option) list" where
  "stamps tss = List.map_filter parse_ts tss"

text \<open>The date of a stamp is that of its own zone, \<open>now\<close> is in UTC.\<close>

definition age_of :: "instant \<Rightarrow> instant \<times> instant option \<Rightarrow> int" where
  "age_of now p = now div DAY - fst p div DAY"

definition count_day :: "instant \<Rightarrow> nat \<Rightarrow> instant \<times> instant option \<Rightarrow> nat list \<Rightarrow> nat list" where
  "count_day now days p counts =
     (let age = age_of now p
      in if 0 \<le> age \<and> age < int days then let i = nat (int days - 1 - age) in counts[i := counts ! i + 1] else counts)"

definition spark_start :: "instant \<Rightarrow> nat \<Rightarrow> int" where
  "spark_start now days = now div DAY - (int days - 1)"

definition daily_spark :: "instant \<Rightarrow> string list \<Rightarrow> nat \<Rightarrow> spark list" where
  "daily_spark now tss days =
     map (\<lambda>(i, c). \<lparr>sp_t = date_text (spark_start now days + int i), sp_value = of_nat c\<rparr>)
       (enumerate 0 (fold (count_day now days) (stamps tss) (replicate days 0)))"

definition add_saving :: "instant \<Rightarrow> nat \<Rightarrow> string \<times> real \<Rightarrow> real list \<times> real \<Rightarrow> real list \<times> real" where
  "add_saving now days ev acc =
     (case (parse_ts (fst ev), acc) of
        (None, _) \<Rightarrow> acc
      | (Some p, (daily, seed)) \<Rightarrow>
          (let age = age_of now p
           in if 0 \<le> age \<and> age < int days
              then let i = nat (int days - 1 - age) in (daily[i := daily ! i + snd ev], seed)
              else if age \<ge> int days then (daily, seed + snd ev) else (daily, seed)))"

fun running :: "real \<Rightarrow> real list \<Rightarrow> real list" where
  "running r [] = []"
| "running r (x # xs) = (r + x) # running (r + x) xs"

definition cumulative_saved_spark :: "instant \<Rightarrow> (string \<times> real) list \<Rightarrow> nat \<Rightarrow> spark list" where
  "cumulative_saved_spark now events days =
     (let (daily, seed) = fold (add_saving now days) events (replicate days 0, 0)
      in map (\<lambda>(i, r). \<lparr>sp_t = date_text (spark_start now days + int i), sp_value = py_round 0 r\<rparr>) (enumerate 0 (running seed daily)))"

section \<open>Deltas\<close>

definition RANGE_DAYS :: "(string \<times> nat) list" where
  "RANGE_DAYS = [(''1d'', 1), (''7d'', 7), (''30d'', 30), (''90d'', 90)]"

text \<open>A stamp in the future counts as current; a stamp without a zone cannot be compared.\<close>

fun window_counts :: "instant \<Rightarrow> nat \<Rightarrow> (instant \<times> instant option) list \<Rightarrow> int \<times> int \<Rightarrow> (int \<times> int) result" where
  "window_counts now days [] acc = ok acc"
| "window_counts now days (p # ps) (current, previous) =
     bind_result (since now p) (\<lambda>us.
       window_counts now days ps
         (if us < int days * DAY then (current + 1, previous)
          else if us < 2 * int days * DAY then (current, previous + 1) else (current, previous)))"

definition signed :: "int \<Rightarrow> string" where
  "signed k = (if k < 0 then ''-'' else ''+'') @ str_of_nat (nat \<bar>k\<bar>)"

definition range_delta :: "instant \<Rightarrow> string list \<Rightarrow> nat \<Rightarrow> string \<Rightarrow> string result" where
  "range_delta now tss days label =
     bind_result (window_counts now days (stamps tss) (0, 0))
       (\<lambda>(current, previous). ok (signed (current - previous) @ '' vs previous '' @ label))"

definition run_started_timestamps :: "db \<Rightarrow> string \<Rightarrow> string list" where
  "run_started_timestamps d user = filter (\<lambda>t. t \<noteq> '''') (map rn_created (filter (\<lambda>r. rn_user r = user) (t_runs d)))"

definition run_completed_timestamps :: "db \<Rightarrow> string \<Rightarrow> string list" where
  "run_completed_timestamps d user =
     map ac_timestamp (filter (\<lambda>a. ac_kind a = ''run_completed'' \<and> ac_user a = user) (t_activities d))"

section \<open>Size reduced\<close>

definition meta_of :: "payload \<Rightarrow> artifact_record" where
  "meta_of p = (case p of PMeta m \<Rightarrow> m
     | _ \<Rightarrow> \<lparr>am_source = '''', am_rung = None, am_trial = None, am_accuracy = None, am_ratio = None, am_bytes = None, am_ofs = None\<rparr>)"

definition metas :: "db \<Rightarrow> string \<Rightarrow> (model_row \<times> artifact_record) list" where
  "metas d user = map (\<lambda>(m, p). (m, meta_of p)) (user_artifact_metas d user)"

definition saving_of :: "model_row \<times> artifact_record \<Rightarrow> (model_row \<times> real \<times> real) option" where
  "saving_of mm =
     (case (am_ratio (snd mm), am_bytes (snd mm)) of
        (Some ratio, Some bytes) \<Rightarrow>
          if ratio = 0 \<or> bytes = 0 \<or> ratio \<le> 0 then None
          else let saved = of_nat bytes / ratio - of_nat bytes in if saved \<le> 0 then None else Some (fst mm, 1 / ratio, saved)
      | _ \<Rightarrow> None)"

record size_reduced =
  zr_bytes :: real
  zr_avg :: real
  zr_models :: nat
  zr_delta :: string
  zr_spark :: "spark list"

definition saving_events :: "(model_row \<times> real \<times> real) list \<Rightarrow> (string \<times> real) list" where
  "saving_events ss =
     List.map_filter (\<lambda>(m, _, saved).
       let ts = (case md_last_optimized m of Some t \<Rightarrow> if t = '''' then md_last_learned m else t | None \<Rightarrow> md_last_learned m)
       in if ts = '''' then None else Some (ts, saved)) ss"

definition size_reduced_of :: "instant \<Rightarrow> db \<Rightarrow> string \<Rightarrow> nat \<Rightarrow> string \<Rightarrow> size_reduced result" where
  "size_reduced_of now d user days label =
     (let savings = List.map_filter saving_of (metas d user); ratios = map (fst \<circ> snd) savings; events = saving_events savings
      in bind_result (range_delta now (map fst events) days label) (\<lambda>delta.
         ok \<lparr>zr_bytes = py_round 0 (sum_list (map (snd \<circ> snd) savings)),
             zr_avg = (if ratios = [] then 0 else py_round 2 (sum_list ratios / of_nat (length ratios))),
             zr_models = length ratios, zr_delta = delta, zr_spark = cumulative_saved_spark now events 16\<rparr>))"

section \<open>The key figures\<close>

record kpi_block =
  kb_value :: nat
  kb_delta :: string
  kb_spark :: "spark list"

record kpi_summary =
  ks_active :: kpi_block
  ks_completed :: kpi_block
  ks_live :: kpi_block
  ks_size :: size_reduced
  ks_label :: string

definition kpi_block_of :: "instant \<Rightarrow> nat \<Rightarrow> string list \<Rightarrow> nat \<Rightarrow> string \<Rightarrow> kpi_block result" where
  "kpi_block_of now v tss days label =
     bind_result (range_delta now tss days label) (\<lambda>delta. ok \<lparr>kb_value = v, kb_delta = delta, kb_spark = daily_spark now tss 16\<rparr>)"

fun done_in_range :: "instant \<Rightarrow> nat \<Rightarrow> (instant \<times> instant option) list \<Rightarrow> nat result" where
  "done_in_range now days [] = ok 0"
| "done_in_range now days (p # ps) =
     bind_result (since now p) (\<lambda>us. bind_result (done_in_range now days ps) (\<lambda>n. ok (if us < int days * DAY then n + 1 else n)))"

definition dashboard_summary :: "instant \<Rightarrow> db \<Rightarrow> string \<Rightarrow> string \<Rightarrow> kpi_summary result" where
  "dashboard_summary now d user range_str =
     (let days = (case map_of RANGE_DAYS range_str of Some n \<Rightarrow> n | None \<Rightarrow> 7);
          label = (if map_of RANGE_DAYS range_str = None then ''7d'' else range_str);
          deployments = filter (\<lambda>x. dp_user x = user) (t_deployments d);
          active = length (filter (\<lambda>r. rn_user r = user \<and> rn_status r \<in> {''running'', ''queued''}) (t_runs d));
          live = length (filter (\<lambda>x. dp_status x \<noteq> ''paused'') deployments);
          started = run_started_timestamps d user; completed = run_completed_timestamps d user
      in bind_result (done_in_range now days (stamps completed)) (\<lambda>n_done.
         bind_result (kpi_block_of now active started days label) (\<lambda>k1.
         bind_result (kpi_block_of now n_done completed days label) (\<lambda>k2.
         bind_result (kpi_block_of now live (filter (\<lambda>t. t \<noteq> '''') (map dp_created deployments)) days label) (\<lambda>k3.
         bind_result (size_reduced_of now d user days label) (\<lambda>z.
           ok \<lparr>ks_active = k1, ks_completed = k2, ks_live = k3, ks_size = z, ks_label = label\<rparr>))))))"

definition dashboard_runs :: "db \<Rightarrow> string \<Rightarrow> string \<Rightarrow> run_row list" where
  "dashboard_runs d user status =
     (let rows = filter (\<lambda>r. rn_user r = user) (t_runs d)
      in if status \<noteq> '''' \<and> status \<noteq> ''all'' then filter (\<lambda>r. rn_status r = status) rows else rows)"

section \<open>The map of the served picks\<close>

definition is_certified :: "artifact_record \<Rightarrow> bool" where
  "is_certified m \<longleftrightarrow> am_source m = ''pareto'' \<or> am_source m = ''ladder''"

record compression_point =
  cp_model :: string
  cp_name :: string
  cp_reduction :: real
  cp_ratio :: real
  cp_accuracy :: real
  cp_drop :: real
  cp_within :: bool
  cp_certified :: bool
  cp_rung :: "string option"
  cp_latency :: "real option"
  cp_cost :: "real option"

definition pareto_of :: "db \<Rightarrow> string \<Rightarrow> string \<Rightarrow> trial_cell list \<times> real option \<times> real option" where
  "pareto_of d model_id user =
     (case get_cached_result d model_id ''pareto'' user of Some (PPareto trials base tol) \<Rightarrow> (trials, base, tol) | _ \<Rightarrow> ([], None, None))"

definition point_of :: "db \<Rightarrow> string \<Rightarrow> model_row \<times> artifact_record \<Rightarrow> compression_point option" where
  "point_of d user mm =
     (let (m, meta) = mm in
      case (am_ratio meta, am_accuracy meta) of
        (Some ratio, Some acc) \<Rightarrow>
          if ratio = 0 \<or> ratio \<le> 0 then None
          else (let (trials, base, tol) = pareto_of d (md_id m) user;
                    drop_pts = (case base of Some b \<Rightarrow> py_round 2 (b - acc) | None \<Rightarrow> 0);
                    latency = map_option tc_latency (find (\<lambda>t. Some (tc_number t) = am_trial meta) trials)
                in Some \<lparr>cp_model = md_id m, cp_name = md_name m, cp_reduction = py_round 2 (1 / ratio), cp_ratio = ratio,
                     cp_accuracy = acc, cp_drop = drop_pts,
                     cp_within = (case (base, tol) of (Some _, Some b) \<Rightarrow> drop_pts \<le> b | _ \<Rightarrow> True),
                     cp_certified = is_certified meta, cp_rung = am_rung meta, cp_latency = latency,
                     cp_cost = (case latency of Some l \<Rightarrow> if l = 0 then None else Some (est_cost_per_million l CPU_X86_HOURLY) | None \<Rightarrow> None)\<rparr>)
      | _ \<Rightarrow> None)"

record compression_map =
  cm_points :: "compression_point list"
  cm_models :: nat
  cm_certified :: nat
  cm_best :: "compression_point option"

definition best_point :: "compression_point list \<Rightarrow> compression_point option" where
  "best_point points =
     (let tolerated = filter cp_within points; pool = (if tolerated = [] then points else tolerated)
      in min_by (\<lambda>p. - cp_reduction p) pool)"

definition compression_map_of :: "db \<Rightarrow> string \<Rightarrow> compression_map" where
  "compression_map_of d user =
     (let ms = metas d user; points = List.map_filter (point_of d user) ms
      in \<lparr>cm_points = points, cm_models = length ms, cm_certified = length (filter (is_certified \<circ> snd) ms), cm_best = best_point points\<rparr>)"

section \<open>Coverage by the guarantee\<close>

definition RUNG_COLORS :: "(string \<times> string) list" where
  "RUNG_COLORS = [(''PARETO_CERTIFIED'', ''#ADB4F3''), (''INT8_uosa_mixed'', ''#6976EB''), (''INT8_uniform'', ''#6976EB''),
     (''W8_weight_only'', ''#5E69D1''), (''FP16'', ''#483EB7''), (''fallback'', ''#939496''), (''ORIGINAL'', ''#939496'')]"

definition SEGMENT_COLORS :: "string list" where
  "SEGMENT_COLORS = [''#ADB4F3'', ''#6976EB'', ''#483EB7'', ''#5E69D1'', ''#D7DAF3'', ''#40BF6B'']"

definition coverage_label :: "artifact_record \<Rightarrow> string" where
  "coverage_label m = (if is_certified m then (case am_rung m of Some r \<Rightarrow> if r = '''' then am_source m else r | None \<Rightarrow> am_source m) else ''fallback'')"

definition count_label :: "string \<Rightarrow> (string \<times> nat) list \<Rightarrow> (string \<times> nat) list" where
  "count_label l buckets = AList.update l (case map_of buckets l of Some n \<Rightarrow> n + 1 | None \<Rightarrow> 1) buckets"

record segment =
  sg_label :: string
  sg_value :: nat
  sg_color :: string

record coverage =
  gc_certified :: nat
  gc_models :: nat
  gc_fidelity :: "real option"
  gc_segments :: "segment list"

definition guarantee_coverage :: "db \<Rightarrow> string \<Rightarrow> coverage" where
  "guarantee_coverage d user =
     (let ms = map snd (metas d user); buckets = fold (count_label \<circ> coverage_label) ms [];
          fidelities = List.map_filter am_ofs ms
      in \<lparr>gc_certified = length (filter is_certified ms), gc_models = length ms,
          gc_fidelity = (if fidelities = [] then None else Some (py_round 4 (sum_list fidelities / of_nat (length fidelities)))),
          gc_segments = map (\<lambda>(i, label, n). \<lparr>sg_label = label, sg_value = n,
              sg_color = (case map_of RUNG_COLORS label of Some c \<Rightarrow> c | None \<Rightarrow> SEGMENT_COLORS ! (i mod length SEGMENT_COLORS))\<rparr>)
            (enumerate 0 (sort_desc snd buckets))\<rparr>)"

section \<open>Best models and activity\<close>

record top_model =
  tm_rank :: nat
  tm_model :: string
  tm_accuracy :: real
  tm_coverage :: real
  tm_spark :: "real list"

definition top_models :: "db \<Rightarrow> string \<Rightarrow> top_model list" where
  "top_models d user =
     map (\<lambda>(rank, row).
        let trials = fst (pareto_of d (md_id row) user)
        in \<lparr>tm_rank = rank, tm_model = md_id row, tm_accuracy = (case md_best_accuracy row of Some a \<Rightarrow> a | None \<Rightarrow> 0),
            tm_coverage = (if trials = [] then 0 else py_round 1 (100 * of_nat (length (filter tc_frontier trials)) / of_nat (length trials))),
            tm_spark = map (py_round 2 \<circ> tc_accuracy) (take 16 trials)\<rparr>)
       (enumerate 1 (take 5 (sort_desc (\<lambda>r. case md_best_accuracy r of Some a \<Rightarrow> a | None \<Rightarrow> 0)
          (filter (\<lambda>r. md_user r = user \<and> md_best_accuracy r \<noteq> None) (t_models d)))))"

definition activity :: "db \<Rightarrow> string \<Rightarrow> int \<Rightarrow> activity_row list result" where
  "activity d user limit =
     (if limit < 1 \<or> limit > 100 then raise (HTTPException 422 ''limit'')
      else ok (take (nat limit) (sort_desc ac_timestamp (filter (\<lambda>a. ac_user a = user) (t_activities d)))))"

section \<open>The coverage accounts for every model\<close>

definition label_count :: "string \<Rightarrow> artifact_record list \<Rightarrow> nat" where
  "label_count l ms = length (filter (\<lambda>m. coverage_label m = l) ms)"

lemma count_label_map_of:
  "map_of (count_label l bs) k = (if k = l then Some (case map_of bs l of Some n \<Rightarrow> n + 1 | None \<Rightarrow> 1) else map_of bs k)"
  by (simp add: count_label_def update_conv)

lemma count_label_distinct: "distinct (map fst bs) \<Longrightarrow> distinct (map fst (count_label l bs))"
  by (simp add: count_label_def distinct_update)

lemma coverage_counts:
  assumes "distinct (map fst bs)"
  shows "distinct (map fst (fold (count_label \<circ> coverage_label) ms bs))"
    "map_of (fold (count_label \<circ> coverage_label) ms bs) k =
       (case map_of bs k of Some n \<Rightarrow> Some (n + label_count k ms) | None \<Rightarrow> if label_count k ms = 0 then None else Some (label_count k ms))"
  using assms
  by (induction ms arbitrary: bs)
    (auto simp: count_label_distinct count_label_map_of label_count_def split: option.split)

lemma sum_by_label:
  assumes "distinct (map fst bs)" "\<forall>m \<in> set ms. coverage_label m \<in> fst ` set bs" "\<forall>(l, n) \<in> set bs. n = label_count l ms"
  shows "sum_list (map snd bs) = length ms"
proof -
  have "sum_list (map snd bs) = (\<Sum>(l, n) \<leftarrow> bs. label_count l ms)"
    using assms(3) by (intro arg_cong [of _ _ sum_list] map_cong) auto
  also have "\<dots> = (\<Sum>l \<leftarrow> map fst bs. label_count l ms)" by (simp add: comp_def case_prod_beta')
  also have "\<dots> = (\<Sum>l \<in> fst ` set bs. label_count l ms)" 
    using sum_list_distinct_conv_sum_set [OF assms(1), of "\<lambda>l. label_count l ms"] by simp
  also have "\<dots> = length ms" using assms(2)
  proof (induction ms)
    case (Cons m ms)
    have "(\<Sum>l \<in> fst ` set bs. label_count l (m # ms))
        = (\<Sum>l \<in> fst ` set bs. (if l = coverage_label m then 1 else 0) + label_count l ms)"
      by (rule sum.cong) (auto simp: label_count_def)
    also have "\<dots> = 1 + length ms" using Cons by (simp add: sum.distrib sum.delta)
    finally show ?case by simp
  qed (simp add: label_count_def)
  finally show ?thesis .
qed

text \<open>The coverage panel accounts for every model: its segments have different labels, stand in descending order,
  each counts exactly the served records with its label, they add up to the number of models, which is the one the
  compression map shows, and both panels call the same number certified.\<close>

theorem coverage_accounts:
  "distinct (map sg_label (gc_segments (guarantee_coverage d user))) \<and>
   sorted_wrt (\<ge>) (map sg_value (gc_segments (guarantee_coverage d user))) \<and>
   map sg_value (gc_segments (guarantee_coverage d user))
     = map (\<lambda>s. label_count (sg_label s) (map snd (metas d user))) (gc_segments (guarantee_coverage d user)) \<and>
   sum_list (map sg_value (gc_segments (guarantee_coverage d user))) = gc_models (guarantee_coverage d user) \<and>
   gc_models (guarantee_coverage d user) = cm_models (compression_map_of d user) \<and>
   gc_certified (guarantee_coverage d user) = cm_certified (compression_map_of d user) \<and>
   gc_certified (guarantee_coverage d user) \<le> gc_models (guarantee_coverage d user)"
proof -
  define ms where "ms = map snd (metas d user)"
  define bs where "bs = fold (count_label \<circ> coverage_label) ms []"
  let ?segs = "gc_segments (guarantee_coverage d user)"
  have pairs: "map (\<lambda>s. (sg_label s, sg_value s)) ?segs = sort_desc snd bs"
    by (simp add: guarantee_coverage_def Let_def ms_def bs_def comp_def case_prod_beta')
  have labels: "map sg_label ?segs = map fst (sort_desc snd bs)" "map sg_value ?segs = map snd (sort_desc snd bs)"
    using arg_cong [OF pairs, of "map fst"] arg_cong [OF pairs, of "map snd"] by (simp_all add: comp_def)
  have d: "distinct (map fst bs)" unfolding bs_def by (rule coverage_counts(1)) simp
  have mo: "map_of bs k = (if label_count k ms = 0 then None else Some (label_count k ms))" for k
    unfolding bs_def by (subst coverage_counts(2)) simp_all
  have vals: "\<forall>(l, n) \<in> set bs. n = label_count l ms"
    using d mo by (auto dest: map_of_is_SomeI split: if_splits)
  have "coverage_label m \<in> fst ` set bs" if "m \<in> set ms" for m
  proof -
    have "label_count (coverage_label m) ms \<noteq> 0" using that by (auto simp: label_count_def filter_empty_conv)
    then show ?thesis using mo by (metis domI dom_map_of_conv_image_fst)
  qed
  then have "sum_list (map snd bs) = length ms" using sum_by_label [OF d _ vals] by blast
  moreover have "sum_list (map snd (sort_desc snd bs)) = sum_list (map snd bs)"
    by (metis mset_map mset_sort_desc sum_mset_sum_list)
  moreover have "distinct (map fst (sort_desc snd bs))"
    using d by (metis mset_eq_imp_distinct_iff mset_map mset_sort_desc)
  moreover have "sorted_wrt (\<ge>) (map snd (sort_desc snd bs))" using sorted_sort_desc [of snd bs] by (simp add: sorted_wrt_map)
  moreover have "map sg_value ?segs = map (\<lambda>s. label_count (sg_label s) ms) ?segs"
  proof (rule map_cong [OF refl])
    fix s assume "s \<in> set ?segs"
    then have "(sg_label s, sg_value s) \<in> set (map (\<lambda>s. (sg_label s, sg_value s)) ?segs)" by auto
    then show "sg_value s = label_count (sg_label s) ms" unfolding pairs using vals by auto
  qed
  ultimately show ?thesis unfolding labels
    by (simp add: ms_def guarantee_coverage_def compression_map_of_def Let_def filter_map comp_def)
qed

section \<open>The best pick\<close>

text \<open>The headline of the compression map is the largest reduction among the picks within their own tolerance; only when
  no pick is within it does it come from the others, and it is missing only when there is no pick to plot.\<close>

theorem best_pick_is_tolerated:
  "case cm_best (compression_map_of d user) of
     None \<Rightarrow> cm_points (compression_map_of d user) = []
   | Some p \<Rightarrow> p \<in> set (cm_points (compression_map_of d user)) \<and>
       (if \<exists>q \<in> set (cm_points (compression_map_of d user)). cp_within q
        then cp_within p \<and> Max (cp_reduction ` set (filter cp_within (cm_points (compression_map_of d user)))) = cp_reduction p
        else Max (cp_reduction ` set (cm_points (compression_map_of d user))) = cp_reduction p)"
proof -
  define ps where "ps = cm_points (compression_map_of d user)"
  have b: "cm_best (compression_map_of d user) = best_point ps" by (simp add: ps_def compression_map_of_def Let_def)
  have top: "Max (cp_reduction ` set qs) = cp_reduction p" if "min_by (\<lambda>p. - cp_reduction p) qs = Some p" for qs p
    using min_by_in [OF that] by (intro Max_eqI) auto
  show ?thesis
  proof (cases "filter cp_within ps = []")
    case True
    then have "best_point ps = min_by (\<lambda>p. - cp_reduction p) ps" "\<not> (\<exists>q \<in> set ps. cp_within q)"
      by (auto simp: best_point_def filter_empty_conv)
    then show ?thesis unfolding ps_def [symmetric] b by (auto dest: min_by_in top split: option.split)
  next
    case False
    then have "best_point ps = min_by (\<lambda>p. - cp_reduction p) (filter cp_within ps)" "\<exists>q \<in> set ps. cp_within q"
      by (auto simp: best_point_def Let_def filter_empty_conv)
    then show ?thesis unfolding ps_def [symmetric] b using False
        min_by_in [of "\<lambda>p. - cp_reduction p" "filter cp_within ps"]
      by (cases "min_by (\<lambda>p. - cp_reduction p) (filter cp_within ps)") (simp_all add: top del: set_filter, simp)
  qed
qed

text \<open>What a plotted pick shows: the served ratio inverted, the drop against the measured baseline and whether it is in the budget.\<close>

lemma point_of_record:
  assumes "point_of d user (m, meta) = Some p"
  shows "am_ratio meta = Some (cp_ratio p) \<and> 0 < cp_ratio p \<and> cp_reduction p = py_round 2 (1 / cp_ratio p) \<and>
    am_accuracy meta = Some (cp_accuracy p) \<and>
    (\<forall>trials b tol. pareto_of d (md_id m) user = (trials, Some b, Some tol) \<longrightarrow>
       cp_drop p = py_round 2 (b - cp_accuracy p) \<and> (cp_within p \<longleftrightarrow> cp_drop p \<le> tol))"
  using assms by (auto simp: point_of_def Let_def split: option.splits if_splits prod.splits)

section \<open>Sparks\<close>

lemma count_day_length: "length (count_day now days p cs) = length cs"
  by (simp add: count_day_def Let_def)

definition in_window :: "instant \<Rightarrow> nat \<Rightarrow> instant \<times> instant option \<Rightarrow> bool" where
  "in_window now days p \<longleftrightarrow> 0 \<le> age_of now p \<and> age_of now p < int days"

lemma sum_list_update_add: "i < length xs \<Longrightarrow> sum_list (xs[i := xs ! i + (x :: 'a :: ab_group_add)]) = sum_list xs + x"
  by (induction xs arbitrary: i) (auto simp: nth_Cons' split: nat.split)

lemma sum_list_update_Suc: "i < length xs \<Longrightarrow> sum_list (xs[i := Suc (xs ! i)]) = Suc (sum_list xs)"
  by (induction xs arbitrary: i) (auto split: nat.split)

lemma counts_sum:
  "length cs = days \<Longrightarrow> sum_list (fold (count_day now days) ps cs) = sum_list cs + length (filter (in_window now days) ps)"
proof (induction ps arbitrary: cs)
  case (Cons p ps)
  have "sum_list (count_day now days p cs) = sum_list cs + (if in_window now days p then 1 else 0)"
    using Cons.prems by (auto simp: count_day_def in_window_def Let_def sum_list_update_Suc nat_less_iff)
  then show ?case using Cons by (simp add: count_day_length)
qed simp

lemma fold_count_length: "length (fold (count_day now days) ps cs) = length cs"
  by (induction ps arbitrary: cs) (simp_all add: count_day_length)

lemma sum_list_reals: "sum_list (map real cs) = real (sum_list cs)"
  by (induction cs) auto

text \<open>A daily spark has one value per day and counts each stamp of the window once.\<close>

lemma daily_spark_counts:
  "length (daily_spark now tss days) = days"
  "sum_list (map sp_value (daily_spark now tss days)) = of_nat (length (filter (in_window now days) (stamps tss)))"
proof -
  show "length (daily_spark now tss days) = days" by (simp add: daily_spark_def fold_count_length)
  define cs where "cs = fold (count_day now days) (stamps tss) (replicate days 0)"
  have "map sp_value (daily_spark now tss days) = map of_nat cs"
    by (simp add: daily_spark_def cs_def comp_def case_prod_beta' enumerate_eq_zip flip: map_map [of _ snd, unfolded comp_def])
  moreover have "sum_list cs = length (filter (in_window now days) (stamps tss))"
    unfolding cs_def by (subst counts_sum) simp_all
  ultimately show "sum_list (map sp_value (daily_spark now tss days)) = of_nat (length (filter (in_window now days) (stamps tss)))"
    by (simp add: sum_list_reals)
qed

lemma length_running: "length (running r xs) = length xs"
  by (induction xs arbitrary: r) auto

lemma last_running: "last (r # running r xs) = r + sum_list xs"
  by (induction xs arbitrary: r) (simp_all add: add.assoc)

lemma running_mono: "\<forall>x \<in> set xs. 0 \<le> x \<Longrightarrow> sorted (r # running r xs)"
proof (induction xs arbitrary: r)
  case (Cons x xs)
  have "sorted ((r + x) # running (r + x) xs)" by (rule Cons.IH) (use Cons.prems in auto)
  then show ?case using Cons.prems by (auto intro: order_trans [of r "r + x"])
qed simp

definition past :: "instant \<Rightarrow> string \<times> real \<Rightarrow> bool" where
  "past now ev \<longleftrightarrow> (case parse_ts (fst ev) of None \<Rightarrow> False | Some p \<Rightarrow> 0 \<le> age_of now p)"

lemma savings_sum:
  assumes "length (fst acc) = days" "\<forall>ev \<in> set events. 0 \<le> snd ev" "\<forall>x \<in> set (fst acc). 0 \<le> x"
  shows "snd (fold (add_saving now days) events acc) + sum_list (fst (fold (add_saving now days) events acc))
      = snd acc + sum_list (fst acc) + sum_list (map snd (filter (past now) events)) \<and>
    length (fst (fold (add_saving now days) events acc)) = days \<and>
    (\<forall>x \<in> set (fst (fold (add_saving now days) events acc)). 0 \<le> x)"
  using assms
proof (induction events arbitrary: acc)
  case (Cons ev events)
  let ?a = "add_saving now days ev acc"
  have "length (fst ?a) = days \<and> snd ?a + sum_list (fst ?a) = snd acc + sum_list (fst acc) + (if past now ev then snd ev else 0) \<and>
      (\<forall>x \<in> set (fst ?a). 0 \<le> x)"
    using Cons.prems
    by (cases acc)
      (auto simp: add_saving_def past_def Let_def sum_list_update_add nat_less_iff split: option.split dest!: subsetD [OF set_update_subset_insert])
  then show ?case using Cons.IH [of ?a] Cons.prems by auto
qed simp

definition stamp_of :: "model_row \<Rightarrow> string" where
  "stamp_of m = (case md_last_optimized m of Some t \<Rightarrow> if t = '''' then md_last_learned m else t | None \<Rightarrow> md_last_learned m)"

lemma saving_of_record:
  assumes "saving_of mm = Some (m, r, s)"
  shows "m = fst mm \<and> 0 < s \<and> 1 < r"
proof -
  from assms obtain ratio bytes where b: "am_ratio (snd mm) = Some ratio" "am_bytes (snd mm) = Some bytes" "0 < ratio"
    "s = of_nat bytes / ratio - of_nat bytes" "0 < s" "r = 1 / ratio" "m = fst mm"
    by (auto simp: saving_of_def Let_def split: option.splits if_splits)
  then have "of_nat bytes * 1 < of_nat bytes * (1 / ratio)" by simp
  then have "1 < 1 / ratio" by (rule mult_left_less_imp_less) simp
  with b show ?thesis by simp
qed

lemma saving_events_all:
  "\<forall>(m, _) \<in> set ss. stamp_of m \<noteq> '''' \<Longrightarrow> saving_events ss = map (\<lambda>(m, _, s). (stamp_of m, s)) ss"
  by (induction ss) (auto simp: saving_events_def stamp_of_def [symmetric] Let_def List.map_filter_def)

lemma cumulative_line:
  assumes "\<forall>ev \<in> set events. 0 \<le> snd ev" "0 < days"
  shows "map sp_value (cumulative_saved_spark now events days) = map (py_round 0) (running (snd (fold (add_saving now days) events (replicate days 0, 0)))
           (fst (fold (add_saving now days) events (replicate days 0, 0))))"
    "length (cumulative_saved_spark now events days) = days"
    "sorted (map sp_value (cumulative_saved_spark now events days))"
    "last (map sp_value (cumulative_saved_spark now events days)) = py_round 0 (sum_list (map snd (filter (past now) events)))"
proof -
  define acc where "acc = fold (add_saving now days) events (replicate days 0, 0)"
  note s = savings_sum [of "(replicate days 0, 0)" days events now, folded acc_def, simplified, OF assms(1)]
  show v: "map sp_value (cumulative_saved_spark now events days) = map (py_round 0) (running (snd (fold (add_saving now days) events (replicate days 0, 0)))
           (fst (fold (add_saving now days) events (replicate days 0, 0))))"
    by (simp add: cumulative_saved_spark_def acc_def [symmetric] Let_def case_prod_beta' comp_def enumerate_eq_zip
        flip: map_map [of _ snd, unfolded comp_def])
  have len: "length (running (snd acc) (fst acc)) = days" using s by (simp add: length_running)
  show "length (cumulative_saved_spark now events days) = days" using arg_cong [OF v, of length] len by (simp add: acc_def)
  have "sorted (snd acc # running (snd acc) (fst acc))" using s by (intro running_mono) simp
  then have "sorted (running (snd acc) (fst acc))" by simp
  then show "sorted (map sp_value (cumulative_saved_spark now events days))"
    unfolding v acc_def [symmetric] by (auto simp: sorted_wrt_map intro: sorted_wrt_mono_rel [rotated] py_round_mono)
  have ne: "running (snd acc) (fst acc) \<noteq> []" using len assms(2) by auto
  then have "last (running (snd acc) (fst acc)) = snd acc + sum_list (fst acc)" using last_running [of "snd acc" "fst acc"] by simp
  then show "last (map sp_value (cumulative_saved_spark now events days)) = py_round 0 (sum_list (map snd (filter (past now) events)))"
    unfolding v acc_def [symmetric] using ne s by (simp add: last_map sum_list_replicate)
qed

text \<open>The line of saved bytes never falls and ends at the headline: when every optimized model has a readable stamp that
  is not after today, the last of the sixteen points is the rounded total of saved bytes, and the average reduction of a
  workspace with any saving is at least one.\<close>

theorem saved_line_ends_at_headline:
  assumes "size_reduced_of now d user days label = ok z" "\<forall>(m, _) \<in> set (metas d user). past now (stamp_of m, 0)"
  shows "length (zr_spark z) = 16 \<and> sorted (map sp_value (zr_spark z)) \<and> last (map sp_value (zr_spark z)) = zr_bytes z \<and>
    (0 < zr_models z \<longrightarrow> 1 \<le> zr_avg z)"
proof -
  define ss where "ss = List.map_filter saving_of (metas d user)"
  define events where "events = saving_events ss"
  have z: "zr_spark z = cumulative_saved_spark now events 16" "zr_bytes z = py_round 0 (sum_list (map (snd \<circ> snd) ss))"
    "zr_models z = length ss" "zr_avg z = (if ss = [] then 0 else py_round 2 (sum_list (map (fst \<circ> snd) ss) / of_nat (length ss)))"
    using assms(1) by (auto simp: size_reduced_of_def Let_def ss_def events_def)
  have mem: "\<exists>mm \<in> set (metas d user). m = fst mm \<and> 0 < s \<and> 1 < r" if "(m, r, s) \<in> set ss" for m r s
  proof -
    from that obtain mm where "mm \<in> set (metas d user)" "saving_of mm = Some (m, r, s)" by (auto simp: ss_def List.map_filter_def)
    then show ?thesis using saving_of_record [of mm m r s] by blast
  qed
  have stamped: "past now (stamp_of m, s)" if "(m, r, s) \<in> set ss" for m r s
    using mem [OF that] assms(2) by (auto simp: past_def)
  have ev: "events = map (\<lambda>(m, _, s). (stamp_of m, s)) ss"
    unfolding events_def
  proof (rule saving_events_all)
    have "parse_ts '''' = None" by code_simp
    then show "\<forall>(m, _) \<in> set ss. stamp_of m \<noteq> ''''" using stamped by (fastforce simp: past_def)
  qed
  have "filter (past now) events = events" using stamped by (auto simp: ev filter_id_conv)
  moreover have "map snd events = map (snd \<circ> snd) ss" by (simp add: ev case_prod_beta' comp_def)
  moreover have pos: "\<forall>e \<in> set events. 0 \<le> snd e" using mem by (fastforce simp: ev)
  ultimately have line: "length (zr_spark z) = 16" "sorted (map sp_value (zr_spark z))" "last (map sp_value (zr_spark z)) = zr_bytes z"
    using cumulative_line [OF pos, of 16 now] by (simp_all add: z)
  have "1 \<le> zr_avg z" if "ss \<noteq> []"
  proof -
    have "sum_list (map (\<lambda>_. 1) ss) \<le> sum_list (map (fst \<circ> snd) ss)" using mem by (intro sum_list_mono) fastforce
    then have "1 \<le> sum_list (map (fst \<circ> snd) ss) / of_nat (length ss)"
      using that by (simp add: sum_list_triv le_divide_eq)
    from py_round_mono [OF this, of 2] show ?thesis using that py_round_of_int [of 2 1] by (simp add: z)
  qed
  then show ?thesis using line by (simp add: z)
qed

definition demo_picks :: db where
  "demo_picks = empty_db
     \<lparr>t_models := [\<lparr>md_id = ''m'', md_user = ''u'', md_name = ''net'', md_type_full = ''ONNX'', md_type_short = ''ONNX'', md_format = ''onnx'',
        md_last_learned = ''2026-01-01T00:00:00.000Z'', md_last_optimized = Some ''2026-01-02T00:00:00.000Z'', md_status = ''draft'',
        md_best_accuracy = Some 90, md_is_deployed = False, md_description = None, md_run = None, md_family = ''f'',
        md_weights_only = False, md_artifact_key = None, md_source_key = None, md_artifact_sha = None, md_artifact_size = None\<rparr>],
      t_cache := [\<lparr>rc_user = ''u'', rc_model = ''m'', rc_kind = ''artifact_meta'',
        rc_payload = PMeta \<lparr>am_source = ''pareto'', am_rung = None, am_trial = Some 3, am_accuracy = Some 90, am_ratio = Some (1 / 4),
          am_bytes = Some 100, am_ofs = None\<rparr>\<rparr>]\<rparr>"

lemma demo_metas: "map (\<lambda>(m, r). (md_id m, stamp_of m, saving_of (m, r))) (metas demo_picks ''u'')
    = [(''m'', ''2026-01-02T00:00:00.000Z'', Some (hd (t_models demo_picks), 4, 300))]"
  by (simp add: metas_def demo_picks_def empty_db_def user_artifact_metas_def List.map_filter_def get_model_row_def get_cached_result_def
      meta_of_def stamp_of_def saving_of_def)

text \<open>The third of January 2026.\<close>

theorem saved_line_ends_at_headline_witness:
  "\<exists>z. size_reduced_of (1767398400 * SECOND) demo_picks ''u'' 7 ''7d'' = ok z \<and> length (zr_spark z) = 16 \<and>
     last (map sp_value (zr_spark z)) = 300 \<and> 1 \<le> zr_avg z"
proof -
  let ?now = "1767398400 * SECOND :: int"
  have p: "parse_ts ''2026-01-02T00:00:00.000Z'' = Some (1767312000 * SECOND, Some 0)" by code_simp
  from demo_metas obtain m r where ms: "metas demo_picks ''u'' = [(m, r)]" "stamp_of m = ''2026-01-02T00:00:00.000Z''"
    "saving_of (m, r) = Some (hd (t_models demo_picks), 4, 300)" by (auto split: prod.splits)
  have st: "stamp_of (hd (t_models demo_picks)) = ''2026-01-02T00:00:00.000Z''" by (simp add: demo_picks_def stamp_of_def)
  have ss: "List.map_filter saving_of (metas demo_picks ''u'') = [(hd (t_models demo_picks), 4, 300)]"
    by (simp add: ms List.map_filter_def)
  have ev: "saving_events [(hd (t_models demo_picks), 4, 300)] = [(''2026-01-02T00:00:00.000Z'', 300)]"
    using st by (subst saving_events_all) simp_all
  have ts: "stamps [''2026-01-02T00:00:00.000Z''] = [(1767312000 * SECOND, Some 0)]"
    by (simp add: stamps_def List.map_filter_def p)
  obtain z where z: "size_reduced_of ?now demo_picks ''u'' 7 ''7d'' = ok z" "zr_bytes z = py_round 0 300" "zr_models z = 1"
    by (simp add: size_reduced_of_def Let_def ss ev range_delta_def ts since_def DAY_def SECOND_def)
  have "\<forall>(m, _) \<in> set (metas demo_picks ''u''). past ?now (stamp_of m, 0)"
    by (simp add: ms past_def p age_of_def DAY_def SECOND_def)
  with saved_line_ends_at_headline [OF z(1)] z show ?thesis by auto
qed

section \<open>A finished run on the dashboard\<close>

lemma get_cached_in:
  "get_cached_result d m k u = Some p \<Longrightarrow> \<exists>r \<in> set (t_cache d). rc_model r = m \<and> rc_kind r = k \<and> rc_user r = u"
  by (auto simp: get_cached_result_def dest: find_in_set)

lemma model_after_success:
  assumes "get_model_row d (jb_model j) = Some m"
  shows "\<exists>m'. get_model_row (on_success sha now j a w d) (jb_model j) = Some m' \<and> md_user m' = md_user m"
proof -
  have f: "md_id (finish_model sha now a w x) = md_id x" "md_user (finish_model sha now a w x) = md_user x" for x
    by (simp_all add: finish_model_def Let_def split: option.split prod.split)
  have "get_model_row (on_success sha now j a w d) (jb_model j)
      = get_model_row (upd_model (jb_model j) (finish_model sha now a w) (cache_results j a w d)) (jb_model j)"
    by (simp add: on_success_def Let_def get_model_row_def t_models_upd_model)
  also have "\<dots> = map_option (\<lambda>x. if md_id x = jb_model j then finish_model sha now a w x else x) (get_model_row (cache_results j a w d) (jb_model j))"
    by (rule get_model_row_upd) (rule f)
  also have "get_model_row (cache_results j a w d) (jb_model j) = Some m" using assms by (simp add: get_model_row_def)
  finally show ?thesis by (simp add: f)
qed

text \<open>A finished run shows on the dashboard of its owner: the record of what was served is among the picks both panels count.\<close>

theorem finished_run_is_counted:
  assumes "get_model_row d (jb_model j) = Some m" "md_user m = jb_user j"
  shows "\<exists>m'. (m', record_of (pa_meta pa)) \<in> set (metas (on_success sha now j (artifacts_of save render pa) False d) (jb_user j)) \<and>
    md_id m' = jb_model j"
proof -
  let ?d = "on_success sha now j (artifacts_of save render pa) False d"
  obtain m' where m': "get_model_row ?d (jb_model j) = Some m'" "md_user m' = jb_user j"
    using model_after_success [OF assms(1)] assms(2) by metis
  have c: "get_cached_result ?d (jb_model j) ''artifact_meta'' (jb_user j) = Some (PMeta (record_of (pa_meta pa)))"
    by (simp add: on_success_cache cache_results_def Let_def put_some_def get_put_cached artifacts_of_def)
  from get_cached_in [OF c] obtain r where "r \<in> set (t_cache ?d)" "rc_model r = jb_model j" "rc_kind r = ''artifact_meta''"
    "rc_user r = jb_user j" by blast
  then have "(m', PMeta (record_of (pa_meta pa))) \<in> set (user_artifact_metas ?d (jb_user j))"
    using m' c by (force simp: user_artifact_metas_def List.map_filter_def)
  then show ?thesis using get_model_row_Some [OF m'(1)] by (force simp: metas_def meta_of_def)
qed

lemma ungated_optimizer:
  assumes "optimizer_phase en pc g gi profile spec arch pareto = Some (Inr sv)" "\<not> pc_guarantee pc"
  shows "sv_rung sv = None \<and> sv_ofs sv = None"
proof -
  have "gate_probes_for en pc g gi spec arch = Some (ok None)" using assms(2) by (simp add: gate_probes_for_def)
  moreover have "run_ladder en pc g gi profile arch None = Some (ok None)" by (simp add: run_ladder_def)
  ultimately show ?thesis using assms(1) by (auto simp: optimizer_phase_def Let_def select_candidate_def)
qed

text \<open>Without the guarantee a run checks no gate, yet its Pareto pick counts as certified: the record names no rung, the
  dashboard still calls it certified and gives it the label of its source.\<close>

theorem ungated_picks_count_as_certified:
  assumes "run_pipeline en pc model_id nm run_id g spec = Some (Inr pa)" "\<not> pc_guarantee pc"
    "pa_meta pa = FromPareto n rung acc ratio bytes"
  shows "rung = None \<and> pa_ofs pa = None \<and> is_certified (record_of (pa_meta pa)) \<and> coverage_label (record_of (pa_meta pa)) = ''pareto''"
proof -
  from assms(1) obtain gi profile spec' arch probe pareto sv compressed where
    o: "optimizer_phase en pc g gi profile spec' arch pareto = Some (Inr sv)"
    and f: "finish_pipeline en pc model_id nm run_id g gi profile spec' arch probe pareto sv compressed = Some (Inr pa)"
    unfolding run_pipeline_def Let_def by (simp only: then_do_ok) (elim exE conjE, rule that)
  have sv: "sv_rung sv = None" "sv_ofs sv = None" using ungated_optimizer [OF o assms(2)] by auto
  have "pa_ofs pa = sv_ofs sv" using f by (auto simp: finish_pipeline_def Let_def)
  moreover have "rung = None" using finish_meta [OF f] assms(3) sv by (auto simp: artifact_meta_of_def split: option.splits)
  ultimately show ?thesis using assms(3) sv by (simp add: record_of_def is_certified_def coverage_label_def)
qed

theorem ungated_picks_count_as_certified_witness:
  "\<exists>pa. run_pipeline svm_engine svm_pc ''m'' ''net'' ''r'' svm_graph relu_spec = Some (Inr pa) \<and>
     is_certified (record_of (pa_meta pa)) \<and> pa_ofs pa = None"
proof -
  obtain pa n rung acc ratio bytes where pa: "run_pipeline svm_engine svm_pc ''m'' ''net'' ''r'' svm_graph relu_spec = Some (Inr pa)"
    "pa_meta pa = FromPareto n rung acc ratio bytes" using svm_run by blast
  have "\<not> pc_guarantee svm_pc" by (simp add: svm_pc_def)
  from ungated_picks_count_as_certified [OF pa(1) this pa(2)] pa(1) show ?thesis by blast
qed

theorem finished_run_is_counted_witness:
  "\<exists>m'. (m', record_of (FromFallback 7)) \<in> set (metas (on_success rev ''now'' (svm_job\<lparr>jb_user := ''u''\<rparr>)
     (artifacts_of (\<lambda>_. ''g'') (\<lambda>_. '''') (pa\<lparr>pa_meta := FromFallback 7\<rparr>)) False demo_picks) ''u'')"
proof -
  let ?j = "svm_job\<lparr>jb_user := ''u''\<rparr>" and ?pa = "pa\<lparr>pa_meta := FromFallback 7\<rparr>"
  have m: "get_model_row demo_picks (jb_model ?j) = Some (hd (t_models demo_picks))" "md_user (hd (t_models demo_picks)) = jb_user ?j"
    by (simp_all add: demo_picks_def svm_job_def get_model_row_def)
  have "pa_meta ?pa = FromFallback 7" "jb_user ?j = ''u''" by simp_all
  with finished_run_is_counted [OF m, of ?pa rev "''now''" "\<lambda>_. ''g''" "\<lambda>_. ''''"] show ?thesis by metis
qed

end
