(* ===== verification/Arch_Scene.thy ===== *)
theory Arch_Scene
  imports Engine_Adapter
begin

text \<open>
  The three-dimensional scene of a model's layers, \<open>app/services/viz/arch_scene.py\<close>: a stack of neurons per layer, the
  bipartite segments of the edges between layers, the colours and the camera, over reals.  The texts that describe a layer and the
  constants passed through unchanged are left out.
\<close>

definition COL_SPACING :: real where "COL_SPACING = 1.55"
definition ROW_SPACING :: real where "ROW_SPACING = 0.22"
definition SENSITIVITY_THRESHOLD :: real where "SENSITIVITY_THRESHOLD = 0.55"
definition CAMERA_FOV :: real where "CAMERA_FOV = 38"

definition KIND_WIDTH :: "(string \<times> nat) list" where
  "KIND_WIDTH = [(''input'', 1), (''output'', 1), (''embed'', 18), (''conv'', 16), (''attn'', 16), (''ffn'', 20), (''dense'', 14),
     (''lstm'', 14), (''bn'', 10), (''norm'', 10), (''relu'', 8), (''pool'', 8), (''softmax'', 8), (''upsample'', 16)]"

definition effective_width :: "layer_node \<Rightarrow> nat" where
  "effective_width node =
     (case ln_width node of
        Some w \<Rightarrow> if w > 0 then nat \<lfloor>w\<rfloor> else (case map_of KIND_WIDTH (ln_kind node) of Some k \<Rightarrow> k | None \<Rightarrow> 12)
      | None \<Rightarrow> (case map_of KIND_WIDTH (ln_kind node) of Some k \<Rightarrow> k | None \<Rightarrow> 12))"

section \<open>Colours\<close>

type_synonym rgb = "int \<times> int \<times> int"

definition VIRIDIS_STOPS :: "(real \<times> rgb) list" where
  "VIRIDIS_STOPS = [(0, (68, 1, 84)), (0.25, (59, 82, 139)), (0.5, (33, 144, 141)), (0.75, (94, 201, 98)), (1, (253, 231, 37))]"

definition HEX_DIGITS :: string where "HEX_DIGITS = ''0123456789abcdef''"

definition hex_digit :: "nat \<Rightarrow> char" where
  "hex_digit n = HEX_DIGITS ! n"

text \<open>\<open>f"{n:02x}"\<close> of a byte.\<close>

definition hex_byte :: "int \<Rightarrow> string" where
  "hex_byte n = [hex_digit (nat n div 16), hex_digit (nat n mod 16)]"

definition rgb_hex :: "rgb \<Rightarrow> string" where
  "rgb_hex c = (case c of (r, g, b) \<Rightarrow> ''#'' @ hex_byte r @ hex_byte g @ hex_byte b)"

definition blend :: "real \<Rightarrow> int \<Rightarrow> int \<Rightarrow> int" where
  "blend k a b = \<lfloor>of_int a + of_int (b - a) * k + 1 / 2\<rfloor>"

fun viridis_rgb :: "(real \<times> rgb) list \<Rightarrow> real \<Rightarrow> rgb" where
  "viridis_rgb ((ap, (ar, ag, ab)) # (bp, (br, bg, bb)) # rest) p =
     (if ap \<le> p \<and> p \<le> bp
      then (let k = (p - ap) / (bp - ap) in (blend k ar br, blend k ag bg, blend k ab bb))
      else viridis_rgb ((bp, (br, bg, bb)) # rest) p)"
| "viridis_rgb [(_, c)] p = c"
| "viridis_rgb [] p = (0, 0, 0)"

definition viridis_hex :: "real \<Rightarrow> string" where
  "viridis_hex t = rgb_hex (viridis_rgb VIRIDIS_STOPS (max 0 (min 1 t)))"

section \<open>Layers and neurons\<close>

record neuron =
  nu_layer :: nat
  nu_id :: string
  nu_x :: real
  nu_y :: real
  nu_z :: real

record scene_layer =
  sl_node :: layer_node
  sl_width :: nat
  sl_start :: nat
  sl_center :: "real \<times> real \<times> real"
  sl_sensitive :: bool
  sl_viridis :: string

definition neurons_of :: "nat \<Rightarrow> layer_node \<Rightarrow> neuron list" where
  "neurons_of li node =
     (let w = effective_width node; z = (case ln_zcol node of Some z \<Rightarrow> z | None \<Rightarrow> 0)
      in map (\<lambda>i. \<lparr>nu_layer = li, nu_id = ln_id node, nu_x = of_nat (ln_depth node) * COL_SPACING,
             nu_y = ln_col node + (of_nat i - (of_nat w - 1) / 2) * ROW_SPACING, nu_z = z\<rparr>) [0..<w])"

definition scene_layer_of :: "nat \<Rightarrow> layer_node \<Rightarrow> scene_layer" where
  "scene_layer_of start node =
     \<lparr>sl_node = node, sl_width = effective_width node, sl_start = start,
      sl_center = (of_nat (ln_depth node) * COL_SPACING, ln_col node, case ln_zcol node of Some z \<Rightarrow> z | None \<Rightarrow> 0),
      sl_sensitive = (ln_sensitivity node \<ge> SENSITIVITY_THRESHOLD), sl_viridis = viridis_hex (ln_sensitivity node)\<rparr>"

fun lay_out :: "nat \<Rightarrow> nat \<Rightarrow> layer_node list \<Rightarrow> scene_layer list \<times> neuron list" where
  "lay_out li cursor [] = ([], [])"
| "lay_out li cursor (node # rest) =
     (let (layers, neurons) = lay_out (li + 1) (cursor + effective_width node) rest
      in (scene_layer_of cursor node # layers, neurons_of li node @ neurons))"

section \<open>Edges\<close>

record scene_edge =
  se_from_id :: string
  se_to_id :: string
  se_from :: nat
  se_to :: nat
  se_from_start :: nat
  se_from_count :: nat
  se_to_start :: nat
  se_to_count :: nat
  se_segments :: nat
  se_accent :: bool

text \<open>The last layer with an id answers for it.\<close>

definition layer_index :: "layer_node list \<Rightarrow> string \<Rightarrow> nat option" where
  "layer_index nodes nm = map_of (rev (map (\<lambda>(i, n). (ln_id n, i)) (enumerate 0 nodes))) nm"

definition scene_edge_of :: "layer_node list \<Rightarrow> scene_layer list \<Rightarrow> string \<times> string \<Rightarrow> scene_edge option" where
  "scene_edge_of nodes layers e =
     (case (layer_index nodes (fst e), layer_index nodes (snd e)) of
        (Some fi, Some ti) \<Rightarrow>
          (let f = layers ! fi; t = layers ! ti
           in Some \<lparr>se_from_id = fst e, se_to_id = snd e, se_from = fi, se_to = ti, se_from_start = sl_start f, se_from_count = sl_width f, se_to_start = sl_start t,
                se_to_count = sl_width t, se_segments = sl_width f * sl_width t, se_accent = (sl_sensitive f \<or> sl_sensitive t)\<rparr>)
      | _ \<Rightarrow> None)"

type_synonym segment_line = "(real \<times> real \<times> real) \<times> (real \<times> real \<times> real)"

definition place_of :: "neuron \<Rightarrow> real \<times> real \<times> real" where
  "place_of n = (nu_x n, nu_y n, nu_z n)"

definition segments_of :: "neuron list \<Rightarrow> scene_edge \<Rightarrow> segment_line list" where
  "segments_of neurons e =
     concat (map (\<lambda>a. map (\<lambda>b. (place_of (neurons ! (se_from_start e + a)), place_of (neurons ! (se_to_start e + b)))) [0..<se_to_count e])
       [0..<se_from_count e])"

section \<open>The camera\<close>

record camera =
  ca_position :: "real \<times> real \<times> real"
  ca_target :: "real \<times> real \<times> real"
  ca_min :: "real \<times> real \<times> real"
  ca_max :: "real \<times> real \<times> real"

definition low :: "(neuron \<Rightarrow> real) \<Rightarrow> neuron list \<Rightarrow> real" where
  "low f ns = Min (f ` set ns)"

definition high :: "(neuron \<Rightarrow> real) \<Rightarrow> neuron list \<Rightarrow> real" where
  "high f ns = Max (f ` set ns)"

definition half_fov :: real where
  "half_fov = tan (CAMERA_FOV * (pi / 180) / 2)"

definition span_of :: "(neuron \<Rightarrow> real) \<Rightarrow> neuron list \<Rightarrow> real" where
  "span_of f ns = high f ns - low f ns + 1.2"

definition camera_distance :: "neuron list \<Rightarrow> real" where
  "camera_distance ns =
     (let z_span = max 0.001 (high nu_z ns - low nu_z ns); z_for_y = span_of nu_y ns / 2 / half_fov;
          z_for_x = span_of nu_x ns / 2 / (half_fov * 1.55)
      in max 10 (max z_for_x z_for_y + 1.5 + z_span * 0.6))"

definition camera_of :: "neuron list \<Rightarrow> camera" where
  "camera_of ns =
     (let x = (low nu_x ns + high nu_x ns) / 2; y = (low nu_y ns + high nu_y ns) / 2; z = (low nu_z ns + high nu_z ns) / 2;
          dist = camera_distance ns; side = min (dist * 0.18) (span_of nu_x ns * 0.18); up = min (dist * 0.18) (span_of nu_y ns * 0.55 + 1.2)
      in \<lparr>ca_position = (x + side, y + up, z + dist), ca_target = (x, y, z),
          ca_min = (low nu_x ns, low nu_y ns, low nu_z ns), ca_max = (high nu_x ns, high nu_y ns, high nu_z ns)\<rparr>)"

section \<open>The scene\<close>

record scene =
  sc_layers :: "scene_layer list"
  sc_neurons :: "neuron list"
  sc_edges :: "scene_edge list"
  sc_camera :: "camera option"
  sc_counts :: "nat \<times> nat \<times> nat \<times> nat"          \<comment> \<open>layers, neurons, edges, segments\<close>
  sc_segments :: "segment_line list option"

definition build_architecture_scene :: "layer_graph \<Rightarrow> bool \<Rightarrow> scene" where
  "build_architecture_scene arch include_segments =
     (let nodes = lg_nodes arch; (layers, neurons) = lay_out 0 0 nodes;
          edges = List.map_filter (scene_edge_of nodes layers) (lg_edges arch)
      in \<lparr>sc_layers = layers, sc_neurons = neurons, sc_edges = edges,
          sc_camera = (if neurons = [] then None else Some (camera_of neurons)),
          sc_counts = (length layers, length neurons, length edges, sum_list (map se_segments edges)),
          sc_segments = (if include_segments then Some (concat (map (segments_of neurons) edges)) else None)\<rparr>)"

section \<open>The stacks partition the neurons\<close>

lemma neurons_of_length [simp]: "length (neurons_of li node) = effective_width node"
  by (simp add: neurons_of_def Let_def)

lemma lay_out_layers:
  "map sl_node (fst (lay_out li cursor nodes)) = nodes"
  "map sl_width (fst (lay_out li cursor nodes)) = map effective_width nodes"
  "length (fst (lay_out li cursor nodes)) = length nodes"
  "length (snd (lay_out li cursor nodes)) = sum_list (map effective_width nodes)"
  by (induction li cursor nodes rule: lay_out.induct) (auto simp: scene_layer_of_def split: prod.splits)

lemma lay_out_nth:
  assumes "i < length nodes"
  shows "fst (lay_out li cursor nodes) ! i = scene_layer_of (cursor + sum_list (map effective_width (take i nodes))) (nodes ! i) \<and>
    take (effective_width (nodes ! i)) (drop (sum_list (map effective_width (take i nodes))) (snd (lay_out li cursor nodes))) = neurons_of (li + i) (nodes ! i)"
  using assms
proof (induction nodes arbitrary: li cursor i)
  case (Cons node rest)
  then show ?case
    by (cases i) (simp_all add: case_prod_beta' Let_def add.assoc)
qed simp

lemma neurons_in_stack:
  assumes "i < length nodes" "k < effective_width (nodes ! i)"
  shows "snd (lay_out 0 0 nodes) ! (sl_start (fst (lay_out 0 0 nodes) ! i) + k) = neurons_of i (nodes ! i) ! k"
proof -
  let ?s = "sum_list (map effective_width (take i nodes))"
  have s: "sl_start (fst (lay_out 0 0 nodes) ! i) = ?s"
    using lay_out_nth [OF assms(1), of 0 0] by (simp add: scene_layer_of_def)
  have t: "take (effective_width (nodes ! i)) (drop ?s (snd (lay_out 0 0 nodes))) = neurons_of i (nodes ! i)"
    using lay_out_nth [OF assms(1), of 0 0] by simp
  have "?s + effective_width (nodes ! i) \<le> sum_list (map effective_width nodes)"
  proof -
    have "sum_list (map effective_width nodes) = sum_list (map effective_width (take i nodes @ nodes ! i # drop (Suc i) nodes))"
      using assms(1) by (simp add: id_take_nth_drop [symmetric])
    then show ?thesis by simp
  qed
  then have "?s + k < length (snd (lay_out 0 0 nodes))" using assms(2) by (simp add: lay_out_layers(4))
  then show ?thesis using arg_cong [OF t, of "\<lambda>xs. xs ! k"] assms(2) by (simp add: s)
qed

lemma layer_index_bound: "layer_index nodes nm = Some i \<Longrightarrow> i < length nodes \<and> ln_id (nodes ! i) = nm"
  by (auto simp: layer_index_def dest!: map_of_SomeD simp: in_set_enumerate_eq)

lemma layer_index_known: "layer_index nodes nm \<noteq> None \<longleftrightarrow> nm \<in> ln_id ` set nodes"
proof -
  have "fst ` set (rev (map (\<lambda>(i, n). (ln_id n, i)) (enumerate 0 nodes))) = ln_id ` snd ` set (enumerate 0 nodes)" by force
  also have "snd ` set (enumerate 0 nodes) = set nodes" by (metis list.set_map map_snd_enumerate)
  finally show ?thesis by (simp add: layer_index_def map_of_eq_None_iff)
qed

lemma segments_of_length: "length (segments_of ns e) = se_from_count e * se_to_count e"
  by (simp add: segments_of_def length_concat comp_def sum_list_triv)

lemma segments_total:
  "\<forall>e \<in> set es. se_segments e = se_from_count e * se_to_count e \<Longrightarrow>
    length (concat (map (segments_of ns) es)) = sum_list (map se_segments es)"
  by (induction es) (auto simp: segments_of_length)

lemma scene_edge_fields:
  assumes "scene_edge_of nodes (fst (lay_out 0 0 nodes)) (a, b) = Some e"
  shows "se_from_id e = a \<and> se_to_id e = b \<and> se_from e < length nodes \<and> se_to e < length nodes \<and> ln_id (nodes ! se_from e) = a \<and> ln_id (nodes ! se_to e) = b \<and>
    se_from_start e = sl_start (fst (lay_out 0 0 nodes) ! se_from e) \<and> se_to_start e = sl_start (fst (lay_out 0 0 nodes) ! se_to e) \<and>
    se_from_count e = effective_width (nodes ! se_from e) \<and> se_to_count e = effective_width (nodes ! se_to e) \<and>
    se_segments e = se_from_count e * se_to_count e \<and>
    (se_accent e \<longleftrightarrow> ln_sensitivity (nodes ! se_from e) \<ge> SENSITIVITY_THRESHOLD \<or> ln_sensitivity (nodes ! se_to e) \<ge> SENSITIVITY_THRESHOLD)"
proof -
  have a: "sl_sensitive (fst (lay_out 0 0 nodes) ! i) \<longleftrightarrow> ln_sensitivity (nodes ! i) \<ge> SENSITIVITY_THRESHOLD" if "i < length nodes" for i
    using lay_out_nth [OF that, of 0 0] by (simp add: scene_layer_of_def)
  have w: "sl_width (fst (lay_out 0 0 nodes) ! i) = effective_width (nodes ! i)" if "i < length nodes" for i
    using arg_cong [OF lay_out_layers(2) [of 0 0 nodes], of "\<lambda>xs. xs ! i"] that by (simp add: lay_out_layers(3))
  from assms show ?thesis by (auto simp: scene_edge_of_def Let_def w a dest!: layer_index_bound split: option.splits)
qed

lemma map_filter_keyed:
  assumes "\<And>x y. f x = Some y \<Longrightarrow> g y = x"
  shows "map g (List.map_filter f xs) = filter (\<lambda>x. f x \<noteq> None) xs"
  using assms by (induction xs) (auto simp: List.map_filter_def)

lemma scene_edges_drawn:
  "map (\<lambda>e. (se_from_id e, se_to_id e)) (sc_edges (build_architecture_scene arch seg))
     = filter (\<lambda>(a, b). a \<in> ln_id ` set (lg_nodes arch) \<and> b \<in> ln_id ` set (lg_nodes arch)) (lg_edges arch)"
proof -
  let ?layers = "fst (lay_out 0 0 (lg_nodes arch))"
  have "scene_edge_of (lg_nodes arch) ?layers e \<noteq> None \<longleftrightarrow> (case e of (a, b) \<Rightarrow> a \<in> ln_id ` set (lg_nodes arch) \<and> b \<in> ln_id ` set (lg_nodes arch))" for e
    unfolding layer_index_known [symmetric] by (auto simp: scene_edge_of_def Let_def split: option.split prod.split)
  moreover have "map (\<lambda>e. (se_from_id e, se_to_id e)) (List.map_filter (scene_edge_of (lg_nodes arch) ?layers) es)
      = filter (\<lambda>e. scene_edge_of (lg_nodes arch) ?layers e \<noteq> None) es" for es
    by (intro map_filter_keyed) (auto simp: scene_edge_of_def Let_def split: option.splits)
  ultimately show ?thesis by (simp add: build_architecture_scene_def Let_def case_prod_beta' cong: filter_cong)
qed

text \<open>Every neuron of the one stack with every neuron of the other.\<close>

definition bipartite :: "neuron list \<Rightarrow> neuron list \<Rightarrow> segment_line list" where
  "bipartite ns ms = concat (map (\<lambda>n. map (\<lambda>m. (place_of n, place_of m)) ms) ns)"

lemma segments_of_bipartite:
  assumes "scene_edge_of nodes (fst (lay_out 0 0 nodes)) (a, b) = Some e"
  shows "segments_of (snd (lay_out 0 0 nodes)) e = bipartite (neurons_of (se_from e) (nodes ! se_from e)) (neurons_of (se_to e) (nodes ! se_to e))"
proof -
  note f = scene_edge_fields [OF assms]
  have "map (\<lambda>k. place_of (snd (lay_out 0 0 nodes) ! (sl_start (fst (lay_out 0 0 nodes) ! i) + k))) [0..<effective_width (nodes ! i)]
      = map place_of (neurons_of i (nodes ! i))" if "i < length nodes" for i
    using that by (intro nth_equalityI) (simp_all add: neurons_in_stack)
  note stack = this
  define g where "g = (\<lambda>k. place_of (snd (lay_out 0 0 nodes) ! (se_from_start e + k)))"
  define h where "h = (\<lambda>k. place_of (snd (lay_out 0 0 nodes) ! (se_to_start e + k)))"
  have gh: "map g [0..<se_from_count e] = map place_of (neurons_of (se_from e) (nodes ! se_from e))"
    "map h [0..<se_to_count e] = map place_of (neurons_of (se_to e) (nodes ! se_to e))"
    using f stack [of "se_from e"] stack [of "se_to e"] by (simp_all add: g_def h_def)
  have "segments_of (snd (lay_out 0 0 nodes)) e = concat (map (\<lambda>p. map (Pair p) (map h [0..<se_to_count e])) (map g [0..<se_from_count e]))"
    by (simp add: segments_of_def g_def h_def comp_def)
  then show ?thesis unfolding gh by (simp add: bipartite_def comp_def)
qed

text \<open>C39: The scene is consistent: the layers are the nodes of the graph in order, each owns the block of neurons its start and width
  name and the blocks fill the list; the edges are those of the graph, in order and with the ids of their ends, that have both ends among the nodes, each
  points from the layer of its first id to the layer of its second and is accented exactly when one of the two is sensitive; and the
  segments sent on request are, edge by edge, those from each neuron of the first layer to each of the second, as many as announced.\<close>

theorem scene_is_consistent:
  assumes "sc = build_architecture_scene arch True"
  shows "map sl_node (sc_layers sc) = lg_nodes arch \<and>
    (\<forall>i < length (lg_nodes arch). take (sl_width (sc_layers sc ! i)) (drop (sl_start (sc_layers sc ! i)) (sc_neurons sc))
       = neurons_of i (lg_nodes arch ! i)) \<and>
    length (sc_neurons sc) = sum_list (map sl_width (sc_layers sc)) \<and>
    map (\<lambda>e. (se_from_id e, se_to_id e)) (sc_edges sc)
      = filter (\<lambda>(a, b). a \<in> ln_id ` set (lg_nodes arch) \<and> b \<in> ln_id ` set (lg_nodes arch)) (lg_edges arch) \<and>
    (\<forall>e \<in> set (sc_edges sc). se_from e < length (lg_nodes arch) \<and> ln_id (lg_nodes arch ! se_from e) = se_from_id e \<and>
       se_to e < length (lg_nodes arch) \<and> ln_id (lg_nodes arch ! se_to e) = se_to_id e \<and>
       se_from_start e = sl_start (sc_layers sc ! se_from e) \<and> se_to_start e = sl_start (sc_layers sc ! se_to e) \<and>
       (se_accent e \<longleftrightarrow> ln_sensitivity (lg_nodes arch ! se_from e) \<ge> SENSITIVITY_THRESHOLD \<or>
          ln_sensitivity (lg_nodes arch ! se_to e) \<ge> SENSITIVITY_THRESHOLD)) \<and>
    sc_segments sc = Some (concat (map (\<lambda>e. concat (map (\<lambda>n. map (\<lambda>m. (place_of n, place_of m)) (neurons_of (se_to e) (lg_nodes arch ! se_to e)))
       (neurons_of (se_from e) (lg_nodes arch ! se_from e)))) (sc_edges sc))) \<and>
    sc_counts sc = (length (sc_layers sc), length (sc_neurons sc), length (sc_edges sc), length (the (sc_segments sc)))"
proof -
  define nodes where "nodes = lg_nodes arch"
  define layers where "layers = fst (lay_out 0 0 nodes)"
  define neurons where "neurons = snd (lay_out 0 0 nodes)"
  have sc: "sc_layers sc = layers" "sc_neurons sc = neurons" "sc_edges sc = List.map_filter (scene_edge_of nodes layers) (lg_edges arch)"
    "sc_segments sc = Some (concat (map (segments_of neurons) (sc_edges sc)))"
    "sc_counts sc = (length layers, length neurons, length (sc_edges sc), sum_list (map se_segments (sc_edges sc)))"
    by (simp_all add: assms build_architecture_scene_def Let_def nodes_def layers_def neurons_def case_prod_beta')
  have edge: "\<exists>a b. scene_edge_of nodes layers (a, b) = Some e" if "e \<in> set (sc_edges sc)" for e
    using that unfolding sc(3) by (force simp: List.map_filter_def)
  have drawn: "map (segments_of neurons) (sc_edges sc)
      = map (\<lambda>e. bipartite (neurons_of (se_from e) (nodes ! se_from e)) (neurons_of (se_to e) (nodes ! se_to e))) (sc_edges sc)"
    unfolding neurons_def using edge segments_of_bipartite unfolding layers_def by (intro map_cong refl) blast
  have many: "length (concat (map (segments_of neurons) (sc_edges sc))) = sum_list (map se_segments (sc_edges sc))"
    using edge scene_edge_fields unfolding layers_def by (intro segments_total) blast
  show ?thesis
    unfolding sc(1,2) nodes_def [symmetric]
  proof (intro conjI)
    show "map sl_node layers = nodes" "length neurons = sum_list (map sl_width layers)"
      by (simp_all add: layers_def neurons_def lay_out_layers)
    show "\<forall>i < length nodes. take (sl_width (layers ! i)) (drop (sl_start (layers ! i)) neurons) = neurons_of i (nodes ! i)"
    proof (intro allI impI)
      fix i assume "i < length nodes"
      from lay_out_nth [OF this, of 0 0] show "take (sl_width (layers ! i)) (drop (sl_start (layers ! i)) neurons) = neurons_of i (nodes ! i)"
        by (simp add: layers_def neurons_def scene_layer_of_def)
    qed
    show "map (\<lambda>e. (se_from_id e, se_to_id e)) (sc_edges sc) = filter (\<lambda>(a, b). a \<in> ln_id ` set nodes \<and> b \<in> ln_id ` set nodes) (lg_edges arch)"
      using scene_edges_drawn [of arch True] by (simp only: assms nodes_def)
    show "\<forall>e \<in> set (sc_edges sc). se_from e < length nodes \<and> ln_id (nodes ! se_from e) = se_from_id e \<and>
       se_to e < length nodes \<and> ln_id (nodes ! se_to e) = se_to_id e \<and>
       se_from_start e = sl_start (layers ! se_from e) \<and> se_to_start e = sl_start (layers ! se_to e) \<and>
       (se_accent e \<longleftrightarrow> ln_sensitivity (nodes ! se_from e) \<ge> SENSITIVITY_THRESHOLD \<or> ln_sensitivity (nodes ! se_to e) \<ge> SENSITIVITY_THRESHOLD)"
    proof
      fix e assume "e \<in> set (sc_edges sc)"
      from edge [OF this] obtain a b where "scene_edge_of nodes (fst (lay_out 0 0 nodes)) (a, b) = Some e" by (auto simp: layers_def)
      from scene_edge_fields [OF this] show "se_from e < length nodes \<and> ln_id (nodes ! se_from e) = se_from_id e \<and>
       se_to e < length nodes \<and> ln_id (nodes ! se_to e) = se_to_id e \<and>
       se_from_start e = sl_start (layers ! se_from e) \<and> se_to_start e = sl_start (layers ! se_to e) \<and>
       (se_accent e \<longleftrightarrow> ln_sensitivity (nodes ! se_from e) \<ge> SENSITIVITY_THRESHOLD \<or> ln_sensitivity (nodes ! se_to e) \<ge> SENSITIVITY_THRESHOLD)"
        by (simp add: layers_def)
    qed
    show "sc_segments sc = Some (concat (map (\<lambda>e. concat (map (\<lambda>n. map (\<lambda>m. (place_of n, place_of m)) (neurons_of (se_to e) (nodes ! se_to e)))
       (neurons_of (se_from e) (nodes ! se_from e)))) (sc_edges sc)))"
      unfolding sc(4) drawn by (simp only: bipartite_def)
    show "sc_counts sc = (length layers, length neurons, length (sc_edges sc), length (the (sc_segments sc)))"
      unfolding sc(4,5) option.sel many ..
  qed
qed

section \<open>Colours are bytes\<close>

lemma blend_range:
  assumes "0 \<le> a" "a \<le> 255" "0 \<le> b" "b \<le> 255" "0 \<le> k" "k \<le> 1"
  shows "0 \<le> blend k a b \<and> blend k a b \<le> 255"
proof -
  have eq: "of_int a + of_int (b - a) * k = of_int a * (1 - k) + of_int b * k" by (simp add: algebra_simps)
  have "0 \<le> of_int a * (1 - k) + of_int b * k" using assms by (intro add_nonneg_nonneg mult_nonneg_nonneg) auto
  moreover have "of_int a * (1 - k) + of_int b * k \<le> 255 * (1 - k) + 255 * k" using assms by (intro add_mono mult_right_mono) auto
  ultimately show ?thesis unfolding blend_def eq by (simp add: floor_le_iff le_floor_iff algebra_simps)
qed

definition byte_rgb :: "rgb \<Rightarrow> bool" where
  "byte_rgb c \<longleftrightarrow> (case c of (r, g, b) \<Rightarrow> 0 \<le> r \<and> r \<le> 255 \<and> 0 \<le> g \<and> g \<le> 255 \<and> 0 \<le> b \<and> b \<le> 255)"

lemma viridis_rgb_bytes: "\<forall>(_, c) \<in> set stops. byte_rgb c \<Longrightarrow> byte_rgb (viridis_rgb stops p)"
proof (induction stops p rule: viridis_rgb.induct)
  case (1 ap ar ag ab bp br bg bb rest p)
  show ?case
  proof (cases "ap \<le> p \<and> p \<le> bp")
    case True
    then have "0 \<le> (p - ap) / (bp - ap)" "(p - ap) / (bp - ap) \<le> 1" by (auto simp: divide_le_eq)
    then show ?thesis using True "1.prems" by (simp add: Let_def byte_rgb_def blend_range)
  next
    case False
    then have "viridis_rgb ((ap, ar, ag, ab) # (bp, br, bg, bb) # rest) p = viridis_rgb ((bp, br, bg, bb) # rest) p"
      by (simp only: viridis_rgb.simps(1) if_False)
    then show ?thesis using "1.IH" False "1.prems" by auto
  qed
qed (auto simp: byte_rgb_def)

lemma hex_byte_chars: "0 \<le> n \<Longrightarrow> n \<le> 255 \<Longrightarrow> length (hex_byte n) = 2 \<and> set (hex_byte n) \<subseteq> set HEX_DIGITS"
proof -
  assume n: "0 \<le> n" "n \<le> 255"
  have l: "length HEX_DIGITS = 16" by (simp add: HEX_DIGITS_def)
  have "nat n div 16 < length HEX_DIGITS" "nat n mod 16 < length HEX_DIGITS" using n unfolding l by auto
  then show ?thesis by (simp add: hex_byte_def hex_digit_def)
qed

text \<open>Every colour is a CSS colour: whatever the sensitivity, also outside of the unit interval, the text is a number sign and six hexadecimal digits.\<close>

theorem viridis_is_css:
  "length (viridis_hex t) = 7 \<and> hd (viridis_hex t) = CHR ''#'' \<and> set (tl (viridis_hex t)) \<subseteq> set HEX_DIGITS"
proof -
  obtain r g b where c: "viridis_rgb VIRIDIS_STOPS (max 0 (min 1 t)) = (r, g, b)" by (cases "viridis_rgb VIRIDIS_STOPS (max 0 (min 1 t))")
  have "byte_rgb (r, g, b)" using viridis_rgb_bytes [of VIRIDIS_STOPS "max 0 (min 1 t)"] unfolding c by (simp add: VIRIDIS_STOPS_def byte_rgb_def)
  then have "length (hex_byte x) = 2 \<and> set (hex_byte x) \<subseteq> set HEX_DIGITS" if "x \<in> {r, g, b}" for x
    using that by (intro hex_byte_chars) (auto simp: byte_rgb_def)
  then show ?thesis unfolding viridis_hex_def c rgb_hex_def by simp
qed

section \<open>The camera stands far enough\<close>

lemma in_bounds: "n \<in> set ns \<Longrightarrow> low f ns \<le> f n \<and> f n \<le> high f ns"
  by (simp add: low_def high_def)

lemma half_fov_pos: "0 < half_fov"
proof -
  have "CAMERA_FOV * (pi / 180) / 2 = pi * (19 / 180)" by (simp add: CAMERA_FOV_def)
  moreover have "pi * (19 / 180) < pi / 2" using pi_gt_zero by simp
  ultimately show ?thesis unfolding half_fov_def by (intro tan_gt_zero) (simp_all add: pi_gt_zero)
qed

text \<open>The camera stands far enough: every neuron lies in the recorded box, at least one and a half in front of the camera, and the
  half height and half width of the field of view at its distance reach past it, both measured from the point looked at.\<close>

theorem camera_frames_every_neuron:
  assumes "n \<in> set ns"
  shows "low nu_x ns \<le> nu_x n \<and> nu_x n \<le> high nu_x ns \<and> low nu_y ns \<le> nu_y n \<and> nu_y n \<le> high nu_y ns \<and>
    low nu_z ns \<le> nu_z n \<and> nu_z n \<le> high nu_z ns \<and>
    1.5 < snd (snd (ca_position (camera_of ns))) - nu_z n \<and>
    \<bar>nu_y n - fst (snd (ca_target (camera_of ns)))\<bar> < half_fov * (snd (snd (ca_position (camera_of ns))) - nu_z n) \<and>
    \<bar>nu_x n - fst (ca_target (camera_of ns))\<bar> < 1.55 * half_fov * (snd (snd (ca_position (camera_of ns))) - nu_z n)"
proof -
  define zd where "zd = high nu_z ns - low nu_z ns"
  define dist where "dist = camera_distance ns"
  have b: "low f ns \<le> f n \<and> f n \<le> high f ns" for f using in_bounds [OF assms] .
  have zd: "0 \<le> zd" using b [of nu_z] by (simp add: zd_def)
  have far: "span_of nu_y ns / 2 / half_fov + 1.5 + zd * 0.6 \<le> dist" "span_of nu_x ns / 2 / (half_fov * 1.55) + 1.5 + zd * 0.6 \<le> dist"
    unfolding dist_def camera_distance_def Let_def zd_def [symmetric] by (auto intro!: max.coboundedI2 add_mono mult_right_mono)
  have cam: "snd (snd (ca_position (camera_of ns))) = (low nu_z ns + high nu_z ns) / 2 + dist"
    "fst (snd (ca_target (camera_of ns))) = (low nu_y ns + high nu_y ns) / 2" "fst (ca_target (camera_of ns)) = (low nu_x ns + high nu_x ns) / 2"
    by (simp_all add: camera_of_def Let_def dist_def)
  define depth where "depth = (low nu_z ns + high nu_z ns) / 2 + dist - nu_z n"
  have depth: "dist - zd / 2 \<le> depth" using b [of nu_z] by (simp add: depth_def zd_def field_simps)
  have span: "0 < span_of f ns" "2 * \<bar>f n - (low f ns + high f ns) / 2\<bar> < span_of f ns" for f
    using b [of f] by (auto simp: span_of_def abs_if field_simps)
  have y: "span_of nu_y ns / 2 / half_fov < depth" and x: "span_of nu_x ns / 2 / (half_fov * 1.55) < depth"
    using far depth zd by auto
  have "span_of nu_y ns / 2 < half_fov * depth" "span_of nu_x ns / 2 < 1.55 * half_fov * depth"
    using y x half_fov_pos by (simp_all add: pos_divide_less_eq ac_simps)
  then have "\<bar>nu_y n - (low nu_y ns + high nu_y ns) / 2\<bar> < half_fov * depth" "\<bar>nu_x n - (low nu_x ns + high nu_x ns) / 2\<bar> < 1.55 * half_fov * depth"
    using span(2) [of nu_y] span(2) [of nu_x] by (simp_all only: abs_if split: if_splits)
  moreover have "1.5 < depth"
  proof -
    have "0 < span_of nu_y ns / 2 / half_fov" using span(1) half_fov_pos by simp
    then show ?thesis using far(1) depth zd by auto
  qed
  ultimately show ?thesis unfolding cam depth_def [symmetric] using b by auto
qed

section \<open>The scene of a real graph\<close>

definition memo_kept :: "string set \<Rightarrow> succ_memo \<Rightarrow> bool" where
  "memo_kept kept memo \<longleftrightarrow> (\<forall>n out. memo n = Some out \<longrightarrow> set out \<subseteq> kept)"

lemma kept_successors_kept:
  assumes "memo_kept kept memo"
  shows "set (fst (kept_successors adj kept seen name memo)) \<subseteq> kept \<and> memo_kept kept (snd (kept_successors adj kept seen name memo))"
  using assms
proof (induction adj kept seen name memo rule: kept_successors.induct)
  case (1 adj kept seen name memo)
  show ?case
  proof (cases "memo name")
    case (Some out)
    then show ?thesis using "1.prems" by (simp add: kept_successors.simps memo_kept_def)
  next
    case None
    define step where "step = (\<lambda>succ (st :: string list \<times> succ_memo). if succ \<in> seen then st
        else if succ \<in> kept then (List.insert succ (fst st), snd st)
        else (let q = kept_successors adj kept (insert name seen) succ (snd st) in (List.union (fst q) (fst st), snd q)))"
    have k: "kept_successors adj kept seen name memo =
        (let r = fold step (succs_of adj name) ([], memo) in (fst r, (snd r)(name \<mapsto> fst r)))"
      by (subst kept_successors.simps) (simp add: None step_def)
    have "set (fst (fold step zs ([], memo))) \<subseteq> kept \<and> memo_kept kept (snd (fold step zs ([], memo)))" if "set zs \<subseteq> set (succs_of adj name)" for zs
      using that
    proof (induction zs rule: rev_induct)
      case Nil then show ?case using "1.prems" by simp
    next
      case (snoc m zs)
      then have ih: "set (fst (fold step zs ([], memo))) \<subseteq> kept" "memo_kept kept (snd (fold step zs ([], memo)))"
        and m: "m \<in> set (succs_of adj name)" by auto
      show ?case
        using ih "1.IH" [OF None m, of "([], snd (fold step zs ([], memo)))"] by (auto simp: step_def Let_def)
    qed
    from this [OF subset_refl] show ?thesis unfolding k by (auto simp: Let_def memo_kept_def)
  qed
qed

lemma edge_pairs_kept: "set (edge_pairs adj kept topo) \<subseteq> (set topo \<inter> kept) \<times> kept"
proof -
  have "set (fst (fold (add_edges adj kept topo) ns st)) \<subseteq> set (fst st) \<union> (set ns \<inter> kept) \<times> kept" if "memo_kept kept (snd st)" for ns st
    using that
  proof (induction ns arbitrary: st)
    case (Cons n ns)
    have "set (fst (add_edges adj kept topo n st)) \<subseteq> set (fst st) \<union> ({n} \<inter> kept) \<times> kept"
      "memo_kept kept (snd (add_edges adj kept topo n st))"
      using kept_successors_kept [OF Cons.prems, of adj "{}" n] Cons.prems by (auto simp: add_edges_def Let_def)
    from Cons.IH [OF this(2)] this(1) show ?case by auto
  qed simp
  from this [of "([], Map.empty)" topo] show ?thesis by (simp add: edge_pairs_def memo_kept_def)
qed

lemma kept_in_topo: "fst ` set (kept_kinds gi) \<subseteq> set (topo_of gi)"
  by (auto simp: kept_kinds_def Let_def List.map_filter_def split: if_splits)

lemma architecture_ids:
  assumes "map_architecture q nm gi = ok lg"
  shows "ln_id ` set (lg_nodes lg) = {''input'', ''output''} \<union> (set (topo_of gi) \<inter> fst ` set (kept_kinds gi))"
    "fst ` set (lg_edges lg) \<union> snd ` set (lg_edges lg) \<subseteq> ln_id ` set (lg_nodes lg)"
proof -
  define kept where "kept = fst ` set (kept_kinds gi)"
  define order where "order = filter (\<lambda>n. n \<in> kept) (topo_of gi)"
  define pairs where "pairs = edge_pairs (gi_adjacency gi) kept (topo_of gi)"
  define flops where "flops = sum_list (map (\<lambda>n. max 0 (op_flops (the (ops_of gi n)))) order)"
  define total where "total = (if flops = 0 then 1 else flops)"
  note defs = map_architecture_def Let_def kept_def [symmetric] order_def [symmetric] pairs_def [symmetric] flops_def [symmetric] total_def [symmetric]
  from assms obtain pos where pos: "compute_layout order pairs (map (\<lambda>(i, n). (n, i)) (enumerate 0 order)) = ok pos"
    unfolding defs by (cases "compute_layout order pairs (map (\<lambda>(i, n). (n, i)) (enumerate 0 order))") simp_all
  obtain d where nodes: "lg_nodes lg = end_node ''input'' 0 #
      map (\<lambda>n. layer_of q total n (the (map_of (kept_kinds gi) n)) (the (ops_of gi n)) (the (map_of pos n))) order @ [end_node ''output'' d]"
    and edges: "lg_edges lg = map (Pair ''input'') (filter (\<lambda>n. n \<notin> snd ` set pairs) order) @ pairs @
      map (\<lambda>n. (n, ''output'')) (filter (\<lambda>n. n \<notin> fst ` set pairs) order)"
    using assms unfolding defs pos bind_result.simps by (fastforce simp del: map_eq_conv)
  show ids: "ln_id ` set (lg_nodes lg) = {''input'', ''output''} \<union> (set (topo_of gi) \<inter> fst ` set (kept_kinds gi))"
    unfolding nodes kept_def [symmetric] by (auto simp: end_node_def layer_of_def Let_def order_def image_iff)
  have "set pairs \<subseteq> (set (topo_of gi) \<inter> kept) \<times> kept" unfolding pairs_def by (rule edge_pairs_kept)
  then have "fst ` set pairs \<subseteq> set (topo_of gi) \<inter> kept" "snd ` set pairs \<subseteq> kept" by auto
  then show "fst ` set (lg_edges lg) \<union> snd ` set (lg_edges lg) \<subseteq> ln_id ` set (lg_nodes lg)"
    unfolding ids edges using kept_in_topo [of gi] unfolding kept_def [symmetric] by (auto simp: order_def)
qed

text \<open>The scene of an analysed graph leaves no connection out: every edge of the layer graph is drawn.\<close>

theorem real_graph_is_drawn_whole:
  assumes "map_architecture q nm gi = ok lg"
  shows "length (sc_edges (build_architecture_scene lg True)) = length (lg_edges lg)"
proof -
  have "filter (\<lambda>(a, b). a \<in> ln_id ` set (lg_nodes lg) \<and> b \<in> ln_id ` set (lg_nodes lg)) (lg_edges lg) = lg_edges lg"
    using architecture_ids(2) [OF assms] by (auto simp: filter_id_conv)
  then show ?thesis using arg_cong [OF scene_edges_drawn [of lg True], of length] by simp
qed

section \<open>An example\<close>

definition demo_layers :: layer_graph where
  "demo_layers = \<lparr>lg_type = ''Transformer'', lg_nodes = [end_node ''input'' 0, (end_node ''a'' 1)\<lparr>ln_kind := ''relu''\<rparr>, end_node ''output'' 2],
     lg_edges = [(''input'', ''a''), (''a'', ''output''), (''a'', ''gone'')]\<rparr>"

theorem scene_is_consistent_witness:
  "map sl_width (sc_layers (build_architecture_scene demo_layers True)) = [1, 8, 1] \<and>
   map (\<lambda>e. (se_from_id e, se_to_id e)) (sc_edges (build_architecture_scene demo_layers True)) = [(''input'', ''a''), (''a'', ''output'')] \<and>
   sc_counts (build_architecture_scene demo_layers True) = (3, 10, 2, 16)"
proof -
  let ?sc = "build_architecture_scene demo_layers True"
  note c = scene_is_consistent [OF refl, of demo_layers]
  have w: "map sl_width (sc_layers ?sc) = [1, 8, 1]"
    by (simp add: build_architecture_scene_def demo_layers_def Let_def scene_layer_of_def effective_width_def end_node_def KIND_WIDTH_def)
  have s: "sum_list (map se_segments (sc_edges ?sc)) = 16"
    by (simp add: build_architecture_scene_def demo_layers_def Let_def scene_layer_of_def effective_width_def end_node_def KIND_WIDTH_def
        List.map_filter_def scene_edge_of_def layer_index_def numeral_eq_Suc)
  have e: "map (\<lambda>e. (se_from_id e, se_to_id e)) (sc_edges ?sc) = [(''input'', ''a''), (''a'', ''output'')]"
    using c by (simp add: demo_layers_def end_node_def)
  moreover have "length (sc_edges ?sc) = 2" using arg_cong [OF e, of length] by simp
  moreover have "length (sc_layers ?sc) = 3" using arg_cong [OF w, of length] by simp
  moreover have "length (sc_neurons ?sc) = 10" using c w by simp
  moreover have "snd (snd (snd (sc_counts ?sc))) = 16" using s by (simp add: build_architecture_scene_def Let_def case_prod_beta')
  ultimately show ?thesis using c w by auto
qed

theorem camera_frames_every_neuron_witness:
  "1.5 < snd (snd (ca_position (camera_of (neurons_of 0 (end_node ''input'' 0)))))"
  using camera_frames_every_neuron [of "hd (neurons_of 0 (end_node ''input'' 0))" "neurons_of 0 (end_node ''input'' 0)"]
  by (simp add: neurons_of_def effective_width_def end_node_def KIND_WIDTH_def)

theorem real_graph_is_drawn_whole_witness:
  "\<exists>lg. map_architecture q nm svm_info = ok lg \<and> length (sc_edges (build_architecture_scene lg True)) = length (lg_edges lg)"
proof -
  obtain lg where "map_architecture q nm svm_info = ok lg" using svm_layers by blast
  with real_graph_is_drawn_whole [OF this] show ?thesis by blast
qed

end
