(* ===== verification/Sdk_Facade.thy ===== *)
theory Sdk_Facade
  imports Engine_Adapter Formats
begin

text \<open>
  The library's front door, \<open>astra/core/ingestion.py\<close> and \<open>astra/sdk.py\<close>: the format of a file by its first bytes and its
  suffix, its conversion to a graph, and \<open>Astra.optimize\<close>.  The parsers and converters of the frameworks are a record of
  parameters, the metadata and the printed progress are left out.
\<close>

section \<open>The format of a file\<close>

datatype model_format = ONNX | PYTORCH | TENSORFLOW_SAVED_MODEL | TENSORFLOW_H5 | SKLEARN_PICKLE | XGBOOST | LIGHTGBM | UNKNOWN

text \<open>\<open>pk_type\<close> is the module and the name of the object's class, \<open>pk_mro\<close> the text of its base classes.\<close>

record pickled =
  pk_type :: string
  pk_mro :: string
  pk_features_in :: "int option"
  pk_importances :: "nat option"
  pk_coef_shape :: "nat list option"

datatype torch_object = TorchModule string | TorchDict | TorchOther

record frameworks =
  fw_zip_names :: "string \<Rightarrow> string list option"                       \<comment> \<open>\<open>None\<close>: \<open>BadZipFile\<close>\<close>
  fw_joblib :: "string \<Rightarrow> pickled option"
  fw_pickle :: "string \<Rightarrow> pickled option"
  fw_read_onnx :: "string \<Rightarrow> graph result"
  fw_torch_load :: "string \<Rightarrow> torch_object result"
  fw_torch_export :: "string \<Rightarrow> int list \<Rightarrow> string \<Rightarrow> graph result"  \<comment> \<open>module, shape and type of the dummy input\<close>
  fw_keras_h5 :: "string \<Rightarrow> graph result"
  fw_saved_model :: "string \<Rightarrow> graph result"
  fw_sklearn :: "pickled \<Rightarrow> int \<Rightarrow> bool \<Rightarrow> graph result"            \<comment> \<open>feature count, double inputs\<close>

datatype file_node = Folder bool | Unreadable | Bytes string                \<comment> \<open>whether it holds \<open>saved_model.pb\<close>\<close>

definition ZIP_MAGIC :: string where "ZIP_MAGIC = [CHR ''P'', CHR ''K'', CHR 0x03, CHR 0x04]"
definition PICKLE2_MAGIC :: string where "PICKLE2_MAGIC = [CHR 0x80, CHR 0x02]"
definition HDF_MAGIC :: string where
  "HDF_MAGIC = [CHR 0x89, CHR ''H'', CHR ''D'', CHR ''F'', CHR 0x0D, CHR 0x0A, CHR 0x1A, CHR 0x0A]"

definition detect_pickle_type :: "frameworks \<Rightarrow> string \<Rightarrow> model_format" where
  "detect_pickle_type fw content =
     (case (case fw_joblib fw content of Some p \<Rightarrow> Some p | None \<Rightarrow> fw_pickle fw content) of
        None \<Rightarrow> UNKNOWN
      | Some p \<Rightarrow>
          if str_in ''sklearn'' (pk_type p) \<or> str_in ''sklearn'' (pk_mro p) then SKLEARN_PICKLE
          else if str_in ''xgboost'' (pk_type p) then XGBOOST
          else if str_in ''lightgbm'' (pk_type p) then LIGHTGBM else SKLEARN_PICKLE)"

definition torch_zip :: "frameworks \<Rightarrow> string \<Rightarrow> bool" where
  "torch_zip fw content \<longleftrightarrow>
     prefix ZIP_MAGIC content \<and>
     (case fw_zip_names fw content of None \<Rightarrow> False | Some ns \<Rightarrow> list_ex (\<lambda>n. str_in ''data.pkl'' n \<or> str_in ''archive/data'' n) ns)"

definition detect_format :: "frameworks \<Rightarrow> string \<Rightarrow> file_node \<Rightarrow> model_format" where
  "detect_format fw path f =
     (let sfx = str_lower (path_suffix path) in
      if sfx = ''.onnx'' then ONNX
      else case f of
        Folder saved \<Rightarrow> if saved then TENSORFLOW_SAVED_MODEL else UNKNOWN
      | Unreadable \<Rightarrow> UNKNOWN
      | Bytes content \<Rightarrow>
          if torch_zip fw content then PYTORCH
          else if (prefix PICKLE2_MAGIC content \<or> sfx \<in> {''.pt'', ''.pth''} \<and> \<not> prefix ZIP_MAGIC content) \<and> sfx \<in> {''.pt'', ''.pth'', ''.bin''} then PYTORCH
          else if prefix HDF_MAGIC content then TENSORFLOW_H5
          else if sfx = ''.pb'' then TENSORFLOW_SAVED_MODEL
          else if sfx \<in> {''.pkl'', ''.joblib'', ''.pickle''} then detect_pickle_type fw content
          else if prefix [CHR 0x80] content \<and> sfx \<notin> {''.pt'', ''.pth''} then detect_pickle_type fw content
          else if sfx \<in> {''.h5'', ''.hdf5''} then TENSORFLOW_H5
          else if sfx = ''.keras'' then TENSORFLOW_H5 else UNKNOWN)"

section \<open>Conversion\<close>

record ingestion =
  ig_format :: model_format
  ig_graph :: graph
  ig_spec :: "(string \<times> int list) list"

text \<open>The inputs that are no initializers, a dimension without a positive value as -1.\<close>

definition graph_spec :: "graph \<Rightarrow> (string \<times> int list) list" where
  "graph_spec g =
     dict_of (map (\<lambda>v. (vi_name v, map (\<lambda>d. case d of DimValue n \<Rightarrow> if n > 0 then n else - 1 | DimParam _ \<Rightarrow> - 1)
                                      (case vi_shape v of None \<Rightarrow> [] | Some ds \<Rightarrow> ds)))
       (filter (\<lambda>v. vi_name v \<notin> t_name ` set (g_inits g)) (g_inputs g)))"

definition infer_n_features :: "pickled \<Rightarrow> int option result" where
  "infer_n_features p =
     (case pk_features_in p of
        Some n \<Rightarrow> ok (Some n)
      | None \<Rightarrow> (case pk_importances p of
          Some n \<Rightarrow> ok (Some (int n))
        | None \<Rightarrow> (case pk_coef_shape p of
            Some [] \<Rightarrow> raise IndexError
          | Some (d # ds) \<Rightarrow> ok (Some (int (last (d # ds))))
          | None \<Rightarrow> ok None)))"

definition ingest_pytorch :: "frameworks \<Rightarrow> string \<Rightarrow> int list option \<Rightarrow> string \<Rightarrow> ingestion result" where
  "ingest_pytorch fw content input_shape dtype =
     bind_result (fw_torch_load fw content) (\<lambda>obj.
       case obj of
         TorchDict \<Rightarrow> raise (ValueError ''state_dict'')
       | TorchOther \<Rightarrow> raise (ValueError ''Unexpected PyTorch object type'')
       | TorchModule m \<Rightarrow>
           (case input_shape of
              None \<Rightarrow> raise (ValueError ''input_shape is required'')
            | Some shape \<Rightarrow>
                bind_result (fw_torch_export fw m shape (if dtype \<in> {''float32'', ''float64'', ''int32''} then dtype else ''float32''))
                  (\<lambda>g. ok \<lparr>ig_format = PYTORCH, ig_graph = g, ig_spec = [(''X'', shape)]\<rparr>)))"

definition ingest_sklearn :: "frameworks \<Rightarrow> model_format \<Rightarrow> string \<Rightarrow> int list option \<Rightarrow> string \<Rightarrow> ingestion result" where
  "ingest_sklearn fw fmt content input_shape dtype =
     bind_result (case fw_joblib fw content of
         Some p \<Rightarrow> ok p
       | None \<Rightarrow> (case fw_pickle fw content of Some p \<Rightarrow> ok p | None \<Rightarrow> raise (RuntimeError ''pickle''))) (\<lambda>p.
     bind_result (infer_n_features p) (\<lambda>inferred.
       let n = (case input_shape of Some [_, k] \<Rightarrow> Some k | _ \<Rightarrow> inferred)
       in case n of
            None \<Rightarrow> raise (ValueError ''Cannot infer input feature count'')
          | Some k \<Rightarrow> bind_result (fw_sklearn fw p k (dtype = ''float64'')) (\<lambda>g.
              ok \<lparr>ig_format = fmt, ig_graph = g, ig_spec = [(''X'', [- 1, k])]\<rparr>)))"

text \<open>A folder and an unreadable file have no bytes, which only the format decided by the name can meet.\<close>

definition bytes_of :: "file_node \<Rightarrow> string result" where
  "bytes_of f = (case f of Bytes c \<Rightarrow> ok c | _ \<Rightarrow> raise (RuntimeError ''OSError''))"

definition ingest :: "frameworks \<Rightarrow> (file_node \<Rightarrow> string) \<Rightarrow> string \<Rightarrow> file_node \<Rightarrow> int list option \<Rightarrow> string \<Rightarrow> ingestion result" where
  "ingest fw folder_bytes path f input_shape dtype =
     (let fmt = detect_format fw path f; from_graph = (\<lambda>g. ok \<lparr>ig_format = fmt, ig_graph = g, ig_spec = graph_spec g\<rparr>)
      in case fmt of
           ONNX \<Rightarrow> bind_result (bytes_of f) (\<lambda>c. bind_result (fw_read_onnx fw c) from_graph)
         | PYTORCH \<Rightarrow> bind_result (bytes_of f) (\<lambda>c. ingest_pytorch fw c input_shape dtype)
         | TENSORFLOW_H5 \<Rightarrow> bind_result (bytes_of f) (\<lambda>c. bind_result (fw_keras_h5 fw c) from_graph)
         | TENSORFLOW_SAVED_MODEL \<Rightarrow> bind_result (fw_saved_model fw (case f of Bytes c \<Rightarrow> c | _ \<Rightarrow> folder_bytes f)) from_graph
         | UNKNOWN \<Rightarrow> raise (ValueError ''Unsupported model format'')
         | _ \<Rightarrow> bind_result (bytes_of f) (\<lambda>c. ingest_sklearn fw fmt c input_shape dtype))"

section \<open>Optimization\<close>

record sdk_options =
  sk_trials :: int
  sk_probes :: nat
  sk_seed :: int
  sk_guarantee :: bool
  sk_tau :: real
  sk_adaptive :: bool
  sk_early_stop :: bool

definition default_options :: sdk_options where
  "default_options = \<lparr>sk_trials = 30, sk_probes = 32, sk_seed = 42, sk_guarantee = False, sk_tau = 0.95, sk_adaptive = True, sk_early_stop = False\<rparr>"

record optimization =
  oz_original :: graph
  oz_compressed :: graph
  oz_detection :: model_report
  oz_sensitivity :: sensitivity_profile
  oz_validation :: validation_result
  oz_pareto :: "pareto_result option"
  oz_graph_info :: graph_info
  oz_guarantee :: "guarantee_result option"

definition sdk_search_config :: "sdk_options \<Rightarrow> search_config" where
  "sdk_search_config opt =
     \<lparr>sc_n_trials = sk_trials opt, sc_allow_pruning = False, sc_adaptive = sk_adaptive opt, sc_trials_per_dim = 10, sc_startup_trials = 10,
      sc_min_trials = 30, sc_max_trials = sk_trials opt, sc_early_stop = sk_early_stop opt, sc_hv_patience = 20, sc_hv_epsilon = 1 / 1000\<rparr>"

definition sdk_eval :: "'r engine \<Rightarrow> graph \<Rightarrow> (string \<times> int list) list \<Rightarrow> nat \<Rightarrow> int \<Rightarrow> graph \<Rightarrow> real result" where
  "sdk_eval en g spec n seed c =
     ok (case bind_result (probes_of en None n seed g spec) (validate default_weights (ge_ort (en_env en)) g c) of
           Inr vr \<Rightarrow> score_value (vr_quality vr) | Inl _ \<Rightarrow> 0)"

definition sdk_search_env :: "'r engine \<Rightarrow> sdk_options \<Rightarrow> graph \<Rightarrow> (string \<times> int list) list \<Rightarrow> feed list \<Rightarrow> search_env" where
  "sdk_search_env en opt g spec probes =
     \<lparr>se_ort_latency = en_latency en, se_eval = sdk_eval en g spec (min 16 (length probes)) (sk_seed opt),
      se_sampler = en_sampler en, se_best_trials = en_best_trials en, se_hv = en_hv en, se_np = ge_np (en_env en),
      se_ox = ge_ox (en_env en), se_byte_size = ge_byte_size (en_env en)\<rparr>"

text \<open>\<open>_run_pareto\<close>: any error of the search is no search.\<close>

definition run_pareto ::
  "'r engine \<Rightarrow> sdk_options \<Rightarrow> graph \<Rightarrow> graph_info \<Rightarrow> sensitivity_profile \<Rightarrow> (string \<times> int list) list \<Rightarrow> feed list \<Rightarrow> pareto_result option option" where
  "run_pareto en opt g gi profile spec probes =
     (case search (sdk_search_env en opt g spec probes)
             (sdk_search_config opt) g gi profile of
        None \<Rightarrow> None
      | Some (Inl _) \<Rightarrow> Some None
      | Some (Inr r) \<Rightarrow> Some (Some r))"

text \<open>The first candidate by accuracy that keeps 95 percent of the original's, or the first one.\<close>

definition sdk_choice :: "pareto_result \<Rightarrow> pareto_point option" where
  "sdk_choice r =
     (if pr_pareto_points r = [] then None
      else let candidates = sort_key (\<lambda>p. - pp_accuracy p) (pr_pareto_points r)
           in (case find (\<lambda>c. pp_accuracy c \<ge> pr_original_accuracy r * 0.95) candidates of
                 Some c \<Rightarrow> Some c | None \<Rightarrow> Some (candidates ! 0)))"

text \<open>The single pass guided by the sensitivities, which translates and applies also when nothing is to be done.\<close>

definition guided_pass :: "'r env \<Rightarrow> graph \<Rightarrow> graph_info \<Rightarrow> sensitivity_profile \<Rightarrow> graph run" where
  "guided_pass e g gi profile =
     apply_actions (ge_ox e) (ge_np e) g
       (concat (map (\<lambda>op. translate op (default_config\<lparr>cc_precision := fallback_precision profile op\<rparr>)) (compressible_operators gi)))"

definition select_compressed :: "'r env \<Rightarrow> graph \<Rightarrow> graph_info \<Rightarrow> sensitivity_profile \<Rightarrow> pareto_result option \<Rightarrow> graph run" where
  "select_compressed e g gi profile pareto =
     (case Option.bind pareto sdk_choice of
        Some c \<Rightarrow> reconstruct_model e g gi (pp_config c)
      | None \<Rightarrow> guided_pass e g gi profile)"

definition guarantee_branch ::
  "'r engine \<Rightarrow> sdk_options \<Rightarrow> graph \<Rightarrow> graph_info \<Rightarrow> sensitivity_profile \<Rightarrow> (string \<times> int list) list \<Rightarrow> architecture \<Rightarrow> guarantee_result run" where
  "guarantee_branch en opt g gi profile spec arch =
     then_do (Some (build_gate_probes (env_for en (Some arch)) g spec (sk_probes opt) (sk_seed opt) 3)) (\<lambda>ps.
       guarantee_compress (env_for en (Some arch)) g (sk_tau opt) (sk_probes opt) (sk_seed opt) 0.3 3 (Some gi) (Some profile) (Named ''v1'') (Some ps))"

definition validate_result ::
  "'r engine \<Rightarrow> sdk_options \<Rightarrow> graph \<Rightarrow> (string \<times> int list) list \<Rightarrow> architecture \<Rightarrow> graph \<Rightarrow> validation_result run" where
  "validate_result en opt g spec arch c =
     Some (bind_result (probes_of en (Some arch) (sk_probes opt) (sk_seed opt) g spec) (validate default_weights (ge_ort (en_env en)) g c))"

definition optimize_graph :: "'r engine \<Rightarrow> sdk_options \<Rightarrow> graph \<Rightarrow> (string \<times> int list) list \<Rightarrow> optimization run" where
  "optimize_graph en opt g ingested_spec =
     then_do (Some (detect (ox_infer_shapes (ge_ox (en_env en))) g)) (\<lambda>report.
     then_do (Some (analyze (ox_infer_shapes (ge_ox (en_env en))) g)) (\<lambda>gi.
       let spec = static_spec ingested_spec; arch = mr_architecture report in
     then_do (Some (probes_of en (Some arch) (sk_probes opt) (sk_seed opt) g spec)) (\<lambda>probes.
     then_do (Some (uosa_analyze (ge_ort (en_env en)) (ge_normal (en_env en)) 0.01 g gi probes (ge_rng (en_env en) 42))) (\<lambda>profile.
       let result = (\<lambda>c vr pareto gr. \<lparr>oz_original = g, oz_compressed = c, oz_detection = report, oz_sensitivity = profile,
             oz_validation = vr, oz_pareto = pareto, oz_graph_info = gi, oz_guarantee = gr\<rparr>)
       in if sk_guarantee opt
          then then_do (guarantee_branch en opt g gi profile spec arch) (\<lambda>gr.
               then_do (validate_result en opt g spec arch (gr_model gr)) (\<lambda>vr. Some (ok (result (gr_model gr) vr None (Some gr)))))
          else then_do (if sk_trials opt > 0 then map_option ok (run_pareto en opt g gi profile spec probes) else Some (ok None)) (\<lambda>pareto.
               then_do (select_compressed (en_env en) g gi profile pareto) (\<lambda>c.
               then_do (validate_result en opt g spec arch c) (\<lambda>vr. Some (ok (result c vr pareto None)))))))))"

text \<open>\<open>run_pareto\<close> is accepted and never read.\<close>

definition sdk_optimize ::
  "'r engine \<Rightarrow> frameworks \<Rightarrow> (file_node \<Rightarrow> string) \<Rightarrow> string \<Rightarrow> file_node \<Rightarrow> int list option \<Rightarrow> bool \<Rightarrow> sdk_options \<Rightarrow> optimization run" where
  "sdk_optimize en fw folder_bytes path f input_shape run_pareto_flag opt =
     then_do (Some (ingest fw folder_bytes path f input_shape ''float32'')) (\<lambda>ig. optimize_graph en opt (ig_graph ig) (ig_spec ig))"

text \<open>The first output on the first input, read as float32.\<close>

definition predict :: "ort \<Rightarrow> graph \<Rightarrow> nd_array \<Rightarrow> out_val result" where
  "predict ort g x =
     (if \<not> ort_load ort g then raise (RuntimeError ''onnxruntime'')
      else case filter (\<lambda>v. vi_name v \<notin> t_name ` set (g_inits g)) (g_inputs g) of
        [] \<Rightarrow> raise IndexError
      | v # _ \<Rightarrow>
          (case ort_run ort g (ort_outputs ort g) [(vi_name v, x\<lparr>nd_integer := False\<rparr>)] of
             None \<Rightarrow> raise (RuntimeError ''onnxruntime'')
           | Some [] \<Rightarrow> raise IndexError
           | Some (y # _) \<Rightarrow> ok y))"

definition sdk_predict ::
  "'r engine \<Rightarrow> frameworks \<Rightarrow> (file_node \<Rightarrow> string) \<Rightarrow> string \<Rightarrow> file_node \<Rightarrow> nd_array \<Rightarrow> int list option \<Rightarrow> out_val run" where
  "sdk_predict en fw folder_bytes path f x input_shape =
     then_do (sdk_optimize en fw folder_bytes path f input_shape False default_options) (\<lambda>r. Some (predict (ge_ort (en_env en)) (oz_compressed r) x))"

section \<open>What the front door promises\<close>

lemma update_map_values: "AList.update k (f v) (map (\<lambda>(k, v). (k, f v)) d) = map (\<lambda>(k, v). (k, f v)) (AList.update k v d)"
  by (induction d) auto

lemma dict_of_map_values: "dict_of (map (\<lambda>(k, v). (k, f v)) kvs) = map (\<lambda>(k, v). (k, f v)) (dict_of kvs)"
proof -
  have "fold (\<lambda>(k, v) d. AList.update k v d) (map (\<lambda>(k, v). (k, f v)) kvs) (map (\<lambda>(k, v). (k, f v)) acc)
      = map (\<lambda>(k, v). (k, f v)) (fold (\<lambda>(k, v) d. AList.update k v d) kvs acc)" for acc
    by (induction kvs arbitrary: acc) (auto simp: update_map_values)
  from this [of "[]"] show ?thesis by (simp add: dict_of_def)
qed

text \<open>The specification the front door hands on is the one the ladder would read off the graph itself.\<close>

lemma graph_spec_is_extracted: "static_spec (graph_spec g) = extract_input_spec g"
proof -
  have "(if d' \<le> 0 then 1 else d') = (case d of DimValue n \<Rightarrow> if n > 0 then n else 1 | DimParam _ \<Rightarrow> 1)"
    if "d' = (case d of DimValue n \<Rightarrow> if n > 0 then n else - 1 | DimParam _ \<Rightarrow> - 1)" for d and d' :: int
    using that by (auto split: dim.splits)
  then show ?thesis unfolding static_spec_def graph_spec_def extract_input_spec_def dict_of_map_values [symmetric] map_map
    by (intro arg_cong [of _ _ dict_of] map_cong) auto
qed

text \<open>Both front ends choose alike: for the same search result the facade selects the very trial the worker's pipeline selects,
  the most accurate point of the frontier, and rebuilds its model with the same function.\<close>

theorem facade_chooses_like_the_worker:
  "sdk_choice r = choose_point r \<and>
   select_compressed e g gi profile (Some r) =
     (case choose_point r of Some c \<Rightarrow> reconstruct_model e g gi (pp_config c) | None \<Rightarrow> guided_pass e g gi profile)"
proof -
  have "sdk_choice r = choose_point r"
    by (cases "sort_key (\<lambda>p. - pp_accuracy p) (pr_pareto_points r)")
      (auto simp: sdk_choice_def choose_point_def Let_def split: option.split dest: arg_cong [of _ _ length])
  then show ?thesis by (simp add: select_compressed_def)
qed

lemma guarantee_branch_result:
  assumes "guarantee_branch en opt g gi profile spec arch = Some (Inr r)"
  shows "\<exists>ps. build_gate_probes (env_for en (Some arch)) g spec (sk_probes opt) (sk_seed opt) 3 = ok ps \<and>
    (gr_model r = g \<and> gr_fidelity r = Fin 1 \<or>
     ge_byte_size (en_env en) (gr_model r) < ge_byte_size (en_env en) g \<and>
     gr_fidelity r = fst (gate_check (ge_ort (en_env en)) g (gr_model r) ps) \<and> \<not> pf_lt (gr_fidelity r) (Fin (sk_tau opt)))"
proof -
  let ?e = "env_for en (Some arch)"
  from assms obtain ps where ps: "build_gate_probes ?e g spec (sk_probes opt) (sk_seed opt) 3 = ok ps"
    and c: "climb ?e g gi profile 0.3 (sk_tau opt) ps (sk_seed opt) [RUNG_INT8_UNIFORM, RUNG_INT8_UOSA, RUNG_FP16] [] = Some r"
    by (auto simp: guarantee_branch_def guarantee_compress_def ladder_rungs_def LADDERS_def)
  moreover have "ge_ort ?e = ge_ort (en_env en)" "ge_byte_size ?e = ge_byte_size (en_env en)" by (simp_all add: env_for_def)
  ultimately show ?thesis using climb_result [OF c] by (auto simp: passes_gate_def)
qed

text \<open>C20: The guaranteed mode of the library keeps its promise: what \<open>optimize\<close> returns is the original model, or is smaller than it and its
  fidelity, the one in the certificate, measured on the pooled gate probes, is not below the floor that was asked for.\<close>

theorem facade_returns_certified:
  assumes "optimize_graph en opt g spec = Some (Inr z)" "sk_guarantee opt"
  shows "\<exists>r. oz_guarantee z = Some r \<and> oz_compressed z = gr_model r \<and> oz_pareto z = None \<and>
    (\<exists>arch ps. build_gate_probes (env_for en (Some arch)) g (static_spec spec) (sk_probes opt) (sk_seed opt) 3 = ok ps \<and>
      (gr_model r = g \<and> gr_fidelity r = Fin 1 \<or>
       ge_byte_size (en_env en) (gr_model r) < ge_byte_size (en_env en) g \<and>
       gr_fidelity r = fst (gate_check (ge_ort (en_env en)) g (gr_model r) ps) \<and> \<not> pf_lt (gr_fidelity r) (Fin (sk_tau opt))))"
proof -
  from assms obtain gi profile arch r where b: "guarantee_branch en opt g gi profile (static_spec spec) arch = Some (Inr r)"
    and z: "oz_guarantee z = Some r" "oz_compressed z = gr_model r" "oz_pareto z = None"
    by (auto simp: optimize_graph_def Let_def)
  from guarantee_branch_result [OF b] z show ?thesis by blast
qed

section \<open>Formats\<close>

text \<open>An HDF5 file is taken for a Keras model by its first bytes whatever it is called, unless its name ends like an ONNX or a
  PyTorch file, which decides before the bytes are looked at.\<close>

theorem hdf5_by_content:
  assumes "str_lower (path_suffix path) \<noteq> ''.onnx''" "str_lower (path_suffix path) \<noteq> ''.pt''" "str_lower (path_suffix path) \<noteq> ''.pth''"
  shows "detect_format fw path (Bytes (HDF_MAGIC @ rest)) = TENSORFLOW_H5"
  using assms by (simp add: detect_format_def torch_zip_def HDF_MAGIC_def ZIP_MAGIC_def PICKLE2_MAGIC_def Let_def)

lemma name_beats_content:
  "detect_format fw ''model.pt'' (Bytes (HDF_MAGIC @ rest)) = PYTORCH"
  "detect_format fw ''model.onnx'' (Bytes (HDF_MAGIC @ rest)) = ONNX"
proof -
  have "str_lower (path_suffix ''model.pt'') = ''.pt''" "str_lower (path_suffix ''model.onnx'') = ''.onnx''" by code_simp+
  then show "detect_format fw ''model.pt'' (Bytes (HDF_MAGIC @ rest)) = PYTORCH"
    "detect_format fw ''model.onnx'' (Bytes (HDF_MAGIC @ rest)) = ONNX"
    by (simp_all add: detect_format_def torch_zip_def HDF_MAGIC_def ZIP_MAGIC_def Let_def)
qed

text \<open>Every unsupported file is refused, and a PyTorch file needs the shape of its input.\<close>

lemma ingest_refuses:
  "detect_format fw path f = UNKNOWN \<Longrightarrow> ingest fw fb path f sh dt = raise (ValueError ''Unsupported model format'')"
  "detect_format fw path (Bytes c) = PYTORCH \<Longrightarrow> ingest fw fb path (Bytes c) None dt \<noteq> ok ig"
  by (auto simp: ingest_def bytes_of_def ingest_pytorch_def Let_def split: torch_object.splits)

text \<open>The column count of a hinted shape wins over the estimator's own.\<close>

lemma ingest_sklearn_spec:
  assumes "ingest_sklearn fw fmt c sh dt = ok ig"
  shows "\<exists>k. ig_spec ig = [(''X'', [- 1, k])] \<and> (\<forall>a b. sh = Some [a, b] \<longrightarrow> k = b)"
  using assms by (auto simp: ingest_sklearn_def Let_def split: option.splits list.splits)

section \<open>Examples\<close>

definition relu_options :: sdk_options where
  "relu_options = default_options\<lparr>sk_probes := 1, sk_guarantee := True\<rparr>"

theorem facade_returns_certified_witness:
  "\<exists>z. optimize_graph demo_engine relu_options relu relu_spec = Some (Inr z) \<and>
     (oz_compressed z = relu \<or> ge_byte_size demo_env (oz_compressed z) < ge_byte_size demo_env relu)"
proof -
  obtain rep where d: "detect (\<lambda>g. None) relu = ok rep" using relu_detect by blast
  obtain vr where vr: "validate default_weights demo_ort relu relu [relu_probe] = ok vr" using relu_validates by blast
  have opt: "sk_guarantee relu_options" "sk_probes relu_options = 1" "sk_seed relu_options = 42" by (simp_all add: relu_options_def default_options_def)
  obtain ps where ps: "build_gate_probes (env_for demo_engine (Some (mr_architecture rep))) relu relu_spec 1 42 3 = ok ps"
    using relu_gate [of "mr_architecture rep"] relu_compressible by (auto simp: gate_probes_for_def relu_world)
  have none: "build_candidate e rung relu relu_info relu_profile p = Some (ok None)" for e :: "unit env" and rung p
    by (simp add: build_candidate_def relu_info_def compressible_operators_def STANDARD_CATEGORIES_def ML_CATEGORIES_def)
  obtain r where r: "guarantee_branch demo_engine relu_options relu relu_info relu_profile relu_spec (mr_architecture rep) = Some (Inr r)" "gr_model r = relu"
    using ps by (simp add: guarantee_branch_def opt guarantee_compress_def ladder_rungs_def LADDERS_def try_rung_def rung_defs Let_def none)
  have "\<exists>z. optimize_graph demo_engine relu_options relu relu_spec = Some (Inr z)"
    by (simp add: optimize_graph_def relu_world relu_analyze d relu_probes [simplified] relu_uosa [simplified] opt r [simplified] validate_result_def vr [simplified] Let_def del: then_do_ok)
  then obtain z where z: "optimize_graph demo_engine relu_options relu relu_spec = Some (Inr z)" by blast
  from facade_returns_certified [OF z opt(1)] z show ?thesis by (auto simp: relu_world)
qed

theorem hdf5_by_content_witness: "detect_format fw ''net.bin'' (Bytes (HDF_MAGIC @ ''x'')) = TENSORFLOW_H5"
  by (rule hdf5_by_content) code_simp+

end
