(* ===== verification/Accounts.thy ===== *)
theory Accounts
  imports Py_Time
begin

text \<open>
  Accounts and sessions: \<open>app/auth/security.py\<close>, \<open>app/auth/dependencies.py\<close>, \<open>app/auth/google.py\<close> and \<open>app/routers/auth.py\<close>.
  The password hash, the signed token, the validation of addresses and Google's endpoints are parameters; the table of users is the
  state, and a handler answers with the session cookie it sets.  The rate limiter and the attributes of cookies are left out.
\<close>

section \<open>State and parameters\<close>

record user_row =
  us_id :: string
  us_email :: string
  us_hash :: "string option"
  us_name :: string
  us_created :: string
  us_role :: string
  us_provider :: string
  us_sub :: "string option"
  us_version :: int

text \<open>The claims of a token; a subject that is no text and a version that is no integer are \<open>None\<close>.\<close>

record claims =
  cl_sub :: "string option"
  cl_tv :: "int option"
  cl_iat :: int
  cl_exp :: int

record google_claims =
  gg_email :: "string option"
  gg_verified :: bool
  gg_sub :: "string option"
  gg_name :: "string option"
  gg_issuer :: string

text \<open>\<open>au_checkpw\<close> is \<open>None\<close> where bcrypt raises, \<open>au_decode\<close> where the signature or the expiry fails at the given second,
  \<open>au_exchange\<close> and \<open>au_verify\<close> where the exchange of the code or the check of its token fails.\<close>

record auth_env =
  au_prehash :: "string \<Rightarrow> string"
  au_hashpw :: "string \<Rightarrow> string"
  au_checkpw :: "string \<Rightarrow> string \<Rightarrow> bool option"
  au_encode :: "claims \<Rightarrow> string"
  au_decode :: "int \<Rightarrow> string \<Rightarrow> claims option"
  au_email :: "string \<Rightarrow> string option"
  au_exchange :: "string \<Rightarrow> string option"
  au_verify :: "string \<Rightarrow> google_claims option"
  au_ttl_min :: int
  au_signup_enabled :: bool
  au_google_enabled :: bool
  au_post_login :: string

definition MIN_PASSWORD_LEN :: nat where "MIN_PASSWORD_LEN = 8"
definition MAX_PASSWORD_LEN :: nat where "MAX_PASSWORD_LEN = 200"

section \<open>Passwords and tokens\<close>

definition hash_password :: "auth_env \<Rightarrow> string \<Rightarrow> string" where
  "hash_password env password = au_hashpw env (au_prehash env password)"

definition verify_password :: "auth_env \<Rightarrow> string \<Rightarrow> string option \<Rightarrow> bool" where
  "verify_password env password hashed =
     (case hashed of
        None \<Rightarrow> False
      | Some h \<Rightarrow> if h = '''' then False else (case au_checkpw env (au_prehash env password) h of None \<Rightarrow> False | Some b \<Rightarrow> b))"

definition create_access_token :: "auth_env \<Rightarrow> instant \<Rightarrow> string \<Rightarrow> int \<Rightarrow> string" where
  "create_access_token env now user_id token_version =
     au_encode env \<lparr>cl_sub = Some user_id, cl_tv = Some token_version, cl_iat = now div SECOND,
       cl_exp = (now + au_ttl_min env * MINUTE) div SECOND\<rparr>"

definition decode_access_token :: "auth_env \<Rightarrow> instant \<Rightarrow> string \<Rightarrow> (string \<times> int) option" where
  "decode_access_token env now token =
     (if token = '''' then None
      else case au_decode env (now div SECOND) token of
        None \<Rightarrow> None
      | Some c \<Rightarrow> (case cl_sub c of None \<Rightarrow> None | Some s \<Rightarrow> Some (s, case cl_tv c of Some v \<Rightarrow> v | None \<Rightarrow> 0)))"

section \<open>The current user\<close>

definition find_user :: "user_row list \<Rightarrow> string \<Rightarrow> user_row option" where
  "find_user users k = find (\<lambda>u. us_id u = k) users"

definition user_from_token :: "auth_env \<Rightarrow> instant \<Rightarrow> user_row list \<Rightarrow> string option \<Rightarrow> user_row option" where
  "user_from_token env now users token =
     (case decode_access_token env now (case token of Some t \<Rightarrow> t | None \<Rightarrow> '''') of
        None \<Rightarrow> None
      | Some (user_id, tv) \<Rightarrow>
          (case find_user users user_id of
             None \<Rightarrow> None
           | Some u \<Rightarrow> if us_version u \<noteq> tv then None else Some u))"

definition get_current_user :: "auth_env \<Rightarrow> instant \<Rightarrow> user_row list \<Rightarrow> string option \<Rightarrow> user_row result" where
  "get_current_user env now users token =
     (case user_from_token env now users token of Some u \<Rightarrow> ok u | None \<Rightarrow> raise (HTTPException 401 ''not_authenticated''))"

section \<open>Handlers\<close>

definition normalize_email :: "auth_env \<Rightarrow> string \<Rightarrow> string result" where
  "normalize_email env raw =
     (case au_email env (str_strip raw) of
        None \<Rightarrow> raise (HTTPException 400 ''invalid_email'')
      | Some e \<Rightarrow> ok (str_lower e))"

definition check_password :: "string \<Rightarrow> unit result" where
  "check_password pw =
     (if length pw < MIN_PASSWORD_LEN \<or> length pw > MAX_PASSWORD_LEN then raise (HTTPException 400 ''weak_password'') else ok ())"

definition check_name :: "string \<Rightarrow> string result" where
  "check_name nm =
     (let n = str_strip nm in if 1 \<le> length n \<and> length n \<le> 80 then ok n else raise (HTTPException 400 ''invalid_name''))"

record me =
  me_id :: string
  me_email :: string
  me_name :: string
  me_role :: string
  me_created :: string
  me_provider :: string

definition me_of :: "user_row \<Rightarrow> me" where
  "me_of u = \<lparr>me_id = us_id u, me_email = us_email u, me_name = us_name u, me_role = us_role u, me_created = us_created u,
     me_provider = us_provider u\<rparr>"

definition upd_user :: "string \<Rightarrow> (user_row \<Rightarrow> user_row) \<Rightarrow> user_row list \<Rightarrow> user_row list" where
  "upd_user k f users = upd_where (\<lambda>u. us_id u = k) f users"

definition signup ::
  "auth_env \<Rightarrow> instant \<Rightarrow> string \<Rightarrow> string \<Rightarrow> string \<Rightarrow> string \<Rightarrow> user_row list \<Rightarrow> (user_row list \<times> me \<times> string) result" where
  "signup env now token email password nm users =
     (if \<not> au_signup_enabled env then raise (HTTPException 403 ''signup_disabled'')
      else bind_result (normalize_email env email) (\<lambda>e. bind_result (check_name nm) (\<lambda>n. bind_result (check_password password) (\<lambda>_.
        if list_ex (\<lambda>u. us_email u = e) users then raise (HTTPException 409 ''email_taken'')
        else (let u = \<lparr>us_id = ''u_'' @ token, us_email = e, us_hash = Some (hash_password env password), us_name = n, us_created = iso now,
                    us_role = ''user'', us_provider = ''password'', us_sub = None, us_version = 0\<rparr>
              in ok (users @ [u], me_of u, create_access_token env now (us_id u) (us_version u)))))))"

definition login :: "auth_env \<Rightarrow> instant \<Rightarrow> string \<Rightarrow> string \<Rightarrow> user_row list \<Rightarrow> (me \<times> string) result" where
  "login env now email password users =
     (case find (\<lambda>u. us_email u = str_lower (str_strip email)) users of
        None \<Rightarrow> raise (HTTPException 401 ''invalid_credentials'')
      | Some u \<Rightarrow>
          if \<not> verify_password env password (us_hash u) then raise (HTTPException 401 ''invalid_credentials'')
          else ok (me_of u, create_access_token env now (us_id u) (us_version u)))"

definition update_profile :: "auth_env \<Rightarrow> instant \<Rightarrow> string option \<Rightarrow> string \<Rightarrow> user_row list \<Rightarrow> (user_row list \<times> me) result" where
  "update_profile env now cookie nm users =
     bind_result (get_current_user env now users cookie) (\<lambda>u. bind_result (check_name nm) (\<lambda>n.
       ok (upd_user (us_id u) (\<lambda>x. x\<lparr>us_name := n\<rparr>) users, me_of (u\<lparr>us_name := n\<rparr>))))"

definition change_password ::
  "auth_env \<Rightarrow> instant \<Rightarrow> string option \<Rightarrow> string \<Rightarrow> string \<Rightarrow> user_row list \<Rightarrow> (user_row list \<times> string) result" where
  "change_password env now cookie current new users =
     bind_result (get_current_user env now users cookie) (\<lambda>u.
       if \<not> verify_password env current (us_hash u) then raise (HTTPException 400 ''invalid_credentials'')
       else bind_result (check_password new) (\<lambda>_.
         ok (upd_user (us_id u) (\<lambda>x. x\<lparr>us_hash := Some (hash_password env new), us_version := us_version x + 1\<rparr>) users,
             create_access_token env now (us_id u) (us_version u + 1))))"

section \<open>Google\<close>

definition verify_id_token :: "auth_env \<Rightarrow> string \<Rightarrow> google_claims option" where
  "verify_id_token env t =
     (case au_verify env t of
        None \<Rightarrow> None
      | Some c \<Rightarrow> if gg_issuer c \<in> {''accounts.google.com'', ''https://accounts.google.com''} then Some c else None)"

definition falsy :: "string option \<Rightarrow> bool" where
  "falsy x \<longleftrightarrow> x = None \<or> x = Some ''''"

definition google_name :: "google_claims \<Rightarrow> string \<Rightarrow> string" where
  "google_name c email =
     take 80 (str_strip (if \<not> falsy (gg_name c) then the (gg_name c)
        else let local = takeWhile (\<lambda>x. x \<noteq> CHR ''@'') email in if local \<noteq> '''' then local else ''User''))"

definition provision_google_user :: "instant \<Rightarrow> string \<Rightarrow> google_claims \<Rightarrow> user_row list \<Rightarrow> user_row list \<times> user_row" where
  "provision_google_user now token c users =
     (let email = str_lower (str_strip (case gg_email c of Some e \<Rightarrow> e | None \<Rightarrow> ''''));
          known = (if falsy (gg_sub c) then None else find (\<lambda>u. us_sub u = gg_sub c) users)
      in case known of
           Some u \<Rightarrow> (users, u)
         | None \<Rightarrow>
             (case find (\<lambda>u. us_email u = email) users of
                Some u \<Rightarrow>
                  if falsy (us_sub u) \<and> \<not> falsy (gg_sub c)
                  then (upd_user (us_id u) (\<lambda>x. x\<lparr>us_sub := gg_sub c\<rparr>) users, u\<lparr>us_sub := gg_sub c\<rparr>)
                  else (users, u)
              | None \<Rightarrow>
                  (let u = \<lparr>us_id = ''u_'' @ token, us_email = email, us_hash = None, us_name = google_name c email, us_created = iso now,
                         us_role = ''user'', us_provider = ''google'', us_sub = gg_sub c, us_version = 0\<rparr>
                   in (users @ [u], u))))"

datatype redirect = ToLogin string | ToApp string string                   \<comment> \<open>the error; the path and the session cookie\<close>

text \<open>\<open>secrets.compare_digest\<close> raises on a text that is not ASCII.\<close>

definition is_ascii :: "string \<Rightarrow> bool" where
  "is_ascii s \<longleftrightarrow> list_all (\<lambda>c. (of_char c :: nat) < 128) s"

definition google_callback ::
  "auth_env \<Rightarrow> instant \<Rightarrow> string \<Rightarrow> string option \<Rightarrow> string option \<Rightarrow> string option \<Rightarrow> string option \<Rightarrow> user_row list \<Rightarrow> user_row list \<times> redirect result" where
  "google_callback env now token code state error cookie_state users =
     (if \<not> au_google_enabled env then (users, ok (ToLogin ''google_disabled''))
      else if \<not> falsy error \<or> falsy code then (users, ok (ToLogin ''google''))
      else if falsy state \<or> falsy cookie_state then (users, ok (ToLogin ''state''))
      else if \<not> is_ascii (the state) \<or> \<not> is_ascii (the cookie_state)
      then (users, raise TypeError)
      else if state \<noteq> cookie_state then (users, ok (ToLogin ''state''))
      else case Option.bind (au_exchange env (the code)) (verify_id_token env) of
        None \<Rightarrow> (users, ok (ToLogin ''google''))
      | Some c \<Rightarrow>
          if falsy (gg_email c) \<or> \<not> gg_verified c then (users, ok (ToLogin ''email_unverified''))
          else (let (users', u) = provision_google_user now token c users
                in (users', ok (ToApp (au_post_login env) (create_access_token env now (us_id u) (us_version u))))))"

section \<open>Every request in turn\<close>

datatype auth_event =
    Signup string string string
  | Profile "string option" string
  | Password "string option" string string
  | Google "string option" "string option" "string option" "string option"

fun auth_step :: "auth_env \<Rightarrow> instant \<Rightarrow> string \<Rightarrow> auth_event \<Rightarrow> user_row list \<Rightarrow> user_row list" where
  "auth_step env now token (Signup email pw nm) users =
     (case signup env now token email pw nm users of Inr (users', _, _) \<Rightarrow> users' | Inl _ \<Rightarrow> users)"
| "auth_step env now token (Profile cookie nm) users =
     (case update_profile env now cookie nm users of Inr (users', _) \<Rightarrow> users' | Inl _ \<Rightarrow> users)"
| "auth_step env now token (Password cookie current new) users =
     (case change_password env now cookie current new users of Inr (users', _) \<Rightarrow> users' | Inl _ \<Rightarrow> users)"
| "auth_step env now token (Google code state error cookie_state) users =
     fst (google_callback env now token code state error cookie_state users)"

text \<open>What follows a state: any requests at any times, the ids drawn being fresh.\<close>

inductive auth_runs :: "auth_env \<Rightarrow> user_row list \<Rightarrow> user_row list \<Rightarrow> bool" for env users where
  start: "auth_runs env users users"
| request: "auth_runs env users users' \<Longrightarrow> ''u_'' @ token \<notin> us_id ` set users' \<Longrightarrow>
    auth_runs env users (auth_step env now token ev users')"

section \<open>The table of users stays well-formed\<close>

definition subs_of :: "user_row list \<Rightarrow> string list" where
  "subs_of users = List.map_filter (\<lambda>u. if falsy (us_sub u) then None else us_sub u) users"

definition accounts_ok :: "user_row list \<Rightarrow> bool" where
  "accounts_ok users \<longleftrightarrow> distinct (map us_id users) \<and> distinct (map us_email users) \<and> distinct (subs_of users)"

lemma subs_upd: "(\<And>x. us_sub (f x) = us_sub x) \<Longrightarrow> subs_of (upd_where P f xs) = subs_of xs"
  by (induction xs) (auto simp: subs_of_def upd_where_def List.map_filter_def)

lemma subs_Cons: "subs_of (x # xs) = (if falsy (us_sub x) then subs_of xs else the (us_sub x) # subs_of xs)"
  by (auto simp: subs_of_def List.map_filter_def falsy_def)

lemma subs_append: "subs_of (xs @ ys) = subs_of xs @ subs_of ys"
  by (simp add: subs_of_def List.map_filter_def)

lemma subs_mem: "s \<in> set (subs_of users) \<longleftrightarrow> s \<noteq> '''' \<and> (\<exists>u \<in> set users. us_sub u = Some s)"
  by (force simp: subs_of_def List.map_filter_def falsy_def)

lemma subs_link:
  assumes "distinct (map us_id users)" "u \<in> set users" "falsy (us_sub u)" "\<not> falsy s" "the s \<notin> set (subs_of users)" "distinct (subs_of users)"
  shows "distinct (subs_of (upd_user (us_id u) (\<lambda>x. x\<lparr>us_sub := s\<rparr>) users))"
  using assms
proof (induction users)
  case (Cons x users)
  have cons: "upd_user k f (y # ys) = (if us_id y = k then f y else y) # upd_user k f ys" for k f y ys
    by (simp add: upd_user_def upd_where_def)
  have same: "upd_user (us_id u) f users = users" if "us_id u \<notin> us_id ` set users" for f
    using that unfolding upd_user_def upd_where_def by (intro map_idI) (auto simp: image_iff)
  have mem: "set (subs_of (upd_user (us_id u) (\<lambda>x. x\<lparr>us_sub := s\<rparr>) users)) \<subseteq> insert (the s) (set (subs_of users))"
    by (auto simp: subs_mem upd_user_def upd_where_def split: if_splits)
  show ?case
  proof (cases "us_id x = us_id u")
    case True
    then have "u = x" "us_id u \<notin> us_id ` set users" using Cons.prems(1,2) by force+
    then show ?thesis using Cons.prems same [of "\<lambda>x. x\<lparr>us_sub := s\<rparr>"]
      by (simp add: cons subs_Cons)
  next
    case False
    then have ih: "distinct (subs_of (upd_user (us_id u) (\<lambda>x. x\<lparr>us_sub := s\<rparr>) users))"
      using Cons.IH Cons.prems by (auto simp: subs_Cons split: if_splits)
    show ?thesis
    proof (cases "falsy (us_sub x)")
      case True
      then show ?thesis using False ih by (simp add: cons subs_Cons)
    next
      case sub: False
      then have "the s \<noteq> the (us_sub x)" "the (us_sub x) \<notin> set (subs_of users)" using Cons.prems(5,6) by (simp_all add: subs_Cons)
      then have "the (us_sub x) \<notin> set (subs_of (upd_user (us_id u) (\<lambda>x. x\<lparr>us_sub := s\<rparr>) users))" using mem by auto
      then show ?thesis using False ih sub by (simp add: cons subs_Cons)
    qed
  qed
qed (simp add: upd_user_def upd_where_def)

lemma upd_user_ok:
  assumes "accounts_ok users" "\<And>x. us_id (f x) = us_id x" "\<And>x. us_email (f x) = us_email x" "\<And>x. us_sub (f x) = us_sub x"
  shows "accounts_ok (upd_user k f users)"
  using assms by (simp add: accounts_ok_def upd_user_def map_upd_where subs_upd)

lemma append_ok:
  assumes "accounts_ok users" "us_id u \<notin> us_id ` set users" "us_email u \<notin> us_email ` set users"
    "falsy (us_sub u) \<or> the (us_sub u) \<notin> set (subs_of users)"
  shows "accounts_ok (users @ [u])"
proof -
  have "subs_of [u] = (if falsy (us_sub u) then [] else [the (us_sub u)])" by (simp add: subs_Cons) (simp add: subs_of_def)
  then show ?thesis using assms by (auto simp: accounts_ok_def subs_append)
qed

lemma find_None_notin: "find (\<lambda>u. g u = k) xs = None \<longleftrightarrow> k \<notin> g ` set xs"
  by (auto simp: find_None_iff)

lemma provision_cases:
  obtains (known) u where "provision_google_user now token c users = (users, u)" "u \<in> set users" "us_sub u = gg_sub c" "\<not> falsy (gg_sub c)"
  | (linked) u where "u \<in> set users" "us_email u = str_lower (str_strip (case gg_email c of Some e \<Rightarrow> e | None \<Rightarrow> ''''))"
      "falsy (us_sub u)" "\<not> falsy (gg_sub c)" "gg_sub c \<notin> us_sub ` set users"
      "provision_google_user now token c users = (upd_user (us_id u) (\<lambda>x. x\<lparr>us_sub := gg_sub c\<rparr>) users, u\<lparr>us_sub := gg_sub c\<rparr>)"
  | (mailed) u where "provision_google_user now token c users = (users, u)" "u \<in> set users"
      "us_email u = str_lower (str_strip (case gg_email c of Some e \<Rightarrow> e | None \<Rightarrow> ''''))"
  | (created) u where "provision_google_user now token c users = (users @ [u], u)" "us_id u = ''u_'' @ token" "us_email u \<notin> us_email ` set users"
      "us_hash u = None" "us_sub u = gg_sub c" "falsy (gg_sub c) \<or> gg_sub c \<notin> us_sub ` set users" "us_version u = 0"
proof -
  let ?email = "str_lower (str_strip (case gg_email c of Some e \<Rightarrow> e | None \<Rightarrow> ''''))"
  let ?known = "if falsy (gg_sub c) then None else find (\<lambda>u. us_sub u = gg_sub c) users"
  show ?thesis
  proof (cases ?known)
    case (Some u)
    then have "find (\<lambda>u. us_sub u = gg_sub c) users = Some u" "\<not> falsy (gg_sub c)" by (auto split: if_splits)
    then show ?thesis using find_in_set [of _ users u] by (intro known [of u]) (auto simp: provision_google_user_def Let_def)
  next
    case None
    then have free: "falsy (gg_sub c) \<or> gg_sub c \<notin> us_sub ` set users" by (auto simp: find_None_notin split: if_splits)
    show ?thesis
    proof (cases "find (\<lambda>u. us_email u = ?email) users")
      case (Some u)
      note m = find_in_set [OF Some]
      show ?thesis
      proof (cases "falsy (us_sub u) \<and> \<not> falsy (gg_sub c)")
        case True
        then show ?thesis using m None Some free by (intro linked [of u]) (simp_all add: provision_google_user_def Let_def)
      next
        case False
        then show ?thesis using m None Some by (intro mailed [of u]) (simp_all only: provision_google_user_def Let_def option.case if_False)
      qed
    next
      case none: None
      let ?u = "\<lparr>us_id = ''u_'' @ token, us_email = ?email, us_hash = None, us_name = google_name c ?email, us_created = iso now,
          us_role = ''user'', us_provider = ''google'', us_sub = gg_sub c, us_version = 0\<rparr>"
      have fresh: "?email \<notin> us_email ` set users" using none unfolding find_None_notin .
      show ?thesis
      proof (rule created [of ?u])
        show "provision_google_user now token c users = (users @ [?u], ?u)"
          by (simp only: provision_google_user_def Let_def None none option.case)
        show "us_email ?u \<notin> us_email ` set users" using fresh by (simp only: user_row.simps simp_thms)
      qed (use free in simp_all)
    qed
  qed
qed

lemma provision_ok:
  assumes "accounts_ok users" "''u_'' @ token \<notin> us_id ` set users"
  shows "accounts_ok (fst (provision_google_user now token c users))"
proof (cases rule: provision_cases [of now token c users])
  case (known u) then show ?thesis using assms by simp
next
  case (linked u)
  then have "the (gg_sub c) \<notin> set (subs_of users)" by (auto simp: subs_mem falsy_def image_iff)
  then have "distinct (subs_of (upd_user (us_id u) (\<lambda>x. x\<lparr>us_sub := gg_sub c\<rparr>) users))"
    using linked assms(1) by (intro subs_link) (auto simp: accounts_ok_def)
  then show ?thesis using linked assms(1) by (simp add: accounts_ok_def upd_user_def map_upd_where)
next
  case (mailed u) then show ?thesis using assms by simp
next
  case (created u)
  then have "falsy (us_sub u) \<or> the (us_sub u) \<notin> set (subs_of users)" by (auto simp: subs_mem falsy_def) (metis image_eqI)
  then show ?thesis using created assms by (simp add: append_ok)
qed

lemma step_ok:
  assumes "accounts_ok users" "''u_'' @ token \<notin> us_id ` set users"
  shows "accounts_ok (auth_step env now token ev users)"
proof (cases ev)
  case (Signup email pw nm)
  then show ?thesis using assms
    by (auto simp: signup_def Let_def list_ex_iff falsy_def image_iff split: sum.split intro!: append_ok)
next
  case (Profile cookie nm)
  then show ?thesis using assms(1) by (auto simp: update_profile_def split: sum.split intro: upd_user_ok)
next
  case (Password cookie current new)
  then show ?thesis using assms(1) by (auto simp: change_password_def split: sum.split intro: upd_user_ok)
next
  case (Google code state error cookie_state)
  then show ?thesis using assms provision_ok [OF assms] by (auto simp: google_callback_def Let_def case_prod_beta' split: option.split)
qed

text \<open>C31: The table of accounts stays well-formed: starting from a well-formed table, the empty one for instance, no sequence of sign-ups, Google
  sign-ins, profile and password changes yields two accounts with one id, one address or one Google subject.\<close>

theorem accounts_stay_distinct:
  assumes "auth_runs env users users'" "accounts_ok users"
  shows "accounts_ok users'"
  using assms by (induction rule: auth_runs.induct) (simp_all add: step_ok)

section \<open>Sessions\<close>

definition version_of :: "user_row list \<Rightarrow> string \<Rightarrow> int option" where
  "version_of users k = map_option us_version (find_user users k)"

lemma find_user_upd:
  "(\<And>x. us_id (f x) = us_id x) \<Longrightarrow> find_user (upd_user j f users) k = map_option (\<lambda>x. if us_id x = j then f x else x) (find_user users k)"
  by (simp add: find_user_def upd_user_def find_upd_where)

lemma find_user_append: "find_user users k = Some u \<Longrightarrow> find_user (users @ us) k = Some u"
  by (simp add: find_user_def find_append)

lemma version_step:
  assumes "version_of users k = Some v"
  shows "\<exists>v' \<ge> v. version_of (auth_step env now token ev users) k = Some v'"
proof -
  from assms obtain u where u: "find_user users k = Some u" "us_version u = v" by (auto simp: version_of_def)
  have keep: "\<exists>v' \<ge> v. version_of (upd_user j f users) k = Some v'" if "\<And>x. us_id (f x) = us_id x" "\<And>x. us_version x \<le> us_version (f x)" for j f
    using u that by (auto simp: version_of_def find_user_upd)
  have add: "\<exists>v' \<ge> v. version_of (users @ [x]) k = Some v'" for x using u by (auto simp: version_of_def find_user_append)
  have id: "\<exists>v' \<ge> v. version_of users k = Some v'" using assms by auto
  show ?thesis
  proof (cases ev)
    case (Signup email pw nm)
    then show ?thesis using add id by (auto simp: signup_def Let_def split: sum.split)
  next
    case (Profile cookie nm)
    then show ?thesis using keep id by (auto simp: update_profile_def split: sum.split)
  next
    case (Password cookie current new)
    then show ?thesis using keep id by (auto simp: change_password_def split: sum.split)
  next
    case (Google code state error cookie_state)
    have "\<exists>v' \<ge> v. version_of (fst (provision_google_user now token c users)) k = Some v'" for c
      by (cases rule: provision_cases [of now token c users]) (use keep add id in auto)
    then show ?thesis using id unfolding Google by (auto simp: google_callback_def Let_def case_prod_beta' split: option.split)
  qed
qed

lemma version_runs:
  assumes "auth_runs env users users'" "version_of users k = Some v"
  shows "\<exists>v' \<ge> v. version_of users' k = Some v'"
  using assms(1)
proof (induction rule: auth_runs.induct)
  case start then show ?case using assms(2) by auto
next
  case (request users' token now ev)
  then obtain v' where "v \<le> v'" "version_of users' k = Some v'" by blast
  with version_step [OF this(2), of env now token ev] show ?case by (meson order_trans)
qed

lemma user_from_token_iff:
  "user_from_token env now users (Some t) = Some u \<longleftrightarrow>
    (\<exists>c. t \<noteq> '''' \<and> au_decode env (now div SECOND) t = Some c \<and> cl_sub c = Some (us_id u) \<and>
      find_user users (us_id u) = Some u \<and> us_version u = (case cl_tv c of Some v \<Rightarrow> v | None \<Rightarrow> 0))"
proof -
  have id: "us_id u = k" if "find_user users k = Some u" for k using that by (auto simp: find_user_def dest: find_in_set)
  show ?thesis
  proof
    assume "user_from_token env now users (Some t) = Some u"
    then obtain c k where "t \<noteq> ''''" "au_decode env (now div SECOND) t = Some c" "cl_sub c = Some k" "find_user users k = Some u"
      "us_version u = (case cl_tv c of Some v \<Rightarrow> v | None \<Rightarrow> 0)"
      by (auto simp: user_from_token_def decode_access_token_def split: option.splits if_splits)
    with id show "\<exists>c. t \<noteq> '''' \<and> au_decode env (now div SECOND) t = Some c \<and> cl_sub c = Some (us_id u) \<and>
      find_user users (us_id u) = Some u \<and> us_version u = (case cl_tv c of Some v \<Rightarrow> v | None \<Rightarrow> 0)" by blast
  qed (auto simp: user_from_token_def decode_access_token_def)
qed

lemma current_user_ok: "get_current_user env now users cookie = ok u \<longleftrightarrow> user_from_token env now users cookie = Some u"
  by (simp add: get_current_user_def split: option.split)

lemma version_of_upd_self:
  "find_user users (us_id u) = Some u \<Longrightarrow> (\<And>x. us_id (f x) = us_id x) \<Longrightarrow>
    version_of (upd_user (us_id u) f users) (us_id u) = Some (us_version (f u))"
  by (simp add: version_of_def find_user_upd)

lemma change_password_ok:
  "change_password env now cookie current new users = ok (users', fresh) \<longleftrightarrow>
    (\<exists>u. get_current_user env now users cookie = ok u \<and> verify_password env current (us_hash u) \<and> check_password new = ok () \<and>
      users' = upd_user (us_id u) (\<lambda>x. x\<lparr>us_hash := Some (hash_password env new), us_version := us_version x + 1\<rparr>) users \<and>
      fresh = create_access_token env now (us_id u) (us_version u + 1))"
  by (auto simp: change_password_def split: if_splits)

text \<open>C30: A password change evicts every other session: whatever cookie the account was signed in with, after the change and any
  further requests of anybody it is answered 401, while the cookie the change itself hands out is accepted right after it, for the account with the new
  password and a version one higher, until it expires.  Of the token library it is asked that it decodes what it encoded, from the second of issue to the one
  of expiry, and that the signature check may refuse a token at some second, but never reads other claims from it.\<close>

theorem password_change_evicts:
  assumes "change_password env now cookie current new users = ok (users', fresh)"
    and "get_current_user env now users cookie = ok u"
    and "get_current_user env now users (Some old) = ok u"
    and "\<And>s c. au_decode env s old = Some c \<Longrightarrow> au_decode env (now div SECOND) old = Some c"
    and "\<And>s c. cl_iat c \<le> s \<Longrightarrow> s < cl_exp c \<Longrightarrow> au_encode env c \<noteq> '''' \<and> au_decode env s (au_encode env c) = Some c"
    and "auth_runs env users' users''" and "now \<le> soon" "soon + SECOND \<le> now + au_ttl_min env * MINUTE"
  shows "get_current_user env later users'' (Some old) = raise (HTTPException 401 ''not_authenticated'') \<and>
    get_current_user env soon users' (Some fresh) = ok (u\<lparr>us_hash := Some (hash_password env new), us_version := us_version u + 1\<rparr>)"
proof -
  let ?f = "\<lambda>x. x\<lparr>us_hash := Some (hash_password env new), us_version := us_version x + 1\<rparr>"
  have users': "users' = upd_user (us_id u) ?f users" "fresh = create_access_token env now (us_id u) (us_version u + 1)"
    using assms(1,2) by (auto simp: change_password_ok)
  obtain d where d: "au_decode env (now div SECOND) old = Some d" "cl_sub d = Some (us_id u)" "find_user users (us_id u) = Some u"
    "us_version u = (case cl_tv d of Some v \<Rightarrow> v | None \<Rightarrow> 0)"
    using assms(3) by (auto simp: current_user_ok user_from_token_iff)
  obtain v where v: "version_of users'' (us_id u) = Some v" "us_version u < v"
    using version_runs [OF assms(6), of "us_id u" "us_version u + 1"] d(3) users' by (auto simp: version_of_upd_self)
  have "user_from_token env later users'' (Some old) = None"
  proof (rule ccontr)
    assume "user_from_token env later users'' (Some old) \<noteq> None"
    then obtain w c' where w: "au_decode env (later div SECOND) old = Some c'" "cl_sub c' = Some (us_id w)"
      "find_user users'' (us_id w) = Some w" "us_version w = (case cl_tv c' of Some v \<Rightarrow> v | None \<Rightarrow> 0)"
      by (auto simp: user_from_token_iff)
    with assms(4) d have "c' = d" by fastforce
    with w d v show False by (auto simp: version_of_def)
  qed
  moreover have "soon div SECOND < (now + au_ttl_min env * MINUTE) div SECOND" "now div SECOND \<le> soon div SECOND"
    using zdiv_mono1 [OF assms(8), of SECOND] zdiv_mono1 [OF assms(7), of SECOND] by (simp_all add: SECOND_def)
  then have "user_from_token env soon users' (Some fresh) = Some (?f u)"
    using assms(5) d(3) users' by (auto simp: user_from_token_iff find_user_upd create_access_token_def)
  ultimately show ?thesis by (simp add: get_current_user_def)
qed

section \<open>Signing up and in\<close>

lemma signup_ok:
  "signup env now token email pw nm users = ok (users', m, cookie) \<longleftrightarrow>
    (\<exists>e n u. au_signup_enabled env \<and> normalize_email env email = ok e \<and> check_name nm = ok n \<and> check_password pw = ok () \<and>
      e \<notin> us_email ` set users \<and>
      u = \<lparr>us_id = ''u_'' @ token, us_email = e, us_hash = Some (hash_password env pw), us_name = n, us_created = iso now,
            us_role = ''user'', us_provider = ''password'', us_sub = None, us_version = 0\<rparr> \<and>
      users' = users @ [u] \<and> m = me_of u \<and> cookie = create_access_token env now (us_id u) 0)"
  by (auto simp: signup_def Let_def list_ex_iff image_iff)

lemma find_email_new: "us_email u \<notin> us_email ` set users \<Longrightarrow> find (\<lambda>x. us_email x = us_email u) (users @ [u]) = Some u"
  by (simp add: find_append find_None_notin [THEN iffD2])

text \<open>Who signs up can sign in: at the address as stored, in any case and with blanks around it, the new password is answered
  with the account and every password the hash does not accept with the 401 of an unknown address; nobody else's sign-in changes.\<close>

theorem signup_then_login:
  assumes "signup env now token email pw nm users = ok (users', m, cookie)"
    and "str_lower (str_strip typed) = me_email m"
    and "hash_password env pw \<noteq> ''''"
    and "au_checkpw env (au_prehash env pw) (hash_password env pw) = Some True"
    and "au_checkpw env (au_prehash env wrong) (hash_password env pw) \<noteq> Some True"
    and "str_lower (str_strip other) \<noteq> me_email m"
  shows "login env later typed pw users' = ok (m, create_access_token env later (me_id m) 0) \<and>
    login env later typed wrong users' = raise (HTTPException 401 ''invalid_credentials'') \<and>
    login env later other any users' = login env later other any users"
proof -
  obtain u where u: "users' = users @ [u]" "m = me_of u" "us_hash u = Some (hash_password env pw)" "us_version u = 0"
    "us_email u \<notin> us_email ` set users"
    using assms(1) by (auto simp: signup_ok)
  have f: "find (\<lambda>x. us_email x = str_lower (str_strip typed)) users' = Some u"
    using find_email_new [OF u(5)] assms(2) u by (simp add: me_of_def)
  have "find (\<lambda>x. us_email x = str_lower (str_strip other)) users' = find (\<lambda>x. us_email x = str_lower (str_strip other)) users"
    using assms(6) u by (auto simp: find_append me_of_def split: option.split)
  then show ?thesis
    using f u assms(3-5) by (auto simp: login_def verify_password_def me_of_def split: option.split)
qed

text \<open>Sign-up does not verify the address, and a Google account with the same verified address is linked to the account that is already
  there: who registered the address first shares the account with its owner, password and all.\<close>

theorem preregistered_account_is_shared:
  assumes "signup env now token email pw nm users = ok (users', m, cookie)"
    and "hash_password env pw \<noteq> ''''" and "au_checkpw env (au_prehash env pw) (hash_password env pw) = Some True"
    and "str_lower (str_strip typed) = me_email m"
    and "gg_email c = Some owner" "str_lower (str_strip owner) = me_email m" "gg_sub c = Some s" "s \<noteq> ''''" "Some s \<notin> us_sub ` set users"
    and "provision_google_user later token' c users' = (users'', u)"
  shows "us_id u = me_id m \<and> login env later typed pw users'' = ok (m, create_access_token env later (us_id u) (us_version u))"
proof -
  obtain a where a: "users' = users @ [a]" "m = me_of a" "us_hash a = Some (hash_password env pw)" "us_version a = 0"
    "us_email a \<notin> us_email ` set users" "us_sub a = None"
    using assms(1) by (auto simp: signup_ok)
  have none: "find (\<lambda>u. us_sub u = Some s) users' = None" using a assms(9) by (simp add: find_None_notin)
  have found: "find (\<lambda>x. us_email x = us_email a) users' = Some a" using find_email_new [OF a(5)] a(1) by simp
  have e: "str_lower (str_strip owner) = us_email a" "str_lower (str_strip typed) = us_email a" using assms(4,6) a(2) by (auto simp: me_of_def)
  have u: "u = a\<lparr>us_sub := Some s\<rparr>" "users'' = upd_user (us_id a) (\<lambda>x. x\<lparr>us_sub := Some s\<rparr>) users'"
    using assms(5,7,8,10) none found a(6) e(1) by (auto simp: provision_google_user_def Let_def falsy_def)
  have "find (\<lambda>x. us_email x = us_email a) users'' = map_option (\<lambda>x. if us_id x = us_id a then x\<lparr>us_sub := Some s\<rparr> else x) (Some a)"
    unfolding u(2) upd_user_def found [symmetric] by (rule find_upd_where) simp
  then show ?thesis using a u e assms(2,3) by (simp add: login_def verify_password_def me_of_def)
qed

section \<open>Witnesses\<close>

text \<open>An environment with a reversible hash and two tokens, for the two versions of one account.\<close>

definition demo_env :: auth_env where
  "demo_env = \<lparr>au_prehash = id, au_hashpw = (\<lambda>p. CHR ''h'' # p), au_checkpw = (\<lambda>p h. Some (h = CHR ''h'' # p)),
     au_encode = (\<lambda>c. if cl_tv c = Some 0 then ''old'' else ''new''),
     au_decode = (\<lambda>s t. if t = ''old'' then Some \<lparr>cl_sub = Some ''u_1'', cl_tv = Some 0, cl_iat = 0, cl_exp = 60\<rparr>
        else if t = ''new'' then Some \<lparr>cl_sub = Some ''u_1'', cl_tv = Some 1, cl_iat = 0, cl_exp = 60\<rparr> else None),
     au_email = Some, au_exchange = Some, au_verify = (\<lambda>t. None), au_ttl_min = 1, au_signup_enabled = True, au_google_enabled = False,
     au_post_login = ''/app''\<rparr>"

definition demo_user :: user_row where
  "demo_user = \<lparr>us_id = ''u_1'', us_email = ''a@b.c'', us_hash = Some ''hpassword'', us_name = ''A'', us_created = '''', us_role = ''user'',
     us_provider = ''password'', us_sub = None, us_version = 0\<rparr>"

lemmas demo_defs = demo_env_def demo_user_def find_user_def upd_user_def upd_where_def verify_password_def check_password_def hash_password_def
  get_current_user_def user_from_token_def decode_access_token_def create_access_token_def MIN_PASSWORD_LEN_def MAX_PASSWORD_LEN_def

definition demo_after :: "user_row list" where
  "demo_after = [demo_user\<lparr>us_hash := Some ''hlonger-one'', us_version := 1\<rparr>]"

text \<open>A token library that keeps the law: numbers in unary, texts behind their length.\<close>

definition pack_int :: "int \<Rightarrow> string" where
  "pack_int i = (if i < 0 then CHR ''-'' else CHR ''+'') # replicate (nat \<bar>i\<bar>) CHR ''1'' @ '';''"

definition unpack_int :: "string \<Rightarrow> int \<times> string" where
  "unpack_int s = (let n = int (length (takeWhile (\<lambda>c. c = CHR ''1'') (tl s)))
     in (if hd s = CHR ''-'' then - n else n, tl (dropWhile (\<lambda>c. c = CHR ''1'') (tl s))))"

lemma unpack_pack_int: "unpack_int (pack_int i @ r) = (i, r)"
proof -
  have "takeWhile (\<lambda>c. c = CHR ''1'') (replicate n CHR ''1'' @ CHR '';'' # r) = replicate n CHR ''1''"
    "dropWhile (\<lambda>c. c = CHR ''1'') (replicate n CHR ''1'' @ CHR '';'' # r) = CHR '';'' # r" for n
    by (induction n) simp_all
  then show ?thesis by (simp add: pack_int_def unpack_int_def)
qed

definition pack_claims :: "claims \<Rightarrow> string" where
  "pack_claims c = pack_int (cl_iat c) @ pack_int (cl_exp c) @
     (case cl_tv c of None \<Rightarrow> pack_int 0 | Some v \<Rightarrow> pack_int 1 @ pack_int v) @
     (case cl_sub c of None \<Rightarrow> pack_int 0 | Some k \<Rightarrow> pack_int 1 @ k)"

definition unpack_claims :: "string \<Rightarrow> claims" where
  "unpack_claims s =
     (let (iat, s1) = unpack_int s; (ex, s2) = unpack_int s1; (has_tv, s3) = unpack_int s2;
          (tv, s4) = (if has_tv = 1 then let (v, s4) = unpack_int s3 in (Some v, s4) else (None, s3));
          (has_sub, s5) = unpack_int s4
      in \<lparr>cl_sub = (if has_sub = 1 then Some s5 else None), cl_tv = tv, cl_iat = iat, cl_exp = ex\<rparr>)"

lemma unpack_pack_claims: "unpack_claims (pack_claims c) = c"
proof -
  have "unpack_int (pack_int i) = (i, [])" for i using unpack_pack_int [of i "[]"] by simp
  then show ?thesis by (cases c) (auto simp: unpack_claims_def pack_claims_def unpack_pack_int split: option.split)
qed

definition token_env :: auth_env where
  "token_env = demo_env\<lparr>au_encode := pack_claims,
     au_decode := (\<lambda>s t. let c = unpack_claims t in if cl_iat c \<le> s \<and> s < cl_exp c then Some c else None)\<rparr>"

lemma token_codec: "cl_iat c \<le> s \<Longrightarrow> s < cl_exp c \<Longrightarrow> au_encode token_env c \<noteq> '''' \<and> au_decode token_env s (au_encode token_env c) = Some c"
  by (simp add: token_env_def unpack_pack_claims) (simp add: pack_claims_def pack_int_def)

definition session_of :: "int \<Rightarrow> string" where
  "session_of v = create_access_token token_env 0 ''u_1'' v"

lemma session_of_reads: "session_of v \<noteq> '''' \<and> au_decode token_env 0 (session_of v) = Some \<lparr>cl_sub = Some ''u_1'', cl_tv = Some v, cl_iat = 0, cl_exp = 60\<rparr>"
  using token_codec [of "\<lparr>cl_sub = Some ''u_1'', cl_tv = Some v, cl_iat = 0, cl_exp = 60\<rparr>" 0]
  by (simp add: session_of_def create_access_token_def) (simp add: token_env_def demo_env_def MINUTE_def SECOND_def)

theorem password_change_evicts_witness:
  "change_password token_env 0 (Some (session_of 0)) ''password'' ''longer-one'' [demo_user] = ok (demo_after, session_of 1) \<and>
   get_current_user token_env 0 [demo_user] (Some (session_of 0)) = ok demo_user \<and>
   get_current_user token_env 5 demo_after (Some (session_of 0)) = raise (HTTPException 401 ''not_authenticated'') \<and>
   get_current_user token_env 5 demo_after (Some (session_of 1))
     = ok (demo_user\<lparr>us_hash := Some (hash_password token_env ''longer-one''), us_version := us_version demo_user + 1\<rparr>)"
proof -
  have cur: "get_current_user token_env 0 [demo_user] (Some (session_of 0)) = ok demo_user"
    using session_of_reads [of 0] by (auto simp: current_user_ok user_from_token_iff find_user_def demo_user_def)
  then have ch: "change_password token_env 0 (Some (session_of 0)) ''password'' ''longer-one'' [demo_user] = ok (demo_after, session_of 1)"
    by (auto simp: change_password_ok session_of_def) (simp_all add: token_env_def demo_after_def demo_defs)
  have same: "au_decode token_env s (session_of 0) = Some c \<Longrightarrow> au_decode token_env (0 div SECOND) (session_of 0) = Some c" for s c
    using session_of_reads [of 0] by (auto simp: token_env_def Let_def split: if_splits)
  have "(5 :: instant) + SECOND \<le> 0 + au_ttl_min token_env * MINUTE" by (simp add: token_env_def demo_env_def MINUTE_def SECOND_def)
  from password_change_evicts [OF ch cur cur same token_codec auth_runs.start _ this] cur ch show ?thesis by simp
qed

theorem accounts_stay_distinct_witness:
  "accounts_ok [] \<and> accounts_ok (auth_step demo_env 0 ''1'' (Signup ''a@b.c'' ''password'' ''A'') [])"
  using accounts_stay_distinct [OF auth_runs.request [OF auth_runs.start, of "''1''" "[]" demo_env 0 "Signup ''a@b.c'' ''password'' ''A''"]]
  by (simp add: accounts_ok_def subs_of_def)

lemma demo_signup:
  "signup demo_env 0 ''1'' '' A@b.c'' ''password'' ''A'' [] =
     ok ([\<lparr>us_id = ''u_1'', us_email = ''a@b.c'', us_hash = Some ''hpassword'', us_name = ''A'', us_created = iso 0, us_role = ''user'',
           us_provider = ''password'', us_sub = None, us_version = 0\<rparr>],
         \<lparr>me_id = ''u_1'', me_email = ''a@b.c'', me_name = ''A'', me_role = ''user'', me_created = iso 0, me_provider = ''password''\<rparr>, ''old'')"
proof -
  have "normalize_email demo_env '' A@b.c'' = ok ''a@b.c''" "check_name ''A'' = ok ''A''" by code_simp+
  then show ?thesis by (simp add: signup_ok demo_defs me_of_def)
qed

theorem signup_then_login_witness:
  "login demo_env 7 ''A@B.c '' ''password'' (fst (projr (signup demo_env 0 ''1'' '' A@b.c'' ''password'' ''A'' []))) =
     ok (\<lparr>me_id = ''u_1'', me_email = ''a@b.c'', me_name = ''A'', me_role = ''user'', me_created = iso 0, me_provider = ''password''\<rparr>, ''old'')"
proof -
  have strings: "str_lower (str_strip ''A@B.c '') = ''a@b.c''" "str_lower (str_strip '''') = ''''" by code_simp+
  have "au_checkpw demo_env (au_prehash demo_env p) (hash_password demo_env ''password'') = Some (p = ''password'')"
    "hash_password demo_env ''password'' = ''hpassword''" "create_access_token demo_env 7 ''u_1'' 0 = ''old''" for p
    by (auto simp: demo_env_def hash_password_def create_access_token_def)
  then show ?thesis
    using signup_then_login [OF demo_signup, of "''A@B.c ''" "''passwore''" "''''" 7] by (simp add: demo_signup strings)
qed

end
