(* ===== verification/Sdk_Runner.thy ===== *)
theory Sdk_Runner
  imports Sdk_Stats Registry
begin

text \<open>
  Serving on the device, \<open>clients/python/astra_sdk/runner.py\<close>: one inference with its timing and its telemetry event, the preparation of
  its inputs, and the cached download of the artifact, with the endpoint it asks first
  (\<open>artifact_info\<close> in \<open>app/routers/client_telemetry.py\<close>).  The inference session, numpy's conversions and the clock are parameters.
\<close>

section \<open>Arrays and sessions\<close>

record feed = ndarray +
  fd_kind :: char
  fd_dtype :: string

type_synonym feeds = "(string \<times> feed) list"

text \<open>\<open>re_shape\<close> is the shape \<open>np.asarray\<close> gives an output, \<open>re_array\<close> the array the statistics see.\<close>

record ('v, 'o) runner_env =
  re_inputs :: "(string \<times> int option list) list"
  re_outputs :: "string list"
  re_asarray :: "'v \<Rightarrow> feed result"
  re_float32 :: "feed \<Rightarrow> feed"
  re_normal :: "nat list \<Rightarrow> feed"
  re_session :: "string list \<Rightarrow> feeds \<Rightarrow> 'o list result"
  re_shape :: "'o \<Rightarrow> nat list result"
  re_array :: "'o \<Rightarrow> ndarray"

definition synth_shape :: "int option list \<Rightarrow> nat list" where
  "synth_shape dims = map (\<lambda>d. case d of Some n \<Rightarrow> if n > 0 then nat n else 1 | None \<Rightarrow> 1) dims"

fun prepare_inputs :: "('v, 'o) runner_env \<Rightarrow> (string \<times> 'v) list \<Rightarrow> (string \<times> int option list) list \<Rightarrow> feeds \<Rightarrow> feeds result" where
  "prepare_inputs e given [] feeds = ok feeds"
| "prepare_inputs e given ((name, _) # metas) feeds =
     (case map_of given name of
        None \<Rightarrow> raise (ValueError (''missing input '' @ name))
      | Some v \<Rightarrow> bind_result (re_asarray e v) (\<lambda>arr.
          prepare_inputs e given metas (AList.update name (if fd_kind arr = CHR ''f'' then re_float32 e arr else arr) feeds)))"

definition prepare :: "('v, 'o) runner_env \<Rightarrow> (string \<times> 'v) list option \<Rightarrow> feeds result" where
  "prepare e inputs =
     (case inputs of
        None \<Rightarrow> ok (fold (\<lambda>(name, dims). AList.update name (re_normal e (synth_shape dims))) (re_inputs e) [])
      | Some given \<Rightarrow> prepare_inputs e given (re_inputs e) [])"

fun batch_of :: "feeds \<Rightarrow> nat" where
  "batch_of [] = 1"
| "batch_of ((_, a) # rest) = (case nd_shape a of d # _ \<Rightarrow> d | [] \<Rightarrow> batch_of rest)"

definition signature_part :: "string \<times> feed \<Rightarrow> string" where
  "signature_part p = fst p @ '':'' @ join ''x'' (map str_of_nat (nd_shape (snd p))) @ '':'' @ fd_dtype (snd p)"

definition signature :: "feeds \<Rightarrow> string option" where
  "signature feeds = (let s = join '';'' (map signature_part feeds) in if s = '''' then None else Some s)"

section \<open>One inference\<close>

text \<open>The device: the reporter, when there is one, and the window its statistics gather in.\<close>

record device =
  dv_reporter :: reporter
  dv_window :: stats_window

record 'o run_result =
  ru_latency :: real
  ru_pre :: real
  ru_post :: real
  ru_outputs :: "(string \<times> nat list) list"
  ru_raw :: "'o list"

text \<open>What the surroundings contribute to one call: the readings of \<open>perf_counter\<close> in seconds, the clock of the event, the random index
  of the reservoir and numpy's histogram.\<close>

record call_env =
  ca_tick :: "nat \<Rightarrow> real"
  ca_now :: instant
  ca_index :: "nat \<Rightarrow> nat"
  ca_histogram :: "real list \<Rightarrow> nat list"

definition elapsed_ms :: "call_env \<Rightarrow> nat \<Rightarrow> real" where
  "elapsed_ms c i = (ca_tick c (i + 1) - ca_tick c i) * 1000"

definition report_event :: "call_env \<Rightarrow> client_event \<Rightarrow> device \<Rightarrow> device" where
  "report_event c ev dv =
     (let r = dv_reporter dv; fl = flush_window (ca_histogram c) (ca_now c) (dv_window dv);
          cut = (rp_enabled r \<and> WINDOW_MAX_REQUESTS \<le> rp_window_requests r + 1)
      in \<lparr>dv_reporter = record_event (ca_now c) ev (fst fl) r, dv_window = (if cut then snd fl else dv_window dv)\<rparr>)"

definition observe_call :: "call_env \<Rightarrow> feeds \<Rightarrow> ndarray option \<Rightarrow> device \<Rightarrow> device" where
  "observe_call c feeds first dv =
     (if rp_enabled (dv_reporter dv)
      then dv\<lparr>dv_window := observe (ca_index c) (Some (map (\<lambda>(n, a). (n, ndarray.truncate a)) feeds)) first (dv_window dv)\<rparr> else dv)"

definition error_code_of :: "py_error \<Rightarrow> string" where
  "error_code_of e = (case e of ValueError _ \<Rightarrow> ''bad_input'' | KeyError \<Rightarrow> ''bad_input'' | _ \<Rightarrow> ''inference_error'')"

definition failure_event :: "string \<Rightarrow> feeds \<Rightarrow> py_error \<Rightarrow> client_event" where
  "failure_event region feeds e =
     \<lparr>ce_ts = '''', ce_latency = 0, ce_pre = None, ce_post = None, ce_success = False, ce_error = Some (error_code_of e),
      ce_batch_size = batch_of feeds, ce_region = region, ce_input_sig = signature feeds\<rparr>"

definition success_event :: "call_env \<Rightarrow> string \<Rightarrow> feeds \<Rightarrow> client_event" where
  "success_event c region feeds =
     \<lparr>ce_ts = '''', ce_latency = elapsed_ms c 2, ce_pre = Some (elapsed_ms c 0), ce_post = Some (elapsed_ms c 4), ce_success = True,
      ce_error = None, ce_batch_size = batch_of feeds, ce_region = region, ce_input_sig = signature feeds\<rparr>"

text \<open>The body of the \<open>try\<close>: the feeds bound so far, the outputs or the exception, and the window after \<open>observe\<close>.\<close>

definition attempt ::
  "('v, 'o) runner_env \<Rightarrow> call_env \<Rightarrow> (string \<times> 'v) list option \<Rightarrow> device option
     \<Rightarrow> feeds \<times> ('o list \<times> (string \<times> nat list) list) result \<times> device option" where
  "attempt e c inputs dv =
     (case prepare e inputs of
        Inl x \<Rightarrow> ([], raise x, dv)
      | Inr feeds \<Rightarrow>
          (case bind_result (re_session e (re_outputs e) feeds) (\<lambda>raw.
                  bind_result (mapM_result (\<lambda>(n, out). bind_result (re_shape e out) (\<lambda>s. ok (n, s))) (zip (re_outputs e) raw)) (\<lambda>outs. ok (raw, outs))) of
             Inl x \<Rightarrow> (feeds, raise x, dv)
           | Inr (raw, outs) \<Rightarrow>
               (feeds, ok (raw, outs), map_option (observe_call c feeds (case raw of [] \<Rightarrow> None | out # _ \<Rightarrow> Some (re_array e out))) dv)))"

definition run ::
  "('v, 'o) runner_env \<Rightarrow> call_env \<Rightarrow> (string \<times> 'v) list option \<Rightarrow> string \<Rightarrow> device option \<Rightarrow> 'o run_result result \<times> device option" where
  "run e c inputs region dv =
     (case attempt e c inputs dv of
        (feeds, Inl x, dv1) \<Rightarrow> (raise x, map_option (report_event c (failure_event region feeds x)) dv1)
      | (feeds, Inr (raw, outs), dv1) \<Rightarrow>
          (ok \<lparr>ru_latency = py_round 3 (elapsed_ms c 2), ru_pre = py_round 3 (elapsed_ms c 0), ru_post = py_round 3 (elapsed_ms c 4),
               ru_outputs = outs, ru_raw = raw\<rparr>,
           map_option (report_event c (success_event c region feeds)) dv1))"

section \<open>The artifact\<close>

definition DEFAULT_BASE_URL :: string where "DEFAULT_BASE_URL = ''https://astra.kwon5700.kr''"

definition resolve_base_url :: "string option \<Rightarrow> string option \<Rightarrow> string" where
  "resolve_base_url base_url environ = strip_slash (or_empty base_url (or_empty environ DEFAULT_BASE_URL))"

text \<open>Whether a runner built from a file reports: the flag \<open>report_telemetry\<close> is the first argument.\<close>

definition file_reports :: "bool \<Rightarrow> string option \<Rightarrow> string option \<Rightarrow> bool" where
  "file_reports report_telemetry deployment_id api_key =
     (let given = (or_empty deployment_id '''' \<noteq> '''' \<and> or_empty api_key '''' \<noteq> ''''); want = (report_telemetry \<or> given) in want \<and> given)"

record pull_info =
  pi_file :: string
  pi_size :: nat
  pi_sha :: string
  pi_kind :: string

definition artifact_info ::
  "digest \<Rightarrow> (string \<Rightarrow> string) \<Rightarrow> string \<Rightarrow> string option \<Rightarrow> store \<Rightarrow> db \<Rightarrow> (db \<times> pull_info) result" where
  "artifact_info hash sha dep_id authorization st d =
     bind_result (resolve hash dep_id authorization d) (\<lambda>(_, _, m).
     bind_result (artifact_meta sha m st d) (\<lambda>(d1, h, size, key).
       ok (d1, \<lparr>pi_file = path_name key, pi_size = size, pi_sha = h, pi_kind = (if suffix ''.onnx'' key then ''onnx'' else ''npz'')\<rparr>)))"

text \<open>The cache maps paths below its directory to contents.  \<open>info\<close> and \<open>get\<close> are the two requests.\<close>

definition cache_target :: "string \<Rightarrow> pull_info \<Rightarrow> string" where
  "cache_target deployment_id i =
     deployment_id @ ''/'' @ pi_sha i @ (let s = path_suffix (pi_file i) in if s = '''' then ''.onnx'' else s)"

definition pull_artifact ::
  "('w \<Rightarrow> pull_info result \<times> 'w) \<Rightarrow> ('w \<Rightarrow> string result \<times> 'w) \<Rightarrow> (pull_info \<Rightarrow> string) \<Rightarrow> string \<Rightarrow> store \<Rightarrow> 'w
     \<Rightarrow> string result \<times> store \<times> 'w" where
  "pull_artifact info get dumps deployment_id cache w =
     (case info w of
        (Inl e, w1) \<Rightarrow> (raise e, cache, w1)
      | (Inr i, w1) \<Rightarrow>
          (let target = cache_target deployment_id i in
           if (case store_get cache target of Some c \<Rightarrow> length c = pi_size i | None \<Rightarrow> False) then (ok target, cache, w1)
           else case get w1 of
               (Inl e, w2) \<Rightarrow> (raise e, cache, w2)
             | (Inr bytes, w2) \<Rightarrow> (ok target, store_put (deployment_id @ ''/meta.json'') (dumps i) (store_put target bytes cache), w2)))"

section \<open>Every inference is reported\<close>

lemma rp_events_take_window [simp]: "rp_events (take_window stats r) = rp_events r"
  by (simp add: take_window_def Let_def split: option.split)

text \<open>A full queue loses its oldest event for the new one, and the loss is counted.\<close>

lemma record_event_queue:
  assumes "rp_enabled r" "length (rp_events r) \<le> QUEUE_MAX" "k = (if length (rp_events r) = QUEUE_MAX then 1 else 0)"
  shows "\<exists>ev'. rp_events (record_event now ev stats r) = drop k (rp_events r) @ [ev'] \<and> rp_dropped (record_event now ev stats r) = rp_dropped r + k \<and>
     ce_success ev' = ce_success ev \<and> (event_schema ev \<longrightarrow> event_schema ev') \<and> ce_batch_size ev' = ce_batch_size ev"
proof -
  have q: "deque_append QUEUE_MAX x (rp_events r) = drop k (rp_events r) @ [x]" for x
    using assms(2,3) by (auto simp: deque_append_def QUEUE_MAX_def)
  have d: "rp_dropped (take_window stats r) = rp_dropped r" for r by (simp add: take_window_def Let_def split: option.split)
  show ?thesis using assms(1,3)
    by (auto simp: record_event_def Let_def event_schema_def q d intro!: exI py_round_nonneg split: option.splits)
qed

lemma report_event_queue:
  assumes "rp_enabled (dv_reporter dv)" "length (rp_events (dv_reporter dv)) \<le> QUEUE_MAX"
    "k = (if length (rp_events (dv_reporter dv)) = QUEUE_MAX then 1 else 0)"
  shows "\<exists>ev'. rp_events (dv_reporter (report_event c ev dv)) = drop k (rp_events (dv_reporter dv)) @ [ev'] \<and>
      rp_dropped (dv_reporter (report_event c ev dv)) = rp_dropped (dv_reporter dv) + k \<and> ce_success ev' = ce_success ev \<and>
      (event_schema ev \<longrightarrow> event_schema ev') \<and> ce_batch_size ev' = ce_batch_size ev"
  unfolding report_event_def Let_def device.select_convs by (rule record_event_queue [OF assms])

lemma attempt_frame:
  assumes "attempt e c inputs (Some dv) = (feeds, r, dv1)"
  shows "\<exists>dv'. dv1 = Some dv' \<and> dv_reporter dv' = dv_reporter dv"
    and "feeds = [] \<or> prepare e inputs = ok feeds"
  using assms by (auto simp: attempt_def observe_call_def split: sum.splits prod.splits)

lemma run_events_valid:
  assumes "attempt e c inputs (Some dv) = (feeds, r, dv1)" "\<forall>i. ca_tick c i \<le> ca_tick c (i + 1)" "length region \<le> 64"
    and "\<forall>feeds. prepare e inputs = ok feeds \<longrightarrow> 0 < batch_of feeds \<and> length (or_empty (signature feeds) '''') \<le> 256"
  shows "event_schema (failure_event region feeds x)" "event_schema (success_event c region feeds)"
proof -
  have "signature [] = None" by (simp add: signature_def)
  then have names: "0 < batch_of feeds" "\<And>s. signature feeds = Some s \<Longrightarrow> length s \<le> 256"
    using attempt_frame(2) [OF assms(1)] assms(4) by (auto simp: or_empty_def split: if_splits)
  have ms: "0 \<le> elapsed_ms c i" for i using assms(2) by (simp add: elapsed_ms_def)
  show "event_schema (failure_event region feeds x)" "event_schema (success_event c region feeds)"
    using names ms assms(3)
    by (auto simp: event_schema_def failure_event_def success_event_def error_code_of_def split: option.split py_error.split)
qed

text \<open>C8: Every inference on the device is reported, once, when the reporter is enabled: the queue, which holds at most 10,000 events, ends in one
  event more, marked as a success exactly when the call returned its outputs and not when it raised; a queue that was full has lost its oldest event for it
  and counted the loss, any other has lost nothing.  And where the clock does not run backwards, the region has at most 64 characters and the
  inputs, if they can be prepared at all, have a first dimension that is not 0 and a signature of at most 256 characters, the event is one the
  server's schema accepts, so it cannot take the batch it travels in down with it.  A disabled reporter queues nothing.\<close>

theorem every_run_is_reported:
  assumes "run e c inputs region (Some dv) = (res, dv')" and "length (rp_events (dv_reporter dv)) \<le> QUEUE_MAX"
    and "k = (if length (rp_events (dv_reporter dv)) = QUEUE_MAX then 1 else 0)"
  shows "\<exists>dv1. dv' = Some dv1 \<and>
    (rp_enabled (dv_reporter dv) \<longrightarrow>
      (\<exists>ev. rp_events (dv_reporter dv1) = drop k (rp_events (dv_reporter dv)) @ [ev] \<and>
        rp_dropped (dv_reporter dv1) = rp_dropped (dv_reporter dv) + k \<and>
        (ce_success ev \<longleftrightarrow> (\<exists>z. res = ok z)) \<and>
        ((\<forall>i. ca_tick c i \<le> ca_tick c (i + 1)) \<and> length region \<le> 64 \<and>
         (\<forall>feeds. prepare e inputs = ok feeds \<longrightarrow> 0 < batch_of feeds \<and> length (or_empty (signature feeds) '''') \<le> 256) \<longrightarrow>
           event_schema ev))) \<and>
    (\<not> rp_enabled (dv_reporter dv) \<longrightarrow> rp_events (dv_reporter dv1) = rp_events (dv_reporter dv))"
proof -
  obtain feeds r dv2 where a: "attempt e c inputs (Some dv) = (feeds, r, Some dv2)" "dv_reporter dv2 = dv_reporter dv"
    using attempt_frame(1) by (cases "attempt e c inputs (Some dv)") blast
  note valid = run_events_valid [OF a(1)]
  define sent where "sent = (case r of Inl x \<Rightarrow> failure_event region feeds x | Inr _ \<Rightarrow> success_event c region feeds)"
  have dv': "dv' = Some (report_event c sent dv2)" and res: "ce_success sent \<longleftrightarrow> (\<exists>z. res = ok z)"
    using a assms(1) by (cases r; auto simp: run_def sent_def failure_event_def success_event_def)+
  have off: "rp_events (dv_reporter (report_event c sent dv2)) = rp_events (dv_reporter dv)" if "\<not> rp_enabled (dv_reporter dv)"
    using that a(2) by (simp add: report_event_def record_event_def Let_def)
  have on: "\<exists>ev'. rp_events (dv_reporter (report_event c sent dv2)) = drop k (rp_events (dv_reporter dv)) @ [ev'] \<and>
      rp_dropped (dv_reporter (report_event c sent dv2)) = rp_dropped (dv_reporter dv) + k \<and> ce_success ev' = ce_success sent \<and>
      (event_schema sent \<longrightarrow> event_schema ev') \<and> ce_batch_size ev' = ce_batch_size sent" if "rp_enabled (dv_reporter dv)"
    using report_event_queue [of dv2 k c sent] assms(2,3) that a(2) by simp
  have ok_event: "event_schema sent" if "\<forall>i. ca_tick c i \<le> ca_tick c (i + 1)" "length region \<le> 64"
    "\<forall>feeds. prepare e inputs = ok feeds \<longrightarrow> 0 < batch_of feeds \<and> length (or_empty (signature feeds) '''') \<le> 256"
    using valid [OF that] by (simp add: sent_def split: sum.split)
  show ?thesis
    by (rule exI [of _ "report_event c sent dv2"]) (use dv' res off on ok_event in blast)
qed

text \<open>An empty batch breaks that: it is served, and the event says zero rows, which the schema refuses.\<close>

theorem empty_batch_event_is_invalid:
  assumes "run e c inputs region (Some dv) = (ok z, Some dv1)" "prepare e inputs = ok feeds" "batch_of feeds = 0"
    and "rp_enabled (dv_reporter dv)" and "length (rp_events (dv_reporter dv)) < QUEUE_MAX"
  shows "\<exists>ev. rp_events (dv_reporter dv1) = rp_events (dv_reporter dv) @ [ev] \<and> \<not> event_schema ev"
proof -
  obtain feeds' r dv2 where a': "attempt e c inputs (Some dv) = (feeds', r, Some dv2)" "dv_reporter dv2 = dv_reporter dv"
    using attempt_frame(1) by (cases "attempt e c inputs (Some dv)") blast
  moreover have "feeds' = feeds" using a'(1) assms(2) by (auto simp: attempt_def split: sum.splits prod.splits)
  ultimately have a: "attempt e c inputs (Some dv) = (feeds, r, Some dv2)" "dv_reporter dv2 = dv_reporter dv" by simp_all
  then have "dv1 = report_event c (success_event c region feeds) dv2" using assms(1) by (cases r) (auto simp: run_def)
  moreover obtain ev where "rp_events (dv_reporter (report_event c (success_event c region feeds) dv2)) = rp_events (dv_reporter dv) @ [ev]"
    "ce_batch_size ev = 0"
    using report_event_queue [of dv2 0 c "success_event c region feeds"] assms(3-5) a(2) by (auto simp: success_event_def)
  ultimately show ?thesis by (auto simp: event_schema_def)
qed

section \<open>The cache\<close>

definition server_info :: "digest \<Rightarrow> (string \<Rightarrow> string) \<Rightarrow> string \<Rightarrow> string option \<Rightarrow> store \<times> db \<Rightarrow> pull_info result \<times> (store \<times> db)" where
  "server_info hash sha dep_id auth w =
     (case artifact_info hash sha dep_id auth (fst w) (snd w) of Inl e \<Rightarrow> (raise e, w) | Inr (d1, i) \<Rightarrow> (ok i, (fst w, d1)))"

definition server_get :: "digest \<Rightarrow> (string \<Rightarrow> string) \<Rightarrow> string \<Rightarrow> string option \<Rightarrow> store \<times> db \<Rightarrow> string result \<times> (store \<times> db)" where
  "server_get hash sha dep_id auth w =
     (case artifact_download hash sha dep_id auth None (fst w) (snd w) of
        Inl e \<Rightarrow> (raise e, w)
      | Inr (d1, Content c n etag) \<Rightarrow> (ok c, (fst w, d1))
      | Inr (d1, NotModified etag) \<Rightarrow> (ok '''', (fst w, d1)))"

text \<open>The row's record of the artifact is the artifact's, where it has one.\<close>

definition recorded :: "(string \<Rightarrow> string) \<Rightarrow> model_row \<Rightarrow> string \<Rightarrow> bool" where
  "recorded sha m c \<longleftrightarrow> (\<forall>h n. md_artifact_sha m = Some h \<and> h \<noteq> '''' \<and> md_artifact_size m = Some n \<longrightarrow> h = sha c \<and> n = length c)"

lemma artifact_meta_recorded:
  assumes "or_empty (md_artifact_key m) '''' = key" "key \<noteq> ''''" "store_get st key = Some c" "recorded sha m c" "sha c \<noteq> ''''"
  shows "\<exists>d1. artifact_meta sha m st d = ok (d1, sha c, length c, key) \<and>
    (d1 = d \<or> d1 = upd_model (md_id m) (\<lambda>m. m\<lparr>md_artifact_sha := Some (sha c), md_artifact_size := Some (length c)\<rparr>) d)"
proof -
  from assms(1,2) obtain k ks where key: "or_empty (md_artifact_key m) '''' = k # ks" "key = k # ks" by (cases key) auto
  show ?thesis
    using assms(3-5) unfolding artifact_meta_def key
    by (auto simp: recorded_def read_bytes_def key(2) or_empty_def split: list.split option.split)
qed

lemma resolve_upd_model:
  assumes "resolve hash dep_id auth d = ok (k, dep, m)" "\<And>m. md_id (f m) = md_id m" "\<And>m. md_artifact_key (f m) = md_artifact_key m"
  shows "resolve hash dep_id auth (upd_model (md_id m) f d) = ok (k, dep, f m)"
proof -
  have g: "get_deployment (upd_model (md_id m) f d) x = get_deployment d x" "resolve_key hash (upd_model (md_id m) f d) p = resolve_key hash d p" for x p
    by (simp add: get_deployment_def upd_model_def) (cases p; simp add: resolve_key_def upd_model_def)
  have "get_model_row (upd_model (md_id m) f d) i = map_option (\<lambda>x. if md_id x = md_id m then f x else x) (get_model_row d i)" for i
    by (simp add: get_model_row_upd assms(2))
  then show ?thesis using assms(1,3) g
    by (auto simp: resolve_def split: option.splits if_splits)
qed

lemma artifact_download_content:
  assumes "resolve hash dep_id auth d = ok (k, x, m)" "artifact_meta sha m st d = ok (d1, h, n, key)" "store_get st key = Some c"
  shows "\<exists>n etag. artifact_download hash sha dep_id auth None st d = ok (d1, Content c n etag)"
proof -
  have "str_strip (or_empty None '''') \<noteq> [CHR 0x22] @ h @ [CHR 0x22]" by (simp add: or_empty_def str_strip_def strip_while_def)
  then show ?thesis using assms by (auto simp: artifact_download_def open_stream_def read_bytes_def)
qed

text \<open>The key opens a deployment whose artifact, of content \<open>c\<close>, is in the store as the row has it.\<close>

definition serves :: "digest \<Rightarrow> (string \<Rightarrow> string) \<Rightarrow> string \<Rightarrow> string option \<Rightarrow> store \<Rightarrow> db \<Rightarrow> string \<Rightarrow> string \<Rightarrow> bool" where
  "serves hash sha dep_id auth st d key c \<longleftrightarrow> sha c \<noteq> '''' \<and> store_get st key = Some c \<and> key \<noteq> '''' \<and>
     (case resolve hash dep_id auth d of Inr (_, _, m) \<Rightarrow> or_empty (md_artifact_key m) '''' = key \<and> recorded sha m c | Inl _ \<Rightarrow> False)"

lemma serves_meta:
  assumes "serves hash sha dep_id auth st d key c"
  shows "\<exists>k x m d1. resolve hash dep_id auth d = ok (k, x, m) \<and> artifact_meta sha m st d = ok (d1, sha c, length c, key) \<and>
    serves hash sha dep_id auth st d1 key c"
proof -
  obtain k x m where r: "resolve hash dep_id auth d = ok (k, x, m)" "or_empty (md_artifact_key m) '''' = key" "recorded sha m c"
    "sha c \<noteq> ''''" "store_get st key = Some c" "key \<noteq> ''''"
    using assms by (auto simp: serves_def split: sum.splits)
  from artifact_meta_recorded [OF r(2) r(6) r(5) r(3) r(4), of d] obtain d1 where d1: "artifact_meta sha m st d = ok (d1, sha c, length c, key)"
    "d1 = d \<or> d1 = upd_model (md_id m) (\<lambda>m. m\<lparr>md_artifact_sha := Some (sha c), md_artifact_size := Some (length c)\<rparr>) d" by blast
  let ?f = "\<lambda>m. m\<lparr>md_artifact_sha := Some (sha c), md_artifact_size := Some (length c)\<rparr>"
  have "resolve hash dep_id auth (upd_model (md_id m) ?f d) = ok (k, x, ?f m)" by (rule resolve_upd_model [OF r(1)]) simp_all
  then have "serves hash sha dep_id auth st (upd_model (md_id m) ?f d) key c" using r by (simp add: serves_def recorded_def)
  with assms d1 have "serves hash sha dep_id auth st d1 key c" by auto
  with r(1) d1(1) show ?thesis by blast
qed

definition info_of :: "(string \<Rightarrow> string) \<Rightarrow> string \<Rightarrow> string \<Rightarrow> pull_info" where
  "info_of sha key c = \<lparr>pi_file = path_name key, pi_size = length c, pi_sha = sha c, pi_kind = (if suffix ''.onnx'' key then ''onnx'' else ''npz'')\<rparr>"

lemma server_calls:
  assumes "serves hash sha dep_id auth st d key c"
  shows "\<exists>d1. server_info hash sha dep_id auth (st, d) = (ok (info_of sha key c), (st, d1)) \<and> serves hash sha dep_id auth st d1 key c"
    and "\<exists>d1. server_get hash sha dep_id auth (st, d) = (ok c, (st, d1)) \<and> serves hash sha dep_id auth st d1 key c"
proof -
  obtain k x m d1 where r: "resolve hash dep_id auth d = ok (k, x, m)" "artifact_meta sha m st d = ok (d1, sha c, length c, key)"
    "serves hash sha dep_id auth st d1 key c"
    using serves_meta [OF assms] by blast
  then show "\<exists>d1. server_info hash sha dep_id auth (st, d) = (ok (info_of sha key c), (st, d1)) \<and> serves hash sha dep_id auth st d1 key c"
    by (simp add: server_info_def artifact_info_def info_of_def)
  have "store_get st key = Some c" using assms by (simp add: serves_def)
  from artifact_download_content [OF r(1,2) this] r(3)
  show "\<exists>d1. server_get hash sha dep_id auth (st, d) = (ok c, (st, d1)) \<and> serves hash sha dep_id auth st d1 key c"
    by (auto simp: server_get_def)
qed

lemma target_is_not_meta: "9 < length (pi_sha i) \<Longrightarrow> cache_target dep_id i \<noteq> dep_id @ ''/meta.json''"
proof
  assume l: "9 < length (pi_sha i)" and "cache_target dep_id i = dep_id @ ''/meta.json''"
  then have "length (cache_target dep_id i) = length (dep_id @ ''/meta.json'')" by simp
  with l show False by (simp add: cache_target_def Let_def)
qed

text \<open>Pulling against the server puts the deployed artifact's bytes into the cache under their hash, whatever the cache held, unless a file of
  that name and length with other bytes was there; and the next pull answers from the cache without a download.\<close>

theorem pull_caches_the_artifact:
  assumes "serves hash sha dep_id auth st d key c" and "length (sha c) = 64"
    and "\<And>x. store_get cache (cache_target dep_id (info_of sha key c)) = Some x \<Longrightarrow> length x = length c \<Longrightarrow> x = c"
  shows "\<exists>cache' w. pull_artifact (server_info hash sha dep_id auth) (server_get hash sha dep_id auth) dumps dep_id cache (st, d)
      = (ok (cache_target dep_id (info_of sha key c)), cache', w) \<and>
    store_get cache' (cache_target dep_id (info_of sha key c)) = Some c \<and>
    (\<forall>get. \<exists>w'. pull_artifact (server_info hash sha dep_id auth) get dumps dep_id cache' w
      = (ok (cache_target dep_id (info_of sha key c)), cache', w'))"
proof -
  let ?i = "info_of sha key c" and ?t = "cache_target dep_id (info_of sha key c)"
  have i: "pi_size ?i = length c" "?t \<noteq> dep_id @ ''/meta.json''" using assms(2) by (simp_all add: info_of_def target_is_not_meta)
  obtain d1 where d1: "server_info hash sha dep_id auth (st, d) = (ok ?i, (st, d1))" "serves hash sha dep_id auth st d1 key c"
    using server_calls(1) [OF assms(1)] by blast
  obtain d2 where d2: "server_get hash sha dep_id auth (st, d1) = (ok c, (st, d2))" "serves hash sha dep_id auth st d2 key c"
    using server_calls(2) [OF d1(2)] by blast
  have again: "\<exists>w'. pull_artifact (server_info hash sha dep_id auth) get dumps dep_id cache' (st, d') = (ok ?t, cache', w')"
    if "serves hash sha dep_id auth st d' key c" "store_get cache' ?t = Some c" for get cache' d'
    using server_calls(1) [OF that(1)] that(2) i(1) by (auto simp: pull_artifact_def Let_def)
  show ?thesis
  proof (cases "store_get cache ?t = Some c")
    case True
    then have "pull_artifact (server_info hash sha dep_id auth) (server_get hash sha dep_id auth) dumps dep_id cache (st, d) = (ok ?t, cache, (st, d1))"
      using d1(1) i(1) by (simp add: pull_artifact_def)
    then show ?thesis using True again [OF d1(2)] by blast
  next
    case False
    then have "\<not> (case store_get cache ?t of Some x \<Rightarrow> length x = pi_size ?i | None \<Rightarrow> False)"
      using assms(3) i(1) by (auto split: option.split)
    then have "pull_artifact (server_info hash sha dep_id auth) (server_get hash sha dep_id auth) dumps dep_id cache (st, d)
        = (ok ?t, store_put (dep_id @ ''/meta.json'') (dumps ?i) (store_put ?t c cache), (st, d2))"
      using d1(1) d2(1) by (simp add: pull_artifact_def Let_def)
    moreover have "store_get (store_put (dep_id @ ''/meta.json'') (dumps ?i) (store_put ?t c cache)) ?t = Some c"
      using i(2) by (simp add: store_get_put)
    ultimately show ?thesis using again [OF d2(2)] by blast
  qed
qed

text \<open>The hash names the file and is never compared with its bytes: what the second request brings, for instance after a new optimization
  of the model between the two, is kept under the hash the first one named, and answers every later pull when its length is right.\<close>

theorem pull_never_checks_the_hash:
  assumes "info w = (ok i, w1)" "store_get cache (cache_target dep_id i) = None" "get w1 = (ok bytes, w2)"
    and "length bytes = pi_size i" "9 < length (pi_sha i)" "info w2 = (ok i, w3)"
  shows "\<exists>cache'. pull_artifact info get dumps dep_id cache w = (ok (cache_target dep_id i), cache', w2) \<and>
    store_get cache' (cache_target dep_id i) = Some bytes \<and>
    pull_artifact info get' dumps dep_id cache' w2 = (ok (cache_target dep_id i), cache', w3)"
proof -
  let ?c = "store_put (dep_id @ ''/meta.json'') (dumps i) (store_put (cache_target dep_id i) bytes cache)"
  have "store_get ?c (cache_target dep_id i) = Some bytes" using target_is_not_meta [OF assms(5)] by (simp add: store_get_put)
  then show ?thesis using assms(1-4,6) by (auto simp: pull_artifact_def Let_def)
qed

section \<open>What one empty batch costs\<close>

text \<open>A segment with one event the schema refuses is answered 422, which the device takes for final: all events of the segment count as dropped
  and nothing of it is stored.\<close>

theorem empty_batch_loses_the_segment:
  assumes "ev \<in> set (tb_events b)" "\<not> event_schema ev" "wd_net w = Through now # net"
  shows "send_batch (post_batch hash bm dep_id auth) b w
    = ((True, length (tb_events b)), w\<lparr>wd_net := net, wd_log := wd_log w @ [(b, 422)]\<rparr>)"
proof -
  have "\<not> batch_schema b" using assms(1,2) by (auto simp: batch_schema_def list_all_iff)
  then have p: "post_batch hash bm dep_id auth b w = (Status 422, w\<lparr>wd_net := net, wd_log := wd_log w @ [(b, 422)]\<rparr>)"
    using assms(3) by (simp add: post_batch_def serve_def Let_def)
  have "http_request 2 (post_batch hash bm dep_id auth) b w = (Status 422, w\<lparr>wd_net := net, wd_log := wd_log w @ [(b, 422)]\<rparr>)"
    unfolding numeral_2_eq_2 by (simp add: p is_success_def RETRYABLE_STATUS_def)
  then show ?thesis by (simp add: send_batch_def is_success_def permanent_def RETRY_LATER_STATUS_def)
qed

section \<open>Witnesses\<close>

text \<open>A session of one input that returns what it is fed.\<close>

definition echo_env :: "(nat list, feed) runner_env" where
  "echo_env = \<lparr>re_inputs = [(''x'', [None])], re_outputs = [''y''],
     re_asarray = (\<lambda>s. ok \<lparr>nd_shape = s, nd_values = None, fd_kind = CHR ''f'', fd_dtype = ''float32''\<rparr>), re_float32 = id,
     re_normal = (\<lambda>s. \<lparr>nd_shape = s, nd_values = None, fd_kind = CHR ''f'', fd_dtype = ''float32''\<rparr>),
     re_session = (\<lambda>names feeds. ok (map snd feeds)), re_shape = (\<lambda>a. ok (nd_shape a)), re_array = ndarray.truncate\<rparr>"

definition demo_call :: call_env where
  "demo_call = \<lparr>ca_tick = (\<lambda>i. real i), ca_now = 0, ca_index = (\<lambda>n. 0), ca_histogram = (\<lambda>xs. [])\<rparr>"

definition idle_reporter :: reporter where
  "idle_reporter = \<lparr>rp_enabled = True, rp_client = ''sdk_1'', rp_events = [], rp_snapshots = [], rp_windows = [], rp_mem = [], rp_dropped = 0, rp_sent = 0,
     rp_window_requests = 0, rp_marker = (0, 0), rp_spool_on = False, rp_spool = [], rp_seq = 0, rp_closed = False\<rparr>"

definition idle_device :: device where
  "idle_device = \<lparr>dv_reporter = idle_reporter, dv_window = fresh_window 0\<rparr>"

lemma echo_prepare: "prepare echo_env (Some [(''x'', s)]) = ok [(''x'', \<lparr>nd_shape = s, nd_values = None, fd_kind = CHR ''f'', fd_dtype = ''float32''\<rparr>)]"
  by (simp add: prepare_def echo_env_def)

theorem every_run_is_reported_witness:
  "\<exists>res dv1 ev. run echo_env demo_call (Some [(''x'', [2])]) ''local'' (Some idle_device) = (res, Some dv1) \<and> rp_events (dv_reporter dv1) = [ev] \<and>
     (ce_success ev \<longleftrightarrow> (\<exists>z. res = ok z)) \<and> event_schema ev"
proof -
  obtain res dv' where r: "run echo_env demo_call (Some [(''x'', [2])]) ''local'' (Some idle_device) = (res, dv')" by force
  have s: "signature [(''x'', \<lparr>nd_shape = [2], nd_values = None, fd_kind = CHR ''f'', fd_dtype = ''float32''\<rparr>)] = Some ''x:2:float32''" by code_simp
  have "rp_enabled (dv_reporter idle_device)" "rp_events (dv_reporter idle_device) = []" "length (rp_events (dv_reporter idle_device)) < QUEUE_MAX"
    "\<And>i. ca_tick demo_call i \<le> ca_tick demo_call (i + 1)"
    by (simp_all add: idle_device_def idle_reporter_def QUEUE_MAX_def demo_call_def)
  with every_run_is_reported [OF r _ refl] obtain dv1 ev where "dv' = Some dv1" "rp_events (dv_reporter dv1) = [ev]"
    "ce_success ev \<longleftrightarrow> (\<exists>z. res = ok z)"
    "(\<forall>i. ca_tick demo_call i \<le> ca_tick demo_call (i + 1)) \<and> length ''local'' \<le> 64 \<and>
         (\<forall>feeds. prepare echo_env (Some [(''x'', [2])]) = ok feeds \<longrightarrow> 0 < batch_of feeds \<and> length (or_empty (signature feeds) '''') \<le> 256) \<longrightarrow>
           event_schema ev" by (force simp: QUEUE_MAX_def)
  moreover have "\<forall>feeds. prepare echo_env (Some [(''x'', [2])]) = ok feeds \<longrightarrow> 0 < batch_of feeds \<and> length (or_empty (signature feeds) '''') \<le> 256"
    by (auto simp: echo_prepare s or_empty_def)
  ultimately show ?thesis using r \<open>\<And>i. ca_tick demo_call i \<le> ca_tick demo_call (i + 1)\<close> by auto
qed

definition toy_sha :: "string \<Rightarrow> string" where "toy_sha c = replicate 64 (CHR ''0'')"

lemma demo_serves: "serves (\<lambda>s. s) toy_sha ''dep_1'' (Some ''Bearer astra_sk_live_a'') [(''a.onnx'', ''onnx'')] deployed_db ''a.onnx'' ''onnx''"
proof -
  have b: "bearer (Some ''Bearer astra_sk_live_a'') = Some ''astra_sk_live_a''" by code_simp
  show ?thesis
    by (simp add: serves_def toy_sha_def store_get_def resolve_def b resolve_key_def get_deployment_def get_model_row_def recorded_def
        deployed_db_def model_db_def demo_dep_def demo_key_def demo_model_def or_empty_def)
qed

theorem pull_caches_the_artifact_witness:
  "\<exists>cache w. pull_artifact (server_info (\<lambda>s. s) toy_sha ''dep_1'' (Some ''Bearer astra_sk_live_a''))
      (server_get (\<lambda>s. s) toy_sha ''dep_1'' (Some ''Bearer astra_sk_live_a'')) pi_kind ''dep_1'' [] ([(''a.onnx'', ''onnx'')], deployed_db)
      = (ok (cache_target ''dep_1'' (info_of toy_sha ''a.onnx'' ''onnx'')), cache, w) \<and>
    store_get cache (cache_target ''dep_1'' (info_of toy_sha ''a.onnx'' ''onnx'')) = Some ''onnx''"
proof -
  have "length (toy_sha ''onnx'') = 64" by (simp add: toy_sha_def)
  from pull_caches_the_artifact [OF demo_serves this, of "[]" pi_kind] show ?thesis by (auto simp: store_get_def)
qed

end
