(* ===== verification/Uploads.thy ===== *)
theory Uploads
  imports Registry
begin

text \<open>
  From the upload to the job queue: \<open>models_upload\<close>, \<open>models_import\<close> and \<open>_start_ingestion\<close> in \<open>app/routers/models.py\<close> with the staging of
  the bytes in a temporary file, and the dispatch of \<open>app/services/queue.py\<close>, to Redis or to a thread of the process.  The site holds the
  temporary files, the object storage, the tables, the queue of jobs and whether Redis is reachable.
\<close>

section \<open>The site\<close>

record site =
  si_tmp :: store
  si_store :: store
  si_db :: db
  si_queue :: "job list"
  si_inline :: "(job \<times> instant) list"       \<comment> \<open>threads waiting for a slot, with their deadlines\<close>
  si_broker :: bool
  si_cancel :: cancel_state

record limits =
  li_allowed :: "string list"
  li_max_mb :: nat
  li_inline :: bool
  li_settings :: settings

section \<open>Staging\<close>

text \<open>What the temporary file holds when the loop ends or raises.\<close>

fun stage_chunks :: "(nat \<Rightarrow> unit result) \<Rightarrow> string list \<Rightarrow> nat \<Rightarrow> string \<Rightarrow> string \<times> unit result" where
  "stage_chunks limit [] sofar written = (written, ok ())"
| "stage_chunks limit (piece # pieces) sofar written =
     (if piece = '''' then (written, ok ())
      else case limit (sofar + length piece) of
          Inl e \<Rightarrow> (written, raise e)
        | Inr _ \<Rightarrow> stage_chunks limit pieces (sofar + length piece) (written @ piece))"

definition stage_upload :: "(nat \<Rightarrow> unit result) \<Rightarrow> string list \<Rightarrow> string \<Rightarrow> string \<Rightarrow> store \<times> store \<Rightarrow> (store \<times> store) \<times> unit result" where
  "stage_upload limit pieces tmp_path key = (\<lambda>(tmp, st).
     (let (written, r) = stage_chunks limit pieces 0 '''';
          tmp1 = store_put tmp_path written tmp;
          st1 = (case r of Inl _ \<Rightarrow> st | Inr _ \<Rightarrow> (case store_get tmp1 tmp_path of Some c \<Rightarrow> store_put key c st | None \<Rightarrow> st))
      in ((store_delete tmp_path tmp1, st1), r)))"

section \<open>Dispatch\<close>

text \<open>In the process a thread is started, and its deadline runs from here; with Redis the job is pushed once per run.\<close>

definition run_inline :: "settings \<Rightarrow> instant \<Rightarrow> job \<Rightarrow> site \<Rightarrow> site" where
  "run_inline s now j w = w\<lparr>si_inline := si_inline w @ [(j, now + st_job_timeout s * SECOND)]\<rparr>"

definition enqueue_pipeline :: "limits \<Rightarrow> instant \<Rightarrow> job \<Rightarrow> site \<Rightarrow> site \<times> unit result" where
  "enqueue_pipeline li now j w =
     (if li_inline li then (run_inline (li_settings li) now j w, ok ())
      else if \<not> si_broker w then (w, raise (RuntimeError ''redis is not reachable''))
      else if jb_run j \<in> set (map jb_run (si_queue w)) then (w, ok ())
      else (w\<lparr>si_queue := si_queue w @ [j]\<rparr>, ok ()))"

text \<open>A worker takes a job, or a thread gets its slot: the pipeline sees the predicate that says whether to stop, and the flag is cleared.\<close>

definition run_pipeline_task :: "((instant \<Rightarrow> bool) \<Rightarrow> 'b pipeline) \<Rightarrow> settings \<Rightarrow> instant \<Rightarrow> instant \<Rightarrow> string \<Rightarrow> job \<Rightarrow> site \<Rightarrow> site" where
  "run_pipeline_task pl s deadline start now j w =
     (let stop = (\<lambda>t. should_cancel (Some deadline) (jb_run j) t (si_cancel w));
          (st, d) = execute_pipeline (pl stop) s now j (si_store w, si_db w)
      in w\<lparr>si_store := st, si_db := d, si_cancel := clear_cancel (jb_run j) (si_cancel w)\<rparr>)"

definition worker_step :: "((instant \<Rightarrow> bool) \<Rightarrow> 'b pipeline) \<Rightarrow> settings \<Rightarrow> instant \<Rightarrow> string \<Rightarrow> site \<Rightarrow> site" where
  "worker_step pl s start now w =
     (case si_queue w of
        [] \<Rightarrow> w
      | j # js \<Rightarrow> run_pipeline_task pl s (start + st_job_timeout s * SECOND) start now j (w\<lparr>si_queue := js\<rparr>))"

definition inline_step :: "((instant \<Rightarrow> bool) \<Rightarrow> 'b pipeline) \<Rightarrow> settings \<Rightarrow> instant \<Rightarrow> string \<Rightarrow> site \<Rightarrow> site" where
  "inline_step pl s start now w =
     (case si_inline w of
        [] \<Rightarrow> w
      | (j, deadline) # js \<Rightarrow> run_pipeline_task pl s deadline start now j (w\<lparr>si_inline := js\<rparr>))"

section \<open>The handlers\<close>

record import_response =
  im_run :: string
  im_model :: string
  im_file :: string

definition begin_ingestion ::
  "limits \<Rightarrow> instant \<Rightarrow> string \<Rightarrow> string \<Rightarrow> string \<Rightarrow> string option \<Rightarrow> site \<Rightarrow> site \<times> import_response result" where
  "begin_ingestion li now token user file_name src w =
     (let (d, j) = start_ingestion (li_settings li) (iso now) token user file_name src (si_db w)
      in case enqueue_pipeline li now j (w\<lparr>si_db := d\<rparr>) of
          (w1, Inl e) \<Rightarrow> (w1, raise e)
        | (w1, Inr _) \<Rightarrow> (w1, ok \<lparr>im_run = jb_run j, im_model = jb_model j, im_file = file_name\<rparr>))"

definition models_import :: "limits \<Rightarrow> instant \<Rightarrow> string \<Rightarrow> string \<Rightarrow> string option \<Rightarrow> site \<Rightarrow> site \<times> import_response result" where
  "models_import li now token user file_name w = begin_ingestion li now token user (or_empty file_name ''uploaded-model.onnx'') None w"

definition models_upload ::
  "limits \<Rightarrow> instant \<Rightarrow> string \<Rightarrow> string \<Rightarrow> string \<Rightarrow> string \<Rightarrow> string option \<Rightarrow> string list \<Rightarrow> site \<Rightarrow> site \<times> import_response result" where
  "models_upload li now tmp_path key_token token user filename pieces w =
     (case validate_upload (li_allowed li) filename of
        Inl e \<Rightarrow> (w, raise e)
      | Inr _ \<Rightarrow>
          (let file_name = or_empty filename ''uploaded-model.onnx''; key = source_key key_token file_name;
               ((tmp, st), r) = stage_upload (enforce_size (li_max_mb li)) pieces tmp_path key (si_tmp w, si_store w);
               w1 = w\<lparr>si_tmp := tmp, si_store := st\<rparr>
           in case r of
               Inl e \<Rightarrow> (w1, raise e)
             | Inr _ \<Rightarrow> begin_ingestion li now token user file_name (Some key) w1))"

section \<open>Staging keeps the bytes and cleans up\<close>

text \<open>The bytes a client sends: the pieces up to the first empty one.\<close>

definition sent :: "string list \<Rightarrow> string" where
  "sent pieces = concat (takeWhile (\<lambda>c. c \<noteq> '''') pieces)"

text \<open>Both size checks are a cap.\<close>

definition capped :: "nat \<Rightarrow> py_error \<Rightarrow> nat \<Rightarrow> unit result" where
  "capped m e n = (if n > m then raise e else ok ())"

lemma enforce_size_capped: "enforce_size mb = capped (mb * 1024 * 1024) (HTTPException 413 ''file_too_large'')"
  by (simp add: enforce_size_def capped_def fun_eq_iff)

lemma stage_chunks_ok:
  "stage_chunks (capped m e) pieces sofar written = (out, ok ()) \<Longrightarrow> sofar \<le> m \<Longrightarrow> out = written @ sent pieces \<and> sofar + length (sent pieces) \<le> m"
proof (induction pieces arbitrary: sofar written)
  case (Cons c cs)
  show ?case
  proof (cases "c = ''''")
    case False
    with Cons.prems have s: "capped m e (sofar + length c) = ok ()" "stage_chunks (capped m e) cs (sofar + length c) (written @ c) = (out, ok ())"
      by (cases "capped m e (sofar + length c)"; simp)+
    then have "\<not> sofar + length c > m" by (simp add: capped_def split: if_splits)
    with s Cons.IH [of "sofar + length c" "written @ c"] False show ?thesis by (simp add: sent_def)
  qed (use Cons.prems in \<open>simp add: sent_def\<close>)
qed (simp add: sent_def)

lemma stage_chunks_error: "stage_chunks (capped m e) pieces sofar written = (out, Inl e') \<Longrightarrow> e' = e"
  by (induction pieces arbitrary: sofar written) (auto simp: capped_def split: if_splits)

lemma temp_file_gone: "store_get tmp p = None \<Longrightarrow> store_delete p (store_put p c tmp) = tmp"
proof -
  assume "store_get tmp p = None"
  then have p: "p \<notin> fst ` set tmp" by (simp add: store_get_def map_of_eq_None_iff)
  then have "AList.update p c tmp = tmp @ [(p, c)]" by (induction tmp) auto
  with p show ?thesis by (auto simp: store_delete_def store_put_def image_iff intro!: filter_True)
qed

lemma stage_upload_cases:
  assumes "store_get tmp p = None"
  obtains (stored) "stage_upload (capped m e) pieces p key (tmp, st) = ((tmp, store_put key (sent pieces) st), ok ())" "length (sent pieces) \<le> m"
  | (refused) "stage_upload (capped m e) pieces p key (tmp, st) = ((tmp, st), raise e)"
proof -
  obtain out r where s: "stage_chunks (capped m e) pieces 0 '''' = (out, r)" by force
  show ?thesis
  proof (cases r)
    case (Inl e')
    with s stage_chunks_error have "e' = e" by blast
    with s Inl show ?thesis using temp_file_gone [OF assms] by (intro refused) (simp add: stage_upload_def)
  next
    case (Inr u)
    with s have "out = sent pieces" "length (sent pieces) \<le> m" using stage_chunks_ok [of m e pieces 0 "''''" out] by auto
    with s Inr show ?thesis using temp_file_gone [OF assms] by (intro stored) (simp_all add: stage_upload_def store_get_put)
  qed
qed

section \<open>What a key keeps of the file name\<close>

lemma after_last_notin: "c \<notin> set (after_last c s)"
  by (auto simp: after_last_def dest: set_takeWhileD)

lemma path_name_no_slash: "CHR ''/'' \<notin> set (path_name s)"
  by (simp add: path_name_def after_last_notin)

lemma after_last_append: "c \<in> set s \<Longrightarrow> after_last c (r @ s) = after_last c s"
  by (auto simp: after_last_def intro!: takeWhile_append1 [of c])

lemma before_last_append: "c \<in> set s \<Longrightarrow> before_last c (r @ s) = r @ before_last c s"
proof -
  assume c: "c \<in> set s"
  then obtain y ys where D: "dropWhile (\<lambda>x. x \<noteq> c) (rev s) = y # ys" by (cases "dropWhile (\<lambda>x. x \<noteq> c) (rev s)") (auto simp: dropWhile_eq_Nil_conv)
  moreover have "dropWhile (\<lambda>x. x \<noteq> c) (rev s @ rev r) = dropWhile (\<lambda>x. x \<noteq> c) (rev s) @ rev r"
    by (rule dropWhile_append1 [of c]) (use c in auto)
  ultimately show ?thesis by (simp add: before_last_def)
qed

lemma after_last_slash: "CHR ''/'' \<notin> set n \<Longrightarrow> after_last (CHR ''/'') (r @ ''/'' @ n) = n"
proof -
  assume n: "CHR ''/'' \<notin> set n"
  have "takeWhile (\<lambda>x. x \<noteq> CHR ''/'') (rev n @ CHR ''/'' # rev r) = rev n" by (subst takeWhile_append2) (use n in auto)
  then show ?thesis by (simp add: after_last_def)
qed

lemma path_name_below: "CHR ''/'' \<notin> set n \<Longrightarrow> n \<noteq> '''' \<Longrightarrow> path_name (r @ ''/'' @ n) = n"
proof -
  assume n: "CHR ''/'' \<notin> set n" "n \<noteq> ''''"
  then have "dropWhile (\<lambda>c. c = CHR ''/'') (rev (r @ ''/'' @ n)) = rev (r @ ''/'' @ n)"
    by (cases n rule: rev_cases) auto
  then show ?thesis using after_last_slash [OF n(1), of r] by (simp add: path_name_def)
qed

lemma path_name_idem: "path_name (path_name s) = path_name s"
proof -
  have "dropWhile (\<lambda>c. c = CHR ''/'') (rev (path_name s)) = rev (path_name s)"
    using path_name_no_slash [of s] by (cases "path_name s" rule: rev_cases) auto
  moreover have "after_last (CHR ''/'') (path_name s) = path_name s"
  proof -
    have "takeWhile (\<lambda>x. x \<noteq> CHR ''/'') (rev (path_name s)) = rev (path_name s)"
      using path_name_no_slash [of s] unfolding takeWhile_eq_all_conv by auto
    then show ?thesis by (simp only: after_last_def rev_rev_ident)
  qed
  ultimately show ?thesis by (simp add: path_name_def [of "path_name s"])
qed

lemma path_suffix_name: "path_suffix (path_name s) = path_suffix s"
  by (simp add: path_suffix_def path_name_idem)

text \<open>The key of an upload ends in the name of the file behind a token, so it has the file's extension, where it has one.\<close>

lemma source_key_name:
  assumes "CHR ''/'' \<notin> set tok"
  shows "path_name (source_key tok f) = tok @ ''_'' @ path_name f"
proof -
  have "path_name (''uploads'' @ ''/'' @ (tok @ ''_'' @ path_name f)) = tok @ ''_'' @ path_name f"
    by (rule path_name_below) (use assms path_name_no_slash [of f] in auto)
  then show ?thesis by (simp add: source_key_def)
qed

lemma path_suffix_longer:
  assumes "path_suffix n \<noteq> ''''" "path_name n = n" "path_name (r @ n) = r @ n"
  shows "path_suffix (r @ n) = path_suffix n"
proof -
  from assms(1,2) have n: "CHR ''.'' \<in> set n" "before_last (CHR ''.'') n \<noteq> ''''" "after_last (CHR ''.'') n \<noteq> ''''"
    by (auto simp: path_suffix_def Let_def split: if_splits)
  then show ?thesis using assms(2,3) by (simp add: path_suffix_def Let_def after_last_append before_last_append)
qed

lemma source_key_suffix:
  assumes "CHR ''/'' \<notin> set tok" "path_suffix f \<noteq> ''''"
  shows "path_suffix (path_name (source_key tok f)) = path_suffix f"
proof -
  have "path_name (tok @ ''_'' @ path_name f) = tok @ ''_'' @ path_name f"
    using path_name_idem [of "source_key tok f"] by (simp add: source_key_name [OF assms(1)])
  then have "path_suffix ((tok @ ''_'') @ path_name f) = path_suffix (path_name f)"
    using assms(2) by (intro path_suffix_longer) (simp_all add: path_suffix_name path_name_idem)
  then show ?thesis by (simp add: source_key_name [OF assms(1)] path_suffix_name)
qed

section \<open>From the upload to the worker\<close>

lemma start_ingestion_job:
  "start_ingestion s now token user f src d = (d', j) \<Longrightarrow>
    jb_run j = ''ing_'' @ token \<and> jb_model j = ''m_uploaded_'' @ token \<and> jb_file j = f \<and> jb_source j = src \<and> jb_user j = user"
  by (auto simp: start_ingestion_def Let_def split: prod.splits)

lemma begin_ingestion_ok:
  assumes "begin_ingestion li now token user f src w = (w', ok resp)" "\<not> li_inline li" "''ing_'' @ token \<notin> set (map jb_run (si_queue w))"
  obtains d j where "start_ingestion (li_settings li) (iso now) token user f src (si_db w) = (d, j)"
    "w' = w\<lparr>si_db := d, si_queue := si_queue w @ [j]\<rparr>" "si_broker w" "im_run resp = jb_run j" "im_model resp = jb_model j"
proof -
  obtain d j where s: "start_ingestion (li_settings li) (iso now) token user f src (si_db w) = (d, j)" by force
  then have "jb_run j \<notin> set (map jb_run (si_queue w))" using start_ingestion_job [OF s] assms(3) by simp
  with assms(1,2) s show thesis
    by (intro that [of d j]) (auto simp: begin_ingestion_def enqueue_pipeline_def split: if_splits)
qed

lemma begin_ingestion_no_error: "si_broker w \<or> li_inline li \<Longrightarrow> begin_ingestion li now token user f src w \<noteq> (w', Inl e)"
  by (auto simp: begin_ingestion_def enqueue_pipeline_def run_inline_def split: prod.splits)

lemma models_upload_ok:
  assumes "models_upload li now tmp_path ktok token user (Some f) pieces w = (w', ok resp)" "f \<noteq> ''''" "store_get (si_tmp w) tmp_path = None"
  shows "str_lower (path_suffix f) \<in> set (li_allowed li) \<and> length (sent pieces) \<le> li_max_mb li * 1024 * 1024 \<and>
    begin_ingestion li now token user f (Some (source_key ktok f)) (w\<lparr>si_store := store_put (source_key ktok f) (sent pieces) (si_store w)\<rparr>)
      = (w', ok resp)"
  using assms(3)
proof (cases rule: stage_upload_cases [where m = "li_max_mb li * 1024 * 1024" and e = "HTTPException 413 ''file_too_large''" and pieces = pieces and key = "source_key ktok f" and st = "si_store w"])
  case stored
  then show ?thesis using assms(1,2)
    by (auto simp: models_upload_def enforce_size_capped validate_upload_def or_empty_def Let_def split: if_splits)
next
  case refused
  then show ?thesis using assms(1,2)
    by (auto simp: models_upload_def enforce_size_capped validate_upload_def or_empty_def Let_def split: if_splits)
qed

text \<open>C13: An accepted upload reaches the worker whole: the object stored under its key is exactly the bytes sent, within the limit, the job queued last
  names that key, the worker that takes it reads those bytes from it, and the format dispatch sees the extension of the uploaded file;
  no temporary file stays behind.\<close>

theorem upload_reaches_the_worker:
  assumes "models_upload li now tmp_path ktok token user (Some f) pieces w = (w', ok resp)"
    and "f \<noteq> ''''" "store_get (si_tmp w) tmp_path = None" "CHR ''/'' \<notin> set ktok" "'''' \<notin> set (li_allowed li)"
    and "\<not> li_inline li" "''ing_'' @ token \<notin> set (map jb_run (si_queue w))"
  shows "\<exists>j. si_queue w' = si_queue w @ [j] \<and> im_run resp = jb_run j \<and> si_tmp w' = si_tmp w \<and>
    (\<exists>key. jb_source j = Some key \<and> read_bytes (si_store w') key = ok (sent pieces) \<and> locate_source pl j (si_store w') = ([], ok (path_name key)) \<and>
      route_of (path_name key) = route_of f) \<and>
    length (sent pieces) \<le> li_max_mb li * 1024 * 1024"
proof -
  let ?key = "source_key ktok f"
  note u = models_upload_ok [OF assms(1,2,3)]
  then have suffix: "path_suffix f \<noteq> ''''" using assms(5) by (auto simp: str_lower_def)
  obtain d j where j: "start_ingestion (li_settings li) (iso now) token user f (Some ?key) (si_db w) = (d, j)"
    "w' = (w\<lparr>si_store := store_put ?key (sent pieces) (si_store w)\<rparr>)\<lparr>si_db := d, si_queue := si_queue w @ [j]\<rparr>" "im_run resp = jb_run j"
    using u assms(6,7) by (elim conjE begin_ingestion_ok) auto
  have src: "jb_source j = Some ?key" using start_ingestion_job [OF j(1)] by simp
  have read: "read_bytes (si_store w') ?key = ok (sent pieces)" using j(2) by (simp add: read_bytes_def store_get_put)
  moreover have "locate_source pl j (si_store w') = ([], ok (path_name ?key))" using src read by (simp add: locate_source_def)
  moreover have "route_of (path_name ?key) = route_of f"
    using source_key_suffix [OF assms(4) suffix] by (simp add: route_of_def)
  ultimately show ?thesis using j src u by auto
qed

text \<open>A refused upload leaves nothing behind: a wrong extension or a file over the limit is answered 400 or 413 and the whole site, temporary
  files, objects, rows and queue, is as it was.\<close>

theorem refused_upload_changes_nothing:
  assumes "models_upload li now tmp_path ktok token user filename pieces w = (w', Inl e)"
    and "store_get (si_tmp w) tmp_path = None" and "si_broker w \<or> li_inline li"
  shows "w' = w \<and> e \<in> {HTTPException 400 ''unsupported_format'', HTTPException 413 ''file_too_large''}"
  using assms(2)
proof (cases rule: stage_upload_cases [where m = "li_max_mb li * 1024 * 1024" and e = "HTTPException 413 ''file_too_large''" and pieces = pieces and st = "si_store w"
    and key = "source_key ktok (or_empty filename ''uploaded-model.onnx'')"])
  case stored
  have "begin_ingestion li now token user (or_empty filename ''uploaded-model.onnx'')
      (Some (source_key ktok (or_empty filename ''uploaded-model.onnx'')))
      (w\<lparr>si_store := store_put (source_key ktok (or_empty filename ''uploaded-model.onnx'')) (sent pieces) (si_store w)\<rparr>) = (w', Inl e)"
    if "validate_upload (li_allowed li) filename = ok ()"
    using that stored(1) assms(1) by (simp add: models_upload_def enforce_size_capped Let_def)
  moreover have "begin_ingestion li now token user (or_empty filename ''uploaded-model.onnx'')
      (Some (source_key ktok (or_empty filename ''uploaded-model.onnx'')))
      (w\<lparr>si_store := store_put (source_key ktok (or_empty filename ''uploaded-model.onnx'')) (sent pieces) (si_store w)\<rparr>) \<noteq> (w', Inl e)"
    by (rule begin_ingestion_no_error) (use assms(3) in simp)
  ultimately have "validate_upload (li_allowed li) filename \<noteq> ok ()" by blast
  then show ?thesis using assms(1) by (auto simp: models_upload_def validate_upload_def split: if_splits)
next
  case refused
  then show ?thesis using assms(1) by (auto simp: models_upload_def enforce_size_capped validate_upload_def Let_def split: if_splits)
qed

section \<open>Outcomes\<close>

lemma finish_model_id [simp]: "md_id (finish_model sha now a w m) = md_id m"
  by (auto simp: finish_model_def Let_def split: option.split)

lemma execute_pipeline_models:
  "map md_id (t_models (snd (execute_pipeline pl s now j (st, d)))) = map md_id (t_models d) \<and>
   (\<forall>m \<in> set (t_models (snd (execute_pipeline pl s now j (st, d)))). md_id m = jb_model j \<longrightarrow> md_status m \<notin> {''analyzing'', ''optimizing''})"
proof (cases rule: execute_pipeline_ends [of pl s now j st d])
  case (success a w d1)
  have st: "md_status (finish_model sha now a w m) = (if md_status m \<in> {''analyzing'', ''optimizing''} then ''draft'' else md_status m)"
    for sha m by (auto simp: finish_model_def Let_def split: option.split)
  show ?thesis unfolding success(1) on_success_tables success(2) upd_where_ball by (simp add: map_upd_where st)
next
  case (failure err d1)
  show ?thesis unfolding failure(1) on_failure_tables failure(2) upd_where_ball by (auto simp: map_upd_where)
qed

lemma execute_pipeline_runs:
  "\<forall>r \<in> set (t_ingestions (snd (execute_pipeline pl s now j (st, d)))). ir_id r = jb_run j \<longrightarrow> ir_status r \<in> {''completed'', ''failed''}"
proof (cases rule: execute_pipeline_ends [of pl s now j st d])
  case (success a w d1)
  show ?thesis unfolding success(1) on_success_tables upd_where_ball by simp
next
  case (failure err d1)
  show ?thesis unfolding failure(1) on_failure_tables upd_where_ball by auto
qed

text \<open>The sites a worker leaves behind it that never comes back from the job it took, because its process is killed, hangs in the engine or
  raises before the \<open>try\<close>: one per commit of its body.  The cancel flag stays as it was; only where the body raises is it cleared all the same.\<close>

definition worker_deaths :: "((instant \<Rightarrow> bool) \<Rightarrow> 'b pipeline) \<Rightarrow> settings \<Rightarrow> instant \<Rightarrow> string \<Rightarrow> site \<Rightarrow> site list" where
  "worker_deaths pl s start now w =
     (case si_queue w of
        [] \<Rightarrow> []
      | j # js \<Rightarrow>
          (let stop = (\<lambda>t. should_cancel (Some (start + st_job_timeout s * SECOND)) (jb_run j) t (si_cancel w))
           in map (\<lambda>(st, d). w\<lparr>si_queue := js, si_store := st, si_db := d\<rparr>)
                (pipeline_commits (pl stop) s now j (si_store w, si_db w))))"

lemma reap_model_ids: "map md_id (t_models (fold (reap_run now) rs d)) = map md_id (t_models d)"
proof (induction rs arbitrary: d)
  case (Cons r rs)
  have "map md_id (t_models (reap_run now r d)) = map md_id (t_models d)"
    by (simp add: reap_run_def upd_model_def upd_ingestion_def upd_where_def release_model_def comp_def if_distrib)
  with Cons show ?case by simp
qed simp

lemma commit_model_ids:
  assumes "(st', d') \<in> set (pipeline_commits pl s now j (st, d))"
  shows "map md_id (t_models d') = map md_id (t_models d)"
  using assms
proof (cases rule: commit_cases)
  case last
  with execute_pipeline_models [of pl s now j st d] show ?thesis by (metis snd_conv)
qed simp

text \<open>What an accepted upload leaves for the worker, when its token is fresh: one job in an empty queue, one streaming run with the server's
  stamp, and one model that waits for it.\<close>

lemma uploaded_job:
  assumes "models_upload li now tmp_path ktok token user (Some f) pieces w = (w', ok resp)"
    and "f \<noteq> ''''" "store_get (si_tmp w) tmp_path = None" "\<not> li_inline li" "si_queue w = []"
    and "''ing_'' @ token \<notin> ir_id ` set (t_ingestions (si_db w))" "''m_uploaded_'' @ token \<notin> md_id ` set (t_models (si_db w))"
  obtains j where "si_queue w' = [j]" "im_run resp = jb_run j" "im_model resp = jb_model j"
    "jb_model j \<in> md_id ` set (t_models (si_db w'))" "\<exists>r \<in> set (t_ingestions (si_db w')). ir_id r = jb_run j"
    "\<forall>r \<in> set (t_ingestions (si_db w')). ir_id r = jb_run j \<longrightarrow> ir_status r = ''streaming'' \<and> ir_model r = jb_model j \<and> ir_started r = iso now"
    "\<forall>m \<in> set (t_models (si_db w')). md_id m = jb_model j \<longrightarrow> md_run m = Some (jb_run j)"
proof -
  note u = models_upload_ok [OF assms(1,2,3)]
  obtain d j where j: "start_ingestion (li_settings li) (iso now) token user f (Some (source_key ktok f)) (si_db w) = (d, j)"
    "w' = (w\<lparr>si_store := store_put (source_key ktok f) (sent pieces) (si_store w)\<rparr>)\<lparr>si_db := d, si_queue := [j]\<rparr>"
    "im_run resp = jb_run j" "im_model resp = jb_model j"
    using u assms(4,5) by (elim conjE begin_ingestion_ok) auto
  have new: "ir_id r \<noteq> ''ing_'' @ token" if "r \<in> set (t_ingestions (si_db w))" for r using assms(6) that by (metis image_eqI)
  have new': "md_id m \<noteq> ''m_uploaded_'' @ token" if "m \<in> set (t_models (si_db w))" for m using assms(7) that by (metis image_eqI)
  show thesis
    by (rule that [of j])
      (use j in \<open>auto simp: start_ingestion_def Let_def add_activity_def dest: new [simplified] new' [simplified] split: prod.splits\<close>)
qed


text \<open>A thread's deadline is set when the job is handed over, before it waits for a slot: a job that waits longer than the timeout is told to
  stop from its first check on, while a worker starts the clock when it takes the job.\<close>

theorem queued_inline_job_starts_expired:
  assumes "si_inline w = []" "handed + st_job_timeout s * SECOND < start"
  shows "\<exists>stop. inline_step pl s start now (run_inline s handed j w)
      = (let (st, d) = execute_pipeline (pl stop) s now j (si_store w, si_db w)
         in w\<lparr>si_store := st, si_db := d, si_cancel := clear_cancel (jb_run j) (si_cancel w)\<rparr>) \<and> (\<forall>t \<ge> start. stop t)"
    and "si_queue v = [j] \<Longrightarrow> \<exists>stop. worker_step pl s start now v
      = (let (st, d) = execute_pipeline (pl stop) s now j (si_store v, si_db v)
         in v\<lparr>si_queue := [], si_store := st, si_db := d, si_cancel := clear_cancel (jb_run j) (si_cancel v)\<rparr>) \<and>
        (\<forall>t \<le> start + st_job_timeout s * SECOND. stop t = is_cancelled (jb_run j) (si_cancel v))"
proof -
  show "\<exists>stop. inline_step pl s start now (run_inline s handed j w)
      = (let (st, d) = execute_pipeline (pl stop) s now j (si_store w, si_db w)
         in w\<lparr>si_store := st, si_db := d, si_cancel := clear_cancel (jb_run j) (si_cancel w)\<rparr>) \<and> (\<forall>t \<ge> start. stop t)"
    using assms by (intro exI [of _ "\<lambda>t. should_cancel (Some (handed + st_job_timeout s * SECOND)) (jb_run j) t (si_cancel w)"])
      (auto simp: inline_step_def run_inline_def run_pipeline_task_def should_cancel_def Let_def split: prod.split)
  show "\<exists>stop. worker_step pl s start now v
      = (let (st, d) = execute_pipeline (pl stop) s now j (si_store v, si_db v)
         in v\<lparr>si_queue := [], si_store := st, si_db := d, si_cancel := clear_cancel (jb_run j) (si_cancel v)\<rparr>) \<and>
        (\<forall>t \<le> start + st_job_timeout s * SECOND. stop t = is_cancelled (jb_run j) (si_cancel v))" if "si_queue v = [j]"
    using that by (intro exI [of _ "\<lambda>t. should_cancel (Some (start + st_job_timeout s * SECOND)) (jb_run j) t (si_cancel v)"])
      (auto simp: worker_step_def run_pipeline_task_def should_cancel_def Let_def split: prod.split)
qed

text \<open>The rows are committed before the job is queued: when Redis is unreachable at that moment the request fails and the model stays
  analyzing, with a streaming run and no job that would ever end it.\<close>

theorem lost_enqueue_strands_the_model:
  assumes "models_import li now token user f w = (w', r)" "\<not> li_inline li" "\<not> si_broker w"
  shows "r = raise (RuntimeError ''redis is not reachable'') \<and> si_queue w' = si_queue w \<and> si_inline w' = si_inline w \<and>
    (\<exists>m \<in> set (t_models (si_db w')). md_id m = ''m_uploaded_'' @ token \<and> md_status m = ''analyzing'' \<and> md_run m = Some (''ing_'' @ token)) \<and>
    (\<exists>r \<in> set (t_ingestions (si_db w')). ir_id r = ''ing_'' @ token \<and> ir_status r = ''streaming'')"
proof -
  obtain d j where s: "start_ingestion (li_settings li) (iso now) token user (or_empty f ''uploaded-model.onnx'') None (si_db w) = (d, j)" by force
  then have "w' = w\<lparr>si_db := d\<rparr>" "r = raise (RuntimeError ''redis is not reachable'')"
    using assms by (auto simp: models_import_def begin_ingestion_def enqueue_pipeline_def)
  moreover have "(\<exists>m \<in> set (t_models d). md_id m = ''m_uploaded_'' @ token \<and> md_status m = ''analyzing'' \<and> md_run m = Some (''ing_'' @ token)) \<and>
    (\<exists>r \<in> set (t_ingestions d). ir_id r = ''ing_'' @ token \<and> ir_status r = ''streaming'')"
    using s by (auto simp: start_ingestion_def Let_def add_activity_def split: prod.splits)
  ultimately show ?thesis by simp
qed

section \<open>Witnesses\<close>

definition demo_limits :: limits where
  "demo_limits = \<lparr>li_allowed = [''.onnx''], li_max_mb = 1, li_inline = False, li_settings = \<lparr>st_fast = True, st_pareto_trials = 4, st_job_timeout = 900\<rparr>\<rparr>"

definition empty_site :: site where
  "empty_site = \<lparr>si_tmp = [], si_store = [], si_db = empty_db, si_queue = [], si_inline = [], si_broker = True,
     si_cancel = \<lparr>ca_local = [''ing_1''], ca_redis = None\<rparr>\<rparr>"

lemma demo_upload:
  "\<exists>w' resp. models_upload demo_limits 0 ''tmp'' ''k'' ''1'' ''u'' (Some ''net.onnx'') [''ab'', ''c''] empty_site = (w', ok resp)"
proof -
  have "str_lower (path_suffix ''net.onnx'') = ''.onnx''" by code_simp
  then have v: "validate_upload (li_allowed demo_limits) (Some ''net.onnx'') = ok ()" by (simp add: validate_upload_def demo_limits_def)
  have s: "stage_upload (enforce_size (li_max_mb demo_limits)) [''ab'', ''c''] ''tmp'' (source_key ''k'' ''net.onnx'') (si_tmp empty_site, si_store empty_site)
      = (([], [(source_key ''k'' ''net.onnx'', ''abc'')]), ok ())"
    by (simp add: stage_upload_def enforce_size_def demo_limits_def empty_site_def store_put_def store_get_def store_delete_def)
  have "models_upload demo_limits 0 ''tmp'' ''k'' ''1'' ''u'' (Some ''net.onnx'') [''ab'', ''c''] empty_site =
      begin_ingestion demo_limits 0 ''1'' ''u'' ''net.onnx'' (Some (source_key ''k'' ''net.onnx''))
        (empty_site\<lparr>si_tmp := [], si_store := [(source_key ''k'' ''net.onnx'', ''abc'')]\<rparr>)"
    by (simp add: models_upload_def v s or_empty_def Let_def)
  then show ?thesis by (simp add: begin_ingestion_def enqueue_pipeline_def empty_site_def demo_limits_def split: prod.split)
qed

theorem upload_reaches_the_worker_witness:
  "\<exists>w' resp j key. models_upload demo_limits 0 ''tmp'' ''k'' ''1'' ''u'' (Some ''net.onnx'') [''ab'', ''c''] empty_site = (w', ok resp) \<and>
     si_queue w' = [j] \<and> jb_source j = Some key \<and> read_bytes (si_store w') key = ok ''abc''"
proof -
  obtain w' resp where u: "models_upload demo_limits 0 ''tmp'' ''k'' ''1'' ''u'' (Some ''net.onnx'') [''ab'', ''c''] empty_site = (w', ok resp)"
    using demo_upload by blast
  have "\<exists>j. si_queue w' = si_queue empty_site @ [j] \<and> (\<exists>key. jb_source j = Some key \<and> read_bytes (si_store w') key = ok (sent [''ab'', ''c'']))"
    using upload_reaches_the_worker [OF u] by (fastforce simp: empty_site_def demo_limits_def store_get_def)
  with u show ?thesis by (simp add: sent_def empty_site_def)
qed


theorem refused_upload_changes_nothing_witness:
  "models_upload demo_limits 0 ''tmp'' ''k'' ''1'' ''u'' (Some ''net.exe'') [''ab''] empty_site
     = (empty_site, raise (HTTPException 400 ''unsupported_format''))"
proof -
  obtain w' r where u: "models_upload demo_limits 0 ''tmp'' ''k'' ''1'' ''u'' (Some ''net.exe'') [''ab''] empty_site = (w', r)" by force
  have "str_lower (path_suffix ''net.exe'') = ''.exe''" by code_simp
  then have v: "validate_upload (li_allowed demo_limits) (Some ''net.exe'') = raise (HTTPException 400 ''unsupported_format'')"
    by (simp add: validate_upload_def demo_limits_def)
  then have "r = raise (HTTPException 400 ''unsupported_format'')" using u by (simp add: models_upload_def)
  with u refused_upload_changes_nothing [of demo_limits 0 "''tmp''" "''k''" "''1''" "''u''" "Some ''net.exe''" "[''ab'']" empty_site w']
  show ?thesis by (simp add: empty_site_def store_get_def)
qed

end
