(* ===== verification/Feedback.thy ===== *)
theory Feedback
  imports Uploads Accounts
begin

text \<open>
  Feedback, \<open>app/routers/feedback.py\<close> and \<open>app/services/github_feedback.py\<close>: a submission with its optional screenshot, the screenshot served back
  to its owner, and the background task that opens an issue.  GitHub's answers are parameters.
\<close>

section \<open>Rows and site\<close>

record feedback_row =
  fb_id :: string
  fb_user :: string
  fb_email :: string
  fb_name :: string
  fb_kind :: string
  fb_title :: "string option"
  fb_message :: string
  fb_page :: "string option"
  fb_locale :: "string option"
  fb_status :: string
  fb_number :: "int option"
  fb_url :: "string option"
  fb_created :: string
  fb_key :: "string option"
  fb_attachment :: "string option"

record feedback_site =
  fs_tmp :: store
  fs_store :: store
  fs_rows :: "feedback_row list"
  fs_tasks :: "(string \<times> string) list"        \<comment> \<open>feedback id and base URL of the issues to open\<close>

definition MAX_MESSAGE :: nat where "MAX_MESSAGE = 4000"
definition MAX_TITLE :: nat where "MAX_TITLE = 200"
definition MAX_PAGE :: nat where "MAX_PAGE = 300"
definition MAX_LOCALE :: nat where "MAX_LOCALE = 16"

definition IMAGE_MEDIA :: "(string \<times> string) list" where
  "IMAGE_MEDIA = [(''.png'', ''image/png''), (''.jpg'', ''image/jpeg''), (''.jpeg'', ''image/jpeg''), (''.gif'', ''image/gif''),
     (''.webp'', ''image/webp'')]"

section \<open>Submission\<close>

text \<open>\<open>x.strip()[:n] if x else None\<close>.\<close>

definition clipped :: "nat \<Rightarrow> string option \<Rightarrow> string option" where
  "clipped n x = (case x of None \<Rightarrow> None | Some s \<Rightarrow> if s = '''' then None else Some (take n (str_strip s)))"

record form =
  fm_kind :: string
  fm_title :: "string option"
  fm_message :: string
  fm_page :: "string option"
  fm_locale :: "string option"
  fm_image :: "(string option \<times> string list) option"

definition submit_feedback ::
  "string list \<Rightarrow> nat \<Rightarrow> instant \<Rightarrow> string \<Rightarrow> string \<Rightarrow> string option \<Rightarrow> string \<Rightarrow> user_row \<Rightarrow> form \<Rightarrow> feedback_site
     \<Rightarrow> feedback_site \<times> feedback_row result" where
  "submit_feedback allowed max_mb now token tmp_path public_origin request_base user f w =
     (let clean = take MAX_MESSAGE (str_strip (fm_message f)); feedback_id = ''fb_'' @ token;
          save = (\<lambda>key name w1.
            let row = \<lparr>fb_id = feedback_id, fb_user = us_id user, fb_email = us_email user, fb_name = us_name user, fb_kind = fm_kind f,
                  fb_title = (case clipped MAX_TITLE (fm_title f) of Some t \<Rightarrow> if t = '''' then None else Some t | None \<Rightarrow> None),
                  fb_message = clean, fb_page = clipped MAX_PAGE (fm_page f), fb_locale = clipped MAX_LOCALE (fm_locale f), fb_status = ''open'',
                  fb_number = None, fb_url = None, fb_created = iso now, fb_key = key, fb_attachment = name\<rparr>;
                base_url = strip_slash (or_empty public_origin request_base)
            in (w1\<lparr>fs_rows := fs_rows w1 @ [row], fs_tasks := fs_tasks w1 @ [(feedback_id, base_url)]\<rparr>, ok row))
      in if clean = '''' then (w, raise (HTTPException 422 ''empty_message''))
         else case fm_image f of
             None \<Rightarrow> save None None w
           | Some (filename, pieces) \<Rightarrow>
               if or_empty filename '''' = '''' then save None None w
               else case validate_feedback_image allowed filename of
                   Inl e \<Rightarrow> (w, raise e)
                 | Inr _ \<Rightarrow>
                     (let name = or_empty filename ''''; key = feedback_attachment_key feedback_id name;
                          ((tmp, st), r) = stage_upload (enforce_image_size max_mb) pieces tmp_path key (fs_tmp w, fs_store w);
                          w1 = w\<lparr>fs_tmp := tmp, fs_store := st\<rparr>
                      in case r of Inl e \<Rightarrow> (w1, raise e) | Inr _ \<Rightarrow> save (Some key) (Some name) w1))"

definition get_feedback :: "string \<Rightarrow> feedback_site \<Rightarrow> feedback_row option" where
  "get_feedback i w = find (\<lambda>r. fb_id r = i) (fs_rows w)"

record attachment =
  at_bytes :: string
  at_size :: nat
  at_media :: string
  at_name :: string

text \<open>Header values are encoded as Latin-1 when the response is built, which raises on any character beyond U+00FF.  In the UTF-8 the texts of
  this theory are written in, these are the characters that start with a byte of C4 or more.\<close>

definition latin_1 :: "string \<Rightarrow> bool" where
  "latin_1 s \<longleftrightarrow> list_all (\<lambda>c. (of_char c :: nat) < 196) s"

definition feedback_attachment :: "user_row \<Rightarrow> string \<Rightarrow> feedback_site \<Rightarrow> attachment result" where
  "feedback_attachment user feedback_id w =
     (case get_feedback feedback_id w of
        None \<Rightarrow> raise (HTTPException 404 ''no attachment for this feedback'')
      | Some row \<Rightarrow>
          if or_empty (fb_key row) '''' = '''' \<or> fb_user row \<noteq> us_id user then raise (HTTPException 404 ''no attachment for this feedback'')
          else (case open_stream (fs_store w) (or_empty (fb_key row) '''') of
              Inl _ \<Rightarrow> raise (HTTPException 404 ''no attachment for this feedback'')
            | Inr (bytes, n) \<Rightarrow>
                (let name = or_empty (fb_attachment row) (path_name (or_empty (fb_key row) ''''))
                 in if \<not> latin_1 name then raise (ValueError ''latin-1 codec cannot encode the header'')
                    else ok \<lparr>at_bytes = bytes, at_size = n,
                        at_media = (case map_of IMAGE_MEDIA (str_lower (path_suffix name)) of Some m \<Rightarrow> m | None \<Rightarrow> ''application/octet-stream''),
                        at_name = name\<rparr>)))"

section \<open>The issue\<close>

definition KIND_LABEL :: "(string \<times> string option) list" where
  "KIND_LABEL = [(''feature'', Some ''feature-request''), (''bug'', Some ''bug''), (''question'', Some ''question''), (''other'', None)]"

definition KIND_PREFIX :: "(string \<times> string) list" where
  "KIND_PREFIX = [(''feature'', ''Feature''), (''bug'', ''Bug''), (''question'', ''Question''), (''other'', ''Other'')]"

definition ISSUE_TITLE :: nat where "ISSUE_TITLE = 120"

definition is_line_break :: "char \<Rightarrow> bool" where
  "is_line_break c \<longleftrightarrow> c \<in> {CHR 0x0A, CHR 0x0B, CHR 0x0C, CHR 0x0D, CHR 0x1C, CHR 0x1D, CHR 0x1E, CHR 0x85}"

definition upper_char :: "char \<Rightarrow> char" where
  "upper_char c = (let n = of_char c :: nat in if 97 \<le> n \<and> n \<le> 122 then char_of (n - 32) else c)"

definition capitalize :: "string \<Rightarrow> string" where
  "capitalize s = (case s of [] \<Rightarrow> [] | c # cs \<Rightarrow> upper_char c # str_lower cs)"

record issue =
  is_title :: string
  is_body :: "string list"
  is_labels :: "string list"

text \<open>The body as the list of its lines; the dash of an absent page is one character outside the range of \<open>char\<close>, written in UTF-8 here.\<close>

definition DASH :: string where "DASH = [CHR 0xE2, CHR 0x80, CHR 0x94]"

definition issue_payload :: "feedback_row \<Rightarrow> string option \<Rightarrow> issue" where
  "issue_payload row base_url =
     (let stripped = str_strip (fb_message row);
          first_line = (if stripped \<noteq> '''' then takeWhile (\<lambda>c. \<not> is_line_break c) stripped else ''(no message)'');
          headline = (let t = str_strip (or_empty (fb_title row) '''') in if t \<noteq> '''' then t else first_line);
          kind = (case map_of KIND_PREFIX (fb_kind row) of Some p \<Rightarrow> p | None \<Rightarrow> capitalize (fb_kind row));
          who = (if fb_email row \<noteq> '''' then fb_name row @ '' <'' @ fb_email row @ ''>''
                 else if fb_name row \<noteq> '''' then fb_name row else if fb_user row \<noteq> '''' then fb_user row else ''unknown'');
          link = (case base_url of
              Some b \<Rightarrow> if or_empty (fb_key row) '''' \<noteq> '''' \<and> b \<noteq> ''''
                        then [''- **Attachment:** ['' @ or_empty (fb_attachment row) ''screenshot'' @ ''](''
                              @ b @ ''/api/feedback/'' @ fb_id row @ ''/attachment)''] else []
            | None \<Rightarrow> [])
      in \<lparr>is_title = ''['' @ kind @ ''] '' @ take ISSUE_TITLE headline,
          is_body = [fb_message row, '''', ''---'', ''- **From:** '' @ who, ''- **Kind:** '' @ fb_kind row,
            ''- **Page:** '' @ or_empty (fb_page row) DASH, ''- **Locale:** '' @ or_empty (fb_locale row) DASH,
            ''- **Submitted:** '' @ fb_created row, ''- **Feedback id:** `'' @ fb_id row @ ''`''] @ link,
          is_labels = ''feedback'' # (case map_of KIND_LABEL (fb_kind row) of Some (Some l) \<Rightarrow> [l] | _ \<Rightarrow> [])\<rparr>)"

text \<open>What GitHub answers, \<open>None\<close> where the request or the reading of the answer raises.\<close>

record github_reply =
  gr_status :: nat
  gr_number :: "int option"
  gr_html_url :: "string option"

definition create_issue_for_feedback :: "bool \<Rightarrow> (issue \<Rightarrow> github_reply option) \<Rightarrow> string \<Rightarrow> string option \<Rightarrow> feedback_site \<Rightarrow> feedback_site" where
  "create_issue_for_feedback enabled post feedback_id base_url w =
     (if \<not> enabled then w
      else case get_feedback feedback_id w of
          None \<Rightarrow> w
        | Some row \<Rightarrow>
            (case post (issue_payload row base_url) of
               None \<Rightarrow> w
             | Some resp \<Rightarrow>
                 if gr_status resp \<notin> {200, 201} then w
                 else w\<lparr>fs_rows := upd_where (\<lambda>r. fb_id r = feedback_id)
                          (\<lambda>r. r\<lparr>fb_number := gr_number resp, fb_url := gr_html_url resp\<rparr>) (fs_rows w)\<rparr>))"

fun run_tasks :: "bool \<Rightarrow> (issue \<Rightarrow> github_reply option) \<Rightarrow> (string \<times> string) list \<Rightarrow> feedback_site \<Rightarrow> feedback_site" where
  "run_tasks enabled post [] w = w"
| "run_tasks enabled post ((i, base) # ts) w = run_tasks enabled post ts (create_issue_for_feedback enabled post i (Some base) w)"

definition background :: "bool \<Rightarrow> (issue \<Rightarrow> github_reply option) \<Rightarrow> feedback_site \<Rightarrow> feedback_site" where
  "background enabled post w = run_tasks enabled post (fs_tasks w) (w\<lparr>fs_tasks := []\<rparr>)"

text \<open>The probe at startup: a warning, or none.  \<open>get\<close> is the status of the repository's page, \<open>None\<close> where the request raises.\<close>

datatype probe_warning = Unconfirmed | Unreachable nat

definition check_feedback_github_reachable :: "bool \<Rightarrow> nat option \<Rightarrow> probe_warning option" where
  "check_feedback_github_reachable enabled get =
     (if \<not> enabled then None
      else case get of None \<Rightarrow> Some Unconfirmed | Some s \<Rightarrow> if s = 200 then None else Some (Unreachable s))"

section \<open>Nothing is lost\<close>

text \<open>A row without what GitHub adds to it.\<close>

definition erased :: "feedback_row \<Rightarrow> feedback_row" where
  "erased r = r\<lparr>fb_number := None, fb_url := None\<rparr>"

lemma erased_eq: "erased r' = erased r \<Longrightarrow> r' = r\<lparr>fb_number := fb_number r', fb_url := fb_url r'\<rparr>"
  by (cases r; cases r') (simp add: erased_def)

lemma create_keeps:
  "map_option erased (get_feedback i (create_issue_for_feedback enabled post k base w)) = map_option erased (get_feedback i w)"
  "fs_store (create_issue_for_feedback enabled post k base w) = fs_store w"
proof -
  have upd: "find (\<lambda>r. fb_id r = i) (upd_where (\<lambda>r. fb_id r = k) (\<lambda>r. r\<lparr>fb_number := n, fb_url := u\<rparr>) rows)
      = map_option (\<lambda>r. if fb_id r = k then r\<lparr>fb_number := n, fb_url := u\<rparr> else r) (find (\<lambda>r. fb_id r = i) rows)" for n u rows
    by (rule find_upd_where) simp
  have "map_option erased (map_option (\<lambda>r. if fb_id r = k then r\<lparr>fb_number := n, fb_url := u\<rparr> else r) x) = map_option erased x" for n u x
    by (cases x) (simp_all add: erased_def)
  then show "map_option erased (get_feedback i (create_issue_for_feedback enabled post k base w)) = map_option erased (get_feedback i w)"
    by (simp add: create_issue_for_feedback_def get_feedback_def upd split: option.split)
qed (auto simp: create_issue_for_feedback_def split: option.split)

lemma run_tasks_keep:
  "map_option erased (get_feedback i (run_tasks enabled post ts w)) = map_option erased (get_feedback i w) \<and>
   fs_store (run_tasks enabled post ts w) = fs_store w"
  by (induction enabled post ts w rule: run_tasks.induct) (simp_all add: create_keeps)

lemma background_keeps:
  assumes "get_feedback i w = Some r"
  shows "\<exists>n u. get_feedback i (background enabled post w) = Some (r\<lparr>fb_number := n, fb_url := u\<rparr>)" "fs_store (background enabled post w) = fs_store w"
proof -
  have "map_option erased (get_feedback i (background enabled post w)) = Some (erased r)" "fs_store (background enabled post w) = fs_store w"
    using run_tasks_keep [of i enabled post "fs_tasks w" "w\<lparr>fs_tasks := []\<rparr>"] assms by (simp_all add: background_def get_feedback_def)
  then show "\<exists>n u. get_feedback i (background enabled post w) = Some (r\<lparr>fb_number := n, fb_url := u\<rparr>)" "fs_store (background enabled post w) = fs_store w"
    using erased_eq by fastforce+
qed

lemma enforce_image_size_capped: "enforce_image_size mb = capped (mb * 1024 * 1024) (HTTPException 413 ''image_too_large'')"
  by (simp add: enforce_image_size_def capped_def fun_eq_iff)

text \<open>What an accepted submission leaves: its row at the end, with the screenshot under its key where there is one.\<close>

lemma submit_feedback_ok:
  assumes "submit_feedback allowed mb now token tmp_path origin base user f w = (w', ok row)" "store_get (fs_tmp w) tmp_path = None"
  shows "fs_rows w' = fs_rows w @ [row] \<and> fs_tmp w' = fs_tmp w \<and> fb_id row = ''fb_'' @ token \<and> fb_user row = us_id user \<and>
    fb_message row = take MAX_MESSAGE (str_strip (fm_message f)) \<and> fb_message row \<noteq> '''' \<and>
    (case fm_image f of
       Some (Some name, pieces) \<Rightarrow> name \<noteq> '''' \<longrightarrow> fb_key row = Some (feedback_attachment_key (fb_id row) name) \<and> fb_attachment row = Some name \<and>
         fs_store w' = store_put (feedback_attachment_key (fb_id row) name) (sent pieces) (fs_store w)
     | _ \<Rightarrow> True)"
proof (cases "\<exists>name pieces. fm_image f = Some (Some name, pieces) \<and> name \<noteq> ''''")
  case True
  then obtain name pieces where img: "fm_image f = Some (Some name, pieces)" "name \<noteq> ''''" by blast
  let ?key = "feedback_attachment_key (''fb_'' @ token) name"
  from assms(2) show ?thesis
  proof (cases rule: stage_upload_cases [where m = "mb * 1024 * 1024" and e = "HTTPException 413 ''image_too_large''" and pieces = pieces
        and key = ?key and st = "fs_store w"])
    case stored
    then show ?thesis using assms(1) img
      by (auto simp: submit_feedback_def enforce_image_size_capped or_empty_def Let_def split: if_splits sum.splits)
  next
    case refused
    then show ?thesis using assms(1) img
      by (auto simp: submit_feedback_def enforce_image_size_capped or_empty_def Let_def split: if_splits sum.splits)
  qed
next
  case False
  then show ?thesis using assms(1)
    by (auto simp: submit_feedback_def or_empty_def Let_def split: if_splits option.splits)
qed

text \<open>Feedback is never lost: an accepted submission is stored under the submitter's id with its message, and whatever GitHub then answers, or when
  it does not, the row stays, all but the number and the link of the issue as it was.\<close>

theorem feedback_is_never_lost:
  assumes "submit_feedback allowed mb now token tmp_path origin base user f w = (w', ok row)"
    and "store_get (fs_tmp w) tmp_path = None" and "''fb_'' @ token \<notin> fb_id ` set (fs_rows w)"
  shows "fb_user row = us_id user \<and> fb_message row = take MAX_MESSAGE (str_strip (fm_message f)) \<and> fb_message row \<noteq> '''' \<and>
    (\<exists>n u. get_feedback (fb_id row) (background enabled post w') = Some (row\<lparr>fb_number := n, fb_url := u\<rparr>))"
proof -
  note s = submit_feedback_ok [OF assms(1,2)]
  have "find (\<lambda>r. fb_id r = fb_id row) (fs_rows w) = None" using assms(3) s by (auto simp: find_None_notin)
  then have "get_feedback (fb_id row) w' = Some row" using s by (simp add: get_feedback_def find_append)
  with s background_keeps(1) [OF this, of enabled post] show ?thesis by blast
qed

text \<open>C27: A screenshot is its owner's alone: as soon as the submission is answered and whether or not the issue was opened, the submitter gets back
  exactly the bytes that were sent, under the name that was sent, when the name can be written in Latin-1; under any other name the request fails
  with the encoding error of the header, for its owner too; and anybody else gets the 404 of a feedback without a screenshot.  The path of the
  temporary file and the id of the feedback, both random, are taken to be fresh.\<close>

theorem screenshot_is_private:
  assumes "submit_feedback allowed mb now token tmp_path origin base user f w = (w', ok row)"
    and "store_get (fs_tmp w) tmp_path = None" and "''fb_'' @ token \<notin> fb_id ` set (fs_rows w)"
    and "fm_image f = Some (Some name, pieces)" and "name \<noteq> ''''"
    and "w'' = w' \<or> w'' = background enabled post w'"
  shows "(latin_1 name \<longrightarrow> (\<exists>a. feedback_attachment user (fb_id row) w'' = ok a \<and> at_bytes a = sent pieces \<and>
      at_size a = length (sent pieces) \<and> at_name a = name)) \<and>
    (\<not> latin_1 name \<longrightarrow> feedback_attachment user (fb_id row) w'' = raise (ValueError ''latin-1 codec cannot encode the header'')) \<and>
    (us_id other \<noteq> us_id user \<longrightarrow>
       feedback_attachment other (fb_id row) w'' = raise (HTTPException 404 ''no attachment for this feedback''))"
proof -
  note s = submit_feedback_ok [OF assms(1,2), unfolded assms(4)]
  have "find (\<lambda>r. fb_id r = fb_id row) (fs_rows w) = None" using assms(3) s by (auto simp: find_None_notin)
  then have row: "get_feedback (fb_id row) w' = Some row" using s by (simp add: get_feedback_def find_append)
  have "row = row\<lparr>fb_number := fb_number row, fb_url := fb_url row\<rparr>" by simp
  with row assms(6) background_keeps [OF row] obtain n u where g: "get_feedback (fb_id row) w'' = Some (row\<lparr>fb_number := n, fb_url := u\<rparr>)"
    "fs_store w'' = fs_store w'" by metis
  have "feedback_attachment_key (fb_id row) name \<noteq> ''''" by (simp add: feedback_attachment_key_def)
  then show ?thesis using s assms(5) g
    by (auto simp: feedback_attachment_def or_empty_def open_stream_def read_bytes_def store_get_put Let_def)
qed

text \<open>An issue has a headline, of at most 120 characters behind the kind.\<close>

lemma issue_has_headline:
  assumes "fb_message row = take n (str_strip msg)" "fb_message row \<noteq> ''''" "fb_kind row \<in> fst ` set KIND_PREFIX"
  shows "length (is_title (issue_payload row base)) \<le> length ''[Question] '' + ISSUE_TITLE"
  using assms(3) by (auto simp: issue_payload_def Let_def KIND_PREFIX_def)

section \<open>Witnesses\<close>

definition demo_form :: form where
  "demo_form = \<lparr>fm_kind = ''bug'', fm_title = None, fm_message = ''it broke'', fm_page = None, fm_locale = None,
     fm_image = Some (Some ''shot.png'', [''pixels''])\<rparr>"

definition no_feedback :: feedback_site where
  "no_feedback = \<lparr>fs_tmp = [], fs_store = [], fs_rows = [], fs_tasks = []\<rparr>"

lemma demo_submit:
  "\<exists>w row. submit_feedback [''.png''] 1 0 ''1'' ''tmp'' None ''http://h/'' demo_user demo_form no_feedback = (w, ok row)"
proof -
  have m: "take MAX_MESSAGE (str_strip ''it broke'') \<noteq> ''''" by code_simp
  have "str_lower (path_suffix ''shot.png'') = ''.png''" by code_simp
  then have v: "validate_feedback_image [''.png''] (Some ''shot.png'') = ok ()" by (simp add: validate_feedback_image_def)
  have s: "\<exists>st. stage_upload (enforce_image_size 1) [''pixels''] ''tmp'' key ([], []) = (([], st), ok ())" for key
    by (simp add: stage_upload_def enforce_image_size_def store_put_def store_get_def store_delete_def)
  show ?thesis
    using m v s [of "feedback_attachment_key ''fb_1'' ''shot.png''"]
    by (auto simp: submit_feedback_def demo_form_def no_feedback_def or_empty_def Let_def)
qed

theorem feedback_is_never_lost_witness:
  "\<exists>w row n u. submit_feedback [''.png''] 1 0 ''1'' ''tmp'' None ''http://h/'' demo_user demo_form no_feedback = (w, ok row) \<and>
     get_feedback (fb_id row) (background True (\<lambda>i. Some \<lparr>gr_status = 201, gr_number = Some 7, gr_html_url = None\<rparr>) w)
       = Some (row\<lparr>fb_number := n, fb_url := u\<rparr>)"
proof -
  obtain w row where s: "submit_feedback [''.png''] 1 0 ''1'' ''tmp'' None ''http://h/'' demo_user demo_form no_feedback = (w, ok row)"
    using demo_submit by blast
  have "store_get (fs_tmp no_feedback) ''tmp'' = None" "''fb_'' @ ''1'' \<notin> fb_id ` set (fs_rows no_feedback)"
    by (simp_all add: no_feedback_def store_get_def)
  from feedback_is_never_lost [OF s this] s show ?thesis by blast
qed

theorem screenshot_is_private_witness:
  "\<exists>w row a. submit_feedback [''.png''] 1 0 ''1'' ''tmp'' None ''http://h/'' demo_user demo_form no_feedback = (w, ok row) \<and>
     feedback_attachment demo_user (fb_id row) (background False (\<lambda>i. None) w) = ok a \<and> at_bytes a = ''pixels''"
proof -
  obtain w row where s: "submit_feedback [''.png''] 1 0 ''1'' ''tmp'' None ''http://h/'' demo_user demo_form no_feedback = (w, ok row)"
    using demo_submit by blast
  have "store_get (fs_tmp no_feedback) ''tmp'' = None" "''fb_'' @ ''1'' \<notin> fb_id ` set (fs_rows no_feedback)"
    "fm_image demo_form = Some (Some ''shot.png'', [''pixels''])" "''shot.png'' \<noteq> ''''"
    by (simp_all add: no_feedback_def demo_form_def store_get_def)
  note hyps = s this
  have "latin_1 ''shot.png''" by code_simp
  with screenshot_is_private [OF hyps, where w'' = "background False (\<lambda>i. None) w" and enabled = False and post = "\<lambda>i. None"] s
  show ?thesis by (auto simp: sent_def)
qed

end
