(* ===== verification/Log_Stream.thy ===== *)
theory Log_Stream
  imports Registry
begin

text \<open>
  The log of a job as the client reads it, \<open>app/routers/ingestion.py\<close>: the status, the lines after a number, and the event stream that
  polls the tables until the run has ended.  A poll reads the lines and then the run, in two statements; the tables it sees are arguments,
  and the list of polls ends where the client disconnects.
\<close>

section \<open>Reading a run\<close>

definition owned_run :: "db \<Rightarrow> string \<Rightarrow> string \<Rightarrow> string \<Rightarrow> ingestion_run_row result" where
  "owned_run d model_id run_id user =
     (case get_run d run_id of
        None \<Rightarrow> raise (HTTPException 404 ''ingestion run not found'')
      | Some r \<Rightarrow>
          if ir_model r \<noteq> model_id \<or> ir_user r \<noteq> user then raise (HTTPException 404 ''ingestion run not found'') else ok r)"

record run_view =
  rv_id :: string
  rv_model :: string
  rv_file :: string
  rv_started :: string
  rv_status :: string
  rv_progress :: int
  rv_error :: "string option"

definition run_status :: "string \<Rightarrow> string \<Rightarrow> string \<Rightarrow> db \<Rightarrow> run_view result" where
  "run_status user model_id run_id d =
     bind_result (owned_run d model_id run_id user) (\<lambda>r.
       ok \<lparr>rv_id = ir_id r, rv_model = ir_model r, rv_file = ir_file r, rv_started = ir_started r, rv_status = ir_status r,
           rv_progress = ir_progress r, rv_error = (if ir_error r = Some '''' then None else ir_error r)\<rparr>)"

text \<open>The lines of a run by number, and those after a number.\<close>

definition run_lines :: "string \<Rightarrow> db \<Rightarrow> log_row list" where
  "run_lines run_id d = sort_key lg_seq (filter (\<lambda>l. lg_run l = run_id) (t_logs d))"

definition lines_after :: "string \<Rightarrow> nat \<Rightarrow> db \<Rightarrow> log_row list" where
  "lines_after run_id after d = sort_key lg_seq (filter (\<lambda>l. lg_run l = run_id \<and> lg_seq l > after) (t_logs d))"

record log_page =
  pg_logs :: "log_row list"
  pg_done :: bool
  pg_status :: string
  pg_progress :: int

definition run_logs :: "string \<Rightarrow> string \<Rightarrow> string \<Rightarrow> nat \<Rightarrow> db \<Rightarrow> log_page result" where
  "run_logs user model_id run_id after d =
     bind_result (owned_run d model_id run_id user) (\<lambda>r.
       ok \<lparr>pg_logs = lines_after run_id after d, pg_done = (ir_status r \<noteq> ''streaming''), pg_status = ir_status r,
           pg_progress = ir_progress r\<rparr>)"

section \<open>The stream\<close>

datatype sse = SLog log_row | SProgress int | SDone string

text \<open>The events of one poll: \<open>d\<close> answers the query for the lines and \<open>d'\<close> the one for the run.\<close>

definition run_ended :: "string \<Rightarrow> db \<Rightarrow> string option" where
  "run_ended run_id d' = (case get_run d' run_id of Some r \<Rightarrow> if ir_status r \<noteq> ''streaming'' then Some (ir_status r) else None | None \<Rightarrow> None)"

definition progress_events :: "string \<Rightarrow> int \<Rightarrow> db \<Rightarrow> sse list \<times> int" where
  "progress_events run_id last_progress d' =
     (case get_run d' run_id of
        Some r \<Rightarrow> if ir_progress r \<noteq> last_progress then ([SProgress (ir_progress r)], ir_progress r) else ([], last_progress)
      | None \<Rightarrow> ([], last_progress))"

fun event_source :: "string \<Rightarrow> nat \<Rightarrow> int \<Rightarrow> (db \<times> db) list \<Rightarrow> sse list" where
  "event_source run_id last_seq last_progress [] = []"
| "event_source run_id last_seq last_progress ((d, d') # polls) =
     (let rows = lines_after run_id last_seq d;
          seq = (if rows = [] then last_seq else lg_seq (last rows));
          (evs, prog) = progress_events run_id last_progress d'
      in map SLog rows @ evs @
         (case run_ended run_id d' of Some st \<Rightarrow> [SDone st] | None \<Rightarrow> event_source run_id seq prog polls))"

definition run_stream :: "string \<Rightarrow> string \<Rightarrow> string \<Rightarrow> db \<Rightarrow> (db \<times> db) list \<Rightarrow> sse list result" where
  "run_stream user model_id run_id d polls =
     bind_result (owned_run d model_id run_id user) (\<lambda>_. ok (event_source run_id 0 (- 1) polls))"

section \<open>Every line once\<close>

definition stream_lines :: "sse list \<Rightarrow> log_row list" where
  "stream_lines evs = List.map_filter (\<lambda>e. case e of SLog l \<Rightarrow> Some l | _ \<Rightarrow> None) evs"

text \<open>The polls up to the one that sees the end.\<close>

fun polls_made :: "string \<Rightarrow> (db \<times> db) list \<Rightarrow> (db \<times> db) list" where
  "polls_made run_id [] = []"
| "polls_made run_id (p # ps) = (if run_ended run_id (snd p) \<noteq> None then [p] else p # polls_made run_id ps)"

lemma stream_lines_simps [simp]:
  "stream_lines [] = []" "stream_lines (xs @ ys) = stream_lines xs @ stream_lines ys" "stream_lines (map SLog rows) = rows"
  "stream_lines (fst (progress_events r lp d)) = []" "stream_lines (SDone st # evs) = stream_lines evs"
proof -
  show "stream_lines (map SLog rows) = rows" by (induction rows) (auto simp: stream_lines_def List.map_filter_def)
qed (auto simp: stream_lines_def List.map_filter_def progress_events_def split: option.split)

lemma lines_after_filter: "lines_after r n d = filter (\<lambda>l. lg_seq l > n) (run_lines r d)"
  by (simp add: lines_after_def run_lines_def filter_sort conj_commute)

text \<open>Numbers that increase from 1 on.\<close>

definition numbered :: "log_row list \<Rightarrow> bool" where
  "numbered ls \<longleftrightarrow> sorted_wrt (<) (map lg_seq ls) \<and> 0 \<notin> lg_seq ` set ls"

lemma filter_after_prefix:
  assumes "numbered ls" "ls = xs @ ys" "n = (if xs = [] then 0 else lg_seq (last xs))"
  shows "filter (\<lambda>l. lg_seq l > n) ls = ys"
proof -
  have "filter (\<lambda>l. lg_seq l > n) xs = []"
  proof (cases xs rule: rev_cases)
    case (snoc xs' x)
    then show ?thesis using assms by (force simp: numbered_def filter_empty_conv sorted_wrt_append)
  qed simp
  moreover have "filter (\<lambda>l. lg_seq l > n) ys = ys"
  proof (cases xs rule: rev_cases)
    case Nil
    then show ?thesis using assms by (auto simp: numbered_def filter_id_conv)
  next
    case (snoc xs' x)
    then show ?thesis using assms by (auto simp: numbered_def filter_id_conv sorted_wrt_append)
  qed
  ultimately show ?thesis using assms(2) by simp
qed

lemma event_source_lines:
  assumes "sorted_wrt (\<lambda>p q. prefix (run_lines r (fst p)) (run_lines r (fst q))) polls"
    and "\<forall>p \<in> set polls. numbered (run_lines r (fst p))"
    and "\<forall>p \<in> set polls. prefix seen (run_lines r (fst p))"
    and "n = (if seen = [] then 0 else lg_seq (last seen))"
  shows "seen @ stream_lines (event_source r n lp polls)
    = (if polls = [] then seen else run_lines r (fst (last (polls_made r polls))))"
  using assms
proof (induction polls arbitrary: seen n lp)
  case (Cons p polls)
  obtain d d' where p: "p = (d, d')" by force
  obtain new where new: "run_lines r d = seen @ new" using Cons.prems(3) p by (auto simp: prefix_def)
  then have after: "lines_after r n d = new"
    using filter_after_prefix [of "run_lines r d" seen new n] Cons.prems(2,4) p by (simp add: lines_after_filter)
  let ?n = "if new = [] then n else lg_seq (last new)"
  obtain evs prog where pe: "progress_events r lp d' = (evs, prog)" by force
  then have evs: "stream_lines evs = []" using stream_lines_simps(4) [of r lp d'] by simp
  show ?case
  proof (cases "run_ended r d'")
    case (Some st)
    then show ?thesis using p after new pe evs by (simp add: Let_def)
  next
    case None
    have "(seen @ new) @ stream_lines (event_source r ?n prog polls)
        = (if polls = [] then seen @ new else run_lines r (fst (last (polls_made r polls))))"
      by (rule Cons.IH) (use Cons.prems new p in auto)
    moreover have "polls_made r polls = [] \<longleftrightarrow> polls = []" by (cases polls) auto
    ultimately show ?thesis using p after new pe evs None by (simp add: Let_def)
  qed
qed simp

text \<open>The stream ends with the announcement of the poll that saw the run ended, or without one, and holds no other.\<close>

definition announcement :: "string \<Rightarrow> (db \<times> db) list \<Rightarrow> sse list" where
  "announcement r polls = (case run_ended r (snd (last (polls_made r polls))) of Some st \<Rightarrow> [SDone st] | None \<Rightarrow> [])"

lemma polls_made_Nil: "polls_made r ps = [] \<longleftrightarrow> ps = []"
  by (cases ps) auto

lemma done_is_last:
  "polls \<noteq> [] \<Longrightarrow> \<exists>body. event_source r n lp polls = body @ announcement r polls \<and> (\<forall>st. SDone st \<notin> set body)"
proof (induction polls arbitrary: n lp)
  case (Cons p polls)
  obtain d d' where p: "p = (d, d')" by force
  let ?rows = "lines_after r n d"
  let ?n = "if ?rows = [] then n else lg_seq (last ?rows)"
  obtain evs prog where pe: "progress_events r lp d' = (evs, prog)" by force
  then have evs: "\<forall>st. SDone st \<notin> set evs" by (auto simp: progress_events_def split: option.splits if_splits)
  show ?case
  proof (cases "run_ended r d' \<noteq> None \<or> polls = []")
    case True
    then show ?thesis
      by (intro exI [of _ "map SLog ?rows @ evs"]) (use evs p pe in \<open>auto simp: announcement_def Let_def split: option.split\<close>)
  next
    case False
    with Cons.IH obtain body where "event_source r ?n prog polls = body @ announcement r polls" "\<forall>st. SDone st \<notin> set body" by blast
    moreover have "announcement r (p # polls) = announcement r polls" using False p by (cases polls) (auto simp: announcement_def)
    ultimately show ?thesis
      by (intro exI [of _ "map SLog ?rows @ evs @ body"]) (use evs p pe False in \<open>auto simp: Let_def\<close>)
  qed
qed simp

text \<open>C29: A client of the stream gets every line its polls could read, once and in order, however they fall: what it has received up to any poll is
  exactly the log as that poll read it, up to the poll that sees the run ended; that poll is the last, and the end is announced once, as the last
  event, and not without it.  The lines of the run are numbered by increasing positive numbers and a later poll reads the lines of an earlier one and those appended since, as
  a job that writes its log leaves them.  A line written after the last poll read the lines is not sent, see \<open>stream_loses_the_last_lines\<close>.\<close>

theorem stream_delivers_every_line_once:
  assumes "sorted_wrt (\<lambda>p q. prefix (run_lines r (fst p)) (run_lines r (fst q))) polls"
    and "\<And>p. p \<in> set polls \<Longrightarrow> numbered (run_lines r (fst p))" and "polls \<noteq> []" and "made = polls_made r polls"
  shows "\<exists>body. event_source r 0 (- 1) polls = body @ (case run_ended r (snd (last made)) of Some st \<Rightarrow> [SDone st] | None \<Rightarrow> []) \<and>
    (\<forall>st. SDone st \<notin> set body) \<and> stream_lines body = run_lines r (fst (last made)) \<and>
    (\<forall>p \<in> set (butlast made). run_ended r (snd p) = None) \<and> (run_ended r (snd (last made)) = None \<longrightarrow> made = polls)"
proof -
  obtain body where body: "event_source r 0 (- 1) polls = body @ announcement r polls" "\<forall>st. SDone st \<notin> set body"
    using done_is_last [OF assms(3)] by blast
  have "[] @ stream_lines (event_source r 0 (- 1) polls) = (if polls = [] then [] else run_lines r (fst (last (polls_made r polls))))"
    by (rule event_source_lines) (use assms in auto)
  moreover have "stream_lines (announcement r polls) = []" by (simp add: announcement_def split: option.split)
  moreover have "\<forall>p \<in> set (butlast (polls_made r ps)). run_ended r (snd p) = None" for ps
    by (induction ps) auto
  moreover have "run_ended r (snd (last (polls_made r ps))) = None \<Longrightarrow> polls_made r ps = ps" for ps
  proof (induction ps)
    case (Cons p ps)
    then show ?case by (cases "ps = []") (auto simp: polls_made_Nil split: if_splits)
  qed simp
  ultimately show ?thesis using body assms(3,4) by (intro exI [of _ body]) (auto simp: announcement_def)
qed

text \<open>The lines are read before the run, in a statement of their own: what the worker writes between the two, its last lines and the end of the
  run, is never sent, although the end is announced.  The page of lines reads the run first and has them.\<close>

definition demo_line :: log_row where
  "demo_line = \<lparr>lg_run = ''ing_1'', lg_seq = 1, lg_ts = '''', lg_level = ''INFO'', lg_message = ''Pipeline complete''\<rparr>"

definition running :: ingestion_run_row where
  "running = \<lparr>ir_id = ''ing_1'', ir_user = ''u'', ir_model = ''m'', ir_file = ''net.onnx'', ir_started = '''', ir_status = ''streaming'',
     ir_progress = 90, ir_error = None, ir_finished = None\<rparr>"

definition before_end :: db where "before_end = empty_db\<lparr>t_ingestions := [running]\<rparr>"

definition after_end :: db where
  "after_end = empty_db\<lparr>t_ingestions := [running\<lparr>ir_status := ''completed'', ir_progress := 100\<rparr>], t_logs := [demo_line]\<rparr>"

lemmas demo_run_defs = before_end_def after_end_def running_def demo_line_def empty_db_def get_run_def run_ended_def run_lines_def lines_after_def

theorem stream_loses_the_last_lines:
  "event_source ''ing_1'' 0 (- 1) [(before_end, after_end)] = [SProgress 100, SDone ''completed''] \<and>
   run_lines ''ing_1'' after_end = [demo_line] \<and>
   map_sum id pg_logs (run_logs ''u'' ''m'' ''ing_1'' 0 after_end) = Inr [demo_line]"
  by (simp add: demo_run_defs progress_events_def run_logs_def owned_run_def)

theorem stream_delivers_every_line_once_witness:
  "\<exists>body. event_source ''ing_1'' 0 (- 1) [(before_end, before_end), (after_end, after_end), (after_end, after_end)] = body @ [SDone ''completed''] \<and>
     stream_lines body = [demo_line] \<and> (\<forall>st. SDone st \<notin> set body)"
proof -
  let ?polls = "[(before_end, before_end), (after_end, after_end), (after_end, after_end)]"
  let ?made = "[(before_end, before_end), (after_end, after_end)]"
  have 1: "sorted_wrt (\<lambda>p q. prefix (run_lines ''ing_1'' (fst p)) (run_lines ''ing_1'' (fst q))) ?polls" by (simp add: demo_run_defs)
  have 2: "\<And>p. p \<in> set ?polls \<Longrightarrow> numbered (run_lines ''ing_1'' (fst p))" by (auto simp: demo_run_defs numbered_def)
  have 3: "?polls \<noteq> []" by simp
  have 4: "?made = polls_made ''ing_1'' ?polls" by (simp add: demo_run_defs)
  obtain body where "event_source ''ing_1'' 0 (- 1) ?polls = body @ (case run_ended ''ing_1'' (snd (last ?made)) of Some st \<Rightarrow> [SDone st] | None \<Rightarrow> [])"
      "\<forall>st. SDone st \<notin> set body" "stream_lines body = run_lines ''ing_1'' (fst (last ?made))"
    using stream_delivers_every_line_once [OF 1 2 3 4] by blast
  moreover have "run_ended ''ing_1'' after_end = Some ''completed''" "run_lines ''ing_1'' after_end = [demo_line]" by (simp_all add: demo_run_defs)
  ultimately show ?thesis by (intro exI [of _ body]) (simp del: event_source.simps)
qed

end
