(* ===== verification/Runtime_Config.thy ===== *)
theory Runtime_Config
  imports Drift_Monitor Retention Lifecycle Feedback
begin

text \<open>
  The settings and the start of the process: \<open>Settings\<close> with \<open>validate_runtime\<close> and the derived helpers in \<open>app/config.py\<close>, the request identifier and
  the body guard of \<open>app/middleware.py\<close>, the reconcilers of \<open>lifespan\<close> and the readiness answer in \<open>app/main.py\<close>, and the tick of monitor and purge in
  \<open>app/services/queue.py\<close>.
\<close>

section \<open>Settings\<close>

record config =
  cf_db_path :: string
  cf_database_url :: "string option"
  cf_storage_dir :: string
  cf_storage_backend :: string
  cf_s3_endpoint_url :: "string option"
  cf_s3_bucket :: string
  cf_s3_region :: string
  cf_s3_access_key :: "string option"
  cf_s3_secret_key :: "string option"
  cf_s3_force_path_style :: bool
  cf_redis_url :: string
  cf_inline_jobs :: bool
  cf_work_dir :: string
  cf_cors_origins :: string
  cf_public_origin :: "string option"
  cf_jwt_secret :: string
  cf_jwt_ttl_min :: int
  cf_cookie_secure :: bool
  cf_cookie_samesite :: string
  cf_cookie_domain :: "string option"
  cf_signup_enabled :: bool
  cf_google_client_id :: "string option"
  cf_google_client_secret :: "string option"
  cf_google_redirect_uri :: "string option"
  cf_post_login_path :: string
  cf_feedback_github_token :: "string option"
  cf_feedback_github_repo :: "string option"
  cf_feedback_image_max_mb :: int
  cf_feedback_image_exts :: string
  cf_max_upload_mb :: int
  cf_allowed_upload_exts :: string
  cf_rate_limit_enabled :: bool
  cf_rate_limit_upload :: string
  cf_rate_limit_import :: string
  cf_rate_limit_auth :: string
  cf_monitor_interval_sec :: int
  cf_monitor_window_min :: int
  cf_drift_p95_pct :: real
  cf_drift_error_pct :: real
  cf_drift_acc_pts :: real
  cf_telemetry_sim_enabled :: bool
  cf_monitor_inline_enabled :: bool
  cf_stream_interval_sec :: int
  cf_rate_limit_telemetry :: string
  cf_rate_limit_artifact :: string
  cf_telemetry_batch_max :: int
  cf_telemetry_body_max_mb :: int
  cf_drift_psi :: real
  cf_drift_input_z :: real
  cf_retention_enabled :: bool
  cf_telemetry_retention_days :: int
  cf_processed_batch_retention_days :: int
  cf_activity_retention_days :: int
  cf_log_level :: string
  cf_log_json :: bool
  cf_seed :: int
  cf_ref_date :: "string option"
  cf_fast_pipeline :: bool
  cf_pareto_adaptive :: bool
  cf_pareto_trials :: int
  cf_pareto_trials_per_dim :: int
  cf_pareto_startup_trials :: int
  cf_pareto_min_trials :: int
  cf_pareto_early_stop :: bool
  cf_pareto_hv_patience :: int
  cf_pareto_hv_epsilon :: real
  cf_n_probes :: int
  cf_max_compressible_ops :: int
  cf_job_timeout_sec :: int
  cf_job_workers :: int
  cf_guarantee_mode :: bool
  cf_tau :: real
  cf_trial_export_max_mb :: int

definition default_settings :: config where
  "default_settings = \<lparr>
     cf_db_path = ''astra.db'', cf_database_url = None, cf_storage_dir = ''storage'', cf_storage_backend = ''local'',
     cf_s3_endpoint_url = None, cf_s3_bucket = ''astra-artifacts'', cf_s3_region = ''us-east-1'', cf_s3_access_key = None,
     cf_s3_secret_key = None, cf_s3_force_path_style = True, cf_redis_url = ''redis://localhost:6379/0'', cf_inline_jobs = False,
     cf_work_dir = ''/tmp/astra-work'', cf_cors_origins = ''http://localhost:5173,http://127.0.0.1:5173'', cf_public_origin = None,
     cf_jwt_secret = ''dev-insecure-change-me'', cf_jwt_ttl_min = 10080, cf_cookie_secure = True, cf_cookie_samesite = ''lax'',
     cf_cookie_domain = None, cf_signup_enabled = True, cf_google_client_id = None, cf_google_client_secret = None,
     cf_google_redirect_uri = None, cf_post_login_path = ''/dashboard'', cf_feedback_github_token = None, cf_feedback_github_repo = None,
     cf_feedback_image_max_mb = 10, cf_feedback_image_exts = ''.png,.jpg,.jpeg,.gif,.webp'', cf_max_upload_mb = 2048,
     cf_allowed_upload_exts = ''.onnx,.pt,.pth,.bin,.ckpt,.safetensors,.h5,.keras,.pb,.tflite,.mlmodel,.pkl,.joblib,.gguf'',
     cf_rate_limit_enabled = True, cf_rate_limit_upload = ''20/minute'', cf_rate_limit_import = ''60/minute'',
     cf_rate_limit_auth = ''30/minute'', cf_monitor_interval_sec = 60, cf_monitor_window_min = 10, cf_drift_p95_pct = 10,
     cf_drift_error_pct = 1, cf_drift_acc_pts = 1 / 2, cf_telemetry_sim_enabled = False, cf_monitor_inline_enabled = True,
     cf_stream_interval_sec = 8, cf_rate_limit_telemetry = ''600/minute'', cf_rate_limit_artifact = ''60/minute'',
     cf_telemetry_batch_max = 600, cf_telemetry_body_max_mb = 8, cf_drift_psi = 1 / 5, cf_drift_input_z = 3, cf_retention_enabled = True,
     cf_telemetry_retention_days = 90, cf_processed_batch_retention_days = 35, cf_activity_retention_days = 180, cf_log_level = ''INFO'',
     cf_log_json = True, cf_seed = 42, cf_ref_date = None, cf_fast_pipeline = False, cf_pareto_adaptive = True, cf_pareto_trials = 150,
     cf_pareto_trials_per_dim = 10, cf_pareto_startup_trials = 10, cf_pareto_min_trials = 30, cf_pareto_early_stop = False,
     cf_pareto_hv_patience = 20, cf_pareto_hv_epsilon = 1 / 1000, cf_n_probes = 16, cf_max_compressible_ops = 24, cf_job_timeout_sec = 900,
     cf_job_workers = 2, cf_guarantee_mode = True, cf_tau = 19 / 20, cf_trial_export_max_mb = 500\<rparr>"

definition truthy :: "string option \<Rightarrow> bool" where
  "truthy x \<longleftrightarrow> or_empty x '''' \<noteq> ''''"

text \<open>\<open>s.split(",")\<close>.\<close>

fun split_commas :: "string \<Rightarrow> string list" where
  "split_commas [] = ['''']"
| "split_commas (c # cs) =
     (if c = CHR '','' then '''' # split_commas cs
      else case split_commas cs of [] \<Rightarrow> [[c]] | w # ws \<Rightarrow> (c # w) # ws)"

definition comma_list :: "string \<Rightarrow> string list" where
  "comma_list s = filter (\<lambda>o'. o' \<noteq> '''') (map str_strip (split_commas s))"

definition cors_origin_list :: "config \<Rightarrow> string list" where
  "cors_origin_list c = comma_list (cf_cors_origins c)"

definition allowed_upload_ext_set :: "config \<Rightarrow> string list" where
  "allowed_upload_ext_set c = map str_lower (comma_list (cf_allowed_upload_exts c))"

definition feedback_image_ext_set :: "config \<Rightarrow> string list" where
  "feedback_image_ext_set c = map str_lower (comma_list (cf_feedback_image_exts c))"

definition effective_database_url :: "config \<Rightarrow> string" where
  "effective_database_url c = (if truthy (cf_database_url c) then the (cf_database_url c) else ''sqlite:///'' @ cf_db_path c)"

definition is_sqlite :: "config \<Rightarrow> bool" where
  "is_sqlite c \<longleftrightarrow> prefix ''sqlite'' (effective_database_url c)"

definition google_enabled :: "config \<Rightarrow> bool" where
  "google_enabled c \<longleftrightarrow> truthy (cf_google_client_id c) \<and> truthy (cf_google_client_secret c)"

definition github_feedback_enabled :: "config \<Rightarrow> bool" where
  "github_feedback_enabled c \<longleftrightarrow> truthy (cf_feedback_github_token c) \<and> truthy (cf_feedback_github_repo c)"

definition CALLBACK :: string where "CALLBACK = ''/api/auth/google/callback''"

definition effective_google_redirect_uri :: "config \<Rightarrow> string" where
  "effective_google_redirect_uri c =
     (if truthy (cf_google_redirect_uri c) then the (cf_google_redirect_uri c)
      else if truthy (cf_public_origin c) then strip_slash (the (cf_public_origin c)) @ CALLBACK
      else ''http://localhost:5173'' @ CALLBACK)"

text \<open>What the settings are to the parts that read them.\<close>

definition monitor_settings_of :: "config \<Rightarrow> monitor_settings" where
  "monitor_settings_of c = \<lparr>ms_window_min = cf_monitor_window_min c, ms_p95_pct = cf_drift_p95_pct c, ms_error_pct = cf_drift_error_pct c,
     ms_psi = cf_drift_psi c, ms_input_z = cf_drift_input_z c\<rparr>"

definition retention_settings_of :: "config \<Rightarrow> retention_settings" where
  "retention_settings_of c = \<lparr>rt_enabled = cf_retention_enabled c, rt_telemetry_days = cf_telemetry_retention_days c,
     rt_batch_days = cf_processed_batch_retention_days c, rt_activity_days = cf_activity_retention_days c\<rparr>"

definition limits_of :: "config \<Rightarrow> limits" where
  "limits_of c = \<lparr>li_allowed = allowed_upload_ext_set c, li_max_mb = nat (cf_max_upload_mb c), li_inline = cf_inline_jobs c,
     li_settings = \<lparr>st_fast = cf_fast_pipeline c, st_pareto_trials = cf_pareto_trials c, st_job_timeout = cf_job_timeout_sec c\<rparr>\<rparr>"

text \<open>The reference time of generated stamps: the pinned date, which may be malformed, or the start of the process.\<close>

definition ref_now :: "config \<Rightarrow> instant \<Rightarrow> instant result" where
  "ref_now c process_start =
     (if truthy (cf_ref_date c)
      then case parse_z (the (cf_ref_date c)) of Some t \<Rightarrow> ok t | None \<Rightarrow> raise (ValueError ''Invalid isoformat string'')
      else ok process_start)"

section \<open>The host of a URL\<close>

text \<open>\<open>urlparse(url).netloc\<close>: blanks and control characters are stripped on the left and tabs and line ends dropped, then a scheme is cut off and what follows
  two slashes is taken up to the next delimiter.  Unbalanced brackets raise; the check of an address inside brackets is left out.\<close>

definition url_clean :: "string \<Rightarrow> string" where
  "url_clean s = filter (\<lambda>c. c \<notin> {CHR 0x09, CHR 0x0A, CHR 0x0D}) (dropWhile (\<lambda>c. (of_char c :: nat) \<le> 32) s)"

definition is_alpha :: "char \<Rightarrow> bool" where
  "is_alpha c \<longleftrightarrow> (let n = of_char c :: nat in 65 \<le> n \<and> n \<le> 90 \<or> 97 \<le> n \<and> n \<le> 122)"

definition scheme_char :: "char \<Rightarrow> bool" where
  "scheme_char c \<longleftrightarrow> is_alpha c \<or> c \<in> set ''0123456789+-.''"

definition after_scheme :: "string \<Rightarrow> string" where
  "after_scheme u =
     (let s = takeWhile (\<lambda>c. c \<noteq> CHR '':'') u
      in if CHR '':'' \<in> set u \<and> s \<noteq> '''' \<and> is_alpha (hd s) \<and> list_all scheme_char s then drop (length s + 1) u else u)"

definition host_part :: "string \<Rightarrow> string" where
  "host_part rest = (if prefix ''//'' rest then takeWhile (\<lambda>c. c \<notin> set ''/?#'') (drop 2 rest) else '''')"

definition netloc :: "string \<Rightarrow> string result" where
  "netloc url =
     (let n = host_part (after_scheme (url_clean url))
      in if (CHR ''['' \<in> set n) \<noteq> (CHR '']'' \<in> set n) then raise (ValueError ''Invalid IPv6 URL'') else ok n)"

section \<open>The checks at startup\<close>

datatype boot_warning = WeakSecret | HalfGoogle | HalfFeedback | InsecureCookie | RedirectHost string string | InlineJobs

definition KNOWN_WEAK :: "string list" where
  "KNOWN_WEAK = [''dev-insecure-change-me'', ''change-me-in-production'', ''change-me-please-openssl-rand-hex-32'']"

definition jwt_weak :: "config \<Rightarrow> bool" where
  "jwt_weak c \<longleftrightarrow> cf_jwt_secret c \<in> set KNOWN_WEAK \<or> length (cf_jwt_secret c) < 32"

definition redirect_warnings :: "config \<Rightarrow> boot_warning list result" where
  "redirect_warnings c =
     (if google_enabled c \<and> truthy (cf_public_origin c)
      then bind_result (netloc (the (cf_public_origin c))) (\<lambda>want.
           bind_result (netloc (effective_google_redirect_uri c)) (\<lambda>got.
             ok (if want \<noteq> '''' \<and> got \<noteq> '''' \<and> want \<noteq> got then [RedirectHost got want] else [])))
      else ok [])"

definition storage_check :: "config \<Rightarrow> unit result" where
  "storage_check c =
     (if cf_storage_backend c = ''s3''
      then if cf_s3_bucket c = '''' \<or> \<not> truthy (cf_s3_access_key c) \<or> \<not> truthy (cf_s3_secret_key c)
           then raise (ValueError ''storage_backend=s3 requires its bucket and keys'') else ok ()
      else if cf_storage_backend c \<noteq> ''local'' then raise (ValueError ''unknown storage_backend'') else ok ())"

definition validate_runtime :: "config \<Rightarrow> boot_warning list result" where
  "validate_runtime c =
     (if jwt_weak c \<and> \<not> is_sqlite c then raise (ValueError ''ASTRA_JWT_SECRET is a placeholder or too short'')
      else let w1 = (if jwt_weak c then [WeakSecret] else []) @
                 (if truthy (cf_google_client_id c) \<noteq> truthy (cf_google_client_secret c) then [HalfGoogle] else []) @
                 (if truthy (cf_feedback_github_token c) \<noteq> truthy (cf_feedback_github_repo c) then [HalfFeedback] else []) @
                 (if truthy (cf_public_origin c) \<and> prefix ''https://'' (the (cf_public_origin c)) \<and> \<not> cf_cookie_secure c then [InsecureCookie] else [])
           in bind_result (redirect_warnings c) (\<lambda>w2. bind_result (storage_check c) (\<lambda>_.
                ok (w1 @ w2 @ (if \<not> is_sqlite c \<and> cf_inline_jobs c then [InlineJobs] else [])))))"

section \<open>Requests\<close>

definition request_id_char :: "char \<Rightarrow> bool" where
  "request_id_char c \<longleftrightarrow> is_alpha c \<or> c \<in> set ''0123456789._-''"

text \<open>\<open>re.match\<close> with \<open>$\<close> lets one line end through behind the last character.\<close>

definition request_id_ok :: "string \<Rightarrow> bool" where
  "request_id_ok s \<longleftrightarrow> (let t = (if s \<noteq> '''' \<and> last s = CHR 0x0A then butlast s else s) in 1 \<le> length t \<and> length t \<le> 64 \<and> list_all request_id_char t)"

definition request_id :: "string option \<Rightarrow> string \<Rightarrow> string" where
  "request_id inbound token = (let i = or_empty inbound '''' in if request_id_ok i then i else take 12 token)"

definition is_digits :: "string \<Rightarrow> bool" where
  "is_digits s \<longleftrightarrow> s \<noteq> '''' \<and> list_all (\<lambda>c. c \<in> set ''0123456789'') s"

definition digits_value :: "string \<Rightarrow> nat" where
  "digits_value s = foldl (\<lambda>n c. n * 10 + (of_char c - 48)) 0 s"

definition body_refused :: "config \<Rightarrow> string \<Rightarrow> string \<Rightarrow> string option \<Rightarrow> bool" where
  "body_refused c path http_method content_length \<longleftrightarrow>
     prefix ''/api/v1/telemetry/'' path \<and> http_method = ''POST'' \<and>
     (case content_length of
        None \<Rightarrow> False
      | Some cl \<Rightarrow> is_digits cl \<and> int (digits_value cl) > cf_telemetry_body_max_mb c * 1024 * 1024)"

section \<open>Start and tick\<close>

definition startup_reconcile ::
  "(string \<Rightarrow> (instant \<times> instant option) option) \<Rightarrow> config \<Rightarrow> instant \<Rightarrow> db \<Rightarrow> db" where
  "startup_reconcile parse c now d =
     fst (reconcile_orphaned_runs parse now (cf_job_timeout_sec c + 300) (fst (reconcile_deploy_status d)))"

text \<open>The process starts when the checks pass; the probe of the feedback repository only warns.\<close>

definition lifespan ::
  "(string \<Rightarrow> (instant \<times> instant option) option) \<Rightarrow> nat option \<Rightarrow> config \<Rightarrow> instant \<Rightarrow> db \<Rightarrow> (boot_warning list \<times> probe_warning option \<times> db) result" where
  "lifespan parse repo_answer c now d =
     bind_result (validate_runtime c) (\<lambda>ws.
       ok (ws, check_feedback_github_reachable (github_feedback_enabled c) repo_answer, startup_reconcile parse c now d))"

definition worker_startup ::
  "(string \<Rightarrow> (instant \<times> instant option) option) \<Rightarrow> config \<Rightarrow> instant \<Rightarrow> db \<Rightarrow> db" where
  "worker_startup parse c now d = fst (reconcile_orphaned_runs parse now (cf_job_timeout_sec c + 300) d)"

definition run_monitor_once :: "config \<Rightarrow> monitor_env \<Rightarrow> db \<Rightarrow> db \<times> (nat \<times> nat) result" where
  "run_monitor_once c env d =
     (case drift_monitor_pass (monitor_settings_of c) env d of
        (d1, Inl e) \<Rightarrow> (d1, raise e)
      | (d1, Inr r) \<Rightarrow> (fst (purge_expired (retention_settings_of c) (me_now env) d1), ok r))"

text \<open>The loop in the API process swallows what a tick raises and goes on with the next; \<open>envs\<close> are the ticks so far.\<close>

definition monitor_pause :: "config \<Rightarrow> int" where
  "monitor_pause c = max 5 (cf_monitor_interval_sec c)"

definition inline_monitor_loop :: "config \<Rightarrow> monitor_env list \<Rightarrow> db \<Rightarrow> db" where
  "inline_monitor_loop c envs d = foldl (\<lambda>d env. fst (run_monitor_once c env d)) d envs"

text \<open>The checks of the readiness answer: the status and which of them failed.\<close>

definition readyz :: "config \<Rightarrow> bool \<Rightarrow> bool \<Rightarrow> bool \<Rightarrow> nat \<times> (string \<times> bool) list" where
  "readyz c db_up redis_up storage_up =
     (let checks = [(''db'', db_up)] @ (if \<not> cf_inline_jobs c then [(''redis'', redis_up)] else []) @ [(''storage'', storage_up)]
      in (if list_all snd checks then 200 else 503, checks))"

section \<open>The derived callback\<close>

text \<open>The left blanks of \<open>s @ t\<close> end inside \<open>s\<close>, or \<open>s\<close> is blank.\<close>

lemma url_clean_split:
  "t = [] \<or> \<not> (of_char (hd t) :: nat) \<le> 32 \<Longrightarrow> url_clean (s @ t) = url_clean s @ filter (\<lambda>c. c \<notin> {CHR 0x09, CHR 0x0A, CHR 0x0D}) t"
proof (induction s)
  case Nil
  then show ?case by (cases t) (auto simp: url_clean_def)
next
  case (Cons c s)
  then show ?case by (cases "(of_char c :: nat) \<le> 32") (auto simp: url_clean_def)
qed

lemma strip_slash_split: "\<exists>k. s = strip_slash s @ replicate k (CHR ''/'')"
proof -
  have "\<exists>k. rev s = replicate k (CHR ''/'') @ dropWhile (\<lambda>c. c = CHR ''/'') (rev s)" for s
  proof (induction "rev s" arbitrary: s)
    case (Cons c cs)
    then obtain k where "cs = replicate k (CHR ''/'') @ dropWhile (\<lambda>c. c = CHR ''/'') cs" by (metis rev_rev_ident)
    then show ?case using Cons(2) [symmetric] by (cases "c = CHR ''/''") (auto intro: exI [of _ "Suc k"] exI [of _ 0])
  qed (auto intro: exI [of _ 0])
  then obtain k where "rev s = replicate k (CHR ''/'') @ dropWhile (\<lambda>c. c = CHR ''/'') (rev s)" by blast
  then have "s = rev (replicate k (CHR ''/'') @ dropWhile (\<lambda>c. c = CHR ''/'') (rev s))" by (metis rev_rev_ident)
  then show ?thesis by (auto simp: strip_slash_def)
qed

lemma after_scheme_append:
  assumes "CHR '':'' \<in> set u \<or> CHR '':'' \<notin> set t"
  shows "after_scheme (u @ t) = after_scheme u @ t"
proof (cases "CHR '':'' \<in> set u")
  case True
  then have "takeWhile (\<lambda>c. c \<noteq> CHR '':'') (u @ t) = takeWhile (\<lambda>c. c \<noteq> CHR '':'') u" by (auto intro!: takeWhile_append1 [of "CHR '':''"])
  moreover have "length (takeWhile (\<lambda>c. c \<noteq> CHR '':'') u) < length u"
  proof -
    from split_list_first [OF True] obtain a b where "u = a @ CHR '':'' # b" "CHR '':'' \<notin> set a" by blast
    moreover from this have "takeWhile (\<lambda>c. c \<noteq> CHR '':'') u = a" by (simp, subst takeWhile_append2) auto
    ultimately show ?thesis by simp
  qed
  ultimately show ?thesis using True by (simp add: after_scheme_def Let_def)
qed (use assms in \<open>simp add: after_scheme_def\<close>)

lemma host_part_slashes:
  assumes "host_part (r @ replicate k (CHR ''/'')) \<noteq> ''''"
  shows "host_part (r @ CHR ''/'' # t) = host_part (r @ replicate k (CHR ''/''))"
proof -
  have stop: "takeWhile (\<lambda>c. c \<notin> set ''/?#'') (replicate n (CHR ''/'')) = ''''" for n by (cases n) auto
  have long: "prefix ''//'' r"
  proof (rule ccontr)
    assume no: "\<not> prefix ''//'' r"
    show False
    proof (cases r)
      case Nil
      then show False using assms stop [of "k - 2"] by (auto simp: host_part_def drop_replicate)
    next
      case (Cons c cs)
      then show False using assms no stop [of "k - 1"] by (cases cs) (auto simp: host_part_def drop_replicate split: if_splits)
    qed
  qed
  then obtain h where h: "r = ''//'' @ h" by (auto simp: prefix_def)
  show ?thesis
  proof (cases "\<exists>c \<in> set h. c \<in> set ''/?#''")
    case True
    then obtain c where "c \<in> set h" "\<not> (c \<notin> set ''/?#'')" by blast
    then show ?thesis unfolding h host_part_def by (simp del: list.set add: takeWhile_append1)
  next
    case False
    then have "takeWhile (\<lambda>c. c \<notin> set ''/?#'') (h @ t') = h @ takeWhile (\<lambda>c. c \<notin> set ''/?#'') t'" for t'
      by (intro takeWhile_append2) blast
    then show ?thesis using stop [of k] unfolding h host_part_def by (simp del: list.set) simp
  qed
qed

text \<open>A callback derived from the public origin is on its host, whatever the origin looks like.\<close>

lemma derived_callback_host:
  assumes "host_part (after_scheme (url_clean origin)) \<noteq> ''''"
  shows "host_part (after_scheme (url_clean (strip_slash origin @ CALLBACK))) = host_part (after_scheme (url_clean origin))"
proof -
  obtain k where k: "origin = strip_slash origin @ replicate k (CHR ''/'')" using strip_slash_split by blast
  let ?a = "url_clean (strip_slash origin)"
  obtain t where t: "CALLBACK = CHR ''/'' # t" "CHR '':'' \<notin> set CALLBACK" "filter (\<lambda>c. c \<notin> {CHR 0x09, CHR 0x0A, CHR 0x0D}) CALLBACK = CALLBACK"
    by (simp add: CALLBACK_def)
  have slashes: "filter (\<lambda>c. c \<notin> {CHR 0x09, CHR 0x0A, CHR 0x0D}) (replicate k (CHR ''/'')) = replicate k (CHR ''/'')" by (auto intro: filter_True)
  have "url_clean origin = ?a @ replicate k (CHR ''/'')"
    using url_clean_split [of "replicate k (CHR ''/'')" "strip_slash origin"] k slashes by (cases k) auto
  moreover have "after_scheme (?a @ replicate k (CHR ''/'')) = after_scheme ?a @ replicate k (CHR ''/'')"
    by (rule after_scheme_append) auto
  ultimately have o: "after_scheme (url_clean origin) = after_scheme ?a @ replicate k (CHR ''/'')" by simp
  have "url_clean (strip_slash origin @ CALLBACK) = ?a @ CALLBACK" using url_clean_split [of CALLBACK "strip_slash origin"] t(3) by (simp add: CALLBACK_def)
  then have "after_scheme (url_clean (strip_slash origin @ CALLBACK)) = after_scheme ?a @ CALLBACK"
    using after_scheme_append [of ?a CALLBACK] t(2) by simp
  with o assms host_part_slashes [of "after_scheme ?a" k t] show ?thesis by (simp add: t(1))
qed

lemma derived_callback_no_warning:
  assumes "redirect_warnings c = ok ws" "\<not> truthy (cf_google_redirect_uri c)"
  shows "ws = []"
proof (rule ccontr)
  assume "ws \<noteq> []"
  with assms(1) obtain want got where w: "google_enabled c" "truthy (cf_public_origin c)" "netloc (the (cf_public_origin c)) = ok want"
    "netloc (effective_google_redirect_uri c) = ok got" "want \<noteq> ''''" "want \<noteq> got"
    by (auto simp: redirect_warnings_def split: if_splits)
  have u: "effective_google_redirect_uri c = strip_slash (the (cf_public_origin c)) @ CALLBACK"
    using assms(2) w(2) by (simp add: effective_google_redirect_uri_def)
  have "want = host_part (after_scheme (url_clean (the (cf_public_origin c))))" "got = host_part (after_scheme (url_clean (effective_google_redirect_uri c)))"
    using w(3,4) by (auto simp: netloc_def Let_def split: if_splits)
  with derived_callback_host [of "the (cf_public_origin c)"] w(5,6) u show False by simp
qed

section \<open>What a started process may rely on\<close>

text \<open>C32: A process that started is configured safely: on anything but SQLite its session key is no placeholder and has 32 characters, elsewhere a weak one
  is warned about; its storage is known and, for S3, complete; and a Google callback that is derived from the public origin never warrants the
  warning about the wrong host, however the origin is written.\<close>

theorem started_process_is_configured:
  assumes "lifespan parse answer c now d = ok (ws, w, d')"
  shows "(is_sqlite c \<or> 32 \<le> length (cf_jwt_secret c) \<and> cf_jwt_secret c \<notin> set KNOWN_WEAK) \<and>
    (WeakSecret \<in> set ws \<longleftrightarrow> jwt_weak c) \<and>
    (cf_storage_backend c = ''local'' \<or> cf_storage_backend c = ''s3'' \<and> cf_s3_bucket c \<noteq> '''' \<and> truthy (cf_s3_access_key c) \<and> truthy (cf_s3_secret_key c)) \<and>
    (truthy (cf_google_redirect_uri c) \<or> (\<forall>got want. RedirectHost got want \<notin> set ws)) \<and>
    d' = startup_reconcile parse c now d"
proof -
  have v: "validate_runtime c = ok ws" "d' = startup_reconcile parse c now d" using assms by (auto simp: lifespan_def)
  then obtain w2 where w2: "redirect_warnings c = ok w2" "storage_check c = ok ()" "\<not> (jwt_weak c \<and> \<not> is_sqlite c)"
    "ws = (if jwt_weak c then [WeakSecret] else []) @ (if truthy (cf_google_client_id c) \<noteq> truthy (cf_google_client_secret c) then [HalfGoogle] else []) @
       (if truthy (cf_feedback_github_token c) \<noteq> truthy (cf_feedback_github_repo c) then [HalfFeedback] else []) @
       (if truthy (cf_public_origin c) \<and> prefix ''https://'' (the (cf_public_origin c)) \<and> \<not> cf_cookie_secure c then [InsecureCookie] else []) @
       w2 @ (if \<not> is_sqlite c \<and> cf_inline_jobs c then [InlineJobs] else [])"
    by (auto simp: validate_runtime_def Let_def split: if_splits)
  have hosts: "\<exists>got want. x = RedirectHost got want" if "x \<in> set w2" for x
    using that w2(1) by (auto simp: redirect_warnings_def split: if_splits)
  then have "WeakSecret \<notin> set w2" by blast
  then have "WeakSecret \<in> set ws \<longleftrightarrow> jwt_weak c" by (simp add: w2(4))
  moreover have "truthy (cf_google_redirect_uri c) \<or> (\<forall>got want. RedirectHost got want \<notin> set ws)"
    using derived_callback_no_warning [OF w2(1)] by (auto simp: w2(4))
  moreover have "cf_storage_backend c = ''local'' \<or> cf_storage_backend c = ''s3'' \<and> cf_s3_bucket c \<noteq> '''' \<and> truthy (cf_s3_access_key c) \<and> truthy (cf_s3_secret_key c)"
    using w2(2) by (auto simp: storage_check_def split: if_splits)
  ultimately show ?thesis using w2(3) v(2) by (auto simp: jwt_weak_def)
qed


text \<open>A tick runs the monitor first and the purge only when that returns: the window that stops the monitor stops the purge with it, at every tick
  and whatever the retention asks for, and the tables it was to keep small grow on.\<close>

theorem naive_window_stops_retention:
  assumes "dep \<in> set (t_deployments d)" "dp_status dep \<noteq> ''paused''" "cached_reference dep d = Some (PDriftRef r)"
    and "ws = sort_key wn_start (filter (\<lambda>w. wn_deployment w = dp_id dep) (t_windows d))" "REF_WINDOWS < length ws"
    and "parse_ts (wn_start (last ws)) = Some (t, None)"
  shows "inline_monitor_loop c envs d = d"
proof -
  have "\<exists>e. run_monitor_once c env d = (d, Inl e)" for env
    using naive_window_stops_the_monitor [OF assms, of "monitor_settings_of c" env] by (auto simp: run_monitor_once_def)
  then have "fst (run_monitor_once c env d) = d" for env by (metis fst_conv)
  then show ?thesis by (induction envs) (auto simp: inline_monitor_loop_def)
qed

text \<open>The guard reads the announced length: a body sent in chunks has none and passes, whatever its length.\<close>

lemma chunked_body_is_not_refused: "\<not> body_refused c path http_method None"
  by (simp add: body_refused_def)

lemma allowed_exts_nonempty: "'''' \<notin> set (allowed_upload_ext_set c)"
  by (auto simp: allowed_upload_ext_set_def comma_list_def str_lower_def)

section \<open>Witnesses\<close>

theorem started_process_is_configured_witness:
  "lifespan fromisoformat_311 None default_settings 0 empty_db = ok ([WeakSecret], None, startup_reconcile fromisoformat_311 default_settings 0 empty_db) \<and>
   (is_sqlite default_settings \<or> 32 \<le> length (cf_jwt_secret default_settings))"
proof -
  have v: "validate_runtime default_settings = ok [WeakSecret]" "github_feedback_enabled default_settings = False" by code_simp+
  then have l: "lifespan fromisoformat_311 None default_settings 0 empty_db
      = ok ([WeakSecret], None, startup_reconcile fromisoformat_311 default_settings 0 empty_db)"
    by (simp add: lifespan_def check_feedback_github_reachable_def)
  show ?thesis using started_process_is_configured [OF l] l by blast
qed

definition stale_run :: ingestion_run_row where
  "stale_run = \<lparr>ir_id = ''ing_1'', ir_user = ''u'', ir_model = ''m'', ir_file = ''net.onnx'', ir_started = iso 0,
     ir_status = ''streaming'', ir_progress = 40, ir_error = None, ir_finished = None\<rparr>"

definition stale_db :: db where
  "stale_db = empty_db\<lparr>t_ingestions := [stale_run], t_models := [demo_model\<lparr>md_status := ''analyzing'', md_run := Some ''ing_1''\<rparr>]\<rparr>"


theorem allowed_exts_default: "''.onnx'' \<in> set (allowed_upload_ext_set default_settings) \<and> length (allowed_upload_ext_set default_settings) = 14"
  by code_simp

end
