(* ===== verification/System_Probe.thy ===== *)
theory System_Probe
  imports Sdk_Reporter
begin

text \<open>
  What a device says about itself, \<open>astra_sdk/system.py\<close>, and the background loop of the reporter that asks for it, \<open>_loop\<close> and \<open>close\<close> in
  \<open>astra_sdk/telemetry.py\<close>.  The machine is a record of what psutil, the standard library, onnxruntime and NVIDIA's library answer, each of which
  may be missing or raise; the handle of that library is cached in the module.  The lemmas show what a sample holds when the optional libraries are
  missing, and what a sample that raises does to the loop around it.
\<close>

section \<open>The machine\<close>

datatype probe_error = POSError | PValueError | PAttributeError | PImportError | PIndexError | PTimeoutExpired

type_synonym 'a probe = "probe_error + 'a"

record psutil_view =
  ps_cpu :: real
  ps_rss :: nat
  ps_count :: "nat option"
  ps_total :: nat

record nvml_lib =
  nv_count :: "int probe"
  nv_handle :: "unit probe"
  nv_name :: "string probe"
  nv_mem :: "(nat \<times> nat) probe"       \<comment> \<open>in all and used\<close>
  nv_driver :: "string probe"
  nv_cuda :: "nat probe"
  nv_util :: "nat probe"
  nv_temp :: "nat probe"

record host =
  ho_psutil :: "psutil_view option"
  ho_loadavg :: "real probe"
  ho_cpu_count :: "nat option"
  ho_maxrss :: "real probe"
  ho_pages :: "(nat \<times> nat) probe"
  ho_platform :: string
  ho_processor :: string
  ho_machine :: string
  ho_system :: string
  ho_python :: string
  ho_name :: string
  ho_cpuinfo :: "string list probe"
  ho_sysctl :: "string probe"
  ho_ort :: "(string \<times> string list) option"
  ho_nvml :: "nvml_lib probe"            \<comment> \<open>import and \<open>nvmlInit\<close>\<close>

datatype nvml_cache = Untried | Disabled | Loaded nvml_lib

section \<open>The processor and the memory\<close>

definition or_zero :: "nat option \<Rightarrow> nat" where
  "or_zero n = (case n of None \<Rightarrow> 0 | Some k \<Rightarrow> k)"

definition cpu_pct :: "host \<Rightarrow> real probe" where
  "cpu_pct h =
     (case ho_psutil h of
        Some p \<Rightarrow> Inr (ps_cpu p)
      | None \<Rightarrow> (case ho_loadavg h of
            Inr load \<Rightarrow> Inr (py_round 1 (min 100 (100 * load / of_nat (max 1 (or_zero (ho_cpu_count h))))))
          | Inl e \<Rightarrow> if e = POSError then Inr 0 else Inl e))"

definition rss_mb :: "host \<Rightarrow> real probe" where
  "rss_mb h =
     (case ho_psutil h of
        Some p \<Rightarrow> Inr (py_round 1 (of_nat (ps_rss p) / 1000000))
      | None \<Rightarrow> map_sum id (\<lambda>m. py_round 1 (m / (if ho_platform h = ''darwin'' then 1000000 else 1000))) (ho_maxrss h))"

text \<open>\<open>line.split(":", 1)[1].strip()\<close>.\<close>

definition after_colon :: "string \<Rightarrow> string probe" where
  "after_colon s = (case dropWhile (\<lambda>c. c \<noteq> CHR '':'') s of [] \<Rightarrow> Inl PIndexError | _ # rest \<Rightarrow> Inr (str_strip rest))"

definition cpuinfo_name :: "string \<Rightarrow> string list \<Rightarrow> string probe" where
  "cpuinfo_name name ls = (case find (\<lambda>l. prefix ''model name'' (str_lower l)) ls of None \<Rightarrow> Inr name | Some l \<Rightarrow> after_colon l)"

definition linux_name :: "host \<Rightarrow> string \<Rightarrow> string probe" where
  "linux_name h name = (case ho_cpuinfo h of Inl e \<Rightarrow> if e = POSError then Inr name else Inl e | Inr ls \<Rightarrow> cpuinfo_name name ls)"

definition darwin_name :: "host \<Rightarrow> string \<Rightarrow> string probe" where
  "darwin_name h name =
     (case ho_sysctl h of
        Inl e \<Rightarrow> if e \<in> {POSError, PValueError} then Inr name else Inl e
      | Inr out \<Rightarrow> Inr (if str_strip out \<noteq> '''' then str_strip out else name))"

definition generic_name :: "host \<Rightarrow> bool" where
  "generic_name h \<longleftrightarrow> ho_processor h = '''' \<or> str_lower (ho_processor h) \<in> {str_lower (ho_machine h), ''arm'', ''i386'', ''x86_64''}"

definition cpu_model :: "host \<Rightarrow> string probe" where
  "cpu_model h = map_sum id (\<lambda>name. take 96 (if name \<noteq> '''' then name else ho_machine h))
     (if generic_name h \<and> prefix ''linux'' (ho_platform h) then linux_name h (ho_processor h)
      else if generic_name h \<and> ho_platform h = ''darwin'' then darwin_name h (ho_processor h)
      else Inr (ho_processor h))"

definition cpu_cores :: "host \<Rightarrow> nat" where
  "cpu_cores h =
     (case ho_psutil h of
        Some p \<Rightarrow> if or_zero (ps_count p) \<noteq> 0 then or_zero (ps_count p) else or_zero (ho_cpu_count h)
      | None \<Rightarrow> or_zero (ho_cpu_count h))"

definition ram_total_mb :: "host \<Rightarrow> real probe" where
  "ram_total_mb h =
     (case ho_psutil h of
        Some p \<Rightarrow> Inr (py_round 1 (of_nat (ps_total p) / 1000000))
      | None \<Rightarrow> (case ho_pages h of
            Inr (page, n) \<Rightarrow> Inr (py_round 1 (of_nat (page * n) / 1000000))
          | Inl e \<Rightarrow> if e \<in> {PValueError, POSError, PAttributeError} then Inr 0 else Inl e))"

definition ort_version :: "host \<Rightarrow> string" where
  "ort_version h = (case ho_ort h of None \<Rightarrow> '''' | Some (v, _) \<Rightarrow> v)"

definition available_providers :: "host \<Rightarrow> string list" where
  "available_providers h = (case ho_ort h of None \<Rightarrow> [] | Some (_, ps) \<Rightarrow> ps)"

definition first_provider :: "host \<Rightarrow> string" where
  "first_provider h = (case available_providers h of [] \<Rightarrow> '''' | p # _ \<Rightarrow> p)"

section \<open>The accelerator\<close>

text \<open>The first failure switches the library off for the rest of the process.\<close>

definition nvml :: "host \<Rightarrow> nvml_cache \<Rightarrow> nvml_lib option \<times> nvml_cache" where
  "nvml h c =
     (case c of
        Disabled \<Rightarrow> (None, Disabled)
      | Loaded l \<Rightarrow> (Some l, Loaded l)
      | Untried \<Rightarrow> (case ho_nvml h of Inl _ \<Rightarrow> (None, Disabled) | Inr l \<Rightarrow> (Some l, Loaded l)))"

definition cuda_text :: "nat \<Rightarrow> string" where
  "cuda_text raw = str_of_nat (raw div 1000) @ ''.'' @ str_of_nat (raw mod 1000 div 10)"

definition or_blank :: "string probe \<Rightarrow> string" where
  "or_blank p = (case p of Inl _ \<Rightarrow> '''' | Inr s \<Rightarrow> s)"

definition gpu_static :: "nvml_lib \<Rightarrow> (client_snapshot \<Rightarrow> client_snapshot)" where
  "gpu_static l =
     (case nv_count l of
        Inl _ \<Rightarrow> id
      | Inr n \<Rightarrow>
          if n \<le> 0 then id
          else case (nv_handle l, nv_name l, nv_mem l) of
              (Inr _, Inr name, Inr (all_bytes, _)) \<Rightarrow>
                (\<lambda>s. s\<lparr>cs_gpu_name := take 96 name, cs_gpu_count := n, cs_gpu_mem_total := py_round 1 (of_nat all_bytes / 1000000),
                       cs_cuda := or_blank (map_sum id cuda_text (nv_cuda l)), cs_driver := take 32 (or_blank (nv_driver l))\<rparr>)
            | _ \<Rightarrow> id)"

definition gpu_sample :: "nvml_lib \<Rightarrow> (client_snapshot \<Rightarrow> client_snapshot)" where
  "gpu_sample l =
     (case (nv_handle l, nv_util l, nv_mem l) of
        (Inr _, Inr util, Inr (_, used_bytes)) \<Rightarrow>
          (\<lambda>s. s\<lparr>cs_gpu_util := Some (of_nat util), cs_gpu_mem_used := Some (py_round 1 (of_nat used_bytes / 1000000)),
                 cs_gpu_temp := (case nv_temp l of Inl _ \<Rightarrow> cs_gpu_temp s | Inr t \<Rightarrow> Some (of_nat t))\<rparr>)
      | _ \<Rightarrow> id)"

section \<open>Fingerprint and sample\<close>

text \<open>The intake's default for every field that a snapshot does not name.\<close>

definition blank_snapshot :: client_snapshot where
  "blank_snapshot = \<lparr>cs_ts = '''', cs_cpu = 0, cs_rss = 0, cs_throughput = 0, cs_dropped = 0, cs_sdk_version = '''', cs_python = '''', cs_ort = '''',
     cs_os = '''', cs_arch = '''', cs_provider = '''', cs_host = '''', cs_cpu_model = '''', cs_cpu_cores = 0, cs_ram_total = 0,
     cs_available_providers = '''', cs_active_provider = '''', cs_gpu_name = '''', cs_gpu_count = 0, cs_gpu_mem_total = 0, cs_cuda = '''', cs_driver = '''',
     cs_gpu_util = None, cs_gpu_mem_used = None, cs_gpu_temp = None\<rparr>"

definition apply_gpu :: "(nvml_lib \<Rightarrow> client_snapshot \<Rightarrow> client_snapshot) \<Rightarrow> nvml_lib option \<Rightarrow> client_snapshot \<Rightarrow> client_snapshot" where
  "apply_gpu f l = (case l of None \<Rightarrow> id | Some x \<Rightarrow> f x)"

definition runtime_fingerprint :: "string \<Rightarrow> string option \<Rightarrow> host \<Rightarrow> nvml_cache \<Rightarrow> client_snapshot probe \<times> nvml_cache" where
  "runtime_fingerprint sdk active h c =
     (case cpu_model h of
        Inl e \<Rightarrow> (Inl e, c)
      | Inr model \<Rightarrow> (case ram_total_mb h of
            Inl e \<Rightarrow> (Inl e, c)
          | Inr ram \<Rightarrow>
              (let (l, c1) = nvml h c
               in (Inr (apply_gpu gpu_static l (blank_snapshot\<lparr>cs_sdk_version := sdk, cs_python := ho_python h, cs_ort := ort_version h,
                     cs_os := ho_system h, cs_arch := ho_machine h, cs_provider := first_provider h, cs_host := ho_name h,
                     cs_cpu_model := model, cs_cpu_cores := int (cpu_cores h), cs_ram_total := ram,
                     cs_available_providers := join '','' (available_providers h),
                     cs_active_provider := (if or_empty active '''' \<noteq> '''' then or_empty active '''' else first_provider h)\<rparr>)), c1))))"

text \<open>A sample on top of the fingerprint: the fields of both in one object.\<close>

definition system_sample :: "host \<Rightarrow> nvml_cache \<Rightarrow> client_snapshot \<Rightarrow> client_snapshot probe \<times> nvml_cache" where
  "system_sample h c fp =
     (case cpu_pct h of
        Inl e \<Rightarrow> (Inl e, c)
      | Inr cpu \<Rightarrow> (case rss_mb h of
            Inl e \<Rightarrow> (Inl e, c)
          | Inr rss \<Rightarrow> (let (l, c1) = nvml h c in (Inr (apply_gpu gpu_sample l (fp\<lparr>cs_cpu := cpu, cs_rss := rss\<rparr>)), c1))))"

section \<open>The background loop\<close>

definition SNAPSHOT_INTERVAL :: real where "SNAPSHOT_INTERVAL = 30"
definition WINDOW_INTERVAL :: real where "WINDOW_INTERVAL = 60"

text \<open>The state of the loop: when the last snapshot and window were taken, the reporter and the world behind the network.\<close>

type_synonym 'w loop_state = "real \<times> real \<times> reporter \<times> 'w"

text \<open>The marker of the rate moves before the sample is taken.\<close>

definition failed_snapshot :: "real \<Rightarrow> reporter \<Rightarrow> reporter" where
  "failed_snapshot clock r = r\<lparr>rp_marker := (clock, rp_sent r)\<rparr>"

definition loop_rest ::
  "(batch option \<Rightarrow> nat) \<Rightarrow> instant \<Rightarrow> bool \<Rightarrow> string \<Rightarrow> (batch \<Rightarrow> 'w \<Rightarrow> reply \<times> 'w) \<Rightarrow> real \<Rightarrow> client_window option \<Rightarrow> 'w loop_state \<Rightarrow> 'w loop_state" where
  "loop_rest fsize now disk i post clock stats = (\<lambda>(last_snapshot, last_window, r, w).
     (let due = WINDOW_INTERVAL \<le> clock - last_window \<or> WINDOW_MAX_REQUESTS \<le> rp_window_requests r;
          (_, r1, w1) = flush fsize now disk i post (if due then take_window stats r else r) w
      in (last_snapshot, if due then clock else last_window, r1, w1)))"

definition loop_tick ::
  "(batch option \<Rightarrow> nat) \<Rightarrow> instant \<Rightarrow> bool \<Rightarrow> string \<Rightarrow> (batch \<Rightarrow> 'w \<Rightarrow> reply \<times> 'w) \<Rightarrow> real \<Rightarrow> client_snapshot probe \<Rightarrow> client_window option
     \<Rightarrow> 'w loop_state \<Rightarrow> 'w loop_state" where
  "loop_tick fsize now disk i post clock sample stats = (\<lambda>(last_snapshot, last_window, r, w).
     if SNAPSHOT_INTERVAL \<le> clock - last_snapshot
     then case sample of
         Inl _ \<Rightarrow> (last_snapshot, last_window, failed_snapshot clock r, w)
       | Inr s \<Rightarrow> loop_rest fsize now disk i post clock stats (clock, last_window, take_snapshot clock now s r, w)
     else loop_rest fsize now disk i post clock stats (last_snapshot, last_window, r, w))"

definition close_probed ::
  "(batch option \<Rightarrow> nat) \<Rightarrow> real \<Rightarrow> instant \<Rightarrow> client_snapshot probe \<Rightarrow> client_window option \<Rightarrow> bool \<Rightarrow> string \<Rightarrow> nat
     \<Rightarrow> (batch \<Rightarrow> 'w \<Rightarrow> reply \<times> 'w) \<Rightarrow> reporter \<Rightarrow> 'w \<Rightarrow> reporter \<times> 'w" where
  "close_probed fsize clock now sample stats disk i tries post r w =
     (if \<not> rp_enabled r \<or> rp_closed r then (r, w)
      else case sample of
          Inl _ \<Rightarrow> (failed_snapshot clock (r\<lparr>rp_closed := True\<rparr>), w)
        | Inr s \<Rightarrow> close_reporter fsize clock now s stats disk i tries post r w)"

text \<open>What happens to a reporter: its program records requests, its thread ticks.\<close>

datatype device_op = Recorded instant client_event "client_window option" | Ticked real instant bool string "client_snapshot probe" "client_window option"

definition device_step :: "(batch option \<Rightarrow> nat) \<Rightarrow> (batch \<Rightarrow> 'w \<Rightarrow> reply \<times> 'w) \<Rightarrow> device_op \<Rightarrow> 'w loop_state \<Rightarrow> 'w loop_state" where
  "device_step fsize post op st =
     (case op of
        Recorded now e stats \<Rightarrow> (case st of (ls, lw, r, w) \<Rightarrow> (ls, lw, record_event now e stats r, w))
      | Ticked clock now disk i sample stats \<Rightarrow> loop_tick fsize now disk i post clock sample stats st)"

section \<open>What a sample holds\<close>

lemma py_round_pct:
  assumes "0 \<le> x"
  shows "0 \<le> py_round 1 (min 100 x) \<and> py_round 1 (min 100 x) \<le> 100"
  using assms py_round_le_numeral [of "min 100 x" "num.Bit0 (num.Bit0 (num.Bit1 (num.Bit0 (num.Bit0 (num.Bit1 num.One)))))" 1]
  by (auto intro: py_round_nonneg)

text \<open>Without the optional libraries a machine whose standard library answers is still sampled: the load as a percentage, the memory, and none of
  the accelerator's fields; the failed import is remembered, so later samples of the process do not try again.\<close>

theorem sample_falls_back:
  assumes "ho_psutil h = None" "ho_nvml h = Inl x" "ho_maxrss h = Inr m" "0 \<le> m"
    and "ho_loadavg h = Inl POSError \<or> (\<exists>load \<ge> 0. ho_loadavg h = Inr load)" "c \<in> {Untried, Disabled}"
    and "cs_gpu_util fp = None" "cs_gpu_mem_used fp = None" "cs_gpu_temp fp = None"
  shows "\<exists>s. system_sample h c fp = (Inr s, Disabled) \<and> 0 \<le> cs_cpu s \<and> cs_cpu s \<le> 100 \<and> 0 \<le> cs_rss s \<and>
    cs_gpu_util s = None \<and> cs_gpu_mem_used s = None \<and> cs_gpu_temp s = None \<and>
    (\<forall>l. system_sample (h\<lparr>ho_nvml := Inr l\<rparr>) Disabled fp = (Inr s, Disabled))"
proof -
  have n: "nvml h c = (None, Disabled)" using assms(2,6) by (auto simp: nvml_def)
  obtain rss where rss: "rss_mb h = Inr rss" "0 \<le> rss" using assms(1,3,4) py_round_nonneg [of "m / (if ho_platform h = ''darwin'' then 1000000 else 1000)" 1]
    by (auto simp: rss_mb_def)
  obtain cpu where cpu: "cpu_pct h = Inr cpu" "0 \<le> cpu" "cpu \<le> 100"
    using assms(1,5) py_round_pct by (auto simp: cpu_pct_def)
  have "cpu_pct (h\<lparr>ho_nvml := y\<rparr>) = cpu_pct h" "rss_mb (h\<lparr>ho_nvml := y\<rparr>) = rss_mb h" "nvml (h\<lparr>ho_nvml := y\<rparr>) Disabled = (None, Disabled)" for y
    by (simp_all add: cpu_pct_def rss_mb_def nvml_def split: option.split sum.split)
  then show ?thesis using n rss cpu assms(7-9) by (simp add: system_sample_def apply_gpu_def)
qed

text \<open>On a system without a load average, Windows, psutil is not optional: every sample raises.\<close>

lemma sample_needs_psutil:
  "ho_psutil h = None \<Longrightarrow> ho_loadavg h = Inl PAttributeError \<Longrightarrow> system_sample h c fp = (Inl PAttributeError, c)"
  by (simp add: system_sample_def cpu_pct_def)

text \<open>A sysctl that does not answer in its second raises an exception that is not among the caught ones, and the reporter cannot be built.\<close>

lemma slow_sysctl_raises:
  assumes "generic_name h" "ho_platform h = ''darwin''" "ho_sysctl h = Inl PTimeoutExpired"
  shows "runtime_fingerprint sdk active h c = (Inl PTimeoutExpired, c)"
  using assms by (simp add: runtime_fingerprint_def cpu_model_def darwin_name_def prefix_def)

section \<open>What a sample does to the loop\<close>

text \<open>A tick whose sample is taken, or not due, sends what is queued; the queue of events is the same when it does.\<close>

lemma tick_flushes:
  assumes "loop_tick fsize now disk i post clock sample stats (ls, lw, r, w) = (ls', lw', r', w')"
    and "SNAPSHOT_INTERVAL \<le> clock - ls \<longrightarrow> (\<exists>s. sample = Inr s)"
  shows "\<exists>r1 fin. flush fsize now disk i post r1 w = (fin, r', w') \<and> rp_events r1 = rp_events r \<and> rp_spool r1 = rp_spool r \<and> rp_mem r1 = rp_mem r"
proof -
  have rest: "\<exists>r1 fin. flush fsize now disk i post r1 w = (fin, r', w') \<and> rp_events r1 = rp_events r0 \<and> rp_spool r1 = rp_spool r0 \<and> rp_mem r1 = rp_mem r0"
    if "loop_rest fsize now disk i post clock stats (l, lw, r0, w) = (ls', lw', r', w')" for l r0
    using that by (intro exI [of _ "if WINDOW_INTERVAL \<le> clock - lw \<or> WINDOW_MAX_REQUESTS \<le> rp_window_requests r0 then take_window stats r0 else r0"])
      (auto simp: loop_rest_def Let_def take_window_def split: prod.splits option.splits if_splits)
  have "rp_events (take_snapshot clock now s r) = rp_events r \<and> rp_spool (take_snapshot clock now s r) = rp_spool r \<and> rp_mem (take_snapshot clock now s r) = rp_mem r" for s
    by (simp add: take_snapshot_def Let_def)
  then show ?thesis using assms rest by (auto simp: loop_tick_def split: if_splits sum.splits) metis
qed

definition unsampled :: "real \<Rightarrow> device_op \<Rightarrow> bool" where
  "unsampled ls op = (case op of Recorded _ _ _ \<Rightarrow> True | Ticked clock _ _ _ sample _ \<Rightarrow> SNAPSHOT_INTERVAL \<le> clock - ls \<and> (\<exists>e. sample = Inl e))"

text \<open>A device whose sample raises goes silent: from the first snapshot on no tick sends or stores anything, because the exception skips the flush and the
  time of the last snapshot stays, and closing does neither: the requests it serves are lost, without a log line.\<close>

theorem unsampled_device_is_silent:
  assumes "\<forall>op \<in> set ops. unsampled ls op" "foldl (\<lambda>st op. device_step fsize post op st) (ls, lw, r, w) ops = (ls', lw', r', w')"
    and "close_probed fsize clock now (Inl e) stats disk i tries post r' w' = (r'', w'')"
  shows "w'' = w \<and> rp_spool r'' = rp_spool r \<and> rp_mem r'' = rp_mem r"
proof -
  have rec: "rp_spool (record_event n ev st r) = rp_spool r \<and> rp_mem (record_event n ev st r) = rp_mem r" for n ev st r
    by (simp add: record_event_def take_window_def Let_def split: option.split)
  have "w' = w \<and> rp_spool r' = rp_spool r \<and> rp_mem r' = rp_mem r"
    using assms(1,2)
  proof (induction ops arbitrary: lw r w)
    case (Cons op ops)
    obtain lw1 r1 where "device_step fsize post op (ls, lw, r, w) = (ls, lw1, r1, w)" "rp_spool r1 = rp_spool r" "rp_mem r1 = rp_mem r"
      using Cons.prems(1) rec by (cases op) (auto simp: device_step_def unsampled_def loop_tick_def failed_snapshot_def)
    then show ?case using Cons.IH [of lw1 r1 w] Cons.prems by simp
  qed simp
  moreover have "w'' = w' \<and> rp_spool r'' = rp_spool r' \<and> rp_mem r'' = rp_mem r'"
    using assms(3) by (auto simp: close_probed_def failed_snapshot_def split: if_splits)
  ultimately show ?thesis by simp
qed

definition bare_host :: host where
  "bare_host = \<lparr>ho_psutil = None, ho_loadavg = Inr 3, ho_cpu_count = Some 2, ho_maxrss = Inr 52000, ho_pages = Inr (4096, 1000000), ho_platform = ''linux'',
     ho_processor = '''', ho_machine = ''x86_64'', ho_system = ''Linux'', ho_python = ''3.11.9'', ho_name = ''box'',
     ho_cpuinfo = Inr [''processor : 0'', ''model name : Xeon E5''], ho_sysctl = Inl POSError, ho_ort = Some (''1.18.1'', [''CPUExecutionProvider'']),
     ho_nvml = Inl PImportError\<rparr>"

lemma cpuinfo_example: "cpuinfo_name '''' [''processor : 0'', ''model name : Xeon E5''] = Inr ''Xeon E5''"
  by code_simp

theorem sample_falls_back_witness:
  "\<exists>s. system_sample bare_host Untried blank_snapshot = (Inr s, Disabled) \<and> cs_cpu s \<le> 100 \<and> cs_gpu_util s = None"
proof -
  have h: "ho_psutil bare_host = None" "ho_nvml bare_host = Inl PImportError" "ho_maxrss bare_host = Inr 52000" "ho_loadavg bare_host = Inr 3"
    by (simp_all add: bare_host_def)
  have b: "cs_gpu_util blank_snapshot = None" "cs_gpu_mem_used blank_snapshot = None" "cs_gpu_temp blank_snapshot = None"
    by (simp_all add: blank_snapshot_def)
  have l: "ho_loadavg bare_host = Inl POSError \<or> (\<exists>load \<ge> 0. ho_loadavg bare_host = Inr load)" using h(4) by (intro disjI2 exI [of _ 3]) simp
  have u: "Untried \<in> {Untried, Disabled}" by simp
  show ?thesis using sample_falls_back [OF h(1,2,3) _ l u b] by force
qed

end
