(* ===== verification/Traffic_Sim.thy ===== *)
theory Traffic_Sim
  imports Drift_Monitor Telemetry_Agg
begin

text \<open>
  The demo traffic, \<open>app/services/traffic_sim.py\<close>, and the handler that asks for it, \<open>simulate\<close> in \<open>app/routers/telemetry.py\<close>: a burst of requests with
  incidents, and a fleet of five hosts with requests, snapshots and windows.  Every random number is an argument, drawn from the half-open unit
  interval or, where the code calls \<open>gauss\<close>, any real.  The theorem shows that the intake would have written the fleet's rows for batches of five devices.
\<close>

section \<open>Draws\<close>

record draws =
  dr_frac :: real
  dr_accept :: real
  dr_again :: real
  dr_jitter :: real                  \<comment> \<open>of the normal distribution\<close>
  dr_factor :: "nat \<Rightarrow> real"         \<comment> \<open>per incident\<close>
  dr_error :: "nat \<Rightarrow> real"
  dr_pre :: real
  dr_post :: real

definition unit_draw :: "real \<Rightarrow> bool" where
  "unit_draw u \<longleftrightarrow> 0 \<le> u \<and> u < 1"

definition uniform :: "real \<Rightarrow> real \<Rightarrow> real \<Rightarrow> real" where
  "uniform a b u = a + (b - a) * u"

section \<open>When a request happens\<close>

definition hours_delta :: "real \<Rightarrow> int" where
  "hours_delta x = round_half_even (x * of_int HOUR)"

definition sim_time :: "instant \<Rightarrow> int \<Rightarrow> real \<Rightarrow> instant" where
  "sim_time now hours x = now - hours * HOUR + hours_delta x"

definition pick_incidents :: "instant \<Rightarrow> int \<Rightarrow> (string \<times> real \<times> real) list \<Rightarrow> (instant \<times> instant \<times> string) list" where
  "pick_incidents now hours sampled = map (\<lambda>(kind, u, v).
     (let w0 = sim_time now hours (uniform (1 / 5) (of_int hours - 3 / 5) u)
      in (w0, w0 + round_half_even (uniform 12 30 v * of_int MINUTE), kind))) sampled"

definition diurnal_weight :: "instant \<Rightarrow> real" where
  "diurnal_weight t =
     (let h = of_int (t mod DAY div HOUR) + of_int (t mod HOUR div MINUTE) / 60
      in 9 / 20 + 11 / 20 * (1 / 2 - 1 / 2 * cos ((h - 3) / 24 * 2 * pi)))"

definition pick_time :: "instant \<Rightarrow> int \<Rightarrow> draws \<Rightarrow> instant" where
  "pick_time now hours dr =
     (let t = sim_time now hours (of_int hours * dr_frac dr)
      in if dr_accept dr > diurnal_weight t then sim_time now hours (of_int hours * dr_again dr) else t)"

section \<open>A burst\<close>

definition base_latency :: "real option \<Rightarrow> real" where
  "base_latency p50 = (case p50 of None \<Rightarrow> 5 | Some x \<Rightarrow> if x = 0 then 5 else x)"

text \<open>The effect of one incident on the latency and the outcome.\<close>

definition apply_incident :: "instant \<Rightarrow> draws \<Rightarrow> nat \<times> instant \<times> instant \<times> string \<Rightarrow> real \<times> bool \<Rightarrow> real \<times> bool" where
  "apply_incident ts dr = (\<lambda>(i, w0, w1, kind) (lat, success).
     if w0 \<le> ts \<and> ts < w1
     then if kind = ''latency'' then (lat * uniform 3 6 (dr_factor dr i), success)
          else if kind = ''errors'' \<and> dr_error dr i < 3 / 10 then (0, False) else (lat, success)
     else (lat, success))"

definition sim_row :: "deployment_row \<Rightarrow> model_row \<Rightarrow> string \<Rightarrow> real \<Rightarrow> bool \<Rightarrow> event_row" where
  "sim_row dep m ts lat success =
     \<lparr>ev_user = md_user m, ev_model = md_id m, ev_deployment = dp_id dep, ev_ts = ts, ev_latency = py_round 3 lat, ev_success = success,
      ev_error = (if success then None else Some ''inference_error''), ev_batch_size = 1, ev_region = dp_region dep, ev_source = ''client'',
      ev_pre = None, ev_post = None, ev_client = None, ev_input_sig = None\<rparr>"

definition burst_event :: "deployment_row \<Rightarrow> model_row \<Rightarrow> real \<Rightarrow> instant \<Rightarrow> int \<Rightarrow> (instant \<times> instant \<times> string) list \<Rightarrow> draws \<Rightarrow> event_row" where
  "burst_event dep m base now hours windows dr =
     (let ts = pick_time now hours dr;
          (lat, success) = fold (apply_incident ts dr) (enumerate 0 windows) (base * exp (dr_jitter dr), True)
      in sim_row dep m (iso ts) lat success)"

record burst_summary =
  bs_deployment :: string
  bs_events :: nat
  bs_errors :: nat
  bs_incidents :: "string list"

definition simulate_burst ::
  "(payload \<Rightarrow> real option) \<Rightarrow> instant \<Rightarrow> int \<Rightarrow> int \<Rightarrow> bool \<Rightarrow> (string \<times> real \<times> real) list \<Rightarrow> (nat \<Rightarrow> draws) \<Rightarrow> deployment_row \<Rightarrow> model_row \<Rightarrow> db
     \<Rightarrow> db \<times> burst_summary" where
  "simulate_burst p50_of now n_events hours incidents sampled draw dep m d =
     (let bench = find (\<lambda>r. rc_model r = md_id m \<and> rc_kind r = ''benchmark'') (t_cache d);
          base = base_latency (case bench of None \<Rightarrow> None | Some r \<Rightarrow> p50_of (rc_payload r));
          windows = (if incidents then pick_incidents now hours sampled else []);
          rows = map (\<lambda>i. burst_event dep m base now hours windows (draw i)) [0..<nat n_events]
      in (d\<lparr>t_events := t_events d @ rows\<rparr>,
          \<lparr>bs_deployment = dp_id dep, bs_events = length rows, bs_errors = length (filter (\<lambda>e. \<not> ev_success e) rows),
           bs_incidents = map (\<lambda>(_, _, k). k) windows\<rparr>))"

section \<open>A fleet\<close>

record fleet_profile =
  fp_host :: string
  fp_infer :: real
  fp_cpu :: "real \<times> real"
  fp_gpu :: "((real \<times> real) \<times> (real \<times> real) \<times> (real \<times> real)) option"
  fp_runtime :: "(string \<times> json) list"

definition FLEET :: "fleet_profile list" where
  "FLEET = [
     \<lparr>fp_host = ''ip-10-0-3-12.gpu'', fp_infer = 19 / 10, fp_cpu = (8, 16), fp_gpu = Some ((62, 84), (2600, 3400), (54, 68)),
      fp_runtime =
       [(''os'', JStr ''Linux''), (''arch'', JStr ''x86_64''), (''provider'', JStr ''CUDAExecutionProvider''),
        (''activeProvider'', JStr ''CUDAExecutionProvider''),
        (''availableProviders'', JStr ''TensorrtExecutionProvider,CUDAExecutionProvider,CPUExecutionProvider''),
        (''cpuModel'', JStr ''Intel Xeon Platinum 8259CL''), (''cpuCores'', JNum 8), (''ramTotalMb'', JNum 32000),
        (''gpuName'', JStr ''NVIDIA A10G''), (''gpuCount'', JNum 1), (''gpuMemTotalMb'', JNum 24000), (''cudaVersion'', JStr ''12.4''),
        (''driverVersion'', JStr ''550.90.07''), (''ort'', JStr ''1.18.1''), (''python'', JStr ''3.11.9'')]\<rparr>,
     \<lparr>fp_host = ''ip-10-0-4-21.gpu'', fp_infer = 16 / 5, fp_cpu = (10, 18), fp_gpu = Some ((48, 72), (1900, 2600), (49, 63)),
      fp_runtime =
       [(''os'', JStr ''Linux''), (''arch'', JStr ''x86_64''), (''provider'', JStr ''CUDAExecutionProvider''),
        (''activeProvider'', JStr ''CUDAExecutionProvider''), (''availableProviders'', JStr ''CUDAExecutionProvider,CPUExecutionProvider''),
        (''cpuModel'', JStr ''Intel Xeon E5-2686 v4''), (''cpuCores'', JNum 4), (''ramTotalMb'', JNum 16000),
        (''gpuName'', JStr ''NVIDIA T4''), (''gpuCount'', JNum 1), (''gpuMemTotalMb'', JNum 16000), (''cudaVersion'', JStr ''12.2''),
        (''driverVersion'', JStr ''535.161.08''), (''ort'', JStr ''1.18.1''), (''python'', JStr ''3.10.14'')]\<rparr>,
     \<lparr>fp_host = ''edge-snapdragon.local'', fp_infer = 23 / 5, fp_cpu = (18, 34), fp_gpu = None,
      fp_runtime =
       [(''os'', JStr ''Linux''), (''arch'', JStr ''aarch64''), (''provider'', JStr ''QNNExecutionProvider''),
        (''activeProvider'', JStr ''QNNExecutionProvider''), (''availableProviders'', JStr ''QNNExecutionProvider,CPUExecutionProvider''),
        (''cpuModel'', JStr ''Qualcomm Snapdragon 8 Gen 3''), (''cpuCores'', JNum 8), (''ramTotalMb'', JNum 12000),
        (''ort'', JStr ''1.18.1''), (''python'', JStr ''3.11.8'')]\<rparr>,
     \<lparr>fp_host = ''edge-m3.local'', fp_infer = 34 / 5, fp_cpu = (22, 38), fp_gpu = None,
      fp_runtime =
       [(''os'', JStr ''Darwin''), (''arch'', JStr ''arm64''), (''provider'', JStr ''CoreMLExecutionProvider''),
        (''activeProvider'', JStr ''CoreMLExecutionProvider''),
        (''availableProviders'', JStr ''CoreMLExecutionProvider,CPUExecutionProvider''), (''cpuModel'', JStr ''Apple M3''),
        (''cpuCores'', JNum 8), (''ramTotalMb'', JNum 16000), (''ort'', JStr ''1.18.0''), (''python'', JStr ''3.12.4'')]\<rparr>,
     \<lparr>fp_host = ''ip-10-0-1-9.cpu'', fp_infer = 55 / 2, fp_cpu = (55, 80), fp_gpu = None,
      fp_runtime =
       [(''os'', JStr ''Linux''), (''arch'', JStr ''x86_64''), (''provider'', JStr ''CPUExecutionProvider''),
        (''activeProvider'', JStr ''CPUExecutionProvider''), (''availableProviders'', JStr ''CPUExecutionProvider''),
        (''cpuModel'', JStr ''Intel Xeon Platinum 8375C''), (''cpuCores'', JNum 2), (''ramTotalMb'', JNum 8000), (''ort'', JStr ''1.18.1''),
        (''python'', JStr ''3.11.9'')]\<rparr>]"

definition SDK_VERSION :: string where "SDK_VERSION = ''0.5.0''"

definition client_of :: "nat \<Rightarrow> fleet_profile \<Rightarrow> string" where
  "client_of fi p = ''fleet_'' @ str_of_nat fi @ ''_'' @ takeWhile (\<lambda>c. c \<noteq> CHR ''.'') (fp_host p)"

definition fleet_event :: "deployment_row \<Rightarrow> model_row \<Rightarrow> instant \<Rightarrow> int \<Rightarrow> string \<Rightarrow> real \<Rightarrow> draws \<Rightarrow> event_row" where
  "fleet_event dep m now hours client base dr =
     (let success = dr_error dr 0 > 4 / 1000
      in (sim_row dep m (iso (pick_time now hours dr)) (if success then base * exp (dr_jitter dr) else 0) success)
           \<lparr>ev_pre := Some (py_round 3 (uniform (1 / 5) (7 / 10) (dr_pre dr))), ev_post := Some (py_round 3 (uniform (1 / 10) (2 / 5) (dr_post dr))),
            ev_client := Some client, ev_input_sig := Some ''input:1x3x224x224:float32''\<rparr>)"

text \<open>The draws of a snapshot: processor, memory, rate, and load, memory and temperature of the accelerator.\<close>

record snapshot_draws =
  sd_cpu :: real
  sd_rss :: real
  sd_rate :: real
  sd_util :: real
  sd_mem :: real
  sd_temp :: real

definition SNAPS_PER_HOST :: nat where "SNAPS_PER_HOST = 8"

definition uniform_in :: "real \<times> real \<Rightarrow> real \<Rightarrow> real" where
  "uniform_in r u = uniform (fst r) (snd r) u"

definition fleet_snapshot ::
  "deployment_row \<Rightarrow> model_row \<Rightarrow> instant \<Rightarrow> int \<Rightarrow> string \<Rightarrow> fleet_profile \<Rightarrow> real \<Rightarrow> nat \<Rightarrow> snapshot_draws \<Rightarrow> snapshot_row" where
  "fleet_snapshot dep m now hours client p rate si sd =
     \<lparr>sn_user = md_user m, sn_model = md_id m, sn_deployment = dp_id dep, sn_client = client,
      sn_ts = iso (sim_time now hours (of_int hours * (of_nat si + 1 / 2) / of_nat SNAPS_PER_HOST)),
      sn_cpu = py_round 2 (uniform_in (fp_cpu p) (sd_cpu sd)), sn_rss = py_round 1 (uniform 220 680 (sd_rss sd)),
      sn_throughput = py_round 2 (rate * uniform (4 / 5) (6 / 5) (sd_rate sd)), sn_dropped = 0, sn_sdk_version = SDK_VERSION,
      sn_runtime = AList.update ''host'' (JStr (fp_host p)) (fp_runtime p),
      sn_gpu_util = map_option (\<lambda>(util, _, _). py_round 2 (uniform_in util (sd_util sd))) (fp_gpu p),
      sn_gpu_mem = map_option (\<lambda>(_, mem, _). py_round 1 (uniform_in mem (sd_mem sd))) (fp_gpu p),
      sn_gpu_temp = map_option (\<lambda>(_, _, temp). py_round 1 (uniform_in temp (sd_temp sd))) (fp_gpu p)\<rparr>"

text \<open>The draws of a window: six classes, six shares, 64 confidences, and the means.\<close>

record window_draws =
  wd_classes :: "nat list"
  wd_shares :: "real list"
  wd_confidences :: "real list"
  wd_conf :: real
  wd_entropy :: real
  wd_mean :: real
  wd_std :: real

definition class_shares :: "window_draws \<Rightarrow> (string \<times> json) list" where
  "class_shares wd =
     (let shares = rev (sort (wd_shares wd)); all_shares = sum_list shares
      in zip (map str_of_nat (wd_classes wd)) (map (\<lambda>s. JNum (py_round 4 (s / (if all_shares = 0 then 1 else all_shares)))) shares))"

definition bump :: "real \<Rightarrow> nat list \<Rightarrow> nat list" where
  "bump g hist = (let b = min 15 (nat \<lfloor>\<bar>g\<bar>\<rfloor>) in hist[b := hist ! b + 1])"

definition fleet_output :: "window_draws \<Rightarrow> (string \<times> json) list" where
  "fleet_output wd =
     [(''classDist'', JObj (class_shares wd)),
      (''hist'', JList (map (\<lambda>n. JNum (of_nat n)) (fold bump (wd_confidences wd) (replicate 16 0)))),
      (''top1ConfMean'', JNum (py_round 4 (uniform (31 / 50) (23 / 25) (wd_conf wd)))),
      (''entropyMean'', JNum (py_round 4 (uniform (2 / 5) (8 / 5) (wd_entropy wd))))]"

definition fleet_input :: "window_draws \<Rightarrow> window_stat" where
  "fleet_input wd = \<lparr>is_mean = py_round 4 (uniform (- 1 / 10) (1 / 10) (wd_mean wd)), is_std = py_round 4 (uniform (9 / 10) (11 / 10) (wd_std wd)),
     ws_min = - 4, ws_max = 4, ws_nan_pct = 0\<rparr>"

definition fleet_window :: "deployment_row \<Rightarrow> model_row \<Rightarrow> instant \<Rightarrow> int \<Rightarrow> string \<Rightarrow> nat \<Rightarrow> nat \<Rightarrow> window_draws \<Rightarrow> window_row" where
  "fleet_window dep m now hours client per_host wi wd =
     (let w0 = sim_time now hours (of_int hours * of_nat wi / 3)
      in \<lparr>wn_user = md_user m, wn_model = md_id m, wn_deployment = dp_id dep, wn_client = client, wn_start = iso w0, wn_end = iso (w0 + 2 * MINUTE),
          wn_n = per_host div 3, wn_inputs = Some [(''input'', fleet_input wd)], wn_output = Some (fleet_output wd)\<rparr>)"

record fleet_draws =
  fd_event :: "nat \<Rightarrow> nat \<Rightarrow> draws"
  fd_snapshot :: "nat \<Rightarrow> nat \<Rightarrow> snapshot_draws"
  fd_window :: "nat \<Rightarrow> nat \<Rightarrow> window_draws"

definition per_host_of :: "int \<Rightarrow> nat" where
  "per_host_of n_events = nat (max 1 (n_events div int (length FLEET)))"

definition fleet_events :: "deployment_row \<Rightarrow> model_row \<Rightarrow> instant \<Rightarrow> int \<Rightarrow> nat \<Rightarrow> fleet_draws \<Rightarrow> event_row list" where
  "fleet_events dep m now hours per_host fd = concat (map (\<lambda>(fi, p).
     map (\<lambda>i. fleet_event dep m now hours (client_of fi p) (fp_infer p) (fd_event fd fi i)) [0..<per_host]) (enumerate 0 FLEET))"

definition fleet_snapshots :: "deployment_row \<Rightarrow> model_row \<Rightarrow> instant \<Rightarrow> int \<Rightarrow> nat \<Rightarrow> fleet_draws \<Rightarrow> snapshot_row list" where
  "fleet_snapshots dep m now hours per_host fd = concat (map (\<lambda>(fi, p).
     map (\<lambda>si. fleet_snapshot dep m now hours (client_of fi p) p (of_nat per_host / max (1 / 1000000) (of_int hours * 60)) si (fd_snapshot fd fi si))
       [0..<SNAPS_PER_HOST]) (enumerate 0 FLEET))"

definition fleet_windows :: "deployment_row \<Rightarrow> model_row \<Rightarrow> instant \<Rightarrow> int \<Rightarrow> nat \<Rightarrow> fleet_draws \<Rightarrow> window_row list" where
  "fleet_windows dep m now hours per_host fd = concat (map (\<lambda>(fi, p).
     map (\<lambda>wi. fleet_window dep m now hours (client_of fi p) per_host wi (fd_window fd fi wi)) [0..<3]) (enumerate 0 FLEET))"

record fleet_summary =
  fs_deployment :: string
  fs_hosts :: nat
  fs_events :: nat
  fs_snapshots :: nat
  fs_gpu_hosts :: nat
  fs_devices :: "json list"

definition device_name :: "fleet_profile \<Rightarrow> json" where
  "device_name p = (case map_of (fp_runtime p) ''gpuName'' of
     Some (JStr s) \<Rightarrow> if s \<noteq> '''' then JStr s else the (map_of (fp_runtime p) ''cpuModel'')
   | _ \<Rightarrow> the (map_of (fp_runtime p) ''cpuModel''))"

definition simulate_fleet :: "instant \<Rightarrow> int \<Rightarrow> int \<Rightarrow> fleet_draws \<Rightarrow> deployment_row \<Rightarrow> model_row \<Rightarrow> db \<Rightarrow> db \<times> fleet_summary" where
  "simulate_fleet now n_events hours fd dep m d =
     (let per_host = per_host_of n_events;
          evs = fleet_events dep m now hours per_host fd;
          d1 = (case newest_ts (map ev_ts evs) of
                  None \<Rightarrow> d
                | Some t \<Rightarrow> if t \<noteq> '''' \<and> (case dp_last_event dep of None \<Rightarrow> True | Some u \<Rightarrow> t > u)
                             then upd_deployment (dp_id dep) (\<lambda>x. x\<lparr>dp_last_event := Some t\<rparr>) d else d)
      in (d1\<lparr>t_events := t_events d1 @ evs, t_snapshots := t_snapshots d1 @ fleet_snapshots dep m now hours per_host fd,
             t_windows := t_windows d1 @ fleet_windows dep m now hours per_host fd\<rparr>,
          \<lparr>fs_deployment = dp_id dep, fs_hosts = length FLEET, fs_events = per_host * length FLEET, fs_snapshots = SNAPS_PER_HOST * length FLEET,
           fs_gpu_hosts = length (filter (\<lambda>p. fp_gpu p \<noteq> None) FLEET), fs_devices = map device_name FLEET\<rparr>))"

section \<open>The request\<close>

definition first_live_deployment :: "db \<Rightarrow> string \<Rightarrow> deployment_row option" where
  "first_live_deployment d model_id =
     (case sort_key (\<lambda>x. (dp_status x = ''paused'', dp_created x)) (filter (\<lambda>x. dp_model x = model_id) (t_deployments d)) of
        [] \<Rightarrow> None | x # _ \<Rightarrow> Some x)"

record simulate_request =
  sq_count :: int
  sq_hours :: int
  sq_incidents :: bool
  sq_fleet :: bool

definition clamp_count :: "int \<Rightarrow> int" where "clamp_count n = max 1 (min n 2000)"
definition clamp_hours :: "int \<Rightarrow> int" where "clamp_hours n = max 1 (min n 168)"

text \<open>Each step commits; what the monitor raises ends the request behind them.\<close>

definition simulate ::
  "bool \<Rightarrow> (payload \<Rightarrow> real option) \<Rightarrow> monitor_settings \<Rightarrow> monitor_env \<Rightarrow> (string \<times> real \<times> real) list \<Rightarrow> (nat \<Rightarrow> draws) \<Rightarrow> fleet_draws
     \<Rightarrow> string \<Rightarrow> string \<Rightarrow> simulate_request \<Rightarrow> db \<Rightarrow> db \<times> (burst_summary \<times> fleet_summary option \<times> nat \<times> nat) result" where
  "simulate enabled p50_of ms env sampled draw fd user model_id q d =
     (if \<not> enabled then (d, raise (HTTPException 403 ''sim_disabled''))
      else case owned_model d model_id user of
          Inl e \<Rightarrow> (d, raise e)
        | Inr m \<Rightarrow> (case first_live_deployment d model_id of
              None \<Rightarrow> (d, raise (HTTPException 409 ''no_deployment''))
            | Some dep \<Rightarrow>
                (let (d1, b) = simulate_burst p50_of (me_now env) (clamp_count (sq_count q)) (clamp_hours (sq_hours q)) (sq_incidents q) sampled draw dep m d;
                     (d2, f) = (if sq_fleet q then apsnd Some (simulate_fleet (me_now env) (clamp_count (sq_count q)) (clamp_hours (sq_hours q)) fd dep m d1)
                                else (d1, None))
                 in apsnd (map_sum id (\<lambda>r. (b, f, r))) (drift_monitor_pass ms env d2))))"

section \<open>The fleet is five devices\<close>

text \<open>What each device would send: the same values, before the intake's rounding.\<close>

definition fleet_client_event :: "string \<Rightarrow> instant \<Rightarrow> int \<Rightarrow> real \<Rightarrow> draws \<Rightarrow> client_event" where
  "fleet_client_event region now hours base dr =
     (let success = dr_error dr 0 > 4 / 1000
      in \<lparr>ce_ts = iso (pick_time now hours dr), ce_latency = (if success then base * exp (dr_jitter dr) else 0),
          ce_pre = Some (uniform (1 / 5) (7 / 10) (dr_pre dr)), ce_post = Some (uniform (1 / 10) (2 / 5) (dr_post dr)),
          ce_success = success, ce_error = (if success then None else Some ''inference_error''), ce_batch_size = 1, ce_region = region,
          ce_input_sig = Some ''input:1x3x224x224:float32''\<rparr>)"

definition str_field :: "(string \<times> json) list \<Rightarrow> string \<Rightarrow> string" where
  "str_field rt k = (case map_of rt k of Some (JStr s) \<Rightarrow> s | _ \<Rightarrow> '''')"

definition num_field :: "(string \<times> json) list \<Rightarrow> string \<Rightarrow> real" where
  "num_field rt k = (case map_of rt k of Some (JNum x) \<Rightarrow> x | _ \<Rightarrow> 0)"

definition fleet_client_snapshot :: "instant \<Rightarrow> int \<Rightarrow> fleet_profile \<Rightarrow> real \<Rightarrow> nat \<Rightarrow> snapshot_draws \<Rightarrow> client_snapshot" where
  "fleet_client_snapshot now hours p rate si sd =
     (let rt = fp_runtime p
      in \<lparr>cs_ts = iso (sim_time now hours (of_int hours * (of_nat si + 1 / 2) / of_nat SNAPS_PER_HOST)),
          cs_cpu = uniform_in (fp_cpu p) (sd_cpu sd), cs_rss = py_round 1 (uniform 220 680 (sd_rss sd)),
          cs_throughput = rate * uniform (4 / 5) (6 / 5) (sd_rate sd), cs_dropped = 0, cs_sdk_version = SDK_VERSION,
          cs_python = str_field rt ''python'', cs_ort = str_field rt ''ort'', cs_os = str_field rt ''os'', cs_arch = str_field rt ''arch'',
          cs_provider = str_field rt ''provider'', cs_host = fp_host p, cs_cpu_model = str_field rt ''cpuModel'',
          cs_cpu_cores = \<lfloor>num_field rt ''cpuCores''\<rfloor>, cs_ram_total = num_field rt ''ramTotalMb'',
          cs_available_providers = str_field rt ''availableProviders'', cs_active_provider = str_field rt ''activeProvider'',
          cs_gpu_name = str_field rt ''gpuName'', cs_gpu_count = \<lfloor>num_field rt ''gpuCount''\<rfloor>, cs_gpu_mem_total = num_field rt ''gpuMemTotalMb'',
          cs_cuda = str_field rt ''cudaVersion'', cs_driver = str_field rt ''driverVersion'',
          cs_gpu_util = map_option (\<lambda>(util, _, _). uniform_in util (sd_util sd)) (fp_gpu p),
          cs_gpu_mem_used = map_option (\<lambda>(_, mem, _). uniform_in mem (sd_mem sd)) (fp_gpu p),
          cs_gpu_temp = map_option (\<lambda>(_, _, temp). uniform_in temp (sd_temp sd)) (fp_gpu p)\<rparr>)"

definition fleet_client_window :: "instant \<Rightarrow> int \<Rightarrow> nat \<Rightarrow> nat \<Rightarrow> window_draws \<Rightarrow> client_window" where
  "fleet_client_window now hours per_host wi wd =
     (let w0 = sim_time now hours (of_int hours * of_nat wi / 3)
      in \<lparr>cw_start = iso w0, cw_end = iso (w0 + 2 * MINUTE), cw_n = per_host div 3, cw_inputs = [(''input'', fleet_input wd)],
          cw_output = fleet_output wd\<rparr>)"

definition fleet_batch :: "string \<Rightarrow> instant \<Rightarrow> int \<Rightarrow> nat \<Rightarrow> fleet_draws \<Rightarrow> nat \<times> fleet_profile \<Rightarrow> batch" where
  "fleet_batch region now hours per_host fd = (\<lambda>(fi, p).
     \<lparr>tb_client = client_of fi p, tb_id = None,
      tb_events = map (\<lambda>i. fleet_client_event region now hours (fp_infer p) (fd_event fd fi i)) [0..<per_host],
      tb_snapshots = map (\<lambda>si. fleet_client_snapshot now hours p (of_nat per_host / max (1 / 1000000) (of_int hours * 60)) si (fd_snapshot fd fi si)) [0..<SNAPS_PER_HOST],
      tb_windows = map (\<lambda>wi. fleet_client_window now hours per_host wi (fd_window fd fi wi)) [0..<3]\<rparr>)"

text \<open>A simulated time is within the window, so the intake accepts its stamp.\<close>

lemma sim_time_bounds:
  assumes "0 \<le> x" "x \<le> of_int hours"
  shows "now - hours * HOUR \<le> sim_time now hours x \<and> sim_time now hours x \<le> now"
proof -
  have h: "(0::real) \<le> of_int HOUR" by (simp add: HOUR_def MINUTE_def SECOND_def)
  then have "of_int 0 \<le> x * of_int HOUR" "x * of_int HOUR \<le> of_int (hours * HOUR)"
    using assms by (simp_all add: mult_right_mono)
  then have "0 \<le> hours_delta x" "hours_delta x \<le> hours * HOUR"
    unfolding hours_delta_def using round_half_even_mono [of "of_int 0" "x * of_int HOUR"] round_half_even_mono [of "x * of_int HOUR" "of_int (hours * HOUR)"]
    by (simp_all add: round_half_even_of_int del: of_int_0 of_int_mult)
  then show ?thesis by (simp add: sim_time_def)
qed

definition sim_window :: "instant \<Rightarrow> int \<Rightarrow> bool" where
  "sim_window now hours \<longleftrightarrow> 1 \<le> hours \<and> hours \<le> 168 \<and> in_range (now - hours * HOUR) \<and> in_range now"

lemma sim_time_valid:
  assumes "sim_window now hours" "0 \<le> x" "x \<le> of_int hours"
  shows "valid_ts now (iso (sim_time now hours x))"
proof -
  let ?t = "sim_time now hours x"
  note b = sim_time_bounds [OF assms(2,3), of now]
  have w: "hours \<le> 168" using assms(1) by (simp add: sim_window_def)
  have "in_range ?t" using assms(1) b by (auto simp: sim_window_def in_range_def)
  then have "parse_z (iso ?t) = Some (?t div 1000 * 1000)" using parse_ts_iso by (simp add: parse_z_def parse_ts_def as_utc_def)
  moreover have "?t - 1000 < ?t div 1000 * 1000" "?t div 1000 * 1000 \<le> ?t" by presburger+
  moreover have "hours * HOUR \<le> 168 * HOUR" using w by (intro mult_right_mono) (simp_all add: HOUR_def MINUTE_def SECOND_def)
  ultimately show ?thesis
    using b by (simp add: valid_ts_def PAST_CLAMP_def FUTURE_CLAMP_def DAY_def HOUR_def MINUTE_def SECOND_def)
qed

definition fair :: "draws \<Rightarrow> bool" where
  "fair dr \<longleftrightarrow> unit_draw (dr_frac dr) \<and> unit_draw (dr_again dr) \<and> unit_draw (dr_pre dr) \<and> unit_draw (dr_post dr)"

lemma pick_time_valid:
  assumes "sim_window now hours" "fair dr"
  shows "valid_ts now (iso (pick_time now hours dr))"
proof -
  have "0 \<le> of_int hours * u \<and> of_int hours * u \<le> (of_int hours :: real)" if "unit_draw u" for u
    using that assms(1) mult_left_mono [of u 1 "of_int hours"] by (simp add: unit_draw_def sim_window_def)
  then show ?thesis using assms sim_time_valid by (simp add: pick_time_def fair_def Let_def)
qed

lemma fleet_event_sent:
  assumes "fair dr" "0 \<le> base" "length region \<le> 64"
  shows "event_schema (fleet_client_event region now hours base dr)"
  using assms by (auto simp: event_schema_def fleet_client_event_def uniform_def unit_draw_def fair_def Let_def)

lemma fleet_event_received:
  assumes "dp_region dep \<noteq> ''''" "tb_client b = client"
  shows "event_of dep m b (fleet_client_event (dp_region dep) now hours base dr) = fleet_event dep m now hours client base dr"
  using assms by (simp add: event_of_def fleet_client_event_def fleet_event_def sim_row_def Let_def)

lemma fleet_window_received:
  assumes "tb_client b = client"
  shows "window_of dep m b (fleet_client_window now hours per_host wi wd) = fleet_window dep m now hours client per_host wi wd"
  using assms by (simp add: window_of_def fleet_client_window_def fleet_window_def Let_def)

text \<open>A snapshot row agrees in every column; its runtime names nothing that the intake would have written otherwise.\<close>

definition same_snapshot :: "snapshot_row \<Rightarrow> snapshot_row \<Rightarrow> bool" where
  "same_snapshot s t \<longleftrightarrow> s\<lparr>sn_runtime := []\<rparr> = t\<lparr>sn_runtime := []\<rparr> \<and>
     list_all (\<lambda>(k, v). map_of (sn_runtime t) k = Some v) (sn_runtime s)"

lemma round_rounded: "py_round 2 (py_round 1 x) = py_round 1 x"
proof -
  have "py_round 1 x * 10 ^ 2 = of_int (10 * round_half_even (x * 10))" by (simp add: py_round_def)
  then show ?thesis by (subst py_round_def) (simp only: round_half_even_of_int, simp add: py_round_def)
qed

lemma runtime_keys:
  "map_of (runtime_json s) ''python'' = Some (JStr (take 32 (cs_python s)))" "map_of (runtime_json s) ''ort'' = Some (JStr (take 32 (cs_ort s)))"
  "map_of (runtime_json s) ''os'' = Some (JStr (take 32 (cs_os s)))" "map_of (runtime_json s) ''arch'' = Some (JStr (take 32 (cs_arch s)))"
  "map_of (runtime_json s) ''provider'' = Some (JStr (take 64 (cs_provider s)))" "map_of (runtime_json s) ''host'' = Some (JStr (take 128 (cs_host s)))"
  "map_of (runtime_json s) ''cpuModel'' = Some (JStr (take 96 (cs_cpu_model s)))" "map_of (runtime_json s) ''cpuCores'' = Some (JNum (of_int (cs_cpu_cores s)))"
  "map_of (runtime_json s) ''ramTotalMb'' = Some (JNum (py_round 1 (cs_ram_total s)))"
  "map_of (runtime_json s) ''availableProviders'' = Some (JStr (take 256 (cs_available_providers s)))"
  "map_of (runtime_json s) ''activeProvider'' = Some (JStr (take 64 (if cs_active_provider s = '''' then cs_provider s else cs_active_provider s)))"
  "map_of (runtime_json s) ''gpuName'' = Some (JStr (take 96 (cs_gpu_name s)))" "map_of (runtime_json s) ''gpuCount'' = Some (JNum (of_int (cs_gpu_count s)))"
  "map_of (runtime_json s) ''gpuMemTotalMb'' = Some (JNum (py_round 1 (cs_gpu_mem_total s)))"
  "map_of (runtime_json s) ''cudaVersion'' = Some (JStr (take 32 (cs_cuda s)))" "map_of (runtime_json s) ''driverVersion'' = Some (JStr (take 32 (cs_driver s)))"
  by (simp_all add: runtime_json_def)

lemma fleet_runtime:
  "list_all (\<lambda>p. list_all (\<lambda>(k, v). map_of (runtime_json (fleet_client_snapshot now hours p rate si sd)) k = Some v)
     (AList.update ''host'' (JStr (fp_host p)) (fp_runtime p))) FLEET"
  by (simp add: FLEET_def runtime_keys fleet_client_snapshot_def str_field_def num_field_def)

lemma fleet_snapshot_received:
  assumes "p \<in> set FLEET" "tb_client b = client"
  shows "same_snapshot (fleet_snapshot dep m now hours client p rate si sd) (snapshot_of dep m b (fleet_client_snapshot now hours p rate si sd))"
proof -
  have "(fleet_snapshot dep m now hours client p rate si sd)\<lparr>sn_runtime := []\<rparr>
      = (snapshot_of dep m b (fleet_client_snapshot now hours p rate si sd))\<lparr>sn_runtime := []\<rparr>"
    using assms(2) by (cases "fp_gpu p") (auto simp: fleet_snapshot_def snapshot_of_def fleet_client_snapshot_def SDK_VERSION_def
        round_rounded [unfolded One_nat_def] Let_def)
  moreover have "sn_runtime (snapshot_of dep m b s) = runtime_json s" for s by (simp add: snapshot_of_def)
  moreover have "sn_runtime (fleet_snapshot dep m now hours client p rate si sd) = AList.update ''host'' (JStr (fp_host p)) (fp_runtime p)"
    by (simp add: fleet_snapshot_def)
  ultimately show ?thesis using fleet_runtime assms(1) by (simp add: same_snapshot_def list_all_iff)
qed

lemma fleet_hosts: "map fp_host FLEET = [''ip-10-0-3-12.gpu'', ''ip-10-0-4-21.gpu'', ''edge-snapdragon.local'', ''edge-m3.local'', ''ip-10-0-1-9.cpu'']"
  by (simp add: FLEET_def)

lemma fleet_clients:
  "map (\<lambda>(fi, p). client_of fi p) (enumerate 0 FLEET)
     = [''fleet_0_ip-10-0-3-12'', ''fleet_1_ip-10-0-4-21'', ''fleet_2_edge-snapdragon'', ''fleet_3_edge-m3'', ''fleet_4_ip-10-0-1-9'']"
proof -
  have "str_of_nat 0 = ''0''" "str_of_nat (Suc 0) = ''1''" "str_of_nat (Suc (Suc 0)) = ''2''" "str_of_nat (Suc (Suc (Suc 0))) = ''3''"
    "str_of_nat (Suc (Suc (Suc (Suc 0)))) = ''4''" by code_simp+
  then show ?thesis by (simp add: FLEET_def client_of_def)
qed

lemma fleet_length: "length FLEET = 5"
  using arg_cong [OF fleet_hosts, of length] by simp

lemma fleet_speeds: "p \<in> set FLEET \<Longrightarrow> 0 \<le> fp_infer p"
  by (auto simp: FLEET_def)

lemma side_times:
  "si < SNAPS_PER_HOST \<Longrightarrow> 0 \<le> hours \<Longrightarrow> of_int hours * (of_nat si + 1 / 2) / of_nat SNAPS_PER_HOST \<le> (of_int hours :: real)"
  "wi < 3 \<Longrightarrow> 0 \<le> hours \<Longrightarrow> of_int hours * of_nat wi / 3 \<le> (of_int hours :: real)"
proof -
  assume "si < SNAPS_PER_HOST" "0 \<le> hours"
  then have "real si + 1 / 2 \<le> 8" "(0::real) \<le> of_int hours" by (simp_all add: SNAPS_PER_HOST_def)
  from mult_left_mono [OF this] show "of_int hours * (of_nat si + 1 / 2) / of_nat SNAPS_PER_HOST \<le> (of_int hours :: real)"
    by (simp add: SNAPS_PER_HOST_def)
next
  assume "wi < 3" "0 \<le> hours"
  then have "real wi \<le> 3" "(0::real) \<le> of_int hours" by simp_all
  from mult_left_mono [OF this] show "of_int hours * of_nat wi / 3 \<le> (of_int hours :: real)" by simp
qed

lemma build_fleet_batch:
  assumes "sim_window now hours" "\<And>i. fair (fd_event fd fi i)" "dp_region dep \<noteq> ''''" "p \<in> set FLEET"
    and b_def: "b = fleet_batch (dp_region dep) now hours n fd (fi, p)"
  shows "tx_events (build_batch now dep m b) = map (\<lambda>i. fleet_event dep m now hours (client_of fi p) (fp_infer p) (fd_event fd fi i)) [0..<n]"
    and "list_all2 same_snapshot
      (map (\<lambda>si. fleet_snapshot dep m now hours (client_of fi p) p (of_nat n / max (1 / 1000000) (of_int hours * 60)) si (fd_snapshot fd fi si)) [0..<SNAPS_PER_HOST])
      (tx_snapshots (build_batch now dep m b))"
    and "tx_windows (build_batch now dep m b) = map (\<lambda>wi. fleet_window dep m now hours (client_of fi p) n wi (fd_window fd fi wi)) [0..<3]"
    and "tx_dropped (build_batch now dep m b) = 0"
proof -
  have h: "0 \<le> hours" using assms(1) by (simp add: sim_window_def)
  have c: "tb_client b = client_of fi p" by (simp add: b_def fleet_batch_def)
  have es: "filter (\<lambda>e. valid_ts now (ce_ts e)) (tb_events b) = tb_events b"
    using pick_time_valid [OF assms(1,2)] by (auto simp: filter_id_conv b_def fleet_batch_def fleet_client_event_def Let_def)
  have ss: "filter (\<lambda>s. valid_ts now (cs_ts s)) (tb_snapshots b) = tb_snapshots b"
    using sim_time_valid [OF assms(1)] side_times(1) h by (auto simp: filter_id_conv b_def fleet_batch_def fleet_client_snapshot_def Let_def)
  have ws: "filter (\<lambda>w. valid_ts now (cw_start w)) (tb_windows b) = tb_windows b"
    using sim_time_valid [OF assms(1)] side_times(2) h by (auto simp: filter_id_conv b_def fleet_batch_def fleet_client_window_def Let_def)
  show "tx_events (build_batch now dep m b) = map (\<lambda>i. fleet_event dep m now hours (client_of fi p) (fp_infer p) (fd_event fd fi i)) [0..<n]"
    using es fleet_event_received [OF assms(3) c] by (simp add: build_batch_def Let_def) (simp add: b_def fleet_batch_def)
  show "tx_windows (build_batch now dep m b) = map (\<lambda>wi. fleet_window dep m now hours (client_of fi p) n wi (fd_window fd fi wi)) [0..<3]"
    using ws fleet_window_received [OF c] by (simp add: build_batch_def Let_def) (simp add: b_def fleet_batch_def)
  show "list_all2 same_snapshot
      (map (\<lambda>si. fleet_snapshot dep m now hours (client_of fi p) p (of_nat n / max (1 / 1000000) (of_int hours * 60)) si (fd_snapshot fd fi si)) [0..<SNAPS_PER_HOST])
      (tx_snapshots (build_batch now dep m b))"
    using ss fleet_snapshot_received [OF assms(4) c]
    by (simp add: build_batch_def Let_def) (simp add: b_def fleet_batch_def list_all2_conv_all_nth)
  show "tx_dropped (build_batch now dep m b) = 0" using es ss ws by (simp add: build_batch_def Let_def)
qed

lemma per_host_bounds: "n_events \<le> 2000 \<Longrightarrow> per_host_of n_events \<le> 400"
  by (simp add: per_host_of_def fleet_length)

text \<open>The simulated fleet is what five devices send: there are five batches of different clients that the intake's schema and item limit accept, and the
  events and windows the simulation writes are, row by row, those the intake writes for them, none of them dropped for its time; the snapshots agree in every
  column, and their runtime names nothing the intake would have written otherwise.\<close>

theorem fleet_is_what_devices_send:
  assumes "sim_window now hours" "n_events \<le> 2000" "\<And>fi i. fair (fd_event fd fi i)" "dp_region dep \<noteq> ''''" "length (dp_region dep) \<le> 64"
    and "simulate_fleet now n_events hours fd dep m d = (d', summary)"
  shows "\<exists>batches. length batches = fs_hosts summary \<and> distinct (map tb_client batches) \<and>
    list_all (\<lambda>b. batch_schema b \<and> batch_items b \<le> 600 \<and> tx_dropped (build_batch now dep m b) = 0) batches \<and>
    t_events d' = t_events d @ concat (map (\<lambda>b. tx_events (build_batch now dep m b)) batches) \<and>
    t_windows d' = t_windows d @ concat (map (\<lambda>b. tx_windows (build_batch now dep m b)) batches) \<and>
    (\<exists>snaps. t_snapshots d' = t_snapshots d @ snaps \<and>
       list_all2 same_snapshot snaps (concat (map (\<lambda>b. tx_snapshots (build_batch now dep m b)) batches)))"
proof -
  let ?n = "per_host_of n_events"
  let ?B = "fleet_batch (dp_region dep) now hours ?n fd" and ?F = "enumerate 0 FLEET"
  have F: "p \<in> set FLEET" if "(fi, p) \<in> set ?F" for fi p using that by (auto simp: enumerate_eq_zip dest: set_zip_rightD)
  note tx = build_fleet_batch [OF assms(1) assms(3) assms(4) F refl]
  have d': "t_events d' = t_events d @ fleet_events dep m now hours ?n fd" "t_windows d' = t_windows d @ fleet_windows dep m now hours ?n fd"
    "t_snapshots d' = t_snapshots d @ fleet_snapshots dep m now hours ?n fd" "fs_hosts summary = 5"
    using assms(6) by (auto simp: simulate_fleet_def fleet_length Let_def upd_deployment_def split: option.splits if_splits)
  have clients: "map tb_client (map ?B ?F) = map (\<lambda>(fi, p). client_of fi p) ?F" by (auto simp: fleet_batch_def)
  have "batch_schema (?B x) \<and> batch_items (?B x) \<le> 600" if "x \<in> set ?F" for x
  proof -
    obtain fi p where x: "x = (fi, p)" by (cases x)
    have "client_of fi p \<in> set (map (\<lambda>(fi, p). client_of fi p) ?F)" using that x by force
    then have "client_of fi p \<noteq> ''''" "length (client_of fi p) \<le> 64" unfolding fleet_clients by auto
    moreover have "list_all event_schema (tb_events (?B x))"
      using fleet_event_sent [OF assms(3) fleet_speeds assms(5)] F that x by (auto simp: fleet_batch_def list_all_iff)
    ultimately show ?thesis using per_host_bounds [OF assms(2)] x
      by (simp add: batch_schema_def batch_items_def fleet_batch_def SNAPS_PER_HOST_def)
  qed
  then have ok: "list_all (\<lambda>b. batch_schema b \<and> batch_items b \<le> 600 \<and> tx_dropped (build_batch now dep m b) = 0) (map ?B ?F)"
    using tx(4) by (auto simp: list_all_iff)
  have e: "fleet_events dep m now hours ?n fd = concat (map (\<lambda>x. tx_events (build_batch now dep m (?B x))) ?F)"
    and w: "fleet_windows dep m now hours ?n fd = concat (map (\<lambda>x. tx_windows (build_batch now dep m (?B x))) ?F)"
    unfolding fleet_events_def fleet_windows_def using tx(1,3) by (auto intro!: arg_cong [of _ _ concat] map_cong)
  have s: "list_all2 same_snapshot (fleet_snapshots dep m now hours ?n fd) (concat (map (\<lambda>b. tx_snapshots (build_batch now dep m b)) (map ?B ?F)))"
    unfolding fleet_snapshots_def by (intro concat_transfer [THEN rel_funD]) (auto simp: list_all2_map1 list_all2_map2 list_all2_same intro!: tx(2))
  show ?thesis
    by (rule exI [of _ "map ?B ?F"]) (use d' ok s e w clients fleet_clients fleet_length in \<open>simp add: comp_def\<close>)
qed

text \<open>A burst appends its requests and nothing else: as many as asked for, stamped inside the window, a failed one with no latency; the summary
  counts the failures.  Unlike a device's, its requests name no client.\<close>

lemma incidents_fail_silent:
  "(snd (fold (apply_incident ts dr) ws (lat, success)) = False \<longrightarrow> fst (fold (apply_incident ts dr) ws (lat, success)) = 0)"
  if "success = False \<longrightarrow> lat = 0"
  using that
proof (induction ws arbitrary: lat success)
  case (Cons w ws)
  obtain lat' success' where s: "apply_incident ts dr w (lat, success) = (lat', success')" by force
  then have "success' = False \<longrightarrow> lat' = 0" using Cons.prems by (cases w) (auto simp: apply_incident_def split: if_splits)
  then show ?case using Cons.IH s by simp
qed simp

lemma burst_accounts:
  assumes "sim_window now hours" "\<And>i. fair (draw i)"
    and "simulate_burst p50_of now n_events hours incidents sampled draw dep m d = (d', s)"
  shows "\<exists>rows. d' = d\<lparr>t_events := t_events d @ rows\<rparr> \<and> length rows = nat n_events \<and> bs_errors s = length (filter (\<lambda>e. \<not> ev_success e) rows) \<and>
    list_all (\<lambda>e. valid_ts now (ev_ts e) \<and> (ev_success e \<or> ev_latency e = 0) \<and> ev_client e = None \<and> ev_deployment e = dp_id dep) rows"
proof -
  have ev: "valid_ts now (ev_ts e) \<and> (ev_success e \<or> ev_latency e = 0) \<and> ev_client e = None \<and> ev_deployment e = dp_id dep"
    if e: "e = burst_event dep m base now hours windows (draw i)" for e base windows i
  proof -
    obtain lat ok' where l: "fold (apply_incident (pick_time now hours (draw i)) (draw i)) (enumerate 0 windows) (base * exp (dr_jitter (draw i)), True) = (lat, ok')"
      by force
    then have "ok' \<or> lat = 0" using incidents_fail_silent [of True "base * exp (dr_jitter (draw i))"] by (metis fst_conv snd_conv)
    moreover have "e = sim_row dep m (iso (pick_time now hours (draw i))) lat ok'" using l by (simp add: e burst_event_def Let_def)
    ultimately show ?thesis using pick_time_valid [OF assms(1,2)] by (auto simp: sim_row_def)
  qed
  have row: "list_all (\<lambda>e. valid_ts now (ev_ts e) \<and> (ev_success e \<or> ev_latency e = 0) \<and> ev_client e = None \<and> ev_deployment e = dp_id dep)
      (map (\<lambda>i. burst_event dep m base now hours windows (draw i)) is)" for base windows "is"
  proof (unfold list_all_iff, intro ballI)
    fix e assume "e \<in> set (map (\<lambda>i. burst_event dep m base now hours windows (draw i)) is)"
    then obtain i where "e = burst_event dep m base now hours windows (draw i)" by (auto simp only: set_map)
    then show "valid_ts now (ev_ts e) \<and> (ev_success e \<or> ev_latency e = 0) \<and> ev_client e = None \<and> ev_deployment e = dp_id dep" by (rule ev)
  qed
  define base where "base = base_latency (case find (\<lambda>r. rc_model r = md_id m \<and> rc_kind r = ''benchmark'') (t_cache d) of
      None \<Rightarrow> None | Some r \<Rightarrow> p50_of (rc_payload r))"
  define windows where "windows = (if incidents then pick_incidents now hours sampled else [])"
  define rows where "rows = map (\<lambda>i. burst_event dep m base now hours windows (draw i)) [0..<nat n_events]"
  have "d' = d\<lparr>t_events := t_events d @ rows\<rparr>" "bs_errors s = length (filter (\<lambda>e. \<not> ev_success e) rows)"
    using assms(3) unfolding simulate_burst_def Let_def base_def [symmetric] windows_def [symmetric] rows_def [symmetric] by auto
  moreover have "length rows = nat n_events" by (simp add: rows_def)
  ultimately show ?thesis using row unfolding rows_def by blast
qed

definition calm :: draws where
  "calm = \<lparr>dr_frac = 1 / 2, dr_accept = 0, dr_again = 0, dr_jitter = 0, dr_factor = (\<lambda>_. 0), dr_error = (\<lambda>_. 1 / 2), dr_pre = 0, dr_post = 0\<rparr>"

definition calm_fleet :: fleet_draws where
  "calm_fleet = \<lparr>fd_event = (\<lambda>_ _. calm), fd_snapshot = (\<lambda>_ _. \<lparr>sd_cpu = 0, sd_rss = 0, sd_rate = 0, sd_util = 0, sd_mem = 0, sd_temp = 0\<rparr>),
     fd_window = (\<lambda>_ _. \<lparr>wd_classes = [], wd_shares = [], wd_confidences = [], wd_conf = 0, wd_entropy = 0, wd_mean = 0, wd_std = 0\<rparr>)\<rparr>"

theorem fleet_is_what_devices_send_witness:
  "\<exists>batches. length batches = fs_hosts (snd (simulate_fleet (20000 * DAY) 480 6 calm_fleet (demo_dep\<lparr>dp_region := ''local''\<rparr>) demo_model empty_db)) \<and>
     distinct (map tb_client batches) \<and>
     t_events (fst (simulate_fleet (20000 * DAY) 480 6 calm_fleet (demo_dep\<lparr>dp_region := ''local''\<rparr>) demo_model empty_db))
       = concat (map (\<lambda>b. tx_events (build_batch (20000 * DAY) (demo_dep\<lparr>dp_region := ''local''\<rparr>) demo_model b)) batches)"
proof -
  let ?dep = "demo_dep\<lparr>dp_region := ''local''\<rparr>"
  obtain d' s where r: "simulate_fleet (20000 * DAY) 480 6 calm_fleet ?dep demo_model empty_db = (d', s)" by force
  have "sim_window (20000 * DAY) 6" by (simp add: sim_window_def in_range_def HOUR_def MINUTE_def DAY_def SECOND_def)
  note w = this
  have f: "fair (fd_event calm_fleet fi i)" for fi i by (simp add: calm_fleet_def calm_def fair_def unit_draw_def)
  have g: "(480::int) \<le> 2000" "dp_region ?dep \<noteq> ''''" "length (dp_region ?dep) \<le> 64" by simp_all
  obtain batches where "length batches = fs_hosts s" "distinct (map tb_client batches)"
    "t_events d' = t_events empty_db @ concat (map (\<lambda>b. tx_events (build_batch (20000 * DAY) ?dep demo_model b)) batches)"
    using fleet_is_what_devices_send [OF w g(1) f g(2,3) r] by blast
  moreover have "t_events empty_db = []" by (simp add: empty_db_def)
  ultimately show ?thesis using r by auto
qed

end
