(* ===== verification/Converters.thy ===== *)
theory Converters
  imports Jobs
begin

text \<open>
  The converters to ONNX, \<open>app/engine/converters.py\<close>: Keras by tracing with the fallback to the Keras 2 runtime, TFLite, and frozen TensorFlow graphs
  with the discovery of their inputs and outputs.  The frameworks are a record of what their calls return; a failure is a value, its message and
  the log lines are left out.  The lemmas show which nodes a frozen graph is cut at and what the job makes of a failure.
\<close>

section \<open>The frameworks\<close>

record keras_model =
  km_inputs :: "int option list list"        \<comment> \<open>shapes\<close>

record tf_node =
  tn_name :: string
  tn_op :: string
  tn_inputs :: "string list"

record onnx_result =
  or_bytes :: string
  or_dims :: "int list option"               \<comment> \<open>of the first input, when there is one\<close>

record convert_lib =
  cl_keras :: bool                           \<comment> \<open>TensorFlow, Keras and tf2onnx can be imported\<close>
  cl_load :: "string \<Rightarrow> keras_model result"
  cl_load_legacy :: "string \<Rightarrow> keras_model result"
  cl_trace :: "keras_model \<Rightarrow> int list list \<Rightarrow> onnx_result result"
  cl_tf2onnx :: bool
  cl_tflite :: "string \<Rightarrow> onnx_result result"
  cl_tf :: bool
  cl_graph :: "string \<Rightarrow> tf_node list result"
  cl_from_graph :: "tf_node list \<Rightarrow> string list \<Rightarrow> string list \<Rightarrow> onnx_result result"

datatype conversion_error =
    NotAvailable
  | NotLoaded py_error py_error
  | NoSymbolicInputs
  | NotTraced py_error
  | NotFrozen py_error
  | NoGraphIO "string list" "string list"
  | NotConverted py_error

record converted =
  cv_path :: string
  cv_bytes :: string
  cv_shape :: "int list option"

type_synonym conversion_result = "conversion_error + converted"

section \<open>The converters\<close>

definition path_stem :: "string \<Rightarrow> string" where
  "path_stem p = (let n = path_name p in take (length n - length (path_suffix p)) n)"

definition out_path :: "string \<Rightarrow> string \<Rightarrow> string" where
  "out_path out_dir source = out_dir @ ''/'' @ path_stem source @ ''_converted.onnx''"

definition concrete_dim :: "int option \<Rightarrow> int" where
  "concrete_dim d = (case d of None \<Rightarrow> 1 | Some n \<Rightarrow> n)"

definition first_input_shape :: "onnx_result \<Rightarrow> int list option" where
  "first_input_shape r =
     (case or_dims r of
        None \<Rightarrow> None
      | Some ds \<Rightarrow> if ds = [] then None else Some (map (\<lambda>d. if d > 0 then d else 1) ds))"

definition load_keras :: "convert_lib \<Rightarrow> string \<Rightarrow> conversion_error + keras_model" where
  "load_keras lib source =
     (case cl_load lib source of
        Inr m \<Rightarrow> Inr m
      | Inl e \<Rightarrow> (case cl_load_legacy lib source of Inr m \<Rightarrow> Inr m | Inl e2 \<Rightarrow> Inl (NotLoaded e e2)))"

definition convert_keras :: "convert_lib \<Rightarrow> string \<Rightarrow> string \<Rightarrow> conversion_result" where
  "convert_keras lib out_dir source =
     (if \<not> cl_keras lib then Inl NotAvailable
      else case load_keras lib source of
          Inl e \<Rightarrow> Inl e
        | Inr m \<Rightarrow> (case km_inputs m of
              [] \<Rightarrow> Inl NoSymbolicInputs
            | first # _ \<Rightarrow> (case cl_trace lib m (map (map concrete_dim) (km_inputs m)) of
                  Inl e \<Rightarrow> Inl (NotTraced e)
                | Inr r \<Rightarrow> Inr \<lparr>cv_path = out_path out_dir source, cv_bytes = or_bytes r, cv_shape = Some (map concrete_dim first)\<rparr>)))"

definition convert_tflite :: "convert_lib \<Rightarrow> string \<Rightarrow> string \<Rightarrow> conversion_result" where
  "convert_tflite lib out_dir source =
     (if \<not> cl_tf2onnx lib then Inl NotAvailable
      else case cl_tflite lib source of
          Inl e \<Rightarrow> Inl (NotConverted e)
        | Inr r \<Rightarrow> Inr \<lparr>cv_path = out_path out_dir source, cv_bytes = or_bytes r, cv_shape = first_input_shape r\<rparr>)"

text \<open>\<open>i.split(":")[0].lstrip("^")\<close>: the node an input reads, without the number of the output or the mark of a control edge.\<close>

definition node_read :: "string \<Rightarrow> string" where
  "node_read i = dropWhile (\<lambda>c. c = CHR ''^'') (takeWhile (\<lambda>c. c \<noteq> CHR '':'') i)"

definition graph_inputs :: "tf_node list \<Rightarrow> string list" where
  "graph_inputs g = map tn_name (filter (\<lambda>n. tn_op n = ''Placeholder'') g)"

definition graph_outputs :: "tf_node list \<Rightarrow> string list" where
  "graph_outputs g =
     (let consumed = concat (map (\<lambda>n. map node_read (tn_inputs n)) g)
      in map tn_name (filter (\<lambda>n. tn_name n \<notin> set consumed \<and> tn_op n \<notin> {''Const'', ''Placeholder'', ''NoOp'', ''Assert''}) g))"

definition convert_frozen_pb :: "convert_lib \<Rightarrow> string \<Rightarrow> string \<Rightarrow> conversion_result" where
  "convert_frozen_pb lib out_dir source =
     (if \<not> cl_tf lib then Inl NotAvailable
      else case cl_graph lib source of
          Inl e \<Rightarrow> Inl (NotFrozen e)
        | Inr g \<Rightarrow>
            (let ins = graph_inputs g; outs = graph_outputs g
             in if ins = [] \<or> outs = [] then Inl (NoGraphIO (take 3 ins) (take 3 outs))
                else case cl_from_graph lib g (map (\<lambda>p. p @ '':0'') ins) (map (\<lambda>q. q @ '':0'') (take 1 outs)) of
                    Inl e \<Rightarrow> Inl (NotConverted e)
                  | Inr r \<Rightarrow> Inr \<lparr>cv_path = out_path out_dir source, cv_bytes = or_bytes r, cv_shape = first_input_shape r\<rparr>))"

text \<open>What the job sees of a converter: every failure is a \<open>ConversionError\<close>.\<close>

definition converters :: "(conversion_error \<Rightarrow> string) \<Rightarrow> convert_lib \<Rightarrow> string \<Rightarrow> route \<Rightarrow> string \<Rightarrow> string conversion" where
  "converters text_of lib out_dir r source =
     (case (case r of R_Keras \<Rightarrow> convert_keras lib out_dir source | R_TFLite \<Rightarrow> convert_tflite lib out_dir source
                    | _ \<Rightarrow> convert_frozen_pb lib out_dir source) of
        Inr c \<Rightarrow> Converted (cv_path c)
      | Inl e \<Rightarrow> ConversionUnavailable (text_of e))"

section \<open>Where a frozen graph is cut\<close>

text \<open>A frozen graph is converted between its own ends: the inputs are exactly the placeholders, in the graph's order, and the output is the first
  operator that no node of the graph reads, whether a value or only its control edge; the shape that is returned has positive dimensions.\<close>

theorem frozen_graph_is_cut_at_its_ends:
  assumes "convert_frozen_pb lib out_dir source = Inr c"
  shows "\<exists>g q r. cl_graph lib source = ok g \<and> cl_from_graph lib g (map (\<lambda>p. p @ '':0'') (graph_inputs g)) [q @ '':0''] = ok r \<and> cv_bytes c = or_bytes r \<and>
    (\<exists>n \<in> set g. tn_name n = q \<and> tn_op n \<noteq> ''Placeholder'' \<and> tn_op n \<noteq> ''Const'') \<and>
    (\<forall>n \<in> set g. \<forall>i \<in> set (tn_inputs n). node_read i \<noteq> q) \<and>
    (\<forall>p. p \<in> set (graph_inputs g) \<longleftrightarrow> (\<exists>n \<in> set g. tn_name n = p \<and> tn_op n = ''Placeholder'')) \<and>
    (\<forall>ds. cv_shape c = Some ds \<longrightarrow> ds \<noteq> [] \<and> list_all (\<lambda>d. 0 < d) ds)"
proof -
  obtain g r where g: "cl_graph lib source = ok g" "graph_outputs g \<noteq> []"
    "cl_from_graph lib g (map (\<lambda>p. p @ '':0'') (graph_inputs g)) (map (\<lambda>q. q @ '':0'') (take 1 (graph_outputs g))) = ok r"
    "c = \<lparr>cv_path = out_path out_dir source, cv_bytes = or_bytes r, cv_shape = first_input_shape r\<rparr>"
    using assms by (auto simp: convert_frozen_pb_def Let_def split: if_splits sum.splits)
  then obtain q rest where q: "graph_outputs g = q # rest" by (cases "graph_outputs g") auto
  then have "q \<in> set (graph_outputs g)" by simp
  then have "(\<exists>n \<in> set g. tn_name n = q \<and> tn_op n \<noteq> ''Placeholder'' \<and> tn_op n \<noteq> ''Const'') \<and> (\<forall>n \<in> set g. \<forall>i \<in> set (tn_inputs n). node_read i \<noteq> q)"
    by (auto simp: graph_outputs_def Let_def) (metis imageI)
  moreover have "\<forall>p. p \<in> set (graph_inputs g) \<longleftrightarrow> (\<exists>n \<in> set g. tn_name n = p \<and> tn_op n = ''Placeholder'')" by (auto simp: graph_inputs_def)
  moreover have "\<forall>ds. cv_shape c = Some ds \<longrightarrow> ds \<noteq> [] \<and> list_all (\<lambda>d. 0 < d) ds"
    by (auto simp: g(4) first_input_shape_def list_all_iff split: option.splits if_splits)
  moreover have "cl_from_graph lib g (map (\<lambda>p. p @ '':0'') (graph_inputs g)) [q @ '':0''] = ok r" using g(3) q by simp
  moreover have "cv_bytes c = or_bytes r" by (simp add: g(4))
  ultimately show ?thesis using g(1) by blast
qed

text \<open>Only the first output is kept: what the library is asked for does not depend on the others.\<close>

definition two_heads :: "tf_node list" where
  "two_heads = [\<lparr>tn_name = ''x'', tn_op = ''Placeholder'', tn_inputs = []\<rparr>, \<lparr>tn_name = ''w'', tn_op = ''Const'', tn_inputs = []\<rparr>,
     \<lparr>tn_name = ''body'', tn_op = ''MatMul'', tn_inputs = [''x:0'', ''w'']\<rparr>, \<lparr>tn_name = ''boxes'', tn_op = ''Identity'', tn_inputs = [''body'']\<rparr>,
     \<lparr>tn_name = ''scores'', tn_op = ''Softmax'', tn_inputs = [''body'']\<rparr>]"

lemma two_heads_ends: "graph_inputs two_heads = [''x''] \<and> graph_outputs two_heads = [''boxes'', ''scores'']"
  by code_simp

lemma second_output_is_dropped:
  assumes "cl_tf lib" "cl_graph lib source = ok two_heads"
  shows "convert_frozen_pb lib out_dir source =
    (case cl_from_graph lib two_heads [''x:0''] [''boxes:0''] of
       Inl e \<Rightarrow> Inl (NotConverted e)
     | Inr r \<Rightarrow> Inr \<lparr>cv_path = out_path out_dir source, cv_bytes = or_bytes r, cv_shape = first_input_shape r\<rparr>)"
  using assms two_heads_ends by (simp add: convert_frozen_pb_def)

section \<open>What the job makes of it\<close>

text \<open>A Keras file is never lost to its converter: when the conversion fails the job goes on with the weights alone.\<close>

lemma keras_falls_back:
  assumes "pl_convert pl = converters text_of lib out_dir" "route_of path = R_Keras"
  shows "snd (dispatch pl path) =
    (case convert_keras lib out_dir path of
       Inr c \<Rightarrow> ok (None, cv_path c)
     | Inl _ \<Rightarrow> bind_result (pl_load pl R_Keras path) (\<lambda>b. ok (b, path)))"
  using assms by (simp add: dispatch_def converters_def split: sum.split)

text \<open>The Keras 2 runtime is asked when Keras 3 fails, and only then.\<close>

lemma legacy_only_after_failure:
  "load_keras lib source = Inr m \<longleftrightarrow> cl_load lib source = ok m \<or> (\<exists>e. cl_load lib source = raise e) \<and> cl_load_legacy lib source = ok m"
  by (auto simp: load_keras_def split: sum.splits)

definition demo_lib :: convert_lib where
  "demo_lib = \<lparr>cl_keras = False, cl_load = (\<lambda>_. raise TypeError), cl_load_legacy = (\<lambda>_. raise TypeError), cl_trace = (\<lambda>_ _. raise TypeError),
     cl_tf2onnx = False, cl_tflite = (\<lambda>_. raise TypeError), cl_tf = True, cl_graph = (\<lambda>_. ok two_heads),
     cl_from_graph = (\<lambda>_ _ _. ok \<lparr>or_bytes = ''onnx'', or_dims = Some [- 1, 4]\<rparr>)\<rparr>"

lemma demo_conversion:
  "convert_frozen_pb demo_lib ''w'' ''net.pb'' = Inr \<lparr>cv_path = out_path ''w'' ''net.pb'', cv_bytes = ''onnx'', cv_shape = Some [1, 4]\<rparr>"
  using second_output_is_dropped [of demo_lib "''net.pb''" "''w''"] by (simp add: demo_lib_def first_input_shape_def)

theorem frozen_graph_is_cut_at_its_ends_witness:
  "\<exists>g q. cl_graph demo_lib ''net.pb'' = ok g \<and>
     cl_from_graph demo_lib g (map (\<lambda>p. p @ '':0'') (graph_inputs g)) [q @ '':0''] = ok \<lparr>or_bytes = ''onnx'', or_dims = Some [- 1, 4]\<rparr>"
proof -
  obtain g q r where "cl_graph demo_lib ''net.pb'' = ok g"
    "cl_from_graph demo_lib g (map (\<lambda>p. p @ '':0'') (graph_inputs g)) [q @ '':0''] = ok r"
    using frozen_graph_is_cut_at_its_ends [OF demo_conversion] by blast
  then show ?thesis by (simp add: demo_lib_def)
qed

end
