(* ===== verification/Artifact_Info.thy ===== *)
theory Artifact_Info
  imports Registry
begin

text \<open>
  What the service says about a compressed artifact and about itself: \<open>model_artifact_info\<close> in \<open>app/routers/models.py\<close>, the documentation rows of
  \<open>app/seed.py\<close> with their two readers in \<open>app/routers/sdk.py\<close>, the table of \<open>app/routers/meta.py\<close>, and the database address of \<open>app/db.py\<close>.
  The ONNX loader and the digest are arguments; the texts of the documentation are one too.  The lemmas show that the description of an artifact
  is that of the bytes the download serves, and that seeding settles.
\<close>

section \<open>The description of an artifact\<close>

record io_spec =
  io_name :: string
  io_shape :: "int list"
  io_dtype :: string

record artifact_card =
  ac_file :: string
  ac_size :: nat
  ac_sha :: string
  ac_kind :: string
  ac_path :: string
  ac_inputs :: "io_spec list option"
  ac_provenance :: "payload option"

text \<open>A loaded graph: the names of its initializers, and its inputs with dimensions and element type.\<close>

type_synonym loaded_graph = "string list \<times> (string \<times> int list \<times> int) list"

definition input_spec :: "(int \<Rightarrow> string result) \<Rightarrow> string \<times> int list \<times> int \<Rightarrow> io_spec result" where
  "input_spec dtype_name = (\<lambda>(name, dims, elem). bind_result (dtype_name elem) (\<lambda>t.
     ok \<lparr>io_name = name, io_shape = map (\<lambda>d. if d > 0 then d else 1) dims, io_dtype = str_lower t\<rparr>))"

text \<open>Best effort: whatever raises on the way leaves the inputs out.\<close>

definition inputs_of :: "(string \<Rightarrow> loaded_graph result) \<Rightarrow> (int \<Rightarrow> string result) \<Rightarrow> string \<Rightarrow> io_spec list option" where
  "inputs_of load dtype_name bytes =
     (case bind_result (load bytes) (\<lambda>(inits, ins). mapM_result (input_spec dtype_name) (filter (\<lambda>i. fst i \<notin> set inits) ins)) of
        Inl _ \<Rightarrow> None
      | Inr specs \<Rightarrow> Some specs)"

definition model_artifact_info ::
  "(string \<Rightarrow> loaded_graph result) \<Rightarrow> (int \<Rightarrow> string result) \<Rightarrow> (string \<Rightarrow> string) \<Rightarrow> string \<Rightarrow> string \<Rightarrow> store \<Rightarrow> db \<Rightarrow> artifact_card result" where
  "model_artifact_info load dtype_name sha user model_id st d =
     bind_result (owned_model d model_id user) (\<lambda>m.
       let key = or_empty (md_artifact_key m) '''' in
       if key = '''' \<or> \<not> store_exists st key then raise (HTTPException 404 ''no_artifact'')
       else bind_result (read_bytes st key) (\<lambda>bytes.
         ok \<lparr>ac_file = path_name key, ac_size = length bytes, ac_sha = sha bytes, ac_kind = (if path_suffix key = ''.onnx'' then ''onnx'' else ''npz''),
             ac_path = ''/api/models/'' @ model_id @ ''/artifact'',
             ac_inputs = (if path_suffix key = ''.onnx'' then inputs_of load dtype_name bytes else None),
             ac_provenance = get_cached_result d model_id ''artifact_meta'' user\<rparr>))"

section \<open>The documentation\<close>

record recipe_row =
  rcp_id :: string
  rcp_title :: string
  rcp_description :: string
  rcp_language :: string
  rcp_steps :: "string list"

record snippet_row =
  sp_language :: string
  sp_filename :: string
  sp_code :: string

type_synonym docs = "snippet_row list \<times> recipe_row list"

definition docs_marker :: "string \<Rightarrow> snippet_row" where
  "docs_marker version = \<lparr>sp_language = ''_meta'', sp_filename = version, sp_code = ''''\<rparr>"

definition seed_if_empty :: "string \<Rightarrow> docs \<Rightarrow> docs \<Rightarrow> docs \<times> bool" where
  "seed_if_empty version content t =
     (case find (\<lambda>r. sp_language r = ''_meta'') (fst t) of
        Some r \<Rightarrow> if sp_filename r = version then (t, False) else ((fst content @ [docs_marker version], snd content), True)
      | None \<Rightarrow> ((fst content @ [docs_marker version], snd content), True))"

definition sdk_snippets :: "docs \<Rightarrow> (string \<times> snippet_row) list" where
  "sdk_snippets t = map (\<lambda>r. (sp_language r, r)) (filter (\<lambda>r. \<not> prefix ''_'' (sp_language r)) (fst t))"

definition sdk_recipes :: "docs \<Rightarrow> recipe_row list" where
  "sdk_recipes t = snd t"

definition sdk_version :: "string option \<Rightarrow> string option \<Rightarrow> string" where
  "sdk_version installed vendored =
     (if or_empty installed '''' \<noteq> '''' then or_empty installed '''' else case vendored of Some v \<Rightarrow> v | None \<Rightarrow> ''0.5.0'')"

definition format_capabilities :: "capability list" where
  "format_capabilities = FORMAT_CAPABILITIES"

section \<open>The address of the database\<close>

definition normalized_url :: "string \<Rightarrow> string" where
  "normalized_url raw =
     (if prefix ''postgresql+'' raw then raw
      else if prefix ''postgresql://'' raw then ''postgresql+psycopg://'' @ drop (length ''postgresql://'') raw
      else if prefix ''postgres://'' raw then ''postgresql+psycopg://'' @ drop (length ''postgres://'') raw
      else raw)"

section \<open>The description is the download's\<close>

text \<open>What the description says is true of the bytes the download serves: its size and digest are theirs; and the two agree on whether there is an
  artifact, for everybody who asks.\<close>

theorem artifact_info_describes_download:
  shows "(\<forall>card. model_artifact_info load dtype_name sha user model_id st d = ok card \<longrightarrow>
      (\<exists>bytes. model_artifact user model_id st d = ok (bytes, ac_size card) \<and> ac_size card = length bytes \<and> ac_sha card = sha bytes \<and>
         (ac_inputs card \<noteq> None \<longrightarrow> ac_kind card = ''onnx''))) \<and>
    (isl (model_artifact_info load dtype_name sha user model_id st d) \<longleftrightarrow> isl (model_artifact user model_id st d))"
proof (cases "owned_model d model_id user")
  case (Inr m)
  show ?thesis
  proof (cases "or_empty (md_artifact_key m) ''''")
    case (Cons c cs)
    then show ?thesis using Inr
      by (cases "store_get st (c # cs)")
        (simp_all add: model_artifact_info_def model_artifact_def store_exists_def read_bytes_def open_stream_def Let_def)
  qed (use Inr in \<open>simp add: model_artifact_info_def model_artifact_def\<close>)
qed (simp add: model_artifact_info_def model_artifact_def)

section \<open>Seeding settles\<close>

text \<open>After a start the documentation is the one of the code's version and a second start changes nothing, from whatever an older version left; the marker
  of the version is not shown.\<close>

lemma seeding_settles:
  assumes "\<And>r. r \<in> set (fst content) \<Longrightarrow> sp_language r \<noteq> ''_meta'' \<and> \<not> prefix ''_'' (sp_language r)" "seed_if_empty version content t = (t', seeded)"
  shows "seed_if_empty version content t' = (t', False) \<and>
    (seeded \<longrightarrow> map snd (sdk_snippets t') = fst content \<and> sdk_recipes t' = snd content) \<and> (\<not> seeded \<longrightarrow> t' = t)"
proof -
  have none: "find (\<lambda>r. sp_language r = ''_meta'') (fst content) = None" using assms(1) by (auto simp: find_None_iff)
  have shown: "filter (\<lambda>r. \<not> prefix ''_'' (sp_language r)) (fst content) = fst content" using assms(1) by (auto intro: filter_True)
  have fresh: "seed_if_empty version content (fst content @ [docs_marker version], snd content) = ((fst content @ [docs_marker version], snd content), False)"
    using none by (simp add: seed_if_empty_def find_append docs_marker_def)
  have "map snd (sdk_snippets (fst content @ [docs_marker version], snd content)) = fst content"
    using shown by (simp add: sdk_snippets_def docs_marker_def comp_def)
  moreover have "t' = t \<and> \<not> seeded \<or> t' = (fst content @ [docs_marker version], snd content) \<and> seeded"
    using assms(2) unfolding seed_if_empty_def by (cases "find (\<lambda>r. sp_language r = ''_meta'') (fst t)") (simp_all split: if_splits)
  ultimately show ?thesis using fresh assms(2) by (elim disjE conjE) (simp_all add: sdk_recipes_def)
qed

lemma normalized_url_examples:
  "normalized_url ''postgres://u:p@h/d'' = ''postgresql+psycopg://u:p@h/d''"
  "normalized_url ''postgresql+asyncpg://h/d'' = ''postgresql+asyncpg://h/d''"
  "normalized_url ''sqlite:///astra.db'' = ''sqlite:///astra.db''"
  by code_simp+

text \<open>Normalizing twice changes nothing.\<close>

lemma normalized_url_idem: "normalized_url (normalized_url raw) = normalized_url raw"
  by (simp add: normalized_url_def prefix_def)

end
