(* ===== verification/Sdk_Cli.thy ===== *)
theory Sdk_Cli
  imports Sdk_Runner
begin

text \<open>
  The command line of the device SDK, \<open>astra_sdk/cli.py\<close>: the required options, the benchmark with its percentiles, and the local endpoint that
  \<open>astra serve\<close> opens in front of the runner.  The parser of arguments, the HTTP server and the texts are left out; an \<open>inputs\<close> value that is no
  object is read as an empty one.  The lemmas show what the benchmark reports and what a caller of the endpoint gets.
\<close>

section \<open>Options\<close>

record cli_args =
  ag_deployment :: "string option"
  ag_api_key :: "string option"
  ag_n :: int

definition missing_options :: "cli_args \<Rightarrow> string list" where
  "missing_options a = (if or_empty (ag_deployment a) '''' = '''' then [''--deployment''] else []) @ (if or_empty (ag_api_key a) '''' = '''' then [''--api-key''] else [])"

section \<open>The benchmark\<close>

text \<open>The runs, each with its own clock readings; the first one that raises ends the loop.\<close>

fun bench_loop :: "('v, 'o) runner_env \<Rightarrow> call_env list \<Rightarrow> real list \<Rightarrow> device option \<Rightarrow> real list result \<times> device option" where
  "bench_loop e [] lats dv = (ok lats, dv)"
| "bench_loop e (c # calls) lats dv =
     (case run e c None ''local'' dv of
        (Inl x, dv1) \<Rightarrow> (raise x, dv1)
      | (Inr r, dv1) \<Rightarrow> bench_loop e calls (lats @ [ru_latency r]) dv1)"

definition latency_at :: "real list \<Rightarrow> real \<Rightarrow> real result" where
  "latency_at lats q = (if lats = [] then raise IndexError else ok (lats ! min (length lats - 1) (nat \<lfloor>q * of_nat (length lats)\<rfloor>)))"

record bench_report =
  br_n :: nat
  br_p50 :: real
  br_p95 :: real
  br_p99 :: real
  br_mean :: real

definition bench_report_of :: "real list \<Rightarrow> bench_report result" where
  "bench_report_of measured =
     (let lats = sort measured
      in bind_result (latency_at lats (1 / 2)) (\<lambda>p50. bind_result (latency_at lats (19 / 20)) (\<lambda>p95. bind_result (latency_at lats (99 / 100)) (\<lambda>p99.
           ok \<lparr>br_n = length lats, br_p50 = py_round 3 p50, br_p95 = py_round 3 p95, br_p99 = py_round 3 p99,
               br_mean = py_round 3 (sum_list lats / of_nat (length lats))\<rparr>))))"

text \<open>The command: the runner is closed before anything is reported, also when a run raised.  \<open>None\<close> is the exit for missing options.\<close>

definition cmd_bench ::
  "cli_args \<Rightarrow> ('v, 'o) runner_env \<Rightarrow> (nat \<Rightarrow> call_env) \<Rightarrow> (device \<Rightarrow> device) \<Rightarrow> device option \<Rightarrow> (bench_report result \<times> device option) option" where
  "cmd_bench a e call close dv =
     (if missing_options a \<noteq> [] then None
      else (let (r, dv1) = bench_loop e (map call [0..<nat (ag_n a)]) [] dv in Some (bind_result r bench_report_of, map_option close dv1)))"

section \<open>The local endpoint\<close>

datatype cli_reply = NotFound | Reply nat json

definition output_json :: "string \<times> nat list \<Rightarrow> json" where
  "output_json p = JObj [(''name'', JStr (fst p)), (''shape'', JList (map (\<lambda>n. JNum (of_nat n)) (snd p))), (''data'', JNull)]"

definition given_inputs :: "json \<Rightarrow> (string \<times> json) list option" where
  "given_inputs v = (case v of JNull \<Rightarrow> None | JObj kvs \<Rightarrow> Some kvs | _ \<Rightarrow> Some [])"

definition error_reply :: "(py_error \<Rightarrow> string) \<Rightarrow> py_error \<Rightarrow> cli_reply" where
  "error_reply text_of x = Reply 400 (JObj [(''error'', JStr (text_of x))])"

text \<open>\<open>do_POST\<close>: \<open>body\<close> is what was read, \<open>loads\<close> the parser of JSON.\<close>

definition do_post ::
  "(py_error \<Rightarrow> string) \<Rightarrow> (string \<Rightarrow> json result) \<Rightarrow> (json, 'o) runner_env \<Rightarrow> call_env \<Rightarrow> string \<Rightarrow> string result \<Rightarrow> device option \<Rightarrow> cli_reply \<times> device option" where
  "do_post text_of loads e c path body dv =
     (if strip_slash path \<noteq> ''/infer'' then (NotFound, dv)
      else case bind_result body (\<lambda>b. loads (if b = '''' then ''{}'' else b)) of
          Inl x \<Rightarrow> (error_reply text_of x, dv)
        | Inr (JObj kvs) \<Rightarrow>
            (case run e c (given_inputs (case map_of kvs ''inputs'' of None \<Rightarrow> JNull | Some v \<Rightarrow> v)) ''local'' dv of
               (Inl x, dv1) \<Rightarrow> (error_reply text_of x, dv1)
             | (Inr r, dv1) \<Rightarrow> (Reply 200 (JObj [(''latencyMs'', JNum (ru_latency r)), (''outputs'', JList (map output_json (ru_outputs r)))]), dv1))
        | Inr _ \<Rightarrow> (error_reply text_of AttributeError, dv))"

section \<open>What the benchmark reports\<close>

lemma latency_at_measured:
  assumes "latency_at (sort xs) q = ok x"
  shows "x \<in> set xs"
  using assms nth_mem [of "min (length xs - 1) (nat \<lfloor>q * real (length xs)\<rfloor>)" "sort xs"]
  by (cases "xs = []") (auto simp: latency_at_def min_less_iff_disj split: if_splits)

lemma latency_at_mono:
  assumes "latency_at (sort xs) p = ok x" "latency_at (sort xs) q = ok y" "p \<le> q"
  shows "x \<le> y"
proof -
  have "xs \<noteq> []" using assms(1) by (auto simp: latency_at_def)
  moreover have "\<lfloor>p * real (length xs)\<rfloor> \<le> \<lfloor>q * real (length xs)\<rfloor>" using assms(3) by (intro floor_mono mult_right_mono) auto
  then have "min (length xs - 1) (nat \<lfloor>p * real (length xs)\<rfloor>) \<le> min (length xs - 1) (nat \<lfloor>q * real (length xs)\<rfloor>)" by (intro min.mono) auto
  moreover have "min (length xs - 1) (nat \<lfloor>q * real (length xs)\<rfloor>) < length (sort xs)" using calculation(1) by (simp add: min_less_iff_disj)
  ultimately show ?thesis using assms(1,2) sorted_nth_mono [OF sorted_sort [of xs]] by (auto simp: latency_at_def split: if_splits)
qed

text \<open>The benchmark reports what it measured: as many requests as were run, percentiles that are latencies of its runs and grow with their rank, and a mean
  between the fastest and the slowest run, all to the microsecond; without a run there is no report but an \<open>IndexError\<close>.\<close>

theorem bench_reports_measurements:
  shows "(xs = [] \<longrightarrow> bench_report_of xs = raise IndexError) \<and>
    (xs \<noteq> [] \<longrightarrow> (\<exists>b. bench_report_of xs = ok b \<and> br_n b = length xs \<and>
       {br_p50 b, br_p95 b, br_p99 b} \<subseteq> py_round 3 ` set xs \<and> br_p50 b \<le> br_p95 b \<and> br_p95 b \<le> br_p99 b \<and>
       py_round 3 (Min (set xs)) \<le> br_mean b \<and> br_mean b \<le> py_round 3 (Max (set xs))))"
proof (cases "xs = []")
  case False
  then have "sort xs \<noteq> []" by (metis length_0_conv length_sort)
  then have "latency_at (sort xs) q = ok (sort xs ! min (length (sort xs) - 1) (nat \<lfloor>q * of_nat (length (sort xs))\<rfloor>))" for q by (simp only: latency_at_def if_False)
  then obtain p50 p95 p99 where p: "latency_at (sort xs) (1 / 2) = ok p50" "latency_at (sort xs) (19 / 20) = ok p95" "latency_at (sort xs) (99 / 100) = ok p99"
    by blast
  let ?m = "sum_list (sort xs) / of_nat (length (sort xs))"
  have "sum_list (sort xs) = sum_list xs" by (metis mset_sort sum_mset_sum_list)
  then have m: "?m = sum_list xs / of_nat (length xs)" by simp
  have "Min (set xs) \<le> ?m" "?m \<le> Max (set xs)"
    using mean_bounds [of xs "Min (set xs)" "Max (set xs)"] False unfolding m by (auto simp: mean_def)
  then have "py_round 3 (Min (set xs)) \<le> py_round 3 ?m" "py_round 3 ?m \<le> py_round 3 (Max (set xs))" by (auto intro: py_round_mono)
  moreover have "py_round 3 p50 \<le> py_round 3 p95" "py_round 3 p95 \<le> py_round 3 p99"
    using latency_at_mono [OF p(1,2)] latency_at_mono [OF p(2,3)] by (auto intro: py_round_mono)
  ultimately show ?thesis using False p latency_at_measured [OF p(1)] latency_at_measured [OF p(2)] latency_at_measured [OF p(3)]
    by (auto simp: bench_report_of_def Let_def)
qed (simp add: bench_report_of_def latency_at_def)

section \<open>What the endpoint returns\<close>

text \<open>An inference over the local endpoint returns no value: two models whose outputs have the same names and shapes, and that take the same time, are
  answered alike, whatever they computed.\<close>

lemma served_inference_has_no_values:
  assumes "do_post text_of loads e c path body dv = (Reply 200 payload, dv1)"
  shows "\<exists>lat outs. payload = JObj [(''latencyMs'', JNum lat), (''outputs'', JList (map output_json outs))] \<and>
    (\<forall>p \<in> set outs. \<exists>kvs. output_json p = JObj kvs \<and> map_of kvs ''data'' = Some JNull)"
  using assms by (auto simp: do_post_def error_reply_def output_json_def split: if_splits sum.splits prod.splits json.splits)

text \<open>A request to another path does not touch the device.\<close>

lemma endpoint_leaves_device: "strip_slash path \<noteq> ''/infer'' \<Longrightarrow> do_post text_of loads e c path body dv = (NotFound, dv)"
  by (simp add: do_post_def)

theorem bench_reports_measurements_witness: "\<exists>b. bench_report_of [3, 1, 2] = ok b \<and> br_n b = 3 \<and> br_p50 b \<le> br_p99 b"
proof -
  from bench_reports_measurements [of "[3, 1, 2]"] obtain b where "bench_report_of [3, 1, 2] = ok b" "br_n b = 3" "br_p50 b \<le> br_p95 b" "br_p95 b \<le> br_p99 b"
    by auto
  then show ?thesis by auto
qed

end
