(* ===== verification/Closed_Loop.thy ===== *)
theory Closed_Loop
  imports Telemetry_Agg
begin

text \<open>
  The way of a request from the device to the chart, across \<open>Client_Telemetry\<close> and \<open>Telemetry_Agg\<close>: however the network repeats and reorders the batches
  of a deployment, the charts of its model count every request of every batch once.
\<close>

lemma batch_id_of_batch: "snd x = snd y \<Longrightarrow> batch_id x = batch_id y"
  by (simp add: batch_id_def)

text \<open>The batches taken are the batches sent, each once.\<close>

lemma taken_are_sent:
  assumes "subseq ys xs" "distinct (map batch_id ys)" "batch_id ` set xs \<subseteq> batch_id ` set ys"
    and "\<And>x y. x \<in> set xs \<Longrightarrow> y \<in> set xs \<Longrightarrow> batch_id x = batch_id y \<Longrightarrow> snd x = snd y"
  shows "mset (map snd ys) = mset (remdups (map snd xs))"
proof -
  have sub: "set ys \<subseteq> set xs" using assms(1) by (auto dest: list_emb_set)
  have "inj_on batch_id (set ys)" "distinct ys" using assms(2) by (simp_all add: distinct_map)
  then have "distinct (map snd ys)" by (auto simp: distinct_map inj_on_def dest: batch_id_of_batch)
  moreover have "set (map snd ys) = set (remdups (map snd xs))"
  proof
    show "set (map snd ys) \<subseteq> set (remdups (map snd xs))" using sub by auto
    show "set (remdups (map snd xs)) \<subseteq> set (map snd ys)"
    proof
      fix b assume "b \<in> set (remdups (map snd xs))"
      then obtain x where x: "x \<in> set xs" "b = snd x" by auto
      then obtain y where y: "y \<in> set ys" "batch_id y = batch_id x" using assms(3) by force
      with assms(4) [of y x] x sub have "snd y = b" by blast
      with y show "b \<in> set (map snd ys)" by force
    qed
  qed
  ultimately show ?thesis by (metis set_eq_iff_mset_eq_distinct distinct_remdups)
qed

lemma sum_of_mset: "mset xs = mset ys \<Longrightarrow> sum_list (map f xs) = sum_list (map f ys)" for f :: "'a \<Rightarrow> nat"
  by (metis mset_map sum_mset_sum_list)

lemma delivered_model:
  assumes "\<forall>x \<in> set xs. has_batch_id x" "get_deployment d k = Some dep" "get_model_row d (dp_model dep) = Some m"
  shows "get_model_row (fold (\<lambda>x d. fst (submit_batch batch_max k x d)) xs d) (dp_model dep) = Some m"
  using assms
proof (induction xs arbitrary: d dep)
  case (Cons x xs)
  then obtain dep' where "get_deployment (fst (submit_batch batch_max k x d)) k = Some dep'" "dp_model dep' = dp_model dep"
    "get_model_row (fst (submit_batch batch_max k x d)) (dp_model dep) = Some m"
    using submit_target [of x d k dep m batch_max] by auto
  with Cons.IH [of "fst (submit_batch batch_max k x d)" dep'] Cons.prems(1) show ?case by simp
qed simp

text \<open>The buckets of the raw requests after the deliveries, whatever the range.\<close>

lemma deliveries_in_buckets:
  assumes "\<forall>x \<in> set xs. has_batch_id x \<and> prior_batch (batch_id x) d = None \<and> batch_items (snd x) \<le> batch_max"
    and "\<And>x y. x \<in> set xs \<Longrightarrow> y \<in> set xs \<Longrightarrow> batch_id x = batch_id y \<Longrightarrow> snd x = snd y"
    and "get_deployment d dep_id = Some dep" "get_model_row d (dp_model dep) = Some m"
    and "d' = fold (\<lambda>x d. fst (submit_batch batch_max dep_id x d)) xs d"
    and "bucket_bounds now range_str = (start, size_us, n)" "in_range start" "in_range now"
    and "\<forall>x \<in> set xs. \<forall>e \<in> set (tb_events (snd x)). valid_ts (fst x) (ce_ts e) \<and> (\<exists>t. in_range t \<and> ce_ts e = iso t) \<and> iso start \<le> ce_ts e \<and> ce_ts e < iso now"
    and "\<forall>e \<in> set (window_rows d (md_id m) start now). stamped e"
    and "length (window_rows d (md_id m) start now) + sum_list (map (\<lambda>b. length (tb_events b)) (remdups (map snd xs))) \<le> MAX_EVENTS"
  shows "\<exists>bs. bucket_raw now d' (md_id m) range_str = ok bs \<and> length bs = n \<and> (\<forall>i < n. fst (bs ! i) = start + size_us * int i) \<and>
    sum_list (map (\<lambda>b. snd (snd b)) bs)
      = length (window_rows d (md_id m) start now) + sum_list (map (\<lambda>b. length (tb_events b)) (remdups (map snd xs)))"
proof -
  have keyed: "\<forall>x \<in> set xs. has_batch_id x" using assms(1) by blast
  obtain ys where ys: "subseq ys xs" "distinct (map batch_id ys)" "\<forall>y \<in> set ys. prior_batch (batch_id y) d = None"
    "t_events d' = t_events d @ concat (map (batch_events dep m) ys)"
    "\<forall>i. prior_batch i d' \<noteq> None \<longleftrightarrow> prior_batch i d \<noteq> None \<or> i \<in> batch_id ` set ys"
    by (rule deliveries_taken [OF keyed assms(3-5)])
  have sub: "set ys \<subseteq> set xs" using ys(1) by (auto dest: list_emb_set)
  have "batch_id x \<in> batch_id ` set ys" if "x \<in> set xs" for x
    using delivered_is_known [OF keyed assms(3-5)] ys(5) assms(1) that by blast
  then have sent: "mset (map snd ys) = mset (remdups (map snd xs))"
    by (intro taken_are_sent [OF ys(1,2)] assms(2)) blast
  have new: "ev_model r = md_id m \<and> iso start \<le> ev_ts r \<and> ev_ts r < iso now \<and> stamped r" if "r \<in> set (batch_events dep m y)" "y \<in> set ys" for r y
    using that sub assms(9) by (force simp: batch_events_def event_of_def stamped_def)
  have rows: "window_rows d' (md_id m) start now = window_rows d (md_id m) start now @ concat (map (batch_events dep m) ys)"
    using new by (auto simp: window_rows_def ys(4) intro!: filter_True)
  have "length (batch_events dep m y) = length (tb_events (snd y))" if "y \<in> set ys" for y
    using that sub assms(9) by (auto simp: batch_events_def intro!: arg_cong [of _ _ length] filter_True)
  then have "length (concat (map (batch_events dep m) ys)) = sum_list (map (\<lambda>b. length (tb_events b)) (map snd ys))"
    by (auto simp: length_concat comp_def intro!: arg_cong [of _ _ sum_list])
  also have "\<dots> = sum_list (map (\<lambda>b. length (tb_events b)) (remdups (map snd xs)))" by (rule sum_of_mset [OF sent])
  finally have len: "length (window_rows d' (md_id m) start now)
      = length (window_rows d (md_id m) start now) + sum_list (map (\<lambda>b. length (tb_events b)) (remdups (map snd xs)))" by (simp add: rows)
  have "\<forall>r \<in> set (window_rows d' (md_id m) start now). stamped r" using assms(10) new by (auto simp: rows)
  from buckets_of_rows [OF assms(6) refl this _ assms(7,8)] len assms(11) show ?thesis by auto
qed

text \<open>What the owner's chart shows for one of the ranges that are drawn from the requests themselves.\<close>

lemma raw_series:
  assumes "bucket_raw now d (md_id m) range_str = ok bs" "range_str \<in> {''1h'', ''6h'', ''24h''}" "get_model_row d (md_id m) = Some m"
    "has_any_events d (md_id m)"
  shows "\<exists>pts. telemetry_series now d (md_id m) (md_user m) range_str = ok pts \<and> map pt_t pts = map (iso \<circ> fst) bs \<and>
    map pt_requests pts = map (\<lambda>b. per_minute (fst (snd (bucket_bounds now range_str))) (snd (snd b))) bs"
proof -
  have r: "range_key range_str = range_str" "\<not> use_rollups range_str" using assms(2) by (auto simp: range_key_def use_rollups_def)
  have "owned_model d (md_id m) (md_user m) = ok m" using assms(3) by (simp add: owned_model_def)
  then show ?thesis
    by (simp add: telemetry_series_def assms(4) r series_live_def Let_def try_rollups_def assms(1) comp_def case_prod_beta')
qed

text \<open>C4: Every request is charted once, on the ranges 1h, 6h and 24h, which are drawn from the requests (7d and 30d are drawn from the rollups, where
  there are any, and can miss requests).  Take any sequence of deliveries, with repetitions, of batches that have an id the ledger does not know, where an
  id is never used for two different batches, each within the item limit, all of whose requests the intake accepts when it receives them and
  carry a stamp as the server writes it, inside the chart's window.  Then the owner's chart succeeds and shows the range's buckets, one after the other,
  and the counts it divides by the bucket's length add up to the requests of the model that were in the window before and those of the batches, each batch counted once.  The requests that were
  in the window before must have such stamps too, there must be no more than 200,000 requests in the window, the cap of one
  aggregation, and at least one request of the model at all; without any the chart is empty.\<close>

theorem requests_are_charted_once:
  assumes "range_str \<in> {''1h'', ''6h'', ''24h''}"
    and "\<forall>x \<in> set xs. has_batch_id x \<and> prior_batch (batch_id x) d = None \<and> batch_items (snd x) \<le> batch_max"
    and "\<And>x y. x \<in> set xs \<Longrightarrow> y \<in> set xs \<Longrightarrow> batch_id x = batch_id y \<Longrightarrow> snd x = snd y"
    and "get_deployment d dep_id = Some dep" "get_model_row d (dp_model dep) = Some m"
    and "d' = fold (\<lambda>x d. fst (submit_batch batch_max dep_id x d)) xs d"
    and "bucket_bounds now range_str = (start, size_us, n)" "in_range start" "in_range now"
    and "\<forall>x \<in> set xs. \<forall>e \<in> set (tb_events (snd x)). valid_ts (fst x) (ce_ts e) \<and> (\<exists>t. in_range t \<and> ce_ts e = iso t) \<and> iso start \<le> ce_ts e \<and> ce_ts e < iso now"
    and "\<forall>e \<in> set (window_rows d (md_id m) start now). stamped e"
    and "requests = length (window_rows d (md_id m) start now) + sum_list (map (\<lambda>b. length (tb_events b)) (remdups (map snd xs)))"
      "requests \<le> MAX_EVENTS" "has_any_events d' (md_id m)"
  shows "\<exists>pts counts. telemetry_series now d' (md_id m) (md_user m) range_str = ok pts \<and> length counts = n \<and>
    map pt_t pts = map (\<lambda>i. iso (start + size_us * int i)) [0..<n] \<and> map pt_requests pts = map (per_minute size_us) counts \<and>
    sum_list counts = requests"
proof -
  have few: "length (window_rows d (md_id m) start now) + sum_list (map (\<lambda>b. length (tb_events b)) (remdups (map snd xs))) \<le> MAX_EVENTS"
    using assms(12,13) by simp
  obtain bs where bs: "bucket_raw now d' (md_id m) range_str = ok bs" "length bs = n" "\<forall>i < n. fst (bs ! i) = start + size_us * int i"
    "sum_list (map (\<lambda>b. snd (snd b)) bs) = requests"
    using deliveries_in_buckets [OF assms(2-11) few] unfolding assms(12) by blast
  have keyed: "\<forall>x \<in> set xs. has_batch_id x" using assms(2) by blast
  have "dp_model dep = md_id m" using assms(5) by (auto simp: get_model_row_def find_Some_iff)
  then have "get_model_row d' (md_id m) = Some m" using delivered_model [OF keyed assms(4,5)] by (simp add: assms(6))
  from raw_series [OF bs(1) assms(1) this assms(14)] obtain pts where pts: "telemetry_series now d' (md_id m) (md_user m) range_str = ok pts"
    "map pt_t pts = map (iso \<circ> fst) bs" "map pt_requests pts = map (\<lambda>b. per_minute size_us (snd (snd b))) bs"
    by (auto simp: assms(7))
  have "map (iso \<circ> fst) bs = map (\<lambda>i. iso (start + size_us * int i)) [0..<n]" by (rule nth_equalityI) (simp_all add: bs)
  with pts bs show ?thesis by (intro exI [of _ pts] exI [of _ "map (\<lambda>b. snd (snd b)) bs"]) simp
qed

text \<open>A batch of two requests that the network delivers twice, on an empty table: two requests in the chart.\<close>

definition chart_event :: client_event where "chart_event = demo_event\<lparr>ce_ts := iso DAY\<rparr>"

definition chart_batch :: batch where
  "chart_batch = \<lparr>tb_client = ''sdk'', tb_id = Some ''b1'', tb_events = [chart_event, chart_event], tb_snapshots = [], tb_windows = []\<rparr>"

lemma chart_delivered:
  "list_ex (\<lambda>e. ev_model e = ''m'') (t_events (fold (\<lambda>x d. fst (submit_batch 600 ''dep_1'' x d)) [(DAY, chart_batch), (DAY, chart_batch)] deployed_db))"
proof -
  let ?x = "(DAY, chart_batch)"
  let ?d1 = "fst (submit_batch 600 ''dep_1'' ?x deployed_db)" and ?m = "demo_model\<lparr>md_is_deployed := True, md_status := ''deployed''\<rparr>"
  have k: "has_batch_id ?x" "prior_batch (batch_id ?x) deployed_db = None" "batch_items (snd ?x) \<le> 600"
    by (simp_all add: has_batch_id_def batch_id_def chart_batch_def or_empty_def prior_batch_def deployed_db_def model_db_def empty_db_def batch_items_def)
  have dep: "get_deployment deployed_db ''dep_1'' = Some demo_dep" "get_model_row deployed_db (dp_model demo_dep) = Some ?m"
    by (simp_all add: get_deployment_def get_model_row_def deployed_db_def demo_dep_def demo_model_def)
  note f = submit_fresh [OF k(1) dep k(2,3)]
  have again: "fst (submit_batch 600 ''dep_1'' ?x ?d1) = ?d1" using ledger.known [OF k(1)] f(2) by blast
  have "in_range DAY" by (simp add: in_range_def DAY_def SECOND_def)
  then have "parse_z (iso DAY) = Some DAY" using parse_ts_iso [of DAY] by (simp add: parse_z_def parse_ts_def as_utc_def DAY_def SECOND_def)
  then have "valid_ts DAY (iso DAY)" by (simp add: valid_ts_def PAST_CLAMP_def FUTURE_CLAMP_def DAY_def MINUTE_def SECOND_def)
  then have "event_of demo_dep ?m chart_batch chart_event \<in> set (batch_events demo_dep ?m ?x)"
    by (simp add: batch_events_def chart_batch_def chart_event_def)
  moreover have "ev_model (event_of demo_dep ?m chart_batch chart_event) = ''m''" by (simp add: event_of_def demo_model_def)
  ultimately show ?thesis unfolding list_ex_iff by (simp only: fold_simps again f(1)) auto
qed

theorem requests_are_charted_once_witness:
  "\<exists>pts counts. telemetry_series (DAY + 30 * MINUTE) (fold (\<lambda>x d. fst (submit_batch 600 ''dep_1'' x d)) [(DAY, chart_batch), (DAY, chart_batch)] deployed_db)
       ''m'' ''u'' ''1h'' = ok pts \<and> map pt_requests pts = map (per_minute MINUTE) counts \<and> sum_list counts = 2"
proof -
  let ?xs = "[(DAY, chart_batch), (DAY, chart_batch)]" and ?m = "demo_model\<lparr>md_is_deployed := True, md_status := ''deployed''\<rparr>"
  have r: "in_range (DAY - 30 * MINUTE)" "in_range (DAY + 30 * MINUTE)" "in_range DAY"
    by (simp_all add: in_range_def DAY_def MINUTE_def SECOND_def)
  have o: "iso (DAY - 30 * MINUTE) \<le> iso DAY" "iso DAY < iso (DAY + 30 * MINUTE)"
    using iso_order_iff [OF r(3,1)] iso_order_iff [OF r(3,2)] by (simp_all add: DAY_def MINUTE_def SECOND_def not_less [symmetric])
  have b: "bucket_bounds (DAY + 30 * MINUTE) ''1h'' = (DAY - 30 * MINUTE, MINUTE, 60)"
    by (simp add: bucket_bounds_def range_window_def RANGE_def HOUR_def)
  have keyed: "\<forall>x \<in> set ?xs. has_batch_id x \<and> prior_batch (batch_id x) deployed_db = None \<and> batch_items (snd x) \<le> 600"
    by (simp add: has_batch_id_def batch_id_def chart_batch_def or_empty_def prior_batch_def deployed_db_def model_db_def empty_db_def batch_items_def)
  have one: "\<And>x y. x \<in> set ?xs \<Longrightarrow> y \<in> set ?xs \<Longrightarrow> batch_id x = batch_id y \<Longrightarrow> snd x = snd y" by auto
  have dep: "get_deployment deployed_db ''dep_1'' = Some demo_dep" by (simp add: get_deployment_def deployed_db_def demo_dep_def)
  have m: "get_model_row deployed_db (dp_model demo_dep) = Some ?m" by (simp add: get_model_row_def deployed_db_def demo_dep_def demo_model_def)
  have "parse_z (iso DAY) = Some DAY" using parse_ts_iso [OF r(3)] by (simp add: parse_z_def parse_ts_def as_utc_def DAY_def SECOND_def)
  then have "valid_ts DAY (iso DAY)" by (simp add: valid_ts_def PAST_CLAMP_def FUTURE_CLAMP_def DAY_def MINUTE_def SECOND_def)
  then have st: "\<forall>x \<in> set ?xs. \<forall>e \<in> set (tb_events (snd x)). valid_ts (fst x) (ce_ts e) \<and> (\<exists>t. in_range t \<and> ce_ts e = iso t) \<and>
      iso (DAY - 30 * MINUTE) \<le> ce_ts e \<and> ce_ts e < iso (DAY + 30 * MINUTE)"
    using o r(3) by (auto simp: chart_batch_def chart_event_def)
  have w: "window_rows deployed_db (md_id ?m) (DAY - 30 * MINUTE) (DAY + 30 * MINUTE) = []"
    by (simp add: window_rows_def deployed_db_def model_db_def empty_db_def)
  have s: "sum_list (map (\<lambda>b. length (tb_events b)) (remdups (map snd ?xs))) = 2" by (simp add: chart_batch_def)
  let ?d' = "fold (\<lambda>x d. fst (submit_batch 600 ''dep_1'' x d)) ?xs deployed_db"
  have any: "has_any_events ?d' (md_id ?m)"
    using chart_delivered by (simp add: has_any_events_def demo_model_def)
  have "\<exists>pts counts. telemetry_series (DAY + 30 * MINUTE) ?d' (md_id ?m) (md_user ?m) ''1h'' = ok pts \<and> length counts = 60 \<and>
      map pt_t pts = map (\<lambda>i. iso (DAY - 30 * MINUTE + MINUTE * int i)) [0..<60] \<and> map pt_requests pts = map (per_minute MINUTE) counts \<and>
      sum_list counts = length (window_rows deployed_db (md_id ?m) (DAY - 30 * MINUTE) (DAY + 30 * MINUTE)) +
        sum_list (map (\<lambda>b. length (tb_events b)) (remdups (map snd ?xs)))"
    by (rule requests_are_charted_once [OF _ keyed one dep m refl b r(1,2) st _ refl _ any]) (simp_all only: w s, simp_all add: MAX_EVENTS_def)
  then obtain pts counts where "telemetry_series (DAY + 30 * MINUTE) ?d' (md_id ?m) (md_user ?m) ''1h'' = ok pts"
    "map pt_requests pts = map (per_minute MINUTE) counts" "sum_list counts = 2" unfolding w s by auto
  moreover have "md_id ?m = ''m''" "md_user ?m = ''u''" by (simp_all add: demo_model_def)
  ultimately show ?thesis by (intro exI [of _ pts] exI [of _ counts]) simp
qed

end
