(* ===== verification/Spec2Isabelle.thy ===== *)
theory Spec2Isabelle
  imports Topo_Order Uosa Validation Pareto_Search Storage Lifecycle Retention Telemetry_Views Sdk_Stats Model_Detector
    Architecture_Map Weight_Only Dashboard Arch_Scene Sdk_Facade Accounts Sdk_Runner Feedback Log_Stream Runtime_Config System_Probe Traffic_Sim
    Converters Artifact_Info Sdk_Cli Closed_Loop
begin

text \<open>
  Astra compresses machine learning models and serves them with a fidelity guarantee.  The repository has
  three programs: the compression engine (\<open>astra/\<close>), which analyses an ONNX graph, searches
  compressed variants and gates them; the service (\<open>app/\<close>), which keeps models, runs, deployments, keys
  and telemetry of many tenants in one database and an object store; and the device SDK
  (\<open>clients/python/astra_sdk/\<close>), which runs a deployed model and reports requests.  This development
  models them in that order; this theory imports all of it.

  Engine.  \<open>Onnx_Analyzer\<close> (\<open>graph/onnx_analyzer.py\<close>) reads a graph into operators with categories,
  parameter and FLOP counts and an adjacency table; \<open>Topo_Order\<close> proves Kahn's sort; \<open>Model_Detector\<close>
  classifies the graph.  \<open>Onnx_Runtime\<close> is the interface to onnxruntime.  \<open>Uosa\<close> measures the sensitivity
  of operators (\<open>core/uosa.py\<close>), \<open>Compression_Actions\<close> builds action spaces and concrete actions,
  \<open>Onnx_Transformer\<close> applies them to a graph, \<open>Validation\<close> scores the result, \<open>Guarantee\<close> is the
  ladder of certified rungs and \<open>Pareto_Search\<close> the two-objective search.  The lemmas show that names stay
  defined, that a quantized weight is within half a step, that trees stay aligned, that the ladder returns
  only what its gate accepts and always returns, and that the search keeps its budget and yields the
  non-dominated points.

  Pipeline.  \<open>Calibration\<close> draws the probes (\<open>core/calibration_generator.py\<close>); \<open>Engine_Adapter\<close> is one job from
  the ingested graph to the served artifact and its payloads (\<open>app/engine/adapter.py\<close>, \<open>services/surrogate.py\<close>), which
  calls every theory above; \<open>Architecture_Map\<close> and \<open>Arch_Scene\<close> draw the graph and \<open>Pareto_View\<close> the trials; \<open>Trial_Export\<close>
  rebuilds a trial's file from the stored run (\<open>services/trial_export.py\<close>).  \<open>Weight_Loaders\<close> and \<open>Weight_Only\<close> are the second pipeline,
  for files that hold weights without a graph; \<open>Converters\<close> turns Keras and TensorFlow files into ONNX
  (\<open>engine/converters.py\<close>); \<open>Sdk_Facade\<close> is the engine's own entry point (\<open>astra/sdk.py\<close>, \<open>core/ingestion.py\<close>).
  The lemmas show that only a certified model is served in guarantee mode, by the service and by the facade, that a served trial can be rebuilt
  from its record and is exported byte for byte, that the graph drawn for weights is connected and that its artifact restores the weights
  up to half a step and the float32 rounding.

  Service.  \<open>Db_Rows\<close> holds one record per table (\<open>app/dbmodels.py\<close>), a database being a record of row
  lists; \<open>Py_Time\<close>, \<open>Iso_Order\<close> and \<open>Iso_Roundtrip\<close> the stamps the handlers compare as text; \<open>Formats\<close> names
  and capability checks; \<open>Storage\<close> both object stores behind one contract; \<open>Deployments\<close> keys and deployment
  handlers; \<open>Jobs\<close> the worker; \<open>Registry\<close> the model handlers; \<open>Client_Telemetry\<close> the intake with its batch
  ledger; \<open>Retention\<close> the purge; \<open>Lifecycle\<close> all of these as one step relation with its invariant;
  \<open>Drift_Monitor\<close>, \<open>Telemetry_Agg\<close>, \<open>Telemetry_Views\<close>, \<open>Hardware_Cost\<close> and \<open>Dashboard\<close> the monitoring pass and the
  read side; \<open>Accounts\<close> sign-up, sessions and the Google callback (\<open>routers/auth.py\<close>, \<open>auth/\<close>); \<open>Uploads\<close> the way of a file from the request
  through the object store and the job queue to the worker (\<open>routers/models.py\<close>, \<open>services/queue.py\<close>); \<open>Log_Stream\<close> what a client sees of the run
  (\<open>routers/ingestion.py\<close>); \<open>Feedback\<close> the widget and its issue; \<open>Runtime_Config\<close> the settings, their checks and the start of the process
  (\<open>config.py\<close>, \<open>middleware.py\<close>, \<open>main.py\<close>); \<open>Traffic_Sim\<close> the demo traffic (\<open>services/traffic_sim.py\<close>);
  \<open>Artifact_Info\<close> the description of an artifact, the documentation rows and the database address (\<open>seed.py\<close>, \<open>db.py\<close>, \<open>routers/sdk.py\<close>).  The lemmas show that accounts stay distinct and a changed password ends every session, that an
  upload reaches the worker whole and its model gets an outcome, that the stream sends every line its polls read once, and that a restart heals the tables.

  Interruptions.  A worker may be killed, hang in the engine or raise before its handler: \<open>Jobs.pipeline_commits\<close> lists the states between its uploads and
  commits, one of which it then leaves, \<open>Lifecycle\<close> lets a job end in any of them, and the reaper (\<open>repositories.py\<close>) gives the run its end.  The reaper
  reads the stamps with the interpreter's \<open>fromisoformat\<close>: that of Python 3.11 and later (\<open>fromisoformat_311\<close>) reads them, that of 3.10, which
  the project admits, does not, and there such a run stays; the properties say under which of the two they hold.

  Device.  \<open>Sdk_Reporter\<close> is the reporter with its queues, its spool on disk and its retries, composed with
  the intake of \<open>Client_Telemetry\<close> over an unreliable network; \<open>Sdk_Stats\<close> the statistics it sends; \<open>Sdk_Runner\<close> the inference call that feeds both
  and the pull of the artifact from \<open>Client_Telemetry\<close>'s handlers (\<open>runner.py\<close>); \<open>System_Probe\<close> what the device says about itself and the
  background loop (\<open>system.py\<close>); \<open>Sdk_Cli\<close> the command line with its benchmark and local endpoint (\<open>cli.py\<close>).

  Across the parts.  \<open>Lifecycle\<close> runs the service's handlers together, \<open>Sdk_Reporter\<close> the device and the intake over one network, and \<open>Closed_Loop\<close> the
  intake and the charts: a request that a device sent is charted once in the views of up to a day, however often the network
  repeats its batch; the views of a week and of a month are drawn from rollups, which lose requests (\<open>Drift_Monitor.rollup_forgets_the_first_minute\<close>).

  Correspondence.  A class or row is a \<open>record\<close>, an enumeration a \<open>datatype\<close>, a dictionary an association
  list in insertion order, a handler a function of the database that returns the new one and a result; every
  raise is a \<open>py_error\<close> in a sum (\<open>Prelude\<close>).  One handler reads the clock once, which the argument \<open>now\<close>
  stands for.  Finite floats are reals and \<open>round\<close> is decimal rounding with ties to even, so rounding errors
  of binary arithmetic are not modelled; where NaN or an infinity matters the value is a \<open>py_float\<close>
  (\<open>Py_Float\<close>).  Products that numpy computes in 64 bits wrap at that width.  Texts are lists of
  characters of one byte.

  Termination.  Loops are structural recursions, recursions with a measure (Kahn's loop: open in-degrees
  and queue; the bridging search: nodes not yet seen), or, where the code may loop for ever, partial
  functions whose value \<open>None\<close> is not returning (the depth search over trees); then returning is a theorem
  on the inputs where it holds, and a counterexample is given where it does not.  Retries take the number
  of attempts the code allows as their fuel.

  Parameters.  Code outside the repository is an argument: onnxruntime, its quantizer and the float16
  converter, float16 rounding, the float32 rounding of the weight artifact, argsort and SVD, the sampler and hypervolume of Optuna, numpy's generators
  and histogram, the digest, token generator, clock, time zone, disk and network.  What a theorem needs of
  them is a hypothesis of it, and its witness gives a concrete function.

  Interfaces.  The locale \<open>ledger_sink\<close> states what a sender may rely on and is interpreted by the intake;
  \<open>storage_backend\<close> by both object stores; \<open>dominance\<close> by the points and the losses of the search.

  Not modelled.  Readers of third-party container formats and the exporters behind \<open>Converters\<close>, the password hash and the codec of session tokens
  (parameters of \<open>Accounts\<close>), the rate limiter, the web framework and the pool of database connections, migrations, the scripts that drive a running
  service, the reference models of the test fixtures, and the sentences of logs, of the documentation and of layer descriptions: the last are tables of
  texts in two languages (\<open>viz/layer_descriptions.py\<close>) that no other part reads.
\<close>

end
